(* ===== verification/Prelude.thy ===== *)
theory Prelude
  imports Main "HOL-Library.List_Lexorder" "HOL-Library.Char_ord" "HOL-Library.Product_Lexorder"
    "HOL-Library.AList" "HOL-Library.Sublist"
begin

text \<open>
  Shared vocabulary of the development: the Python values the modelled code computes with
  (instants, errors, ordered dictionaries, \<open>sorted\<close>, \<open>min\<close>/\<open>max\<close> with a key or a default,
  \<open>dict.fromkeys\<close>, decimal rendering of integers), the lemmas every component uses about
  them, and the two locales by which a component states that its operations keep an
  invariant and only move its state forward.
\<close>

section \<open>Values\<close>

text \<open>
  Instants are timezone-aware datetimes, as microseconds since the epoch in UTC; durations are
  microseconds too. Python's integers are unbounded, and so is \<open>int\<close>.
\<close>

type_synonym instant = int
type_synonym duration = int
type_synonym uuid = nat

datatype py_error =
    ValueError string
  | LookupError string
  | KeyError string
  | IntegrityError string
  | InvalidTransitionError string string
  | AssertionError
  | TypeError string
  | RuntimeError string
  | EnrollmentError string
  | AttributeError string
  | StopIteration
  | ProviderIntegrityError string
  | ReplayTrajectoryDivergence

type_synonym 'a result = "py_error + 'a"

text \<open>
  JSON-like values, as \<open>json\<close> and untyped dictionaries hold them (a dictionary may also hold a
  datetime object); a dict keeps insertion order.
\<close>

datatype json =
    JNull
  | JBool bool
  | JInt int
  | JStr string
  | JTime instant
  | JList "json list"
  | JDict "(string \<times> json) list"

text \<open>\<open>bool(value)\<close>\<close>

fun truthy :: "json \<Rightarrow> bool" where
  "truthy JNull = False"
| "truthy (JBool b) = b"
| "truthy (JInt n) = (n \<noteq> 0)"
| "truthy (JStr s) = (s \<noteq> [])"
| "truthy (JTime t) = True"
| "truthy (JList xs) = (xs \<noteq> [])"
| "truthy (JDict d) = (d \<noteq> [])"

definition dict_value :: "(string \<times> json) list \<Rightarrow> string \<Rightarrow> json" where
  "dict_value d k = (case map_of d k of None \<Rightarrow> JNull | Some v \<Rightarrow> v)"

text \<open>\<open>a or b\<close>\<close>

definition py_or :: "json \<Rightarrow> json \<Rightarrow> json" where
  "py_or a b = (if truthy a then a else b)"

definition or_else :: "'a option \<Rightarrow> 'a option \<Rightarrow> 'a option" where
  "or_else a b = (case a of None \<Rightarrow> b | Some _ \<Rightarrow> a)"

text \<open>A raise ends the computation: the bind of the error monad.\<close>

fun and_then :: "'a result \<Rightarrow> ('a \<Rightarrow> 'b result) \<Rightarrow> 'b result" where
  "and_then (Inl e) f = Inl e"
| "and_then (Inr x) f = f x"

lemma and_then_Inr [simp]: "and_then r f = Inr y \<longleftrightarrow> (\<exists>x. r = Inr x \<and> f x = Inr y)"
  by (cases r) auto

fun traverse :: "('a \<Rightarrow> 'b result) \<Rightarrow> 'a list \<Rightarrow> 'b list result" where
  "traverse f [] = Inr []"
| "traverse f (x # xs) = and_then (f x) (\<lambda>y. and_then (traverse f xs) (\<lambda>ys. Inr (y # ys)))"

lemma traverse_Inr: "(\<And>x. x \<in> set xs \<Longrightarrow> f x = Inr (g x)) \<Longrightarrow> traverse f xs = Inr (map g xs)"
  by (induction xs) auto

lemma traverse_Inr_iff: "traverse f xs = Inr ys \<longleftrightarrow> list_all2 (\<lambda>x y. f x = Inr y) xs ys"
  by (induction xs arbitrary: ys) (auto simp: list_all2_Cons1)

lemma traverse_InrD: "traverse f xs = Inr ys \<Longrightarrow> y \<in> set ys \<Longrightarrow> \<exists>x\<in>set xs. f x = Inr y"
  by (induction xs arbitrary: ys) auto

lemma traverse_total: "(\<And>x. x \<in> set xs \<Longrightarrow> \<exists>y. f x = Inr y) \<Longrightarrow> \<exists>ys. traverse f xs = Inr ys"
  by (induction xs) force+

text \<open>The same for optional values.\<close>

lemma those_map_iff:
  "those (map f xs) = Some ys \<longleftrightarrow> (\<forall>x\<in>set xs. f x \<noteq> None) \<and> ys = map (the \<circ> f) xs"
  by (induction xs arbitrary: ys) (auto split: option.splits)

lemma those_map_Some:
  "those (map f xs) = Some ys \<Longrightarrow> x \<in> set xs \<Longrightarrow> \<exists>y\<in>set ys. f x = Some y"
  unfolding those_map_iff by auto

definition get_key :: "string \<Rightarrow> (string \<times> 'a) list \<Rightarrow> 'a result" where
  "get_key k d = (case map_of d k of None \<Rightarrow> Inl (KeyError k) | Some v \<Rightarrow> Inr v)"

definition second :: duration where
  "second = 1000000"

definition minute :: duration where
  "minute = 60 * second"

fun is_some :: "'a option \<Rightarrow> bool" where
  "is_some None = False"
| "is_some (Some _) = True"

lemma is_some_iff [simp]: "is_some x \<longleftrightarrow> x \<noteq> None"
  by (cases x) auto

named_theorems inv_simps \<open>unfolding rules for the state invariants\<close>
named_theorems step_simps \<open>unfolding rules for the operations\<close>

section \<open>Insertion-ordered collections\<close>

text \<open>\<open>tuple(dict.fromkeys(xs))\<close>: the distinct elements, in order of first occurrence.\<close>

fun dedup :: "'a list \<Rightarrow> 'a list" where
  "dedup [] = []"
| "dedup (x # xs) = x # filter (\<lambda>y. y \<noteq> x) (dedup xs)"

lemma set_dedup [simp]: "set (dedup xs) = set xs"
  by (induction xs) auto

lemma distinct_dedup [simp]: "distinct (dedup xs)"
  by (induction xs) auto

lemma dedup_distinct: "distinct xs \<Longrightarrow> dedup xs = xs"
  by (induction xs) (auto simp: filter_id_conv)

text \<open>
  A Python dict is an association list in insertion order; \<open>d[k] = v\<close> is \<open>AList.update k v d\<close>,
  which overwrites in place or appends. \<open>d.setdefault(k, []).append(v)\<close> is \<open>push k v d\<close>.
\<close>

definition push :: "'k \<Rightarrow> 'v \<Rightarrow> ('k \<times> 'v list) list \<Rightarrow> ('k \<times> 'v list) list" where
  "push k v d = AList.update k ((case map_of d k of None \<Rightarrow> [] | Some vs \<Rightarrow> vs) @ [v]) d"

fun group_by :: "('a \<Rightarrow> 'k) \<Rightarrow> ('a \<Rightarrow> 'v) \<Rightarrow> 'a list \<Rightarrow> ('k \<times> 'v list) list \<Rightarrow> ('k \<times> 'v list) list"
where
  "group_by f g [] d = d"
| "group_by f g (x # xs) d = group_by f g xs (push (f x) (g x) d)"

lemma map_of_push: "map_of (push k v d) =
    (map_of d)(k \<mapsto> (case map_of d k of None \<Rightarrow> [] | Some vs \<Rightarrow> vs) @ [v])"
  by (simp add: push_def update_conv')

lemma distinct_push: "distinct (map fst d) \<Longrightarrow> distinct (map fst (push k v d))"
  by (simp add: push_def distinct_update)

lemma distinct_group_by: "distinct (map fst d) \<Longrightarrow> distinct (map fst (group_by f g xs d))"
  by (induction xs arbitrary: d) (auto simp: distinct_push)

lemma map_of_group_by:
  "map_of (group_by f g xs d) k =
     (if (\<exists>x\<in>set xs. f x = k) \<or> map_of d k \<noteq> None
      then Some ((case map_of d k of None \<Rightarrow> [] | Some vs \<Rightarrow> vs) @ map g (filter (\<lambda>x. f x = k) xs))
      else None)"
  by (induction xs arbitrary: d) (auto simp: map_of_push split: option.splits)

lemma group_by_empty:
  "map_of (group_by f g xs []) k =
     (if \<exists>x\<in>set xs. f x = k then Some (map g (filter (\<lambda>x. f x = k) xs)) else None)"
  by (simp add: map_of_group_by)

text \<open>\<open>s.split(sep)\<close>.\<close>

fun split_on :: "char \<Rightarrow> string \<Rightarrow> string list" where
  "split_on sep [] = [[]]"
| "split_on sep (c # s) =
     (if c = sep then [] # split_on sep s
      else (case split_on sep s of [] \<Rightarrow> [[c]] | p # ps \<Rightarrow> (c # p) # ps))"

section \<open>Sorting, minimum and maximum\<close>

text \<open>\<open>sorted(set(xs))\<close>.\<close>

definition sorted_set :: "'a::linorder list \<Rightarrow> 'a list" where
  "sorted_set xs = sort (remdups xs)"

lemma set_sorted_set [simp]: "set (sorted_set xs) = set xs"
  by (simp add: sorted_set_def)

lemma sorted_sorted_set [simp]: "sorted (sorted_set xs)"
  by (simp add: sorted_set_def)

lemma distinct_sorted_set [simp]: "distinct (sorted_set xs)"
  by (simp add: sorted_set_def)

lemma sorted_set_eq_Nil [simp]: "sorted_set xs = [] \<longleftrightarrow> xs = []"
  by (metis set_empty set_sorted_set)

lemma sorted_set_cong: "set xs = set ys \<Longrightarrow> sorted_set xs = sorted_set ys"
  by (rule sorted_distinct_set_unique) auto

text \<open>\<open>min(xs, default=None)\<close> and \<open>max(xs, default=None)\<close>.\<close>

fun py_min :: "'a::linorder list \<Rightarrow> 'a option" where
  "py_min [] = None"
| "py_min (x # xs) = Some (fold min xs x)"

fun py_max :: "'a::linorder list \<Rightarrow> 'a option" where
  "py_max [] = None"
| "py_max (x # xs) = Some (fold max xs x)"

lemma fold_min_eq: "fold min xs (x::'a::linorder) = Min (set (x # xs))"
  by (rule Min.set_eq_fold [symmetric])

lemma fold_max_eq: "fold max xs (x::'a::linorder) = Max (set (x # xs))"
  by (rule Max.set_eq_fold [symmetric])

lemma py_min_None [simp]: "py_min xs = None \<longleftrightarrow> xs = []"
  by (cases xs) auto

lemma py_max_None [simp]: "py_max xs = None \<longleftrightarrow> xs = []"
  by (cases xs) auto

lemma py_min_Some: "py_min xs = Some m \<longleftrightarrow> m \<in> set xs \<and> (\<forall>x\<in>set xs. m \<le> x)"
proof (cases xs)
  case (Cons y ys)
  have "m = Min (set xs) \<longleftrightarrow> m \<in> set xs \<and> (\<forall>x\<in>set xs. m \<le> x)"
    using Min_eq_iff [of "set xs" m] Cons by auto
  with Cons show ?thesis
    by (auto simp: fold_min_eq simp del: fold_simps)
qed simp

lemma py_max_Some: "py_max xs = Some m \<longleftrightarrow> m \<in> set xs \<and> (\<forall>x\<in>set xs. x \<le> m)"
proof (cases xs)
  case (Cons y ys)
  have "m = Max (set xs) \<longleftrightarrow> m \<in> set xs \<and> (\<forall>x\<in>set xs. x \<le> m)"
    using Max_eq_iff [of "set xs" m] Cons by auto
  with Cons show ?thesis
    by (auto simp: fold_max_eq simp del: fold_simps)
qed simp

text \<open>\<open>max(xs, key=f)\<close>: the first element whose key is largest.\<close>

fun max_by :: "('a \<Rightarrow> 'k::linorder) \<Rightarrow> 'a list \<Rightarrow> 'a option" where
  "max_by f [] = None"
| "max_by f (x # xs) = Some (fold (\<lambda>y best. if f best < f y then y else best) xs x)"

lemma fold_max_by:
  "let b = fold (\<lambda>y best. if f best < f y then y else best) xs x
   in b \<in> set (x # xs) \<and> (\<forall>y\<in>set (x # xs). (f y :: 'k::linorder) \<le> f b)"
proof (induction xs arbitrary: x)
  case Nil
  then show ?case by simp
next
  case (Cons y ys)
  define z where "z = (if f x < f y then y else x)"
  have z: "z \<in> {x, y}" "f x \<le> f z" "f y \<le> f z"
    by (auto simp: z_def)
  have "fold (\<lambda>y best. if f best < f y then y else best) (y # ys) x
      = fold (\<lambda>y best. if f best < f y then y else best) ys z"
    by (simp add: z_def)
  with Cons.IH [of z] z show ?case
    by (auto simp: Let_def intro: order_trans)
qed

lemma max_by_Some:
  assumes "max_by f xs = Some m"
  shows "m \<in> set xs \<and> (\<forall>x\<in>set xs. f x \<le> f m)"
proof (cases xs)
  case (Cons y ys)
  with assms fold_max_by [of f ys y] show ?thesis
    by (simp add: Let_def del: fold_simps)
qed (use assms in simp)

lemma max_by_None [simp]: "max_by f xs = None \<longleftrightarrow> xs = []"
  by (cases xs) auto

text \<open>\<open>next((x for x in xs if p(x)), None)\<close> is the library's \<open>List.find\<close>.\<close>

lemma find_Some_set: "List.find p xs = Some x \<Longrightarrow> x \<in> set xs \<and> p x"
  by (auto simp: find_Some_iff)

lemma find_append:
  "List.find p (xs @ ys) = (case List.find p xs of None \<Rightarrow> List.find p ys | Some x \<Rightarrow> Some x)"
  by (induction xs) auto

lemma find_key:
  assumes "distinct (map k xs)" "x \<in> set xs"
  shows "List.find (\<lambda>y. k y = k x) xs = Some x"
  using assms by (induction xs) (auto simp: rev_image_eqI)

lemma distinct_map_sort_key: "distinct (map k (sort_key f xs)) = distinct (map k xs)"
  by (simp add: distinct_map)

lemma sorted_map_last: "sorted (map f xs) \<Longrightarrow> x \<in> set xs \<Longrightarrow> f x \<le> f (last xs)"
  by (induction xs) (auto simp: last_in_set)

section \<open>Searching strings\<close>

text \<open>\<open>s.strip()\<close> is empty when every character is whitespace (code points below 256).\<close>

definition is_space :: "char \<Rightarrow> bool" where
  "is_space c \<longleftrightarrow> (of_char c :: nat) \<in> {9, 10, 11, 12, 13, 28, 29, 30, 31, 32, 133, 160}"

definition blank :: "string \<Rightarrow> bool" where
  "blank s \<longleftrightarrow> list_all is_space s"

text \<open>\<open>s.partition(sep)\<close> when \<open>sep\<close> occurs: the text before and after its first occurrence.\<close>

fun break_on :: "string \<Rightarrow> string \<Rightarrow> (string \<times> string) option" where
  "break_on sep [] = (if sep = [] then Some ([], []) else None)"
| "break_on sep (c # s) =
     (if take (length sep) (c # s) = sep then Some ([], drop (length sep) (c # s))
      else map_option (\<lambda>(a, b). (c # a, b)) (break_on sep s))"

definition starts_with :: "string \<Rightarrow> string \<Rightarrow> bool" where
  "starts_with p s \<longleftrightarrow> take (length p) s = p"

lemma break_on_Some: "break_on sep s = Some (a, b) \<Longrightarrow> s = a @ sep @ b"
proof (induction s arbitrary: a)
  case (Cons c s)
  then show ?case
    by (auto split: if_splits) (metis append_take_drop_id)
qed (auto split: if_splits)

text \<open>The part before the first separator is the shortest one.\<close>

lemma break_on_char: "c \<notin> set a \<Longrightarrow> break_on [c] (a @ c # b) = Some (a, b)"
  by (induction a) auto

text \<open>\<open>str.upper()\<close> on ASCII letters.\<close>

definition upper_char :: "char \<Rightarrow> char" where
  "upper_char c = (if 97 \<le> (of_char c :: nat) \<and> (of_char c :: nat) \<le> 122
     then char_of ((of_char c :: nat) - 32) else c)"

text \<open>\<open>sep.join(xs)\<close>\<close>

fun joined :: "string \<Rightarrow> string list \<Rightarrow> string" where
  "joined sep [] = []"
| "joined sep [x] = x"
| "joined sep (x # y # xs) = x @ sep @ joined sep (y # xs)"

section \<open>Decimal numbers in strings\<close>

text \<open>\<open>str(n)\<close> for a natural number, and \<open>int(s)\<close> for a string of ASCII digits.\<close>

definition digit_char :: "nat \<Rightarrow> char" where
  "digit_char d = char_of (48 + d)"

definition is_digit :: "char \<Rightarrow> bool" where
  "is_digit c \<longleftrightarrow> 48 \<le> (of_char c :: nat) \<and> (of_char c :: nat) \<le> 57"

fun nat_str :: "nat \<Rightarrow> string" where
  "nat_str n = (if n < 10 then [digit_char n] else nat_str (n div 10) @ [digit_char (n mod 10)])"

declare nat_str.simps [simp del]

definition str_nat :: "string \<Rightarrow> nat" where
  "str_nat s = foldl (\<lambda>acc c. acc * 10 + (of_char c - 48)) 0 s"

text \<open>\<open>s.isdigit()\<close>, on ASCII.\<close>

definition isdigit :: "string \<Rightarrow> bool" where
  "isdigit s \<longleftrightarrow> s \<noteq> [] \<and> list_all is_digit s"

lemma of_char_digit_char: "d < 10 \<Longrightarrow> (of_char (digit_char d) :: nat) = 48 + d"
  by (simp add: digit_char_def)

lemma isdigit_nat_str: "isdigit (nat_str n)"
proof (induction n rule: nat_str.induct)
  case (1 n)
  show ?case
    using "1" by (subst nat_str.simps) (auto simp: isdigit_def is_digit_def of_char_digit_char)
qed

lemma str_nat_nat_str: "str_nat (nat_str n) = n"
proof (induction n rule: nat_str.induct)
  case (1 n)
  show ?case
  proof (cases "n < 10")
    case True
    then show ?thesis
      by (subst nat_str.simps) (simp add: str_nat_def of_char_digit_char)
  next
    case False
    have d: "n mod 10 < 10" by simp
    have "str_nat (nat_str n) = str_nat (nat_str (n div 10)) * 10 + n mod 10"
      using False d
      by (subst nat_str.simps) (simp add: str_nat_def of_char_digit_char del: mod_less_divisor)
    with "1" False show ?thesis by simp
  qed
qed

text \<open>A concrete rendering of instants with its inverse, to instantiate \<open>isoformat\<close>/\<open>fromisoformat\<close>.\<close>

definition instant_unary :: "instant \<Rightarrow> string" where
  "instant_unary t = (if t < 0 then CHR ''-'' # replicate (nat (- t)) CHR ''x'' else replicate (nat t) CHR ''x'')"

definition unary_instant :: "string \<Rightarrow> instant option" where
  "unary_instant s = Some (if take 1 s = ''-'' then 1 - int (length s) else int (length s))"

lemma unary_instant_unary: "unary_instant (instant_unary t) = Some t"
  by (cases "nat t") (auto simp: unary_instant_def instant_unary_def)

section \<open>Contracts of stateful components\<close>

text \<open>
  A component with a state and operations promises that every operation keeps its invariant;
  what follows for a whole run of operations is proved once here.
\<close>

locale invariant_machine =
  fixes step :: "'e \<Rightarrow> 's \<Rightarrow> 's"
    and inv :: "'s \<Rightarrow> bool"
  assumes inv_step: "inv s \<Longrightarrow> inv (step e s)"
begin

lemma run_inv: "inv s \<Longrightarrow> inv (fold step es s)"
  by (induction es arbitrary: s) (auto intro: inv_step)

end

text \<open>
  Some components also promise that an operation only moves the state forward in a preorder
  (a history is only appended to, a cursor only advances).
\<close>

locale monotone_machine = invariant_machine +
  fixes le :: "'s \<Rightarrow> 's \<Rightarrow> bool"
  assumes le_refl: "le s s"
    and le_trans: "le s t \<Longrightarrow> le t u \<Longrightarrow> le s u"
    and le_step: "inv s \<Longrightarrow> le s (step e s)"
begin

lemma run_le: "inv s \<Longrightarrow> le s (fold step es s)"
proof (induction es arbitrary: s)
  case Nil
  show ?case by (simp add: le_refl)
next
  case (Cons e es)
  have "le s (step e s)" using Cons.prems by (rule le_step)
  moreover have "le (step e s) (fold step es (step e s))"
    using Cons by (simp add: inv_step)
  ultimately show ?case by (auto intro: le_trans)
qed

end

end
