(* ===== verification/Incident_Lifecycle.thy ===== *)
theory Incident_Lifecycle
  imports Prelude
begin

text \<open>
  The incident lifecycle (\<open>packages/incident/state_machine.py\<close>, the enumerations and the
  \<open>Incident\<close>/\<open>IncidentEvent\<close> contracts of \<open>packages/contracts\<close>) and the repositories that
  persist an incident and its append-only timeline
  (\<open>packages/storage/repositories.py\<close>: \<open>_next_event_sequence\<close>, \<open>IncidentRepository\<close>,
  \<open>IncidentEventRepository\<close>).

  The database is a record of row lists. Uuids are drawn from a counter held in the store:
  what the code relies on of \<open>uuid4\<close> is that a fresh value was never used before.
  Strings of event payloads that are the ISO text of an instant are kept as that instant.
\<close>

section \<open>Contracts\<close>

datatype incident_status =
    OPEN | TRIAGING | INVESTIGATING | HYPOTHESIS_FORMED | VALIDATING | REMEDIATION_PROPOSED
  | POLICY_EVALUATION | APPROVAL_REQUIRED | EXECUTING | VERIFYING | RESOLVED | ESCALATED
  | FAILED | CLOSED

datatype incident_severity = INFO | WARNING | CRITICAL

datatype incident_source = SrcAlertmanager | SrcControlPlane | SrcSystem

datatype event_type =
    INCIDENT_CREATED | ALERT_ATTACHED | ALERT_RESOLVED | ALERT_REFIRED | ALERT_UPDATED
  | STATE_CHANGED | EVIDENCE_ADDED | HYPOTHESIS_CREATED | DIAGNOSIS_STARTED
  | EVIDENCE_GATHERED | RCA_ENGINE_COMPLETED | DIAGNOSIS_COMPLETED | DIAGNOSIS_FAILED
  | ACTION_PROPOSED | POLICY_EVALUATED | ACTION_EXECUTED | VERIFICATION_COMPLETED
  | INCIDENT_RESOLVED | INCIDENT_ESCALATED

fun status_value :: "incident_status \<Rightarrow> string" where
  "status_value OPEN = ''OPEN''"
| "status_value TRIAGING = ''TRIAGING''"
| "status_value INVESTIGATING = ''INVESTIGATING''"
| "status_value HYPOTHESIS_FORMED = ''HYPOTHESIS_FORMED''"
| "status_value VALIDATING = ''VALIDATING''"
| "status_value REMEDIATION_PROPOSED = ''REMEDIATION_PROPOSED''"
| "status_value POLICY_EVALUATION = ''POLICY_EVALUATION''"
| "status_value APPROVAL_REQUIRED = ''APPROVAL_REQUIRED''"
| "status_value EXECUTING = ''EXECUTING''"
| "status_value VERIFYING = ''VERIFYING''"
| "status_value RESOLVED = ''RESOLVED''"
| "status_value ESCALATED = ''ESCALATED''"
| "status_value FAILED = ''FAILED''"
| "status_value CLOSED = ''CLOSED''"

datatype payload_value = PStr string | PInstant instant | PSeconds duration | PNull

type_synonym payload = "(string \<times> payload_value) list"

record incident =
  incident_id :: uuid
  status :: incident_status
  severity :: incident_severity
  source :: incident_source
  title :: string
  description :: "string option"
  created_at :: instant
  updated_at :: instant
  correlation_id :: uuid

record incident_event =
  event_id :: uuid
  event_incident_id :: uuid
  event_type :: event_type
  timestamp :: instant
  payload :: payload
  event_correlation_id :: uuid

record event_row = incident_event +
  sequence :: nat

definition event_row_of :: "incident_event \<Rightarrow> nat \<Rightarrow> event_row" where
  "event_row_of e n =
     \<lparr>event_id = event_id e, event_incident_id = event_incident_id e, event_type = event_type e,
      timestamp = timestamp e, payload = payload e,
      event_correlation_id = event_correlation_id e, sequence = n\<rparr>"

lemma event_row_of_simps [simp]:
  "event_incident_id (event_row_of e n) = event_incident_id e"
  "sequence (event_row_of e n) = n"
  "event_type (event_row_of e n) = event_type e"
  by (simp_all add: event_row_of_def)

section \<open>Transitions\<close>

fun ALLOWED_TRANSITIONS :: "incident_status \<Rightarrow> incident_status set" where
  "ALLOWED_TRANSITIONS OPEN = {TRIAGING}"
| "ALLOWED_TRANSITIONS TRIAGING = {INVESTIGATING}"
| "ALLOWED_TRANSITIONS INVESTIGATING = {HYPOTHESIS_FORMED, ESCALATED, CLOSED}"
| "ALLOWED_TRANSITIONS HYPOTHESIS_FORMED = {VALIDATING, ESCALATED}"
| "ALLOWED_TRANSITIONS VALIDATING = {REMEDIATION_PROPOSED, ESCALATED, CLOSED}"
| "ALLOWED_TRANSITIONS REMEDIATION_PROPOSED = {POLICY_EVALUATION, ESCALATED}"
| "ALLOWED_TRANSITIONS POLICY_EVALUATION = {APPROVAL_REQUIRED, EXECUTING, ESCALATED, FAILED}"
| "ALLOWED_TRANSITIONS APPROVAL_REQUIRED = {EXECUTING, ESCALATED}"
| "ALLOWED_TRANSITIONS EXECUTING = {VERIFYING, FAILED, ESCALATED}"
| "ALLOWED_TRANSITIONS VERIFYING = {RESOLVED, FAILED, ESCALATED}"
| "ALLOWED_TRANSITIONS RESOLVED = {}"
| "ALLOWED_TRANSITIONS ESCALATED = {}"
| "ALLOWED_TRANSITIONS FAILED = {}"
| "ALLOWED_TRANSITIONS CLOSED = {}"

record transition_result =
  result_incident :: incident
  result_event :: incident_event

definition transition ::
  "incident \<Rightarrow> incident_status \<Rightarrow> string \<Rightarrow> instant \<Rightarrow> uuid \<Rightarrow> transition_result result" where
  "transition inc target reason at fresh =
     (if blank reason then Inl (ValueError ''transition reason must not be empty'')
      else if target \<notin> ALLOWED_TRANSITIONS (status inc)
      then Inl (InvalidTransitionError (status_value (status inc)) (status_value target))
      else Inr
        \<lparr>result_incident = inc\<lparr>status := target, updated_at := at\<rparr>,
         result_event =
           \<lparr>event_id = fresh, event_incident_id = incident_id inc, event_type = STATE_CHANGED,
            timestamp = at,
            payload =
              [(''from_status'', PStr (status_value (status inc))),
               (''to_status'', PStr (status_value target)), (''reason'', PStr reason)],
            event_correlation_id = correlation_id inc\<rparr>\<rparr>)"

text \<open>The lifecycle as a step relation, and its runs.\<close>

inductive lifecycle_step :: "incident_status \<Rightarrow> incident_status \<Rightarrow> bool" where
  legal: "t \<in> ALLOWED_TRANSITIONS s \<Longrightarrow> lifecycle_step s t"

inductive_simps lifecycle_step_iff [simp]: "lifecycle_step s t"

fun lifecycle_run :: "incident_status \<Rightarrow> incident_status list \<Rightarrow> bool" where
  "lifecycle_run s [] \<longleftrightarrow> True"
| "lifecycle_run s (t # ts) \<longleftrightarrow> lifecycle_step s t \<and> lifecycle_run t ts"

definition terminal :: "incident_status \<Rightarrow> bool" where
  "terminal s \<longleftrightarrow> ALLOWED_TRANSITIONS s = {}"

text \<open>How many transitions at most still separate a status from the end of the lifecycle.\<close>

fun lifecycle_rank :: "incident_status \<Rightarrow> nat" where
  "lifecycle_rank OPEN = 10"
| "lifecycle_rank TRIAGING = 9"
| "lifecycle_rank INVESTIGATING = 8"
| "lifecycle_rank HYPOTHESIS_FORMED = 7"
| "lifecycle_rank VALIDATING = 6"
| "lifecycle_rank REMEDIATION_PROPOSED = 5"
| "lifecycle_rank POLICY_EVALUATION = 4"
| "lifecycle_rank APPROVAL_REQUIRED = 3"
| "lifecycle_rank EXECUTING = 2"
| "lifecycle_rank VERIFYING = 1"
| "lifecycle_rank _ = 0"

lemma lifecycle_step_rank: "lifecycle_step s t \<Longrightarrow> lifecycle_rank t < lifecycle_rank s"
  by (cases s) auto

lemma lifecycle_run_rank: "lifecycle_run s ts \<Longrightarrow> length ts \<le> lifecycle_rank s"
proof (induction ts arbitrary: s)
  case (Cons t ts)
  then show ?case
    using lifecycle_step_rank [of s t] by (fastforce dest: Cons.IH)
qed simp

lemma terminal_iff: "terminal s \<longleftrightarrow> s \<in> {RESOLVED, ESCALATED, FAILED, CLOSED}"
  by (cases s) (auto simp: terminal_def)

text \<open>
  Which statuses a run must have visited: from a status \<open>s\<close> that is not past the gate \<open>g\<close>,
  a target past the gate is reached through \<open>g\<close>.
\<close>

definition past_policy :: "incident_status \<Rightarrow> bool" where
  "past_policy s \<longleftrightarrow> s \<in> {APPROVAL_REQUIRED, EXECUTING, VERIFYING, RESOLVED, FAILED}"

lemma lifecycle_step_policy_gate:
  "lifecycle_step s t \<Longrightarrow> past_policy t \<Longrightarrow> \<not> past_policy s \<Longrightarrow> s = POLICY_EVALUATION"
  by (cases s) (auto simp: past_policy_def)

lemma lifecycle_run_policy_gate:
  "lifecycle_run s ts \<Longrightarrow> \<not> past_policy s \<Longrightarrow> \<exists>t\<in>set ts. past_policy t \<Longrightarrow>
   POLICY_EVALUATION \<in> set (s # ts)"
proof (induction ts arbitrary: s)
  case (Cons t ts)
  then show ?case
    using lifecycle_step_policy_gate [of s t] by (cases "past_policy t") fastforce+
qed simp

lemma lifecycle_step_verify_gate:
  "lifecycle_step s RESOLVED \<Longrightarrow> s = VERIFYING" "lifecycle_step s VERIFYING \<Longrightarrow> s = EXECUTING"
  by (cases s; auto)+

lemma lifecycle_run_predecessor:
  assumes gate: "\<And>s. lifecycle_step s t \<Longrightarrow> s = g"
  shows "lifecycle_run s ts \<Longrightarrow> t \<in> set ts \<Longrightarrow> g \<in> set (s # ts)"
proof (induction ts arbitrary: s)
  case (Cons u ts)
  then show ?case using gate by (cases "u = t") fastforce+
qed simp

section \<open>Persistence\<close>

record incident_store =
  incident_rows :: "incident list"
  event_rows :: "event_row list"
  next_uuid :: uuid

definition incident_ids :: "('a) incident_store_scheme \<Rightarrow> uuid list" where
  "incident_ids st = map incident_id (incident_rows st)"

definition events_of :: "('a) incident_store_scheme \<Rightarrow> uuid \<Rightarrow> event_row list" where
  "events_of st i = filter (\<lambda>r. event_incident_id r = i) (event_rows st)"

text \<open>\<open>IncidentRepository.get\<close>\<close>

definition get_incident :: "('a) incident_store_scheme \<Rightarrow> uuid \<Rightarrow> incident option" where
  "get_incident st i = List.find (\<lambda>r. incident_id r = i) (incident_rows st)"

definition next_event_sequence :: "('a) incident_store_scheme \<Rightarrow> uuid \<Rightarrow> nat" where
  "next_event_sequence st i =
     (case py_max (map sequence (events_of st i)) of None \<Rightarrow> 0 | Some n \<Rightarrow> n) + 1"

text \<open>
  \<open>IncidentEventRepository.append\<close>; the foreign key of \<open>incident_events\<close> refuses an event
  without its incident.
\<close>

definition append_event ::
  "('a) incident_store_scheme \<Rightarrow> incident_event \<Rightarrow> ('a) incident_store_scheme result" where
  "append_event st e =
     (if event_incident_id e \<notin> set (incident_ids st)
      then Inl (IntegrityError ''incident_events.incident_id'')
      else Inr (st\<lparr>event_rows := event_rows st @
                     [event_row_of e (next_event_sequence st (event_incident_id e))]\<rparr>))"

text \<open>\<open>IncidentRepository.create\<close>: the row, then its creation event with sequence 1.\<close>

definition create_incident ::
  "('a) incident_store_scheme \<Rightarrow> incident \<Rightarrow> ('a) incident_store_scheme result" where
  "create_incident st inc =
     (if incident_id inc \<in> set (incident_ids st)
      then Inl (IntegrityError ''incidents.incident_id'')
      else Inr (st\<lparr>
        incident_rows := incident_rows st @ [inc],
        event_rows := event_rows st @
          [event_row_of
             \<lparr>event_id = next_uuid st, event_incident_id = incident_id inc,
              event_type = INCIDENT_CREATED, timestamp = created_at inc,
              payload = [(''status'', PStr (status_value (status inc)))],
              event_correlation_id = correlation_id inc\<rparr> 1],
        next_uuid := next_uuid st + 1\<rparr>))"

definition update_incident ::
  "('a) incident_store_scheme \<Rightarrow> uuid \<Rightarrow> (incident \<Rightarrow> incident) \<Rightarrow> ('a) incident_store_scheme" where
  "update_incident st i f =
     st\<lparr>incident_rows := map (\<lambda>r. if incident_id r = i then f r else r) (incident_rows st)\<rparr>"

text \<open>\<open>IncidentRepository.save_transition\<close>\<close>

definition save_transition ::
  "('a) incident_store_scheme \<Rightarrow> transition_result \<Rightarrow> ('a) incident_store_scheme result" where
  "save_transition st res =
     (if get_incident st (incident_id (result_incident res)) = None
      then Inl (LookupError ''incident not found'')
      else append_event
        (update_incident st (incident_id (result_incident res))
           (\<lambda>r. r\<lparr>status := status (result_incident res),
                  updated_at := updated_at (result_incident res)\<rparr>))
        (result_event res))"

text \<open>
  The invariant of the tables: incident identifiers are unique, every event belongs to an
  incident, and the events of an incident carry the sequence numbers 1, 2, 3, \<dots> in the order
  they were appended.
\<close>

definition timeline_ok :: "('a) incident_store_scheme \<Rightarrow> bool" where
  "timeline_ok st \<longleftrightarrow>
     distinct (incident_ids st) \<and>
     (\<forall>r\<in>set (event_rows st). event_incident_id r \<in> set (incident_ids st)) \<and>
     (\<forall>i. map sequence (events_of st i) = [1..<Suc (length (events_of st i))])"

lemma get_incident_None: "get_incident st i = None \<longleftrightarrow> i \<notin> set (incident_ids st)"
  by (auto simp: get_incident_def incident_ids_def find_None_iff)

lemma get_incident_Some: "get_incident st i = Some r \<Longrightarrow> r \<in> set (incident_rows st) \<and> incident_id r = i"
  by (auto simp: get_incident_def dest: find_Some_set)

lemma incident_ids_update: 
  "(\<And>r. incident_id (f r) = incident_id r) \<Longrightarrow> incident_ids (update_incident st i f) = incident_ids st"
  by (auto simp: incident_ids_def update_incident_def)

lemma update_incident_simps [simp]:
  "event_rows (update_incident st i f) = event_rows st"
  "next_uuid (update_incident st i f) = next_uuid st"
  "events_of (update_incident st i f) j = events_of st j"
  by (simp_all add: update_incident_def events_of_def)

lemma next_event_sequence_ok:
  assumes "timeline_ok st"
  shows "next_event_sequence st i = Suc (length (events_of st i))"
proof -
  have seq: "map sequence (events_of st i) = [1..<Suc (length (events_of st i))]"
    using assms by (simp add: timeline_ok_def)
  have "py_max [1..<Suc n] = (if n = 0 then None else Some n)" for n
    by (auto simp: py_max_Some)
  then show ?thesis by (simp add: next_event_sequence_def seq del: upt_Suc)
qed

lemma events_of_append:
  "events_of (st\<lparr>event_rows := event_rows st @ [r]\<rparr>) i =
     events_of st i @ (if event_incident_id r = i then [r] else [])"
  by (simp add: events_of_def)

lemma append_event_ok:
  assumes ok: "timeline_ok st" and app: "append_event st e = Inr st'"
  shows "timeline_ok st'"
proof -
  let ?i = "event_incident_id e"
  let ?r = "event_row_of e (next_event_sequence st ?i)"
  from app have mem: "?i \<in> set (incident_ids st)"
    and st': "st' = st\<lparr>event_rows := event_rows st @ [?r]\<rparr>"
    by (auto simp: append_event_def split: if_splits)
  have ids: "incident_ids st' = incident_ids st" by (simp add: st' incident_ids_def)
  have "map sequence (events_of st' i) = [1..<Suc (length (events_of st' i))]" for i
    using ok by (simp add: st' events_of_append next_event_sequence_ok timeline_ok_def)
  moreover have "\<forall>r\<in>set (event_rows st'). event_incident_id r \<in> set (incident_ids st')"
    using ok mem unfolding ids by (auto simp: st' timeline_ok_def)
  ultimately show ?thesis
    using ok by (simp add: timeline_ok_def ids)
qed

lemma append_event_simps:
  assumes "append_event st e = Inr st'"
  shows "incident_rows st' = incident_rows st" "next_uuid st' = next_uuid st"
    "incident_store.more st' = incident_store.more st"
    "event_rows st' = event_rows st @ [event_row_of e (next_event_sequence st (event_incident_id e))]"
  using assms by (auto simp: append_event_def split: if_splits)

lemma create_incident_ok:
  assumes ok: "timeline_ok st" and cr: "create_incident st inc = Inr st'"
  shows "timeline_ok st'"
proof -
  let ?i = "incident_id inc"
  from cr have new: "?i \<notin> set (incident_ids st)"
    by (auto simp: create_incident_def split: if_splits)
  have ids: "incident_ids st' = incident_ids st @ [?i]"
    using cr new by (auto simp: create_incident_def incident_ids_def)
  obtain r where r: "event_rows st' = event_rows st @ [r]" "event_incident_id r = ?i" "sequence r = 1"
    using cr new by (auto simp: create_incident_def)
  have none: "events_of st ?i = []"
    using ok new by (auto simp: timeline_ok_def events_of_def filter_empty_conv)
  have "events_of st' i = events_of st i @ (if ?i = i then [r] else [])" for i
    by (simp add: events_of_def r)
  then have "map sequence (events_of st' i) = [1..<Suc (length (events_of st' i))]" for i
    using ok none r by (auto simp: timeline_ok_def)
  with ok new show ?thesis
    by (auto simp: timeline_ok_def ids r)
qed

lemma update_incident_ok:
  "timeline_ok st \<Longrightarrow> (\<And>r. incident_id (f r) = incident_id r) \<Longrightarrow> timeline_ok (update_incident st i f)"
  by (simp add: timeline_ok_def incident_ids_update)

lemma save_transition_ok:
  "timeline_ok st \<Longrightarrow> save_transition st res = Inr st' \<Longrightarrow> timeline_ok st'"
  by (rule append_event_ok [OF update_incident_ok])
    (auto simp: save_transition_def split: if_splits)

text \<open>
  The timeline as a machine over repository commands (a refused command changes nothing, as
  its transaction is rolled back).
\<close>

datatype store_command =
    Create incident
  | Append incident_event
  | Save transition_result

fun run_command :: "store_command \<Rightarrow> incident_store \<Rightarrow> incident_store" where
  "run_command (Create inc) st = (case create_incident st inc of Inr st' \<Rightarrow> st' | Inl _ \<Rightarrow> st)"
| "run_command (Append e) st = (case append_event st e of Inr st' \<Rightarrow> st' | Inl _ \<Rightarrow> st)"
| "run_command (Save res) st = (case save_transition st res of Inr st' \<Rightarrow> st' | Inl _ \<Rightarrow> st)"

definition timeline_extends :: "('a) incident_store_scheme \<Rightarrow> ('b) incident_store_scheme \<Rightarrow> bool" where
  "timeline_extends st st' \<longleftrightarrow> prefix (event_rows st) (event_rows st')"

interpretation timeline: monotone_machine run_command timeline_ok timeline_extends
proof unfold_locales
  fix c :: store_command and st t u :: incident_store
  show "timeline_ok st \<Longrightarrow> timeline_ok (run_command c st)"
    by (cases c) (auto split: sum.split intro: create_incident_ok append_event_ok save_transition_ok)
  show "timeline_extends st st" by (simp add: timeline_extends_def)
  show "timeline_extends st t \<Longrightarrow> timeline_extends t u \<Longrightarrow> timeline_extends st u"
    by (auto simp: timeline_extends_def intro: prefix_order.trans)
  show "timeline_extends st (run_command c st)"
    by (cases c) (auto split: sum.split simp: timeline_extends_def save_transition_def
        append_event_simps create_incident_def dest: append_event_simps(4) split: if_splits)
qed

section \<open>Runs of the lifecycle\<close>

text \<open>A caller that applies a list of requested transitions, stopping at the first refusal.\<close>

type_synonym transition_request = "incident_status \<times> string \<times> instant \<times> uuid"

fun apply_transitions :: "incident \<Rightarrow> transition_request list \<Rightarrow> (incident \<times> incident_event list) result"
where
  "apply_transitions inc [] = Inr (inc, [])"
| "apply_transitions inc ((target, reason, at, fresh) # reqs) =
     (case transition inc target reason at fresh of
        Inl err \<Rightarrow> Inl err
      | Inr res \<Rightarrow>
          (case apply_transitions (result_incident res) reqs of
             Inl err \<Rightarrow> Inl err
           | Inr (inc', evs) \<Rightarrow> Inr (inc', result_event res # evs)))"

lemma transition_Inr:
  "transition inc target reason at fresh = Inr res \<Longrightarrow>
     lifecycle_step (status inc) target \<and> \<not> blank reason \<and>
     result_incident res = inc\<lparr>status := target, updated_at := at\<rparr> \<and>
     map_of (payload (result_event res)) ''from_status'' = Some (PStr (status_value (status inc))) \<and>
     map_of (payload (result_event res)) ''to_status'' = Some (PStr (status_value target))"
  by (auto simp: transition_def split: if_splits)

lemma apply_transitions_run:
  "apply_transitions inc reqs = Inr (inc', evs) \<Longrightarrow>
     lifecycle_run (status inc) (map fst reqs) \<and> length evs = length reqs \<and>
     status inc' = last (status inc # map fst reqs)"
proof (induction reqs arbitrary: inc inc' evs)
  case (Cons req reqs)
  obtain target reason at fresh where req: "req = (target, reason, at, fresh)"
    by (cases req) auto
  from Cons.prems obtain res evs' where
    tr: "transition inc target reason at fresh = Inr res" and
    ap: "apply_transitions (result_incident res) reqs = Inr (inc', evs')" and
    evs: "evs = result_event res # evs'"
    by (auto simp: req split: sum.splits)
  from Cons.IH [OF ap] transition_Inr [OF tr] show ?case
    by (auto simp: req evs)
qed simp

text \<open>
  The lifecycle always ends. From \<open>OPEN\<close> at most ten transitions are accepted, every status
  that is not final accepts some further transition, and a status that accepts none is one of
  \<open>RESOLVED\<close>, \<open>ESCALATED\<close>, \<open>FAILED\<close> and \<open>CLOSED\<close>.
\<close>

theorem lifecycle_terminates:
  assumes "apply_transitions inc reqs = Inr (inc', evs)" and "status inc = OPEN"
  shows "length reqs \<le> 10 \<and>
    ((\<forall>target reason at fresh. \<exists>err. transition inc' target reason at fresh = Inl err) \<longleftrightarrow>
       status inc' \<in> {RESOLVED, ESCALATED, FAILED, CLOSED})"
proof -
  have "length reqs \<le> 10"
    using apply_transitions_run [OF assms(1)] lifecycle_run_rank [of OPEN "map fst reqs"] assms(2)
    by simp
  moreover have "(\<forall>target reason at fresh. \<exists>err. transition inc' target reason at fresh = Inl err)
      \<longleftrightarrow> terminal (status inc')"
  proof
    assume refused: "\<forall>target reason at fresh. \<exists>err. transition inc' target reason at fresh = Inl err"
    show "terminal (status inc')"
    proof (rule ccontr)
      assume "\<not> terminal (status inc')"
      then obtain t where "t \<in> ALLOWED_TRANSITIONS (status inc')"
        by (auto simp: terminal_def)
      with refused show False
        by (auto simp: transition_def blank_def is_space_def
            dest!: spec [where x = t] spec [where x = "''x''"])
    qed
  qed (auto simp: terminal_def transition_def)
  ultimately show ?thesis by (simp add: terminal_iff)
qed

theorem lifecycle_terminates_witness:
  "\<exists>inc' evs. apply_transitions
     \<lparr>incident_id = 1, status = OPEN, severity = WARNING, source = SrcAlertmanager,
      title = ''x'', description = None, created_at = 0, updated_at = 0, correlation_id = 2\<rparr>
     [(TRIAGING, ''a'', 1, 3), (INVESTIGATING, ''b'', 2, 4), (CLOSED, ''c'', 3, 5)] = Inr (inc', evs)
   \<and> status inc' = CLOSED
   \<and> (\<forall>target reason at fresh. \<exists>err. transition inc' target reason at fresh = Inl err)"
proof -
  let ?inc = "\<lparr>incident_id = 1, status = OPEN, severity = WARNING, source = SrcAlertmanager,
      title = ''x'', description = None, created_at = 0, updated_at = 0, correlation_id = 2\<rparr>"
  let ?reqs = "[(TRIAGING, ''a'', 1, 3), (INVESTIGATING, ''b'', 2, 4), (CLOSED, ''c'', 3, 5)]"
  obtain inc' evs where run: "apply_transitions ?inc ?reqs = Inr (inc', evs)" and "status inc' = CLOSED"
    by (simp add: transition_def blank_def is_space_def)
  with lifecycle_terminates [OF run] show ?thesis by auto
qed

text \<open>
  Nothing is executed unevaluated. Whatever transitions were accepted from \<open>OPEN\<close>, an incident
  that reached \<open>EXECUTING\<close> went through \<open>POLICY_EVALUATION\<close> before, and one that reached
  \<open>RESOLVED\<close> went through \<open>EXECUTING\<close> and \<open>VERIFYING\<close>.
\<close>

theorem lifecycle_gates:
  assumes run: "apply_transitions inc reqs = Inr (inc', evs)" and open_: "status inc = OPEN"
  shows "(status inc' = EXECUTING \<longrightarrow> POLICY_EVALUATION \<in> fst ` set reqs) \<and>
    (status inc' = RESOLVED \<longrightarrow>
       {POLICY_EVALUATION, EXECUTING, VERIFYING} \<subseteq> fst ` set reqs)"
proof -
  let ?ts = "map fst reqs"
  have steps: "lifecycle_run OPEN ?ts" and last: "status inc' = last (OPEN # ?ts)"
    using apply_transitions_run [OF run] by (simp_all add: open_)
  have seen: "status inc' \<noteq> OPEN \<Longrightarrow> status inc' \<in> set ?ts"
    using last last_in_set [of ?ts] by (auto split: if_splits)
  have policy: "past_policy (status inc') \<Longrightarrow> POLICY_EVALUATION \<in> set ?ts"
    using lifecycle_run_policy_gate [OF steps] seen by (fastforce simp: past_policy_def)
  have verify: "RESOLVED \<in> set ?ts \<Longrightarrow> VERIFYING \<in> set ?ts"
    using lifecycle_run_predecessor [OF lifecycle_step_verify_gate(1) steps] by simp
  have execute: "VERIFYING \<in> set ?ts \<Longrightarrow> EXECUTING \<in> set ?ts"
    using lifecycle_run_predecessor [OF lifecycle_step_verify_gate(2) steps] by simp
  show ?thesis
    using policy verify execute seen by (auto simp: past_policy_def simp flip: image_set)
qed

theorem lifecycle_gates_witness:
  "\<exists>inc' evs. apply_transitions
     \<lparr>incident_id = 1, status = OPEN, severity = WARNING, source = SrcAlertmanager,
      title = ''x'', description = None, created_at = 0, updated_at = 0, correlation_id = 2\<rparr>
     [(TRIAGING, ''a'', 1, 3), (INVESTIGATING, ''b'', 2, 4), (HYPOTHESIS_FORMED, ''c'', 3, 5),
      (VALIDATING, ''d'', 4, 6), (REMEDIATION_PROPOSED, ''e'', 5, 7), (POLICY_EVALUATION, ''f'', 6, 8),
      (EXECUTING, ''g'', 7, 9)] = Inr (inc', evs)
   \<and> status inc' = EXECUTING"
proof -
  let ?inc = "\<lparr>incident_id = 1, status = OPEN, severity = WARNING, source = SrcAlertmanager,
      title = ''x'', description = None, created_at = 0, updated_at = 0, correlation_id = 2\<rparr>"
  let ?reqs = "[(TRIAGING, ''a'', 1, 3), (INVESTIGATING, ''b'', 2, 4), (HYPOTHESIS_FORMED, ''c'', 3, 5),
      (VALIDATING, ''d'', 4, 6), (REMEDIATION_PROPOSED, ''e'', 5, 7), (POLICY_EVALUATION, ''f'', 6, 8),
      (EXECUTING, ''g'', 7, 9)]"
  obtain inc' evs where run: "apply_transitions ?inc ?reqs = Inr (inc', evs)"
    and st: "status inc' = EXECUTING"
    by (simp add: transition_def blank_def is_space_def)
  with lifecycle_gates [OF run] show ?thesis by auto
qed

text \<open>
  The persisted timeline is an append-only log. Whatever commands the repositories run, from
  a consistent store, incident identifiers stay unique, every event belongs to an incident, the
  events of each incident are numbered 1, 2, 3, \<dots> in the order they were appended, and no earlier
  event is rewritten or removed.
\<close>

theorem timeline_append_only:
  assumes "timeline_ok st"
  shows "timeline_ok (fold run_command cmds st) \<and>
    prefix (event_rows st) (event_rows (fold run_command cmds st))"
  using timeline.run_inv [OF assms] timeline.run_le [OF assms] by (simp add: timeline_extends_def)

theorem timeline_append_only_witness:
  "timeline_ok (fold run_command
     [Create \<lparr>incident_id = 1, status = OPEN, severity = WARNING, source = SrcAlertmanager,
        title = ''x'', description = None, created_at = 0, updated_at = 0, correlation_id = 2\<rparr>]
     \<lparr>incident_rows = [], event_rows = [], next_uuid = 3\<rparr>)"
  using timeline_append_only
    [of "\<lparr>incident_rows = [], event_rows = [], next_uuid = 3\<rparr>"
        "[Create \<lparr>incident_id = 1, status = OPEN, severity = WARNING, source = SrcAlertmanager,
           title = ''x'', description = None, created_at = 0, updated_at = 0, correlation_id = 2\<rparr>]"]
  by (simp add: timeline_ok_def incident_ids_def events_of_def)

end
