(* ===== verification/Ingestion.thy ===== *)
theory Ingestion
  imports Incident_Lifecycle
begin

text \<open>
  Alert ingestion (\<open>packages/incident/ingestion.py\<close>): normalising an Alertmanager delivery and
  attaching it to an incident episode. The session's view of the database is the record
  \<open>ingest_store\<close>: the incident tables of \<open>Incident_Lifecycle\<close> and the \<open>alerts\<close> table with its
  primary key and its unique constraint on \<open>(fingerprint, starts_at)\<close>.

  Concurrent deliveries are an argument \<open>env\<close>: what other transactions committed between the
  lookup of an occurrence and the commit of its insertion. The sequential case is \<open>env = id\<close>.
  \<open>hash_identity\<close> stands for \<open>sha256\<close> of the canonical text of the four identity labels.
\<close>

section \<open>Alerts\<close>

datatype alert_status = FIRING | ALERT_IS_RESOLVED

datatype alert_source = PROMETHEUS | ALERTMANAGER | SYSTEM

type_synonym str_dict = "(string \<times> string) list"

text \<open>Equality of Python dicts does not depend on their order.\<close>

definition dict_eq :: "str_dict \<Rightarrow> str_dict \<Rightarrow> bool" where
  "dict_eq a b \<longleftrightarrow> list_all (\<lambda>k. map_of a k = map_of b k) (map fst a @ map fst b)"

lemma dict_eq_refl [simp]: "dict_eq a a"
  by (simp add: dict_eq_def list_all_iff)

lemma dict_eq_map_of: "dict_eq a b \<longleftrightarrow> map_of a = map_of b"
proof
  assume eq: "dict_eq a b"
  show "map_of a = map_of b"
  proof
    fix k
    show "map_of a k = map_of b k"
    proof (cases "k \<in> set (map fst a @ map fst b)")
      case True
      then show ?thesis using eq by (auto simp: dict_eq_def list_all_iff)
    next
      case False
      then have "map_of a k = None" "map_of b k = None"
        by (simp_all add: map_of_eq_None_iff)
      then show ?thesis by simp
    qed
  qed
qed (simp add: dict_eq_def list_all_iff)

definition dict_get :: "str_dict \<Rightarrow> string \<Rightarrow> string \<Rightarrow> string" where
  "dict_get d k dflt = (case map_of d k of None \<Rightarrow> dflt | Some v \<Rightarrow> v)"

record alert =
  alert_id :: uuid
  alert_name :: string
  alert_service :: string
  alert_namespace :: string
  alert_cluster :: string
  starts_at :: instant
  ends_at :: "instant option"
  labels :: str_dict
  annotations :: str_dict
  fingerprint :: string
  alert_status :: alert_status
  alert_source :: alert_source

record alert_payload =
  p_status :: string
  p_labels :: str_dict
  p_annotations :: str_dict
  p_starts_at :: instant
  p_ends_at :: "instant option"
  p_fingerprint :: "string option"

definition upper :: "string \<Rightarrow> string" where
  "upper s = map upper_char s"

definition fingerprint_for_alert ::
  "(string \<times> string \<times> string \<times> string \<Rightarrow> string) \<Rightarrow> alert_payload \<Rightarrow> string" where
  "fingerprint_for_alert hash_identity p =
     hash_identity
       (dict_get (p_labels p) ''alertname'' ''unknown'', dict_get (p_labels p) ''service'' ''unknown'',
        dict_get (p_labels p) ''namespace'' ''unknown'', dict_get (p_labels p) ''cluster'' ''unknown'')"

definition parse_alert_status :: "string \<Rightarrow> alert_status option" where
  "parse_alert_status s =
     (if s = ''FIRING'' then Some FIRING else if s = ''RESOLVED'' then Some ALERT_IS_RESOLVED else None)"

definition normalize_alert ::
  "(string \<times> string \<times> string \<times> string \<Rightarrow> string) \<Rightarrow> uuid \<Rightarrow> alert_payload \<Rightarrow> alert result" where
  "normalize_alert hash_identity fresh p =
     (case parse_alert_status (upper (p_status p)) of
        None \<Rightarrow> Inl (ValueError ''unsupported alert status'')
      | Some st \<Rightarrow>
          let a = \<lparr>alert_id = fresh,
                   alert_name = dict_get (p_labels p) ''alertname'' ''unknown'',
                   alert_service = dict_get (p_labels p) ''service'' ''unknown'',
                   alert_namespace = dict_get (p_labels p) ''namespace'' ''unknown'',
                   alert_cluster = dict_get (p_labels p) ''cluster'' ''unknown'',
                   starts_at = p_starts_at p,
                   ends_at = (if st = ALERT_IS_RESOLVED then p_ends_at p else None),
                   labels = p_labels p,
                   annotations = p_annotations p,
                   fingerprint =
                     (case p_fingerprint p of
                        Some f \<Rightarrow> if f = [] then fingerprint_for_alert hash_identity p else f
                      | None \<Rightarrow> fingerprint_for_alert hash_identity p),
                   alert_status = st,
                   alert_source = ALERTMANAGER\<rparr>
          in if alert_name a = [] \<or> alert_service a = [] \<or> alert_namespace a = []
                \<or> alert_cluster a = [] \<or> fingerprint a = []
             then Inl (ValueError ''String should have at least 1 character'')
             else Inr a)"

definition alert_severity :: "alert \<Rightarrow> incident_severity" where
  "alert_severity a =
     (let v = upper (dict_get (labels a) ''severity'' ''warning'') in
      if v = ''CRITICAL'' then CRITICAL
      else if v = ''WARNING'' then WARNING
      else if v = ''INFO'' then INFO
      else WARNING)"

section \<open>The store\<close>

record alert_row = alert +
  row_incident_id :: "uuid option"

record ingest_store = incident_store +
  alert_rows :: "alert_row list"

definition alert_row_of :: "alert \<Rightarrow> uuid \<Rightarrow> alert_row" where
  "alert_row_of a i =
     \<lparr>alert_id = alert_id a, alert_name = alert_name a, alert_service = alert_service a,
      alert_namespace = alert_namespace a, alert_cluster = alert_cluster a,
      starts_at = starts_at a, ends_at = ends_at a, labels = labels a,
      annotations = annotations a, fingerprint = fingerprint a,
      alert_status = alert_status a, alert_source = alert_source a, row_incident_id = Some i\<rparr>"

lemma alert_row_of_simps [simp]:
  "alert_id (alert_row_of a i) = alert_id a"
  "starts_at (alert_row_of a i) = starts_at a"
  "ends_at (alert_row_of a i) = ends_at a"
  "labels (alert_row_of a i) = labels a"
  "annotations (alert_row_of a i) = annotations a"
  "fingerprint (alert_row_of a i) = fingerprint a"
  "alert_status (alert_row_of a i) = alert_status a"
  "row_incident_id (alert_row_of a i) = Some i"
  by (simp_all add: alert_row_of_def)

text \<open>\<open>session.add(AlertRow(\<dots>))\<close> and the commit that checks its constraints.\<close>

definition insert_alert_row :: "ingest_store \<Rightarrow> alert_row \<Rightarrow> ingest_store result" where
  "insert_alert_row st r =
     (if list_ex (\<lambda>q. fingerprint q = fingerprint r \<and> starts_at q = starts_at r) (alert_rows st)
      then Inl (IntegrityError ''uq_alert_occurrence_fingerprint_starts_at'')
      else if list_ex (\<lambda>q. alert_id q = alert_id r) (alert_rows st)
      then Inl (IntegrityError ''alerts.alert_id'')
      else Inr (st\<lparr>alert_rows := alert_rows st @ [r]\<rparr>))"

definition update_alert_row :: "ingest_store \<Rightarrow> uuid \<Rightarrow> (alert_row \<Rightarrow> alert_row) \<Rightarrow> ingest_store" where
  "update_alert_row st k f =
     st\<lparr>alert_rows := map (\<lambda>r. if alert_id r = k then f r else r) (alert_rows st)\<rparr>"

definition find_occurrence :: "ingest_store \<Rightarrow> alert \<Rightarrow> alert_row option" where
  "find_occurrence st a =
     List.find (\<lambda>r. fingerprint r = fingerprint a \<and> starts_at r = starts_at a) (alert_rows st)"

text \<open>The query for another occurrence of the incident that still fires.\<close>

definition still_firing :: "ingest_store \<Rightarrow> uuid \<Rightarrow> uuid \<Rightarrow> bool" where
  "still_firing st i k \<longleftrightarrow>
     list_ex (\<lambda>r. row_incident_id r = Some i \<and> alert_id r \<noteq> k \<and> alert_status r = FIRING) (alert_rows st)"

text \<open>Appending one \<open>IncidentEvent\<close> with a fresh identifier.\<close>

definition emit ::
  "ingest_store \<Rightarrow> incident \<Rightarrow> event_type \<Rightarrow> instant \<Rightarrow> payload \<Rightarrow> ingest_store result" where
  "emit st inc ty now pl =
     append_event (st\<lparr>next_uuid := next_uuid st + 1\<rparr>)
       \<lparr>event_id = next_uuid st, event_incident_id = incident_id inc, event_type = ty,
        timestamp = now, payload = pl, event_correlation_id = correlation_id inc\<rparr>"

definition get_row_incident :: "ingest_store \<Rightarrow> uuid option \<Rightarrow> incident option" where
  "get_row_incident st i = Option.bind i (get_incident st)"

section \<open>Ingesting one occurrence\<close>

record ingest_outcome =
  outcome_incident :: incident
  refired :: bool
  created :: bool
  resolved :: "uuid list"

text \<open>An episode resolves when none of its other occurrences fires and it is not resolved yet.\<close>

definition resolve_if_quiet ::
  "instant \<Rightarrow> incident \<Rightarrow> uuid \<Rightarrow> ingest_store \<Rightarrow> uuid list \<times> ingest_store" where
  "resolve_if_quiet now inc k st =
     (if \<not> still_firing st (incident_id inc) k \<and> status inc \<noteq> RESOLVED
      then ([incident_id inc],
            update_incident st (incident_id inc) (\<lambda>r. r\<lparr>status := RESOLVED, updated_at := now\<rparr>))
      else ([], st))"

text \<open>\<open>IncidentManager._end_replaced\<close>: the loop over the replaced rows, then the query before it.\<close>

definition mark_replaced :: "alert \<Rightarrow> alert_row \<Rightarrow> alert_row" where
  "mark_replaced a r = r\<lparr>alert_status := ALERT_IS_RESOLVED, ends_at := Some (starts_at a)\<rparr>"

fun end_rows ::
  "alert \<Rightarrow> instant \<Rightarrow> alert_row list \<Rightarrow> ingest_store \<Rightarrow> (uuid list \<times> ingest_store) result" where
  "end_rows a now [] st = Inr ([], st)"
| "end_rows a now (row # rows) st =
     (let st1 = update_alert_row st (alert_id row) (mark_replaced a)
      in case get_row_incident st1 (row_incident_id row) of
           None \<Rightarrow> end_rows a now rows st1
         | Some inc \<Rightarrow>
             (case resolve_if_quiet now inc (alert_id row) st1 of
                (ended, st2) \<Rightarrow>
                  (case emit st2 inc ALERT_RESOLVED now
                          [(''fingerprint'', PStr (fingerprint a)), (''status'', PStr ''RESOLVED''),
                           (''inferred'', PStr ''superseded''),
                           (''by_starts_at'', PInstant (starts_at a))] of
                     Inl e \<Rightarrow> Inl e
                   | Inr st3 \<Rightarrow>
                       (case end_rows a now rows st3 of
                          Inl e \<Rightarrow> Inl e
                        | Inr (res, st4) \<Rightarrow> Inr (ended @ res, st4)))))"

definition replaced_rows :: "ingest_store \<Rightarrow> alert \<Rightarrow> alert_row list" where
  "replaced_rows st a =
     filter (\<lambda>r. fingerprint r = fingerprint a \<and> starts_at r < starts_at a \<and> alert_status r = FIRING)
       (alert_rows st)"

definition end_replaced :: "alert \<Rightarrow> instant \<Rightarrow> ingest_store \<Rightarrow> (uuid list \<times> ingest_store) result" where
  "end_replaced a now st = end_rows a now (replaced_rows st a) st"

text \<open>\<open>IncidentManager._continue_episode\<close>\<close>

definition earlier_occurrence :: "ingest_store \<Rightarrow> alert \<Rightarrow> alert_row option" where
  "earlier_occurrence st a =
     max_by starts_at
       (filter (\<lambda>r. fingerprint r = fingerprint a \<and> starts_at r < starts_at a) (alert_rows st))"

text \<open>
  Whether the episode of the earlier occurrence may continue: \<open>None\<close> when it may not, otherwise
  the gap since the earlier occurrence ended, if it ended.
\<close>

definition continuation_gap :: "duration \<Rightarrow> alert \<Rightarrow> alert_row \<Rightarrow> duration option option" where
  "continuation_gap quiet a earlier =
     (if alert_status earlier \<noteq> FIRING
      then (case ends_at earlier of
              None \<Rightarrow> None
            | Some e \<Rightarrow> if starts_at a - e \<ge> quiet then None else Some (Some (starts_at a - e)))
      else Some None)"

definition continue_episode ::
  "duration \<Rightarrow> (ingest_store \<Rightarrow> ingest_store) \<Rightarrow> alert \<Rightarrow> instant \<Rightarrow> ingest_store
   \<Rightarrow> (incident option \<times> ingest_store) result" where
  "continue_episode quiet env a now st =
     (if find_occurrence st a \<noteq> None then Inr (None, st)
      else case earlier_occurrence st a of
        None \<Rightarrow> Inr (None, st)
      | Some earlier \<Rightarrow>
          (case continuation_gap quiet a earlier of
             None \<Rightarrow> Inr (None, st)
           | Some gap \<Rightarrow>
               (case get_row_incident st (row_incident_id earlier) of
                  None \<Rightarrow> Inr (None, st)
                | Some row \<Rightarrow>
                    let i = incident_id row; st0 = env st in
                    (case insert_alert_row st0 (alert_row_of a i) of
                       Inl _ \<Rightarrow> Inr (None, st0)
                     | Inr st1 \<Rightarrow>
                         let st2 = update_incident st1 i (\<lambda>r. r\<lparr>status := OPEN, updated_at := now\<rparr>) in
                         (case get_incident st2 i of
                            None \<Rightarrow> Inl (LookupError ''incident was not found'')
                          | Some inc \<Rightarrow>
                              (case emit st2 inc ALERT_REFIRED now
                                 [(''fingerprint'', PStr (fingerprint a)), (''status'', PStr ''OPEN''),
                                  (''starts_at'', PInstant (starts_at a)),
                                  (''previous_starts_at'', PInstant (starts_at earlier)),
                                  (''gap_seconds'', case gap of None \<Rightarrow> PNull | Some g \<Rightarrow> PSeconds g)] of
                                 Inl e \<Rightarrow> Inl e
                               | Inr st3 \<Rightarrow> Inr (Some inc, st3)))))))"

text \<open>
  \<open>IncidentManager._ingest\<close>: the part that handles a known occurrence, then the part that
  creates one. The returned incident of a known occurrence is the snapshot read before the
  update, as in the code.
\<close>

definition refresh_row :: "alert \<Rightarrow> alert_row \<Rightarrow> alert_row" where
  "refresh_row a r =
     r\<lparr>ends_at := ends_at a, alert_status := alert_status a, labels := labels a,
       annotations := annotations a\<rparr>"

definition update_known ::
  "alert \<Rightarrow> instant \<Rightarrow> alert_row \<Rightarrow> ingest_store \<Rightarrow> ((incident \<times> bool \<times> uuid list) \<times> ingest_store) result"
where
  "update_known a now row st =
     (case get_row_incident st (row_incident_id row) of
        None \<Rightarrow> Inl (LookupError ''incident was not found'')
      | Some existing \<Rightarrow>
          if alert_status row = alert_status a \<and> alert_status a = ALERT_IS_RESOLVED
          then Inr ((existing, False, []), st)
          else if alert_status a = FIRING \<and> alert_status row \<noteq> FIRING
          then Inr ((existing, False, []), st)
          else if alert_status row = alert_status a \<and> ends_at row = ends_at a
                  \<and> dict_eq (labels row) (labels a) \<and> dict_eq (annotations row) (annotations a)
                  \<and> alert_status a = FIRING
          then Inr ((existing, False, []), st)
          else
            (case (if alert_status a = ALERT_IS_RESOLVED
                   then resolve_if_quiet now existing (alert_id row)
                          (update_alert_row st (alert_id row) (refresh_row a))
                   else ([], update_alert_row st (alert_id row) (refresh_row a))) of
               (ended, st2) \<Rightarrow>
                 (case emit st2 existing
                         (if alert_status a = ALERT_IS_RESOLVED then ALERT_RESOLVED else ALERT_UPDATED) now
                         [(''fingerprint'', PStr (fingerprint a)),
                          (''status'', PStr (if alert_status a = FIRING then ''FIRING'' else ''RESOLVED''))] of
                    Inl e \<Rightarrow> Inl e
                  | Inr st3 \<Rightarrow> Inr ((existing, False, ended), st3))))"

definition new_incident :: "alert \<Rightarrow> instant \<Rightarrow> ingest_store \<Rightarrow> incident" where
  "new_incident a now st =
     \<lparr>incident_id = next_uuid st, status = OPEN, severity = alert_severity a,
      source = SrcAlertmanager, title = alert_name a,
      description = map_of (annotations a) ''description'',
      created_at = now, updated_at = now, correlation_id = next_uuid st + 1\<rparr>"

text \<open>The incident and its first occurrence, in one transaction.\<close>

definition insert_occurrence ::
  "alert \<Rightarrow> instant \<Rightarrow> ingest_store \<Rightarrow> ingest_store result" where
  "insert_occurrence a now st =
     (case create_incident (st\<lparr>next_uuid := next_uuid st + 2\<rparr>) (new_incident a now st) of
        Inl e \<Rightarrow> Inl e
      | Inr st1 \<Rightarrow> insert_alert_row st1 (alert_row_of a (incident_id (new_incident a now st))))"

definition ingest_row ::
  "(ingest_store \<Rightarrow> ingest_store) \<Rightarrow> alert \<Rightarrow> instant \<Rightarrow> ingest_store
   \<Rightarrow> ((incident \<times> bool \<times> uuid list) \<times> ingest_store) result" where
  "ingest_row env a now st =
     (case find_occurrence st a of
        Some row \<Rightarrow> update_known a now row st
      | None \<Rightarrow>
          (case insert_occurrence a now (env st) of
             Inr st1 \<Rightarrow> Inr ((new_incident a now (env st), True, []), st1)
           | Inl e \<Rightarrow>
               (case find_occurrence (env st) a of
                  None \<Rightarrow> Inl e
                | Some row \<Rightarrow> update_known a now row (env st))))"

text \<open>\<open>IncidentManager.ingest_occurrence\<close>\<close>

definition ingest_occurrence ::
  "duration \<Rightarrow> (ingest_store \<Rightarrow> ingest_store) \<Rightarrow> alert \<Rightarrow> instant \<Rightarrow> ingest_store
   \<Rightarrow> (ingest_outcome \<times> ingest_store) result" where
  "ingest_occurrence quiet env a now st =
     (case (if quiet > 0 \<and> alert_status a = FIRING then continue_episode quiet env a now st
            else Inr (None, st)) of
        Inl e \<Rightarrow> Inl e
      | Inr (Some inc, st1) \<Rightarrow>
          (case end_replaced a now st1 of
             Inl e \<Rightarrow> Inl e
           | Inr (res, st2) \<Rightarrow>
               Inr (\<lparr>outcome_incident = inc, refired = True, created = False, resolved = res\<rparr>, st2))
      | Inr (None, st1) \<Rightarrow>
          (case ingest_row env a now st1 of
             Inl e \<Rightarrow> Inl e
           | Inr ((inc, new, res), st2) \<Rightarrow>
               (case (if alert_status a = FIRING then end_replaced a now st2 else Inr ([], st2)) of
                  Inl e \<Rightarrow> Inl e
                | Inr (ended, st3) \<Rightarrow>
                    Inr (\<lparr>outcome_incident = inc, refired = False, created = new,
                          resolved = dedup (res @ ended)\<rparr>, st3))))"

end
