(* ===== verification/Ingestion_Correct.thy ===== *)
theory Ingestion_Correct
  imports Ingestion
begin

text \<open>
  Correctness of alert ingestion: the invariant of the incident and alert tables, that every
  delivery keeps it (whatever other transactions commit in between), that a redelivery changes
  nothing, that a resolved incident is not reopened by default, and that a firing occurrence ends
  the earlier ones of its fingerprint.
\<close>

section \<open>The invariant\<close>

definition ingest_ok :: "ingest_store \<Rightarrow> bool" where
  "ingest_ok st \<longleftrightarrow>
     timeline_ok st \<and>
     (\<forall>i\<in>set (incident_ids st). i < next_uuid st) \<and>
     distinct (map (\<lambda>r. (fingerprint r, starts_at r)) (alert_rows st)) \<and>
     distinct (map alert_id (alert_rows st)) \<and>
     (\<forall>r\<in>set (alert_rows st). \<forall>i. row_incident_id r = Some i \<longrightarrow> i \<in> set (incident_ids st)) \<and>
     (\<forall>r\<in>set (alert_rows st). \<forall>inc\<in>set (incident_rows st).
        row_incident_id r = Some (incident_id inc) \<and> alert_status r = FIRING \<longrightarrow> status inc \<noteq> RESOLVED)"

definition advances :: "ingest_store \<Rightarrow> ingest_store \<Rightarrow> bool" where
  "advances st st' \<longleftrightarrow>
     ingest_ok st' \<and> prefix (event_rows st) (event_rows st') \<and> prefix (incident_ids st) (incident_ids st')"

lemma advances_refl: "ingest_ok st \<Longrightarrow> advances st st"
  by (simp add: advances_def)

lemma advances_trans: "advances st st' \<Longrightarrow> advances st' st'' \<Longrightarrow> advances st st''"
  by (auto simp: advances_def intro: prefix_order.trans)

lemma advances_ok: "advances st st' \<Longrightarrow> ingest_ok st'"
  by (simp add: advances_def)

lemma incident_ids_simps [simp]:
  "incident_ids (st\<lparr>alert_rows := xs\<rparr>) = incident_ids st"
  "incident_ids (st\<lparr>next_uuid := n\<rparr>) = incident_ids (st::ingest_store)"
  by (simp_all add: incident_ids_def)

lemma events_of_simps [simp]:
  "events_of (st\<lparr>alert_rows := xs\<rparr>) i = events_of st i"
  "events_of (st\<lparr>next_uuid := n\<rparr>) i = events_of (st::ingest_store) i"
  by (simp_all add: events_of_def)

lemma timeline_ok_simps [simp]:
  "timeline_ok (st\<lparr>alert_rows := xs\<rparr>) = timeline_ok st"
  "timeline_ok (st\<lparr>next_uuid := n\<rparr>) = timeline_ok (st::ingest_store)"
  by (simp_all add: timeline_ok_def)

lemma update_alert_row_simps [simp]:
  "incident_rows (update_alert_row st k f) = incident_rows st"
  "event_rows (update_alert_row st k f) = event_rows st"
  "next_uuid (update_alert_row st k f) = next_uuid st"
  "incident_ids (update_alert_row st k f) = incident_ids st"
  "timeline_ok (update_alert_row st k f) = timeline_ok st"
  "get_incident (update_alert_row st k f) i = get_incident st i"
  by (simp_all add: update_alert_row_def get_incident_def)

lemma alert_rows_update_incident [simp]: "alert_rows (update_incident st i f) = alert_rows st"
  by (simp add: update_incident_def)

section \<open>The primitive operations\<close>

lemma emit_simps:
  assumes "emit st inc ty now pl = Inr st'"
  shows "incident_rows st' = incident_rows st" "alert_rows st' = alert_rows st"
    "next_uuid st' = Suc (next_uuid st)" "incident_ids st' = incident_ids st"
    "prefix (event_rows st) (event_rows st')"
  using assms by (auto simp: emit_def append_event_def incident_ids_def split: if_splits)

lemma emit_total: "incident_id inc \<in> set (incident_ids st) \<Longrightarrow> \<exists>st'. emit st inc ty now pl = Inr st'"
  by (simp add: emit_def append_event_def)

lemma emit_advances:
  assumes ok: "ingest_ok st" and em: "emit st inc ty now pl = Inr st'"
  shows "advances st st'"
proof -
  have "timeline_ok st'"
    using append_event_ok [of "st\<lparr>next_uuid := next_uuid st + 1\<rparr>"] ok em
    by (auto simp: emit_def ingest_ok_def)
  with ok emit_simps [OF em] show ?thesis
    by (auto simp: advances_def ingest_ok_def less_Suc_eq)
qed

lemma update_alert_row_advances:
  assumes ok: "ingest_ok st"
    and keep: "\<And>r. alert_id (f r) = alert_id r \<and> fingerprint (f r) = fingerprint r
                   \<and> starts_at (f r) = starts_at r \<and> row_incident_id (f r) = row_incident_id r"
    and fire: "\<And>r. r \<in> set (alert_rows st) \<Longrightarrow> alert_id r = k \<Longrightarrow> alert_status (f r) = FIRING \<Longrightarrow>
                   alert_status r = FIRING"
  shows "advances st (update_alert_row st k f)"
proof -
  let ?g = "\<lambda>r. if alert_id r = k then f r else r"
  have rows: "alert_rows (update_alert_row st k f) = map ?g (alert_rows st)"
    by (simp add: update_alert_row_def)
  have "map (\<lambda>r. (fingerprint r, starts_at r)) (map ?g (alert_rows st))
      = map (\<lambda>r. (fingerprint r, starts_at r)) (alert_rows st)"
    "map alert_id (map ?g (alert_rows st)) = map alert_id (alert_rows st)"
    by (auto simp: keep)
  moreover have "row_incident_id (?g r) = row_incident_id r" for r
    by (simp add: keep)
  moreover have "r \<in> set (alert_rows st) \<Longrightarrow> alert_status (?g r) = FIRING \<Longrightarrow> alert_status r = FIRING" for r
    using fire by (auto split: if_splits)
  ultimately show ?thesis
    using ok unfolding advances_def ingest_ok_def rows
    by (auto simp: keep simp del: map_map if_image_distrib split: if_splits)
qed

lemma update_incident_advances:
  assumes ok: "ingest_ok st" and keep: "\<And>r. incident_id (f r) = incident_id r"
    and quiet: "\<And>inc r. inc \<in> set (incident_rows st) \<Longrightarrow> incident_id inc = i \<Longrightarrow> status (f inc) = RESOLVED \<Longrightarrow>
                  r \<in> set (alert_rows st) \<Longrightarrow> row_incident_id r = Some i \<Longrightarrow> alert_status r \<noteq> FIRING"
  shows "advances st (update_incident st i f)"
proof -
  have ids: "incident_ids (update_incident st i f) = incident_ids st"
    by (rule incident_ids_update) (rule keep)
  have "status inc \<noteq> RESOLVED"
    if "r \<in> set (alert_rows st)" "inc \<in> set (incident_rows (update_incident st i f))"
      "row_incident_id r = Some (incident_id inc)" "alert_status r = FIRING" for r inc
    using that ok quiet by (fastforce simp: update_incident_def ingest_ok_def keep split: if_splits)
  then show ?thesis
    using ok update_incident_ok [of st f i] keep by (auto simp: advances_def ingest_ok_def ids)
qed

lemma insert_alert_row_advances:
  assumes ok: "ingest_ok st" and ins: "insert_alert_row st r = Inr st'"
    and inc: "\<And>i. row_incident_id r = Some i \<Longrightarrow> i \<in> set (incident_ids st)"
    and quiet: "\<And>inc. inc \<in> set (incident_rows st) \<Longrightarrow> row_incident_id r = Some (incident_id inc) \<Longrightarrow>
                  alert_status r = FIRING \<Longrightarrow> status inc \<noteq> RESOLVED"
  shows "advances st st'"
proof -
  have st': "st' = st\<lparr>alert_rows := alert_rows st @ [r]\<rparr>"
    and new: "\<forall>q\<in>set (alert_rows st). \<not> (fingerprint q = fingerprint r \<and> starts_at q = starts_at r)"
      "\<forall>q\<in>set (alert_rows st). alert_id q \<noteq> alert_id r"
    using ins by (auto simp: insert_alert_row_def list_ex_iff split: if_splits)
  show ?thesis
    using ok new inc quiet unfolding advances_def ingest_ok_def st' by auto
qed

lemma create_incident_advances:
  assumes ok: "ingest_ok st" and cr: "create_incident (st\<lparr>next_uuid := next_uuid st + 2\<rparr>) inc = Inr st'"
    and new: "incident_id inc < next_uuid st + 2" and open_: "status inc \<noteq> RESOLVED"
  shows "advances st st'" "incident_rows st' = incident_rows st @ [inc]"
    "incident_ids st' = incident_ids st @ [incident_id inc]" "alert_rows st' = alert_rows st"
proof -
  show rows: "incident_rows st' = incident_rows st @ [inc]" and al: "alert_rows st' = alert_rows st"
    using cr by (auto simp: create_incident_def split: if_splits)
  then show ids: "incident_ids st' = incident_ids st @ [incident_id inc]"
    by (simp add: incident_ids_def)
  have "timeline_ok st'"
    using create_incident_ok [OF _ cr] ok by (simp add: ingest_ok_def)
  moreover have "prefix (event_rows st) (event_rows st')" "next_uuid st' = next_uuid st + 3"
    using cr by (auto simp: create_incident_def split: if_splits)
  ultimately show "advances st st'"
    using ok new open_ by (auto simp: advances_def ingest_ok_def ids rows al)
qed

section \<open>Every delivery keeps the invariant\<close>

text \<open>What resolving one row and, if nothing else fires, its incident does.\<close>

lemma mark_replaced_simps [simp]:
  "alert_id (mark_replaced a r) = alert_id r" "fingerprint (mark_replaced a r) = fingerprint r"
  "starts_at (mark_replaced a r) = starts_at r" "row_incident_id (mark_replaced a r) = row_incident_id r"
  "alert_status (mark_replaced a r) = ALERT_IS_RESOLVED" "ends_at (mark_replaced a r) = Some (starts_at a)"
  by (simp_all add: mark_replaced_def)

lemma refresh_row_simps [simp]:
  "alert_id (refresh_row a r) = alert_id r" "fingerprint (refresh_row a r) = fingerprint r"
  "starts_at (refresh_row a r) = starts_at r" "row_incident_id (refresh_row a r) = row_incident_id r"
  "alert_status (refresh_row a r) = alert_status a" "ends_at (refresh_row a r) = ends_at a"
  "labels (refresh_row a r) = labels a" "annotations (refresh_row a r) = annotations a"
  by (simp_all add: refresh_row_def)

lemma resolve_if_quiet_simps [simp]:
  "alert_rows (snd (resolve_if_quiet now inc k st)) = alert_rows st"
  "event_rows (snd (resolve_if_quiet now inc k st)) = event_rows st"
  "next_uuid (snd (resolve_if_quiet now inc k st)) = next_uuid st"
  "incident_ids (snd (resolve_if_quiet now inc k st)) = incident_ids st"
  by (simp_all add: resolve_if_quiet_def incident_ids_update)

lemma resolve_if_quiet_advances:
  assumes ok: "ingest_ok st"
    and k: "\<And>r. r \<in> set (alert_rows st) \<Longrightarrow> alert_id r = k \<Longrightarrow> alert_status r \<noteq> FIRING"
  shows "advances st (snd (resolve_if_quiet now inc k st))"
proof (cases "\<not> still_firing st (incident_id inc) k \<and> status inc \<noteq> RESOLVED")
  case True
  have "advances st (update_incident st (incident_id inc) (\<lambda>r. r\<lparr>status := RESOLVED, updated_at := now\<rparr>))"
    by (rule update_incident_advances [OF ok]) (use True k in \<open>auto simp: still_firing_def list_ex_iff\<close>)
  with True show ?thesis by (simp add: resolve_if_quiet_def)
qed (use ok in \<open>auto simp: resolve_if_quiet_def advances_refl\<close>)

lemma set_update_alert_row:
  "r \<in> set (alert_rows (update_alert_row st k f)) \<longleftrightarrow>
     (\<exists>q\<in>set (alert_rows st). r = (if alert_id q = k then f q else q))"
  by (simp add: update_alert_row_def image_iff del: if_image_distrib)

lemma get_row_incident_update_alert_row [simp]:
  "get_row_incident (update_alert_row st k f) i = get_row_incident st i"
  by (cases i) (simp_all add: get_row_incident_def)

lemma mark_replaced_fixed: "r = mark_replaced a r \<Longrightarrow> alert_status r = ALERT_IS_RESOLVED"
  by (metis mark_replaced_simps(5))

lemma refresh_row_fixed: "r = refresh_row a r \<Longrightarrow> alert_status r = alert_status a"
  by (metis refresh_row_simps(5))

lemma end_rows_Cons:
  assumes "end_rows a now (row # rows) st = Inr (res, st')"
  obtains (missing) "end_rows a now rows (update_alert_row st (alert_id row) (mark_replaced a)) = Inr (res, st')"
      "get_row_incident st (row_incident_id row) = None"
  | (found) inc st3 pl res' where
      "get_row_incident st (row_incident_id row) = Some inc"
      "emit (snd (resolve_if_quiet now inc (alert_id row)
              (update_alert_row st (alert_id row) (mark_replaced a)))) inc ALERT_RESOLVED now pl = Inr st3"
      "end_rows a now rows st3 = Inr (res', st')"
      "res = fst (resolve_if_quiet now inc (alert_id row)
              (update_alert_row st (alert_id row) (mark_replaced a))) @ res'"
proof (cases "get_row_incident st (row_incident_id row)")
  case None
  with assms show ?thesis by (intro missing) (simp_all add: Let_def)
next
  case (Some inc)
  obtain ended st2 where q: "resolve_if_quiet now inc (alert_id row)
      (update_alert_row st (alert_id row) (mark_replaced a)) = (ended, st2)"
    by (metis surj_pair)
  from assms Some q show ?thesis
    by (auto simp: Let_def split: sum.splits intro: found [OF Some])
qed

lemma end_rows_advances:
  "ingest_ok st \<Longrightarrow> end_rows a now rows st = Inr (res, st') \<Longrightarrow> advances st st'"
proof (induction rows arbitrary: st res)
  case Nil
  then show ?case by (simp add: advances_refl)
next
  case (Cons row rows)
  let ?st1 = "update_alert_row st (alert_id row) (mark_replaced a)"
  have adv1: "advances st ?st1"
    by (rule update_alert_row_advances [OF Cons.prems(1)]) simp_all
  from Cons.prems(2) show ?case
  proof (cases rule: end_rows_Cons)
    case missing
    with Cons.IH adv1 show ?thesis by (blast intro: advances_trans dest: advances_ok)
  next
    case (found inc st3 pl res')
    have adv2: "advances ?st1 (snd (resolve_if_quiet now inc (alert_id row) ?st1))"
      by (rule resolve_if_quiet_advances [OF advances_ok [OF adv1]]) (auto simp: set_update_alert_row dest: mark_replaced_fixed split: if_splits)
    have adv3: "advances (snd (resolve_if_quiet now inc (alert_id row) ?st1)) st3"
      by (rule emit_advances [OF advances_ok [OF adv2] found(2)])
    with Cons.IH [OF advances_ok [OF adv3] found(3)] adv1 adv2 show ?thesis
      by (blast intro: advances_trans)
  qed
qed

lemma update_known_cases:
  assumes "update_known a now row st = Inr (x, st')"
  obtains (same) "st' = st"
      "alert_status row = ALERT_IS_RESOLVED
       \<or> (alert_status a = FIRING \<and> ends_at row = ends_at a
          \<and> dict_eq (labels row) (labels a) \<and> dict_eq (annotations row) (annotations a))"
  | (updated) ex where "get_row_incident st (row_incident_id row) = Some ex"
      "alert_status row = FIRING" "alert_status a = FIRING"
      "\<exists>pl. emit (update_alert_row st (alert_id row) (refresh_row a)) ex ALERT_UPDATED now pl = Inr st'"
  | (ended) ex where "get_row_incident st (row_incident_id row) = Some ex"
      "alert_status row = FIRING" "alert_status a = ALERT_IS_RESOLVED"
      "\<exists>pl. emit (snd (resolve_if_quiet now ex (alert_id row)
               (update_alert_row st (alert_id row) (refresh_row a)))) ex ALERT_RESOLVED now pl = Inr st'"
proof -
  have cases: "alert_status r = FIRING \<or> alert_status r = ALERT_IS_RESOLVED" for r :: "'a alert_scheme"
    by (cases "alert_status r") auto
  show thesis
    using assms cases [of a] cases [of row] that
    by (auto simp: update_known_def split: option.splits if_splits sum.splits prod.splits)
qed

lemma update_known_advances:
  assumes ok: "ingest_ok st" and row: "row \<in> set (alert_rows st)"
    and upd: "update_known a now row st = Inr (x, st')"
  shows "advances st st'"
proof -
  let ?st1 = "update_alert_row st (alert_id row) (refresh_row a)"
  have same: "r = row" if "r \<in> set (alert_rows st)" "alert_id r = alert_id row" for r
    using that row ok by (auto simp: ingest_ok_def distinct_map inj_on_def)
  have adv1: "alert_status row = FIRING \<Longrightarrow> advances st ?st1"
    by (rule update_alert_row_advances [OF ok]) (use same in auto)
  from upd show ?thesis
  proof (cases rule: update_known_cases)
    case same
    with ok show ?thesis by (simp add: advances_refl)
  next
    case (updated ex)
    with adv1 show ?thesis by (blast intro: advances_trans emit_advances dest: advances_ok)
  next
    case (ended ex)
    have adv2: "advances ?st1 (snd (resolve_if_quiet now ex (alert_id row) ?st1))"
      by (rule resolve_if_quiet_advances [OF advances_ok [OF adv1]])
        (use ended in \<open>auto simp: set_update_alert_row dest: refresh_row_fixed split: if_splits\<close>)
    with ended adv1 show ?thesis by (blast intro: advances_trans emit_advances dest: advances_ok)
  qed
qed

lemma find_occurrence_Some:
  "find_occurrence st a = Some row \<Longrightarrow>
     row \<in> set (alert_rows st) \<and> fingerprint row = fingerprint a \<and> starts_at row = starts_at a"
  by (auto simp: find_occurrence_def dest: find_Some_set)

lemma insert_occurrence_advances:
  assumes ok: "ingest_ok st" and ins: "insert_occurrence a now st = Inr st'"
  shows "advances st st'"
proof -
  let ?inc = "new_incident a now st"
  from ins obtain st1 where cr: "create_incident (st\<lparr>next_uuid := next_uuid st + 2\<rparr>) ?inc = Inr st1"
    and ins: "insert_alert_row st1 (alert_row_of a (incident_id ?inc)) = Inr st'"
    by (auto simp: insert_occurrence_def split: sum.splits)
  have new: "incident_id ?inc < next_uuid st + 2" "status ?inc \<noteq> RESOLVED"
    by (simp_all add: new_incident_def)
  note c = create_incident_advances [OF ok cr new]
  have "advances st1 st'"
  proof (rule insert_alert_row_advances [OF advances_ok [OF c(1)] ins])
    fix i assume "row_incident_id (alert_row_of a (incident_id ?inc)) = Some i"
    then show "i \<in> set (incident_ids st1)" by (simp add: c(3))
  next
    fix other assume other: "other \<in> set (incident_rows st1)"
      "row_incident_id (alert_row_of a (incident_id ?inc)) = Some (incident_id other)"
    have "distinct (incident_ids st1)"
      using advances_ok [OF c(1)] by (simp add: ingest_ok_def timeline_ok_def)
    with other have "other = ?inc"
      by (auto simp: incident_ids_def c(2) image_iff)
    then show "status other \<noteq> RESOLVED" using new by simp
  qed
  with c(1) show ?thesis by (blast intro: advances_trans)
qed

lemma ingest_row_advances:
  assumes ok: "ingest_ok st" and env: "advances st (env st)"
    and run: "ingest_row env a now st = Inr (x, st')"
  shows "advances st st'"
proof (cases "find_occurrence st a")
  case (Some row)
  with run ok show ?thesis
    by (auto simp: ingest_row_def intro: update_known_advances dest: find_occurrence_Some)
next
  case None
  have ok0: "ingest_ok (env st)" by (rule advances_ok [OF env])
  have "advances (env st) st'"
    using run None ok0
    by (auto simp: ingest_row_def split: sum.splits option.splits
        intro: update_known_advances insert_occurrence_advances dest!: find_occurrence_Some)
  with env show ?thesis by (rule advances_trans)
qed

lemma continue_episode_None:
  assumes ok: "ingest_ok st" and env: "advances st (env st)"
    and run: "continue_episode quiet env a now st = Inr (None, st')"
  shows "advances st st' \<and> (st' = st \<or> st' = env st)"
  using run ok env
  by (auto simp: continue_episode_def Let_def advances_refl split: if_splits option.splits sum.splits)

lemma continue_episode_SomeE:
  assumes run: "continue_episode quiet env a now st = Inr (Some inc, st')"
  obtains earlier row gap st1 pl where
    "find_occurrence st a = None" "earlier_occurrence st a = Some earlier"
    "continuation_gap quiet a earlier = Some gap"
    "get_row_incident st (row_incident_id earlier) = Some row"
    "insert_alert_row (env st) (alert_row_of a (incident_id row)) = Inr st1"
    "get_incident (update_incident st1 (incident_id row) (\<lambda>r. r\<lparr>status := OPEN, updated_at := now\<rparr>))
       (incident_id row) = Some inc"
    "emit (update_incident st1 (incident_id row) (\<lambda>r. r\<lparr>status := OPEN, updated_at := now\<rparr>))
       inc ALERT_REFIRED now pl = Inr st'"
proof -
  from run obtain earlier gap row st1 where *: "find_occurrence st a = None"
    "earlier_occurrence st a = Some earlier" "continuation_gap quiet a earlier = Some gap"
    "get_row_incident st (row_incident_id earlier) = Some row"
    "insert_alert_row (env st) (alert_row_of a (incident_id row)) = Inr st1"
    unfolding continue_episode_def Let_def
    by (auto split: if_splits option.splits [where option = "earlier_occurrence st a"]
        option.splits [where option = "continuation_gap quiet a _"]
        option.splits [where option = "get_row_incident st _"]
        sum.splits [where sum = "insert_alert_row _ _"])
  with run obtain pl where
    "get_incident (update_incident st1 (incident_id row) (\<lambda>r. r\<lparr>status := OPEN, updated_at := now\<rparr>))
       (incident_id row) = Some inc"
    "emit (update_incident st1 (incident_id row) (\<lambda>r. r\<lparr>status := OPEN, updated_at := now\<rparr>))
       inc ALERT_REFIRED now pl = Inr st'"
    by (simp add: continue_episode_def Let_def split: option.splits [where option = "get_incident _ _"]
        sum.splits)
  with * show thesis by (rule that)
qed

lemma continue_episode_Some:
  assumes ok: "ingest_ok st" and env: "advances st (env st)"
    and run: "continue_episode quiet env a now st = Inr (Some inc, st')"
  shows "advances st st'"
proof -
  from run obtain earlier :: alert_row and row st1 pl where
    row: "get_row_incident st (row_incident_id earlier) = Some row" and
    ins: "insert_alert_row (env st) (alert_row_of a (incident_id row)) = Inr st1" and
    em: "emit (update_incident st1 (incident_id row) (\<lambda>r. r\<lparr>status := OPEN, updated_at := now\<rparr>))
           inc ALERT_REFIRED now pl = Inr st'"
    by (rule continue_episode_SomeE) blast
  let ?i = "incident_id row" and ?st0 = "env st"
  let ?o = "\<lambda>r. r\<lparr>status := OPEN, updated_at := now\<rparr> :: incident"
  let ?r = "alert_row_of a ?i"
  from row have "?i \<in> set (incident_ids st)"
    by (auto simp: get_row_incident_def bind_eq_Some_conv incident_ids_def dest!: get_incident_Some)
  with env have i: "?i \<in> set (incident_ids ?st0)"
    by (auto simp: advances_def dest: set_mono_prefix)
  have adv1: "advances ?st0 (update_incident ?st0 ?i ?o)"
    by (rule update_incident_advances [OF advances_ok [OF env]]) simp_all
  have st1: "st1 = ?st0\<lparr>alert_rows := alert_rows ?st0 @ [?r]\<rparr>"
    using ins by (auto simp: insert_alert_row_def split: if_splits)
  have swap: "insert_alert_row (update_incident ?st0 ?i ?o) ?r = Inr (update_incident st1 ?i ?o)"
    using ins by (auto simp: insert_alert_row_def st1 update_incident_def split: if_splits)
  have adv2: "advances (update_incident ?st0 ?i ?o) (update_incident st1 ?i ?o)"
  proof (rule insert_alert_row_advances [OF advances_ok [OF adv1] swap])
    show "j \<in> set (incident_ids (update_incident ?st0 ?i ?o))" if "row_incident_id ?r = Some j" for j
      using that i by (simp add: incident_ids_update)
    show "status other \<noteq> RESOLVED"
      if "other \<in> set (incident_rows (update_incident ?st0 ?i ?o))" "row_incident_id ?r = Some (incident_id other)"
      for other
    proof -
      from that(1) obtain x where "other = (if incident_id x = ?i then ?o x else x)"
        unfolding update_incident_def by (auto simp del: if_image_distrib)
      with that(2) show ?thesis by (cases "incident_id x = ?i") auto
    qed
  qed
  have "advances (update_incident st1 ?i ?o) st'"
    by (rule emit_advances [OF advances_ok [OF adv2] em])
  with env adv1 adv2 show ?thesis by (blast intro: advances_trans)
qed

lemma ingest_occurrence_advances:
  assumes ok: "ingest_ok st" and env: "\<And>s. ingest_ok s \<Longrightarrow> advances s (env s)"
    and run: "ingest_occurrence quiet env a now st = Inr (out, st')"
  shows "advances st st'"
proof -
  let ?first = "if quiet > 0 \<and> alert_status a = FIRING then continue_episode quiet env a now st
            else Inr (None, st)"
  obtain c st1 where first: "?first = Inr (c, st1)"
    using run by (auto simp: ingest_occurrence_def split: sum.splits)
  show ?thesis
  proof (cases c)
    case (Some inc)
    with first have "continue_episode quiet env a now st = Inr (Some inc, st1)"
      by (auto split: if_splits)
    then have "advances st st1" by (rule continue_episode_Some [where env = env, OF ok env [OF ok]])
    moreover have "\<exists>res. end_replaced a now st1 = Inr (res, st')"
      using run Some first by (auto simp: ingest_occurrence_def split: sum.splits)
    ultimately show ?thesis
      unfolding end_replaced_def by (blast intro: advances_trans dest: end_rows_advances advances_ok)
  next
    case None
    with first have adv1: "advances st st1"
      using continue_episode_None [where env = env, OF ok env [OF ok], of quiet a now st1] ok
      by (auto simp: advances_refl split: if_splits)
    from run None first obtain x st2 where mid: "ingest_row env a now st1 = Inr (x, st2)"
      and last: "\<exists>ended. (if alert_status a = FIRING then end_replaced a now st2 else Inr ([], st2)) = Inr (ended, st')"
      by (auto simp: ingest_occurrence_def split: sum.splits)
    have adv2: "advances st1 st2"
      by (rule ingest_row_advances [where env = env, OF advances_ok [OF adv1] env [OF advances_ok [OF adv1]] mid])
    have "advances st2 st'"
      using last end_rows_advances [OF advances_ok [OF adv2]] advances_refl [OF advances_ok [OF adv2]]
      by (auto simp: end_replaced_def split: if_splits)
    with adv1 adv2 show ?thesis by (blast intro: advances_trans)
  qed
qed

section \<open>Effects on the tables\<close>

text \<open>Which rows the inferred end of replaced occurrences rewrites.\<close>

lemma get_row_incident_iff:
  "get_row_incident st i \<noteq> None \<longleftrightarrow> (\<exists>j. i = Some j \<and> j \<in> set (incident_ids st))"
  by (cases i) (auto simp: get_row_incident_def get_incident_None simp flip: not_None_eq)

lemma get_row_incident_id: "get_row_incident st i = Some inc \<Longrightarrow> i = Some (incident_id inc) \<and> incident_id inc \<in> set (incident_ids st)"
  by (auto simp: get_row_incident_def bind_eq_Some_conv incident_ids_def dest!: get_incident_Some)

lemma emit_alert_rows: "emit st inc ty now pl = Inr st' \<Longrightarrow> alert_rows st' = alert_rows st"
  by (simp add: emit_simps)

lemma end_rows_alerts:
  "end_rows a now rows st = Inr (res, st') \<Longrightarrow>
     alert_rows st' = map (\<lambda>r. if alert_id r \<in> alert_id ` set rows then mark_replaced a r else r) (alert_rows st)"
proof (induction rows arbitrary: st res)
  case (Cons row rows)
  let ?st1 = "update_alert_row st (alert_id row) (mark_replaced a)"
  have st1: "alert_rows ?st1 = map (\<lambda>r. if alert_id r = alert_id row then mark_replaced a r else r) (alert_rows st)"
    by (simp add: update_alert_row_def)
  have twice: "mark_replaced a (mark_replaced a r) = mark_replaced a r" for r :: alert_row
    by (simp add: mark_replaced_def)
  from Cons.prems have "\<exists>st3 res'. end_rows a now rows st3 = Inr (res', st') \<and> alert_rows st3 = alert_rows ?st1"
    by (cases rule: end_rows_Cons) (auto simp: emit_alert_rows intro!: exI)
  with Cons.IH show ?case
    by (auto simp: st1 twice)
qed simp

lemma end_replaced_quiet:
  assumes "end_replaced a now st = Inr (res, st')"
  shows "replaced_rows st' a = []"
proof -
  have "alert_rows st' = map (\<lambda>r. if alert_id r \<in> alert_id ` set (replaced_rows st a)
      then mark_replaced a r else r) (alert_rows st)"
    using assms by (auto simp: end_replaced_def dest: end_rows_alerts)
  then show ?thesis
    by (auto simp: replaced_rows_def filter_empty_conv simp del: if_image_distrib split: if_splits)
qed

lemma end_rows_ids:
  "end_rows a now rows st = Inr (res, st') \<Longrightarrow> incident_ids st' = incident_ids st"
proof (induction rows arbitrary: st res)
  case (Cons row rows)
  from Cons.prems show ?case
    by (cases rule: end_rows_Cons) (auto simp: emit_simps dest!: Cons.IH)
qed simp

text \<open>Resolving an incident is the only change of status besides a refired episode.\<close>

definition keeps_status :: "ingest_store \<Rightarrow> ingest_store \<Rightarrow> bool" where
  "keeps_status st st' \<longleftrightarrow>
     (\<forall>i inc. get_incident st i = Some inc \<longrightarrow>
        (\<exists>inc'. get_incident st' i = Some inc' \<and> (status inc' = status inc \<or> status inc' = RESOLVED)))"

lemma keeps_status_same: "incident_rows st' = incident_rows st \<Longrightarrow> keeps_status st st'"
  by (simp add: keeps_status_def get_incident_def)

lemma keeps_status_trans: "keeps_status st st' \<Longrightarrow> keeps_status st' st'' \<Longrightarrow> keeps_status st st''"
  unfolding keeps_status_def by metis

lemma get_incident_update:
  assumes "\<And>r. incident_id (f r) = incident_id r"
  shows "get_incident (update_incident st i f) j =
    map_option (\<lambda>r. if j = i then f r else r) (get_incident st j)"
proof -
  have "List.find (\<lambda>r. incident_id r = j) (map (\<lambda>r. if incident_id r = i then f r else r) xs)
      = map_option (\<lambda>r. if j = i then f r else r) (List.find (\<lambda>r. incident_id r = j) xs)" for xs
    by (induction xs) (auto simp: assms)
  then show ?thesis by (simp add: get_incident_def update_incident_def)
qed

lemma keeps_status_resolve: "keeps_status st (snd (resolve_if_quiet now inc k st))"
  by (auto simp: resolve_if_quiet_def keeps_status_def get_incident_update)

lemma emit_keeps: "emit st inc ty now pl = Inr st' \<Longrightarrow> keeps_status st st'"
  by (rule keeps_status_same) (simp add: emit_simps)

lemma end_rows_keeps: "end_rows a now rows st = Inr (res, st') \<Longrightarrow> keeps_status st st'"
proof (induction rows arbitrary: st res)
  case Nil
  then show ?case by (simp add: keeps_status_same)
next
  case (Cons row rows)
  have "keeps_status st (update_alert_row st (alert_id row) (mark_replaced a))"
    by (rule keeps_status_same) simp
  with Cons.prems show ?case
    by (cases rule: end_rows_Cons)
      (blast intro: Cons.IH keeps_status_trans emit_keeps keeps_status_resolve)+
qed

lemma update_known_keeps:
  assumes "update_known a now row st = Inr (x, st')"
  shows "keeps_status st st'"
  using assms
proof (cases rule: update_known_cases)
  case (updated ex)
  have "keeps_status st (update_alert_row st (alert_id row) (refresh_row a))"
    by (rule keeps_status_same) simp
  with updated show ?thesis by (blast intro: keeps_status_trans emit_keeps)
next
  case (ended ex)
  have "keeps_status st (update_alert_row st (alert_id row) (refresh_row a))"
    by (rule keeps_status_same) simp
  with ended show ?thesis by (blast intro: keeps_status_trans emit_keeps keeps_status_resolve)
qed (auto intro: keeps_status_same)

lemma insert_alert_row_simps:
  "insert_alert_row st r = Inr st' \<Longrightarrow>
     incident_rows st' = incident_rows st \<and> alert_rows st' = alert_rows st @ [r]"
  by (auto simp: insert_alert_row_def split: if_splits)

lemma insert_occurrence_rows:
  assumes "insert_occurrence a now st = Inr st'"
  shows "incident_rows st' = incident_rows st @ [new_incident a now st]"
    "alert_rows st' = alert_rows st @ [alert_row_of a (incident_id (new_incident a now st))]"
  using assms
  by (auto simp: insert_occurrence_def create_incident_def dest!: insert_alert_row_simps split: if_splits)

lemma insert_occurrence_keeps: "insert_occurrence a now st = Inr st' \<Longrightarrow> keeps_status st st'"
  by (auto simp: keeps_status_def get_incident_def insert_occurrence_rows find_append split: option.splits)

lemma ingest_row_keeps: "ingest_row id a now st = Inr (x, st') \<Longrightarrow> keeps_status st st'"
  by (auto simp: ingest_row_def split: option.splits sum.splits
      intro: update_known_keeps insert_occurrence_keeps)

section \<open>Redelivery\<close>

text \<open>A row that records what the delivery says, or is already final.\<close>

definition settled_row :: "alert \<Rightarrow> alert_row \<Rightarrow> bool" where
  "settled_row a row \<longleftrightarrow> alert_status row = ALERT_IS_RESOLVED \<or>
     (alert_status a = FIRING \<and> ends_at row = ends_at a
      \<and> dict_eq (labels row) (labels a) \<and> dict_eq (annotations row) (annotations a))"

definition settled :: "ingest_store \<Rightarrow> alert \<Rightarrow> bool" where
  "settled st a \<longleftrightarrow>
     (\<exists>row i. find_occurrence st a = Some row \<and> row_incident_id row = Some i
        \<and> i \<in> set (incident_ids st) \<and> settled_row a row)"

lemma find_occurrence_unique:
  assumes "ingest_ok st" and "row \<in> set (alert_rows st)"
    and "fingerprint row = fingerprint a" "starts_at row = starts_at a"
  shows "find_occurrence st a = Some row"
proof (cases "find_occurrence st a")
  case None
  then show ?thesis using assms by (auto simp: find_occurrence_def find_None_iff)
next
  case (Some q)
  with find_occurrence_Some [OF Some] assms show ?thesis
    by (auto simp: ingest_ok_def distinct_map inj_on_def)
qed

lemma settledI:
  assumes "ingest_ok st" and "row \<in> set (alert_rows st)"
    and "fingerprint row = fingerprint a" "starts_at row = starts_at a"
    and "row_incident_id row = Some i" "i \<in> set (incident_ids st)" "settled_row a row"
  shows "settled st a"
  using find_occurrence_unique [OF assms(1-4)] assms(5-7) by (auto simp: settled_def)

lemma update_known_settled:
  assumes ok: "ingest_ok st" and occ: "find_occurrence st a = Some row"
    and upd: "update_known a now row st = Inr (x, st')"
  shows "settled st' a"
proof -
  note row = find_occurrence_Some [OF occ]
  have ok': "ingest_ok st'"
    using update_known_advances [OF ok _ upd] row by (simp add: advances_ok)
  from upd obtain inc where "get_row_incident st (row_incident_id row) = Some inc"
    by (auto simp: update_known_def split: option.splits)
  from get_row_incident_id [OF this] obtain i where
    known: "row_incident_id row = Some i" "i \<in> set (incident_ids st)" by blast
  have settled: "settled st' a"
    if rows: "alert_rows st' = alert_rows (update_alert_row st (alert_id row) (refresh_row a))"
      and ids: "incident_ids st' = incident_ids st"
      and "settled_row a (refresh_row a row)"
  proof (rule settledI [OF ok'])
    show "refresh_row a row \<in> set (alert_rows st')"
      using row by (auto simp: rows set_update_alert_row)
  qed (use that row known in auto)
  from upd show ?thesis
  proof (cases rule: update_known_cases)
    case same
    with occ known show ?thesis by (auto simp: settled_def settled_row_def)
  next
    case (updated ex)
    then show ?thesis by (intro settled) (auto simp: settled_row_def emit_simps)
  next
    case (ended ex)
    then show ?thesis by (intro settled) (auto simp: settled_row_def emit_simps)
  qed
qed

lemma settled_row_of [simp]: "settled_row a (alert_row_of a i)"
  by (cases "alert_status a") (auto simp: settled_row_def)

lemma ingest_row_settled:
  assumes ok: "ingest_ok st" and run: "ingest_row id a now st = Inr (x, st')"
  shows "settled st' a"
proof (cases "find_occurrence st a")
  case (Some row)
  with run ok show ?thesis by (auto simp: ingest_row_def intro: update_known_settled)
next
  case None
  with run have ins: "insert_occurrence a now st = Inr st'"
    by (auto simp: ingest_row_def split: sum.splits)
  show ?thesis
    by (rule settledI [OF advances_ok [OF insert_occurrence_advances [OF ok ins]], where
          row = "alert_row_of a (incident_id (new_incident a now st))"])
      (auto simp: insert_occurrence_rows [OF ins] incident_ids_def)
qed

lemma end_replaced_settled:
  assumes ok: "ingest_ok st" and run: "end_replaced a now st = Inr (res, st')" and "settled st a"
  shows "settled st' a"
proof -
  from assms(3) obtain row i where occ: "find_occurrence st a = Some row"
    and inc: "row_incident_id row = Some i" "i \<in> set (incident_ids st)" and row: "settled_row a row"
    by (auto simp: settled_def)
  note row' = find_occurrence_Some [OF occ]
  have adv: "advances st st'" and rows: "alert_rows st' = map (\<lambda>r. if alert_id r \<in> alert_id ` set (replaced_rows st a)
      then mark_replaced a r else r) (alert_rows st)"
    using run end_rows_advances [OF ok] by (auto simp: end_replaced_def dest: end_rows_alerts)
  have "alert_id row \<notin> alert_id ` set (replaced_rows st a)"
  proof
    assume "alert_id row \<in> alert_id ` set (replaced_rows st a)"
    then obtain q where q: "q \<in> set (alert_rows st)" "starts_at q < starts_at a" "alert_id q = alert_id row"
      by (auto simp: replaced_rows_def)
    have "inj_on alert_id (set (alert_rows st))" using ok by (simp add: ingest_ok_def distinct_map)
    from inj_onD [OF this q(3) q(1)] row' q(2) show False by simp
  qed
  then have "row \<in> set (alert_rows st')"
    using row' unfolding rows by (auto simp: image_iff simp del: if_image_distrib)
  moreover have "i \<in> set (incident_ids st')"
    using inc adv by (auto simp: advances_def dest: set_mono_prefix)
  ultimately show ?thesis
    using row row' inc by (blast intro: settledI advances_ok [OF adv])
qed

lemma continue_episode_settled:
  assumes ok: "ingest_ok st" and run: "continue_episode quiet id a now st = Inr (Some inc, st')"
  shows "settled st' a"
proof -
  have ok': "ingest_ok st'"
    using continue_episode_Some [where env = id, OF ok _ run] ok by (simp add: advances_def)
  from run obtain earlier :: alert_row and row st1 pl where
    row: "get_row_incident st (row_incident_id earlier) = Some row" and
    ins: "insert_alert_row st (alert_row_of a (incident_id row)) = Inr st1" and
    em: "emit (update_incident st1 (incident_id row) (\<lambda>r. r\<lparr>status := OPEN, updated_at := now\<rparr>))
           inc ALERT_REFIRED now pl = Inr st'"
    by (rule continue_episode_SomeE) (auto simp only: id_apply)
  have "incident_ids st' = incident_ids st" "alert_rows st' = alert_rows st @ [alert_row_of a (incident_id row)]"
    using insert_alert_row_simps [OF ins] emit_simps(2,4) [OF em]
    by (simp_all add: incident_ids_update) (simp add: incident_ids_def)
  then show ?thesis
    using get_row_incident_id [OF row]
    by (intro settledI [OF ok', where row = "alert_row_of a (incident_id row)"]) auto
qed

lemma ingest_occurrence_splits:
  assumes "ingest_occurrence quiet id a now st = Inr (out, st')"
  obtains (continued) inc st1 res where "quiet > 0" "alert_status a = FIRING"
      "continue_episode quiet id a now st = Inr (Some inc, st1)" "end_replaced a now st1 = Inr (res, st')"
      "out = \<lparr>outcome_incident = inc, refired = True, created = False, resolved = res\<rparr>"
  | (ordinary) inc new res st2 ended where "ingest_row id a now st = Inr ((inc, new, res), st2)"
      "(if alert_status a = FIRING then end_replaced a now st2 else Inr ([], st2)) = Inr (ended, st')"
      "out = \<lparr>outcome_incident = inc, refired = False, created = new, resolved = dedup (res @ ended)\<rparr>"
proof -
  obtain c st1 where first: "(if quiet > 0 \<and> alert_status a = FIRING then continue_episode quiet id a now st
      else Inr (None, st)) = Inr (c, st1)"
    using assms by (auto simp: ingest_occurrence_def split: sum.splits)
  show thesis
  proof (cases c)
    case None
    with first have "st1 = st"
      by (auto simp: continue_episode_def Let_def split: if_splits option.splits sum.splits)
    with assms first None ordinary show thesis
      unfolding ingest_occurrence_def by (auto split: sum.splits)
  next
    case (Some inc)
    with assms first continued show thesis
      unfolding ingest_occurrence_def by (auto split: sum.splits if_splits)
  qed
qed

lemma ingest_occurrence_settled:
  assumes ok: "ingest_ok st" and run: "ingest_occurrence quiet id a now st = Inr (out, st')"
  shows "settled st' a" "alert_status a = FIRING \<Longrightarrow> replaced_rows st' a = []"
proof -
  have id: "advances s (id s)" if "ingest_ok s" for s using that by (simp add: advances_refl)
  have "settled st' a \<and> (alert_status a = FIRING \<longrightarrow> replaced_rows st' a = [])"
    using run
  proof (cases rule: ingest_occurrence_splits)
    case (continued inc st1 res)
    with continue_episode_settled [OF ok] continue_episode_Some [where env = id, OF ok id [OF ok]]
    show ?thesis by (blast intro: end_replaced_settled end_replaced_quiet advances_ok)
  next
    case (ordinary inc new res st2 ended)
    have "settled st2 a" by (rule ingest_row_settled [OF ok ordinary(1)])
    moreover have "ingest_ok st2"
      by (rule advances_ok [OF ingest_row_advances [where env = id, OF ok id [OF ok] ordinary(1)]])
    ultimately show ?thesis
      using ordinary(2) by (auto split: if_splits intro: end_replaced_settled end_replaced_quiet)
  qed
  then show "settled st' a" "alert_status a = FIRING \<Longrightarrow> replaced_rows st' a = []" by auto
qed

lemma settled_redelivery:
  assumes st: "settled st a" and quiet: "alert_status a = FIRING \<Longrightarrow> replaced_rows st a = []"
  shows "\<exists>inc. ingest_occurrence quiet id (a\<lparr>alert_id := k\<rparr>) now st =
    Inr (\<lparr>outcome_incident = inc, refired = False, created = False, resolved = []\<rparr>, st)"
proof -
  let ?a = "a\<lparr>alert_id := k\<rparr>"
  from st obtain row i where occ: "find_occurrence st ?a = Some row"
    and i: "row_incident_id row = Some i" "i \<in> set (incident_ids st)" and row: "settled_row a row"
    by (auto simp: settled_def find_occurrence_def)
  from i obtain inc where inc: "get_row_incident st (row_incident_id row) = Some inc"
    using get_row_incident_iff [of st "row_incident_id row"] by auto
  have upd: "update_known ?a now row st = Inr ((inc, False, []), st)"
    using row inc by (cases "alert_status a"; cases "alert_status row")
      (auto simp: update_known_def settled_row_def)
  have "end_replaced ?a now st = Inr ([], st)" if "alert_status a = FIRING"
    using quiet [OF that] by (simp add: end_replaced_def replaced_rows_def)
  then show ?thesis
    using occ upd by (simp add: ingest_occurrence_def continue_episode_def ingest_row_def)
qed

section \<open>Properties of a delivery\<close>


definition sample_alert :: "instant \<Rightarrow> alert_status \<Rightarrow> instant option \<Rightarrow> uuid \<Rightarrow> alert" where
  "sample_alert start st fin k =
     \<lparr>alert_id = k, alert_name = ''HighErrorRate'', alert_service = ''cart'', alert_namespace = ''shop'',
      alert_cluster = ''c1'', starts_at = start, ends_at = fin, labels = [], annotations = [],
      fingerprint = ''f'', alert_status = st, alert_source = ALERTMANAGER\<rparr>"

definition empty_store :: ingest_store where
  "empty_store = \<lparr>incident_rows = [], event_rows = [], next_uuid = 0, alert_rows = []\<rparr>"

lemma empty_store_ok: "ingest_ok empty_store"
  by (simp add: ingest_ok_def timeline_ok_def incident_ids_def events_of_def empty_store_def)

lemmas ingest_eval = sample_alert_def empty_store_def ingest_occurrence_def continue_episode_def
  ingest_row_def find_occurrence_def insert_occurrence_def new_incident_def create_incident_def
  insert_alert_row_def alert_row_of_def end_replaced_def replaced_rows_def incident_ids_def Let_def
  alert_severity_def dict_get_def upper_def upper_char_def earlier_occurrence_def continuation_gap_def
  get_row_incident_def get_incident_def update_incident_def update_alert_row_def emit_def
  append_event_def update_known_def refresh_row_def mark_replaced_def resolve_if_quiet_def
  still_firing_def dict_eq_def next_event_sequence_def events_of_def event_row_of_def


text \<open>
  C2: Alertmanager's redeliveries are harmless. Once an occurrence was ingested, ingesting it again,
  under any new alert identifier and at any later time, succeeds, returns an incident without
  claiming to have created, continued or resolved one, and leaves the database exactly as it was.
\<close>

theorem redelivery_is_idempotent:
  assumes "ingest_ok st" and "ingest_occurrence quiet id a now st = Inr (out, st')"
  shows "\<exists>inc. ingest_occurrence quiet id (a\<lparr>alert_id := k\<rparr>) later st' =
    Inr (\<lparr>outcome_incident = inc, refired = False, created = False, resolved = []\<rparr>, st')"
  using ingest_occurrence_settled [OF assms] by (intro settled_redelivery)

theorem redelivery_is_idempotent_witness:
  "\<exists>out st' inc. ingest_occurrence 0 id (sample_alert 5 FIRING None 7) 9 empty_store = Inr (out, st')
     \<and> created out
     \<and> ingest_occurrence 0 id ((sample_alert 5 FIRING None 7)\<lparr>alert_id := 8\<rparr>) 10 st' =
         Inr (\<lparr>outcome_incident = inc, refired = False, created = False, resolved = []\<rparr>, st')"
proof -
  obtain out st' where run: "ingest_occurrence 0 id (sample_alert 5 FIRING None 7) 9 empty_store = Inr (out, st')"
    and "created out"
    by (simp add: ingest_eval)
  with redelivery_is_idempotent [OF empty_store_ok run, of 8 10] show ?thesis by auto
qed

text \<open>
  A firing occurrence replaces the earlier ones. After it was ingested, under any concurrency,
  no occurrence of the same fingerprint that started earlier is still recorded as firing: each is
  resolved.
\<close>

theorem firing_ends_replaced:
  assumes "ingest_occurrence quiet env a now st = Inr (out, st')" and "alert_status a = FIRING"
    and "r \<in> set (alert_rows st')" "fingerprint r = fingerprint a" "starts_at r < starts_at a"
  shows "alert_status r = ALERT_IS_RESOLVED"
proof -
  obtain st1 res where "end_replaced a now st1 = Inr (res, st')"
    using assms(1,2) unfolding ingest_occurrence_def
    by (auto split: sum.splits option.splits if_splits)
  then have "replaced_rows st' a = []" by (rule end_replaced_quiet)
  with assms(3-5) show ?thesis
    by (cases "alert_status r") (auto simp: replaced_rows_def filter_empty_conv)
qed

theorem firing_ends_replaced_witness:
  "\<exists>out st1 out' st2. ingest_occurrence 0 id (sample_alert 5 FIRING None 7) 9 empty_store = Inr (out, st1)
     \<and> ingest_occurrence 0 id (sample_alert 8 FIRING None 6) 10 st1 = Inr (out', st2)
     \<and> length (alert_rows st2) = 2
     \<and> {r \<in> set (alert_rows st2). fingerprint r = ''f'' \<and> starts_at r < 8} \<subseteq> {r. alert_status r = ALERT_IS_RESOLVED}"
proof -
  obtain out st1 out' st2 where run1: "ingest_occurrence 0 id (sample_alert 5 FIRING None 7) 9 empty_store = Inr (out, st1)"
    and run2: "ingest_occurrence 0 id (sample_alert 8 FIRING None 6) 10 st1 = Inr (out', st2)"
    and len: "length (alert_rows st2) = 2"
    by (simp add: ingest_eval)
  have "alert_status r = ALERT_IS_RESOLVED"
    if "r \<in> set (alert_rows st2)" "fingerprint r = ''f''" "starts_at r < 8" for r
    by (rule firing_ends_replaced [OF run2]) (use that in \<open>auto simp: sample_alert_def\<close>)
  with run1 run2 len show ?thesis by blast
qed

text \<open>
  By default nothing is reopened. With a quiet period of zero a delivery never changes the status
  of an existing incident except to \<open>RESOLVED\<close>: a later firing after a resolution creates a new
  incident instead.
\<close>

theorem default_never_reopens:
  assumes run: "ingest_occurrence quiet id a now st = Inr (out, st')" and "quiet \<le> 0"
    and "get_incident st i = Some inc"
  shows "\<exists>inc'. get_incident st' i = Some inc' \<and> (status inc' = status inc \<or> status inc' = RESOLVED)"
proof -
  from run have "keeps_status st st'"
  proof (cases rule: ingest_occurrence_splits)
    case (ordinary inc new res st2 ended)
    have "keeps_status st2 st'"
      using ordinary(2) by (auto simp: end_replaced_def keeps_status_same split: if_splits dest: end_rows_keeps)
    with ingest_row_keeps [OF ordinary(1)] show ?thesis by (rule keeps_status_trans)
  qed (use \<open>quiet \<le> 0\<close> in simp)
  with assms(3) show ?thesis by (simp add: keeps_status_def)
qed

theorem default_never_reopens_witness:
  "\<exists>out st1 out2 st2 out3 st3.
     ingest_occurrence 0 id (sample_alert 5 FIRING None 7) 9 empty_store = Inr (out, st1)
     \<and> ingest_occurrence 0 id (sample_alert 5 ALERT_IS_RESOLVED (Some 6) 8) 10 st1 = Inr (out2, st2)
     \<and> ingest_occurrence 0 id (sample_alert 7 FIRING None 9) 11 st2 = Inr (out3, st3)
     \<and> created out3 \<and> (\<exists>inc. get_incident st3 0 = Some inc \<and> status inc = RESOLVED)"
proof -
  obtain out st1 out2 st2 out3 st3 inc where
    run: "ingest_occurrence 0 id (sample_alert 5 FIRING None 7) 9 empty_store = Inr (out, st1)"
    "ingest_occurrence 0 id (sample_alert 5 ALERT_IS_RESOLVED (Some 6) 8) 10 st1 = Inr (out2, st2)"
    "ingest_occurrence 0 id (sample_alert 7 FIRING None 9) 11 st2 = Inr (out3, st3)"
    "created out3" and inc: "get_incident st2 0 = Some inc" "status inc = RESOLVED"
    by (simp add: ingest_eval)
  from default_never_reopens [OF run(3) _ inc(1)] inc(2) run show ?thesis by auto
qed

lemma end_rows_total:
  "ingest_ok st \<Longrightarrow> \<exists>res st'. end_rows a now rows st = Inr (res, st')"
proof (induction rows arbitrary: st)
  case (Cons row rows)
  let ?st1 = "update_alert_row st (alert_id row) (mark_replaced a)"
  have ok1: "ingest_ok ?st1"
    by (rule advances_ok [OF update_alert_row_advances [OF Cons.prems]]) simp_all
  show ?case
  proof (cases "get_row_incident st (row_incident_id row)")
    case None
    with Cons.IH [OF ok1] show ?thesis by (simp add: Let_def)
  next
    case (Some inc)
    obtain ended st2 where q: "resolve_if_quiet now inc (alert_id row) ?st1 = (ended, st2)"
      by (metis surj_pair)
    have adv: "advances ?st1 (snd (resolve_if_quiet now inc (alert_id row) ?st1))"
      by (rule resolve_if_quiet_advances [OF ok1])
        (auto simp: set_update_alert_row dest: mark_replaced_fixed split: if_splits)
    then have ok2: "ingest_ok st2" "incident_id inc \<in> set (incident_ids st2)"
      using get_row_incident_id [OF Some] q by (auto simp: advances_def dest: set_mono_prefix)
    obtain st3 where em: "emit st2 inc ALERT_RESOLVED now
        [(''fingerprint'', PStr (fingerprint a)), (''status'', PStr ''RESOLVED''),
         (''inferred'', PStr ''superseded''), (''by_starts_at'', PInstant (starts_at a))] = Inr st3"
      using emit_total [OF ok2(2)] by blast
    from Cons.IH [OF advances_ok [OF emit_advances [OF ok2(1) em]]] Some q em show ?thesis
      by (auto simp: Let_def)
  qed
qed simp

text \<open>The successful continuation of an episode.\<close>

lemma continue_episode_refires:
  assumes ok: "ingest_ok st" and new: "find_occurrence st a = None"
    and fresh: "\<forall>r\<in>set (alert_rows st). alert_id r \<noteq> alert_id a"
    and earlier: "earlier_occurrence st a = Some e" "row_incident_id e = Some i"
    and gap: "continuation_gap quiet a e \<noteq> None"
  shows "\<exists>inc st1. continue_episode quiet id a now st = Inr (Some inc, st1) \<and> incident_id inc = i
    \<and> alert_rows st1 = alert_rows st @ [alert_row_of a i]
    \<and> incident_ids st1 = incident_ids st
    \<and> (\<exists>r\<in>set (event_rows st1). event_type r = ALERT_REFIRED \<and> event_incident_id r = i)
    \<and> (\<exists>r. get_incident st1 i = Some r \<and> status r = OPEN)"
proof -
  let ?o = "\<lambda>r. r\<lparr>status := OPEN, updated_at := now\<rparr> :: incident"
  let ?st1 = "st\<lparr>alert_rows := alert_rows st @ [alert_row_of a i]\<rparr>"
  let ?st2 = "update_incident ?st1 i ?o"
  have "e \<in> set (alert_rows st)"
    using earlier(1) by (auto simp: earlier_occurrence_def dest!: max_by_Some)
  with earlier(2) ok have i: "i \<in> set (incident_ids st)" by (auto simp: ingest_ok_def)
  then obtain row where row: "get_incident st i = Some row"
    using get_incident_None [of st i] by (cases "get_incident st i") auto
  then have id_row: "incident_id row = i" by (auto dest: get_incident_Some)
  have ins: "insert_alert_row st (alert_row_of a i) = Inr ?st1"
    using new fresh by (auto simp: insert_alert_row_def find_occurrence_def find_None_iff list_ex_iff)
  have g1: "get_incident ?st1 j = get_incident st j" for j by (simp add: get_incident_def)
  have inc: "get_incident ?st2 i = Some (?o row)"
    using row by (simp add: get_incident_update g1)
  obtain g where g: "continuation_gap quiet a e = Some g" using gap by auto
  have ids: "incident_ids ?st2 = incident_ids st" by (simp add: incident_ids_update)
  define pl where "pl = [(''fingerprint'', PStr (fingerprint a)), (''status'', PStr ''OPEN''),
    (''starts_at'', PInstant (starts_at a)), (''previous_starts_at'', PInstant (starts_at e)),
    (''gap_seconds'', case g of None \<Rightarrow> PNull | Some g \<Rightarrow> PSeconds g)]"
  obtain st3 where em: "emit ?st2 (?o row) ALERT_REFIRED now pl = Inr st3"
    using emit_total [of "?o row" ?st2 ALERT_REFIRED now pl] i id_row by (auto simp: ids)
  have "continue_episode quiet id a now st = Inr (Some (?o row), st3)"
    using new earlier row id_row ins inc g em
    by (simp add: continue_episode_def get_row_incident_def Let_def pl_def)
  moreover have "\<exists>r\<in>set (event_rows st3). event_type r = ALERT_REFIRED \<and> event_incident_id r = i"
    using em id_row by (auto simp: emit_def append_event_def split: if_splits)
  moreover have "get_incident st3 i = Some (?o row)"
    using emit_simps(1) [OF em] inc by (simp add: get_incident_def)
  ultimately show ?thesis
    using emit_simps [OF em] ids id_row by (auto simp: update_incident_def)
qed

text \<open>
  C3: An alert that fires again soon continues its episode. With a positive quiet period, a new firing
  occurrence whose latest earlier occurrence still fires, or ended less than the quiet period before
  the new start, is attached to that occurrence's incident: no incident is created, the incident is
  open afterwards, and \<open>ALERT_REFIRED\<close> is on its timeline. The delivery cannot fail.
\<close>

theorem refire_continues_episode:
  assumes ok: "ingest_ok st" and firing: "quiet > 0" "alert_status a = FIRING"
    and new: "find_occurrence st a = None" "\<forall>r\<in>set (alert_rows st). alert_id r \<noteq> alert_id a"
    and earlier: "earlier_occurrence st a = Some e" "row_incident_id e = Some i"
    and gap: "alert_status e = FIRING \<or> (\<exists>t. ends_at e = Some t \<and> starts_at a - t < quiet)"
  shows "\<exists>out st'. ingest_occurrence quiet id a now st = Inr (out, st')
    \<and> refired out \<and> \<not> created out \<and> incident_id (outcome_incident out) = i
    \<and> incident_ids st' = incident_ids st
    \<and> (\<exists>r. get_incident st' i = Some r \<and> status r = OPEN)
    \<and> (\<exists>r\<in>set (event_rows st'). event_type r = ALERT_REFIRED \<and> event_incident_id r = i)"
proof -
  have "continuation_gap quiet a e \<noteq> None"
    using gap by (auto simp: continuation_gap_def split: option.splits)
  from continue_episode_refires [OF ok new earlier this, of now] obtain inc st1 where
    cont: "continue_episode quiet id a now st = Inr (Some inc, st1)" "incident_id inc = i"
    and rows: "alert_rows st1 = alert_rows st @ [alert_row_of a i]"
    and ids: "incident_ids st1 = incident_ids st"
    and event: "\<exists>r\<in>set (event_rows st1). event_type r = ALERT_REFIRED \<and> event_incident_id r = i"
    and open_: "\<exists>r. get_incident st1 i = Some r \<and> status r = OPEN"
    by blast
  have ok1: "ingest_ok st1"
    using continue_episode_Some [where env = id, OF ok _ cont(1)] ok by (simp add: advances_def)
  obtain res st' where er: "end_replaced a now st1 = Inr (res, st')"
    using end_rows_total [OF ok1, of a now "replaced_rows st1 a"] by (auto simp: end_replaced_def)
  have adv: "advances st1 st'" and keeps: "keeps_status st1 st'"
    using er end_rows_advances [OF ok1] end_rows_keeps by (auto simp: end_replaced_def)
  have fires: "alert_row_of a i \<in> set (alert_rows st')"
    using end_rows_alerts [OF er [unfolded end_replaced_def]] new(2) unfolding rows
    by (auto simp: replaced_rows_def rows simp del: if_image_distrib)
  obtain r where r: "get_incident st' i = Some r" "status r = OPEN \<or> status r = RESOLVED"
    using open_ keeps by (fastforce simp: keeps_status_def)
  then have "status r = OPEN"
    using fires firing(2) advances_ok [OF adv]
    by (auto simp: ingest_ok_def dest!: get_incident_Some)
  moreover have "incident_ids st' = incident_ids st1"
    using end_rows_ids er by (auto simp: end_replaced_def)
  moreover have "\<exists>r\<in>set (event_rows st'). event_type r = ALERT_REFIRED \<and> event_incident_id r = i"
    using event adv by (auto simp: advances_def dest: set_mono_prefix)
  ultimately show ?thesis
    using cont er r ids firing by (auto simp: ingest_occurrence_def)
qed

theorem refire_continues_episode_witness:
  "\<exists>out st1 out2 st2 out3 st3.
     ingest_occurrence 10 id (sample_alert 5 FIRING None 7) 9 empty_store = Inr (out, st1)
     \<and> ingest_occurrence 10 id (sample_alert 5 ALERT_IS_RESOLVED (Some 6) 8) 10 st1 = Inr (out2, st2)
     \<and> ingest_occurrence 10 id (sample_alert 8 FIRING None 9) 11 st2 = Inr (out3, st3)
     \<and> refired out3 \<and> (\<exists>inc. get_incident st3 0 = Some inc \<and> status inc = OPEN)"
proof -
  obtain out st1 out2 st2 e where
    run: "ingest_occurrence 10 id (sample_alert 5 FIRING None 7) 9 empty_store = Inr (out, st1)"
    "ingest_occurrence 10 id (sample_alert 5 ALERT_IS_RESOLVED (Some 6) 8) 10 st1 = Inr (out2, st2)"
    and e: "find_occurrence st2 (sample_alert 8 FIRING None 9) = None"
    "\<forall>r\<in>set (alert_rows st2). alert_id r \<noteq> 9"
    "earlier_occurrence st2 (sample_alert 8 FIRING None 9) = Some e" "row_incident_id e = Some 0"
    "ends_at e = Some 6"
    by (simp add: ingest_eval)
  have ok2: "ingest_ok st2"
    using ingest_occurrence_advances [where env = id, OF _ _ run(2)]
      ingest_occurrence_advances [where env = id, OF empty_store_ok _ run(1)]
    by (auto simp: advances_refl dest: advances_ok)
  show ?thesis
    using refire_continues_episode [OF ok2 _ _ e(1) _ e(3,4), of 10 11] e run
    by (auto simp: sample_alert_def)
qed

end
