(* ===== verification/Stream_Buffer.thy ===== *)
theory Stream_Buffer
  imports Prelude "HOL-Library.Multiset"
begin

text \<open>
  The Connector's stream buffers (\<open>packages/connector/streams.py\<close>) and their cursors
  (\<open>make_cursor\<close>, \<open>parse_cursor\<close> of \<open>packages/connector/wire.py\<close>). A buffer numbers its items
  within one epoch, keeps the newest \<open>max_len\<close> of them, and serves pages to readers that resume
  with a cursor. The buffer's lock makes every operation atomic, so a history of a buffer is a
  sequence of them. \<open>clock\<close> is an argument: the ISO text of the instant of the read.
\<close>

section \<open>Cursors\<close>

text \<open>\<open>s.rpartition(c)\<close> without the separator: the text before and after its last occurrence.\<close>

definition rpartition :: "char \<Rightarrow> string \<Rightarrow> string \<times> string" where
  "rpartition c s =
     (let r = rev s; rest = dropWhile (\<lambda>x. x \<noteq> c) r in
      if rest = [] then ([], s) else (rev (tl rest), rev (takeWhile (\<lambda>x. x \<noteq> c) r)))"

definition int_str :: "int \<Rightarrow> string" where
  "int_str n = (if n < 0 then CHR ''-'' # nat_str (nat (- n)) else nat_str (nat n))"

definition make_cursor :: "string \<Rightarrow> int \<Rightarrow> string" where
  "make_cursor epoch n = epoch @ '':'' @ int_str n"

definition parse_cursor :: "string \<Rightarrow> (string \<times> int) result" where
  "parse_cursor cursor =
     (case rpartition CHR '':'' cursor of
        (epoch, n) \<Rightarrow>
          if epoch = [] \<or> \<not> isdigit n then Inl (ValueError ''malformed cursor'')
          else Inr (epoch, int (str_nat n)))"

lemma rpartition_append:
  assumes "c \<notin> set t"
  shows "rpartition c (s @ c # t) = (s, t)"
proof -
  have "dropWhile (\<lambda>x. x \<noteq> c) (rev t @ c # rev s) = c # rev s"
    "takeWhile (\<lambda>x. x \<noteq> c) (rev t @ c # rev s) = rev t"
    using assms by (subst dropWhile_append2 takeWhile_append2; auto)+
  then show ?thesis by (simp add: rpartition_def)
qed

lemma colon_not_in_nat_str: "CHR '':'' \<notin> set (nat_str n)"
  using isdigit_nat_str [of n] by (auto simp: isdigit_def list_all_iff is_digit_def)

lemma parse_make_cursor: "epoch \<noteq> [] \<Longrightarrow> 0 \<le> n \<Longrightarrow> parse_cursor (make_cursor epoch n) = Inr (epoch, n)"
  by (simp add: parse_cursor_def make_cursor_def int_str_def rpartition_append colon_not_in_nat_str
      isdigit_nat_str str_nat_nat_str)

section \<open>The buffer\<close>

record stream_item =
  item_seq :: int
  item_kind :: string
  item_fields :: "(string \<times> string) list"

record stream_buffer =
  epoch :: string
  max_len :: nat
  items :: "stream_item list"
  next_seq :: int
  baseline_seq :: "int option"

definition new_buffer :: "string \<Rightarrow> nat \<Rightarrow> stream_buffer" where
  "new_buffer e n = \<lparr>epoch = e, max_len = n, items = [], next_seq = 1, baseline_seq = None\<rparr>"

text \<open>\<open>append\<close>: the loop pops the oldest item while the buffer is too long.\<close>

fun pop_excess :: "nat \<Rightarrow> 'a list \<Rightarrow> 'a list" where
  "pop_excess n [] = []"
| "pop_excess n (x # xs) = (if length (x # xs) > n then pop_excess n xs else x # xs)"

definition append_item :: "stream_item \<Rightarrow> stream_buffer \<Rightarrow> int \<times> stream_buffer" where
  "append_item it b =
     (next_seq b,
      b\<lparr>next_seq := next_seq b + 1,
        items := pop_excess (max_len b) (items b @ [it\<lparr>item_seq := next_seq b\<rparr>])\<rparr>)"

definition first_seq :: "stream_buffer \<Rightarrow> int" where
  "first_seq b = (case items b of [] \<Rightarrow> next_seq b | it # _ \<Rightarrow> item_seq it)"

definition has_baseline :: "stream_buffer \<Rightarrow> bool" where
  "has_baseline b = (case baseline_seq b of None \<Rightarrow> False | Some n \<Rightarrow> n \<ge> first_seq b)"

definition mark_baseline :: "int \<Rightarrow> stream_buffer \<Rightarrow> stream_buffer" where
  "mark_baseline n b = b\<lparr>baseline_seq := Some n\<rparr>"

record page =
  page_epoch :: string
  page_items :: "stream_item list"
  page_gaps :: "stream_item list"
  next_cursor :: string

text \<open>Where the cursor points: the position, and whether it is of another epoch or expired.\<close>

datatype start = Start_After int | Restart | Expired | Fresh

definition locate :: "stream_buffer \<Rightarrow> string option \<Rightarrow> start result" where
  "locate b cursor =
     (case cursor of
        None \<Rightarrow> Inr Fresh
      | Some c \<Rightarrow>
          (case parse_cursor c of
             Inl e \<Rightarrow> Inl e
           | Inr (ep, n) \<Rightarrow>
               if ep \<noteq> epoch b then Inr Restart
               else if n < first_seq b - 1 then Inr Expired
               else Inr (Start_After n)))"

definition start_after :: "stream_buffer \<Rightarrow> bool \<Rightarrow> start \<Rightarrow> int result" where
  "start_after b needs_baseline s =
     (case s of
        Start_After n \<Rightarrow> Inr n
      | _ \<Rightarrow>
          if needs_baseline
          then (case baseline_seq b of
                  None \<Rightarrow> Inl (LookupError ''no snapshot baseline is available yet'')
                | Some n \<Rightarrow>
                    if n < first_seq b then Inl (LookupError ''no snapshot baseline is available yet'')
                    else Inr (n - 1))
          else Inr (first_seq b - 1))"

definition declared_gap :: "string \<Rightarrow> start \<Rightarrow> stream_item list" where
  "declared_gap now s =
     (if s = Restart \<or> s = Expired
      then [\<lparr>item_seq = 0, item_kind = ''gap'',
             item_fields = [(''at'', now),
               (''reason'', if s = Restart then ''CONNECTOR_RESTART'' else ''BUFFER_EXPIRED'')]\<rparr>]
      else [])"

definition is_gap :: "stream_item \<Rightarrow> bool" where
  "is_gap it \<longleftrightarrow> item_kind it = ''gap''"

definition read_page ::
  "string \<Rightarrow> stream_buffer \<Rightarrow> string option \<Rightarrow> nat \<Rightarrow> bool \<Rightarrow> page result" where
  "read_page now b cursor limit needs_baseline =
     (case locate b cursor of
        Inl e \<Rightarrow> Inl e
      | Inr s \<Rightarrow>
          (case start_after b needs_baseline s of
             Inl e \<Rightarrow> Inl e
           | Inr after \<Rightarrow>
               let served = take limit (filter (\<lambda>i. item_seq i > after) (items b));
                   n = (if served \<noteq> [] then item_seq (last served)
                        else if \<exists>k. s = Start_After k then after
                        else max after (first_seq b - 1))
               in Inr \<lparr>page_epoch = epoch b,
                       page_items = filter (\<lambda>i. \<not> is_gap i) served,
                       page_gaps = declared_gap now s @ filter is_gap served,
                       next_cursor = make_cursor (epoch b) n\<rparr>))"

section \<open>The invariant of a buffer\<close>

text \<open>The items are the newest ones, numbered without a hole up to the next number.\<close>

definition buffer_ok :: "stream_buffer \<Rightarrow> bool" where
  "buffer_ok b \<longleftrightarrow>
     epoch b \<noteq> [] \<and> length (items b) \<le> max_len b \<and> int (length (items b)) < next_seq b \<and>
     map item_seq (items b) = [next_seq b - int (length (items b)) .. next_seq b - 1] \<and>
     (\<forall>n. baseline_seq b = Some n \<longrightarrow> n < next_seq b)"

lemma pop_excess_drop: "pop_excess n xs = drop (length xs - n) xs"
  by (induction xs) (auto simp: Suc_diff_le not_less_eq_eq)

lemma drop_upto: "drop k [i..j] = [i + int k .. j]"
proof (induction k arbitrary: i)
  case (Suc k)
  then show ?case
    by (cases "i \<le> j") (simp_all add: upto_rec1 [of i j] algebra_simps)
qed simp

lemma first_seq_ok: "buffer_ok b \<Longrightarrow> first_seq b = next_seq b - int (length (items b))"
  by (cases "items b") (auto simp: buffer_ok_def first_seq_def upto_rec1)

lemma append_item_ok: "buffer_ok b \<Longrightarrow> buffer_ok (snd (append_item it b))"
proof -
  assume ok: "buffer_ok b"
  let ?xs = "items b @ [it\<lparr>item_seq := next_seq b\<rparr>]" and ?k = "Suc (length (items b)) - max_len b"
  have "map item_seq ?xs = [next_seq b - int (length (items b)) .. next_seq b]"
    using ok by (simp add: buffer_ok_def upto_rec2 [of _ "next_seq b"])
  then have "map item_seq (drop ?k ?xs) = [next_seq b - int (length (items b)) + int ?k .. next_seq b]"
    by (simp add: drop_map [symmetric] drop_upto del: map_append drop_append)
  moreover have "length (drop ?k ?xs) = Suc (length (items b)) - ?k" by simp
  ultimately show ?thesis
    using ok by (auto simp: buffer_ok_def append_item_def pop_excess_drop of_nat_diff algebra_simps)
qed

text \<open>
  What the service does to a buffer: append an item, or append the first item of a snapshot and
  mark it as the baseline.
\<close>

datatype buffer_command = Append_Item stream_item | Append_Baseline stream_item

fun run_buffer :: "buffer_command \<Rightarrow> stream_buffer \<Rightarrow> stream_buffer" where
  "run_buffer (Append_Item it) b = snd (append_item it b)"
| "run_buffer (Append_Baseline it) b = (case append_item it b of (n, b') \<Rightarrow> mark_baseline n b')"

definition buffer_grows :: "stream_buffer \<Rightarrow> stream_buffer \<Rightarrow> bool" where
  "buffer_grows b b' \<longleftrightarrow> epoch b' = epoch b \<and> max_len b' = max_len b \<and> next_seq b \<le> next_seq b'"

lemma mark_baseline_ok: "buffer_ok b \<Longrightarrow> n < next_seq b \<Longrightarrow> buffer_ok (mark_baseline n b)"
  by (simp add: buffer_ok_def mark_baseline_def)

interpretation buffer: monotone_machine run_buffer buffer_ok buffer_grows
proof unfold_locales
  fix c and b b1 b2 :: stream_buffer
  show "buffer_ok b \<Longrightarrow> buffer_ok (run_buffer c b)"
    using append_item_ok [of b] by (cases c) (auto simp: append_item_def intro!: mark_baseline_ok)
  show "buffer_grows b b" by (simp add: buffer_grows_def)
  show "buffer_grows b b1 \<Longrightarrow> buffer_grows b1 b2 \<Longrightarrow> buffer_grows b b2" by (simp add: buffer_grows_def)
  show "buffer_ok b \<Longrightarrow> buffer_grows b (run_buffer c b)"
    by (cases c) (auto simp: buffer_grows_def append_item_def mark_baseline_def)
qed

lemma new_buffer_ok: "e \<noteq> [] \<Longrightarrow> buffer_ok (new_buffer e n)"
  by (simp add: buffer_ok_def new_buffer_def)

section \<open>Reading\<close>

lemma filter_upto: "filter (\<lambda>n. n > a) [i..j] = [max i (a + 1)..j]"
  by (rule sorted_distinct_set_unique) (auto intro: sorted_wrt_filter)

lemma take_upto: "take k [i..j] = [i .. min j (i + int k - 1)]"
proof (induction k arbitrary: i)
  case (Suc k)
  then show ?case
    by (cases "i \<le> j") (auto simp: upto_rec1 [of i j] upto_rec1 [of i "min _ _"] algebra_simps)
qed simp

definition served :: "stream_buffer \<Rightarrow> nat \<Rightarrow> int \<Rightarrow> stream_item list" where
  "served b limit after = take limit (filter (\<lambda>i. item_seq i > after) (items b))"

lemma served_seqs:
  assumes ok: "buffer_ok b" and after: "first_seq b - 1 \<le> after"
  shows "map item_seq (served b limit after) = [after + 1 .. after + int (length (served b limit after))]"
proof -
  have "map item_seq (served b limit after) = take limit (filter (\<lambda>n. n > after) (map item_seq (items b)))"
    by (simp add: served_def take_map filter_map o_def)
  also have "\<dots> = [after + 1 .. min (next_seq b - 1) (after + int limit)]"
    using ok after first_seq_ok [OF ok]
    by (simp add: buffer_ok_def filter_upto take_upto max_def)
  finally have seqs: "map item_seq (served b limit after) = \<dots>" .
  moreover from arg_cong [OF this, of length]
  have "length (served b limit after) = nat (min (next_seq b - 1) (after + int limit) - after)"
    by simp
  ultimately show ?thesis
    by (cases "after \<le> min (next_seq b - 1) (after + int limit)") simp_all
qed

lemma start_after_bound:
  assumes "buffer_ok b" "locate b cursor = Inr s" "start_after b nb s = Inr after"
  shows "first_seq b - 1 \<le> after" "0 \<le> after"
proof -
  show bound: "first_seq b - 1 \<le> after"
    using assms(2,3)
    by (auto simp: locate_def start_after_def split: option.splits sum.splits prod.splits if_splits start.splits)
  show "0 \<le> after"
    using bound first_seq_ok [OF assms(1)] assms(1) by (simp add: buffer_ok_def)
qed

text \<open>A page holds exactly the items between where it starts and its cursor.\<close>

lemma read_page_run:
  assumes ok: "buffer_ok b" and read: "read_page now b cursor limit nb = Inr pg"
  obtains s after m where "locate b cursor = Inr s" "start_after b nb s = Inr after"
    "0 \<le> after" "after \<le> m" "next_cursor pg = make_cursor (epoch b) m"
    "page_items pg = filter (\<lambda>i. \<not> is_gap i) (served b limit after)"
    "page_gaps pg = declared_gap now s @ filter is_gap (served b limit after)"
    "map item_seq (served b limit after) = [after + 1 .. m]"
proof -
  from read obtain s after where s: "locate b cursor = Inr s" and after: "start_after b nb s = Inr after"
    by (auto simp: read_page_def split: sum.splits)
  note bound = start_after_bound [OF ok s after]
  let ?served = "served b limit after"
  let ?m = "after + int (length ?served)"
  note seqs = served_seqs [OF ok bound(1), of limit]
  have "item_seq (last ?served) = ?m" if ne: "?served \<noteq> []"
  proof -
    have "item_seq (last ?served) = last (map item_seq ?served)"
      using ne by (simp add: last_map)
    also have "\<dots> = ?m"
      using ne by (simp add: seqs upto_rec2 [of "after + 1" "after + int (length (served b limit after))"] Suc_le_eq)
    finally show ?thesis .
  qed
  moreover have "max after (first_seq b - 1) = after" using bound(1) by simp
  ultimately have "next_cursor pg = make_cursor (epoch b) ?m"
    using read s after by (auto simp: read_page_def Let_def simp flip: served_def)
  moreover have "page_items pg = filter (\<lambda>i. \<not> is_gap i) ?served"
    "page_gaps pg = declared_gap now s @ filter is_gap ?served"
    using read s after by (auto simp: read_page_def Let_def served_def)
  ultimately show thesis
    using that [OF s after bound(2) _ _ _ _ seqs] by simp
qed

section \<open>A reader that follows the stream\<close>

text \<open>
  A reader keeps the cursor of its last page and the numbers it received; a page that declares a gap
  starts its history anew. An error leaves it where it is.
\<close>

record reader =
  reader_cursor :: "string option"
  received :: "int list"

datatype follow_event = Write buffer_command | Poll string nat

definition page_seqs :: "page \<Rightarrow> int list" where
  "page_seqs pg = filter (\<lambda>n. n \<noteq> 0) (map item_seq (page_items pg @ page_gaps pg))"

definition declares_gap :: "page \<Rightarrow> bool" where
  "declares_gap pg \<longleftrightarrow> (\<exists>g\<in>set (page_gaps pg). item_seq g = 0)"

fun follow :: "bool \<Rightarrow> follow_event \<Rightarrow> stream_buffer \<times> reader \<Rightarrow> stream_buffer \<times> reader" where
  "follow nb (Write c) (b, r) = (run_buffer c b, r)"
| "follow nb (Poll now limit) (b, r) =
     (case read_page now b (reader_cursor r) limit nb of
        Inl _ \<Rightarrow> (b, r)
      | Inr pg \<Rightarrow>
          (b, \<lparr>reader_cursor = Some (next_cursor pg),
               received = (if declares_gap pg then [] else received r) @ page_seqs pg\<rparr>))"

definition follow_ok :: "stream_buffer \<times> reader \<Rightarrow> bool" where
  "follow_ok br \<longleftrightarrow> (case br of (b, r) \<Rightarrow>
     buffer_ok b \<and>
     (case reader_cursor r of
        None \<Rightarrow> received r = []
      | Some c \<Rightarrow> \<exists>k m. 0 \<le> k \<and> k \<le> m \<and> c = make_cursor (epoch b) m \<and> sort (received r) = [k + 1 .. m]))"

lemma image_mset_partition:
  "image_mset f (filter_mset (\<lambda>x. \<not> P x) (mset xs)) + image_mset f (filter_mset P (mset xs)) = mset (map f xs)"
  by (induction xs) auto

lemma page_seqs_run:
  assumes "buffer_ok b" "read_page now b cursor limit nb = Inr pg"
  obtains s after m where "locate b cursor = Inr s" "start_after b nb s = Inr after"
    "0 \<le> after" "after \<le> m" "next_cursor pg = make_cursor (epoch b) m"
    "mset (page_seqs pg) = mset [after + 1 .. m]" "map item_seq (served b limit after) = [after + 1 .. m]"
    "declares_gap pg \<longleftrightarrow> s = Restart \<or> s = Expired"
    "set (page_items pg) \<union> set (page_gaps pg) = set (declared_gap now s) \<union> set (served b limit after)"
proof -
  from assms obtain s after m where *: "locate b cursor = Inr s" "start_after b nb s = Inr after"
    "0 \<le> after" "after \<le> m" "next_cursor pg = make_cursor (epoch b) m"
    and items: "page_items pg = filter (\<lambda>i. \<not> is_gap i) (served b limit after)"
    and gaps: "page_gaps pg = declared_gap now s @ filter is_gap (served b limit after)"
    and seqs: "map item_seq (served b limit after) = [after + 1 .. m]"
    by (rule read_page_run)
  let ?s = "served b limit after"
  have pos: "item_seq i > 0" if "i \<in> set ?s" for i
  proof -
    have "item_seq i \<in> set [after + 1 .. m]" using that unfolding seqs [symmetric] by simp
    with \<open>0 \<le> after\<close> show ?thesis by simp
  qed
  have zero: "filter (\<lambda>n. n \<noteq> 0) (map item_seq (declared_gap now s)) = []"
    by (simp add: declared_gap_def)
  have nz: "filter (\<lambda>n. n \<noteq> 0) (map item_seq (filter P ?s)) = map item_seq (filter P ?s)" for P
    by (rule filter_True) (use pos in fastforce)
  have "page_seqs pg = map item_seq (filter (\<lambda>i. \<not> is_gap i) ?s) @ map item_seq (filter is_gap ?s)"
    unfolding page_seqs_def items gaps map_append filter_append by (simp only: zero nz append_Nil)
  then have "mset (page_seqs pg) = image_mset item_seq (filter_mset (\<lambda>i. \<not> is_gap i) (mset ?s))
      + image_mset item_seq (filter_mset is_gap (mset ?s))"
    by simp
  also have "\<dots> = mset (map item_seq ?s)"
    using image_mset_partition [of item_seq is_gap ?s] by simp
  finally have "mset (page_seqs pg) = mset [after + 1 .. m]" by (simp only: seqs)
  note this seqs
  moreover have "declares_gap pg \<longleftrightarrow> s = Restart \<or> s = Expired"
    using pos by (fastforce simp: declares_gap_def gaps declared_gap_def)
  moreover have "set (page_items pg) \<union> set (page_gaps pg) = set (declared_gap now s) \<union> set ?s"
    by (auto simp: items gaps)
  ultimately show thesis using * that by blast
qed

lemma locate_own_cursor:
  assumes "buffer_ok b" "0 \<le> m"
  shows "locate b (Some (make_cursor (epoch b) m)) = Inr (if m < first_seq b - 1 then Expired else Start_After m)"
  using assms by (simp add: locate_def parse_make_cursor buffer_ok_def)

lemma sort_upto_append:
  assumes "sort xs = [k + 1 .. m]" "mset ys = mset [m + 1 .. n]" "k \<le> m" "m \<le> n"
  shows "sort (xs @ ys) = [k + 1 .. n]"
proof (rule properties_for_sort)
  have "mset xs = mset [k + 1 .. m]" using assms(1) by (metis mset_sort)
  moreover have "[k + 1 .. n] = [k + 1 .. m] @ [m + 1 .. n]"
    using assms(3,4) by (cases "k = m") (simp_all add: upto_split2 [of "k + 1" m n])
  ultimately show "mset [k + 1 .. n] = mset (xs @ ys)" using assms(2) by simp
qed simp

lemma poll_ok:
  assumes ok: "follow_ok (b, r)" and read: "read_page now b (reader_cursor r) limit nb = Inr pg"
  shows "follow_ok (follow nb (Poll now limit) (b, r))"
proof -
  from ok have b: "buffer_ok b" by (simp add: follow_ok_def)
  from page_seqs_run [OF b read] obtain s after m where
    s: "locate b (reader_cursor r) = Inr s" and after: "start_after b nb s = Inr after"
    and bounds: "0 \<le> after" "after \<le> m" and next_: "next_cursor pg = make_cursor (epoch b) m"
    and seqs: "mset (page_seqs pg) = mset [after + 1 .. m]"
    and gap: "declares_gap pg \<longleftrightarrow> s = Restart \<or> s = Expired"
    by metis
  have fresh: "sort (page_seqs pg) = [after + 1 .. m]"
    by (rule properties_for_sort) (simp_all add: seqs)
  have "\<exists>k. 0 \<le> k \<and> k \<le> m \<and>
      sort ((if declares_gap pg then [] else received r) @ page_seqs pg) = [k + 1 .. m]"
  proof (cases "declares_gap pg \<or> reader_cursor r = None")
    case True
    with ok fresh bounds show ?thesis by (intro exI [of _ after]) (auto simp: follow_ok_def)
  next
    case False
    with ok obtain k n where "0 \<le> k" "k \<le> n" and c: "reader_cursor r = Some (make_cursor (epoch b) n)"
      and rec: "sort (received r) = [k + 1 .. n]"
      by (auto simp: follow_ok_def)
    with s locate_own_cursor [OF b, of n] gap False have "s = Start_After n"
      by (auto split: if_splits)
    with after have "after = n" by (simp add: start_after_def)
    with sort_upto_append [OF rec _ \<open>k \<le> n\<close>] seqs bounds False \<open>0 \<le> k\<close> \<open>k \<le> n\<close>
    show ?thesis by (intro exI [of _ k]) simp
  qed
  then obtain k where "0 \<le> k" "k \<le> m"
    "sort ((if declares_gap pg then [] else received r) @ page_seqs pg) = [k + 1 .. m]" by blast
  with b read next_ show ?thesis
    by (simp add: follow_ok_def) blast
qed

interpretation follower: invariant_machine "follow nb" follow_ok
proof unfold_locales
  fix e and br :: "stream_buffer \<times> reader"
  assume ok: "follow_ok br"
  obtain b r where br: "br = (b, r)" by (cases br)
  show "follow_ok (follow nb e br)"
  proof (cases e)
    case (Write c)
    have "buffer_ok b" using ok by (simp add: br follow_ok_def)
    with ok buffer.inv_step [of b c] buffer.le_step [of b c] show ?thesis
      by (auto simp: br Write follow_ok_def buffer_grows_def split: option.splits)
  next
    case (Poll now limit)
    with ok poll_ok [of b r now limit nb] show ?thesis
      by (cases "read_page now b (reader_cursor r) limit nb") (auto simp: br)
  qed
qed

section \<open>Properties of a stream\<close>

text \<open>
  A cursor round trips. Whatever the epoch's name (even one with colons) and the position, parsing
  the cursor the Connector handed out gives back exactly that epoch and position, so a resumed
  reader is located where its last page ended.
\<close>

theorem cursor_round_trip:
  "e \<noteq> [] \<Longrightarrow> 0 \<le> n \<Longrightarrow> parse_cursor (make_cursor e n) = Inr (e, n)"
  by (rule parse_make_cursor)

theorem cursor_round_trip_witness: "parse_cursor (make_cursor ''run:7'' 42) = Inr (''run:7'', 42)"
  by (rule cursor_round_trip) simp_all

text \<open>
  C31: No item is lost silently. However writes, snapshots and polls interleave, whatever the page sizes
  and buffer bounds, the numbers a reader received since the last gap it was told of are consecutive
  and without repetition, up to the position of its cursor: an item the bounded buffer dropped
  unread always shows as a declared gap.
\<close>

theorem no_silent_loss:
  assumes "e \<noteq> []"
    and "fold (follow nb) es (new_buffer e n, \<lparr>reader_cursor = None, received = []\<rparr>) = (b, r)"
    and "reader_cursor r = Some c"
  shows "\<exists>k m. 0 \<le> k \<and> k \<le> m \<and> c = make_cursor (epoch b) m \<and> sort (received r) = [k + 1 .. m]"
proof -
  have "follow_ok (new_buffer e n, \<lparr>reader_cursor = None, received = []\<rparr>)"
    using new_buffer_ok [OF assms(1)] by (simp add: follow_ok_def)
  from follower.run_inv [OF this, of nb es] assms(2,3) show ?thesis
    by (simp add: follow_ok_def)
qed

lemmas stream_eval = new_buffer_def append_item_def read_page_def locate_def start_after_def
  first_seq_def declared_gap_def is_gap_def declares_gap_def page_seqs_def

theorem no_silent_loss_witness:
  "\<exists>b r. fold (follow False)
       [Write (Append_Item \<lparr>item_seq = 0, item_kind = ''alert'', item_fields = []\<rparr>),
        Write (Append_Item \<lparr>item_seq = 0, item_kind = ''alert'', item_fields = []\<rparr>), Poll ''t'' 5]
       (new_buffer ''e'' 8, \<lparr>reader_cursor = None, received = []\<rparr>) = (b, r)
     \<and> received r = [1, 2]
     \<and> (\<exists>k m. 0 \<le> k \<and> k \<le> m \<and> reader_cursor r = Some (make_cursor (epoch b) m)
          \<and> sort (received r) = [k + 1 .. m])"
proof -
  let ?r = "\<lparr>reader_cursor = Some (make_cursor ''e'' 2), received = [1, 2]\<rparr>"
  have "\<exists>b. fold (follow False)
       [Write (Append_Item \<lparr>item_seq = 0, item_kind = ''alert'', item_fields = []\<rparr>),
        Write (Append_Item \<lparr>item_seq = 0, item_kind = ''alert'', item_fields = []\<rparr>), Poll ''t'' 5]
       (new_buffer ''e'' 8, \<lparr>reader_cursor = None, received = []\<rparr>) = (b, ?r)"
    by (simp add: stream_eval)
  then obtain b where run: "fold (follow False)
       [Write (Append_Item \<lparr>item_seq = 0, item_kind = ''alert'', item_fields = []\<rparr>),
        Write (Append_Item \<lparr>item_seq = 0, item_kind = ''alert'', item_fields = []\<rparr>), Poll ''t'' 5]
       (new_buffer ''e'' 8, \<lparr>reader_cursor = None, received = []\<rparr>) = (b, ?r)" by blast
  with no_silent_loss [OF _ run] show ?thesis by fastforce
qed

text \<open>
  A reader that cannot resume starts from a complete snapshot. On a stream with baselines, a page
  served to a reader without a cursor, or after a restart or an expiry, begins at the latest
  baseline while the buffer still holds it; otherwise the read is refused, never served partially.
\<close>

theorem fresh_reader_gets_baseline:
  assumes ok: "buffer_ok b" and read: "read_page now b cur limit True = Inr pg"
    and lost: "cur = None \<or> declares_gap pg" and "0 < limit"
  shows "\<exists>n. baseline_seq b = Some n \<and> has_baseline b \<and>
    n \<in> item_seq ` (set (page_items pg) \<union> set (page_gaps pg)) \<and>
    (\<forall>i\<in>set (page_items pg) \<union> set (page_gaps pg). item_seq i = 0 \<or> n \<le> item_seq i)"
proof -
  from page_seqs_run [OF ok read] obtain s after m where
    s: "locate b cur = Inr s" and after: "start_after b True s = Inr after"
    and gap: "declares_gap pg \<longleftrightarrow> s = Restart \<or> s = Expired"
    and seqs: "map item_seq (served b limit after) = [after + 1 .. m]"
    and items: "set (page_items pg) \<union> set (page_gaps pg) = set (declared_gap now s) \<union> set (served b limit after)"
    by metis
  have "s \<in> {Fresh, Restart, Expired}" using lost s gap by (auto simp: locate_def)
  with after obtain n where n: "baseline_seq b = Some n" "first_seq b \<le> n" "after = n - 1"
    by (auto simp: start_after_def split: option.splits if_splits)
  have "n \<in> set (map item_seq (items b))"
    using n ok first_seq_ok [OF ok] by (simp add: buffer_ok_def)
  then have "served b limit after \<noteq> []"
    using n \<open>0 < limit\<close> by (force simp: served_def filter_empty_conv)
  with seqs n have "n \<in> set (map item_seq (served b limit after))"
    by (cases "n \<le> m") auto
  moreover have "n \<le> item_seq i" if "i \<in> set (served b limit after)" for i
  proof -
    have "item_seq i \<in> set [after + 1 .. m]" using that unfolding seqs [symmetric] by simp
    with n show ?thesis by simp
  qed
  moreover have "item_seq i = 0" if "i \<in> set (declared_gap now s)" for i
    using that by (auto simp: declared_gap_def split: if_splits)
  ultimately show ?thesis
    using n unfolding items by (auto simp: has_baseline_def)
qed

theorem fresh_reader_gets_baseline_witness:
  "\<exists>b pg. b = fold run_buffer
       [Append_Item \<lparr>item_seq = 0, item_kind = ''object'', item_fields = []\<rparr>,
        Append_Baseline \<lparr>item_seq = 0, item_kind = ''snapshot_begin'', item_fields = []\<rparr>]
       (new_buffer ''e'' 8)
     \<and> read_page ''t'' b None 5 True = Inr pg
     \<and> 2 \<in> item_seq ` (set (page_items pg) \<union> set (page_gaps pg))"
proof -
  let ?b = "fold run_buffer
       [Append_Item \<lparr>item_seq = 0, item_kind = ''object'', item_fields = []\<rparr>,
        Append_Baseline \<lparr>item_seq = 0, item_kind = ''snapshot_begin'', item_fields = []\<rparr>]
       (new_buffer ''e'' 8)"
  have ok: "buffer_ok ?b" by (rule buffer.run_inv) (simp add: new_buffer_ok)
  have base: "baseline_seq ?b = Some 2" by (simp add: stream_eval mark_baseline_def)
  obtain pg where read: "read_page ''t'' ?b None 5 True = Inr pg"
    by (simp add: stream_eval mark_baseline_def)
  from fresh_reader_gets_baseline [OF ok read] base read show ?thesis by auto
qed

end
