(* ===== verification/Domain.thy ===== *)
theory Domain
  imports Prelude
begin

text \<open>
  The data of the causal engine (\<open>packages/rca/model.py\<close>): entities and their instances, findings,
  hypotheses and the tri-state precondition results rules exchange. Fields no modelled operation
  reads (presentation texts, scores, capture audits) are left out of the records. Validators are
  the functions \<open>make_\<dots>\<close>, which refuse what the pydantic model refuses.
\<close>

section \<open>Entities\<close>

definition CLUSTER_SCOPE :: string where
  "CLUSTER_SCOPE = ''_cluster''"

record entity_ref =
  kind :: string
  name :: string
  namespace :: string

definition make_entity :: "string \<Rightarrow> string \<Rightarrow> string \<Rightarrow> entity_ref result" where
  "make_entity k n ns =
     (if k = [] \<or> n = [] then Inl (ValueError ''String should have at least 1 character'')
      else Inr \<lparr>kind = k, name = n, namespace = ns\<rparr>)"

definition canonical :: "entity_ref \<Rightarrow> string" where
  "canonical e = namespace e @ ''/'' @ kind e @ ''/'' @ name e"

text \<open>\<open>value.split("/", 2)\<close>\<close>

definition split2 :: "char \<Rightarrow> string \<Rightarrow> string list" where
  "split2 c s =
     (case break_on [c] s of
        None \<Rightarrow> [s]
      | Some (a, r) \<Rightarrow> (case break_on [c] r of None \<Rightarrow> [a, r] | Some (b, t) \<Rightarrow> [a, b, t]))"

definition parse_entity :: "string \<Rightarrow> entity_ref result" where
  "parse_entity v =
     (case split2 CHR ''/'' v of
        [a, b, c] \<Rightarrow>
          if a \<noteq> [] \<and> b \<noteq> [] \<and> c \<noteq> [] then make_entity b c a
          else Inl (ValueError ''expected namespace/Kind/name'')
      | _ \<Rightarrow> Inl (ValueError ''expected namespace/Kind/name''))"

text \<open>\<open>object_key\<close> of a body whose metadata holds strings.\<close>

definition as_dict :: "json \<Rightarrow> (string \<times> json) list" where
  "as_dict v = (case v of JDict d \<Rightarrow> d | _ \<Rightarrow> [])"

definition object_key :: "(string \<times> json) list \<Rightarrow> string option" where
  "object_key body =
     (let meta = as_dict (dict_value body ''metadata'') in
      case (dict_value body ''kind'', dict_value meta ''name'') of
        (JStr k, JStr n) \<Rightarrow>
          Some ((case dict_value meta ''namespace'' of JStr ns \<Rightarrow> if ns = [] then CLUSTER_SCOPE else ns
                   | _ \<Rightarrow> CLUSTER_SCOPE) @ ''/'' @ k @ ''/'' @ n)
      | _ \<Rightarrow> None)"

record entity_instance =
  instance_entity :: entity_ref
  uid :: string

definition make_instance :: "entity_ref \<Rightarrow> string \<Rightarrow> entity_instance result" where
  "make_instance e u =
     (if u = [] then Inl (ValueError ''String should have at least 1 character'')
      else Inr \<lparr>instance_entity = e, uid = u\<rparr>)"

datatype lifecycle = OBSERVED | CREATED | UPDATED | DELETED

record object_version =
  version_entity :: entity_ref
  version_uid :: "string option"
  observed_at :: instant
  body :: "(string \<times> json) list"
  evidence_id :: string
  lifecycle :: lifecycle

text \<open>\<open>ObjectVersion.instance_uid\<close>\<close>

definition instance_uid :: "object_version \<Rightarrow> string option" where
  "instance_uid v =
     (case version_uid v of
        Some u \<Rightarrow> if u \<noteq> [] then Some u else
                   (case dict_value (as_dict (dict_value (body v) ''metadata'')) ''uid'' of
                      JStr u \<Rightarrow> if u \<noteq> [] then Some u else None | _ \<Rightarrow> None)
      | None \<Rightarrow> (case dict_value (as_dict (dict_value (body v) ''metadata'')) ''uid'' of
                      JStr u \<Rightarrow> if u \<noteq> [] then Some u else None | _ \<Rightarrow> None))"

record pod_status =
  pod :: entity_ref
  pod_uid :: "string option"
  pod_observed_at :: instant
  ready :: "bool option"
  ready_since :: "instant option"
  pod_evidence :: string

record causal_hop =
  hop_source :: entity_ref
  relation :: string
  hop_target :: entity_ref

section \<open>Findings\<close>

datatype temporal_role = INITIATING | SUPPORTING | CONSEQUENCE | AMBIGUOUS_ROLE | AFTER_ONSET

datatype finding_kind =
    CONFIG_CHANGE | OBJECT_CREATED | OBJECT_DELETED | SPEC_CHANGE | IMAGE_CHANGE | SCALE_CHANGE
  | ROLLOUT_RESTART | FAULT_INJECTION | FAULT_SCHEDULE | POLICY_CREATED | QUOTA_EXCEEDED
  | QUOTA_EXHAUSTED | NETWORK_RESTRICTION | CONTAINER_FAILURE | RESOURCE_PRESSURE
  | DEPENDENCY_ERRORS | FAILURE_EVENT | AUTOSCALING_FAILURE | TRAFFIC_INCREASE

fun kind_value :: "finding_kind \<Rightarrow> string" where
  "kind_value CONFIG_CHANGE = ''CONFIG_CHANGE''"
| "kind_value OBJECT_CREATED = ''OBJECT_CREATED''"
| "kind_value OBJECT_DELETED = ''OBJECT_DELETED''"
| "kind_value SPEC_CHANGE = ''SPEC_CHANGE''"
| "kind_value IMAGE_CHANGE = ''IMAGE_CHANGE''"
| "kind_value SCALE_CHANGE = ''SCALE_CHANGE''"
| "kind_value ROLLOUT_RESTART = ''ROLLOUT_RESTART''"
| "kind_value FAULT_INJECTION = ''FAULT_INJECTION''"
| "kind_value FAULT_SCHEDULE = ''FAULT_SCHEDULE''"
| "kind_value POLICY_CREATED = ''POLICY_CREATED''"
| "kind_value QUOTA_EXCEEDED = ''QUOTA_EXCEEDED''"
| "kind_value QUOTA_EXHAUSTED = ''QUOTA_EXHAUSTED''"
| "kind_value NETWORK_RESTRICTION = ''NETWORK_RESTRICTION''"
| "kind_value CONTAINER_FAILURE = ''CONTAINER_FAILURE''"
| "kind_value RESOURCE_PRESSURE = ''RESOURCE_PRESSURE''"
| "kind_value DEPENDENCY_ERRORS = ''DEPENDENCY_ERRORS''"
| "kind_value FAILURE_EVENT = ''FAILURE_EVENT''"
| "kind_value AUTOSCALING_FAILURE = ''AUTOSCALING_FAILURE''"
| "kind_value TRAFFIC_INCREASE = ''TRAFFIC_INCREASE''"

record finding =
  finding_kind :: finding_kind
  entity :: entity_ref
  entity_instance :: "entity_instance option"
  at :: "instant option"
  summary :: string
  evidence_ids :: "string list"
  related :: "entity_ref list"
  details :: "(string \<times> json) list"
  temporal_role :: temporal_role
  incident_onset :: "instant option"
  onset_delta :: "duration option"

text \<open>The validator \<open>_entity_instance_matches_entity\<close>.\<close>

definition finding_valid :: "finding \<Rightarrow> bool" where
  "finding_valid f \<longleftrightarrow> (case entity_instance f of None \<Rightarrow> True | Some i \<Rightarrow> instance_entity i = entity f)"

section \<open>Preconditions\<close>

datatype precondition_status = PASS | PENDING | DISQUALIFIED

record precondition_result =
  result_status :: precondition_status
  not_before :: "instant option"
  result_reason :: "string option"

text \<open>The validator \<open>_validate_outcome_shape\<close>, after the field constraint on \<open>reason\<close>.\<close>

definition make_result ::
  "precondition_status \<Rightarrow> instant option \<Rightarrow> string option \<Rightarrow> precondition_result result" where
  "make_result st nb reason =
     (if reason = Some [] then Inl (ValueError ''String should have at least 1 character'')
      else case st of
        PASS \<Rightarrow>
          if nb \<noteq> None \<or> reason \<noteq> None then Inl (ValueError ''PASS cannot include not_before or reason'')
          else Inr \<lparr>result_status = st, not_before = nb, result_reason = reason\<rparr>
      | PENDING \<Rightarrow>
          if nb = None then Inl (ValueError ''PENDING requires not_before'')
          else if reason \<noteq> None then Inl (ValueError ''PENDING cannot include a disqualification reason'')
          else Inr \<lparr>result_status = st, not_before = nb, result_reason = reason\<rparr>
      | DISQUALIFIED \<Rightarrow>
          if (case reason of None \<Rightarrow> True | Some r \<Rightarrow> blank r)
          then Inl (ValueError ''DISQUALIFIED requires a reason'')
          else if nb \<noteq> None then Inl (ValueError ''DISQUALIFIED cannot include not_before'')
          else Inr \<lparr>result_status = st, not_before = nb, result_reason = reason\<rparr>)"

definition result_passed :: precondition_result where
  "result_passed = \<lparr>result_status = PASS, not_before = None, result_reason = None\<rparr>"

definition result_pending :: "instant \<Rightarrow> precondition_result" where
  "result_pending t = \<lparr>result_status = PENDING, not_before = Some t, result_reason = None\<rparr>"

definition result_disqualified :: "string \<Rightarrow> precondition_result" where
  "result_disqualified r = \<lparr>result_status = DISQUALIFIED, not_before = None, result_reason = Some r\<rparr>"

lemma make_result_constructors [simp]:
  "make_result PASS None None = Inr result_passed"
  "make_result PENDING (Some t) None = Inr (result_pending t)"
  "\<not> blank r \<Longrightarrow> make_result DISQUALIFIED None (Some r) = Inr (result_disqualified r)"
  by (auto simp: make_result_def result_passed_def result_pending_def result_disqualified_def blank_def)

datatype audit_reason = NO_DATA_AFTER_DEADLINE | PARTIAL_COVERAGE_AFTER_DEADLINE | SCOPE_EXITED

record rule_audit =
  audit_rule :: string
  audit_result :: "precondition_result option"
  audit_reason :: "audit_reason option"

definition make_rule_audit ::
  "string \<Rightarrow> precondition_result option \<Rightarrow> audit_reason option \<Rightarrow> rule_audit result" where
  "make_rule_audit rule res reason =
     (if rule = [] then Inl (ValueError ''String should have at least 1 character'')
      else if (res = None) = (reason = None)
      then Inl (ValueError ''provide exactly one precondition result or audit reason'')
      else Inr \<lparr>audit_rule = rule, audit_result = res, audit_reason = reason\<rparr>)"

section \<open>Evidence requirements\<close>

datatype requirement_kind = STATUS_CONTINUITY | RESOURCE_COVERAGE

record requirement_target =
  target_entity :: string
  target_uid :: "string option"
  target_container :: "string option"
  target_resource :: "string option"

definition or_empty :: "string option \<Rightarrow> string" where
  "or_empty s = (case s of None \<Rightarrow> [] | Some s \<Rightarrow> s)"

definition target_sort_key :: "requirement_target \<Rightarrow> string \<times> string \<times> string \<times> string" where
  "target_sort_key t =
     (target_entity t, or_empty (target_container t), or_empty (target_resource t), or_empty (target_uid t))"

record requirement_evaluation =
  eval_hypothesis :: string
  eval_key :: "string option"
  eval_rule :: string
  eval_version :: string
  eval_kind :: requirement_kind
  eval_targets :: "requirement_target list"
  eval_result :: "precondition_result option"
  eval_reason :: "audit_reason option"

definition make_evaluation :: "requirement_evaluation \<Rightarrow> requirement_evaluation result" where
  "make_evaluation r =
     (if eval_hypothesis r = [] \<or> eval_key r = Some [] \<or> eval_rule r = [] \<or> eval_version r = []
         \<or> eval_targets r = []
      then Inl (ValueError ''too short'')
      else if (eval_result r = None) = (eval_reason r = None)
      then Inl (ValueError ''provide exactly one requirement result or audit reason'')
      else case eval_kind r of
        STATUS_CONTINUITY \<Rightarrow>
          (case eval_targets r of
             [t] \<Rightarrow>
               if target_uid t = None \<or> target_container t \<noteq> None \<or> target_resource t \<noteq> None
               then Inl (ValueError ''STATUS_CONTINUITY targets are {entity, uid}'')
               else Inr r
           | _ \<Rightarrow> Inl (ValueError ''STATUS_CONTINUITY names exactly one Pod instance''))
      | RESOURCE_COVERAGE \<Rightarrow>
          if list_ex (\<lambda>t. target_uid t \<noteq> None \<or> target_container t = None \<or> target_resource t = None)
               (eval_targets r)
          then Inl (ValueError ''RESOURCE_COVERAGE targets are {entity, container, resource}'')
          else if map target_sort_key (eval_targets r)
                  \<noteq> sorted_set (map target_sort_key (eval_targets r))
          then Inl (ValueError ''RESOURCE_COVERAGE targets must be unique and sorted'')
          else Inr r)"

section \<open>Hypotheses\<close>

record hypothesis =
  hypothesis_id :: string
  hypothesis_key :: string
  causal_actor :: entity_ref
  claim_version :: string
  actor_instance :: "entity_instance option"
  mechanism :: string
  mechanism_family :: string
  causal_family_id :: string
  episode_onset :: "instant option"
  symptom_entities :: "entity_ref list"
  relation_evidence_ids :: "string list"
  members :: "entity_ref list"
  manifestations :: "entity_ref list"
  findings :: "finding list"
  initiating_findings :: "finding list"
  supporting_findings :: "finding list"
  contradictory_findings :: "finding list"
  causal_paths :: "causal_hop list list"
  causal_explanation :: string

section \<open>Entities round trip\<close>

lemma parse_canonical:
  assumes "kind e \<noteq> []" "name e \<noteq> []" "namespace e \<noteq> []" "CHR ''/'' \<notin> set (namespace e)" "CHR ''/'' \<notin> set (kind e)"
  shows "parse_entity (canonical e) = Inr e"
  using assms break_on_char [of "CHR ''/''" "namespace e" "kind e @ ''/'' @ name e"]
    break_on_char [of "CHR ''/''" "kind e" "name e"]
  by (simp add: parse_entity_def canonical_def split2_def make_entity_def)

lemma canonical_inj:
  assumes "parse_entity (canonical a) = Inr a" "parse_entity (canonical b) = Inr b" "canonical a = canonical b"
  shows "a = b"
  by (metis assms Inr_inject)

text \<open>
  Entities are keyed by their canonical name without loss. An entity whose namespace and kind
  hold no slash (as Kubernetes guarantees; the name may) is read back from its canonical form
  exactly, so distinct entities never share a key, and any string that parses is such a key.
\<close>

theorem entity_round_trip:
  "(kind e \<noteq> [] \<and> name e \<noteq> [] \<and> namespace e \<noteq> [] \<and> CHR ''/'' \<notin> set (namespace e) \<and> CHR ''/'' \<notin> set (kind e)
      \<longrightarrow> parse_entity (canonical e) = Inr e)
   \<and> (parse_entity v = Inr e' \<longrightarrow> canonical e' = v)"
proof -
  have "canonical e' = v" if "parse_entity v = Inr e'"
  proof -
    from that obtain a b c where parts: "split2 CHR ''/'' v = [a, b, c]"
      unfolding parse_entity_def
      by (auto split: list.splits)
    with that have "e' = \<lparr>kind = b, name = c, namespace = a\<rparr>"
      by (auto simp: parse_entity_def make_entity_def split: if_splits)
    moreover from parts obtain r where "break_on ''/'' v = Some (a, r)" "break_on ''/'' r = Some (b, c)"
      unfolding split2_def by (auto split: option.splits)
    then have "v = a @ ''/'' @ r" "r = b @ ''/'' @ c" by (blast dest: break_on_Some)+
    ultimately show ?thesis by (simp add: canonical_def)
  qed
  then show ?thesis using parse_canonical by blast
qed

theorem entity_round_trip_witness:
  "parse_entity (canonical \<lparr>kind = ''Deployment'', name = ''cart/v2'', namespace = ''shop''\<rparr>)
     = Inr \<lparr>kind = ''Deployment'', name = ''cart/v2'', namespace = ''shop''\<rparr>"
  using entity_round_trip [of "\<lparr>kind = ''Deployment'', name = ''cart/v2'', namespace = ''shop''\<rparr>"] by simp

end
