(* ===== verification/Temporal.thy ===== *)
theory Temporal
  imports Domain
begin

text \<open>
  The shared temporal semantics (\<open>packages/rca/temporal.py\<close>): the causal time of a finding and whether
  the finding is certainly too late to have caused its incident. An object change is known only by
  the interval between two observations. \<open>fromisoformat\<close> is an argument, defined on the strings
  \<open>datetime.fromisoformat\<close> accepts.
\<close>

datatype certainty = NOT_LATE | DEFINITELY_LATE | INTERVAL_UNCERTAIN | UNKNOWN_CERTAINTY

definition OBJECT_CHANGE_KINDS :: "finding_kind set" where
  "OBJECT_CHANGE_KINDS = {CONFIG_CHANGE, SPEC_CHANGE, IMAGE_CHANGE, SCALE_CHANGE, ROLLOUT_RESTART}"

text \<open>\<open>value.replace("Z", "+00:00")\<close>\<close>

definition replace_Z :: "string \<Rightarrow> string" where
  "replace_Z s = concat (map (\<lambda>c. if c = CHR ''Z'' then ''+00:00'' else [c]) s)"

definition parse_time :: "(string \<Rightarrow> instant option) \<Rightarrow> json \<Rightarrow> instant option" where
  "parse_time fromisoformat v =
     (case v of JTime t \<Rightarrow> Some t | JStr s \<Rightarrow> fromisoformat (replace_Z s) | _ \<Rightarrow> None)"

definition initiating_value :: "finding \<Rightarrow> json" where
  "initiating_value f =
     py_or (dict_value (details f) ''initiating_at'') (dict_value (details f) ''schedule_active_from'')"

definition causal_time :: "(string \<Rightarrow> instant option) \<Rightarrow> finding \<Rightarrow> instant option" where
  "causal_time fromisoformat f = or_else (parse_time fromisoformat (initiating_value f)) (at f)"

definition temporal_contradiction_certainty ::
  "(string \<Rightarrow> instant option) \<Rightarrow> finding \<Rightarrow> duration \<Rightarrow> certainty" where
  "temporal_contradiction_certainty fromisoformat f grace =
     (case incident_onset f of
        None \<Rightarrow> UNKNOWN_CERTAINTY
      | Some onset \<Rightarrow>
          let boundary = onset + grace in
          if finding_kind f \<in> OBJECT_CHANGE_KINDS \<and> \<not> truthy (initiating_value f)
          then (case (at f, parse_time fromisoformat (dict_value (details f) ''previous_observed_at'')) of
                  (Some current, Some previous) \<Rightarrow>
                    if current \<le> boundary then NOT_LATE
                    else if previous > boundary then DEFINITELY_LATE
                    else INTERVAL_UNCERTAIN
                | _ \<Rightarrow> UNKNOWN_CERTAINTY)
          else (case causal_time fromisoformat f of
                  None \<Rightarrow> UNKNOWN_CERTAINTY
                | Some t \<Rightarrow> if t > boundary then DEFINITELY_LATE else NOT_LATE))"

text \<open>
  The instants at which the change a finding reports may have happened: its causal time, or for an
  object change any instant after the previous observation up to the current one.
\<close>

definition possible_times :: "(string \<Rightarrow> instant option) \<Rightarrow> finding \<Rightarrow> instant set" where
  "possible_times fromisoformat f =
     (if finding_kind f \<in> OBJECT_CHANGE_KINDS \<and> \<not> truthy (initiating_value f)
      then (case (at f, parse_time fromisoformat (dict_value (details f) ''previous_observed_at'')) of
              (Some current, Some previous) \<Rightarrow> {previous <.. current}
            | _ \<Rightarrow> UNIV)
      else (case causal_time fromisoformat f of None \<Rightarrow> UNIV | Some t \<Rightarrow> {t}))"

lemma certainty_cases:
  "temporal_contradiction_certainty fi f grace = DEFINITELY_LATE \<Longrightarrow>
     \<exists>onset. incident_onset f = Some onset \<and> (\<forall>t\<in>possible_times fi f. t > onset + grace)"
  "temporal_contradiction_certainty fi f grace = NOT_LATE \<Longrightarrow>
     \<exists>onset. incident_onset f = Some onset \<and> (\<forall>t\<in>possible_times fi f. t \<le> onset + grace)"
  by (auto simp: temporal_contradiction_certainty_def possible_times_def Let_def
      split: option.splits if_splits)

text \<open>
  A finding is called too late only when it certainly is, and not late only when it certainly is
  not: whatever the instant at which the reported change really happened (anywhere between two
  observations, for an object change), it lies after, respectively no later than, the onset plus the
  grace. Extending the grace never turns a finding late.
\<close>

theorem lateness_is_certain:
  shows "(temporal_contradiction_certainty fi f grace = DEFINITELY_LATE \<longrightarrow>
      (\<exists>onset. incident_onset f = Some onset \<and> (\<forall>t\<in>possible_times fi f. t > onset + grace)))
    \<and> (temporal_contradiction_certainty fi f grace = NOT_LATE \<longrightarrow>
      (\<exists>onset. incident_onset f = Some onset \<and> (\<forall>t\<in>possible_times fi f. t \<le> onset + grace)))
    \<and> (grace \<le> grace' \<and> temporal_contradiction_certainty fi f grace' = DEFINITELY_LATE \<longrightarrow>
      temporal_contradiction_certainty fi f grace = DEFINITELY_LATE)"
proof -
  have "temporal_contradiction_certainty fi f grace = DEFINITELY_LATE"
    if "grace \<le> grace'" "temporal_contradiction_certainty fi f grace' = DEFINITELY_LATE"
    using that
    by (auto simp: temporal_contradiction_certainty_def Let_def causal_time_def split: option.splits if_splits)
  then show ?thesis using certainty_cases by blast
qed

definition sample_finding :: finding where
  "sample_finding =
     \<lparr>finding_kind = CONFIG_CHANGE, entity = \<lparr>kind = ''ConfigMap'', name = ''flags'', namespace = ''shop''\<rparr>,
      entity_instance = None, at = Some 90, summary = ''changed'', evidence_ids = [''e1''], related = [],
      details = [(''previous_observed_at'', JTime 70)], temporal_role = AMBIGUOUS_ROLE,
      incident_onset = Some 50, onset_delta = None\<rparr>"

theorem lateness_is_certain_witness:
  "temporal_contradiction_certainty (\<lambda>_. None) sample_finding 10 = DEFINITELY_LATE
   \<and> possible_times (\<lambda>_. None) sample_finding \<subseteq> {60 <..}
   \<and> temporal_contradiction_certainty (\<lambda>_. None) sample_finding 30 = INTERVAL_UNCERTAIN"
proof -
  have late: "temporal_contradiction_certainty (\<lambda>_. None) sample_finding 10 = DEFINITELY_LATE"
    and unsure: "temporal_contradiction_certainty (\<lambda>_. None) sample_finding 30 = INTERVAL_UNCERTAIN"
    by (simp_all add: temporal_contradiction_certainty_def sample_finding_def OBJECT_CHANGE_KINDS_def
        initiating_value_def dict_value_def py_or_def parse_time_def)
  from lateness_is_certain [of "\<lambda>_. None" sample_finding 10] late unsure show ?thesis
    by (auto simp: sample_finding_def)
qed

end
