(* ===== verification/Service_Effect.thy ===== *)
theory Service_Effect
  imports Temporal
begin

text \<open>
  The service-level effect relation (\<open>packages/rca/service_effect.py\<close>): whether an execution at an exact
  target pod shows at a caller, read from paired client and server spans, and whether another pod of
  the target's workload may have served. Durations are exact microseconds where the source computes
  medians of float seconds; medians are compared doubled, so that no division is needed. A UID of an
  owner reference is a string, as the API server writes it.
\<close>

section \<open>Spans and calls\<close>

datatype span_status = SPAN_UNSET | SPAN_OK | SPAN_ERROR | SPAN_UNKNOWN

record trace_span =
  trace_id :: string
  span_id :: string
  parent_span_id :: "string option"
  span_service :: string
  span_kind :: "string option"
  span_start :: instant
  span_end :: "instant option"
  span_status :: span_status
  span_attributes :: "(string \<times> string) list"
  span_evidence :: string

record effect_parameters =
  min_calls :: nat
  effect_factor :: int
  effect_floor :: duration

record call_pair =
  call_started :: instant
  call_duration :: duration
  call_pod :: string
  non_success :: bool
  call_evidence :: "string list"

definition SERVICE_EFFECT :: effect_parameters where
  "SERVICE_EFFECT = \<lparr>min_calls = 3, effect_factor = 3, effect_floor = 200000\<rparr>"

definition BASELINE_BEFORE_EXECUTION :: duration where
  "BASELINE_BEFORE_EXECUTION = 5 * minute"

definition baseline_before :: "instant \<Rightarrow> instant \<times> instant" where
  "baseline_before t = (t - BASELINE_BEFORE_EXECUTION, t - 1)"

definition span_attribute :: "trace_span \<Rightarrow> string \<Rightarrow> string option" where
  "span_attribute s k = map_of (span_attributes s) k"

definition span_duration :: "trace_span \<Rightarrow> duration option" where
  "span_duration s = map_option (\<lambda>e. e - span_start s) (span_end s)"

definition span_non_success :: "trace_span \<Rightarrow> bool" where
  "span_non_success s \<longleftrightarrow> span_status s = SPAN_ERROR
     \<or> (case span_attribute s ''http.response.status_code'' of
          None \<Rightarrow> False
        | Some code \<Rightarrow> isdigit code \<and> str_nat code \<ge> 500)"

definition server_spans :: "string \<Rightarrow> trace_span list \<Rightarrow> trace_span list" where
  "server_spans service spans =
     filter (\<lambda>s. span_service s = service \<and> span_kind s = Some ''SERVER''
       \<and> parent_span_id s \<noteq> None \<and> parent_span_id s \<noteq> Some []) spans"

definition server_of :: "string \<Rightarrow> trace_span list \<Rightarrow> trace_span \<Rightarrow> trace_span option" where
  "server_of service spans client =
     map_of (rev (map (\<lambda>s. ((trace_id s, parent_span_id s), s)) (server_spans service spans)))
       (trace_id client, Some (span_id client))"

definition call_pair_of :: "string \<Rightarrow> trace_span list \<Rightarrow> trace_span \<Rightarrow> call_pair option" where
  "call_pair_of service spans client =
     (case (server_of service spans client, span_duration client) of
        (Some server, Some d) \<Rightarrow>
          Some \<lparr>call_started = span_start client, call_duration = d,
            call_pod = or_empty (span_attribute server ''k8s.pod.name''),
            non_success = (span_non_success client \<or> span_non_success server),
            call_evidence = [span_evidence client, span_evidence server]\<rparr>
      | _ \<Rightarrow> None)"

definition call_pairs :: "trace_span list \<Rightarrow> string \<Rightarrow> string \<Rightarrow> call_pair list" where
  "call_pairs spans caller target =
     List.map_filter (call_pair_of target spans)
       (filter (\<lambda>s. span_service s = caller \<and> span_kind s = Some ''CLIENT'') spans)"

definition within :: "instant \<times> instant \<Rightarrow> instant \<Rightarrow> bool" where
  "within w t \<longleftrightarrow> fst w \<le> t \<and> t \<le> snd w"

definition fault_calls :: "call_pair list \<Rightarrow> string \<Rightarrow> instant \<Rightarrow> instant \<Rightarrow> call_pair list" where
  "fault_calls ps target_pod s e = filter (\<lambda>p. call_pod p = target_pod \<and> within (s, e) (call_started p)) ps"

definition calm_calls :: "call_pair list \<Rightarrow> instant \<times> instant \<Rightarrow> call_pair list" where
  "calm_calls ps baseline = filter (\<lambda>p. within baseline (call_started p)) ps"

text \<open>Twice \<open>statistics.median\<close>.\<close>

definition median2 :: "int list \<Rightarrow> int" where
  "median2 xs =
     (let s = sort xs; n = length s in
      if odd n then 2 * s ! (n div 2) else s ! (n div 2 - 1) + s ! (n div 2))"

definition service_effect ::
  "call_pair list \<Rightarrow> string \<Rightarrow> instant \<Rightarrow> instant \<Rightarrow> instant \<times> instant \<Rightarrow> effect_parameters \<Rightarrow> bool option"
where
  "service_effect ps target_pod s e baseline par =
     (let fault = fault_calls ps target_pod s e; calm = calm_calls ps baseline;
          fm = median2 (map call_duration fault); bm = median2 (map call_duration calm)
      in if length fault < min_calls par \<or> length calm < min_calls par then None
         else if list_ex non_success fault \<and> \<not> list_ex non_success calm then Some True
         else if bm > 2 * effect_floor par then None
         else Some (fm > effect_factor par * bm \<and> fm > 2 * effect_floor par))"

section \<open>Calls that never reached the target\<close>

record unanswered_call =
  unanswered_started :: instant
  unanswered_evidence :: string

definition answered_parents :: "trace_span list \<Rightarrow> (string \<times> string option) list" where
  "answered_parents spans =
     map (\<lambda>s. (trace_id s, parent_span_id s)) (filter (\<lambda>s. span_kind s = Some ''SERVER'') spans)"

definition unanswered_calls :: "trace_span list \<Rightarrow> string \<Rightarrow> string \<Rightarrow> unanswered_call list" where
  "unanswered_calls spans caller target =
     map (\<lambda>s. \<lparr>unanswered_started = span_start s, unanswered_evidence = span_evidence s\<rparr>)
       (filter (\<lambda>s. span_service s = caller \<and> span_kind s = Some ''CLIENT''
          \<and> span_attribute s ''server.address'' = Some target \<and> span_end s \<noteq> None \<and> span_non_success s
          \<and> (trace_id s, Some (span_id s)) \<notin> set (answered_parents spans)) spans)"

definition unanswered_effect ::
  "call_pair list \<Rightarrow> unanswered_call list \<Rightarrow> string \<Rightarrow> instant \<Rightarrow> instant \<Rightarrow> instant \<times> instant \<Rightarrow> bool option
   \<Rightarrow> effect_parameters \<Rightarrow> bool option" where
  "unanswered_effect ps us target_pod s e baseline other_ready par =
     (if length (filter (\<lambda>u. within (s, e) (unanswered_started u)) us) < min_calls par
         \<or> length (calm_calls ps baseline) < min_calls par then None
      else if list_ex (\<lambda>u. within baseline (unanswered_started u)) us then None
      else if list_ex (\<lambda>p. call_pod p \<noteq> target_pod) (calm_calls ps (fst baseline, e)) then None
      else if other_ready \<noteq> Some False then None
      else Some True)"

section \<open>The replicas of a pod\<close>

type_synonym journal = "(entity_ref \<times> object_version list) list"

definition versions_of :: "journal \<Rightarrow> entity_ref \<Rightarrow> object_version list" where
  "versions_of history e = (case map_of history e of None \<Rightarrow> [] | Some vs \<Rightarrow> vs)"

definition owner_uid_of :: "json \<Rightarrow> string option" where
  "owner_uid_of owner =
     (case owner of
        JDict d \<Rightarrow>
          if dict_value d ''controller'' = JBool False then None
          else (case dict_value d ''uid'' of JStr (c # u) \<Rightarrow> Some (c # u) | _ \<Rightarrow> None)
      | _ \<Rightarrow> None)"

definition owner_uid :: "object_version \<Rightarrow> string option" where
  "owner_uid v =
     (case dict_value (as_dict (dict_value (body v) ''metadata'')) ''ownerReferences'' of
        JList owners \<Rightarrow> (case List.map_filter owner_uid_of owners of [] \<Rightarrow> None | u # _ \<Rightarrow> Some u)
      | _ \<Rightarrow> None)"

definition creation_time :: "(string \<Rightarrow> instant option) \<Rightarrow> (string \<times> json) list \<Rightarrow> instant option" where
  "creation_time fi b =
     (case dict_value (as_dict (dict_value b ''metadata'')) ''creationTimestamp'' of
        JStr s \<Rightarrow> fi (replace_Z s)
      | _ \<Rightarrow> None)"

definition created_version :: "object_version list \<Rightarrow> object_version option" where
  "created_version vs = List.find (\<lambda>v. lifecycle v = CREATED) vs"

definition deleted_at :: "object_version list \<Rightarrow> instant option" where
  "deleted_at vs = map_option observed_at (List.find (\<lambda>v. lifecycle v = DELETED) vs)"

text \<open>When the journal places an object; its versions are not empty.\<close>

definition presence :: "(string \<Rightarrow> instant option) \<Rightarrow> object_version list \<Rightarrow> instant \<times> instant option" where
  "presence fi vs =
     (the (py_min (map (\<lambda>v. the (or_else (creation_time fi (body v)) (Some (observed_at v)))) vs)), deleted_at vs)"

definition present_in :: "(string \<Rightarrow> instant option) \<Rightarrow> instant \<Rightarrow> instant \<Rightarrow> object_version list \<Rightarrow> bool" where
  "present_in fi s e vs \<longleftrightarrow>
     (case presence fi vs of (created, deleted) \<Rightarrow>
        created \<le> e \<and> (case deleted of None \<Rightarrow> True | Some d \<Rightarrow> d \<ge> s))"

definition name_holder ::
  "(string \<Rightarrow> instant option) \<Rightarrow> object_version list \<Rightarrow> instant \<Rightarrow> instant \<Rightarrow> string option" where
  "name_holder fi vs s e =
     (if list_ex (\<lambda>v. instance_uid v = None) vs then None
      else (case filter (\<lambda>u. present_in fi s e (filter (\<lambda>v. instance_uid v = Some u) vs))
                   (dedup (map (the \<circ> instance_uid) vs)) of
              [u] \<Rightarrow> Some u
            | _ \<Rightarrow> None))"

definition replica_set_records :: "journal \<Rightarrow> object_version list" where
  "replica_set_records history =
     filter (\<lambda>v. instance_uid v \<noteq> None) (concat (map snd (filter (\<lambda>(r, _). kind r = ''ReplicaSet'') history)))"

definition workload_of_owner :: "journal \<Rightarrow> string \<Rightarrow> string" where
  "workload_of_owner history owner =
     (case List.find (\<lambda>v. instance_uid v = Some owner \<and> owner_uid v \<noteq> None) (replica_set_records history) of
        None \<Rightarrow> owner
      | Some v \<Rightarrow> the (owner_uid v))"

definition sibling_owners :: "journal \<Rightarrow> string \<Rightarrow> string \<Rightarrow> string list" where
  "sibling_owners history ns owner =
     owner # map (the \<circ> instance_uid)
       (filter (\<lambda>v. namespace (version_entity v) = ns \<and> owner_uid v = Some (workload_of_owner history owner))
         (replica_set_records history))"

definition replica_versions ::
  "journal \<Rightarrow> string \<Rightarrow> string \<Rightarrow> string list \<Rightarrow> ((entity_ref \<times> string) \<times> object_version) list" where
  "replica_versions history ns u owners =
     concat (map (\<lambda>(r, vs). List.map_filter (\<lambda>v.
         (case (instance_uid v, owner_uid v) of
            (Some i, Some ow) \<Rightarrow> if i \<noteq> u \<and> ow \<in> set owners then Some ((r, i), v) else None
          | _ \<Rightarrow> None)) vs)
       (filter (\<lambda>(r, _). kind r = ''Pod'' \<and> namespace r = ns) history))"

definition replicas ::
  "(string \<Rightarrow> instant option) \<Rightarrow> journal \<Rightarrow> entity_ref \<Rightarrow> instant \<Rightarrow> instant
   \<Rightarrow> (string \<times> ((entity_ref \<times> string) \<times> object_version list) list) option" where
  "replicas fi history target s e =
     (let vs = versions_of history target in
      case name_holder fi vs s e of
        None \<Rightarrow> None
      | Some u \<Rightarrow>
          (case List.find (\<lambda>v. instance_uid v = Some u \<and> owner_uid v \<noteq> None) vs of
             None \<Rightarrow> None
           | Some mine \<Rightarrow>
               let owner = the (owner_uid mine) in
               if \<not> list_ex (\<lambda>v. instance_uid v = Some owner) (replica_set_records history) then None
               else Some (u, filter (\<lambda>(_, vs). present_in fi s e vs)
                 (group_by fst snd (replica_versions history (namespace target) u
                    (sibling_owners history (namespace target) owner)) []))))"

section \<open>Whether another pod may have served\<close>

definition ready_from :: "pod_status \<Rightarrow> instant" where
  "ready_from s = (case ready_since s of None \<Rightarrow> pod_observed_at s | Some t \<Rightarrow> t)"

text \<open>An observation from the interval's start on whose state began by its end.\<close>

definition observed_in :: "instant \<Rightarrow> instant \<Rightarrow> pod_status \<Rightarrow> bool" where
  "observed_in s e o1 \<longleftrightarrow> pod_observed_at o1 \<ge> s \<and> ready_from o1 \<le> e"

definition ready_before :: "instant \<Rightarrow> pod_status list \<Rightarrow> bool" where
  "ready_before s os =
     (case max_by pod_observed_at (filter (\<lambda>o1. pod_observed_at o1 < s) os) of
        None \<Rightarrow> False
      | Some o1 \<Rightarrow> ready o1 = Some True)"

definition ready_in :: "instant \<Rightarrow> instant \<Rightarrow> pod_status list \<Rightarrow> bool" where
  "ready_in s e os \<longleftrightarrow> list_ex (\<lambda>o1. ready o1 = Some True \<and> observed_in s e o1) os"

definition unknown_in :: "instant \<Rightarrow> instant \<Rightarrow> pod_status list \<Rightarrow> bool" where
  "unknown_in s e os \<longleftrightarrow> list_ex (\<lambda>o1. ready o1 = None \<and> observed_in s e o1) os"

text \<open>The last observations no later than the start all say not ready, and there are some.\<close>

definition unready_at :: "instant \<Rightarrow> pod_status list \<Rightarrow> bool" where
  "unready_at s os \<longleftrightarrow>
     (let at_start = filter (\<lambda>o1. pod_observed_at o1 \<le> s) os;
          latest = filter (\<lambda>o1. Some (pod_observed_at o1) = py_max (map pod_observed_at at_start)) at_start
      in latest \<noteq> [] \<and> list_all (\<lambda>o1. ready o1 = Some False) latest)"

definition other_server_ready ::
  "(string \<Rightarrow> instant option) \<Rightarrow> pod_status list \<Rightarrow> entity_ref \<Rightarrow> instant \<Rightarrow> instant \<Rightarrow> journal \<Rightarrow> bool option" where
  "other_server_ready fi statuses target s e history =
     (if \<not> list_ex (\<lambda>o1. pod o1 = target) statuses then None
      else (case replicas fi history target s e of
              None \<Rightarrow> None
            | Some (_, placed) \<Rightarrow>
                let seen = map (\<lambda>((p, i), _). filter (\<lambda>o1. pod o1 = p \<and> pod_uid o1 \<in> {None, Some i}) statuses) placed
                in if list_ex (\<lambda>os. ready_in s e os \<or> ready_before s os) seen then Some True
                   else if list_ex (\<lambda>os. \<not> unready_at s os \<or> unknown_in s e os) seen then None
                   else Some False))"

end
