(* ===== verification/Claims.thy ===== *)
theory Claims
  imports Domain
begin

text \<open>
  Actor, instance and episode semantics of a claim (\<open>packages/rca/claims.py\<close>): which of a hypothesis's
  findings are the actor's own, which symptoms a chain of admitted relations reaches, and when the
  claim is admitted. The relations are those of \<open>RELATION_SEMANTICS\<close>
  (\<open>packages/rca/topology.py\<close>) whose direction is enabled.
\<close>

record relation_semantics =
  forward :: bool
  backward :: bool
  forward_relation :: string
  backward_relation :: string

definition sem :: "bool \<Rightarrow> bool \<Rightarrow> string \<Rightarrow> string \<Rightarrow> relation_semantics" where
  "sem f b fr br = \<lparr>forward = f, backward = b, forward_relation = fr, backward_relation = br\<rparr>"

definition RELATION_SEMANTICS :: "(string \<times> relation_semantics) list" where
  "RELATION_SEMANTICS =
    [(''runtime_propagates'', sem True False ''runtime_propagates'' ''runtime_affected_by''),
     (''delivers_to'', sem True False ''delivers_to'' ''delivered_from''),
     (''owned_by'', sem False True ''managed_by'' ''owns''),
     (''selects'', sem False True ''selected_by'' ''backs''),
     (''routes_to'', sem False True ''routed_by'' ''serves''),
     (''uses_config'', sem False True ''used_by'' ''configures''),
     (''calls'', sem False True ''called_by'' ''dependency_of''),
     (''restricts'', sem True False ''restricts'' ''restricted_by''),
     (''disrupts'', sem True False ''disrupts'' ''disrupted_by''),
     (''spawns'', sem True False ''spawns'' ''spawned_by''),
     (''scales'', sem True False ''scales'' ''scaled_by'')]"

definition RELATIONS :: "string list" where
  "RELATIONS = concat (map (\<lambda>(_, s).
     (if forward s then [forward_relation s] else []) @ (if backward s then [backward_relation s] else []))
     RELATION_SEMANTICS)"

definition actor_findings :: "hypothesis \<Rightarrow> finding list" where
  "actor_findings h = filter (\<lambda>f. entity f = causal_actor h
     \<and> (claim_version h = ''legacy'' \<or> entity_instance f = actor_instance h)
     \<and> (episode_onset h = None \<or> incident_onset f = episode_onset h)) (findings h)"

text \<open>
  The findings a claim is judged by, and among them its own initiating evidence
  (\<open>episode_source_capable_initiating_findings\<close> of \<open>packages/rca/root_cause_eligibility.py\<close>).
\<close>

definition claim_findings :: "hypothesis \<Rightarrow> finding list" where
  "claim_findings h = (if claim_version h = ''m21.v2'' then actor_findings h else findings h)"

definition SOURCE_CAPABLE_INITIATING_KINDS :: "finding_kind list" where
  "SOURCE_CAPABLE_INITIATING_KINDS =
     [CONFIG_CHANGE, OBJECT_CREATED, OBJECT_DELETED, SPEC_CHANGE, IMAGE_CHANGE, SCALE_CHANGE,
      ROLLOUT_RESTART, FAULT_INJECTION, FAULT_SCHEDULE, POLICY_CREATED, QUOTA_EXCEEDED,
      QUOTA_EXHAUSTED, NETWORK_RESTRICTION, AUTOSCALING_FAILURE, TRAFFIC_INCREASE]"

definition episode_source_capable_initiating_findings :: "hypothesis \<Rightarrow> finding list" where
  "episode_source_capable_initiating_findings h =
     filter (\<lambda>f. finding_kind f \<in> set SOURCE_CAPABLE_INITIATING_KINDS \<and> temporal_role f = INITIATING)
       (claim_findings h)"

fun chained :: "causal_hop list \<Rightarrow> bool" where
  "chained (a # b # hs) \<longleftrightarrow> hop_target a = hop_source b \<and> chained (b # hs)"
| "chained _ \<longleftrightarrow> True"

definition quota_hop :: "hypothesis \<Rightarrow> causal_hop \<Rightarrow> bool" where
  "quota_hop h hop \<longleftrightarrow> relation hop = ''quota_blocks'' \<and>
     list_ex (\<lambda>f. finding_kind f = QUOTA_EXCEEDED \<and> evidence_ids f \<noteq> []
        \<and> truthy (dict_value (details f) ''rejected'') \<and> hop_source hop = causal_actor h
        \<and> hop_target hop \<in> set (related f)) (actor_findings h)"

definition links_path :: "hypothesis \<Rightarrow> entity_ref \<Rightarrow> causal_hop list \<Rightarrow> bool" where
  "links_path h symptom path \<longleftrightarrow> path \<noteq> [] \<and> hop_source (hd path) = causal_actor h
     \<and> hop_target (last path) = symptom
     \<and> list_all (\<lambda>hop. relation hop \<in> set RELATIONS \<or> quota_hop h hop) path
     \<and> chained path"

definition symptom_links :: "hypothesis \<Rightarrow> (entity_ref \<times> causal_hop list) list" where
  "symptom_links h =
     (if claim_version h \<noteq> ''m21.v2'' then []
      else concat (map (\<lambda>symptom.
             (if symptom = causal_actor h then [(symptom, [])] else [])
             @ map (Pair symptom) (filter (links_path h symptom) (causal_paths h)))
           (sort_key canonical (symptom_entities h))))"

definition admitted :: "hypothesis \<Rightarrow> bool" where
  "admitted h \<longleftrightarrow> actor_findings h \<noteq> [] \<and> symptom_links h \<noteq> []"

definition admission_reasons :: "hypothesis \<Rightarrow> string list" where
  "admission_reasons h =
     (if claim_version h \<noteq> ''m21.v2'' then [''LEGACY_CLAIM_REQUIRES_REFORMATION'']
      else if actor_findings h = [] then [''NO_ACTOR_INSTANCE_EPISODE_OBSERVATION'']
      else if symptom_links h \<noteq> [] then [''ACTOR_TO_INCIDENT_MECHANISM''] else [''NO_POSITIVE_INCIDENT_LINK''])"

section \<open>What an admitted claim has\<close>

text \<open>A walk along the hops of admitted relations, as a step relation on entities.\<close>

inductive causal_walk :: "(causal_hop \<Rightarrow> bool) \<Rightarrow> entity_ref \<Rightarrow> causal_hop list \<Rightarrow> entity_ref \<Rightarrow> bool"
  for ok :: "causal_hop \<Rightarrow> bool" where
  stay: "causal_walk ok e [] e"
| hop: "ok h \<Longrightarrow> causal_walk ok (hop_target h) hs e \<Longrightarrow> causal_walk ok (hop_source h) (h # hs) e"

inductive_simps causal_walk_Nil [simp]: "causal_walk ok a [] b"
inductive_cases causal_walk_ConsE: "causal_walk ok a (h # hs) b"

lemma chained_walk:
  "chained path \<Longrightarrow> list_all ok path \<Longrightarrow> path \<noteq> [] \<Longrightarrow>
     causal_walk ok (hop_source (hd path)) path (hop_target (last path))"
proof (induction path rule: chained.induct)
  case (1 a b hs)
  then show ?case by (auto intro: causal_walk.hop)
qed (auto intro: causal_walk.intros)

definition admitted_hop :: "hypothesis \<Rightarrow> causal_hop \<Rightarrow> bool" where
  "admitted_hop h hop \<longleftrightarrow> relation hop \<in> set RELATIONS \<or> quota_hop h hop"

lemma symptom_links_walk:
  assumes "(s, path) \<in> set (symptom_links h)"
  shows "s \<in> set (symptom_entities h) \<and> causal_walk (admitted_hop h) (causal_actor h) path s
    \<and> (path = [] \<or> path \<in> set (causal_paths h))"
proof -
  from assms have s: "s \<in> set (symptom_entities h)"
    and p: "path = [] \<and> s = causal_actor h \<or> path \<in> set (causal_paths h) \<and> links_path h s path"
    by (auto simp: symptom_links_def split: if_splits)
  from p have "causal_walk (admitted_hop h) (causal_actor h) path s"
    using chained_walk [of path "admitted_hop h"] by (auto simp: links_path_def admitted_hop_def [abs_def])
  with s p show ?thesis by auto
qed

text \<open>
  Admission is earned by evidence, not by names. An admitted claim is an m21 claim with a finding of
  exactly its actor, instance and episode, and some incident symptom reached from the actor by an
  unbroken walk of the claim's own hops, each of an enabled causal relation, or a quota refusal that
  such a finding of the actor recorded with evidence. Admission and its stated reason always agree.
\<close>

theorem admission_sound:
  "(admitted h \<longrightarrow> claim_version h = ''m21.v2''
      \<and> (\<exists>f\<in>set (findings h). entity f = causal_actor h \<and> entity_instance f = actor_instance h
           \<and> (episode_onset h = None \<or> incident_onset f = episode_onset h))
      \<and> (\<exists>s\<in>set (symptom_entities h). \<exists>path. (path = [] \<or> path \<in> set (causal_paths h))
           \<and> causal_walk (admitted_hop h) (causal_actor h) path s))
   \<and> (admission_reasons h = [''ACTOR_TO_INCIDENT_MECHANISM''] \<longleftrightarrow> admitted h)"
proof (intro conjI impI)
  assume adm: "admitted h"
  then obtain s path where link: "(s, path) \<in> set (symptom_links h)"
    unfolding admitted_def by (metis list.set_sel(1) surj_pair)
  then show v: "claim_version h = ''m21.v2''" by (auto simp: symptom_links_def split: if_splits)
  obtain f where "f \<in> set (actor_findings h)"
    using adm unfolding admitted_def by (metis list.set_sel(1))
  with v show "\<exists>f\<in>set (findings h). entity f = causal_actor h \<and> entity_instance f = actor_instance h
      \<and> (episode_onset h = None \<or> incident_onset f = episode_onset h)"
    by (auto simp: actor_findings_def)
  show "\<exists>s\<in>set (symptom_entities h). \<exists>path. (path = [] \<or> path \<in> set (causal_paths h))
      \<and> causal_walk (admitted_hop h) (causal_actor h) path s"
    using symptom_links_walk [OF link] by blast
next
  show "admission_reasons h = [''ACTOR_TO_INCIDENT_MECHANISM''] \<longleftrightarrow> admitted h"
    by (auto simp: admission_reasons_def admitted_def symptom_links_def)
qed

definition sample_hypothesis :: hypothesis where
  "sample_hypothesis =
     (let a = \<lparr>kind = ''Deployment'', name = ''cart'', namespace = ''shop''\<rparr>;
          s = \<lparr>kind = ''Service'', name = ''front'', namespace = ''shop''\<rparr>
      in \<lparr>hypothesis_id = ''h1'', hypothesis_key = ''k1'', causal_actor = a, claim_version = ''m21.v2'',
          actor_instance = None, mechanism = ''IMAGE_CHANGE'', mechanism_family = ''IMAGE_CHANGE'',
          causal_family_id = '''', episode_onset = Some 50,
          symptom_entities = [s], relation_evidence_ids = [], members = [a], manifestations = [],
          findings = [\<lparr>finding_kind = IMAGE_CHANGE, entity = a, entity_instance = None, at = Some 40,
            summary = ''image changed'', evidence_ids = [''e1''], related = [], details = [],
            temporal_role = INITIATING, incident_onset = Some 50, onset_delta = None\<rparr>],
          initiating_findings = [], supporting_findings = [], contradictory_findings = [],
          causal_paths = [[\<lparr>hop_source = a, relation = ''serves'', hop_target = s\<rparr>]],
          causal_explanation = ''PATH''\<rparr>)"

theorem admission_sound_witness:
  "admitted sample_hypothesis
   \<and> (\<exists>s\<in>set (symptom_entities sample_hypothesis). \<exists>path. path \<noteq> [] \<and> path \<in> set (causal_paths sample_hypothesis)
        \<and> causal_walk (admitted_hop sample_hypothesis) (causal_actor sample_hypothesis) path s)"
proof -
  have adm: "admitted sample_hypothesis"
    by (simp add: admitted_def actor_findings_def symptom_links_def links_path_def sample_hypothesis_def
        Let_def RELATIONS_def RELATION_SEMANTICS_def sem_def)
  from admission_sound [of sample_hypothesis] adm show ?thesis
    by (auto simp: sample_hypothesis_def Let_def)
qed

end
