(* ===== verification/Episode_End.thy ===== *)
theory Episode_End
  imports Claims
begin

text \<open>
  The ended-manifestation-episode rule (\<open>packages/rca/episode_end.py\<close>): a Pod hypothesis that carries
  only its own failure manifestations is ended when every Pod instance they name was observed to be
  deleted, or continuously Ready across the onset, after its last manifestation. The texts of the
  audit preconditions are reduced to their names.
\<close>

section \<open>Outcomes\<close>

definition RULE_ID :: string where
  "RULE_ID = ''m16.ended-manifestation-episode''"

definition RULE_VERSION :: string where
  "RULE_VERSION = ''v1''"

definition MANIFESTATION_KINDS :: "finding_kind list" where
  "MANIFESTATION_KINDS = [FAILURE_EVENT, CONTAINER_FAILURE]"

definition SYNTHETIC_TOMBSTONES :: "string list" where
  "SYNTHETIC_TOMBSTONES = [''cluster:missing'']"

datatype end_basis = TERMINATED | RECOVERED

fun basis_name :: "end_basis \<Rightarrow> string" where
  "basis_name TERMINATED = ''positive_episode_end_terminated''"
| "basis_name RECOVERED = ''positive_episode_end_recovered''"

record instance_end =
  end_uid :: string
  end_target :: string
  end_basis :: end_basis
  end_at :: instant
  end_observed :: instant
  last_manifestation :: instant
  end_evidence :: string
  decisive :: "string list"

record ended_episode =
  ended_hypothesis :: string
  ended_actor :: entity_ref
  ended_onset :: instant
  ended_boundary :: instant
  instances :: "instance_end list"
  manifestation_evidence :: "string list"
  passed_preconditions :: "string list"

record precondition_outcome =
  outcome_results :: "precondition_result list"
  outcome_reasons :: "audit_reason list"

record instance_requirement =
  requirement_uid :: string
  requirement_result :: "precondition_result option"
  requirement_reason :: "audit_reason option"

record episode_evaluations =
  ended_episodes :: "(string \<times> ended_episode) list"
  preconditions :: "(string \<times> precondition_result list) list"
  reasons :: "(string \<times> audit_reason list) list"
  instance_requirements :: "(string \<times> instance_requirement list) list"

section \<open>The two observed ends\<close>

type_synonym observed_end = "instant \<times> instant \<times> string \<times> string list"

text \<open>A real tombstone recorded at or before the onset.\<close>

definition real_tombstone :: "instant \<Rightarrow> object_version \<Rightarrow> bool" where
  "real_tombstone t v \<longleftrightarrow> lifecycle v = DELETED \<and> evidence_id v \<notin> set SYNTHETIC_TOMBSTONES
     \<and> observed_at v \<le> t"

definition own_versions :: "string \<Rightarrow> object_version list \<Rightarrow> object_version list" where
  "own_versions u vs = filter (\<lambda>v. instance_uid v = Some u) vs"

definition terminated ::
  "string \<Rightarrow> object_version list \<Rightarrow> pod_status list \<Rightarrow> instant \<Rightarrow> observed_end option" where
  "terminated u versions statuses t =
     (let own = own_versions u versions in
      if own = [] then None
      else
        (let l = last own in
         if \<not> real_tombstone t l then None
         else if list_ex (\<lambda>v. instance_uid v \<in> {Some u, None} \<and> observed_at v > observed_at l) versions
         then None
         else if list_ex (\<lambda>s. pod_uid s \<in> {Some u, None} \<and> pod_observed_at s > observed_at l) statuses
         then None
         else Some (observed_at l, observed_at l, evidence_id l,
                map evidence_id (rev (takeWhile (real_tombstone t) (rev own))))))"

definition own_statuses :: "string \<Rightarrow> pod_status list \<Rightarrow> pod_status list" where
  "own_statuses u ss = filter (\<lambda>s. pod_uid s = Some u) ss"

definition ready_across :: "instant \<Rightarrow> pod_status \<Rightarrow> bool" where
  "ready_across t s \<longleftrightarrow> ready s = Some True
     \<and> (case ready_since s of None \<Rightarrow> False | Some r \<Rightarrow> r \<le> t)"

definition recovered ::
  "string \<Rightarrow> pod_status list \<Rightarrow> instant \<Rightarrow> instant \<Rightarrow> observed_end option" where
  "recovered u statuses t boundary =
     (let own = own_statuses u statuses;
          covering = filter (\<lambda>s. pod_observed_at s \<ge> boundary \<and> ready_across t s) own
      in case max_by pod_observed_at covering of
           None \<Rightarrow> None
         | Some latest \<Rightarrow>
             (case ready_since latest of
                None \<Rightarrow> None
              | Some r \<Rightarrow>
                  if list_ex (\<lambda>s. r \<le> pod_observed_at s \<and> pod_observed_at s \<le> pod_observed_at latest
                       \<and> (ready s \<noteq> Some True \<or> ready_since s \<noteq> Some r)) own
                  then None
                  else Some (r, pod_observed_at latest, pod_evidence latest,
                         map pod_evidence (sort_key pod_observed_at covering))))"

section \<open>Scope\<close>

text \<open>Findings that are not manifestations of the actor, or premises of a cause of its own.\<close>

definition out_of_scope :: "hypothesis \<Rightarrow> bool" where
  "out_of_scope h \<longleftrightarrow> initiating_findings h \<noteq> [] \<or> episode_source_capable_initiating_findings h \<noteq> []
     \<or> list_ex (\<lambda>f. finding_kind f \<notin> set MANIFESTATION_KINDS \<or> entity f \<noteq> causal_actor h) (claim_findings h)"

type_synonym groups = "(string \<times> instant list) list"

definition manifestation_groups :: "hypothesis \<Rightarrow> instant option \<Rightarrow> (entity_ref \<times> groups) option" where
  "manifestation_groups h onset =
     (let fs = claim_findings h in
      if onset = None \<or> kind (causal_actor h) \<noteq> ''Pod'' then None
      else if fs = [] \<or> out_of_scope h \<or> list_ex (\<lambda>f. at f = None) fs then None
      else if list_ex (\<lambda>f. entity_instance f = None \<or> at f = None) fs then None
      else Some (causal_actor h, group_by (\<lambda>f. uid (the (entity_instance f))) (\<lambda>f. the (at f)) fs []))"

definition scope_exit_uids :: "hypothesis \<Rightarrow> instant option \<Rightarrow> string list" where
  "scope_exit_uids h onset =
     (let fs = claim_findings h in
      if onset = None \<or> kind (causal_actor h) \<noteq> ''Pod'' \<or> fs = [] then []
      else if \<not> out_of_scope h then []
      else sorted_set (map (\<lambda>f. uid (the (entity_instance f)))
             (filter (\<lambda>f. finding_kind f \<in> set MANIFESTATION_KINDS \<and> entity f = causal_actor h
                \<and> entity_instance f \<noteq> None) fs)))"

section \<open>The rule\<close>

definition latest_time :: "instant list \<Rightarrow> instant" where
  "latest_time ts = (case py_max ts of None \<Rightarrow> 0 | Some t \<Rightarrow> t)"

definition end_of_instance ::
  "entity_ref \<Rightarrow> object_version list \<Rightarrow> pod_status list \<Rightarrow> instant \<Rightarrow> instant \<Rightarrow> string \<times> instant list
   \<Rightarrow> instance_end option" where
  "end_of_instance actor versions statuses t boundary g =
     (case g of (u, ts) \<Rightarrow>
        (case (case terminated u versions statuses t of
                 Some e \<Rightarrow> Some (TERMINATED, e)
               | None \<Rightarrow> map_option (Pair RECOVERED) (recovered u statuses t boundary)) of
           None \<Rightarrow> None
         | Some (basis, ended, observed, ev, dec) \<Rightarrow>
             if \<not> latest_time ts < ended then None
             else Some \<lparr>end_uid = u, end_target = canonical actor @ ''@'' @ u, end_basis = basis,
                        end_at = ended, end_observed = observed, last_manifestation = latest_time ts,
                        end_evidence = ev, decisive = dec\<rparr>))"

type_synonym history = "entity_ref \<Rightarrow> object_version list"

definition statuses_of :: "entity_ref \<Rightarrow> pod_status list \<Rightarrow> pod_status list" where
  "statuses_of actor ss = filter (\<lambda>s. pod s = actor) ss"

definition assess_ended_episode ::
  "hypothesis \<Rightarrow> history \<Rightarrow> pod_status list \<Rightarrow> instant option \<Rightarrow> duration \<Rightarrow> ended_episode option" where
  "assess_ended_episode h history statuses onset grace =
     (case (onset, manifestation_groups h onset) of
        (Some t, Some (actor, groups)) \<Rightarrow>
          (case those (map (end_of_instance actor (history actor) (statuses_of actor statuses) t (t + grace))
                  (sort_key fst groups)) of
             None \<Rightarrow> None
           | Some ends \<Rightarrow>
               Some \<lparr>ended_hypothesis = hypothesis_id h, ended_actor = actor, ended_onset = t,
                 ended_boundary = t + grace, instances = ends,
                 manifestation_evidence = dedup (concat (map evidence_ids (claim_findings h))),
                 passed_preconditions =
                   [''pod_actor'', ''manifestation_only'', ''timed_manifestations'', ''instance_bound'',
                    ''per_instance_end'']
                   @ sorted_set (map (basis_name \<circ> end_basis) ends) @ [''no_overlap'']\<rparr>)
      | _ \<Rightarrow> None)"

definition assess_ended_episodes ::
  "hypothesis list \<Rightarrow> history \<Rightarrow> pod_status list \<Rightarrow> instant option \<Rightarrow> duration
   \<Rightarrow> (string \<times> ended_episode) list" where
  "assess_ended_episodes hs history statuses onset grace =
     fold (\<lambda>h d. case assess_ended_episode h history statuses onset grace of
             None \<Rightarrow> d | Some e \<Rightarrow> AList.update (hypothesis_id h) e d) hs []"

section \<open>What is still missing\<close>

definition outcome_result :: "precondition_result \<Rightarrow> precondition_outcome" where
  "outcome_result r = \<lparr>outcome_results = [r], outcome_reasons = []\<rparr>"

definition outcome_reason :: "audit_reason \<Rightarrow> precondition_outcome" where
  "outcome_reason r = \<lparr>outcome_results = [], outcome_reasons = [r]\<rparr>"

definition no_outcome :: precondition_outcome where
  "no_outcome = \<lparr>outcome_results = [], outcome_reasons = []\<rparr>"

definition matured :: "instant option \<Rightarrow> instant \<Rightarrow> bool" where
  "matured evaluation boundary \<longleftrightarrow> (case evaluation of None \<Rightarrow> False | Some t \<Rightarrow> t \<ge> boundary)"

definition recovery_precondition ::
  "string \<Rightarrow> pod_status list \<Rightarrow> instant \<Rightarrow> instant \<Rightarrow> instant option \<Rightarrow> instant \<Rightarrow> precondition_outcome" where
  "recovery_precondition u statuses t boundary evaluation last_man =
     (let own = own_statuses u statuses in
      if list_ex (\<lambda>s. ready s = Some False \<and> pod_observed_at s \<ge> t) own
      then outcome_result (result_disqualified ''POST_ONSET_READY_FALSE'')
      else if list_ex (\<lambda>s. ready s = Some True \<and> (case ready_since s of None \<Rightarrow> False | Some r \<Rightarrow> r > t)
                \<and> pod_observed_at s \<ge> t) own
      then outcome_result (result_disqualified ''RECOVERY_CONTINUITY_BROKEN'')
      else
        (case max_by pod_observed_at
                (filter (\<lambda>s. t \<le> pod_observed_at s \<and> pod_observed_at s < boundary \<and> ready_across t s) own) of
           Some c \<Rightarrow>
             (case ready_since c of
                None \<Rightarrow> no_outcome
              | Some r \<Rightarrow>
                  if list_ex (\<lambda>s. pod_observed_at s \<ge> r \<and> pod_observed_at s \<le> pod_observed_at c
                       \<and> (ready s = Some False
                          \<or> (ready s = Some True \<and> ready_since s \<noteq> None \<and> ready_since s \<noteq> Some r))) own
                  then outcome_result (result_disqualified ''RECOVERY_CONTINUITY_BROKEN'')
                  else if last_man < r
                  then (if matured evaluation boundary then outcome_reason PARTIAL_COVERAGE_AFTER_DEADLINE
                        else outcome_result (result_pending boundary))
                  else no_outcome)
         | None \<Rightarrow>
             if matured evaluation boundary
             then outcome_reason
                    (if list_ex (\<lambda>s. pod_observed_at s \<ge> t) own then PARTIAL_COVERAGE_AFTER_DEADLINE
                     else NO_DATA_AFTER_DEADLINE)
             else no_outcome))"

definition requirement_of :: "string \<Rightarrow> precondition_outcome \<Rightarrow> instance_requirement option" where
  "requirement_of u oc =
     (case outcome_results oc of
        r # _ \<Rightarrow> Some \<lparr>requirement_uid = u, requirement_result = Some r, requirement_reason = None\<rparr>
      | [] \<Rightarrow>
          (case outcome_reasons oc of
             r # _ \<Rightarrow> Some \<lparr>requirement_uid = u, requirement_result = None, requirement_reason = Some r\<rparr>
           | [] \<Rightarrow> None))"

definition passed_requirement :: "string \<Rightarrow> instance_requirement" where
  "passed_requirement u =
     \<lparr>requirement_uid = u, requirement_result = Some result_passed, requirement_reason = None\<rparr>"

text \<open>\<open>d.setdefault(k, []).extend(vs)\<close>\<close>

definition extend_key :: "string \<Rightarrow> 'a list \<Rightarrow> (string \<times> 'a list) list \<Rightarrow> (string \<times> 'a list) list" where
  "extend_key k vs d = AList.update k ((case map_of d k of None \<Rightarrow> [] | Some ws \<Rightarrow> ws) @ vs) d"

definition evaluate_instance ::
  "string \<Rightarrow> object_version list \<Rightarrow> pod_status list \<Rightarrow> instant \<Rightarrow> instant \<Rightarrow> instant option
   \<Rightarrow> string \<times> instant list \<Rightarrow> episode_evaluations \<Rightarrow> episode_evaluations" where
  "evaluate_instance i versions statuses t boundary evaluation g acc =
     (case g of (u, ts) \<Rightarrow>
        if terminated u versions statuses t \<noteq> None \<or> recovered u statuses t boundary \<noteq> None
        then acc\<lparr>instance_requirements := extend_key i [passed_requirement u] (instance_requirements acc)\<rparr>
        else
          (let oc = recovery_precondition u statuses t boundary evaluation (latest_time ts);
               acc1 = (if outcome_results oc \<noteq> []
                       then acc\<lparr>preconditions := extend_key i (outcome_results oc) (preconditions acc)\<rparr> else acc);
               acc2 = (if outcome_reasons oc \<noteq> []
                       then acc1\<lparr>reasons := extend_key i (outcome_reasons oc) (reasons acc1)\<rparr> else acc1)
           in case requirement_of u oc of
                None \<Rightarrow> acc2
              | Some r \<Rightarrow> acc2\<lparr>instance_requirements := extend_key i [r] (instance_requirements acc2)\<rparr>))"

definition evaluate_hypothesis ::
  "history \<Rightarrow> pod_status list \<Rightarrow> instant option \<Rightarrow> duration \<Rightarrow> instant option
   \<Rightarrow> hypothesis \<Rightarrow> episode_evaluations \<Rightarrow> episode_evaluations" where
  "evaluate_hypothesis history statuses onset grace evaluation h acc =
     (case assess_ended_episode h history statuses onset grace of
        Some e \<Rightarrow>
          acc\<lparr>ended_episodes := AList.update (hypothesis_id h) e (ended_episodes acc),
              instance_requirements := AList.update (hypothesis_id h)
                (map (\<lambda>x. passed_requirement (end_uid x)) (instances e)) (instance_requirements acc)\<rparr>
      | None \<Rightarrow>
          (case (onset, manifestation_groups h onset) of
             (Some t, Some (actor, groups)) \<Rightarrow>
               fold (evaluate_instance (hypothesis_id h) (history actor) (statuses_of actor statuses) t
                       (t + grace) evaluation) (sort_key fst groups) acc
           | _ \<Rightarrow>
               if scope_exit_uids h onset = [] then acc
               else acc\<lparr>instance_requirements := AList.update (hypothesis_id h)
                      (map (\<lambda>u. \<lparr>requirement_uid = u, requirement_result = None,
                                 requirement_reason = Some SCOPE_EXITED\<rparr>) (scope_exit_uids h onset))
                      (instance_requirements acc)\<rparr>))"

definition evaluate_ended_episodes ::
  "hypothesis list \<Rightarrow> history \<Rightarrow> pod_status list \<Rightarrow> instant option \<Rightarrow> duration \<Rightarrow> instant option
   \<Rightarrow> episode_evaluations" where
  "evaluate_ended_episodes hs history statuses onset grace evaluation =
     fold (evaluate_hypothesis history statuses onset grace evaluation) hs
       \<lparr>ended_episodes = [], preconditions = [], reasons = [], instance_requirements = []\<rparr>"

end
