(* ===== verification/Decision_Trace.thy ===== *)
theory Decision_Trace
  imports Domain
begin

text \<open>
  The vocabulary of a decision (\<open>packages/rca/model.py\<close>): why a hypothesis was eliminated, what supports
  it as a root cause, the causal families that compete, the audit of every hypothesis and the trace
  that a resolution leaves. Texts that are only presented to people (\<open>detail\<close> of an elimination,
  \<open>coverage_basis\<close>, \<open>rationale\<close>) are left out, and so are the verification traces and channel
  assessments an audit only carries along.
\<close>

section \<open>Outcomes\<close>

datatype resolution_state = RESOLVED | AMBIGUOUS | INSUFFICIENT_EVIDENCE

datatype epistemic_state = CLAIM_SUPPORTED | CLAIM_UNRESOLVED | CLAIM_CONTRADICTED

datatype reason_code =
    POSITIVELY_EXPLAINED_OBSERVATION | NO_CAUSAL_SYMPTOM_LINK | NO_ONSET_CAPABLE_INITIATING_EVIDENCE
  | EXPLICIT_TEMPORAL_CONTRADICTION | STRUCTURALLY_DOMINATED | ROOT_CAUSE_INELIGIBLE_PROPAGATED_EFFECT
  | MANIFESTATION_EPISODE_ENDED_BEFORE_ONSET | OBSERVED_NORMAL_MECHANISM_MISMATCH

fun code_value :: "reason_code \<Rightarrow> string" where
  "code_value POSITIVELY_EXPLAINED_OBSERVATION = ''POSITIVELY_EXPLAINED_OBSERVATION''"
| "code_value NO_CAUSAL_SYMPTOM_LINK = ''NO_CAUSAL_SYMPTOM_LINK''"
| "code_value NO_ONSET_CAPABLE_INITIATING_EVIDENCE = ''NO_ONSET_CAPABLE_INITIATING_EVIDENCE''"
| "code_value EXPLICIT_TEMPORAL_CONTRADICTION = ''EXPLICIT_TEMPORAL_CONTRADICTION''"
| "code_value STRUCTURALLY_DOMINATED = ''STRUCTURALLY_DOMINATED''"
| "code_value ROOT_CAUSE_INELIGIBLE_PROPAGATED_EFFECT = ''ROOT_CAUSE_INELIGIBLE_PROPAGATED_EFFECT''"
| "code_value MANIFESTATION_EPISODE_ENDED_BEFORE_ONSET = ''MANIFESTATION_EPISODE_ENDED_BEFORE_ONSET''"
| "code_value OBSERVED_NORMAL_MECHANISM_MISMATCH = ''OBSERVED_NORMAL_MECHANISM_MISMATCH''"

lemma code_value_inj [simp]: "code_value a = code_value b \<longleftrightarrow> a = b"
  by (cases a; cases b) simp_all

datatype consequence = CONTRADICTION | ROOT_INELIGIBILITY

datatype support_status = FIRED | NOT_FIRED | INAPPLICABLE

fun status_text :: "support_status \<Rightarrow> string" where
  "status_text FIRED = ''FIRED''"
| "status_text NOT_FIRED = ''NOT_FIRED''"
| "status_text INAPPLICABLE = ''INAPPLICABLE''"

section \<open>Eliminations\<close>

record elimination_precondition =
  precondition_name :: string
  precondition_passed :: bool

record time_basis =
  basis_evidence :: "string list"
  basis_onset :: "instant option"
  basis_boundary :: "instant option"
  basis_causal_time :: "instant option"
  interval_start :: "instant option"
  interval_end :: "instant option"
  basis_certainty :: string
  basis_target :: string

record elimination =
  eliminated_id :: string
  elimination_code :: reason_code
  elimination_evidence :: "string list"
  elimination_rule :: string
  elimination_version :: string
  elimination_consequence :: consequence
  elimination_targets :: "string list"
  elimination_mechanism :: string
  elimination_observations :: "string list"
  elimination_basis :: "time_basis list"
  elimination_preconditions :: "elimination_precondition list"
  elimination_decisive :: "string list"

section \<open>Support\<close>

type_synonym path_shape = "(string \<times> string \<times> string) list"

record signature =
  initiating_kinds :: "string list"
  supporting_kinds :: "string list"
  contradiction_kinds :: "string list"
  temporal_profile :: "string list"
  symptom_relation :: string
  causal_path_shape :: "path_shape list"
  manifestation_shape :: "string list"
  provenance_classes :: "string list"

record causal_witness =
  witness_actor :: entity_ref
  witness_instance :: "entity_instance option"
  origin :: finding
  relation_evidence :: "string list"
  attribution :: string
  witness_mechanism :: string
  witness_symptom :: entity_ref
  witness_path :: "causal_hop list"
  witness_onset :: instant
  witness_evidence :: "string list"
  witness_coverage :: "string list"
  missing :: "string list"
  witness_rule :: string
  witness_version :: string
  witness_claim_level :: string
  fault_action :: "string option"

record support_record =
  support_rule :: string
  support_version :: string
  support_kind :: string
  support_status :: support_status
  support_reasons :: "string list"
  decisive_evidence :: "string list"
  support_explanation :: string
  support_shapes :: "path_shape list"
  witnesses :: "causal_witness list"

record explanation =
  explaining_claim :: string
  explained_claim :: string
  explaining_actor :: entity_ref
  explaining_instance :: "entity_instance option"
  explained_manifestation :: entity_ref
  explained_instance :: "entity_instance option"
  explanation_onset :: instant
  explanation_mechanism :: string
  explanation_path :: "causal_hop list"
  explanation_evidence :: "string list"
  explained_evidence :: "string list"
  explanation_coverage :: "string list"
  explanation_rule :: string
  explanation_version :: string
  explanation_consequence :: string
  remaining_uncertainty :: "string list"

section \<open>Structural alternatives\<close>

datatype gap_dimension =
    CHANGE_TIMING | ENTITY_STATE | METRIC_BASELINE | METRIC_CHANGE | DEPENDENCY_HEALTH | EVENT_SEQUENCE
  | LOG_ERROR_PATTERN | TOPOLOGY_RELATION | CONFIG_DIFFERENCE | AUTOSCALING_TARGET_STATE
  | RESOURCE_PRESSURE_DIMENSION | FAILURE_ONSET

fun dimension_value :: "gap_dimension \<Rightarrow> string" where
  "dimension_value CHANGE_TIMING = ''CHANGE_TIMING''"
| "dimension_value ENTITY_STATE = ''ENTITY_STATE''"
| "dimension_value METRIC_BASELINE = ''METRIC_BASELINE''"
| "dimension_value METRIC_CHANGE = ''METRIC_CHANGE''"
| "dimension_value DEPENDENCY_HEALTH = ''DEPENDENCY_HEALTH''"
| "dimension_value EVENT_SEQUENCE = ''EVENT_SEQUENCE''"
| "dimension_value LOG_ERROR_PATTERN = ''LOG_ERROR_PATTERN''"
| "dimension_value TOPOLOGY_RELATION = ''TOPOLOGY_RELATION''"
| "dimension_value CONFIG_DIFFERENCE = ''CONFIG_DIFFERENCE''"
| "dimension_value AUTOSCALING_TARGET_STATE = ''AUTOSCALING_TARGET_STATE''"
| "dimension_value RESOURCE_PRESSURE_DIMENSION = ''RESOURCE_PRESSURE''"
| "dimension_value FAILURE_ONSET = ''FAILURE_ONSET''"

datatype frontier_status = UNEXPLORED | QUERIED_NO_CAUSAL_FINDING | PROMOTED

record frontier_answer =
  answered_alternative :: string
  question :: string
  answer_state :: string
  blocked_reason :: "string option"
  answer_evidence :: "string list"
  affected_claims :: "string list"
  transferred_claims :: "string list"
  answer_uncertainty :: "string list"
  answer_rule :: string
  last_written_at :: "instant option"
  listed_at :: "instant option"
  failed_evaluation_at :: "instant option"

record structural_alternative =
  alternative_id :: string
  affected_entities :: "entity_ref list"
  material_for :: "string list"
  missing_decision :: string
  alternative_actor :: entity_ref
  alternative_role :: string
  queryable_dimensions :: "gap_dimension list"
  queried_dimensions :: "gap_dimension list"
  frontier_status :: frontier_status
  alternative_answer :: "frontier_answer option"

section \<open>Families, audits and traces\<close>

datatype family_state = FAMILY_SUPPORTED | FAMILY_UNRESOLVED | FAMILY_EXCLUDED

datatype instance_resolution = EXACT | MULTIPLE_VIABLE | UNKNOWN_INSTANCE

record causal_family =
  family_id :: string
  family_actor :: entity_ref
  family_mechanism :: string
  family_state :: family_state
  instance_resolution :: instance_resolution
  family_members :: "string list"
  supported_members :: "string list"
  unresolved_members :: "string list"
  excluded_members :: "string list"
  representative :: "string option"

record discriminator =
  discriminator_kind :: string
  discriminator_hypotheses :: "string list"
  discriminator_evidence :: "string list"
  discriminator_kinds :: "string list"
  temporal_relations :: "string list"
  discriminator_shapes :: "path_shape list"
  discriminator_detail :: string

record dominance =
  stronger_hypothesis :: string
  weaker_hypothesis :: string
  dominance_evidence :: "string list"
  dominance_detail :: string

record resolution_audit =
  audit_hypothesis :: string
  audit_signature :: signature
  audit_state :: epistemic_state
  audit_plausible :: bool
  plausibility_reasons :: "reason_code list"
  contradictory_evidence :: "string list"
  onset_relation :: "string list"
  causal_linkage :: string
  precondition_audit :: "rule_audit list"
  root_support :: "support_record list"
  audit_admission :: string
  audit_admission_reasons :: "string list"
  audit_family :: string

record resolution_trace =
  trace_state :: resolution_state
  semantics_version :: string
  trace_status :: string
  claim_level :: string
  admitted_hypotheses :: "string list"
  context_hypotheses :: "string list"
  trace_explanations :: "explanation list"
  explained_hypotheses :: "string list"
  mechanism_verified_hypotheses :: "string list"
  independent_mechanism_causes :: "string list"
  material_frontier_ids :: "string list"
  frontier_bindings :: "(string \<times> string list) list"
  frontier_answers :: "frontier_answer list"
  leading_hypotheses :: "string list"
  signatures :: "signature list"
  distinguishing_facts :: "string list"
  unresolved_dimensions :: "string list"
  eliminated_hypotheses :: "string list"
  unresolved_hypotheses :: "string list"
  elimination_reasons :: "string list"
  considered_hypotheses :: "string list"
  plausible_hypotheses :: "string list"
  eliminations :: "elimination list"
  discriminators :: "discriminator list"
  dominance_relations :: "dominance list"
  hypothesis_audits :: "resolution_audit list"
  causal_families :: "causal_family list"
  decision_basis :: string

text \<open>A trace of which only the state is set: every other field has its default.\<close>

definition default_trace :: "resolution_state \<Rightarrow> resolution_trace" where
  "default_trace s =
     \<lparr>trace_state = s, semantics_version = ''legacy'', trace_status = ''UNASSESSED'', claim_level = ''UNASSESSED'',
      admitted_hypotheses = [], context_hypotheses = [], trace_explanations = [], explained_hypotheses = [],
      mechanism_verified_hypotheses = [], independent_mechanism_causes = [], material_frontier_ids = [],
      frontier_bindings = [], frontier_answers = [],
      leading_hypotheses = [], signatures = [], distinguishing_facts = [], unresolved_dimensions = [],
      eliminated_hypotheses = [], unresolved_hypotheses = [], elimination_reasons = [],
      considered_hypotheses = [], plausible_hypotheses = [], eliminations = [], discriminators = [],
      dominance_relations = [], hypothesis_audits = [], causal_families = [], decision_basis = []\<rparr>"

end
