(* ===== verification/Timing_Stability.thy ===== *)
theory Timing_Stability
  imports Episode_End Decision_Trace
begin

text \<open>
  Onset uncertainty and timing stability (\<open>packages/rca/timing_stability.py\<close>): the set of onsets the
  captured alert episodes admit, what each exact claim looked like under each of them, which
  outcomes hold over all of them, and which temporal authority is withheld because it does not.
  \<open>casefold\<close> is ASCII lower case.
  \<open>compute_timing_assessment\<close> reads the view of the onset of record from all views instead of from
  the evaluated ones: the two agree because the onset of record of a derived set is a member of it
  (the completeness theorem of the next theory), so the source's lookup cannot fail there.
\<close>

section \<open>Admissible onsets\<close>

definition BACKGROUND_ALERTS :: "string list" where
  "BACKGROUND_ALERTS = [''infoinhibitor'', ''kubeclientcertificateexpiration'', ''kubecontrollermanagerdown'', ''kubeschedulerdown'', ''prometheusnotconnectedtoalertmanagers'', ''watchdog'']"

definition lower_char :: "char \<Rightarrow> char" where
  "lower_char c = (if 65 \<le> (of_char c :: nat) \<and> (of_char c :: nat) \<le> 90
     then char_of ((of_char c :: nat) + 32) else c)"

definition is_background_alert :: "string \<Rightarrow> bool" where
  "is_background_alert n \<longleftrightarrow> map lower_char n \<in> set BACKGROUND_ALERTS"

record alert_episode =
  episode_fingerprint :: string
  episode_name :: string
  episode_starts :: instant
  firing_at_cutoff :: bool

record onset_candidate =
  candidate_onset :: instant
  is_h0 :: bool
  is_upper :: bool
  episodes :: "alert_episode list"

record onset_uncertainty =
  uncertainty_reason :: string
  cutoff :: "instant option"
  observation_start :: "instant option"
  h0 :: "instant option"
  upper :: "instant option"
  onset_members :: "onset_candidate list"

definition assessable :: "onset_uncertainty \<Rightarrow> bool" where
  "assessable u \<longleftrightarrow> onset_members u \<noteq> []"

definition unassessable :: "string \<Rightarrow> instant option \<Rightarrow> instant option \<Rightarrow> onset_uncertainty" where
  "unassessable reason w c =
     \<lparr>uncertainty_reason = reason, cutoff = c, observation_start = w, h0 = None, upper = None, onset_members = []\<rparr>"

definition qualified_episodes :: "instant \<Rightarrow> alert_episode list \<Rightarrow> alert_episode list" where
  "qualified_episodes w es = sort_key (\<lambda>e. (episode_starts e, episode_fingerprint e))
     (filter (\<lambda>e. \<not> is_background_alert (episode_name e) \<and> episode_starts e \<ge> w) es)"

definition derive_onset_uncertainty ::
  "alert_episode list option \<Rightarrow> instant option \<Rightarrow> instant option \<Rightarrow> onset_uncertainty" where
  "derive_onset_uncertainty es w c =
     (case es of
        None \<Rightarrow> unassessable ''NO_ALERT_CAPTURE_HISTORY'' w c
      | Some es \<Rightarrow>
          (case w of
             None \<Rightarrow> unassessable ''ALERT_COVERAGE_UNKNOWN'' w c
           | Some t \<Rightarrow>
               (case qualified_episodes t es of
                  [] \<Rightarrow> unassessable ''NO_NEW_EPISODE'' w c
                | q # qs \<Rightarrow>
                    let all = q # qs; lo = episode_starts q;
                        hi = (case py_min (map episode_starts (filter firing_at_cutoff all)) of
                                Some f \<Rightarrow> f | None \<Rightarrow> episode_starts (last all));
                        starts = sorted_set (map episode_starts
                          (filter (\<lambda>e. lo \<le> episode_starts e \<and> episode_starts e \<le> hi) all))
                    in \<lparr>uncertainty_reason = ''ASSESSABLE'', cutoff = c, observation_start = w,
                        h0 = Some lo, upper = Some hi,
                        onset_members = map (\<lambda>s. \<lparr>candidate_onset = s, is_h0 = (s = lo), is_upper = (s = hi),
                          episodes = filter (\<lambda>e. episode_starts e = s) all\<rparr>) starts\<rparr>)))"

section \<open>Claims under one onset\<close>

datatype timing_stability = STABLE | SENSITIVE | UNASSESSED

record claim_view =
  view_actor :: string
  view_mechanism :: string
  view_evidence :: "string set"
  relations :: "(string \<times> string) list"
  standing :: string

record onset_view =
  diagnosis_status :: string
  view_claims :: "(string \<times> claim_view) list"

definition D1_RULE_ID :: string where
  "D1_RULE_ID = ''m21.support.change-onset-path''"

definition EXECUTION_RULE_IDS :: "string list" where
  "EXECUTION_RULE_IDS =
     [''m21.support.observed-quota-rejection'', ''m21.support.observed-fault-execution'',
      ''m21.support.observed-rollout-execution'', ''m21.support.observed-failed-rollout'']"

definition TEMPORAL_CODE :: string where
  "TEMPORAL_CODE = ''EXPLICIT_TEMPORAL_CONTRADICTION''"

definition ENDED_CODE :: string where
  "ENDED_CODE = ''MANIFESTATION_EPISODE_ENDED_BEFORE_ONSET''"

definition ended_rule_unassessable :: "resolution_audit option \<Rightarrow> bool" where
  "ended_rule_unassessable a =
     (case a of
        None \<Rightarrow> False
      | Some a \<Rightarrow> list_ex (\<lambda>i. audit_rule i = RULE_ID
           \<and> (audit_reason i \<noteq> None
              \<or> (case audit_result i of None \<Rightarrow> False | Some r \<Rightarrow> result_status r \<noteq> PASS)))
           (precondition_audit a))"

definition find_audit :: "resolution_trace \<Rightarrow> string \<Rightarrow> resolution_audit option" where
  "find_audit tr i = List.find (\<lambda>a. audit_hypothesis a = i) (rev (hypothesis_audits tr))"

definition codes_of :: "resolution_trace \<Rightarrow> string \<Rightarrow> string list" where
  "codes_of tr i = map (code_value \<circ> elimination_code) (filter (\<lambda>e. eliminated_id e = i) (eliminations tr))"

text \<open>A later record of one rule overwrites an earlier one, as in the dict comprehension.\<close>

definition support_of :: "resolution_audit option \<Rightarrow> (string \<times> string) list" where
  "support_of a = (case a of None \<Rightarrow> [] | Some a \<Rightarrow>
     map (\<lambda>r. (support_rule r, status_text (support_status r))) (rev (root_support a)))"

definition claim_relations :: "resolution_trace \<Rightarrow> hypothesis \<Rightarrow> (string \<times> string) list" where
  "claim_relations tr h =
     (let a = find_audit tr (hypothesis_id h); sup = support_of a; own = codes_of tr (hypothesis_id h) in
      [(''d1'', case map_of sup D1_RULE_ID of None \<Rightarrow> ''ABSENT'' | Some s \<Rightarrow> s),
       (''execution'', case List.find (\<lambda>r. map_of sup r \<noteq> None) EXECUTION_RULE_IDS of
           None \<Rightarrow> ''ABSENT'' | Some r \<Rightarrow> the (map_of sup r)),
       (''onset_relation'', case a of None \<Rightarrow> [] | Some a \<Rightarrow> joined '','' (onset_relation a)),
       (''temporal_contradiction'', if TEMPORAL_CODE \<in> set own then ''ELIMINATED'' else ''NONE''),
       (''ended_episode'', if ENDED_CODE \<in> set own then ''ELIMINATED''
           else if ended_rule_unassessable a then ''UNASSESSABLE'' else ''NONE'')])"

definition view_of_claim :: "resolution_trace \<Rightarrow> hypothesis \<Rightarrow> claim_view" where
  "view_of_claim tr h =
     \<lparr>view_actor = canonical (causal_actor h), view_mechanism = mechanism h,
      view_evidence = set (concat (map evidence_ids (findings h))),
      relations = claim_relations tr h,
      standing = (if hypothesis_id h \<in> set (plausible_hypotheses tr) then ''SUPPORTED''
                  else if hypothesis_id h \<in> set (unresolved_hypotheses tr) then ''UNRESOLVED'' else ''NONE'')\<rparr>"

definition claim_views :: "hypothesis list \<Rightarrow> resolution_trace \<Rightarrow> (string \<times> claim_view) list" where
  "claim_views hs tr =
     map (\<lambda>h. (hypothesis_key h, view_of_claim tr h))
       (filter (\<lambda>h. hypothesis_key h \<noteq> [] \<and> count_list (map hypothesis_key hs) (hypothesis_key h) \<le> 1) hs)"

section \<open>Stability over the admissible onsets\<close>

record relation_timing =
  timing_relation :: string
  stability :: timing_stability
  timing_values :: "string list"

record claim_timing =
  timing_key :: string
  timing_actor :: string
  formation :: timing_stability
  adjudication :: timing_stability
  timing_relations :: "relation_timing list"

record status_driver =
  driver_key :: string
  driver_actor :: string
  change :: string
  driver_reason :: string

record onset_outcome =
  outcome_onset :: instant
  outcome_status :: string
  drivers :: "status_driver list"

record timing_assessment =
  uncertainty :: onset_uncertainty
  timing_status :: timing_stability
  outcomes :: "onset_outcome list"
  timing_claims :: "claim_timing list"

definition relation_value :: "claim_view \<Rightarrow> string \<Rightarrow> string" where
  "relation_value c n = (case map_of (relations c) n of None \<Rightarrow> ''ABSENT'' | Some v \<Rightarrow> v)"

definition ruled :: "claim_view \<Rightarrow> claim_view \<Rightarrow> string \<Rightarrow> bool" where
  "ruled b a v \<longleftrightarrow> list_ex (\<lambda>r. map_of (relations b) r = Some ''ELIMINATED'' \<and> map_of (relations a) r = Some v)
     [''ended_episode'', ''temporal_contradiction'']"

definition view_standing :: "claim_view option \<Rightarrow> string" where
  "view_standing v = (case v of None \<Rightarrow> ''NONE'' | Some v \<Rightarrow> standing v)"

definition driver_of :: "onset_view \<Rightarrow> onset_view \<Rightarrow> string \<Rightarrow> status_driver option" where
  "driver_of base other key =
     (let before = map_of (view_claims base) key; after = map_of (view_claims other) key in
      if (view_standing before = ''NONE'') = (view_standing after = ''NONE'') then None
      else Some
        \<lparr>driver_key = key,
         driver_actor = (case or_else after before of None \<Rightarrow> [] | Some c \<Rightarrow> view_actor c),
         change = (if view_standing after \<noteq> ''NONE'' then ''GAINS_COMPETITION'' else ''LEAVES_COMPETITION''),
         driver_reason =
           (if view_standing after \<noteq> ''NONE''
            then (case (before, after) of
                    (None, _) \<Rightarrow> ''FORMS_ONLY_UNDER_THIS_ONSET''
                  | (Some b, Some a) \<Rightarrow>
                      if ruled b a ''UNASSESSABLE'' then ''BLOCKED_ENDED_EPISODE_RULE''
                      else if ruled b a ''NONE'' then ''ELIMINATION_NOT_HOLDING'' else ''OTHER''
                  | (Some b, None) \<Rightarrow> ''OTHER'')
            else if after = None then ''NO_LONGER_FORMED'' else ''ELIMINATED_OR_EXPLAINED_UNDER_THIS_ONSET'')\<rparr>)"

definition status_drivers :: "onset_view \<Rightarrow> onset_view \<Rightarrow> status_driver list" where
  "status_drivers base other =
     take 12 (List.map_filter (driver_of base other)
       (sorted_set (map fst (view_claims base) @ map fst (view_claims other))))"

definition time_relation :: "claim_view list \<Rightarrow> string \<Rightarrow> relation_timing" where
  "time_relation present n =
     (let vs = sorted_set (map (\<lambda>c. relation_value c n) present);
          assessed = filter (\<lambda>v. v \<noteq> ''UNASSESSABLE'') vs
      in \<lparr>timing_relation = n,
          stability = (if length assessed > 1 then SENSITIVE
                       else if assessed \<noteq> [] then STABLE else UNASSESSED),
          timing_values = vs\<rparr>)"

definition all_same :: "'a list \<Rightarrow> bool" where
  "all_same xs \<longleftrightarrow> length (remdups xs) = 1"

definition time_claim :: "onset_view list \<Rightarrow> string \<times> claim_view \<Rightarrow> claim_timing" where
  "time_claim evaluated kc =
     (case kc of (key, base) \<Rightarrow>
        let present = List.map_filter (\<lambda>v. map_of (view_claims v) key) evaluated;
            rels = map (time_relation present) (sorted_set (map fst (relations base)))
        in \<lparr>timing_key = key, timing_actor = view_actor base,
            formation = (if length present = length evaluated \<and> all_same (map view_evidence present)
                            \<and> all_same (map view_mechanism present)
                         then STABLE else SENSITIVE),
            adjudication = (if list_ex (\<lambda>r. stability r = SENSITIVE) rels then SENSITIVE else STABLE),
            timing_relations = rels\<rparr>)"

definition compute_timing_assessment ::
  "onset_uncertainty \<Rightarrow> (instant \<times> onset_view) list \<Rightarrow> timing_assessment" where
  "compute_timing_assessment u views =
     (let onsets = dedup (map candidate_onset (onset_members u));
          failed = \<lparr>uncertainty = u, timing_status = UNASSESSED, outcomes = [], timing_claims = []\<rparr>
      in case Option.bind (h0 u) (map_of views) of
           None \<Rightarrow> failed
         | Some base \<Rightarrow>
             if \<not> assessable u \<or> list_ex (\<lambda>t. map_of views t = None) onsets then failed
             else
               (let evaluated = map (\<lambda>t. the (map_of views t)) onsets in
                \<lparr>uncertainty = u,
                 timing_status = (if all_same (map diagnosis_status evaluated) then STABLE else SENSITIVE),
                 outcomes = map (\<lambda>t. let v = the (map_of views t) in
                   \<lparr>outcome_onset = t, outcome_status = diagnosis_status v,
                    drivers = (if diagnosis_status v \<noteq> diagnosis_status base then status_drivers base v else [])\<rparr>)
                   (sort onsets),
                 timing_claims = map (\<lambda>k. time_claim evaluated (k, the (map_of (view_claims base) k)))
                   (sorted_set (map fst (view_claims base)))\<rparr>))"

section \<open>Withheld authority\<close>

record withheld_authority =
  withheld_key :: string
  withheld_actor :: string
  authority :: string
  withheld_relations :: "string list"

record timing_masks =
  temporal_mask :: "string list"
  ended_mask :: "string list"
  strong_mask :: "string list"
  withheld :: "withheld_authority list"

definition timing_claim :: "timing_assessment \<Rightarrow> string \<Rightarrow> claim_timing option" where
  "timing_claim t k = List.find (\<lambda>c. timing_key c = k) (timing_claims t)"

definition claim_relation :: "claim_timing \<Rightarrow> string \<Rightarrow> timing_stability" where
  "claim_relation c n =
     (case List.find (\<lambda>r. timing_relation r = n) (timing_relations c) of
        None \<Rightarrow> UNASSESSED | Some r \<Rightarrow> stability r)"

text \<open>The elimination of one code is withheld when its relation is sensitive.\<close>

definition elimination_withheld ::
  "timing_assessment \<Rightarrow> resolution_trace \<Rightarrow> string \<Rightarrow> string \<Rightarrow> hypothesis \<Rightarrow> bool" where
  "elimination_withheld t tr code rel h \<longleftrightarrow>
     (case timing_claim t (hypothesis_key h) of
        None \<Rightarrow> False
      | Some c \<Rightarrow> code \<in> set (codes_of tr (hypothesis_id h)) \<and> claim_relation c rel = SENSITIVE)"

definition unstable_parts :: "timing_assessment \<Rightarrow> hypothesis \<Rightarrow> string list" where
  "unstable_parts t h =
     (let c = timing_claim t (hypothesis_key h);
          bad = (\<lambda>s. case c of None \<Rightarrow> True | Some c \<Rightarrow> s c \<noteq> STABLE)
      in (if bad formation then [''formation''] else [])
         @ filter (\<lambda>r. bad (\<lambda>c. claim_relation c r)) [''d1'', ''execution''])"

definition strong_withheld :: "timing_assessment \<Rightarrow> resolution_trace \<Rightarrow> hypothesis \<Rightarrow> bool" where
  "strong_withheld t tr h \<longleftrightarrow> hypothesis_id h \<in> set (mechanism_verified_hypotheses tr) \<and> unstable_parts t h \<noteq> []"

definition withheld_of :: "timing_assessment \<Rightarrow> resolution_trace \<Rightarrow> hypothesis \<Rightarrow> withheld_authority list" where
  "withheld_of t tr h =
     (let w = (\<lambda>au rels. \<lparr>withheld_key = hypothesis_key h, withheld_actor = canonical (causal_actor h),
                 authority = au, withheld_relations = rels\<rparr>) in
      (if elimination_withheld t tr TEMPORAL_CODE ''temporal_contradiction'' h
       then [w ''TEMPORAL_ELIMINATION'' [''temporal_contradiction'']] else [])
      @ (if elimination_withheld t tr ENDED_CODE ''ended_episode'' h
         then [w ''ENDED_EPISODE_ELIMINATION'' [''ended_episode'']] else [])
      @ (if strong_withheld t tr h then [w ''STRONG_MECHANISM'' (unstable_parts t h)] else []))"

definition derive_timing_masks ::
  "hypothesis list \<Rightarrow> resolution_trace \<Rightarrow> timing_assessment \<Rightarrow> timing_masks" where
  "derive_timing_masks hs tr t =
     (if timing_claims t = [] then \<lparr>temporal_mask = [], ended_mask = [], strong_mask = [], withheld = []\<rparr>
      else
        \<lparr>temporal_mask = map hypothesis_id
           (filter (elimination_withheld t tr TEMPORAL_CODE ''temporal_contradiction'') hs),
         ended_mask = map hypothesis_id (filter (elimination_withheld t tr ENDED_CODE ''ended_episode'') hs),
         strong_mask = map hypothesis_id (filter (strong_withheld t tr) hs),
         withheld = sort_key (\<lambda>w. (withheld_key w, authority w)) (concat (map (withheld_of t tr) hs))\<rparr>)"

end
