(* ===== verification/Causal_Roles.thy ===== *)
theory Causal_Roles
  imports Episode_End
begin

text \<open>
  Actor-scoped causal roles (\<open>packages/rca/causal_roles.py\<close>) and root-cause eligibility
  (\<open>packages/rca/root_cause_eligibility.py\<close>). A propagation edge is what the modelled code reads of
  \<open>RuntimePropagationEdge\<close>; the rationale texts of the assessments are left out.
\<close>

section \<open>Propagation edges\<close>

datatype verification = VERIFIED | UNRESOLVED | CONTRADICTED

record binding =
  binding_namespace :: string
  deployment :: "string option"
  binding_pod :: "string option"
  binding_pod_uid :: "string option"

record edge =
  source_service :: string
  affected_service :: string
  source_binding :: "binding option"
  affected_binding :: "binding option"
  source_deployment_verification :: "verification option"
  source_pod_verification :: "verification option"
  affected_deployment_verification :: "verification option"
  affected_pod_verification :: "verification option"
  first_seen :: instant
  last_seen :: instant
  observed_pairs :: int
  edge_evidence :: "string list"

definition edge_valid :: "edge \<Rightarrow> bool" where
  "edge_valid e \<longleftrightarrow> source_service e \<noteq> affected_service e \<and> first_seen e \<le> last_seen e
     \<and> observed_pairs e > 0 \<and> length (edge_evidence e) \<le> 32"

definition runtime_binding_entities :: "binding option \<Rightarrow> entity_ref list" where
  "runtime_binding_entities b =
     (case b of
        None \<Rightarrow> []
      | Some b \<Rightarrow> sort_key canonical
          ((case deployment b of None \<Rightarrow> []
             | Some d \<Rightarrow> [\<lparr>kind = ''Deployment'', name = d, namespace = binding_namespace b\<rparr>])
           @ (case binding_pod b of None \<Rightarrow> []
             | Some p \<Rightarrow> [\<lparr>kind = ''Pod'', name = p, namespace = binding_namespace b\<rparr>])))"

section \<open>Evidence of a role\<close>

datatype causal_role = SOURCE_CAPABLE | PROPAGATED_EFFECT | MANIFESTATION | UNKNOWN_ROLE

datatype role_basis =
    ACTOR_ALIGNED_INITIATING_EVIDENCE | VERIFIED_INCOMING_PROPAGATION | VERIFIED_OUTGOING_PROPAGATION
  | UNRESOLVED_INCOMING_PROPAGATION | CONTRADICTED_INCOMING_PROPAGATION | ACTOR_MANIFESTATION_ONLY
  | MANIFESTATION_TIME_OVERLAP | MIXED_SOURCE_AND_PROPAGATED_EVIDENCE | NO_POSITIVE_ROLE_EVIDENCE

definition ROLE_MANIFESTATION_KINDS :: "finding_kind list" where
  "ROLE_MANIFESTATION_KINDS = [CONTAINER_FAILURE, RESOURCE_PRESSURE, DEPENDENCY_ERRORS, FAILURE_EVENT]"

definition MAX_PROVENANCE :: nat where
  "MAX_PROVENANCE = 32"

text \<open>\<open>datetime.min\<close> in UTC\<close>

definition MIN_TIMESTAMP :: instant where
  "MIN_TIMESTAMP = -62135596800000000"

definition actor_aligned_initiating_findings :: "hypothesis \<Rightarrow> finding list" where
  "actor_aligned_initiating_findings h =
     filter (\<lambda>f. finding_kind f \<in> set SOURCE_CAPABLE_INITIATING_KINDS \<and> temporal_role f = INITIATING)
       (actor_findings h)"

definition actor_manifestation_findings :: "hypothesis \<Rightarrow> finding list" where
  "actor_manifestation_findings h = filter (\<lambda>f. finding_kind f \<in> set ROLE_MANIFESTATION_KINDS) (actor_findings h)"

definition actor_is_manifestation_only :: "hypothesis \<Rightarrow> bool" where
  "actor_is_manifestation_only h \<longleftrightarrow> actor_findings h \<noteq> []
     \<and> list_all (\<lambda>f. finding_kind f \<in> set ROLE_MANIFESTATION_KINDS) (actor_findings h)
     \<and> actor_aligned_initiating_findings h = []"

definition propagation_overlaps_actor_manifestation :: "hypothesis \<Rightarrow> edge \<Rightarrow> bool" where
  "propagation_overlaps_actor_manifestation h e \<longleftrightarrow>
     list_ex (\<lambda>f. case at f of None \<Rightarrow> False | Some t \<Rightarrow> first_seen e \<le> t \<and> t \<le> last_seen e)
       (actor_manifestation_findings h)"

text \<open>\<open>_bounded_ids\<close>: every id once, by its smallest order, at most 32 of them.\<close>

fun smallest_orders :: "('k::linorder \<times> string) list \<Rightarrow> (string \<times> 'k) list \<Rightarrow> (string \<times> 'k) list" where
  "smallest_orders [] d = d"
| "smallest_orders ((k, i) # cs) d =
     smallest_orders cs
       (if (case map_of d i of None \<Rightarrow> True | Some k' \<Rightarrow> k < k') then AList.update i k d else d)"

definition bounded_ids :: "('k::linorder \<times> string) list \<Rightarrow> string list" where
  "bounded_ids cs =
     take MAX_PROVENANCE (map snd (sort (map (\<lambda>(i, k). (k, i)) (smallest_orders cs []))))"

definition edge_provenance :: "edge list \<Rightarrow> string list" where
  "edge_provenance es =
     bounded_ids (concat (map (\<lambda>e. map (\<lambda>i. ((first_seen e, source_service e, affected_service e, i), i))
       (edge_evidence e)) es))"

definition finding_time :: "finding \<Rightarrow> instant" where
  "finding_time f = (case at f of None \<Rightarrow> MIN_TIMESTAMP | Some t \<Rightarrow> t)"

definition initiating_provenance :: "finding list \<Rightarrow> string list" where
  "initiating_provenance fs =
     bounded_ids (concat (map (\<lambda>f. map (\<lambda>i. ((finding_time f, kind_value (finding_kind f), canonical (entity f), i), i))
       (evidence_ids f)) fs))"

definition actor_instance_uid :: "hypothesis \<Rightarrow> string option" where
  "actor_instance_uid h =
     (case remdups (map uid (List.map_filter entity_instance (actor_findings h))) of
        [u] \<Rightarrow> Some u
      | _ \<Rightarrow> None)"

definition or_unresolved :: "verification option \<Rightarrow> verification" where
  "or_unresolved v = (case v of None \<Rightarrow> UNRESOLVED | Some v \<Rightarrow> v)"

definition endpoint_state ::
  "entity_ref \<Rightarrow> string option \<Rightarrow> binding option \<Rightarrow> verification option \<Rightarrow> verification option
   \<Rightarrow> verification option" where
  "endpoint_state actor actor_uid b dep pd =
     (case b of
        None \<Rightarrow> None
      | Some b \<Rightarrow>
          if binding_namespace b \<noteq> namespace actor then None
          else if kind actor = ''Deployment'' \<and> deployment b = Some (name actor) then Some (or_unresolved dep)
          else if kind actor = ''Pod'' \<and> binding_pod b = Some (name actor)
          then (if pd = Some CONTRADICTED then pd
                else if actor_uid = None \<or> binding_pod_uid b \<noteq> actor_uid then Some UNRESOLVED
                else Some (or_unresolved pd))
          else None)"

definition affected_state :: "hypothesis \<Rightarrow> edge \<Rightarrow> verification option" where
  "affected_state h e = endpoint_state (causal_actor h) (actor_instance_uid h) (affected_binding e)
     (affected_deployment_verification e) (affected_pod_verification e)"

definition source_state :: "hypothesis \<Rightarrow> edge \<Rightarrow> verification option" where
  "source_state h e = endpoint_state (causal_actor h) (actor_instance_uid h) (source_binding e)
     (source_deployment_verification e) (source_pod_verification e)"

definition incoming :: "hypothesis \<Rightarrow> edge list \<Rightarrow> verification \<Rightarrow> edge list" where
  "incoming h es v = filter (\<lambda>e. affected_state h e = Some v) es"

definition outgoing :: "hypothesis \<Rightarrow> edge list \<Rightarrow> verification \<Rightarrow> edge list" where
  "outgoing h es v = filter (\<lambda>e. source_state h e = Some v) es"

section \<open>The assessment of a role\<close>

record role_assessment =
  role_hypothesis :: string
  role_actor :: entity_ref
  role :: causal_role
  actor_finding_kinds :: "string list"
  manifestation_only :: bool
  time_overlap :: bool
  initiating_count :: nat
  verified_incoming_edges :: nat
  verified_incoming_pairs :: int
  verified_outgoing_edges :: nat
  verified_outgoing_pairs :: int
  unresolved_incoming_edges :: nat
  contradicted_incoming_edges :: nat
  incoming_from_services :: "string list"
  propagates_to_services :: "string list"
  role_initiating_evidence :: "string list"
  incoming_evidence :: "string list"
  outgoing_evidence :: "string list"
  role_basis :: "role_basis list"
  mixed_role_evidence :: bool

definition role_overlap :: "hypothesis \<Rightarrow> edge list \<Rightarrow> bool" where
  "role_overlap h es \<longleftrightarrow> actor_is_manifestation_only h
     \<and> list_ex (propagation_overlaps_actor_manifestation h) (incoming h es VERIFIED)"

definition role_mixed :: "hypothesis \<Rightarrow> edge list \<Rightarrow> bool" where
  "role_mixed h es \<longleftrightarrow> actor_aligned_initiating_findings h \<noteq> [] \<and> incoming h es VERIFIED \<noteq> []"

definition role_of :: "hypothesis \<Rightarrow> edge list \<Rightarrow> causal_role" where
  "role_of h es =
     (if role_mixed h es then UNKNOWN_ROLE
      else if incoming h es VERIFIED \<noteq> [] \<and> actor_is_manifestation_only h \<and> role_overlap h es
      then MANIFESTATION
      else if incoming h es VERIFIED \<noteq> [] then PROPAGATED_EFFECT
      else if actor_aligned_initiating_findings h \<noteq> [] then SOURCE_CAPABLE
      else UNKNOWN_ROLE)"

definition basis_of :: "hypothesis \<Rightarrow> edge list \<Rightarrow> role_basis list" where
  "basis_of h es =
     (let bs = map snd (filter fst
        [(actor_aligned_initiating_findings h \<noteq> [], ACTOR_ALIGNED_INITIATING_EVIDENCE),
         (incoming h es VERIFIED \<noteq> [], VERIFIED_INCOMING_PROPAGATION),
         (outgoing h es VERIFIED \<noteq> [], VERIFIED_OUTGOING_PROPAGATION),
         (incoming h es UNRESOLVED \<noteq> [], UNRESOLVED_INCOMING_PROPAGATION),
         (incoming h es CONTRADICTED \<noteq> [], CONTRADICTED_INCOMING_PROPAGATION),
         (actor_is_manifestation_only h, ACTOR_MANIFESTATION_ONLY),
         (role_overlap h es, MANIFESTATION_TIME_OVERLAP),
         (role_mixed h es, MIXED_SOURCE_AND_PROPAGATED_EVIDENCE)])
      in if bs = [] then [NO_POSITIVE_ROLE_EVIDENCE] else bs)"

definition role_assessment :: "edge list \<Rightarrow> hypothesis \<Rightarrow> role_assessment" where
  "role_assessment es h =
     \<lparr>role_hypothesis = hypothesis_id h, role_actor = causal_actor h, role = role_of h es,
      actor_finding_kinds = sorted_set (map (\<lambda>f. kind_value (finding_kind f)) (actor_findings h)),
      manifestation_only = actor_is_manifestation_only h, time_overlap = role_overlap h es,
      initiating_count = length (actor_aligned_initiating_findings h),
      verified_incoming_edges = length (incoming h es VERIFIED),
      verified_incoming_pairs = sum_list (map observed_pairs (incoming h es VERIFIED)),
      verified_outgoing_edges = length (outgoing h es VERIFIED),
      verified_outgoing_pairs = sum_list (map observed_pairs (outgoing h es VERIFIED)),
      unresolved_incoming_edges = length (incoming h es UNRESOLVED),
      contradicted_incoming_edges = length (incoming h es CONTRADICTED),
      incoming_from_services = sorted_set (map source_service (incoming h es VERIFIED)),
      propagates_to_services = sorted_set (map affected_service (outgoing h es VERIFIED)),
      role_initiating_evidence = initiating_provenance (actor_aligned_initiating_findings h),
      incoming_evidence = edge_provenance (incoming h es VERIFIED),
      outgoing_evidence = edge_provenance (outgoing h es VERIFIED),
      role_basis = basis_of h es, mixed_role_evidence = role_mixed h es\<rparr>"

definition derive_hypothesis_causal_roles :: "hypothesis list \<Rightarrow> edge list \<Rightarrow> role_assessment list" where
  "derive_hypothesis_causal_roles hs es = sort_key role_hypothesis (map (role_assessment es) hs)"

text \<open>The counters of \<open>HypothesisCausalRoleStats\<close>.\<close>

record role_stats =
  stat_hypotheses :: nat
  stat_roles :: "causal_role \<Rightarrow> nat"
  stat_mixed :: nat
  stat_manifestation_only :: nat
  stat_overlap :: nat
  stat_incoming_edges :: nat
  stat_incoming_pairs :: int
  stat_outgoing_edges :: nat
  stat_outgoing_pairs :: int
  stat_unresolved :: nat
  stat_contradicted :: nat

definition count_role :: "role_assessment \<Rightarrow> role_stats \<Rightarrow> role_stats" where
  "count_role a s =
     s\<lparr>stat_roles := (stat_roles s)(role a := stat_roles s (role a) + 1),
       stat_mixed := stat_mixed s + of_bool (mixed_role_evidence a),
       stat_manifestation_only := stat_manifestation_only s + of_bool (manifestation_only a),
       stat_overlap := stat_overlap s + of_bool (time_overlap a),
       stat_incoming_edges := stat_incoming_edges s + verified_incoming_edges a,
       stat_incoming_pairs := stat_incoming_pairs s + verified_incoming_pairs a,
       stat_outgoing_edges := stat_outgoing_edges s + verified_outgoing_edges a,
       stat_outgoing_pairs := stat_outgoing_pairs s + verified_outgoing_pairs a,
       stat_unresolved := stat_unresolved s + unresolved_incoming_edges a,
       stat_contradicted := stat_contradicted s + contradicted_incoming_edges a\<rparr>"

definition causal_role_stats :: "hypothesis list \<Rightarrow> edge list \<Rightarrow> role_stats" where
  "causal_role_stats hs es =
     fold count_role (map (role_assessment es) hs)
       \<lparr>stat_hypotheses = length hs, stat_roles = (\<lambda>_. 0), stat_mixed = 0, stat_manifestation_only = 0,
        stat_overlap = 0, stat_incoming_edges = 0, stat_incoming_pairs = 0, stat_outgoing_edges = 0,
        stat_outgoing_pairs = 0, stat_unresolved = 0, stat_contradicted = 0\<rparr>"

definition role_for_hypothesis :: "role_assessment list \<Rightarrow> string \<Rightarrow> role_assessment option" where
  "role_for_hypothesis rs i = List.find (\<lambda>a. role_hypothesis a = i) rs"

section \<open>Eligibility\<close>

datatype eligibility_state = ELIGIBLE | INELIGIBLE_PROPAGATED_EFFECT | UNDETERMINED

datatype eligibility_basis =
    SOURCE_CAPABLE_CAUSAL_ROLE | PROPAGATED_EFFECT_CAUSAL_ROLE | MANIFESTATION_CAUSAL_ROLE
  | VERIFIED_INCOMING | EPISODE_SOURCE_CAPABLE_INITIATING_EVIDENCE
  | NO_EPISODE_SOURCE_CAPABLE_INITIATING_EVIDENCE | MIXED_OR_UNKNOWN_CAUSAL_ROLE

record root_eligibility =
  elig_hypothesis :: string
  elig_actor :: entity_ref
  elig_role :: causal_role
  elig_state :: eligibility_state
  elig_initiating :: nat
  elig_incoming_edges :: nat
  elig_incoming_pairs :: int
  elig_initiating_evidence :: "string list"
  elig_propagation_evidence :: "string list"
  elig_basis :: "eligibility_basis list"

definition initiating_ids :: "finding list \<Rightarrow> string list" where
  "initiating_ids fs =
     bounded_ids (concat (map (\<lambda>f. map (\<lambda>i. ((finding_time f, canonical (entity f), kind_value (finding_kind f), i), i))
       (evidence_ids f)) fs))"

definition eligibility_of ::
  "hypothesis \<Rightarrow> role_assessment \<Rightarrow> eligibility_state \<Rightarrow> eligibility_basis list \<Rightarrow> root_eligibility" where
  "eligibility_of h a st basis =
     (let initiating = episode_source_capable_initiating_findings h in
      \<lparr>elig_hypothesis = hypothesis_id h, elig_actor = causal_actor h, elig_role = role a, elig_state = st,
       elig_initiating = length initiating, elig_incoming_edges = verified_incoming_edges a,
       elig_incoming_pairs = verified_incoming_pairs a, elig_initiating_evidence = initiating_ids initiating,
       elig_propagation_evidence = incoming_evidence a, elig_basis = basis\<rparr>)"

definition assess_root_cause_eligibility :: "hypothesis \<Rightarrow> role_assessment \<Rightarrow> root_eligibility result" where
  "assess_root_cause_eligibility h a =
     (let own = episode_source_capable_initiating_findings h \<noteq> [];
          own_basis = (if own then [EPISODE_SOURCE_CAPABLE_INITIATING_EVIDENCE] else [])
      in if role_hypothesis a \<noteq> hypothesis_id h \<or> role_actor a \<noteq> causal_actor h
      then Inl (ValueError ''causal role assessment does not match hypothesis'')
      else if mixed_role_evidence a
      then Inr (eligibility_of h a UNDETERMINED (MIXED_OR_UNKNOWN_CAUSAL_ROLE # own_basis))
      else case role a of
        SOURCE_CAPABLE \<Rightarrow>
          if initiating_count a = 0
          then Inl (ValueError ''SOURCE_CAPABLE role lacks actor initiating evidence'')
          else Inr (eligibility_of h a ELIGIBLE
                 [SOURCE_CAPABLE_CAUSAL_ROLE, EPISODE_SOURCE_CAPABLE_INITIATING_EVIDENCE])
      | UNKNOWN_ROLE \<Rightarrow> Inr (eligibility_of h a UNDETERMINED (MIXED_OR_UNKNOWN_CAUSAL_ROLE # own_basis))
      | r \<Rightarrow>
          if verified_incoming_edges a = 0 \<or> verified_incoming_pairs a \<le> 0
          then Inl (ValueError ''propagated role lacks verified incoming propagation'')
          else
            (let basis = [if r = PROPAGATED_EFFECT then PROPAGATED_EFFECT_CAUSAL_ROLE
                          else MANIFESTATION_CAUSAL_ROLE, VERIFIED_INCOMING]
             in if \<not> own
                then Inr (eligibility_of h a INELIGIBLE_PROPAGATED_EFFECT
                       (basis @ [NO_EPISODE_SOURCE_CAPABLE_INITIATING_EVIDENCE]))
                else Inr (eligibility_of h a UNDETERMINED
                       (basis @ [EPISODE_SOURCE_CAPABLE_INITIATING_EVIDENCE]))))"

text \<open>A hypothesis without a role assessment stays undetermined.\<close>

definition unassessed_eligibility :: "hypothesis \<Rightarrow> root_eligibility" where
  "unassessed_eligibility h =
     \<lparr>elig_hypothesis = hypothesis_id h, elig_actor = causal_actor h, elig_role = UNKNOWN_ROLE,
      elig_state = UNDETERMINED, elig_initiating = length (episode_source_capable_initiating_findings h),
      elig_incoming_edges = 0, elig_incoming_pairs = 0,
      elig_initiating_evidence = initiating_ids (episode_source_capable_initiating_findings h),
      elig_propagation_evidence = [], elig_basis = [MIXED_OR_UNKNOWN_CAUSAL_ROLE]\<rparr>"

fun assess_all :: "role_assessment list \<Rightarrow> hypothesis list \<Rightarrow> root_eligibility list result" where
  "assess_all rs [] = Inr []"
| "assess_all rs (h # hs) =
     and_then (case role_for_hypothesis rs (hypothesis_id h) of
                 None \<Rightarrow> Inr (unassessed_eligibility h)
               | Some a \<Rightarrow> assess_root_cause_eligibility h a) (\<lambda>e.
     and_then (assess_all rs hs) (\<lambda>es. Inr (e # es)))"

record root_eligibilities =
  elig_assessments :: "root_eligibility list"
  elig_ended :: "(string \<times> ended_episode) list"

definition derive_root_cause_eligibilities ::
  "hypothesis list \<Rightarrow> role_assessment list \<Rightarrow> root_eligibilities result" where
  "derive_root_cause_eligibilities hs rs =
     (if \<not> distinct (map role_hypothesis rs) then Inl (ValueError ''duplicate causal role assessment'')
      else and_then (assess_all rs hs) (\<lambda>es.
        Inr \<lparr>elig_assessments = sort_key elig_hypothesis es, elig_ended = []\<rparr>))"

definition with_ended_episodes ::
  "(string \<times> ended_episode) list \<Rightarrow> root_eligibilities \<Rightarrow> root_eligibilities" where
  "with_ended_episodes ended e =
     \<lparr>elig_assessments = sort_key elig_hypothesis (elig_assessments e),
      elig_ended = AList.merge (elig_ended e) ended\<rparr>"

definition eligibility_for :: "root_eligibilities \<Rightarrow> string \<Rightarrow> root_eligibility option" where
  "eligibility_for e i = List.find (\<lambda>x. elig_hypothesis x = i) (elig_assessments e)"

definition ended_for :: "root_eligibilities \<Rightarrow> string \<Rightarrow> ended_episode option" where
  "ended_for e i = map_of (elig_ended e) i"

definition is_root_cause_selectable :: "root_eligibilities \<Rightarrow> string \<Rightarrow> bool" where
  "is_root_cause_selectable e i \<longleftrightarrow>
     (if ended_for e i \<noteq> None then False
      else (case eligibility_for e i of
              None \<Rightarrow> True
            | Some x \<Rightarrow> elig_state x \<noteq> INELIGIBLE_PROPAGATED_EFFECT))"

end
