(* ===== verification/Causal_Closure.thy ===== *)
theory Causal_Closure
  imports Service_Effect Timing_Stability Causal_Roles
begin

text \<open>
  Observed executions and explanations (\<open>packages/rca/causal_closure.py\<close>): the rules by which a quota
  rejection, a fault experiment or a rollout is witnessed to have executed and to show at a declared
  symptom, the explanations by which one claim accounts for another, and the frontier questions an
  observed role answers. Object history and the claims of an execution are ordered dictionaries,
  as association lists. The spawn evidence of a finding is a list of strings, an execution target
  is named by a string, and a schedule UID is a string, as the extraction of findings writes them;
  the settings of a fault action, kept for audit only, are left out.
\<close>

section \<open>Events\<close>

record cluster_event =
  event_entity :: entity_ref
  involved_uid :: "string option"
  event_reason :: string
  event_kind :: string
  event_message :: string
  first_at :: "instant option"
  last_at :: "instant option"
  event_evidence :: string

text \<open>The search for \<open>exceeded quota:?\s*([a-z0-9.-]+)?\<close>, case-insensitive: the group, when there is a match.\<close>

definition quota_char :: "char \<Rightarrow> bool" where
  "quota_char c \<longleftrightarrow> is_digit c \<or> c = CHR ''.'' \<or> c = CHR ''-''
     \<or> (97 \<le> (of_char (lower_char c) :: nat) \<and> (of_char (lower_char c) :: nat) \<le> 122)"

definition quota_name :: "string \<Rightarrow> string option" where
  "quota_name r =
     (let r1 = (case r of [] \<Rightarrow> [] | c # t \<Rightarrow> if c = CHR '':'' then t else r);
          n = takeWhile quota_char (dropWhile is_space r1)
      in if n = [] then None else Some n)"

fun quota_message :: "string \<Rightarrow> string option option" where
  "quota_message [] = None"
| "quota_message (c # s) =
     (if map lower_char (take 14 (c # s)) = ''exceeded quota'' then Some (quota_name (drop 14 (c # s)))
      else quota_message s)"

definition event_time :: "cluster_event \<Rightarrow> instant option" where
  "event_time e = or_else (first_at e) (last_at e)"

text \<open>A rejection of a creation that names the quota of the actor.\<close>

definition names_quota :: "entity_ref \<Rightarrow> cluster_event \<Rightarrow> bool" where
  "names_quota actor e \<longleftrightarrow> event_kind e = ''Warning'' \<and> event_reason e = ''FailedCreate''
     \<and> quota_message (event_message e) = Some (Some (name actor))
     \<and> namespace (event_entity e) = namespace actor"

section \<open>Rules and their records\<close>

definition EXECUTION_RULE :: string where "EXECUTION_RULE = ''m21.support.observed-quota-rejection''"
definition EXPLANATION_RULE :: string where "EXPLANATION_RULE = ''m21.explanation.observed-quota-rejection''"
definition SPAWN_EXPLANATION_RULE :: string where "SPAWN_EXPLANATION_RULE = ''m21.explanation.controller-spawn''"
definition SHARED_EVIDENCE_RULE :: string where "SHARED_EVIDENCE_RULE = ''m21.explanation.shared-evidence''"
definition RUNTIME_RETURN_RULE :: string where "RUNTIME_RETURN_RULE = ''m21.explanation.runtime-return''"
definition FAULT_EXECUTION_RULE :: string where "FAULT_EXECUTION_RULE = ''m21.support.observed-fault-execution''"
definition ROLLOUT_EXECUTION_RULE :: string where "ROLLOUT_EXECUTION_RULE = ''m21.support.observed-rollout-execution''"
definition FAILED_ROLLOUT_RULE :: string where "FAILED_ROLLOUT_RULE = ''m21.support.observed-failed-rollout''"

definition FAILED_POD_REASONS :: "string list" where
  "FAILED_POD_REASONS = [''BackOff'', ''Failed'', ''ErrImagePull'', ''ImagePullBackOff'']"

definition OLD_REVISION_REMOVAL :: duration where
  "OLD_REVISION_REMOVAL = 5 * minute"

definition ROLLOUT_ORIGIN_KINDS :: "finding_kind list" where
  "ROLLOUT_ORIGIN_KINDS = [SPEC_CHANGE, IMAGE_CHANGE, ROLLOUT_RESTART]"

definition ROLLOUT_REPLICASET_WINDOW :: duration where
  "ROLLOUT_REPLICASET_WINDOW = 10 * second"

definition EXECUTION_END_GRACE :: duration where
  "EXECUTION_END_GRACE = 5 * minute"

definition EVENT_RESOLUTION :: duration where
  "EVENT_RESOLUTION = second"

definition EFFECT_KINDS :: "finding_kind list" where
  "EFFECT_KINDS = [CONTAINER_FAILURE, RESOURCE_PRESSURE, DEPENDENCY_ERRORS, FAILURE_EVENT]"

definition is_chaos_kind :: "string \<Rightarrow> bool" where
  "is_chaos_kind k \<longleftrightarrow> starts_with (rev ''Chaos'') (rev k) \<or> k = ''Schedule'' \<or> k = ''Workflow''"

text \<open>An execution is of the incident when it began by the onset and did not end long before it.\<close>

definition connects :: "instant \<Rightarrow> instant \<Rightarrow> instant \<Rightarrow> bool" where
  "connects onset s e \<longleftrightarrow> s \<le> onset + EVENT_RESOLUTION \<and> e \<ge> onset - EXECUTION_END_GRACE"

definition execution_witness ::
  "hypothesis \<Rightarrow> finding \<Rightarrow> string \<Rightarrow> string \<Rightarrow> entity_ref \<Rightarrow> causal_hop list \<Rightarrow> instant \<Rightarrow> string list
   \<Rightarrow> string list \<Rightarrow> string list \<Rightarrow> string list \<Rightarrow> string \<Rightarrow> causal_witness" where
  "execution_witness h f mech attr symptom path onset ids relation_ids cover open_points rule =
     \<lparr>witness_actor = causal_actor h, witness_instance = actor_instance h, origin = f,
      relation_evidence = relation_ids, attribution = attr, witness_mechanism = mech,
      witness_symptom = symptom, witness_path = path, witness_onset = onset,
      witness_evidence = ids, witness_coverage = cover, missing = open_points,
      witness_rule = rule, witness_version = ''v1'', witness_claim_level = ''OBSERVED_MECHANISM_CAUSE'',
      fault_action = None\<rparr>"

definition execution_record :: "string \<Rightarrow> string \<Rightarrow> causal_witness list \<Rightarrow> support_record" where
  "execution_record rule reason ws =
     \<lparr>support_rule = rule, support_version = ''v1'', support_kind = ''OBSERVED_MECHANISM_CAUSE'',
      support_status = (if ws \<noteq> [] then FIRED else NOT_FIRED),
      support_reasons = (if ws \<noteq> [] then [] else [reason]),
      decisive_evidence = sorted_set (concat (map witness_evidence ws)),
      support_explanation = [], support_shapes = [], witnesses = ws\<rparr>"

section \<open>Quota rejections\<close>

definition quota_witness :: "hypothesis \<Rightarrow> finding \<Rightarrow> cluster_event \<Rightarrow> entity_ref \<times> causal_hop list \<Rightarrow> causal_witness"
where
  "quota_witness h f e link =
     execution_witness h f ''QUOTA_ADMISSION_REJECTION'' ''EXPLICIT_QUOTA_NAMED_IN_REJECTION'' (fst link) (snd link)
       (the (incident_onset f)) [event_evidence e] [event_evidence e]
       [''EXPLICIT_REJECTED_SUBJECT'', ''OBSERVED_REJECTION_TIME''] [''INCIDENT_RECOVERY_NOT_ASSESSED''] EXECUTION_RULE"

definition rejection_of :: "hypothesis \<Rightarrow> finding \<Rightarrow> cluster_event \<Rightarrow> bool" where
  "rejection_of h f e \<longleftrightarrow> names_quota (causal_actor h) e \<and> event_evidence e \<in> set (evidence_ids f)
     \<and> event_time e \<noteq> None \<and> at f = event_time e"

definition rejected_link :: "cluster_event \<Rightarrow> entity_ref \<times> causal_hop list \<Rightarrow> bool" where
  "rejected_link e link \<longleftrightarrow>
     (case link of (symptom, hop # _) \<Rightarrow> symptom = event_entity e \<and> relation hop = ''quota_blocks'' | _ \<Rightarrow> False)"

definition quota_execution :: "hypothesis \<Rightarrow> support_record \<Rightarrow> cluster_event list \<Rightarrow> support_record" where
  "quota_execution h possible events =
     execution_record EXECUTION_RULE ''NO_DIRECT_INCIDENT_REJECTION_WITNESS''
       (if support_status possible \<noteq> FIRED then []
        else concat (map (\<lambda>f. concat (map (\<lambda>e.
               map (quota_witness h f e) (filter (rejected_link e) (symptom_links h)))
             (filter (rejection_of h f) events)))
           (filter (\<lambda>f. finding_kind f = QUOTA_EXCEEDED \<and> incident_onset f \<noteq> None
              \<and> list_ex (\<lambda>w. origin w = f) (witnesses possible)) (actor_findings h))))"

section \<open>Fault experiments\<close>

definition same_episode :: "hypothesis \<Rightarrow> hypothesis \<Rightarrow> bool" where
  "same_episode a b \<longleftrightarrow> episode_onset a \<noteq> None \<and> episode_onset a = episode_onset b"

definition json_strings :: "json \<Rightarrow> string list" where
  "json_strings v =
     (case v of JList xs \<Rightarrow> List.map_filter (\<lambda>x. case x of JStr s \<Rightarrow> Some s | _ \<Rightarrow> None) xs | _ \<Rightarrow> [])"

definition spawn_evidence :: "finding \<Rightarrow> string list" where
  "spawn_evidence f = json_strings (dict_value (details f) ''spawn_evidence_ids'')"

definition is_chaos_claim :: "hypothesis \<Rightarrow> bool" where
  "is_chaos_claim h \<longleftrightarrow> is_chaos_kind (kind (causal_actor h)) \<and> kind (causal_actor h) \<noteq> ''Schedule''"

text \<open>The injection was spawned by exactly this schedule instance.\<close>

definition spawned_by :: "hypothesis \<Rightarrow> entity_instance \<Rightarrow> finding \<Rightarrow> bool" where
  "spawned_by source i f \<longleftrightarrow> finding_kind f = FAULT_INJECTION
     \<and> dict_value (details f) ''schedule'' = JStr (canonical (causal_actor source))
     \<and> dict_value (details f) ''schedule_uid'' = JStr (uid i)
     \<and> truthy (dict_value (details f) ''spawn_evidence_ids'')"

definition fault_executions :: "hypothesis \<Rightarrow> hypothesis list \<Rightarrow> finding list" where
  "fault_executions holder hs =
     (if kind (causal_actor holder) = ''Schedule''
      then (case actor_instance holder of
              None \<Rightarrow> []
            | Some i \<Rightarrow> concat (map (\<lambda>child. filter (spawned_by holder i) (actor_findings child))
                (filter (\<lambda>child. hypothesis_id child \<noteq> hypothesis_id holder \<and> is_chaos_claim child
                   \<and> actor_instance child \<noteq> None \<and> same_episode holder child) hs)))
      else
        (let parents = List.map_filter (\<lambda>h. if kind (causal_actor h) = ''Schedule'' \<and> admitted h
                         then map_option uid (actor_instance h) else None) hs
         in filter (\<lambda>f. finding_kind f = FAULT_INJECTION
              \<and> (case dict_value (details f) ''schedule_uid'' of JStr u \<Rightarrow> u \<notin> set parents | _ \<Rightarrow> True))
              (actor_findings holder)))"

definition effect_times :: "finding \<Rightarrow> cluster_event list \<Rightarrow> instant list" where
  "effect_times f events =
     concat (map (\<lambda>e. List.map_filter (\<lambda>t. t) [first_at e, last_at e])
       (filter (\<lambda>e. event_evidence e \<in> set (evidence_ids f)) events))
     @ (case at f of None \<Rightarrow> [] | Some t \<Rightarrow> [t])"

text \<open>\<open>name.rsplit("-", 2)[0]\<close>: a pod's name without the suffixes of its ReplicaSet and itself.\<close>

definition before_last_dash :: "string \<Rightarrow> string option" where
  "before_last_dash s = map_option (rev \<circ> snd) (break_on ''-'' (rev s))"

definition target_service :: "string \<Rightarrow> string" where
  "target_service n =
     (case before_last_dash n of None \<Rightarrow> n
      | Some a \<Rightarrow> (case before_last_dash a of None \<Rightarrow> a | Some b \<Rightarrow> b))"

definition calling_symptoms :: "hypothesis \<Rightarrow> entity_ref \<Rightarrow> entity_ref list" where
  "calling_symptoms h target =
     filter (\<lambda>s. kind s = ''Service'' \<and> name s \<noteq> target_service (name target) \<and> namespace s = namespace target)
       (symptom_entities h)"

definition caller_path :: "hypothesis \<Rightarrow> string \<Rightarrow> entity_ref \<Rightarrow> entity_ref \<Rightarrow> causal_hop list" where
  "caller_path h r target symptom =
     [\<lparr>hop_source = causal_actor h, relation = r, hop_target = target\<rparr>,
      \<lparr>hop_source = target, relation = ''called_by'', hop_target = symptom\<rparr>]"

definition spawn_attribution :: "finding \<Rightarrow> string" where
  "spawn_attribution f =
     (if spawn_evidence f \<noteq> [] then ''EXPERIMENT_EXECUTION_CARRIED_BY_SPAWN_RECORD'' else ''EXPERIMENT_EXECUTION'')"

definition spawn_coverage :: "finding \<Rightarrow> string list" where
  "spawn_coverage f = (if spawn_evidence f \<noteq> [] then [''EXACT_SPAWN_RECORD_UIDS''] else [])"

text \<open>The evidence that an execution at the target shows at a calling symptom, and whether by unanswered calls.\<close>

definition caller_effect ::
  "(string \<Rightarrow> instant option) \<Rightarrow> trace_span list \<Rightarrow> pod_status list \<Rightarrow> journal \<Rightarrow> entity_ref \<Rightarrow> instant \<Rightarrow> instant
   \<Rightarrow> instant \<Rightarrow> entity_ref \<Rightarrow> (bool \<times> string list) option" where
  "caller_effect fi spans statuses history target first_execution applied ending symptom =
     (let service = target_service (name target); pairs = call_pairs spans (name symptom) service;
          baseline = baseline_before first_execution;
          unanswered = unanswered_calls spans (name symptom) service
      in if service_effect pairs (name target) applied ending baseline SERVICE_EFFECT = Some True
         then Some (False, concat (map call_evidence (fault_calls pairs (name target) applied ending)))
         else if unanswered_effect pairs unanswered (name target) applied ending baseline
                (other_server_ready fi statuses \<lparr>kind = ''Pod'', name = name target, namespace = namespace target\<rparr>
                   (fst baseline) ending history) SERVICE_EFFECT = Some True
         then Some (True, map unanswered_evidence
                (filter (\<lambda>u. within (applied, ending) (unanswered_started u)) unanswered))
         else None)"

definition service_effect_witness ::
  "(string \<Rightarrow> instant option) \<Rightarrow> hypothesis \<Rightarrow> instant \<Rightarrow> finding \<Rightarrow> entity_ref \<Rightarrow> instant \<Rightarrow> instant
   \<Rightarrow> trace_span list \<Rightarrow> instant option \<Rightarrow> pod_status list \<Rightarrow> journal \<Rightarrow> causal_witness list" where
  "service_effect_witness fi holder onset injection target applied ending spans first_execution statuses history =
     List.map_filter (\<lambda>symptom.
         (case caller_effect fi spans statuses history target
                 (case first_execution of None \<Rightarrow> applied | Some t \<Rightarrow> t) applied ending symptom of
            None \<Rightarrow> None
          | Some (unanswered_form, ids) \<Rightarrow>
              Some (execution_witness holder injection ''FAULT_EXECUTION_EFFECT_AT_CALLER'' (spawn_attribution injection)
                symptom (caller_path holder ''fault_targets'' target symptom) onset
                (sorted_set (evidence_ids injection @ ids)) (spawn_evidence injection)
                ([''EXACT_EXPERIMENT_INSTANCE'', ''EXECUTION_INTERVAL_CLOSED'', ''SERVICE_LEVEL_EFFECT_AT_EXACT_POD'',
                  ''BASELINE_BEFORE_ONSET'']
                 @ (if unanswered_form then [''UNANSWERED_CALLS_SINGLE_SERVER''] else []) @ spawn_coverage injection)
                [''FAULT_ACTION_NOT_OBSERVED'', ''INCIDENT_RECOVERY_NOT_ASSESSED''] FAULT_EXECUTION_RULE)))
       (calling_symptoms holder target)"

subsection \<open>Execution targets\<close>

definition target_field :: "string \<Rightarrow> json \<Rightarrow> json result" where
  "target_field k t =
     (case t of JDict d \<Rightarrow> get_key k d | _ \<Rightarrow> Inl (TypeError ''indices must be integers or slices''))"

text \<open>\<open>_instant\<close>: a string that is no ISO time raises.\<close>

definition instant_of :: "(string \<Rightarrow> instant option) \<Rightarrow> json \<Rightarrow> instant option result" where
  "instant_of fi v =
     (case v of
        JStr s \<Rightarrow> (case fi s of None \<Rightarrow> Inl (ValueError ''Invalid isoformat string'') | Some t \<Rightarrow> Inr (Some t))
      | _ \<Rightarrow> Inr None)"

record execution_target =
  target_namespace :: string
  target_name :: string
  applied_at :: "instant option"
  recovered_at :: "instant option"

definition before_slash :: "string \<Rightarrow> string" where
  "before_slash s = (case break_on ''/'' s of None \<Rightarrow> s | Some (a, _) \<Rightarrow> a)"

definition after_slash :: "string \<Rightarrow> string" where
  "after_slash s = (case break_on ''/'' s of None \<Rightarrow> [] | Some (_, r) \<Rightarrow> r)"

definition json_text :: "json \<Rightarrow> string" where
  "json_text v = (case v of JStr s \<Rightarrow> s | _ \<Rightarrow> [])"

definition read_target :: "(string \<Rightarrow> instant option) \<Rightarrow> json \<Rightarrow> execution_target result" where
  "read_target fi t =
     and_then (target_field ''target'' t) (\<lambda>n.
     and_then (and_then (target_field ''applied_at'' t) (instant_of fi)) (\<lambda>a.
     and_then (and_then (target_field ''recovered_at'' t) (instant_of fi)) (\<lambda>r.
       Inr \<lparr>target_namespace = before_slash (json_text n), target_name = before_slash (after_slash (json_text n)),
            applied_at = a, recovered_at = r\<rparr>)))"

definition target_entries :: "finding \<Rightarrow> json list" where
  "target_entries f = (case dict_value (details f) ''execution_targets'' of JList ts \<Rightarrow> ts | _ \<Rightarrow> [])"

definition read_targets :: "(string \<Rightarrow> instant option) \<Rightarrow> finding list \<Rightarrow> (finding \<times> execution_target) list result" where
  "read_targets fi injections =
     traverse (\<lambda>(f, t). and_then (read_target fi t) (\<lambda>x. Inr (f, x)))
       (concat (map (\<lambda>f. map (Pair f) (target_entries f)) injections))"

text \<open>The effect of an execution at a pod that is itself a symptom.\<close>

definition pod_effect :: "cluster_event list \<Rightarrow> hypothesis \<Rightarrow> instant \<Rightarrow> instant \<Rightarrow> finding list" where
  "pod_effect events p applied ending =
     (let effects = filter (\<lambda>f. finding_kind f \<in> set EFFECT_KINDS) (actor_findings p) in
      if list_ex (\<lambda>f. list_ex (\<lambda>t. t < applied) (effect_times f events)) effects then []
      else filter (\<lambda>f. list_ex (within (applied, ending)) (effect_times f events)) effects)"

definition symptom_pods :: "hypothesis \<Rightarrow> hypothesis list \<Rightarrow> ((string \<times> string) \<times> hypothesis) list" where
  "symptom_pods holder hs =
     rev (map (\<lambda>h. ((namespace (causal_actor h), name (causal_actor h)), h))
       (filter (\<lambda>h. kind (causal_actor h) = ''Pod'' \<and> actor_instance h \<noteq> None \<and> same_episode holder h
          \<and> causal_actor h \<in> set (symptom_entities holder)) hs))"

definition pod_witness :: "hypothesis \<Rightarrow> instant \<Rightarrow> finding \<Rightarrow> hypothesis \<Rightarrow> finding list \<Rightarrow> causal_witness" where
  "pod_witness holder onset injection p inside =
     execution_witness holder injection ''FAULT_EXECUTION_ON_INCIDENT_SYMPTOM'' (spawn_attribution injection)
       (causal_actor p)
       [\<lparr>hop_source = causal_actor holder, relation = ''fault_targets'', hop_target = causal_actor p\<rparr>] onset
       (sorted_set (evidence_ids injection @ concat (map evidence_ids inside))) (spawn_evidence injection)
       ([''EXACT_EXPERIMENT_INSTANCE'', ''EXECUTION_INTERVAL_CLOSED'', ''EFFECT_INSIDE_INTERVAL'', ''NO_EFFECT_BEFORE_APPLY'']
        @ spawn_coverage injection)
       [''FAULT_ACTION_NOT_OBSERVED'', ''INCIDENT_RECOVERY_NOT_ASSESSED''] FAULT_EXECUTION_RULE"

definition fault_witnesses ::
  "(string \<Rightarrow> instant option) \<Rightarrow> hypothesis \<Rightarrow> instant \<Rightarrow> hypothesis list \<Rightarrow> cluster_event list \<Rightarrow> trace_span list
   \<Rightarrow> journal \<Rightarrow> pod_status list \<Rightarrow> instant option \<Rightarrow> finding \<times> execution_target \<Rightarrow> causal_witness list" where
  "fault_witnesses fi holder onset hs events spans history statuses first_execution ft =
     (case ft of (injection, t) \<Rightarrow>
        (case (applied_at t, recovered_at t) of
           (Some applied, Some ending) \<Rightarrow>
             if \<not> connects onset applied ending then []
             else (case map_of (symptom_pods holder hs) (target_namespace t, target_name t) of
                     None \<Rightarrow>
                       if spans = [] \<or> target_name t = [] then []
                       else service_effect_witness fi holder onset injection
                              \<lparr>kind = ''Pod'', name = target_name t, namespace = target_namespace t\<rparr>
                              applied ending spans first_execution statuses history
                   | Some p \<Rightarrow>
                       (case pod_effect events p applied ending of
                          [] \<Rightarrow> []
                        | inside \<Rightarrow> [pod_witness holder onset injection p inside]))
         | _ \<Rightarrow> []))"

text \<open>The journaled action of the experiment instance.\<close>

definition journaled_action :: "journal \<Rightarrow> finding \<Rightarrow> string option" where
  "journaled_action history f =
     (case entity_instance f of
        None \<Rightarrow> None
      | Some i \<Rightarrow>
          (case rev (filter (\<lambda>v. instance_uid v = Some (uid i)) (versions_of history (entity f))) of
             [] \<Rightarrow> None
           | v # _ \<Rightarrow> (case dict_value (as_dict (dict_value (body v) ''spec'')) ''action'' of
                         JStr (c # a) \<Rightarrow> Some (c # a) | _ \<Rightarrow> None)))"

definition with_fault_action :: "journal \<Rightarrow> causal_witness \<Rightarrow> causal_witness" where
  "with_fault_action history w =
     (case journaled_action history (origin w) of
        None \<Rightarrow> w
      | Some a \<Rightarrow> w\<lparr>fault_action := Some a, witness_coverage := witness_coverage w @ [''FAULT_ACTION_OBSERVED''],
                    missing := filter (\<lambda>m. m \<noteq> ''FAULT_ACTION_NOT_OBSERVED'') (missing w)\<rparr>)"

definition fault_execution ::
  "(string \<Rightarrow> instant option) \<Rightarrow> hypothesis \<Rightarrow> support_record \<Rightarrow> hypothesis list \<Rightarrow> cluster_event list
   \<Rightarrow> trace_span list \<Rightarrow> journal \<Rightarrow> pod_status list \<Rightarrow> support_record result" where
  "fault_execution fi holder possible hs events spans history statuses =
     and_then
       (case episode_onset holder of
          Some onset \<Rightarrow>
            if support_status possible = FIRED \<and> actor_instance holder \<noteq> None
               \<and> is_chaos_kind (kind (causal_actor holder))
            then and_then (read_targets fi (fault_executions holder hs)) (\<lambda>ts.
                   let first_execution = py_min (List.map_filter (applied_at \<circ> snd) ts) in
                   Inr (concat (map (fault_witnesses fi holder onset hs events spans history statuses first_execution) ts)))
            else Inr []
        | None \<Rightarrow> Inr [])
       (\<lambda>ws. Inr (execution_record FAULT_EXECUTION_RULE ''NO_EXECUTION_WITH_INCIDENT_EFFECT_WITNESS''
               (map (with_fault_action history) ws)))"

section \<open>Rollouts\<close>

text \<open>The changes a support rests on: one per set of evidence, the last witness's.\<close>

definition support_origins :: "support_record \<Rightarrow> finding list" where
  "support_origins r =
     map snd (fold (\<lambda>w d. AList.update (evidence_ids (origin w)) (origin w) d) (witnesses r) [])"

definition rollout_origins :: "support_record \<Rightarrow> (finding \<times> instant) list" where
  "rollout_origins r =
     List.map_filter (\<lambda>f. if finding_kind f \<in> set ROLLOUT_ORIGIN_KINDS then map_option (Pair f) (at f) else None)
       (support_origins r)"

text \<open>The rules look at a supported change of one exact Deployment instance, assessed at a known onset.\<close>

definition rollout_scope :: "hypothesis \<Rightarrow> support_record \<Rightarrow> trace_span list \<Rightarrow> (string \<times> instant) option" where
  "rollout_scope h possible spans =
     (case (actor_instance h, episode_onset h) of
        (Some i, Some onset) \<Rightarrow>
          if support_status possible = FIRED \<and> kind (causal_actor h) = ''Deployment'' \<and> uid i \<noteq> [] \<and> spans \<noteq> []
          then Some (uid i, onset) else None
      | _ \<Rightarrow> None)"

definition objects_of :: "string \<Rightarrow> string \<Rightarrow> journal \<Rightarrow> journal" where
  "objects_of k ns history = filter (\<lambda>(r, _). kind r = k \<and> namespace r = ns) history"

definition near_change :: "instant \<Rightarrow> instant \<Rightarrow> bool" where
  "near_change changed created \<longleftrightarrow> \<bar>created - changed\<bar> \<le> ROLLOUT_REPLICASET_WINDOW"

definition created_replicasets :: "journal \<Rightarrow> string \<Rightarrow> string \<Rightarrow> object_version list" where
  "created_replicasets history ns u =
     List.map_filter (\<lambda>(_, vs). case created_version vs of
         Some v \<Rightarrow> if owner_uid v = Some u then Some v else None | None \<Rightarrow> None)
       (objects_of ''ReplicaSet'' ns history)"

text \<open>The pods an object owns by UID, with the version that shows their creation.\<close>

definition owned_pods :: "journal \<Rightarrow> string \<Rightarrow> string \<Rightarrow> (entity_ref \<times> object_version list \<times> object_version) list" where
  "owned_pods history ns u =
     List.map_filter (\<lambda>(r, vs). case created_version vs of
         Some v \<Rightarrow> if owner_uid v = Some u then Some (r, vs, v) else None | None \<Rightarrow> None)
       (objects_of ''Pod'' ns history)"

definition rollout_effect_witnesses ::
  "hypothesis \<Rightarrow> instant \<Rightarrow> finding \<Rightarrow> instant \<Rightarrow> entity_ref \<Rightarrow> string list \<Rightarrow> instant \<Rightarrow> instant
   \<Rightarrow> trace_span list \<Rightarrow> causal_witness list" where
  "rollout_effect_witnesses holder onset f changed target relation_ids s e spans =
     List.map_filter (\<lambda>symptom.
         let pairs = call_pairs spans (name symptom) (target_service (name target)) in
         if service_effect pairs (name target) s e (baseline_before changed) SERVICE_EFFECT \<noteq> Some True then None
         else Some (execution_witness holder f ''ROLLOUT_EXECUTION_EFFECT_AT_CALLER'' ''ROLLOUT_OWNERSHIP_BY_UID'' symptom
                (caller_path holder ''rolls_out'' target symptom) onset
                (sorted_set (evidence_ids f @ concat (map call_evidence (fault_calls pairs (name target) s e))))
                relation_ids
                [''EXACT_CHANGE_INSTANCE'', ''REPLICASET_AND_POD_OWNED_BY_UID'', ''SERVICE_LEVEL_EFFECT_AT_EXACT_POD'',
                 ''BASELINE_BEFORE_CHANGE'']
                [''CHANGED_FIELD_CONSUMPTION_NOT_OBSERVED'', ''INCIDENT_RECOVERY_NOT_ASSESSED''] ROLLOUT_EXECUTION_RULE))
       (calling_symptoms holder target)"

definition interval_end_of :: "object_version list \<Rightarrow> instant option \<Rightarrow> instant option" where
  "interval_end_of vs until = or_else (deleted_at vs) until"

definition rollout_pod_witnesses ::
  "hypothesis \<Rightarrow> instant \<Rightarrow> finding \<Rightarrow> instant \<Rightarrow> object_version \<Rightarrow> trace_span list \<Rightarrow> instant option
   \<Rightarrow> entity_ref \<times> object_version list \<times> object_version \<Rightarrow> causal_witness list" where
  "rollout_pod_witnesses h onset f changed rs spans until p =
     (case p of (target, vs, created) \<Rightarrow>
        (case interval_end_of vs until of
           None \<Rightarrow> []
         | Some e \<Rightarrow>
             if connects onset (observed_at created) e
             then rollout_effect_witnesses h onset f changed target [evidence_id rs, evidence_id created]
                    (observed_at created) e spans
             else []))"

definition rollout_execution ::
  "hypothesis \<Rightarrow> support_record \<Rightarrow> journal \<Rightarrow> trace_span list \<Rightarrow> instant option \<Rightarrow> support_record" where
  "rollout_execution h possible history spans until =
     execution_record ROLLOUT_EXECUTION_RULE ''NO_ROLLOUT_EXECUTION_WITH_INCIDENT_EFFECT_WITNESS''
       (case rollout_scope h possible spans of
          None \<Rightarrow> []
        | Some (u, onset) \<Rightarrow>
            let ns = namespace (causal_actor h) in
            concat (map (\<lambda>(f, changed).
              concat (map (\<lambda>rs. case instance_uid rs of
                  None \<Rightarrow> []
                | Some rs_uid \<Rightarrow> concat (map (rollout_pod_witnesses h onset f changed rs spans until)
                    (owned_pods history ns rs_uid)))
                (filter (\<lambda>rs. near_change changed (observed_at rs)) (created_replicasets history ns u))))
              (rollout_origins possible)))"

section \<open>Failed rollouts\<close>

text \<open>The Deployment's ReplicaSets by UID: their creation, or the first version when it was not seen.\<close>

definition owned_replicasets ::
  "journal \<Rightarrow> string \<Rightarrow> string \<Rightarrow> (string \<times> object_version) list result" where
  "owned_replicasets history ns u =
     and_then (traverse (\<lambda>(_, vs). case created_version vs of
           Some v \<Rightarrow> Inr v
         | None \<Rightarrow> (case vs of [] \<Rightarrow> Inl (LookupError ''tuple index out of range'') | v # _ \<Rightarrow> Inr v))
         (objects_of ''ReplicaSet'' ns history)) (\<lambda>firsts.
       Inr (fold (\<lambda>v d. case instance_uid v of
                None \<Rightarrow> d
              | Some i \<Rightarrow> if owner_uid v = Some u then AList.update i v d else d) firsts []))"

definition removed_pods ::
  "journal \<Rightarrow> string \<Rightarrow> (string \<times> object_version) list \<Rightarrow> string \<Rightarrow> instant \<Rightarrow> object_version list" where
  "removed_pods history ns owned rs_uid changed =
     filter (\<lambda>v. lifecycle v = DELETED \<and> changed \<le> observed_at v \<and> observed_at v \<le> changed + OLD_REVISION_REMOVAL
         \<and> (case owner_uid v of None \<Rightarrow> False | Some ow \<Rightarrow> ow \<in> fst ` set owned \<and> ow \<noteq> rs_uid))
       (concat (map snd (objects_of ''Pod'' ns history)))"

definition pod_failures :: "cluster_event list \<Rightarrow> object_version \<Rightarrow> cluster_event list" where
  "pod_failures events created =
     filter (\<lambda>e. involved_uid e \<noteq> None \<and> involved_uid e = instance_uid created \<and> event_kind e = ''Warning''
       \<and> event_reason e \<in> set FAILED_POD_REASONS) events"

definition unserved_witnesses ::
  "hypothesis \<Rightarrow> instant \<Rightarrow> finding \<Rightarrow> instant \<Rightarrow> entity_ref \<Rightarrow> string list \<Rightarrow> instant \<Rightarrow> instant
   \<Rightarrow> trace_span list \<Rightarrow> causal_witness list" where
  "unserved_witnesses holder onset f changed target relation_ids s e spans =
     List.map_filter (\<lambda>symptom.
         let calls = filter (\<lambda>c. span_service c = name symptom \<and> span_kind c = Some ''CLIENT''
                 \<and> span_attribute c ''server.address'' = Some (target_service (name target))) spans;
             failed = filter (\<lambda>c. within (s, e) (span_start c) \<and> span_status c = SPAN_ERROR
                 \<and> (trace_id c, Some (span_id c)) \<notin> set (answered_parents spans)) calls;
             calm = filter (\<lambda>c. within (baseline_before changed) (span_start c)) calls
         in if length failed < min_calls SERVICE_EFFECT \<or> length calm < min_calls SERVICE_EFFECT
               \<or> list_ex (\<lambda>c. span_status c = SPAN_ERROR) calm
            then None
            else Some (execution_witness holder f ''FAILED_ROLLOUT_EFFECT_AT_CALLER'' ''ROLLOUT_OWNERSHIP_BY_UID'' symptom
                   (caller_path holder ''rolls_out'' target symptom) onset
                   (sorted_set (evidence_ids f @ map span_evidence failed)) relation_ids
                   [''EXACT_CHANGE_INSTANCE'', ''REPLICASET_AND_POD_OWNED_BY_UID'', ''NEW_POD_NEVER_SERVED'',
                    ''OLD_REVISION_REMOVED'', ''UNSERVED_CALLS_AT_CALLER'', ''BASELINE_BEFORE_CHANGE'']
                   [''CHANGED_FIELD_CONSUMPTION_NOT_OBSERVED'', ''INCIDENT_RECOVERY_NOT_ASSESSED''] FAILED_ROLLOUT_RULE))
       (calling_symptoms holder target)"

definition failed_pod_witnesses ::
  "hypothesis \<Rightarrow> instant \<Rightarrow> finding \<Rightarrow> instant \<Rightarrow> object_version \<Rightarrow> object_version \<Rightarrow> cluster_event list
   \<Rightarrow> trace_span list \<Rightarrow> instant option \<Rightarrow> entity_ref \<times> object_version list \<times> object_version
   \<Rightarrow> causal_witness list" where
  "failed_pod_witnesses h onset f changed rs first_removed events spans until p =
     (case p of (target, vs, created) \<Rightarrow>
        (case (pod_failures events created, interval_end_of vs until) of
           ([], _) \<Rightarrow> []
         | (_, None) \<Rightarrow> []
         | (failures, Some e) \<Rightarrow>
             if connects onset (observed_at first_removed) e
             then unserved_witnesses h onset f changed target
                    ([evidence_id rs, evidence_id created, evidence_id first_removed]
                     @ sorted_set (map event_evidence failures))
                    (observed_at first_removed) e spans
             else []))"

definition failed_rollout ::
  "hypothesis \<Rightarrow> support_record \<Rightarrow> journal \<Rightarrow> cluster_event list \<Rightarrow> trace_span list \<Rightarrow> instant option
   \<Rightarrow> support_record result" where
  "failed_rollout h possible history events spans until =
     and_then
       (case rollout_scope h possible spans of
          None \<Rightarrow> Inr []
        | Some (u, onset) \<Rightarrow>
            let ns = namespace (causal_actor h) in
            and_then (owned_replicasets history ns u) (\<lambda>owned.
              Inr (concat (map (\<lambda>(f, changed).
                concat (map (\<lambda>(rs_uid, rs).
                    if lifecycle rs \<noteq> CREATED \<or> \<not> near_change changed (observed_at rs) then []
                    else (case max_by (\<lambda>v. - observed_at v) (removed_pods history ns owned rs_uid changed) of
                            None \<Rightarrow> []
                          | Some first_removed \<Rightarrow>
                              concat (map (failed_pod_witnesses h onset f changed rs first_removed events spans until)
                                (owned_pods history ns rs_uid))))
                  owned)) (rollout_origins possible)))))
       (\<lambda>ws. Inr (execution_record FAILED_ROLLOUT_RULE ''NO_FAILED_ROLLOUT_WITH_INCIDENT_EFFECT_WITNESS'' ws))"

section \<open>Explanations\<close>

definition explain ::
  "hypothesis \<Rightarrow> hypothesis \<Rightarrow> string \<Rightarrow> string \<Rightarrow> string list \<Rightarrow> string list \<Rightarrow> string list \<Rightarrow> string
   \<Rightarrow> string \<Rightarrow> string list \<Rightarrow> explanation" where
  "explain a b mech r ids covered cover rule conseq open_points =
     \<lparr>explaining_claim = hypothesis_id a, explained_claim = hypothesis_id b,
      explaining_actor = causal_actor a, explaining_instance = actor_instance a,
      explained_manifestation = causal_actor b, explained_instance = actor_instance b,
      explanation_onset = the (episode_onset a), explanation_mechanism = mech,
      explanation_path = [\<lparr>hop_source = causal_actor a, relation = r, hop_target = causal_actor b\<rparr>],
      explanation_evidence = ids, explained_evidence = covered, explanation_coverage = cover,
      explanation_rule = rule, explanation_version = ''v1'', explanation_consequence = conseq,
      remaining_uncertainty = open_points\<rparr>"

definition consequence_of :: "bool \<Rightarrow> string" where
  "consequence_of all_covered = (if all_covered then ''EXPLAINS_CLAIM'' else ''EXPLAINS_OBSERVATION'')"

text \<open>A schedule instance explains the experiments its controller named by UID.\<close>

definition spawn_explanation :: "hypothesis \<Rightarrow> entity_instance \<Rightarrow> hypothesis \<Rightarrow> explanation option" where
  "spawn_explanation a i b =
     (let own = actor_findings b; spawned = filter (spawned_by a i) own; all_covered = (length spawned = length own) in
      if spawned = [] then None
      else Some (explain a b ''CONTROLLER_SPAWNED_EXECUTION'' ''spawns''
             (sorted_set (concat (map spawn_evidence spawned))) (sorted_set (concat (map evidence_ids spawned)))
             [''EXACT_SPAWN_RECORD_UIDS'', ''ALL_LOCAL_FACTS_CHECKED''] SPAWN_EXPLANATION_RULE
             (consequence_of all_covered)
             ([''SPAWN_DOES_NOT_ESTABLISH_INCIDENT_INITIATION'']
              @ (if all_covered then [] else [''OTHER_ACTOR_FACTS_REMAIN'']))))"

definition spawn_explanations :: "hypothesis list \<Rightarrow> string list \<Rightarrow> string list \<Rightarrow> explanation list" where
  "spawn_explanations hs supported_ids excluded_ids =
     concat (map (\<lambda>a. case actor_instance a of
         None \<Rightarrow> []
       | Some i \<Rightarrow> List.map_filter (spawn_explanation a i)
           (filter (\<lambda>b. hypothesis_id b \<noteq> hypothesis_id a \<and> is_chaos_claim b \<and> actor_instance b \<noteq> None
              \<and> admitted b \<and> same_episode a b) hs))
       (filter (\<lambda>a. kind (causal_actor a) = ''Schedule'' \<and> episode_onset a \<noteq> None
          \<and> hypothesis_id a \<in> set supported_ids \<and> hypothesis_id a \<notin> set excluded_ids \<and> admitted a) hs))"

text \<open>A strong claim explains a member of its episode that holds no fact of its own.\<close>

definition held_by :: "string list \<Rightarrow> finding list \<Rightarrow> bool" where
  "held_by held own \<longleftrightarrow>
     own \<noteq> [] \<and> list_all (\<lambda>f. evidence_ids f \<noteq> [] \<and> set (evidence_ids f) \<subseteq> set held) own"

definition shared_evidence_explanations ::
  "hypothesis list \<Rightarrow> string list \<Rightarrow> string list \<Rightarrow> string list \<Rightarrow> explanation list" where
  "shared_evidence_explanations hs supported_ids strong_ids excluded_ids =
     concat (map (\<lambda>a. map (\<lambda>b.
           let shared = sorted_set (concat (map evidence_ids (actor_findings b))) in
           explain a b ''SHARED_EVIDENCE_OF_OBSERVED_EXECUTION'' ''episode_member'' shared shared
             [''STRONG_EXPLAINING_CLAIM'', ''EPISODE_MEMBER'', ''ALL_LOCAL_FACTS_SHARED''] SHARED_EVIDENCE_RULE
             ''EXPLAINS_CLAIM'' [])
         (filter (\<lambda>b. hypothesis_id b \<noteq> hypothesis_id a \<and> causal_actor b \<noteq> causal_actor a
            \<and> causal_actor b \<in> set (members a) \<and> hypothesis_id b \<notin> set supported_ids
            \<and> hypothesis_id b \<notin> set excluded_ids \<and> admitted b
            \<and> held_by (concat (map evidence_ids (findings a))) (actor_findings b)) hs))
       (filter (\<lambda>a. hypothesis_id a \<in> set strong_ids \<and> hypothesis_id a \<in> set supported_ids
          \<and> hypothesis_id a \<notin> set excluded_ids \<and> episode_onset a \<noteq> None \<and> admitted a) hs))"

text \<open>A quota explains the rejections it is named in, no earlier than its own finding.\<close>

definition covered_rejections :: "hypothesis \<Rightarrow> hypothesis \<Rightarrow> cluster_event list \<Rightarrow> finding \<Rightarrow> string list" where
  "covered_rejections a b events f =
     (case at f of
        None \<Rightarrow> []
      | Some t \<Rightarrow> map event_evidence
          (filter (\<lambda>e. names_quota (causal_actor a) e \<and> event_entity e = causal_actor b
             \<and> event_evidence e \<in> set (evidence_ids f)
             \<and> (case event_time e of None \<Rightarrow> False | Some et \<Rightarrow> et \<ge> t)
             \<and> involved_uid e = map_option uid (actor_instance b)) events))"

definition quota_explanation ::
  "string list \<Rightarrow> cluster_event list \<Rightarrow> hypothesis \<Rightarrow> hypothesis \<Rightarrow> finding \<Rightarrow> explanation option" where
  "quota_explanation supported_ids events a b f =
     (let covered = covered_rejections a b events f; ids = sorted_set covered;
          all_covered = list_all (\<lambda>f. finding_kind f = FAILURE_EVENT \<and> evidence_ids f \<noteq> []
                          \<and> set (evidence_ids f) \<subseteq> set covered) (actor_findings b)
      in if covered = [] then None
         else Some (explain a b ''QUOTA_ADMISSION_REJECTION'' ''quota_blocks'' ids ids
                [''EXACT_EVENT_SUBJECT_AND_UID'', ''ALL_LOCAL_FACTS_CHECKED''] EXPLANATION_RULE
                (consequence_of all_covered)
                ((if all_covered then [] else [''OTHER_ACTOR_FACTS_REMAIN''])
                 @ (if hypothesis_id a \<in> set supported_ids then []
                    else [''OBSERVED_ROLE_DOES_NOT_ESTABLISH_INCIDENT_INITIATION'']))))"

text \<open>A verified runtime return explains the error seen at the other end of its edge.\<close>

definition endpoint_matches ::
  "hypothesis \<Rightarrow> binding option \<Rightarrow> verification option \<Rightarrow> verification option \<Rightarrow> bool" where
  "endpoint_matches h b dep pd \<longleftrightarrow>
     (case b of
        None \<Rightarrow> False
      | Some b \<Rightarrow> binding_namespace b = namespace (causal_actor h)
          \<and> (if kind (causal_actor h) = ''Pod''
             then binding_pod b = Some (name (causal_actor h)) \<and> pd = Some VERIFIED
               \<and> (case actor_instance h of None \<Rightarrow> False | Some i \<Rightarrow> Some (uid i) = binding_pod_uid b)
             else kind (causal_actor h) = ''Deployment'' \<and> deployment b = Some (name (causal_actor h))
               \<and> dep = Some VERIFIED))"

definition returns_between :: "hypothesis \<Rightarrow> hypothesis \<Rightarrow> edge \<Rightarrow> bool" where
  "returns_between a b e \<longleftrightarrow>
     endpoint_matches a (source_binding e) (source_deployment_verification e) (source_pod_verification e)
     \<and> endpoint_matches b (affected_binding e) (affected_deployment_verification e) (affected_pod_verification e)
     \<and> edge_evidence e \<noteq> []
     \<and> set (edge_evidence e) \<inter> set (concat (map evidence_ids (actor_findings b))) \<noteq> {}"

definition return_explanations ::
  "string list \<Rightarrow> edge list option \<Rightarrow> hypothesis \<Rightarrow> hypothesis \<Rightarrow> explanation list" where
  "return_explanations supported_ids propagation a b =
     (case propagation of
        None \<Rightarrow> []
      | Some es \<Rightarrow>
          if hypothesis_id a \<notin> set supported_ids then []
          else map (\<lambda>e. explain a b ''OBSERVED_NON_SUCCESS_RETURN'' ''runtime_propagates'' (edge_evidence e) (edge_evidence e)
                   [''PAIRED_RUNTIME_RETURN'', ''VERIFIED_ENDPOINTS''] RUNTIME_RETURN_RULE ''EXPLAINS_OBSERVATION''
                   [''REMOTE_FAILURE_ORIGIN'', ''OTHER_ACTOR_FACTS_REMAIN''])
                 (filter (returns_between a b) es))"

definition pair_explanations ::
  "string list \<Rightarrow> cluster_event list \<Rightarrow> edge list option \<Rightarrow> hypothesis \<Rightarrow> hypothesis \<Rightarrow> explanation list" where
  "pair_explanations supported_ids events propagation a b =
     (if hypothesis_id a = hypothesis_id b \<or> \<not> same_episode a b \<or> actor_findings b = [] \<or> \<not> admitted b then []
      else List.map_filter (quota_explanation supported_ids events a b)
             (filter (\<lambda>f. finding_kind f = QUOTA_EXCEEDED) (actor_findings a))
           @ return_explanations supported_ids propagation a b)"

subsection \<open>Cycles\<close>

definition successors :: "(string \<times> string) list \<Rightarrow> string \<Rightarrow> string list" where
  "successors es n = map snd (filter (\<lambda>(a, _). a = n) es)"

lemma unseen_sources_less:
  assumes "n \<notin> set seen" "successors es n \<noteq> []"
  shows "card (fst ` set es - insert n (set seen)) < card (fst ` set es - set seen)"
proof (rule psubset_card_mono)
  have "n \<in> fst ` set es"
    using assms(2) by (force simp: successors_def filter_empty_conv)
  with assms(1) show "fst ` set es - insert n (set seen) \<subset> fst ` set es - set seen" by blast
qed simp

function reaches :: "(string \<times> string) list \<Rightarrow> string list \<Rightarrow> string list \<Rightarrow> string \<Rightarrow> bool" where
  "reaches es [] seen goal = False"
| "reaches es (n # pending) seen goal =
     (if n = goal then True
      else if n \<in> set seen then reaches es pending seen goal
      else reaches es (successors es n @ pending) (n # seen) goal)"
  by pat_completeness auto
termination
proof (relation "(\<lambda>(es, pending, seen, goal). card (fst ` set es - set seen)) <*mlex*>
    measure (\<lambda>(es, pending, seen, goal). length pending)")
  show "wf ((\<lambda>(es, pending, seen, goal). card (fst ` set es - set seen)) <*mlex*>
    measure (\<lambda>(es, pending, seen, goal). length pending))"
    by (rule wf_mlex) simp
next
  fix es :: "(string \<times> string) list" and n :: string and pending seen goal
  assume "n \<notin> set seen"
  then show "((es, successors es n @ pending, n # seen, goal), es, n # pending, seen, goal)
      \<in> (\<lambda>(es, pending, seen, goal). card (fst ` set es - set seen)) <*mlex*>
        measure (\<lambda>(es, pending, seen, goal). length pending)"
  proof (cases "successors es n = []")
    case True
    then have "n \<notin> fst ` set es" by (auto simp: successors_def filter_empty_conv)
    then have "fst ` set es - insert n (set seen) = fst ` set es - set seen" by blast
    with True show ?thesis by (auto simp: mlex_prod_def)
  next
    case False
    with unseen_sources_less [OF \<open>n \<notin> set seen\<close> False] show ?thesis by (auto simp: mlex_prod_def)
  qed
qed (auto simp: mlex_prod_def)

definition break_cycle :: "(string \<times> string) list \<Rightarrow> explanation \<Rightarrow> explanation" where
  "break_cycle es r =
     (if reaches es [explained_claim r] [] (explaining_claim r)
      then r\<lparr>explanation_consequence := ''EXPLAINS_OBSERVATION'',
             remaining_uncertainty := remaining_uncertainty r @ [''EXPLANATION_CYCLE'']\<rparr>
      else r)"

definition explanation_edges :: "explanation list \<Rightarrow> (string \<times> string) list" where
  "explanation_edges rs = map (\<lambda>r. (explaining_claim r, explained_claim r)) rs"

definition raw_explanations ::
  "hypothesis list \<Rightarrow> string list \<Rightarrow> cluster_event list \<Rightarrow> edge list option \<Rightarrow> string list \<Rightarrow> string list
   \<Rightarrow> explanation list" where
  "raw_explanations hs supported_ids events propagation excluded_ids strong_ids =
     concat (map (\<lambda>a. concat (map (pair_explanations supported_ids events propagation a) hs))
       (filter (\<lambda>a. admitted a \<and> hypothesis_id a \<notin> set excluded_ids) hs))
     @ spawn_explanations hs supported_ids excluded_ids
     @ (if strong_ids \<noteq> [] then shared_evidence_explanations hs supported_ids strong_ids excluded_ids else [])"

definition explanations ::
  "hypothesis list \<Rightarrow> string list \<Rightarrow> cluster_event list \<Rightarrow> edge list option \<Rightarrow> string list \<Rightarrow> string list
   \<Rightarrow> explanation list" where
  "explanations hs supported_ids events propagation excluded_ids strong_ids =
     (let rs = raw_explanations hs supported_ids events propagation excluded_ids strong_ids in
      sort_key (\<lambda>r. (explaining_claim r, explained_claim r, explanation_rule r, explanation_evidence r))
        (map (break_cycle (explanation_edges rs)) rs))"

section \<open>Questions an observed role answers\<close>

definition relevant_roles :: "explanation list \<Rightarrow> structural_alternative \<Rightarrow> explanation list" where
  "relevant_roles rs a =
     filter (\<lambda>r. explaining_actor r = alternative_actor a
        \<and> explanation_rule r \<notin> {SPAWN_EXPLANATION_RULE, SHARED_EVIDENCE_RULE}
        \<and> explained_claim r \<in> set (material_for a)) rs"

definition answer_by_role :: "explanation list \<Rightarrow> string list \<Rightarrow> structural_alternative \<Rightarrow> frontier_answer" where
  "answer_by_role rs contradicted_ids a =
     (let valid = filter (\<lambda>r. explaining_claim r \<notin> set contradicted_ids
                    \<and> ''EXPLANATION_CYCLE'' \<notin> set (remaining_uncertainty r)) (relevant_roles rs a);
          complete = (valid \<noteq> [] \<and> set (material_for a) \<subseteq> explained_claim ` set valid)
      in \<lparr>answered_alternative = alternative_id a, question = ''WHAT_OBSERVED_UPSTREAM_ROLE_AFFECTS_THIS_CLAIM'',
          answer_state = (if complete then ''ANSWERED_ROLE_TRANSFERRED'' else ''OPEN''), blocked_reason = None,
          answer_evidence = sorted_set (concat (map explanation_evidence valid)),
          affected_claims = sorted_set (map explained_claim valid),
          transferred_claims = sorted_set (map explaining_claim valid),
          answer_uncertainty =
            (if complete then [''TRANSFERRED_CLAIM_STILL_REQUIRES_ADJUDICATION'']
             else if valid \<noteq> [] then [''UPSTREAM_ROLE_PARTIALLY_DETERMINED''] else [''UPSTREAM_ROLE_UNDETERMINED'']),
          answer_rule = ''m21.frontier.observed-role'', last_written_at = None, listed_at = None,
          failed_evaluation_at = None\<rparr>)"

definition answer_frontier ::
  "structural_alternative list \<Rightarrow> explanation list \<Rightarrow> string list \<Rightarrow> frontier_answer list" where
  "answer_frontier alternatives rs contradicted_ids = map (answer_by_role rs contradicted_ids) alternatives"

end
