(* ===== verification/Declared_Hosts.thy ===== *)
theory Declared_Hosts
  imports Timing_Stability
begin

text \<open>
  The hosts a workload declares for a Service (\<open>declared_hosts\<close> and its helpers in
  \<open>packages/rca/topology.py\<close>): the environment values of its containers, with the references among
  them expanded, that read as an address of that Service. Cluster documents are as the API server
  serves them: the names of variables and ConfigMaps are strings, \<open>envFrom\<close> is a list, and text is ASCII.
\<close>

section \<open>Pod specifications\<close>

definition WORKLOAD_KINDS :: "string list" where
  "WORKLOAD_KINDS = [''Deployment'', ''StatefulSet'', ''DaemonSet'', ''Job'', ''CronJob'']"

definition dict_of :: "json \<Rightarrow> (string \<times> json) list option" where
  "dict_of v = (case v of JDict d \<Rightarrow> Some d | _ \<Rightarrow> None)"

definition dict_child :: "string \<Rightarrow> (string \<times> json) list option \<Rightarrow> (string \<times> json) list option" where
  "dict_child k d = Option.bind d (\<lambda>d. dict_of (dict_value d k))"

definition pod_spec :: "(string \<times> json) list \<Rightarrow> (string \<times> json) list option" where
  "pod_spec b =
     (let spec = dict_child ''spec'' (Some b) in
      if dict_value b ''kind'' = JStr ''Pod'' then spec
      else if dict_value b ''kind'' = JStr ''CronJob''
      then dict_child ''spec'' (dict_child ''template'' (dict_child ''spec'' (dict_child ''jobTemplate'' spec)))
      else dict_child ''spec'' (dict_child ''template'' spec))"

section \<open>Environment values\<close>

definition str_of :: "json \<Rightarrow> string option" where
  "str_of v = (case v of JStr s \<Rightarrow> Some s | _ \<Rightarrow> None)"

definition list_of :: "json \<Rightarrow> json list" where
  "list_of v = (case v of JList xs \<Rightarrow> xs | _ \<Rightarrow> [])"

text \<open>ConfigMaps by namespace and name.\<close>

type_synonym config_maps = "((string \<times> string) \<times> (string \<times> json) list) list"

definition config_values :: "config_maps \<Rightarrow> string \<Rightarrow> json \<Rightarrow> (string \<times> string) list" where
  "config_values maps ns env_from =
     (case str_of (dict_value (as_dict (dict_value (as_dict env_from) ''configMapRef'')) ''name'') of
        None \<Rightarrow> []
      | Some n \<Rightarrow> List.map_filter (\<lambda>(k, v). map_option (Pair k) (str_of v))
                    (case map_of maps (ns, n) of None \<Rightarrow> [] | Some d \<Rightarrow> d))"

definition env_value :: "json \<Rightarrow> (string \<times> string) option" where
  "env_value item =
     (case (str_of (dict_value (as_dict item) ''name''), str_of (dict_value (as_dict item) ''value'')) of
        (Some n, Some v) \<Rightarrow> Some (n, v)
      | _ \<Rightarrow> None)"

definition container_values :: "config_maps \<Rightarrow> string \<Rightarrow> (string \<times> json) list \<Rightarrow> (string \<times> string) list" where
  "container_values maps ns container =
     fold (\<lambda>(k, v) d. AList.update k v d)
       (concat (map (config_values maps ns) (list_of (dict_value container ''envFrom'')))
        @ List.map_filter env_value (list_of (dict_value container ''env''))) []"

text \<open>A reference \<open>$(NAME)\<close> at the start of a string: the name and what follows it.\<close>

definition is_letter :: "char \<Rightarrow> bool" where
  "is_letter c \<longleftrightarrow> (let n = (of_char (lower_char c) :: nat) in 97 \<le> n \<and> n \<le> 122)"

definition ident_char :: "char \<Rightarrow> bool" where
  "ident_char c \<longleftrightarrow> is_letter c \<or> c = CHR ''_'' \<or> is_digit c"

definition env_ref :: "string \<Rightarrow> (string \<times> string) option" where
  "env_ref s =
     (if take 2 s \<noteq> ''$('' then None
      else let n = takeWhile ident_char (drop 2 s); r = dropWhile ident_char (drop 2 s) in
           if n = [] \<or> is_digit (hd n) \<or> take 1 r \<noteq> '')'' then None
           else Some (n, drop 1 r))"

lemma env_ref_shorter: "env_ref s = Some (n, r) \<Longrightarrow> length r < length s"
proof -
  assume a: "env_ref s = Some (n, r)"
  then have "r = drop 1 (dropWhile ident_char (drop 2 s))" "s \<noteq> []"
    by (auto simp: env_ref_def Let_def split: if_splits)
  moreover have "length (dropWhile ident_char (drop 2 s)) \<le> length s - 2"
    by (metis length_dropWhile_le length_drop)
  ultimately show ?thesis by (cases s) auto
qed

function expand :: "(string \<times> string) list \<Rightarrow> string \<Rightarrow> string" where
  "expand values [] = []"
| "expand values (c # s) =
     (case env_ref (c # s) of
        Some (n, r) \<Rightarrow> or_empty (map_of values n) @ expand values r
      | None \<Rightarrow> c # expand values s)"
  by pat_completeness auto
termination
  by (relation "measure (\<lambda>(_, s). length s)") (auto dest: env_ref_shorter)

section \<open>Hosts\<close>

definition strip :: "string \<Rightarrow> string" where
  "strip s = rev (dropWhile is_space (rev (dropWhile is_space s)))"

definition host_alnum :: "char \<Rightarrow> bool" where
  "host_alnum c \<longleftrightarrow> is_digit c \<or> (97 \<le> (of_char c :: nat) \<and> (of_char c :: nat) \<le> 122)"

definition host_char :: "char \<Rightarrow> bool" where
  "host_char c \<longleftrightarrow> host_alnum c \<or> c = CHR ''.'' \<or> c = CHR ''-''"

definition scheme_char :: "char \<Rightarrow> bool" where
  "scheme_char c \<longleftrightarrow> host_char c \<or> c = CHR ''+''"

text \<open>
  The pattern \<open>^(?:[a-z][a-z0-9+.-]*://)?([a-z0-9](?:[a-z0-9.-]*[a-z0-9])?)(?::[0-9]+)?(?:/.*)?$\<close> on a
  stripped string: no part of it can match in two ways, so no choice is taken back.
\<close>

definition after_scheme :: "string \<Rightarrow> string" where
  "after_scheme s =
     (let r = dropWhile scheme_char s in
      if s \<noteq> [] \<and> host_alnum (hd s) \<and> \<not> is_digit (hd s) \<and> take 3 r = ''://'' then drop 3 r else s)"

definition host_tail :: "string \<Rightarrow> bool" where
  "host_tail r \<longleftrightarrow>
     (let p = (if take 1 r = '':'' \<and> takeWhile is_digit (drop 1 r) \<noteq> [] then dropWhile is_digit (drop 1 r) else r)
      in p = [] \<or> hd p = CHR ''/'' \<and> CHR 10 \<notin> set p)"

definition host_of :: "string \<Rightarrow> string option" where
  "host_of value =
     (let s = after_scheme value; h = takeWhile host_char s in
      if h \<noteq> [] \<and> host_alnum (hd h) \<and> host_alnum (last h) \<and> host_tail (dropWhile host_char s) then Some h else None)"

definition ENDPOINT_NAMES :: "string list" where
  "ENDPOINT_NAMES = [''_ADDR'', ''_HOST'', ''_URL'', ''_URI'', ''_ENDPOINT'', ''_SERVICE'', ''_ADDRESS'']"

definition declared_host :: "(string \<times> string) list \<Rightarrow> string \<times> string \<Rightarrow> string option" where
  "declared_host values kv =
     (case kv of (n, raw) \<Rightarrow>
        let value = strip (expand values raw) in
        if value = [] \<or> \<not> (list_ex (\<lambda>e. starts_with (rev e) (rev n)) ENDPOINT_NAMES \<or> CHR '':'' \<in> set value)
        then None
        else (case host_of (map lower_char value) of
                None \<Rightarrow> None
              | Some h \<Rightarrow> if h \<in> {''localhost'', ''0.0.0.0'', ''127.0.0.1''} then None else Some h))"

definition spec_hosts :: "config_maps \<Rightarrow> string \<Rightarrow> (string \<times> json) list \<Rightarrow> string list" where
  "spec_hosts maps ns spec =
     concat (map (\<lambda>c. let values = container_values maps ns c in List.map_filter (declared_host values) values)
       (List.map_filter dict_of (list_of (dict_value spec ''containers''))))"

text \<open>The Service a host names: its first label, in the namespace of its second.\<close>

definition host_service :: "string \<Rightarrow> string \<Rightarrow> entity_ref" where
  "host_service own_namespace host =
     (case break_on ''.'' host of
        None \<Rightarrow> \<lparr>kind = ''Service'', name = host, namespace = own_namespace\<rparr>
      | Some (n, r) \<Rightarrow>
          let label = (case break_on ''.'' r of None \<Rightarrow> r | Some (l, _) \<Rightarrow> l) in
          \<lparr>kind = ''Service'', name = n, namespace = (if label = ''svc'' then own_namespace else label)\<rparr>)"

type_synonym latest_versions = "(entity_ref \<times> object_version) list"

definition config_maps_of :: "latest_versions \<Rightarrow> config_maps" where
  "config_maps_of latest =
     map (\<lambda>(r, v). ((namespace r, name r), as_dict (dict_value (body v) ''data'')))
       (filter (\<lambda>(r, _). kind r = ''ConfigMap'') latest)"

definition declared_hosts :: "latest_versions \<Rightarrow> entity_ref \<Rightarrow> entity_ref \<Rightarrow> string list" where
  "declared_hosts latest caller target =
     (case Option.bind (map_of latest caller) (pod_spec \<circ> body) of
        None \<Rightarrow> []
      | Some spec \<Rightarrow>
          if kind caller = ''Pod'' then []
          else filter (\<lambda>h. host_service (namespace caller) h = target \<and> target \<in> fst ` set latest
                   \<and> name target \<noteq> name caller)
                 (spec_hosts (config_maps_of latest) (namespace caller) spec))"

end
