(* ===== verification/Causal_Walk.thy ===== *)
theory Causal_Walk
  imports Claims
begin

text \<open>
  Breadth-first search over directed hops (\<open>Topology._causal_walk\<close>, \<open>causal_path\<close> and \<open>causal_distance\<close> in
  \<open>packages/rca/topology.py\<close>), and its correctness: the depths are the shortest distances up to the
  bound, and the path read off the parents is a shortest one.
\<close>

section \<open>The search\<close>

definition hops_from :: "causal_hop list \<Rightarrow> entity_ref \<Rightarrow> causal_hop list" where
  "hops_from arcs n = filter (\<lambda>h. hop_source h = n) arcs"

text \<open>The hops to nodes not seen yet, the first of each.\<close>

fun fresh :: "entity_ref list \<Rightarrow> causal_hop list \<Rightarrow> causal_hop list" where
  "fresh seen [] = []"
| "fresh seen (h # hs) = (if hop_target h \<in> set seen then fresh seen hs else h # fresh (hop_target h # seen) hs)"

type_synonym depths = "(entity_ref \<times> nat) list"
type_synonym parents = "(entity_ref \<times> causal_hop) list"

lemma set_fresh: "h \<in> set (fresh seen hs) \<Longrightarrow> h \<in> set hs \<and> hop_target h \<notin> set seen"
  by (induction seen hs rule: fresh.induct) (auto split: if_splits)

lemma fresh_targets: "set (map hop_target (fresh seen hs)) = set (map hop_target hs) - set seen"
  by (induction seen hs rule: fresh.induct) auto

lemma distinct_fresh: "distinct (map hop_target (fresh seen hs))"
proof (induction seen hs rule: fresh.induct)
  case (2 seen h hs)
  have "hop_target h \<notin> hop_target ` set (fresh (hop_target h # seen) hs)"
    using set_fresh [of _ "hop_target h # seen" hs] by force
  with 2 show ?case by simp
qed simp

function bfs ::
  "nat \<Rightarrow> causal_hop list \<Rightarrow> entity_ref list \<Rightarrow> depths \<Rightarrow> parents \<Rightarrow> depths \<times> parents" where
  "bfs m arcs [] ds ps = (ds, ps)"
| "bfs m arcs (n # q) ds ps =
     (let d = the (map_of ds n) in
      if m \<le> d then bfs m arcs q ds ps
      else let new = fresh (map fst ds) (hops_from arcs n) in
           bfs m arcs (q @ map hop_target new) (ds @ map (\<lambda>h. (hop_target h, d + 1)) new)
             (ps @ map (\<lambda>h. (hop_target h, h)) new))"
  by pat_completeness auto
termination
proof (relation "measures [\<lambda>(m, arcs, q, ds, ps). card (hop_target ` set arcs - set (map fst ds)), \<lambda>(m, arcs, q, ds, ps). length q]",
    goal_cases)
  case (3 m arcs n q ds ps d new)
  show ?case
  proof (cases "new = []")
    case False
    then obtain h where h: "h \<in> set new" by (cases new) auto
    then have "h \<in> set arcs" "hop_target h \<notin> set (map fst ds)"
      using set_fresh [of h "map fst ds" "hops_from arcs n"] 3(3) by (simp_all add: hops_from_def)
    let ?B = "hop_target ` set arcs - set (map fst (ds @ map (\<lambda>h. (hop_target h, d + 1)) new))"
    have "?B \<subseteq> hop_target ` set arcs - set (map fst ds)" by auto
    moreover have "hop_target h \<in> hop_target ` set arcs - set (map fst ds)"
      using \<open>h \<in> set arcs\<close> \<open>hop_target h \<notin> set (map fst ds)\<close> by simp
    moreover have "hop_target h \<notin> ?B" using h by (simp add: image_image)
    ultimately have "?B \<subset> hop_target ` set arcs - set (map fst ds)" by blast
    then have "card ?B < card (hop_target ` set arcs - set (map fst ds))"
      by (intro psubset_card_mono) auto
    then show ?thesis by (simp add: image_Un image_image)
  qed simp
qed auto

definition walk_from :: "nat \<Rightarrow> causal_hop list \<Rightarrow> entity_ref \<Rightarrow> depths \<times> parents" where
  "walk_from m arcs start = bfs m arcs [start] [(start, 0)] []"

text \<open>The parents of an entity back to the start; every entity has at most one.\<close>

fun path_back :: "nat \<Rightarrow> parents \<Rightarrow> entity_ref \<Rightarrow> entity_ref \<Rightarrow> causal_hop list" where
  "path_back k ps start e =
     (if e = start then []
      else case (k, map_of ps e) of
          (Suc j, Some h) \<Rightarrow> path_back j ps start (hop_source h) @ [h]
        | _ \<Rightarrow> [])"

declare path_back.simps [simp del]

definition nearest :: "depths \<Rightarrow> entity_ref list \<Rightarrow> entity_ref option" where
  "nearest ds targets =
     (case sort_key (\<lambda>e. (the (map_of ds e), canonical e)) (filter (\<lambda>e. map_of ds e \<noteq> None) targets) of
        [] \<Rightarrow> None
      | e # _ \<Rightarrow> Some e)"

definition path_within :: "nat \<Rightarrow> causal_hop list \<Rightarrow> entity_ref \<Rightarrow> entity_ref list \<Rightarrow> causal_hop list option" where
  "path_within m arcs start targets =
     (if start \<in> set targets then Some []
      else case walk_from m arcs start of
             (ds, ps) \<Rightarrow> map_option (path_back (length ps) ps start) (nearest ds targets))"

definition distance_within :: "nat \<Rightarrow> causal_hop list \<Rightarrow> entity_ref \<Rightarrow> entity_ref list \<Rightarrow> nat option" where
  "distance_within m arcs start targets =
     (let ds = fst (walk_from m arcs start) in
      py_min (List.map_filter (map_of ds) targets))"

section \<open>Walks\<close>

fun walk :: "causal_hop set \<Rightarrow> entity_ref \<Rightarrow> causal_hop list \<Rightarrow> entity_ref \<Rightarrow> bool" where
  "walk A s [] e \<longleftrightarrow> s = e"
| "walk A s (h # p) e \<longleftrightarrow> h \<in> A \<and> hop_source h = s \<and> walk A (hop_target h) p e"

lemma walk_snoc: "walk A s (p @ [h]) e \<longleftrightarrow> walk A s p (hop_source h) \<and> h \<in> A \<and> hop_target h = e"
  by (induction p arbitrary: s) auto

text \<open>The state of the search: what was taken from the queue is closed, what is in it is the rest.\<close>

record search =
  finished :: "entity_ref list"
  waiting :: "entity_ref list"
  seen_at :: depths
  came_by :: parents

definition depth_at :: "search \<Rightarrow> entity_ref \<Rightarrow> nat" where
  "depth_at st e = the (map_of (seen_at st) e)"

definition well_ordered :: "search \<Rightarrow> bool" where
  "well_ordered st \<longleftrightarrow>
     map fst (seen_at st) = finished st @ waiting st \<and> distinct (finished st @ waiting st)
     \<and> sorted (map snd (seen_at st))
     \<and> (\<forall>n\<in>set (waiting st). \<forall>d\<in>snd ` set (seen_at st). d \<le> depth_at st n + 1)"

definition expanded :: "nat \<Rightarrow> causal_hop set \<Rightarrow> search \<Rightarrow> bool" where
  "expanded m A st \<longleftrightarrow>
     (\<forall>h\<in>A. hop_source h \<in> set (finished st) \<longrightarrow> depth_at st (hop_source h) < m \<longrightarrow>
        hop_target h \<in> set (map fst (seen_at st)) \<and> depth_at st (hop_target h) \<le> depth_at st (hop_source h) + 1)"

definition parented :: "nat \<Rightarrow> causal_hop set \<Rightarrow> entity_ref \<Rightarrow> search \<Rightarrow> bool" where
  "parented m A s st \<longleftrightarrow>
     map_of (seen_at st) s = Some 0 \<and> set (map fst (came_by st)) \<subseteq> set (map fst (seen_at st))
     \<and> (\<forall>e\<in>set (map fst (seen_at st)) - {s}. depth_at st e \<le> m
          \<and> (\<exists>h\<in>A. map_of (came_by st) e = Some h \<and> hop_target h = e
               \<and> hop_source h \<in> set (map fst (seen_at st)) \<and> depth_at st e = Suc (depth_at st (hop_source h))))"

lemmas search_defs = well_ordered_def expanded_def parented_def

lemma map_of_later: "e \<in> set (map fst ds) \<Longrightarrow> map_of (ds @ new) e = map_of ds e"
  by (force simp: map_add_def map_of_eq_None_iff split: option.split)

lemma map_of_fresh:
  assumes "h \<in> set (fresh (map fst ds) hs)"
  shows "map_of (ds @ map (\<lambda>h. (hop_target h, f h)) (fresh (map fst ds) hs)) (hop_target h) = Some (f h)"
proof -
  have "map_of (map (\<lambda>h. (hop_target h, f h)) (fresh (map fst ds) hs)) (hop_target h) = Some (f h)"
    using assms by (intro map_of_is_SomeI) (auto simp: comp_def distinct_fresh)
  moreover have "map_of ds (hop_target h) = None"
    using set_fresh [OF assms] by (simp add: map_of_eq_None_iff)
  ultimately show ?thesis by (simp add: map_of_append map_add_def)
qed

lemma depths_increase:
  assumes "well_ordered st" "waiting st = n # q" "w \<in> set q"
  shows "depth_at st n \<le> depth_at st w"
proof -
  obtain xs a b ys where ds: "seen_at st = xs @ (n, a) # ys" "map fst ys = q"
    using assms(1,2) by (auto simp: well_ordered_def map_eq_append_conv map_eq_Cons_conv)
  then obtain b where b: "(w, b) \<in> set ys" using assms(3) by auto
  have dist: "distinct (map fst (seen_at st))" and srt: "sorted (map snd (seen_at st))"
    using assms(1) unfolding well_ordered_def by metis+
  have "map_of (seen_at st) n = Some a"
    by (rule map_of_is_SomeI [OF dist]) (simp add: ds(1))
  moreover have "map_of (seen_at st) w = Some b"
    by (rule map_of_is_SomeI [OF dist]) (simp add: ds(1) b)
  moreover have "a \<le> b"
    using srt b unfolding ds(1) by (auto simp: sorted_append)
  ultimately show ?thesis by (simp add: depth_at_def)
qed

definition close :: "search \<Rightarrow> search" where
  "close st = st\<lparr>finished := finished st @ [hd (waiting st)], waiting := tl (waiting st)\<rparr>"

definition discover :: "causal_hop list \<Rightarrow> nat \<Rightarrow> search \<Rightarrow> search" where
  "discover new d st =
     st\<lparr>waiting := waiting st @ map hop_target new, seen_at := seen_at st @ map (\<lambda>h. (hop_target h, d)) new,
        came_by := came_by st @ map (\<lambda>h. (hop_target h, h)) new\<rparr>"

lemma close_fields [simp]:
  "depth_at (close st) = depth_at st" "seen_at (close st) = seen_at st" "came_by (close st) = came_by st"
  "finished (close st) = finished st @ [hd (waiting st)]" "waiting (close st) = tl (waiting st)"
  by (simp_all add: close_def depth_at_def fun_eq_iff)

lemma discover_fields [simp]:
  "finished (discover new d st) = finished st" "waiting (discover new d st) = waiting st @ map hop_target new"
  "came_by (discover new d st) = came_by st @ map (\<lambda>h. (hop_target h, h)) new"
  by (simp_all add: discover_def)

lemma close_ordered:
  assumes "well_ordered st" "waiting st = n # q"
  shows "well_ordered (close st)"
proof -
  have q: "set q \<subseteq> set (waiting st)" "hd (waiting st) = n" "tl (waiting st) = q" using assms(2) by auto
  moreover have "\<forall>w\<in>set q. \<forall>d\<in>snd ` set (seen_at st). d \<le> depth_at st w + 1"
    using assms(1) q(1) by (auto simp: well_ordered_def)
  ultimately show ?thesis
    using assms by (simp add: well_ordered_def close_def depth_at_def)
qed

lemma depth_seen:
  assumes "well_ordered st" "n \<in> set (waiting st)" "e \<in> set (map fst (seen_at st))"
  shows "depth_at st e \<le> depth_at st n + 1"
proof -
  obtain d where "(e, d) \<in> set (seen_at st)" using assms(3) by auto
  moreover from this have "depth_at st e = d"
    using map_of_is_SomeI [of "seen_at st" e d] assms(1) unfolding well_ordered_def depth_at_def by simp
  ultimately show ?thesis
    using assms(1,2) by (force simp: well_ordered_def)
qed

lemma depth_discover:
  assumes "new = fresh (map fst (seen_at st)) hs"
  shows "e \<in> set (map fst (seen_at st)) \<Longrightarrow> depth_at (discover new d st) e = depth_at st e"
    and "h \<in> set new \<Longrightarrow> depth_at (discover new d st) (hop_target h) = d"
    and "e \<in> set (map fst (seen_at (discover new d st)))
      \<longleftrightarrow> e \<in> set (map fst (seen_at st)) \<or> e \<in> hop_target ` set new"
  using map_of_fresh [of h "seen_at st" hs "\<lambda>_. d"] assms
  by (auto simp: depth_at_def discover_def map_of_later image_image image_Un simp del: map_of_append)

lemma sorted_constant [simp]: "sorted (map (\<lambda>x. c) xs)"
  by (induction xs) auto

lemma expand_ordered:
  assumes ok: "well_ordered st" and w: "waiting st = n # q"
    and new: "new = fresh (map fst (seen_at st)) hs"
  shows "well_ordered (close (discover new (Suc (depth_at st n)) st))"
proof -
  let ?st = "discover new (Suc (depth_at st n)) st"
  have parts: "map fst (seen_at st) = finished st @ n # q" "distinct (finished st @ n # q)"
    "sorted (map snd (seen_at st))" "\<forall>d\<in>snd ` set (seen_at st). d \<le> Suc (depth_at st n)"
    using ok w by (simp_all add: well_ordered_def)
  have seen: "seen_at ?st = seen_at st @ map (\<lambda>h. (hop_target h, Suc (depth_at st n))) new"
    "waiting ?st = n # q @ map hop_target new" "finished ?st = finished st"
    by (simp_all add: discover_def w)
  have "set (map hop_target new) \<inter> set (map fst (seen_at st)) = {}" "distinct (map hop_target new)"
    unfolding new fresh_targets by (auto simp: distinct_fresh)
  then have dist: "distinct (finished ?st @ waiting ?st)"
    using parts(1,2) by (auto simp: seen w)
  have srt: "sorted (map snd (seen_at ?st))"
    using parts(3,4) by (auto simp: seen sorted_append comp_def)
  have "\<forall>d\<in>snd ` set (seen_at ?st). d \<le> Suc (depth_at ?st v)" if v: "v \<in> set (waiting ?st)" for v
  proof -
    have "depth_at st n \<le> depth_at ?st v"
    proof (cases "v \<in> hop_target ` set new")
      case True
      then show ?thesis using depth_discover(2) [OF new] by auto
    next
      case False
      then have v: "v = n \<or> v \<in> set q" using v by (auto simp: seen w)
      then have "v \<in> set (map fst (seen_at st))" unfolding parts(1) by auto
      then show ?thesis
        using depth_discover(1) [OF new] v depths_increase [OF ok w] by auto
    qed
    moreover have "d \<le> Suc (depth_at st n)" if "d \<in> snd ` set (seen_at ?st)" for d
      using that parts(4) by (auto simp: seen)
    ultimately show ?thesis by fastforce
  qed
  then have "well_ordered ?st"
    using dist srt parts(1) unfolding well_ordered_def by (simp add: seen comp_def w)
  then show ?thesis using close_ordered seen(2) by auto
qed

lemma expand_expanded:
  assumes ok: "well_ordered st" "expanded m (set arcs) st" and w: "waiting st = n # q"
    and new: "new = fresh (map fst (seen_at st)) (hops_from arcs n)"
  shows "expanded m (set arcs) (close (discover new (Suc (depth_at st n)) st))"
proof -
  let ?st = "discover new (Suc (depth_at st n)) st"
  have seen: "set (finished st) \<subseteq> set (map fst (seen_at st))" "n \<in> set (map fst (seen_at st))"
    using ok(1) w by (auto simp: well_ordered_def)
  have "hop_target h \<in> set (map fst (seen_at ?st)) \<and> depth_at ?st (hop_target h) \<le> depth_at ?st (hop_source h) + 1"
    if h: "h \<in> set arcs" "hop_source h = n \<or> hop_source h \<in> set (finished st)" "depth_at st (hop_source h) < m" for h
  proof -
    have src: "hop_source h \<in> set (map fst (seen_at st))" using h(2) seen by auto
    note here = depth_discover(1) [OF new src, of "Suc (depth_at st n)"]
    show ?thesis
  proof (cases "hop_target h \<in> set (map fst (seen_at st))")
    case True
    have "depth_at st (hop_target h) \<le> depth_at st (hop_source h) + 1"
      using h ok(2) depth_seen [OF ok(1) _ True, of n] w by (auto simp: expanded_def)
    then show ?thesis
      using depth_discover(1,3) [OF new, of "hop_target h"] True here by simp
  next
    case False
    then have "hop_source h = n"
      using h ok(2) by (auto simp: expanded_def)
    moreover from this False h(1) have "hop_target h \<in> hop_target ` set new"
      using fresh_targets [of "map fst (seen_at st)" "hops_from arcs n"] by (auto simp: new hops_from_def)
    then have "depth_at ?st (hop_target h) = depth_at st n + 1"
      using depth_discover(2) [OF new] by auto
    ultimately show ?thesis
      using here depth_discover(3) [OF new] \<open>hop_target h \<in> hop_target ` set new\<close> by simp
  qed
  qed
  note step = this
  have keep: "depth_at ?st (hop_source h) = depth_at st (hop_source h)"
    if "hop_source h = n \<or> hop_source h \<in> set (finished st)" for h
    using that seen depth_discover(1) [OF new] by auto
  show ?thesis
    unfolding expanded_def
  proof (intro ballI impI)
    fix h assume h: "h \<in> set arcs" "hop_source h \<in> set (finished (close ?st))" "depth_at (close ?st) (hop_source h) < m"
    then have mem: "hop_source h = n \<or> hop_source h \<in> set (finished st)" using w by auto
    with h(3) keep [OF mem] have "depth_at st (hop_source h) < m" by simp
    then show "hop_target h \<in> set (map fst (seen_at (close ?st)))
        \<and> depth_at (close ?st) (hop_target h) \<le> depth_at (close ?st) (hop_source h) + 1"
      using step [OF h(1) mem] by simp
  qed
qed

lemma expand_parented:
  assumes ok: "well_ordered st" "parented m (set arcs) s st" and w: "waiting st = n # q"
    and new: "new = fresh (map fst (seen_at st)) (hops_from arcs n)" and d: "depth_at st n < m"
  shows "parented m (set arcs) s (close (discover new (Suc (depth_at st n)) st))"
proof -
  let ?st = "discover new (Suc (depth_at st n)) st"
  have n: "n \<in> set (map fst (seen_at st))" using ok(1) w by (auto simp: well_ordered_def)
  have s: "s \<in> set (map fst (seen_at st))" "map_of (seen_at st) s = Some 0"
    using ok(2) map_of_SomeD [of "seen_at st" s 0] by (auto simp: parented_def intro: rev_image_eqI)
  have kept: "map_of (came_by ?st) e = map_of (came_by st) e" if "e \<in> set (map fst (seen_at st))"
    "map_of (came_by st) e \<noteq> None" for e
    using that by (auto simp: map_add_def split: option.split)
  have "depth_at ?st e \<le> m \<and> (\<exists>h\<in>set arcs. map_of (came_by ?st) e = Some h \<and> hop_target h = e
      \<and> hop_source h \<in> set (map fst (seen_at ?st)) \<and> depth_at ?st e = Suc (depth_at ?st (hop_source h)))"
    if e: "e \<in> set (map fst (seen_at ?st))" "e \<noteq> s" for e
  proof (cases "e \<in> set (map fst (seen_at st))")
    case True
    then obtain h where "h \<in> set arcs" "map_of (came_by st) e = Some h" "hop_target h = e" "depth_at st e \<le> m"
      "hop_source h \<in> set (map fst (seen_at st))" "depth_at st e = Suc (depth_at st (hop_source h))"
      using ok(2) e(2) unfolding parented_def by blast
    then show ?thesis
      using kept [OF True] depth_discover(1,3) [OF new] True by (intro conjI bexI [of _ h]) auto
  next
    case False
    then obtain h where h: "h \<in> set new" "e = hop_target h"
      using e(1) depth_discover(3) [OF new] by auto
    then have "h \<in> set arcs" "hop_source h = n"
      using set_fresh [of h "map fst (seen_at st)" "hops_from arcs n"] new by (auto simp: hops_from_def)
    moreover have "map_of (came_by ?st) e = Some h"
    proof -
      have "map_of (map (\<lambda>h. (hop_target h, h)) new) e = Some h"
        using h by (intro map_of_is_SomeI) (auto simp: new comp_def distinct_fresh)
      moreover have "map_of (came_by st) e = None"
        using ok(2) False by (auto simp: parented_def map_of_eq_None_iff)
      ultimately show ?thesis by (simp add: map_add_def)
    qed
    ultimately show ?thesis
      using h d n depth_discover [OF new] by (intro conjI bexI [of _ h]) auto
  qed
  moreover have "map_of (seen_at ?st) s = Some 0"
    using s by (simp add: discover_def map_of_later del: map_of_append)
  moreover have "set (map fst (came_by ?st)) \<subseteq> set (map fst (seen_at ?st))"
    using ok(2) by (force simp: parented_def discover_def)
  ultimately show ?thesis
    by (simp add: parented_def)
qed

text \<open>The search ends with everything found closed.\<close>

definition outcome :: "search \<Rightarrow> depths \<times> parents" where
  "outcome st = (seen_at st, came_by st)"

lemma bfs_search:
  assumes "well_ordered st" "expanded m (set arcs) st" "parented m (set arcs) s st"
  shows "\<exists>st'. bfs m arcs (waiting st) (seen_at st) (came_by st) = outcome st' \<and> waiting st' = []
    \<and> well_ordered st' \<and> expanded m (set arcs) st' \<and> parented m (set arcs) s st'"
  using assms
proof (induction m arcs "waiting st" "seen_at st" "came_by st" arbitrary: st rule: bfs.induct)
  case (1 m arcs)
  then show ?case by (intro exI [of _ st]) (simp add: outcome_def flip: 1(1))
next
  case (2 m arcs n q)
  note w = \<open>n # q = waiting st\<close> [symmetric]
  let ?new = "fresh (map fst (seen_at st)) (hops_from arcs n)"
  show ?case
  proof (cases "m \<le> depth_at st n")
    case True
    have "expanded m (set arcs) (close st)" "parented m (set arcs) s (close st)"
      using 2(5,6) True w by (auto simp: expanded_def parented_def)
    then have "\<exists>st'. bfs m arcs (waiting (close st)) (seen_at (close st)) (came_by (close st)) = outcome st' \<and> waiting st' = []
        \<and> well_ordered st' \<and> expanded m (set arcs) st' \<and> parented m (set arcs) s st'"
      using close_ordered [OF 2(4) w] True w by (intro 2(1) [OF refl]) (auto simp: depth_at_def)
    then show ?thesis
      using True w by (simp add: depth_at_def Let_def)
  next
    case False
    let ?st = "close (discover ?new (Suc (depth_at st n)) st)"
    have "\<exists>st'. bfs m arcs (waiting ?st) (seen_at ?st) (came_by ?st) = outcome st' \<and> waiting st' = []
        \<and> well_ordered st' \<and> expanded m (set arcs) st' \<and> parented m (set arcs) s st'"
      using False w expand_ordered [OF 2(4) w refl] expand_expanded [OF 2(4,5) w refl]
        expand_parented [OF 2(4,6) w refl]
      by (intro 2(2) [OF refl _ refl]) (auto simp: depth_at_def discover_def)
    then show ?thesis
      using False w by (simp add: depth_at_def Let_def discover_def)
  qed
qed

section \<open>Correctness\<close>

lemma walk_from_search:
  obtains st where "walk_from m arcs s = (seen_at st, came_by st)" "waiting st = []"
    "well_ordered st" "expanded m (set arcs) st" "parented m (set arcs) s st"
proof -
  let ?st = "\<lparr>finished = [], waiting = [s], seen_at = [(s, 0)], came_by = []\<rparr>"
  have "well_ordered ?st" "expanded m (set arcs) ?st" "parented m (set arcs) s ?st"
    by (simp_all add: search_defs depth_at_def)
  from bfs_search [OF this] show thesis
    using that by (auto simp: walk_from_def outcome_def)
qed

lemma found_depth:
  assumes "waiting st = []" "well_ordered st" "expanded m (set arcs) st" "parented m (set arcs) s st"
    and "walk (set arcs) s p e" "length p \<le> m"
  shows "e \<in> set (map fst (seen_at st)) \<and> depth_at st e \<le> length p"
  using assms(5,6)
proof (induction p arbitrary: e rule: rev_induct)
  case Nil
  then show ?case using assms(4) by (auto simp: parented_def depth_at_def dest: map_of_SomeD intro: rev_image_eqI)
next
  case (snoc h p)
  have fin: "set (finished st) = set (map fst (seen_at st))"
    using assms(1,2) unfolding well_ordered_def by simp
  from snoc have h: "h \<in> set arcs" "hop_target h = e" and u: "hop_source h \<in> set (finished st)" "depth_at st (hop_source h) \<le> length p"
    unfolding fin by (auto simp: walk_snoc)
  then have "depth_at st (hop_source h) < m" using snoc.prems(2) by simp
  then show ?case
    using assms(3) h u unfolding expanded_def by fastforce
qed

lemma path_back_walk:
  assumes "parented m (set arcs) s st" "e \<in> set (map fst (seen_at st))" "depth_at st e \<le> k"
  shows "walk (set arcs) s (path_back k (came_by st) s e) e \<and> length (path_back k (came_by st) s e) = depth_at st e"
  using assms(2,3)
proof (induction k arbitrary: e)
  case 0
  then have "e = s" using assms(1) by (force simp: parented_def)
  then show ?case using assms(1) by (simp add: path_back.simps parented_def depth_at_def)
next
  case (Suc k)
  show ?case
  proof (cases "e = s")
    case True
    then show ?thesis using assms(1) by (simp add: path_back.simps parented_def depth_at_def)
  next
    case False
    then obtain h where h: "h \<in> set arcs" "map_of (came_by st) e = Some h" "hop_target h = e"
      "hop_source h \<in> set (map fst (seen_at st))" "depth_at st e = Suc (depth_at st (hop_source h))"
      using assms(1) Suc.prems(1) unfolding parented_def by blast
    then show ?thesis
      using Suc.IH [OF h(4)] Suc.prems(2) False by (simp add: path_back.simps [of "Suc k"] walk_snoc)
  qed
qed

text \<open>The depth is bounded by the number of parents, so following them reaches the start.\<close>

lemma depth_bounded:
  assumes "parented m (set arcs) s st" "e \<in> set (map fst (seen_at st))"
  shows "depth_at st e \<le> length (came_by st)"
proof -
  have chain: "\<exists>es. distinct es \<and> length es = depth_at st x \<and> set es \<subseteq> set (map fst (came_by st))
      \<and> (\<forall>y\<in>set es. 0 < depth_at st y \<and> depth_at st y \<le> depth_at st x)"
    if "x \<in> set (map fst (seen_at st))" "depth_at st x = d" for x d
    using that
  proof (induction d arbitrary: x)
    case (Suc d)
    then have "x \<noteq> s" using assms(1) by (auto simp: parented_def depth_at_def)
    then obtain h where h: "map_of (came_by st) x = Some h" "hop_source h \<in> set (map fst (seen_at st))"
      "depth_at st x = Suc (depth_at st (hop_source h))"
      using assms(1) Suc.prems(1) unfolding parented_def by blast
    then obtain es where "distinct es" "length es = d" "set es \<subseteq> set (map fst (came_by st))"
      "\<forall>y\<in>set es. 0 < depth_at st y \<and> depth_at st y \<le> d"
      using Suc.IH [of "hop_source h"] Suc.prems(2) by auto
    moreover from this have "x \<notin> set es" using Suc.prems(2) by fastforce
    ultimately show ?case
      using h Suc.prems(2) by (intro exI [of _ "x # es"]) (auto dest: map_of_SomeD intro: rev_image_eqI)
  qed (auto intro: exI [of _ "[]"])
  obtain es where "distinct es" "length es = depth_at st e" "set es \<subseteq> set (map fst (came_by st))"
    using chain [OF assms(2) refl] by blast
  then have "depth_at st e \<le> card (set (map fst (came_by st)))"
    by (metis distinct_card card_mono List.finite_set)
  also have "\<dots> \<le> length (came_by st)" using card_length [of "map fst (came_by st)"] by simp
  finally show ?thesis .
qed

lemma in_map_filter: "y \<in> set (List.map_filter f xs) \<longleftrightarrow> (\<exists>x\<in>set xs. f x = Some y)"
  by (induction xs) (auto simp: List.map_filter_def)

lemma nearest_None: "nearest ds targets = None \<longleftrightarrow> (\<forall>e\<in>set targets. map_of ds e = None)"
proof -
  let ?k = "\<lambda>e. (the (map_of ds e), canonical e)" and ?xs = "filter (\<lambda>e. map_of ds e \<noteq> None) targets"
  have "nearest ds targets = None \<longleftrightarrow> sort_key ?k ?xs = []"
    by (simp add: nearest_def split: list.split)
  also have "\<dots> \<longleftrightarrow> ?xs = []"
    by (simp only: set_empty [symmetric] set_sort)
  finally show ?thesis by (simp add: filter_empty_conv)
qed

lemma nearest_Some:
  assumes "nearest ds targets = Some e"
  shows "e \<in> set targets \<and> map_of ds e \<noteq> None
    \<and> (\<forall>x\<in>set targets. map_of ds x \<noteq> None \<longrightarrow> the (map_of ds e) \<le> the (map_of ds x))"
proof -
  let ?k = "\<lambda>e. (the (map_of ds e), canonical e)"
  obtain ys where ys: "sort_key ?k (filter (\<lambda>e. map_of ds e \<noteq> None) targets) = e # ys"
    using assms by (auto simp: nearest_def split: list.splits)
  then have mem: "set (e # ys) = {x \<in> set targets. map_of ds x \<noteq> None}"
    by (metis set_filter set_sort)
  have "sorted (map ?k (e # ys))"
    using sorted_sort_key [of ?k] ys by metis
  then have "?k e \<le> ?k x" if "x \<in> set (e # ys)" for x
    using that by auto
  then have "the (map_of ds e) \<le> the (map_of ds x)" if "x \<in> set (e # ys)" for x
    using that by (fastforce simp: less_eq_prod_def)
  then show ?thesis using mem by auto
qed

lemma path_within_parts:
  assumes "s \<notin> set T"
  obtains st where "path_within m arcs s T = map_option (path_back (length (came_by st)) (came_by st) s) (nearest (seen_at st) T)"
    "distance_within m arcs s T = py_min (List.map_filter (map_of (seen_at st)) T)"
    "waiting st = []" "well_ordered st" "expanded m (set arcs) st" "parented m (set arcs) s st"
  using walk_from_search [of m arcs s] assms by (metis (no_types, lifting) case_prod_conv distance_within_def fst_conv path_within_def)

lemma map_of_seen: "e \<in> set (map fst ds) \<longleftrightarrow> map_of ds e \<noteq> None"
  by (simp add: map_of_eq_None_iff)

theorem path_within_shortest:
  assumes "path_within m arcs s T = Some p"
  shows "\<exists>e\<in>set T. walk (set arcs) s p e \<and> length p \<le> m
    \<and> (\<forall>q x. x \<in> set T \<longrightarrow> walk (set arcs) s q x \<longrightarrow> length p \<le> length q)"
proof (cases "s \<in> set T")
  case True
  with assms show ?thesis by (auto simp: path_within_def)
next
  case False
  then obtain st where p: "path_within m arcs s T = map_option (path_back (length (came_by st)) (came_by st) s) (nearest (seen_at st) T)"
    and st: "waiting st = []" "well_ordered st" "expanded m (set arcs) st" "parented m (set arcs) s st"
    using path_within_parts by metis
  obtain e where e: "nearest (seen_at st) T = Some e" "p = path_back (length (came_by st)) (came_by st) s e"
    using assms p by auto
  note near = nearest_Some [OF e(1)]
  then have seen: "e \<in> set (map fst (seen_at st))" by (simp add: map_of_seen del: set_map)
  have w: "walk (set arcs) s p e" "length p = depth_at st e"
    using path_back_walk [OF st(4) seen depth_bounded [OF st(4) seen]] e(2) by simp_all
  have "depth_at st e \<le> m"
    using st(4) seen by (cases "e = s") (auto simp: parented_def depth_at_def)
  moreover have "depth_at st e \<le> length q" if "x \<in> set T" "walk (set arcs) s q x" for q x
  proof (cases "length q \<le> m")
    case True
    then have "x \<in> set (map fst (seen_at st))" "depth_at st x \<le> length q"
      using found_depth [OF st that(2)] by auto
    moreover from this near that(1) have "depth_at st e \<le> depth_at st x"
      unfolding map_of_seen depth_at_def by blast
    ultimately show ?thesis by simp
  qed (use calculation in simp)
  ultimately show ?thesis using near w by auto
qed

theorem path_within_None:
  "path_within m arcs s T = None \<longleftrightarrow> (\<forall>q x. x \<in> set T \<longrightarrow> walk (set arcs) s q x \<longrightarrow> m < length q)"
proof (cases "s \<in> set T")
  case True
  then have "\<not> (\<forall>q x. x \<in> set T \<longrightarrow> walk (set arcs) s q x \<longrightarrow> m < length q)"
    by (intro notI) (auto dest!: spec [of _ "[]"] spec [of _ s])
  with True show ?thesis by (simp add: path_within_def)
next
  case False
  then obtain st where p: "path_within m arcs s T = map_option (path_back (length (came_by st)) (came_by st) s) (nearest (seen_at st) T)"
    and st: "waiting st = []" "well_ordered st" "expanded m (set arcs) st" "parented m (set arcs) s st"
    using path_within_parts by metis
  show ?thesis
  proof
    assume "path_within m arcs s T = None"
    then have "\<forall>e\<in>set T. e \<notin> set (map fst (seen_at st))"
      unfolding p map_of_seen by (simp add: nearest_None)
    then show "\<forall>q x. x \<in> set T \<longrightarrow> walk (set arcs) s q x \<longrightarrow> m < length q"
      using found_depth [OF st] by (meson not_le)
  next
    assume none: "\<forall>q x. x \<in> set T \<longrightarrow> walk (set arcs) s q x \<longrightarrow> m < length q"
    show "path_within m arcs s T = None"
    proof (rule ccontr)
      assume "path_within m arcs s T \<noteq> None"
      then obtain q where "path_within m arcs s T = Some q" by blast
      from path_within_shortest [OF this] none show False by (metis not_le)
    qed
  qed
qed

theorem distance_is_path_length:
  "distance_within m arcs s T = map_option length (path_within m arcs s T)"
proof -
  obtain st where w: "walk_from m arcs s = (seen_at st, came_by st)"
    and st: "waiting st = []" "well_ordered st" "expanded m (set arcs) st" "parented m (set arcs) s st"
    using walk_from_search by metis
  have d: "distance_within m arcs s T = py_min (List.map_filter (map_of (seen_at st)) T)"
    by (simp add: distance_within_def w)
  show ?thesis
  proof (cases "s \<in> set T")
    case True
    have "0 \<in> set (List.map_filter (map_of (seen_at st)) T)"
      using True st(4) by (auto simp: in_map_filter parented_def)
    then have "distance_within m arcs s T = Some 0"
      unfolding d by (simp add: py_min_Some)
    with True show ?thesis by (simp add: path_within_def)
  next
    case False
    show ?thesis
    proof (cases "nearest (seen_at st) T")
      case None
      then have "y \<notin> set (List.map_filter (map_of (seen_at st)) T)" for y
        by (auto simp: nearest_None in_map_filter)
      then have "List.map_filter (map_of (seen_at st)) T = []" by (metis last_in_set)
      with None False show ?thesis by (simp add: d path_within_def w)
    next
      case (Some e)
      note near = nearest_Some [OF Some]
      then have seen: "e \<in> set (map fst (seen_at st))" by (simp add: map_of_seen del: set_map)
      have "depth_at st e \<in> set (List.map_filter (map_of (seen_at st)) T)"
      proof -
        obtain d where "e \<in> set T" "map_of (seen_at st) e = Some d" using near by blast
        then have "d \<in> set (List.map_filter (map_of (seen_at st)) T)"
          by (auto simp: in_map_filter)
        with \<open>map_of (seen_at st) e = Some d\<close> show ?thesis by (simp add: depth_at_def)
      qed
      moreover have "depth_at st e \<le> d" if d: "d \<in> set (List.map_filter (map_of (seen_at st)) T)" for d
      proof -
        obtain x where "x \<in> set T" "map_of (seen_at st) x = Some d"
          using d by (auto simp: in_map_filter)
        with near have "the (map_of (seen_at st) e) \<le> the (map_of (seen_at st) x)" by blast
        with \<open>map_of (seen_at st) x = Some d\<close> show ?thesis by (simp add: depth_at_def)
      qed
      ultimately have "py_min (List.map_filter (map_of (seen_at st)) T) = Some (depth_at st e)"
        by (simp add: py_min_Some)
      then show ?thesis
        using path_back_walk [OF st(4) seen depth_bounded [OF st(4) seen]] Some False
        by (simp add: d path_within_def w)
    qed
  qed
qed

end
