(* ===== verification/Floats.thy ===== *)
theory Floats
  imports Prelude
begin

text \<open>
  Python's \<open>float\<close>: a finite double is an integer multiple of the smallest subnormal \<open>2\<^sup>-\<^sup>1\<^sup>0\<^sup>7\<^sup>4\<close>, and is
  held as that integer, so comparisons are those of the integers. Rounding is to the nearest value with 53
  significant bits, a tie to the even one. Infinities and NaN are not values of the model.
\<close>

type_synonym float64 = int

definition UNIT :: int where
  "UNIT = 2 ^ 1074"

text \<open>The quotient of two naturals rounded to the nearest integer, a tie to the even one.\<close>

definition div_even :: "nat \<Rightarrow> nat \<Rightarrow> nat" where
  "div_even n d =
     (let q = n div d; r = 2 * (n mod d)
      in if r < d then q else if r > d then q + 1 else if even q then q else q + 1)"

fun bit_length :: "nat \<Rightarrow> nat" where
  "bit_length n = (if n = 0 then 0 else Suc (bit_length (n div 2)))"

declare bit_length.simps [simp del]

text \<open>The quotient \<open>n / d\<close> of units rounded to 53 significant bits.\<close>

definition round_quotient :: "nat \<Rightarrow> nat \<Rightarrow> nat" where
  "round_quotient n d =
     (let step = 2 ^ (bit_length (n div d) - 53) in div_even n (d * step) * step)"

definition signed :: "int \<Rightarrow> nat \<Rightarrow> float64" where
  "signed x n = (if x < 0 then - int n else int n)"

definition float_of_int :: "int \<Rightarrow> float64" where
  "float_of_int x =
     (if \<bar>x\<bar> \<le> 2 ^ 53 then x * UNIT else signed x (round_quotient (nat (\<bar>x\<bar> * UNIT)) 1))"

definition float_times :: "float64 \<Rightarrow> float64 \<Rightarrow> float64" where
  "float_times a b = signed (a * b) (round_quotient (nat \<bar>a * b\<bar>) (nat UNIT))"

definition float_add :: "float64 \<Rightarrow> float64 \<Rightarrow> float64" where
  "float_add a b = signed (a + b) (round_quotient (nat \<bar>a + b\<bar>) 1)"

text \<open>\<open>round(x, 3)\<close>: the double nearest to the decimal with three places nearest to the value.\<close>

definition round3 :: "float64 \<Rightarrow> float64" where
  "round3 x = signed x (round_quotient (div_even (nat \<bar>x\<bar> * 1000) (nat UNIT) * nat UNIT) 1000)"

text \<open>\<open>f"{x:.3f}"\<close>, exact like the C library's formatting.\<close>

definition format3 :: "float64 \<Rightarrow> string" where
  "format3 x =
     (let n = div_even (nat \<bar>x\<bar> * 1000) (nat UNIT); digits = nat_str (n mod 1000) in
      (if x < 0 then ''-'' else []) @ nat_str (n div 1000) @ ''.''
      @ replicate (3 - length digits) (CHR ''0'') @ digits)"

lemma UNIT_pos [simp]: "0 < UNIT" "0 \<le> UNIT" "UNIT \<noteq> 0" "\<not> UNIT < 0" "\<not> UNIT \<le> 0"
  by (simp_all add: UNIT_def)

text \<open>A rounded quotient is within half a unit of the exact one.\<close>

lemma div_even_near:
  assumes "0 < d"
  shows "2 * \<bar>int (div_even n d * d) - int n\<bar> \<le> int d"
proof -
  have "int (n div d * d) + int (n mod d) = int n"
    by (metis div_mult_mod_eq of_nat_add)
  moreover have "n mod d < d" using assms by simp
  ultimately show ?thesis
    unfolding div_even_def Let_def
    by (cases "2 * (n mod d) < d"; cases "2 * (n mod d) > d"; cases "even (n div d)")
      (simp_all add: algebra_simps)
qed

lemma div_even_exact [simp]: "0 < d \<Longrightarrow> div_even (q * d) d = q" "0 < d \<Longrightarrow> div_even (d * q) d = q"
  by (simp_all add: div_even_def Let_def)

text \<open>A product that has at most 53 bits is exact.\<close>

lemma float_times_exact:
  assumes "a * b = c * UNIT" "bit_length (nat \<bar>c\<bar>) \<le> 53"
  shows "float_times a b = c"
proof -
  have abs: "nat \<bar>a * b\<bar> = nat \<bar>c\<bar> * nat UNIT"
    by (simp add: assms(1) abs_mult nat_mult_distrib)
  have sign: "a * b < 0 \<longleftrightarrow> c < 0"
    by (simp add: assms(1) mult_less_0_iff)
  have "0 < nat UNIT" by simp
  then have "round_quotient (nat \<bar>c\<bar> * nat UNIT) (nat UNIT) = nat \<bar>c\<bar>"
    using assms(2) by (simp add: round_quotient_def Let_def del: zero_less_nat_eq)
  then show ?thesis
    by (simp add: float_times_def abs signed_def sign)
qed

lemma float_of_int_mono: "x < y \<Longrightarrow> \<bar>x\<bar> \<le> 2 ^ 53 \<Longrightarrow> \<bar>y\<bar> \<le> 2 ^ 53 \<Longrightarrow> float_of_int x < float_of_int y"
  by (simp add: float_of_int_def)

end
