(* ===== verification/Resource_Mechanism.thy ===== *)
theory Resource_Mechanism
  imports Service_Effect Decision_Trace Episode_End Floats
begin

text \<open>
  The resource-pressure rule (\<open>packages/rca/resource_mechanism.py\<close>): a workload change that only lowered
  container limits needs resource pressure on the pods of the new template; when every one of them was
  measured normal for every lowered resource, that mechanism is contradicted. \<open>float\<close> of a
  decimal text is the argument \<open>number\<close>, defined on the texts of finite numbers; what the provider measured is the argument \<open>read\<close>, with \<open>None\<close> for a failed read.
  Documents are as the API server serves them (lists where lists are specified, names are strings).
\<close>

section \<open>Comparing documents\<close>

text \<open>
  \<open>json.dumps(..., sort_keys=True)\<close> is equal for two documents exactly when they agree up to the order of
  keys: the document with all its keys sorted.
\<close>

primrec canon :: "json \<Rightarrow> json" where
  "canon JNull = JNull"
| "canon (JBool b) = JBool b"
| "canon (JInt n) = JInt n"
| "canon (JStr s) = JStr s"
| "canon (JTime t) = JTime t"
| "canon (JList xs) = JList (map canon xs)"
| "canon (JDict d) = JDict (sort_key fst (map (map_prod id canon) d))"

text \<open>Whether a string occurs in the rendered document: in one of its keys or strings.\<close>

definition substring :: "string \<Rightarrow> string \<Rightarrow> bool" where
  "substring p s \<longleftrightarrow> break_on p s \<noteq> None"

primrec mentions :: "string \<Rightarrow> json \<Rightarrow> bool" where
  "mentions p JNull = False"
| "mentions p (JBool b) = False"
| "mentions p (JInt n) = False"
| "mentions p (JStr s) = substring p s"
| "mentions p (JTime t) = False"
| "mentions p (JList xs) = list_ex id (map (mentions p) xs)"
| "mentions p (JDict d) = list_ex (\<lambda>(k, b). substring p k \<or> b) (map (map_prod id (mentions p)) d)"

section \<open>Containers and limits\<close>

definition sub_dict :: "string \<Rightarrow> (string \<times> json) list \<Rightarrow> (string \<times> json) list" where
  "sub_dict k d = as_dict (dict_value d k)"

definition json_items :: "json \<Rightarrow> json list" where
  "json_items v = (case v of JList xs \<Rightarrow> xs | _ \<Rightarrow> [])"

definition named_container :: "json \<Rightarrow> (string \<times> (string \<times> json) list) option" where
  "named_container v =
     (case v of
        JDict d \<Rightarrow> (case dict_value d ''name'' of JStr (c # n) \<Rightarrow> Some (c # n, d) | _ \<Rightarrow> None)
      | _ \<Rightarrow> None)"

type_synonym containers = "(string \<times> (string \<times> json) list) list"

definition containers_of :: "(string \<times> json) list \<Rightarrow> containers" where
  "containers_of b =
     fold (\<lambda>(n, d) acc. AList.update n d acc)
       (List.map_filter named_container
         (json_items (dict_value (sub_dict ''spec'' (sub_dict ''template'' (sub_dict ''spec'' b))) ''containers''))) []"

definition same_containers :: "containers \<Rightarrow> containers \<Rightarrow> bool" where
  "same_containers a b \<longleftrightarrow>
     canon (JDict (map (map_prod id JDict) a)) = canon (JDict (map (map_prod id JDict) b))"

text \<open>The desired state without container resources and without the restart annotation.\<close>

definition RESTART_ANNOTATION :: string where
  "RESTART_ANNOTATION = ''kubectl.kubernetes.io/restartedAt''"

definition dict_remove :: "string \<Rightarrow> (string \<times> json) list \<Rightarrow> (string \<times> json) list" where
  "dict_remove k d = filter (\<lambda>p. fst p \<noteq> k) d"

definition on_key :: "string \<Rightarrow> (json \<Rightarrow> json) \<Rightarrow> (string \<times> json) list \<Rightarrow> (string \<times> json) list" where
  "on_key k f d = map (\<lambda>(x, v). if x = k then (x, f v) else (x, v)) d"

definition on_dict :: "((string \<times> json) list \<Rightarrow> (string \<times> json) list) \<Rightarrow> json \<Rightarrow> json" where
  "on_dict f v = (case v of JDict d \<Rightarrow> JDict (f d) | _ \<Rightarrow> v)"

definition on_items :: "(json \<Rightarrow> json) \<Rightarrow> json \<Rightarrow> json" where
  "on_items f v = (case v of JList xs \<Rightarrow> JList (map f xs) | _ \<Rightarrow> v)"

definition strip_template :: "json \<Rightarrow> json" where
  "strip_template =
     on_dict (on_key ''metadata'' (on_dict (on_key ''annotations'' (on_dict (dict_remove RESTART_ANNOTATION))))
        \<circ> on_key ''spec'' (on_dict (on_key ''containers'' (on_items (on_dict (dict_remove ''resources''))))))"

definition without_resources :: "(string \<times> json) list \<Rightarrow> json" where
  "without_resources b =
     canon (JDict [(''spec'', JDict (on_key ''template'' strip_template (sub_dict ''spec'' b))),
                   (''labels'', dict_value (sub_dict ''metadata'' b) ''labels'')])"

subsection \<open>Quantities\<close>

text \<open>The values of the decimal literals are the doubles nearest to them.\<close>

definition QUANTITY_SUFFIXES :: "(string \<times> float64) list" where
  "QUANTITY_SUFFIXES =
     [(''Ki'', 2 ^ 10 * UNIT), (''Mi'', 2 ^ 20 * UNIT), (''Gi'', 2 ^ 30 * UNIT), (''Ti'', 2 ^ 40 * UNIT),
      (''Pi'', 2 ^ 50 * UNIT), (''Ei'', 2 ^ 60 * UNIT),
      (''n'', 4835703278458517 * 2 ^ 992), (''u'', 4722366482869645 * 2 ^ 1002), (''m'', 1152921504606847 * 2 ^ 1014),
      (''k'', 10 ^ 3 * UNIT), (''M'', 10 ^ 6 * UNIT), (''G'', 10 ^ 9 * UNIT), (''T'', 10 ^ 12 * UNIT),
      (''P'', 10 ^ 15 * UNIT), (''E'', 10 ^ 18 * UNIT)]"

definition ends_with :: "string \<Rightarrow> string \<Rightarrow> bool" where
  "ends_with e s \<longleftrightarrow> starts_with (rev e) (rev s)"

definition parse_quantity :: "(string \<Rightarrow> float64 option) \<Rightarrow> json \<Rightarrow> float64 option" where
  "parse_quantity number v =
     (case v of
        JInt n \<Rightarrow> Some (float_of_int n)
      | JBool b \<Rightarrow> Some (if b then UNIT else 0)
      | JStr s \<Rightarrow>
          if s = [] then None
          else (case List.find (\<lambda>(e, _). ends_with e s) QUANTITY_SUFFIXES of
                  Some (e, x) \<Rightarrow> map_option (\<lambda>n. float_times n x) (number (take (length s - length e) s))
                | None \<Rightarrow> number s)
      | _ \<Rightarrow> None)"

definition limit_of :: "(string \<Rightarrow> float64 option) \<Rightarrow> string \<Rightarrow> (string \<times> json) list \<Rightarrow> float64 option" where
  "limit_of number resource container =
     parse_quantity number (dict_value (sub_dict ''limits'' (sub_dict ''resources'' container)) resource)"

definition lowered_limits ::
  "(string \<Rightarrow> float64 option) \<Rightarrow> (string \<times> json) list \<Rightarrow> (string \<times> json) list \<Rightarrow> (string \<times> string) list" where
  "lowered_limits number older newer =
     (let old = containers_of older in
      concat (map (\<lambda>(n, c). List.map_filter (\<lambda>resource.
          (case (limit_of number resource c,
                 limit_of number resource (case map_of old n of None \<Rightarrow> [] | Some d \<Rightarrow> d)) of
             (None, _) \<Rightarrow> None
           | (Some now, None) \<Rightarrow> Some (n, resource)
           | (Some now, Some was) \<Rightarrow> if now < was then Some (n, resource) else None))
          [''memory'', ''cpu'']) (containers_of newer)))"

section \<open>The pods of the new template\<close>

definition change_versions :: "finding \<Rightarrow> object_version list \<Rightarrow> (object_version \<times> object_version) option" where
  "change_versions f vs =
     (case evidence_ids f of
        [older_id, newer_id] \<Rightarrow>
          List.find (\<lambda>(a, b). evidence_id a = older_id \<and> evidence_id b = newer_id) (zip vs (tl vs))
      | _ \<Rightarrow> None)"

definition first_creation :: "(string \<Rightarrow> instant option) \<Rightarrow> object_version list \<Rightarrow> instant option" where
  "first_creation fi vs = (case vs of [] \<Rightarrow> None | v # _ \<Rightarrow> creation_time fi (body v))"

text \<open>The controlling owner of a version, by kind and name.\<close>

definition controller_of :: "object_version \<Rightarrow> (string \<times> string) option" where
  "controller_of v =
     (case List.map_filter (\<lambda>r. if truthy (dict_value (as_dict r) ''controller'')
              then (case (dict_value (as_dict r) ''kind'', dict_value (as_dict r) ''name'') of
                      (JStr k, JStr n) \<Rightarrow> Some (k, n) | _ \<Rightarrow> None)
              else None)
            (json_items (dict_value (sub_dict ''metadata'' (body v)) ''ownerReferences'')) of
        [] \<Rightarrow> None
      | x # _ \<Rightarrow> Some x)"

definition template_replicasets :: "entity_ref \<Rightarrow> containers \<Rightarrow> journal \<Rightarrow> string list" where
  "template_replicasets actor template history =
     map (name \<circ> fst) (filter (\<lambda>(e, vs). kind e = ''ReplicaSet'' \<and> namespace e = namespace actor \<and> vs \<noteq> []
       \<and> controller_of (last vs) = Some (kind actor, name actor)
       \<and> same_containers (containers_of (body (last vs))) template) history)"

definition template_pods :: "entity_ref \<Rightarrow> string list \<Rightarrow> journal \<Rightarrow> journal" where
  "template_pods actor sets history =
     filter (\<lambda>(e, vs). kind e = ''Pod'' \<and> namespace e = namespace actor \<and> vs \<noteq> []
       \<and> (case controller_of (last vs) of Some (k, n) \<Rightarrow> k = ''ReplicaSet'' \<and> n \<in> set sets | None \<Rightarrow> False)) history"

definition alive_in :: "(string \<Rightarrow> instant option) \<Rightarrow> instant \<Rightarrow> instant \<Rightarrow> object_version list \<Rightarrow> bool" where
  "alive_in fi s e vs \<longleftrightarrow>
     (case first_creation fi vs of None \<Rightarrow> False | Some c \<Rightarrow> c \<le> e)
     \<and> (case deleted_at vs of None \<Rightarrow> True | Some d \<Rightarrow> d \<ge> s)"

definition bound_pods ::
  "(string \<Rightarrow> instant option) \<Rightarrow> entity_ref \<Rightarrow> containers \<Rightarrow> journal \<Rightarrow> instant \<Rightarrow> instant \<Rightarrow> entity_ref list option"
where
  "bound_pods fi actor template history s e =
     (if kind actor \<noteq> ''Deployment'' then None
      else
        (let pods = template_pods actor (template_replicasets actor template history) history;
             alive = sort_key canonical (map fst (filter (\<lambda>(_, vs). alive_in fi s e vs) pods))
         in if list_ex (\<lambda>(_, vs). first_creation fi vs = None) pods \<or> alive = [] then None else Some alive))"

definition oom_or_eviction :: "entity_ref list \<Rightarrow> finding list \<Rightarrow> journal \<Rightarrow> bool" where
  "oom_or_eviction pods fs history \<longleftrightarrow>
     list_ex (\<lambda>f. entity f \<in> set pods
         \<and> (finding_kind f = RESOURCE_PRESSURE
            \<or> finding_kind f = FAILURE_EVENT \<and> dict_value (details f) ''reason'' = JStr ''Evicted''
            \<or> finding_kind f = CONTAINER_FAILURE \<and> mentions ''OOMKilled'' (JDict (details f)))) fs
     \<or> list_ex (\<lambda>p. list_ex (\<lambda>v. mentions ''OOMKilled'' (JDict (sub_dict ''status'' (body v)))) (versions_of history p)) pods"

section \<open>Scope\<close>

record resource_scope =
  scope_actor :: entity_ref
  scope_lowered :: "(string \<times> string) list"
  scope_pods :: "entity_ref list"
  scope_onset :: instant
  scope_boundary :: instant
  scope_start :: instant
  scope_end :: instant
  scope_changes :: "string list"

definition RESOURCE_STEP :: duration where
  "RESOURCE_STEP = 15 * second"

definition BASELINE_GAP :: duration where
  "BASELINE_GAP = 5 * minute"

text \<open>One initiating change that only lowered limits: the versions around it and what it lowered.\<close>

definition limit_change ::
  "(string \<Rightarrow> float64 option) \<Rightarrow> object_version list \<Rightarrow> finding \<Rightarrow> (object_version \<times> (string \<times> string) list) option" where
  "limit_change number vs f =
     (case change_versions f vs of
        None \<Rightarrow> None
      | Some (older, newer) \<Rightarrow>
          let found = lowered_limits number (body older) (body newer) in
          if without_resources (body older) \<noteq> without_resources (body newer) \<or> found = [] then None
          else Some (newer, found))"

definition resource_scope_of ::
  "(string \<Rightarrow> instant option) \<Rightarrow> (string \<Rightarrow> float64 option) \<Rightarrow> hypothesis \<Rightarrow> journal \<Rightarrow> instant option \<Rightarrow> duration
   \<Rightarrow> resource_scope option" where
  "resource_scope_of fi number h history onset grace =
     (let actor = causal_actor h; initiating = initiating_findings h in
      case onset of
        None \<Rightarrow> None
      | Some t \<Rightarrow>
          if kind actor \<noteq> ''Deployment'' \<or> initiating = []
             \<or> list_ex (\<lambda>f. finding_kind f \<noteq> SPEC_CHANGE \<or> entity f \<noteq> actor) initiating then None
          else (case those (map (limit_change number (versions_of history actor)) initiating) of
            None \<Rightarrow> None
          | Some changes \<Rightarrow>
              let latest_after = the (max_by observed_at (map fst changes));
                  s = max (observed_at latest_after) (t - BASELINE_GAP); e = t + grace
              in map_option (\<lambda>pods.
                   \<lparr>scope_actor = actor, scope_lowered = sorted_set (concat (map snd changes)), scope_pods = pods,
                    scope_onset = t, scope_boundary = e, scope_start = s, scope_end = e,
                    scope_changes = dedup (concat (map evidence_ids initiating))\<rparr>)
                 (bound_pods fi actor (containers_of (body latest_after)) history s e)))"

section \<open>Measurements\<close>

record resource_pressure =
  pressure_pod :: entity_ref
  pressure_container :: string
  pressure_resource :: string
  peak :: float64
  pressure_evidence :: string
  sample_count :: nat
  sample_start :: "instant option"
  sample_end :: "instant option"

definition PRESSURE_THRESHOLD :: "string \<Rightarrow> float64" where
  "PRESSURE_THRESHOLD resource = (if resource = ''memory'' then 8106479329266893 * 2 ^ 1021 else 2 ^ 1072)"

record pod_coverage =
  coverage_pod :: entity_ref
  coverage_container :: string
  coverage_resource :: string
  coverage_start :: instant
  coverage_end :: instant
  coverage_peak :: float64
  coverage_evidence :: string

datatype coverage_status = COMPLETE | MISSING | PARTIAL | PRESSURE

definition series_of :: "resource_scope \<Rightarrow> (entity_ref \<times> string \<times> string) list" where
  "series_of sc = concat (map (\<lambda>p. map (Pair p) (scope_lowered sc)) (scope_pods sc))"

definition matching :: "resource_pressure list \<Rightarrow> entity_ref \<times> string \<times> string \<Rightarrow> resource_pressure list" where
  "matching records series =
     filter (\<lambda>i. (pressure_pod i, pressure_container i, pressure_resource i) = series) records"

definition pod_start :: "(string \<Rightarrow> instant option) \<Rightarrow> journal \<Rightarrow> resource_scope \<Rightarrow> entity_ref \<Rightarrow> instant" where
  "pod_start fi history sc p =
     (case first_creation fi (versions_of history p) of None \<Rightarrow> scope_start sc | Some c \<Rightarrow> max (scope_start sc) c)"

text \<open>The one record of a series, when its samples span the window.\<close>

definition series_coverage ::
  "(string \<Rightarrow> instant option) \<Rightarrow> journal \<Rightarrow> resource_scope \<Rightarrow> resource_pressure list
   \<Rightarrow> entity_ref \<times> string \<times> string \<Rightarrow> pod_coverage option" where
  "series_coverage fi history sc records series =
     (let start = pod_start fi history sc (fst series) in
      case matching records series of
        [i] \<Rightarrow>
          (case (sample_start i, sample_end i) of
             (Some s, Some e) \<Rightarrow>
               if sample_count i < 2 \<or> s > start + RESOURCE_STEP \<or> e < scope_end sc - RESOURCE_STEP then None
               else Some \<lparr>coverage_pod = fst series, coverage_container = fst (snd series),
                      coverage_resource = snd (snd series), coverage_start = start, coverage_end = scope_end sc,
                      coverage_peak = peak i, coverage_evidence = pressure_evidence i\<rparr>
           | _ \<Rightarrow> None)
      | _ \<Rightarrow> None)"

definition measure_series ::
  "(string \<Rightarrow> instant option) \<Rightarrow> journal \<Rightarrow> resource_scope \<Rightarrow> resource_pressure list option
   \<Rightarrow> coverage_status \<times> pod_coverage list" where
  "measure_series fi history sc read =
     (case read of
        None \<Rightarrow> (MISSING, [])
      | Some records \<Rightarrow>
          let series = series_of sc in
          if list_ex (\<lambda>x. list_ex (\<lambda>i. peak i \<ge> PRESSURE_THRESHOLD (snd (snd x))) (matching records x)) series
          then (PRESSURE, [])
          else (case those (map (series_coverage fi history sc records) series) of
                  Some cs \<Rightarrow> (COMPLETE, cs)
                | None \<Rightarrow> (if list_ex (\<lambda>x. matching records x \<noteq> []) series then PARTIAL else MISSING, [])))"

section \<open>The mismatch\<close>

record mechanism_mismatch =
  mismatch_hypothesis :: string
  mismatch_actor :: entity_ref
  lowered :: "(string \<times> string) list"
  mismatch_pods :: "entity_ref list"
  mismatch_onset :: instant
  mismatch_boundary :: instant
  mismatch_start :: instant
  mismatch_end :: instant
  mismatch_coverage :: "pod_coverage list"
  change_evidence :: "string list"
  mismatch_preconditions :: "elimination_precondition list"

definition mismatch_of :: "hypothesis \<Rightarrow> resource_scope \<Rightarrow> pod_coverage list \<Rightarrow> mechanism_mismatch" where
  "mismatch_of h sc cs =
     \<lparr>mismatch_hypothesis = hypothesis_id h, mismatch_actor = scope_actor sc, lowered = scope_lowered sc,
      mismatch_pods = scope_pods sc, mismatch_onset = scope_onset sc, mismatch_boundary = scope_boundary sc,
      mismatch_start = scope_start sc, mismatch_end = scope_end sc, mismatch_coverage = cs,
      change_evidence = scope_changes sc,
      mismatch_preconditions = map (\<lambda>n. \<lparr>precondition_name = n, precondition_passed = True\<rparr>)
        [''resource_only_limit_reduction'', ''bound_pods_positively_determined'',
         ''observed_normal_full_coverage'', ''no_positive_pressure_evidence'']\<rparr>"

text \<open>What a case holds that the rule reads.\<close>

record resource_case =
  case_history :: journal
  case_findings :: "finding list"
  case_onset :: "instant option"
  case_grace :: duration

type_synonym pressure_reader = "entity_ref list \<Rightarrow> instant \<Rightarrow> resource_pressure list option"

definition case_scope ::
  "(string \<Rightarrow> instant option) \<Rightarrow> (string \<Rightarrow> float64 option) \<Rightarrow> resource_case \<Rightarrow> hypothesis \<Rightarrow> resource_scope option" where
  "case_scope fi number c h = resource_scope_of fi number h (case_history c) (case_onset c) (case_grace c)"

definition case_measure ::
  "(string \<Rightarrow> instant option) \<Rightarrow> pressure_reader \<Rightarrow> resource_case \<Rightarrow> resource_scope
   \<Rightarrow> coverage_status \<times> pod_coverage list" where
  "case_measure fi read c sc = measure_series fi (case_history c) sc (read (scope_pods sc) (scope_start sc))"

definition assess_resource_mechanism ::
  "(string \<Rightarrow> instant option) \<Rightarrow> (string \<Rightarrow> float64 option) \<Rightarrow> pressure_reader \<Rightarrow> resource_case \<Rightarrow> hypothesis
   \<Rightarrow> mechanism_mismatch option" where
  "assess_resource_mechanism fi number read c h =
     (case case_scope fi number c h of
        None \<Rightarrow> None
      | Some sc \<Rightarrow>
          if oom_or_eviction (scope_pods sc) (case_findings c) (case_history c) then None
          else (case case_measure fi read c sc of (COMPLETE, cs) \<Rightarrow> Some (mismatch_of h sc cs) | _ \<Rightarrow> None))"

definition assess_resource_mechanisms ::
  "(string \<Rightarrow> instant option) \<Rightarrow> (string \<Rightarrow> float64 option) \<Rightarrow> pressure_reader \<Rightarrow> resource_case \<Rightarrow> hypothesis list
   \<Rightarrow> (string \<times> mechanism_mismatch) list" where
  "assess_resource_mechanisms fi number read c hs =
     fold (\<lambda>h d. case assess_resource_mechanism fi number read c h of
             None \<Rightarrow> d | Some m \<Rightarrow> AList.update (hypothesis_id h) m d) hs []"

section \<open>What is still missing\<close>

definition POSITIVE_PRESSURE :: precondition_result where
  "POSITIVE_PRESSURE = result_disqualified ''POSITIVE_PRESSURE_EVIDENCE''"

record coverage_requirement =
  requirement_series :: "(string \<times> string) list"
  coverage_result :: "precondition_result option"
  coverage_reason :: "audit_reason option"

record resource_evaluations =
  found_mismatches :: "(string \<times> mechanism_mismatch) list"
  coverage_preconditions :: "(string \<times> precondition_result list) list"
  coverage_reasons :: "(string \<times> audit_reason list) list"
  coverage_requirements :: "(string \<times> coverage_requirement) list"

text \<open>The lowered series of a hypothesis that left the scope; an unresolvable change is missing evidence.\<close>

definition exit_step ::
  "(string \<Rightarrow> float64 option) \<Rightarrow> entity_ref \<Rightarrow> object_version list \<Rightarrow> finding \<Rightarrow> (bool \<times> (string \<times> string) list) option" where
  "exit_step number actor vs f =
     (if finding_kind f \<noteq> SPEC_CHANGE \<or> entity f \<noteq> actor then Some (True, [])
      else map_option (\<lambda>(older, newer).
        let found = lowered_limits number (body older) (body newer) in
        (found = [] \<or> without_resources (body older) \<noteq> without_resources (body newer), found))
       (change_versions f vs))"

definition scope_exit_series ::
  "(string \<Rightarrow> float64 option) \<Rightarrow> hypothesis \<Rightarrow> journal \<Rightarrow> instant option \<Rightarrow> (string \<times> string) list" where
  "scope_exit_series number h history onset =
     (let actor = causal_actor h in
      if onset = None \<or> kind actor \<noteq> ''Deployment'' \<or> initiating_findings h = [] then []
      else (case those (map (exit_step number actor (versions_of history actor)) (initiating_findings h)) of
              None \<Rightarrow> []
            | Some steps \<Rightarrow> if list_ex fst steps then sorted_set (concat (map snd steps)) else []))"

definition require ::
  "hypothesis \<Rightarrow> (string \<times> string) list \<Rightarrow> precondition_result option \<Rightarrow> audit_reason option
   \<Rightarrow> resource_evaluations \<Rightarrow> resource_evaluations" where
  "require h series res reason acc =
     acc\<lparr>coverage_requirements := AList.update (hypothesis_id h)
           \<lparr>requirement_series = series, coverage_result = res, coverage_reason = reason\<rparr> (coverage_requirements acc)\<rparr>"

definition evaluate_resource ::
  "(string \<Rightarrow> instant option) \<Rightarrow> (string \<Rightarrow> float64 option) \<Rightarrow> pressure_reader \<Rightarrow> resource_case \<Rightarrow> instant option
   \<Rightarrow> hypothesis \<Rightarrow> resource_evaluations \<Rightarrow> resource_evaluations" where
  "evaluate_resource fi number read c evaluation h acc =
     (let i = hypothesis_id h in
      case case_scope fi number c h of
        None \<Rightarrow>
          (let exited = scope_exit_series number h (case_history c) (case_onset c) in
           if exited = [] then acc else require h exited None (Some SCOPE_EXITED) acc)
      | Some sc \<Rightarrow>
          if oom_or_eviction (scope_pods sc) (case_findings c) (case_history c)
          then require h (scope_lowered sc) (Some POSITIVE_PRESSURE) None acc
          else (case case_measure fi read c sc of
              (COMPLETE, cs) \<Rightarrow>
                require h (scope_lowered sc) (Some result_passed) None
                  (acc\<lparr>found_mismatches := AList.update i (mismatch_of h sc cs) (found_mismatches acc)\<rparr>)
            | (PRESSURE, _) \<Rightarrow> require h (scope_lowered sc) (Some POSITIVE_PRESSURE) None acc
            | (st, _) \<Rightarrow>
                (case evaluation of
                   None \<Rightarrow> acc
                 | Some t \<Rightarrow>
                     if t < scope_boundary sc
                     then require h (scope_lowered sc) (Some (result_pending (scope_boundary sc))) None
                            (acc\<lparr>coverage_preconditions :=
                                   AList.update i [result_pending (scope_boundary sc)] (coverage_preconditions acc)\<rparr>)
                     else
                       (let reason = (if st = PARTIAL then PARTIAL_COVERAGE_AFTER_DEADLINE else NO_DATA_AFTER_DEADLINE)
                        in require h (scope_lowered sc) None (Some reason)
                             (acc\<lparr>coverage_reasons := AList.update i [reason] (coverage_reasons acc)\<rparr>)))))"

definition evaluate_resource_mechanisms ::
  "(string \<Rightarrow> instant option) \<Rightarrow> (string \<Rightarrow> float64 option) \<Rightarrow> pressure_reader \<Rightarrow> resource_case \<Rightarrow> instant option
   \<Rightarrow> hypothesis list \<Rightarrow> resource_evaluations" where
  "evaluate_resource_mechanisms fi number read c evaluation hs =
     fold (evaluate_resource fi number read c evaluation) hs
       \<lparr>found_mismatches = [], coverage_preconditions = [], coverage_reasons = [], coverage_requirements = []\<rparr>"

end
