(* ===== verification/Topology.thy ===== *)
theory Topology
  imports Causal_Closure Declared_Hosts Causal_Walk Resource_Mechanism
begin

text \<open>
  The structural relations of a snapshot (\<open>packages/rca/topology.py\<close>): the edges derived from the latest
  objects and the events, ownership up to the workload, the names of an entity, and the causal hops of the
  edges, over which \<open>Causal_Walk\<close> searches. Names, kinds and label values are strings, as the API server
  serves them. The source collects edges in a set; where the order in which it iterates that set matters,
  the order is the argument \<open>enum\<close>.
\<close>

section \<open>Relations of one object\<close>

record relation_edge =
  edge_source :: entity_ref
  edge_relation :: string
  edge_target :: entity_ref

definition labels_of :: "(string \<times> json) list \<Rightarrow> (string \<times> string) list" where
  "labels_of b =
     List.map_filter (\<lambda>(k, v). map_option (Pair k) (str_of v))
       (as_dict (dict_value (as_dict (dict_value b ''metadata'')) ''labels''))"

definition selector_matches :: "json \<Rightarrow> (string \<times> string) list \<Rightarrow> bool" where
  "selector_matches selector labels \<longleftrightarrow>
     (case selector of
        JDict d \<Rightarrow>
          (case (case map_of d ''matchLabels'' of None \<Rightarrow> selector | Some v \<Rightarrow> v) of
             JDict m \<Rightarrow> list_all (\<lambda>(k, v). case v of JStr s \<Rightarrow> map_of labels k = Some s | _ \<Rightarrow> False) m
           | _ \<Rightarrow> False)
      | _ \<Rightarrow> False)"

text \<open>References to ConfigMaps and Secrets, by kind and name.\<close>

type_synonym config_ref = "string \<times> string"

definition ref_at :: "(string \<times> json) list \<Rightarrow> string \<times> string \<times> string \<Rightarrow> config_ref option" where
  "ref_at d spec =
     (case spec of (key, k, name_key) \<Rightarrow>
        Option.bind (dict_of (dict_value d key)) (\<lambda>v. map_option (Pair k) (str_of (dict_value v name_key))))"

definition refs_in :: "(string \<times> string \<times> string) list \<Rightarrow> json list \<Rightarrow> config_ref list" where
  "refs_in specs items =
     concat (map (\<lambda>d. List.map_filter (ref_at d) specs) (List.map_filter dict_of items))"

definition projected_sources :: "json \<Rightarrow> json list" where
  "projected_sources volume = list_of (dict_value (as_dict (dict_value (as_dict volume) ''projected'')) ''sources'')"

definition volume_refs :: "json list \<Rightarrow> config_ref list" where
  "volume_refs volumes =
     refs_in [(''configMap'', ''ConfigMap'', ''name''), (''secret'', ''Secret'', ''secretName'')] volumes
     @ refs_in [(''configMap'', ''ConfigMap'', ''name''), (''secret'', ''Secret'', ''name'')]
         (concat (map projected_sources volumes))"

definition container_refs :: "(string \<times> json) list \<Rightarrow> config_ref list" where
  "container_refs container =
     refs_in [(''configMapRef'', ''ConfigMap'', ''name''), (''secretRef'', ''Secret'', ''name'')]
       (list_of (dict_value container ''envFrom''))
     @ refs_in [(''configMapKeyRef'', ''ConfigMap'', ''name''), (''secretKeyRef'', ''Secret'', ''name'')]
         (map (\<lambda>e. dict_value (as_dict e) ''valueFrom'') (list_of (dict_value container ''env'')))"

definition spec_containers :: "(string \<times> json) list \<Rightarrow> (string \<times> json) list list" where
  "spec_containers spec =
     List.map_filter dict_of (list_of (dict_value spec ''containers'') @ list_of (dict_value spec ''initContainers''))"

definition config_refs :: "(string \<times> json) list \<Rightarrow> config_ref list" where
  "config_refs spec =
     volume_refs (list_of (dict_value spec ''volumes'')) @ concat (map container_refs (spec_containers spec))"

text \<open>What is reached only through a projected volume that carries a service account token.\<close>

definition carries_token :: "json \<Rightarrow> bool" where
  "carries_token volume \<longleftrightarrow>
     list_ex (\<lambda>s. case s of JDict d \<Rightarrow> ''serviceAccountToken'' \<in> fst ` set d | _ \<Rightarrow> False) (projected_sources volume)"

definition api_access_refs :: "(string \<times> json) list \<Rightarrow> config_ref list" where
  "api_access_refs spec =
     (let volumes = list_of (dict_value spec ''volumes''); access = filter carries_token volumes;
          elsewhere = config_refs (AList.update ''volumes'' (JList (filter (Not \<circ> carries_token) volumes)) spec)
      in if access = [] then []
         else filter (\<lambda>r. r \<notin> set elsewhere) (config_refs (AList.update ''volumes'' (JList access) spec)))"

section \<open>Edges of one object\<close>

type_synonym labelled_pods = "(entity_ref \<times> (string \<times> string) list) list"

definition mk_edge :: "entity_ref \<Rightarrow> string \<Rightarrow> entity_ref \<Rightarrow> relation_edge" where
  "mk_edge s r t = \<lparr>edge_source = s, edge_relation = r, edge_target = t\<rparr>"

definition named_ref :: "string \<Rightarrow> json \<Rightarrow> entity_ref option" where
  "named_ref ns v =
     (case (dict_value (as_dict v) ''kind'', dict_value (as_dict v) ''name'') of
        (JStr (c # k), JStr (a # n)) \<Rightarrow> Some \<lparr>kind = c # k, name = a # n, namespace = ns\<rparr>
      | _ \<Rightarrow> None)"

definition matching_pods :: "labelled_pods \<Rightarrow> string \<Rightarrow> json \<Rightarrow> entity_ref list" where
  "matching_pods pods ns selector =
     map fst (filter (\<lambda>(p, labels). namespace p = ns \<and> selector_matches selector labels) pods)"

definition owner_edges :: "entity_ref \<Rightarrow> (string \<times> json) list \<Rightarrow> relation_edge list" where
  "owner_edges r b =
     map (mk_edge r ''owned_by'') (List.map_filter (named_ref (namespace r))
       (list_of (dict_value (as_dict (dict_value b ''metadata'')) ''ownerReferences'')))"

definition selection_edges :: "labelled_pods \<Rightarrow> entity_ref \<Rightarrow> (string \<times> json) list \<Rightarrow> relation_edge list" where
  "selection_edges pods r spec =
     (if kind r = ''Service''
      then (case dict_value spec ''selector'' of
              JDict (e # d) \<Rightarrow> map (mk_edge r ''selects'') (matching_pods pods (namespace r) (JDict (e # d)))
            | _ \<Rightarrow> [])
      else [])"

definition scale_edges :: "entity_ref \<Rightarrow> (string \<times> json) list \<Rightarrow> relation_edge list" where
  "scale_edges r spec =
     (if kind r = ''HorizontalPodAutoscaler''
      then (case named_ref (namespace r) (dict_value spec ''scaleTargetRef'') of
              None \<Rightarrow> [] | Some t \<Rightarrow> [mk_edge r ''scales'' t])
      else [])"

text \<open>An empty selector matches every pod, as the code's explicit case says.\<close>

definition policy_edges :: "labelled_pods \<Rightarrow> entity_ref \<Rightarrow> (string \<times> json) list \<Rightarrow> relation_edge list" where
  "policy_edges pods r spec =
     (if kind r = ''NetworkPolicy''
      then map (mk_edge r ''restricts'') (matching_pods pods (namespace r) (dict_value spec ''podSelector''))
      else [])"

definition chaos_edges :: "labelled_pods \<Rightarrow> entity_ref \<Rightarrow> (string \<times> json) list \<Rightarrow> relation_edge list" where
  "chaos_edges pods r spec =
     (if is_chaos_kind (kind r)
      then (case dict_value spec ''selector'' of
              JDict d \<Rightarrow>
                map (mk_edge r ''disrupts'') (concat (map
                  (\<lambda>ns. matching_pods pods ns (py_or (dict_value d ''labelSelectors'') (JDict [])))
                  (List.map_filter str_of (list_of (dict_value d ''namespaces'')))))
            | _ \<Rightarrow> [])
      else [])"

definition call_edges :: "latest_versions \<Rightarrow> entity_ref \<Rightarrow> (string \<times> json) list \<Rightarrow> relation_edge list" where
  "call_edges latest r spec =
     map (mk_edge r ''calls'') (filter (\<lambda>t. t \<in> fst ` set latest \<and> name t \<noteq> name r)
       (map (host_service (namespace r)) (spec_hosts (config_maps_of latest) (namespace r) spec)))"

definition config_edges :: "entity_ref \<Rightarrow> (string \<times> json) list \<Rightarrow> relation_edge list result" where
  "config_edges r spec =
     traverse (\<lambda>(k, n). and_then (make_entity k n (namespace r)) (\<lambda>t. Inr (mk_edge r ''uses_config'' t)))
       (config_refs spec)"

definition object_edges :: "latest_versions \<Rightarrow> labelled_pods \<Rightarrow> entity_ref \<times> object_version \<Rightarrow> relation_edge list result" where
  "object_edges latest pods object =
     (case object of (r, v) \<Rightarrow>
        let spec = as_dict (dict_value (body v) ''spec'');
            direct = owner_edges r (body v) @ selection_edges pods r spec @ scale_edges r spec
                     @ policy_edges pods r spec @ chaos_edges pods r spec
        in case pod_spec (body v) of
             None \<Rightarrow> Inr direct
           | Some ps \<Rightarrow>
               and_then (config_edges r ps) (\<lambda>configs.
                 Inr (direct @ (if kind r = ''Pod'' then [] else call_edges latest r ps) @ configs)))"

section \<open>Edges of a snapshot\<close>

text \<open>The pattern \<open>apply chaos for NS/NAME\<close>, in any case, anywhere in a message.\<close>

definition chaos_name_char :: "char \<Rightarrow> bool" where
  "chaos_name_char c \<longleftrightarrow> host_char (lower_char c)"

definition chaos_target_here :: "string \<Rightarrow> (string \<times> string) option" where
  "chaos_target_here s =
     (if map lower_char (take 16 s) \<noteq> ''apply chaos for '' then None
      else let ns = takeWhile chaos_name_char (drop 16 s); r = dropWhile chaos_name_char (drop 16 s);
               n = takeWhile chaos_name_char (drop 1 r)
           in if ns = [] \<or> take 1 r \<noteq> ''/'' \<or> n = [] then None else Some (ns, n))"

fun chaos_target :: "string \<Rightarrow> (string \<times> string) option" where
  "chaos_target [] = None"
| "chaos_target (c # s) = or_else (chaos_target_here (c # s)) (chaos_target s)"

definition labelled_pods_of :: "latest_versions \<Rightarrow> labelled_pods" where
  "labelled_pods_of latest = map (\<lambda>(r, v). (r, labels_of (body v))) (filter (\<lambda>(r, _). kind r = ''Pod'') latest)"

text \<open>A Service routes to the workload that owns a pod it selects, up to three owners away.\<close>

definition owner_map :: "relation_edge list \<Rightarrow> (entity_ref \<times> entity_ref) list" where
  "owner_map es = rev (map (\<lambda>e. (edge_source e, edge_target e)) (filter (\<lambda>e. edge_relation e = ''owned_by'') es))"

definition owner_or_self :: "(entity_ref \<times> entity_ref) list \<Rightarrow> entity_ref \<Rightarrow> entity_ref" where
  "owner_or_self owners e = (case map_of owners e of None \<Rightarrow> e | Some o' \<Rightarrow> o')"

definition routing_edges :: "relation_edge list \<Rightarrow> relation_edge list" where
  "routing_edges es =
     List.map_filter (\<lambda>e.
         let w = (owner_or_self (owner_map es) ^^ 3) (edge_target e) in
         if edge_relation e = ''selects'' \<and> kind w \<in> set WORKLOAD_KINDS
         then Some (mk_edge (edge_source e) ''routes_to'' w) else None) es"

definition event_edges :: "cluster_event list \<Rightarrow> relation_edge list" where
  "event_edges events =
     List.map_filter (\<lambda>e.
         if is_chaos_kind (kind (event_entity e))
         then map_option (\<lambda>(ns, n). mk_edge (event_entity e) ''disrupts'' \<lparr>kind = ''Pod'', name = n, namespace = ns\<rparr>)
                (chaos_target (event_message e))
         else None) events"

definition spawn_name :: "entity_ref \<Rightarrow> entity_ref \<Rightarrow> bool" where
  "spawn_name schedule chaos \<longleftrightarrow> namespace chaos = namespace schedule
     \<and> starts_with (name schedule @ ''-'') (name chaos) \<and> length (name chaos) \<le> length (name schedule) + 7"

definition spawn_edges :: "latest_versions \<Rightarrow> cluster_event list \<Rightarrow> relation_edge list" where
  "spawn_edges latest events =
     (let schedules = filter (\<lambda>r. kind r = ''Schedule'') (map fst latest @ map event_entity events);
          instances = filter (\<lambda>r. ends_with ''Chaos'' (kind r)) (map event_entity events)
      in concat (map (\<lambda>s. map (mk_edge s ''spawns'') (filter (spawn_name s) instances)) schedules))"

definition edge_key :: "relation_edge \<Rightarrow> string \<times> string \<times> string" where
  "edge_key e = (canonical (edge_source e), edge_relation e, canonical (edge_target e))"

definition derive_edges ::
  "(relation_edge list \<Rightarrow> relation_edge list) \<Rightarrow> latest_versions \<Rightarrow> cluster_event list \<Rightarrow> relation_edge list result" where
  "derive_edges enum latest events =
     and_then (traverse (object_edges latest (labelled_pods_of latest)) latest) (\<lambda>edges.
       let objects = dedup (concat edges) in
       Inr (sort_key edge_key
         (dedup (objects @ routing_edges (enum objects) @ event_edges events @ spawn_edges latest events))))"

section \<open>Lookups\<close>

record topology =
  topo_edges :: "relation_edge list"
  topo_latest :: latest_versions
  relation_evidence :: "((entity_ref \<times> string \<times> entity_ref) \<times> string list) list"

definition edges_out :: "topology \<Rightarrow> entity_ref \<Rightarrow> string \<Rightarrow> entity_ref list" where
  "edges_out t e r = map edge_target (filter (\<lambda>x. edge_source x = e \<and> edge_relation x = r) (topo_edges t))"

definition edges_in :: "topology \<Rightarrow> entity_ref \<Rightarrow> string \<Rightarrow> entity_ref list" where
  "edges_in t e r = map edge_source (filter (\<lambda>x. edge_target x = e \<and> edge_relation x = r) (topo_edges t))"

definition drop_last :: "nat \<Rightarrow> 'a list \<Rightarrow> 'a list" where
  "drop_last n xs = take (length xs - n) xs"

definition pod_workload_name :: "string \<Rightarrow> string" where
  "pod_workload_name pod_name =
     (let parts = split_on (CHR ''-'') pod_name; k = length parts in
      if k \<ge> 3 \<and> length (last parts) = 5 \<and> length (parts ! (k - 2)) \<in> {8, 9, 10} then joined ''-'' (drop_last 2 parts)
      else if k \<ge> 2 \<and> length (last parts) = 5 then joined ''-'' (drop_last 1 parts)
      else if k \<ge> 2 \<and> isdigit (last parts) then joined ''-'' (drop_last 1 parts)
      else pod_name)"

primrec controlling :: "topology \<Rightarrow> nat \<Rightarrow> entity_ref \<Rightarrow> entity_ref" where
  "controlling t 0 e = e"
| "controlling t (Suc n) e =
     (if kind e \<in> set WORKLOAD_KINDS then e
      else case edges_out t e ''owned_by'' of [] \<Rightarrow> e | o' # _ \<Rightarrow> controlling t n o')"

definition workload_of :: "topology \<Rightarrow> entity_ref \<Rightarrow> entity_ref option" where
  "workload_of t e =
     (let current = controlling t 4 e in
      if kind current \<in> set WORKLOAD_KINDS then Some current
      else if kind e = ''Pod''
      then List.find (\<lambda>r. r \<in> fst ` set (topo_latest t))
             (map (\<lambda>k. \<lparr>kind = k, name = pod_workload_name (name e), namespace = namespace e\<rparr>)
               [''Deployment'', ''StatefulSet'', ''DaemonSet''])
      else None)"

definition NAME_LABELS :: "string list" where
  "NAME_LABELS = [''app.kubernetes.io/name'', ''app.kubernetes.io/component'', ''app'', ''k8s-app'']"

definition label_names :: "topology \<Rightarrow> entity_ref \<Rightarrow> string list" where
  "label_names t e =
     (case map_of (topo_latest t) e of
        None \<Rightarrow> [] | Some v \<Rightarrow> List.map_filter (map_of (labels_of (body v))) NAME_LABELS)"

definition service_names :: "topology \<Rightarrow> entity_ref \<Rightarrow> string list" where
  "service_names t e =
     (let workload = (case workload_of t e of None \<Rightarrow> [] | Some w \<Rightarrow> [w]) in
      filter (\<lambda>n. n \<noteq> [])
        (dedup ([name e] @ map name workload @ (if kind e = ''Pod'' then [pod_workload_name (name e)] else [])
          @ concat (map (label_names t) (e # workload)))))"

definition entities_for_service :: "topology \<Rightarrow> string \<Rightarrow> string option \<Rightarrow> entity_ref list" where
  "entities_for_service t service ns =
     filter (\<lambda>r. (case ns of Some (c # n) \<Rightarrow> namespace r \<in> {c # n, CLUSTER_SCOPE} | _ \<Rightarrow> True)
         \<and> (kind r \<in> set WORKLOAD_KINDS \<or> kind r \<in> {''Service'', ''Pod''}) \<and> service \<in> set (service_names t r))
       (map fst (topo_latest t))"

section \<open>Traversal\<close>

definition mk_hop :: "entity_ref \<Rightarrow> string \<Rightarrow> entity_ref \<Rightarrow> causal_hop" where
  "mk_hop s r t = \<lparr>hop_source = s, relation = r, hop_target = t\<rparr>"

text \<open>Undirected hops, over every edge.\<close>

definition structural_hops :: "topology \<Rightarrow> causal_hop list" where
  "structural_hops t =
     concat (map (\<lambda>e. [mk_hop (edge_source e) (edge_relation e) (edge_target e),
                       mk_hop (edge_target e) (edge_relation e) (edge_source e)]) (topo_edges t))"

definition reachable :: "topology \<Rightarrow> nat \<Rightarrow> entity_ref \<Rightarrow> depths" where
  "reachable t m e = fst (walk_from m (structural_hops t) e)"

definition distance :: "topology \<Rightarrow> nat \<Rightarrow> entity_ref \<Rightarrow> entity_ref list \<Rightarrow> nat option" where
  "distance t m e targets = distance_within m (structural_hops t) e targets"

text \<open>Cause-to-effect hops, over the relations whose direction is enabled.\<close>

definition forward_hop :: "relation_edge \<Rightarrow> causal_hop option" where
  "forward_hop e =
     (case map_of RELATION_SEMANTICS (edge_relation e) of
        Some s \<Rightarrow> if forward s then Some (mk_hop (edge_source e) (forward_relation s) (edge_target e)) else None
      | None \<Rightarrow> None)"

definition backward_hop :: "relation_edge \<Rightarrow> causal_hop option" where
  "backward_hop e =
     (case map_of RELATION_SEMANTICS (edge_relation e) of
        Some s \<Rightarrow> if backward s then Some (mk_hop (edge_target e) (backward_relation s) (edge_source e)) else None
      | None \<Rightarrow> None)"

text \<open>Sorted as the neighbours of each entity are: by target, relation and direction.\<close>

definition causal_hops :: "topology \<Rightarrow> causal_hop list" where
  "causal_hops t =
     map snd (sort_key (\<lambda>(d, h). (canonical (hop_target h), relation h, d))
       (map (Pair True) (List.map_filter forward_hop (topo_edges t))
        @ map (Pair False) (List.map_filter backward_hop (topo_edges t))))"

definition causal_reachable :: "topology \<Rightarrow> nat \<Rightarrow> entity_ref \<Rightarrow> depths" where
  "causal_reachable t m e = fst (walk_from m (causal_hops t) e)"

definition causal_path :: "topology \<Rightarrow> nat \<Rightarrow> entity_ref \<Rightarrow> entity_ref list \<Rightarrow> causal_hop list option" where
  "causal_path t m e targets = path_within m (causal_hops t) e targets"

definition causal_distance :: "topology \<Rightarrow> nat \<Rightarrow> entity_ref \<Rightarrow> entity_ref list \<Rightarrow> nat option" where
  "causal_distance t m e targets = distance_within m (causal_hops t) e targets"

section \<open>Observed propagation\<close>

definition verified_endpoints ::
  "latest_versions \<Rightarrow> binding option \<Rightarrow> verification option \<Rightarrow> verification option \<Rightarrow> entity_ref list" where
  "verified_endpoints latest b dv pv =
     (case b of
        None \<Rightarrow> []
      | Some b \<Rightarrow>
          (case deployment b of
             Some (c # d) \<Rightarrow> if dv = Some VERIFIED
                           then [\<lparr>kind = ''Deployment'', name = c # d, namespace = binding_namespace b\<rparr>] else []
           | _ \<Rightarrow> [])
          @ (case (binding_pod b, binding_pod_uid b) of
               (Some (c # p), Some (x # u)) \<Rightarrow>
                 (let pod = \<lparr>kind = ''Pod'', name = c # p, namespace = binding_namespace b\<rparr> in
                  case map_of latest pod of
                    Some v \<Rightarrow> if pv = Some VERIFIED \<and> instance_uid v = Some (x # u) then [pod] else []
                  | None \<Rightarrow> [])
             | _ \<Rightarrow> []))"

definition propagation_pairs :: "latest_versions \<Rightarrow> edge \<Rightarrow> (relation_edge \<times> string list) list" where
  "propagation_pairs latest o' =
     (if edge_evidence o' = [] then []
      else concat (map (\<lambda>s. map (\<lambda>t. (mk_edge s ''runtime_propagates'' t, edge_evidence o'))
             (verified_endpoints latest (affected_binding o') (affected_deployment_verification o')
               (affected_pod_verification o')))
           (verified_endpoints latest (source_binding o') (source_deployment_verification o')
             (source_pod_verification o'))))"

definition edge_triple :: "relation_edge \<Rightarrow> entity_ref \<times> string \<times> entity_ref" where
  "edge_triple e = (edge_source e, edge_relation e, edge_target e)"

definition evidence_of_pairs ::
  "(relation_edge \<times> string list) list \<Rightarrow> ((entity_ref \<times> string \<times> entity_ref) \<times> string list) list" where
  "evidence_of_pairs pairs =
     map (\<lambda>k. (k, sorted_set (concat (map snd (filter (\<lambda>(e, _). edge_triple e = k) pairs)))))
       (dedup (map (edge_triple \<circ> fst) pairs))"

definition with_runtime_propagation :: "topology \<Rightarrow> edge list \<Rightarrow> topology" where
  "with_runtime_propagation t observed =
     (let pairs = concat (map (propagation_pairs (topo_latest t)) observed) in
      \<lparr>topo_edges = sort_key edge_key (dedup (topo_edges t @ map fst pairs)), topo_latest = topo_latest t,
       relation_evidence = evidence_of_pairs pairs\<rparr>)"

end
