(* ===== verification/K_Coverage.thy ===== *)
theory K_Coverage
  imports Topology
begin

text \<open>
  The reference channel K of an initiated change (\<open>packages/rca/k_coverage.py\<close>): six preconditions on what was
  observed of the objects a change can act through, and the state of the channel that follows from them.
  Names and labels of cluster documents are strings, as the API server serves them. What an attribution
  says is kept as data, not as the text made of it. What the source tests \<open>or\<close> a default treats
  an empty string as missing.
\<close>

section \<open>Data\<close>

datatype channel_state = PATH | NO_PATH_COVERED | UNCOVERED | UNKNOWN_CHANNEL

datatype coverage_check = CHECK_PASS | CHECK_FAIL | CHECK_UNKNOWN

text \<open>Who a read of the closure is attributed to, and what is recorded of an access.\<close>

datatype reading = READ_BY_CLOSURE | READ_BY_CONTROL_PLANE | READ_BY_KUBELET "string list" | READ_BY_WORKLOAD "string list"

datatype access_attribution =
    READ_ACCESS string "string \<times> reading option" "string \<times> reading option"
  | WRITE_ACCESS string string string

record channel_precondition =
  checked_condition :: string
  check_status :: coverage_check
  check_reason :: "string option"
  check_evidence :: "string list"
  attributions :: "access_attribution list"

record journal_fact =
  fact_start :: instant
  fact_end :: instant
  covered_namespaces :: "string list"
  covered_kinds :: "string list"
  fact_continuous :: bool
  gap_count :: int
  fact_evidence :: string

record server_audit =
  server_instance :: string
  audit_start :: instant
  audit_end :: instant
  counter_continuous :: bool
  error_count_start :: "int option"
  error_count_end :: "int option"

record api_request =
  access_user :: string
  impersonated_user :: "string option"
  access_verb :: string
  access_kind :: string
  access_namespace :: "string option"
  access_name :: "string option"
  access_started :: instant
  access_ended :: "instant option"
  access_evidence :: string

record api_audit =
  serving_instances :: "string list"
  server_audits :: "server_audit list"
  policy_covers_relevant_requests :: bool
  active_watches_at_start_known :: bool
  api_accesses :: "api_request list"

record k_evaluation =
  k_state :: channel_state
  k_gap_reason :: "string option"
  k_preconditions :: "channel_precondition list"
  k_expansion :: "entity_ref list"
  control_plane_access :: "string list"

section \<open>Profiles\<close>

definition KIND_PROFILE :: "(string \<times> string \<times> bool) list" where
  "KIND_PROFILE =
     [(''Namespace'', ''v1'', False), (''ConfigMap'', ''v1'', False), (''Service'', ''v1'', False),
      (''ServiceAccount'', ''v1'', False), (''Job'', ''batch/v1'', False), (''Pod'', ''v1'', False)]"

definition RBAC_KINDS :: "string list" where
  "RBAC_KINDS = [''Role'', ''RoleBinding'', ''ClusterRole'', ''ClusterRoleBinding'']"

definition REQUIRED_JOURNAL_KINDS :: "string list" where
  "REQUIRED_JOURNAL_KINDS =
     map fst KIND_PROFILE
     @ [''ReplicaSet'', ''Deployment'', ''StatefulSet'', ''DaemonSet'', ''CronJob'', ''NetworkPolicy''] @ RBAC_KINDS"

definition CONTROL_PLANE_USERS :: "string list" where
  "CONTROL_PLANE_USERS = [''system:kube-controller-manager'', ''system:kube-scheduler'', ''system:apiserver'']"

definition CONTROL_PLANE_SERVICE_ACCOUNTS :: "string list" where
  "CONTROL_PLANE_SERVICE_ACCOUNTS = map (\<lambda>n. ''system:serviceaccount:kube-system:'' @ n)
     [''attachdetach-controller'', ''clusterrole-aggregation-controller'', ''cronjob-controller'',
      ''daemon-set-controller'', ''deployment-controller'', ''disruption-controller'', ''endpoint-controller'',
      ''endpointslice-controller'', ''endpointslicemirroring-controller'', ''ephemeral-volume-controller'',
      ''expand-controller'', ''generic-garbage-collector'', ''horizontal-pod-autoscaler'', ''job-controller'',
      ''legacy-service-account-token-cleaner'', ''namespace-controller'', ''node-controller'',
      ''persistent-volume-binder'', ''pod-garbage-collector'', ''pv-protection-controller'',
      ''pvc-protection-controller'', ''replicaset-controller'', ''replication-controller'',
      ''resourcequota-controller'', ''root-ca-cert-publisher'', ''route-controller'',
      ''service-account-controller'', ''service-controller'', ''statefulset-controller'',
      ''ttl-after-finished-controller'', ''ttl-controller'']"

definition READ_VERBS :: "string list" where
  "READ_VERBS = [''get'', ''list'', ''watch'', ''*'']"

definition WRITE_VERBS :: "string list" where
  "WRITE_VERBS = [''create'', ''update'', ''patch'', ''delete'', ''deletecollection'', ''*'']"

definition API_GROUP :: "(string \<times> string) list" where
  "API_GROUP = [(''Job'', ''batch'')]"

definition API_RESOURCE :: "(string \<times> string) list" where
  "API_RESOURCE =
     [(''Namespace'', ''namespaces''), (''ConfigMap'', ''configmaps''), (''Service'', ''services''),
      (''ServiceAccount'', ''serviceaccounts''), (''Job'', ''jobs''), (''Pod'', ''pods''), (''Secret'', ''secrets'')]"

definition CHAOS_SELECTOR_FIELDS :: "string list" where
  "CHAOS_SELECTOR_FIELDS = [''namespaces'', ''labelSelectors'']"

section \<open>Preconditions\<close>

definition pass_check :: "string \<Rightarrow> channel_precondition" where
  "pass_check n = \<lparr>checked_condition = n, check_status = CHECK_PASS, check_reason = None, check_evidence = [], attributions = []\<rparr>"

definition fail_check :: "string \<Rightarrow> string \<Rightarrow> string list \<Rightarrow> channel_precondition" where
  "fail_check n reason evidence =
     \<lparr>checked_condition = n, check_status = CHECK_FAIL, check_reason = Some reason,
      check_evidence = take 12 (sorted_set evidence), attributions = []\<rparr>"

definition unknown_check :: "string \<Rightarrow> string \<Rightarrow> channel_precondition" where
  "unknown_check n reason =
     \<lparr>checked_condition = n, check_status = CHECK_UNKNOWN, check_reason = Some reason, check_evidence = [],
      attributions = []\<rparr>"

section \<open>The window\<close>

text \<open>The version in effect when the window starts, and those inside; an unknown bound keeps all.\<close>

fun kept_versions ::
  "instant option \<Rightarrow> instant option \<Rightarrow> object_version list \<Rightarrow> object_version list \<Rightarrow> object_version list" where
  "kept_versions start end kept [] = kept"
| "kept_versions start end kept (v # vs) =
     (if (case end of None \<Rightarrow> False | Some t \<Rightarrow> t < observed_at v) then kept
      else if (case start of None \<Rightarrow> False | Some s \<Rightarrow> observed_at v \<le> s) then kept_versions start end [v] vs
      else kept_versions start end (kept @ [v]) vs)"

definition window_versions :: "instant option \<Rightarrow> instant option \<Rightarrow> journal \<Rightarrow> journal" where
  "window_versions start end history =
     filter (\<lambda>(_, vs). vs \<noteq> []) (map (\<lambda>(r, vs). (r, kept_versions start end [] vs)) history)"

definition window_generation :: "journal \<Rightarrow> nat \<Rightarrow> latest_versions" where
  "window_generation versions n = map (\<lambda>(r, vs). (r, vs ! min n (length vs - 1))) versions"

text \<open>The edges of every generation of the versions.\<close>

definition window_edges ::
  "(relation_edge list \<Rightarrow> relation_edge list) \<Rightarrow> journal \<Rightarrow> cluster_event list \<Rightarrow> relation_edge list result" where
  "window_edges enum versions events =
     and_then (traverse (\<lambda>n. derive_edges enum (window_generation versions n) events)
         [0..<fold max (map (length \<circ> snd) versions) 0])
       (Inr \<circ> dedup \<circ> concat)"

definition latest_of :: "journal \<Rightarrow> latest_versions" where
  "latest_of history = List.map_filter (\<lambda>(r, vs). if vs = [] then None else Some (r, last vs)) history"

section \<open>K4: paths\<close>

definition graph_bound :: "topology \<Rightarrow> nat" where
  "graph_bound t = length (remdups (map edge_source (topo_edges t) @ map edge_target (topo_edges t))) + 1"

definition k4_path :: "entity_ref list \<Rightarrow> entity_ref list \<Rightarrow> topology \<Rightarrow> string list option" where
  "k4_path closure symptoms t =
     (case List.map_filter (\<lambda>r. map_option (Pair r) (causal_path t (graph_bound t) r symptoms)) (sort_key canonical closure) of
        [] \<Rightarrow> None
      | (r, p) # _ \<Rightarrow>
          Some (if p = [] then [canonical r]
                else map (\<lambda>h. canonical (hop_source h) @ ''->'' @ canonical (hop_target h)) p))"

section \<open>K5: reference surfaces that are not evaluated\<close>

definition has_key :: "string \<Rightarrow> json \<Rightarrow> bool" where
  "has_key k v \<longleftrightarrow> (case v of JDict d \<Rightarrow> map_of d k \<noteq> None | _ \<Rightarrow> False)"

definition policy_surfaces :: "(string \<times> json) list \<Rightarrow> string list" where
  "policy_surfaces spec =
     concat (map (\<lambda>(direction, peers). concat (map (\<lambda>rule.
         map (\<lambda>_. ''K5_NETPOL_NAMESPACE_SELECTOR'')
           (filter (has_key ''namespaceSelector'') (list_of (dict_value (as_dict rule) peers))))
       (list_of (dict_value spec direction)))) [(''ingress'', ''from''), (''egress'', ''to'')])"

definition selector_surfaces :: "entity_ref \<Rightarrow> (string \<times> json) list \<Rightarrow> string list" where
  "selector_surfaces r spec =
     (if list_ex (has_key ''matchExpressions'')
           ((if kind r = ''Service'' then [dict_value spec ''selector''] else [])
            @ (if kind r = ''NetworkPolicy'' then [dict_value spec ''podSelector''] else []))
      then [''K5_UNEVALUATED_SELECTOR''] else [])
     @ (if (ends_with ''Chaos'' (kind r) \<or> kind r \<in> {''Schedule'', ''Workflow''})
           \<and> list_ex (\<lambda>(k, _). k \<notin> set CHAOS_SELECTOR_FIELDS) (as_dict (dict_value spec ''selector''))
        then [''K5_UNEVALUATED_SELECTOR''] else [])"

definition affinity_term :: "json \<Rightarrow> json" where
  "affinity_term v =
     (case v of JDict d \<Rightarrow> (case map_of d ''podAffinityTerm'' of None \<Rightarrow> v | Some x \<Rightarrow> x) | _ \<Rightarrow> JDict [])"

definition crosses_namespaces :: "json \<Rightarrow> bool" where
  "crosses_namespaces v \<longleftrightarrow>
     (case affinity_term v of
        JDict d \<Rightarrow> truthy (dict_value d ''namespaces'') \<or> map_of d ''namespaceSelector'' \<noteq> None
      | _ \<Rightarrow> False)"

definition pod_surfaces :: "entity_ref \<Rightarrow> (string \<times> json) list \<Rightarrow> string list" where
  "pod_surfaces r ps =
     (if kind r = ''Pod'' \<and> truthy (dict_value ps ''ephemeralContainers'') then [''K5_EPHEMERAL_CONTAINERS''] else [])
     @ concat (map (\<lambda>key. concat (map (\<lambda>mode.
           map (\<lambda>_. ''K5_CROSS_NAMESPACE_AFFINITY'')
             (filter crosses_namespaces
               (list_of (dict_value (as_dict (dict_value (as_dict (dict_value ps ''affinity'')) key)) mode))))
         [''requiredDuringSchedulingIgnoredDuringExecution'', ''preferredDuringSchedulingIgnoredDuringExecution'']))
       [''podAffinity'', ''podAntiAffinity''])"

definition version_surfaces :: "entity_ref list \<Rightarrow> entity_ref \<Rightarrow> object_version \<Rightarrow> (string \<times> string) list" where
  "version_surfaces closure r v =
     (let spec = as_dict (dict_value (body v) ''spec'') in
      map (\<lambda>reason. (reason, evidence_id v))
        ((if kind r = ''NetworkPolicy'' then policy_surfaces spec else [])
         @ (if kind r = ''Service'' \<and> dict_value spec ''type'' = JStr ''ExternalName''
            then [''K5_EXTERNAL_NAME_SERVICE''] else [])
         @ selector_surfaces r spec
         @ (case pod_spec (body v) of None \<Rightarrow> [] | Some ps \<Rightarrow> pod_surfaces r ps)
         @ (case map_of KIND_PROFILE (kind r) of
              None \<Rightarrow> []
            | Some (version, _) \<Rightarrow>
                if r \<in> set closure \<and> dict_value (body v) ''apiVersion'' \<noteq> JStr version
                then [''K5_API_VERSION_OUTSIDE_PROFILE''] else [])))"

definition k5_surfaces :: "journal \<Rightarrow> entity_ref list \<Rightarrow> (string \<times> string) list" where
  "k5_surfaces versions closure =
     concat (map (\<lambda>(r, vs). concat (map (version_surfaces closure r) vs)) versions)"

section \<open>K6: who accessed the closure\<close>

subsection \<open>Identities\<close>

text \<open>How an f-string shows a name: a missing one is \<open>None\<close>.\<close>

definition shown :: "json \<Rightarrow> string" where
  "shown v = (case v of JStr s \<Rightarrow> s | _ \<Rightarrow> ''None'')"

definition account_identity :: "string \<Rightarrow> string \<Rightarrow> string" where
  "account_identity ns n = ''system:serviceaccount:'' @ ns @ '':'' @ n"

definition service_account :: "(string \<times> json) list \<Rightarrow> string \<Rightarrow> string" where
  "service_account ps ns =
     account_identity ns
       (shown (py_or (py_or (dict_value ps ''serviceAccountName'') (dict_value ps ''serviceAccount'')) (JStr ''default'')))"

definition pod_specs :: "object_version list \<Rightarrow> (string \<times> json) list list" where
  "pod_specs vs = List.map_filter (\<lambda>v. pod_spec (body v)) vs"

definition identity_pods :: "journal \<Rightarrow> string \<Rightarrow> entity_ref list" where
  "identity_pods versions identity =
     map fst (filter (\<lambda>(r, vs). kind r = ''Pod''
         \<and> list_ex (\<lambda>ps. service_account ps (namespace r) = identity) (pod_specs vs)) versions)"

definition history_of :: "journal \<Rightarrow> entity_ref \<Rightarrow> object_version list" where
  "history_of versions r = (case map_of versions r of None \<Rightarrow> [] | Some vs \<Rightarrow> vs)"

definition closure_identities :: "entity_ref list \<Rightarrow> journal \<Rightarrow> string list" where
  "closure_identities closure versions =
     map (\<lambda>r. account_identity (namespace r) (name r)) (filter (\<lambda>r. kind r = ''ServiceAccount'') closure)
     @ concat (map (\<lambda>r. map (\<lambda>ps. service_account ps (namespace r)) (pod_specs (history_of versions r))) closure)"

definition touches :: "api_request \<Rightarrow> entity_ref \<Rightarrow> bool" where
  "touches a m \<longleftrightarrow>
     (let ns = (if namespace m = CLUSTER_SCOPE then None else Some (namespace m)) in
      access_kind a = kind m
      \<and> (case access_name a of
           None \<Rightarrow> access_namespace a = None \<or> access_namespace a = ns
         | Some n \<Rightarrow> n = name m \<and> access_namespace a = ns))"

text \<open>Pods on the node whose spec references the object.\<close>

definition claim_refs :: "(string \<times> json) list \<Rightarrow> config_ref list" where
  "claim_refs ps =
     List.map_filter (\<lambda>v. map_option (Pair ''PersistentVolumeClaim'')
         (str_of (dict_value (as_dict (dict_value (as_dict v) ''persistentVolumeClaim'')) ''claimName'')))
       (list_of (dict_value ps ''volumes''))"

definition kubelet_refs :: "(string \<times> json) list \<Rightarrow> config_ref list" where
  "kubelet_refs ps =
     config_refs ps @ [(''ServiceAccount'', shown (py_or (dict_value ps ''serviceAccountName'') (JStr ''default'')))]
     @ claim_refs ps"

definition node_readers :: "string \<Rightarrow> api_request \<Rightarrow> entity_ref \<Rightarrow> journal \<Rightarrow> entity_ref list" where
  "node_readers identity a m versions =
     (let node = drop (length ''system:node:'') identity in
      if access_name a = None then []
      else sort_key canonical (map fst (filter (\<lambda>(r, vs). kind r = ''Pod'' \<and> namespace r = namespace m
             \<and> list_ex (\<lambda>ps. dict_value ps ''nodeName'' = JStr node \<and> (kind m, name m) \<in> set (kubelet_refs ps))
                 (pod_specs vs)) versions)))"

subsection \<open>Permissions\<close>

text \<open>The rules of every role; a binding is read against them.\<close>

definition role_rules :: "latest_versions \<Rightarrow> ((string \<times> string \<times> string) \<times> json list) list" where
  "role_rules latest =
     map (\<lambda>(r, v). ((namespace r, kind r, name r), list_of (dict_value (body v) ''rules'')))
       (filter (\<lambda>(r, _). kind r \<in> {''Role'', ''ClusterRole''}) latest)"

definition bound_rules :: "latest_versions \<Rightarrow> entity_ref \<Rightarrow> object_version \<Rightarrow> json list option" where
  "bound_rules latest r v =
     (let role_ref = as_dict (dict_value (body v) ''roleRef'');
          role_kind = shown (py_or (dict_value role_ref ''kind'') (JStr ''''))
      in map_of (role_rules latest)
           (if role_kind = ''Role'' then namespace r else CLUSTER_SCOPE, role_kind,
            shown (py_or (dict_value role_ref ''name'') (JStr ''''))))"

definition subject_name :: "string \<Rightarrow> (string \<times> json) list \<Rightarrow> string" where
  "subject_name ns s =
     (if dict_value s ''kind'' = JStr ''ServiceAccount''
      then account_identity (shown (py_or (dict_value s ''namespace'') (JStr ns))) (shown (dict_value s ''name''))
      else shown (dict_value s ''kind'') @ '':'' @ shown (dict_value s ''name''))"

definition subject_names :: "entity_ref \<Rightarrow> object_version \<Rightarrow> string list" where
  "subject_names r v =
     map (subject_name (namespace r)) (List.map_filter dict_of (list_of (dict_value (body v) ''subjects'')))"

definition rule_names :: "(string \<times> json) list \<Rightarrow> string \<Rightarrow> string list" where
  "rule_names rule key = List.map_filter str_of (list_of (dict_value rule key))"

definition table_value :: "(string \<times> string) list \<Rightarrow> string \<Rightarrow> string" where
  "table_value table k = (case map_of table k of None \<Rightarrow> '''' | Some v \<Rightarrow> v)"

definition common :: "string list \<Rightarrow> string list \<Rightarrow> bool" where
  "common xs ys \<longleftrightarrow> list_ex (\<lambda>x. x \<in> set ys) xs"

definition rule_reaches :: "entity_ref list \<Rightarrow> (string \<times> json) list \<Rightarrow> bool" where
  "rule_reaches closure rule \<longleftrightarrow>
     list_ex (\<lambda>r. common [table_value API_GROUP (kind r), ''*''] (rule_names rule ''apiGroups'')
       \<and> common [table_value API_RESOURCE (kind r), ''*''] (rule_names rule ''resources'')) closure"

definition rule_offends ::
  "entity_ref list \<Rightarrow> string list \<Rightarrow> entity_ref \<Rightarrow> string list \<Rightarrow> (string \<times> json) list \<Rightarrow> bool" where
  "rule_offends closure identities r names rule \<longleftrightarrow>
     (let inside = namespace r \<in> set (map namespace closure); cluster = (kind r = ''ClusterRoleBinding'');
          verbs = rule_names rule ''verbs''
      in ((cluster \<or> inside) \<and> rule_reaches closure rule \<and> common verbs READ_VERBS
            \<and> list_ex (\<lambda>n. n \<notin> set identities) names)
         \<or> ((cluster \<or> \<not> inside) \<and> common verbs WRITE_VERBS \<and> common names identities))"

definition rbac_permissions :: "entity_ref list \<Rightarrow> string list \<Rightarrow> latest_versions \<Rightarrow> string list \<times> bool" where
  "rbac_permissions closure identities latest =
     (let bindings = filter (\<lambda>(r, _). kind r \<in> {''RoleBinding'', ''ClusterRoleBinding''}) latest in
      (map (\<lambda>(r, v). evidence_id v) (filter (\<lambda>(r, v).
          case bound_rules latest r v of
            None \<Rightarrow> False
          | Some rules \<Rightarrow>
              list_ex (rule_offends closure identities r (subject_names r v)) (List.map_filter dict_of rules)) bindings),
       list_ex (\<lambda>(r, v). bound_rules latest r v = None) bindings))"

subsection \<open>Audited accesses\<close>

record k6_state =
  k6_failures :: "(string \<times> string) list"
  k6_unknowns :: "string list"
  k6_expansion :: "entity_ref list"
  k6_control_plane :: "string list"
  k6_attributions :: "access_attribution list"

definition no_findings :: k6_state where
  "no_findings = \<lparr>k6_failures = [], k6_unknowns = [], k6_expansion = [], k6_control_plane = [], k6_attributions = []\<rparr>"

definition add_failure :: "string \<Rightarrow> string \<Rightarrow> k6_state \<Rightarrow> k6_state" where
  "add_failure reason evidence st = st\<lparr>k6_failures := k6_failures st @ [(reason, evidence)]\<rparr>"

definition add_unknown :: "string \<Rightarrow> k6_state \<Rightarrow> k6_state" where
  "add_unknown reason st = st\<lparr>k6_unknowns := k6_unknowns st @ [reason]\<rparr>"

definition add_attribution :: "access_attribution \<Rightarrow> k6_state \<Rightarrow> k6_state" where
  "add_attribution a st = st\<lparr>k6_attributions := k6_attributions st @ [a]\<rparr>"

definition add_targets :: "entity_ref list \<Rightarrow> k6_state \<Rightarrow> k6_state" where
  "add_targets rs st = st\<lparr>k6_expansion := dedup (k6_expansion st @ rs)\<rparr>"

definition add_control_plane :: "string \<Rightarrow> k6_state \<Rightarrow> k6_state" where
  "add_control_plane evidence st = st\<lparr>k6_control_plane := k6_control_plane st @ [evidence]\<rparr>"

text \<open>The later audit of an instance replaces the earlier one.\<close>

definition audit_server :: "server_audit list \<Rightarrow> instant \<Rightarrow> instant \<Rightarrow> string \<Rightarrow> k6_state \<Rightarrow> k6_state" where
  "audit_server audits start end i st =
     (case map_of (rev (map (\<lambda>c. (server_instance c, c)) audits)) i of
        None \<Rightarrow> add_unknown ''K6_AUDIT_COVERAGE_INCOMPLETE'' st
      | Some c \<Rightarrow>
          if start < audit_start c \<or> audit_end c < end then add_unknown ''K6_AUDIT_COVERAGE_INCOMPLETE'' st
          else if \<not> counter_continuous c \<or> error_count_start c = None \<or> error_count_end c = None
          then add_unknown ''K6_AUDIT_LOSS_UNPROVEN'' st
          else if error_count_end c \<noteq> error_count_start c then add_failure ''K6_AUDIT_EVENTS_LOST'' i st
          else st)"

definition audit_policy :: "api_audit \<Rightarrow> k6_state \<Rightarrow> k6_state" where
  "audit_policy audit st =
     (let st' = (if policy_covers_relevant_requests audit then st else add_unknown ''K6_AUDIT_POLICY_UNPROVEN'' st) in
      if active_watches_at_start_known audit then st' else add_failure ''K6_PRE_WINDOW_WATCHES_UNKNOWN'' '''' st')"

text \<open>The closure, the versions of the window, and the identities the closure runs as.\<close>

record k6_scope =
  scope_closure :: "entity_ref list"
  scope_versions :: journal
  scope_identities :: "string list"

definition attribute :: "k6_scope \<Rightarrow> string \<Rightarrow> api_request \<Rightarrow> entity_ref list \<Rightarrow> reading option" where
  "attribute scope identity a touched =
     (if identity \<in> set (scope_identities scope) then Some READ_BY_CLOSURE
      else if identity \<in> set CONTROL_PLANE_USERS \<or> identity \<in> set CONTROL_PLANE_SERVICE_ACCOUNTS
      then Some READ_BY_CONTROL_PLANE
      else if starts_with ''system:node:'' identity
      then let readers = (\<lambda>m. node_readers identity a m (scope_versions scope));
               pods = concat (map readers touched)
           in if pods \<noteq> [] \<and> list_all (\<lambda>m. readers m \<noteq> []) touched
              then Some (READ_BY_KUBELET (sorted_set (map canonical pods))) else None
      else let readers = identity_pods (scope_versions scope) identity in
           if starts_with ''system:serviceaccount:'' identity \<and> readers \<noteq> []
           then Some (READ_BY_WORKLOAD (sort (map canonical readers))) else None)"

definition effective_user :: "api_request \<Rightarrow> string" where
  "effective_user a = (case impersonated_user a of Some (c # u) \<Rightarrow> c # u | _ \<Rightarrow> access_user a)"

definition read_access :: "k6_scope \<Rightarrow> api_request \<Rightarrow> entity_ref list \<Rightarrow> k6_state \<Rightarrow> k6_state" where
  "read_access scope a touched st =
     (let user = access_user a; effective = effective_user a;
          r = attribute scope user a touched; r' = attribute scope effective a touched;
          st = add_attribution (READ_ACCESS (access_evidence a) (user, r) (effective, r')) st
      in if r = None \<or> r' = None
         then add_failure
                (if (r = None \<and> starts_with ''system:node:'' user) \<or> (r' = None \<and> starts_with ''system:node:'' effective)
                 then ''K6_UNATTRIBUTED_NODE_ACCESS'' else ''K6_UNBOUND_ACCESS'') (access_evidence a) st
         else let st = (if r = Some READ_BY_CONTROL_PLANE \<or> r' = Some READ_BY_CONTROL_PLANE
                        then add_control_plane (access_evidence a) st else st)
              in case r' of
                   Some (READ_BY_WORKLOAD _) \<Rightarrow> add_targets (identity_pods (scope_versions scope) effective) st
                 | _ \<Rightarrow> st)"

definition access_scope :: "api_request \<Rightarrow> string" where
  "access_scope a = (case access_namespace a of Some (c # ns) \<Rightarrow> c # ns | _ \<Rightarrow> CLUSTER_SCOPE)"

definition write_access :: "api_request \<Rightarrow> k6_state \<Rightarrow> k6_state result" where
  "write_access a st =
     (let st = add_attribution (WRITE_ACCESS (access_evidence a) (access_user a) (effective_user a)) st in
      case access_name a of
        None \<Rightarrow> Inr (add_failure ''K6_UNBOUND_WRITE_TARGET'' (access_evidence a) st)
      | Some n \<Rightarrow>
          and_then (make_entity (access_kind a) n (access_scope a)) (\<lambda>target. Inr (add_targets [target] st)))"

definition outside_window :: "instant \<Rightarrow> instant \<Rightarrow> api_request \<Rightarrow> bool" where
  "outside_window start end a \<longleftrightarrow>
     end < access_started a \<or> (case access_ended a of None \<Rightarrow> False | Some t \<Rightarrow> t < start)"

definition audit_access :: "k6_scope \<Rightarrow> instant \<Rightarrow> instant \<Rightarrow> api_request \<Rightarrow> k6_state \<Rightarrow> k6_state result" where
  "audit_access scope start end a st =
     (let touched = filter (touches a) (scope_closure scope); verb = map lower_char (access_verb a) in
      if outside_window start end a then Inr st
      else if verb \<in> set READ_VERBS \<and> touched \<noteq> [] then Inr (read_access scope a touched st)
      else if verb \<in> set WRITE_VERBS \<and> common [access_user a, effective_user a] (scope_identities scope) \<and> touched = []
      then write_access a st
      else Inr st)"

fun audit_accesses :: "k6_scope \<Rightarrow> instant \<Rightarrow> instant \<Rightarrow> api_request list \<Rightarrow> k6_state \<Rightarrow> k6_state result" where
  "audit_accesses scope start end [] st = Inr st"
| "audit_accesses scope start end (a # as) st =
     and_then (audit_access scope start end a st) (audit_accesses scope start end as)"

definition k6_verdict :: "k6_state \<Rightarrow> channel_precondition" where
  "k6_verdict st =
     (case k6_failures st of
        (reason, _) # _ \<Rightarrow> fail_check ''K6'' reason (filter (\<lambda>e. e \<noteq> []) (map snd (k6_failures st)))
      | [] \<Rightarrow> (case k6_unknowns st of reason # _ \<Rightarrow> unknown_check ''K6'' reason | [] \<Rightarrow> pass_check ''K6''))"

definition without_audit :: "entity_ref list \<Rightarrow> string list \<Rightarrow> latest_versions \<Rightarrow> channel_precondition" where
  "without_audit closure identities latest =
     (case rbac_permissions closure identities latest of
        (e # es, _) \<Rightarrow> fail_check ''K6'' ''K6_PERMISSION_WITHOUT_AUDIT_EVIDENCE'' (e # es)
      | ([], unresolved) \<Rightarrow>
          unknown_check ''K6'' (if unresolved then ''K6_RBAC_ROLE_UNRESOLVED'' else ''K6_API_AUDIT_EVIDENCE_ABSENT''))"

type_synonym k6_outcome = "channel_precondition \<times> entity_ref list \<times> string list"

definition k6 ::
  "entity_ref list \<Rightarrow> journal \<Rightarrow> latest_versions \<Rightarrow> api_audit option \<Rightarrow> instant option \<Rightarrow> instant option
   \<Rightarrow> k6_outcome result" where
  "k6 closure versions latest audit start end =
     (let identities = closure_identities closure versions in
      case audit of
        None \<Rightarrow> Inr (without_audit closure identities latest, [], [])
      | Some audit \<Rightarrow>
          (case (start, end) of
             (Some s, Some e) \<Rightarrow>
               (let scope = \<lparr>scope_closure = closure, scope_versions = versions, scope_identities = identities\<rparr>;
                    st = audit_policy audit (fold (audit_server (server_audits audit) s e)
                           (sorted_set (serving_instances audit)) no_findings)
                in and_then (audit_accesses scope s e (api_accesses audit) st) (\<lambda>st.
                     Inr ((k6_verdict st)\<lparr>attributions := k6_attributions st\<rparr>, k6_expansion st, k6_control_plane st)))
           | _ \<Rightarrow> Inr (unknown_check ''K6'' ''K6_WINDOW_UNKNOWN'', [], [])))"

section \<open>The channel\<close>

text \<open>What is observed around a change: the window is filled in per closure.\<close>

record k_input =
  k_history :: journal
  k_events :: "cluster_event list"
  k_topology :: topology
  k_symptoms :: "entity_ref list"
  k_journal :: "journal_fact option"
  k_audit :: "api_audit option"

definition namespaces_of :: "entity_ref list \<Rightarrow> string list" where
  "namespaces_of rs = filter (\<lambda>n. n \<noteq> CLUSTER_SCOPE) (map namespace rs)"

definition k1 :: "entity_ref list \<Rightarrow> k_input \<Rightarrow> instant option \<Rightarrow> instant option \<Rightarrow> channel_precondition" where
  "k1 closure i start end =
     (case k_journal i of
        None \<Rightarrow> unknown_check ''K1'' ''K1_JOURNAL_COVERAGE_FACT_ABSENT''
      | Some f \<Rightarrow>
          (case (start, end) of
             (Some s, Some e) \<Rightarrow>
               if \<not> fact_continuous f \<or> gap_count f \<noteq> 0
               then fail_check ''K1'' ''K1_JOURNAL_NOT_CONTINUOUS'' [fact_evidence f]
               else if s < fact_start f \<or> fact_end f < e
                    \<or> \<not> set (namespaces_of closure @ namespaces_of (k_symptoms i) @ [CLUSTER_SCOPE])
                          \<subseteq> set (covered_namespaces f)
                    \<or> \<not> set (REQUIRED_JOURNAL_KINDS @ map kind closure) \<subseteq> set (covered_kinds f)
               then fail_check ''K1'' ''K1_JOURNAL_COVERAGE_INSUFFICIENT'' [fact_evidence f]
               else pass_check ''K1''
           | _ \<Rightarrow> unknown_check ''K1'' ''K1_WINDOW_UNKNOWN''))"

definition incomplete_kinds :: "entity_ref list \<Rightarrow> string list" where
  "incomplete_kinds closure =
     sorted_set (filter (\<lambda>k. case map_of KIND_PROFILE k of Some (_, True) \<Rightarrow> False | _ \<Rightarrow> True) (map kind closure))"

definition k2 :: "entity_ref list \<Rightarrow> channel_precondition" where
  "k2 closure =
     (case incomplete_kinds closure of
        [] \<Rightarrow> pass_check ''K2''
      | ks \<Rightarrow> fail_check ''K2'' (''K2_KIND_PROFILE_INCOMPLETE:'' @ joined '','' ks) [])"

definition k3 :: "entity_ref list \<Rightarrow> entity_ref list \<Rightarrow> channel_precondition" where
  "k3 closure symptoms =
     (if common (namespaces_of closure) (namespaces_of symptoms)
      then fail_check ''K3'' ''SAME_NAMESPACE_REFERENCE_SURFACE_INCOMPLETE'' []
      else unknown_check ''K3'' ''K3_SYMPTOM_SIDE_INCOMPLETE'')"

definition k4 :: "string list option \<Rightarrow> instant option \<Rightarrow> instant option \<Rightarrow> channel_precondition" where
  "k4 path start end =
     (if path \<noteq> None then fail_check ''K4'' ''K4_MODELED_PATH'' []
      else if start = None \<or> end = None then unknown_check ''K4'' ''K4_WINDOW_UNKNOWN'' else pass_check ''K4'')"

definition k5 :: "(string \<times> string) list \<Rightarrow> entity_ref list \<Rightarrow> channel_precondition" where
  "k5 surfaces closure =
     (case surfaces of
        (reason, _) # _ \<Rightarrow> fail_check ''K5'' reason (map snd surfaces)
      | [] \<Rightarrow> if incomplete_kinds closure \<noteq> [] then unknown_check ''K5'' ''K5_SCHEMA_PROFILE_INCOMPLETE''
              else pass_check ''K5'')"

text \<open>The graph of the window: the edges of the snapshot and those of every version.\<close>

definition window_topology ::
  "(relation_edge list \<Rightarrow> relation_edge list) \<Rightarrow> k_input \<Rightarrow> instant option \<Rightarrow> instant option \<Rightarrow> topology result" where
  "window_topology enum i start end =
     and_then (window_edges enum (window_versions start end (k_history i)) (k_events i)) (\<lambda>edges.
       Inr \<lparr>topo_edges = dedup (topo_edges (k_topology i) @ edges), topo_latest = latest_of (k_history i),
            relation_evidence = []\<rparr>)"

definition k_outcome ::
  "bool \<Rightarrow> channel_precondition list \<Rightarrow> channel_state \<times> string option" where
  "k_outcome path checks =
     (if path then (PATH, None)
      else case List.find (\<lambda>p. check_status p = CHECK_FAIL) checks of
             Some p \<Rightarrow> (UNCOVERED, check_reason p)
           | None \<Rightarrow>
               (case List.find (\<lambda>p. check_status p = CHECK_UNKNOWN) checks of
                  Some p \<Rightarrow> (UNKNOWN_CHANNEL, check_reason p)
                | None \<Rightarrow> (NO_PATH_COVERED, None)))"

definition evaluate_k ::
  "(relation_edge list \<Rightarrow> relation_edge list) \<Rightarrow> k_input \<Rightarrow> entity_ref list \<Rightarrow> instant option \<Rightarrow> instant option
   \<Rightarrow> k_evaluation result" where
  "evaluate_k enum i closure start end =
     (let versions = window_versions start end (k_history i) in
      and_then (window_topology enum i start end) (\<lambda>graph.
      and_then (k6 closure versions (latest_of (k_history i)) (k_audit i) start end) (\<lambda>(c6, expansion, control).
        let path = k4_path closure (k_symptoms i) graph;
            checks = [k1 closure i start end, k2 closure, k3 closure (k_symptoms i), k4 path start end,
                      k5 (k5_surfaces versions closure) closure, c6]
        in Inr \<lparr>k_state = fst (k_outcome (path \<noteq> None) checks), k_gap_reason = snd (k_outcome (path \<noteq> None) checks),
                k_preconditions = checks, k_expansion = filter (\<lambda>r. r \<notin> set closure) expansion,
                control_plane_access = control\<rparr>)))"

end
