(* ===== verification/Runtime_Graph.thy ===== *)
theory Runtime_Graph
  imports Topology
begin

text \<open>
  The services that were seen calling each other (\<open>packages/rca/runtime_graph.py\<close>): one canonical view of the
  spans, in which a span reported in two different ways is a conflict and counts for nothing, and the
  edges aggregated from the parents of spans, with the accounting of every span. A parent outside the
  window still resolves; the child decides. An edge document is validated when it is built, so a
  service of blanks, which the span document admits, raises.
\<close>

section \<open>Kinds of spans and of evidence\<close>

datatype runtime_span_kind =
    KIND_UNSPECIFIED | KIND_INTERNAL | KIND_SERVER | KIND_CLIENT | KIND_PRODUCER | KIND_CONSUMER | KIND_UNKNOWN

datatype edge_evidence_kind = PAIRED_CLIENT_SERVER | PAIRED_PRODUCER_CONSUMER | CROSS_SERVICE_PARENT

definition SPAN_KINDS :: "(string \<times> runtime_span_kind) list" where
  "SPAN_KINDS =
     [('''', KIND_UNSPECIFIED), (''0'', KIND_UNSPECIFIED), (''UNSPECIFIED'', KIND_UNSPECIFIED),
      (''SPAN_KIND_UNSPECIFIED'', KIND_UNSPECIFIED), (''1'', KIND_INTERNAL), (''INTERNAL'', KIND_INTERNAL),
      (''SPAN_KIND_INTERNAL'', KIND_INTERNAL), (''2'', KIND_SERVER), (''SERVER'', KIND_SERVER),
      (''SPAN_KIND_SERVER'', KIND_SERVER), (''3'', KIND_CLIENT), (''CLIENT'', KIND_CLIENT),
      (''SPAN_KIND_CLIENT'', KIND_CLIENT), (''4'', KIND_PRODUCER), (''PRODUCER'', KIND_PRODUCER),
      (''SPAN_KIND_PRODUCER'', KIND_PRODUCER), (''5'', KIND_CONSUMER), (''CONSUMER'', KIND_CONSUMER),
      (''SPAN_KIND_CONSUMER'', KIND_CONSUMER)]"

definition normalize_span_kind :: "string option \<Rightarrow> runtime_span_kind" where
  "normalize_span_kind value =
     (case map_of SPAN_KINDS (case value of None \<Rightarrow> '''' | Some s \<Rightarrow> map upper_char (strip s)) of
        None \<Rightarrow> KIND_UNKNOWN | Some k \<Rightarrow> k)"

definition stripped_service :: "trace_span \<Rightarrow> string" where
  "stripped_service s = strip (span_service s)"

definition classify_pair :: "trace_span \<Rightarrow> trace_span \<Rightarrow> edge_evidence_kind option" where
  "classify_pair parent child =
     (if stripped_service parent = stripped_service child then None
      else case (normalize_span_kind (span_kind parent), normalize_span_kind (span_kind child)) of
             (KIND_CLIENT, KIND_SERVER) \<Rightarrow> Some PAIRED_CLIENT_SERVER
           | (KIND_PRODUCER, KIND_CONSUMER) \<Rightarrow> Some PAIRED_PRODUCER_CONSUMER
           | _ \<Rightarrow> Some CROSS_SERVICE_PARENT)"

section \<open>The canonical view\<close>

type_synonym trace_key = "string \<times> string"
type_synonym span_fingerprint = "string option \<times> string \<times> runtime_span_kind \<times> string option"

definition span_key :: "trace_span \<Rightarrow> trace_key" where
  "span_key s = (trace_id s, span_id s)"

definition fingerprint_of :: "trace_span \<Rightarrow> span_fingerprint" where
  "fingerprint_of s =
     (parent_span_id s, stripped_service s, normalize_span_kind (span_kind s), span_attribute s ''k8s.pod.uid'')"

record trace_index =
  index_spans :: "(trace_key \<times> trace_span) list"
  conflicting_keys :: "trace_key list"
  duplicate_rows :: nat
  conflict_count :: nat
  known_fingerprints :: "(trace_key \<times> span_fingerprint list) list"
  index_input :: nat

definition no_spans :: trace_index where
  "no_spans = \<lparr>index_spans = [], conflicting_keys = [], duplicate_rows = 0, conflict_count = 0,
     known_fingerprints = [], index_input = 0\<rparr>"

definition fingerprints_at :: "trace_index \<Rightarrow> trace_key \<Rightarrow> span_fingerprint list" where
  "fingerprints_at i k = (case map_of (known_fingerprints i) k of None \<Rightarrow> [] | Some fs \<Rightarrow> fs)"

definition learn_fingerprint :: "trace_key \<Rightarrow> span_fingerprint \<Rightarrow> trace_index \<Rightarrow> trace_index" where
  "learn_fingerprint k f i =
     (let known = fingerprints_at i k in
      if f \<in> set known then i\<lparr>duplicate_rows := duplicate_rows i + 1\<rparr>
      else let i = i\<lparr>known_fingerprints := AList.update k (f # known) (known_fingerprints i)\<rparr> in
           if length (f # known) \<ge> 2 \<and> k \<notin> set (conflicting_keys i)
           then i\<lparr>conflicting_keys := conflicting_keys i @ [k], conflict_count := conflict_count i + 1,
                  index_spans := AList.delete k (index_spans i)\<rparr>
           else i)"

definition keep_span :: "trace_span \<Rightarrow> trace_index \<Rightarrow> trace_index" where
  "keep_span s i =
     (if span_key s \<in> set (conflicting_keys i) then i
      else case map_of (index_spans i) (span_key s) of
             None \<Rightarrow> i\<lparr>index_spans := AList.update (span_key s) s (index_spans i)\<rparr>
           | Some previous \<Rightarrow>
               if span_evidence s < span_evidence previous
               then i\<lparr>index_spans := AList.update (span_key s) s (index_spans i)\<rparr> else i)"

definition index_span :: "trace_span \<Rightarrow> trace_index \<Rightarrow> trace_index" where
  "index_span s i = keep_span s (learn_fingerprint (span_key s) (fingerprint_of s) i)"

definition canonicalize_spans :: "trace_span list \<Rightarrow> trace_index" where
  "canonicalize_spans spans = (fold index_span spans no_spans)\<lparr>index_input := length spans\<rparr>"

section \<open>Edges\<close>

record service_edge =
  caller_service :: string
  callee_service :: string
  first_call :: instant
  last_call :: instant
  client_server_pairs :: nat
  producer_consumer_pairs :: nat
  cross_service_pairs :: nat
  service_edge_evidence :: "string list"
  service_edge_traces :: "string list"

definition make_service_edge :: "service_edge \<Rightarrow> service_edge result" where
  "make_service_edge e =
     (if caller_service e = [] \<or> callee_service e = [] then Inl (ValueError ''String should have at least 1 character'')
      else if caller_service e = callee_service e then Inl (ValueError ''runtime service edges must be cross-service'')
      else if client_server_pairs e + producer_consumer_pairs e + cross_service_pairs e = 0
      then Inl (ValueError ''runtime service edge needs observed pair evidence'')
      else if last_call e < first_call e then Inl (ValueError ''runtime service edge has inverted observation range'')
      else Inr e)"

definition has_strict_evidence :: "service_edge \<Rightarrow> bool" where
  "has_strict_evidence e \<longleftrightarrow> client_server_pairs e > 0 \<or> producer_consumer_pairs e > 0"

definition fallback_only :: "service_edge \<Rightarrow> bool" where
  "fallback_only e \<longleftrightarrow> \<not> has_strict_evidence e \<and> cross_service_pairs e > 0"

text \<open>Values kept with the order that ranks them, at most 32.\<close>

type_synonym candidate_order = "instant \<times> string \<times> string \<times> string \<times> string"
type_synonym 'k ranked_values = "('k \<times> string) list"

definition bounded_unique_insert :: "'k::linorder \<Rightarrow> string \<Rightarrow> 'k ranked_values \<Rightarrow> 'k ranked_values" where
  "bounded_unique_insert order v values =
     (if v \<in> snd ` set values then values else take 32 (sort (values @ [(order, v)])))"

record edge_accumulator =
  acc_first :: "instant option"
  acc_last :: "instant option"
  acc_client_server :: nat
  acc_producer_consumer :: nat
  acc_cross_service :: nat
  acc_evidence :: "candidate_order ranked_values"
  acc_traces :: "candidate_order ranked_values"

definition no_calls :: edge_accumulator where
  "no_calls = \<lparr>acc_first = None, acc_last = None, acc_client_server = 0, acc_producer_consumer = 0,
     acc_cross_service = 0, acc_evidence = [], acc_traces = []\<rparr>"

definition later_of :: "instant option \<Rightarrow> instant \<Rightarrow> instant" where
  "later_of known t = (case known of None \<Rightarrow> t | Some u \<Rightarrow> max u t)"

definition earlier_of :: "instant option \<Rightarrow> instant \<Rightarrow> instant" where
  "earlier_of known t = (case known of None \<Rightarrow> t | Some u \<Rightarrow> min u t)"

definition add_pair ::
  "edge_evidence_kind \<Rightarrow> trace_span \<Rightarrow> trace_span \<Rightarrow> string \<times> string \<Rightarrow> edge_accumulator \<Rightarrow> edge_accumulator" where
  "add_pair evidence parent child services a =
     (let order = (span_start child, fst services, snd services, span_evidence parent, span_evidence child) in
      \<lparr>acc_first = Some (earlier_of (acc_first a) (span_start child)),
       acc_last = Some (later_of (acc_last a) (span_start child)),
       acc_client_server = acc_client_server a + (if evidence = PAIRED_CLIENT_SERVER then 1 else 0),
       acc_producer_consumer = acc_producer_consumer a + (if evidence = PAIRED_PRODUCER_CONSUMER then 1 else 0),
       acc_cross_service = acc_cross_service a + (if evidence = CROSS_SERVICE_PARENT then 1 else 0),
       acc_evidence = bounded_unique_insert order (span_evidence child)
         (bounded_unique_insert order (span_evidence parent) (acc_evidence a)),
       acc_traces = bounded_unique_insert order (trace_id child) (acc_traces a)\<rparr>)"

section \<open>Aggregation\<close>

record graph_counts =
  root_spans :: nat
  child_spans :: nat
  resolved_links :: nat
  orphan_links :: nat
  conflicting_links :: nat
  same_service_links :: nat
  cross_service_links :: nat
  client_server_total :: nat
  producer_consumer_total :: nat
  fallback_total :: nat

record graph_state =
  edge_accumulators :: "((string \<times> string) \<times> edge_accumulator) list"
  seen_services :: "string list"
  counts :: graph_counts

definition empty_graph_state :: graph_state where
  "empty_graph_state = \<lparr>edge_accumulators = [], seen_services = [],
     counts = \<lparr>root_spans = 0, child_spans = 0, resolved_links = 0, orphan_links = 0, conflicting_links = 0,
       same_service_links = 0, cross_service_links = 0, client_server_total = 0, producer_consumer_total = 0,
       fallback_total = 0\<rparr>\<rparr>"

definition in_span_window :: "instant option \<Rightarrow> instant option \<Rightarrow> instant \<Rightarrow> bool" where
  "in_span_window start end t \<longleftrightarrow>
     (case start of None \<Rightarrow> True | Some s \<Rightarrow> s \<le> t) \<and> (case end of None \<Rightarrow> True | Some e \<Rightarrow> t \<le> e)"

definition see_service :: "string \<Rightarrow> graph_state \<Rightarrow> graph_state" where
  "see_service s st = st\<lparr>seen_services := dedup (seen_services st @ [s])\<rparr>"

definition count_pair :: "edge_evidence_kind \<Rightarrow> graph_counts \<Rightarrow> graph_counts" where
  "count_pair evidence c =
     (case evidence of
        PAIRED_CLIENT_SERVER \<Rightarrow> c\<lparr>client_server_total := client_server_total c + 1\<rparr>
      | PAIRED_PRODUCER_CONSUMER \<Rightarrow> c\<lparr>producer_consumer_total := producer_consumer_total c + 1\<rparr>
      | CROSS_SERVICE_PARENT \<Rightarrow> c\<lparr>fallback_total := fallback_total c + 1\<rparr>)"

definition accumulator_at :: "graph_state \<Rightarrow> string \<times> string \<Rightarrow> edge_accumulator" where
  "accumulator_at st k = (case map_of (edge_accumulators st) k of None \<Rightarrow> no_calls | Some a \<Rightarrow> a)"

definition resolve_link :: "trace_span \<Rightarrow> trace_span \<Rightarrow> graph_state \<Rightarrow> graph_state" where
  "resolve_link parent child st =
     (let k = (stripped_service parent, stripped_service child);
          st = see_service (fst k) (st\<lparr>counts := (counts st)\<lparr>resolved_links := resolved_links (counts st) + 1\<rparr>\<rparr>)
      in case classify_pair parent child of
           None \<Rightarrow> st\<lparr>counts := (counts st)\<lparr>same_service_links := same_service_links (counts st) + 1\<rparr>\<rparr>
         | Some evidence \<Rightarrow>
             st\<lparr>counts := count_pair evidence
                  ((counts st)\<lparr>cross_service_links := cross_service_links (counts st) + 1\<rparr>),
                edge_accumulators := AList.update k (add_pair evidence parent child k (accumulator_at st k))
                  (edge_accumulators st)\<rparr>)"

definition graph_span ::
  "trace_index \<Rightarrow> instant option \<Rightarrow> instant option \<Rightarrow> trace_span \<Rightarrow> graph_state \<Rightarrow> graph_state" where
  "graph_span i start end child st =
     (if \<not> in_span_window start end (span_start child) then st
      else let st = see_service (stripped_service child) st in
           case parent_span_id child of
             None \<Rightarrow> st\<lparr>counts := (counts st)\<lparr>root_spans := root_spans (counts st) + 1\<rparr>\<rparr>
           | Some p \<Rightarrow>
               let st = st\<lparr>counts := (counts st)\<lparr>child_spans := child_spans (counts st) + 1\<rparr>\<rparr> in
               if (trace_id child, p) \<in> set (conflicting_keys i)
               then st\<lparr>counts := (counts st)\<lparr>conflicting_links := conflicting_links (counts st) + 1\<rparr>\<rparr>
               else case map_of (index_spans i) (trace_id child, p) of
                      None \<Rightarrow> st\<lparr>counts := (counts st)\<lparr>orphan_links := orphan_links (counts st) + 1\<rparr>\<rparr>
                    | Some parent \<Rightarrow> resolve_link parent child st)"

record graph_stats = graph_counts +
  input_spans :: nat
  canonical_spans :: nat
  duplicate_equivalent_rows :: nat
  conflicting_span_keys :: nat
  service_count :: nat
  edge_count :: nat
  strict_edge_count :: nat
  fallback_only_edge_count :: nat

record runtime_graph =
  graph_services :: "string list"
  service_edges :: "service_edge list"
  graph_stats :: graph_stats

definition edge_of_accumulator :: "(string \<times> string) \<times> edge_accumulator \<Rightarrow> service_edge" where
  "edge_of_accumulator p =
     (case p of ((caller, callee), a) \<Rightarrow>
        \<lparr>caller_service = caller, callee_service = callee, first_call = the (acc_first a), last_call = the (acc_last a),
         client_server_pairs = acc_client_server a, producer_consumer_pairs = acc_producer_consumer a,
         cross_service_pairs = acc_cross_service a, service_edge_evidence = map snd (acc_evidence a),
         service_edge_traces = map snd (acc_traces a)\<rparr>)"

definition make_stats :: "trace_index \<Rightarrow> graph_state \<Rightarrow> service_edge list \<Rightarrow> graph_stats" where
  "make_stats i st es =
     (let c = counts st in
      \<lparr>root_spans = root_spans c, child_spans = child_spans c, resolved_links = resolved_links c,
       orphan_links = orphan_links c, conflicting_links = conflicting_links c,
       same_service_links = same_service_links c, cross_service_links = cross_service_links c,
       client_server_total = client_server_total c, producer_consumer_total = producer_consumer_total c,
       fallback_total = fallback_total c, input_spans = index_input i, canonical_spans = length (index_spans i),
       duplicate_equivalent_rows = duplicate_rows i, conflicting_span_keys = conflict_count i,
       service_count = length (seen_services st), edge_count = length es,
       strict_edge_count = length (filter has_strict_evidence es),
       fallback_only_edge_count = length (filter fallback_only es)\<rparr>)"

definition make_graph :: "string list \<Rightarrow> service_edge list \<Rightarrow> graph_stats \<Rightarrow> runtime_graph" where
  "make_graph services es stats =
     \<lparr>graph_services = sorted_set services,
      service_edges = sort_key (\<lambda>e. (caller_service e, callee_service e)) es, graph_stats = stats\<rparr>"

definition runtime_graph_from_index ::
  "trace_index \<Rightarrow> instant option \<Rightarrow> instant option \<Rightarrow> runtime_graph result" where
  "runtime_graph_from_index i start end =
     (let st = fold (graph_span i start end) (map snd (index_spans i)) empty_graph_state in
      and_then (traverse (make_service_edge \<circ> edge_of_accumulator) (sort_key fst (edge_accumulators st))) (\<lambda>es.
        Inr (make_graph (seen_services st) es (make_stats i st es))))"

definition derive_runtime_graph ::
  "trace_span list \<Rightarrow> instant option \<Rightarrow> instant option \<Rightarrow> runtime_graph result" where
  "derive_runtime_graph spans start end = runtime_graph_from_index (canonicalize_spans spans) start end"

definition empty_runtime_graph :: runtime_graph where
  "empty_runtime_graph = make_graph [] [] (make_stats no_spans empty_graph_state [])"

section \<open>Lookups\<close>

definition strict_edges :: "runtime_graph \<Rightarrow> service_edge list" where
  "strict_edges g = filter has_strict_evidence (service_edges g)"

definition fallback_edges :: "runtime_graph \<Rightarrow> service_edge list" where
  "fallback_edges g = filter fallback_only (service_edges g)"

definition outgoing_of :: "service_edge list \<Rightarrow> string \<Rightarrow> service_edge list" where
  "outgoing_of es s = filter (\<lambda>e. caller_service e = s) es"

definition incoming_of :: "service_edge list \<Rightarrow> string \<Rightarrow> service_edge list" where
  "incoming_of es s = filter (\<lambda>e. callee_service e = s) es"

end
