(* ===== verification/Channels.thy ===== *)
theory Channels
  imports K_Coverage Runtime_Graph
begin

text \<open>
  How an initiated change may have acted (\<open>packages/rca/channels.py\<close>): the closure of the objects it acts
  through, expanded by whoever read it, and for each influence channel whether it applies and what was
  observed. The closure is a set in the source; here it is a list whose order decides nothing. Both of
  its loops end: members only grow within the objects of the edges, the journal and the audited writes.
\<close>

section \<open>The closure of a change\<close>

definition KNOWN_KINDS :: "string list" where
  "KNOWN_KINDS =
     [''Namespace'', ''ConfigMap'', ''Secret'', ''Deployment'', ''StatefulSet'', ''DaemonSet'', ''ReplicaSet'', ''Job'',
      ''CronJob'', ''Pod'', ''Service'', ''HorizontalPodAutoscaler'', ''NetworkPolicy'', ''ResourceQuota'',
      ''LimitRange'', ''Schedule'', ''NetworkChaos'', ''PodChaos'', ''StressChaos'', ''JVMChaos'', ''HTTPChaos'',
      ''IOChaos'', ''DNSChaos'', ''TimeChaos'', ''KernelChaos'', ''Endpoints'', ''EndpointSlice'', ''ServiceAccount'',
      ''PersistentVolumeClaim'']"

definition CONTROL_PLANE_KINDS :: "string list" where
  "CONTROL_PLANE_KINDS =
     [''Namespace'', ''ClusterRole'', ''ClusterRoleBinding'', ''CustomResourceDefinition'', ''PriorityClass'',
      ''ValidatingWebhookConfiguration'', ''MutatingWebhookConfiguration'', ''StorageClass'', ''Node'',
      ''PersistentVolume'', ''APIService'']"

definition MAX_MEMBERS :: nat where
  "MAX_MEMBERS = 64"

text \<open>Edges lead from children to parents and from consumers to configurations: some are followed backwards.\<close>

definition follows :: "topology \<Rightarrow> entity_ref \<Rightarrow> entity_ref list" where
  "follows t r = edges_out t r ''spawns'' @ edges_out t r ''scales'' @ edges_in t r ''owned_by'' @ edges_in t r ''uses_config''"

definition edge_entities :: "topology \<Rightarrow> entity_ref list" where
  "edge_entities t = map edge_source (topo_edges t) @ map edge_target (topo_edges t)"

lemma follows_entities: "set (follows t r) \<subseteq> set (edge_entities t)"
  by (auto simp: follows_def edges_out_def edges_in_def edge_entities_def)

text \<open>The frontier is a stack: what was found last is followed first.\<close>

definition found_from :: "topology \<Rightarrow> entity_ref list \<Rightarrow> entity_ref \<Rightarrow> entity_ref list" where
  "found_from t ms r = dedup (filter (\<lambda>n. n \<notin> set ms) (follows t r))"

lemma set_found_from [simp]: "set (found_from t ms r) = set (follows t r) - set ms"
  by (auto simp: found_from_def)

function close_over :: "topology \<Rightarrow> entity_ref list \<Rightarrow> entity_ref list \<Rightarrow> entity_ref list" where
  "close_over t ms [] = ms"
| "close_over t ms (r # stack) =
     close_over t (ms @ found_from t ms r) (rev (found_from t ms r) @ stack)"
  by pat_completeness auto
termination
proof (relation "measures [\<lambda>(t, ms, _). card (set (edge_entities t) - set ms), \<lambda>(_, _, stack). length stack]",
    goal_cases)
  case (2 t ms r stack)
  show ?case
  proof (cases "found_from t ms r = []")
    case False
    then obtain n where "n \<in> set (found_from t ms r)" by (cases "found_from t ms r") auto
    then have "n \<in> set (edge_entities t) - set ms" using follows_entities by auto
    moreover have "n \<notin> set (edge_entities t) - set (ms @ found_from t ms r)"
      using \<open>n \<in> set (found_from t ms r)\<close> by simp
    ultimately have "set (edge_entities t) - set (ms @ found_from t ms r) \<subset> set (edge_entities t) - set ms"
      by auto
    then show ?thesis by (simp add: psubset_card_mono)
  qed simp
qed simp

definition namespace_members :: "latest_versions \<Rightarrow> entity_ref list \<Rightarrow> entity_ref list" where
  "namespace_members latest ms =
     concat (map (\<lambda>r. filter (\<lambda>o'. namespace o' = name r) (map fst latest))
       (filter (\<lambda>r. kind r = ''Namespace'') ms))"

definition closure_seeds :: "entity_ref \<Rightarrow> latest_versions \<Rightarrow> entity_ref list \<Rightarrow> entity_ref list" where
  "closure_seeds actor latest extra =
     dedup (dedup (actor # extra) @ namespace_members latest (dedup (actor # extra)))"

definition closure_of :: "entity_ref \<Rightarrow> topology \<Rightarrow> latest_versions \<Rightarrow> entity_ref list \<Rightarrow> entity_ref list" where
  "closure_of actor t latest extra =
     close_over t (closure_seeds actor latest extra) (rev (closure_seeds actor latest extra))"

section \<open>The closure with its readers\<close>

record channel_input =
  ch_k :: k_input
  ch_services :: "string list"
  ch_graph :: runtime_graph
  ch_traced :: "string list"
  ch_onset :: "instant option"
  ch_grace :: duration

text \<open>The object a named request is about.\<close>

definition access_target :: "api_request \<Rightarrow> entity_ref option" where
  "access_target a =
     map_option (\<lambda>n. \<lparr>kind = access_kind a, name = n, namespace = access_scope a\<rparr>) (access_name a)"

definition audit_targets :: "api_audit option \<Rightarrow> entity_ref list" where
  "audit_targets audit = (case audit of None \<Rightarrow> [] | Some a \<Rightarrow> List.map_filter access_target (api_accesses a))"

definition reader_universe :: "k_input \<Rightarrow> entity_ref list" where
  "reader_universe i = map fst (k_history i) @ audit_targets (k_audit i)"

text \<open>The window starts at the last version of a member before the change, or at the change.\<close>

definition window_start_of :: "journal \<Rightarrow> entity_ref list \<Rightarrow> instant option \<Rightarrow> instant option" where
  "window_start_of history closure t_change =
     (case t_change of
        None \<Rightarrow> None
      | Some t \<Rightarrow>
          (case py_max (filter (\<lambda>o'. o' < t) (concat (map (map observed_at \<circ> history_of history) closure))) of
             None \<Rightarrow> Some t | Some s \<Rightarrow> Some s))"

definition window_end_of :: "channel_input \<Rightarrow> instant option" where
  "window_end_of x = map_option (\<lambda>t. t + ch_grace x) (ch_onset x)"

definition closure_round ::
  "(relation_edge list \<Rightarrow> relation_edge list) \<Rightarrow> channel_input \<Rightarrow> entity_ref \<Rightarrow> instant option \<Rightarrow> entity_ref list
   \<Rightarrow> (entity_ref list \<times> instant option \<times> k_evaluation) result" where
  "closure_round enum x actor t_change extra =
     (let i = ch_k x; closure = closure_of actor (k_topology i) (latest_of (k_history i)) extra;
          start = window_start_of (k_history i) closure t_change
      in and_then (evaluate_k enum i closure start (window_end_of x)) (\<lambda>k. Inr (closure, start, k)))"

definition newly_reached :: "entity_ref list \<Rightarrow> k_evaluation \<Rightarrow> entity_ref list" where
  "newly_reached closure k = filter (\<lambda>r. r \<notin> set closure) (k_expansion k)"

subsection \<open>What an expansion can reach\<close>

lemma window_versions_keys: "set (map fst (window_versions start end history)) \<subseteq> set (map fst history)"
  by (force simp: window_versions_def)

lemma identity_pods_keys: "set (identity_pods versions identity) \<subseteq> set (map fst versions)"
  by (auto simp: identity_pods_def)

lemma audit_access_expansion:
  "audit_access scope start end a st = Inr st' \<Longrightarrow>
   set (k6_expansion st') \<subseteq> set (k6_expansion st) \<union> set (map fst (scope_versions scope)) \<union> set_option (access_target a)"
  using identity_pods_keys [of "scope_versions scope" "effective_user a"]
  by (auto simp: audit_access_def read_access_def write_access_def Let_def add_attribution_def add_failure_def
      add_control_plane_def add_targets_def make_entity_def access_target_def split: if_splits option.splits reading.splits)

lemma audit_accesses_expansion:
  "audit_accesses scope start end reqs st = Inr st' \<Longrightarrow>
   set (k6_expansion st') \<subseteq> set (k6_expansion st) \<union> set (map fst (scope_versions scope))
     \<union> set (List.map_filter access_target reqs)"
proof (induction reqs arbitrary: st)
  case (Cons a reqs)
  then obtain m where m: "audit_access scope start end a st = Inr m" "audit_accesses scope start end reqs m = Inr st'"
    by auto
  have "set (List.map_filter access_target (a # reqs)) = set_option (access_target a) \<union> set (List.map_filter access_target reqs)"
    by (cases "access_target a") (auto simp: List.map_filter_simps)
  then show ?case using Cons.IH [OF m(2)] audit_access_expansion [OF m(1)] by blast
qed simp

lemma audit_server_expansion [simp]: "k6_expansion (audit_server audits start end i st) = k6_expansion st"
  by (simp add: audit_server_def add_unknown_def add_failure_def split: option.split)

lemma audit_servers_expansion [simp]:
  "k6_expansion (fold (audit_server audits start end) is st) = k6_expansion st"
  by (induction "is" arbitrary: st) simp_all

lemma audit_policy_expansion [simp]: "k6_expansion (audit_policy audit st) = k6_expansion st"
  by (simp add: audit_policy_def add_unknown_def add_failure_def Let_def)

lemma k6_expansion_known:
  assumes "k6 closure (window_versions s e history) latest audit start end = Inr (c, expansion, control)"
  shows "set expansion \<subseteq> set (map fst history) \<union> set (audit_targets audit)"
proof (cases audit)
  case None
  then show ?thesis using assms by (simp add: k6_def Let_def)
next
  case (Some a)
  consider "start = None \<or> end = None" | u v where "start = Some u" "end = Some v" by (cases start; cases "end") auto
  then show ?thesis
  proof cases
    case 1
    then show ?thesis using assms Some by (cases start; cases "end") (auto simp: k6_def Let_def)
  next
    case 2
    obtain st scope sc where st: "audit_accesses scope u v (api_accesses a) sc = Inr st"
      "expansion = k6_expansion st" "k6_expansion sc = []" "scope_versions scope = window_versions s e history"
      using assms by (auto simp: k6_def Let_def Some 2 no_findings_def)
    show ?thesis
      using audit_accesses_expansion [OF st(1)] window_versions_keys [of s e history]
      by (auto simp: st(2-4) audit_targets_def Some)
  qed
qed

lemma expansion_known:
  "evaluate_k enum i closure start end = Inr k \<Longrightarrow> set (k_expansion k) \<subseteq> set (reader_universe i) - set closure"
  by (auto simp: evaluate_k_def Let_def reader_universe_def dest!: k6_expansion_known)

lemma close_over_members: "set ms \<subseteq> set (close_over t ms stack)"
  by (induction t ms stack rule: close_over.induct) auto

lemma closure_of_seeds: "set (actor # extra) \<subseteq> set (closure_of actor t latest extra)"
proof -
  have "set (actor # extra) \<subseteq> set (closure_seeds actor latest extra)" by (auto simp: closure_seeds_def)
  then show ?thesis using close_over_members by (fastforce simp: closure_of_def)
qed

text \<open>The closure is expanded by the readers and targets of its accesses until there are no new ones.\<close>

function settle_closure ::
  "(relation_edge list \<Rightarrow> relation_edge list) \<Rightarrow> channel_input \<Rightarrow> entity_ref \<Rightarrow> instant option \<Rightarrow> entity_ref list
   \<Rightarrow> (entity_ref list \<times> instant option \<times> k_evaluation) result" where
  "settle_closure enum x actor t_change extra =
     (case closure_round enum x actor t_change extra of
        Inl e \<Rightarrow> Inl e
      | Inr (closure, start, k) \<Rightarrow>
          if newly_reached closure k = [] then Inr (closure, start, k)
          else settle_closure enum x actor t_change (dedup (extra @ k_expansion k)))"
  by pat_completeness auto
termination
proof (relation "measure (\<lambda>(_, x, _, _, extra). card (set (reader_universe (ch_k x)) - set extra))", goal_cases)
  case (2 enum x actor t_change extra p closure q start k)
  then have k: "evaluate_k enum (ch_k x) closure start (window_end_of x) = Inr k"
    and closure: "closure = closure_of actor (k_topology (ch_k x)) (latest_of (k_history (ch_k x))) extra"
    by (auto simp: closure_round_def Let_def)
  from 2 obtain r where "r \<in> set (newly_reached closure k)" by (cases "newly_reached closure k") auto
  then have r: "r \<in> set (k_expansion k)" "r \<notin> set closure" by (auto simp: newly_reached_def)
  then have "r \<in> set (reader_universe (ch_k x)) - set extra"
    using expansion_known [OF k] closure_of_seeds closure by fastforce
  then have "set (reader_universe (ch_k x)) - set (dedup (extra @ k_expansion k)) \<subset> set (reader_universe (ch_k x)) - set extra"
    using r by auto
  then show ?case by (simp add: psubset_card_mono)
qed simp

declare settle_closure.simps [simp del]

section \<open>Channels\<close>

datatype applicability = APPLICABLE | NOT_APPLICABLE

record channel_evaluation =
  channel :: string
  applicability :: applicability
  applicability_basis :: string
  channel_verdict :: "channel_state option"
  channel_gap :: "string option"
  channel_evidence :: "string list"
  channel_rule :: "string option"
  channel_preconditions :: "channel_precondition list"

definition applicable :: "string \<Rightarrow> string \<Rightarrow> channel_state \<Rightarrow> string option \<Rightarrow> string list \<Rightarrow> channel_evaluation" where
  "applicable c basis state gap evidence =
     \<lparr>channel = c, applicability = APPLICABLE, applicability_basis = basis, channel_verdict = Some state, channel_gap = gap,
      channel_evidence = evidence, channel_rule = None, channel_preconditions = []\<rparr>"

definition not_applicable :: "string \<Rightarrow> string \<Rightarrow> channel_evaluation" where
  "not_applicable c basis =
     \<lparr>channel = c, applicability = NOT_APPLICABLE, applicability_basis = basis, channel_verdict = None,
      channel_gap = None, channel_evidence = [], channel_rule = None, channel_preconditions = []\<rparr>"

definition service_bearing :: "entity_ref list \<Rightarrow> topology \<Rightarrow> string list" where
  "service_bearing rs t =
     dedup (concat (map (\<lambda>r.
       (if kind r \<in> {''Service'', ''Deployment'', ''StatefulSet'', ''DaemonSet''} then [name r] else [])
       @ (case workload_of t r of None \<Rightarrow> [] | Some w \<Rightarrow> [name w])) rs))"

definition pods_of :: "entity_ref list \<Rightarrow> entity_ref list" where
  "pods_of closure = sort_key canonical (filter (\<lambda>r. kind r = ''Pod'') closure)"

definition snapshot_spec :: "latest_versions \<Rightarrow> entity_ref \<Rightarrow> (string \<times> json) list" where
  "snapshot_spec latest r = (case map_of latest r of None \<Rightarrow> [] | Some v \<Rightarrow> as_dict (dict_value (body v) ''spec''))"

definition joins :: "string list \<Rightarrow> string list \<Rightarrow> service_edge \<Rightarrow> bool" where
  "joins inside symptoms e \<longleftrightarrow>
     (caller_service e \<in> set inside \<and> callee_service e \<in> set symptoms)
     \<or> (callee_service e \<in> set inside \<and> caller_service e \<in> set symptoms)"

definition evidence_of_edges :: "service_edge list \<Rightarrow> string list" where
  "evidence_of_edges es = take 12 (sorted_set (concat (map service_edge_evidence es)))"

definition channel_K :: "k_evaluation \<Rightarrow> channel_evaluation" where
  "channel_K k =
     (applicable ''K'' ''every object has a reference surface'' (k_state k) (k_gap_reason k) [])
       \<lparr>channel_rule := Some ''m21.k-reference-coverage.v1'', channel_preconditions := k_preconditions k\<rparr>"

definition has_runtime :: "entity_ref list \<Rightarrow> bool" where
  "has_runtime closure \<longleftrightarrow> list_ex (\<lambda>r. kind r = ''Pod'' \<or> kind r = ''Service'') closure"

definition channel_R :: "channel_input \<Rightarrow> entity_ref list \<Rightarrow> channel_evaluation" where
  "channel_R x closure =
     (let es = filter (\<lambda>e. client_server_pairs e \<noteq> 0 \<and> joins (service_bearing closure (k_topology (ch_k x))) (ch_services x) e)
                 (strict_edges (ch_graph x));
          bare = filter (\<lambda>p. name p \<notin> set (ch_traced x)) (pods_of closure)
      in if has_runtime closure
         then applicable ''R'' ''closure contains a Pod or Service'' (if es \<noteq> [] then PATH else UNCOVERED)
                (if es \<noteq> [] then None
                 else Some (if bare \<noteq> [] then ''UNINSTRUMENTED_POD'' else ''TRACE_READ_COMPLETENESS_UNPROVEN''))
                (evidence_of_edges es)
         else not_applicable ''R'' ''closure has no Pod or Service'')"

definition channel_M :: "channel_input \<Rightarrow> entity_ref list \<Rightarrow> channel_evaluation" where
  "channel_M x closure =
     (let es = filter (\<lambda>e. producer_consumer_pairs e \<noteq> 0 \<and> joins (service_bearing closure (k_topology (ch_k x))) (ch_services x) e)
                 (service_edges (ch_graph x))
      in if pods_of closure \<noteq> []
         then applicable ''M'' ''closure contains a Pod'' (if es \<noteq> [] then PATH else UNCOVERED)
                (if es \<noteq> [] then None else Some ''MESSAGING_COVERAGE_UNPROVEN'') (evidence_of_edges es)
         else not_applicable ''M'' ''closure has no Pod'')"

definition node_of :: "latest_versions \<Rightarrow> entity_ref \<Rightarrow> json" where
  "node_of latest r = dict_value (snapshot_spec latest r) ''nodeName''"

definition symptom_nodes :: "latest_versions \<Rightarrow> entity_ref list \<Rightarrow> json list" where
  "symptom_nodes latest symptoms =
     filter (\<lambda>n. n \<noteq> JNull) (map (node_of latest) (filter (\<lambda>r. kind r = ''Pod'' \<and> r \<in> set symptoms) (map fst latest)))"

definition channel_N :: "channel_input \<Rightarrow> entity_ref list \<Rightarrow> channel_evaluation" where
  "channel_N x closure =
     (let latest = latest_of (k_history (ch_k x)); pods = pods_of closure;
          unplaced = filter (\<lambda>p. \<not> truthy (node_of latest p)) pods;
          shared = filter (\<lambda>p. truthy (node_of latest p) \<and> node_of latest p \<in> set (symptom_nodes latest (k_symptoms (ch_k x)))) pods
      in if pods = [] then not_applicable ''N'' ''closure has no Pod''
         else if unplaced \<noteq> []
         then applicable ''N'' ''closure contains a Pod scheduled in the window'' UNKNOWN_CHANNEL (Some ''POD_PLACEMENT_UNKNOWN'') []
         else if shared \<noteq> []
         then applicable ''N'' ''closure contains a Pod scheduled in the window'' UNCOVERED (Some ''SHARED_NODE_WITH_SYMPTOM_POD'') []
         else applicable ''N'' ''closure contains a Pod scheduled in the window'' NO_PATH_COVERED None [])"

text \<open>A truth value is an integer in the source's test.\<close>

definition priority_of :: "latest_versions \<Rightarrow> entity_ref \<Rightarrow> int option" where
  "priority_of latest r =
     (case dict_value (snapshot_spec latest r) ''priority'' of
        JInt n \<Rightarrow> Some n | JBool b \<Rightarrow> Some (if b then 1 else 0) | _ \<Rightarrow> None)"

fun preempting :: "latest_versions \<Rightarrow> int option list \<Rightarrow> entity_ref list \<Rightarrow> bool \<Rightarrow> (channel_state \<times> string) option" where
  "preempting latest victims [] lacking = (if lacking then Some (UNKNOWN_CHANNEL, ''preemption facts missing'') else None)"
| "preempting latest victims (p # pods) lacking =
     (let policy = dict_value (snapshot_spec latest p) ''preemptionPolicy'' in
      case priority_of latest p of
        None \<Rightarrow> preempting latest victims pods True
      | Some own \<Rightarrow>
          if policy = JNull then preempting latest victims pods True
          else if policy \<noteq> JStr ''Never'' \<and> list_ex (\<lambda>v. case v of None \<Rightarrow> False | Some n \<Rightarrow> n < own) victims
          then Some (UNCOVERED, ''closure Pod '' @ canonical p @ '' can preempt a symptom-side Pod'')
          else preempting latest victims pods lacking)"

definition preemption ::
  "entity_ref list \<Rightarrow> latest_versions \<Rightarrow> entity_ref list \<Rightarrow> topology \<Rightarrow> (channel_state \<times> string) option" where
  "preemption pods latest symptoms t =
     (let symptom_pods = filter (\<lambda>r. kind r = ''Pod''
            \<and> (r \<in> set symptoms \<or> (case workload_of t r of None \<Rightarrow> False | Some w \<Rightarrow> w \<in> set symptoms))) (map fst latest);
          victims = map (priority_of latest) symptom_pods
      in if pods = [] then None else preempting latest victims pods (symptom_pods = [] \<or> None \<in> set victims))"

definition channel_C :: "channel_input \<Rightarrow> entity_ref list \<Rightarrow> k_evaluation \<Rightarrow> channel_evaluation" where
  "channel_C x closure k =
     (let i = ch_k x; control = sorted_set (filter (\<lambda>n. n \<in> set CONTROL_PLANE_KINDS) (map kind closure));
          p = preemption (pods_of closure) (latest_of (k_history i)) (k_symptoms i) (k_topology i);
          bases = (if control \<noteq> [] then [''closure contains '' @ joined '', '' control] else [])
                  @ (case p of None \<Rightarrow> [] | Some (_, basis) \<Rightarrow> [basis])
                  @ (if control_plane_access k \<noteq> [] then [''control-plane identity accessed the closure''] else []);
          missing_fact = (control = [] \<and> control_plane_access k = []
                          \<and> p = Some (UNKNOWN_CHANNEL, ''preemption facts missing''))
      in if bases \<noteq> []
         then applicable ''C'' (joined ''; '' bases) (if missing_fact then UNKNOWN_CHANNEL else UNCOVERED)
                (Some (if missing_fact then ''C_PREEMPTION_FACT_MISSING'' else ''CONTROL_PLANE_NEVER_COVERED_V1''))
                (take 12 (control_plane_access k))
         else not_applicable ''C'' ''closure has no cluster-scoped or control-plane kind, no preempting Pod and no control-plane identity access'')"

definition channel_O :: "finding list \<Rightarrow> entity_ref list \<Rightarrow> channel_evaluation" where
  "channel_O fs closure =
     (if list_ex (\<lambda>f. finding_kind f = TRAFFIC_INCREASE) fs
      then applicable ''O'' ''candidate is a TRAFFIC_INCREASE'' UNKNOWN_CHANNEL (Some ''ALERT_PROVENANCE_UNDECLARED'') []
      else if has_runtime closure
      then applicable ''O'' ''closure contains a Pod or Service'' UNKNOWN_CHANNEL (Some ''ALERT_PROVENANCE_UNDECLARED'') []
      else not_applicable ''O'' ''closure has no Pod or Service and no traffic finding'')"

section \<open>Assessment\<close>

definition closure_verdict ::
  "channel_evaluation list \<Rightarrow> bool \<Rightarrow> instant option \<Rightarrow> instant option \<Rightarrow> support_status \<times> string" where
  "closure_verdict evaluations complete start end =
     (let states = map channel_verdict (filter (\<lambda>e. applicability e = APPLICABLE) evaluations) in
      if \<not> complete then (INAPPLICABLE, ''CLOSURE_INCOMPLETE'')
      else if start = None \<or> end = None then (INAPPLICABLE, ''WINDOW_UNKNOWN'')
      else if states = [] then (INAPPLICABLE, ''NO_APPLICABLE_CHANNEL'')
      else if Some PATH \<in> set states then (NOT_FIRED, ''PATH'')
      else if Some UNCOVERED \<in> set states \<or> Some UNKNOWN_CHANNEL \<in> set states
      then (INAPPLICABLE, ''UNCOVERED_OR_UNKNOWN_CHANNEL'')
      else (FIRED, ''ALL_APPLICABLE_NO_PATH_COVERED''))"

record channel_assessment =
  closure_members :: "string list"
  closure_member_count :: nat
  closure_complete :: bool
  assessed_start :: "instant option"
  assessed_end :: "instant option"
  evaluations :: "channel_evaluation list"
  closure_outcome :: support_status
  outcome_reason :: string

definition change_time :: "(string \<Rightarrow> instant option) \<Rightarrow> hypothesis \<Rightarrow> instant option" where
  "change_time fromisoformat h = py_min (List.map_filter (causal_time fromisoformat) (initiating_findings h))"

definition closure_is_complete :: "channel_input \<Rightarrow> entity_ref \<Rightarrow> entity_ref list \<Rightarrow> bool" where
  "closure_is_complete x actor closure \<longleftrightarrow>
     actor \<in> fst ` set (latest_of (k_history (ch_k x))) \<and> list_all (\<lambda>r. kind r \<in> set KNOWN_KINDS) closure"

definition evaluate_channels ::
  "channel_input \<Rightarrow> finding list \<Rightarrow> entity_ref list \<Rightarrow> k_evaluation \<Rightarrow> channel_evaluation list" where
  "evaluate_channels x fs closure k =
     [channel_K k, channel_R x closure, channel_M x closure, channel_N x closure, channel_C x closure k, channel_O fs closure]"

definition assess_change ::
  "(relation_edge list \<Rightarrow> relation_edge list) \<Rightarrow> (string \<Rightarrow> instant option) \<Rightarrow> channel_input \<Rightarrow> hypothesis
   \<Rightarrow> channel_assessment result" where
  "assess_change enum fromisoformat x h =
     and_then (settle_closure enum x (causal_actor h) (change_time fromisoformat h) []) (\<lambda>(closure, start, k).
       let es = evaluate_channels x (findings h) closure k; complete = closure_is_complete x (causal_actor h) closure;
           verdict = closure_verdict es complete start (window_end_of x); ordered = sort_key canonical closure
       in Inr \<lparr>closure_members = map canonical (take MAX_MEMBERS ordered), closure_member_count = length ordered,
               closure_complete = complete, assessed_start = start, assessed_end = window_end_of x, evaluations = es,
               closure_outcome = fst verdict, outcome_reason = snd verdict\<rparr>)"

text \<open>The names of the pods that emitted spans, and the services the symptoms stand for.\<close>

definition traced_pods :: "trace_span list \<Rightarrow> string list" where
  "traced_pods spans = filter (\<lambda>n. n \<noteq> []) (List.map_filter (\<lambda>s. span_attribute s ''k8s.pod.name'') spans)"

definition channel_assessments ::
  "(relation_edge list \<Rightarrow> relation_edge list) \<Rightarrow> (string \<Rightarrow> instant option) \<Rightarrow> channel_input \<Rightarrow> trace_span list
   \<Rightarrow> hypothesis list \<Rightarrow> (string \<times> channel_assessment) list result" where
  "channel_assessments enum fromisoformat x spans hs =
     (let i = ch_k x;
          x = x\<lparr>ch_traced := traced_pods spans,
                ch_services := ch_services x @ service_bearing (k_symptoms i) (k_topology i)\<rparr>
      in and_then (traverse (\<lambda>h. and_then (assess_change enum fromisoformat x h) (\<lambda>a. Inr (hypothesis_id h, a)))
             (filter (\<lambda>h. initiating_findings h \<noteq> []) hs)) (\<lambda>ps.
           Inr (fold (\<lambda>(k, a). AList.update k a) ps [])))"

text \<open>Each audit with its assessment: the decisions stay as they are.\<close>

definition attach_assessments ::
  "resolution_trace \<Rightarrow> (string \<times> channel_assessment) list \<Rightarrow> (resolution_audit \<times> channel_assessment option) list" where
  "attach_assessments trace assessments =
     map (\<lambda>a. (a, map_of assessments (audit_hypothesis a))) (hypothesis_audits trace)"

end
