(* ===== verification/Topology_Correct.thy ===== *)
theory Topology_Correct
  imports Topology
begin

text \<open>
  What the causal traversal of \<open>Topology\<close> guarantees: it walks only relations whose causal direction is
  declared, its path is a shortest one within the bound, and its distance is the length of that path. Also
  that observed propagation adds only edges between verified endpoints, with evidence, and that the order in
  which a set of edges is iterated can show.
\<close>

section \<open>Causal hops\<close>

definition causal_step :: "topology \<Rightarrow> causal_hop \<Rightarrow> bool" where
  "causal_step t h \<longleftrightarrow> (\<exists>e\<in>set (topo_edges t). \<exists>s. map_of RELATION_SEMANTICS (edge_relation e) = Some s
     \<and> (forward s \<and> h = \<lparr>hop_source = edge_source e, relation = forward_relation s, hop_target = edge_target e\<rparr>
        \<or> backward s \<and> h = \<lparr>hop_source = edge_target e, relation = backward_relation s, hop_target = edge_source e\<rparr>))"

lemma set_causal_hops: "set (causal_hops t) = {h. causal_step t h}"
proof -
  have f: "h \<in> set (List.map_filter forward_hop (topo_edges t)) \<longleftrightarrow>
      (\<exists>e\<in>set (topo_edges t). \<exists>s. map_of RELATION_SEMANTICS (edge_relation e) = Some s \<and> forward s
         \<and> h = \<lparr>hop_source = edge_source e, relation = forward_relation s, hop_target = edge_target e\<rparr>)" for h
    unfolding in_map_filter by (auto simp: forward_hop_def mk_hop_def split: option.split)
  have b: "h \<in> set (List.map_filter backward_hop (topo_edges t)) \<longleftrightarrow>
      (\<exists>e\<in>set (topo_edges t). \<exists>s. map_of RELATION_SEMANTICS (edge_relation e) = Some s \<and> backward s
         \<and> h = \<lparr>hop_source = edge_target e, relation = backward_relation s, hop_target = edge_source e\<rparr>)" for h
    unfolding in_map_filter by (auto simp: backward_hop_def mk_hop_def split: option.split)
  have "set (causal_hops t) = set (List.map_filter forward_hop (topo_edges t)) \<union> set (List.map_filter backward_hop (topo_edges t))"
    by (simp add: causal_hops_def image_Un image_image)
  also have "\<dots> = {h. causal_step t h}"
    by (intro set_eqI) (simp only: Un_iff f b causal_step_def mem_Collect_eq, blast)
  finally show ?thesis .
qed

text \<open>Every hop carries a relation that the claims admit.\<close>

lemma semantics_in_relations:
  assumes "map_of RELATION_SEMANTICS r = Some s"
  shows "(forward s \<longrightarrow> forward_relation s \<in> set RELATIONS) \<and> (backward s \<longrightarrow> backward_relation s \<in> set RELATIONS)"
  using map_of_SomeD [OF assms] by (auto simp: RELATIONS_def)

lemma causal_relation: "causal_step t h \<Longrightarrow> relation h \<in> set RELATIONS"
  using semantics_in_relations by (fastforce simp: causal_step_def)

lemma walk_hops: "walk A s p e \<Longrightarrow> set p \<subseteq> A"
  by (induction p arbitrary: s) auto

lemma causal_path_walk:
  assumes "causal_path t m e targets = Some p"
  shows "\<exists>x\<in>set targets. walk {h. causal_step t h} e p x \<and> length p \<le> m"
  using path_within_shortest [of m "causal_hops t" e targets] assms
  by (auto simp: causal_path_def set_causal_hops)

lemma causal_distance_walk:
  assumes "causal_distance t m e targets \<noteq> None"
  shows "\<exists>p. \<exists>x\<in>set targets. walk {h. causal_step t h} e p x \<and> length p \<le> m"
proof -
  obtain p where "causal_path t m e targets = Some p"
    using assms distance_is_path_length [of m "causal_hops t" e targets]
    by (auto simp: causal_distance_def causal_path_def)
  from causal_path_walk [OF this] show ?thesis by blast
qed

text \<open>
  C15: A causal path is a shortest one, and there is one exactly when the effect can be reached. A path
  from an entity to a set of targets follows stored relations only, each in a direction declared causal, is at
  most as long as the bound and no longer than any other such chain to any of the targets; no path is
  reported exactly when every such chain is longer than the bound; and the causal distance is the length of
  the path.
\<close>

theorem causal_path_is_shortest:
  "(case causal_path t m e targets of
      Some p \<Rightarrow> length p \<le> m \<and> (\<exists>x\<in>set targets. walk {h. causal_step t h} e p x)
        \<and> (\<forall>q x. x \<in> set targets \<longrightarrow> walk {h. causal_step t h} e q x \<longrightarrow> length p \<le> length q)
    | None \<Rightarrow> \<forall>q x. x \<in> set targets \<longrightarrow> walk {h. causal_step t h} e q x \<longrightarrow> m < length q)
   \<and> causal_distance t m e targets = map_option length (causal_path t m e targets)"
  using path_within_shortest [of m "causal_hops t" e targets] path_within_None [of m "causal_hops t" e targets]
    distance_is_path_length [of m "causal_hops t" e targets]
  unfolding causal_path_def causal_distance_def set_causal_hops
  by (auto split: option.split)

text \<open>An experiment on a pod that a service selects.\<close>

definition kill_test :: entity_ref where
  "kill_test = \<lparr>kind = ''PodChaos'', name = ''kill'', namespace = ''shop''\<rparr>"

definition front_service :: entity_ref where
  "front_service = \<lparr>kind = ''Service'', name = ''front'', namespace = ''shop''\<rparr>"

definition killed_pod :: entity_ref where
  "killed_pod = \<lparr>kind = ''Pod'', name = ''front-1'', namespace = ''shop''\<rparr>"

definition small_topology :: topology where
  "small_topology =
     \<lparr>topo_edges = [mk_edge kill_test ''disrupts'' killed_pod, mk_edge front_service ''selects'' killed_pod],
      topo_latest = [], relation_evidence = []\<rparr>"

lemma small_path:
  "causal_path small_topology 4 kill_test [front_service]
     = Some [mk_hop kill_test ''disrupts'' killed_pod, mk_hop killed_pod ''backs'' front_service]"
  by code_simp

theorem causal_path_is_shortest_witness:
  "causal_distance small_topology 4 kill_test [front_service] = Some 2
   \<and> walk {h. causal_step small_topology h} kill_test
       [mk_hop kill_test ''disrupts'' killed_pod, mk_hop killed_pod ''backs'' front_service] front_service"
  using causal_path_is_shortest [where t = small_topology and m = 4 and e = kill_test and targets = "[front_service]"]
  by (simp add: small_path)

section \<open>The order of a set of edges\<close>

text \<open>
  A pod with two owners: the workload its service routes to is that of the owner reference the set
  iteration comes to last, so two iteration orders of one snapshot give two different topologies.
\<close>

definition owned_pod :: object_version where
  "owned_pod =
     \<lparr>version_entity = killed_pod, version_uid = None, observed_at = 0,
      body = [(''metadata'', JDict [(''labels'', JDict [(''app'', JStr ''front'')]), (''ownerReferences'', JList
        [JDict [(''kind'', JStr ''Deployment''), (''name'', JStr ''a'')],
         JDict [(''kind'', JStr ''StatefulSet''), (''name'', JStr ''b'')]])])],
      evidence_id = ''e1'', lifecycle = OBSERVED\<rparr>"

definition front_object :: object_version where
  "front_object =
     \<lparr>version_entity = front_service, version_uid = None, observed_at = 0,
      body = [(''spec'', JDict [(''selector'', JDict [(''app'', JStr ''front'')])])],
      evidence_id = ''e2'', lifecycle = OBSERVED\<rparr>"

definition routed :: "(relation_edge list \<Rightarrow> relation_edge list) \<Rightarrow> string list option" where
  "routed enum =
     (case derive_edges enum [(killed_pod, owned_pod), (front_service, front_object)] [] of
        Inl _ \<Rightarrow> None
      | Inr es \<Rightarrow> Some (map (name \<circ> edge_target) (filter (\<lambda>e. edge_relation e = ''routes_to'') es)))"

lemma owner_order_shows: "routed id = Some [''b'']" "routed rev = Some [''a'']"
  by code_simp+

section \<open>Observed propagation\<close>

lemma verified_endpoint:
  assumes "e \<in> set (verified_endpoints latest b dv pv)"
  shows "(dv = Some VERIFIED \<and> kind e = ''Deployment'' \<or> pv = Some VERIFIED \<and> kind e = ''Pod'' \<and> map_of latest e \<noteq> None) \<and> b \<noteq> None"
  using assms
  by (auto simp: verified_endpoints_def Let_def split: option.splits list.splits if_splits dest: sym)

text \<open>Propagation keeps the snapshot's edges and adds only evidenced ones between verified ends.\<close>

lemma propagation_edges:
  "e \<in> set (topo_edges (with_runtime_propagation t observed)) \<longleftrightarrow>
     e \<in> set (topo_edges t)
     \<or> (\<exists>o'\<in>set observed. edge_evidence o' \<noteq> [] \<and> edge_relation e = ''runtime_propagates''
          \<and> edge_source e \<in> set (verified_endpoints (topo_latest t) (source_binding o')
                (source_deployment_verification o') (source_pod_verification o'))
          \<and> edge_target e \<in> set (verified_endpoints (topo_latest t) (affected_binding o')
                (affected_deployment_verification o') (affected_pod_verification o')))"
  by (cases e) (auto simp: with_runtime_propagation_def propagation_pairs_def mk_edge_def Let_def image_iff)

end
