(* ===== verification/Runtime_Graph_Correct.thy ===== *)
theory Runtime_Graph_Correct
  imports Runtime_Graph "HOL-Library.Multiset"
begin

text \<open>
  What the runtime graph of \<open>Runtime_Graph\<close> counts: the canonical view holds, of every span that was
  reported in one way only, the report with the least evidence identifier, and the edges are exactly the
  resolved parents between different services, each counted once under one kind of evidence.
\<close>

section \<open>The canonical view\<close>

definition fingerprints_ok :: "trace_span list \<Rightarrow> trace_index \<Rightarrow> bool" where
  "fingerprints_ok seen i \<longleftrightarrow>
     (\<forall>k. set (fingerprints_at i k) = fingerprint_of ` {s \<in> set seen. span_key s = k} \<and> distinct (fingerprints_at i k)
        \<and> (k \<in> set (conflicting_keys i) \<longleftrightarrow> 2 \<le> length (fingerprints_at i k)))
     \<and> distinct (conflicting_keys i) \<and> conflict_count i = length (conflicting_keys i)"

definition kept_ok :: "trace_span list \<Rightarrow> trace_index \<Rightarrow> bool" where
  "kept_ok seen i \<longleftrightarrow> distinct (map fst (index_spans i))
     \<and> (\<forall>k s. map_of (index_spans i) k = Some s \<longrightarrow> s \<in> set seen \<and> span_key s = k \<and> k \<notin> set (conflicting_keys i)
          \<and> (\<forall>s'\<in>set seen. span_key s' = k \<longrightarrow> span_evidence s \<le> span_evidence s'))
     \<and> (\<forall>s\<in>set seen. span_key s \<notin> set (conflicting_keys i) \<longrightarrow> map_of (index_spans i) (span_key s) \<noteq> None)"

lemma fingerprints_okD:
  assumes "fingerprints_ok seen i"
  shows "set (fingerprints_at i k) = fingerprint_of ` {s \<in> set seen. span_key s = k}" "distinct (fingerprints_at i k)"
    "k \<in> set (conflicting_keys i) \<longleftrightarrow> 2 \<le> length (fingerprints_at i k)"
    "distinct (conflicting_keys i)" "conflict_count i = length (conflicting_keys i)"
  using assms unfolding fingerprints_ok_def by blast+

lemma kept_okD:
  assumes "kept_ok seen i"
  shows "distinct (map fst (index_spans i))"
    "map_of (index_spans i) k = Some s \<Longrightarrow> s \<in> set seen \<and> span_key s = k \<and> k \<notin> set (conflicting_keys i)
       \<and> (\<forall>s'\<in>set seen. span_key s' = k \<longrightarrow> span_evidence s \<le> span_evidence s')"
    "s \<in> set seen \<Longrightarrow> span_key s \<notin> set (conflicting_keys i) \<Longrightarrow> map_of (index_spans i) (span_key s) \<noteq> None"
  using assms unfolding kept_ok_def by blast+

lemma learned_fingerprints:
  "fingerprints_at (learn_fingerprint k f i) k' =
     (if k' = k \<and> f \<notin> set (fingerprints_at i k) then f # fingerprints_at i k else fingerprints_at i k')"
  by (auto simp: learn_fingerprint_def fingerprints_at_def Let_def update_conv')

lemma learned_conflicts:
  "conflicting_keys (learn_fingerprint k f i) =
     (if f \<notin> set (fingerprints_at i k) \<and> fingerprints_at i k \<noteq> [] \<and> k \<notin> set (conflicting_keys i)
      then conflicting_keys i @ [k] else conflicting_keys i)"
  by (cases "fingerprints_at i k") (auto simp: learn_fingerprint_def Let_def)

lemma learned_spans:
  "index_spans (learn_fingerprint k f i) =
     (if f \<notin> set (fingerprints_at i k) \<and> fingerprints_at i k \<noteq> [] \<and> k \<notin> set (conflicting_keys i)
      then AList.delete k (index_spans i) else index_spans i)"
  by (cases "fingerprints_at i k") (auto simp: learn_fingerprint_def Let_def)

lemma learned_count:
  "conflict_count (learn_fingerprint k f i) + length (conflicting_keys i) =
     conflict_count i + length (conflicting_keys (learn_fingerprint k f i))"
  by (auto simp: learn_fingerprint_def Let_def)

lemma kept_fields [simp]:
  "fingerprints_at (keep_span s i) k = fingerprints_at i k" "conflicting_keys (keep_span s i) = conflicting_keys i"
  "conflict_count (keep_span s i) = conflict_count i"
  by (auto simp: keep_span_def fingerprints_at_def split: option.split)

lemma index_fingerprints:
  assumes "fingerprints_ok seen i"
  shows "fingerprints_ok (seen @ [s]) (index_span s i)"
proof -
  let ?k = "span_key s" and ?f = "fingerprint_of s"
  have seen: "{x \<in> set (seen @ [s]). span_key x = k} = {x \<in> set seen. span_key x = k} \<union> (if k = ?k then {s} else {})" for k
    by auto
  note known = fingerprints_okD [OF assms]
  have "k \<in> set (conflicting_keys (learn_fingerprint ?k ?f i)) \<longleftrightarrow> 2 \<le> length (fingerprints_at (learn_fingerprint ?k ?f i) k)" for k
    using known(3) [of k] known(3) [of ?k]
    by (cases "fingerprints_at i ?k") (auto simp: learned_conflicts learned_fingerprints)
  moreover have "set (fingerprints_at (learn_fingerprint ?k ?f i) k) = fingerprint_of ` {x \<in> set (seen @ [s]). span_key x = k}" for k
    using known(1) [of k] unfolding seen image_Un by (auto simp: learned_fingerprints)
  moreover have "distinct (fingerprints_at (learn_fingerprint ?k ?f i) k)" for k
    using known(2) by (simp add: learned_fingerprints)
  moreover have "distinct (conflicting_keys (learn_fingerprint ?k ?f i))"
    using known(4) by (simp add: learned_conflicts)
  moreover have "conflict_count (learn_fingerprint ?k ?f i) = length (conflicting_keys (learn_fingerprint ?k ?f i))"
    using learned_count [of ?k ?f i] known(5) by simp
  ultimately show ?thesis unfolding fingerprints_ok_def index_span_def kept_fields by blast
qed

lemma index_kept:
  assumes fp: "fingerprints_ok seen i" and kept: "kept_ok seen i"
  shows "kept_ok (seen @ [s]) (index_span s i)"
proof -
  let ?k = "span_key s" and ?i = "learn_fingerprint (span_key s) (fingerprint_of s) i"
  have conflicts: "k \<in> set (conflicting_keys ?i) \<longleftrightarrow> k \<in> set (conflicting_keys i)" if "k \<noteq> ?k" for k
    using that by (simp add: learned_conflicts)
  have more: "set (conflicting_keys i) \<subseteq> set (conflicting_keys ?i)" by (auto simp: learned_conflicts)
  have others: "map_of (index_spans ?i) k = map_of (index_spans i) k" if "k \<noteq> ?k" for k
    using that by (simp add: learned_spans delete_conv')
  have gone: "map_of (index_spans ?i) ?k = None" if "?k \<in> set (conflicting_keys ?i)"
  proof (cases "?k \<in> set (conflicting_keys i)")
    case True
    then have "map_of (index_spans i) ?k = None" using kept_okD(2) [OF kept] by (metis option.exhaust)
    then show ?thesis by (simp add: learned_spans True)
  next
    case False
    with that show ?thesis by (simp add: learned_spans learned_conflicts delete_conv' split: if_splits)
  qed
  have stays: "map_of (index_spans ?i) ?k = map_of (index_spans i) ?k" if "?k \<notin> set (conflicting_keys ?i)"
    using that by (auto simp: learned_spans learned_conflicts split: if_splits)
  have d: "distinct (map fst (index_spans ?i))"
    using kept_okD(1) [OF kept] by (simp add: learned_spans distinct_delete)
  show ?thesis
  proof (cases "?k \<in> set (conflicting_keys ?i)")
    case True
    then have step: "index_span s i = ?i" by (simp add: index_span_def keep_span_def)
    have old: "k \<noteq> ?k \<and> map_of (index_spans i) k = Some x" if "map_of (index_spans ?i) k = Some x" for k x
      using that gone [OF True] others [of k] by (cases "k = ?k") auto
    have "x \<in> set (seen @ [s]) \<and> span_key x = k \<and> k \<notin> set (conflicting_keys ?i)
        \<and> (\<forall>s'\<in>set (seen @ [s]). span_key s' = k \<longrightarrow> span_evidence x \<le> span_evidence s')"
      if "map_of (index_spans ?i) k = Some x" for k x
      using old [OF that] kept_okD(2) [OF kept, of k x] conflicts [of k] by auto
    moreover have "map_of (index_spans ?i) (span_key x) \<noteq> None"
      if "x \<in> set (seen @ [s])" "span_key x \<notin> set (conflicting_keys ?i)" for x
    proof -
      from that True have "span_key x \<noteq> ?k" "x \<in> set seen" by auto
      then show ?thesis using kept_okD(3) [OF kept] others conflicts that(2) by metis
    qed
    ultimately show ?thesis unfolding kept_ok_def step using d by blast
  next
    case False
    let ?new = "case map_of (index_spans i) ?k of None \<Rightarrow> s | Some p \<Rightarrow> if span_evidence s < span_evidence p then s else p"
    have spans: "map_of (index_spans (index_span s i)) k = (if k = ?k then Some ?new else map_of (index_spans i) k)" for k
      using False stays [OF False] others
      by (auto simp: index_span_def keep_span_def update_conv' split: option.split)
    have dist: "distinct (map fst (index_spans (index_span s i)))"
      using d by (auto simp: index_span_def keep_span_def distinct_update split: option.split)
    have first: "\<forall>x\<in>set seen. span_key x \<noteq> ?k" if "map_of (index_spans i) ?k = None"
      using that kept_okD(3) [OF kept] False more by (metis subsetD)
    have confl: "conflicting_keys (index_span s i) = conflicting_keys ?i" by (simp add: index_span_def)
    have new: "?new \<in> set (seen @ [s]) \<and> span_key ?new = ?k
        \<and> (\<forall>x\<in>set (seen @ [s]). span_key x = ?k \<longrightarrow> span_evidence ?new \<le> span_evidence x)"
    proof (cases "map_of (index_spans i) ?k")
      case None
      then show ?thesis using first by simp
    next
      case (Some q)
      then show ?thesis using kept_okD(2) [OF kept Some] by fastforce
    qed
    have "x \<in> set (seen @ [s]) \<and> span_key x = k \<and> k \<notin> set (conflicting_keys ?i)
        \<and> (\<forall>s'\<in>set (seen @ [s]). span_key s' = k \<longrightarrow> span_evidence x \<le> span_evidence s')"
      if "map_of (index_spans (index_span s i)) k = Some x" for k x
    proof (cases "k = ?k")
      case True
      then show ?thesis using that new False spans by simp
    next
      case other: False
      then show ?thesis using that spans [of k] kept_okD(2) [OF kept, of k x] conflicts [of k] by auto
    qed
    moreover have "map_of (index_spans (index_span s i)) (span_key x) \<noteq> None"
      if "x \<in> set (seen @ [s])" "span_key x \<notin> set (conflicting_keys ?i)" for x
    proof (cases "span_key x = ?k")
      case True
      then show ?thesis by (simp add: spans)
    next
      case other: False
      then have "x \<in> set seen" using that(1) by auto
      then show ?thesis using kept_okD(3) [OF kept, of x] conflicts [OF other] that(2) other by (simp add: spans)
    qed
    ultimately show ?thesis unfolding kept_ok_def confl using dist by blast
  qed
qed

lemma canonical_fold: "fingerprints_ok spans (fold index_span spans no_spans) \<and> kept_ok spans (fold index_span spans no_spans)"
proof (induction spans rule: rev_induct)
  case Nil
  show ?case by (simp add: fingerprints_ok_def kept_ok_def no_spans_def fingerprints_at_def)
next
  case (snoc s spans)
  then show ?case using index_fingerprints index_kept by simp
qed

definition at_key :: "trace_span list \<Rightarrow> trace_key \<Rightarrow> trace_span set" where
  "at_key spans k = {s \<in> set spans. span_key s = k}"

lemma two_elements: "finite A \<Longrightarrow> 2 \<le> card A \<longleftrightarrow> (\<exists>x\<in>A. \<exists>y\<in>A. x \<noteq> y)"
  by (metis One_nat_def Suc_1 Suc_le_eq card_le_Suc0_iff_eq not_le)

text \<open>
  A key conflicts exactly when it was reported in two ways; any other reported key is held once, by the
  report with the least evidence identifier.
\<close>

lemma canonical_conflicts:
  "k \<in> set (conflicting_keys (canonicalize_spans spans)) \<longleftrightarrow>
     (\<exists>s\<in>at_key spans k. \<exists>s'\<in>at_key spans k. fingerprint_of s \<noteq> fingerprint_of s')"
proof -
  let ?i = "fold index_span spans no_spans"
  have f: "set (fingerprints_at ?i k) = fingerprint_of ` at_key spans k" "distinct (fingerprints_at ?i k)"
    and c: "k \<in> set (conflicting_keys ?i) \<longleftrightarrow> 2 \<le> length (fingerprints_at ?i k)"
    using fingerprints_okD [OF conjunct1 [OF canonical_fold [of spans]]] by (simp_all add: at_key_def)
  from f have "length (fingerprints_at ?i k) = card (fingerprint_of ` at_key spans k)" by (metis distinct_card)
  then show ?thesis using c by (simp add: canonicalize_spans_def two_elements at_key_def)
qed

lemma canonical_kept: "kept_ok spans (canonicalize_spans spans)"
proof -
  have fields: "index_spans (i\<lparr>index_input := n\<rparr>) = index_spans i"
    "conflicting_keys (i\<lparr>index_input := n\<rparr>) = conflicting_keys i" for i n by simp_all
  have "kept_ok spans i \<Longrightarrow> kept_ok spans (i\<lparr>index_input := n\<rparr>)" for i n unfolding kept_ok_def fields .
  then show ?thesis using canonical_fold [of spans] unfolding canonicalize_spans_def by blast
qed

lemma canonical_holds:
  "map_of (index_spans (canonicalize_spans spans)) k \<noteq> None \<longleftrightarrow>
     at_key spans k \<noteq> {} \<and> k \<notin> set (conflicting_keys (canonicalize_spans spans))"
  using kept_okD(2,3) [OF canonical_kept [of spans]] unfolding at_key_def by blast

lemma canonical_least:
  "map_of (index_spans (canonicalize_spans spans)) k = Some s \<Longrightarrow>
     s \<in> at_key spans k \<and> (\<forall>s'\<in>at_key spans k. span_evidence s \<le> span_evidence s')"
  using kept_okD(2) [OF canonical_kept [of spans]] unfolding at_key_def by blast

section \<open>The links of the graph\<close>

definition parent_of :: "trace_index \<Rightarrow> trace_span \<Rightarrow> trace_span option" where
  "parent_of i c =
     Option.bind (parent_span_id c) (\<lambda>p.
       if (trace_id c, p) \<in> set (conflicting_keys i) then None else map_of (index_spans i) (trace_id c, p))"

type_synonym span_link = "trace_span \<times> trace_span"

definition link_of :: "trace_index \<Rightarrow> instant option \<Rightarrow> instant option \<Rightarrow> trace_span \<Rightarrow> span_link option" where
  "link_of i start end c =
     (if in_span_window start end (span_start c) then map_option (\<lambda>p. (p, c)) (parent_of i c) else None)"

definition span_links :: "trace_index \<Rightarrow> instant option \<Rightarrow> instant option \<Rightarrow> trace_span list \<Rightarrow> span_link list" where
  "span_links i start end cs = List.map_filter (link_of i start end) cs"

definition ends_of :: "span_link \<Rightarrow> string \<times> string" where
  "ends_of l = (stripped_service (fst l), stripped_service (snd l))"

definition links_between :: "string \<times> string \<Rightarrow> span_link list \<Rightarrow> span_link list" where
  "links_between k ls = filter (\<lambda>l. ends_of l = k) ls"

definition of_kind :: "edge_evidence_kind \<Rightarrow> span_link list \<Rightarrow> span_link list" where
  "of_kind v ls = filter (\<lambda>l. classify_pair (fst l) (snd l) = Some v) ls"

definition calls_at :: "span_link list \<Rightarrow> instant list" where
  "calls_at ls = map (span_start \<circ> snd) ls"

definition accumulates :: "span_link list \<Rightarrow> edge_accumulator \<Rightarrow> bool" where
  "accumulates ls a \<longleftrightarrow>
     acc_client_server a = length (of_kind PAIRED_CLIENT_SERVER ls)
     \<and> acc_producer_consumer a = length (of_kind PAIRED_PRODUCER_CONSUMER ls)
     \<and> acc_cross_service a = length (of_kind CROSS_SERVICE_PARENT ls)
     \<and> acc_first a = py_min (calls_at ls) \<and> acc_last a = py_max (calls_at ls)"

definition counts_ok :: "span_link list \<Rightarrow> graph_counts \<Rightarrow> bool" where
  "counts_ok ls c \<longleftrightarrow>
     child_spans c = resolved_links c + orphan_links c + conflicting_links c
     \<and> resolved_links c = length ls \<and> resolved_links c = same_service_links c + cross_service_links c
     \<and> cross_service_links c = client_server_total c + producer_consumer_total c + fallback_total c
     \<and> client_server_total c = length (of_kind PAIRED_CLIENT_SERVER ls)
     \<and> producer_consumer_total c = length (of_kind PAIRED_PRODUCER_CONSUMER ls)
     \<and> fallback_total c = length (of_kind CROSS_SERVICE_PARENT ls)"

definition graph_ok :: "span_link list \<Rightarrow> graph_state \<Rightarrow> bool" where
  "graph_ok ls st \<longleftrightarrow>
     (\<forall>k. (map_of (edge_accumulators st) k \<noteq> None \<longleftrightarrow> fst k \<noteq> snd k \<and> links_between k ls \<noteq> [])
        \<and> (fst k \<noteq> snd k \<longrightarrow> accumulates (links_between k ls) (accumulator_at st k)))
     \<and> distinct (map fst (edge_accumulators st)) \<and> counts_ok ls (counts st)"

lemma py_min_snoc: "py_min (xs @ [x]) = Some (earlier_of (py_min xs) x)"
  by (cases xs) (simp_all add: earlier_of_def)

lemma py_max_snoc: "py_max (xs @ [x]) = Some (later_of (py_max xs) x)"
  by (cases xs) (simp_all add: later_of_def)

lemma accumulates_snoc:
  "accumulates ls a \<Longrightarrow> classify_pair p c = Some v \<Longrightarrow> accumulates (ls @ [(p, c)]) (add_pair v p c k a)"
  by (cases v) (simp_all add: accumulates_def add_pair_def Let_def of_kind_def calls_at_def py_min_snoc py_max_snoc)

lemma classify_None: "classify_pair p c = None \<longleftrightarrow> stripped_service p = stripped_service c"
  by (simp add: classify_pair_def split: runtime_span_kind.split)

lemma seen_fields [simp]:
  "edge_accumulators (see_service s st) = edge_accumulators st" "counts (see_service s st) = counts st"
  "accumulator_at (see_service s st) k = accumulator_at st k"
  by (simp_all add: see_service_def accumulator_at_def)

lemma see_ok [simp]: "graph_ok ls (see_service s st) = graph_ok ls st"
  by (simp add: graph_ok_def)

lemma count_pair_ok:
  assumes "counts_ok ls c" "classify_pair p ch = Some v"
  shows "counts_ok (ls @ [(p, ch)]) (count_pair v (c\<lparr>child_spans := child_spans c + 1, resolved_links := resolved_links c + 1,
    cross_service_links := cross_service_links c + 1\<rparr>))"
  using assms by (cases v) (simp_all add: counts_ok_def count_pair_def of_kind_def)

lemma counted_ok:
  assumes ok: "graph_ok ls st" and same: "edge_accumulators st' = edge_accumulators st" and counts: "counts_ok ls' (counts st')"
    and links: "\<And>k. fst k \<noteq> snd k \<Longrightarrow> links_between k ls' = links_between k ls"
  shows "graph_ok ls' st'"
proof -
  have "accumulator_at st' k = accumulator_at st k" for k by (simp add: accumulator_at_def same)
  then show ?thesis using ok counts links unfolding graph_ok_def same by metis
qed

text \<open>The span that is the child of a resolved parent adds one link, under the key of the two services.\<close>

lemma resolve_link_ok:
  assumes ok: "graph_ok ls st" and st': "edge_accumulators st' = edge_accumulators st"
    "counts st' = (counts st)\<lparr>child_spans := child_spans (counts st) + 1\<rparr>"
  shows "graph_ok (ls @ [(p, c)]) (resolve_link p c st')"
proof (cases "classify_pair p c")
  case None
  then have same: "stripped_service p = stripped_service c" by (simp add: classify_None)
  then have "links_between k (ls @ [(p, c)]) = links_between k ls" if "fst k \<noteq> snd k" for k
    using that by (auto simp: links_between_def ends_of_def)
  moreover have "counts_ok (ls @ [(p, c)]) (counts (resolve_link p c st'))"
    using ok None by (simp add: resolve_link_def Let_def st' graph_ok_def counts_ok_def of_kind_def)
  moreover have "edge_accumulators (resolve_link p c st') = edge_accumulators st"
    using None by (simp add: resolve_link_def Let_def st')
  ultimately show ?thesis using counted_ok [OF ok] by blast
next
  case (Some v)
  let ?k = "(stripped_service p, stripped_service c)"
  have differ: "fst ?k \<noteq> snd ?k" using Some classify_None [of p c] by auto
  have acc: "edge_accumulators (resolve_link p c st')
      = AList.update ?k (add_pair v p c ?k (accumulator_at st ?k)) (edge_accumulators st)"
    using Some by (simp add: resolve_link_def Let_def st' see_service_def accumulator_at_def)
  have counts: "counts_ok (ls @ [(p, c)]) (counts (resolve_link p c st'))"
    using ok Some count_pair_ok [of ls "counts st" p c v]
    by (simp add: resolve_link_def Let_def st' graph_ok_def)
  have between: "links_between k (ls @ [(p, c)]) = links_between k ls @ (if k = ?k then [(p, c)] else [])" for k
    by (auto simp: links_between_def ends_of_def)
  have at: "accumulator_at (resolve_link p c st') k
      = (if k = ?k then add_pair v p c ?k (accumulator_at st ?k) else accumulator_at st k)" for k
    by (simp add: accumulator_at_def acc update_conv')
  have dom: "map_of (edge_accumulators (resolve_link p c st')) k \<noteq> None \<longleftrightarrow> k = ?k \<or> map_of (edge_accumulators st) k \<noteq> None" for k
    by (simp add: acc update_conv')
  have "accumulates (links_between k (ls @ [(p, c)])) (accumulator_at (resolve_link p c st') k)" if "fst k \<noteq> snd k" for k
  proof -
    have "accumulates (links_between k ls) (accumulator_at st k)" using ok that unfolding graph_ok_def by blast
    then show ?thesis
      using accumulates_snoc [OF _ Some, of "links_between k ls" "accumulator_at st k" k] by (auto simp: at between)
  qed
  moreover have "distinct (map fst (edge_accumulators (resolve_link p c st')))"
    using ok by (simp add: acc graph_ok_def distinct_update)
  moreover have "(k = ?k \<or> map_of (edge_accumulators st) k \<noteq> None) \<longleftrightarrow> fst k \<noteq> snd k \<and> links_between k (ls @ [(p, c)]) \<noteq> []" for k
  proof (cases "k = ?k")
    case True
    then show ?thesis using differ by (simp add: between)
  next
    case False
    then have "links_between k (ls @ [(p, c)]) = links_between k ls" by (simp only: between if_False append_Nil2)
    then show ?thesis using ok False unfolding graph_ok_def by metis
  qed
  ultimately show ?thesis
    using counts unfolding graph_ok_def dom by blast
qed

lemma graph_span_ok:
  assumes ok: "graph_ok (span_links i start end cs) st"
  shows "graph_ok (span_links i start end (cs @ [c])) (graph_span i start end c st)"
proof (cases "link_of i start end c")
  case None
  then have links: "span_links i start end (cs @ [c]) = span_links i start end cs"
    by (simp add: span_links_def List.map_filter_def)
  show ?thesis
    unfolding links using ok None
    by (intro counted_ok [OF ok] refl)
      (auto simp: graph_span_def Let_def link_of_def parent_of_def graph_ok_def counts_ok_def split: option.splits if_splits)
next
  case (Some l)
  then obtain p q where p: "l = (q, c)" "in_span_window start end (span_start c)" "parent_span_id c = Some p"
    "(trace_id c, p) \<notin> set (conflicting_keys i)" "map_of (index_spans i) (trace_id c, p) = Some q"
    by (auto simp: link_of_def parent_of_def split: if_splits option.splits bind_splits)
  have "graph_span i start end c st
      = resolve_link q c ((see_service (stripped_service c) st)\<lparr>counts := (counts st)\<lparr>child_spans := child_spans (counts st) + 1\<rparr>\<rparr>)"
    using p by (simp add: graph_span_def Let_def)
  moreover have "span_links i start end (cs @ [c]) = span_links i start end cs @ [(q, c)]"
    using Some p by (simp add: span_links_def List.map_filter_def)
  ultimately show ?thesis using resolve_link_ok [OF ok] by simp
qed

lemma graph_fold_ok: "graph_ok (span_links i start end cs) (fold (graph_span i start end) cs empty_graph_state)"
proof (induction cs rule: rev_induct)
  case Nil
  show ?case
    by (simp add: graph_ok_def empty_graph_state_def span_links_def List.map_filter_def links_between_def counts_ok_def
        of_kind_def accumulates_def accumulator_at_def no_calls_def calls_at_def)
next
  case (snoc c cs)
  then show ?case using graph_span_ok by simp
qed

text \<open>The cross-service links that the spans of a trace show in a window.\<close>

definition runtime_links :: "trace_span list \<Rightarrow> instant option \<Rightarrow> instant option \<Rightarrow> span_link list" where
  "runtime_links spans start end =
     span_links (canonicalize_spans spans) start end (map snd (index_spans (canonicalize_spans spans)))"

definition counts_links :: "span_link list \<Rightarrow> service_edge \<Rightarrow> bool" where
  "counts_links ls e \<longleftrightarrow>
     client_server_pairs e = length (of_kind PAIRED_CLIENT_SERVER ls)
     \<and> producer_consumer_pairs e = length (of_kind PAIRED_PRODUCER_CONSUMER ls)
     \<and> cross_service_pairs e = length (of_kind CROSS_SERVICE_PARENT ls)
     \<and> py_min (calls_at ls) = Some (first_call e) \<and> py_max (calls_at ls) = Some (last_call e)"

lemma edge_of_counts:
  assumes ok: "graph_ok ls st" and e: "(k, a) \<in> set (edge_accumulators st)"
  shows "fst k \<noteq> snd k \<and> links_between k ls \<noteq> [] \<and> counts_links (links_between k ls) (edge_of_accumulator (k, a))"
proof -
  have m: "map_of (edge_accumulators st) k = Some a" using assms by (simp add: graph_ok_def)
  then have k: "fst k \<noteq> snd k" "links_between k ls \<noteq> []" using ok unfolding graph_ok_def by blast+
  then have "accumulates (links_between k ls) (accumulator_at st k)" using ok unfolding graph_ok_def by blast
  then have "accumulates (links_between k ls) a" by (simp add: accumulator_at_def m)
  moreover have "calls_at (links_between k ls) \<noteq> []" using k(2) by (simp add: calls_at_def)
  then have "py_min (calls_at (links_between k ls)) \<noteq> None" "py_max (calls_at (links_between k ls)) \<noteq> None" by simp_all
  ultimately show ?thesis
    using k by (cases k) (auto simp: accumulates_def counts_links_def edge_of_accumulator_def)
qed

lemma made_edge: "make_service_edge e = Inr e' \<Longrightarrow> e' = e"
  by (auto simp: make_service_edge_def split: if_splits)

lemma made_edges: "traverse (make_service_edge \<circ> f) xs = Inr es \<Longrightarrow> es = map f xs"
  by (auto simp: traverse_Inr_iff list_all2_conv_all_nth intro!: nth_equalityI) (metis made_edge)

text \<open>What a graph that was built consists of.\<close>

definition edge_ends :: "service_edge \<Rightarrow> string \<times> string" where
  "edge_ends e = (caller_service e, callee_service e)"

lemma built_graph:
  assumes "derive_runtime_graph spans start end = Inr g"
  obtains st where "graph_ok (runtime_links spans start end) st"
    "set (service_edges g) = edge_of_accumulator ` set (edge_accumulators st)"
    "mset (map edge_ends (service_edges g)) = mset (map fst (edge_accumulators st))"
    "graph_stats g = make_stats (canonicalize_spans spans) st (map edge_of_accumulator (sort_key fst (edge_accumulators st)))"
proof -
  let ?i = "canonicalize_spans spans"
  let ?st = "fold (graph_span ?i start end) (map snd (index_spans ?i)) empty_graph_state"
  have ok: "graph_ok (runtime_links spans start end) ?st" unfolding runtime_links_def by (rule graph_fold_ok)
  obtain es where es: "traverse (make_service_edge \<circ> edge_of_accumulator) (sort_key fst (edge_accumulators ?st)) = Inr es"
    "g = make_graph (seen_services ?st) es (make_stats ?i ?st es)"
    using assms by (auto simp: derive_runtime_graph_def runtime_graph_from_index_def Let_def)
  have "edge_ends (edge_of_accumulator x) = fst x" for x
    by (cases x) (auto simp: edge_ends_def edge_of_accumulator_def)
  then have "map edge_ends (map edge_of_accumulator xs) = map fst xs" for xs by (simp add: comp_def)
  then have "mset (map edge_ends es) = mset (map fst (edge_accumulators ?st))"
    unfolding made_edges [OF es(1)] by (metis mset_map mset_sort)
  then have "mset (map edge_ends (service_edges g)) = mset (map fst (edge_accumulators ?st))"
    by (simp add: es(2) make_graph_def mset_map)
  with ok show thesis
    using es(2) made_edges [OF es(1)] that by (simp add: make_graph_def)
qed

lemma ends_of_links: "graph_ok ls st \<Longrightarrow> fst ` set (edge_accumulators st) = {k \<in> ends_of ` set ls. fst k \<noteq> snd k}"
proof -
  assume "graph_ok ls st"
  then have "k \<in> fst ` set (edge_accumulators st) \<longleftrightarrow> fst k \<noteq> snd k \<and> links_between k ls \<noteq> []" for k
    unfolding graph_ok_def by (metis map_of_eq_None_iff)
  moreover have "links_between k ls \<noteq> [] \<longleftrightarrow> k \<in> ends_of ` set ls" for k
    by (auto simp: links_between_def filter_empty_conv)
  ultimately show ?thesis by blast
qed

text \<open>
  A span counts once, or not at all. A span key conflicts exactly when it was reported in two ways (with
  another parent, service, kind or Pod instance); a reported key that does not conflict is held by exactly one
  span, one of its own reports and the one with the least evidence identifier.
\<close>

theorem canonical_view_exact:
  "(k \<in> set (conflicting_keys (canonicalize_spans spans))
      \<longleftrightarrow> (\<exists>s\<in>at_key spans k. \<exists>s'\<in>at_key spans k. fingerprint_of s \<noteq> fingerprint_of s'))
   \<and> (map_of (index_spans (canonicalize_spans spans)) k = None
      \<longleftrightarrow> at_key spans k = {} \<or> k \<in> set (conflicting_keys (canonicalize_spans spans)))
   \<and> (case map_of (index_spans (canonicalize_spans spans)) k of
        None \<Rightarrow> True
      | Some s \<Rightarrow> s \<in> at_key spans k \<and> span_evidence s = Min (span_evidence ` at_key spans k))
   \<and> distinct (map fst (index_spans (canonicalize_spans spans)))"
proof -
  have "span_evidence s = Min (span_evidence ` at_key spans k)"
    if "map_of (index_spans (canonicalize_spans spans)) k = Some s" for s
    using canonical_least [OF that] by (intro Min_eqI [symmetric]) (auto simp: at_key_def)
  then have "case map_of (index_spans (canonicalize_spans spans)) k of None \<Rightarrow> True
      | Some s \<Rightarrow> s \<in> at_key spans k \<and> span_evidence s = Min (span_evidence ` at_key spans k)"
    using canonical_least [of spans k] by (auto split: option.split)
  moreover have "map_of (index_spans (canonicalize_spans spans)) k = None
      \<longleftrightarrow> at_key spans k = {} \<or> k \<in> set (conflicting_keys (canonicalize_spans spans))"
    using canonical_holds [of spans k] by blast
  ultimately show ?thesis
    by (intro conjI canonical_conflicts kept_okD(1) [OF canonical_kept])
qed

text \<open>
  C20: The runtime graph counts every observed call once. When a graph is built, there is one edge between two
  different services exactly when some span of the window has its resolved parent in the other service; each
  edge counts those links by the kind of their evidence, and spans the times of their first and last; and the
  totals add up: every child span has a resolved, a missing or a conflicting parent, every resolved parent
  is of the same or of another service, and every cross-service link is of one of the three kinds.
\<close>

theorem runtime_edges_are_links:
  assumes "derive_runtime_graph spans start end = Inr g"
  shows "distinct (map edge_ends (service_edges g))
    \<and> edge_ends ` set (service_edges g) = {k \<in> ends_of ` set (runtime_links spans start end). fst k \<noteq> snd k}
    \<and> (\<forall>e\<in>set (service_edges g). counts_links (links_between (edge_ends e) (runtime_links spans start end)) e)
    \<and> counts_ok (runtime_links spans start end) (graph_counts.truncate (graph_stats g))"
proof -
  obtain st where st: "graph_ok (runtime_links spans start end) st"
    "set (service_edges g) = edge_of_accumulator ` set (edge_accumulators st)"
    "mset (map edge_ends (service_edges g)) = mset (map fst (edge_accumulators st))"
    "graph_stats g = make_stats (canonicalize_spans spans) st (map edge_of_accumulator (sort_key fst (edge_accumulators st)))"
    using built_graph [OF assms] .
  have keys: "edge_ends ` set (service_edges g) = fst ` set (edge_accumulators st)"
    by (metis st(3) set_mset_mset list.set_map)
  have unique: "distinct (map edge_ends (service_edges g))"
    using st(1) mset_eq_imp_distinct_iff [OF st(3)] unfolding graph_ok_def by blast
  have counted: "counts_links (links_between (edge_ends e) (runtime_links spans start end)) e"
    if e: "e \<in> set (service_edges g)" for e
  proof -
    obtain k a where ka: "(k, a) \<in> set (edge_accumulators st)" "e = edge_of_accumulator (k, a)" using e st(2) by auto
    then have "edge_ends e = k" by (cases k) (simp add: edge_ends_def edge_of_accumulator_def)
    then show ?thesis using edge_of_counts [OF st(1) ka(1)] ka(2) by simp
  qed
  have "counts_ok (runtime_links spans start end) (counts st)" using st(1) unfolding graph_ok_def by blast
  then have totals: "counts_ok (runtime_links spans start end) (graph_counts.truncate (graph_stats g))"
    by (simp add: st(4) make_stats_def Let_def graph_counts.defs counts_ok_def)
  show ?thesis
    unfolding keys ends_of_links [OF st(1)] by (intro conjI ballI unique counted totals refl)
qed

section \<open>A sample trace\<close>

definition sample_span :: "string \<Rightarrow> string option \<Rightarrow> string \<Rightarrow> string \<Rightarrow> instant \<Rightarrow> string \<Rightarrow> trace_span" where
  "sample_span i parent service k t evidence =
     \<lparr>trace_id = ''t'', span_id = i, parent_span_id = parent, span_service = service, span_kind = Some k,
      span_start = t, span_end = None, span_status = SPAN_UNSET, span_attributes = [], span_evidence = evidence\<rparr>"

text \<open>A call from A to B that was reported twice, another one, and a span reported in two ways.\<close>

definition sample_spans :: "trace_span list" where
  "sample_spans =
     [sample_span ''1'' None ''A'' ''client'' 0 ''e9'', sample_span ''1'' None ''A'' ''client'' 0 ''e1'',
      sample_span ''2'' (Some ''1'') '' B '' ''SPAN_KIND_SERVER'' 5 ''e2'',
      sample_span ''3'' (Some ''1'') ''B'' ''server'' 3 ''e3'',
      sample_span ''4'' (Some ''1'') ''B'' ''server'' 1 ''e4'', sample_span ''4'' (Some ''1'') ''C'' ''server'' 1 ''e5'',
      sample_span ''5'' (Some ''4'') ''C'' ''server'' 2 ''e6'']"

definition sample_graph :: runtime_graph where
  "sample_graph = (case derive_runtime_graph sample_spans None None of Inl _ \<Rightarrow> empty_runtime_graph | Inr g \<Rightarrow> g)"

lemma sample_graph_derived: "derive_runtime_graph sample_spans None None = Inr sample_graph"
  by code_simp

lemma sample_graph_edges:
  "service_edges sample_graph =
     [\<lparr>caller_service = ''A'', callee_service = ''B'', first_call = 3, last_call = 5, client_server_pairs = 2,
       producer_consumer_pairs = 0, cross_service_pairs = 0, service_edge_evidence = [''e3'', ''e1'', ''e2''],
       service_edge_traces = [''t'']\<rparr>]"
  by code_simp

theorem runtime_edges_are_links_witness:
  "(''A'', ''B'') \<in> ends_of ` set (runtime_links sample_spans None None)
   \<and> length (of_kind PAIRED_CLIENT_SERVER (links_between (''A'', ''B'') (runtime_links sample_spans None None))) = 2"
  using runtime_edges_are_links [OF sample_graph_derived]
  by (auto simp: sample_graph_edges edge_ends_def counts_links_def)

end
