(* ===== verification/Channels_Correct.thy ===== *)
theory Channels_Correct
  imports Channels Topology_Correct Runtime_Graph_Correct
begin

text \<open>
  What \<open>Channels\<close> and \<open>K_Coverage\<close> promise: the closure of a change is what its relations reach and holds
  every reader and target of an audited access that could be attributed, a modelled path is found
  whenever the graph of the window has one, and no change is ever cleared.
\<close>

section \<open>The closure is what the relations reach\<close>

definition follow_relation :: "topology \<Rightarrow> (entity_ref \<times> entity_ref) set" where
  "follow_relation t = {(a, b). b \<in> set (follows t a)}"

text \<open>Members outside the stack have all their successors among the members.\<close>

lemma close_over_closed:
  assumes "set stack \<subseteq> set ms" "\<forall>r\<in>set ms - set stack. set (follows t r) \<subseteq> set ms"
  shows "\<forall>r\<in>set (close_over t ms stack). set (follows t r) \<subseteq> set (close_over t ms stack)"
  using assms
proof (induction t ms stack rule: close_over.induct)
  case (2 t ms r stack)
  have "set (rev (found_from t ms r) @ stack) \<subseteq> set (ms @ found_from t ms r)" using 2(2) by auto
  moreover have "\<forall>a\<in>set (ms @ found_from t ms r) - set (rev (found_from t ms r) @ stack).
      set (follows t a) \<subseteq> set (ms @ found_from t ms r)"
    using 2(3) by auto
  ultimately show ?case using 2(1) by simp
qed simp

lemma close_over_sound:
  "set (close_over t ms stack) \<subseteq> (follow_relation t)\<^sup>* `` (set ms \<union> set stack)"
proof (induction t ms stack rule: close_over.induct)
  case (2 t ms r stack)
  have "set (found_from t ms r) \<subseteq> (follow_relation t)\<^sup>* `` {r}"
    by (auto simp: follow_relation_def)
  then have "(follow_relation t)\<^sup>* `` (set (ms @ found_from t ms r) \<union> set (rev (found_from t ms r) @ stack))
      \<subseteq> (follow_relation t)\<^sup>* `` (set ms \<union> set (r # stack))"
    by (auto 0 4 intro: rtrancl_trans)
  then show ?case using 2 by auto
qed auto

lemma closed_under_rtrancl:
  assumes "\<forall>r\<in>M. set (follows t r) \<subseteq> M" "a \<in> M" "(a, b) \<in> (follow_relation t)\<^sup>*"
  shows "b \<in> M"
  using assms(3,2,1) by (induction rule: rtrancl_induct) (auto simp: follow_relation_def)

lemma closure_of_reach:
  "set (closure_of actor t latest extra) = (follow_relation t)\<^sup>* `` set (closure_seeds actor latest extra)"
proof
  show "set (closure_of actor t latest extra) \<subseteq> (follow_relation t)\<^sup>* `` set (closure_seeds actor latest extra)"
    using close_over_sound [of t "closure_seeds actor latest extra" "rev (closure_seeds actor latest extra)"]
    by (simp add: closure_of_def)
  have "\<forall>r\<in>set (closure_of actor t latest extra). set (follows t r) \<subseteq> set (closure_of actor t latest extra)"
    unfolding closure_of_def by (rule close_over_closed) simp_all
  moreover have "set (closure_seeds actor latest extra) \<subseteq> set (closure_of actor t latest extra)"
    using close_over_members by (simp add: closure_of_def)
  ultimately show "(follow_relation t)\<^sup>* `` set (closure_seeds actor latest extra) \<subseteq> set (closure_of actor t latest extra)"
    using closed_under_rtrancl [of "set (closure_of actor t latest extra)" t] by blast
qed

section \<open>A path is found whenever there is one\<close>

lemma shorten_walk:
  "walk A s p e \<Longrightarrow> \<exists>q. walk A s q e \<and> distinct (map hop_target q) \<and> s \<notin> set (map hop_target q)"
proof (induction p arbitrary: s)
  case (Cons h p)
  then obtain q where q: "walk A (hop_target h) q e" "distinct (map hop_target q)" "hop_target h \<notin> set (map hop_target q)"
    by fastforce
  from Cons have h: "h \<in> A" "hop_source h = s" by auto
  consider "hop_target h = s" | "s \<in> set (map hop_target q)" | "s \<notin> set (map hop_target (h # q))" by auto
  then show ?case
  proof cases
    case 1
    then show ?thesis using q by auto
  next
    case 2
    then obtain h' where "h' \<in> set q" "hop_target h' = s" by auto
    then obtain q1 q2 where "q = q1 @ h' # q2" by (meson split_list)
    then have "walk A s q2 e" using q(1) \<open>hop_target h' = s\<close> by (induction q1 arbitrary: h q) auto
    then show ?thesis using q(2) \<open>q = q1 @ h' # q2\<close> \<open>hop_target h' = s\<close> by auto
  next
    case 3
    then show ?thesis using h q by (intro exI [of _ "h # q"]) auto
  qed
qed (auto intro: exI [of _ "[]"])

lemma step_target: "causal_step t h \<Longrightarrow> hop_target h \<in> set (edge_entities t)"
  unfolding causal_step_def edge_entities_def by force

lemma walk_within_graph:
  assumes "walk {h. causal_step t h} r p x"
  shows "\<exists>q. walk {h. causal_step t h} r q x \<and> length q \<le> graph_bound t"
proof -
  obtain q where q: "walk {h. causal_step t h} r q x" "distinct (map hop_target q)"
    using shorten_walk [OF assms] by blast
  have "set (map hop_target q) \<subseteq> set (edge_entities t)"
    using walk_hops [OF q(1)] step_target by fastforce
  then have "card (set (map hop_target q)) \<le> card (set (edge_entities t))" by (intro card_mono) auto
  then have "length q \<le> card (set (edge_entities t))" using q(2) by (metis distinct_card length_map)
  also have "\<dots> < graph_bound t" by (simp add: graph_bound_def edge_entities_def length_remdups_card_conv)
  finally show ?thesis using q(1) by auto
qed

lemma causal_path_exists:
  "causal_path t (graph_bound t) r symptoms \<noteq> None \<longleftrightarrow> (\<exists>x\<in>set symptoms. \<exists>p. walk {h. causal_step t h} r p x)"
  unfolding causal_path_def path_within_None set_causal_hops
  using walk_within_graph [of t r] by (meson not_le)

lemma k4_path_exists:
  "k4_path closure symptoms t \<noteq> None \<longleftrightarrow>
     (\<exists>r\<in>set closure. \<exists>x\<in>set symptoms. \<exists>p. walk {h. causal_step t h} r p x)"
proof -
  let ?f = "\<lambda>r. map_option (Pair r) (causal_path t (graph_bound t) r symptoms)"
  have "k4_path closure symptoms t \<noteq> None \<longleftrightarrow> List.map_filter ?f (sort_key canonical closure) \<noteq> []"
    by (simp add: k4_path_def split: list.split)
  also have "\<dots> \<longleftrightarrow> (\<exists>r\<in>set closure. ?f r \<noteq> None)"
    unfolding set_empty [symmetric] by (auto simp: in_map_filter set_eq_iff)
  finally show ?thesis using causal_path_exists [of t _ symptoms] by simp
qed

section \<open>No change is ever cleared\<close>

lemma k3_never_passes: "check_status (k3 closure symptoms) \<noteq> CHECK_PASS"
  by (simp add: k3_def fail_check_def unknown_check_def)

lemma k2_fails: "closure \<noteq> [] \<Longrightarrow> check_status (k2 closure) = CHECK_FAIL"
proof -
  assume "closure \<noteq> []"
  moreover have "map_of KIND_PROFILE n \<noteq> Some (v, True)" for n v
    by (auto simp: KIND_PROFILE_def)
  ultimately have "incomplete_kinds closure \<noteq> []"
    by (cases closure) (auto simp: incomplete_kinds_def split: option.split bool.split)
  then show ?thesis by (cases "incomplete_kinds closure") (simp_all add: k2_def fail_check_def)
qed

lemma find_status: "List.find (\<lambda>p. check_status p = s) cs = None \<longleftrightarrow> (\<forall>p\<in>set cs. check_status p \<noteq> s)"
  by (auto simp: find_None_iff)

lemma k_outcome_cases:
  assumes "p \<in> set checks" "check_status p \<noteq> CHECK_PASS"
    "\<forall>c\<in>set checks. check_status c \<noteq> CHECK_PASS \<longrightarrow> check_reason c \<noteq> None"
  shows "fst (k_outcome path checks) = (if path then PATH
      else if \<exists>c\<in>set checks. check_status c = CHECK_FAIL then UNCOVERED else UNKNOWN_CHANNEL)
    \<and> (snd (k_outcome path checks) = None \<longleftrightarrow> path)"
proof -
  have some: "\<exists>c\<in>set checks. check_status c = CHECK_FAIL \<or> check_status c = CHECK_UNKNOWN"
    using assms(1,2) by (cases "check_status p") auto
  have found: "c \<in> set checks \<and> check_status c = s" if "List.find (\<lambda>p. check_status p = s) checks = Some c" for c s
    using that by (metis (mono_tags, lifting) find_Some_iff nth_mem)
  show ?thesis
  proof (cases "List.find (\<lambda>p. check_status p = CHECK_FAIL) checks")
    case (Some c)
    then show ?thesis using found [OF Some] assms(3) by (auto simp: k_outcome_def)
  next
    case None
    then have no: "\<forall>c\<in>set checks. check_status c \<noteq> CHECK_FAIL" by (simp only: find_status)
    then obtain c where c: "List.find (\<lambda>p. check_status p = CHECK_UNKNOWN) checks = Some c"
      using some find_status [of CHECK_UNKNOWN checks] by blast
    then show ?thesis using found [OF c] assms(3) no None by (auto simp: k_outcome_def)
  qed
qed

definition reasoned :: "channel_precondition \<Rightarrow> bool" where
  "reasoned c \<longleftrightarrow> (check_status c \<noteq> CHECK_PASS \<longrightarrow> check_reason c \<noteq> None)"

lemma made_checks_reasoned [simp]:
  "reasoned (pass_check n)" "reasoned (fail_check n r e)" "reasoned (unknown_check n r)"
  "reasoned (c\<lparr>attributions := as'\<rparr>) = reasoned c"
  by (simp_all add: reasoned_def pass_check_def fail_check_def unknown_check_def)

lemma checks_reasoned:
  "reasoned (k1 closure i start end)" "reasoned (k2 closure)" "reasoned (k3 closure symptoms)"
  "reasoned (k4 path start end)" "reasoned (k5 surfaces closure)"
  by (simp_all add: k1_def k2_def k3_def k4_def k5_def split: option.split list.split prod.split)

lemma verdicts_reasoned [simp]: "reasoned (k6_verdict st)" "reasoned (without_audit closure identities latest)"
  by (simp_all add: k6_verdict_def without_audit_def split: list.split prod.split)

lemma k6_reasoned: "k6 closure versions latest audit start end = Inr (c, expansion, control) \<Longrightarrow> reasoned c"
  by (auto simp: k6_def Let_def split: option.splits)

lemma made_checks_named [simp]:
  "checked_condition (pass_check n) = n" "checked_condition (fail_check n r e) = n" "checked_condition (unknown_check n r) = n"
  by (simp_all add: pass_check_def fail_check_def unknown_check_def)

lemma checks_named:
  "checked_condition (k1 closure i start end) = ''K1''" "checked_condition (k2 closure) = ''K2''"
  "checked_condition (k3 closure symptoms) = ''K3''" "checked_condition (k4 path start end) = ''K4''"
  "checked_condition (k5 surfaces closure) = ''K5''" "checked_condition (k6_verdict st) = ''K6''"
  "checked_condition (without_audit closure identities latest) = ''K6''"
  by (simp_all add: k1_def k2_def k3_def k4_def k5_def k6_verdict_def without_audit_def
      split: option.split list.split prod.split)

lemma k6_named: "k6 closure versions latest audit start end = Inr (c, expansion, control) \<Longrightarrow> checked_condition c = ''K6''"
  by (auto simp: k6_def Let_def checks_named split: option.splits)

lemma evaluated_k:
  assumes "evaluate_k enum i closure start end = Inr k"
  obtains graph c6 expansion where "window_topology enum i start end = Inr graph"
    "k6 closure (window_versions start end (k_history i)) (latest_of (k_history i)) (k_audit i) start end
       = Inr (c6, expansion, control_plane_access k)"
    "k_expansion k = filter (\<lambda>r. r \<notin> set closure) expansion"
    "k_preconditions k = [k1 closure i start end, k2 closure, k3 closure (k_symptoms i),
       k4 (k4_path closure (k_symptoms i) graph) start end,
       k5 (k5_surfaces (window_versions start end (k_history i)) closure) closure, c6]"
    "(k_state k, k_gap_reason k) = k_outcome (k4_path closure (k_symptoms i) graph \<noteq> None) (k_preconditions k)"
  using assms by (auto simp: evaluate_k_def Let_def)

lemma evaluated_state:
  assumes "evaluate_k enum i closure start end = Inr k"
  shows "(\<exists>graph. window_topology enum i start end = Inr graph
      \<and> (k_state k = PATH \<longleftrightarrow>
           (\<exists>r\<in>set closure. \<exists>x\<in>set (k_symptoms i). \<exists>p. walk {h. causal_step graph h} r p x)))
    \<and> (k_state k = UNCOVERED \<longleftrightarrow> k_state k \<noteq> PATH \<and> CHECK_FAIL \<in> set (map check_status (k_preconditions k)))
    \<and> k_state k \<noteq> NO_PATH_COVERED \<and> (closure \<noteq> [] \<longrightarrow> k_state k \<noteq> UNKNOWN_CHANNEL) \<and> (k_gap_reason k = None \<longleftrightarrow> k_state k = PATH)
    \<and> map checked_condition (k_preconditions k) = [''K1'', ''K2'', ''K3'', ''K4'', ''K5'', ''K6'']
    \<and> set (k_expansion k) \<inter> set closure = {}"
proof -
  obtain graph c6 expansion where g: "window_topology enum i start end = Inr graph"
    and k6: "k6 closure (window_versions start end (k_history i)) (latest_of (k_history i)) (k_audit i) start end
       = Inr (c6, expansion, control_plane_access k)"
    and reached: "k_expansion k = filter (\<lambda>r. r \<notin> set closure) expansion"
    and checks: "k_preconditions k = [k1 closure i start end, k2 closure, k3 closure (k_symptoms i),
       k4 (k4_path closure (k_symptoms i) graph) start end,
       k5 (k5_surfaces (window_versions start end (k_history i)) closure) closure, c6]"
    and outcome: "(k_state k, k_gap_reason k) = k_outcome (k4_path closure (k_symptoms i) graph \<noteq> None) (k_preconditions k)"
    using evaluated_k [OF assms] .
  have "k3 closure (k_symptoms i) \<in> set (k_preconditions k)" by (simp add: checks)
  moreover have "\<forall>c\<in>set (k_preconditions k). reasoned c" using checks_reasoned k6_reasoned [OF k6] by (simp add: checks)
  then have "\<forall>c\<in>set (k_preconditions k). check_status c \<noteq> CHECK_PASS \<longrightarrow> check_reason c \<noteq> None" by (simp only: reasoned_def)
  moreover have "k_state k = fst (k_outcome (k4_path closure (k_symptoms i) graph \<noteq> None) (k_preconditions k))"
    "k_gap_reason k = snd (k_outcome (k4_path closure (k_symptoms i) graph \<noteq> None) (k_preconditions k))"
    by (simp_all only: fst_conv snd_conv flip: outcome)
  moreover have "(\<exists>c\<in>set (k_preconditions k). check_status c = CHECK_FAIL) \<longleftrightarrow> CHECK_FAIL \<in> set (map check_status (k_preconditions k))"
    by force
  ultimately have "k_state k = (if k4_path closure (k_symptoms i) graph \<noteq> None then PATH
      else if CHECK_FAIL \<in> set (map check_status (k_preconditions k)) then UNCOVERED else UNKNOWN_CHANNEL)
    \<and> (k_gap_reason k = None \<longleftrightarrow> k4_path closure (k_symptoms i) graph \<noteq> None)"
    using k_outcome_cases [OF _ k3_never_passes, of closure "k_symptoms i" "k_preconditions k"
        "k4_path closure (k_symptoms i) graph \<noteq> None"] by presburger
  moreover have "map checked_condition (k_preconditions k) = [''K1'', ''K2'', ''K3'', ''K4'', ''K5'', ''K6'']"
    using k6_named [OF k6] checks_named by (simp add: checks)
  moreover have "set (k_expansion k) \<inter> set closure = {}" by (auto simp: reached)
  moreover have "CHECK_FAIL \<in> set (map check_status (k_preconditions k))" if "closure \<noteq> []"
    using k2_fails [OF that] by (simp add: checks)
  ultimately show ?thesis using g by (auto simp: k4_path_exists [symmetric])
qed

text \<open>
  C19: The reference channel is decided by the graph and fails closed. It reports a path exactly when, in the
  graph of every version of the window, some chain of causal relations of any length leads from an object
  of the closure to a symptom: no chain is missed by a bound. Otherwise it is uncovered when a
  precondition failed and unknown when none did, always with a reason; as no kind's profile is complete, a
  closure with members is uncovered. It never reports that no path is covered.
\<close>

theorem k_channel_fails_closed:
  assumes "evaluate_k enum i closure start end = Inr k"
  shows "(\<exists>graph. window_topology enum i start end = Inr graph
      \<and> (k_state k = PATH \<longleftrightarrow>
           (\<exists>r\<in>set closure. \<exists>x\<in>set (k_symptoms i). \<exists>p. walk {h. causal_step graph h} r p x)))
    \<and> (k_state k = UNCOVERED \<longleftrightarrow> k_state k \<noteq> PATH \<and> CHECK_FAIL \<in> set (map check_status (k_preconditions k)))
    \<and> k_state k \<noteq> NO_PATH_COVERED \<and> (closure \<noteq> [] \<longrightarrow> k_state k \<noteq> UNKNOWN_CHANNEL) \<and> (k_gap_reason k = None \<longleftrightarrow> k_state k = PATH)
    \<and> map checked_condition (k_preconditions k) = [''K1'', ''K2'', ''K3'', ''K4'', ''K5'', ''K6'']
    \<and> set (k_expansion k) \<inter> set closure = {}"
  using evaluated_state [OF assms] .

section \<open>Every reader is accounted for\<close>

text \<open>What an access adds to the findings stays.\<close>

definition grown :: "k6_state \<Rightarrow> k6_state \<Rightarrow> bool" where
  "grown st st' \<longleftrightarrow> set (k6_failures st) \<subseteq> set (k6_failures st') \<and> set (k6_control_plane st) \<subseteq> set (k6_control_plane st')
     \<and> set (k6_expansion st) \<subseteq> set (k6_expansion st')"

lemma grown_refl: "grown st st"
  by (simp add: grown_def)

lemma grown_trans: "grown st st' \<Longrightarrow> grown st' st'' \<Longrightarrow> grown st st''"
  unfolding grown_def by blast

lemma add_fields [simp]:
  "k6_failures (add_attribution d st) = k6_failures st" "k6_control_plane (add_attribution d st) = k6_control_plane st"
  "k6_expansion (add_attribution d st) = k6_expansion st"
  "k6_failures (add_failure r e st) = k6_failures st @ [(r, e)]"
  "k6_control_plane (add_failure r e st) = k6_control_plane st" "k6_expansion (add_failure r e st) = k6_expansion st"
  "k6_failures (add_control_plane e st) = k6_failures st"
  "k6_control_plane (add_control_plane e st) = k6_control_plane st @ [e]"
  "k6_expansion (add_control_plane e st) = k6_expansion st"
  "set (k6_expansion (add_targets rs st)) = set (k6_expansion st) \<union> set rs"
  "k6_control_plane (add_targets rs st) = k6_control_plane st" "k6_failures (add_targets rs st) = k6_failures st"
  by (simp_all add: add_attribution_def add_failure_def add_control_plane_def add_targets_def)

lemma read_access_grown: "grown st (read_access scope a touched st)"
proof (cases "attribute scope (access_user a) a touched = None \<or> attribute scope (effective_user a) a touched = None")
  case True
  then show ?thesis by (simp add: read_access_def Let_def grown_def subset_insertI)
next
  case False
  then obtain r' where "attribute scope (effective_user a) a touched = Some r'" by blast
  with False show ?thesis by (cases r') (simp_all add: read_access_def Let_def grown_def subset_insertI)
qed

lemma write_access_grown: "write_access a st = Inr st' \<Longrightarrow> grown st st'"
  by (auto simp: grown_def write_access_def Let_def split: option.splits)

lemma audit_access_grown: "audit_access scope start end a st = Inr st' \<Longrightarrow> grown st st'"
  unfolding audit_access_def Let_def
  by (simp split: if_splits) (blast intro: read_access_grown write_access_grown grown_refl)+

lemma audit_accesses_grown: "audit_accesses scope start end reqs st = Inr st' \<Longrightarrow> grown st st'"
proof (induction reqs arbitrary: st)
  case (Cons a reqs)
  then show ?case using audit_access_grown grown_trans by (metis (no_types, lifting) and_then_Inr audit_accesses.simps(2))
qed (simp add: grown_refl)

lemma audited_access:
  assumes "audit_accesses scope start end reqs st = Inr st'" "a \<in> set reqs"
  shows "\<exists>u v. audit_access scope start end a u = Inr v \<and> grown v st'"
  using assms
proof (induction reqs arbitrary: st)
  case (Cons b reqs)
  then obtain m where m: "audit_access scope start end b st = Inr m" "audit_accesses scope start end reqs m = Inr st'"
    by auto
  then show ?case using Cons audit_accesses_grown [OF m(2)] by (cases "a = b") auto
qed simp

text \<open>How a read of the closure is accounted for, and a write outside it.\<close>

definition read_accounted :: "entity_ref list \<Rightarrow> journal \<Rightarrow> string list \<Rightarrow> api_request \<Rightarrow> bool" where
  "read_accounted closure versions control a \<longleftrightarrow>
     (let reader = effective_user a in
      reader \<in> set (closure_identities closure versions)
      \<or> access_evidence a \<in> set control
      \<or> (starts_with ''system:node:'' reader \<and> (\<forall>m\<in>set closure. touches a m \<longrightarrow> node_readers reader a m versions \<noteq> []))
      \<or> (identity_pods versions reader \<noteq> [] \<and> set (identity_pods versions reader) \<subseteq> set closure))"

definition write_accounted :: "entity_ref list \<Rightarrow> api_request \<Rightarrow> bool" where
  "write_accounted closure a \<longleftrightarrow> (case access_target a of None \<Rightarrow> False | Some t \<Rightarrow> t \<in> set closure)"

lemma attribute_cases:
  assumes "attribute scope reader a touched = Some r"
  shows "(r = READ_BY_CLOSURE \<longrightarrow> reader \<in> set (scope_identities scope))
    \<and> (\<forall>ps. r = READ_BY_KUBELET ps \<longrightarrow> starts_with ''system:node:'' reader
         \<and> (\<forall>m\<in>set touched. node_readers reader a m (scope_versions scope) \<noteq> []))
    \<and> (\<forall>ps. r = READ_BY_WORKLOAD ps \<longrightarrow> identity_pods (scope_versions scope) reader \<noteq> [])"
  using assms by (auto simp: attribute_def Let_def list_all_iff split: if_splits)

lemma read_access_accounted:
  assumes v: "v = read_access scope a (filter (touches a) closure) u" and grown: "grown v st"
    and closure: "set (k6_expansion st) \<subseteq> set closure"
  shows "k6_failures st \<noteq> [] \<or> read_accounted closure (scope_versions scope) (k6_control_plane st) a
    \<or> effective_user a \<in> set (scope_identities scope)"
proof -
  let ?t = "filter (touches a) closure"
  consider "attribute scope (access_user a) a ?t = None \<or> attribute scope (effective_user a) a ?t = None"
    | r' where "attribute scope (access_user a) a ?t \<noteq> None" "attribute scope (effective_user a) a ?t = Some r'"
    by fastforce
  then show ?thesis
  proof cases
    case 1
    then have "k6_failures v \<noteq> []" by (auto simp: v read_access_def Let_def)
    then show ?thesis using grown by (auto simp: grown_def)
  next
    case 2
    show ?thesis
    proof (cases r')
      case READ_BY_CLOSURE
      then show ?thesis using attribute_cases [OF 2(2)] by blast
    next
      case READ_BY_CONTROL_PLANE
      then have "access_evidence a \<in> set (k6_control_plane v)" using 2 by (auto simp: v read_access_def Let_def)
      then show ?thesis using grown by (auto simp: grown_def read_accounted_def Let_def)
    next
      case (READ_BY_KUBELET ps)
      then show ?thesis using attribute_cases [OF 2(2)] by (auto simp: read_accounted_def Let_def)
    next
      case (READ_BY_WORKLOAD ps)
      then have "set (identity_pods (scope_versions scope) (effective_user a)) \<subseteq> set (k6_expansion v)"
        using 2 by (auto simp: v read_access_def Let_def)
      moreover have "identity_pods (scope_versions scope) (effective_user a) \<noteq> []"
        using READ_BY_WORKLOAD attribute_cases [OF 2(2)] by blast
      ultimately show ?thesis using grown closure unfolding grown_def read_accounted_def Let_def by blast
    qed
  qed
qed

lemma write_access_accounted:
  assumes v: "write_access a u = Inr v" and grown: "grown v st" and closure: "set (k6_expansion st) \<subseteq> set closure"
  shows "k6_failures st \<noteq> [] \<or> write_accounted closure a"
proof (cases "access_name a")
  case None
  then have "k6_failures v \<noteq> []" using v by (auto simp: write_access_def Let_def)
  then show ?thesis using grown by (auto simp: grown_def)
next
  case (Some n)
  then obtain t where "access_target a = Some t" "t \<in> set (k6_expansion v)"
    using v by (auto simp: write_access_def Let_def access_target_def make_entity_def split: if_splits)
  then show ?thesis using grown closure by (auto simp: grown_def write_accounted_def)
qed

lemma verdict_fails: "check_status (k6_verdict st) = CHECK_FAIL \<longleftrightarrow> k6_failures st \<noteq> []"
  by (auto simp: k6_verdict_def fail_check_def unknown_check_def pass_check_def split: list.split)

definition lower_verb :: "api_request \<Rightarrow> string" where
  "lower_verb a = map lower_char (access_verb a)"

lemma k6_accounts:
  assumes k6: "k6 closure versions latest (Some audit) (Some s) (Some e) = Inr (c, expansion, control)"
    and closure: "set expansion \<subseteq> set closure" and a: "a \<in> set (api_accesses audit)" "\<not> outside_window s e a"
  shows "check_status c = CHECK_FAIL
    \<or> (lower_verb a \<in> set READ_VERBS \<and> list_ex (touches a) closure \<longrightarrow> read_accounted closure versions control a)
      \<and> (lower_verb a \<in> set WRITE_VERBS \<and> common [access_user a, effective_user a] (closure_identities closure versions)
           \<and> \<not> list_ex (touches a) closure \<longrightarrow> write_accounted closure a)"
proof -
  let ?scope = "\<lparr>scope_closure = closure, scope_versions = versions, scope_identities = closure_identities closure versions\<rparr>"
  obtain sc st where st: "audit_accesses ?scope s e (api_accesses audit) sc = Inr st"
    "c = (k6_verdict st)\<lparr>attributions := k6_attributions st\<rparr>" "expansion = k6_expansion st" "control = k6_control_plane st"
    using k6 by (auto simp: k6_def Let_def)
  obtain u v where v: "audit_access ?scope s e a u = Inr v" "grown v st" using audited_access [OF st(1) a(1)] by blast
  have fail: "check_status c = CHECK_FAIL \<longleftrightarrow> k6_failures st \<noteq> []" by (simp add: st(2) verdict_fails)
  have ex: "filter (touches a) closure \<noteq> [] \<longleftrightarrow> list_ex (touches a) closure" by (auto simp: filter_empty_conv list_ex_iff)
  have "k6_failures st \<noteq> [] \<or> read_accounted closure versions control a"
    if "lower_verb a \<in> set READ_VERBS" "list_ex (touches a) closure"
  proof -
    have "v = read_access ?scope a (filter (touches a) closure) u"
      using v(1) that a(2) ex by (simp add: audit_access_def Let_def lower_verb_def)
    from read_access_accounted [OF this v(2)] closure show ?thesis
      by (auto simp: st(3,4) read_accounted_def Let_def)
  qed
  moreover have "k6_failures st \<noteq> [] \<or> write_accounted closure a"
    if "lower_verb a \<in> set WRITE_VERBS" "common [access_user a, effective_user a] (closure_identities closure versions)"
      "\<not> list_ex (touches a) closure"
  proof -
    have "write_access a u = Inr v"
      using v(1) that a(2) ex by (simp add: audit_access_def Let_def lower_verb_def)
    from write_access_accounted [OF this v(2)] closure show ?thesis by (simp add: st(3))
  qed
  ultimately show ?thesis using fail by blast
qed

text \<open>What a settled closure is.\<close>

lemma settled_parts:
  assumes "settle_closure enum x actor t_change extra = Inr (closure, start, k)"
  shows "\<exists>readers. set readers \<subseteq> set extra \<union> set (reader_universe (ch_k x))
    \<and> closure = closure_of actor (k_topology (ch_k x)) (latest_of (k_history (ch_k x))) readers
    \<and> start = window_start_of (k_history (ch_k x)) closure t_change
    \<and> evaluate_k enum (ch_k x) closure start (window_end_of x) = Inr k \<and> k_expansion k = []"
  using assms
proof (induction enum x actor t_change extra rule: settle_closure.induct)
  case (1 enum x actor t_change extra)
  then obtain c s' k' where round: "closure_round enum x actor t_change extra = Inr (c, s', k')"
    by (cases "closure_round enum x actor t_change extra") (auto simp: settle_closure.simps [of enum x actor t_change extra])
  then have r: "c = closure_of actor (k_topology (ch_k x)) (latest_of (k_history (ch_k x))) extra"
    "s' = window_start_of (k_history (ch_k x)) c t_change" "evaluate_k enum (ch_k x) c s' (window_end_of x) = Inr k'"
    by (auto simp: closure_round_def Let_def)
  note known = expansion_known [OF r(3)]
  show ?case
  proof (cases "newly_reached c k' = []")
    case True
    then have "set (k_expansion k') \<subseteq> set c" by (auto simp: newly_reached_def filter_empty_conv)
    then have "\<And>r. r \<notin> set (k_expansion k')" using known by auto
    then have "set (k_expansion k') = {}" by (intro equals0I) simp
    then have "k_expansion k' = []" by (simp only: set_empty)
    moreover have "c = closure" "s' = start" "k' = k"
      using 1(2) round True by (simp_all add: settle_closure.simps [of enum x actor t_change extra])
    ultimately show ?thesis using r by (intro exI [of _ extra]) auto
  next
    case False
    then have "settle_closure enum x actor t_change (dedup (extra @ k_expansion k')) = Inr (closure, start, k)"
      using 1(2) round by (simp add: settle_closure.simps [of enum x actor t_change extra])
    from 1(1) [OF round refl refl False this] obtain readers where
      "set readers \<subseteq> set (dedup (extra @ k_expansion k')) \<union> set (reader_universe (ch_k x))"
      "closure = closure_of actor (k_topology (ch_k x)) (latest_of (k_history (ch_k x))) readers
       \<and> start = window_start_of (k_history (ch_k x)) closure t_change
       \<and> evaluate_k enum (ch_k x) closure start (window_end_of x) = Inr k \<and> k_expansion k = []"
      by blast
    then show ?thesis using known by (intro exI [of _ readers]) auto
  qed
qed

definition audit_failed :: "k_evaluation \<Rightarrow> bool" where
  "audit_failed k \<longleftrightarrow> list_ex (\<lambda>c. checked_condition c = ''K6'' \<and> check_status c = CHECK_FAIL) (k_preconditions k)"

lemma closure_accounts:
  assumes k: "evaluate_k enum i closure (Some s) (Some e) = Inr k" "k_expansion k = []" "k_audit i = Some audit"
    and a: "a \<in> set (api_accesses audit)" "\<not> outside_window s e a"
  shows "audit_failed k
    \<or> (lower_verb a \<in> set READ_VERBS \<and> list_ex (touches a) closure
         \<longrightarrow> read_accounted closure (window_versions (Some s) (Some e) (k_history i)) (control_plane_access k) a)
      \<and> (lower_verb a \<in> set WRITE_VERBS
           \<and> common [access_user a, effective_user a] (closure_identities closure (window_versions (Some s) (Some e) (k_history i)))
           \<and> \<not> list_ex (touches a) closure \<longrightarrow> write_accounted closure a)"
proof -
  obtain graph c6 expansion where k6: "k6 closure (window_versions (Some s) (Some e) (k_history i)) (latest_of (k_history i))
      (k_audit i) (Some s) (Some e) = Inr (c6, expansion, control_plane_access k)"
    and exp: "k_expansion k = filter (\<lambda>r. r \<notin> set closure) expansion"
    and checks: "k_preconditions k = [k1 closure i (Some s) (Some e), k2 closure, k3 closure (k_symptoms i),
       k4 (k4_path closure (k_symptoms i) graph) (Some s) (Some e),
       k5 (k5_surfaces (window_versions (Some s) (Some e) (k_history i)) closure) closure, c6]"
    using evaluated_k [OF k(1)] by metis
  have "set expansion \<subseteq> set closure" using k(2) exp by (auto simp: filter_empty_conv)
  from k6_accounts [OF _ this a] k6 k(3) have "check_status c6 = CHECK_FAIL
    \<or> (lower_verb a \<in> set READ_VERBS \<and> list_ex (touches a) closure
         \<longrightarrow> read_accounted closure (window_versions (Some s) (Some e) (k_history i)) (control_plane_access k) a)
      \<and> (lower_verb a \<in> set WRITE_VERBS
           \<and> common [access_user a, effective_user a] (closure_identities closure (window_versions (Some s) (Some e) (k_history i)))
           \<and> \<not> list_ex (touches a) closure \<longrightarrow> write_accounted closure a)"
    by metis
  moreover have "check_status c6 = CHECK_FAIL \<Longrightarrow> audit_failed k"
    using k6_named [OF k6] by (simp add: audit_failed_def checks)
  ultimately show ?thesis by metis
qed
text \<open>
  C18: The closure of a change is a fixed point, and every reader of it is accounted for. When the closure of an
  actor settles, it is exactly what spawning, scaling, ownership and configuration reach from the actor and some
  readers known to the journal or the audit. Every audited read of one of its objects in the window is by an
  identity of the closure, by the control plane (and recorded so), by a node whose kubelet serves a pod for every
  object read, or by a workload all of whose pods are in the closure; every write outside it by one of its
  identities has its target in it; or the audit precondition of the channel failed.
\<close>

theorem readers_are_accounted:
  assumes "settle_closure enum x actor t_change [] = Inr (closure, start, k)"
  shows "(\<exists>readers. set readers \<subseteq> set (reader_universe (ch_k x))
      \<and> set closure = (follow_relation (k_topology (ch_k x)))\<^sup>*
          `` set (closure_seeds actor (latest_of (k_history (ch_k x))) readers))
    \<and> actor \<in> set closure
    \<and> (case (start, window_end_of x, k_audit (ch_k x)) of
         (Some s, Some e, Some audit) \<Rightarrow>
           audit_failed k
           \<or> (\<forall>a\<in>set (api_accesses audit). \<not> outside_window s e a \<longrightarrow>
               (lower_verb a \<in> set READ_VERBS \<and> list_ex (touches a) closure
                  \<longrightarrow> read_accounted closure (window_versions (Some s) (Some e) (k_history (ch_k x))) (control_plane_access k) a)
             \<and> (lower_verb a \<in> set WRITE_VERBS
                  \<and> common [access_user a, effective_user a]
                      (closure_identities closure (window_versions (Some s) (Some e) (k_history (ch_k x))))
                  \<and> \<not> list_ex (touches a) closure \<longrightarrow> write_accounted closure a))
       | _ \<Rightarrow> True)"
proof -
  obtain readers where r: "set readers \<subseteq> set (reader_universe (ch_k x))"
    "closure = closure_of actor (k_topology (ch_k x)) (latest_of (k_history (ch_k x))) readers"
    "evaluate_k enum (ch_k x) closure start (window_end_of x) = Inr k" "k_expansion k = []"
    using settled_parts [OF assms] by auto
  have "actor \<in> set closure" using closure_of_seeds by (fastforce simp: r(2))
  then show ?thesis
    using r(1) closure_accounts [OF _ r(4), of enum "ch_k x" closure] r(3)
    by (intro conjI exI [of _ readers]) (auto simp: r(2) closure_of_reach split: option.splits)
qed

section \<open>No change is cleared\<close>

lemma assessed:
  assumes "assess_change enum fromisoformat x h = Inr a"
  obtains closure start k where
    "settle_closure enum x (causal_actor h) (change_time fromisoformat h) [] = Inr (closure, start, k)"
    "evaluations a = evaluate_channels x (findings h) closure k" "assessed_start a = start"
    "closure_complete a = closure_is_complete x (causal_actor h) closure" "assessed_end a = window_end_of x"
    "(closure_outcome a, outcome_reason a) = closure_verdict (evaluations a) (closure_complete a) start (window_end_of x)"
  using assms by (auto simp: assess_change_def Let_def)

definition valid_evaluation :: "channel_evaluation \<Rightarrow> bool" where
  "valid_evaluation e \<longleftrightarrow> (applicability e = APPLICABLE \<longleftrightarrow> channel_verdict e \<noteq> None)
     \<and> (channel_verdict e \<noteq> None \<longrightarrow> channel_gap e = None \<longrightarrow> channel_verdict e \<in> {Some PATH, Some NO_PATH_COVERED})"

lemma made_evaluations [simp]:
  "valid_evaluation (not_applicable c basis)"
  "valid_evaluation (applicable c basis s g ids) \<longleftrightarrow> g \<noteq> None \<or> s \<in> {PATH, NO_PATH_COVERED}"
  "channel (applicable c basis s g ids) = c" "channel (not_applicable c basis) = c"
  by (auto simp: valid_evaluation_def applicable_def not_applicable_def)

lemma evaluated_channels:
  assumes "k_gap_reason k = None \<longleftrightarrow> k_state k = PATH"
  shows "list_all valid_evaluation (evaluate_channels x fs closure k)
    \<and> map channel (evaluate_channels x fs closure k) = [''K'', ''R'', ''M'', ''N'', ''C'', ''O'']"
proof -
  have "valid_evaluation (channel_K k)" using assms
    by (auto simp: channel_K_def valid_evaluation_def applicable_def)
  moreover have "channel (channel_K k) = ''K''" by (simp add: channel_K_def applicable_def)
  moreover have "valid_evaluation (channel_R x closure) \<and> channel (channel_R x closure) = ''R''"
    by (simp add: channel_R_def Let_def)
  moreover have "valid_evaluation (channel_M x closure) \<and> channel (channel_M x closure) = ''M''"
    by (simp add: channel_M_def Let_def)
  moreover have "valid_evaluation (channel_N x closure) \<and> channel (channel_N x closure) = ''N''"
    by (simp add: channel_N_def Let_def)
  moreover have "valid_evaluation (channel_C x closure k) \<and> channel (channel_C x closure k) = ''C''"
    by (simp add: channel_C_def Let_def)
  moreover have "valid_evaluation (channel_O fs closure) \<and> channel (channel_O fs closure) = ''O''"
    by (simp add: channel_O_def)
  ultimately show ?thesis by (simp add: evaluate_channels_def)
qed

text \<open>The rule fires only over states that all say that no path is covered.\<close>

lemma verdict_cases:
  assumes "applicability e = APPLICABLE" "e \<in> set es" "channel_verdict e = Some s" "s \<noteq> NO_PATH_COVERED"
  shows "fst (closure_verdict es complete start end) \<noteq> FIRED"
proof -
  have "Some s \<in> set (map channel_verdict (filter (\<lambda>e. applicability e = APPLICABLE) es))" using assms by force
  then show ?thesis using assms(4) by (cases s) (auto simp: closure_verdict_def Let_def)
qed

lemma verdict_not_fired:
  "fst (closure_verdict es complete start end) = NOT_FIRED \<longleftrightarrow>
     complete \<and> start \<noteq> None \<and> end \<noteq> None \<and> (\<exists>e\<in>set es. applicability e = APPLICABLE \<and> channel_verdict e = Some PATH)"
proof -
  let ?states = "map channel_verdict (filter (\<lambda>e. applicability e = APPLICABLE) es)"
  have "Some PATH \<in> set ?states \<longleftrightarrow> (\<exists>e\<in>set es. applicability e = APPLICABLE \<and> channel_verdict e = Some PATH)" by force
  moreover have "Some PATH \<in> set ?states \<Longrightarrow> ?states \<noteq> []" by (cases ?states) auto
  moreover have "fst (closure_verdict es complete start end) = NOT_FIRED \<longleftrightarrow>
      complete \<and> start \<noteq> None \<and> end \<noteq> None \<and> ?states \<noteq> [] \<and> Some PATH \<in> set ?states"
    by (simp only: closure_verdict_def Let_def) simp
  ultimately show ?thesis by blast
qed

text \<open>
  C17: No change is ever cleared. Whatever the evidence, the assessment of an initiated change never fires, that
  is, it never concludes that no channel could have carried the change's influence. It reports the rule as not
  fired exactly when the closure is complete, the window is known and some applicable channel shows a path. The
  six channels are evaluated in order, and each has a state exactly when it applies, with a reason for
  every gap.
\<close>

theorem no_change_is_cleared:
  assumes "assess_change enum fromisoformat x h = Inr a"
  shows "closure_outcome a \<noteq> FIRED
    \<and> (closure_outcome a = NOT_FIRED \<longleftrightarrow>
         closure_complete a \<and> assessed_start a \<noteq> None \<and> assessed_end a \<noteq> None
         \<and> (\<exists>e\<in>set (evaluations a). applicability e = APPLICABLE \<and> channel_verdict e = Some PATH))
    \<and> map channel (evaluations a) = [''K'', ''R'', ''M'', ''N'', ''C'', ''O''] \<and> list_all valid_evaluation (evaluations a)"
proof -
  obtain closure start k where a: "settle_closure enum x (causal_actor h) (change_time fromisoformat h) [] = Inr (closure, start, k)"
    "evaluations a = evaluate_channels x (findings h) closure k" "assessed_start a = start"
    "closure_complete a = closure_is_complete x (causal_actor h) closure" "assessed_end a = window_end_of x"
    "(closure_outcome a, outcome_reason a) = closure_verdict (evaluations a) (closure_complete a) start (window_end_of x)"
    using assessed [OF assms] .
  have "evaluate_k enum (ch_k x) closure start (window_end_of x) = Inr k" using settled_parts [OF a(1)] by blast
  note k = evaluated_state [OF this]
  have "channel_K k \<in> set (evaluations a)" by (simp add: a(2) evaluate_channels_def)
  moreover have "applicability (channel_K k) = APPLICABLE" "channel_verdict (channel_K k) = Some (k_state k)"
    by (simp_all add: channel_K_def applicable_def)
  ultimately have "closure_outcome a \<noteq> FIRED"
    using verdict_cases [of "channel_K k" "evaluations a" "k_state k"] k by (metis a(6) fst_conv)
  moreover have "closure_outcome a = fst (closure_verdict (evaluations a) (closure_complete a) (assessed_start a) (assessed_end a))"
    by (simp only: a(3,5) fst_conv flip: a(6))
  ultimately show ?thesis
    using evaluated_channels [of k x "findings h" closure] k by (simp only: verdict_not_fired a(2)) blast
qed

section \<open>A sample change\<close>

text \<open>A configuration that a pod of the shop uses, and that a pod of another namespace reads through the API.\<close>

definition conf_map :: entity_ref where
  "conf_map = \<lparr>kind = ''ConfigMap'', name = ''conf'', namespace = ''shop''\<rparr>"

definition reader_pod :: entity_ref where
  "reader_pod = \<lparr>kind = ''Pod'', name = ''reader-1'', namespace = ''ops''\<rparr>"

definition sample_version :: "entity_ref \<Rightarrow> instant \<Rightarrow> string \<Rightarrow> (string \<times> json) list \<Rightarrow> object_version" where
  "sample_version r t e spec =
     \<lparr>version_entity = r, version_uid = None, observed_at = t,
      body = [(''apiVersion'', JStr ''v1''), (''kind'', JStr (kind r)), (''spec'', JDict spec)], evidence_id = e, lifecycle = OBSERVED\<rparr>"

definition sample_history :: journal where
  "sample_history =
     [(conf_map, [sample_version conf_map 10 ''v1'' [], sample_version conf_map 20 ''v2'' []]),
      (killed_pod, [sample_version killed_pod 5 ''v3'' [(''serviceAccountName'', JStr ''front''), (''nodeName'', JStr ''n1'')]]),
      (reader_pod, [sample_version reader_pod 6 ''v4'' [(''serviceAccountName'', JStr ''reader'')]])]"

definition sample_access :: api_request where
  "sample_access =
     \<lparr>access_user = ''system:serviceaccount:ops:reader'', impersonated_user = None, access_verb = ''GET'',
      access_kind = ''ConfigMap'', access_namespace = Some ''shop'', access_name = Some ''conf'', access_started = 22,
      access_ended = Some 23, access_evidence = ''a1''\<rparr>"

definition sample_audit :: api_audit where
  "sample_audit =
     \<lparr>serving_instances = [''api''], server_audits = [\<lparr>server_instance = ''api'', audit_start = 0, audit_end = 99,
        counter_continuous = True, error_count_start = Some 0, error_count_end = Some 0\<rparr>],
      policy_covers_relevant_requests = True, active_watches_at_start_known = True, api_accesses = [sample_access]\<rparr>"

definition sample_channels :: "entity_ref list \<Rightarrow> channel_input" where
  "sample_channels symptoms =
     \<lparr>ch_k = \<lparr>k_history = sample_history, k_events = [],
        k_topology = \<lparr>topo_edges = [mk_edge killed_pod ''uses_config'' conf_map], topo_latest = latest_of sample_history,
          relation_evidence = []\<rparr>,
        k_symptoms = symptoms, k_journal = None, k_audit = Some sample_audit\<rparr>,
      ch_services = [], ch_graph = empty_runtime_graph, ch_traced = [], ch_onset = Some 25, ch_grace = 5\<rparr>"

definition settled_sample :: "(entity_ref list \<times> instant option \<times> k_evaluation) result" where
  "settled_sample = settle_closure id (sample_channels [killed_pod]) conf_map (Some 20) []"


text \<open>The closure of the change, with the pod that read it.\<close>

definition settled_closure :: "entity_ref list" where
  "settled_closure = (case settled_sample of Inl _ \<Rightarrow> [] | Inr (closure, _, _) \<Rightarrow> closure)"

definition settled_evaluation :: k_evaluation where
  "settled_evaluation =
     (case settled_sample of
        Inl _ \<Rightarrow> \<lparr>k_state = UNKNOWN_CHANNEL, k_gap_reason = None, k_preconditions = [], k_expansion = [], control_plane_access = []\<rparr>
      | Inr (_, _, k) \<Rightarrow> k)"

lemma settled_sample_parts: "settled_sample = Inr (settled_closure, Some 10, settled_evaluation)"
  by code_simp

lemma settled_sample_facts:
  "\<not> audit_failed settled_evaluation" "reader_pod \<in> set settled_closure"
  "list_ex (touches sample_access) settled_closure" "lower_verb sample_access \<in> set READ_VERBS"
  "\<not> outside_window 10 30 sample_access"
  by code_simp+

theorem readers_are_accounted_witness:
  "conf_map \<in> set settled_closure
   \<and> read_accounted settled_closure (window_versions (Some 10) (Some 30) sample_history) (control_plane_access settled_evaluation)
       sample_access"
  using readers_are_accounted [OF settled_sample_parts [unfolded settled_sample_def]] settled_sample_facts
  by (auto simp: sample_channels_def sample_audit_def window_end_of_def)

text \<open>The reference channel of the configuration, seen from a pod that it cannot reach.\<close>

definition unreached_input :: k_input where
  "unreached_input = ch_k (sample_channels [front_service])"

definition unreached_evaluation :: k_evaluation where
  "unreached_evaluation =
     (case evaluate_k id unreached_input [conf_map] (Some 10) (Some 30) of Inl _ \<Rightarrow> settled_evaluation | Inr k \<Rightarrow> k)"

lemma unreached_parts: "evaluate_k id unreached_input [conf_map] (Some 10) (Some 30) = Inr unreached_evaluation"
  by code_simp

lemma unreached_state: "k_state unreached_evaluation = UNCOVERED"
  by code_simp

theorem k_channel_fails_closed_witness:
  "k_gap_reason unreached_evaluation \<noteq> None
   \<and> (\<exists>graph. window_topology id unreached_input (Some 10) (Some 30) = Inr graph
        \<and> \<not> (\<exists>p. walk {h. causal_step graph h} conf_map p front_service))"
  using k_channel_fails_closed [OF unreached_parts]
  by (auto simp: unreached_state) (auto simp: unreached_input_def sample_channels_def)

definition sample_change :: hypothesis where
  "sample_change = sample_hypothesis
     \<lparr>causal_actor := conf_map, initiating_findings := map (\<lambda>f. f\<lparr>at := Some 20\<rparr>) (findings sample_hypothesis)\<rparr>"

definition assessed_sample :: "channel_assessment result" where
  "assessed_sample = assess_change id (\<lambda>_. None) (sample_channels [killed_pod]) sample_change"

definition sample_assessment :: channel_assessment where
  "sample_assessment =
     (case assessed_sample of
        Inr a \<Rightarrow> a
      | Inl _ \<Rightarrow> \<lparr>closure_members = [], closure_member_count = 0, closure_complete = False, assessed_start = None,
          assessed_end = None, evaluations = [], closure_outcome = FIRED, outcome_reason = []\<rparr>)"

lemma assessed_sample_parts: "assess_change id (\<lambda>_. None) (sample_channels [killed_pod]) sample_change = Inr sample_assessment"
  by code_simp

lemma sample_path: "closure_outcome sample_assessment = NOT_FIRED"
  by code_simp

theorem no_change_is_cleared_witness:
  "closure_complete sample_assessment
   \<and> list_ex (\<lambda>e. applicability e = APPLICABLE \<and> channel_verdict e = Some PATH) (evaluations sample_assessment)"
  using no_change_is_cleared [OF assessed_sample_parts] by (simp add: sample_path list_ex_iff)

end
