(* ===== verification/Runtime_Evidence.thy ===== *)
theory Runtime_Evidence
  imports Runtime_Graph
begin

text \<open>
  What one span says of its call (\<open>packages/rca/runtime_evidence.py\<close>): its protocol and outcome, the Kubernetes
  objects it names, and the calls between services as facts. Attributes are strings, whose digits and
  case are those of ASCII. A duration is in microseconds where the source has float seconds. The quality of a
  binding is a function of the names it has, as its validator demands.
\<close>

section \<open>Outcomes\<close>

datatype runtime_protocol = GRPC | HTTP | RPC_OTHER | OTHER_PROTOCOL

fun protocol_value :: "runtime_protocol \<Rightarrow> string" where
  "protocol_value GRPC = ''GRPC''"
| "protocol_value HTTP = ''HTTP''"
| "protocol_value RPC_OTHER = ''RPC_OTHER''"
| "protocol_value OTHER_PROTOCOL = ''OTHER''"

datatype call_outcome = CALL_SUCCESS | CALL_NON_OK | CALL_ERROR | CALL_UNKNOWN

fun outcome_value :: "call_outcome \<Rightarrow> string" where
  "outcome_value CALL_SUCCESS = ''SUCCESS''"
| "outcome_value CALL_NON_OK = ''NON_OK''"
| "outcome_value CALL_ERROR = ''ERROR''"
| "outcome_value CALL_UNKNOWN = ''UNKNOWN''"

datatype outcome_basis =
    BASIS_ERROR_TYPE | BASIS_GRPC_STATUS | BASIS_HTTP_STATUS | BASIS_SPAN_STATUS | BASIS_CONFLICTING_GRPC
  | BASIS_CONFLICTING_HTTP | BASIS_NONE

record span_outcome =
  call_protocol :: runtime_protocol
  call_state :: call_outcome
  protocol_code :: "string option"
  error_type :: "string option"
  call_basis :: "outcome_basis list"

definition GRPC_CODES :: "string list" where
  "GRPC_CODES =
     [''OK'', ''CANCELLED'', ''UNKNOWN'', ''INVALID_ARGUMENT'', ''DEADLINE_EXCEEDED'', ''NOT_FOUND'', ''ALREADY_EXISTS'',
      ''PERMISSION_DENIED'', ''RESOURCE_EXHAUSTED'', ''FAILED_PRECONDITION'', ''ABORTED'', ''OUT_OF_RANGE'',
      ''UNIMPLEMENTED'', ''INTERNAL'', ''UNAVAILABLE'', ''DATA_LOSS'', ''UNAUTHENTICATED'']"

definition grpc_code :: "nat \<Rightarrow> string option" where
  "grpc_code n = (if n < length GRPC_CODES then Some (GRPC_CODES ! n) else None)"

text \<open>A negative number is no code, except that minus zero is zero.\<close>

definition normalize_grpc_status :: "string option \<Rightarrow> string option" where
  "normalize_grpc_status v =
     (case map_option strip v of
        None \<Rightarrow> None
      | Some text \<Rightarrow>
          if isdigit text then grpc_code (str_nat text)
          else if starts_with ''-'' text \<and> isdigit (drop 1 text)
          then (if str_nat (drop 1 text) = 0 then grpc_code 0 else None)
          else if map upper_char text \<in> set GRPC_CODES then Some (map upper_char text) else None)"

definition normalize_http_status :: "string option \<Rightarrow> nat option" where
  "normalize_http_status v =
     (case map_option strip v of
        None \<Rightarrow> None
      | Some text \<Rightarrow> if isdigit text \<and> 100 \<le> str_nat text \<and> str_nat text \<le> 599 then Some (str_nat text) else None)"

definition add_basis :: "outcome_basis \<Rightarrow> outcome_basis list \<Rightarrow> outcome_basis list" where
  "add_basis b bs = (if b \<in> set bs then bs else bs @ [b])"

definition stripped_attribute :: "trace_span \<Rightarrow> string \<Rightarrow> string option" where
  "stripped_attribute s k =
     (case map_option strip (span_attribute s k) of Some (c # v) \<Rightarrow> Some (c # v) | _ \<Rightarrow> None)"

definition first_nonempty :: "trace_span \<Rightarrow> string list \<Rightarrow> string option" where
  "first_nonempty s ks = (case List.map_filter (stripped_attribute s) ks of [] \<Rightarrow> None | v # _ \<Rightarrow> Some v)"

definition has_attribute :: "trace_span \<Rightarrow> string list \<Rightarrow> bool" where
  "has_attribute s ks \<longleftrightarrow> list_ex (\<lambda>k. span_attribute s k \<noteq> None) ks"

definition protocol_of :: "trace_span \<Rightarrow> runtime_protocol" where
  "protocol_of s =
     (let rpc = first_nonempty s [''rpc.system.name'', ''rpc.system''] in
      if map_option (map lower_char) rpc = Some ''grpc''
         \<or> has_attribute s [''rpc.response.status_code'', ''rpc.grpc.status_code''] then GRPC
      else if has_attribute s [''http.response.status_code'', ''http.status_code''] then HTTP
      else if rpc \<noteq> None then RPC_OTHER else OTHER_PROTOCOL)"

text \<open>What the protocol says: the state, its code and the basis.\<close>

type_synonym outcome_reading = "call_outcome \<times> string option \<times> outcome_basis list"

definition grpc_reading :: "trace_span \<Rightarrow> outcome_reading" where
  "grpc_reading s =
     (case (normalize_grpc_status (span_attribute s ''rpc.response.status_code''),
            normalize_grpc_status (span_attribute s ''rpc.grpc.status_code'')) of
        (Some m, Some l) \<Rightarrow>
          if m \<noteq> l then (CALL_UNKNOWN, Some (m @ ''|'' @ l), [BASIS_CONFLICTING_GRPC])
          else (if m = ''OK'' then CALL_SUCCESS else CALL_NON_OK, Some m, [BASIS_GRPC_STATUS])
      | (Some m, None) \<Rightarrow> (if m = ''OK'' then CALL_SUCCESS else CALL_NON_OK, Some m, [BASIS_GRPC_STATUS])
      | (None, Some l) \<Rightarrow> (if l = ''OK'' then CALL_SUCCESS else CALL_NON_OK, Some l, [BASIS_GRPC_STATUS])
      | (None, None) \<Rightarrow> (CALL_UNKNOWN, None, []))"

definition http_state :: "nat \<Rightarrow> call_outcome" where
  "http_state n = (if n < 400 then CALL_SUCCESS else if n < 500 then CALL_NON_OK else CALL_ERROR)"

definition http_reading :: "trace_span \<Rightarrow> outcome_reading" where
  "http_reading s =
     (case (normalize_http_status (span_attribute s ''http.response.status_code''),
            normalize_http_status (span_attribute s ''http.status_code'')) of
        (Some m, Some l) \<Rightarrow>
          if m \<noteq> l then (CALL_UNKNOWN, Some (nat_str m @ ''|'' @ nat_str l), [BASIS_CONFLICTING_HTTP])
          else (http_state m, Some (nat_str m), [BASIS_HTTP_STATUS])
      | (Some m, None) \<Rightarrow> (http_state m, Some (nat_str m), [BASIS_HTTP_STATUS])
      | (None, Some l) \<Rightarrow> (http_state l, Some (nat_str l), [BASIS_HTTP_STATUS])
      | (None, None) \<Rightarrow> (CALL_UNKNOWN, None, []))"

definition protocol_reading :: "trace_span \<Rightarrow> outcome_reading" where
  "protocol_reading s =
     (case protocol_of s of GRPC \<Rightarrow> grpc_reading s | HTTP \<Rightarrow> http_reading s | _ \<Rightarrow> (CALL_UNKNOWN, None, []))"

text \<open>An error type overrides the protocol, the status of the span overrides both when it is an error.\<close>

definition with_error_type :: "string option \<Rightarrow> call_outcome \<times> outcome_basis list \<Rightarrow> call_outcome \<times> outcome_basis list" where
  "with_error_type err r = (if err \<noteq> None then (CALL_ERROR, add_basis BASIS_ERROR_TYPE (snd r)) else r)"

definition with_span_status :: "span_status \<Rightarrow> call_outcome \<times> outcome_basis list \<Rightarrow> call_outcome \<times> outcome_basis list" where
  "with_span_status st r =
     (if st = SPAN_ERROR then (CALL_ERROR, add_basis BASIS_SPAN_STATUS (snd r))
      else if st = SPAN_OK \<and> fst r = CALL_UNKNOWN \<and> BASIS_CONFLICTING_GRPC \<notin> set (snd r) \<and> BASIS_CONFLICTING_HTTP \<notin> set (snd r)
      then (CALL_SUCCESS, add_basis BASIS_SPAN_STATUS (snd r))
      else r)"

definition classify_outcome :: "trace_span \<Rightarrow> span_outcome" where
  "classify_outcome s =
     (case protocol_reading s of (state, code, basis) \<Rightarrow>
        let err = map_option (take 256) (first_nonempty s [''error.type'', ''exception.type'']);
            r = with_span_status (span_status s) (with_error_type err (state, basis))
        in \<lparr>call_protocol = protocol_of s, call_state = fst r, protocol_code = code, error_type = err,
            call_basis = (if snd r = [] then [BASIS_NONE] else snd r)\<rparr>)"

section \<open>Bindings\<close>

datatype binding_quality = NAMESPACE_ONLY | NAMESPACE_POD | NAMESPACE_DEPLOYMENT | NAMESPACE_DEPLOYMENT_POD

definition quality_of :: "binding \<Rightarrow> binding_quality" where
  "quality_of b =
     (case (deployment b, binding_pod b) of
        (Some _, Some _) \<Rightarrow> NAMESPACE_DEPLOYMENT_POD
      | (Some _, None) \<Rightarrow> NAMESPACE_DEPLOYMENT
      | (None, Some _) \<Rightarrow> NAMESPACE_POD
      | (None, None) \<Rightarrow> NAMESPACE_ONLY)"

text \<open>A UID without the pod name it belongs to binds nothing.\<close>

definition kubernetes_binding :: "trace_span \<Rightarrow> binding option" where
  "kubernetes_binding s =
     map_option (\<lambda>ns.
       let p = stripped_attribute s ''k8s.pod.name'' in
       \<lparr>binding_namespace = ns, deployment = stripped_attribute s ''k8s.deployment.name'', binding_pod = p,
        binding_pod_uid = (if p = None then None else stripped_attribute s ''k8s.pod.uid'')\<rparr>)
       (stripped_attribute s ''k8s.namespace.name'')"

section \<open>Calls as facts\<close>

record call_fact =
  fact_trace :: string
  caller_span :: string
  callee_span :: string
  fact_caller :: string
  fact_callee :: string
  direction_basis :: edge_evidence_kind
  caller_interval :: "instant \<times> instant option"
  caller_duration :: "duration option"
  caller_status :: span_status
  caller_outcome :: call_outcome
  callee_interval :: "instant \<times> instant option"
  callee_duration :: "duration option"
  callee_status :: span_status
  callee_outcome :: call_outcome
  call_fact_evidence :: "string list"

definition forward_duration :: "trace_span \<Rightarrow> duration option" where
  "forward_duration s =
     (case span_end s of None \<Rightarrow> None | Some e \<Rightarrow> if e < span_start s then None else Some (e - span_start s))"

definition ends_before_start :: "trace_span \<Rightarrow> bool" where
  "ends_before_start s \<longleftrightarrow> (case span_end s of None \<Rightarrow> False | Some e \<Rightarrow> e < span_start s)"

text \<open>The resolved parent of a span: not one whose key conflicts.\<close>

definition resolved_parent :: "trace_index \<Rightarrow> trace_span \<Rightarrow> trace_span option" where
  "resolved_parent i c =
     (case parent_span_id c of
        None \<Rightarrow> None
      | Some p \<Rightarrow> if (trace_id c, p) \<in> set (conflicting_keys i) then None else map_of (index_spans i) (trace_id c, p))"

definition call_fact_of :: "trace_span \<Rightarrow> edge_evidence_kind \<Rightarrow> trace_span \<Rightarrow> call_fact result" where
  "call_fact_of parent direction child =
     (if stripped_service parent = [] \<or> stripped_service child = []
      then Inl (ValueError ''String should have at least 1 character'')
      else if ends_before_start parent \<or> ends_before_start child
      then Inl (ValueError ''trace span end must not precede start'')
      else Inr \<lparr>fact_trace = trace_id child, caller_span = span_id parent, callee_span = span_id child,
        fact_caller = stripped_service parent, fact_callee = stripped_service child, direction_basis = direction,
        caller_interval = (span_start parent, span_end parent), caller_duration = forward_duration parent,
        caller_status = span_status parent, caller_outcome = call_state (classify_outcome parent),
        callee_interval = (span_start child, span_end child), callee_duration = forward_duration child,
        callee_status = span_status child, callee_outcome = call_state (classify_outcome child),
        call_fact_evidence = [span_evidence parent, span_evidence child]\<rparr>)"

definition linked_pair :: "trace_index \<Rightarrow> trace_span \<Rightarrow> (trace_span \<times> edge_evidence_kind \<times> trace_span) option" where
  "linked_pair i child =
     (case resolved_parent i child of
        None \<Rightarrow> None
      | Some parent \<Rightarrow> map_option (\<lambda>direction. (parent, direction, child)) (classify_pair parent child))"

definition call_facts :: "trace_span list \<Rightarrow> call_fact list result" where
  "call_facts spans =
     (let i = canonicalize_spans spans in
      traverse (\<lambda>(parent, direction, child). call_fact_of parent direction child)
        (List.map_filter (linked_pair i)
          (sort_key (\<lambda>s. (span_start s, trace_id s, span_id s)) (map snd (index_spans i)))))"

end
