(* ===== verification/Runtime_Propagation.thy ===== *)
theory Runtime_Propagation
  imports Runtime_Evidence
begin

text \<open>
  Failures that were seen to return from one service to another (\<open>packages/rca/runtime_propagation.py\<close>): the
  state of an object at an instant of its history, the verification of the objects a span names, and the
  bindings, boundaries and propagation edges aggregated from paired client and server spans. Also the edges
  of message delivery, which \<open>topology.py\<close> derives in the same way. Observations with equal keys are
  aggregated: a key is the list of the strings that the source puts into a tuple. Differences of instants are
  in microseconds where the source has float seconds.
\<close>

section \<open>The state of an object\<close>

datatype object_state = PRESENT | ABSENT | STATE_UNKNOWN

fun state_value :: "object_state \<Rightarrow> string" where
  "state_value PRESENT = ''PRESENT''"
| "state_value ABSENT = ''ABSENT''"
| "state_value STATE_UNKNOWN = ''UNKNOWN''"

datatype state_basis =
    LATEST_NON_DELETED | LATEST_DELETED | BEFORE_OBSERVED_CREATION | BEFORE_FIRST_OBSERVATION | NO_HISTORY

fun basis_text :: "state_basis \<Rightarrow> string" where
  "basis_text LATEST_NON_DELETED = ''LATEST_NON_DELETED''"
| "basis_text LATEST_DELETED = ''LATEST_DELETED''"
| "basis_text BEFORE_OBSERVED_CREATION = ''BEFORE_OBSERVED_CREATION''"
| "basis_text BEFORE_FIRST_OBSERVATION = ''BEFORE_FIRST_OBSERVATION''"
| "basis_text NO_HISTORY = ''NO_HISTORY''"

fun verification_value :: "verification \<Rightarrow> string" where
  "verification_value VERIFIED = ''VERIFIED''"
| "verification_value UNRESOLVED = ''UNRESOLVED''"
| "verification_value CONTRADICTED = ''CONTRADICTED''"

record state_observation =
  observed_object :: entity_ref
  state_at :: instant
  object_state :: object_state
  state_basis :: state_basis
  state_evidence :: "string option"

definition versions_in_order :: "journal \<Rightarrow> entity_ref \<Rightarrow> object_version list" where
  "versions_in_order history e =
     sort_key (\<lambda>v. (observed_at v, evidence_id v)) (versions_of history e)"

definition versions_known_at :: "journal \<Rightarrow> entity_ref \<Rightarrow> instant \<Rightarrow> object_version list" where
  "versions_known_at history e t = filter (\<lambda>v. observed_at v \<le> t) (versions_in_order history e)"

definition observed_state :: "journal \<Rightarrow> entity_ref \<Rightarrow> instant \<Rightarrow> state_observation" where
  "observed_state history e t =
     (case versions_in_order history e of
        [] \<Rightarrow> \<lparr>observed_object = e, state_at = t, object_state = STATE_UNKNOWN, state_basis = NO_HISTORY, state_evidence = None\<rparr>
      | first # _ \<Rightarrow>
          if versions_known_at history e t \<noteq> []
          then let v = last (versions_known_at history e t) in
               \<lparr>observed_object = e, state_at = t,
                object_state = (if lifecycle v = DELETED then ABSENT else PRESENT),
                state_basis = (if lifecycle v = DELETED then LATEST_DELETED else LATEST_NON_DELETED),
                state_evidence = Some (evidence_id v)\<rparr>
          else \<lparr>observed_object = e, state_at = t,
                object_state = (if lifecycle first = CREATED then ABSENT else STATE_UNKNOWN),
                state_basis = (if lifecycle first = CREATED then BEFORE_OBSERVED_CREATION else BEFORE_FIRST_OBSERVATION),
                state_evidence = Some (evidence_id first)\<rparr>)"

section \<open>Verification of a binding\<close>

definition bound_object :: "binding \<Rightarrow> string \<Rightarrow> string \<Rightarrow> entity_ref" where
  "bound_object b k n = \<lparr>kind = k, name = n, namespace = binding_namespace b\<rparr>"

fun state_verification :: "object_state \<Rightarrow> verification" where
  "state_verification PRESENT = VERIFIED"
| "state_verification ABSENT = CONTRADICTED"
| "state_verification STATE_UNKNOWN = UNRESOLVED"

definition verify_pod_instance :: "binding \<Rightarrow> instant \<Rightarrow> journal \<Rightarrow> verification option" where
  "verify_pod_instance b t history =
     (case binding_pod b of
        None \<Rightarrow> None
      | Some p \<Rightarrow> Some
          (case binding_pod_uid b of
             None \<Rightarrow> UNRESOLVED
           | Some u \<Rightarrow>
               let eligible = versions_known_at history (bound_object b ''Pod'' p) t in
               if list_ex (\<lambda>v. version_uid v = Some u \<and> lifecycle v = DELETED) eligible then CONTRADICTED
               else if eligible = [] then UNRESOLVED
               else if lifecycle (last eligible) \<noteq> DELETED \<and> version_uid (last eligible) = Some u then VERIFIED
               else UNRESOLVED))"

record binding_verification =
  verified_binding :: binding
  verified_at :: instant
  deployment_observation :: "state_observation option"
  pod_observation :: "state_observation option"
  combined_state :: verification
  deployment_level :: "verification option"
  pod_level :: "verification option"

definition combine_states :: "object_state list \<Rightarrow> verification" where
  "combine_states ss =
     (if ss = [] then UNRESOLVED else if ABSENT \<in> set ss then CONTRADICTED
      else if STATE_UNKNOWN \<in> set ss then UNRESOLVED else VERIFIED)"

definition verify_binding :: "binding \<Rightarrow> instant \<Rightarrow> journal \<Rightarrow> binding_verification" where
  "verify_binding b t history =
     (let d = map_option (\<lambda>n. observed_state history (bound_object b ''Deployment'' n) t) (deployment b);
          p = map_option (\<lambda>n. observed_state history (bound_object b ''Pod'' n) t) (binding_pod b)
      in \<lparr>verified_binding = b, verified_at = t, deployment_observation = d, pod_observation = p,
          combined_state = combine_states (map object_state (List.map_filter id [d, p])),
          deployment_level = map_option (\<lambda>o'. state_verification (object_state o')) d,
          pod_level = verify_pod_instance b t history\<rparr>)"

definition verified_span :: "journal \<Rightarrow> trace_span \<Rightarrow> binding_verification option" where
  "verified_span history s = map_option (\<lambda>b. verify_binding b (span_start s) history) (kubernetes_binding s)"

definition verification_evidence :: "binding_verification \<Rightarrow> string list" where
  "verification_evidence v =
     List.map_filter (\<lambda>o'. Option.bind o' state_evidence) [deployment_observation v, pod_observation v]"

section \<open>Boundaries\<close>

datatype boundary_kind =
    REMOTE_NON_SUCCESS_PROPAGATED | REMOTE_NON_SUCCESS_CONTAINED | CALLER_NON_SUCCESS_WITH_SUCCESSFUL_CALLEE
  | REMOTE_OUTCOME_UNRESOLVED | CALLER_OUTCOME_UNRESOLVED

fun boundary_value :: "boundary_kind \<Rightarrow> string" where
  "boundary_value REMOTE_NON_SUCCESS_PROPAGATED = ''REMOTE_NON_SUCCESS_PROPAGATED''"
| "boundary_value REMOTE_NON_SUCCESS_CONTAINED = ''REMOTE_NON_SUCCESS_CONTAINED''"
| "boundary_value CALLER_NON_SUCCESS_WITH_SUCCESSFUL_CALLEE = ''CALLER_NON_SUCCESS_WITH_SUCCESSFUL_CALLEE''"
| "boundary_value REMOTE_OUTCOME_UNRESOLVED = ''REMOTE_OUTCOME_UNRESOLVED''"
| "boundary_value CALLER_OUTCOME_UNRESOLVED = ''CALLER_OUTCOME_UNRESOLVED''"

definition is_non_success :: "call_outcome \<Rightarrow> bool" where
  "is_non_success s \<longleftrightarrow> s \<in> {CALL_NON_OK, CALL_ERROR}"

definition classify_boundary :: "call_outcome \<Rightarrow> call_outcome \<Rightarrow> boundary_kind option" where
  "classify_boundary caller callee =
     (if is_non_success caller \<and> is_non_success callee then Some REMOTE_NON_SUCCESS_PROPAGATED
      else if caller = CALL_SUCCESS \<and> is_non_success callee then Some REMOTE_NON_SUCCESS_CONTAINED
      else if is_non_success caller \<and> callee = CALL_SUCCESS then Some CALLER_NON_SUCCESS_WITH_SUCCESSFUL_CALLEE
      else if is_non_success caller \<and> callee = CALL_UNKNOWN then Some REMOTE_OUTCOME_UNRESOLVED
      else if caller = CALL_UNKNOWN \<and> is_non_success callee then Some CALLER_OUTCOME_UNRESOLVED
      else None)"

section \<open>Aggregation by key\<close>

text \<open>The order of a value: when, the strings that rank it, and its position.\<close>

type_synonym value_order = "instant \<times> string list \<times> nat"

record accumulator =
  acc_since :: "instant option"
  acc_until :: "instant option"
  acc_count :: nat
  evidence_values :: "value_order ranked_values"
  trace_values :: "value_order ranked_values"

definition empty_accumulator :: accumulator where
  "empty_accumulator = \<lparr>acc_since = None, acc_until = None, acc_count = 0, evidence_values = [], trace_values = []\<rparr>"

definition insert_values :: "instant \<Rightarrow> string list \<Rightarrow> string list \<Rightarrow> value_order ranked_values \<Rightarrow> value_order ranked_values" where
  "insert_values t order vs ranked =
     fold (\<lambda>(n, v). bounded_unique_insert (t, order, n) v) (enumerate 0 vs) ranked"

definition accumulate :: "instant \<Rightarrow> string list \<Rightarrow> string list \<Rightarrow> string list \<Rightarrow> accumulator \<Rightarrow> accumulator" where
  "accumulate t order evidence traces a =
     \<lparr>acc_since = Some (earlier_of (acc_since a) t), acc_until = Some (later_of (acc_until a) t), acc_count = acc_count a + 1,
      evidence_values = insert_values t order evidence (evidence_values a),
      trace_values = insert_values t order traces (trace_values a)\<rparr>"

text \<open>The first observation of a key is kept, later ones are accumulated.\<close>

type_synonym 'm table = "(string list \<times> 'm \<times> accumulator) list"

definition collect :: "string list \<Rightarrow> 'm \<Rightarrow> (accumulator \<Rightarrow> accumulator) \<Rightarrow> 'm table \<Rightarrow> 'm table" where
  "collect k m f table =
     (case map_of table k of
        None \<Rightarrow> table @ [(k, m, f empty_accumulator)]
      | Some (m', a) \<Rightarrow> AList.update k (m', f a) table)"

definition values_of :: "value_order ranked_values \<Rightarrow> string list" where
  "values_of ranked = map snd ranked"

section \<open>Summaries and edges\<close>

record verification_summary =
  summary_service :: string
  summary_binding :: binding
  summary_state :: verification
  summary_deployment_level :: "verification option"
  summary_pod_level :: "verification option"
  summary_deployment_state :: "object_state option"
  summary_deployment_basis :: "state_basis option"
  summary_pod_state :: "object_state option"
  summary_pod_basis :: "state_basis option"
  summary_since :: instant
  summary_until :: instant
  summary_endpoints :: nat
  summary_evidence :: "string list"

text \<open>State, protocol and code of an outcome.\<close>

type_synonym outcome_triple = "call_outcome \<times> runtime_protocol \<times> string option"

definition outcome_parts :: "span_outcome \<Rightarrow> outcome_triple" where
  "outcome_parts o' = (call_state o', call_protocol o', protocol_code o')"

record boundary_summary =
  boundary_caller :: string
  boundary_callee :: string
  boundary_kind :: boundary_kind
  caller_binding :: "binding option"
  callee_binding :: "binding option"
  caller_binding_state :: "verification option"
  callee_binding_state :: "verification option"
  boundary_caller_outcome :: outcome_triple
  boundary_callee_outcome :: outcome_triple
  boundary_since :: instant
  boundary_until :: instant
  boundary_since_onset :: "duration option"
  boundary_until_onset :: "duration option"
  boundary_pairs :: nat
  boundary_evidence :: "string list"
  boundary_traces :: "string list"

text \<open>What the causal roles read of an edge, and the rest of its document.\<close>

record propagation_edge = edge +
  source_binding_state :: "verification option"
  affected_binding_state :: "verification option"
  source_outcome :: outcome_triple
  affected_outcome :: outcome_triple
  since_onset :: "duration option"
  until_onset :: "duration option"
  edge_traces :: "string list"

text \<open>One end of a pair.\<close>

record endpoint =
  end_service :: string
  end_binding :: "binding option"
  end_verification :: "binding_verification option"
  end_outcome :: span_outcome
  end_at :: instant
  end_evidence :: string

definition endpoint_of :: "journal \<Rightarrow> trace_span \<Rightarrow> endpoint" where
  "endpoint_of history s =
     \<lparr>end_service = stripped_service s, end_binding = kubernetes_binding s, end_verification = verified_span history s,
      end_outcome = classify_outcome s, end_at = span_start s, end_evidence = span_evidence s\<rparr>"

definition end_state :: "endpoint \<Rightarrow> verification option" where
  "end_state e = map_option combined_state (end_verification e)"

definition end_deployment_level :: "endpoint \<Rightarrow> verification option" where
  "end_deployment_level e = Option.bind (end_verification e) deployment_level"

definition end_pod_level :: "endpoint \<Rightarrow> verification option" where
  "end_pod_level e = Option.bind (end_verification e) pod_level"

subsection \<open>Keys\<close>

definition text_or_empty :: "('a \<Rightarrow> string) \<Rightarrow> 'a option \<Rightarrow> string" where
  "text_or_empty f v = (case v of None \<Rightarrow> [] | Some x \<Rightarrow> f x)"

definition binding_key :: "binding option \<Rightarrow> string list" where
  "binding_key b =
     (case b of
        None \<Rightarrow> [[], [], [], []]
      | Some b \<Rightarrow> [binding_namespace b, text_or_empty id (deployment b), text_or_empty id (binding_pod b),
                   text_or_empty id (binding_pod_uid b)])"

definition verification_key :: "string \<Rightarrow> binding_verification \<Rightarrow> string list" where
  "verification_key service v =
     [service] @ binding_key (Some (verified_binding v))
     @ [verification_value (combined_state v), text_or_empty verification_value (deployment_level v),
        text_or_empty verification_value (pod_level v),
        text_or_empty (state_value \<circ> object_state) (deployment_observation v),
        text_or_empty (basis_text \<circ> state_basis) (deployment_observation v),
        text_or_empty (state_value \<circ> object_state) (pod_observation v),
        text_or_empty (basis_text \<circ> state_basis) (pod_observation v)]"

definition pair_key :: "string \<Rightarrow> endpoint \<Rightarrow> endpoint \<Rightarrow> string list" where
  "pair_key what a b =
     [end_service a, end_service b, what] @ binding_key (end_binding a) @ binding_key (end_binding b)
     @ map (text_or_empty verification_value)
         [end_state a, end_state b, end_deployment_level a, end_pod_level a, end_deployment_level b, end_pod_level b]
     @ [outcome_value (call_state (end_outcome a)), outcome_value (call_state (end_outcome b)),
        protocol_value (call_protocol (end_outcome a)), protocol_value (call_protocol (end_outcome b)),
        text_or_empty id (protocol_code (end_outcome a)), text_or_empty id (protocol_code (end_outcome b))]"

subsection \<open>Documents\<close>

definition summary_of :: "endpoint \<Rightarrow> binding_verification \<Rightarrow> verification_summary" where
  "summary_of e v =
     \<lparr>summary_service = end_service e, summary_binding = verified_binding v, summary_state = combined_state v,
      summary_deployment_level = deployment_level v, summary_pod_level = pod_level v,
      summary_deployment_state = map_option object_state (deployment_observation v),
      summary_deployment_basis = map_option state_basis (deployment_observation v),
      summary_pod_state = map_option object_state (pod_observation v),
      summary_pod_basis = map_option state_basis (pod_observation v), summary_since = end_at e, summary_until = end_at e,
      summary_endpoints = 1, summary_evidence = end_evidence e # verification_evidence v\<rparr>"

definition after_onset :: "instant option \<Rightarrow> instant \<Rightarrow> duration option" where
  "after_onset onset t = map_option (\<lambda>o'. t - o') onset"

definition pair_evidence :: "endpoint \<Rightarrow> endpoint \<Rightarrow> string list" where
  "pair_evidence caller callee =
     [end_evidence caller, end_evidence callee]
     @ (case end_verification caller of None \<Rightarrow> [] | Some v \<Rightarrow> verification_evidence v)
     @ (case end_verification callee of None \<Rightarrow> [] | Some v \<Rightarrow> verification_evidence v)"

definition boundary_of :: "instant option \<Rightarrow> boundary_kind \<Rightarrow> endpoint \<Rightarrow> endpoint \<Rightarrow> string \<Rightarrow> boundary_summary" where
  "boundary_of onset k caller callee trace =
     \<lparr>boundary_caller = end_service caller, boundary_callee = end_service callee, boundary_kind = k,
      caller_binding = end_binding caller, callee_binding = end_binding callee,
      caller_binding_state = end_state caller, callee_binding_state = end_state callee,
      boundary_caller_outcome = outcome_parts (end_outcome caller), boundary_callee_outcome = outcome_parts (end_outcome callee),
      boundary_since = end_at callee, boundary_until = end_at callee,
      boundary_since_onset = after_onset onset (end_at callee), boundary_until_onset = after_onset onset (end_at callee),
      boundary_pairs = 1, boundary_evidence = take 32 (pair_evidence caller callee), boundary_traces = [trace]\<rparr>"

definition propagation_of :: "instant option \<Rightarrow> endpoint \<Rightarrow> endpoint \<Rightarrow> string \<Rightarrow> propagation_edge" where
  "propagation_of onset caller callee trace =
     \<lparr>source_service = end_service callee, affected_service = end_service caller,
      source_binding = end_binding callee, affected_binding = end_binding caller,
      source_deployment_verification = end_deployment_level callee, source_pod_verification = end_pod_level callee,
      affected_deployment_verification = end_deployment_level caller, affected_pod_verification = end_pod_level caller,
      first_seen = end_at callee, last_seen = end_at callee, observed_pairs = 1,
      edge_evidence = take 32 (pair_evidence caller callee),
      source_binding_state = end_state callee, affected_binding_state = end_state caller,
      source_outcome = outcome_parts (end_outcome callee), affected_outcome = outcome_parts (end_outcome caller),
      since_onset = after_onset onset (end_at callee), until_onset = after_onset onset (end_at callee),
      edge_traces = [trace]\<rparr>"

section \<open>Derivation\<close>

record propagation_stats =
  stat_canonical :: nat
  stat_client_server :: nat
  stat_async :: nat
  stat_healthy :: nat
  stat_no_abnormal :: nat
  stat_abnormal :: nat
  stat_propagated :: nat
  stat_contained :: nat
  stat_caller_only :: nat
  stat_remote_unresolved :: nat
  stat_caller_unresolved :: nat
  stat_bound :: nat
  stat_verified :: nat
  stat_unresolved :: nat
  stat_contradicted :: nat
  stat_unbound :: nat
  stat_verifications :: nat
  stat_boundaries :: nat
  stat_edges :: nat

record propagation_state =
  verification_table :: "verification_summary table"
  boundary_table :: "boundary_summary table"
  edge_table :: "propagation_edge table"
  prop_stats :: propagation_stats

definition empty_stats :: "nat \<Rightarrow> propagation_stats" where
  "empty_stats n =
     \<lparr>stat_canonical = n, stat_client_server = 0, stat_async = 0, stat_healthy = 0, stat_no_abnormal = 0, stat_abnormal = 0,
      stat_propagated = 0, stat_contained = 0, stat_caller_only = 0, stat_remote_unresolved = 0, stat_caller_unresolved = 0,
      stat_bound = 0, stat_verified = 0, stat_unresolved = 0, stat_contradicted = 0, stat_unbound = 0,
      stat_verifications = 0, stat_boundaries = 0, stat_edges = 0\<rparr>"

definition empty_propagation_state :: "nat \<Rightarrow> propagation_state" where
  "empty_propagation_state n =
     \<lparr>verification_table = [], boundary_table = [], edge_table = [], prop_stats = empty_stats n\<rparr>"

definition on_stats :: "(propagation_stats \<Rightarrow> propagation_stats) \<Rightarrow> propagation_state \<Rightarrow> propagation_state" where
  "on_stats f st = st\<lparr>prop_stats := f (prop_stats st)\<rparr>"

definition count_boundary :: "boundary_kind \<Rightarrow> propagation_stats \<Rightarrow> propagation_stats" where
  "count_boundary k s =
     (case k of
        REMOTE_NON_SUCCESS_PROPAGATED \<Rightarrow> s\<lparr>stat_propagated := stat_propagated s + 1\<rparr>
      | REMOTE_NON_SUCCESS_CONTAINED \<Rightarrow> s\<lparr>stat_contained := stat_contained s + 1\<rparr>
      | CALLER_NON_SUCCESS_WITH_SUCCESSFUL_CALLEE \<Rightarrow> s\<lparr>stat_caller_only := stat_caller_only s + 1\<rparr>
      | REMOTE_OUTCOME_UNRESOLVED \<Rightarrow> s\<lparr>stat_remote_unresolved := stat_remote_unresolved s + 1\<rparr>
      | CALLER_OUTCOME_UNRESOLVED \<Rightarrow> s\<lparr>stat_caller_unresolved := stat_caller_unresolved s + 1\<rparr>)"

definition count_verification :: "verification \<Rightarrow> propagation_stats \<Rightarrow> propagation_stats" where
  "count_verification v s =
     (let s = s\<lparr>stat_bound := stat_bound s + 1\<rparr> in
      case v of
        VERIFIED \<Rightarrow> s\<lparr>stat_verified := stat_verified s + 1\<rparr>
      | UNRESOLVED \<Rightarrow> s\<lparr>stat_unresolved := stat_unresolved s + 1\<rparr>
      | CONTRADICTED \<Rightarrow> s\<lparr>stat_contradicted := stat_contradicted s + 1\<rparr>)"

text \<open>Every document demands a service.\<close>

definition need_service :: "string \<Rightarrow> 'a \<Rightarrow> 'a result" where
  "need_service s x = (if s = [] then Inl (ValueError ''String should have at least 1 character'') else Inr x)"

definition add_endpoint :: "endpoint \<Rightarrow> propagation_state \<Rightarrow> propagation_state result" where
  "add_endpoint e st =
     (case end_verification e of
        None \<Rightarrow> Inr (on_stats (\<lambda>s. s\<lparr>stat_unbound := stat_unbound s + 1\<rparr>) st)
      | Some v \<Rightarrow>
          need_service (end_service e)
            ((on_stats (count_verification (combined_state v)) st)
               \<lparr>verification_table := collect (verification_key (end_service e) v) (summary_of e v)
                  (accumulate (end_at e) [end_service e, end_evidence e] (end_evidence e # verification_evidence v) [])
                  (verification_table st)\<rparr>))"

definition add_boundary ::
  "instant option \<Rightarrow> boundary_kind \<Rightarrow> endpoint \<Rightarrow> endpoint \<Rightarrow> string \<Rightarrow> propagation_state \<Rightarrow> propagation_state" where
  "add_boundary onset k caller callee trace st =
     st\<lparr>boundary_table := collect (pair_key (boundary_value k) caller callee) (boundary_of onset k caller callee trace)
          (accumulate (end_at callee) [end_service caller, end_service callee, end_evidence caller, end_evidence callee]
            (pair_evidence caller callee) [trace])
          (boundary_table st)\<rparr>"

definition add_propagation ::
  "instant option \<Rightarrow> endpoint \<Rightarrow> endpoint \<Rightarrow> string \<Rightarrow> propagation_state \<Rightarrow> propagation_state" where
  "add_propagation onset caller callee trace st =
     st\<lparr>edge_table := collect (pair_key ''REMOTE_NON_SUCCESS_RETURN'' callee caller) (propagation_of onset caller callee trace)
          (accumulate (end_at callee) [end_service callee, end_service caller, end_evidence caller, end_evidence callee]
            (pair_evidence caller callee) [trace])
          (edge_table st)\<rparr>"

definition abnormal_pair ::
  "instant option \<Rightarrow> boundary_kind \<Rightarrow> endpoint \<Rightarrow> endpoint \<Rightarrow> string \<Rightarrow> propagation_state \<Rightarrow> propagation_state result" where
  "abnormal_pair onset k caller callee trace st =
     and_then (add_endpoint caller (on_stats (\<lambda>s. count_boundary k (s\<lparr>stat_abnormal := stat_abnormal s + 1\<rparr>)) st)) (\<lambda>st.
     and_then (add_endpoint callee st) (\<lambda>st.
     and_then (need_service (end_service caller) ()) (\<lambda>_.
     need_service (end_service callee)
       (let st = add_boundary onset k caller callee trace st in
        if k = REMOTE_NON_SUCCESS_PROPAGATED then add_propagation onset caller callee trace st else st))))"

definition synchronous_pair ::
  "journal \<Rightarrow> instant option \<Rightarrow> trace_span \<Rightarrow> trace_span \<Rightarrow> propagation_state \<Rightarrow> propagation_state result" where
  "synchronous_pair history onset parent child st =
     (let caller = call_state (classify_outcome parent); callee = call_state (classify_outcome child);
          st = on_stats (\<lambda>s. s\<lparr>stat_client_server := stat_client_server s + 1\<rparr>) st
      in case classify_boundary caller callee of
           None \<Rightarrow>
             Inr (if caller = CALL_SUCCESS \<and> callee = CALL_SUCCESS
                  then on_stats (\<lambda>s. s\<lparr>stat_healthy := stat_healthy s + 1\<rparr>) st
                  else on_stats (\<lambda>s. s\<lparr>stat_no_abnormal := stat_no_abnormal s + 1\<rparr>) st)
         | Some k \<Rightarrow> abnormal_pair onset k (endpoint_of history parent) (endpoint_of history child) (trace_id child) st)"

definition propagation_step ::
  "trace_index \<Rightarrow> journal \<Rightarrow> instant option \<Rightarrow> trace_span \<Rightarrow> propagation_state \<Rightarrow> propagation_state result" where
  "propagation_step i history onset child st =
     (case linked_pair i child of
        None \<Rightarrow> Inr st
      | Some (parent, kind', _) \<Rightarrow>
          (case kind' of
             PAIRED_PRODUCER_CONSUMER \<Rightarrow> Inr (on_stats (\<lambda>s. s\<lparr>stat_async := stat_async s + 1\<rparr>) st)
           | CROSS_SERVICE_PARENT \<Rightarrow> Inr st
           | PAIRED_CLIENT_SERVER \<Rightarrow> synchronous_pair history onset parent child st))"

fun propagation_steps ::
  "trace_index \<Rightarrow> journal \<Rightarrow> instant option \<Rightarrow> trace_span list \<Rightarrow> propagation_state \<Rightarrow> propagation_state result" where
  "propagation_steps i history onset [] st = Inr st"
| "propagation_steps i history onset (c # cs) st =
     and_then (propagation_step i history onset c st) (propagation_steps i history onset cs)"

text \<open>The first document of a key with the times, the count and the values of all its observations.\<close>

definition finish_summary :: "verification_summary \<times> accumulator \<Rightarrow> verification_summary" where
  "finish_summary p =
     (case p of (m, a) \<Rightarrow>
        m\<lparr>summary_since := the (acc_since a), summary_until := the (acc_until a), summary_endpoints := acc_count a,
          summary_evidence := values_of (evidence_values a)\<rparr>)"

definition finish_boundary :: "instant option \<Rightarrow> boundary_summary \<times> accumulator \<Rightarrow> boundary_summary" where
  "finish_boundary onset p =
     (case p of (m, a) \<Rightarrow>
        m\<lparr>boundary_since := the (acc_since a), boundary_until := the (acc_until a),
          boundary_since_onset := after_onset onset (the (acc_since a)),
          boundary_until_onset := after_onset onset (the (acc_until a)), boundary_pairs := acc_count a,
          boundary_evidence := values_of (evidence_values a), boundary_traces := values_of (trace_values a)\<rparr>)"

definition finish_edge :: "instant option \<Rightarrow> propagation_edge \<times> accumulator \<Rightarrow> propagation_edge" where
  "finish_edge onset p =
     (case p of (m, a) \<Rightarrow>
        m\<lparr>first_seen := the (acc_since a), last_seen := the (acc_until a),
          since_onset := after_onset onset (the (acc_since a)), until_onset := after_onset onset (the (acc_until a)),
          observed_pairs := int (acc_count a), edge_evidence := values_of (evidence_values a),
          edge_traces := values_of (trace_values a)\<rparr>)"

section \<open>The view\<close>

record runtime_propagation =
  binding_verifications :: "verification_summary list"
  propagation_boundaries :: "boundary_summary list"
  propagation_edges :: "propagation_edge list"
  propagation_stats :: propagation_stats

definition summary_order :: "verification_summary \<Rightarrow> string list" where
  "summary_order m =
     [summary_service m] @ binding_key (Some (summary_binding m)) @ [verification_value (summary_state m),
       text_or_empty state_value (summary_deployment_state m), text_or_empty basis_text (summary_deployment_basis m),
       text_or_empty state_value (summary_pod_state m), text_or_empty basis_text (summary_pod_basis m)]"

definition outcome_order :: "outcome_triple \<Rightarrow> outcome_triple \<Rightarrow> string list" where
  "outcome_order a b =
     (case (a, b) of ((s, p, c), (s', p', c')) \<Rightarrow>
        [outcome_value s, outcome_value s', protocol_value p, protocol_value p', text_or_empty id c, text_or_empty id c'])"

definition boundary_order :: "boundary_summary \<Rightarrow> string list" where
  "boundary_order m =
     [boundary_caller m, boundary_callee m, boundary_value (boundary_kind m)] @ binding_key (caller_binding m)
     @ binding_key (callee_binding m) @ outcome_order (boundary_caller_outcome m) (boundary_callee_outcome m)"

definition edge_order :: "propagation_edge \<Rightarrow> string list" where
  "edge_order e =
     [source_service e, affected_service e, ''REMOTE_NON_SUCCESS_RETURN''] @ binding_key (source_binding e)
     @ binding_key (affected_binding e) @ outcome_order (source_outcome e) (affected_outcome e)"

definition make_propagation ::
  "verification_summary list \<Rightarrow> boundary_summary list \<Rightarrow> propagation_edge list \<Rightarrow> propagation_stats \<Rightarrow> runtime_propagation" where
  "make_propagation vs bs es stats =
     \<lparr>binding_verifications = sort_key summary_order vs, propagation_boundaries = sort_key boundary_order bs,
      propagation_edges = sort_key edge_order es, propagation_stats = stats\<rparr>"

definition derive_runtime_propagation ::
  "trace_index \<Rightarrow> journal \<Rightarrow> instant option \<Rightarrow> runtime_propagation result" where
  "derive_runtime_propagation i history onset =
     and_then (propagation_steps i history onset (map snd (index_spans i)) (empty_propagation_state (length (index_spans i))))
       (\<lambda>st.
       let vs = map (finish_summary \<circ> snd) (verification_table st); bs = map (finish_boundary onset \<circ> snd) (boundary_table st);
           es = map (finish_edge onset \<circ> snd) (edge_table st)
       in Inr (make_propagation vs bs es ((prop_stats st)\<lparr>stat_verifications := length vs, stat_boundaries := length bs,
                 stat_edges := length es\<rparr>)))"

definition empty_propagation :: runtime_propagation where
  "empty_propagation = make_propagation [] [] [] (empty_stats 0)"

definition propagations_from :: "runtime_propagation \<Rightarrow> string \<Rightarrow> propagation_edge list" where
  "propagations_from p s = filter (\<lambda>e. source_service e = s) (propagation_edges p)"

definition propagations_to :: "runtime_propagation \<Rightarrow> string \<Rightarrow> propagation_edge list" where
  "propagations_to p s = filter (\<lambda>e. affected_service e = s) (propagation_edges p)"

definition boundaries_from_caller :: "runtime_propagation \<Rightarrow> string \<Rightarrow> boundary_summary list" where
  "boundaries_from_caller p s = filter (\<lambda>b. boundary_caller b = s) (propagation_boundaries p)"

definition boundaries_to_callee :: "runtime_propagation \<Rightarrow> string \<Rightarrow> boundary_summary list" where
  "boundaries_to_callee p s = filter (\<lambda>b. boundary_callee b = s) (propagation_boundaries p)"

definition verifications_for_service :: "runtime_propagation \<Rightarrow> string \<Rightarrow> verification_summary list" where
  "verifications_for_service p s = filter (\<lambda>v. summary_service v = s) (binding_verifications p)"

section \<open>Message delivery\<close>

text \<open>A consumer's delivery by a span of another service, between the verified objects of both.\<close>

definition delivery_ends :: "journal \<Rightarrow> trace_span \<Rightarrow> entity_ref list" where
  "delivery_ends history s =
     (case verified_span history s of
        None \<Rightarrow> []
      | Some v \<Rightarrow>
          (case deployment (verified_binding v) of
             Some d \<Rightarrow> if deployment_level v = Some VERIFIED then [bound_object (verified_binding v) ''Deployment'' d] else []
           | None \<Rightarrow> [])
          @ (case (binding_pod (verified_binding v), pod_observation v) of
               (Some p, Some o') \<Rightarrow> if object_state o' = PRESENT then [bound_object (verified_binding v) ''Pod'' p] else []
             | _ \<Rightarrow> []))"

definition delivery_pairs :: "trace_index \<Rightarrow> journal \<Rightarrow> trace_span \<Rightarrow> (relation_edge \<times> string list) list" where
  "delivery_pairs i history consumer =
     (case resolved_parent i consumer of
        None \<Rightarrow> []
      | Some parent \<Rightarrow>
          if normalize_span_kind (span_kind consumer) \<noteq> KIND_CONSUMER \<or> stripped_service parent = stripped_service consumer
             \<or> span_start consumer < span_start parent then []
          else concat (map (\<lambda>s. map (\<lambda>t. (mk_edge s ''delivers_to'' t, [span_evidence parent, span_evidence consumer]))
                 (delivery_ends history consumer)) (delivery_ends history parent)))"

definition with_message_delivery :: "topology \<Rightarrow> trace_index \<Rightarrow> journal \<Rightarrow> topology" where
  "with_message_delivery t i history =
     (let pairs = concat (map (delivery_pairs i history) (map snd (index_spans i))) in
      if pairs = [] then t
      else \<lparr>topo_edges = sort_key edge_key (dedup (topo_edges t @ map fst pairs)), topo_latest = topo_latest t,
            relation_evidence = fold (\<lambda>(k, ids). AList.update k ids) (evidence_of_pairs pairs) (relation_evidence t)\<rparr>)"

end
