(* ===== verification/Runtime_Propagation_Correct.thy ===== *)
theory Runtime_Propagation_Correct
  imports Runtime_Propagation Runtime_Graph_Correct
begin

text \<open>
  What \<open>Runtime_Propagation\<close> derives: a propagation edge stands for exactly the failed calls that look like
  it, seen from the callee that failed to the caller that failed with it, and an object named by a span is
  verified only by a version that was live at the start of that span.
\<close>

section \<open>Tables by key\<close>

text \<open>What a table holds of a key after a list of observations: the first document, and all of them added up.\<close>

definition collected :: "('a \<Rightarrow> string list) \<Rightarrow> ('a \<Rightarrow> 'm) \<Rightarrow> ('a \<Rightarrow> accumulator \<Rightarrow> accumulator) \<Rightarrow> 'a list \<Rightarrow> 'm table" where
  "collected k m f xs = fold (\<lambda>x. collect (k x) (m x) (f x)) xs []"

lemma collected_snoc: "collected k m f (xs @ [x]) = collect (k x) (m x) (f x) (collected k m f xs)"
  by (simp add: collected_def)

lemma collect_map_of:
  "map_of (collect k m f table) k' =
     (if k' = k then Some (case map_of table k of None \<Rightarrow> (m, f empty_accumulator) | Some (m', a) \<Rightarrow> (m', f a))
      else map_of table k')"
  by (auto simp: collect_def map_add_def update_conv' split: option.split)

lemma collect_keys:
  assumes "distinct (map fst table)"
  shows "distinct (map fst (collect k m f table))"
proof (cases "map_of table k")
  case None
  then have "k \<notin> fst ` set table" by (simp add: map_of_eq_None_iff)
  with assms None show ?thesis by (auto simp: collect_def)
next
  case (Some v)
  with assms show ?thesis by (auto simp: collect_def distinct_update split: prod.split)
qed

lemma collected_distinct: "distinct (map fst (collected k m f xs))"
  by (induction xs rule: rev_induct) (simp_all add: collected_snoc collect_keys, simp add: collected_def)

lemma collected_at:
  "map_of (collected k m f xs) key =
     (case filter (\<lambda>x. k x = key) xs of [] \<Rightarrow> None | y # ys \<Rightarrow> Some (m y, fold f (y # ys) empty_accumulator))"
proof (induction xs rule: rev_induct)
  case Nil
  show ?case by (simp add: collected_def)
next
  case (snoc x xs)
  then show ?case by (auto simp: collected_snoc collect_map_of split: list.split)
qed

section \<open>Observations added up\<close>

lemma bounded_insert: "length values \<le> 32 \<Longrightarrow> length (bounded_unique_insert order v values) \<le> 32"
  by (simp add: bounded_unique_insert_def)

lemma insert_values_bound: "length ranked \<le> 32 \<Longrightarrow> length (insert_values t order vs ranked) \<le> 32"
proof -
  have "length ranked \<le> 32 \<Longrightarrow> length (fold (\<lambda>(n, v). bounded_unique_insert (t, order, n) v) ps ranked) \<le> 32" for ps
    by (induction ps arbitrary: ranked) (auto intro: bounded_insert)
  then show "length ranked \<le> 32 \<Longrightarrow> ?thesis" by (simp add: insert_values_def)
qed

definition adds :: "('a \<Rightarrow> instant) \<Rightarrow> 'a list \<Rightarrow> accumulator \<Rightarrow> bool" where
  "adds t xs a \<longleftrightarrow>
     acc_count a = length xs \<and> acc_since a = py_min (map t xs) \<and> acc_until a = py_max (map t xs)
     \<and> length (evidence_values a) \<le> 32 \<and> length (trace_values a) \<le> 32"

lemma adds_empty: "adds t [] empty_accumulator"
  by (simp add: adds_def empty_accumulator_def)

lemma adds_snoc: "adds t xs a \<Longrightarrow> adds t (xs @ [x]) (accumulate (t x) order evidence traces a)"
  by (simp add: adds_def accumulate_def py_min_snoc py_max_snoc insert_values_bound)

lemma adds_fold: "adds t xs (fold (\<lambda>x. accumulate (t x) (order x) (evidence x) (traces x)) xs empty_accumulator)"
  by (induction xs rule: rev_induct) (simp_all add: adds_empty adds_snoc)

section \<open>The failed calls\<close>

definition failed :: "trace_span \<Rightarrow> bool" where
  "failed s \<longleftrightarrow> is_non_success (call_state (classify_outcome s))"

definition failed_call :: "trace_index \<Rightarrow> trace_span \<Rightarrow> span_link option" where
  "failed_call i c =
     Option.bind (parent_of i c) (\<lambda>p.
       if classify_pair p c = Some PAIRED_CLIENT_SERVER \<and> failed p \<and> failed c then Some (p, c) else None)"

definition failed_calls :: "trace_index \<Rightarrow> span_link list" where
  "failed_calls i = List.map_filter (failed_call i) (map snd (index_spans i))"

lemma resolved_parent_eq: "resolved_parent = parent_of"
  by (intro ext) (simp add: resolved_parent_def parent_of_def split: option.split)

lemma classify_propagated:
  "classify_boundary caller callee = Some REMOTE_NON_SUCCESS_PROPAGATED \<longleftrightarrow> is_non_success caller \<and> is_non_success callee"
  by (auto simp: classify_boundary_def is_non_success_def)

text \<open>Key, document and accumulation of the edge of a call.\<close>

definition call_key :: "journal \<Rightarrow> span_link \<Rightarrow> string list" where
  "call_key history l =
     pair_key ''REMOTE_NON_SUCCESS_RETURN'' (endpoint_of history (snd l)) (endpoint_of history (fst l))"

definition call_edge :: "journal \<Rightarrow> instant option \<Rightarrow> span_link \<Rightarrow> propagation_edge" where
  "call_edge history onset l =
     propagation_of onset (endpoint_of history (fst l)) (endpoint_of history (snd l)) (trace_id (snd l))"

definition add_call :: "journal \<Rightarrow> span_link \<Rightarrow> accumulator \<Rightarrow> accumulator" where
  "add_call history l =
     (let caller = endpoint_of history (fst l); callee = endpoint_of history (snd l) in
      accumulate (span_start (snd l)) [end_service callee, end_service caller, end_evidence caller, end_evidence callee]
        (pair_evidence caller callee) [trace_id (snd l)])"

abbreviation edges_of_calls :: "journal \<Rightarrow> instant option \<Rightarrow> span_link list \<Rightarrow> propagation_edge table" where
  "edges_of_calls history onset \<equiv> collected (call_key history) (call_edge history onset) (add_call history)"

lemma on_stats_table [simp]: "edge_table (on_stats f st) = edge_table st"
  by (simp add: on_stats_def)

lemma endpoint_table: "add_endpoint e st = Inr st' \<Longrightarrow> edge_table st' = edge_table st"
  by (auto simp: add_endpoint_def need_service_def split: option.splits if_splits)

lemma abnormal_table:
  assumes "abnormal_pair onset k (endpoint_of history p) (endpoint_of history c) (trace_id c) st = Inr st'"
    and "edge_table st = edges_of_calls history onset ls"
  shows "edge_table st' = edges_of_calls history onset (ls @ (if k = REMOTE_NON_SUCCESS_PROPAGATED then [(p, c)] else []))"
  using assms endpoint_table
  by (auto simp: abnormal_pair_def and_then_Inr need_service_def Let_def add_boundary_def add_propagation_def collected_snoc
      call_key_def call_edge_def add_call_def endpoint_of_def split: if_splits)

definition kept_calls :: "trace_index \<Rightarrow> trace_span list \<Rightarrow> span_link list" where
  "kept_calls i cs = List.map_filter (failed_call i) cs"

lemma linked_pair_parent:
  "linked_pair i c = Some (p, v, c') \<longleftrightarrow> c' = c \<and> parent_of i c = Some p \<and> classify_pair p c = Some v"
  by (auto simp: linked_pair_def resolved_parent_eq split: option.splits)

lemma linked_pair_None:
  "linked_pair i c = None \<longleftrightarrow> parent_of i c = None \<or> (\<exists>p. parent_of i c = Some p \<and> classify_pair p c = None)"
  by (auto simp: linked_pair_def resolved_parent_eq split: option.splits)

lemma step_table:
  assumes step: "propagation_step i history onset c st = Inr st'" and ok: "edge_table st = edges_of_calls history onset (kept_calls i cs)"
  shows "edge_table st' = edges_of_calls history onset (kept_calls i (cs @ [c]))"
proof (cases "linked_pair i c")
  case None
  then have "failed_call i c = None" by (auto simp: linked_pair_None failed_call_def)
  with None assms show ?thesis by (auto simp: propagation_step_def kept_calls_def List.map_filter_def)
next
  case (Some l)
  obtain p v where l: "l = (p, v, c)" and p: "parent_of i c = Some p" "classify_pair p c = Some v"
    using Some linked_pair_parent by (metis prod_cases3)
  show ?thesis
  proof (cases "v = PAIRED_CLIENT_SERVER")
    case False
    then have "failed_call i c = None" using p by (simp add: failed_call_def)
    moreover have "edge_table st' = edge_table st"
      using step Some l False by (cases v) (auto simp: propagation_step_def)
    ultimately show ?thesis using ok by (simp add: kept_calls_def List.map_filter_def)
  next
    case True
    let ?b = "classify_boundary (call_state (classify_outcome p)) (call_state (classify_outcome c))"
    let ?st = "on_stats (\<lambda>s. s\<lparr>stat_client_server := stat_client_server s + 1\<rparr>) st"
    have call: "failed_call i c = (if ?b = Some REMOTE_NON_SUCCESS_PROPAGATED then Some (p, c) else None)"
      using p True by (simp add: failed_call_def failed_def classify_propagated)
    have sync: "synchronous_pair history onset p c st = Inr st'"
      using step Some l True by (simp add: propagation_step_def)
    show ?thesis
    proof (cases ?b)
      case None
      then show ?thesis using sync ok call by (auto simp: synchronous_pair_def Let_def kept_calls_def List.map_filter_def)
    next
      case (Some k)
      then have "abnormal_pair onset k (endpoint_of history p) (endpoint_of history c) (trace_id c) ?st = Inr st'"
        using sync by (simp add: synchronous_pair_def Let_def)
      from abnormal_table [OF this] show ?thesis
        using ok call Some by (auto simp: kept_calls_def List.map_filter_def)
    qed
  qed
qed

lemma steps_table:
  "propagation_steps i history onset cs st = Inr st' \<Longrightarrow> edge_table st = edges_of_calls history onset (kept_calls i seen) \<Longrightarrow>
     edge_table st' = edges_of_calls history onset (kept_calls i (seen @ cs))"
proof (induction cs arbitrary: st seen)
  case (Cons c cs)
  then obtain m where "propagation_step i history onset c st = Inr m" "propagation_steps i history onset cs m = Inr st'"
    by auto
  with Cons.IH [OF _ step_table [OF _ Cons.prems(2)]] show ?case by simp
qed simp

text \<open>The edges of a view are the finished rows of that table.\<close>

lemma derived_edges:
  assumes "derive_runtime_propagation i history onset = Inr p"
  shows "set (propagation_edges p) = (finish_edge onset \<circ> snd) ` set (edges_of_calls history onset (failed_calls i))"
proof -
  obtain st where st: "propagation_steps i history onset (map snd (index_spans i)) (empty_propagation_state (length (index_spans i))) = Inr st"
    and p: "set (propagation_edges p) = (finish_edge onset \<circ> snd) ` set (edge_table st)"
    using assms by (auto simp: derive_runtime_propagation_def Let_def make_propagation_def)
  have "edge_table st = edges_of_calls history onset (failed_calls i)"
    using steps_table [OF st, of "[]"]
    by (simp add: empty_propagation_state_def kept_calls_def failed_calls_def collected_def List.map_filter_def)
  with p show ?thesis by simp
qed

section \<open>What an edge stands for\<close>

text \<open>The calls with the key of a call: same services, objects, verifications and outcomes.\<close>

definition calls_like :: "journal \<Rightarrow> span_link \<Rightarrow> span_link list \<Rightarrow> span_link list" where
  "calls_like history l ls = filter (\<lambda>m. call_key history m = call_key history l) ls"

text \<open>An edge adds calls up: their number, the first and the last, and at most 32 of what they cite.\<close>

definition sums_calls :: "span_link list \<Rightarrow> propagation_edge \<Rightarrow> bool" where
  "sums_calls ls e \<longleftrightarrow>
     observed_pairs e = int (length ls) \<and> py_min (calls_at ls) = Some (first_seen e) \<and> py_max (calls_at ls) = Some (last_seen e)
     \<and> length (edge_evidence e) \<le> 32 \<and> length (edge_traces e) \<le> 32"

text \<open>An edge runs from the callee of a call to its caller, with what was known of both at their starts.\<close>

definition shows_call :: "journal \<Rightarrow> span_link \<Rightarrow> propagation_edge \<Rightarrow> bool" where
  "shows_call history l e \<longleftrightarrow>
     source_service e = stripped_service (snd l) \<and> affected_service e = stripped_service (fst l)
     \<and> source_binding e = kubernetes_binding (snd l) \<and> affected_binding e = kubernetes_binding (fst l)
     \<and> source_deployment_verification e = Option.bind (verified_span history (snd l)) deployment_level
     \<and> source_pod_verification e = Option.bind (verified_span history (snd l)) pod_level
     \<and> affected_deployment_verification e = Option.bind (verified_span history (fst l)) deployment_level
     \<and> affected_pod_verification e = Option.bind (verified_span history (fst l)) pod_level
     \<and> is_non_success (fst (source_outcome e)) \<and> is_non_success (fst (affected_outcome e))"

lemma row_of_call:
  assumes "(k, m, a) \<in> set (edges_of_calls history onset ls)"
  obtains l where "l \<in> set ls" "k = call_key history l" "m = call_edge history onset l"
    "adds (span_start \<circ> snd) (calls_like history l ls) a"
proof -
  have at: "map_of (edges_of_calls history onset ls) k = Some (m, a)"
    using assms collected_distinct by (metis map_of_eq_Some_iff)
  then obtain l ms where l: "filter (\<lambda>x. call_key history x = k) ls = l # ms" and m: "m = call_edge history onset l"
    and a: "a = fold (add_call history) (l # ms) empty_accumulator"
    by (auto simp: collected_at split: list.splits)
  have "l \<in> set ls" "call_key history l = k"
    using arg_cong [OF l, of set] by auto
  moreover have "adds (span_start \<circ> snd) (l # ms) a"
    using adds_fold [of "span_start \<circ> snd" "l # ms"] unfolding a add_call_def Let_def comp_def .
  ultimately show thesis using that l m by (simp add: calls_like_def)
qed

lemma row_exists:
  assumes "l \<in> set ls"
  obtains m a where "(call_key history l, m, a) \<in> set (edges_of_calls history onset ls)"
proof -
  have "filter (\<lambda>x. call_key history x = call_key history l) ls \<noteq> []" using assms by (auto simp: filter_empty_conv)
  then have "map_of (edges_of_calls history onset ls) (call_key history l) \<noteq> None" by (auto simp: collected_at split: list.split)
  then show thesis using that by (auto dest: map_of_SomeD)
qed

lemma failed_call_Some:
  "failed_call i c = Some l \<longleftrightarrow>
     snd l = c \<and> parent_of i c = Some (fst l) \<and> classify_pair (fst l) c = Some PAIRED_CLIENT_SERVER \<and> failed (fst l) \<and> failed c"
  by (cases "parent_of i c") (auto simp: failed_call_def)

lemma failed_calls_fail:
  assumes "l \<in> set (failed_calls i)"
  shows "failed (fst l) \<and> failed (snd l) \<and> stripped_service (fst l) \<noteq> stripped_service (snd l)"
proof -
  obtain c where "failed_call i c = Some l" using assms by (auto simp: failed_calls_def List.map_filter_def)
  moreover from this have "classify_pair (fst l) (snd l) \<noteq> None" by (simp add: failed_call_Some)
  ultimately show ?thesis unfolding classify_None by (simp add: failed_call_Some)
qed

lemma finished_row:
  assumes "(k, m, a) \<in> set (edges_of_calls history onset (failed_calls i))"
  obtains l where "l \<in> set (failed_calls i)" "k = call_key history l" "shows_call history l (finish_edge onset (m, a))"
    "sums_calls (calls_like history l (failed_calls i)) (finish_edge onset (m, a))"
proof -
  obtain l where l: "l \<in> set (failed_calls i)" "k = call_key history l" "m = call_edge history onset l"
    and a: "adds (span_start \<circ> snd) (calls_like history l (failed_calls i)) a"
    by (rule row_of_call [OF assms])
  have "calls_at (calls_like history l (failed_calls i)) \<noteq> []"
    using l(1) by (auto simp: calls_at_def calls_like_def filter_empty_conv)
  then have "acc_since a \<noteq> None" "acc_until a \<noteq> None" using a by (simp_all add: adds_def calls_at_def)
  then have "sums_calls (calls_like history l (failed_calls i)) (finish_edge onset (m, a))"
    using a by (auto simp: sums_calls_def finish_edge_def adds_def calls_at_def values_of_def)
  moreover have "shows_call history l (finish_edge onset (m, a))"
    using failed_calls_fail [OF l(1)]
    by (simp add: shows_call_def finish_edge_def l(3) call_edge_def propagation_of_def endpoint_of_def end_deployment_level_def
        end_pod_level_def outcome_parts_def failed_def)
  ultimately show thesis using that l by blast
qed

lemma shown_edge_valid:
  assumes "l \<in> set (failed_calls i)" "shows_call history l e" "sums_calls ls e"
  shows "edge_valid (edge.truncate e)"
proof -
  have "ls \<noteq> []" using assms(3) by (auto simp: sums_calls_def calls_at_def)
  then have "observed_pairs e > 0" using assms(3) by (simp add: sums_calls_def)
  moreover have "first_seen e \<le> last_seen e"
    using assms(3) by (auto simp: sums_calls_def py_min_Some py_max_Some)
  ultimately show ?thesis
    using failed_calls_fail [OF assms(1)] not_sym assms(2,3)
    by (auto simp: edge_valid_def edge.defs shows_call_def sums_calls_def)
qed

text \<open>
  C21: A propagation edge stands for the failed calls that look like it, and every failed call has one. Of every
  edge that is derived there is a client-server call whose both ends did not succeed, the edge runs from the callee to
  its caller with the objects and verifications of these spans, and it counts, and spans the times of, exactly the
  failed calls of that kind; each failed call is counted by such an edge. The edges satisfy what the causal
  roles assume of them.
\<close>

theorem propagations_are_failed_calls:
  assumes derived: "derive_runtime_propagation i history onset = Inr p"
  shows "(\<forall>e\<in>set (propagation_edges p). edge_valid (edge.truncate e) \<and>
      (\<exists>l\<in>set (failed_calls i). shows_call history l e \<and> sums_calls (calls_like history l (failed_calls i)) e))
    \<and> (\<forall>l\<in>set (failed_calls i). \<exists>e\<in>set (propagation_edges p). sums_calls (calls_like history l (failed_calls i)) e)"
proof (intro conjI ballI)
  fix e assume "e \<in> set (propagation_edges p)"
  then obtain k m a where e: "e = finish_edge onset (m, a)"
    and row: "(k, m, a) \<in> set (edges_of_calls history onset (failed_calls i))"
    unfolding derived_edges [OF derived] by auto
  obtain l where l: "l \<in> set (failed_calls i)" "shows_call history l e" "sums_calls (calls_like history l (failed_calls i)) e"
    using finished_row [OF row] unfolding e by metis
  then show "edge_valid (edge.truncate e)" by (rule shown_edge_valid)
  show "\<exists>l\<in>set (failed_calls i). shows_call history l e \<and> sums_calls (calls_like history l (failed_calls i)) e"
    using l by blast
next
  fix l assume "l \<in> set (failed_calls i)"
  then obtain m a where row: "(call_key history l, m, a) \<in> set (edges_of_calls history onset (failed_calls i))"
    by (rule row_exists)
  then obtain l' where "call_key history l' = call_key history l"
    "sums_calls (calls_like history l' (failed_calls i)) (finish_edge onset (m, a))"
    using finished_row by metis
  then have "sums_calls (calls_like history l (failed_calls i)) (finish_edge onset (m, a))" by (simp add: calls_like_def)
  then show "\<exists>e\<in>set (propagation_edges p). sums_calls (calls_like history l (failed_calls i)) e"
    unfolding derived_edges [OF derived] using row by force
qed

section \<open>Verified objects\<close>

definition latest_known :: "journal \<Rightarrow> entity_ref \<Rightarrow> instant \<Rightarrow> object_version \<Rightarrow> bool" where
  "latest_known history e t v \<longleftrightarrow>
     v \<in> set (versions_of history e) \<and> observed_at v \<le> t
     \<and> (\<forall>w\<in>set (versions_of history e). observed_at w \<le> t \<longrightarrow>
          (observed_at w, evidence_id w) \<le> (observed_at v, evidence_id v))"

lemma known_versions:
  "set (versions_known_at history e t) = {v \<in> set (versions_of history e). observed_at v \<le> t}"
  by (auto simp: versions_known_at_def versions_in_order_def versions_of_def)

lemma last_known:
  assumes "versions_known_at history e t \<noteq> []"
  shows "latest_known history e t (last (versions_known_at history e t))"
proof -
  let ?key = "\<lambda>v. (observed_at v, evidence_id v)"
  have "sorted (map ?key (versions_known_at history e t))"
    unfolding versions_known_at_def versions_in_order_def by (rule sorted_filter) simp
  then have "\<forall>w\<in>set (versions_known_at history e t). ?key w \<le> ?key (last (versions_known_at history e t))"
    using sorted_map_last [of ?key "versions_known_at history e t"] by blast
  moreover have "last (versions_known_at history e t) \<in> set (versions_known_at history e t)" using assms by simp
  ultimately show ?thesis unfolding latest_known_def known_versions by blast
qed

lemma observed_present:
  "object_state (observed_state history e t) = PRESENT \<longleftrightarrow>
     versions_known_at history e t \<noteq> [] \<and> lifecycle (last (versions_known_at history e t)) \<noteq> DELETED"
proof (cases "versions_in_order history e")
  case Nil
  then show ?thesis by (simp add: observed_state_def versions_known_at_def)
next
  case (Cons v vs)
  then show ?thesis by (simp add: observed_state_def Let_def)
qed

lemma verified_deployment:
  "deployment_level (verify_binding b t history) = Some VERIFIED \<longleftrightarrow>
     (\<exists>d. deployment b = Some d \<and> object_state (observed_state history (bound_object b ''Deployment'' d) t) = PRESENT)"
proof -
  have "state_verification o' = VERIFIED \<longleftrightarrow> o' = PRESENT" for o' by (cases o') simp_all
  then show ?thesis by (auto simp: verify_binding_def Let_def)
qed

text \<open>The deletions of the Pod instance that a binding names.\<close>

definition deletions_known :: "journal \<Rightarrow> binding \<Rightarrow> instant \<Rightarrow> object_version set" where
  "deletions_known history b t =
     {w. \<exists>p u. binding_pod b = Some p \<and> binding_pod_uid b = Some u \<and> w \<in> set (versions_of history (bound_object b ''Pod'' p))
        \<and> observed_at w \<le> t \<and> version_uid w = Some u \<and> lifecycle w = DELETED}"

lemma contradicted_pod:
  "pod_level (verify_binding b t history) = Some CONTRADICTED \<longleftrightarrow> deletions_known history b t \<noteq> {}"
  by (auto simp: verify_binding_def Let_def verify_pod_instance_def deletions_known_def list_ex_iff known_versions
      split: option.split)

lemma verified_pod:
  assumes "pod_level (verify_binding b t history) = Some VERIFIED"
  obtains p u where "binding_pod b = Some p" "binding_pod_uid b = Some u" "deletions_known history b t = {}"
    "versions_known_at history (bound_object b ''Pod'' p) t \<noteq> []"
    "lifecycle (last (versions_known_at history (bound_object b ''Pod'' p) t)) \<noteq> DELETED"
    "version_uid (last (versions_known_at history (bound_object b ''Pod'' p) t)) = Some u"
proof -
  have "deletions_known history b t = {}" using assms contradicted_pod [of b t history] by auto
  with assms that show thesis
    by (auto simp: verify_binding_def Let_def verify_pod_instance_def split: option.splits if_splits)
qed

text \<open>
  C22: An object is verified only by a version that was live. A Deployment that a span names is verified
  only when a last version of it was known at the span's start and was not a deletion; a Pod only when the last
  known version was not a deletion, has the UID that the span names, and no deletion of that UID was known; and a
  Pod is contradicted exactly when a deletion of that very UID was known.
\<close>

theorem verified_object_was_live:
  "(deployment_level (verify_binding b t history) = Some VERIFIED \<longrightarrow>
      (\<exists>d v. deployment b = Some d \<and> latest_known history (bound_object b ''Deployment'' d) t v \<and> lifecycle v \<noteq> DELETED))
   \<and> (pod_level (verify_binding b t history) = Some VERIFIED \<longrightarrow>
      (\<exists>p v. binding_pod b = Some p \<and> latest_known history (bound_object b ''Pod'' p) t v \<and> lifecycle v \<noteq> DELETED
         \<and> version_uid v = binding_pod_uid b \<and> binding_pod_uid b \<noteq> None \<and> deletions_known history b t = {}))
   \<and> (pod_level (verify_binding b t history) = Some CONTRADICTED \<longleftrightarrow> deletions_known history b t \<noteq> {})"
  using last_known verified_pod [of b t history]
  by (auto simp: contradicted_pod verified_deployment observed_present) metis+

section \<open>A sample failure\<close>

definition failing_span :: "string \<Rightarrow> string option \<Rightarrow> string \<Rightarrow> string \<Rightarrow> instant \<Rightarrow> (string \<times> string) list \<Rightarrow> string \<Rightarrow> trace_span" where
  "failing_span i parent service k t attributes evidence =
     \<lparr>trace_id = ''t'', span_id = i, parent_span_id = parent, span_service = service, span_kind = Some k,
      span_start = t, span_end = None, span_status = SPAN_ERROR, span_attributes = attributes, span_evidence = evidence\<rparr>"

definition pod_attributes :: "(string \<times> string) list" where
  "pod_attributes = [(''k8s.namespace.name'', ''ns''), (''k8s.pod.name'', ''b-1''), (''k8s.pod.uid'', ''u1'')]"

text \<open>Two failed calls from a to b in one Pod, and a call to c that no span of c reports as failed.\<close>

definition failing_spans :: "trace_span list" where
  "failing_spans =
     [failing_span ''1'' None ''a'' ''client'' 0 [] ''e1'',
      failing_span ''2'' (Some ''1'') ''b'' ''server'' 7 pod_attributes ''e2'',
      failing_span ''3'' (Some ''1'') ''b'' ''server'' 4 pod_attributes ''e3'',
      (failing_span ''4'' (Some ''1'') ''c'' ''server'' 2 [] ''e4'')\<lparr>span_status := SPAN_OK\<rparr>]"

definition called_pod :: entity_ref where
  "called_pod = \<lparr>kind = ''Pod'', name = ''b-1'', namespace = ''ns''\<rparr>"

definition pod_journal :: journal where
  "pod_journal =
     [(called_pod,
       [\<lparr>version_entity = called_pod, version_uid = Some ''u1'', observed_at = 1, body = [], evidence_id = ''v1'', lifecycle = CREATED\<rparr>])]"

definition failing_view :: runtime_propagation where
  "failing_view = (case derive_runtime_propagation (canonicalize_spans failing_spans) pod_journal (Some 3) of
     Inl _ \<Rightarrow> empty_propagation | Inr p \<Rightarrow> p)"

lemma failing_view_derived: "derive_runtime_propagation (canonicalize_spans failing_spans) pod_journal (Some 3) = Inr failing_view"
  by code_simp

lemma failing_view_edges:
  "map (\<lambda>e. (source_service e, affected_service e, source_pod_verification e, observed_pairs e, since_onset e, edge_evidence e))
     (propagation_edges failing_view) = [(''b'', ''a'', Some VERIFIED, 2, Some 1, [''e3'', ''e1'', ''e2'', ''v1''])]"
  by code_simp

theorem propagations_are_failed_calls_witness:
  "\<exists>l. l \<in> set (failed_calls (canonicalize_spans failing_spans)) \<and> stripped_service (snd l) = ''b''
     \<and> length (calls_like pod_journal l (failed_calls (canonicalize_spans failing_spans))) = 2"
proof -
  obtain e where e: "propagation_edges failing_view = [e]" "source_service e = ''b''" "observed_pairs e = 2"
    using failing_view_edges by (auto simp: map_eq_Cons_conv)
  then obtain l where "l \<in> set (failed_calls (canonicalize_spans failing_spans))" "shows_call pod_journal l e"
    "sums_calls (calls_like pod_journal l (failed_calls (canonicalize_spans failing_spans))) e"
    using propagations_are_failed_calls [OF failing_view_derived] by auto
  with e show ?thesis by (intro exI [of _ l]) (simp add: shows_call_def sums_calls_def)
qed

definition called_binding :: binding where
  "called_binding = \<lparr>binding_namespace = ''ns'', deployment = None, binding_pod = Some ''b-1'', binding_pod_uid = Some ''u1''\<rparr>"

lemma called_verified: "pod_level (verify_binding called_binding 7 pod_journal) = Some VERIFIED"
  by code_simp

theorem verified_object_was_live_witness:
  "\<exists>v. latest_known pod_journal (bound_object called_binding ''Pod'' ''b-1'') 7 v \<and> version_uid v = Some ''u1''"
proof -
  have "binding_pod called_binding = Some ''b-1''" "binding_pod_uid called_binding = Some ''u1''"
    by (simp_all add: called_binding_def)
  then show ?thesis
    using verified_object_was_live [of called_binding 7 pod_journal] called_verified by auto
qed

text \<open>A span that ends before it starts makes the derivation of call facts fail.\<close>

definition backward_spans :: "trace_span list" where
  "backward_spans =
     [failing_span ''1'' None ''a'' ''client'' 3 [] ''e1'',
      (failing_span ''2'' (Some ''1'') ''b'' ''server'' 4 [] ''e2'')\<lparr>span_end := Some 2\<rparr>]"

lemma backward_span_raises: "call_facts backward_spans = Inl (ValueError ''trace span end must not precede start'')"
  by code_simp

end
