(* ===== verification/Alert_Coverage.thy ===== *)
theory Alert_Coverage
  imports Prelude
begin

text \<open>
  Alert-channel observation coverage (\<open>packages/rca/alert_coverage.py\<close>) and its repository
  (\<open>AlertCoverageRepository\<close> of \<open>packages/storage/repositories.py\<close>): polls of Alertmanager are
  recorded as coverage segments, an explicit failure or too long a gap ends a segment, and a run
  boundary freezes the contiguous segment it lies in. The division of two durations is exact here
  (Python's is a float); \<open>isoformat\<close> and \<open>fromisoformat\<close> (restricted to aware datetimes) are
  arguments of the payload functions.
\<close>

section \<open>Configuration and boundary\<close>

record coverage_config =
  poll_interval :: duration
  max_gap_polls :: int

definition make_config :: "duration \<Rightarrow> int \<Rightarrow> coverage_config result" where
  "make_config interval gap =
     (if interval \<le> 0 then Inl (ValueError ''the alert coverage poll interval must be positive'')
      else if gap < 1 then Inl (ValueError ''the alert coverage gap must allow at least one polling slot'')
      else Inr \<lparr>poll_interval = interval, max_gap_polls = gap\<rparr>)"

text \<open>\<open>floor(d / p + 0.5)\<close> slots.\<close>

definition continues :: "coverage_config \<Rightarrow> instant \<Rightarrow> instant \<Rightarrow> bool" where
  "continues cfg heard now \<longleftrightarrow>
     (2 * (now - heard) + poll_interval cfg) div (2 * poll_interval cfg) \<le> max_gap_polls cfg"

datatype coverage_status = CONTIGUOUS | UNAVAILABLE

fun coverage_status_value :: "coverage_status \<Rightarrow> string" where
  "coverage_status_value CONTIGUOUS = ''CONTIGUOUS''"
| "coverage_status_value UNAVAILABLE = ''UNAVAILABLE''"

record coverage_boundary =
  boundary_status :: string
  boundary_segment :: "int option"
  observation_start :: "instant option"
  last_success :: "instant option"

definition make_boundary ::
  "string \<Rightarrow> int option \<Rightarrow> instant option \<Rightarrow> instant option \<Rightarrow> coverage_boundary result" where
  "make_boundary st seg w l =
     (if st = coverage_status_value CONTIGUOUS
      then if seg = None \<or> w = None \<or> l = None
           then Inl (ValueError ''contiguous coverage needs a segment and W'')
           else Inr \<lparr>boundary_status = st, boundary_segment = seg, observation_start = w, last_success = l\<rparr>
      else if st = coverage_status_value UNAVAILABLE
      then if seg \<noteq> None \<or> w \<noteq> None \<or> l \<noteq> None
           then Inl (ValueError ''unavailable coverage carries no segment'')
           else Inr \<lparr>boundary_status = st, boundary_segment = seg, observation_start = w, last_success = l\<rparr>
      else Inl (ValueError ''unknown alert coverage status''))"

definition UNAVAILABLE_COVERAGE :: coverage_boundary where
  "UNAVAILABLE_COVERAGE =
     \<lparr>boundary_status = coverage_status_value UNAVAILABLE, boundary_segment = None,
      observation_start = None, last_success = None\<rparr>"

definition alert_observation_start :: "coverage_boundary \<Rightarrow> instant option" where
  "alert_observation_start b =
     (if boundary_status b = coverage_status_value CONTIGUOUS then observation_start b else None)"

definition iso_json :: "(instant \<Rightarrow> string) \<Rightarrow> instant option \<Rightarrow> json" where
  "iso_json isoformat t = (case t of None \<Rightarrow> JNull | Some t \<Rightarrow> JStr (isoformat t))"

definition boundary_to_payload :: "(instant \<Rightarrow> string) \<Rightarrow> coverage_boundary \<Rightarrow> json" where
  "boundary_to_payload isoformat b =
     JDict [(''status'', JStr (boundary_status b)),
            (''segment_id'', case boundary_segment b of None \<Rightarrow> JNull | Some n \<Rightarrow> JInt n),
            (''observation_start'', iso_json isoformat (observation_start b)),
            (''last_success'', iso_json isoformat (last_success b))]"

definition parse_iso_json :: "(string \<Rightarrow> instant option) \<Rightarrow> json \<Rightarrow> instant option result" where
  "parse_iso_json fromisoformat v =
     (case v of
        JNull \<Rightarrow> Inr None
      | JStr s \<Rightarrow> (case fromisoformat s of
                    None \<Rightarrow> Inl (ValueError ''alert coverage time'')
                  | Some t \<Rightarrow> Inr (Some t))
      | _ \<Rightarrow> Inl (ValueError ''alert coverage time''))"

definition parse_segment_json :: "json \<Rightarrow> int option result" where
  "parse_segment_json v =
     (case v of JNull \<Rightarrow> Inr None | JInt n \<Rightarrow> Inr (Some n)
      | _ \<Rightarrow> Inl (ValueError ''alert coverage segment id''))"

definition parse_status_json :: "json \<Rightarrow> string result" where
  "parse_status_json v = (case v of JStr s \<Rightarrow> Inr s | _ \<Rightarrow> Inl (ValueError ''alert coverage status''))"

definition boundary_from_payload :: "(string \<Rightarrow> instant option) \<Rightarrow> json \<Rightarrow> coverage_boundary result" where
  "boundary_from_payload fromisoformat v =
     (case v of
        JDict d \<Rightarrow>
          if set (map fst d) \<noteq> {''status'', ''segment_id'', ''observation_start'', ''last_success''}
          then Inl (ValueError ''alert coverage boundary'')
          else
            and_then (and_then (get_key ''segment_id'' d) parse_segment_json) (\<lambda>seg.
            and_then (and_then (get_key ''status'' d) parse_status_json) (\<lambda>st.
            and_then (and_then (get_key ''observation_start'' d) (parse_iso_json fromisoformat)) (\<lambda>w.
            and_then (and_then (get_key ''last_success'' d) (parse_iso_json fromisoformat)) (\<lambda>l.
              make_boundary st seg w l))))
      | _ \<Rightarrow> Inl (ValueError ''alert coverage boundary''))"

section \<open>Segments\<close>

datatype segment_status = SEGMENT_OPEN | BROKEN_GAP | CLOSED_FAILURE

record segment =
  segment_id :: int
  segment_source :: string
  started_at :: instant
  last_success_at :: instant
  ended_at :: "instant option"
  segment_status :: segment_status

record poll_row =
  poll_source :: string
  poll_segment :: "int option"
  attempted_at :: instant
  completed_at :: instant
  success :: bool
  error_type :: "string option"
  active_alerts :: "nat option"

record coverage_store =
  segments :: "segment list"
  polls :: "poll_row list"
  next_segment :: int

definition open_segment :: "string \<Rightarrow> coverage_store \<Rightarrow> segment option" where
  "open_segment src st =
     max_by segment_id
       (filter (\<lambda>s. segment_source s = src \<and> segment_status s = SEGMENT_OPEN) (segments st))"

definition update_segment :: "int \<Rightarrow> (segment \<Rightarrow> segment) \<Rightarrow> coverage_store \<Rightarrow> coverage_store" where
  "update_segment k f st = st\<lparr>segments := map (\<lambda>s. if segment_id s = k then f s else s) (segments st)\<rparr>"

definition end_segment :: "segment_status \<Rightarrow> segment \<Rightarrow> segment" where
  "end_segment status s = s\<lparr>segment_status := status, ended_at := Some (last_success_at s)\<rparr>"

definition add_poll :: "poll_row \<Rightarrow> coverage_store \<Rightarrow> coverage_store" where
  "add_poll p st = st\<lparr>polls := polls st @ [p]\<rparr>"

text \<open>The part of \<open>record_success\<close> that chooses the segment: extended, or broken and begun anew.\<close>

definition begin_segment :: "string \<Rightarrow> instant \<Rightarrow> coverage_store \<Rightarrow> int \<times> coverage_store" where
  "begin_segment src completed st =
     (next_segment st,
      st\<lparr>segments := segments st @
           [\<lparr>segment_id = next_segment st, segment_source = src, started_at = completed,
             last_success_at = completed, ended_at = None, segment_status = SEGMENT_OPEN\<rparr>],
         next_segment := next_segment st + 1\<rparr>)"

definition extend_or_begin ::
  "coverage_config \<Rightarrow> string \<Rightarrow> instant \<Rightarrow> coverage_store \<Rightarrow> int \<times> coverage_store" where
  "extend_or_begin cfg src completed st =
     (case open_segment src st of
        None \<Rightarrow> begin_segment src completed st
      | Some s \<Rightarrow>
          if continues cfg (last_success_at s) completed
          then (segment_id s, update_segment (segment_id s) (\<lambda>r. r\<lparr>last_success_at := completed\<rparr>) st)
          else begin_segment src completed (update_segment (segment_id s) (end_segment BROKEN_GAP) st))"

definition record_success ::
  "coverage_config \<Rightarrow> string \<Rightarrow> instant \<Rightarrow> instant \<Rightarrow> nat \<Rightarrow> coverage_store \<Rightarrow> int \<times> coverage_store" where
  "record_success cfg src attempted completed active st =
     (case extend_or_begin cfg src completed st of
        (sid, st') \<Rightarrow>
          (sid, add_poll \<lparr>poll_source = src, poll_segment = Some sid, attempted_at = attempted,
                   completed_at = completed, success = True, error_type = None,
                   active_alerts = Some active\<rparr> st'))"

definition record_failure ::
  "string \<Rightarrow> instant \<Rightarrow> instant \<Rightarrow> string \<Rightarrow> coverage_store \<Rightarrow> coverage_store" where
  "record_failure src attempted completed err st =
     add_poll \<lparr>poll_source = src, poll_segment = None, attempted_at = attempted,
         completed_at = completed, success = False, error_type = Some err, active_alerts = None\<rparr>
       (case open_segment src st of
          None \<Rightarrow> st
        | Some s \<Rightarrow> update_segment (segment_id s) (end_segment CLOSED_FAILURE) st)"

definition boundary_at :: "string \<Rightarrow> instant \<Rightarrow> coverage_config \<Rightarrow> coverage_store \<Rightarrow> coverage_boundary" where
  "boundary_at src at cfg st =
     (case max_by (\<lambda>s. (started_at s, segment_id s))
             (filter (\<lambda>s. segment_source s = src \<and> started_at s \<le> at) (segments st)) of
        None \<Rightarrow> UNAVAILABLE_COVERAGE
      | Some s \<Rightarrow>
          if at \<le> last_success_at s
             \<or> (segment_status s = SEGMENT_OPEN \<and> continues cfg (last_success_at s) at)
          then \<lparr>boundary_status = coverage_status_value CONTIGUOUS,
                boundary_segment = Some (segment_id s), observation_start = Some (started_at s),
                last_success = Some (last_success_at s)\<rparr>
          else UNAVAILABLE_COVERAGE)"

section \<open>The poller\<close>

definition ALERT_COVERAGE_SOURCE :: string where
  "ALERT_COVERAGE_SOURCE = ''alertmanager''"

text \<open>What the reader saw: an \<open>AlertmanagerError\<close> by its type name, or the number of alerts.\<close>

datatype poll_result = Poll_Error string | Poll_Count nat

record poll_outcome =
  outcome_success :: bool
  outcome_segment :: "int option"
  outcome_error :: "string option"

definition poll_once ::
  "coverage_config \<Rightarrow> poll_result \<Rightarrow> instant \<Rightarrow> instant \<Rightarrow> coverage_store \<Rightarrow> poll_outcome \<times> coverage_store"
where
  "poll_once cfg res attempted completed st =
     (case res of
        Poll_Error err \<Rightarrow>
          (\<lparr>outcome_success = False, outcome_segment = None, outcome_error = Some err\<rparr>,
           record_failure ALERT_COVERAGE_SOURCE attempted completed err st)
      | Poll_Count n \<Rightarrow>
          (case record_success cfg ALERT_COVERAGE_SOURCE attempted completed n st of
             (sid, st') \<Rightarrow>
               (\<lparr>outcome_success = True, outcome_segment = Some sid, outcome_error = None\<rparr>, st')))"

text \<open>The poller's history: the results it got, with the clock's readings.\<close>

fun poll_all ::
  "coverage_config \<Rightarrow> (poll_result \<times> instant \<times> instant) list \<Rightarrow> coverage_store \<Rightarrow> coverage_store" where
  "poll_all cfg [] st = st"
| "poll_all cfg ((res, attempted, completed) # es) st =
     poll_all cfg es (snd (poll_once cfg res attempted completed st))"

definition no_coverage :: coverage_store where
  "no_coverage = \<lparr>segments = [], polls = [], next_segment = 1\<rparr>"

end
