(* ===== verification/Alert_Coverage_Correct.thy ===== *)
theory Alert_Coverage_Correct
  imports Alert_Coverage
begin

text \<open>
  What a frozen coverage boundary is worth: for any history of polls whose clock does not run
  backwards, contiguous coverage \<open>[W, at]\<close> means that every poll in between succeeded and that at
  every instant the last success is within the polling tolerance.
\<close>

section \<open>The tolerance\<close>

lemma continues_refl: "poll_interval cfg > 0 \<Longrightarrow> max_gap_polls cfg \<ge> 1 \<Longrightarrow> continues cfg t t"
  by (simp add: continues_def)

lemma continues_mono:
  assumes "poll_interval cfg > 0" "continues cfg a c" "b \<le> c"
  shows "continues cfg a b"
proof -
  have "(2 * (b - a) + poll_interval cfg) div (2 * poll_interval cfg)
      \<le> (2 * (c - a) + poll_interval cfg) div (2 * poll_interval cfg)"
    using assms by (intro zdiv_mono1) auto
  with assms(2) show ?thesis by (simp add: continues_def)
qed

section \<open>The invariant of the segments\<close>

text \<open>Segments are kept in the order they began, one after the other for each source.\<close>

definition later :: "segment \<Rightarrow> segment \<Rightarrow> bool" where
  "later s t \<longleftrightarrow> segment_id s < segment_id t \<and>
     (segment_source s = segment_source t \<longrightarrow>
        last_success_at s \<le> started_at t \<and> segment_status s \<noteq> SEGMENT_OPEN)"

definition segment_polls_ok :: "coverage_config \<Rightarrow> coverage_store \<Rightarrow> segment \<Rightarrow> bool" where
  "segment_polls_ok cfg st s \<longleftrightarrow>
     (\<forall>p\<in>set (polls st). poll_source p = segment_source s \<and> started_at s < completed_at p \<and>
        (completed_at p < last_success_at s \<or> segment_status s = SEGMENT_OPEN) \<longrightarrow>
        success p \<and> poll_segment p = Some (segment_id s)) \<and>
     (\<exists>p\<in>set (polls st). success p \<and> poll_segment p = Some (segment_id s)
        \<and> completed_at p = last_success_at s) \<and>
     (\<forall>t. started_at s \<le> t \<and> t \<le> last_success_at s \<longrightarrow>
        (\<exists>p\<in>set (polls st). success p \<and> poll_segment p = Some (segment_id s)
           \<and> completed_at p \<le> t \<and> continues cfg (completed_at p) t))"

definition coverage_ok :: "coverage_config \<Rightarrow> instant \<Rightarrow> coverage_store \<Rightarrow> bool" where
  "coverage_ok cfg now st \<longleftrightarrow>
     sorted_wrt later (segments st) \<and>
     (\<forall>s\<in>set (segments st). segment_id s < next_segment st \<and> started_at s \<le> last_success_at s
        \<and> last_success_at s \<le> now \<and> segment_polls_ok cfg st s) \<and>
     (\<forall>p\<in>set (polls st). completed_at p \<le> now)"

lemma sorted_wrt_two: "sorted_wrt R xs \<Longrightarrow> x \<in> set xs \<Longrightarrow> y \<in> set xs \<Longrightarrow> x = y \<or> R x y \<or> R y x"
  by (induction xs) auto

lemma segment_unique:
  assumes "coverage_ok cfg now st" "s \<in> set (segments st)" "t \<in> set (segments st)" "segment_id s = segment_id t"
  shows "s = t"
  using assms sorted_wrt_two [of later "segments st" s t] by (auto simp: coverage_ok_def later_def)

lemma open_unique:
  assumes "coverage_ok cfg now st" "s \<in> set (segments st)" "t \<in> set (segments st)"
    and "segment_source s = segment_source t" "segment_status s = SEGMENT_OPEN" "segment_status t = SEGMENT_OPEN"
  shows "s = t"
  using assms sorted_wrt_two [of later "segments st" s t] by (auto simp: coverage_ok_def later_def)

lemma open_segment_Some:
  "open_segment src st = Some s \<Longrightarrow>
     s \<in> set (segments st) \<and> segment_source s = src \<and> segment_status s = SEGMENT_OPEN"
  by (auto simp: open_segment_def dest!: max_by_Some)

lemma open_segment_None:
  "open_segment src st = None \<Longrightarrow> s \<in> set (segments st) \<Longrightarrow> segment_source s = src \<Longrightarrow>
     segment_status s \<noteq> SEGMENT_OPEN"
  by (auto simp: open_segment_def filter_empty_conv)

lemma set_update_segment:
  "t \<in> set (segments (update_segment k f st)) \<longleftrightarrow>
     (\<exists>s\<in>set (segments st). t = (if segment_id s = k then f s else s))"
  by (simp add: update_segment_def image_iff del: if_image_distrib)

lemma update_segment_simps [simp]:
  "polls (update_segment k f st) = polls st" "next_segment (update_segment k f st) = next_segment st"
  "segment_polls_ok cfg (update_segment k f st) = segment_polls_ok cfg st"
  by (simp_all add: update_segment_def segment_polls_ok_def fun_eq_iff)

lemma end_segment_ok:
  assumes ok: "coverage_ok cfg now st" and X: "X \<noteq> SEGMENT_OPEN"
  shows "coverage_ok cfg now (update_segment k (end_segment X) st)"
proof -
  define g where "g s = (if segment_id s = k then end_segment X s else s)" for s
  have g: "segment_id (g s) = segment_id s" "segment_source (g s) = segment_source s"
    "started_at (g s) = started_at s" "last_success_at (g s) = last_success_at s" for s
    by (simp_all add: g_def end_segment_def)
  have opened: "segment_status s = SEGMENT_OPEN" if "segment_status (g s) = SEGMENT_OPEN" for s
    using that X by (auto simp: g_def end_segment_def split: if_splits)
  have "sorted_wrt (\<lambda>s t. later (g s) (g t)) (segments st)"
    using ok opened unfolding coverage_ok_def
    by (elim conjE sorted_wrt_mono_rel [rotated]) (auto simp: later_def g)
  then have "sorted_wrt later (map g (segments st))" by (simp add: sorted_wrt_map)
  moreover have "segment_polls_ok cfg st (g s)" if "segment_polls_ok cfg st s" for s
    using that opened [of s] unfolding segment_polls_ok_def g by blast
  moreover have segs: "segments (update_segment k (end_segment X) st) = map g (segments st)"
    by (simp add: update_segment_def g_def)
  ultimately show ?thesis
    using ok unfolding coverage_ok_def segs by (simp add: g)
qed

text \<open>A poll that finds no open segment of its source.\<close>

lemma add_failure_ok:
  assumes ok: "coverage_ok cfg now st" and "now \<le> c" and p: "completed_at p = c" "poll_source p = src"
    and none: "\<And>s. s \<in> set (segments st) \<Longrightarrow> segment_source s = src \<Longrightarrow> segment_status s \<noteq> SEGMENT_OPEN"
  shows "coverage_ok cfg c (add_poll p st)"
proof -
  have "segment_polls_ok cfg (add_poll p st) s" if "s \<in> set (segments st)" for s
    using ok that assms(2) p none [OF that] unfolding coverage_ok_def segment_polls_ok_def add_poll_def
    by fastforce
  with ok assms(2) p show ?thesis by (auto simp: coverage_ok_def add_poll_def)
qed

lemma begin_segment_ok:
  assumes ok: "coverage_ok cfg now st" and now: "now \<le> c"
    and cfg: "poll_interval cfg > 0" "max_gap_polls cfg \<ge> 1"
    and none: "\<And>s. s \<in> set (segments st) \<Longrightarrow> segment_source s = src \<Longrightarrow> segment_status s \<noteq> SEGMENT_OPEN"
    and b: "begin_segment src c st = (sid, st')"
    and p: "success p" "poll_segment p = Some sid" and c: "completed_at p = c" "poll_source p = src"
  shows "coverage_ok cfg c (add_poll p st')"
proof -
  let ?new = "\<lparr>segment_id = next_segment st, segment_source = src, started_at = c,
    last_success_at = c, ended_at = None, segment_status = SEGMENT_OPEN\<rparr>"
  have st': "sid = next_segment st" "segments st' = segments st @ [?new]" "polls st' = polls st"
    "next_segment st' = next_segment st + 1"
    using b by (auto simp: begin_segment_def)
  have sorted: "sorted_wrt later (segments st @ [?new])"
    using ok none now by (fastforce simp: coverage_ok_def sorted_wrt_append later_def)
  have "segment_polls_ok cfg (add_poll p st') s" if "s \<in> set (segments st)" for s
    using ok that now c none [OF that] unfolding coverage_ok_def segment_polls_ok_def add_poll_def st'
    by fastforce
  moreover have "segment_polls_ok cfg (add_poll p st') ?new"
    using ok now p c st' continues_refl [OF cfg] unfolding segment_polls_ok_def
    by (fastforce simp: add_poll_def coverage_ok_def)
  ultimately show ?thesis
    using ok now c sorted by (fastforce simp: coverage_ok_def add_poll_def st')
qed

lemma extend_segment_ok:
  assumes ok: "coverage_ok cfg now st" and now: "now \<le> completed_at p"
    and cfg: "poll_interval cfg > 0" "max_gap_polls cfg \<ge> 1"
    and s: "s \<in> set (segments st)" "segment_source s = poll_source p" "segment_status s = SEGMENT_OPEN"
    and cont: "continues cfg (last_success_at s) (completed_at p)"
    and p: "success p" "poll_segment p = Some (segment_id s)"
  shows "coverage_ok cfg (completed_at p)
    (add_poll p (update_segment (segment_id s) (\<lambda>r. r\<lparr>last_success_at := completed_at p\<rparr>) st))"
proof -
  let ?c = "completed_at p" and ?s' = "s\<lparr>last_success_at := completed_at p\<rparr>"
  let ?f = "\<lambda>r. if segment_id r = segment_id s then r\<lparr>last_success_at := ?c\<rparr> else r"
  let ?st' = "add_poll p (update_segment (segment_id s) (\<lambda>r. r\<lparr>last_success_at := ?c\<rparr>) st)"
  have only: "r = s" if "r \<in> set (segments st)" "segment_id r = segment_id s" for r
    by (rule segment_unique [OF ok that(1) s(1) that(2)])
  have segs: "segments ?st' = map ?f (segments st)"
    by (simp add: add_poll_def update_segment_def)
  have polls: "polls ?st' = polls st @ [p]" by (simp add: add_poll_def)
  have "sorted_wrt (\<lambda>r t. later (?f r) (?f t)) (segments st)"
    using ok unfolding coverage_ok_def
    by (elim conjE sorted_wrt_mono_rel [rotated]) (use only s in \<open>auto simp: later_def\<close>)
  moreover have "segment_polls_ok cfg ?st' r"
    if r: "r \<in> set (segments st)" "segment_id r \<noteq> segment_id s" for r
  proof -
    have "segment_source r = poll_source p \<Longrightarrow> segment_status r \<noteq> SEGMENT_OPEN"
      using open_unique [OF ok r(1) s(1)] s r(2) by auto
    moreover have "segment_polls_ok cfg st r" "last_success_at r \<le> ?c"
      using ok r now by (auto simp: coverage_ok_def)
    ultimately show ?thesis unfolding segment_polls_ok_def polls by fastforce
  qed
  moreover have "segment_polls_ok cfg ?st' ?s'"
  proof -
    have old: "segment_polls_ok cfg st s" using ok s by (simp add: coverage_ok_def)
    have "\<exists>q\<in>set (polls st @ [p]). success q \<and> poll_segment q = Some (segment_id s)
        \<and> completed_at q \<le> t \<and> continues cfg (completed_at q) t"
      if "started_at s \<le> t" "t \<le> ?c" for t
    proof (cases "t \<le> last_success_at s")
      case True
      with old that show ?thesis unfolding segment_polls_ok_def by fastforce
    next
      case False
      have "continues cfg (last_success_at s) t"
        by (rule continues_mono [OF cfg(1) cont that(2)])
      with old False show ?thesis unfolding segment_polls_ok_def by fastforce
    qed
    with old p s show ?thesis unfolding segment_polls_ok_def polls by fastforce
  qed
  ultimately show ?thesis
    using ok now only unfolding coverage_ok_def segs polls
    by (fastforce simp: sorted_wrt_map add_poll_def)
qed

section \<open>Every poll keeps the invariant\<close>

lemma ended_not_open:
  assumes ok: "coverage_ok cfg now st" and s: "open_segment src st = Some s" and X: "X \<noteq> SEGMENT_OPEN"
    and t: "t \<in> set (segments (update_segment (segment_id s) (end_segment X) st))" "segment_source t = src"
  shows "segment_status t \<noteq> SEGMENT_OPEN"
proof -
  note s = open_segment_Some [OF s]
  obtain r where r: "r \<in> set (segments st)"
    "t = (if segment_id r = segment_id s then end_segment X r else r)"
    using t(1) unfolding set_update_segment by blast
  show ?thesis
  proof (cases "segment_id r = segment_id s")
    case True
    with r X show ?thesis by (simp add: end_segment_def)
  next
    case False
    with r s t(2) open_unique [OF ok r(1), of s] show ?thesis by auto
  qed
qed

lemma record_failure_ok:
  assumes ok: "coverage_ok cfg now st" and now: "now \<le> completed"
  shows "coverage_ok cfg completed (record_failure src attempted completed err st)"
proof (cases "open_segment src st")
  case None
  have "coverage_ok cfg completed (add_poll \<lparr>poll_source = src, poll_segment = None, attempted_at = attempted,
      completed_at = completed, success = False, error_type = Some err, active_alerts = None\<rparr> st)"
    by (rule add_failure_ok [OF ok now _ _ open_segment_None [OF None]]) simp_all
  with None show ?thesis by (simp add: record_failure_def)
next
  case (Some s)
  have ended: "coverage_ok cfg now (update_segment (segment_id s) (end_segment CLOSED_FAILURE) st)"
    by (rule end_segment_ok [OF ok]) simp
  have "coverage_ok cfg completed (add_poll \<lparr>poll_source = src, poll_segment = None, attempted_at = attempted,
      completed_at = completed, success = False, error_type = Some err, active_alerts = None\<rparr>
      (update_segment (segment_id s) (end_segment CLOSED_FAILURE) st))"
    by (rule add_failure_ok [OF ended now _ _ ended_not_open [OF ok Some]]) simp_all
  with Some show ?thesis by (simp add: record_failure_def)
qed

lemma record_success_ok:
  assumes ok: "coverage_ok cfg now st" and now: "now \<le> completed"
    and cfg: "poll_interval cfg > 0" "max_gap_polls cfg \<ge> 1"
    and run: "record_success cfg src attempted completed active st = (sid, st')"
  shows "coverage_ok cfg completed st'"
proof -
  obtain st1 where mid: "extend_or_begin cfg src completed st = (sid, st1)"
    and st': "st' = add_poll \<lparr>poll_source = src, poll_segment = Some sid, attempted_at = attempted,
      completed_at = completed, success = True, error_type = None, active_alerts = Some active\<rparr> st1"
    using run by (auto simp: record_success_def split: prod.splits)
  show ?thesis
  proof (cases "open_segment src st")
    case None
    with mid have "begin_segment src completed st = (sid, st1)" by (simp add: extend_or_begin_def)
    from begin_segment_ok [OF ok now cfg open_segment_None [OF None] this] show ?thesis
      unfolding st' by simp
  next
    case (Some s)
    note s = open_segment_Some [OF Some]
    show ?thesis
    proof (cases "continues cfg (last_success_at s) completed")
      case True
      with mid Some have "sid = segment_id s"
        "st1 = update_segment (segment_id s) (\<lambda>r. r\<lparr>last_success_at := completed\<rparr>) st"
        by (auto simp: extend_or_begin_def)
      then show ?thesis
        unfolding st' using extend_segment_ok [OF ok _ cfg, where s = s and
          p = "\<lparr>poll_source = src, poll_segment = Some sid, attempted_at = attempted,
            completed_at = completed, success = True, error_type = None, active_alerts = Some active\<rparr>"]
          now s True by simp
    next
      case False
      have ended: "coverage_ok cfg now (update_segment (segment_id s) (end_segment BROKEN_GAP) st)"
        by (rule end_segment_ok [OF ok]) simp
      from mid Some False have b: "begin_segment src completed
          (update_segment (segment_id s) (end_segment BROKEN_GAP) st) = (sid, st1)"
        by (simp add: extend_or_begin_def)
      have quiet: "\<And>t. t \<in> set (segments (update_segment (segment_id s) (end_segment BROKEN_GAP) st)) \<Longrightarrow>
          segment_source t = src \<Longrightarrow> segment_status t \<noteq> SEGMENT_OPEN"
        by (rule ended_not_open [OF ok Some]) simp_all
      show ?thesis
        unfolding st' by (rule begin_segment_ok [OF ended now cfg quiet b]) simp_all
    qed
  qed
qed

lemma poll_once_ok:
  assumes "coverage_ok cfg now st" "now \<le> completed" "poll_interval cfg > 0" "max_gap_polls cfg \<ge> 1"
  shows "coverage_ok cfg completed (snd (poll_once cfg res attempted completed st))"
  using assms record_failure_ok [OF assms(1,2)] record_success_ok [OF assms]
  by (auto simp: poll_once_def split: poll_result.splits prod.splits)

lemma poll_all_ok:
  "coverage_ok cfg now st \<Longrightarrow> sorted (now # map (\<lambda>(_, _, c). c) es) \<Longrightarrow>
   poll_interval cfg > 0 \<Longrightarrow> max_gap_polls cfg \<ge> 1 \<Longrightarrow>
   \<exists>now'. coverage_ok cfg now' (poll_all cfg es st)"
proof (induction es arbitrary: now st)
  case (Cons e es)
  obtain res att comp where e: "e = (res, att, comp)" by (cases e) auto
  from Cons.prems have "coverage_ok cfg comp (snd (poll_once cfg res att comp st))"
    by (intro poll_once_ok) (auto simp: e)
  from Cons.IH [OF this] Cons.prems show ?case by (simp add: e)
qed auto

section \<open>What was polled\<close>

fun answered :: "poll_result \<Rightarrow> bool" where
  "answered (Poll_Count _) = True"
| "answered (Poll_Error _) = False"

definition poll_facts :: "coverage_store \<Rightarrow> (string \<times> bool \<times> instant) list" where
  "poll_facts st = map (\<lambda>p. (poll_source p, success p, completed_at p)) (polls st)"

lemma extend_or_begin_polls: "polls (snd (extend_or_begin cfg src c st)) = polls st"
  by (auto simp: extend_or_begin_def begin_segment_def split: option.splits)

lemma poll_once_facts:
  "poll_facts (snd (poll_once cfg res att c st)) = poll_facts st @ [(ALERT_COVERAGE_SOURCE, answered res, c)]"
  using extend_or_begin_polls [of cfg ALERT_COVERAGE_SOURCE c st]
  by (cases res) (auto simp: poll_once_def poll_facts_def record_failure_def record_success_def
      add_poll_def split: prod.splits option.splits)

lemma poll_all_facts:
  "poll_facts (poll_all cfg es st) = poll_facts st @ map (\<lambda>(r, _, c). (ALERT_COVERAGE_SOURCE, answered r, c)) es"
  by (induction es arbitrary: st) (auto simp: poll_once_facts)

lemma polls_of_history:
  "(\<exists>p\<in>set (polls (poll_all cfg es no_coverage)). poll_source p = src \<and> success p = b \<and> completed_at p = c)
     \<longleftrightarrow> src = ALERT_COVERAGE_SOURCE \<and> (\<exists>r a. (r, a, c) \<in> set es \<and> answered r = b)"
proof -
  have "(src, b, c) \<in> set (poll_facts (poll_all cfg es no_coverage))
      \<longleftrightarrow> src = ALERT_COVERAGE_SOURCE \<and> (\<exists>r a. (r, a, c) \<in> set es \<and> answered r = b)"
    unfolding poll_all_facts by (force simp: poll_facts_def no_coverage_def)
  then show ?thesis by (force simp: poll_facts_def)
qed

lemma make_config_Inr:
  "make_config interval gap = Inr cfg \<Longrightarrow> poll_interval cfg > 0 \<and> max_gap_polls cfg \<ge> 1"
  by (auto simp: make_config_def split: if_splits)

lemma history_ok:
  assumes "make_config interval gap = Inr cfg" "sorted (map (\<lambda>(_, _, c). c) es)"
  shows "\<exists>now. coverage_ok cfg now (poll_all cfg es no_coverage)"
proof -
  define now where "now = (case es of [] \<Rightarrow> 0 | (_, _, c) # _ \<Rightarrow> c)"
  have "coverage_ok cfg now no_coverage" by (simp add: coverage_ok_def no_coverage_def)
  moreover have "sorted (now # map (\<lambda>(_, _, c). c) es)"
    using assms(2) by (cases es) (auto simp: now_def)
  ultimately show ?thesis using poll_all_ok make_config_Inr [OF assms(1)] by blast
qed

section \<open>Properties of coverage\<close>

text \<open>
  C32: Contiguous coverage is real. For every history of polls under a clock that does not run backwards:
  when a run boundary is frozen as contiguous since \<open>W\<close>, no poll that completed between \<open>W\<close> and the
  boundary failed, and at every instant between them some poll had succeeded within the polling
  tolerance. No failure and no silence longer than the tolerance is ever hidden.
\<close>

theorem coverage_boundary_sound:
  assumes cfg: "make_config interval gap = Inr cfg" and clock: "sorted (map (\<lambda>(_, _, c). c) es)"
    and b: "boundary_at ALERT_COVERAGE_SOURCE at cfg (poll_all cfg es no_coverage) = b"
    and cont: "alert_observation_start b = Some W"
  shows "W \<le> at \<and> (\<forall>(r, a, c)\<in>set es. W < c \<and> c < at \<longrightarrow> answered r) \<and>
    (\<forall>t. W \<le> t \<and> t \<le> at \<longrightarrow> (\<exists>(r, a, c)\<in>set es. answered r \<and> c \<le> t \<and> continues cfg c t))"
proof -
  let ?st = "poll_all cfg es no_coverage"
  obtain now where ok: "coverage_ok cfg now ?st" using history_ok [OF cfg clock] by blast
  note cfg = make_config_Inr [OF cfg, THEN conjunct1]
  from b cont obtain s where "max_by (\<lambda>s. (started_at s, segment_id s))
      (filter (\<lambda>s. segment_source s = ALERT_COVERAGE_SOURCE \<and> started_at s \<le> at) (segments ?st)) = Some s"
    and live: "at \<le> last_success_at s \<or> (segment_status s = SEGMENT_OPEN \<and> continues cfg (last_success_at s) at)"
    and W: "W = started_at s"
    by (auto simp: boundary_at_def alert_observation_start_def UNAVAILABLE_COVERAGE_def
        split: option.splits if_splits)
  then have s: "s \<in> set (segments ?st)" "segment_source s = ALERT_COVERAGE_SOURCE" "started_at s \<le> at"
    by (auto dest!: max_by_Some)
  have sp: "segment_polls_ok cfg ?st s" using ok s by (simp add: coverage_ok_def)
  have "answered r" if e: "(r, a, c) \<in> set es" "W < c" "c < at" for r a c
  proof -
    obtain p where p: "p \<in> set (polls ?st)" "poll_source p = ALERT_COVERAGE_SOURCE"
      "success p = answered r" "completed_at p = c"
      using polls_of_history [of cfg es ALERT_COVERAGE_SOURCE "answered r" c] e by blast
    with sp live s e W show ?thesis unfolding segment_polls_ok_def by fastforce
  qed
  moreover have "\<exists>(r, a, c)\<in>set es. answered r \<and> c \<le> t \<and> continues cfg c t" if t: "W \<le> t" "t \<le> at" for t
  proof -
    have "\<exists>p\<in>set (polls ?st). success p \<and> completed_at p \<le> t \<and> continues cfg (completed_at p) t"
    proof (cases "t \<le> last_success_at s")
      case True
      with sp t W show ?thesis unfolding segment_polls_ok_def by blast
    next
      case False
      with live t have "continues cfg (last_success_at s) t"
        by (auto intro: continues_mono [OF cfg])
      moreover from sp obtain q where "q \<in> set (polls ?st)" "success q" "completed_at q = last_success_at s"
        unfolding segment_polls_ok_def by blast
      ultimately show ?thesis using False by (intro bexI [of _ q]) auto
    qed
    then obtain p where p: "p \<in> set (polls ?st)" "success p" "completed_at p \<le> t"
      "continues cfg (completed_at p) t" by blast
    then have "\<exists>r a. (r, a, completed_at p) \<in> set es \<and> answered r"
      using polls_of_history [of cfg es "poll_source p" True "completed_at p"] by blast
    with p show ?thesis by blast
  qed
  ultimately show ?thesis using s W by blast
qed

definition sample_polls :: "(poll_result \<times> instant \<times> instant) list" where
  "sample_polls = [(Poll_Error ''AlertmanagerError'', 1, 5), (Poll_Count 2, 10, 20), (Poll_Count 0, 70, 81)]"

lemmas coverage_eval = poll_once_def record_failure_def record_success_def extend_or_begin_def
  begin_segment_def open_segment_def update_segment_def end_segment_def add_poll_def no_coverage_def
  boundary_at_def continues_def ALERT_COVERAGE_SOURCE_def UNAVAILABLE_COVERAGE_def
  alert_observation_start_def

theorem coverage_boundary_sound_witness:
  "\<exists>cfg b. make_config 60 2 = Inr cfg
     \<and> boundary_at ALERT_COVERAGE_SOURCE 100 cfg (poll_all cfg sample_polls no_coverage) = b
     \<and> alert_observation_start b = Some 20
     \<and> {20..100} \<subseteq> {t. \<exists>(r, a, c)\<in>set sample_polls. answered r \<and> c \<le> t \<and> continues cfg c t}"
proof -
  let ?cfg = "\<lparr>poll_interval = 60, max_gap_polls = 2\<rparr>"
  have cfg: "make_config 60 2 = Inr ?cfg" by (simp add: make_config_def)
  obtain b where b: "boundary_at ALERT_COVERAGE_SOURCE 100 ?cfg (poll_all ?cfg sample_polls no_coverage) = b"
    and W: "alert_observation_start b = Some 20"
    by (simp add: coverage_eval sample_polls_def)
  have "{20..100} \<subseteq> {t. \<exists>(r, a, c)\<in>set sample_polls. answered r \<and> c \<le> t \<and> continues ?cfg c t}"
    using coverage_boundary_sound [OF cfg _ b W, THEN conjunct2, THEN conjunct2] by (auto simp: sample_polls_def)
  with cfg b W show ?thesis by blast
qed

definition boundary_valid :: "coverage_boundary \<Rightarrow> bool" where
  "boundary_valid b \<longleftrightarrow>
     (boundary_status b = ''CONTIGUOUS'' \<and> boundary_segment b \<noteq> None \<and> observation_start b \<noteq> None
        \<and> last_success b \<noteq> None)
     \<or> (boundary_status b = ''UNAVAILABLE'' \<and> boundary_segment b = None \<and> observation_start b = None
        \<and> last_success b = None)"

text \<open>
  C33: A persisted coverage boundary is read back exactly, and nothing malformed is. With the library's
  ISO round trip, parsing the payload of a valid boundary gives that boundary; whatever payload is
  accepted gives a boundary that is contiguous with a complete segment, or unavailable with none.
\<close>

theorem coverage_payload_round_trip:
  assumes iso: "\<And>t. fromisoformat (isoformat t) = Some t"
  shows "(boundary_valid b \<longrightarrow> boundary_from_payload fromisoformat (boundary_to_payload isoformat b) = Inr b)
    \<and> (boundary_from_payload fromisoformat v = Inr b' \<longrightarrow> boundary_valid b')"
proof -
  have "boundary_from_payload fromisoformat (boundary_to_payload isoformat b) = Inr b" if "boundary_valid b"
    using that iso
    by (cases b) (auto simp: boundary_valid_def boundary_from_payload_def boundary_to_payload_def make_boundary_def
        parse_iso_json_def iso_json_def parse_segment_json_def parse_status_json_def get_key_def insert_commute simp del: and_then_Inr)
  moreover have "boundary_valid b'" if "make_boundary st seg w l = Inr b'" for st seg w l
    using that by (auto simp: make_boundary_def boundary_valid_def split: if_splits)
  then have "boundary_valid b'" if "boundary_from_payload fromisoformat v = Inr b'"
    using that by (cases v) (auto simp: boundary_from_payload_def split: if_splits)
  ultimately show ?thesis by blast
qed

theorem coverage_payload_round_trip_witness:
  "boundary_from_payload unary_instant (boundary_to_payload instant_unary
     \<lparr>boundary_status = ''CONTIGUOUS'', boundary_segment = Some 3, observation_start = Some 5, last_success = Some 9\<rparr>)
   = Inr \<lparr>boundary_status = ''CONTIGUOUS'', boundary_segment = Some 3, observation_start = Some 5, last_success = Some 9\<rparr>"
  using coverage_payload_round_trip [of unary_instant instant_unary, OF unary_instant_unary]
  by (simp add: boundary_valid_def)

end
