(* ===== verification/Evidence_Coverage.thy ===== *)
theory Evidence_Coverage
  imports Prelude
begin

text \<open>
  The per-scope evidence coverage record of a diagnosis (\<open>packages/rca/evidence_coverage.py\<close>): how it
  is built from the persisted gaps of the change stream, the derived summary, and the question rules
  ask of it, whether a scope was observed continuously over an interval.
\<close>

datatype source_continuity = CONTINUOUS | GAPPED | UNKNOWN_CONTINUITY

datatype transport_completeness = PROVEN | NOT_PROVEN | NOT_APPLICABLE

datatype coverage_summary = COVERED | NOT_COVERED

record stream_gap =
  gap_reason :: string
  since :: "instant option"
  gap_at :: instant
  gap_namespace :: "string option"
  gap_kind :: "string option"

type_synonym scope = "string \<times> string"

text \<open>\<open>StreamGap.covers\<close>\<close>

definition gap_covers :: "stream_gap \<Rightarrow> scope \<Rightarrow> bool" where
  "gap_covers g s \<longleftrightarrow>
     gap_namespace g = None \<or> (gap_namespace g, gap_kind g) = (Some (fst s), Some (snd s))"

record scope_coverage =
  scope_id :: scope
  continuity :: source_continuity
  scope_gaps :: "stream_gap list"
  transport :: transport_completeness
  transport_proven_at :: "instant option"

text \<open>\<open>ScopeCoverage.summary\<close>: the verdict and the failed dimensions.\<close>

definition coverage_summary :: "scope_coverage \<Rightarrow> coverage_summary \<times> string list" where
  "coverage_summary c =
     (let failed = map fst (filter (\<lambda>p. \<not> snd p)
        [(''source_continuity'', continuity c = CONTINUOUS),
         (''transport_completeness'', transport c = PROVEN)])
      in (if failed \<noteq> [] then NOT_COVERED else COVERED, failed))"

record evidence_coverage =
  coverage_start :: instant
  window_end :: instant
  stream_followed_since :: "instant option"
  scopes :: "scope_coverage list"

definition gap_scopes :: "stream_gap list \<Rightarrow> scope list" where
  "gap_scopes gaps = List.map_filter (\<lambda>g.
     case (gap_namespace g, gap_kind g) of
       (Some n, Some k) \<Rightarrow> if n \<noteq> [] \<and> k \<noteq> [] then Some (n, k) else None
     | _ \<Rightarrow> None) gaps"

definition scope_record ::
  "stream_gap list \<Rightarrow> bool \<Rightarrow> bool \<Rightarrow> transport_completeness \<Rightarrow> instant option \<Rightarrow> scope \<Rightarrow> scope_coverage"
where
  "scope_record gaps streamed followed tr proven s =
     (let own = (if streamed then filter (\<lambda>g. gap_covers g s) gaps else []) in
      \<lparr>scope_id = s,
       continuity = (if own \<noteq> [] then GAPPED else if followed then CONTINUOUS else UNKNOWN_CONTINUITY),
       scope_gaps = own, transport = tr,
       transport_proven_at = (if tr = PROVEN then proven else None)\<rparr>)"

definition evidence_coverage ::
  "scope list \<Rightarrow> stream_gap list \<Rightarrow> instant \<Rightarrow> instant \<Rightarrow> bool \<Rightarrow> instant option \<Rightarrow> instant option
   \<Rightarrow> evidence_coverage" where
  "evidence_coverage wanted gaps start fin streamed followed_since proven =
     (let followed = streamed \<and> (case followed_since of None \<Rightarrow> False | Some t \<Rightarrow> t \<le> start);
          tr = (if \<not> streamed then NOT_APPLICABLE
                else if proven \<noteq> None then PROVEN else NOT_PROVEN)
      in \<lparr>coverage_start = start, window_end = fin,
          stream_followed_since = (if streamed then followed_since else None),
          scopes = map (scope_record gaps streamed followed tr proven)
                     (sorted_set (wanted @ gap_scopes gaps))\<rparr>)"

definition overlaps :: "stream_gap \<Rightarrow> instant \<Rightarrow> instant \<Rightarrow> bool" where
  "overlaps g start fin \<longleftrightarrow>
     (case since g of None \<Rightarrow> True | Some t \<Rightarrow> t \<le> fin) \<and> gap_at g \<ge> start"

definition continuously_observed ::
  "evidence_coverage \<Rightarrow> scope \<Rightarrow> instant \<Rightarrow> instant \<Rightarrow> string option" where
  "continuously_observed c s start fin =
     (case List.find (\<lambda>r. scope_id r = s) (scopes c) of
        None \<Rightarrow> Some ''SCOPE_NOT_RECORDED''
      | Some r \<Rightarrow>
          if transport r \<noteq> PROVEN then Some ''TRANSPORT_NOT_PROVEN''
          else if (case stream_followed_since c of None \<Rightarrow> True | Some t \<Rightarrow> t > start)
          then Some ''SCOPE_NOT_CONTINUOUS''
          else if list_ex (\<lambda>g. overlaps g start fin) (scope_gaps r)
          then Some ''SCOPE_NOT_CONTINUOUS''
          else None)"

lemma overlaps_iff: "\<not> overlaps g start fin \<longleftrightarrow> (\<exists>f. since g = Some f \<and> fin < f) \<or> gap_at g < start"
  by (cases "since g") (auto simp: overlaps_def)

section \<open>What the record means\<close>

lemma find_map_scope:
  "List.find (\<lambda>r. scope_id r = s) (map (scope_record gaps st f tr p) xs) =
     (if s \<in> set xs then Some (scope_record gaps st f tr p s) else None)"
  by (induction xs) (auto simp: scope_record_def Let_def)

text \<open>A question about an interval is answered yes for every part of it.\<close>

lemma continuously_observed_sub:
  assumes "continuously_observed c s start fin = None" "start \<le> start'" "fin' \<le> fin"
  shows "continuously_observed c s start' fin' = None"
  using assms
  by (force simp: continuously_observed_def overlaps_def list_ex_iff split: option.splits if_splits)

text \<open>
  Continuous observation means what it says. For a scope the record was asked to hold, the answer is
  yes exactly when the stream was followed since the start or before, transport is proven, and no
  persisted gap of that scope (or of every scope) reaches into the interval; a gap of unknown start
  counts as reaching back without bound. A longer interval is never easier to prove.
\<close>

theorem continuously_observed_iff:
  assumes "s \<in> set wanted"
  shows "(continuously_observed (evidence_coverage wanted gaps t0 t1 streamed followed proven) s start fin = None
      \<longleftrightarrow> streamed \<and> proven \<noteq> None \<and> (\<exists>f. followed = Some f \<and> f \<le> start) \<and>
          (\<forall>g\<in>set gaps. gap_covers g s \<longrightarrow> (\<exists>f. since g = Some f \<and> fin < f) \<or> gap_at g < start))
    \<and> (continuously_observed c s start fin = None \<and> start \<le> start' \<and> fin' \<le> fin \<longrightarrow>
         continuously_observed c s start' fin' = None)"
proof -
  have wanted: "s \<in> set (sorted_set (wanted @ gap_scopes gaps))" using assms by simp
  have "continuously_observed (evidence_coverage wanted gaps t0 t1 streamed followed proven) s start fin = None
    \<longleftrightarrow> streamed \<and> proven \<noteq> None \<and> (\<exists>f. followed = Some f \<and> f \<le> start) \<and>
        (\<forall>g\<in>set gaps. gap_covers g s \<longrightarrow> \<not> overlaps g start fin)"
    using wanted
    by (auto simp: continuously_observed_def evidence_coverage_def Let_def find_map_scope scope_record_def
        list_ex_iff not_le simp del: set_sorted_set split: option.splits if_splits)
  then show ?thesis
    using continuously_observed_sub unfolding overlaps_iff by blast
qed

theorem continuously_observed_iff_witness:
  "continuously_observed
     (evidence_coverage [(''shop'', ''Deployment'')]
        [\<lparr>gap_reason = ''WATCH_EXPIRED'', since = Some 70, gap_at = 80, gap_namespace = None, gap_kind = None\<rparr>]
        10 90 True (Some 5) (Some 95)) (''shop'', ''Deployment'') 20 60 = None"
  by (subst continuously_observed_iff [THEN conjunct1]) simp_all

end
