(* ===== verification/Temporal_Relevance.thy ===== *)
theory Temporal_Relevance
  imports Prelude
begin

text \<open>
  Which competing supported candidates may lead (\<open>packages/rca/temporal_relevance.py\<close>): the effect
  interval of a candidate from its observations, whether that interval ended before the onset, and
  the rule that withholds leadership from ended candidates when another one is tied to the onset.
\<close>

definition CHAOS_KINDS :: "string list" where
  "CHAOS_KINDS = [''NetworkChaos'', ''StressChaos'', ''PodChaos'', ''IOChaos'', ''HTTPChaos'',
     ''DNSChaos'', ''TimeChaos'']"

definition RESOLUTION :: duration where
  "RESOLUTION = second"

type_synonym actor_key = "string \<times> string"

record finding_view =
  view_kind :: string
  view_at :: "instant option"
  view_summary :: string

record candidate_view =
  actor :: actor_key
  onset :: "instant option"
  initiating :: "finding_view list"
  linked :: bool

record chaos_observation =
  chaos_kind :: string
  chaos_name :: string
  chaos_reason :: string
  chaos_at :: "instant option"

record interval =
  start :: "instant option"
  fin :: "instant option"

record eligibility =
  eligible :: "actor_key list"
  ineligible :: "actor_key list"

text \<open>The expression \<open>spec changed: (.+?): (.*?) -> (.*)$\<close>, matched at the start of the summary.\<close>

definition newline :: char where
  "newline = CHR 0x0A"

definition spec_match :: "string \<Rightarrow> (string \<times> string \<times> string) option" where
  "spec_match s =
     (if \<not> starts_with ''spec changed: '' s then None
      else case drop (length ''spec changed: '') s of
        [] \<Rightarrow> None
      | c # r \<Rightarrow>
          (case break_on '': '' r of
             None \<Rightarrow> None
           | Some (field, r1) \<Rightarrow>
               (case break_on '' -> '' r1 of
                  None \<Rightarrow> None
                | Some (old, new) \<Rightarrow>
                    if newline \<in> set (c # field @ old) then None
                    else if newline \<notin> set new then Some (c # field, old, new)
                    else if newline \<notin> set (butlast new) then Some (c # field, old, butlast new)
                    else None)))"

text \<open>\<open>chaos_intervals\<close>: per experiment, its earliest \<open>Applied\<close> and \<open>Recovered\<close> Events.\<close>

definition relevant :: "chaos_observation \<Rightarrow> bool" where
  "relevant o1 \<longleftrightarrow> chaos_kind o1 \<in> set CHAOS_KINDS \<and> chaos_reason o1 \<in> {''Applied'', ''Recovered''}
     \<and> chaos_name o1 \<noteq> [] \<and> chaos_at o1 \<noteq> None"

definition slot :: "(actor_key \<times> (string \<times> instant) list) list \<Rightarrow> actor_key \<Rightarrow> (string \<times> instant) list" where
  "slot d k = (case map_of d k of None \<Rightarrow> [] | Some v \<Rightarrow> v)"

fun found_slots :: "chaos_observation list \<Rightarrow> (actor_key \<times> (string \<times> instant) list) list
    \<Rightarrow> (actor_key \<times> (string \<times> instant) list) list" where
  "found_slots [] d = d"
| "found_slots (o1 # os) d =
     (if \<not> relevant o1 then found_slots os d
      else
        (let k = (chaos_kind o1, chaos_name o1); sl = slot d k; t = the (chaos_at o1) in
         found_slots os
           (AList.update k
             (if (case map_of sl (chaos_reason o1) of None \<Rightarrow> True | Some t' \<Rightarrow> t < t')
              then AList.update (chaos_reason o1) t sl else sl) d)))"

type_synonym interval_map = "(actor_key \<times> instant option \<times> instant option) list"

definition chaos_intervals :: "chaos_observation list \<Rightarrow> interval_map" where
  "chaos_intervals os =
     map (\<lambda>(k, sl). (k, map_of sl ''Applied'', map_of sl ''Recovered'')) (found_slots os [])"

text \<open>The loop of \<open>effect_interval\<close> over the dated findings in time order.\<close>

fun spec_end :: "finding_view list \<Rightarrow> (string \<times> string) list \<Rightarrow> instant option \<Rightarrow> instant option" where
  "spec_end [] first_old e = e"
| "spec_end (f # fs) first_old e =
     (case spec_match (view_summary f) of
        Some (field, old, new) \<Rightarrow>
          if view_kind f \<noteq> ''SPEC_CHANGE'' then spec_end fs first_old None
          else
            (let first_old' = (if map_of first_old field = None then first_old @ [(field, old)] else first_old)
             in spec_end fs first_old' (if Some new = map_of first_old' field then view_at f else None))
      | None \<Rightarrow> spec_end fs first_old None)"

definition dated :: "finding_view list \<Rightarrow> finding_view list" where
  "dated fs = sort_key (\<lambda>f. the (view_at f)) (filter (\<lambda>f. view_at f \<noteq> None) fs)"

definition effect_interval :: "candidate_view \<Rightarrow> interval_map \<Rightarrow> interval" where
  "effect_interval c ivs =
     (let fs = dated (initiating c);
          first = (case fs of [] \<Rightarrow> None | f # _ \<Rightarrow> view_at f)
      in if fst (actor c) \<in> set CHAOS_KINDS
         then (case (case map_of ivs (actor c) of None \<Rightarrow> (None, None) | Some p \<Rightarrow> p) of
                 (applied, recovered) \<Rightarrow> \<lparr>start = or_else applied first, fin = recovered\<rparr>)
         else \<lparr>start = first, fin = spec_end fs [] None\<rparr>)"

definition ended_before :: "interval \<Rightarrow> instant \<Rightarrow> duration \<Rightarrow> bool" where
  "ended_before i t w \<longleftrightarrow> (case fin i of None \<Rightarrow> False | Some e \<Rightarrow> e + w < t)"

definition displacing :: "candidate_view \<Rightarrow> interval \<Rightarrow> instant \<Rightarrow> duration \<Rightarrow> bool" where
  "displacing c i t w \<longleftrightarrow>
     (if (case start i of None \<Rightarrow> False | Some s \<Rightarrow> s > t + RESOLUTION) then False
      else
        list_ex (\<lambda>u. t - w \<le> u \<and> u \<le> t + RESOLUTION)
          (List.map_filter view_at (initiating c) @ (case start i of None \<Rightarrow> [] | Some s \<Rightarrow> [s]))
        \<or> (fst (actor c) \<in> set CHAOS_KINDS
           \<and> (case start i of None \<Rightarrow> False | Some s \<Rightarrow> s \<le> t + RESOLUTION)
           \<and> (case fin i of None \<Rightarrow> True | Some e \<Rightarrow> e \<ge> t)))"

definition candidate_ended :: "candidate_view \<Rightarrow> interval_map \<Rightarrow> instant \<Rightarrow> duration \<Rightarrow> bool" where
  "candidate_ended c ivs t w \<longleftrightarrow> ended_before (effect_interval c ivs) t w"

definition anchors :: "candidate_view \<Rightarrow> interval_map \<Rightarrow> instant \<Rightarrow> duration \<Rightarrow> bool" where
  "anchors c ivs t w \<longleftrightarrow> \<not> candidate_ended c ivs t w \<and> linked c \<and> displacing c (effect_interval c ivs) t w"

text \<open>
  The loop of \<open>eligibility\<close>: the dict \<open>ended\<close> is keyed by actor, so of two candidates of one actor the
  later one counts, while every candidate may be the anchor at its turn.
\<close>

definition ended_map :: "candidate_view list \<Rightarrow> interval_map \<Rightarrow> instant \<Rightarrow> duration \<Rightarrow> (actor_key \<times> bool) list" where
  "ended_map cs ivs t w = fold (\<lambda>c d. AList.update (actor c) (candidate_ended c ivs t w) d) cs []"

definition first_onset :: "candidate_view list \<Rightarrow> instant option" where
  "first_onset cs = py_min (List.map_filter onset cs)"

definition leaders :: "candidate_view list \<Rightarrow> chaos_observation list \<Rightarrow> duration \<Rightarrow> eligibility" where
  "leaders cs os w =
     (let keys = map actor cs in
      case first_onset cs of
        None \<Rightarrow> \<lparr>eligible = keys, ineligible = []\<rparr>
      | Some t \<Rightarrow>
          if length cs < 2 then \<lparr>eligible = keys, ineligible = []\<rparr>
          else
            (let ivs = chaos_intervals os; ended = ended_map cs ivs t w in
             if \<not> list_ex (\<lambda>c. anchors c ivs t w) cs then \<lparr>eligible = keys, ineligible = []\<rparr>
             else \<lparr>eligible = filter (\<lambda>k. map_of ended k \<noteq> Some True) keys,
                   ineligible = filter (\<lambda>k. map_of ended k = Some True) keys\<rparr>))"

section \<open>Properties\<close>

lemma map_of_ended: "distinct (map actor cs) \<Longrightarrow> c \<in> set cs \<Longrightarrow>
  map_of (ended_map cs ivs t w) (actor c) = Some (candidate_ended c ivs t w)"
proof -
  have "map_of (fold (\<lambda>c d. AList.update (actor c) (candidate_ended c ivs t w) d) cs d) (actor c)
      = Some (candidate_ended c ivs t w)" if "distinct (map actor cs)" "c \<in> set cs" for d
    using that
  proof (induction cs arbitrary: d)
    case (Cons a cs)
    have other: "map_of (fold (\<lambda>c d. AList.update (actor c) (candidate_ended c ivs t w) d) cs d) k = map_of d k"
      if "k \<notin> set (map actor cs)" for k and d
      using that by (induction cs arbitrary: d) (auto simp: update_conv')
    from Cons show ?case
      by (cases "c = a") (auto simp: other update_conv')
  qed simp
  then show "distinct (map actor cs) \<Longrightarrow> c \<in> set cs \<Longrightarrow> ?thesis"
    by (simp add: ended_map_def)
qed

text \<open>The slots hold the earliest time of each reason.\<close>

definition event_times :: "chaos_observation list \<Rightarrow> actor_key \<Rightarrow> string \<Rightarrow> instant list" where
  "event_times os k r = map (\<lambda>o1. the (chaos_at o1))
     (filter (\<lambda>o1. relevant o1 \<and> (chaos_kind o1, chaos_name o1) = k \<and> chaos_reason o1 = r) os)"

lemma slot_update: "slot (AList.update k v d) k' = (if k = k' then v else slot d k')"
  by (simp add: slot_def update_conv')

lemma found_slots_min:
  "map_of (slot (found_slots os d) k) r =
     py_min ((case map_of (slot d k) r of None \<Rightarrow> [] | Some t \<Rightarrow> [t]) @ event_times os k r)"
proof (induction os arbitrary: d)
  case Nil
  then show ?case by (simp add: event_times_def split: option.split)
next
  case (Cons o1 os)
  show ?case
  proof (cases "relevant o1")
    case False
    with Cons show ?thesis by (simp add: event_times_def)
  next
    case True
    define sl where "sl = slot d (chaos_kind o1, chaos_name o1)"
    define t where "t = the (chaos_at o1)"
    have step: "found_slots (o1 # os) d = found_slots os (AList.update (chaos_kind o1, chaos_name o1)
        (if (case map_of sl (chaos_reason o1) of None \<Rightarrow> True | Some t' \<Rightarrow> t < t')
         then AList.update (chaos_reason o1) t sl else sl) d)"
      using True unfolding sl_def t_def by (simp add: Let_def)
    have times: "event_times (o1 # os) k r =
        (if (chaos_kind o1, chaos_name o1) = k \<and> chaos_reason o1 = r then t # event_times os k r else event_times os k r)"
      using True by (auto simp: event_times_def t_def)
    show ?thesis
      unfolding step times Cons.IH slot_update
      by (auto simp: update_conv' sl_def min_def split: option.splits)
  qed
qed

lemma map_of_chaos_intervals:
  "map_of (chaos_intervals os) k = Some (a, r) \<Longrightarrow>
     a = py_min (event_times os k ''Applied'') \<and> r = py_min (event_times os k ''Recovered'')"
proof -
  assume "map_of (chaos_intervals os) k = Some (a, r)"
  then obtain sl where "map_of (found_slots os []) k = Some sl" "a = map_of sl ''Applied''" "r = map_of sl ''Recovered''"
    by (auto simp: chaos_intervals_def map_of_map case_prod_beta)
  then show ?thesis
    using found_slots_min [of os "[]" k "''Applied''"] found_slots_min [of os "[]" k "''Recovered''"]
    by (simp add: slot_def)
qed

lemma leaders_cases:
  obtains (unchanged) "leaders cs os w = \<lparr>eligible = map actor cs, ineligible = []\<rparr>"
  | (acted) t where "first_onset cs = Some t" "list_ex (\<lambda>c. anchors c (chaos_intervals os) t w) cs"
      "eligible (leaders cs os w) =
         filter (\<lambda>k. map_of (ended_map cs (chaos_intervals os) t w) k \<noteq> Some True) (map actor cs)"
      "ineligible (leaders cs os w) =
         filter (\<lambda>k. map_of (ended_map cs (chaos_intervals os) t w) k = Some True) (map actor cs)"
proof (cases "first_onset cs")
  case None
  then show thesis by (intro unchanged) (simp add: leaders_def Let_def)
next
  case (Some t)
  show thesis
  proof (cases "length cs < 2 \<or> \<not> list_ex (\<lambda>c. anchors c (chaos_intervals os) t w) cs")
    case True
    with Some show thesis by (intro unchanged) (auto simp: leaders_def Let_def)
  next
    case False
    then show thesis by (intro acted [OF Some]) (simp_all add: leaders_def Let_def Some)
  qed
qed

text \<open>
  Leadership is withheld only from candidates whose effect ended. For candidates of distinct actors,
  the rule splits them, in their given order, into eligible and ineligible ones; an ineligible
  candidate's observed effect ended more than the window before the first onset, some linked
  candidate tied to that onset stays eligible, and at least one candidate always is.
\<close>

theorem leaders_sound:
  assumes "distinct (map actor cs)" and "cs \<noteq> []"
  shows "eligible (leaders cs os w) \<noteq> [] \<and>
    subseq (eligible (leaders cs os w)) (map actor cs) \<and>
    set (eligible (leaders cs os w)) \<union> set (ineligible (leaders cs os w)) = set (map actor cs) \<and>
    set (eligible (leaders cs os w)) \<inter> set (ineligible (leaders cs os w)) = {} \<and>
    (\<forall>c\<in>set cs. actor c \<in> set (ineligible (leaders cs os w)) \<longrightarrow>
       (\<exists>t e. first_onset cs = Some t \<and> fin (effect_interval c (chaos_intervals os)) = Some e \<and> e + w < t \<and>
          (\<exists>d\<in>set cs. actor d \<in> set (eligible (leaders cs os w)) \<and> linked d \<and>
             displacing d (effect_interval d (chaos_intervals os)) t w)))"
proof (cases rule: leaders_cases [of cs os w])
  case unchanged
  with assms show ?thesis by simp
next
  case (acted t)
  let ?ivs = "chaos_intervals os"
  note ended = map_of_ended [OF assms(1), of _ ?ivs t w]
  from acted(2) obtain d where d: "d \<in> set cs" "anchors d ?ivs t w"
    by (auto simp: list_ex_iff)
  then have el: "actor d \<in> set (eligible (leaders cs os w))"
    using ended [OF d(1)] by (simp add: acted anchors_def)
  then have "eligible (leaders cs os w) \<noteq> []" by auto
  moreover have "\<exists>e. fin (effect_interval c ?ivs) = Some e \<and> e + w < t"
    if "c \<in> set cs" "actor c \<in> set (ineligible (leaders cs os w))" for c
    using that ended [OF that(1)]
    by (auto simp: acted candidate_ended_def ended_before_def split: option.splits)
  moreover have "linked d" "displacing d (effect_interval d ?ivs) t w"
    using d(2) by (simp_all add: anchors_def)
  moreover have "subseq (eligible (leaders cs os w)) (map actor cs)" by (simp add: acted(3))
  moreover have "set (eligible (leaders cs os w)) \<union> set (ineligible (leaders cs os w)) = set (map actor cs)"
    "set (eligible (leaders cs os w)) \<inter> set (ineligible (leaders cs os w)) = {}"
    unfolding acted(3,4) by auto
  ultimately show ?thesis using d(1) el acted(1) by blast
qed

definition view_of :: "string \<Rightarrow> instant \<Rightarrow> candidate_view" where
  "view_of n t = \<lparr>actor = (''PodChaos'', n), onset = Some 100000000,
     initiating = [\<lparr>view_kind = ''FAULT_INJECTION'', view_at = Some t, view_summary = ''x''\<rparr>], linked = True\<rparr>"

definition recovery :: "string \<Rightarrow> instant \<Rightarrow> chaos_observation" where
  "recovery n t = \<lparr>chaos_kind = ''PodChaos'', chaos_name = n, chaos_reason = ''Recovered'', chaos_at = Some t\<rparr>"

lemmas relevance_eval = view_of_def recovery_def leaders_def first_onset_def map_filter_def
  chaos_intervals_def Let_def relevant_def slot_def CHAOS_KINDS_def ended_map_def candidate_ended_def
  ended_before_def effect_interval_def dated_def or_else_def anchors_def displacing_def RESOLUTION_def second_def

theorem leaders_sound_witness:
  "eligible (leaders [view_of ''a'' 99000000, view_of ''b'' 10000000] [recovery ''b'' 20000000] 5000000)
     = [(''PodChaos'', ''a'')]
   \<and> (\<exists>t e. fin (effect_interval (view_of ''b'' 10000000) (chaos_intervals [recovery ''b'' 20000000])) = Some e
        \<and> e + 5000000 < t)"
proof -
  let ?cs = "[view_of ''a'' 99000000, view_of ''b'' 10000000]" and ?os = "[recovery ''b'' 20000000]"
  have *: "leaders ?cs ?os 5000000 = \<lparr>eligible = [(''PodChaos'', ''a'')], ineligible = [(''PodChaos'', ''b'')]\<rparr>"
    by (simp add: relevance_eval)
  have "distinct (map actor ?cs)" by (simp add: view_of_def)
  from leaders_sound [OF this, of ?os 5000000] * show ?thesis
    by (auto simp: view_of_def)
qed

text \<open>
  The guarantee needs distinct actors: an actor key is a kind and a name without a namespace, and
  the verdicts are kept per key, so a candidate tied to the onset takes the verdict of a later one of
  the same key, and then nobody is left to lead.
\<close>

lemma leaders_may_be_empty:
  "\<exists>cs os w. cs \<noteq> [] \<and> eligible (leaders cs os w) = []"
proof -
  have "eligible (leaders
     [\<lparr>actor = (''Deployment'', ''cart''), onset = Some 100000000,
        initiating = [\<lparr>view_kind = ''IMAGE_CHANGE'', view_at = Some 99000000, view_summary = ''x''\<rparr>], linked = True\<rparr>,
      \<lparr>actor = (''Deployment'', ''cart''), onset = Some 100000000,
        initiating = [\<lparr>view_kind = ''SPEC_CHANGE'', view_at = Some 10, view_summary = ''spec changed: f: 1 -> 2''\<rparr>,
          \<lparr>view_kind = ''SPEC_CHANGE'', view_at = Some 20, view_summary = ''spec changed: f: 2 -> 1''\<rparr>], linked = True\<rparr>]
     [] 5000000) = []"
    by (simp add: relevance_eval spec_match_def starts_with_def newline_def)
  then show ?thesis by blast
qed

text \<open>
  An experiment's effect interval is read from its own Events only: it runs from the earliest dated
  \<open>Applied\<close> (or the first finding, when none was seen) to the earliest dated \<open>Recovered\<close> of
  exactly that kind and name, and stays open when no recovery was observed.
\<close>

theorem experiment_interval:
  assumes "fst (actor c) \<in> set CHAOS_KINDS"
  shows "fin (effect_interval c (chaos_intervals os)) = py_min (event_times os (actor c) ''Recovered'')
    \<and> start (effect_interval c (chaos_intervals os)) =
        or_else (py_min (event_times os (actor c) ''Applied''))
          (case dated (initiating c) of [] \<Rightarrow> None | f # _ \<Rightarrow> view_at f)"
proof (cases "map_of (chaos_intervals os) (actor c)")
  case None
  then have "slot (found_slots os []) (actor c) = []"
    by (auto simp: chaos_intervals_def map_of_map case_prod_beta slot_def split: option.splits)
  then have "py_min (event_times os (actor c) r) = None" for r
    using found_slots_min [of os "[]" "actor c" r] by (simp add: slot_def)
  with assms None show ?thesis by (simp add: effect_interval_def Let_def)
next
  case (Some p)
  obtain a r where "p = (a, r)" by (cases p)
  with map_of_chaos_intervals [of os "actor c" a r] Some assms show ?thesis
    by (simp add: effect_interval_def Let_def)
qed

theorem experiment_interval_witness:
  "fin (effect_interval (view_of ''b'' 10) (chaos_intervals [recovery ''b'' 30, recovery ''b'' 20, recovery ''a'' 5]))
     = Some 20"
  using experiment_interval [of "view_of ''b'' 10" "[recovery ''b'' 30, recovery ''b'' 20, recovery ''a'' 5]"]
  by (simp add: relevance_eval event_times_def)

end
