(* ===== verification/Episode_End_Correct.thy ===== *)
theory Episode_End_Correct
  imports Episode_End
begin

text \<open>
  Correctness of the ended-episode rule: an end rests on an observation of exactly that Pod instance,
  missing data never ends an episode, and what stays pending is pending until the maturity boundary
  only.
\<close>

section \<open>Observed ends\<close>

definition deletion_observed ::
  "string \<Rightarrow> object_version list \<Rightarrow> pod_status list \<Rightarrow> instant \<Rightarrow> instant \<Rightarrow> bool" where
  "deletion_observed u versions statuses t e \<longleftrightarrow> e \<le> t \<and>
     (\<exists>v\<in>set versions. instance_uid v = Some u \<and> lifecycle v = DELETED
        \<and> evidence_id v \<noteq> ''cluster:missing'' \<and> observed_at v = e) \<and>
     (\<forall>v\<in>set versions. instance_uid v \<in> {Some u, None} \<longrightarrow> observed_at v \<le> e) \<and>
     (\<forall>s\<in>set statuses. pod_uid s \<in> {Some u, None} \<longrightarrow> pod_observed_at s \<le> e)"

definition readiness_observed ::
  "string \<Rightarrow> pod_status list \<Rightarrow> instant \<Rightarrow> instant \<Rightarrow> instant \<Rightarrow> bool" where
  "readiness_observed u statuses t boundary e \<longleftrightarrow> e \<le> t \<and>
     (\<exists>l\<in>set statuses. pod_uid l = Some u \<and> ready l = Some True \<and> ready_since l = Some e
        \<and> boundary \<le> pod_observed_at l \<and>
        (\<forall>s\<in>set statuses. pod_uid s = Some u \<and> e \<le> pod_observed_at s
           \<and> pod_observed_at s \<le> pod_observed_at l \<longrightarrow> ready s = Some True \<and> ready_since s = Some e))"

lemma terminated_Some:
  assumes "terminated u versions statuses t = Some (e, ob, ev, dec)"
  shows "deletion_observed u versions statuses t e"
proof -
  define own where "own = own_versions u versions"
  from assms have own: "own \<noteq> []" and tomb: "real_tombstone t (last own)"
    and v: "\<not> list_ex (\<lambda>v. instance_uid v \<in> {Some u, None} \<and> observed_at v > observed_at (last own)) versions"
    and s: "\<not> list_ex (\<lambda>s. pod_uid s \<in> {Some u, None} \<and> pod_observed_at s > observed_at (last own)) statuses"
    and e: "e = observed_at (last own)"
    by (auto simp: terminated_def Let_def own_def split: if_splits)
  from own have "last own \<in> set versions" "instance_uid (last own) = Some u"
    using last_in_set [OF own] by (auto simp: own_def own_versions_def)
  with tomb v s e show ?thesis
    by (auto simp: deletion_observed_def real_tombstone_def SYNTHETIC_TOMBSTONES_def list_ex_iff not_less)
qed

lemma recovered_Some:
  assumes "recovered u statuses t boundary = Some (e, ob, ev, dec)"
  shows "readiness_observed u statuses t boundary e"
proof -
  from assms obtain l where l: "max_by pod_observed_at
      (filter (\<lambda>s. pod_observed_at s \<ge> boundary \<and> ready_across t s) (own_statuses u statuses)) = Some l"
    and since: "ready_since l = Some e"
    and agree: "\<not> list_ex (\<lambda>s. e \<le> pod_observed_at s \<and> pod_observed_at s \<le> pod_observed_at l
        \<and> (ready s \<noteq> Some True \<or> ready_since s \<noteq> Some e)) (own_statuses u statuses)"
    by (auto simp: recovered_def Let_def split: option.splits if_splits)
  from max_by_Some [OF l] have "l \<in> set (own_statuses u statuses)" "boundary \<le> pod_observed_at l" "ready_across t l"
    by auto
  with since agree show ?thesis
    by (auto simp: readiness_observed_def own_statuses_def ready_across_def list_ex_iff intro!: bexI [of _ l])
qed

lemma latest_time_ge: "t \<in> set ts \<Longrightarrow> t \<le> latest_time ts"
  by (auto simp: latest_time_def py_max_Some split: option.splits)

lemma end_of_instance_Some:
  assumes "end_of_instance actor versions statuses t boundary (u, ts) = Some x"
  shows "end_uid x = u \<and> (\<forall>m\<in>set ts. m < end_at x) \<and>
    (case end_basis x of
       TERMINATED \<Rightarrow> deletion_observed u versions statuses t (end_at x)
     | RECOVERED \<Rightarrow> readiness_observed u statuses t boundary (end_at x))"
proof (cases "terminated u versions statuses t")
  case None
  with assms obtain e ob ev dec where "recovered u statuses t boundary = Some (e, ob, ev, dec)"
    "latest_time ts < e" "end_uid x = u" "end_at x = e" "end_basis x = RECOVERED"
    by (auto simp: end_of_instance_def split: option.splits if_splits)
  then show ?thesis using recovered_Some latest_time_ge by fastforce
next
  case (Some p)
  then obtain e ob ev dec where "terminated u versions statuses t = Some (e, ob, ev, dec)"
    by (cases p) auto
  with assms Some have "latest_time ts < e" "end_uid x = u" "end_at x = e" "end_basis x = TERMINATED"
    by (auto simp: end_of_instance_def split: if_splits)
  then show ?thesis using terminated_Some \<open>terminated _ _ _ _ = Some (e, _)\<close> latest_time_ge by fastforce
qed

lemma manifestation_groups_Some:
  assumes "manifestation_groups h onset = Some (actor, groups)"
  shows "actor = causal_actor h \<and> kind actor = ''Pod'' \<and> claim_findings h \<noteq> [] \<and> \<not> out_of_scope h \<and>
    (\<forall>f\<in>set (claim_findings h). \<exists>i t ts. entity_instance f = Some i \<and> at f = Some t
       \<and> (uid i, ts) \<in> set groups \<and> t \<in> set ts)"
proof -
  let ?u = "\<lambda>f. uid (the (entity_instance f))" and ?t = "\<lambda>f. the (at f)"
  from assms have *: "actor = causal_actor h" "kind actor = ''Pod''" "claim_findings h \<noteq> []" "\<not> out_of_scope h"
    "\<not> list_ex (\<lambda>f. entity_instance f = None \<or> at f = None) (claim_findings h)"
    and g: "groups = group_by ?u ?t (claim_findings h) []"
    by (auto simp: manifestation_groups_def Let_def split: if_splits)
  have "\<exists>i t ts. entity_instance f = Some i \<and> at f = Some t \<and> (uid i, ts) \<in> set groups \<and> t \<in> set ts"
    if f: "f \<in> set (claim_findings h)" for f
  proof -
    from *(5) f obtain i t where i: "entity_instance f = Some i" "at f = Some t"
      by (fastforce simp: list_ex_iff)
    have "map_of groups (?u f) = Some (map ?t (filter (\<lambda>x. ?u x = ?u f) (claim_findings h)))"
      using f unfolding g by (auto simp: group_by_empty)
    then have "(?u f, map ?t (filter (\<lambda>x. ?u x = ?u f) (claim_findings h))) \<in> set groups"
      by (rule map_of_SomeD)
    with f i show ?thesis by force
  qed
  with * show ?thesis by blast
qed

text \<open>
  C34: An episode is ended only by observations of its own Pod instances. When the rule applies, the
  actor is a Pod without initiating evidence, and every finding the claim is judged by (there is at
  least one) is a manifestation of that Pod naming its exact instance, which positively ended after
  that manifestation and by the onset: a real tombstone with no later sighting of it or of an
  unidentified Pod, or an observation after onset plus grace that it was Ready since before the
  onset, with no observation in between that disagrees. Missing data never ends an episode.
\<close>

theorem ended_episode_sound:
  assumes "assess_ended_episode h history statuses onset grace = Some e"
  shows "\<exists>t. onset = Some t \<and> kind (causal_actor h) = ''Pod'' \<and> initiating_findings h = []
    \<and> claim_findings h \<noteq> [] \<and>
    (\<forall>f\<in>set (claim_findings h). finding_kind f \<in> {FAILURE_EVENT, CONTAINER_FAILURE} \<and> entity f = causal_actor h \<and>
       (\<exists>i m x. entity_instance f = Some i \<and> at f = Some m \<and> x \<in> set (instances e) \<and> m < end_at x \<and>
          (case end_basis x of
             TERMINATED \<Rightarrow> deletion_observed (uid i) (history (causal_actor h))
                              (statuses_of (causal_actor h) statuses) t (end_at x)
           | RECOVERED \<Rightarrow> readiness_observed (uid i) (statuses_of (causal_actor h) statuses) t (t + grace)
                              (end_at x))))"
proof -
  let ?a = "causal_actor h"
  from assms obtain t actor groups where t: "onset = Some t"
    and mg: "manifestation_groups h onset = Some (actor, groups)"
    by (auto simp: assess_ended_episode_def split: option.splits)
  note g = manifestation_groups_Some [OF mg]
  from assms t mg g have ends: "those (map (end_of_instance ?a (history ?a) (statuses_of ?a statuses) t (t + grace))
      (sort_key fst groups)) = Some (instances e)"
    by (auto simp: assess_ended_episode_def split: option.splits)
  have scope: "initiating_findings h = []" and kinds: "\<forall>f\<in>set (claim_findings h).
      finding_kind f \<in> {FAILURE_EVENT, CONTAINER_FAILURE} \<and> entity f = ?a"
    using g by (auto simp: out_of_scope_def MANIFESTATION_KINDS_def list_ex_iff)
  have "\<exists>i m x. entity_instance f = Some i \<and> at f = Some m \<and> x \<in> set (instances e) \<and> m < end_at x \<and>
      (case end_basis x of
         TERMINATED \<Rightarrow> deletion_observed (uid i) (history ?a) (statuses_of ?a statuses) t (end_at x)
       | RECOVERED \<Rightarrow> readiness_observed (uid i) (statuses_of ?a statuses) t (t + grace) (end_at x))"
    if f: "f \<in> set (claim_findings h)" for f
  proof -
    from g f obtain i m ts where i: "entity_instance f = Some i" "at f = Some m"
      and ts: "(uid i, ts) \<in> set groups" "m \<in> set ts" by blast
    have "(uid i, ts) \<in> set (sort_key fst groups)" using ts by simp
    from those_map_Some [OF ends this] obtain x where "x \<in> set (instances e)"
      "end_of_instance ?a (history ?a) (statuses_of ?a statuses) t (t + grace) (uid i, ts) = Some x"
      by blast
    with end_of_instance_Some [OF this(2)] i ts show ?thesis by blast
  qed
  with t g scope kinds show ?thesis by blast
qed

definition sample_pod :: entity_ref where
  "sample_pod = \<lparr>kind = ''Pod'', name = ''cart-1'', namespace = ''shop''\<rparr>"

definition sample_failure :: "instant \<Rightarrow> finding" where
  "sample_failure t =
     \<lparr>finding_kind = CONTAINER_FAILURE, entity = sample_pod,
      entity_instance = Some \<lparr>instance_entity = sample_pod, uid = ''u1''\<rparr>, at = Some t,
      summary = ''OOMKilled'', evidence_ids = [''e1''], related = [], details = [],
      temporal_role = CONSEQUENCE, incident_onset = Some 50, onset_delta = None\<rparr>"

definition sample_pod_hypothesis :: hypothesis where
  "sample_pod_hypothesis =
     \<lparr>hypothesis_id = ''h1'', hypothesis_key = ''k1'', causal_actor = sample_pod, claim_version = ''m21.v2'',
      actor_instance = Some \<lparr>instance_entity = sample_pod, uid = ''u1''\<rparr>, mechanism = ''MANIFESTATION'',
      mechanism_family = ''MANIFESTATION'', causal_family_id = '''',
      episode_onset = Some 50, symptom_entities = [], relation_evidence_ids = [], members = [], manifestations = [],
      findings = [sample_failure 10], initiating_findings = [], supporting_findings = [],
      contradictory_findings = [], causal_paths = [], causal_explanation = ''UNLINKED''\<rparr>"

definition sample_status :: "instant \<Rightarrow> instant \<Rightarrow> pod_status" where
  "sample_status t since =
     \<lparr>pod = sample_pod, pod_uid = Some ''u1'', pod_observed_at = t, ready = Some True,
      ready_since = Some since, pod_evidence = ''s1''\<rparr>"

lemmas episode_eval = sample_pod_hypothesis_def sample_failure_def sample_pod_def sample_status_def
  assess_ended_episode_def manifestation_groups_def claim_findings_def actor_findings_def
  out_of_scope_def episode_source_capable_initiating_findings_def SOURCE_CAPABLE_INITIATING_KINDS_def
  MANIFESTATION_KINDS_def end_of_instance_def terminated_def own_versions_def recovered_def
  own_statuses_def statuses_of_def ready_across_def latest_time_def push_def

theorem ended_episode_sound_witness:
  "\<exists>e. assess_ended_episode sample_pod_hypothesis (\<lambda>_. []) [sample_status 90 20] (Some 50) 30 = Some e
    \<and> (\<exists>x\<in>set (instances e). 10 < end_at x \<and> end_basis x = RECOVERED)"
proof -
  obtain e where e: "assess_ended_episode sample_pod_hypothesis (\<lambda>_. []) [sample_status 90 20] (Some 50) 30 = Some e"
    and basis: "map end_basis (instances e) = [RECOVERED]"
    by (simp add: episode_eval)
  from ended_episode_sound [OF e] obtain x where "x \<in> set (instances e)" "10 < end_at x"
    by (auto simp: claim_findings_def actor_findings_def sample_pod_hypothesis_def sample_failure_def)
  moreover have "end_basis x = RECOVERED"
    using basis \<open>x \<in> set (instances e)\<close> by (cases "instances e") auto
  ultimately show ?thesis using e by blast
qed

section \<open>Pending requirements\<close>

definition requirement_ok :: "instant option \<Rightarrow> duration \<Rightarrow> instant option \<Rightarrow> instance_requirement \<Rightarrow> bool" where
  "requirement_ok onset grace evaluation r \<longleftrightarrow>
     (requirement_result r = None) \<noteq> (requirement_reason r = None) \<and>
     (\<forall>p. requirement_result r = Some p \<and> result_status p = PENDING \<longrightarrow>
        (\<exists>t. onset = Some t \<and> not_before p = Some (t + grace) \<and> \<not> matured evaluation (t + grace)))"

definition requirements_ok ::
  "instant option \<Rightarrow> duration \<Rightarrow> instant option \<Rightarrow> episode_evaluations \<Rightarrow> bool" where
  "requirements_ok onset grace evaluation acc \<longleftrightarrow>
     (\<forall>(i, rs)\<in>set (instance_requirements acc). \<forall>r\<in>set rs. requirement_ok onset grace evaluation r)"

lemma set_update_subset: "set (AList.update k v d) \<subseteq> insert (k, v) (set d)"
  by (induction d) auto

lemma requirements_ok_update:
  assumes "requirements_ok onset grace evaluation acc" "\<forall>r\<in>set rs. requirement_ok onset grace evaluation r"
    and "instance_requirements acc' = AList.update i rs (instance_requirements acc)"
  shows "requirements_ok onset grace evaluation acc'"
  using assms set_update_subset [of i rs "instance_requirements acc"]
  by (fastforce simp: requirements_ok_def)

lemma requirements_ok_extend:
  assumes ok: "requirements_ok onset grace evaluation acc" and r: "requirement_ok onset grace evaluation r"
    and eq: "instance_requirements acc' = extend_key i [r] (instance_requirements acc)"
  shows "requirements_ok onset grace evaluation acc'"
proof (rule requirements_ok_update [OF ok _ eq [unfolded extend_key_def]])
  show "\<forall>q\<in>set ((case map_of (instance_requirements acc) i of None \<Rightarrow> [] | Some ws \<Rightarrow> ws) @ [r]).
      requirement_ok onset grace evaluation q"
    using ok r map_of_SomeD [of "instance_requirements acc" i]
    by (cases "map_of (instance_requirements acc) i") (fastforce simp: requirements_ok_def)+
qed

lemma passed_requirement_ok [simp]: "requirement_ok onset grace evaluation (passed_requirement u)"
  by (simp add: requirement_ok_def passed_requirement_def result_passed_def)

lemma recovery_precondition_requirement:
  "requirement_of u (recovery_precondition u' statuses t (t + grace) evaluation m) = Some r \<Longrightarrow>
     requirement_ok (Some t) grace evaluation r"
  by (auto simp: recovery_precondition_def Let_def requirement_of_def requirement_ok_def outcome_result_def
      outcome_reason_def no_outcome_def result_disqualified_def result_pending_def
      split: option.splits if_splits)

lemma evaluate_instance_ok:
  assumes "requirements_ok (Some t) grace evaluation acc"
  shows "requirements_ok (Some t) grace evaluation
    (evaluate_instance i versions statuses t (t + grace) evaluation g acc)"
proof (cases g)
  case (Pair u ts)
  let ?oc = "recovery_precondition u statuses t (t + grace) evaluation (latest_time ts)"
  show ?thesis
  proof (cases "terminated u versions statuses t \<noteq> None \<or> recovered u statuses t (t + grace) \<noteq> None")
    case True
    then show ?thesis
      by (intro requirements_ok_extend [OF assms passed_requirement_ok])
        (auto simp: evaluate_instance_def Pair)
  next
    case False
    show ?thesis
    proof (cases "requirement_of u ?oc")
      case None
      with False assms show ?thesis
        by (auto simp: evaluate_instance_def Pair Let_def requirements_ok_def)
    next
      case (Some r)
      with False show ?thesis
        by (intro requirements_ok_extend [OF assms recovery_precondition_requirement [OF Some]])
          (auto simp: evaluate_instance_def Pair Let_def)
    qed
  qed
qed

interpretation instances: invariant_machine
  "evaluate_instance i versions statuses t (t + grace) evaluation" "requirements_ok (Some t) grace evaluation"
  by unfold_locales (rule evaluate_instance_ok)

interpretation episodes: invariant_machine
  "evaluate_hypothesis history statuses onset grace evaluation" "requirements_ok onset grace evaluation"
proof unfold_locales
  fix acc :: episode_evaluations and h :: hypothesis
  assume ok: "requirements_ok onset grace evaluation acc"
  have exit: "requirements_ok onset grace evaluation (acc\<lparr>instance_requirements := AList.update (hypothesis_id h)
      (map (\<lambda>u. \<lparr>requirement_uid = u, requirement_result = None, requirement_reason = Some SCOPE_EXITED\<rparr>) us)
      (instance_requirements acc)\<rparr>)" for us
    by (rule requirements_ok_update [OF ok]) (auto simp: requirement_ok_def)
  have pos: "requirements_ok onset grace evaluation
      (acc\<lparr>ended_episodes := AList.update (hypothesis_id h) e (ended_episodes acc),
           instance_requirements := AList.update (hypothesis_id h)
             (map (\<lambda>x. passed_requirement (end_uid x)) (instances e)) (instance_requirements acc)\<rparr>)" for e
    by (rule requirements_ok_update [OF ok]) auto
  show "requirements_ok onset grace evaluation (evaluate_hypothesis history statuses onset grace evaluation h acc)"
    using ok exit pos instances.run_inv
    by (auto simp: evaluate_hypothesis_def split: option.splits)
qed

text \<open>
  Nothing stays pending forever. Every requirement the rule reports for a Pod instance carries exactly
  one result or audit reason; a pending one waits for onset plus grace, and is only reported while
  that boundary has not passed. Evaluated at or after the boundary, no requirement is pending.
\<close>

theorem pending_requirements_mature:
  assumes "(i, rs) \<in> set (instance_requirements (evaluate_ended_episodes hs history statuses onset grace evaluation))"
    and "r \<in> set rs"
  shows "(requirement_result r = None) \<noteq> (requirement_reason r = None) \<and>
    (\<forall>p. requirement_result r = Some p \<and> result_status p = PENDING \<longrightarrow>
       (\<exists>t. onset = Some t \<and> not_before p = Some (t + grace) \<and>
          (\<forall>now. evaluation = Some now \<longrightarrow> now < t + grace)))"
proof -
  have "requirements_ok onset grace evaluation
      \<lparr>ended_episodes = [], preconditions = [], reasons = [], instance_requirements = []\<rparr>"
    by (simp add: requirements_ok_def)
  from episodes.run_inv [OF this, of history statuses hs] assms have "requirement_ok onset grace evaluation r"
    unfolding evaluate_ended_episodes_def requirements_ok_def by blast
  then show ?thesis by (auto simp: requirement_ok_def matured_def)
qed

theorem pending_requirements_mature_witness:
  "\<exists>rs r. (''h1'', rs) \<in> set (instance_requirements
       (evaluate_ended_episodes [sample_pod_hypothesis] (\<lambda>_. []) [sample_status 60 20] (Some 50) 30 (Some 70)))
     \<and> r \<in> set rs \<and> (\<exists>p. requirement_result r = Some p \<and> result_status p = PENDING \<and> not_before p = Some 80)"
proof -
  let ?ev = "evaluate_ended_episodes [sample_pod_hypothesis] (\<lambda>_. []) [sample_status 60 20] (Some 50) 30 (Some 70)"
  define r where "r = \<lparr>requirement_uid = ''u1'', requirement_result = Some (result_pending 80), requirement_reason = None\<rparr>"
  have mem: "(''h1'', [r]) \<in> set (instance_requirements ?ev)"
    by (simp add: evaluate_ended_episodes_def evaluate_hypothesis_def episode_eval evaluate_instance_def
        recovery_precondition_def matured_def outcome_result_def requirement_of_def extend_key_def r_def)
  from pending_requirements_mature [OF mem, of r] mem show ?thesis
    by (auto simp: r_def result_pending_def)
qed

end
