(* ===== verification/Causal_Roles_Correct.thy ===== *)
theory Causal_Roles_Correct
  imports Causal_Roles
begin

text \<open>
  Roles and eligibility rest on positive evidence: what each role guarantees, and that a hypothesis
  leaves root-cause competition exactly when its actor is a verified propagated effect without
  initiating evidence, or its episode ended.
\<close>

section \<open>Roles\<close>

text \<open>What a verified incoming edge says of the actor.\<close>

definition verified_effect :: "hypothesis \<Rightarrow> edge \<Rightarrow> bool" where
  "verified_effect h e \<longleftrightarrow>
     (\<exists>b. affected_binding e = Some b \<and> binding_namespace b = namespace (causal_actor h) \<and>
        ((kind (causal_actor h) = ''Deployment'' \<and> deployment b = Some (name (causal_actor h))
            \<and> affected_deployment_verification e = Some VERIFIED)
         \<or> (kind (causal_actor h) = ''Pod'' \<and> binding_pod b = Some (name (causal_actor h))
            \<and> (\<exists>u. actor_instance_uid h = Some u \<and> binding_pod_uid b = Some u)
            \<and> affected_pod_verification e = Some VERIFIED)))"

lemma endpoint_VERIFIED:
  "endpoint_state actor u (Some b) dep pd = Some VERIFIED \<longleftrightarrow>
     binding_namespace b = namespace actor \<and>
     ((kind actor = ''Deployment'' \<and> deployment b = Some (name actor) \<and> dep = Some VERIFIED)
      \<or> (kind actor = ''Pod'' \<and> binding_pod b = Some (name actor) \<and> u \<noteq> None \<and> binding_pod_uid b = u
         \<and> pd = Some VERIFIED))"
  by (auto simp: endpoint_state_def or_unresolved_def split: option.splits if_splits)

lemma affected_VERIFIED: "affected_state h e = Some VERIFIED \<longleftrightarrow> verified_effect h e"
proof (cases "affected_binding e")
  case None
  then show ?thesis by (simp add: affected_state_def endpoint_state_def verified_effect_def)
next
  case (Some b)
  then show ?thesis
    unfolding affected_state_def Some endpoint_VERIFIED verified_effect_def by auto
qed

lemma incoming_VERIFIED: "set (incoming h es VERIFIED) = {e \<in> set es. verified_effect h e}"
  by (auto simp: incoming_def affected_VERIFIED)

lemma role_of_effect:
  "role_of h es \<in> {PROPAGATED_EFFECT, MANIFESTATION} \<longleftrightarrow>
     incoming h es VERIFIED \<noteq> [] \<and> actor_aligned_initiating_findings h = []"
  by (auto simp: role_of_def role_mixed_def)

text \<open>
  A causal role is a positive observation. An actor is a propagated effect or a manifestation exactly
  when it has no initiating evidence of its own and some edge returned a failure to exactly it (for a
  Pod, the one instance its findings name) with a verified binding; a manifestation moreover has a
  failure finding dated within such an edge. An actor is source capable only with initiating
  evidence of its own and no such edge. Both together leave the role unknown.
\<close>

theorem causal_role_sound:
  "(role_of h es \<in> {PROPAGATED_EFFECT, MANIFESTATION} \<longleftrightarrow>
      actor_aligned_initiating_findings h = [] \<and> (\<exists>e\<in>set es. verified_effect h e))
   \<and> (role_of h es = MANIFESTATION \<longrightarrow> (\<exists>e\<in>set es. verified_effect h e \<and>
        (\<exists>f\<in>set (findings h). \<exists>t. entity f = causal_actor h \<and> at f = Some t \<and> first_seen e \<le> t \<and> t \<le> last_seen e)))
   \<and> (role_of h es = SOURCE_CAPABLE \<longrightarrow> \<not> (\<exists>e\<in>set es. verified_effect h e) \<and>
        (\<exists>f\<in>set (findings h). entity f = causal_actor h \<and> temporal_role f = INITIATING))"
proof -
  have eff: "incoming h es VERIFIED \<noteq> [] \<longleftrightarrow> (\<exists>e\<in>set es. verified_effect h e)"
    using incoming_VERIFIED [of h es] by (metis (no_types, lifting) empty_Collect_eq set_empty)
  have "\<exists>e\<in>set es. verified_effect h e \<and>
      (\<exists>f\<in>set (findings h). \<exists>t. entity f = causal_actor h \<and> at f = Some t \<and> first_seen e \<le> t \<and> t \<le> last_seen e)"
    if "role_of h es = MANIFESTATION"
  proof -
    have "role_overlap h es" using that by (auto simp: role_of_def split: if_splits)
    then obtain e where e: "e \<in> set (incoming h es VERIFIED)" "propagation_overlaps_actor_manifestation h e"
      by (auto simp: role_overlap_def list_ex_iff)
    then obtain f where "f \<in> set (actor_manifestation_findings h)"
      "case at f of None \<Rightarrow> False | Some t \<Rightarrow> first_seen e \<le> t \<and> t \<le> last_seen e"
      by (auto simp: propagation_overlaps_actor_manifestation_def list_ex_iff)
    with e(1) show ?thesis
      by (force simp: incoming_VERIFIED actor_manifestation_findings_def actor_findings_def split: option.splits)
  qed
  moreover have "\<not> (\<exists>e\<in>set es. verified_effect h e) \<and>
      (\<exists>f\<in>set (findings h). entity f = causal_actor h \<and> temporal_role f = INITIATING)"
    if "role_of h es = SOURCE_CAPABLE"
  proof -
    from that have "incoming h es VERIFIED = []" and "actor_aligned_initiating_findings h \<noteq> []"
      by (auto simp: role_of_def split: if_splits)
    then obtain f where "f \<in> set (actor_aligned_initiating_findings h)"
      by (metis list.set_sel(1))
    with eff \<open>incoming h es VERIFIED = []\<close> show ?thesis
      by (auto simp: actor_aligned_initiating_findings_def actor_findings_def)
  qed
  ultimately show ?thesis using role_of_effect eff by blast
qed

definition sample_edge :: edge where
  "sample_edge =
     \<lparr>source_service = ''db'', affected_service = ''cart'', source_binding = None,
      affected_binding = Some \<lparr>binding_namespace = ''shop'', deployment = Some ''cart'', binding_pod = None,
        binding_pod_uid = None\<rparr>,
      source_deployment_verification = None, source_pod_verification = None,
      affected_deployment_verification = Some VERIFIED, affected_pod_verification = None,
      first_seen = 30, last_seen = 60, observed_pairs = 4, edge_evidence = [''t1'']\<rparr>"

definition sample_effect :: "string \<Rightarrow> hypothesis" where
  "sample_effect i = sample_hypothesis\<lparr>hypothesis_id := i,
     findings := [\<lparr>finding_kind = DEPENDENCY_ERRORS, entity = causal_actor sample_hypothesis,
       entity_instance = None, at = Some 40, summary = ''x'', evidence_ids = [''e1''], related = [],
       details = [], temporal_role = CONSEQUENCE, incident_onset = Some 50, onset_delta = None\<rparr>]\<rparr>"

lemmas role_eval = sample_edge_def sample_effect_def sample_hypothesis_def role_of_def role_mixed_def
  actor_aligned_initiating_findings_def actor_findings_def incoming_def affected_state_def
  endpoint_state_def or_unresolved_def actor_instance_uid_def map_filter_def Let_def
  actor_is_manifestation_only_def ROLE_MANIFESTATION_KINDS_def role_overlap_def
  propagation_overlaps_actor_manifestation_def actor_manifestation_findings_def
  SOURCE_CAPABLE_INITIATING_KINDS_def

theorem causal_role_sound_witness:
  "role_of (sample_effect ''h1'') [sample_edge] = MANIFESTATION \<and> verified_effect (sample_effect ''h1'') sample_edge"
proof -
  have r: "role_of (sample_effect ''h1'') [sample_edge] = MANIFESTATION" by (simp add: role_eval)
  with causal_role_sound [of "sample_effect ''h1''" "[sample_edge]"] show ?thesis by simp
qed

section \<open>Provenance\<close>

lemma smallest_orders_map:
  "map_of (smallest_orders cs d) i =
     py_min ((case map_of d i of None \<Rightarrow> [] | Some k \<Rightarrow> [k]) @ map fst (filter (\<lambda>c. snd c = i) cs))"
proof (induction cs arbitrary: d)
  case Nil
  then show ?case by (simp split: option.split)
next
  case (Cons c cs)
  obtain k j where c: "c = (k, j)" by (cases c)
  show ?case
    by (auto simp: c Cons update_conv' min_def split: option.splits)
qed

lemma smallest_orders_distinct: "distinct (map fst d) \<Longrightarrow> distinct (map fst (smallest_orders cs d))"
  by (induction cs d rule: smallest_orders.induct) (auto simp: distinct_update)

lemma smallest_orders_ids: "fst ` set (smallest_orders cs []) = snd ` set cs"
proof -
  have "i \<notin> fst ` set (smallest_orders cs []) \<longleftrightarrow> i \<notin> snd ` set cs" for i
  proof -
    have "i \<notin> fst ` set (smallest_orders cs []) \<longleftrightarrow> map_of (smallest_orders cs []) i = None"
      by (simp add: map_of_eq_None_iff)
    also have "\<dots> \<longleftrightarrow> filter (\<lambda>c. snd c = i) cs = []"
      by (simp add: smallest_orders_map)
    also have "\<dots> \<longleftrightarrow> i \<notin> snd ` set cs"
      by (auto simp: filter_empty_conv)
    finally show ?thesis .
  qed
  then show ?thesis by blast
qed

lemma bounded_ids_sound:
  "length (bounded_ids cs) \<le> 32 \<and> distinct (bounded_ids cs) \<and> set (bounded_ids cs) \<subseteq> snd ` set cs"
proof -
  let ?swap = "map (\<lambda>(i, k). (k, i)) (smallest_orders cs [])"
  have snds: "map snd ?swap = map fst (smallest_orders cs [])" by (simp add: case_prod_beta)
  have "distinct (map snd (sort ?swap))"
    unfolding distinct_map_sort_key snds by (rule smallest_orders_distinct) simp
  moreover have "set (map snd (sort ?swap)) = snd ` set cs"
    using smallest_orders_ids [of cs] snds by (metis list.set_map set_sort)
  moreover have "bounded_ids cs = take 32 (map snd (sort ?swap))"
    by (simp only: bounded_ids_def MAX_PROVENANCE_def)
  ultimately show ?thesis
    using set_take_subset [of 32 "map snd (sort ?swap)"] by (simp only: distinct_take length_take) auto
qed

section \<open>Eligibility\<close>

lemma aligned_subset: "set (actor_aligned_initiating_findings h) \<subseteq> set (episode_source_capable_initiating_findings h)"
  by (auto simp: actor_aligned_initiating_findings_def episode_source_capable_initiating_findings_def
      claim_findings_def actor_findings_def)

text \<open>An assessment of the hypothesis's own role never raises.\<close>

lemma assess_own_role:
  assumes "\<forall>e\<in>set es. edge_valid e"
  shows "\<exists>x. assess_root_cause_eligibility h (role_assessment es h) = Inr x \<and> elig_hypothesis x = hypothesis_id h \<and>
    (elig_state x = INELIGIBLE_PROPAGATED_EFFECT \<longleftrightarrow>
       incoming h es VERIFIED \<noteq> [] \<and> episode_source_capable_initiating_findings h = [])"
proof -
  have pairs: "sum_list (map observed_pairs (incoming h es VERIFIED)) > 0" if "incoming h es VERIFIED \<noteq> []"
  proof -
    have pos: "\<forall>e\<in>set (incoming h es VERIFIED). observed_pairs e > 0"
      using assms by (auto simp: incoming_def edge_valid_def)
    from that pos show ?thesis
    proof (induction "incoming h es VERIFIED" arbitrary: es)
      case (Cons a xs)
      have "sum_list (map observed_pairs xs) \<ge> 0"
        using Cons.hyps(2) Cons.prems(2) by (intro sum_list_nonneg) (auto simp flip: Cons.hyps(2) intro: less_imp_le)
      with Cons show ?case by (simp flip: Cons.hyps(2))
    qed simp
  qed
  have none: "actor_aligned_initiating_findings h = []" if "episode_source_capable_initiating_findings h = []"
    using aligned_subset [of h] that by simp
  show ?thesis
  proof (cases "incoming h es VERIFIED = []")
    case True
    then show ?thesis
      by (auto simp: assess_root_cause_eligibility_def role_assessment_def role_of_def role_mixed_def Let_def
          eligibility_of_def split: if_splits)
  next
    case False
    with pairs none show ?thesis
      by (auto simp: assess_root_cause_eligibility_def role_assessment_def role_of_def role_mixed_def Let_def
          eligibility_of_def split: if_splits)
  qed
qed

lemma assess_all_total:
  assumes "\<And>h. h \<in> set hs \<Longrightarrow> \<exists>x. (case role_for_hypothesis rs (hypothesis_id h) of
      None \<Rightarrow> Inr (unassessed_eligibility h) | Some a \<Rightarrow> assess_root_cause_eligibility h a) = Inr x \<and> P h x"
  shows "\<exists>xs. assess_all rs hs = Inr xs \<and> list_all2 P hs xs"
  using assms
proof (induction hs)
  case (Cons h hs)
  from Cons.IH Cons.prems obtain xs where "assess_all rs hs = Inr xs" "list_all2 P hs xs" by auto
  moreover from Cons.prems [of h] obtain x where "(case role_for_hypothesis rs (hypothesis_id h) of
      None \<Rightarrow> Inr (unassessed_eligibility h) | Some a \<Rightarrow> assess_root_cause_eligibility h a) = Inr x" "P h x"
    by auto
  ultimately show ?case by auto
qed simp

definition elig_ok :: "edge list \<Rightarrow> hypothesis \<Rightarrow> root_eligibility \<Rightarrow> bool" where
  "elig_ok es h x \<longleftrightarrow> elig_hypothesis x = hypothesis_id h \<and>
     (elig_state x = INELIGIBLE_PROPAGATED_EFFECT \<longleftrightarrow>
        incoming h es VERIFIED \<noteq> [] \<and> episode_source_capable_initiating_findings h = [])"

lemma list_all2_keys: "list_all2 (elig_ok es) hs xs \<Longrightarrow> map elig_hypothesis xs = map hypothesis_id hs"
  by (induction rule: list_all2_induct) (auto simp: elig_ok_def)

lemma list_all2_find:
  assumes "list_all2 (elig_ok es) hs xs" "h \<in> set hs"
  shows "\<exists>x\<in>set xs. elig_ok es h x"
  using assms by (induction rule: list_all2_induct) auto

text \<open>
  C35: Nothing is excluded for want of evidence. For hypotheses with distinct identifiers and valid edges,
  deriving the roles and the eligibilities never raises, and a hypothesis then is not selectable as
  root cause exactly when its episode was ended by the ended-episode rule, or a verified propagation
  reached its exact actor and the claim has no initiating evidence at all.
\<close>

theorem exclusion_needs_evidence:
  assumes ids: "distinct (map hypothesis_id hs)" and edges: "\<forall>e\<in>set es. edge_valid e"
  shows "\<exists>el. derive_root_cause_eligibilities hs (derive_hypothesis_causal_roles hs es) = Inr el \<and>
    (\<forall>h\<in>set hs. \<forall>ended. \<not> is_root_cause_selectable (with_ended_episodes ended el) (hypothesis_id h) \<longleftrightarrow>
       hypothesis_id h \<in> fst ` set ended \<or>
       ((\<exists>e\<in>set es. verified_effect h e) \<and> episode_source_capable_initiating_findings h = []))"
proof -
  let ?rs = "derive_hypothesis_causal_roles hs es"
  have keys: "map role_hypothesis (map (role_assessment es) hs) = map hypothesis_id hs"
    by (simp add: role_assessment_def)
  then have distinct: "distinct (map role_hypothesis ?rs)"
    using ids by (simp only: derive_hypothesis_causal_roles_def distinct_map_sort_key)
  have own: "role_for_hypothesis ?rs (hypothesis_id h) = Some (role_assessment es h)" if "h \<in> set hs" for h
    using find_key [OF distinct, of "role_assessment es h"] that
    by (simp add: role_for_hypothesis_def derive_hypothesis_causal_roles_def role_assessment_def)
  have "\<exists>xs. assess_all ?rs hs = Inr xs \<and> list_all2 (elig_ok es) hs xs"
    by (rule assess_all_total) (use own assess_own_role [OF edges] in \<open>auto simp: elig_ok_def\<close>)
  then obtain xs where xs: "assess_all ?rs hs = Inr xs" and ok: "list_all2 (elig_ok es) hs xs" by blast
  define el where "el = \<lparr>elig_assessments = sort_key elig_hypothesis xs, elig_ended = []\<rparr>"
  have el: "derive_root_cause_eligibilities hs ?rs = Inr el"
    using distinct xs by (simp add: derive_root_cause_eligibilities_def el_def)
  have eff: "incoming h es VERIFIED \<noteq> [] \<longleftrightarrow> (\<exists>e\<in>set es. verified_effect h e)" for h
    using incoming_VERIFIED [of h es] by (metis (no_types, lifting) empty_Collect_eq set_empty)
  have "\<not> is_root_cause_selectable (with_ended_episodes ended el) (hypothesis_id h) \<longleftrightarrow>
      hypothesis_id h \<in> fst ` set ended \<or>
      ((\<exists>e\<in>set es. verified_effect h e) \<and> episode_source_capable_initiating_findings h = [])"
    if h: "h \<in> set hs" for h ended
  proof -
    from list_all2_find [OF ok h] obtain x where x: "x \<in> set xs" "elig_ok es h x" by blast
    have "distinct (map elig_hypothesis (sort_key elig_hypothesis (sort_key elig_hypothesis xs)))"
      using ids list_all2_keys [OF ok] by (simp only: distinct_map_sort_key)
    from find_key [OF this, of x] x
    have "List.find (\<lambda>y. elig_hypothesis y = hypothesis_id h)
        (sort_key elig_hypothesis (sort_key elig_hypothesis xs)) = Some x"
      by (simp add: elig_ok_def)
    with x eff show ?thesis
      by (simp add: is_root_cause_selectable_def with_ended_episodes_def el_def elig_ok_def eligibility_for_def ended_for_def
          map_of_eq_None_iff merge_conv' image_iff)
  qed
  with el show ?thesis by blast
qed

theorem exclusion_needs_evidence_witness:
  "\<exists>el. derive_root_cause_eligibilities [sample_effect ''h1'', sample_hypothesis\<lparr>hypothesis_id := ''h2''\<rparr>]
       (derive_hypothesis_causal_roles [sample_effect ''h1'', sample_hypothesis\<lparr>hypothesis_id := ''h2''\<rparr>] [sample_edge]) = Inr el
     \<and> \<not> is_root_cause_selectable (with_ended_episodes [] el) ''h1''
     \<and> is_root_cause_selectable (with_ended_episodes [] el) ''h2''"
proof -
  let ?h2 = "sample_hypothesis\<lparr>hypothesis_id := ''h2''\<rparr>"
  have effect: "verified_effect (sample_effect ''h1'') sample_edge"
    by (simp add: verified_effect_def role_eval)
  have own: "episode_source_capable_initiating_findings (sample_effect ''h1'') = []"
    "episode_source_capable_initiating_findings ?h2 \<noteq> []"
    by (simp_all add: episode_source_capable_initiating_findings_def claim_findings_def role_eval)
  have ids: "distinct (map hypothesis_id [sample_effect ''h1'', ?h2])"
    and valid: "\<forall>e\<in>set [sample_edge]. edge_valid e"
    by (simp_all add: sample_effect_def edge_valid_def sample_edge_def)
  have "hypothesis_id (sample_effect ''h1'') = ''h1''" "hypothesis_id ?h2 = ''h2''"
    by (simp_all add: sample_effect_def)
  moreover obtain el where "derive_root_cause_eligibilities [sample_effect ''h1'', ?h2]
      (derive_hypothesis_causal_roles [sample_effect ''h1'', ?h2] [sample_edge]) = Inr el"
    and "\<forall>h\<in>set [sample_effect ''h1'', ?h2]. \<forall>ended.
      \<not> is_root_cause_selectable (with_ended_episodes ended el) (hypothesis_id h) \<longleftrightarrow>
        hypothesis_id h \<in> fst ` set ended \<or>
        ((\<exists>e\<in>set [sample_edge]. verified_effect h e) \<and> episode_source_capable_initiating_findings h = [])"
    using exclusion_needs_evidence [OF ids valid] by blast
  ultimately show ?thesis using effect own by (intro exI [of _ el]) (auto dest!: spec [where x = "[]"])
qed

end
