(* ===== verification/Timing_Stability_Correct.thy ===== *)
theory Timing_Stability_Correct
  imports Timing_Stability
begin

text \<open>
  What the timing outcomes mean: the admissible onsets are exactly the qualified starts between the
  onset of record and the upper bound; a stable claim looks the same under every one of them; and
  authority that is not withheld never leaned on an unstable relation.
\<close>

section \<open>The admissible onsets\<close>

definition is_qualified :: "instant \<Rightarrow> alert_episode list \<Rightarrow> alert_episode \<Rightarrow> bool" where
  "is_qualified w es e \<longleftrightarrow> e \<in> set es \<and> \<not> is_background_alert (episode_name e) \<and> w \<le> episode_starts e"

lemma set_qualified: "set (qualified_episodes w es) = {e. is_qualified w es e}"
  by (auto simp: qualified_episodes_def is_qualified_def)

lemma sorted_qualified: "sorted (map episode_starts (qualified_episodes w es))"
proof -
  have *: "sorted (map (\<lambda>e. (episode_starts e, episode_fingerprint e)) (qualified_episodes w es))"
    by (simp add: qualified_episodes_def)
  have "sorted (map fst xs)" if "sorted xs" for xs :: "(instant \<times> string) list"
    using that by (induction xs) (auto simp: less_eq_prod_def)
  from this [OF *] show ?thesis by (simp add: o_def)
qed

text \<open>
  C36: The set of admissible onsets is derived from qualified episodes only and completely. It is
  assessable exactly when some non-background episode started inside the observed coverage; then the
  onset of record is the earliest such start, the upper bound is the earliest one still firing (the
  latest start when none is), and the members are, in order and without repetition, exactly the
  qualified starts between the two, both included.
\<close>

theorem onset_set_complete:
  assumes u: "derive_onset_uncertainty (Some es) (Some w) c = u"
  shows "(assessable u \<longleftrightarrow> (\<exists>e. is_qualified w es e)) \<and>
    (assessable u \<longrightarrow> (\<exists>lo hi. h0 u = Some lo \<and> upper u = Some hi \<and>
       (\<exists>e. is_qualified w es e \<and> episode_starts e = lo) \<and> (\<forall>e. is_qualified w es e \<longrightarrow> lo \<le> episode_starts e) \<and>
       (\<exists>e. is_qualified w es e \<and> episode_starts e = hi) \<and>
       (if \<exists>e. is_qualified w es e \<and> firing_at_cutoff e
        then (\<exists>e. is_qualified w es e \<and> firing_at_cutoff e \<and> episode_starts e = hi)
           \<and> (\<forall>e. is_qualified w es e \<and> firing_at_cutoff e \<longrightarrow> hi \<le> episode_starts e)
        else \<forall>e. is_qualified w es e \<longrightarrow> episode_starts e \<le> hi) \<and>
       sorted (map candidate_onset (onset_members u)) \<and> distinct (map candidate_onset (onset_members u)) \<and>
       candidate_onset ` set (onset_members u) =
         {episode_starts e | e. is_qualified w es e \<and> lo \<le> episode_starts e \<and> episode_starts e \<le> hi}))"
proof (cases "qualified_episodes w es")
  case Nil
  then have "\<not> (\<exists>e. is_qualified w es e)" using set_qualified [of w es] by auto
  moreover have "\<not> assessable u" using Nil u by (auto simp: derive_onset_uncertainty_def unassessable_def assessable_def)
  ultimately show ?thesis by simp
next
  case (Cons q qs)
  let ?all = "q # qs" and ?lo = "episode_starts q"
  let ?firing = "filter firing_at_cutoff ?all"
  define hi where "hi = (case py_min (map episode_starts ?firing) of Some f \<Rightarrow> f | None \<Rightarrow> episode_starts (last ?all))"
  define starts where "starts = sorted_set (map episode_starts
    (filter (\<lambda>e. ?lo \<le> episode_starts e \<and> episode_starts e \<le> hi) ?all))"
  have all: "e \<in> set ?all \<longleftrightarrow> is_qualified w es e" for e
    using set_qualified [of w es] Cons by auto
  have sorted: "sorted (map episode_starts ?all)" using sorted_qualified [of w es] Cons by simp
  have facts: "h0 u = Some ?lo" "upper u = Some hi" "map candidate_onset (onset_members u) = starts"
    using Cons u by (auto simp: derive_onset_uncertainty_def Let_def hi_def starts_def o_def)
  have lo: "\<forall>e\<in>set ?all. ?lo \<le> episode_starts e" using sorted by auto
  have last: "\<forall>e\<in>set ?all. episode_starts e \<le> episode_starts (last ?all)"
    using sorted_map_last [OF sorted] by blast
  have hi: "\<exists>e\<in>set ?all. episode_starts e = hi"
    "if \<exists>e\<in>set ?all. firing_at_cutoff e
     then (\<exists>e\<in>set ?all. firing_at_cutoff e \<and> episode_starts e = hi)
        \<and> (\<forall>e\<in>set ?all. firing_at_cutoff e \<longrightarrow> hi \<le> episode_starts e)
     else \<forall>e\<in>set ?all. episode_starts e \<le> hi"
  proof -
    have "(\<exists>e\<in>set ?all. episode_starts e = hi) \<and>
      (if \<exists>e\<in>set ?all. firing_at_cutoff e
       then (\<exists>e\<in>set ?all. firing_at_cutoff e \<and> episode_starts e = hi)
          \<and> (\<forall>e\<in>set ?all. firing_at_cutoff e \<longrightarrow> hi \<le> episode_starts e)
       else \<forall>e\<in>set ?all. episode_starts e \<le> hi)"
    proof (cases "py_min (map episode_starts ?firing)")
      case None
      then have "hi = episode_starts (last ?all)" "\<not> (\<exists>e\<in>set ?all. firing_at_cutoff e)"
        unfolding hi_def py_min_None map_is_Nil_conv filter_empty_conv by simp_all
      with last show ?thesis by (metis last_in_set list.distinct(1))
    next
      case (Some f)
      then have "hi = f" unfolding hi_def by simp
      moreover from Some have "f \<in> episode_starts ` {e \<in> set ?all. firing_at_cutoff e}"
        "\<forall>x\<in>episode_starts ` {e \<in> set ?all. firing_at_cutoff e}. f \<le> x"
        unfolding py_min_Some set_map set_filter by blast+
      ultimately show ?thesis by (smt (verit) imageE imageI mem_Collect_eq)
    qed
    then show "\<exists>e\<in>set ?all. episode_starts e = hi"
      "if \<exists>e\<in>set ?all. firing_at_cutoff e
       then (\<exists>e\<in>set ?all. firing_at_cutoff e \<and> episode_starts e = hi)
          \<and> (\<forall>e\<in>set ?all. firing_at_cutoff e \<longrightarrow> hi \<le> episode_starts e)
       else \<forall>e\<in>set ?all. episode_starts e \<le> hi" by blast+
  qed
  have members: "sorted starts" "distinct starts"
    "set starts = {episode_starts e | e. e \<in> set ?all \<and> ?lo \<le> episode_starts e \<and> episode_starts e \<le> hi}"
    unfolding starts_def by auto
  have "q \<in> set ?all" by simp
  have ne: "starts \<noteq> []"
  proof -
    from hi(1) obtain e where "e \<in> set ?all" "episode_starts e = hi" by blast
    with lo have "hi \<in> set starts" unfolding members(3) by auto
    then show ?thesis by auto
  qed
  then have "assessable u" unfolding assessable_def using facts(3) by auto
  moreover have "candidate_onset ` set (onset_members u) = set starts"
    using facts(3) by (metis list.set_map)
  moreover have "\<exists>e. is_qualified w es e" using \<open>q \<in> set ?all\<close> all by blast
  moreover have "\<exists>e. is_qualified w es e \<and> episode_starts e = ?lo" using \<open>q \<in> set ?all\<close> all by blast
  moreover have "\<forall>e. is_qualified w es e \<longrightarrow> ?lo \<le> episode_starts e" using lo all by blast
  moreover note hi [unfolded Ball_def Bex_def all]
  ultimately show ?thesis
    using facts(1,2) members(1,2) unfolding facts(3) members(3) all by (simp only: imp_conjL) blast
qed

definition episode :: "string \<Rightarrow> instant \<Rightarrow> bool \<Rightarrow> alert_episode" where
  "episode n t b = \<lparr>episode_fingerprint = n, episode_name = n, episode_starts = t, firing_at_cutoff = b\<rparr>"

theorem onset_set_complete_witness:
  "\<exists>u. derive_onset_uncertainty (Some [episode ''a'' 30 True, episode ''b'' 20 False, episode ''c'' 40 True,
         episode ''d'' 5 True]) (Some 10) None = u
     \<and> assessable u \<and> h0 u = Some 20 \<and> upper u = Some 30
     \<and> candidate_onset ` set (onset_members u) = {20, 30}"
proof -
  let ?es = "[episode ''a'' 30 True, episode ''b'' 20 False, episode ''c'' 40 True, episode ''d'' 5 True]"
  have q: "is_qualified 10 ?es e \<longleftrightarrow> e \<in> {episode ''a'' 30 True, episode ''b'' 20 False, episode ''c'' 40 True}" for e
    by (auto simp: is_qualified_def episode_def is_background_alert_def BACKGROUND_ALERTS_def lower_char_def)
  obtain u where u: "derive_onset_uncertainty (Some ?es) (Some 10) None = u"
    and h0: "h0 u = Some 20" "upper u = Some 30"
    by (simp add: derive_onset_uncertainty_def qualified_episodes_def is_background_alert_def BACKGROUND_ALERTS_def
        lower_char_def episode_def Let_def less_eq_prod_def)
  have ass: "assessable u"
    using onset_set_complete [OF u, THEN conjunct1] q by blast
  from onset_set_complete [OF u, THEN conjunct2, rule_format, OF ass] h0
  have "candidate_onset ` set (onset_members u) =
      {episode_starts e | e. is_qualified 10 ?es e \<and> 20 \<le> episode_starts e \<and> episode_starts e \<le> 30}"
    by (elim exE conjE) (simp only: option.inject)
  also have "\<dots> = {20, 30}"
    unfolding q by (auto simp: episode_def conj_disj_distribL conj_disj_distribR ex_disj_distrib)
  finally show ?thesis using u h0 ass by blast
qed

section \<open>Stability\<close>

lemma all_same_iff: "all_same xs \<longleftrightarrow> xs \<noteq> [] \<and> (\<forall>x\<in>set xs. \<forall>y\<in>set xs. x = y)"
proof -
  have "length (remdups xs) = 1 \<longleftrightarrow> (\<exists>x. set xs = {x})"
    by (metis One_nat_def card_1_singleton_iff length_remdups_card_conv)
  also have "\<dots> \<longleftrightarrow> xs \<noteq> [] \<and> (\<forall>x\<in>set xs. \<forall>y\<in>set xs. x = y)"
    by (cases xs) auto
  finally show ?thesis by (simp add: all_same_def)
qed

lemma all_same_const: "all_same xs \<longleftrightarrow> xs \<noteq> [] \<and> (\<exists>d. \<forall>x\<in>set xs. x = d)"
proof -
  have "(\<forall>x\<in>set xs. \<forall>y\<in>set xs. x = y) \<longleftrightarrow> (\<exists>d. \<forall>x\<in>set xs. x = d)" by metis
  then show ?thesis unfolding all_same_iff by simp
qed

lemma length_map_filter_full:
  "length (List.map_filter f xs) = length xs \<longleftrightarrow> (\<forall>x\<in>set xs. f x \<noteq> None)"
  by (metis (mono_tags, lifting) List.map_filter_def comp_apply filter_True filter_id_conv length_filter_less
      length_map less_irrefl)

lemma set_map_filter': "set (List.map_filter f xs) = {y. \<exists>x\<in>set xs. f x = Some y}"
  by (force simp: List.map_filter_def)

lemma length_gt_1_iff: "distinct xs \<Longrightarrow> length xs > 1 \<longleftrightarrow> (\<exists>x\<in>set xs. \<exists>y\<in>set xs. x \<noteq> y)"
proof (induction xs)
  case (Cons x xs)
  then show ?case by (cases xs) auto
qed simp

lemma relation_timing_sensitive:
  "stability (time_relation present n) = SENSITIVE \<longleftrightarrow>
    (\<exists>c\<in>set present. \<exists>d\<in>set present. relation_value c n \<noteq> ''UNASSESSABLE''
       \<and> relation_value d n \<noteq> ''UNASSESSABLE'' \<and> relation_value c n \<noteq> relation_value d n)"
proof -
  let ?A = "filter (\<lambda>v. v \<noteq> ''UNASSESSABLE'') (sorted_set (map (\<lambda>c. relation_value c n) present))"
  have "stability (time_relation present n) = SENSITIVE \<longleftrightarrow> length ?A > 1"
    by (auto simp: time_relation_def Let_def)
  also have "\<dots> \<longleftrightarrow> (\<exists>x\<in>set ?A. \<exists>y\<in>set ?A. x \<noteq> y)" by (rule length_gt_1_iff) simp
  finally show ?thesis by auto
qed

text \<open>An assessment with claims evaluated every admissible onset.\<close>

lemma assessed_onsets:
  assumes "compute_timing_assessment u vs = t" "timing_status t \<noteq> UNASSESSED"
  obtains base where "Option.bind (h0 u) (map_of vs) = Some base" "onset_members u \<noteq> []"
    "\<forall>m\<in>set (onset_members u). map_of vs (candidate_onset m) \<noteq> None"
    "timing_claims t = map (\<lambda>k. time_claim (map (\<lambda>t. the (map_of vs t)) (dedup (map candidate_onset (onset_members u))))
        (k, the (map_of (view_claims base) k))) (sorted_set (map fst (view_claims base)))"
    "timing_status t = (if all_same (map diagnosis_status
        (map (\<lambda>t. the (map_of vs t)) (dedup (map candidate_onset (onset_members u))))) then STABLE else SENSITIVE)"
  using assms
  by (auto simp: compute_timing_assessment_def Let_def assessable_def list_ex_iff
      split: option.splits if_splits)

lemma all_agree_iff:
  "((\<forall>m. M m \<longrightarrow> s m \<noteq> None) \<and> (\<exists>e. \<forall>x. (\<exists>m. M m \<and> s m = Some x) \<longrightarrow> f x = e)
      \<and> (\<exists>d. \<forall>x. (\<exists>m. M m \<and> s m = Some x) \<longrightarrow> g x = d))
    \<longleftrightarrow> (\<exists>e d. \<forall>m. M m \<longrightarrow> (\<exists>x. s m = Some x \<and> f x = e \<and> g x = d))" (is "?l \<longleftrightarrow> ?r")
proof
  assume ?l
  then obtain e d where "\<forall>m. M m \<longrightarrow> s m \<noteq> None" "\<forall>m x. M m \<and> s m = Some x \<longrightarrow> f x = e"
    "\<forall>m x. M m \<and> s m = Some x \<longrightarrow> g x = d" by blast
  then show ?r by (intro exI [of _ e] exI [of _ d]) fastforce
next
  assume ?r
  then show ?l by fastforce
qed

text \<open>The view of a claim under one admissible onset, when the claim was formed there.\<close>

definition seen_under :: "(instant \<times> onset_view) list \<Rightarrow> string \<Rightarrow> onset_candidate \<Rightarrow> claim_view option" where
  "seen_under vs k m = Option.bind (map_of vs (candidate_onset m)) (\<lambda>v. map_of (view_claims v) k)"

text \<open>
  Stability means agreement over every admissible onset. In an assessment that was made, each
  admissible onset was evaluated. The status is stable exactly when all of them give the same
  diagnosis. A claim's formation is stable exactly when the claim is formed under every one of
  them from the same evidence and with the same mechanism. A relation of a claim is sensitive
  exactly when two onsets give it different values that were both assessed: a value that could not
  be assessed never makes a relation sensitive.
\<close>

theorem timing_stability_sound:
  assumes t: "compute_timing_assessment u vs = t" and made: "timing_status t \<noteq> UNASSESSED"
  shows "(\<forall>m. m \<in> set (onset_members u) \<longrightarrow> map_of vs (candidate_onset m) \<noteq> None) \<and>
    (timing_status t = STABLE \<longleftrightarrow>
       (\<exists>d. \<forall>m. m \<in> set (onset_members u) \<longrightarrow>
          (\<exists>v. map_of vs (candidate_onset m) = Some v \<and> diagnosis_status v = d))) \<and>
    (\<forall>c. c \<in> set (timing_claims t) \<longrightarrow>
       (formation c = STABLE \<longleftrightarrow>
          (\<exists>ev me. \<forall>m. m \<in> set (onset_members u) \<longrightarrow>
             (\<exists>cl. seen_under vs (timing_key c) m = Some cl \<and> view_evidence cl = ev \<and> view_mechanism cl = me))) \<and>
       (\<forall>r. r \<in> set (timing_relations c) \<longrightarrow>
          (stability r = SENSITIVE \<longleftrightarrow>
             (\<exists>m m' x y. m \<in> set (onset_members u) \<and> m' \<in> set (onset_members u) \<and>
                seen_under vs (timing_key c) m = Some x \<and> seen_under vs (timing_key c) m' = Some y \<and>
                relation_value x (timing_relation r) \<noteq> ''UNASSESSABLE'' \<and>
                relation_value y (timing_relation r) \<noteq> ''UNASSESSABLE'' \<and>
                relation_value x (timing_relation r) \<noteq> relation_value y (timing_relation r)))))"
proof -
  obtain base where "Option.bind (h0 u) (map_of vs) = Some base" and ne: "onset_members u \<noteq> []"
    and all: "\<forall>m\<in>set (onset_members u). map_of vs (candidate_onset m) \<noteq> None"
    and claims: "timing_claims t = map (\<lambda>k. time_claim (map (\<lambda>t. the (map_of vs t))
        (dedup (map candidate_onset (onset_members u)))) (k, the (map_of (view_claims base) k)))
        (sorted_set (map fst (view_claims base)))"
    and status: "timing_status t = (if all_same (map diagnosis_status
        (map (\<lambda>t. the (map_of vs t)) (dedup (map candidate_onset (onset_members u))))) then STABLE else SENSITIVE)"
    by (rule assessed_onsets [OF t made])
  define ev where "ev = map (\<lambda>t. the (map_of vs t)) (dedup (map candidate_onset (onset_members u)))"
  have set_ev: "set ev = (\<lambda>m. the (map_of vs (candidate_onset m))) ` set (onset_members u)"
    by (auto simp: ev_def)
  have ev_ne: "ev \<noteq> []" using ne by (metis set_ev image_is_empty set_empty2 set_empty)
  have view: "map_of vs (candidate_onset m) = Some (the (map_of vs (candidate_onset m)))"
    if "m \<in> set (onset_members u)" for m using all that by auto
  have seen: "seen_under vs k m = map_of (view_claims (the (map_of vs (candidate_onset m)))) k"
    if "m \<in> set (onset_members u)" for k m
    unfolding seen_under_def using view [OF that] by (metis Option.bind.simps(2))
  have 1: "timing_status t = STABLE \<longleftrightarrow> (\<exists>d. \<forall>m. m \<in> set (onset_members u) \<longrightarrow>
      (\<exists>v. map_of vs (candidate_onset m) = Some v \<and> diagnosis_status v = d))"
  proof -
    have "timing_status t = STABLE \<longleftrightarrow> (\<exists>d. \<forall>m\<in>set (onset_members u).
        diagnosis_status (the (map_of vs (candidate_onset m))) = d)"
      unfolding status ev_def [symmetric] all_same_const using ev_ne set_ev by simp
    also have "\<dots> \<longleftrightarrow> (\<exists>d. \<forall>m. m \<in> set (onset_members u) \<longrightarrow>
      (\<exists>v. map_of vs (candidate_onset m) = Some v \<and> diagnosis_status v = d))"
    proof -
      have "(\<exists>v. map_of vs (candidate_onset m) = Some v \<and> diagnosis_status v = d) \<longleftrightarrow>
          diagnosis_status (the (map_of vs (candidate_onset m))) = d" if "m \<in> set (onset_members u)" for m d
        by (subst view [OF that]) auto
      then show ?thesis unfolding Ball_def by (simp cong: imp_cong)
    qed
    finally show ?thesis .
  qed
  have 2: "(formation c = STABLE \<longleftrightarrow>
        (\<exists>e me. \<forall>m. m \<in> set (onset_members u) \<longrightarrow>
           (\<exists>cl. seen_under vs (timing_key c) m = Some cl \<and> view_evidence cl = e \<and> view_mechanism cl = me))) \<and>
      (\<forall>r. r \<in> set (timing_relations c) \<longrightarrow>
        (stability r = SENSITIVE \<longleftrightarrow>
           (\<exists>m m' x y. m \<in> set (onset_members u) \<and> m' \<in> set (onset_members u) \<and>
              seen_under vs (timing_key c) m = Some x \<and> seen_under vs (timing_key c) m' = Some y \<and>
              relation_value x (timing_relation r) \<noteq> ''UNASSESSABLE'' \<and>
              relation_value y (timing_relation r) \<noteq> ''UNASSESSABLE'' \<and>
              relation_value x (timing_relation r) \<noteq> relation_value y (timing_relation r))))"
    if c: "c \<in> set (timing_claims t)" for c
  proof -
    define present where "present = List.map_filter (\<lambda>v. map_of (view_claims v) (timing_key c)) ev"
    from c obtain b where cc: "c = time_claim ev (timing_key c, b)"
      unfolding claims ev_def [symmetric] by (auto simp: time_claim_def Let_def)
    have in_present: "x \<in> set present \<longleftrightarrow> (\<exists>m. m \<in> set (onset_members u) \<and> seen_under vs (timing_key c) m = Some x)" for x
      unfolding present_def set_map_filter' set_ev using seen by auto
    have full: "length present = length ev \<longleftrightarrow>
        (\<forall>m. m \<in> set (onset_members u) \<longrightarrow> seen_under vs (timing_key c) m \<noteq> None)"
      unfolding present_def length_map_filter_full set_ev using seen by auto
    have "formation c = STABLE \<longleftrightarrow> length present = length ev \<and> all_same (map view_evidence present)
        \<and> all_same (map view_mechanism present)"
      by (subst cc) (simp add: time_claim_def Let_def present_def)
    also have "\<dots> \<longleftrightarrow> length present = length ev \<and> (\<exists>e. \<forall>x\<in>set present. view_evidence x = e)
        \<and> (\<exists>me. \<forall>x\<in>set present. view_mechanism x = me)"
      using ev_ne by (auto simp: all_same_const)
    also have "\<dots> \<longleftrightarrow> (\<exists>e me. \<forall>m. m \<in> set (onset_members u) \<longrightarrow>
           (\<exists>cl. seen_under vs (timing_key c) m = Some cl \<and> view_evidence cl = e \<and> view_mechanism cl = me))"
      unfolding full Ball_def in_present by (rule all_agree_iff)
    finally have f: "formation c = STABLE \<longleftrightarrow> \<dots>" .
    have "stability r = SENSITIVE \<longleftrightarrow> (\<exists>x\<in>set present. \<exists>y\<in>set present.
        relation_value x (timing_relation r) \<noteq> ''UNASSESSABLE'' \<and> relation_value y (timing_relation r) \<noteq> ''UNASSESSABLE''
        \<and> relation_value x (timing_relation r) \<noteq> relation_value y (timing_relation r))"
      if "r \<in> set (timing_relations c)" for r
    proof -
      from that obtain n where r: "r = time_relation present n"
        by (subst (asm) cc) (auto simp: time_claim_def Let_def present_def)
      then have "timing_relation r = n" by (simp add: time_relation_def Let_def)
      then show ?thesis using relation_timing_sensitive [of present n] r by simp
    qed
    then show ?thesis unfolding f Bex_def in_present by blast
  qed
  show ?thesis using all 1 2 by blast
qed


definition sample_uncertainty :: onset_uncertainty where
  "sample_uncertainty = \<lparr>uncertainty_reason = ''ASSESSABLE'', cutoff = None, observation_start = Some 0,
     h0 = Some 20, upper = Some 30,
     onset_members = [\<lparr>candidate_onset = 20, is_h0 = True, is_upper = False, episodes = []\<rparr>,
                      \<lparr>candidate_onset = 30, is_h0 = False, is_upper = True, episodes = []\<rparr>]\<rparr>"

definition sample_view :: "string \<Rightarrow> onset_view" where
  "sample_view d1 = \<lparr>diagnosis_status = ''CONFIRMED'',
     view_claims = [(''k'', \<lparr>view_actor = ''a'', view_mechanism = ''m'', view_evidence = {''e''},
        relations = [(''d1'', d1)], standing = ''SUPPORTED''\<rparr>)]\<rparr>"

definition sample_assessment :: timing_assessment where
  "sample_assessment = compute_timing_assessment sample_uncertainty
     [(20, sample_view ''SUPPORTED''), (30, sample_view ''ABSENT'')]"

lemma sample_assessment_eval:
  "sample_assessment = \<lparr>uncertainty = sample_uncertainty, timing_status = STABLE,
     outcomes = [\<lparr>outcome_onset = 20, outcome_status = ''CONFIRMED'', drivers = []\<rparr>,
                 \<lparr>outcome_onset = 30, outcome_status = ''CONFIRMED'', drivers = []\<rparr>],
     timing_claims = [\<lparr>timing_key = ''k'', timing_actor = ''a'', formation = STABLE, adjudication = SENSITIVE,
        timing_relations = [\<lparr>timing_relation = ''d1'', stability = SENSITIVE, timing_values = [''ABSENT'', ''SUPPORTED'']\<rparr>]\<rparr>]\<rparr>"
  by (simp add: sample_assessment_def compute_timing_assessment_def sample_uncertainty_def sample_view_def
      Let_def assessable_def all_same_def time_claim_def List.map_filter_def time_relation_def
      relation_value_def sorted_set_def)

theorem timing_stability_sound_witness:
  "timing_status sample_assessment = STABLE \<and>
   (\<exists>d. set (onset_members sample_uncertainty) \<subseteq>
      {m. \<exists>v. map_of [(20, sample_view ''SUPPORTED''), (30, sample_view ''ABSENT'')] (candidate_onset m) = Some v
         \<and> diagnosis_status v = d})"
proof -
  have st: "timing_status sample_assessment = STABLE" by (simp add: sample_assessment_eval)
  then have "timing_status sample_assessment \<noteq> UNASSESSED" by simp
  from timing_stability_sound [OF sample_assessment_def [symmetric] this, THEN conjunct2, THEN conjunct1] st
  show ?thesis by (simp only: subset_iff mem_Collect_eq simp_thms)
qed

section \<open>Withheld authority\<close>

lemma masks_eq:
  "timing_claims t \<noteq> [] \<Longrightarrow> derive_timing_masks hs tr t =
     \<lparr>temporal_mask = map hypothesis_id
           (filter (elimination_withheld t tr TEMPORAL_CODE ''temporal_contradiction'') hs),
      ended_mask = map hypothesis_id (filter (elimination_withheld t tr ENDED_CODE ''ended_episode'') hs),
      strong_mask = map hypothesis_id (filter (strong_withheld t tr) hs),
      withheld = sort_key (\<lambda>w. (withheld_key w, authority w)) (concat (map (withheld_of t tr) hs))\<rparr>"
  by (simp add: derive_timing_masks_def)

text \<open>
  Timing masks only ever take away authority that was granted, and what they leave stands on
  stable timing. When the onset was assessed, every identifier in the temporal or ended-episode
  mask was eliminated with that code, and every one in the strong mask had a verified mechanism;
  a mechanism verified for a hypothesis and not masked belongs to a claim whose formation,
  onset path and execution are stable over every admissible onset; an elimination that is not
  masked never rests on a relation known to be sensitive; and each mask entry is reported as
  withheld, with the relations that were not stable.
\<close>

theorem masks_withhold_only:
  assumes m: "derive_timing_masks hs tr t = m" and made: "timing_claims t \<noteq> []"
  shows "(\<forall>i. i \<in> set (temporal_mask m) \<longrightarrow> TEMPORAL_CODE \<in> set (codes_of tr i)) \<and>
    (\<forall>i. i \<in> set (ended_mask m) \<longrightarrow> ENDED_CODE \<in> set (codes_of tr i)) \<and>
    (\<forall>i. i \<in> set (strong_mask m) \<longrightarrow> i \<in> set (mechanism_verified_hypotheses tr)) \<and>
    (\<forall>h. h \<in> set hs \<and> hypothesis_id h \<in> set (mechanism_verified_hypotheses tr)
        \<and> hypothesis_id h \<notin> set (strong_mask m) \<longrightarrow>
       (\<exists>c. timing_claim t (hypothesis_key h) = Some c \<and> formation c = STABLE
          \<and> claim_relation c ''d1'' = STABLE \<and> claim_relation c ''execution'' = STABLE)) \<and>
    (\<forall>h c. h \<in> set hs \<and> timing_claim t (hypothesis_key h) = Some c \<longrightarrow>
       (TEMPORAL_CODE \<in> set (codes_of tr (hypothesis_id h)) \<and> hypothesis_id h \<notin> set (temporal_mask m) \<longrightarrow>
          claim_relation c ''temporal_contradiction'' \<noteq> SENSITIVE) \<and>
       (ENDED_CODE \<in> set (codes_of tr (hypothesis_id h)) \<and> hypothesis_id h \<notin> set (ended_mask m) \<longrightarrow>
          claim_relation c ''ended_episode'' \<noteq> SENSITIVE)) \<and>
    (\<forall>w. w \<in> set (withheld m) \<longrightarrow> withheld_relations w \<noteq> [] \<and>
       (\<exists>h. h \<in> set hs \<and> withheld_key w = hypothesis_key h \<and>
          hypothesis_id h \<in> set (temporal_mask m) \<union> set (ended_mask m) \<union> set (strong_mask m)))"
proof -
  have masks: "set (temporal_mask m) = hypothesis_id ` {h \<in> set hs. elimination_withheld t tr TEMPORAL_CODE ''temporal_contradiction'' h}"
    "set (ended_mask m) = hypothesis_id ` {h \<in> set hs. elimination_withheld t tr ENDED_CODE ''ended_episode'' h}"
    "set (strong_mask m) = hypothesis_id ` {h \<in> set hs. strong_withheld t tr h}"
    "set (withheld m) = (\<Union>h\<in>set hs. set (withheld_of t tr h))"
    using m made by (auto simp: masks_eq)
  have 1: "withheld_key w = hypothesis_key h \<and> withheld_relations w \<noteq> [] \<and>
      (elimination_withheld t tr TEMPORAL_CODE ''temporal_contradiction'' h
       \<or> elimination_withheld t tr ENDED_CODE ''ended_episode'' h \<or> strong_withheld t tr h)"
    if "w \<in> set (withheld_of t tr h)" for w h
    using that by (auto simp: withheld_of_def Let_def strong_withheld_def split: if_splits)
  have 2: "\<exists>c. timing_claim t (hypothesis_key h) = Some c \<and> formation c = STABLE
      \<and> claim_relation c ''d1'' = STABLE \<and> claim_relation c ''execution'' = STABLE"
    if "hypothesis_id h \<in> set (mechanism_verified_hypotheses tr)" "\<not> strong_withheld t tr h" for h
    using that by (auto simp: strong_withheld_def unstable_parts_def Let_def split: option.splits if_splits)
  have 3: "claim_relation c r \<noteq> SENSITIVE"
    if "timing_claim t (hypothesis_key h) = Some c" "code \<in> set (codes_of tr (hypothesis_id h))"
      "\<not> elimination_withheld t tr code r h" for h c r code
    using that by (auto simp: elimination_withheld_def)
  have 4: "elimination_withheld t tr code r h \<Longrightarrow> code \<in> set (codes_of tr (hypothesis_id h))" for code r h
    by (auto simp: elimination_withheld_def split: option.splits)
  have 5: "strong_withheld t tr h \<Longrightarrow> hypothesis_id h \<in> set (mechanism_verified_hypotheses tr)" for h
    by (simp add: strong_withheld_def)
  show ?thesis
    apply (intro conjI allI impI)
    subgoal unfolding masks using 4 by blast
    subgoal unfolding masks using 4 by blast
    subgoal unfolding masks using 5 by blast
    subgoal unfolding masks using 2 by blast
    subgoal unfolding masks using 3 by blast
    subgoal unfolding masks using 3 by blast
    subgoal unfolding masks using 1 by blast
    subgoal unfolding masks using 1 by blast
    done
qed


definition timed_hypothesis :: hypothesis where
  "timed_hypothesis = sample_hypothesis\<lparr>hypothesis_id := ''h'', hypothesis_key := ''k''\<rparr>"

definition timed_trace :: resolution_trace where
  "timed_trace = (default_trace AMBIGUOUS)\<lparr>mechanism_verified_hypotheses := [''h'']\<rparr>"

theorem masks_withhold_only_witness:
  "\<exists>m. derive_timing_masks [timed_hypothesis] timed_trace sample_assessment = m \<and> strong_mask m = [''h'']
     \<and> set (strong_mask m) \<subseteq> set (mechanism_verified_hypotheses timed_trace)"
proof -
  let ?m = "derive_timing_masks [timed_hypothesis] timed_trace sample_assessment"
  have claims: "timing_claims sample_assessment \<noteq> []" by (simp add: sample_assessment_eval)
  then have "strong_mask ?m = [''h'']"
    by (simp add: masks_eq) (simp add: strong_withheld_def timed_hypothesis_def timed_trace_def default_trace_def unstable_parts_def
        timing_claim_def claim_relation_def sample_assessment_eval)
  then show ?thesis
    using masks_withhold_only [OF refl claims, of "[timed_hypothesis]" timed_trace] by blast
qed

end
