(* ===== verification/Lifecycle_Ledger.thy ===== *)
theory Lifecycle_Ledger
  imports Prelude
begin

text \<open>
  The lifecycle ledger and its retention: \<open>LifecycleRepository.append\<close>
  (\<open>packages/storage/repositories.py\<close>), which numbers the observations of each exact instance and
  retries when another writer takes the number, and \<open>packages/storage/retention.py\<close>, which deletes
  old evidence. What other sessions commit between the reads of an attempt and its insert is the
  parameter \<open>env\<close>, indexed by the attempts that are left.
\<close>

section \<open>Tables\<close>

record lifecycle_row =
  lc_id :: nat
  lc_evidence :: string
  lc_uid :: string
  lc_namespace :: string
  lc_kind :: string
  lc_name :: string
  lc_type :: string
  lc_source_at :: "instant option"
  lc_observed :: instant
  lc_ingested :: instant
  lc_source :: string
  lc_payload :: json

record event_version =
  ev_id :: nat
  ev_uid :: "string option"
  ev_at :: instant

record object_row =
  ov_id :: nat
  ov_key :: string
  ov_observed :: instant

record ledger =
  observations :: "lifecycle_row list"
  event_versions :: "event_version list"
  object_rows :: "object_row list"
  next_observation :: nat

definition LIFECYCLE_OBSERVATION_TYPES :: "string list" where
  "LIFECYCLE_OBSERVATION_TYPES =
     [''OBSERVED'', ''READY_TRUE'', ''READY_FALSE'', ''CONTAINER_STARTED'', ''CONTAINER_TERMINATED'',
      ''OOM_KILLED'', ''EVICTED'', ''DELETION_REQUESTED'', ''DELETED'', ''STATUS_SNAPSHOT'']"

section \<open>Evidence identifiers\<close>

definition lifecycle_prefix :: "string \<Rightarrow> string \<Rightarrow> string \<Rightarrow> string" where
  "lifecycle_prefix ns kd uid = ''lifecycle:'' @ ns @ '':'' @ kd @ '':'' @ uid @ '':''"

definition lifecycle_id :: "string \<Rightarrow> string \<Rightarrow> string \<Rightarrow> nat \<Rightarrow> string" where
  "lifecycle_id ns kd uid n = lifecycle_prefix ns kd uid @ nat_str n"

definition used_sequences :: "ledger \<Rightarrow> string \<Rightarrow> nat list" where
  "used_sequences st p =
     map (\<lambda>r. str_nat (drop (length p) (lc_evidence r)))
       (filter (\<lambda>r. starts_with p (lc_evidence r) \<and> isdigit (drop (length p) (lc_evidence r)))
         (observations st))"

definition next_sequence :: "ledger \<Rightarrow> string \<Rightarrow> string \<Rightarrow> string \<Rightarrow> nat" where
  "next_sequence st ns kd uid =
     (case py_max (used_sequences st (lifecycle_prefix ns kd uid)) of None \<Rightarrow> 0 | Some n \<Rightarrow> n) + 1"

text \<open>\<open>evidence_id.rsplit(":", 1)[-1]\<close>\<close>

definition last_part :: "string \<Rightarrow> string" where
  "last_part s = rev (takeWhile (\<lambda>c. c \<noteq> CHR '':'') (rev s))"

definition sequence_of :: "string \<Rightarrow> nat" where
  "sequence_of s = (if isdigit (last_part s) then str_nat (last_part s) else 0)"

section \<open>Appending an observation\<close>

text \<open>What a caller records: the row without its identifiers.\<close>

record observation =
  ob_namespace :: string
  ob_kind :: string
  ob_name :: string
  ob_uid :: string
  ob_type :: string
  ob_observed :: instant
  ob_source :: string
  ob_payload :: json
  ob_source_at :: "instant option"
  ob_ingested :: "instant option"

definition fact_of :: "lifecycle_row \<Rightarrow> string \<times> string \<times> instant \<times> string" where
  "fact_of r = (lc_uid r, lc_type r, lc_observed r, lc_source r)"

definition fact_exists :: "ledger \<Rightarrow> observation \<Rightarrow> bool" where
  "fact_exists st ob \<longleftrightarrow>
     list_ex (\<lambda>r. fact_of r = (ob_uid ob, ob_type ob, ob_observed ob, ob_source ob)) (observations st)"

definition evidence_id_taken :: "ledger \<Rightarrow> string \<Rightarrow> bool" where
  "evidence_id_taken st i \<longleftrightarrow> list_ex (\<lambda>r. lc_evidence r = i) (observations st)"

definition row_of :: "observation \<Rightarrow> instant \<Rightarrow> nat \<Rightarrow> string \<Rightarrow> lifecycle_row" where
  "row_of ob now k i =
     \<lparr>lc_id = k, lc_evidence = i, lc_uid = ob_uid ob, lc_namespace = ob_namespace ob, lc_kind = ob_kind ob,
      lc_name = ob_name ob, lc_type = ob_type ob, lc_source_at = ob_source_at ob,
      lc_observed = ob_observed ob,
      lc_ingested = (case ob_ingested ob of None \<Rightarrow> now | Some t \<Rightarrow> t),
      lc_source = ob_source ob, lc_payload = ob_payload ob\<rparr>"

text \<open>The commit of a new row, with the constraints of the table.\<close>

definition insert_observation :: "ledger \<Rightarrow> lifecycle_row \<Rightarrow> ledger result" where
  "insert_observation st r =
     (if evidence_id_taken st (lc_evidence r) then Inl (IntegrityError ''evidence_id'')
      else if list_ex (\<lambda>q. fact_of q = fact_of r) (observations st)
      then Inl (IntegrityError ''uq_lifecycle_observation_fact'')
      else if lc_type r \<notin> set LIFECYCLE_OBSERVATION_TYPES then Inl (IntegrityError ''ck_lifecycle_observation_type'')
      else Inr (st\<lparr>observations := observations st @ [r], next_observation := next_observation st + 1\<rparr>))"

fun append_attempts ::
  "(nat \<Rightarrow> ledger \<Rightarrow> ledger) \<Rightarrow> observation \<Rightarrow> instant \<Rightarrow> nat \<Rightarrow> ledger \<Rightarrow> lifecycle_row option result \<times> ledger"
where
  "append_attempts env ob now 0 st = (Inl (RuntimeError ''could not allocate a lifecycle sequence''), st)"
| "append_attempts env ob now (Suc n) st =
     (if fact_exists st ob then (Inr None, st)
      else
        let i = lifecycle_id (ob_namespace ob) (ob_kind ob) (ob_uid ob)
                  (next_sequence st (ob_namespace ob) (ob_kind ob) (ob_uid ob));
            st1 = env n st; row = row_of ob now (next_observation st1) i
        in case insert_observation st1 row of
             Inr st2 \<Rightarrow> (Inr (Some row), st2)
           | Inl e \<Rightarrow>
               if fact_exists st1 ob then (Inr None, st1)
               else if evidence_id_taken st1 i then append_attempts env ob now n st1
               else (Inl e, st1))"

definition LIFECYCLE_APPEND_ATTEMPTS :: nat where
  "LIFECYCLE_APPEND_ATTEMPTS = 5"

definition append_observation ::
  "(nat \<Rightarrow> ledger \<Rightarrow> ledger) \<Rightarrow> observation \<Rightarrow> instant \<Rightarrow> ledger \<Rightarrow> lifecycle_row option result \<times> ledger" where
  "append_observation env ob now st =
     (if ob_type ob \<notin> set LIFECYCLE_OBSERVATION_TYPES
      then (Inl (ValueError ''unknown lifecycle observation type''), st)
      else if ob_uid ob = []
      then (Inl (ValueError ''lifecycle observations need the exact instance uid''), st)
      else append_attempts env ob now LIFECYCLE_APPEND_ATTEMPTS st)"

section \<open>Retention\<close>

record retention_policy =
  events_horizon :: duration
  lifecycle_horizon :: duration
  objects_horizon :: duration

definition make_policy :: "duration \<Rightarrow> duration \<Rightarrow> duration \<Rightarrow> retention_policy result" where
  "make_policy e l ob =
     (if e \<le> 0 then Inl (ValueError ''retention events_horizon must be positive'')
      else if l \<le> 0 then Inl (ValueError ''retention lifecycle_horizon must be positive'')
      else if ob \<le> 0 then Inl (ValueError ''retention objects_horizon must be positive'')
      else if l < e then Inl (ValueError ''retention lifecycle_horizon must be at least events_horizon'')
      else Inr \<lparr>events_horizon = e, lifecycle_horizon = l, objects_horizon = ob\<rparr>)"

record retention_result =
  events_deleted :: nat
  lifecycle_deleted :: nat
  objects_deleted :: nat

definition instance_key :: "lifecycle_row \<Rightarrow> string \<times> string \<times> string" where
  "instance_key r = (lc_namespace r, lc_kind r, lc_uid r)"

definition highest_sequence :: "ledger \<Rightarrow> string \<times> string \<times> string \<Rightarrow> nat" where
  "highest_sequence st k =
     fold (\<lambda>r m. if instance_key r = k then max m (sequence_of (lc_evidence r)) else m) (observations st) 0"

definition newest_event :: "ledger \<Rightarrow> string \<Rightarrow> instant option" where
  "newest_event st u = py_max (map ev_at (filter (\<lambda>e. ev_uid e = Some u) (event_versions st)))"

definition deletable_lifecycle :: "ledger \<Rightarrow> instant \<Rightarrow> nat list" where
  "deletable_lifecycle st t =
     map lc_id (filter (\<lambda>r. lc_observed r < t
         \<and> sequence_of (lc_evidence r) < highest_sequence st (instance_key r)
         \<and> (case newest_event st (lc_uid r) of None \<Rightarrow> True | Some e \<Rightarrow> e \<le> lc_observed r))
       (observations st))"

text \<open>\<open>max(version_id)\<close> of each object.\<close>

definition latest_versions :: "ledger \<Rightarrow> nat list" where
  "latest_versions st =
     List.map_filter (\<lambda>k. py_max (map ov_id (filter (\<lambda>r. ov_key r = k) (object_rows st))))
       (dedup (map ov_key (object_rows st)))"

text \<open>The three deletions of \<open>apply_retention\<close>, in their order.\<close>

definition prune_events :: "retention_policy \<Rightarrow> instant \<Rightarrow> ledger \<Rightarrow> ledger" where
  "prune_events p now st =
     st\<lparr>event_versions := filter (\<lambda>e. \<not> ev_at e < now - events_horizon p) (event_versions st)\<rparr>"

definition prune_lifecycle :: "retention_policy \<Rightarrow> instant \<Rightarrow> ledger \<Rightarrow> ledger" where
  "prune_lifecycle p now st =
     st\<lparr>observations := filter (\<lambda>r. lc_id r \<notin> set (deletable_lifecycle st (now - lifecycle_horizon p)))
          (observations st)\<rparr>"

definition prune_objects :: "retention_policy \<Rightarrow> instant \<Rightarrow> ledger \<Rightarrow> ledger" where
  "prune_objects p now st =
     st\<lparr>object_rows := filter (\<lambda>r. \<not> (ov_observed r < now - objects_horizon p \<and> ov_id r \<notin> set (latest_versions st)))
          (object_rows st)\<rparr>"

definition apply_retention :: "retention_policy \<Rightarrow> instant \<Rightarrow> ledger \<Rightarrow> retention_result \<times> ledger" where
  "apply_retention p now st =
     (let st1 = prune_events p now st; st2 = prune_lifecycle p now st1; st3 = prune_objects p now st2 in
      (\<lparr>events_deleted = length (event_versions st) - length (event_versions st1),
        lifecycle_deleted = length (observations st1) - length (observations st2),
        objects_deleted = length (object_rows st2) - length (object_rows st3)\<rparr>, st3))"

end
