(* ===== verification/Lifecycle_Ledger_Correct.thy ===== *)
theory Lifecycle_Ledger_Correct
  imports Lifecycle_Ledger
begin

text \<open>
  What the ledger promises: an observation is never dropped, however writers race; an evidence
  identifier is never issued twice, retention included; and retention deletes only what its three
  guarantees allow, in one pass.
\<close>

section \<open>Identifiers\<close>

lemma last_part_append: "CHR '':'' \<notin> set d \<Longrightarrow> last_part (p @ CHR '':'' # d) = d"
proof -
  assume "CHR '':'' \<notin> set d"
  then have "takeWhile (\<lambda>c. c \<noteq> CHR '':'') (rev d @ CHR '':'' # rev p) = rev d"
    by (subst takeWhile_append2) auto
  then show ?thesis by (simp add: last_part_def)
qed

lemma isdigit_no_colon: "isdigit d \<Longrightarrow> CHR '':'' \<notin> set d"
  by (auto simp: isdigit_def list_all_iff is_digit_def)

lemma lifecycle_prefix_colon: "\<exists>p. lifecycle_prefix ns kd uid = p @ [CHR '':'']"
  by (rule exI [of _ "''lifecycle:'' @ ns @ '':'' @ kd @ '':'' @ uid"]) (simp add: lifecycle_prefix_def)

lemma last_part_id: "isdigit d \<Longrightarrow> last_part (lifecycle_prefix ns kd uid @ d) = d"
  using lifecycle_prefix_colon [of ns kd uid] last_part_append isdigit_no_colon by fastforce

lemma sequence_of_id [simp]: "sequence_of (lifecycle_id ns kd uid n) = n"
  by (simp add: sequence_of_def lifecycle_id_def last_part_id isdigit_nat_str str_nat_nat_str)

lemma id_prefix:
  assumes "lifecycle_prefix ns kd uid @ d = lifecycle_prefix ns' kd' uid' @ d'" "isdigit d" "isdigit d'"
  shows "lifecycle_prefix ns kd uid = lifecycle_prefix ns' kd' uid' \<and> d = d'"
proof -
  have "d = d'" using assms last_part_id by metis
  with assms(1) show ?thesis by simp
qed

section \<open>The invariant of the ledger\<close>

definition well_named :: "lifecycle_row \<Rightarrow> bool" where
  "well_named r \<longleftrightarrow> (\<exists>n. lc_evidence r = lifecycle_id (lc_namespace r) (lc_kind r) (lc_uid r) n)"

definition ledger_ok :: "ledger \<Rightarrow> bool" where
  "ledger_ok st \<longleftrightarrow>
     distinct (map lc_evidence (observations st)) \<and> distinct (map fact_of (observations st))
     \<and> distinct (map lc_id (observations st))
     \<and> (\<forall>r\<in>set (observations st). well_named r \<and> lc_id r < next_observation st)
     \<and> distinct (map ov_id (object_rows st))"

lemma used_sequences_iff:
  "n \<in> set (used_sequences st p) \<longleftrightarrow>
     (\<exists>r\<in>set (observations st). \<exists>d. lc_evidence r = p @ d \<and> isdigit d \<and> str_nat d = n)"
proof -
  have *: "starts_with p s \<longleftrightarrow> (\<exists>d. s = p @ d)" for s
    by (auto simp: starts_with_def) (metis append_take_drop_id)
  show ?thesis by (force simp: used_sequences_def *)
qed

text \<open>In a well-formed ledger the numbers in use are those of the rows with that prefix.\<close>

lemma used_sequences_ok:
  assumes "ledger_ok st"
  shows "n \<in> set (used_sequences st (lifecycle_prefix ns kd uid)) \<longleftrightarrow>
    lifecycle_id ns kd uid n \<in> lc_evidence ` set (observations st)"
proof
  assume "n \<in> set (used_sequences st (lifecycle_prefix ns kd uid))"
  then obtain r d where r: "r \<in> set (observations st)" "lc_evidence r = lifecycle_prefix ns kd uid @ d"
    "isdigit d" "str_nat d = n" by (auto simp: used_sequences_iff)
  from assms r(1) obtain m where "lc_evidence r = lifecycle_id (lc_namespace r) (lc_kind r) (lc_uid r) m"
    unfolding ledger_ok_def well_named_def by blast
  with r(2,3) id_prefix [of ns kd uid d "lc_namespace r" "lc_kind r" "lc_uid r" "nat_str m"] isdigit_nat_str [of m]
  have d: "d = nat_str m" unfolding lifecycle_id_def by metis
  then have "n = m" using r(4) str_nat_nat_str by metis
  then have "lc_evidence r = lifecycle_id ns kd uid n" using r(2) d unfolding lifecycle_id_def by blast
  then show "lifecycle_id ns kd uid n \<in> lc_evidence ` set (observations st)" using r(1) by (metis imageI)
next
  assume "lifecycle_id ns kd uid n \<in> lc_evidence ` set (observations st)"
  then show "n \<in> set (used_sequences st (lifecycle_prefix ns kd uid))"
    unfolding used_sequences_iff
    by (metis imageE isdigit_nat_str lifecycle_id_def str_nat_nat_str)
qed

lemma next_sequence_above:
  assumes "ledger_ok st" "lifecycle_id ns kd uid n \<in> lc_evidence ` set (observations st)"
  shows "n < next_sequence st ns kd uid"
proof -
  have n: "n \<in> set (used_sequences st (lifecycle_prefix ns kd uid))"
    using assms by (simp add: used_sequences_ok)
  show ?thesis
  proof (cases "py_max (used_sequences st (lifecycle_prefix ns kd uid))")
    case None
    with n show ?thesis by simp
  next
    case (Some m)
    with n have "n \<le> m" unfolding py_max_Some by blast
    with Some show ?thesis by (simp add: next_sequence_def)
  qed
qed

lemma next_sequence_fresh:
  assumes "ledger_ok st"
  shows "lifecycle_id ns kd uid (next_sequence st ns kd uid) \<notin> lc_evidence ` set (observations st)"
  using next_sequence_above [OF assms] by blast

lemma next_sequence_prefix:
  "lifecycle_prefix ns kd uid = lifecycle_prefix ns' kd' uid' \<Longrightarrow>
     next_sequence st ns kd uid = next_sequence st ns' kd' uid'"
  by (simp add: next_sequence_def)

section \<open>Appending\<close>

text \<open>Other sessions only add well-formed observations.\<close>

definition other_writers :: "(nat \<Rightarrow> ledger \<Rightarrow> ledger) \<Rightarrow> bool" where
  "other_writers env \<longleftrightarrow>
     (\<forall>n st. ledger_ok st \<longrightarrow> ledger_ok (env n st) \<and> set (observations st) \<subseteq> set (observations (env n st)))"

definition valid_observation :: "observation \<Rightarrow> bool" where
  "valid_observation ob \<longleftrightarrow> ob_type ob \<in> set LIFECYCLE_OBSERVATION_TYPES \<and> ob_uid ob \<noteq> []"

lemma insert_observation_ok:
  assumes "ledger_ok st" "insert_observation st (row_of ob now (next_observation st) i) = Inr st'"
    "i = lifecycle_id (ob_namespace ob) (ob_kind ob) (ob_uid ob) n"
  shows "ledger_ok st' \<and> set (observations st') = insert (row_of ob now (next_observation st) i) (set (observations st))
    \<and> i \<notin> lc_evidence ` set (observations st) \<and> event_versions st' = event_versions st \<and> object_rows st' = object_rows st"
proof -
  have "well_named (row_of ob now (next_observation st) i)"
    unfolding well_named_def assms(3) by (rule exI [of _ n]) (simp add: row_of_def)
  moreover define r where "r = row_of ob now (next_observation st) i"
  moreover have "lc_id r = next_observation st" "lc_evidence r = i" by (simp_all add: r_def row_of_def)
  moreover have "\<forall>q\<in>set (observations st). lc_id q \<noteq> next_observation st"
    using assms(1) by (auto simp: ledger_ok_def)
  ultimately show ?thesis
    using assms(1,2) unfolding r_def [symmetric]
    by (auto simp: insert_observation_def ledger_ok_def evidence_id_taken_def
        list_ex_iff less_Suc_eq split: if_splits; metis)
qed

lemma insert_observation_Inl:
  assumes "valid_observation ob" "insert_observation st (row_of ob now k i) = Inl e"
  shows "fact_exists st ob \<or> evidence_id_taken st i"
  using assms
  by (auto simp: insert_observation_def valid_observation_def fact_exists_def row_of_def fact_of_def
      split: if_splits)

definition append_outcome :: "observation \<Rightarrow> ledger \<Rightarrow> lifecycle_row option result \<Rightarrow> ledger \<Rightarrow> bool" where
  "append_outcome ob st res st' \<longleftrightarrow>
     ledger_ok st' \<and> set (observations st) \<subseteq> set (observations st') \<and>
     (case res of
        Inr (Some r) \<Rightarrow>
          r \<in> set (observations st') \<and> fact_of r = (ob_uid ob, ob_type ob, ob_observed ob, ob_source ob)
          \<and> lc_evidence r \<notin> lc_evidence ` set (observations st)
          \<and> next_sequence st (ob_namespace ob) (ob_kind ob) (ob_uid ob) \<le> sequence_of (lc_evidence r)
          \<and> lc_evidence r = lifecycle_id (ob_namespace ob) (ob_kind ob) (ob_uid ob) (sequence_of (lc_evidence r))
      | Inr None \<Rightarrow> fact_exists st' ob
      | Inl e \<Rightarrow> e = RuntimeError ''could not allocate a lifecycle sequence'')"

lemma next_sequence_mono:
  assumes "ledger_ok st" "ledger_ok st'" "lc_evidence ` set (observations st) \<subseteq> lc_evidence ` set (observations st')"
  shows "next_sequence st ns kd uid \<le> next_sequence st' ns kd uid"
proof (cases "py_max (used_sequences st (lifecycle_prefix ns kd uid))")
  case (Some m)
  then have "m \<in> set (used_sequences st (lifecycle_prefix ns kd uid))" by (simp add: py_max_Some)
  then have "lifecycle_id ns kd uid m \<in> lc_evidence ` set (observations st')"
    using assms(3) unfolding used_sequences_ok [OF assms(1)] by blast
  then have "m < next_sequence st' ns kd uid" by (rule next_sequence_above [OF assms(2)])
  with Some show ?thesis by (simp add: next_sequence_def)
qed (simp add: next_sequence_def)

lemma append_attempts_outcome:
  assumes env: "other_writers env" and valid: "valid_observation ob"
  shows "ledger_ok st \<Longrightarrow> append_attempts env ob now n st = (res, st') \<Longrightarrow> append_outcome ob st res st'"
proof (induction n arbitrary: st)
  case 0
  then show ?case by (auto simp: append_outcome_def)
next
  case (Suc n)
  let ?i = "lifecycle_id (ob_namespace ob) (ob_kind ob) (ob_uid ob)
    (next_sequence st (ob_namespace ob) (ob_kind ob) (ob_uid ob))"
  let ?r = "row_of ob now (next_observation (env n st)) ?i"
  have env': "ledger_ok (env n st)" "set (observations st) \<subseteq> set (observations (env n st))"
    using env Suc.prems(1) by (auto simp: other_writers_def)
  show ?case
  proof (cases "fact_exists st ob")
    case True
    with Suc.prems show ?thesis by (auto simp: append_outcome_def)
  next
    case False
    show ?thesis
    proof (cases "insert_observation (env n st) ?r")
      case (Inr st2)
      with Suc.prems False have "res = Inr (Some ?r)" "st' = st2" by (auto simp: Let_def)
      moreover note insert_observation_ok [OF env'(1) Inr refl]
      ultimately show ?thesis
        using env'(2) by (auto simp: append_outcome_def row_of_def fact_of_def)
    next
      case (Inl e)
      show ?thesis
      proof (cases "fact_exists (env n st) ob")
        case True
        with Suc.prems False Inl env' show ?thesis by (auto simp: append_outcome_def Let_def)
      next
        case no_fact: False
        with insert_observation_Inl [OF valid Inl] have "evidence_id_taken (env n st) ?i" by blast
        with Suc.prems False Inl no_fact have "append_attempts env ob now n (env n st) = (res, st')"
          by (simp add: Let_def)
        from Suc.IH [OF env'(1) this] env'(2)
          next_sequence_mono [OF Suc.prems(1) env'(1) image_mono [OF env'(2)]]
        show ?thesis unfolding append_outcome_def
          by (auto split: sum.splits option.splits) (meson order_trans)
      qed
    qed
  qed
qed

text \<open>
  C37: Recording an observation never drops evidence, however other writers race. Everything recorded
  before stays; a valid observation is either recorded under an identifier nobody had, numbered
  above every earlier observation of its instance, or was recorded already, or the call fails after
  its five attempts with \<open>RuntimeError\<close> and no other error; an invalid one raises \<open>ValueError\<close> and
  changes nothing. Without a racing writer a valid observation is always recorded.
\<close>

theorem append_never_drops:
  assumes env: "other_writers env" and ok: "ledger_ok st"
    and run: "append_observation env ob now st = (res, st')"
  shows "(\<not> valid_observation ob \<longrightarrow> st' = st \<and> (\<exists>m. res = Inl (ValueError m))) \<and>
    (valid_observation ob \<longrightarrow> append_outcome ob st res st') \<and>
    (valid_observation ob \<and> (\<forall>n s. env n s = s) \<longrightarrow> (\<exists>r. res = Inr r) \<and> fact_exists st' ob)"
proof -
  have 1: "st' = st \<and> (\<exists>m. res = Inl (ValueError m))" if "\<not> valid_observation ob"
    using that run by (auto simp: append_observation_def valid_observation_def split: if_splits)
  have 2: "append_outcome ob st res st'" if v: "valid_observation ob"
    using append_attempts_outcome [OF env v ok] run v
    by (auto simp: append_observation_def valid_observation_def)
  have 3: "(\<exists>r. res = Inr r) \<and> fact_exists st' ob" if v: "valid_observation ob" and "\<forall>n s. env n s = s"
  proof -
    have run': "append_attempts env ob now (Suc 4) st = (res, st')"
      using run v by (simp add: append_observation_def valid_observation_def LIFECYCLE_APPEND_ATTEMPTS_def)
    have "(\<exists>r. res = Inr r)"
    proof (cases "fact_exists st ob")
      case False
      have "\<not> evidence_id_taken st (lifecycle_id (ob_namespace ob) (ob_kind ob) (ob_uid ob)
          (next_sequence st (ob_namespace ob) (ob_kind ob) (ob_uid ob)))"
        using next_sequence_fresh [OF ok] unfolding evidence_id_taken_def list_ex_iff by (metis imageI)
      then obtain st2 where "insert_observation st (row_of ob now (next_observation st)
          (lifecycle_id (ob_namespace ob) (ob_kind ob) (ob_uid ob)
            (next_sequence st (ob_namespace ob) (ob_kind ob) (ob_uid ob)))) = Inr st2"
        using insert_observation_Inl [OF v] False by (metis Inl_Inr_False sum.exhaust)
      with False run' that(2) show ?thesis
        unfolding append_attempts.simps by (auto simp: Let_def)
    next
      case True
      with run' show ?thesis unfolding append_attempts.simps by auto
    qed
    then obtain r where "res = Inr r" by blast
    with 2 [OF v] show ?thesis
      by (cases r) (auto simp: append_outcome_def fact_exists_def list_ex_iff)
  qed
  show ?thesis using 1 2 3 by blast
qed

section \<open>Retention\<close>

lemma fold_highest:
  fixes f :: "'a \<Rightarrow> nat"
  shows "a \<le> fold (\<lambda>r m. if P r then max m (f r) else m) xs a
    \<and> (\<forall>x\<in>set xs. P x \<longrightarrow> f x \<le> fold (\<lambda>r m. if P r then max m (f r) else m) xs a)
    \<and> (fold (\<lambda>r m. if P r then max m (f r) else m) xs a = a
       \<or> (\<exists>x\<in>set xs. P x \<and> f x = fold (\<lambda>r m. if P r then max m (f r) else m) xs a))"
proof (induction xs arbitrary: a)
  case (Cons y ys)
  define b where "b = (if P y then max a (f y) else a)"
  have b: "a \<le> b" "P y \<Longrightarrow> f y \<le> b" "b = a \<or> P y \<and> b = f y" by (auto simp: b_def max_def)
  have "fold (\<lambda>r m. if P r then max m (f r) else m) (y # ys) a = fold (\<lambda>r m. if P r then max m (f r) else m) ys b"
    by (simp add: b_def)
  with b Cons.IH [of b] show ?case
    by (auto simp del: fold_simps intro: order_trans)
qed simp

lemma highest_ge: "r \<in> set (observations st) \<Longrightarrow> sequence_of (lc_evidence r) \<le> highest_sequence st (instance_key r)"
  using fold_highest [of 0 "\<lambda>q. instance_key q = instance_key r" "\<lambda>q. sequence_of (lc_evidence q)" "observations st"]
  by (auto simp: highest_sequence_def)

lemma highest_attained:
  "0 < highest_sequence st k \<Longrightarrow>
     \<exists>r\<in>set (observations st). instance_key r = k \<and> sequence_of (lc_evidence r) = highest_sequence st k"
  using fold_highest [of 0 "\<lambda>q. instance_key q = k" "\<lambda>q. sequence_of (lc_evidence q)" "observations st"]
  by (auto simp: highest_sequence_def)

definition deletable_row :: "ledger \<Rightarrow> instant \<Rightarrow> lifecycle_row \<Rightarrow> bool" where
  "deletable_row st t r \<longleftrightarrow> lc_observed r < t
     \<and> sequence_of (lc_evidence r) < highest_sequence st (instance_key r)
     \<and> (\<forall>e\<in>set (event_versions st). ev_uid e = Some (lc_uid r) \<longrightarrow> ev_at e \<le> lc_observed r)"

lemma newest_event_le:
  "(case newest_event st u of None \<Rightarrow> True | Some e \<Rightarrow> e \<le> t) \<longleftrightarrow>
     (\<forall>e\<in>set (event_versions st). ev_uid e = Some u \<longrightarrow> ev_at e \<le> t)"
proof (cases "newest_event st u")
  case None
  then show ?thesis by (auto simp: newest_event_def filter_empty_conv)
next
  case (Some m)
  then have "m \<in> ev_at ` {e \<in> set (event_versions st). ev_uid e = Some u}"
    "\<forall>x \<in> ev_at ` {e \<in> set (event_versions st). ev_uid e = Some u}. x \<le> m"
    unfolding newest_event_def py_max_Some by auto
  with Some show ?thesis by fastforce
qed

lemma prune_lifecycle_set:
  assumes "ledger_ok st"
  shows "set (observations (prune_lifecycle p now st)) =
    {r \<in> set (observations st). \<not> deletable_row st (now - lifecycle_horizon p) r}"
proof -
  have "r = q" if "r \<in> set (observations st)" "q \<in> set (observations st)" "lc_id r = lc_id q" for r q
    using assms that by (auto simp: ledger_ok_def distinct_map inj_on_def)
  then show ?thesis
    by (auto simp: prune_lifecycle_def deletable_lifecycle_def deletable_row_def newest_event_le)
qed

lemma highest_not_deletable:
  "sequence_of (lc_evidence r) = highest_sequence st (instance_key r) \<Longrightarrow> \<not> deletable_row st t r"
  by (simp add: deletable_row_def)

lemma ledger_ok_filter:
  assumes "ledger_ok st" "observations st' = filter P (observations st)" "object_rows st' = filter Q (object_rows st)"
    "next_observation st' = next_observation st"
  shows "ledger_ok st'"
  using assms unfolding ledger_ok_def by (auto simp: distinct_map_filter)

lemmas prune_defs = prune_events_def prune_lifecycle_def prune_objects_def

lemma prune_ok:
  assumes "ledger_ok st"
  shows "ledger_ok (prune_events p now st)" "ledger_ok (prune_lifecycle p now st)" "ledger_ok (prune_objects p now st)"
proof -
  show "ledger_ok (prune_events p now st)"
    by (rule ledger_ok_filter [OF assms, where P = "\<lambda>_. True" and Q = "\<lambda>_. True"]) (simp_all add: prune_defs)
  show "ledger_ok (prune_lifecycle p now st)"
    by (rule ledger_ok_filter [OF assms, where Q = "\<lambda>_. True"]) (auto simp: prune_defs)
  show "ledger_ok (prune_objects p now st)"
    by (rule ledger_ok_filter [OF assms, where P = "\<lambda>_. True"]) (auto simp: prune_defs)
qed

text \<open>Pruning keeps the row with the highest number of every instance, so numbering is unaffected.\<close>

lemma prune_lifecycle_next_sequence:
  assumes ok: "ledger_ok st"
  shows "next_sequence (prune_lifecycle p now st) ns kd uid = next_sequence st ns kd uid"
proof (rule antisym)
  let ?st' = "prune_lifecycle p now st"
  note ok' = prune_ok(2) [OF ok]
  have "lc_evidence ` set (observations ?st') \<subseteq> lc_evidence ` set (observations st)"
    using prune_lifecycle_set [OF ok] by blast
  from next_sequence_mono [OF ok' ok this] show "next_sequence ?st' ns kd uid \<le> next_sequence st ns kd uid" .
  show "next_sequence st ns kd uid \<le> next_sequence ?st' ns kd uid"
  proof (cases "py_max (used_sequences st (lifecycle_prefix ns kd uid))")
    case (Some m)
    then have "m \<in> set (used_sequences st (lifecycle_prefix ns kd uid))"
      and top: "\<And>k. k \<in> set (used_sequences st (lifecycle_prefix ns kd uid)) \<Longrightarrow> k \<le> m"
      unfolding py_max_Some by blast+
    then obtain r where r: "r \<in> set (observations st)" "lc_evidence r = lifecycle_id ns kd uid m"
      using used_sequences_ok [OF ok] by (metis imageE)
    from ok r(1) obtain k where k: "lc_evidence r = lifecycle_id (lc_namespace r) (lc_kind r) (lc_uid r) k"
      unfolding ledger_ok_def well_named_def by blast
    have pre: "lifecycle_prefix (lc_namespace r) (lc_kind r) (lc_uid r) = lifecycle_prefix ns kd uid"
      using id_prefix r(2) k isdigit_nat_str unfolding lifecycle_id_def by metis
    have "highest_sequence st (instance_key r) \<le> m"
    proof (cases "highest_sequence st (instance_key r) = 0")
      case False
      then obtain q where q: "q \<in> set (observations st)" "instance_key q = instance_key r"
        "sequence_of (lc_evidence q) = highest_sequence st (instance_key r)"
        using highest_attained [of st "instance_key r"] by auto
      from ok q(1) obtain j where "lc_evidence q = lifecycle_id (lc_namespace q) (lc_kind q) (lc_uid q) j"
        unfolding ledger_ok_def well_named_def by blast
      with q(2,3) have "lc_evidence q = lifecycle_id ns kd uid (highest_sequence st (instance_key r))"
        using pre by (simp add: instance_key_def lifecycle_id_def [abs_def] sequence_of_id [unfolded lifecycle_id_def])
      with q(1) have "highest_sequence st (instance_key r) \<in> set (used_sequences st (lifecycle_prefix ns kd uid))"
        unfolding used_sequences_ok [OF ok] by (metis imageI)
      then show ?thesis by (rule top)
    qed simp
    then have "\<not> deletable_row st (now - lifecycle_horizon p) r"
      using r by (simp add: deletable_row_def)
    with r have "lifecycle_id ns kd uid m \<in> lc_evidence ` set (observations ?st')"
      unfolding prune_lifecycle_set [OF ok] by (metis (mono_tags, lifting) imageI mem_Collect_eq)
    from next_sequence_above [OF ok' this] Some show ?thesis by (simp add: next_sequence_def)
  qed (simp add: next_sequence_def)
qed

lemma apply_retention_observations:
  "observations (snd (apply_retention p now st)) = observations (prune_lifecycle p now (prune_events p now st))"
  by (simp add: apply_retention_def Let_def prune_objects_def)

lemma next_sequence_cong: "observations st = observations st' \<Longrightarrow> next_sequence st = next_sequence st'"
  by (intro ext) (simp add: next_sequence_def used_sequences_def)

lemma apply_retention_next_sequence:
  assumes "ledger_ok st"
  shows "next_sequence (snd (apply_retention p now st)) = next_sequence st"
proof -
  have "next_sequence (snd (apply_retention p now st)) = next_sequence (prune_lifecycle p now (prune_events p now st))"
    by (rule next_sequence_cong) (rule apply_retention_observations)
  also have "\<dots> = next_sequence (prune_events p now st)"
    using prune_lifecycle_next_sequence [OF prune_ok(1) [OF assms]] by (intro ext) simp
  also have "\<dots> = next_sequence st" by (rule next_sequence_cong) (simp add: prune_events_def)
  finally show ?thesis .
qed

lemma apply_retention_ok: "ledger_ok st \<Longrightarrow> ledger_ok (snd (apply_retention p now st))"
  by (simp add: apply_retention_def Let_def prune_ok)

section \<open>Runs of the ledger\<close>

datatype ledger_op = Append observation instant | Retain retention_policy instant

fun ledger_step :: "ledger_op \<Rightarrow> ledger \<Rightarrow> ledger" where
  "ledger_step (Append ob now) st = snd (append_observation (\<lambda>_ s. s) ob now st)"
| "ledger_step (Retain p now) st = snd (apply_retention p now st)"

text \<open>The identifier an operation gives out, and those of a run.\<close>

fun given :: "ledger_op \<Rightarrow> ledger \<Rightarrow> string list" where
  "given (Append ob now) st =
     (case fst (append_observation (\<lambda>_ s. s) ob now st) of Inr (Some r) \<Rightarrow> [lc_evidence r] | _ \<Rightarrow> [])"
| "given (Retain p now) st = []"

fun issued :: "ledger_op list \<Rightarrow> ledger \<Rightarrow> string list" where
  "issued [] st = []"
| "issued (x # xs) st = given x st @ issued xs (ledger_step x st)"

definition numbering_le :: "ledger \<Rightarrow> ledger \<Rightarrow> bool" where
  "numbering_le s t \<longleftrightarrow> (\<forall>ns kd uid. next_sequence s ns kd uid \<le> next_sequence t ns kd uid)"

lemma no_other_writers: "other_writers (\<lambda>_ s. s)"
  by (simp add: other_writers_def)

lemma append_step:
  assumes "ledger_ok st"
  shows "ledger_ok (ledger_step (Append ob now) st) \<and> numbering_le st (ledger_step (Append ob now) st)"
proof (cases "valid_observation ob")
  case True
  obtain res st' where run: "append_observation (\<lambda>_ s. s) ob now st = (res, st')" by fastforce
  have "append_outcome ob st res st'"
    using append_attempts_outcome [OF no_other_writers True assms] run True
    by (auto simp: append_observation_def valid_observation_def)
  then have "ledger_ok st'" "set (observations st) \<subseteq> set (observations st')" by (auto simp: append_outcome_def)
  with assms show ?thesis
    by (auto simp: numbering_le_def run intro!: next_sequence_mono)
next
  case False
  with assms show ?thesis
    by (auto simp: append_observation_def valid_observation_def numbering_le_def)
qed

interpretation ledger_run: monotone_machine ledger_step ledger_ok numbering_le
proof
  show "numbering_le s s" for s by (simp add: numbering_le_def)
  show "numbering_le s u" if "numbering_le s t" "numbering_le t u" for s t u
    using that unfolding numbering_le_def by (meson order_trans)
  show "ledger_ok (ledger_step e s)" if "ledger_ok s" for e s
    using that append_step by (cases e) (auto simp: apply_retention_ok)
  show "numbering_le s (ledger_step e s)" if "ledger_ok s" for e s
    using that append_step by (cases e) (auto simp: numbering_le_def apply_retention_next_sequence)
qed

lemma given_numbered:
  assumes "ledger_ok st" "i \<in> set (given x st)"
  shows "\<exists>ns kd uid n. i = lifecycle_id ns kd uid n \<and> next_sequence st ns kd uid \<le> n
    \<and> n < next_sequence (ledger_step x st) ns kd uid"
proof -
  from assms(2) obtain ob now r st' where x: "x = Append ob now"
    and run: "append_observation (\<lambda>_ s. s) ob now st = (Inr (Some r), st')" and i: "i = lc_evidence r"
  proof (cases x)
    case (Append ob now)
    obtain res st' where run: "append_observation (\<lambda>_ s. s) ob now st = (res, st')" by fastforce
    with assms(2) Append obtain r where "res = Inr (Some r)" "i = lc_evidence r"
      by (auto split: sum.splits option.splits)
    with Append run that show ?thesis by blast
  qed (use assms(2) in simp)
  then have v: "valid_observation ob"
    by (auto simp: append_observation_def valid_observation_def split: if_splits)
  with append_attempts_outcome [OF no_other_writers v assms(1)] run
  have out: "append_outcome ob st (Inr (Some r)) st'"
    by (auto simp: append_observation_def valid_observation_def)
  let ?n = "sequence_of (lc_evidence r)"
  have st': "ledger_step x st = st'" by (simp add: x run)
  from out have o: "ledger_ok st'" "r \<in> set (observations st')"
    "next_sequence st (ob_namespace ob) (ob_kind ob) (ob_uid ob) \<le> ?n"
    "lc_evidence r = lifecycle_id (ob_namespace ob) (ob_kind ob) (ob_uid ob) ?n"
    by (simp_all add: append_outcome_def)
  have "?n < next_sequence st' (ob_namespace ob) (ob_kind ob) (ob_uid ob)"
    by (rule next_sequence_above [OF o(1)]) (metis o(2,4) imageI)
  with o(3,4) i st' show ?thesis by metis
qed

lemma issued_numbered:
  "ledger_ok st \<Longrightarrow> i \<in> set (issued xs st) \<Longrightarrow>
     \<exists>ns kd uid n. i = lifecycle_id ns kd uid n \<and> next_sequence st ns kd uid \<le> n"
proof (induction xs arbitrary: st)
  case (Cons x xs)
  show ?case
  proof (cases "i \<in> set (given x st)")
    case True
    with given_numbered [OF Cons.prems(1)] show ?thesis by meson
  next
    case False
    with Cons.prems have "i \<in> set (issued xs (ledger_step x st))" by simp
    from Cons.IH [OF ledger_run.inv_step [OF Cons.prems(1)] this]
      ledger_run.le_step [OF Cons.prems(1), of x]
    show ?thesis unfolding numbering_le_def by (fast intro: order_trans)
  qed
qed simp

lemma lifecycle_id_eq:
  assumes "lifecycle_id ns kd uid n = lifecycle_id ns' kd' uid' n'"
  shows "n = n' \<and> next_sequence st ns kd uid = next_sequence st ns' kd' uid'"
  using assms id_prefix isdigit_nat_str next_sequence_prefix str_nat_nat_str
  unfolding lifecycle_id_def by metis

lemma distinct_given: "distinct (given x st)"
  by (cases x) (auto split: sum.splits option.splits)

text \<open>
  C38: An evidence identifier is never issued twice. In any run of appends and retention passes, in any
  order and with any policies and clocks, the identifiers given out are pairwise different and
  differ from every identifier the ledger held at the start: retention never lets a number be
  used again, even for an instance whose rows it deleted.
\<close>

theorem evidence_ids_never_reissued:
  assumes "ledger_ok st"
  shows "distinct (issued xs st) \<and> set (issued xs st) \<inter> lc_evidence ` set (observations st) = {}"
proof
  show "distinct (issued xs st)"
    using assms
  proof (induction xs arbitrary: st)
    case (Cons x xs)
    have "i \<notin> set (issued xs (ledger_step x st))" if i: "i \<in> set (given x st)" for i
    proof
      assume "i \<in> set (issued xs (ledger_step x st))"
      from issued_numbered [OF ledger_run.inv_step [OF Cons.prems] this] given_numbered [OF Cons.prems i]
      show False using lifecycle_id_eq by (metis not_less)
    qed
    then show ?case
      using Cons.IH [OF ledger_run.inv_step [OF Cons.prems]] distinct_given by auto
  qed simp
  show "set (issued xs st) \<inter> lc_evidence ` set (observations st) = {}"
    using issued_numbered [OF assms] next_sequence_above [OF assms] by (metis disjoint_iff not_less)
qed

section \<open>What retention deletes\<close>

lemma make_policy_Inr:
  "make_policy e l ob = Inr p \<Longrightarrow> events_horizon p = e \<and> lifecycle_horizon p = l \<and> objects_horizon p = ob
     \<and> 0 < e \<and> 0 < ob \<and> e \<le> l"
  by (auto simp: make_policy_def split: if_splits)

lemma latest_versions_iff:
  "i \<in> set (latest_versions st) \<longleftrightarrow>
     (\<exists>q\<in>set (object_rows st). ov_id q = i \<and> (\<forall>x\<in>set (object_rows st). ov_key x = ov_key q \<longrightarrow> ov_id x \<le> i))"
proof -
  have "i \<in> set (latest_versions st) \<longleftrightarrow>
      (\<exists>r\<in>set (object_rows st). py_max (map ov_id (filter (\<lambda>q. ov_key q = ov_key r) (object_rows st))) = Some i)"
    by (force simp: latest_versions_def List.map_filter_def)
  also have "\<dots> \<longleftrightarrow> (\<exists>q\<in>set (object_rows st). ov_id q = i \<and> (\<forall>x\<in>set (object_rows st). ov_key x = ov_key q \<longrightarrow> ov_id x \<le> i))"
  proof
    assume "\<exists>r\<in>set (object_rows st). py_max (map ov_id (filter (\<lambda>q. ov_key q = ov_key r) (object_rows st))) = Some i"
    then obtain r :: object_row where "i \<in> ov_id ` {q \<in> set (object_rows st). ov_key q = ov_key r}"
      and max: "\<forall>x\<in>ov_id ` {q \<in> set (object_rows st). ov_key q = ov_key r}. x \<le> i"
      unfolding py_max_Some set_map set_filter by blast
    then obtain q where "q \<in> set (object_rows st)" "ov_key q = ov_key r" "ov_id q = i" by blast
    with max show "\<exists>q\<in>set (object_rows st). ov_id q = i \<and> (\<forall>x\<in>set (object_rows st). ov_key x = ov_key q \<longrightarrow> ov_id x \<le> i)"
      by (intro bexI [of _ q]) auto
  qed (auto simp: py_max_Some)
  finally show ?thesis .
qed

lemma latest_exists:
  assumes "r \<in> set (object_rows st)"
  shows "\<exists>q\<in>set (object_rows st). ov_key q = ov_key r \<and> ov_id q \<in> set (latest_versions st)
    \<and> (\<forall>x\<in>set (object_rows st). ov_key x = ov_key r \<longrightarrow> ov_id x \<le> ov_id q)"
proof -
  obtain m where "py_max (map ov_id (filter (\<lambda>q. ov_key q = ov_key r) (object_rows st))) = Some m"
    using assms by (cases "py_max (map ov_id (filter (\<lambda>q. ov_key q = ov_key r) (object_rows st)))")
      (auto simp: filter_empty_conv)
  then obtain q where "q \<in> set (object_rows st)" "ov_key q = ov_key r" "ov_id q = m"
    "\<forall>x\<in>set (object_rows st). ov_key x = ov_key r \<longrightarrow> ov_id x \<le> m"
    unfolding py_max_Some by auto
  then show ?thesis unfolding latest_versions_iff by (intro bexI [of _ q]) auto
qed

text \<open>
  Retention keeps its guarantees whatever the horizons are. Under a policy that was accepted, an
  Event goes exactly when it is older than the events horizon; a lifecycle row goes only when it is
  older than both horizons, when no Event of its exact instance is kept, and when a row of its
  instance with a higher number stays; and every object keeps its newest journal version, every
  deleted one being older than the objects horizon. The reported counts are the rows that went.
\<close>

theorem retention_guarantees:
  assumes ok: "ledger_ok st" and policy: "make_policy e l ob = Inr p"
    and run: "apply_retention p now st = (res, st')"
  shows "set (event_versions st') = {x \<in> set (event_versions st). now - e \<le> ev_at x} \<and>
    set (observations st') \<subseteq> set (observations st) \<and>
    (\<forall>r \<in> set (observations st) - set (observations st').
       lc_observed r < now - l \<and> lc_observed r < now - e \<and>
       \<not> (\<exists>x \<in> set (event_versions st'). ev_uid x = Some (lc_uid r)) \<and>
       (\<exists>q \<in> set (observations st'). instance_key q = instance_key r
          \<and> sequence_of (lc_evidence r) < sequence_of (lc_evidence q))) \<and>
    set (object_rows st') \<subseteq> set (object_rows st) \<and>
    (\<forall>r \<in> set (object_rows st) - set (object_rows st'). ov_observed r < now - ob) \<and>
    (\<forall>r \<in> set (object_rows st). \<exists>q \<in> set (object_rows st'). ov_key q = ov_key r
       \<and> (\<forall>x \<in> set (object_rows st). ov_key x = ov_key r \<longrightarrow> ov_id x \<le> ov_id q)) \<and>
    length (event_versions st') + events_deleted res = length (event_versions st) \<and>
    length (observations st') + lifecycle_deleted res = length (observations st) \<and>
    length (object_rows st') + objects_deleted res = length (object_rows st)"
proof -
  note p = make_policy_Inr [OF policy]
  let ?s1 = "prune_events p now st" let ?s2 = "prune_lifecycle p now ?s1"
  have st': "st' = prune_objects p now ?s2" using run by (simp add: apply_retention_def Let_def)
  note ok1 = prune_ok(1) [OF ok, of p now]
  have ev: "set (event_versions st') = {x \<in> set (event_versions st). now - e \<le> ev_at x}"
    using p by (auto simp: st' prune_defs)
  have ev1: "set (event_versions ?s1) = set (event_versions st')" by (simp add: st' prune_defs)
  have obs1: "observations ?s1 = observations st" by (simp add: prune_events_def)
  have obs: "set (observations st') = {r \<in> set (observations st). \<not> deletable_row ?s1 (now - l) r}"
    using prune_lifecycle_set [OF ok1, of p now] p obs1 by (simp add: st' prune_objects_def)
  have life: "lc_observed r < now - l \<and> lc_observed r < now - e \<and>
      \<not> (\<exists>x \<in> set (event_versions st'). ev_uid x = Some (lc_uid r)) \<and>
      (\<exists>q \<in> set (observations st'). instance_key q = instance_key r
         \<and> sequence_of (lc_evidence r) < sequence_of (lc_evidence q))"
    if "r \<in> set (observations st) - set (observations st')" for r
  proof -
    from that have d: "deletable_row ?s1 (now - l) r" unfolding obs by blast
    then have old: "lc_observed r < now - l" by (simp add: deletable_row_def)
    have seq: "sequence_of (lc_evidence r) < highest_sequence ?s1 (instance_key r)"
      using d by (simp add: deletable_row_def)
    then obtain q where q: "q \<in> set (observations st)" "instance_key q = instance_key r"
      "sequence_of (lc_evidence q) = highest_sequence ?s1 (instance_key r)"
      using highest_attained [of ?s1 "instance_key r"] obs1 by auto
    then have "q \<in> set (observations st')" unfolding obs using highest_not_deletable [of q ?s1] by simp
    moreover have "ev_uid x \<noteq> Some (lc_uid r)" if "x \<in> set (event_versions st')" for x
    proof
      assume "ev_uid x = Some (lc_uid r)"
      with d that ev1 have "ev_at x \<le> lc_observed r" by (auto simp: deletable_row_def)
      with that ev old p show False by auto
    qed
    ultimately show ?thesis using old p q seq by auto
  qed
  have objs: "set (object_rows st') = {r \<in> set (object_rows st). \<not> (ov_observed r < now - ob \<and> ov_id r \<notin> set (latest_versions ?s2))}"
    using p by (auto simp: st' prune_defs)
  have same: "object_rows ?s2 = object_rows st" by (simp add: prune_defs)
  have latest: "\<exists>q \<in> set (object_rows st'). ov_key q = ov_key r
       \<and> (\<forall>x \<in> set (object_rows st). ov_key x = ov_key r \<longrightarrow> ov_id x \<le> ov_id q)" if "r \<in> set (object_rows st)" for r
    using latest_exists [of r ?s2] that unfolding same objs by blast
  have counts: "length (event_versions st') + events_deleted res = length (event_versions st)"
    "length (observations st') + lifecycle_deleted res = length (observations st)"
    "length (object_rows st') + objects_deleted res = length (object_rows st)"
    using run by (auto simp: apply_retention_def Let_def prune_defs)
  have "set (observations st') \<subseteq> set (observations st)" "set (object_rows st') \<subseteq> set (object_rows st)"
    "\<forall>r \<in> set (object_rows st) - set (object_rows st'). ov_observed r < now - ob"
    unfolding obs objs by auto
  with ev life latest counts show ?thesis by blast
qed

text \<open>
  A retention pass is complete: running it again at the same instant, with the same policy,
  deletes nothing more.
\<close>

theorem retention_settles:
  assumes ok: "ledger_ok st" and policy: "make_policy e l ob = Inr p"
    and run: "apply_retention p now st = (res, st')"
  shows "apply_retention p now st' = (\<lparr>events_deleted = 0, lifecycle_deleted = 0, objects_deleted = 0\<rparr>, st')"
proof -
  let ?s1 = "prune_events p now st" let ?s2 = "prune_lifecycle p now ?s1"
  have st': "st' = prune_objects p now ?s2" using run by (simp add: apply_retention_def Let_def)
  note ok1 = prune_ok(1) [OF ok, of p now]
  have ok': "ledger_ok st'" using apply_retention_ok [OF ok, of p now] run by simp
  have ev: "event_versions st' = event_versions ?s1" by (simp add: st' prune_defs)
  have e: "prune_events p now st' = st'" by (simp add: st' prune_defs)
  have obs: "set (observations st') = {r \<in> set (observations st). \<not> deletable_row ?s1 (now - lifecycle_horizon p) r}"
    using prune_lifecycle_set [OF ok1, of p now] by (simp add: st' prune_defs)
  have high: "highest_sequence st' k \<le> highest_sequence ?s1 k" for k
  proof (cases "highest_sequence st' k = 0")
    case False
    then obtain r where "r \<in> set (observations st')" "instance_key r = k"
      "sequence_of (lc_evidence r) = highest_sequence st' k" using highest_attained [of st' k] by auto
    moreover from this have "r \<in> set (observations ?s1)" using obs by (simp add: prune_events_def)
    ultimately show ?thesis using highest_ge by metis
  qed simp
  have "\<not> deletable_row st' (now - lifecycle_horizon p) r" if "r \<in> set (observations st')" for r
  proof -
    have "\<not> deletable_row ?s1 (now - lifecycle_horizon p) r" using that obs by blast
    then show ?thesis using high [of "instance_key r"] ev by (auto simp: deletable_row_def)
  qed
  then have "set (observations (prune_lifecycle p now st')) = set (observations st')"
    using prune_lifecycle_set [OF ok', of p now] by blast
  then have l: "prune_lifecycle p now st' = st'"
  proof -
    assume eq: "set (observations (prune_lifecycle p now st')) = set (observations st')"
    have "filter (\<lambda>r. lc_id r \<notin> set (deletable_lifecycle st' (now - lifecycle_horizon p))) (observations st')
        = observations st'"
      by (rule filter_True) (use eq in \<open>auto simp: prune_lifecycle_def\<close>)
    then show ?thesis by (simp add: prune_lifecycle_def)
  qed
  have "set (latest_versions ?s2) \<subseteq> set (latest_versions st')"
    unfolding latest_versions_iff by (auto simp: st' prune_defs latest_versions_iff) (metis+)
  then have keep: "\<not> (ov_observed r < now - objects_horizon p \<and> ov_id r \<notin> set (latest_versions st'))"
    if "r \<in> set (object_rows st')" for r
    using that unfolding st' prune_objects_def by auto
  have "filter (\<lambda>r. \<not> (ov_observed r < now - objects_horizon p \<and> ov_id r \<notin> set (latest_versions st')))
      (object_rows st') = object_rows st'"
    by (rule filter_True) (use keep in blast)
  then have o: "prune_objects p now st' = st'" by (simp add: prune_objects_def)
  show ?thesis by (simp add: apply_retention_def Let_def e l o)
qed

section \<open>A concrete ledger\<close>

definition seen :: "string \<Rightarrow> instant \<Rightarrow> observation" where
  "seen ty t = \<lparr>ob_namespace = ''shop'', ob_kind = ''Pod'', ob_name = ''web'', ob_uid = ''u1'', ob_type = ty,
     ob_observed = t, ob_source = ''watch'', ob_payload = JNull, ob_source_at = None, ob_ingested = None\<rparr>"

definition stored :: "nat \<Rightarrow> string \<Rightarrow> instant \<Rightarrow> lifecycle_row" where
  "stored n ty t = row_of (seen ty t) t n (lifecycle_id ''shop'' ''Pod'' ''u1'' n)"

definition sample_ledger :: ledger where
  "sample_ledger = \<lparr>observations = [stored 1 ''READY_TRUE'' 10, stored 2 ''OOM_KILLED'' 20],
     event_versions = [\<lparr>ev_id = 1, ev_uid = Some ''u1'', ev_at = 15\<rparr>],
     object_rows = [\<lparr>ov_id = 1, ov_key = ''k'', ov_observed = 5\<rparr>, \<lparr>ov_id = 2, ov_key = ''k'', ov_observed = 6\<rparr>],
     next_observation = 3\<rparr>"

lemma stored_simps [simp]:
  "lc_id (stored n ty t) = n" "lc_observed (stored n ty t) = t" "lc_uid (stored n ty t) = ''u1''"
  "sequence_of (lc_evidence (stored n ty t)) = n" "lc_evidence (stored n ty t) = lifecycle_id ''shop'' ''Pod'' ''u1'' n"
  "instance_key (stored n ty t) = (''shop'', ''Pod'', ''u1'')" "fact_of (stored n ty t) = (''u1'', ty, t, ''watch'')"
  "well_named (stored n ty t)"
  unfolding well_named_def by (auto simp: stored_def row_of_def seen_def instance_key_def fact_of_def)

lemma lifecycle_id_inj: "lifecycle_id ns kd uid n = lifecycle_id ns kd uid m \<longleftrightarrow> n = m"
  using sequence_of_id by metis

lemma sample_ledger_ok: "ledger_ok sample_ledger"
  by (simp add: ledger_ok_def sample_ledger_def lifecycle_id_inj)

lemma sample_policy: "make_policy 24 48 100 = Inr \<lparr>events_horizon = 24, lifecycle_horizon = 48, objects_horizon = 100\<rparr>"
  by (simp add: make_policy_def)

lemma sample_retained:
  "apply_retention \<lparr>events_horizon = 24, lifecycle_horizon = 48, objects_horizon = 100\<rparr> 1000 sample_ledger =
    (\<lparr>events_deleted = 1, lifecycle_deleted = 1, objects_deleted = 1\<rparr>,
     \<lparr>observations = [stored 2 ''OOM_KILLED'' 20], event_versions = [],
      object_rows = [\<lparr>ov_id = 2, ov_key = ''k'', ov_observed = 6\<rparr>], next_observation = 3\<rparr>)"
proof -
  let ?p = "\<lparr>events_horizon = 24, lifecycle_horizon = 48, objects_horizon = 100\<rparr>"
  let ?s1 = "sample_ledger\<lparr>event_versions := []\<rparr>"
  let ?s2 = "?s1\<lparr>observations := [stored 2 ''OOM_KILLED'' 20]\<rparr>"
  have 1: "prune_events ?p 1000 sample_ledger = ?s1" by (simp add: prune_events_def sample_ledger_def)
  have "deletable_lifecycle ?s1 952 = [1]"
    by (simp add: deletable_lifecycle_def highest_sequence_def newest_event_def sample_ledger_def)
  then have 2: "prune_lifecycle ?p 1000 ?s1 = ?s2" by (simp add: prune_lifecycle_def sample_ledger_def)
  have "latest_versions ?s2 = [2]" by (simp add: latest_versions_def List.map_filter_def sample_ledger_def)
  then have 3: "prune_objects ?p 1000 ?s2 = ?s2\<lparr>object_rows := [\<lparr>ov_id = 2, ov_key = ''k'', ov_observed = 6\<rparr>]\<rparr>"
    by (simp add: prune_objects_def sample_ledger_def)
  show ?thesis by (simp add: apply_retention_def Let_def 1 2 3) (simp add: sample_ledger_def)
qed

theorem append_never_drops_witness:
  "\<exists>res st'. append_observation (\<lambda>_ s. s) (seen ''DELETED'' 30) 31 sample_ledger = (res, st')
     \<and> append_outcome (seen ''DELETED'' 30) sample_ledger res st' \<and> fact_exists st' (seen ''DELETED'' 30)"
proof -
  obtain res st' where run: "append_observation (\<lambda>_ s. s) (seen ''DELETED'' 30) 31 sample_ledger = (res, st')"
    by fastforce
  have "valid_observation (seen ''DELETED'' 30)"
    by (simp add: valid_observation_def seen_def LIFECYCLE_OBSERVATION_TYPES_def)
  with append_never_drops [OF no_other_writers sample_ledger_ok run] run show ?thesis by auto
qed

theorem evidence_ids_never_reissued_witness:
  "distinct (issued [Append (seen ''DELETED'' 30) 31,
       Retain \<lparr>events_horizon = 24, lifecycle_horizon = 48, objects_horizon = 100\<rparr> 1000,
       Append (seen ''OBSERVED'' 2000) 2000] sample_ledger)"
  using evidence_ids_never_reissued [OF sample_ledger_ok] by blast

theorem retention_guarantees_witness:
  "\<exists>p res st'. make_policy 24 48 100 = Inr p \<and> apply_retention p 1000 sample_ledger = (res, st')
     \<and> lifecycle_deleted res = 1 \<and> length (observations st') + lifecycle_deleted res = 2"
  using retention_guarantees [OF sample_ledger_ok sample_policy sample_retained] sample_policy sample_retained
  by (simp add: sample_ledger_def)

theorem retention_settles_witness:
  "\<exists>p st'. make_policy 24 48 100 = Inr p \<and> length (observations st') = 1 \<and>
     apply_retention p 1000 st' = (\<lparr>events_deleted = 0, lifecycle_deleted = 0, objects_deleted = 0\<rparr>, st')"
  using retention_settles [OF sample_ledger_ok sample_policy sample_retained] sample_policy
  by (intro exI conjI) (assumption, simp_all)

text \<open>
  The order matters: when another session appends twice and a retention pass runs between an
  attempt's reads and its insert, the number it read may have been given out and deleted meanwhile,
  and is then given to a different fact. \<open>other_writers\<close> excludes exactly this.
\<close>

definition racing_sessions :: "nat \<Rightarrow> ledger \<Rightarrow> ledger" where
  "racing_sessions n st =
     ledger_step (Retain \<lparr>events_horizon = 24, lifecycle_horizon = 48, objects_horizon = 100\<rparr> 1000)
       (ledger_step (Append (seen ''DELETED'' 40) 40) (ledger_step (Append (seen ''EVICTED'' 30) 30) st))"

lemma used_sequences_stored:
  "observations st = map (\<lambda>(n, ty, t). stored n ty t) xs \<Longrightarrow>
     used_sequences st (lifecycle_prefix ''shop'' ''Pod'' ''u1'') = map fst xs"
  by (induction xs arbitrary: st)
    (auto simp: used_sequences_def starts_with_def lifecycle_id_def isdigit_nat_str str_nat_nat_str split: prod.splits)

lemma append_stored:
  assumes obs: "observations st = map (\<lambda>(n, ty, t). stored n ty t) xs"
    and k: "py_max (map fst xs) = Some k" "next_observation st = Suc k"
    and new: "ty \<in> set LIFECYCLE_OBSERVATION_TYPES" "(ty, t) \<notin> snd ` set xs"
    and env: "env 4 st = st"
  shows "append_observation env (seen ty t) t st =
    (Inr (Some (stored (Suc k) ty t)), st\<lparr>observations := observations st @ [stored (Suc k) ty t], next_observation := Suc (Suc k)\<rparr>)"
proof -
  let ?i = "lifecycle_id ''shop'' ''Pod'' ''u1'' (Suc k)"
  have s: "ob_namespace (seen ty t) = ''shop''" "ob_kind (seen ty t) = ''Pod''" "ob_uid (seen ty t) = ''u1''"
    "ob_type (seen ty t) = ty" "ob_observed (seen ty t) = t" "ob_source (seen ty t) = ''watch''"
    by (simp_all add: seen_def)
  have no_fact: "\<not> fact_exists st (seen ty t)"
    using new(2) by (force simp: fact_exists_def s obs list_ex_iff image_iff)
  have nxt: "next_sequence st ''shop'' ''Pod'' ''u1'' = Suc k"
    by (simp add: next_sequence_def used_sequences_stored [OF obs] k(1))
  have free: "\<not> evidence_id_taken st ?i"
    using k(1) unfolding py_max_Some
    by (auto simp: evidence_id_taken_def obs list_ex_iff lifecycle_id_inj split: prod.splits)
  have row: "row_of (seen ty t) t (next_observation st) ?i = stored (Suc k) ty t" by (simp add: stored_def k(2))
  have "lc_type (stored (Suc k) ty t) = ty" by (simp add: stored_def row_of_def s)
  then have ins: "insert_observation st (stored (Suc k) ty t) =
      Inr (st\<lparr>observations := observations st @ [stored (Suc k) ty t], next_observation := Suc (Suc k)\<rparr>)"
    using free no_fact new(1) k(2) by (simp add: insert_observation_def fact_exists_def s)
  have "append_attempts env (seen ty t) t (Suc 4) st =
    (Inr (Some (stored (Suc k) ty t)), st\<lparr>observations := observations st @ [stored (Suc k) ty t], next_observation := Suc (Suc k)\<rparr>)"
    unfolding append_attempts.simps by (simp add: no_fact s nxt env row ins Let_def)
  then show ?thesis
    using new(1) by (simp add: append_observation_def s LIFECYCLE_APPEND_ATTEMPTS_def)
qed

lemma racing_retention_reissues:
  "\<exists>r st'. given (Append (seen ''EVICTED'' 30) 30) sample_ledger = [lifecycle_id ''shop'' ''Pod'' ''u1'' 3]
     \<and> append_observation racing_sessions (seen ''OBSERVED'' 50) 50 sample_ledger = (Inr (Some r), st')
     \<and> lc_evidence r = lifecycle_id ''shop'' ''Pod'' ''u1'' 3 \<and> lc_type r = ''OBSERVED''"
proof -
  let ?id = "\<lambda>_ (s :: ledger). s"
  have ty: "ty \<in> set LIFECYCLE_OBSERVATION_TYPES" if "ty \<in> {''OBSERVED'', ''DELETED'', ''EVICTED''}" for ty
    using that by (auto simp: LIFECYCLE_OBSERVATION_TYPES_def)
  let ?s3 = "sample_ledger\<lparr>observations := observations sample_ledger @ [stored 3 ''EVICTED'' 30], next_observation := 4\<rparr>"
  let ?s4 = "sample_ledger\<lparr>observations := observations sample_ledger @ [stored 3 ''EVICTED'' 30, stored 4 ''DELETED'' 40],
      next_observation := 5\<rparr>"
  have obs0: "observations sample_ledger = map (\<lambda>(n, ty, t). stored n ty t) [(1, ''READY_TRUE'', 10), (2, ''OOM_KILLED'', 20)]"
    by (simp add: sample_ledger_def)
  have obs3: "observations ?s3 = map (\<lambda>(n, ty, t). stored n ty t)
      [(1, ''READY_TRUE'', 10), (2, ''OOM_KILLED'', 20), (3, ''EVICTED'', 30)]"
    by (simp add: sample_ledger_def)
  have 1: "append_observation ?id (seen ''EVICTED'' 30) 30 sample_ledger = (Inr (Some (stored 3 ''EVICTED'' 30)), ?s3)"
    using append_stored [OF obs0, of 2 "''EVICTED''" 30 ?id] ty by (simp add: sample_ledger_def)
  have 2: "append_observation ?id (seen ''DELETED'' 40) 40 ?s3 = (Inr (Some (stored 4 ''DELETED'' 40)), ?s4)"
    using append_stored [OF obs3, of 3 "''DELETED''" 40 ?id] ty by (simp add: sample_ledger_def)
  let ?p = "\<lparr>events_horizon = 24, lifecycle_horizon = 48, objects_horizon = 100\<rparr>"
  let ?s5 = "?s4\<lparr>event_versions := []\<rparr>"
  have "deletable_lifecycle ?s5 952 = [1, 2, 3]"
    by (simp add: deletable_lifecycle_def highest_sequence_def newest_event_def sample_ledger_def)
  moreover have "prune_events ?p 1000 ?s4 = ?s5" by (simp add: prune_events_def sample_ledger_def)
  ultimately have "observations (snd (apply_retention ?p 1000 ?s4)) = [stored 4 ''DELETED'' 40]"
    unfolding apply_retention_observations by (simp add: prune_lifecycle_def sample_ledger_def)
  then have raced: "observations (racing_sessions 4 sample_ledger) = [stored 4 ''DELETED'' 40]"
    by (simp add: racing_sessions_def 1 2)
  define st1 where "st1 = racing_sessions 4 sample_ledger"
  let ?o = "seen ''OBSERVED'' 50" let ?i = "lifecycle_id ''shop'' ''Pod'' ''u1'' 3"
  let ?r = "row_of ?o 50 (next_observation st1) ?i"
  have o: "ob_namespace ?o = ''shop''" "ob_kind ?o = ''Pod''" "ob_uid ?o = ''u1''" "ob_type ?o = ''OBSERVED''"
    "ob_observed ?o = 50" "ob_source ?o = ''watch''" by (simp_all add: seen_def)
  have nxt: "next_sequence sample_ledger ''shop'' ''Pod'' ''u1'' = 3"
    by (simp add: next_sequence_def used_sequences_stored [OF obs0])
  have "\<not> fact_exists sample_ledger ?o" by (simp add: fact_exists_def o sample_ledger_def)
  moreover have ins: "insert_observation st1 ?r =
      Inr (st1\<lparr>observations := [stored 4 ''DELETED'' 40, ?r], next_observation := next_observation st1 + 1\<rparr>)"
    using raced [folded st1_def] ty
    by (simp add: insert_observation_def evidence_id_taken_def lifecycle_id_inj row_of_def o fact_of_def)
  ultimately have "append_attempts racing_sessions ?o 50 (Suc 4) sample_ledger =
      (Inr (Some ?r), st1\<lparr>observations := [stored 4 ''DELETED'' 40, ?r], next_observation := next_observation st1 + 1\<rparr>)"
    unfolding append_attempts.simps by (simp add: o nxt st1_def [symmetric] Let_def)
  then have "append_observation racing_sessions ?o 50 sample_ledger =
      (Inr (Some ?r), st1\<lparr>observations := [stored 4 ''DELETED'' 40, ?r], next_observation := next_observation st1 + 1\<rparr>)"
    using ty by (simp add: append_observation_def o LIFECYCLE_APPEND_ATTEMPTS_def)
  moreover have "lc_evidence ?r = ?i" "lc_type ?r = ''OBSERVED''" by (simp_all add: row_of_def o)
  moreover have "given (Append (seen ''EVICTED'' 30) 30) sample_ledger = [?i]" by (simp add: 1)
  ultimately show ?thesis by blast
qed

end
