(* ===== verification/Enrollment.thy ===== *)
theory Enrollment
  imports Prelude
begin

text \<open>
  The connector registry and its one-time enrollment (\<open>packages/connector/enrollment.py\<close>,
  \<open>packages/connector/pki.py\<close>, \<open>apps/control_plane/connector_registry.py\<close>). The registry works
  on any store with the \<open>RegistryStore\<close> operations; both stores of the program are modelled. Text
  and bytes are strings. The cryptography and encoding library functions are the fields of the
  parameter \<open>pki\<close>; random secrets and serial numbers, and the clock, are arguments.
\<close>

section \<open>Stores\<close>

text \<open>The status is one of \<open>''pending''\<close>, \<open>''active''\<close> and \<open>''disabled''\<close>.\<close>

record connector_record =
  cr_id :: string
  cr_status :: string
  cr_created :: instant
  cr_token_hash :: "string option"
  cr_token_expires :: "instant option"
  cr_token_used :: "instant option"
  cr_cert_serial :: "string option"
  cr_cert_not_after :: "instant option"

record 's store_operations =
  get_record :: "'s \<Rightarrow> string \<Rightarrow> connector_record option"
  put_record :: "connector_record \<Rightarrow> 's \<Rightarrow> 's"
  all_records :: "'s \<Rightarrow> connector_record list"

type_synonym memory_store = "(string \<times> connector_record) list"

definition memory_get :: "memory_store \<Rightarrow> string \<Rightarrow> connector_record option" where
  "memory_get s k = map_of s k"

definition memory_put :: "connector_record \<Rightarrow> memory_store \<Rightarrow> memory_store" where
  "memory_put r s = AList.update (cr_id r) r s"

definition memory_all :: "memory_store \<Rightarrow> connector_record list" where
  "memory_all s = sort_key cr_id (map snd s)"

definition memory_operations :: "memory_store store_operations" where
  "memory_operations = \<lparr>get_record = memory_get, put_record = memory_put, all_records = memory_all\<rparr>"

text \<open>The \<open>connectors\<close> table; \<open>merge\<close> replaces the row with the primary key or inserts it.\<close>

record connector_row =
  row_connector :: string
  row_status :: string
  row_created :: instant
  row_token_hash :: "string option"
  row_token_expires :: "instant option"
  row_token_used :: "instant option"
  row_cert_serial :: "string option"
  row_cert_not_after :: "instant option"

definition record_of_row :: "connector_row \<Rightarrow> connector_record" where
  "record_of_row r =
     \<lparr>cr_id = row_connector r, cr_status = row_status r, cr_created = row_created r,
      cr_token_hash = row_token_hash r, cr_token_expires = row_token_expires r,
      cr_token_used = row_token_used r, cr_cert_serial = row_cert_serial r,
      cr_cert_not_after = row_cert_not_after r\<rparr>"

definition row_of_record :: "connector_record \<Rightarrow> connector_row" where
  "row_of_record r =
     \<lparr>row_connector = cr_id r, row_status = cr_status r, row_created = cr_created r,
      row_token_hash = cr_token_hash r, row_token_expires = cr_token_expires r,
      row_token_used = cr_token_used r, row_cert_serial = cr_cert_serial r,
      row_cert_not_after = cr_cert_not_after r\<rparr>"

definition sql_get :: "connector_row list \<Rightarrow> string \<Rightarrow> connector_record option" where
  "sql_get t k = map_option record_of_row (List.find (\<lambda>r. row_connector r = k) t)"

definition sql_put :: "connector_record \<Rightarrow> connector_row list \<Rightarrow> connector_row list" where
  "sql_put r t =
     (if list_ex (\<lambda>q. row_connector q = cr_id r) t
      then map (\<lambda>q. if row_connector q = cr_id r then row_of_record r else q) t
      else t @ [row_of_record r])"

definition sql_all :: "connector_row list \<Rightarrow> connector_record list" where
  "sql_all t = map record_of_row (sort_key row_connector t)"

definition sql_operations :: "connector_row list store_operations" where
  "sql_operations = \<lparr>get_record = sql_get, put_record = sql_put, all_records = sql_all\<rparr>"

section \<open>Certificates\<close>

datatype public_key = EC_Key string | Other_Key string

record signing_request =
  request_signature_valid :: bool
  request_key :: public_key

record certificate =
  subject_name :: string
  issuer_name :: string
  certified_key :: public_key
  serial_number :: nat
  not_valid_before :: instant
  not_valid_after :: instant
  is_ca :: bool
  uri_names :: "string list"
  extended_usage :: "string list"
  signed_by :: string

record pki =
  sha256_hex :: "string \<Rightarrow> string"
  b64encode :: "string \<Rightarrow> string"
  b64decode :: "string \<Rightarrow> string result"
  der_of_pem :: "string \<Rightarrow> string"
  pem_of_der :: "string \<Rightarrow> string result"
  load_request :: "string \<Rightarrow> signing_request result"
  subject_of :: "string \<Rightarrow> string"
  encode_certificate :: "certificate \<Rightarrow> string"
  load_certificate :: "string \<Rightarrow> certificate result"

definition day :: duration where
  "day = 24 * 60 * minute"

definition CONNECTOR_SAN_PREFIX :: string where
  "CONNECTOR_SAN_PREFIX = ''connector:''"

text \<open>The certificate \<open>sign_request\<close> builds: only the public key is taken from the request.\<close>

definition connector_certificate ::
  "pki \<Rightarrow> string \<Rightarrow> public_key \<Rightarrow> string \<Rightarrow> nat \<Rightarrow> instant \<Rightarrow> nat \<Rightarrow> certificate" where
  "connector_certificate lib ca key cid days now serial =
     \<lparr>subject_name = ''connector '' @ cid, issuer_name = subject_of lib ca, certified_key = key,
      serial_number = serial, not_valid_before = now - 5 * minute, not_valid_after = now + int days * day,
      is_ca = False, uri_names = [CONNECTOR_SAN_PREFIX @ cid], extended_usage = [''clientAuth''],
      signed_by = ca\<rparr>"

definition sign_request ::
  "pki \<Rightarrow> string \<Rightarrow> string \<Rightarrow> string \<Rightarrow> nat \<Rightarrow> instant \<Rightarrow> nat \<Rightarrow> (string \<times> nat \<times> instant) result" where
  "sign_request lib ca request_pem cid days now serial =
     and_then (load_request lib request_pem) (\<lambda>request.
       if \<not> request_signature_valid request
       then Inl (ValueError ''the signing request's signature is invalid'')
       else
         (case request_key request of
            Other_Key _ \<Rightarrow> Inl (ValueError ''the signing request must carry an EC key'')
          | EC_Key k \<Rightarrow>
              Inr (encode_certificate lib (connector_certificate lib ca (EC_Key k) cid days now serial),
                   serial, now + int days * day)))"

text \<open>\<open>except ValueError as error: raise e from error\<close>; other errors pass through.\<close>

definition on_value_error :: "py_error \<Rightarrow> 'a result \<Rightarrow> 'a result" where
  "on_value_error e r = (case r of Inl (ValueError _) \<Rightarrow> Inl e | _ \<Rightarrow> r)"

section \<open>Tokens\<close>

record token =
  token_connector :: string
  token_secret :: string
  token_ca :: string

definition strip :: "string \<Rightarrow> string" where
  "strip s = rev (dropWhile is_space (rev (dropWhile is_space s)))"

definition is_alnum :: "char \<Rightarrow> bool" where
  "is_alnum c \<longleftrightarrow> 97 \<le> (of_char c :: nat) \<and> (of_char c :: nat) \<le> 122 \<or> is_digit c"

definition dns_label :: "string \<Rightarrow> bool" where
  "dns_label s \<longleftrightarrow> s \<noteq> [] \<and> length s \<le> 63 \<and> is_alnum (hd s) \<and> is_alnum (last s)
     \<and> list_all (\<lambda>c. is_alnum c \<or> c = CHR ''-'') s"

text \<open>\<open>_ID.match\<close>: the final \<open>$\<close> of the pattern also matches before a trailing newline.\<close>

definition id_match :: "string \<Rightarrow> bool" where
  "id_match s \<longleftrightarrow> dns_label s \<or> s \<noteq> [] \<and> last s = CHR 0x0A \<and> dns_label (butlast s)"

definition rstrip_equals :: "string \<Rightarrow> string" where
  "rstrip_equals s = rev (dropWhile (\<lambda>c. c = CHR ''='') (rev s))"

definition b64 :: "pki \<Rightarrow> string \<Rightarrow> string" where
  "b64 lib d = rstrip_equals (b64encode lib d)"

text \<open>\<open>-len(text) % 4\<close> is never negative in Python.\<close>

definition unb64 :: "pki \<Rightarrow> string \<Rightarrow> string result" where
  "unb64 lib t = b64decode lib (t @ replicate (nat ((- int (length t)) mod 4)) CHR ''='')"

definition token_text :: "pki \<Rightarrow> token \<Rightarrow> string" where
  "token_text lib t = token_connector t @ ''.'' @ token_secret t @ ''.'' @ b64 lib (der_of_pem lib (token_ca t))"

definition token_parse :: "pki \<Rightarrow> string \<Rightarrow> token result" where
  "token_parse lib text =
     (case split_on CHR ''.'' (strip text) of
        [i, sec, ca] \<Rightarrow>
          if \<not> id_match i \<or> sec = [] then Inl (ValueError ''not an enrollment token'')
          else and_then (on_value_error (ValueError ''the token's CA cannot be read'')
                          (and_then (unb64 lib ca) (pem_of_der lib)))
                 (\<lambda>pem. Inr \<lparr>token_connector = i, token_secret = sec, token_ca = pem\<rparr>)
      | _ \<Rightarrow> Inl (ValueError ''not an enrollment token''))"

section \<open>The registry\<close>

definition TOKEN_TTL :: duration where
  "TOKEN_TTL = 60 * minute"

definition hex_digit :: "nat \<Rightarrow> char" where
  "hex_digit d = (if d < 10 then char_of (48 + d) else char_of (87 + d))"

fun hex_str :: "nat \<Rightarrow> string" where
  "hex_str n = (if n < 16 then [hex_digit n] else hex_str (n div 16) @ [hex_digit (n mod 16)])"

declare hex_str.simps [simp del]

definition create_connector ::
  "'s store_operations \<Rightarrow> pki \<Rightarrow> string \<Rightarrow> string \<Rightarrow> duration \<Rightarrow> instant \<Rightarrow> string \<Rightarrow> 's \<Rightarrow> (token \<times> 's) result"
where
  "create_connector ops lib ca cid ttl now secret s =
     (if \<not> id_match cid then Inl (ValueError ''a connector id is a DNS label'')
      else
        (let existing = get_record ops s cid in
         case existing of
           Some r \<Rightarrow>
             if cr_status r \<noteq> ''pending'' then Inl (ValueError ''it cannot be enrolled again'')
             else Inr (\<lparr>token_connector = cid, token_secret = secret, token_ca = ca\<rparr>,
               put_record ops \<lparr>cr_id = cid, cr_status = ''pending'', cr_created = cr_created r,
                 cr_token_hash = Some (sha256_hex lib secret), cr_token_expires = Some (now + ttl),
                 cr_token_used = None, cr_cert_serial = None, cr_cert_not_after = None\<rparr> s)
         | None \<Rightarrow>
             Inr (\<lparr>token_connector = cid, token_secret = secret, token_ca = ca\<rparr>,
               put_record ops \<lparr>cr_id = cid, cr_status = ''pending'', cr_created = now,
                 cr_token_hash = Some (sha256_hex lib secret), cr_token_expires = Some (now + ttl),
                 cr_token_used = None, cr_cert_serial = None, cr_cert_not_after = None\<rparr> s)))"

text \<open>The checks of \<open>enroll\<close> on the stored record, in their order.\<close>

definition check_token ::
  "pki \<Rightarrow> string \<Rightarrow> instant \<Rightarrow> token \<Rightarrow> connector_record option \<Rightarrow> connector_record result" where
  "check_token lib ca now t stored =
     (case stored of
        None \<Rightarrow> Inl (EnrollmentError ''unknown connector'')
      | Some r \<Rightarrow>
          (case cr_token_hash r of
             None \<Rightarrow> Inl (EnrollmentError ''has no unused token'')
           | Some h \<Rightarrow>
               if cr_status r \<noteq> ''pending'' \<or> cr_token_used r \<noteq> None
               then Inl (EnrollmentError ''has no unused token'')
               else if (case cr_token_expires r of None \<Rightarrow> True | Some e \<Rightarrow> now > e)
               then Inl (EnrollmentError ''the token has expired'')
               else if h \<noteq> sha256_hex lib (token_secret t) then Inl (EnrollmentError ''wrong secret'')
               else if strip (token_ca t) \<noteq> strip ca then Inl (EnrollmentError ''the token names another CA'')
               else Inr r))"

definition enroll_connector ::
  "'s store_operations \<Rightarrow> pki \<Rightarrow> string \<Rightarrow> nat \<Rightarrow> string \<Rightarrow> string \<Rightarrow> instant \<Rightarrow> nat \<Rightarrow> 's \<Rightarrow> (string \<times> 's) result"
where
  "enroll_connector ops lib ca days text request_pem now serial s =
     and_then (on_value_error (EnrollmentError ''malformed token'') (token_parse lib text)) (\<lambda>t.
     and_then (check_token lib ca now t (get_record ops s (token_connector t))) (\<lambda>r.
     and_then (on_value_error (EnrollmentError ''bad signing request'')
                (sign_request lib ca request_pem (token_connector t) days now serial)) (\<lambda>(cert, ser, expiry).
       Inr (cert, put_record ops (r\<lparr>cr_status := ''active'', cr_token_hash := None, cr_token_used := Some now,
         cr_cert_serial := Some (hex_str ser), cr_cert_not_after := Some expiry\<rparr>) s))))"

definition renew_connector ::
  "'s store_operations \<Rightarrow> pki \<Rightarrow> string \<Rightarrow> nat \<Rightarrow> string \<Rightarrow> string \<Rightarrow> instant \<Rightarrow> nat \<Rightarrow> 's \<Rightarrow> (string \<times> 's) result"
where
  "renew_connector ops lib ca days cid request_pem now serial s =
     (case get_record ops s cid of
        None \<Rightarrow> Inl (EnrollmentError ''is not active'')
      | Some r \<Rightarrow>
          if cr_status r \<noteq> ''active'' then Inl (EnrollmentError ''is not active'')
          else
            and_then (on_value_error (EnrollmentError ''bad signing request'')
                       (sign_request lib ca request_pem cid days now serial)) (\<lambda>(cert, ser, expiry).
              Inr (cert, put_record ops (r\<lparr>cr_cert_serial := Some (hex_str ser), cr_cert_not_after := Some expiry\<rparr>) s)))"

definition disable_connector :: "'s store_operations \<Rightarrow> string \<Rightarrow> 's \<Rightarrow> 's result" where
  "disable_connector ops cid s =
     (case get_record ops s cid of
        None \<Rightarrow> Inl (ValueError ''unknown connector'')
      | Some r \<Rightarrow> Inr (put_record ops (r\<lparr>cr_status := ''disabled'', cr_token_hash := None\<rparr>) s))"

definition is_allowed :: "'s store_operations \<Rightarrow> 's \<Rightarrow> string \<Rightarrow> bool" where
  "is_allowed ops s cid \<longleftrightarrow>
     (case get_record ops s cid of None \<Rightarrow> False | Some r \<Rightarrow> cr_status r = ''active'')"

section \<open>The connector's side\<close>

text \<open>What \<open>enroll\<close> does with the answer it gets for its own key: the identity and the CA.\<close>

definition accept_answer ::
  "pki \<Rightarrow> string \<Rightarrow> public_key \<Rightarrow> string \<Rightarrow> string \<Rightarrow> (string \<times> string) result" where
  "accept_answer lib text ours cert ca =
     and_then (token_parse lib text) (\<lambda>t.
       if strip ca \<noteq> strip (token_ca t)
       then Inl (EnrollmentError ''the control plane answered with another CA'')
       else and_then (load_certificate lib cert) (\<lambda>issued.
         if CONNECTOR_SAN_PREFIX @ token_connector t \<notin> set (uri_names issued)
         then Inl (EnrollmentError ''the certificate does not name this connector'')
         else if certified_key issued \<noteq> ours
         then Inl (EnrollmentError ''the certificate is not for this connector's key'')
         else Inr (cert, ca)))"

end
