(* ===== verification/Enrollment_Correct.thy ===== *)
theory Enrollment_Correct
  imports Enrollment
begin

text \<open>
  The contract of a registry store as a locale, what the registry guarantees over any store that
  keeps it, and both stores of the program as instances.
\<close>

lemma on_value_error_Inr [simp]: "on_value_error e r = Inr x \<longleftrightarrow> r = Inr x"
  by (auto simp: on_value_error_def split: sum.splits py_error.splits)

lemma on_value_error_simps [simp]:
  "on_value_error e (Inr x) = Inr x" "on_value_error e (Inl (ValueError m)) = Inl e"
  by (simp_all add: on_value_error_def)

section \<open>What a successful call did\<close>

lemma create_Inr:
  assumes "create_connector ops lib ca cid ttl now secret s = Inr (t, s')"
  shows "id_match cid \<and> t = \<lparr>token_connector = cid, token_secret = secret, token_ca = ca\<rparr> \<and>
    (\<forall>q. get_record ops s cid = Some q \<longrightarrow> cr_status q = ''pending'') \<and>
    (\<exists>at. s' = put_record ops \<lparr>cr_id = cid, cr_status = ''pending'', cr_created = at,
        cr_token_hash = Some (sha256_hex lib secret), cr_token_expires = Some (now + ttl),
        cr_token_used = None, cr_cert_serial = None, cr_cert_not_after = None\<rparr> s)"
  using assms by (auto simp: create_connector_def Let_def split: option.splits if_splits)

lemma check_token_Inr:
  "check_token lib ca now t stored = Inr r \<longleftrightarrow>
     stored = Some r \<and> cr_status r = ''pending'' \<and> cr_token_used r = None
     \<and> cr_token_hash r = Some (sha256_hex lib (token_secret t))
     \<and> (\<exists>e. cr_token_expires r = Some e \<and> now \<le> e) \<and> strip (token_ca t) = strip ca"
  by (auto simp: check_token_def split: option.splits if_splits)

lemma enroll_Inr:
  assumes "enroll_connector ops lib ca days text request now serial s = Inr (cert, s')"
  shows "\<exists>t r ser expiry. token_parse lib text = Inr t \<and>
    check_token lib ca now t (get_record ops s (token_connector t)) = Inr r \<and>
    sign_request lib ca request (token_connector t) days now serial = Inr (cert, ser, expiry) \<and>
    s' = put_record ops (r\<lparr>cr_status := ''active'', cr_token_hash := None, cr_token_used := Some now,
         cr_cert_serial := Some (hex_str ser), cr_cert_not_after := Some expiry\<rparr>) s"
  using assms by (fastforce simp: enroll_connector_def split: prod.splits)

lemma renew_Inr:
  assumes "renew_connector ops lib ca days cid request now serial s = Inr (cert, s')"
  shows "\<exists>r ser expiry. get_record ops s cid = Some r \<and> cr_status r = ''active'' \<and>
    sign_request lib ca request cid days now serial = Inr (cert, ser, expiry) \<and>
    s' = put_record ops (r\<lparr>cr_cert_serial := Some (hex_str ser), cr_cert_not_after := Some expiry\<rparr>) s"
  using assms by (fastforce simp: renew_connector_def split: option.splits if_splits prod.splits)

lemma disable_Inr:
  assumes "disable_connector ops cid s = Inr s'"
  shows "\<exists>r. get_record ops s cid = Some r \<and> s' = put_record ops (r\<lparr>cr_status := ''disabled'', cr_token_hash := None\<rparr>) s"
  using assms by (auto simp: disable_connector_def split: option.splits)

section \<open>The contract of a store\<close>

locale registry_store =
  fixes ops :: "'s store_operations"
    and store_ok :: "'s \<Rightarrow> bool"
  assumes get_put: "store_ok s \<Longrightarrow>
      get_record ops (put_record ops r s) k = (if k = cr_id r then Some r else get_record ops s k)"
    and put_ok: "store_ok s \<Longrightarrow> store_ok (put_record ops r s)"
    and get_id: "store_ok s \<Longrightarrow> get_record ops s k = Some r \<Longrightarrow> cr_id r = k"
    and all_get: "store_ok s \<Longrightarrow> r \<in> set (all_records ops s) \<longleftrightarrow> get_record ops s (cr_id r) = Some r"
    and all_sorted: "store_ok s \<Longrightarrow> sorted (map cr_id (all_records ops s)) \<and> distinct (map cr_id (all_records ops s))"

text \<open>A request to the registry, with the clock and the randomness it is served with.\<close>

datatype registry_call =
    Create string duration instant string
  | Enroll string string instant nat
  | Renew string string instant nat
  | Disable string

definition keep :: "'s \<Rightarrow> ('a \<times> 's) result \<Rightarrow> 's" where
  "keep s r = (case r of Inl _ \<Rightarrow> s | Inr (_, s') \<Rightarrow> s')"

fun registry_step :: "'s store_operations \<Rightarrow> pki \<Rightarrow> string \<Rightarrow> nat \<Rightarrow> registry_call \<Rightarrow> 's \<Rightarrow> 's" where
  "registry_step ops lib ca days (Create cid ttl now secret) s = keep s (create_connector ops lib ca cid ttl now secret s)"
| "registry_step ops lib ca days (Enroll text request now serial) s =
     keep s (enroll_connector ops lib ca days text request now serial s)"
| "registry_step ops lib ca days (Renew cid request now serial) s =
     keep s (renew_connector ops lib ca days cid request now serial s)"
| "registry_step ops lib ca days (Disable cid) s = (case disable_connector ops cid s of Inl _ \<Rightarrow> s | Inr s' \<Rightarrow> s')"

text \<open>How far the enrollment of a connector has got; it never goes back.\<close>

definition stage :: "connector_record option \<Rightarrow> nat" where
  "stage r = (case r of None \<Rightarrow> 0 | Some r \<Rightarrow>
     if cr_status r = ''pending'' then 1 else if cr_status r = ''active'' then 2 else 3)"

definition progress :: "'s store_operations \<Rightarrow> 's \<Rightarrow> 's \<Rightarrow> bool" where
  "progress ops s t \<longleftrightarrow> (\<forall>k. stage (get_record ops s k) \<le> stage (get_record ops t k))"

lemma stage_simps [simp]:
  "stage None = 0"
  "stage (Some r) = (if cr_status r = ''pending'' then 1 else if cr_status r = ''active'' then 2 else 3)"
  by (simp_all add: stage_def)

locale registry = registry_store +
  fixes lib :: pki
    and ca :: string
    and days :: nat
begin

text \<open>Every call changes at most one record, and never takes it back.\<close>

lemma step_cases:
  assumes ok: "store_ok s"
  shows "registry_step ops lib ca days c s = s \<or>
    (\<exists>r. registry_step ops lib ca days c s = put_record ops r s
       \<and> stage (get_record ops s (cr_id r)) \<le> stage (Some r))"
proof (cases c)
  case (Create cid ttl now secret)
  show ?thesis
  proof (cases "create_connector ops lib ca cid ttl now secret s")
    case (Inr x)
    then obtain t s' where "create_connector ops lib ca cid ttl now secret s = Inr (t, s')" by (cases x) auto
    from create_Inr [OF this] this Create show ?thesis
      by (cases "get_record ops s cid") (auto simp: keep_def)
  qed (simp add: Create keep_def)
next
  case (Enroll tok request now serial)
  show ?thesis
  proof (cases "enroll_connector ops lib ca days tok request now serial s")
    case (Inr x)
    then obtain t s' where "enroll_connector ops lib ca days tok request now serial s = Inr (t, s')" by (cases x) auto
    from enroll_Inr [OF this] this Enroll get_id [OF ok] show ?thesis
      by (fastforce simp: keep_def check_token_Inr)
  qed (simp add: Enroll keep_def)
next
  case (Renew cid request now serial)
  show ?thesis
  proof (cases "renew_connector ops lib ca days cid request now serial s")
    case (Inr x)
    then obtain t s' where "renew_connector ops lib ca days cid request now serial s = Inr (t, s')" by (cases x) auto
    from renew_Inr [OF this] this Renew get_id [OF ok] show ?thesis by (fastforce simp: keep_def)
  qed (simp add: Renew keep_def)
next
  case (Disable cid)
  show ?thesis
  proof (cases "disable_connector ops cid s")
    case (Inr s')
    from disable_Inr [OF this] this Disable get_id [OF ok] show ?thesis by fastforce
  qed (simp add: Disable)
qed

lemma step_ok: "store_ok s \<Longrightarrow> store_ok (registry_step ops lib ca days c s)"
  using step_cases [of s c] put_ok [of s] by auto

lemma step_progress: "store_ok s \<Longrightarrow> progress ops s (registry_step ops lib ca days c s)"
  using step_cases [of s c] get_put [of s] by (auto simp: progress_def)

end

sublocale registry \<subseteq> calls: monotone_machine "registry_step ops lib ca days" store_ok "progress ops"
proof
  show "progress ops s s" for s by (simp add: progress_def)
  show "progress ops s u" if "progress ops s t" "progress ops t u" for s t u
    using that unfolding progress_def by (meson order_trans)
qed (simp_all add: step_ok step_progress)

context registry begin

abbreviation run :: "registry_call list \<Rightarrow> 'a \<Rightarrow> 'a" where
  "run cs s \<equiv> fold (registry_step ops lib ca days) cs s"

lemma enroll_stage:
  assumes ok: "store_ok s" and e: "enroll_connector ops lib ca days tok request now serial s = Inr (cert, s')"
    and t: "token_parse lib tok = Inr t"
  shows "store_ok s'" "stage (get_record ops s' (token_connector t)) = 2"
  using enroll_Inr [OF e] t get_id [OF ok] get_put [OF ok] put_ok [OF ok]
  by (auto simp: check_token_Inr)

lemma enrolled_for_good:
  assumes "store_ok s" "2 \<le> stage (get_record ops s k)"
  shows "2 \<le> stage (get_record ops (run cs s) k)"
  using calls.run_le [OF assms(1), of cs] assms(2) by (auto simp: progress_def intro: order_trans)

lemma no_enrollment:
  assumes "2 \<le> stage (get_record ops s k)" "token_parse lib tok = Inr t" "token_connector t = k"
  shows "\<exists>m. enroll_connector ops lib ca days tok request now serial s = Inl (EnrollmentError m)"
proof -
  have "\<exists>m. check_token lib ca now t (get_record ops s k) = Inl (EnrollmentError m)"
    using assms(1) by (cases "get_record ops s k") (auto simp: check_token_def split: option.splits if_splits)
  then show ?thesis using assms(2,3) by (auto simp: enroll_connector_def)
qed

lemma no_creation:
  assumes "2 \<le> stage (get_record ops s k)"
  shows "\<exists>m. create_connector ops lib ca k ttl now secret s = Inl (ValueError m)"
  using assms by (auto simp: create_connector_def Let_def split: option.splits if_splits)

lemma disable_stage:
  assumes "store_ok s" "disable_connector ops k s = Inr s'"
  shows "store_ok s'" "stage (get_record ops s' k) = 3"
  using disable_Inr [OF assms(2)] get_id [OF assms(1)] get_put [OF assms(1)] put_ok [OF assms(1)] by auto

lemma disabled_for_good:
  assumes ok: "store_ok s" and "disable_connector ops k s = Inr s'"
  shows "\<not> is_allowed ops (run cs s') k"
    and "\<exists>e. renew_connector ops lib ca days k request now serial (run cs s') = Inl e"
proof -
  have "3 \<le> stage (get_record ops (run cs s') k)"
    using calls.run_le [OF disable_stage(1) [OF assms], of cs] disable_stage(2) [OF assms]
    by (auto simp: progress_def) (metis)
  then show "\<not> is_allowed ops (run cs s') k"
    and "\<exists>e. renew_connector ops lib ca days k request now serial (run cs s') = Inl e"
    by (auto simp: is_allowed_def renew_connector_def split: option.splits if_splits)
qed

text \<open>The call that issued the token of a pending record, and what did not happen since.\<close>

definition issued_by :: "registry_call list \<Rightarrow> connector_record \<Rightarrow> bool" where
  "issued_by cs r \<longleftrightarrow> (\<exists>cs1 ttl at secret cs2. cs = cs1 @ Create (cr_id r) ttl at secret # cs2
     \<and> (\<forall>c\<in>set cs2. c \<noteq> Disable (cr_id r) \<and> (\<forall>x y z. c \<noteq> Create (cr_id r) x y z))
     \<and> id_match (cr_id r) \<and> cr_token_hash r = Some (sha256_hex lib secret)
     \<and> cr_token_expires r = Some (at + ttl))"

lemma issued_by_extend:
  assumes "issued_by cs r" "c \<noteq> Disable (cr_id r)" "\<And>x y z. c \<noteq> Create (cr_id r) x y z"
  shows "issued_by (cs @ [c]) r"
proof -
  from assms(1) obtain cs1 ttl at secret cs2 where "cs = cs1 @ Create (cr_id r) ttl at secret # cs2"
    "\<forall>c\<in>set cs2. c \<noteq> Disable (cr_id r) \<and> (\<forall>x y z. c \<noteq> Create (cr_id r) x y z)"
    "id_match (cr_id r)" "cr_token_hash r = Some (sha256_hex lib secret)" "cr_token_expires r = Some (at + ttl)"
    unfolding issued_by_def by blast
  with assms(2,3) show ?thesis
    unfolding issued_by_def
    by (intro exI [of _ cs1] exI [of _ ttl] exI [of _ at] exI [of _ secret] exI [of _ "cs2 @ [c]"]) auto
qed

lemma pending_step:
  assumes ok: "store_ok s" and r: "get_record ops (registry_step ops lib ca days c s) k = Some r" "cr_status r = ''pending''"
  shows "get_record ops s k = Some r \<and> c \<noteq> Disable k \<and> (\<forall>x y z. c \<noteq> Create k x y z)
    \<or> get_record ops s k = Some r \<and> \<not> id_match k
    \<or> (\<exists>ttl at secret. c = Create k ttl at secret \<and> id_match k \<and> cr_id r = k
         \<and> cr_token_hash r = Some (sha256_hex lib secret) \<and> cr_token_expires r = Some (at + ttl))"
proof (cases c)
  case (Create cid ttl now secret)
  show ?thesis
  proof (cases "create_connector ops lib ca cid ttl now secret s")
    case (Inl e)
    with Create r have "get_record ops s k = Some r" by (simp add: keep_def)
    with Inl r(2) Create show ?thesis by (auto simp: create_connector_def Let_def split: if_splits)
  next
    case (Inr x)
    then obtain t s' where run: "create_connector ops lib ca cid ttl now secret s = Inr (t, s')" by (cases x) auto
    from create_Inr [OF run] run r Create get_put [OF ok] show ?thesis
      by (auto simp: keep_def split: if_splits)
  qed
next
  case (Enroll tok request now serial)
  show ?thesis
  proof (cases "enroll_connector ops lib ca days tok request now serial s")
    case (Inr x)
    then obtain t s' where run: "enroll_connector ops lib ca days tok request now serial s = Inr (t, s')" by (cases x) auto
    from enroll_Inr [OF run] run r Enroll get_put [OF ok] show ?thesis
      by (auto simp: keep_def split: if_splits)
  qed (use Enroll r in \<open>simp add: keep_def\<close>)
next
  case (Renew cid request now serial)
  show ?thesis
  proof (cases "renew_connector ops lib ca days cid request now serial s")
    case (Inr x)
    then obtain t s' where run: "renew_connector ops lib ca days cid request now serial s = Inr (t, s')" by (cases x) auto
    from renew_Inr [OF run] run r Renew get_put [OF ok] show ?thesis
      by (auto simp: keep_def split: if_splits)
  qed (use Renew r in \<open>simp add: keep_def\<close>)
next
  case (Disable cid)
  show ?thesis
  proof (cases "disable_connector ops cid s")
    case (Inl e)
    with Disable r show ?thesis by (auto simp: disable_connector_def split: option.splits)
  next
    case (Inr s')
    from disable_Inr [OF this] this r Disable get_put [OF ok] get_id [OF ok] show ?thesis
      by (auto split: if_splits)
  qed
qed

lemma pending_issued:
  assumes ok: "store_ok s0" and empty: "\<And>k. get_record ops s0 k = None"
  shows "get_record ops (run cs s0) k = Some r \<Longrightarrow> cr_status r = ''pending'' \<Longrightarrow> issued_by cs r"
proof (induction cs arbitrary: r rule: rev_induct)
  case Nil
  then show ?case by (simp add: empty)
next
  case (snoc c cs)
  have s: "store_ok (run cs s0)" by (rule calls.run_inv [OF ok])
  have step: "get_record ops (registry_step ops lib ca days c (run cs s0)) k = Some r" using snoc.prems(1) by simp
  have k: "cr_id r = k" by (rule get_id [OF calls.run_inv [OF ok] snoc.prems(1)])
  from pending_step [OF s step snoc.prems(2)] snoc.IH [OF _ snoc.prems(2)] k show ?case
  proof (elim disjE conjE exE)
    assume "get_record ops (run cs s0) k = Some r" "c \<noteq> Disable k" "\<forall>x y z. c \<noteq> Create k x y z"
    with snoc.IH [OF _ snoc.prems(2)] k show ?thesis by (auto intro: issued_by_extend)
  next
    assume "get_record ops (run cs s0) k = Some r" "\<not> id_match k"
    with snoc.IH [OF _ snoc.prems(2)] k show ?thesis by (auto simp: issued_by_def)
  next
    fix ttl at secret
    assume c: "c = Create k ttl at secret" "id_match k" "cr_token_hash r = Some (sha256_hex lib secret)"
      "cr_token_expires r = Some (at + ttl)"
    show ?thesis
      unfolding issued_by_def k
      by (rule exI [of _ cs], rule exI [of _ ttl], rule exI [of _ at], rule exI [of _ secret], rule exI [of _ "[]"])
        (simp add: c)
  qed
qed

lemma enrollment_origin:
  assumes ok: "store_ok s0" and empty: "\<And>k. get_record ops s0 k = None" and sha: "inj (sha256_hex lib)"
    and e: "enroll_connector ops lib ca days tok request now serial (run cs s0) = Inr (cert, s')"
  shows "\<exists>t ttl at cs1 cs2. token_parse lib tok = Inr t
    \<and> cs = cs1 @ Create (token_connector t) ttl at (token_secret t) # cs2
    \<and> (\<forall>c\<in>set cs2. c \<noteq> Disable (token_connector t) \<and> (\<forall>x y z. c \<noteq> Create (token_connector t) x y z))
    \<and> now \<le> at + ttl \<and> strip (token_ca t) = strip ca"
proof -
  from enroll_Inr [OF e] obtain t r where t: "token_parse lib tok = Inr t"
    and "check_token lib ca now t (get_record ops (run cs s0) (token_connector t)) = Inr r" by blast
  then have r: "get_record ops (run cs s0) (token_connector t) = Some r" "cr_status r = ''pending''"
    "cr_token_hash r = Some (sha256_hex lib (token_secret t))" "\<exists>e. cr_token_expires r = Some e \<and> now \<le> e"
    "strip (token_ca t) = strip ca" by (simp_all add: check_token_Inr)
  have k: "cr_id r = token_connector t" by (rule get_id [OF calls.run_inv [OF ok] r(1)])
  from pending_issued [OF ok empty r(1,2)] obtain cs1 ttl at secret cs2
    where cs: "cs = cs1 @ Create (token_connector t) ttl at secret # cs2"
      "\<forall>c\<in>set cs2. c \<noteq> Disable (token_connector t) \<and> (\<forall>x y z. c \<noteq> Create (token_connector t) x y z)"
      "cr_token_hash r = Some (sha256_hex lib secret)" "cr_token_expires r = Some (at + ttl)"
    unfolding issued_by_def k by blast
  have "secret = token_secret t" using cs(3) r(3) sha by (simp add: inj_eq)
  moreover have "now \<le> at + ttl" using cs(4) r(4) by simp
  ultimately show ?thesis using t cs(1,2) r(5) by blast
qed

end

section \<open>The stores of the program\<close>

definition memory_ok :: "memory_store \<Rightarrow> bool" where
  "memory_ok s \<longleftrightarrow> distinct (map fst s) \<and> (\<forall>(k, r)\<in>set s. k = cr_id r)"

definition sql_ok :: "connector_row list \<Rightarrow> bool" where
  "sql_ok t \<longleftrightarrow> distinct (map row_connector t)"

lemma find_map_update:
  assumes "\<And>x. k (f x) = k x"
  shows "List.find (\<lambda>x. k x = i) (map (\<lambda>x. if k x = j then f x else x) xs)
    = (case List.find (\<lambda>x. k x = i) xs of None \<Rightarrow> None | Some x \<Rightarrow> Some (if i = j then f x else x))"
  by (induction xs) (auto simp: assms)

lemma record_of_row_of_record [simp]: "record_of_row (row_of_record r) = r"
  by (simp add: record_of_row_def row_of_record_def)

lemma cr_id_record_of_row [simp]: "cr_id (record_of_row q) = row_connector q"
  by (simp add: record_of_row_def)

lemma row_connector_row_of_record [simp]: "row_connector (row_of_record r) = cr_id r"
  by (simp add: row_of_record_def)

lemma inj_record_of_row: "record_of_row q = record_of_row r \<longleftrightarrow> q = r"
  by (cases q; cases r) (simp add: record_of_row_def)

lemma sql_get_put: "sql_get (sql_put r t) k = (if k = cr_id r then Some r else sql_get t k)"
proof (cases "list_ex (\<lambda>q. row_connector q = cr_id r) t")
  case True
  then have "List.find (\<lambda>q. row_connector q = cr_id r) t \<noteq> None" by (auto simp: find_None_iff list_ex_iff)
  moreover have "List.find (\<lambda>q. row_connector q = k) (map (\<lambda>q. if row_connector q = cr_id r then row_of_record r else q) t)
      = (case List.find (\<lambda>q. row_connector q = k) t of None \<Rightarrow> None
         | Some x \<Rightarrow> Some (if k = cr_id r then row_of_record r else x))"
    by (induction t) auto
  ultimately show ?thesis using True by (auto simp: sql_get_def sql_put_def split: option.splits)
next
  case False
  then have "List.find (\<lambda>q. row_connector q = cr_id r) t = None" by (auto simp: find_None_iff list_ex_iff)
  with False show ?thesis by (auto simp: sql_get_def sql_put_def find_append split: option.splits)
qed

lemma sql_put_ok: "sql_ok t \<Longrightarrow> sql_ok (sql_put r t)"
proof -
  assume ok: "sql_ok t"
  have "map row_connector (map (\<lambda>q. if row_connector q = cr_id r then row_of_record r else q) t) = map row_connector t"
    by simp
  with ok show ?thesis by (auto simp: sql_ok_def sql_put_def list_ex_iff simp del: map_map)
qed

interpretation sql: registry sql_operations sql_ok lib ca days for lib ca days
proof
  fix s :: "connector_row list" and r k
  assume ok: "sql_ok s"
  show "get_record sql_operations (put_record sql_operations r s) k
      = (if k = cr_id r then Some r else get_record sql_operations s k)"
    by (simp add: sql_operations_def sql_get_put)
  show "sql_ok (put_record sql_operations r s)" using sql_put_ok [OF ok] by (simp add: sql_operations_def)
  show "get_record sql_operations s k = Some r \<Longrightarrow> cr_id r = k"
    by (auto simp: sql_operations_def sql_get_def dest: find_Some_set)
  show "r \<in> set (all_records sql_operations s) \<longleftrightarrow> get_record sql_operations s (cr_id r) = Some r"
  proof
    assume "r \<in> set (all_records sql_operations s)"
    then obtain q where "q \<in> set s" "r = record_of_row q" by (auto simp: sql_operations_def sql_all_def)
    then show "get_record sql_operations s (cr_id r) = Some r"
      using find_key [of row_connector s q] ok by (simp add: sql_operations_def sql_get_def sql_ok_def)
  next
    assume "get_record sql_operations s (cr_id r) = Some r"
    then show "r \<in> set (all_records sql_operations s)"
      by (auto simp: sql_operations_def sql_get_def sql_all_def dest: find_Some_set)
  qed
  have "map cr_id (sql_all s) = map row_connector (sort_key row_connector s)" by (simp add: sql_all_def)
  then show "sorted (map cr_id (all_records sql_operations s)) \<and> distinct (map cr_id (all_records sql_operations s))"
    using ok by (simp add: sql_operations_def sql_ok_def distinct_map)
qed

interpretation memory: registry memory_operations memory_ok lib ca days for lib ca days
proof
  fix s :: memory_store and r k
  assume ok: "memory_ok s"
  show "get_record memory_operations (put_record memory_operations r s) k
      = (if k = cr_id r then Some r else get_record memory_operations s k)"
    by (simp add: memory_operations_def memory_get_def memory_put_def update_conv')
  show "memory_ok (put_record memory_operations r s)"
  proof -
    have "set (AList.update (cr_id r) r s) \<subseteq> insert (cr_id r, r) (set s)"
      by (induction s) auto
    then show ?thesis
      using ok by (auto simp: memory_operations_def memory_put_def memory_ok_def distinct_update)
  qed
  show "get_record memory_operations s k = Some r \<Longrightarrow> cr_id r = k"
    using ok by (auto simp: memory_operations_def memory_get_def memory_ok_def dest!: map_of_SomeD)
  show "r \<in> set (all_records memory_operations s) \<longleftrightarrow> get_record memory_operations s (cr_id r) = Some r"
    using ok by (force simp: memory_operations_def memory_get_def memory_all_def memory_ok_def image_iff
        intro: map_of_is_SomeI dest: map_of_SomeD)
  have "map fst s = map cr_id (map snd s)" using ok by (auto simp: memory_ok_def)
  then have "distinct (map cr_id (map snd s))" using ok unfolding memory_ok_def by metis
  then show "sorted (map cr_id (all_records memory_operations s)) \<and> distinct (map cr_id (all_records memory_operations s))"
    unfolding memory_operations_def memory_all_def by (simp only: store_operations.simps distinct_map_sort_key sorted_sort_key simp_thms)
qed

section \<open>Two stores serve alike\<close>





section \<open>What the registry guarantees\<close>

text \<open>The registry as deployed: the calls of a run, served over the \<open>connectors\<close> table.\<close>

abbreviation sql_run :: "pki \<Rightarrow> string \<Rightarrow> nat \<Rightarrow> registry_call list \<Rightarrow> connector_row list \<Rightarrow> connector_row list" where
  "sql_run lib ca days cs t \<equiv> fold (registry_step sql_operations lib ca days) cs t"


lemma sql_empty: "sql_ok []" "get_record sql_operations [] k = None"
  by (simp_all add: sql_ok_def sql_operations_def sql_get_def)

text \<open>
  A certificate is only ever issued for a token the operator created. When an enrollment succeeds
  after any calls to an empty registry, its token carries the secret of the latest creation for
  that connector, it names the registry's CA, it has not expired, and the connector was not
  disabled since. (SHA-256 is assumed to be free of collisions.)
\<close>

theorem enrollment_provenance:
  assumes sha: "inj (sha256_hex lib)"
    and e: "enroll_connector sql_operations lib ca days tok request now serial (sql_run lib ca days cs []) = Inr (cert, s')"
  shows "\<exists>t ttl at cs1 cs2. token_parse lib tok = Inr t
    \<and> cs = cs1 @ Create (token_connector t) ttl at (token_secret t) # cs2
    \<and> (\<forall>c\<in>set cs2. c \<noteq> Disable (token_connector t) \<and> (\<forall>x y z. c \<noteq> Create (token_connector t) x y z))
    \<and> now \<le> at + ttl \<and> strip (token_ca t) = strip ca"
  by (rule sql.enrollment_origin [OF sql_empty sha e])


section \<open>Tokens and the whole exchange\<close>

text \<open>What the encoding library documents: URL-safe base64, padded to groups of four.\<close>

definition urlsafe :: "char \<Rightarrow> bool" where
  "urlsafe c \<longleftrightarrow> is_alnum c \<or> 65 \<le> (of_char c :: nat) \<and> (of_char c :: nat) \<le> 90 \<or> c = CHR ''-'' \<or> c = CHR ''_''"

definition base64_law :: "pki \<Rightarrow> bool" where
  "base64_law lib \<longleftrightarrow> (\<forall>d. b64decode lib (b64encode lib d) = Inr d
     \<and> (\<exists>body k. b64encode lib d = body @ replicate k CHR ''='' \<and> k \<le> 2 \<and> list_all urlsafe body
          \<and> (length body + k) mod 4 = 0))"

lemma urlsafe_not: "urlsafe c \<Longrightarrow> c \<noteq> CHR ''='' \<and> c \<noteq> CHR ''.'' \<and> \<not> is_space c"
  by (auto simp: urlsafe_def is_alnum_def is_digit_def is_space_def)

lemma is_alnum_urlsafe: "is_alnum c \<Longrightarrow> urlsafe c"
  by (simp add: urlsafe_def)

lemma rstrip_equals_padded:
  assumes "list_all urlsafe body"
  shows "rstrip_equals (body @ replicate k CHR ''='') = body"
proof (cases body rule: rev_cases)
  case (snoc xs x)
  then have "x \<noteq> CHR ''=''" using assms urlsafe_not by auto
  then show ?thesis by (simp add: rstrip_equals_def dropWhile_append snoc)
qed (simp add: rstrip_equals_def)

lemma unb64_b64:
  assumes "base64_law lib"
  shows "unb64 lib (b64 lib d) = Inr d" and "list_all urlsafe (b64 lib d)"
proof -
  from assms obtain body k where e: "b64encode lib d = body @ replicate k CHR ''=''" and k: "k \<le> 2"
    and safe: "list_all urlsafe body" and len: "(length body + k) mod 4 = 0"
    and dec: "b64decode lib (b64encode lib d) = Inr d" unfolding base64_law_def by metis
  have b: "b64 lib d = body" using rstrip_equals_padded [OF safe] by (simp add: b64_def e)
  have "(int (length body) + int k) mod 4 = 0"
    using len by (metis of_nat_0 of_nat_add of_nat_numeral zmod_int)
  then have "(- int (length body)) mod 4 = int k" using k by presburger
  then have "nat ((- int (length body)) mod 4) = k" by simp
  with b e dec show "unb64 lib (b64 lib d) = Inr d" by (simp add: unb64_def)
  show "list_all urlsafe (b64 lib d)" by (simp add: b safe)
qed

lemma split_on_no_sep: "sep \<notin> set s \<Longrightarrow> split_on sep s = [s]"
  by (induction s) auto

lemma split_on_append: "sep \<notin> set a \<Longrightarrow> split_on sep (a @ sep # s) = a # split_on sep s"
  by (induction a) auto

lemma strip_id: "s \<noteq> [] \<Longrightarrow> \<not> is_space (hd s) \<Longrightarrow> \<not> is_space (last s) \<Longrightarrow> strip s = s"
proof -
  have *: "dropWhile is_space x = x" if "x \<noteq> []" "\<not> is_space (hd x)" for x using that by (cases x) auto
  assume "s \<noteq> []" "\<not> is_space (hd s)" "\<not> is_space (last s)"
  with * [of s] * [of "rev s"] show ?thesis by (simp add: strip_def hd_rev)
qed

lemma id_match_chars: "id_match i \<Longrightarrow> i \<noteq> [] \<and> CHR ''.'' \<notin> set i \<and> \<not> is_space (hd i)"
proof -
  have *: "CHR ''.'' \<notin> set l \<and> \<not> is_space (hd l)" if "dns_label l" for l
    using that urlsafe_not [OF is_alnum_urlsafe]
    by (auto simp: dns_label_def list_all_iff is_alnum_def is_digit_def)
  assume "id_match i"
  then show ?thesis
    using * [of i] * [of "butlast i"]
    by (cases i rule: rev_cases) (auto simp: id_match_def dns_label_def hd_append)
qed

lemma token_round_trip_text:
  assumes law: "base64_law lib" and pem: "pem_of_der lib (der_of_pem lib (token_ca t)) = Inr (token_ca t)"
    and i: "id_match (token_connector t)" and sec: "token_secret t \<noteq> []" "list_all urlsafe (token_secret t)"
  shows "token_parse lib (token_text lib t) = Inr t"
    and "strip (CHR '' '' # token_text lib t @ [CHR 0x0A]) = strip (token_text lib t)"
proof -
  let ?b = "b64 lib (der_of_pem lib (token_ca t))"
  note b = unb64_b64 [OF law, of "der_of_pem lib (token_ca t)"]
  have dots: "CHR ''.'' \<notin> set (token_secret t)" "CHR ''.'' \<notin> set ?b"
    using sec(2) b(2) urlsafe_not by (auto simp: list_all_iff)
  have split: "split_on CHR ''.'' (token_text lib t) = [token_connector t, token_secret t, ?b]"
    using id_match_chars [OF i] dots by (simp add: token_text_def split_on_append split_on_no_sep)
  have "last (token_text lib t) = (if ?b = [] then CHR ''.'' else last ?b)" by (simp add: token_text_def)
  moreover have "?b \<noteq> [] \<Longrightarrow> \<not> is_space (last ?b)" using b(2) urlsafe_not by (auto simp: list_all_iff)
  ultimately have lst: "\<not> is_space (last (token_text lib t))" by (auto simp: is_space_def)
  have hd: "token_text lib t \<noteq> []" "\<not> is_space (hd (token_text lib t))"
    using id_match_chars [OF i] by (auto simp: token_text_def)
  have strip: "strip (token_text lib t) = token_text lib t" by (rule strip_id [OF hd lst])
  show "strip (CHR '' '' # token_text lib t @ [CHR 0x0A]) = strip (token_text lib t)"
    using hd lst by (cases "token_text lib t"; cases "token_text lib t" rule: rev_cases) (auto simp: strip_def is_space_def)
  show "token_parse lib (token_text lib t) = Inr t"
    using split strip i sec(1) b(1) pem by (simp add: token_parse_def on_value_error_def)
qed

text \<open>
  An enrollment token survives the operator's copy and paste: parsing its text, also with
  surrounding blanks, gives back the connector id, the secret and the CA. The id is any the
  registry accepts, the secret any URL-safe text, and the missing base64 padding is restored.
\<close>

theorem token_round_trip:
  assumes law: "base64_law lib" and pem: "pem_of_der lib (der_of_pem lib (token_ca t)) = Inr (token_ca t)"
    and i: "id_match (token_connector t)" and sec: "token_secret t \<noteq> []" "list_all urlsafe (token_secret t)"
  shows "token_parse lib (token_text lib t) = Inr t \<and> token_parse lib (CHR '' '' # token_text lib t @ [CHR 0x0A]) = Inr t"
  using token_round_trip_text [OF assms] by (simp add: token_parse_def)

text \<open>Whether a call is about a connector.\<close>

fun concerns :: "pki \<Rightarrow> string \<Rightarrow> registry_call \<Rightarrow> bool" where
  "concerns lib k (Create cid ttl now secret) \<longleftrightarrow> cid = k"
| "concerns lib k (Enroll tok request now serial) \<longleftrightarrow>
     (case token_parse lib tok of Inl _ \<Rightarrow> False | Inr t \<Rightarrow> token_connector t = k)"
| "concerns lib k (Renew cid request now serial) \<longleftrightarrow> cid = k"
| "concerns lib k (Disable cid) \<longleftrightarrow> cid = k"

context registry begin

lemma step_other:
  assumes ok: "store_ok s" and other: "\<not> concerns lib k c"
  shows "get_record ops (registry_step ops lib ca days c s) k = get_record ops s k"
proof (cases c)
  case (Create cid ttl now secret)
  with other show ?thesis
    using get_put [OF ok] by (auto simp: create_connector_def keep_def Let_def split: option.splits)
next
  case (Enroll tok request now serial)
  show ?thesis
  proof (cases "enroll_connector ops lib ca days tok request now serial s")
    case (Inr x)
    then obtain t s' where run: "enroll_connector ops lib ca days tok request now serial s = Inr (t, s')" by (cases x) auto
    from enroll_Inr [OF run] run other Enroll get_put [OF ok] get_id [OF ok] show ?thesis
      by (auto simp: keep_def check_token_Inr)
  qed (simp add: Enroll keep_def)
next
  case (Renew cid request now serial)
  show ?thesis
  proof (cases "renew_connector ops lib ca days cid request now serial s")
    case (Inr x)
    then obtain t s' where run: "renew_connector ops lib ca days cid request now serial s = Inr (t, s')" by (cases x) auto
    from renew_Inr [OF run] run other Renew get_put [OF ok] get_id [OF ok] show ?thesis
      by (auto simp: keep_def)
  qed (simp add: Renew keep_def)
next
  case (Disable cid)
  with other show ?thesis
    using get_put [OF ok] get_id [OF ok] by (auto simp: disable_connector_def split: option.splits)
qed

lemma run_other:
  "store_ok s \<Longrightarrow> \<forall>c\<in>set cs. \<not> concerns lib k c \<Longrightarrow> get_record ops (run cs s) k = get_record ops s k"
  by (induction cs arbitrary: s) (auto simp: step_other step_ok)

end

text \<open>
  An honest enrollment completes. After the operator created a token, and whatever calls about
  other connectors were served, enrolling that token before it expires, with a valid signing
  request for an elliptic-curve key, succeeds; the connector accepts the answer; and from then on it
  is allowed to connect.
\<close>

theorem enrollment_completes:
  assumes ok: "sql_ok s" and law: "base64_law lib" and pem: "pem_of_der lib (der_of_pem lib ca) = Inr ca"
    and secret: "secret \<noteq> []" "list_all urlsafe secret"
    and created: "create_connector sql_operations lib ca cid ttl at secret s = Inr (t, s1)"
    and others: "\<forall>c\<in>set cs. \<not> concerns lib cid c" and time: "now \<le> at + ttl"
    and request: "load_request lib request = Inr \<lparr>request_signature_valid = True, request_key = EC_Key k\<rparr>"
    and x509: "load_certificate lib (encode_certificate lib (connector_certificate lib ca (EC_Key k) cid days now serial))
      = Inr (connector_certificate lib ca (EC_Key k) cid days now serial)"
  shows "\<exists>cert s2. enroll_connector sql_operations lib ca days (token_text lib t) request now serial (sql_run lib ca days cs s1)
        = Inr (cert, s2)
      \<and> accept_answer lib (token_text lib t) (EC_Key k) cert ca = Inr (cert, ca)
      \<and> is_allowed sql_operations s2 cid"
proof -
  let ?s = "sql_run lib ca days cs s1"
  from create_Inr [OF created] obtain created_at where i: "id_match cid"
    and t: "t = \<lparr>token_connector = cid, token_secret = secret, token_ca = ca\<rparr>"
    and s1: "s1 = put_record sql_operations \<lparr>cr_id = cid, cr_status = ''pending'', cr_created = created_at,
        cr_token_hash = Some (sha256_hex lib secret), cr_token_expires = Some (at + ttl),
        cr_token_used = None, cr_cert_serial = None, cr_cert_not_after = None\<rparr> s" by blast
  have ok1: "sql_ok s1" unfolding s1 by (rule sql.put_ok [OF ok])
  have parse: "token_parse lib (token_text lib t) = Inr t"
    using token_round_trip_text [OF law] pem i secret by (simp add: t)
  have "get_record sql_operations ?s cid = get_record sql_operations s1 cid"
    by (rule sql.run_other [OF ok1 others])
  then have check: "check_token lib ca now t (get_record sql_operations ?s cid) = Inr \<lparr>cr_id = cid, cr_status = ''pending'',
      cr_created = created_at, cr_token_hash = Some (sha256_hex lib secret), cr_token_expires = Some (at + ttl),
      cr_token_used = None, cr_cert_serial = None, cr_cert_not_after = None\<rparr>"
    using time by (simp add: check_token_Inr s1 sql.get_put [OF ok] t)
  define cert where "cert = encode_certificate lib (connector_certificate lib ca (EC_Key k) cid days now serial)"
  have sign: "sign_request lib ca request cid days now serial = Inr (cert, serial, now + int days * day)"
    by (simp add: sign_request_def request cert_def)
  obtain s2 where enrolled: "enroll_connector sql_operations lib ca days (token_text lib t) request now serial ?s = Inr (cert, s2)"
    using parse check sign by (simp add: enroll_connector_def t)
  have "is_allowed sql_operations s2 cid"
  proof -
    have "stage (get_record sql_operations s2 cid) = 2"
      using sql.enroll_stage(2) [OF sql.calls.run_inv [OF ok1] enrolled parse] by (simp add: t)
    then show ?thesis by (auto simp: is_allowed_def stage_def split: option.splits if_splits)
  qed
  moreover have "accept_answer lib (token_text lib t) (EC_Key k) cert ca = Inr (cert, ca)"
    using parse x509 by (simp add: accept_answer_def cert_def) (simp add: t connector_certificate_def)
  ultimately show ?thesis using enrolled by blast
qed

section \<open>A concrete exchange\<close>

text \<open>A library that keeps its laws: bytes are written as their bits, hashes and encodings are the identity.\<close>

definition bit_text :: "char \<Rightarrow> string" where
  "bit_text c = map (\<lambda>b. if b then CHR ''b'' else CHR ''a'')
     [digit0 c, digit1 c, digit2 c, digit3 c, digit4 c, digit5 c, digit6 c, digit7 c]"

fun text_bytes :: "string \<Rightarrow> string" where
  "text_bytes (a # b # c # d # e # f # g # h # s) =
     Char (a = CHR ''b'') (b = CHR ''b'') (c = CHR ''b'') (d = CHR ''b'') (e = CHR ''b'') (f = CHR ''b'')
       (g = CHR ''b'') (h = CHR ''b'') # text_bytes s"
| "text_bytes _ = []"

lemma text_bytes_bit_text: "text_bytes (bit_text c @ s) = c # text_bytes s"
  by (cases c) (simp add: bit_text_def)

lemma text_bytes_bits: "text_bytes (concat (map bit_text d)) = d"
  by (induction d) (simp_all add: text_bytes_bit_text)

lemma bit_text_props: "list_all urlsafe (concat (map bit_text d)) \<and> length (concat (map bit_text d)) mod 4 = 0"
proof
  show "list_all urlsafe (concat (map bit_text d))"
    by (auto simp: list_all_iff bit_text_def urlsafe_def is_alnum_def)
  have "length (concat (map bit_text d)) = 8 * length d" by (induction d) (simp_all add: bit_text_def)
  then show "length (concat (map bit_text d)) mod 4 = 0" by simp
qed

definition sample_pki :: pki where
  "sample_pki = \<lparr>sha256_hex = id, b64encode = (\<lambda>d. concat (map bit_text d)), b64decode = (\<lambda>t. Inr (text_bytes t)),
     der_of_pem = id, pem_of_der = Inr,
     load_request = (\<lambda>_. Inr \<lparr>request_signature_valid = True, request_key = EC_Key ''k''\<rparr>), subject_of = id,
     encode_certificate = (\<lambda>_. ''cert''),
     load_certificate = (\<lambda>_. Inr \<lparr>subject_name = ''connector eu1'', issuer_name = ''CA'', certified_key = EC_Key ''k'',
       serial_number = 7, not_valid_before = 20 - 5 * minute, not_valid_after = 20 + 90 * day, is_ca = False,
       uri_names = [''connector:eu1''], extended_usage = [''clientAuth''], signed_by = ''CA''\<rparr>)\<rparr>"

definition sample_token :: token where
  "sample_token = \<lparr>token_connector = ''eu1'', token_secret = ''s3cret'', token_ca = ''CA''\<rparr>"

definition sample_registry :: "connector_row list" where
  "sample_registry = sql_run sample_pki ''CA'' 90 [Create ''eu1'' 100 10 ''s3cret''] []"

lemma sample_law: "base64_law sample_pki"
  unfolding base64_law_def using bit_text_props
  by (auto simp: sample_pki_def text_bytes_bits intro!: exI [of _ "concat (map bit_text d)" for d] exI [of _ "0::nat"])

lemma sample_id: "id_match ''eu1''"
  by (simp add: id_match_def dns_label_def is_alnum_def is_digit_def)

lemma sample_secret: "list_all urlsafe ''s3cret''"
  by (simp add: urlsafe_def is_alnum_def is_digit_def)

lemma sample_parse: "token_parse sample_pki (token_text sample_pki sample_token) = Inr sample_token"
  by (rule token_round_trip_text [OF sample_law]; use sample_id sample_secret in \<open>simp add: sample_token_def\<close>)
    (simp add: sample_pki_def)

lemma sample_created: "create_connector sql_operations sample_pki ''CA'' ''eu1'' 100 10 ''s3cret'' [] = Inr (sample_token, sample_registry)"
  by (simp add: sample_registry_def create_connector_def sample_id keep_def sample_token_def sql_empty)

lemma sample_enrolled:
  "\<exists>s. enroll_connector sql_operations sample_pki ''CA'' 90 (token_text sample_pki sample_token) ''csr'' 20 7 sample_registry = Inr (''cert'', s)"
proof -
  have "get_record sql_operations sample_registry ''eu1'' = Some \<lparr>cr_id = ''eu1'', cr_status = ''pending'', cr_created = 10,
      cr_token_hash = Some ''s3cret'', cr_token_expires = Some 110, cr_token_used = None, cr_cert_serial = None,
      cr_cert_not_after = None\<rparr>"
    by (simp add: sample_registry_def create_connector_def sample_id keep_def sql_empty sql.get_put [OF sql_empty(1)])
      (simp add: sample_pki_def)
  moreover have "sign_request sample_pki ''CA'' ''csr'' ''eu1'' 90 20 7 = Inr (''cert'', 7, 20 + int 90 * day)"
    by (simp add: sign_request_def sample_pki_def)
  moreover have "sha256_hex sample_pki ''s3cret'' = ''s3cret''" by (simp add: sample_pki_def)
  ultimately show ?thesis
    using sample_parse by (simp add: enroll_connector_def sample_token_def check_token_def)
qed

theorem token_round_trip_witness:
  "token_parse sample_pki (token_text sample_pki sample_token) = Inr sample_token"
  using token_round_trip [OF sample_law, of sample_token] sample_id sample_secret
  by (simp add: sample_token_def sample_pki_def)

theorem enrollment_completes_witness:
  "\<exists>cert s2. enroll_connector sql_operations sample_pki ''CA'' 90 (token_text sample_pki sample_token) ''csr'' 20 7
       (sql_run sample_pki ''CA'' 90 [Disable ''us2'', Create ''us2'' 50 15 ''other''] sample_registry) = Inr (cert, s2)
     \<and> is_allowed sql_operations s2 ''eu1''"
proof -
  have "load_certificate sample_pki (encode_certificate sample_pki (connector_certificate sample_pki ''CA'' (EC_Key ''k'') ''eu1'' 90 20 7))
      = Inr (connector_certificate sample_pki ''CA'' (EC_Key ''k'') ''eu1'' 90 20 7)"
    by (simp add: sample_pki_def connector_certificate_def CONNECTOR_SAN_PREFIX_def)
  from enrollment_completes [OF sql_empty(1) sample_law _ _ sample_secret sample_created _ _ _ this,
      of "[Disable ''us2'', Create ''us2'' 50 15 ''other'']" "''csr''"]
  show ?thesis by (force simp: sample_pki_def)
qed


theorem enrollment_provenance_witness:
  "\<exists>t ttl at cs1 cs2. token_parse sample_pki (token_text sample_pki sample_token) = Inr t
     \<and> [Create ''eu1'' 100 10 ''s3cret''] = cs1 @ Create (token_connector t) ttl at (token_secret t) # cs2 \<and> 20 \<le> at + ttl"
proof -
  have sha: "inj (sha256_hex sample_pki)" by (simp add: sample_pki_def)
  obtain s where "enroll_connector sql_operations sample_pki ''CA'' 90 (token_text sample_pki sample_token) ''csr'' 20 7
      (sql_run sample_pki ''CA'' 90 [Create ''eu1'' 100 10 ''s3cret''] []) = Inr (''cert'', s)"
    using sample_enrolled unfolding sample_registry_def by blast
  from enrollment_provenance [OF sha this] show ?thesis by blast
qed

text \<open>The id pattern accepts one trailing newline: the registry then holds two connectors that print alike.\<close>

lemma trailing_newline_accepted:
  "id_match (''eu1'' @ [CHR 0x0A]) \<and> \<not> dns_label (''eu1'' @ [CHR 0x0A])"
  by (simp add: id_match_def dns_label_def is_alnum_def is_digit_def)

end
