(* ===== verification/Resource_Mechanism_Correct.thy ===== *)
theory Resource_Mechanism_Correct
  imports Resource_Mechanism
begin

text \<open>
  What the resource-pressure rule of \<open>Resource_Mechanism\<close> guarantees: a mismatch rests on a complete normal
  measurement of every lowered resource of every pod of the new template, and the audited evaluation
  finds the same mismatches, settles every hypothesis in scope and leaves nothing pending at its boundary.
\<close>

section \<open>The parts of a scope and of a measurement\<close>







lemma set_series [simp]: "set (series_of sc) = set (scope_pods sc) \<times> set (scope_lowered sc)"
  by (auto simp: series_of_def)



section \<open>A mismatch is a measured normal\<close>



section \<open>The audited evaluation\<close>

lemma evaluate_mismatches:
  "found_mismatches (evaluate_resource fi number read c evaluation h acc) =
     (case assess_resource_mechanism fi number read c h of
        None \<Rightarrow> found_mismatches acc
      | Some m \<Rightarrow> AList.update (hypothesis_id h) m (found_mismatches acc))"
  by (simp add: evaluate_resource_def assess_resource_mechanism_def require_def Let_def
      split: option.split prod.split coverage_status.split)

lemma found_mismatches_fold:
  "found_mismatches (fold (evaluate_resource fi number read c evaluation) hs acc) =
     fold (\<lambda>h d. case assess_resource_mechanism fi number read c h of
             None \<Rightarrow> d | Some m \<Rightarrow> AList.update (hypothesis_id h) m d) hs (found_mismatches acc)"
  by (induction hs arbitrary: acc) (simp_all add: evaluate_mismatches)

text \<open>What an evaluation holds of one hypothesis.\<close>

type_synonym entry =
  "mechanism_mismatch option \<times> precondition_result list option \<times> audit_reason list option \<times> coverage_requirement option"

definition entry :: "resource_evaluations \<Rightarrow> string \<Rightarrow> entry" where
  "entry e i = (map_of (found_mismatches e) i, map_of (coverage_preconditions e) i, map_of (coverage_reasons e) i,
     map_of (coverage_requirements e) i)"

lemma entry_other: "i \<noteq> hypothesis_id h \<Longrightarrow> entry (evaluate_resource fi number read c t h acc) i = entry acc i"
  by (auto simp: entry_def evaluate_resource_def require_def Let_def update_conv
      split: option.split prod.split coverage_status.split)

definition settled :: "precondition_result option \<Rightarrow> audit_reason option \<Rightarrow> resource_scope \<Rightarrow> coverage_requirement option" where
  "settled res reason sc =
     Some \<lparr>requirement_series = scope_lowered sc, coverage_result = res, coverage_reason = reason\<rparr>"

lemma entry_own:
  assumes "case_scope fi number c h = Some sc" "entry acc (hypothesis_id h) = (None, None, None, None)"
  shows "entry (evaluate_resource fi number read c (Some t) h acc) (hypothesis_id h) =
    (if oom_or_eviction (scope_pods sc) (case_findings c) (case_history c)
       \<or> fst (case_measure fi read c sc) = PRESSURE
     then (None, None, None, settled (Some POSITIVE_PRESSURE) None sc)
     else if fst (case_measure fi read c sc) = COMPLETE
     then (Some (mismatch_of h sc (snd (case_measure fi read c sc))), None, None, settled (Some result_passed) None sc)
     else if t < scope_boundary sc
     then (None, Some [result_pending (scope_boundary sc)], None, settled (Some (result_pending (scope_boundary sc))) None sc)
     else (let r = (if fst (case_measure fi read c sc) = PARTIAL then PARTIAL_COVERAGE_AFTER_DEADLINE
                    else NO_DATA_AFTER_DEADLINE)
           in (None, None, Some [r], settled None (Some r) sc)))"
  using assms
  by (auto simp: entry_def evaluate_resource_def require_def settled_def Let_def update_conv
      split: prod.split coverage_status.split)

lemma entry_fold_other:
  "i \<notin> hypothesis_id ` set hs \<Longrightarrow> entry (fold (evaluate_resource fi number read c t) hs acc) i = entry acc i"
  by (induction hs arbitrary: acc) (auto simp: entry_other)

lemma entry_evaluation:
  assumes "distinct (map hypothesis_id hs)" "h \<in> set hs"
  shows "entry (fold (evaluate_resource fi number read c t) hs acc) (hypothesis_id h)
    = entry (evaluate_resource fi number read c t h (fold (evaluate_resource fi number read c t)
        (takeWhile (\<lambda>g. hypothesis_id g \<noteq> hypothesis_id h) hs) acc)) (hypothesis_id h)"
  using assms
proof (induction hs arbitrary: acc)
  case (Cons g gs)
  show ?case
  proof (cases "g = h")
    case True
    with Cons.prems(1) show ?thesis by (simp add: entry_fold_other)
  next
    case False
    with Cons.prems have "hypothesis_id g \<noteq> hypothesis_id h" "h \<in> set gs" by force+
    with Cons.IH [of "evaluate_resource fi number read c t g acc"] Cons.prems(1) show ?thesis by simp
  qed
qed simp

lemma entry_before:
  "entry (fold (evaluate_resource fi number read c t) (takeWhile (\<lambda>g. hypothesis_id g \<noteq> i) hs) acc) i = entry acc i"
  by (rule entry_fold_other) (auto dest: set_takeWhileD)

lemma evaluation_entry:
  assumes "distinct (map hypothesis_id hs)" "h \<in> set hs"
  shows "\<exists>acc. entry acc (hypothesis_id h) = (None, None, None, None)
    \<and> entry (evaluate_resource_mechanisms fi number read c t hs) (hypothesis_id h)
      = entry (evaluate_resource fi number read c t h acc) (hypothesis_id h)"
  unfolding evaluate_resource_mechanisms_def entry_evaluation [OF assms]
  by (rule exI, rule conjI [OF _ refl], subst entry_before) (simp add: entry_def)

text \<open>
  The audited evaluation decides like the plain rule and settles every hypothesis in its scope. Its
  mismatches are those of the rule, in the same order. For a cutoff and hypotheses with distinct identifiers,
  a hypothesis in scope has a requirement for exactly its lowered series, and it passed exactly when there is a
  mismatch; it waits only while the cutoff is before onset plus grace, and then for that instant; and from
  that instant on there is a result or a neutral reason, and nothing is pending.
\<close>

theorem evaluation_settles:
  assumes "ev = evaluate_resource_mechanisms fi number read c (Some t) hs"
    and "distinct (map hypothesis_id hs)" "h \<in> set hs" "case_scope fi number c h = Some sc"
  shows "found_mismatches ev = assess_resource_mechanisms fi number read c hs
    \<and> (\<exists>r. map_of (coverage_requirements ev) (hypothesis_id h) = Some r \<and> requirement_series r = scope_lowered sc
        \<and> (coverage_result r = Some result_passed
             \<longleftrightarrow> map_of (found_mismatches ev) (hypothesis_id h) = assess_resource_mechanism fi number read c h
                 \<and> assess_resource_mechanism fi number read c h \<noteq> None)
        \<and> (map_of (coverage_preconditions ev) (hypothesis_id h) \<noteq> None
             \<longleftrightarrow> coverage_result r = Some (result_pending (scope_boundary sc)))
        \<and> (coverage_result r = Some (result_pending (scope_boundary sc)) \<longrightarrow> t < scope_boundary sc)
        \<and> (coverage_result r = None) = (coverage_reason r \<noteq> None)
        \<and> map_of (coverage_reasons ev) (hypothesis_id h) = map_option (\<lambda>x. [x]) (coverage_reason r)
        \<and> (coverage_reason r \<noteq> None \<longrightarrow> scope_boundary sc \<le> t))"
proof -
  obtain acc where empty: "entry acc (hypothesis_id h) = (None, None, None, None)"
    and ev: "entry ev (hypothesis_id h) = entry (evaluate_resource fi number read c (Some t) h acc) (hypothesis_id h)"
    using evaluation_entry [OF assms(2,3)] assms(1) by metis
  have a: "assess_resource_mechanism fi number read c h =
     (if oom_or_eviction (scope_pods sc) (case_findings c) (case_history c) then None
      else if fst (case_measure fi read c sc) = COMPLETE then Some (mismatch_of h sc (snd (case_measure fi read c sc)))
      else None)"
    by (simp add: assess_resource_mechanism_def assms(4) split: prod.split coverage_status.split)
  have "found_mismatches ev = assess_resource_mechanisms fi number read c hs"
    by (simp add: assms(1) evaluate_resource_mechanisms_def found_mismatches_fold assess_resource_mechanisms_def)
  moreover note ev [unfolded entry_own [OF assms(4) empty]]
  ultimately show ?thesis
    unfolding a entry_def settled_def Let_def
    by (auto simp: result_passed_def result_pending_def result_disqualified_def POSITIVE_PRESSURE_def
        split: if_splits)
qed

section \<open>A concrete case\<close>

text \<open>A deployment whose CPU limit went from two cores to one, and its one pod.\<close>

definition cart_version :: "string \<Rightarrow> instant \<Rightarrow> int \<Rightarrow> object_version" where
  "cart_version e t cpu =
     \<lparr>version_entity = causal_actor sample_hypothesis, version_uid = None, observed_at = t,
      body = [(''spec'', JDict [(''template'', JDict [(''spec'', JDict [(''containers'', JList [JDict
        [(''name'', JStr ''app''), (''resources'', JDict [(''limits'', JDict [(''cpu'', JInt cpu)])])]])])])])],
      evidence_id = e, lifecycle = UPDATED\<rparr>"

definition owned_by_cart :: "string \<Rightarrow> string \<Rightarrow> (string \<times> json) list" where
  "owned_by_cart k n =
     [(''metadata'', JDict [(''creationTimestamp'', JStr ''start''), (''ownerReferences'', JList [JDict
        [(''controller'', JBool True), (''kind'', JStr k), (''name'', JStr n)]])])]"

definition cart_set :: object_version where
  "cart_set = (cart_version ''e3'' 30 1)\<lparr>body := owned_by_cart ''Deployment'' ''cart'' @ body (cart_version ''e3'' 30 1)\<rparr>"

definition cart_pod :: entity_ref where
  "cart_pod = \<lparr>kind = ''Pod'', name = ''cart-1'', namespace = ''shop''\<rparr>"

definition cart_pod_version :: object_version where
  "cart_pod_version = (cart_version ''e4'' 31 1)\<lparr>body := owned_by_cart ''ReplicaSet'' ''cart-a''\<rparr>"

definition limit_finding :: finding where
  "limit_finding =
     \<lparr>finding_kind = SPEC_CHANGE, entity = causal_actor sample_hypothesis, entity_instance = None, at = Some 30,
      summary = ''spec changed'', evidence_ids = [''e1'', ''e2''], related = [], details = [],
      temporal_role = INITIATING, incident_onset = Some 50, onset_delta = None\<rparr>"

definition limit_claim :: hypothesis where
  "limit_claim = sample_hypothesis\<lparr>initiating_findings := [limit_finding]\<rparr>"

definition limit_case :: resource_case where
  "limit_case =
     \<lparr>case_history = [(causal_actor sample_hypothesis, [cart_version ''e1'' 10 2, cart_version ''e2'' 30 1]),
        (\<lparr>kind = ''ReplicaSet'', name = ''cart-a'', namespace = ''shop''\<rparr>, [cart_set]),
        (cart_pod, [cart_pod_version])],
      case_findings = [], case_onset = Some 50, case_grace = 10\<rparr>"

definition cart_clock :: "string \<Rightarrow> instant option" where
  "cart_clock s = (if s = ''start'' then Some 31 else None)"

definition half_used :: resource_pressure where
  "half_used =
     \<lparr>pressure_pod = cart_pod, pressure_container = ''app'', pressure_resource = ''cpu'', peak = 2 ^ 1070,
      pressure_evidence = ''p1'', sample_count = 2, sample_start = Some 31, sample_end = Some 60\<rparr>"

definition cart_reader :: pressure_reader where
  "cart_reader pods t = Some [half_used]"

definition cart_scope :: resource_scope where
  "cart_scope =
     \<lparr>scope_actor = causal_actor sample_hypothesis, scope_lowered = [(''app'', ''cpu'')], scope_pods = [cart_pod],
      scope_onset = 50, scope_boundary = 60, scope_start = 30, scope_end = 60, scope_changes = [''e1'', ''e2'']\<rparr>"

lemma cart_case_scope: "case_scope cart_clock (\<lambda>_. None) limit_case limit_claim = Some cart_scope"
  by code_simp



theorem evaluation_settles_witness:
  "\<exists>r. map_of (coverage_requirements
         (evaluate_resource_mechanisms cart_clock (\<lambda>_. None) cart_reader limit_case (Some 100) [limit_claim]))
       (hypothesis_id limit_claim) = Some r
     \<and> requirement_series r = [(''app'', ''cpu'')] \<and> coverage_result r \<noteq> Some (result_pending 60)"
  using evaluation_settles [OF refl _ _ cart_case_scope, of "[limit_claim]" cart_reader 100]
  by (auto simp: cart_scope_def)

end
