(* ===== verification/Resolution.thy ===== *)
theory Resolution
  imports Timing_Stability Temporal Causal_Roles Resource_Mechanism
begin

text \<open>
  Resolution of competing causal hypotheses (\<open>packages/rca/resolution.py\<close>): the signature of a claim, the
  rule by which a change on a path to a symptom supports it, the epistemic state of every claim, the
  records of its elimination, the causal families that compete, and the decision \<open>_resolve\<close> takes.
  The timing masks the source reads from a context variable are the argument \<open>masks\<close>.
\<close>

section \<open>Signatures\<close>

definition CHANGE_KINDS :: "finding_kind list" where
  "CHANGE_KINDS =
     [CONFIG_CHANGE, OBJECT_CREATED, OBJECT_DELETED, SPEC_CHANGE, IMAGE_CHANGE, SCALE_CHANGE,
      ROLLOUT_RESTART, FAULT_INJECTION, FAULT_SCHEDULE, POLICY_CREATED, QUOTA_EXCEEDED, QUOTA_EXHAUSTED,
      NETWORK_RESTRICTION, AUTOSCALING_FAILURE, TRAFFIC_INCREASE]"

definition MAX_TRACE_ITEMS :: nat where
  "MAX_TRACE_ITEMS = 8"

definition preconditions_allow_elimination :: "precondition_result list \<Rightarrow> bool" where
  "preconditions_allow_elimination rs \<longleftrightarrow> list_all (\<lambda>r. result_status r = PASS) rs"

definition temporal_label :: "finding \<Rightarrow> string" where
  "temporal_label f =
     (case onset_delta f of
        None \<Rightarrow> ''missing_timestamp''
      | Some d \<Rightarrow>
          (case temporal_role f of
             INITIATING \<Rightarrow> if d < 0 then ''initiating_before_onset'' else ''initiating_near_onset''
           | SUPPORTING \<Rightarrow> if d \<ge> 0 then ''supporting_after_onset'' else ''supporting_before_onset''
           | CONSEQUENCE \<Rightarrow> if d \<ge> 0 then ''late_consequence'' else ''pre_onset_consequence''
           | _ \<Rightarrow> ''ambiguous_timing''))"

definition provenance_class :: "finding \<Rightarrow> string" where
  "provenance_class f =
     (case py_or (dict_value (details f) ''source_class'') (dict_value (details f) ''source'') of
        JStr (c # s) \<Rightarrow> map lower_char (c # s)
      | _ \<Rightarrow>
          if finding_kind f = FAILURE_EVENT then ''kubernetes_event''
          else if finding_kind f = DEPENDENCY_ERRORS then ''log''
          else if finding_kind f \<in> {TRAFFIC_INCREASE, RESOURCE_PRESSURE} then ''metric''
          else if finding_kind f \<in> set CHANGE_KINDS then ''object_observation''
          else ''derived_observation'')"

definition path_shape :: "hypothesis \<Rightarrow> path_shape list" where
  "path_shape h = sorted_set
     (map (map (\<lambda>hop. (kind (hop_source hop), relation hop, kind (hop_target hop))))
       (filter (\<lambda>path. path \<noteq> []) (causal_paths h)))"

definition kind_values :: "finding list \<Rightarrow> string list" where
  "kind_values fs = sorted_set (map (kind_value \<circ> finding_kind) fs)"

definition hypothesis_signature :: "hypothesis \<Rightarrow> signature" where
  "hypothesis_signature h =
     \<lparr>initiating_kinds = kind_values (initiating_findings h),
      supporting_kinds = kind_values (supporting_findings h),
      contradiction_kinds = kind_values (contradictory_findings h),
      temporal_profile = sorted_set (map temporal_label (findings h)),
      symptom_relation = causal_explanation h,
      causal_path_shape = path_shape h,
      manifestation_shape = sorted_set (concat (map (\<lambda>m.
        map (\<lambda>f. kind m @ '':'' @ kind_value (finding_kind f)) (filter (\<lambda>f. entity f = m) (findings h)))
        (manifestations h))),
      provenance_classes = sorted_set (map provenance_class (findings h))\<rparr>"

definition structurally_equivalent :: "hypothesis \<Rightarrow> hypothesis \<Rightarrow> bool" where
  "structurally_equivalent a b \<longleftrightarrow> hypothesis_signature a = hypothesis_signature b"

section \<open>Support by a change on a path to a symptom\<close>

definition D1_RULE_VERSION :: string where
  "D1_RULE_VERSION = ''v2''"

text \<open>The actor's own change findings whose temporal role is INITIATING.\<close>

definition initiating_changes :: "hypothesis \<Rightarrow> finding list" where
  "initiating_changes h =
     filter (\<lambda>f. temporal_role f = INITIATING \<and> finding_kind f \<in> set CHANGE_KINDS) (actor_findings h)"

definition has_aligned_initiating :: "hypothesis \<Rightarrow> bool" where
  "has_aligned_initiating h \<longleftrightarrow> initiating_changes h \<noteq> []"

definition change_witness :: "hypothesis \<Rightarrow> finding \<Rightarrow> entity_ref \<times> causal_hop list \<Rightarrow> causal_witness" where
  "change_witness h f link =
     (case link of (symptom, path) \<Rightarrow>
        \<lparr>witness_actor = causal_actor h, witness_instance = actor_instance h, origin = f,
         relation_evidence = relation_evidence_ids h,
         attribution = (if list_ex (\<lambda>hop. relation hop = ''quota_blocks'') path
                        then ''m21.attribution.quota-rejection.v1'' else ''DIRECT_OWNERSHIP''),
         witness_mechanism = kind_value (finding_kind f), witness_symptom = symptom, witness_path = path,
         witness_onset = the (incident_onset f),
         witness_evidence = sorted_set (evidence_ids f @ relation_evidence_ids h),
         witness_coverage = [''ACTOR_OBSERVATION'', ''INCIDENT_ONSET'', ''STRUCTURAL_RELATION''],
         missing = [''MECHANISM_EXECUTION_NOT_PROVEN'']
           @ (if actor_instance h = None then [''ACTOR_INSTANCE_UNKNOWN''] else [])
           @ (if path \<noteq> [] \<and> relation_evidence_ids h = [] then [''RELATION_PROVENANCE_UNAVAILABLE''] else []),
         witness_rule = D1_RULE_ID, witness_version = D1_RULE_VERSION,
         witness_claim_level = ''POSSIBLE_INITIATING_CAUSE'', fault_action = None\<rparr>)"

definition can_witness :: "finding \<Rightarrow> bool" where
  "can_witness f \<longleftrightarrow> incident_onset f \<noteq> None \<and> at f \<noteq> None \<and> evidence_ids f \<noteq> []"

definition change_witnesses :: "hypothesis \<Rightarrow> causal_witness list" where
  "change_witnesses h =
     concat (map (\<lambda>f. map (change_witness h f) (symptom_links h)) (filter can_witness (initiating_changes h)))"

definition onset_known :: "hypothesis \<Rightarrow> bool" where
  "onset_known h \<longleftrightarrow> list_ex (\<lambda>f. incident_onset f \<noteq> None) (actor_findings h)"

definition change_onset_path_support :: "hypothesis \<Rightarrow> support_record" where
  "change_onset_path_support h =
     (let ws = change_witnesses h; linked = admitted h;
          st = (if linked \<and> ws \<noteq> [] then FIRED else if \<not> onset_known h then INAPPLICABLE else NOT_FIRED)
      in \<lparr>support_rule = D1_RULE_ID, support_version = D1_RULE_VERSION, support_kind = ''CHANGE_ONSET_PATH'',
          support_status = st,
          support_reasons =
            (case st of
               FIRED \<Rightarrow> []
             | INAPPLICABLE \<Rightarrow> [''CAUSAL_ONSET_UNKNOWN'']
             | NOT_FIRED \<Rightarrow>
                 (if \<not> linked then [code_value NO_CAUSAL_SYMPTOM_LINK] else [])
                 @ (if ws = [] then [code_value NO_ONSET_CAPABLE_INITIATING_EVIDENCE] else [])),
          decisive_evidence = (if st = FIRED then sorted_set (concat (map witness_evidence ws)) else []),
          support_explanation = causal_explanation h,
          support_shapes = (if st = FIRED then path_shape h else []),
          witnesses = ws\<rparr>)"

section \<open>Epistemic state of a claim\<close>

record assessment =
  assessed_state :: epistemic_state
  assessed_reasons :: "reason_code list"
  hard_contradictions :: "finding list"

definition VERIFICATION_ONSET_GRACE :: duration where
  "VERIFICATION_ONSET_GRACE = 15 * minute"

text \<open>\<open>onset_grace or RankingConfig().verification_onset_grace\<close>: a zero grace counts as none given.\<close>

definition effective_grace :: "duration option \<Rightarrow> duration" where
  "effective_grace g =
     (case g of None \<Rightarrow> VERIFICATION_ONSET_GRACE
      | Some d \<Rightarrow> if d = 0 then VERIFICATION_ONSET_GRACE else d)"

definition local_contradictions :: "hypothesis \<Rightarrow> finding list" where
  "local_contradictions h = filter (\<lambda>f. f \<in> set (actor_findings h)) (contradictory_findings h)"

definition assess_hypothesis ::
  "(string \<Rightarrow> instant option) \<Rightarrow> timing_masks \<Rightarrow> duration option \<Rightarrow> hypothesis \<Rightarrow> assessment" where
  "assess_hypothesis fi masks g h =
     (let grace = effective_grace g; own = local_contradictions h;
          hard = filter (\<lambda>f. temporal_contradiction_certainty fi f grace = DEFINITELY_LATE) own
      in \<lparr>assessed_state =
            (if hard \<noteq> [] \<and> hypothesis_id h \<notin> set (temporal_mask masks) then CLAIM_CONTRADICTED
             else if own \<noteq> [] then CLAIM_UNRESOLVED
             else if support_status (change_onset_path_support h) = FIRED then CLAIM_SUPPORTED
             else CLAIM_UNRESOLVED),
          assessed_reasons = dedup
            ((if \<not> admitted h then [NO_CAUSAL_SYMPTOM_LINK] else [])
             @ (if \<not> has_aligned_initiating h then [NO_ONSET_CAPABLE_INITIATING_EVIDENCE] else [])
             @ (if own \<noteq> [] then [EXPLICIT_TEMPORAL_CONTRADICTION] else [])),
          hard_contradictions = hard\<rparr>)"

definition hypothesis_evidence :: "hypothesis \<Rightarrow> string list" where
  "hypothesis_evidence h = sorted_set (concat (map evidence_ids (findings h)))"

text \<open>No finding of one claim explains an independent actor's claim.\<close>

definition dominates :: "hypothesis \<Rightarrow> hypothesis \<Rightarrow> bool" where
  "dominates stronger weaker = False"

section \<open>Records of elimination\<close>

fun certainty_text :: "certainty \<Rightarrow> string" where
  "certainty_text NOT_LATE = ''NOT_LATE''"
| "certainty_text DEFINITELY_LATE = ''DEFINITELY_LATE''"
| "certainty_text INTERVAL_UNCERTAIN = ''INTERVAL_UNCERTAIN''"
| "certainty_text UNKNOWN_CERTAINTY = ''UNKNOWN''"

fun basis_value :: "end_basis \<Rightarrow> string" where
  "basis_value TERMINATED = ''TERMINATED''"
| "basis_value RECOVERED = ''RECOVERED''"

definition TEMPORAL_CONTRADICTION_RULE :: "string \<times> string" where
  "TEMPORAL_CONTRADICTION_RULE = (''m16.temporal-contradiction'', ''v1'')"

definition PROPAGATED_EFFECT_RULE :: "string \<times> string" where
  "PROPAGATED_EFFECT_RULE = (''m16.root-eligibility-propagated-effect'', ''v1'')"

definition EPISODE_END_RULE :: "string \<times> string" where
  "EPISODE_END_RULE = (RULE_ID, RULE_VERSION)"

definition RESOURCE_PRESSURE_RULE :: "string \<times> string" where
  "RESOURCE_PRESSURE_RULE = (''m16.resource-pressure'', ''v1'')"

definition time_basis_of :: "(string \<Rightarrow> instant option) \<Rightarrow> duration \<Rightarrow> finding \<Rightarrow> time_basis" where
  "time_basis_of fi grace f =
     (let by_interval = finding_kind f \<in> OBJECT_CHANGE_KINDS \<and> \<not> truthy (initiating_value f) in
      \<lparr>basis_evidence = evidence_ids f, basis_onset = incident_onset f,
       basis_boundary = map_option (\<lambda>t. t + grace) (incident_onset f),
       basis_causal_time = (if by_interval then None else causal_time fi f),
       interval_start = (if by_interval then parse_time fi (dict_value (details f) ''previous_observed_at'') else None),
       interval_end = (if by_interval then at f else None),
       basis_certainty = certainty_text (temporal_contradiction_certainty fi f grace), basis_target = []\<rparr>)"

definition elimination_for ::
  "(string \<Rightarrow> instant option) \<Rightarrow> duration option \<Rightarrow> hypothesis \<Rightarrow> assessment \<Rightarrow> elimination result" where
  "elimination_for fi g h a =
     (let grace = effective_grace g; hard = hard_contradictions a in
      if assessed_state a \<noteq> CLAIM_CONTRADICTED \<or> hard = []
      then Inl (ValueError ''contradiction elimination requires positive hard contradiction evidence'')
      else Inr
        \<lparr>eliminated_id = hypothesis_id h, elimination_code = EXPLICIT_TEMPORAL_CONTRADICTION,
         elimination_evidence = sorted_set (concat (map evidence_ids hard)),
         elimination_rule = fst TEMPORAL_CONTRADICTION_RULE, elimination_version = snd TEMPORAL_CONTRADICTION_RULE,
         elimination_consequence = CONTRADICTION, elimination_targets = [canonical (causal_actor h)],
         elimination_mechanism = ''INITIATING_TIMING'', elimination_observations = [],
         elimination_basis = map (time_basis_of fi grace) hard,
         elimination_preconditions =
           [\<lparr>precondition_name = ''positive_contradictory_finding'',
             precondition_passed = list_all (\<lambda>f. f \<in> set (contradictory_findings h)) hard\<rparr>,
            \<lparr>precondition_name = ''definitely_late_beyond_onset_grace'',
             precondition_passed =
               list_all (\<lambda>f. temporal_contradiction_certainty fi f grace = DEFINITELY_LATE) hard\<rparr>],
         elimination_decisive = []\<rparr>)"

definition legacy_elimination_reason :: "elimination \<Rightarrow> string result" where
  "legacy_elimination_reason e =
     (case elimination_code e of
        POSITIVELY_EXPLAINED_OBSERVATION \<Rightarrow>
          Inr (eliminated_id e @ '': positively explained rejection observation'')
      | EXPLICIT_TEMPORAL_CONTRADICTION \<Rightarrow> Inr (eliminated_id e @ '': contradictory evidence'')
      | ROOT_CAUSE_INELIGIBLE_PROPAGATED_EFFECT \<Rightarrow>
          Inr (eliminated_id e @ '': root-cause ineligible propagated effect'')
      | OBSERVED_NORMAL_MECHANISM_MISMATCH \<Rightarrow>
          Inr (eliminated_id e @ '': required mechanism observed normal'')
      | MANIFESTATION_EPISODE_ENDED_BEFORE_ONSET \<Rightarrow>
          Inr (eliminated_id e @ '': manifestation episode ended before onset'')
      | c \<Rightarrow> Inl (ValueError (''non-eliminative reason code cannot be emitted as an elimination: '' @ code_value c)))"

definition root_cause_eligibility_elimination :: "hypothesis \<Rightarrow> root_eligibility \<Rightarrow> elimination" where
  "root_cause_eligibility_elimination h e =
     \<lparr>eliminated_id = hypothesis_id h, elimination_code = ROOT_CAUSE_INELIGIBLE_PROPAGATED_EFFECT,
      elimination_evidence = dedup (elig_propagation_evidence e @ elig_initiating_evidence e),
      elimination_rule = fst PROPAGATED_EFFECT_RULE, elimination_version = snd PROPAGATED_EFFECT_RULE,
      elimination_consequence = ROOT_INELIGIBILITY, elimination_targets = [canonical (elig_actor e)],
      elimination_mechanism = ''RUNTIME_PROPAGATION'', elimination_observations = elig_propagation_evidence e,
      elimination_basis = [],
      elimination_preconditions =
        [\<lparr>precondition_name = ''propagated_or_manifestation_role'',
          precondition_passed = (elig_role e \<in> {PROPAGATED_EFFECT, MANIFESTATION})\<rparr>,
         \<lparr>precondition_name = ''verified_incoming_propagation'',
          precondition_passed = (elig_incoming_edges e > 0)\<rparr>,
         \<lparr>precondition_name = ''no_episode_source_capable_initiating_evidence'',
          precondition_passed = (elig_initiating e = 0)\<rparr>],
      elimination_decisive = []\<rparr>"

definition mechanism_elimination :: "mechanism_mismatch \<Rightarrow> elimination" where
  "mechanism_elimination m =
     (let covered = map coverage_evidence (mismatch_coverage m) in
      \<lparr>eliminated_id = mismatch_hypothesis m, elimination_code = OBSERVED_NORMAL_MECHANISM_MISMATCH,
       elimination_evidence = change_evidence m @ covered,
       elimination_rule = fst RESOURCE_PRESSURE_RULE, elimination_version = snd RESOURCE_PRESSURE_RULE,
       elimination_consequence = CONTRADICTION,
       elimination_targets = canonical (mismatch_actor m) # map canonical (mismatch_pods m),
       elimination_mechanism = ''RESOURCE_PRESSURE'', elimination_observations = covered,
       elimination_basis = map (\<lambda>i.
         \<lparr>basis_evidence = [coverage_evidence i], basis_onset = Some (mismatch_onset m),
          basis_boundary = Some (mismatch_boundary m), basis_causal_time = None,
          interval_start = Some (coverage_start i), interval_end = Some (coverage_end i),
          basis_certainty = ''OBSERVED_NORMAL peak='' @ format3 (coverage_peak i), basis_target = []\<rparr>) (mismatch_coverage m),
       elimination_preconditions = mismatch_preconditions m, elimination_decisive = dedup covered\<rparr>)"

definition ended_episode_elimination :: "ended_episode \<Rightarrow> elimination" where
  "ended_episode_elimination e =
     (let end_ids = dedup (map end_evidence (instances e)) in
      \<lparr>eliminated_id = ended_hypothesis e, elimination_code = MANIFESTATION_EPISODE_ENDED_BEFORE_ONSET,
       elimination_evidence = dedup (manifestation_evidence e @ end_ids),
       elimination_rule = fst EPISODE_END_RULE, elimination_version = snd EPISODE_END_RULE,
       elimination_consequence = ROOT_INELIGIBILITY, elimination_targets = [canonical (ended_actor e)],
       elimination_mechanism = ''EPISODE_TIMING'', elimination_observations = end_ids,
       elimination_basis = map (\<lambda>i.
         \<lparr>basis_evidence = [end_evidence i], basis_onset = Some (ended_onset e),
          basis_boundary = Some (ended_boundary e), basis_causal_time = None,
          interval_start = Some (end_at i), interval_end = Some (end_observed i),
          basis_certainty = basis_value (end_basis i), basis_target = end_target i\<rparr>) (instances e),
       elimination_preconditions =
         map (\<lambda>n. \<lparr>precondition_name = n, precondition_passed = True\<rparr>) (passed_preconditions e),
       elimination_decisive = dedup (concat (map decisive (instances e)))\<rparr>)"

definition explanation_elimination :: "string \<times> explanation \<Rightarrow> elimination" where
  "explanation_elimination kr =
     (case kr of (i, r) \<Rightarrow>
        \<lparr>eliminated_id = i, elimination_code = POSITIVELY_EXPLAINED_OBSERVATION,
         elimination_evidence = explanation_evidence r, elimination_rule = explanation_rule r,
         elimination_version = explanation_version r, elimination_consequence = ROOT_INELIGIBILITY,
         elimination_targets = [canonical (explained_manifestation r)],
         elimination_mechanism = explanation_mechanism r, elimination_observations = explained_evidence r,
         elimination_basis = [], elimination_preconditions = [],
         elimination_decisive = explanation_evidence r\<rparr>)"

section \<open>What distinguishes the selected claim\<close>

definition codes_text :: "elimination list \<Rightarrow> string" where
  "codes_text es = joined '', '' (sorted_set (map (code_value \<circ> elimination_code) es))"

definition eligibility_discriminator :: "hypothesis \<Rightarrow> hypothesis list \<Rightarrow> elimination list \<Rightarrow> discriminator" where
  "eligibility_discriminator selected excluded es =
     \<lparr>discriminator_kind = ''ROOT_CAUSE_ELIGIBILITY'',
      discriminator_hypotheses = take MAX_TRACE_ITEMS (map hypothesis_id (selected # excluded)),
      discriminator_evidence = take 12 (dedup (concat (map elimination_evidence es))),
      discriminator_kinds = kind_values (findings selected), temporal_relations = [],
      discriminator_shapes = [],
      discriminator_detail =
        ''competing hypotheses were excluded from root-cause competition by positive root-eligibility evidence: ''
        @ codes_text es\<rparr>"

definition make_discriminator :: "string \<Rightarrow> hypothesis list \<Rightarrow> string \<Rightarrow> discriminator" where
  "make_discriminator k hs txt =
     \<lparr>discriminator_kind = k, discriminator_hypotheses = map hypothesis_id hs,
      discriminator_evidence = take 12 (sorted_set (concat (map hypothesis_evidence hs))),
      discriminator_kinds = kind_values (concat (map findings hs)),
      temporal_relations = sorted_set (concat (map (temporal_profile \<circ> hypothesis_signature) hs)),
      discriminator_shapes = take 8 (concat (map (causal_path_shape \<circ> hypothesis_signature) hs)),
      discriminator_detail = txt\<rparr>"

definition dominance_relation :: "hypothesis \<Rightarrow> hypothesis \<Rightarrow> dominance" where
  "dominance_relation stronger weaker =
     (let own = hypothesis_evidence stronger;
          more = filter (\<lambda>e. e \<notin> set (hypothesis_evidence weaker)) own
      in \<lparr>stronger_hypothesis = hypothesis_id stronger, weaker_hypothesis = hypothesis_id weaker,
          dominance_evidence = take 12 (if more \<noteq> [] then more else own),
          dominance_detail = ''additional onset-capable evidence explains the weaker hypothesis's manifestation; score and identity ordering were not used''\<rparr>)"

section \<open>Audits\<close>

definition audit_item ::
  "(string \<Rightarrow> instant option) \<Rightarrow> timing_masks \<Rightarrow> duration option \<Rightarrow> hypothesis \<Rightarrow> resolution_audit" where
  "audit_item fi masks g h =
     (let a = assess_hypothesis fi masks g h; sg = hypothesis_signature h in
      \<lparr>audit_hypothesis = hypothesis_id h, audit_signature = sg, audit_state = assessed_state a,
       audit_plausible = (assessed_state a = CLAIM_SUPPORTED), plausibility_reasons = assessed_reasons a,
       contradictory_evidence = take 12 (sort (concat (map evidence_ids (contradictory_findings h)))),
       onset_relation = temporal_profile sg, causal_linkage = causal_explanation h, precondition_audit = [],
       root_support = [change_onset_path_support h],
       audit_admission = (if admitted h then ''ADMITTED'' else ''OBSERVED_CONTEXT''),
       audit_admission_reasons = admission_reasons h, audit_family = causal_family_id h\<rparr>)"

definition audit_items ::
  "(string \<Rightarrow> instant option) \<Rightarrow> timing_masks \<Rightarrow> duration option \<Rightarrow> string list \<Rightarrow> hypothesis list
   \<Rightarrow> resolution_audit list" where
  "audit_items fi masks g focus hs =
     (let focused = filter (\<lambda>h. hypothesis_id h \<in> set focus) hs;
          remaining = filter (\<lambda>h. hypothesis_id h \<notin> hypothesis_id ` set focused) (sort_key hypothesis_id hs)
      in map (audit_item fi masks g) (focused @ remaining))"

definition attach_audits ::
  "(string \<Rightarrow> instant option) \<Rightarrow> timing_masks \<Rightarrow> duration option \<Rightarrow> hypothesis list \<Rightarrow> resolution_trace
   \<Rightarrow> resolution_trace" where
  "attach_audits fi masks g hs tr =
     tr\<lparr>hypothesis_audits := audit_items fi masks g
          (dedup (leading_hypotheses tr @ map hypothesis_id (take MAX_TRACE_ITEMS hs))) hs\<rparr>"

section \<open>Causal families\<close>

definition family_of :: "hypothesis \<Rightarrow> string" where
  "family_of h = (if causal_family_id h \<noteq> [] then causal_family_id h else hypothesis_id h)"

definition family_groups :: "hypothesis list \<Rightarrow> (string \<times> hypothesis list) list" where
  "family_groups hs = sort_key fst (group_by family_of (\<lambda>h. h) (filter admitted hs) [])"

definition with_ids :: "string list \<Rightarrow> hypothesis list \<Rightarrow> hypothesis list" where
  "with_ids ids hs = filter (\<lambda>h. hypothesis_id h \<in> set ids) hs"

definition instance_resolution_of :: "hypothesis list \<Rightarrow> instance_resolution" where
  "instance_resolution_of viable =
     (if list_ex (\<lambda>h. actor_instance h = None) viable then UNKNOWN_INSTANCE
      else if length viable = 1 then EXACT else MULTIPLE_VIABLE)"

definition build_family ::
  "string list \<Rightarrow> string list \<Rightarrow> string list \<Rightarrow> string \<times> hypothesis list \<Rightarrow> causal_family" where
  "build_family supported_ids unresolved_ids excluded_ids fam =
     (case fam of (fid, ms) \<Rightarrow>
        let sup = with_ids supported_ids ms; unr = with_ids unresolved_ids ms; exc = with_ids excluded_ids ms;
            ids = sort \<circ> map hypothesis_id
        in \<lparr>family_id = fid, family_actor = causal_actor (hd ms), family_mechanism = mechanism_family (hd ms),
            family_state = (if sup \<noteq> [] then FAMILY_SUPPORTED
                            else if unr \<noteq> [] then FAMILY_UNRESOLVED else FAMILY_EXCLUDED),
            instance_resolution = instance_resolution_of (if sup @ unr \<noteq> [] then sup @ unr else ms),
            family_members = ids ms, supported_members = ids sup, unresolved_members = ids unr,
            excluded_members = ids exc,
            representative = (case sup @ unr of [] \<Rightarrow> None
              | _ \<Rightarrow> Some (hypothesis_id (hd (if sup \<noteq> [] then sup else unr))))\<rparr>)"

definition build_families ::
  "hypothesis list \<Rightarrow> hypothesis list \<Rightarrow> hypothesis list \<Rightarrow> string list \<Rightarrow> causal_family list" where
  "build_families hs supported unresolved excluded_ids =
     map (build_family (map hypothesis_id supported) (map hypothesis_id unresolved) excluded_ids) (family_groups hs)"

section \<open>The contest\<close>

text \<open>
  What every claim is judged by: a dict from identifiers keeps the last of two claims that share one.
\<close>

definition claim_by_id :: "hypothesis list \<Rightarrow> string \<Rightarrow> hypothesis option" where
  "claim_by_id hs = map_of (rev (map (\<lambda>h. (hypothesis_id h, h)) hs))"

definition assessment_in ::
  "(string \<Rightarrow> instant option) \<Rightarrow> timing_masks \<Rightarrow> duration option \<Rightarrow> hypothesis list \<Rightarrow> hypothesis
   \<Rightarrow> assessment" where
  "assessment_in fi masks g hs h =
     assess_hypothesis fi masks g (case claim_by_id hs (hypothesis_id h) of None \<Rightarrow> h | Some h' \<Rightarrow> h')"

record contest =
  supported :: "hypothesis list"
  unresolved :: "hypothesis list"
  contradicted :: "hypothesis list"
  mismatched :: "hypothesis list"
  excluded :: "hypothesis list"

definition propagated_effect :: "root_eligibilities \<Rightarrow> hypothesis \<Rightarrow> root_eligibility option" where
  "propagated_effect el h =
     (case eligibility_for el (hypothesis_id h) of
        Some e \<Rightarrow> if elig_state e = INELIGIBLE_PROPAGATED_EFFECT then Some e else None
      | None \<Rightarrow> None)"

definition is_excluded :: "root_eligibilities option \<Rightarrow> hypothesis \<Rightarrow> bool" where
  "is_excluded elo h \<longleftrightarrow>
     (case elo of None \<Rightarrow> False
      | Some el \<Rightarrow> propagated_effect el h \<noteq> None \<or> ended_for el (hypothesis_id h) \<noteq> None)"

definition contest_of ::
  "(string \<Rightarrow> instant option) \<Rightarrow> timing_masks \<Rightarrow> duration option \<Rightarrow> root_eligibilities option
   \<Rightarrow> (string \<times> mechanism_mismatch) list \<Rightarrow> (string \<times> explanation) list \<Rightarrow> hypothesis list \<Rightarrow> contest" where
  "contest_of fi masks g elo mm explained hs =
     (let st = (\<lambda>h. assessed_state (assessment_in fi masks g hs h));
          sup = sort_key hypothesis_id (filter (\<lambda>h. st h = CLAIM_SUPPORTED) hs);
          unr = sort_key hypothesis_id (filter (\<lambda>h. admitted h \<and> st h = CLAIM_UNRESOLVED) hs);
          con = sort_key hypothesis_id (filter (\<lambda>h. st h = CLAIM_CONTRADICTED) hs);
          mis = filter (\<lambda>h. hypothesis_id h \<in> fst ` set mm) (sup @ unr);
          exc = filter (is_excluded elo) hs;
          selectable = filter (\<lambda>h. h \<notin> set mis \<and> h \<notin> set exc \<and> hypothesis_id h \<notin> fst ` set explained)
      in \<lparr>supported = selectable sup, unresolved = selectable unr, contradicted = con,
          mismatched = mis, excluded = exc\<rparr>)"

definition contradiction_eliminations ::
  "(string \<Rightarrow> instant option) \<Rightarrow> timing_masks \<Rightarrow> duration option \<Rightarrow> (string \<times> mechanism_mismatch) list
   \<Rightarrow> hypothesis list \<Rightarrow> contest \<Rightarrow> elimination list result" where
  "contradiction_eliminations fi masks g mm hs c =
     and_then (traverse (\<lambda>h. elimination_for fi g h (assessment_in fi masks g hs h)) (contradicted c)) (\<lambda>a.
     and_then (traverse (\<lambda>h. and_then (get_key (hypothesis_id h) mm) (Inr \<circ> mechanism_elimination))
                 (mismatched c)) (\<lambda>b. Inr (a @ b)))"

definition exclusion_elimination :: "root_eligibilities \<Rightarrow> hypothesis \<Rightarrow> elimination option" where
  "exclusion_elimination el h =
     (case propagated_effect el h of
        Some e \<Rightarrow> Some (root_cause_eligibility_elimination h e)
      | None \<Rightarrow> map_option ended_episode_elimination (ended_for el (hypothesis_id h)))"

definition exclusion_eliminations :: "root_eligibilities option \<Rightarrow> contest \<Rightarrow> elimination list" where
  "exclusion_eliminations elo c =
     (case elo of None \<Rightarrow> [] | Some el \<Rightarrow> List.map_filter (exclusion_elimination el) (excluded c))"

definition eliminated_ids :: "(string \<times> explanation) list \<Rightarrow> contest \<Rightarrow> string list" where
  "eliminated_ids explained c =
     map hypothesis_id (contradicted c @ mismatched c @ excluded c) @ map fst explained"

section \<open>The decision\<close>

definition OPEN_DIMENSIONS :: "string list" where
  "OPEN_DIMENSIONS = [''causal_actor_identity'', ''initiating_evidence_source'', ''symptom_attribution'']"

definition dominance_relations_of :: "hypothesis list \<Rightarrow> dominance list" where
  "dominance_relations_of sups =
     concat (map (\<lambda>a. map (dominance_relation a)
       (filter (\<lambda>b. hypothesis_id a \<noteq> hypothesis_id b \<and> dominates a b) sups)) sups)"

definition dominators :: "hypothesis list \<Rightarrow> hypothesis list" where
  "dominators sups = filter (\<lambda>a. list_all (\<lambda>b. hypothesis_id a = hypothesis_id b \<or> dominates a b) sups) sups"

definition undominated :: "hypothesis list \<Rightarrow> hypothesis list" where
  "undominated sups =
     filter (\<lambda>a. \<not> list_ex (\<lambda>b. hypothesis_id b \<noteq> hypothesis_id a \<and> dominates b a) sups) sups"

text \<open>The single supported family: its representative is selected, and the basis says what excluded the others.\<close>

definition selection_basis ::
  "contest \<Rightarrow> elimination list \<Rightarrow> elimination list \<Rightarrow> hypothesis \<Rightarrow> string \<times> discriminator" where
  "selection_basis c by_eligibility es selected =
     (let contradictions = filter (\<lambda>e. elimination_code e
            \<in> {EXPLICIT_TEMPORAL_CONTRADICTION, OBSERVED_NORMAL_MECHANISM_MISMATCH}) es
      in if excluded c \<noteq> []
         then (''ROOT_CAUSE_ELIGIBILITY'', eligibility_discriminator selected (excluded c) by_eligibility)
         else if contradictions \<noteq> []
         then (''VALID_CONTRADICTION'', make_discriminator ''VALID_CONTRADICTION'' [selected]
                 (''all competing hypotheses were excluded by positive contradiction: '' @ codes_text contradictions))
         else (''ONLY_ONE_PLAUSIBLE'', make_discriminator ''ONLY_ONE_PLAUSIBLE'' [selected]
                 ''all alternatives failed a causal linkage or onset-capable evidence predicate''))"

definition selected_claim :: "hypothesis list \<Rightarrow> hypothesis list \<Rightarrow> causal_family \<Rightarrow> hypothesis result" where
  "selected_claim hs sups f =
     get_key (case representative f of
                Some (x # xs) \<Rightarrow> x # xs
              | _ \<Rightarrow> hypothesis_id (hd sups))
       (rev (map (\<lambda>h. (hypothesis_id h, h)) hs))"

definition dominance_discriminators ::
  "hypothesis list \<Rightarrow> dominance list \<Rightarrow> hypothesis \<Rightarrow> discriminator list result" where
  "dominance_discriminators hs rels selected =
     traverse (\<lambda>r. and_then (get_key (weaker_hypothesis r) (rev (map (\<lambda>h. (hypothesis_id h, h)) hs))) (\<lambda>w.
         Inr (make_discriminator ''VALID_DOMINANCE'' [selected, w] (dominance_detail r))))
       (take MAX_TRACE_ITEMS (filter (\<lambda>r. stronger_hypothesis r = hypothesis_id selected) rels))"

definition decide ::
  "hypothesis list \<Rightarrow> contest \<Rightarrow> elimination list \<Rightarrow> elimination list \<Rightarrow> resolution_trace
   \<Rightarrow> resolution_trace result" where
  "decide hs c by_eligibility es base =
     (let sups = supported c; unr = unresolved c;
          families = (\<lambda>s. filter (\<lambda>f. family_state f = s) (causal_families base));
          rels = dominance_relations_of sups; shown = take MAX_TRACE_ITEMS rels
      in if sups = [] \<and> unr \<noteq> []
      then Inr (base\<lparr>trace_state := INSUFFICIENT_EVIDENCE,
             decision_basis := ''NO_SUPPORTED_HYPOTHESIS_WITH_UNRESOLVED_ALTERNATIVES''\<rparr>)
      else if sups = []
      then Inr (base\<lparr>trace_state := INSUFFICIENT_EVIDENCE,
             decision_basis := (if excluded c \<noteq> [] then ''NO_ROOT_CAUSE_ELIGIBLE_HYPOTHESIS''
                                else ''NO_PLAUSIBLE_HYPOTHESIS'')\<rparr>)
      else if families FAMILY_UNRESOLVED \<noteq> []
      then Inr (base\<lparr>trace_state := AMBIGUOUS,
             leading_hypotheses := sort (map hypothesis_id (sups @ unr)),
             unresolved_dimensions := OPEN_DIMENSIONS, dominance_relations := shown,
             decision_basis := ''UNRESOLVED_CAUSAL_ALTERNATIVE''\<rparr>)
      else case families FAMILY_SUPPORTED of
        [f] \<Rightarrow>
          and_then (selected_claim hs sups f) (\<lambda>selected.
            case selection_basis c by_eligibility es selected of (basis, d) \<Rightarrow>
              Inr (base\<lparr>trace_state := RESOLVED, leading_hypotheses := [hypothesis_id selected],
                distinguishing_facts := [discriminator_detail d], discriminators := [d],
                dominance_relations := shown, decision_basis := basis\<rparr>))
      | _ \<Rightarrow>
          (case dominators sups of
             [selected] \<Rightarrow>
               and_then (dominance_discriminators hs rels selected) (\<lambda>ds.
                 Inr (base\<lparr>trace_state := RESOLVED, leading_hypotheses := [hypothesis_id selected],
                   distinguishing_facts := map discriminator_detail ds, discriminators := ds,
                   dominance_relations := shown, decision_basis := ''VALID_DOMINANCE''\<rparr>))
           | _ \<Rightarrow>
               Inr (base\<lparr>trace_state := AMBIGUOUS, leading_hypotheses := map hypothesis_id (undominated sups),
                 unresolved_dimensions := OPEN_DIMENSIONS, dominance_relations := shown,
                 decision_basis := ''EQUIVALENT_OR_INCOMPARABLE_PLAUSIBLE_HYPOTHESES''\<rparr>)))"

definition base_trace ::
  "hypothesis list \<Rightarrow> contest \<Rightarrow> string list \<Rightarrow> elimination list \<Rightarrow> string list \<Rightarrow> resolution_trace" where
  "base_trace hs c out es texts =
     (default_trace INSUFFICIENT_EVIDENCE)
       \<lparr>causal_families := build_families hs (supported c) (unresolved c) out,
        considered_hypotheses := sort (map hypothesis_id hs),
        plausible_hypotheses := map hypothesis_id (supported c),
        unresolved_hypotheses := map hypothesis_id (unresolved c),
        eliminated_hypotheses := sorted_set out, elimination_reasons := texts, eliminations := es,
        signatures := map hypothesis_signature (supported c)\<rparr>"

definition resolve ::
  "(string \<Rightarrow> instant option) \<Rightarrow> timing_masks \<Rightarrow> duration option \<Rightarrow> root_eligibilities option
   \<Rightarrow> (string \<times> mechanism_mismatch) list \<Rightarrow> (string \<times> explanation) list \<Rightarrow> hypothesis list
   \<Rightarrow> resolution_trace result" where
  "resolve fi masks g elo mm explained hs =
     (if hs = [] then Inr ((default_trace INSUFFICIENT_EVIDENCE)\<lparr>decision_basis := ''NO_PLAUSIBLE_HYPOTHESIS''\<rparr>)
      else
        (let c = contest_of fi masks g elo mm explained hs;
             by_eligibility = exclusion_eliminations elo c
         in and_then (contradiction_eliminations fi masks g mm hs c) (\<lambda>contradictions.
            let es = contradictions @ by_eligibility @ map explanation_elimination (sort_key fst explained)
            in and_then (traverse legacy_elimination_reason es) (\<lambda>texts.
               and_then (decide hs c by_eligibility es (base_trace hs c (eliminated_ids explained c) es texts))
                 (\<lambda>tr. Inr (attach_audits fi masks g hs tr))))))"

end
