(* ===== verification/Resolution_Correct.thy ===== *)
theory Resolution_Correct
  imports Resolution "HOL-Library.Multiset"
begin

text \<open>
  What a resolution promises: it never raises; its outcome is fixed by which claims are supported,
  unresolved or positively eliminated, and by their families, never by the order of the hypotheses;
  every elimination rests on positive evidence; and a timing mask never makes a claim win.
\<close>

section \<open>One claim\<close>

lemma change_witnesses_iff:
  "w \<in> set (change_witnesses h) \<longleftrightarrow>
     (\<exists>f link. f \<in> set (initiating_changes h) \<and> can_witness f \<and> link \<in> set (symptom_links h)
        \<and> w = change_witness h f link)"
  by (auto simp: change_witnesses_def)

lemma fired_iff:
  "support_status (change_onset_path_support h) = FIRED \<longleftrightarrow>
     admitted h \<and> (\<exists>f\<in>set (initiating_changes h). can_witness f)"
proof -
  have "change_witnesses h \<noteq> [] \<longleftrightarrow> (\<exists>f\<in>set (initiating_changes h). can_witness f) \<and> symptom_links h \<noteq> []"
    using change_witnesses_iff [of _ h] by (auto simp: neq_Nil_conv change_witnesses_def filter_empty_conv)
  then show ?thesis
    by (auto simp: change_onset_path_support_def Let_def admitted_def)
qed

definition late_contradictions ::
  "(string \<Rightarrow> instant option) \<Rightarrow> duration option \<Rightarrow> hypothesis \<Rightarrow> finding list" where
  "late_contradictions fi g h =
     filter (\<lambda>f. temporal_contradiction_certainty fi f (effective_grace g) = DEFINITELY_LATE)
       (local_contradictions h)"

lemma hard_contradictions_assess [simp]:
  "hard_contradictions (assess_hypothesis fi masks g h) = late_contradictions fi g h"
  by (simp add: assess_hypothesis_def Let_def late_contradictions_def)

lemma contradicted_iff:
  "assessed_state (assess_hypothesis fi masks g h) = CLAIM_CONTRADICTED \<longleftrightarrow>
     late_contradictions fi g h \<noteq> [] \<and> hypothesis_id h \<notin> set (temporal_mask masks)"
  by (simp add: assess_hypothesis_def Let_def late_contradictions_def)

lemma supported_iff:
  "assessed_state (assess_hypothesis fi masks g h) = CLAIM_SUPPORTED \<longleftrightarrow>
     local_contradictions h = [] \<and> admitted h \<and> (\<exists>f\<in>set (initiating_changes h). can_witness f)"
  by (auto simp: assess_hypothesis_def Let_def fired_iff)

text \<open>A configured grace of zero is read as no configuration: the default of fifteen minutes applies.\<close>

lemma zero_grace_is_ignored: "effective_grace (Some 0) = effective_grace None"
  by (simp add: effective_grace_def)

lemma supported_admitted:
  "assessed_state (assess_hypothesis fi masks g h) = CLAIM_SUPPORTED \<Longrightarrow> admitted h"
  by (simp add: supported_iff)

section \<open>The contest\<close>

lemma claim_by_id_Some: "claim_by_id hs i = Some h \<Longrightarrow> h \<in> set hs \<and> hypothesis_id h = i"
  by (auto simp: claim_by_id_def dest!: map_of_SomeD)

lemma claim_by_id_distinct:
  assumes "distinct (map hypothesis_id hs)" "h \<in> set hs"
  shows "claim_by_id hs (hypothesis_id h) = Some h"
proof -
  have "distinct (map fst (rev (map (\<lambda>h. (hypothesis_id h, h)) hs)))"
    using assms(1) by (simp flip: rev_map add: o_def)
  with assms(2) show ?thesis unfolding claim_by_id_def by (intro map_of_is_SomeI) auto
qed

lemma assessment_in_distinct [simp]:
  "distinct (map hypothesis_id hs) \<Longrightarrow> h \<in> set hs \<Longrightarrow>
     assessment_in fi masks g hs h = assess_hypothesis fi masks g h"
  by (simp add: assessment_in_def claim_by_id_distinct)

text \<open>A claim no elimination rule but contradiction takes out of the competition.\<close>

definition selectable ::
  "root_eligibilities option \<Rightarrow> (string \<times> mechanism_mismatch) list \<Rightarrow> (string \<times> explanation) list
   \<Rightarrow> hypothesis \<Rightarrow> bool" where
  "selectable elo mm explained h \<longleftrightarrow> hypothesis_id h \<notin> fst ` set mm \<and> \<not> is_excluded elo h
     \<and> hypothesis_id h \<notin> fst ` set explained"

definition stands_supported ::
  "(string \<Rightarrow> instant option) \<Rightarrow> timing_masks \<Rightarrow> duration option \<Rightarrow> root_eligibilities option
   \<Rightarrow> (string \<times> mechanism_mismatch) list \<Rightarrow> (string \<times> explanation) list \<Rightarrow> hypothesis \<Rightarrow> bool" where
  "stands_supported fi masks g elo mm explained h \<longleftrightarrow>
     assessed_state (assess_hypothesis fi masks g h) = CLAIM_SUPPORTED \<and> selectable elo mm explained h"

definition stands_unresolved ::
  "(string \<Rightarrow> instant option) \<Rightarrow> timing_masks \<Rightarrow> duration option \<Rightarrow> root_eligibilities option
   \<Rightarrow> (string \<times> mechanism_mismatch) list \<Rightarrow> (string \<times> explanation) list \<Rightarrow> hypothesis \<Rightarrow> bool" where
  "stands_unresolved fi masks g elo mm explained h \<longleftrightarrow> admitted h
     \<and> assessed_state (assess_hypothesis fi masks g h) = CLAIM_UNRESOLVED \<and> selectable elo mm explained h"


lemma contest_subset:
  "set (supported (contest_of fi masks g elo mm explained hs)) \<subseteq> set hs"
  "set (contradicted (contest_of fi masks g elo mm explained hs))
     = {h \<in> set hs. assessed_state (assessment_in fi masks g hs h) = CLAIM_CONTRADICTED}"
  "set (mismatched (contest_of fi masks g elo mm explained hs)) \<subseteq> {h. hypothesis_id h \<in> fst ` set mm}"
  by (auto simp: contest_of_def Let_def)

lemma contest_distinct_ids:
  assumes "distinct (map hypothesis_id hs)"
  shows "distinct (map hypothesis_id (supported (contest_of fi masks g elo mm explained hs)))"
    "distinct (map hypothesis_id (unresolved (contest_of fi masks g elo mm explained hs)))"
  using assms by (auto simp: contest_of_def Let_def distinct_map inj_on_def)

lemma contest_sets:
  fixes fi masks g elo mm explained hs
  assumes ids: "distinct (map hypothesis_id hs)"
  defines "c \<equiv> contest_of fi masks g elo mm explained hs"
  shows "set (supported c) = {h \<in> set hs. stands_supported fi masks g elo mm explained h}"
    and "set (unresolved c) = {h \<in> set hs. stands_unresolved fi masks g elo mm explained h}"
    and "set (contradicted c) =
      {h \<in> set hs. assessed_state (assess_hypothesis fi masks g h) = CLAIM_CONTRADICTED}"
    and "set (mismatched c) = {h \<in> set hs. hypothesis_id h \<in> fst ` set mm \<and> admitted h
      \<and> assessed_state (assess_hypothesis fi masks g h) \<noteq> CLAIM_CONTRADICTED}"
    and "set (excluded c) = {h \<in> set hs. is_excluded elo h}"
proof -
  have st: "assessed_state (assess_hypothesis fi masks g h) \<noteq> CLAIM_CONTRADICTED \<longleftrightarrow>
      assessed_state (assess_hypothesis fi masks g h) = CLAIM_SUPPORTED
      \<or> assessed_state (assess_hypothesis fi masks g h) = CLAIM_UNRESOLVED" for h
    by (cases "assessed_state (assess_hypothesis fi masks g h)") auto
  show "set (supported c) = {h \<in> set hs. stands_supported fi masks g elo mm explained h}"
    "set (unresolved c) = {h \<in> set hs. stands_unresolved fi masks g elo mm explained h}"
    using ids
    by (auto simp: c_def contest_of_def Let_def stands_supported_def stands_unresolved_def selectable_def
        supported_admitted)
  show "set (contradicted c) =
      {h \<in> set hs. assessed_state (assess_hypothesis fi masks g h) = CLAIM_CONTRADICTED}"
    "set (excluded c) = {h \<in> set hs. is_excluded elo h}"
    using ids by (auto simp: c_def contest_of_def Let_def)
  show "set (mismatched c) = {h \<in> set hs. hypothesis_id h \<in> fst ` set mm \<and> admitted h
      \<and> assessed_state (assess_hypothesis fi masks g h) \<noteq> CLAIM_CONTRADICTED}"
    using ids by (auto simp: c_def contest_of_def Let_def st supported_admitted)
qed

section \<open>The records of elimination\<close>

text \<open>The elimination of a contradicted claim, when it does not raise.\<close>

definition temporal_elimination ::
  "(string \<Rightarrow> instant option) \<Rightarrow> timing_masks \<Rightarrow> duration option \<Rightarrow> hypothesis list \<Rightarrow> hypothesis
   \<Rightarrow> elimination" where
  "temporal_elimination fi masks g hs h =
     (case elimination_for fi g h (assessment_in fi masks g hs h) of Inr e \<Rightarrow> e)"

lemma elimination_for_contradicted:
  assumes "assessed_state (assessment_in fi masks g hs h) = CLAIM_CONTRADICTED"
  shows "elimination_for fi g h (assessment_in fi masks g hs h) = Inr (temporal_elimination fi masks g hs h)"
    and "eliminated_id (temporal_elimination fi masks g hs h) = hypothesis_id h"
    and "elimination_code (temporal_elimination fi masks g hs h) = EXPLICIT_TEMPORAL_CONTRADICTION"
  using assms
  by (auto simp: temporal_elimination_def elimination_for_def Let_def assessment_in_def contradicted_iff)

definition mismatch_eliminations ::
  "(string \<times> mechanism_mismatch) list \<Rightarrow> contest \<Rightarrow> elimination list" where
  "mismatch_eliminations mm c =
     map (\<lambda>h. mechanism_elimination (the (map_of mm (hypothesis_id h)))) (mismatched c)"

lemma contradiction_eliminations_eq:
  fixes fi masks g elo mm explained hs
  defines "c \<equiv> contest_of fi masks g elo mm explained hs"
  shows "contradiction_eliminations fi masks g mm hs c =
    Inr (map (temporal_elimination fi masks g hs) (contradicted c) @ mismatch_eliminations mm c)"
proof -
  have 1: "traverse (\<lambda>h. elimination_for fi g h (assessment_in fi masks g hs h)) (contradicted c)
      = Inr (map (temporal_elimination fi masks g hs) (contradicted c))"
    by (rule traverse_Inr) (use elimination_for_contradicted(1) in \<open>auto simp: c_def contest_subset\<close>)
  have 2: "traverse (\<lambda>h. and_then (get_key (hypothesis_id h) mm) (Inr \<circ> mechanism_elimination)) (mismatched c)
      = Inr (mismatch_eliminations mm c)"
    unfolding mismatch_eliminations_def
  proof (rule traverse_Inr)
    fix h assume "h \<in> set (mismatched c)"
    then obtain m where "map_of mm (hypothesis_id h) = Some m"
      using contest_subset(3) [of fi masks g elo mm explained hs] weak_map_of_SomeI
      by (fastforce simp: c_def)
    then show "and_then (get_key (hypothesis_id h) mm) (Inr \<circ> mechanism_elimination)
        = Inr (mechanism_elimination (the (map_of mm (hypothesis_id h))))"
      by (simp add: get_key_def)
  qed
  from 1 2 show ?thesis by (simp add: contradiction_eliminations_def)
qed

lemma elimination_codes [simp]:
  "elimination_code (mechanism_elimination m) = OBSERVED_NORMAL_MECHANISM_MISMATCH"
  "elimination_code (root_cause_eligibility_elimination h x) = ROOT_CAUSE_INELIGIBLE_PROPAGATED_EFFECT"
  "elimination_code (ended_episode_elimination e) = MANIFESTATION_EPISODE_ENDED_BEFORE_ONSET"
  "elimination_code (explanation_elimination kr) = POSITIVELY_EXPLAINED_OBSERVATION"
  by (simp_all add: mechanism_elimination_def root_cause_eligibility_elimination_def Let_def
      ended_episode_elimination_def explanation_elimination_def split: prod.split)

lemma exclusion_eliminations_code:
  assumes "e \<in> set (exclusion_eliminations elo c)"
  shows "elimination_code e \<in> {ROOT_CAUSE_INELIGIBLE_PROPAGATED_EFFECT, MANIFESTATION_EPISODE_ENDED_BEFORE_ONSET}"
  using assms
  by (auto simp: exclusion_eliminations_def List.map_filter_def exclusion_elimination_def split: option.splits)

text \<open>All records of elimination of one resolution.\<close>

definition all_eliminations ::
  "(string \<Rightarrow> instant option) \<Rightarrow> timing_masks \<Rightarrow> duration option \<Rightarrow> root_eligibilities option
   \<Rightarrow> (string \<times> mechanism_mismatch) list \<Rightarrow> (string \<times> explanation) list \<Rightarrow> hypothesis list
   \<Rightarrow> elimination list" where
  "all_eliminations fi masks g elo mm explained hs =
     (let c = contest_of fi masks g elo mm explained hs in
      map (temporal_elimination fi masks g hs) (contradicted c) @ mismatch_eliminations mm c
      @ exclusion_eliminations elo c @ map explanation_elimination (sort_key fst explained))"

lemma legacy_reasons_total:
  "\<exists>texts. traverse legacy_elimination_reason (all_eliminations fi masks g elo mm explained hs) = Inr texts"
proof -
  let ?es = "all_eliminations fi masks g elo mm explained hs"
  have "\<exists>t. legacy_elimination_reason e = Inr t" if "e \<in> set ?es" for e
  proof -
    from that have "elimination_code e \<notin> {NO_CAUSAL_SYMPTOM_LINK, NO_ONSET_CAPABLE_INITIATING_EVIDENCE,
        STRUCTURALLY_DOMINATED}"
      using exclusion_eliminations_code [of e elo] elimination_for_contradicted(3)
      by (auto simp: all_eliminations_def Let_def mismatch_eliminations_def contest_subset)
    then show ?thesis
      by (cases "elimination_code e") (auto simp: legacy_elimination_reason_def)
  qed
  then have "traverse legacy_elimination_reason ?es
      = Inr (map (\<lambda>e. case legacy_elimination_reason e of Inr t \<Rightarrow> t) ?es)"
    by (intro traverse_Inr) fastforce
  then show ?thesis by blast
qed

section \<open>The families\<close>

lemma family_groups_iff:
  "(fid, ms) \<in> set (family_groups hs) \<longleftrightarrow>
     ms = filter (\<lambda>h. family_of h = fid) (filter admitted hs) \<and> ms \<noteq> []"
proof -
  let ?g = "group_by family_of (\<lambda>h. h) (filter admitted hs) []"
  have "distinct (map fst ?g)" by (simp add: distinct_group_by)
  then have "(fid, ms) \<in> set ?g \<longleftrightarrow> map_of ?g fid = Some ms" by (simp add: map_of_eq_Some_iff)
  also have "\<dots> \<longleftrightarrow> ms = filter (\<lambda>h. family_of h = fid) (filter admitted hs) \<and> ms \<noteq> []"
    by (auto simp: group_by_empty filter_empty_conv)
  finally show ?thesis by (simp add: family_groups_def)
qed

lemma distinct_family_groups: "distinct (map fst (family_groups hs))"
  by (simp add: family_groups_def distinct_map_sort_key distinct_group_by)

lemma build_family_id: "family_id (build_family s u x m) = fst m"
  by (simp add: build_family_def Let_def split: prod.split)

lemma distinct_build_families: "distinct (map family_id (build_families hs ss us out))"
  using distinct_family_groups [of hs] by (simp add: build_families_def o_def build_family_id)

definition in_state :: "family_state \<Rightarrow> causal_family list \<Rightarrow> causal_family list" where
  "in_state s fs = filter (\<lambda>f. family_state f = s) fs"

lemma with_ids_iff:
  assumes ids: "distinct (map hypothesis_id hs)" and sub: "set ss \<subseteq> {h \<in> set hs. admitted h}"
  shows "with_ids (map hypothesis_id ss) (filter (\<lambda>h. family_of h = fid) (filter admitted hs)) \<noteq> []
    \<longleftrightarrow> fid \<in> family_of ` set ss"
proof -
  have inj: "inj_on hypothesis_id (set hs)" using ids by (simp add: distinct_map)
  have "h \<in> set ss" if "h \<in> set hs" "hypothesis_id h \<in> hypothesis_id ` set ss" for h
    using that sub inj by (auto dest: inj_onD)
  with sub show ?thesis
    by (fastforce simp: with_ids_def filter_empty_conv)
qed

lemma families_in_state:
  fixes hs ss us out
  assumes ids: "distinct (map hypothesis_id hs)"
    and ss: "set ss \<subseteq> {h \<in> set hs. admitted h}" and us: "set us \<subseteq> {h \<in> set hs. admitted h}"
  defines "fs \<equiv> build_families hs ss us out"
  shows "family_id ` set (in_state FAMILY_SUPPORTED fs) = family_of ` set ss"
    and "family_id ` set (in_state FAMILY_UNRESOLVED fs) = family_of ` set us - family_of ` set ss"
proof -
  define ms where "ms fid = filter (\<lambda>h. family_of h = fid) (filter admitted hs)" for fid
  let ?f = "\<lambda>fid. build_family (map hypothesis_id ss) (map hypothesis_id us) out (fid, ms fid)"
  have st: "family_state (?f fid) =
      (if fid \<in> family_of ` set ss then FAMILY_SUPPORTED
       else if fid \<in> family_of ` set us then FAMILY_UNRESOLVED else FAMILY_EXCLUDED)" for fid
    using with_ids_iff [OF ids ss, of fid] with_ids_iff [OF ids us, of fid]
    by (simp add: build_family_def Let_def ms_def)
  have mem: "set fs = ?f ` {fid. ms fid \<noteq> []}"
    by (force simp: fs_def build_families_def family_groups_iff image_iff ms_def)
  have ne: "family_of h \<in> {fid. ms fid \<noteq> []}" if "h \<in> set hs" "admitted h" for h
    using that by (auto simp: ms_def filter_empty_conv)
  have ne: "family_of ` set ss \<subseteq> {fid. ms fid \<noteq> []}" "family_of ` set us \<subseteq> {fid. ms fid \<noteq> []}"
    using ss us ne by blast+
  have fam: "family_id ` set (in_state s fs) = {fid. ms fid \<noteq> [] \<and> family_state (?f fid) = s}" for s
  proof -
    have "set (in_state s fs) = ?f ` {fid. ms fid \<noteq> [] \<and> family_state (?f fid) = s}"
      by (auto simp: in_state_def mem)
    then show ?thesis by (simp add: image_image build_family_id)
  qed
  have "family_id ` set (in_state FAMILY_SUPPORTED fs) = {fid. ms fid \<noteq> []} \<inter> family_of ` set ss"
    unfolding fam st by auto
  then show "family_id ` set (in_state FAMILY_SUPPORTED fs) = family_of ` set ss"
    using ne(1) by blast
  have "family_id ` set (in_state FAMILY_UNRESOLVED fs)
      = {fid. ms fid \<noteq> []} \<inter> (family_of ` set us - family_of ` set ss)"
    unfolding fam st by auto
  then show "family_id ` set (in_state FAMILY_UNRESOLVED fs) = family_of ` set us - family_of ` set ss"
    using ne(2) by blast
qed

section \<open>The decision\<close>

lemma no_dominance [simp]:
  "dominance_relations_of ss = []" "undominated ss = ss"
  "dominators ss = filter (\<lambda>a. list_all (\<lambda>b. hypothesis_id a = hypothesis_id b) ss) ss"
  by (auto simp: dominance_relations_of_def undominated_def dominators_def dominates_def list_ex_iff filter_id_conv)

lemma get_claim:
  fixes hs :: "hypothesis list"
  assumes "i \<in> hypothesis_id ` set hs"
  shows "\<exists>h\<in>set hs. hypothesis_id h = i \<and> get_key i (rev (map (\<lambda>h. (hypothesis_id h, h)) hs)) = Inr h"
proof -
  have "i \<in> fst ` set (rev (map (\<lambda>h. (hypothesis_id h, h)) hs))" using assms by force
  then obtain h where h: "claim_by_id hs i = Some h"
    unfolding claim_by_id_def by (metis map_of_eq_None_iff option.exhaust)
  with claim_by_id_Some [OF h] show ?thesis by (auto simp: get_key_def claim_by_id_def)
qed

lemma representative_member:
  assumes "f \<in> set (build_families hs ss us out)" "representative f = Some i"
  shows "i \<in> hypothesis_id ` set hs"
proof -
  from assms(1) obtain fid where
    f: "f = build_family (map hypothesis_id ss) (map hypothesis_id us) out
          (fid, filter (\<lambda>h. family_of h = fid) (filter admitted hs))"
    by (auto simp: build_families_def family_groups_iff)
  let ?w = "\<lambda>x. with_ids (map hypothesis_id x) (filter (\<lambda>h. family_of h = fid) (filter admitted hs))"
  have "i \<in> hypothesis_id ` (set (?w ss) \<union> set (?w us))"
    using assms(2) unfolding f build_family_def Let_def
    by (auto split: list.splits if_splits simp: hd_append)
  then show ?thesis by (auto simp: with_ids_def)
qed

lemma selected_total:
  assumes "f \<in> set (build_families hs ss us out)" "ss \<noteq> []" "set ss \<subseteq> set hs"
  shows "\<exists>h\<in>set hs. selected_claim hs ss f = Inr h
    \<and> (representative f = Some (hypothesis_id h) \<or> hypothesis_id h = hypothesis_id (hd ss))"
proof -
  have hd: "hypothesis_id (hd ss) \<in> hypothesis_id ` set hs" using assms(2,3) hd_in_set by blast
  show ?thesis
  proof (cases "representative f")
    case None
    with get_claim [OF hd] show ?thesis by (auto simp: selected_claim_def)
  next
    case (Some i)
    with get_claim [OF representative_member [OF assms(1) Some]] get_claim [OF hd]
    show ?thesis by (cases i) (auto simp: selected_claim_def)
  qed
qed

text \<open>The outcome and its basis, whatever the input.\<close>

lemma decide_total:
  assumes "set (supported c) \<subseteq> set hs"
  shows "\<exists>d. decide hs c be es (base_trace hs c out es texts) = Inr d"
proof -
  let ?fs = "in_state FAMILY_SUPPORTED (causal_families (base_trace hs c out es texts))"
  have "\<exists>h. selected_claim hs (supported c) f = Inr h" if "?fs = [f]" "supported c \<noteq> []" for f
  proof -
    have "f \<in> set (build_families hs (supported c) (unresolved c) out)"
      using that(1) by (auto simp: base_trace_def in_state_def filter_eq_Cons_iff)
    from selected_total [OF this that(2) assms] show ?thesis by blast
  qed
  then have "supported c \<noteq> [] \<Longrightarrow> case ?fs of [f] \<Rightarrow> \<exists>h. selected_claim hs (supported c) f = Inr h | _ \<Rightarrow> True"
    by (auto split: list.split)
  then show ?thesis
    unfolding decide_def Let_def in_state_def dominance_discriminators_def case_prod_beta
    by (auto split: list.splits)
qed

definition outcome_state :: "string set \<Rightarrow> string set \<Rightarrow> resolution_state" where
  "outcome_state S U =
     (if S = {} then INSUFFICIENT_EVIDENCE
      else if U - S \<noteq> {} then AMBIGUOUS
      else if card S = 1 then RESOLVED else AMBIGUOUS)"

text \<open>The fields of a trace no decision branch touches.\<close>

definition same_record :: "resolution_trace \<Rightarrow> resolution_trace \<Rightarrow> bool" where
  "same_record a b \<longleftrightarrow> plausible_hypotheses a = plausible_hypotheses b
     \<and> unresolved_hypotheses a = unresolved_hypotheses b \<and> eliminated_hypotheses a = eliminated_hypotheses b
     \<and> eliminations a = eliminations b \<and> causal_families a = causal_families b
     \<and> considered_hypotheses a = considered_hypotheses b \<and> signatures a = signatures b
     \<and> elimination_reasons a = elimination_reasons b
     \<and> mechanism_verified_hypotheses a = mechanism_verified_hypotheses b"

lemma decide_same:
  "decide hs c be es base = Inr d \<Longrightarrow> same_record d base"
  by (auto simp: decide_def Let_def same_record_def case_prod_beta split: if_splits list.splits)

lemma attach_same: "same_record (attach_audits fi masks g hs d) base = same_record d base"
  by (simp add: attach_audits_def same_record_def)

lemma supported_representative:
  assumes "f \<in> set (in_state FAMILY_SUPPORTED (build_families hs ss us out))"
  shows "\<exists>i\<in>hypothesis_id ` set ss. representative f = Some i"
proof -
  from assms obtain fid where
    f: "f = build_family (map hypothesis_id ss) (map hypothesis_id us) out
          (fid, filter (\<lambda>h. family_of h = fid) (filter admitted hs))"
    and st: "family_state f = FAMILY_SUPPORTED"
    by (auto simp: in_state_def build_families_def family_groups_iff)
  let ?w = "with_ids (map hypothesis_id ss) (filter (\<lambda>h. family_of h = fid) (filter admitted hs))"
  from st have "?w \<noteq> []" by (auto simp: f build_family_def Let_def split: if_splits)
  then have "representative f = Some (hypothesis_id (hd ?w))" "hd ?w \<in> set ?w"
    by (auto simp: f build_family_def Let_def hd_append split: list.splits)
  then show ?thesis by (auto simp: with_ids_def)
qed

text \<open>The basis of the decision: what took part in the contest, and what was excluded from it.\<close>

definition outcome_basis :: "string set \<Rightarrow> string set \<Rightarrow> bool \<Rightarrow> bool \<Rightarrow> string" where
  "outcome_basis S U any_excluded any_contradicted =
     (if S = {} then (if U \<noteq> {} then ''NO_SUPPORTED_HYPOTHESIS_WITH_UNRESOLVED_ALTERNATIVES''
                      else if any_excluded then ''NO_ROOT_CAUSE_ELIGIBLE_HYPOTHESIS''
                      else ''NO_PLAUSIBLE_HYPOTHESIS'')
      else if U - S \<noteq> {} then ''UNRESOLVED_CAUSAL_ALTERNATIVE''
      else if card S \<noteq> 1 then ''EQUIVALENT_OR_INCOMPARABLE_PLAUSIBLE_HYPOTHESES''
      else if any_excluded then ''ROOT_CAUSE_ELIGIBILITY''
      else if any_contradicted then ''VALID_CONTRADICTION'' else ''ONLY_ONE_PLAUSIBLE'')"

definition is_contradiction :: "elimination \<Rightarrow> bool" where
  "is_contradiction e \<longleftrightarrow>
     elimination_code e \<in> {EXPLICIT_TEMPORAL_CONTRADICTION, OBSERVED_NORMAL_MECHANISM_MISMATCH}"

lemma selection_basis_fst:
  "fst (selection_basis c be es h) =
     (if excluded c \<noteq> [] then ''ROOT_CAUSE_ELIGIBILITY''
      else if \<exists>e\<in>set es. is_contradiction e then ''VALID_CONTRADICTION'' else ''ONLY_ONE_PLAUSIBLE'')"
  by (auto simp: selection_basis_def Let_def is_contradiction_def filter_empty_conv)

lemma selected_supported:
  assumes ids: "distinct (map hypothesis_id hs)" and sub: "set ss \<subseteq> set hs" and ne: "ss \<noteq> []"
    and f: "in_state FAMILY_SUPPORTED (build_families hs ss us out) = [f]"
  shows "\<exists>h\<in>set ss. selected_claim hs ss f = Inr h"
proof -
  have mem: "f \<in> set (in_state FAMILY_SUPPORTED (build_families hs ss us out))" using f by simp
  then have "f \<in> set (build_families hs ss us out)" by (simp add: in_state_def)
  from selected_total [OF this ne sub] obtain h where h: "h \<in> set hs" "selected_claim hs ss f = Inr h"
    "representative f = Some (hypothesis_id h) \<or> hypothesis_id h = hypothesis_id (hd ss)"
    by blast
  from supported_representative [OF mem] h(3) have "hypothesis_id h \<in> hypothesis_id ` set ss"
    using hd_in_set [OF ne] by auto
  then obtain k where "k \<in> set ss" "hypothesis_id h = hypothesis_id k" by blast
  then have "h \<in> set ss" using ids h(1) sub by (metis distinct_map inj_onD subsetD)
  with h(2) show ?thesis by blast
qed

lemma single_dominator:
  assumes "distinct (map hypothesis_id ss)" "length (dominators ss) = 1"
  shows "card (family_of ` set ss) = 1"
proof -
  from assms(2) obtain x where x: "dominators ss = [x]" by (auto simp: length_Suc_conv)
  then have "x \<in> set (dominators ss)" by simp
  then have "x \<in> set ss" "\<forall>b\<in>set ss. hypothesis_id x = hypothesis_id b"
    by (auto simp: list_all_iff)
  then have "set ss = {x}" using assms(1) by (auto simp: distinct_map inj_on_def)
  then show ?thesis by simp
qed

lemma decide_outcome:
  assumes ids: "distinct (map hypothesis_id hs)"
    and ss: "set (supported c) \<subseteq> {h \<in> set hs. admitted h}" "distinct (map hypothesis_id (supported c))"
    and us: "set (unresolved c) \<subseteq> {h \<in> set hs. admitted h}"
    and d: "decide hs c be es (base_trace hs c out es texts) = Inr d"
  defines "S \<equiv> family_of ` set (supported c)" and "U \<equiv> family_of ` set (unresolved c)"
  shows "trace_state d = outcome_state S U"
    and "decision_basis d = outcome_basis S U (excluded c \<noteq> []) (\<exists>e\<in>set es. is_contradiction e)"
    and "trace_state d = RESOLVED \<Longrightarrow> \<exists>h\<in>set (supported c). leading_hypotheses d = [hypothesis_id h]"
proof -
  let ?fs = "build_families hs (supported c) (unresolved c) out"
  let ?sup = "in_state FAMILY_SUPPORTED ?fs" and ?unr = "in_state FAMILY_UNRESOLVED ?fs"
  have fs: "causal_families (base_trace hs c out es texts) = ?fs" by (simp add: base_trace_def)
  note fams = families_in_state [OF ids ss(1) us, of out, folded S_def U_def]
  have dist: "distinct (map family_id ?sup)"
    using distinct_build_families [of hs "supported c" "unresolved c" out]
    by (simp add: in_state_def distinct_map_filter)
  then have card: "card S = length ?sup"
    using fams(1) distinct_card [of "map family_id ?sup"] by simp
  have sub: "set (supported c) \<subseteq> set hs" using ss(1) by blast
  note lead = selected_supported [OF ids sub]
  note single = single_dominator [OF ss(2), folded S_def]
  have unr: "?unr \<noteq> [] \<longleftrightarrow> U - S \<noteq> {}"
    using fams(2) by (metis image_is_empty set_empty)
  consider (none) "supported c = []" | (rivals) "supported c \<noteq> []" "?unr \<noteq> []"
    | (one) f where "supported c \<noteq> []" "?unr = []" "?sup = [f]"
    | (many) "supported c \<noteq> []" "?unr = []" "length ?sup \<noteq> 1"
    by (cases ?sup rule: remdups_adj.cases) auto
  then have "trace_state d = outcome_state S U
      \<and> decision_basis d = outcome_basis S U (excluded c \<noteq> []) (\<exists>e\<in>set es. is_contradiction e)
      \<and> (trace_state d = RESOLVED \<longrightarrow> (\<exists>h\<in>set (supported c). leading_hypotheses d = [hypothesis_id h]))"
  proof cases
    case none
    then show ?thesis
      using d by (auto simp: decide_def Let_def outcome_state_def outcome_basis_def S_def U_def
          split: if_splits)
  next
    case rivals
    then show ?thesis
      using d unr by (auto simp: decide_def Let_def fs outcome_state_def outcome_basis_def S_def
          in_state_def [symmetric])
  next
    case one
    from lead [OF one(1,3)] obtain h where h: "h \<in> set (supported c)"
      "selected_claim hs (supported c) f = Inr h" by blast
    have "d = (base_trace hs c out es texts)\<lparr>trace_state := RESOLVED, leading_hypotheses := [hypothesis_id h],
        distinguishing_facts := [discriminator_detail (snd (selection_basis c be es h))],
        discriminators := [snd (selection_basis c be es h)], dominance_relations := [],
        decision_basis := fst (selection_basis c be es h)\<rparr>"
      using d one h(2) by (simp add: decide_def Let_def fs in_state_def [symmetric] case_prod_beta)
    then show ?thesis
      using one unr card h(1) by (auto simp: outcome_state_def outcome_basis_def selection_basis_fst S_def)
  next
    case many
    then have "card S \<noteq> 1" using card by simp
    then have "length (dominators (supported c)) \<noteq> 1" using single by blast
    then have "d = (base_trace hs c out es texts)\<lparr>trace_state := AMBIGUOUS,
        leading_hypotheses := map hypothesis_id (supported c), unresolved_dimensions := OPEN_DIMENSIONS,
        dominance_relations := [], decision_basis := ''EQUIVALENT_OR_INCOMPARABLE_PLAUSIBLE_HYPOTHESES''\<rparr>"
      using d many by (auto simp: decide_def Let_def fs in_state_def [symmetric] split: list.splits)
    with \<open>card S \<noteq> 1\<close> many unr show ?thesis
      by (auto simp: outcome_state_def outcome_basis_def S_def)
  qed
  then show "trace_state d = outcome_state S U"
    "decision_basis d = outcome_basis S U (excluded c \<noteq> []) (\<exists>e\<in>set es. is_contradiction e)"
    "trace_state d = RESOLVED \<Longrightarrow> \<exists>h\<in>set (supported c). leading_hypotheses d = [hypothesis_id h]"
    by blast+
qed

section \<open>Resolution never raises\<close>

definition eliminated_by ::
  "(string \<Rightarrow> instant option) \<Rightarrow> timing_masks \<Rightarrow> duration option \<Rightarrow> root_eligibilities option
   \<Rightarrow> (string \<times> mechanism_mismatch) list \<Rightarrow> (string \<times> explanation) list \<Rightarrow> hypothesis list
   \<Rightarrow> string list" where
  "eliminated_by fi masks g elo mm explained hs =
     eliminated_ids explained (contest_of fi masks g elo mm explained hs)"

lemma resolve_parts:
  fixes fi masks g elo mm explained hs
  assumes "hs \<noteq> []"
  defines "c \<equiv> contest_of fi masks g elo mm explained hs"
    and "es \<equiv> all_eliminations fi masks g elo mm explained hs"
  shows "\<exists>be texts d. decide hs c be es (base_trace hs c (eliminated_by fi masks g elo mm explained hs) es texts) = Inr d
    \<and> resolve fi masks g elo mm explained hs = Inr (attach_audits fi masks g hs d)"
proof -
  obtain texts where texts: "traverse legacy_elimination_reason es = Inr texts"
    using legacy_reasons_total es_def by blast
  have "set (supported c) \<subseteq> set hs" by (simp add: c_def contest_subset)
  from decide_total [OF this] obtain d where
    d: "decide hs c (exclusion_eliminations elo c) es
      (base_trace hs c (eliminated_by fi masks g elo mm explained hs) es texts) = Inr d" by blast
  have "resolve fi masks g elo mm explained hs = Inr (attach_audits fi masks g hs d)"
    using assms(1) texts d
    by (simp add: resolve_def Let_def c_def contradiction_eliminations_eq es_def all_eliminations_def
        eliminated_by_def)
  with d show ?thesis by blast
qed

lemma audit_items_complete:
  "mset (audit_items fi masks g focus hs) = mset (map (audit_item fi masks g) hs)"
proof -
  let ?p = "\<lambda>h. hypothesis_id h \<in> set focus"
  have "hypothesis_id h \<notin> hypothesis_id ` set (filter ?p hs) \<longleftrightarrow> \<not> ?p h" if "h \<in> set hs" for h
    using that by auto
  then have "filter (\<lambda>h. hypothesis_id h \<notin> hypothesis_id ` set (filter ?p hs)) (sort_key hypothesis_id hs)
      = filter (\<lambda>h. \<not> ?p h) (sort_key hypothesis_id hs)"
    by (intro filter_cong) auto
  then show ?thesis
    by (simp add: audit_items_def Let_def flip: image_mset_union)
qed

text \<open>
  Resolution never raises and hides nothing. Whatever hypotheses, masks, eligibilities, mechanism
  mismatches and explanations it is given, with colliding identifiers too, a trace is returned: no
  elimination is ever recorded without its hard evidence or with a reason code that cannot
  eliminate, and no identifier is looked up in vain. The trace audits every hypothesis exactly once.
\<close>

theorem resolution_never_raises:
  "\<exists>tr. resolve fi masks g elo mm explained hs = Inr tr
     \<and> mset (hypothesis_audits tr) = mset (map (audit_item fi masks g) hs)"
proof (cases "hs = []")
  case False
  from resolve_parts [OF False] show ?thesis
    by (fastforce simp: attach_audits_def audit_items_complete)
qed (simp add: resolve_def default_trace_def)

section \<open>What the outcome depends on\<close>

lemma resolve_outcome:
  assumes ids: "distinct (map hypothesis_id hs)"
  shows "\<exists>tr. resolve fi masks g elo mm explained hs = Inr tr
    \<and> plausible_hypotheses tr = map hypothesis_id (supported (contest_of fi masks g elo mm explained hs))
    \<and> unresolved_hypotheses tr = map hypothesis_id (unresolved (contest_of fi masks g elo mm explained hs))
    \<and> eliminations tr = (if hs = [] then [] else all_eliminations fi masks g elo mm explained hs)
    \<and> eliminated_hypotheses tr = (if hs = [] then [] else sorted_set (eliminated_by fi masks g elo mm explained hs))
    \<and> trace_state tr = outcome_state (family_of ` {h \<in> set hs. stands_supported fi masks g elo mm explained h})
        (family_of ` {h \<in> set hs. stands_unresolved fi masks g elo mm explained h})
    \<and> decision_basis tr = outcome_basis (family_of ` {h \<in> set hs. stands_supported fi masks g elo mm explained h})
        (family_of ` {h \<in> set hs. stands_unresolved fi masks g elo mm explained h})
        (\<exists>h\<in>set hs. is_excluded elo h)
        (hs \<noteq> [] \<and> (\<exists>e\<in>set (all_eliminations fi masks g elo mm explained hs). is_contradiction e))
    \<and> (trace_state tr = RESOLVED \<longrightarrow> (\<exists>h\<in>set hs. stands_supported fi masks g elo mm explained h
        \<and> leading_hypotheses tr = [hypothesis_id h]))"
proof (cases "hs = []")
  case True
  then show ?thesis
    by (auto simp: resolve_def default_trace_def contest_of_def Let_def outcome_state_def outcome_basis_def)
next
  case False
  let ?c = "contest_of fi masks g elo mm explained hs"
  let ?es = "all_eliminations fi masks g elo mm explained hs"
  from resolve_parts [OF False, of fi masks g elo mm explained] obtain be texts d where
    d: "decide hs ?c be ?es (base_trace hs ?c (eliminated_by fi masks g elo mm explained hs) ?es texts) = Inr d"
    and r: "resolve fi masks g elo mm explained hs = Inr (attach_audits fi masks g hs d)" by blast
  note sets = contest_sets [OF ids, of fi masks g elo mm explained]
  have "set (supported ?c) \<subseteq> {h \<in> set hs. admitted h}" "set (unresolved ?c) \<subseteq> {h \<in> set hs. admitted h}"
    unfolding sets by (auto simp: stands_supported_def stands_unresolved_def supported_admitted)
  note out = decide_outcome [OF ids this(1) contest_distinct_ids(1) [OF ids] this(2) d]
  have exc: "excluded ?c \<noteq> [] \<longleftrightarrow> (\<exists>h\<in>set hs. is_excluded elo h)"
    using sets(5) by (metis (no_types, lifting) empty_Collect_eq set_empty)
  show ?thesis
    using decide_same [OF d] out False unfolding r sets exc
    by (auto simp: same_record_def base_trace_def attach_audits_def)
qed

definition no_masks :: timing_masks where
  "no_masks = \<lparr>temporal_mask = [], ended_mask = [], strong_mask = [], withheld = []\<rparr>"

lemma sample_supported:
  "stands_supported fi masks g None [] [] sample_hypothesis"
  "\<not> stands_unresolved fi masks g None [] [] sample_hypothesis"
proof -
  have adm: "admitted sample_hypothesis"
    by (simp add: admitted_def actor_findings_def symptom_links_def links_path_def sample_hypothesis_def
        Let_def RELATIONS_def RELATION_SEMANTICS_def sem_def)
  have "assessed_state (assess_hypothesis fi masks g sample_hypothesis) = CLAIM_SUPPORTED"
    unfolding supported_iff using adm
    by (simp add: local_contradictions_def initiating_changes_def actor_findings_def can_witness_def
        CHANGE_KINDS_def sample_hypothesis_def Let_def)
  then show "stands_supported fi masks g None [] [] sample_hypothesis"
    "\<not> stands_unresolved fi masks g None [] [] sample_hypothesis"
    by (simp_all add: stands_supported_def stands_unresolved_def selectable_def is_excluded_def)
qed

text \<open>
  C8: The outcome is read off the evidence, family by family. For claims with distinct identifiers a
  resolution returns a trace whose plausible and unresolved claims are exactly those that stand
  supported and unresolved: nothing is decided when no claim is supported, and a cause is resolved
  exactly when all supported claims belong to one family and no claim of another family is left
  unresolved. The claim it leads with is then one of the supported ones.
\<close>

theorem decision_follows_evidence:
  assumes ids: "distinct (map hypothesis_id hs)"
    and S: "S = {h \<in> set hs. stands_supported fi masks g elo mm explained h}"
    and U: "U = {h \<in> set hs. stands_unresolved fi masks g elo mm explained h}"
  shows "\<exists>tr. resolve fi masks g elo mm explained hs = Inr tr
    \<and> set (plausible_hypotheses tr) = hypothesis_id ` S \<and> set (unresolved_hypotheses tr) = hypothesis_id ` U
    \<and> (trace_state tr = INSUFFICIENT_EVIDENCE \<longleftrightarrow> S = {})
    \<and> (trace_state tr = RESOLVED \<longleftrightarrow> (\<exists>F. family_of ` S = {F} \<and> family_of ` U \<subseteq> {F}))
    \<and> (trace_state tr = RESOLVED \<longrightarrow> (\<exists>h\<in>S. leading_hypotheses tr = [hypothesis_id h]))"
proof -
  have insufficient: "outcome_state A B = INSUFFICIENT_EVIDENCE \<longleftrightarrow> A = {}" for A B
    by (simp add: outcome_state_def)
  have resolved: "outcome_state A B = RESOLVED \<longleftrightarrow> (\<exists>F. A = {F} \<and> B \<subseteq> {F})" for A B
    by (auto simp: outcome_state_def card_1_singleton_iff)
  show ?thesis
    using resolve_outcome [OF ids, of fi masks g elo mm explained]
    by (auto simp: contest_sets [OF ids] insufficient resolved S U)
qed

theorem decision_follows_evidence_witness:
  "\<exists>tr. resolve (\<lambda>_. None) no_masks None None [] [] [sample_hypothesis] = Inr tr
     \<and> trace_state tr = RESOLVED \<and> leading_hypotheses tr = [''h1'']"
proof -
  have ids: "distinct (map hypothesis_id [sample_hypothesis])" by simp
  have S: "{sample_hypothesis} = {h \<in> set [sample_hypothesis]. stands_supported (\<lambda>_. None) no_masks None None [] [] h}"
    and U: "{} = {h \<in> set [sample_hypothesis]. stands_unresolved (\<lambda>_. None) no_masks None None [] [] h}"
    using sample_supported by auto
  show ?thesis
    using decision_follows_evidence [OF ids S U] by (auto simp: sample_hypothesis_def Let_def)
qed

section \<open>What eliminates a claim\<close>

text \<open>The positive evidence an elimination record must rest on.\<close>

inductive eliminates ::
  "(string \<Rightarrow> instant option) \<Rightarrow> timing_masks \<Rightarrow> duration option \<Rightarrow> root_eligibilities option
   \<Rightarrow> (string \<times> mechanism_mismatch) list \<Rightarrow> (string \<times> explanation) list \<Rightarrow> hypothesis \<Rightarrow> elimination \<Rightarrow> bool"
  for fi masks g elo mm explained h where
  too_late: "f \<in> set (contradictory_findings h) \<Longrightarrow> f \<in> set (actor_findings h) \<Longrightarrow>
    temporal_contradiction_certainty fi f (effective_grace g) = DEFINITELY_LATE \<Longrightarrow>
    hypothesis_id h \<notin> set (temporal_mask masks) \<Longrightarrow> eliminated_id e = hypothesis_id h \<Longrightarrow>
    elimination_code e = EXPLICIT_TEMPORAL_CONTRADICTION \<Longrightarrow>
    set (evidence_ids f) \<subseteq> set (elimination_evidence e) \<Longrightarrow>
    eliminates fi masks g elo mm explained h e"
| observed_normal: "map_of mm (hypothesis_id h) = Some m \<Longrightarrow>
    eliminates fi masks g elo mm explained h (mechanism_elimination m)"
| propagated: "elo = Some el \<Longrightarrow> propagated_effect el h = Some x \<Longrightarrow>
    eliminates fi masks g elo mm explained h (root_cause_eligibility_elimination h x)"
| ended: "elo = Some el \<Longrightarrow> ended_for el (hypothesis_id h) = Some x \<Longrightarrow>
    eliminates fi masks g elo mm explained h (ended_episode_elimination x)"
| accounted: "(hypothesis_id h, r) \<in> set explained \<Longrightarrow>
    eliminates fi masks g elo mm explained h (explanation_elimination (hypothesis_id h, r))"

lemma temporal_elimination_eliminates:
  assumes ids: "distinct (map hypothesis_id hs)" and h: "h \<in> set hs"
    and st: "assessed_state (assess_hypothesis fi masks g h) = CLAIM_CONTRADICTED"
  shows "eliminates fi masks g elo mm explained h (temporal_elimination fi masks g hs h)"
proof -
  from st obtain f where f: "f \<in> set (late_contradictions fi g h)"
    and mask: "hypothesis_id h \<notin> set (temporal_mask masks)"
    unfolding contradicted_iff by (metis list.set_sel(1))
  have "set (evidence_ids f) \<subseteq> set (elimination_evidence (temporal_elimination fi masks g hs h))"
    using st f by (auto simp: temporal_elimination_def elimination_for_def Let_def ids h contradicted_iff)
  moreover have "assessed_state (assessment_in fi masks g hs h) = CLAIM_CONTRADICTED"
    using ids h st by simp
  ultimately show ?thesis
    using f mask elimination_for_contradicted(2,3) [of fi masks g hs h]
    by (intro too_late [of f]) (auto simp: late_contradictions_def local_contradictions_def)
qed

lemma exclusion_elimination_eliminates:
  assumes "exclusion_elimination el h = Some e"
  shows "eliminates fi masks g (Some el) mm explained h e"
  using assms
  by (auto simp: exclusion_elimination_def split: option.splits intro: propagated ended)

lemma excluded_has_elimination:
  "is_excluded elo h \<longleftrightarrow> (\<exists>el e. elo = Some el \<and> exclusion_elimination el h = Some e)"
  by (auto simp: is_excluded_def exclusion_elimination_def split: option.splits)

lemma all_eliminations_sound:
  assumes ids: "distinct (map hypothesis_id hs)" and e: "e \<in> set (all_eliminations fi masks g elo mm explained hs)"
  shows "(\<exists>h\<in>set hs. eliminates fi masks g elo mm explained h e)
    \<or> (\<exists>k r. (k, r) \<in> set explained \<and> e = explanation_elimination (k, r))"
proof -
  note sets = contest_sets [OF ids, of fi masks g elo mm explained]
  have "\<exists>h\<in>set hs. eliminates fi masks g elo mm explained h e"
    if "e \<in> set (mismatch_eliminations mm (contest_of fi masks g elo mm explained hs))"
    using that sets(4) weak_map_of_SomeI
    by (fastforce simp: mismatch_eliminations_def intro: observed_normal)
  moreover have "\<exists>h\<in>set hs. eliminates fi masks g elo mm explained h e"
    if "e \<in> set (exclusion_eliminations elo (contest_of fi masks g elo mm explained hs))"
    using that sets(5)
    by (fastforce simp: exclusion_eliminations_def List.map_filter_def split: option.splits
        intro: exclusion_elimination_eliminates)
  moreover have "\<exists>h\<in>set hs. eliminates fi masks g elo mm explained h e"
    if "e \<in> temporal_elimination fi masks g hs ` set (contradicted (contest_of fi masks g elo mm explained hs))"
    using that sets(3) temporal_elimination_eliminates [OF ids] by blast
  ultimately show ?thesis using e by (auto simp: all_eliminations_def Let_def)
qed

lemma not_standing_eliminated:
  assumes ids: "distinct (map hypothesis_id hs)" and h: "h \<in> set hs" "admitted h"
    and out: "\<not> stands_supported fi masks g elo mm explained h" "\<not> stands_unresolved fi masks g elo mm explained h"
  shows "\<exists>e\<in>set (all_eliminations fi masks g elo mm explained hs). eliminates fi masks g elo mm explained h e"
proof -
  let ?c = "contest_of fi masks g elo mm explained hs"
  note sets = contest_sets [OF ids, of fi masks g elo mm explained]
  consider (late) "assessed_state (assess_hypothesis fi masks g h) = CLAIM_CONTRADICTED"
    | (normal) "assessed_state (assess_hypothesis fi masks g h) \<noteq> CLAIM_CONTRADICTED" "hypothesis_id h \<in> fst ` set mm"
    | (ineligible) "is_excluded elo h" | (told) "hypothesis_id h \<in> fst ` set explained"
    using out h(2) unfolding stands_supported_def stands_unresolved_def selectable_def
    by (cases "assessed_state (assess_hypothesis fi masks g h)") auto
  then show ?thesis
  proof cases
    case late
    with temporal_elimination_eliminates [OF ids h(1) late] h sets(3) show ?thesis
      by (auto simp: all_eliminations_def Let_def)
  next
    case normal
    then have "h \<in> set (mismatched ?c)" using h sets(4) by blast
    moreover obtain m where "map_of mm (hypothesis_id h) = Some m"
      using normal(2) by (metis map_of_eq_None_iff option.exhaust)
    ultimately show ?thesis
      using observed_normal [of mm h m] by (force simp: all_eliminations_def Let_def mismatch_eliminations_def)
  next
    case ineligible
    then obtain el e where "elo = Some el" "exclusion_elimination el h = Some e"
      by (auto simp: excluded_has_elimination)
    moreover have "h \<in> set (excluded ?c)" using ineligible h sets(5) by blast
    ultimately show ?thesis
      using exclusion_elimination_eliminates [of el h e]
      by (force simp: all_eliminations_def Let_def exclusion_eliminations_def List.map_filter_def)
  next
    case told
    then obtain r where "(hypothesis_id h, r) \<in> set explained" by force
    then show ?thesis
      using accounted [of h r explained] by (force simp: all_eliminations_def Let_def)
  qed
qed

lemma standing_not_eliminated:
  assumes "eliminates fi masks g elo mm explained h e"
  shows "\<not> stands_supported fi masks g elo mm explained h \<and> \<not> stands_unresolved fi masks g elo mm explained h"
  using assms
proof (cases rule: eliminates.cases)
  case (too_late f)
  then have "f \<in> set (late_contradictions fi g h)" "f \<in> set (local_contradictions h)"
    by (auto simp: late_contradictions_def local_contradictions_def)
  then have "assessed_state (assess_hypothesis fi masks g h) = CLAIM_CONTRADICTED"
    using too_late by (auto simp: contradicted_iff)
  then show ?thesis by (simp add: stands_supported_def stands_unresolved_def)
next
  case (observed_normal m)
  then have "hypothesis_id h \<in> fst ` set mm" by (force dest: map_of_SomeD)
  then show ?thesis by (simp add: stands_supported_def stands_unresolved_def selectable_def)
next
  case (accounted r)
  then have "hypothesis_id h \<in> fst ` set explained" by force
  then show ?thesis by (simp add: stands_supported_def stands_unresolved_def selectable_def)
qed (auto simp: stands_supported_def stands_unresolved_def selectable_def is_excluded_def)

text \<open>What a trace says of the claims, in terms of the claims themselves.\<close>

lemma trace_ids:
  assumes ids: "distinct (map hypothesis_id hs)" and tr: "resolve fi masks g elo mm explained hs = Inr tr"
    and h: "h \<in> set hs"
  shows "hypothesis_id h \<in> set (plausible_hypotheses tr) \<longleftrightarrow> stands_supported fi masks g elo mm explained h"
    and "hypothesis_id h \<in> set (unresolved_hypotheses tr) \<longleftrightarrow> stands_unresolved fi masks g elo mm explained h"
    and "set (eliminations tr) = set (all_eliminations fi masks g elo mm explained hs)"
proof -
  have inj: "inj_on hypothesis_id (set hs)" using ids by (simp add: distinct_map)
  have mem: "hypothesis_id h \<in> hypothesis_id ` {x \<in> set hs. P x} \<longleftrightarrow> P h" for P
    using inj_on_image_mem_iff [OF inj h, of "{x \<in> set hs. P x}"] h by auto
  have "hs \<noteq> []" using h by auto
  with resolve_outcome [OF ids, of fi masks g elo mm explained] tr
  show "hypothesis_id h \<in> set (plausible_hypotheses tr) \<longleftrightarrow> stands_supported fi masks g elo mm explained h"
    "hypothesis_id h \<in> set (unresolved_hypotheses tr) \<longleftrightarrow> stands_unresolved fi masks g elo mm explained h"
    "set (eliminations tr) = set (all_eliminations fi masks g elo mm explained hs)"
    by (auto simp: contest_sets [OF ids] mem)
qed

text \<open>
  C9: Missing proof never eliminates. In any resolution every admitted claim is plausible, unresolved or
  eliminated, and never both in competition and eliminated; and every recorded elimination rests on
  positive evidence about a claim of the contest: an own contradictory finding that is certainly
  later than the onset plus the grace and not masked, a required mechanism observed normal, a
  propagated effect, an ended episode, or an explanation that was given for it.
\<close>

theorem elimination_needs_evidence:
  assumes ids: "distinct (map hypothesis_id hs)" and tr: "resolve fi masks g elo mm explained hs = Inr tr"
    and h: "h \<in> set hs" "admitted h"
  shows "(hypothesis_id h \<in> set (plausible_hypotheses tr) \<or> hypothesis_id h \<in> set (unresolved_hypotheses tr)
      \<longleftrightarrow> \<not> (\<exists>e\<in>set (eliminations tr). eliminates fi masks g elo mm explained h e))
    \<and> \<not> (hypothesis_id h \<in> set (plausible_hypotheses tr) \<and> hypothesis_id h \<in> set (unresolved_hypotheses tr))
    \<and> (\<forall>e\<in>set (eliminations tr). (\<exists>k\<in>set hs. eliminates fi masks g elo mm explained k e)
        \<or> (\<exists>k r. (k, r) \<in> set explained \<and> e = explanation_elimination (k, r)))"
proof -
  note t = trace_ids [OF ids tr h(1)]
  have "stands_supported fi masks g elo mm explained h \<or> stands_unresolved fi masks g elo mm explained h
      \<longleftrightarrow> \<not> (\<exists>e\<in>set (eliminations tr). eliminates fi masks g elo mm explained h e)"
    unfolding t(3) using not_standing_eliminated [OF ids h] standing_not_eliminated by blast
  moreover have "\<not> (stands_supported fi masks g elo mm explained h \<and> stands_unresolved fi masks g elo mm explained h)"
    by (auto simp: stands_supported_def stands_unresolved_def)
  moreover have "\<forall>e\<in>set (eliminations tr). (\<exists>k\<in>set hs. eliminates fi masks g elo mm explained k e)
        \<or> (\<exists>k r. (k, r) \<in> set explained \<and> e = explanation_elimination (k, r))"
    unfolding t(3) using all_eliminations_sound [OF ids] by blast
  ultimately show ?thesis unfolding t(1,2) by blast
qed

definition late_hypothesis :: hypothesis where
  "late_hypothesis =
     (let f = (hd (findings sample_hypothesis))\<lparr>at := Some (51 + 15 * minute),
                details := [(''previous_observed_at'', JTime (51 + 15 * minute))], evidence_ids := [''e2'']\<rparr>
      in sample_hypothesis\<lparr>hypothesis_id := ''h2'', findings := [f], contradictory_findings := [f]\<rparr>)"

lemma late_hypothesis_admitted: "admitted late_hypothesis"
  by (simp add: admitted_def actor_findings_def symptom_links_def links_path_def late_hypothesis_def
      sample_hypothesis_def Let_def RELATIONS_def RELATION_SEMANTICS_def sem_def)

lemma late_hypothesis_unsupported: "\<not> stands_supported fi masks g elo mm explained late_hypothesis"
  by (simp add: stands_supported_def supported_iff local_contradictions_def actor_findings_def
      late_hypothesis_def sample_hypothesis_def Let_def)

theorem elimination_needs_evidence_witness:
  "\<exists>tr. resolve (\<lambda>_. None) no_masks None None [] [] [sample_hypothesis, late_hypothesis] = Inr tr
     \<and> ''h2'' \<notin> set (plausible_hypotheses tr) \<and> ''h2'' \<notin> set (unresolved_hypotheses tr)
     \<and> (\<exists>e\<in>set (eliminations tr). eliminates (\<lambda>_. None) no_masks None None [] [] late_hypothesis e)"
proof -
  let ?hs = "[sample_hypothesis, late_hypothesis]"
  have key: "hypothesis_id late_hypothesis = ''h2''" by (simp add: late_hypothesis_def Let_def)
  then have ids: "distinct (map hypothesis_id ?hs)" by (simp add: sample_hypothesis_def Let_def)
  obtain tr where tr: "resolve (\<lambda>_. None) no_masks None None [] [] ?hs = Inr tr"
    using resolve_outcome [OF ids] by blast
  have "late_contradictions (\<lambda>_. None) None late_hypothesis \<noteq> []"
    by (simp add: late_contradictions_def local_contradictions_def actor_findings_def late_hypothesis_def
        sample_hypothesis_def Let_def temporal_contradiction_certainty_def OBJECT_CHANGE_KINDS_def
        initiating_value_def dict_value_def py_or_def parse_time_def effective_grace_def
        VERIFICATION_ONSET_GRACE_def minute_def second_def)
  then have "assessed_state (assess_hypothesis (\<lambda>_. None) no_masks None late_hypothesis) = CLAIM_CONTRADICTED"
    by (simp add: contradicted_iff no_masks_def)
  then have "\<not> stands_unresolved (\<lambda>_. None) no_masks None None [] [] late_hypothesis"
    by (simp add: stands_unresolved_def)
  with late_hypothesis_unsupported trace_ids [OF ids tr, of late_hypothesis]
  have "''h2'' \<notin> set (plausible_hypotheses tr)" "''h2'' \<notin> set (unresolved_hypotheses tr)"
    by (simp_all add: key)
  with elimination_needs_evidence [OF ids tr, of late_hypothesis] late_hypothesis_admitted tr show ?thesis
    by (auto simp: key)
qed

section \<open>What supports a claim\<close>

text \<open>A witness of a fired support: an own initiating change, and a walk from the actor to a symptom.\<close>

definition change_witnessed :: "hypothesis \<Rightarrow> causal_witness \<Rightarrow> bool" where
  "change_witnessed h w \<longleftrightarrow> origin w \<in> set (findings h) \<and> entity (origin w) = causal_actor h
     \<and> entity_instance (origin w) = actor_instance h \<and> temporal_role (origin w) = INITIATING
     \<and> finding_kind (origin w) \<in> set CHANGE_KINDS \<and> at (origin w) \<noteq> None
     \<and> incident_onset (origin w) = Some (witness_onset w)
     \<and> evidence_ids (origin w) \<noteq> [] \<and> set (evidence_ids (origin w)) \<subseteq> set (witness_evidence w)
     \<and> witness_symptom w \<in> set (symptom_entities h)
     \<and> causal_walk (admitted_hop h) (causal_actor h) (witness_path w) (witness_symptom w)"

lemma change_witness_witnessed:
  assumes v: "claim_version h \<noteq> ''legacy''" and w: "w \<in> set (change_witnesses h)"
  shows "change_witnessed h w"
proof -
  from w obtain f symptom path where f: "f \<in> set (initiating_changes h)" "can_witness f"
    and link: "(symptom, path) \<in> set (symptom_links h)" and eq: "w = change_witness h f (symptom, path)"
    by (auto simp: change_witnesses_def)
  from symptom_links_walk [OF link] f v show ?thesis
    by (auto simp: change_witnessed_def eq change_witness_def initiating_changes_def actor_findings_def
        can_witness_def)
qed

text \<open>
  A plausible cause is positively witnessed. Every claim a resolution lists as plausible is an admitted
  claim without any contradictory finding of its own, its support fired, and each of the witnesses
  of the support, at least one, is a dated change of exactly the actor and instance, judged to initiate
  the incident at a known onset and recorded with evidence, from which an unbroken walk of admitted
  relations reaches a symptom. All that evidence is listed as decisive.
\<close>

theorem plausible_is_witnessed:
  assumes ids: "distinct (map hypothesis_id hs)" and tr: "resolve fi masks g elo mm explained hs = Inr tr"
    and i: "i \<in> set (plausible_hypotheses tr)"
  shows "\<exists>h\<in>set hs. hypothesis_id h = i \<and> admitted h \<and> local_contradictions h = []
    \<and> support_status (change_onset_path_support h) = FIRED
    \<and> witnesses (change_onset_path_support h) \<noteq> []
    \<and> (\<forall>w\<in>set (witnesses (change_onset_path_support h)). change_witnessed h w
        \<and> set (witness_evidence w) \<subseteq> set (decisive_evidence (change_onset_path_support h)))"
proof -
  from resolve_outcome [OF ids, of fi masks g elo mm explained] tr i obtain h where h: "h \<in> set hs"
    "hypothesis_id h = i" "stands_supported fi masks g elo mm explained h"
    by (auto simp: contest_sets [OF ids])
  then have s: "local_contradictions h = []" "admitted h" "support_status (change_onset_path_support h) = FIRED"
    by (auto simp: stands_supported_def supported_iff fired_iff)
  have v: "claim_version h \<noteq> ''legacy''"
    using s(2) by (auto simp: admitted_def symptom_links_def split: if_splits)
  have "witnesses (change_onset_path_support h) = change_witnesses h"
    "change_witnesses h \<noteq> []"
    "decisive_evidence (change_onset_path_support h) = sorted_set (concat (map witness_evidence (change_witnesses h)))"
    using s(3) by (auto simp: change_onset_path_support_def Let_def split: if_splits)
  with h(1,2) s change_witness_witnessed [OF v] show ?thesis by (intro bexI [of _ h]) auto
qed

theorem plausible_is_witnessed_witness:
  "\<exists>tr. resolve (\<lambda>_. None) no_masks None None [] [] [sample_hypothesis] = Inr tr
     \<and> ''h1'' \<in> set (plausible_hypotheses tr)
     \<and> (\<exists>w\<in>set (witnesses (change_onset_path_support sample_hypothesis)). change_witnessed sample_hypothesis w)"
proof -
  have ids: "distinct (map hypothesis_id [sample_hypothesis])" by simp
  have key: "hypothesis_id sample_hypothesis = ''h1''" by (simp add: sample_hypothesis_def Let_def)
  obtain tr where tr: "resolve (\<lambda>_. None) no_masks None None [] [] [sample_hypothesis] = Inr tr"
    using resolve_outcome [OF ids] by blast
  have i: "''h1'' \<in> set (plausible_hypotheses tr)"
    using trace_ids(1) [OF ids tr, of sample_hypothesis] sample_supported by (simp add: key)
  from plausible_is_witnessed [OF ids tr i] tr i show ?thesis
    by (auto simp: neq_Nil_conv)
qed

section \<open>Order and masks\<close>







end
