(* ===== verification/Frontier.thy ===== *)
theory Frontier
  imports Service_Effect Decision_Trace Claims Evidence_Coverage Declared_Hosts
begin

text \<open>
  The investigation frontier (\<open>packages/rca/frontier.py\<close>): which structural alternatives are material for
  which claims, how far each was investigated, and the questions about them that evidence answers: a
  configuration observed unchanged, a dependency on the claims' own paths, and a dependency that its
  traced callers declare and never call. \<open>Structural_Frontier\<close> derives the alternatives.
\<close>

text \<open>An alternative with the entities that observations of it are about.\<close>

record targeted_alternative = structural_alternative +
  alternative_targets :: "entity_ref list"

section \<open>Material questions\<close>

definition MATERIAL_ROLES :: "string list" where
  "MATERIAL_ROLES =
     [''dependency'', ''configuration_source'', ''autoscaler'', ''network_policy'', ''fault_actor'', ''quota'']"

definition path_entities :: "causal_hop list \<Rightarrow> entity_ref list" where
  "path_entities path = concat (map (\<lambda>hop. [hop_source hop, hop_target hop]) path)"

text \<open>Everything on the claim's own chains to its symptoms.\<close>

definition claim_chain :: "hypothesis \<Rightarrow> entity_ref list" where
  "claim_chain h = causal_actor h # concat (map (\<lambda>(s, path). s # path_entities path) (symptom_links h))"

definition is_material :: "structural_alternative \<Rightarrow> hypothesis \<Rightarrow> bool" where
  "is_material a h \<longleftrightarrow> admitted h \<and> causal_actor h \<noteq> alternative_actor a
     \<and> set (claim_chain h) \<inter> set (affected_entities a) \<noteq> {}"

definition bind_alternative :: "hypothesis list \<Rightarrow> structural_alternative \<Rightarrow> structural_alternative option" where
  "bind_alternative hs a =
     (let ids = map hypothesis_id (filter (is_material a) hs) in
      if alternative_role a \<notin> set MATERIAL_ROLES \<or> ids = [] then None
      else Some (a\<lparr>material_for := sort ids,
                   missing_decision := ''UPSTREAM_MECHANISM_COULD_CHANGE_INITIATING_CAUSE''\<rparr>))"

definition material_frontier :: "structural_alternative list \<Rightarrow> hypothesis list \<Rightarrow> structural_alternative list" where
  "material_frontier alternatives hs =
     sort_key alternative_id (List.map_filter (bind_alternative hs) alternatives)"

section \<open>Progress\<close>

text \<open>Of an information gap, its dimension and the queries it authorizes.\<close>

record authorized_query =
  query_capability :: string
  query_target :: entity_ref
  query_alternatives :: "string list"

record information_gap =
  gap_dimension_of :: gap_dimension
  authorized_queries :: "authorized_query list"

definition sorted_dimensions :: "gap_dimension list \<Rightarrow> gap_dimension list" where
  "sorted_dimensions ds = sort_key dimension_value (remdups ds)"

text \<open>The dimensions one authorized telemetry read covered, by alternative.\<close>

definition covered_frontier_dimensions ::
  "('a information_gap_scheme) list \<Rightarrow> string \<Rightarrow> entity_ref \<Rightarrow> bool \<Rightarrow> (string \<times> gap_dimension list) list" where
  "covered_frontier_dimensions gaps capability target acquired =
     (if \<not> acquired \<or> capability = ''runtime_traces'' then []
      else map (\<lambda>(i, ds). (i, sorted_dimensions ds))
        (sort_key fst (group_by fst snd
          (concat (map (\<lambda>g. concat (map (\<lambda>q.
              if query_capability q = capability \<and> query_target q = target
              then map (\<lambda>i. (i, gap_dimension_of g)) (query_alternatives q) else [])
            (authorized_queries g))) gaps)) [])))"

definition progress_of ::
  "hypothesis list \<Rightarrow> (string \<times> gap_dimension list) list \<Rightarrow> structural_alternative \<Rightarrow> structural_alternative" where
  "progress_of hs queried_by a =
     (let queried = queried_dimensions a
            @ (case map_of queried_by (alternative_id a) of None \<Rightarrow> [] | Some ds \<Rightarrow> ds)
      in a\<lparr>queried_dimensions := sorted_dimensions queried,
           frontier_status :=
             (if alternative_actor a \<in> causal_actor ` set (filter admitted hs) then PROMOTED
              else if set (queryable_dimensions a) \<subseteq> set queried then QUERIED_NO_CAUSAL_FINDING
              else UNEXPLORED)\<rparr>)"

definition apply_frontier_progress ::
  "structural_alternative list \<Rightarrow> hypothesis list \<Rightarrow> (string \<times> gap_dimension list) list
   \<Rightarrow> structural_alternative list" where
  "apply_frontier_progress alternatives hs queried_by = map (progress_of hs queried_by) alternatives"

datatype investigation_state = INVESTIGATION_OPEN | INVESTIGATION_EXHAUSTED | INVESTIGATION_NOT_REQUIRED

definition ANSWERED_STATES :: "string list" where
  "ANSWERED_STATES =
     [''ANSWERED_ROLE_TRANSFERRED'', ''ANSWERED_NO_CHANGE_IN_WINDOW'', ''ANSWERED_ON_CLAIM_PATH'',
      ''ANSWERED_DECLARED_UNUSED'', ''ANSWERED_SYMPTOM_MET_ELSEWHERE'']"

definition is_answered :: "frontier_answer \<Rightarrow> bool" where
  "is_answered a \<longleftrightarrow> answer_state a \<in> set ANSWERED_STATES"

definition investigation_status :: "structural_alternative list \<Rightarrow> bool \<Rightarrow> investigation_state" where
  "investigation_status alternatives is_bounded =
     (if alternatives = [] \<and> \<not> is_bounded then INVESTIGATION_NOT_REQUIRED
      else if list_ex (\<lambda>a. (case alternative_answer a of None \<Rightarrow> True | Some x \<Rightarrow> \<not> is_answered x)
                 \<and> (frontier_status a = UNEXPLORED \<or> material_for a \<noteq> [])) alternatives
      then INVESTIGATION_OPEN else INVESTIGATION_EXHAUSTED)"

section \<open>Answers\<close>

definition UNCHANGED_CONFIGURATION_RULE :: string where
  "UNCHANGED_CONFIGURATION_RULE = ''m21.frontier.unchanged-configuration''"

definition DEPENDENCY_ON_CLAIM_PATH_RULE :: string where
  "DEPENDENCY_ON_CLAIM_PATH_RULE = ''m21.frontier.dependency-on-claim-path''"

text \<open>
  \<open>_write_record\<close>: the latest of the creation and every managed write, unless one is missing or no time.
\<close>

definition write_times :: "(string \<times> json) list \<Rightarrow> string list option" where
  "write_times meta =
     (case (dict_value meta ''managedFields'', dict_value meta ''creationTimestamp'') of
        (JList (e # es), JStr created) \<Rightarrow>
          map_option (Cons created)
            (those (map (\<lambda>x. case dict_value (as_dict x) ''time'' of JStr s \<Rightarrow> Some s | _ \<Rightarrow> None) (e # es)))
      | _ \<Rightarrow> None)"

definition write_record :: "(string \<Rightarrow> instant option) \<Rightarrow> (string \<times> json) list \<Rightarrow> instant option" where
  "write_record fi b =
     (case write_times (as_dict (dict_value b ''metadata'')) of
        None \<Rightarrow> None
      | Some ts \<Rightarrow> Option.bind (those (map (\<lambda>t. fi (replace_Z t)) ts)) py_max)"

definition make_answer ::
  "structural_alternative \<Rightarrow> string \<Rightarrow> string \<Rightarrow> string option \<Rightarrow> string list \<Rightarrow> string list \<Rightarrow> string list
   \<Rightarrow> string \<Rightarrow> instant option \<Rightarrow> instant option \<Rightarrow> frontier_answer" where
  "make_answer a q st reason ids affected open_points rule written listed =
     \<lparr>answered_alternative = alternative_id a, question = q, answer_state = st, blocked_reason = reason,
      answer_evidence = ids, affected_claims = affected, transferred_claims = [],
      answer_uncertainty = open_points, answer_rule = rule, last_written_at = written, listed_at = listed,
      failed_evaluation_at = None\<rparr>"

definition configuration_open ::
  "structural_alternative \<Rightarrow> string \<Rightarrow> instant option \<Rightarrow> instant option \<Rightarrow> frontier_answer" where
  "configuration_open a reason written listed =
     make_answer a ''DID_THE_CONFIGURATION_CHANGE_INSIDE_THE_WINDOW'' ''OPEN'' (Some reason) [] (material_for a)
       [''UPSTREAM_ROLE_UNDETERMINED''] UNCHANGED_CONFIGURATION_RULE written listed"

definition versions_until :: "journal \<Rightarrow> entity_ref \<Rightarrow> instant \<Rightarrow> object_version list" where
  "versions_until history e onset = filter (\<lambda>v. observed_at v \<le> onset) (sort_key observed_at (versions_of history e))"

definition unchanged_configuration ::
  "(string \<Rightarrow> instant option) \<Rightarrow> structural_alternative \<Rightarrow> journal \<Rightarrow> evidence_coverage option \<Rightarrow> instant option
   \<Rightarrow> frontier_answer option" where
  "unchanged_configuration fi a history coverage onset =
     (case (coverage, onset) of
        (Some cov, Some t) \<Rightarrow>
          if alternative_role a \<noteq> ''configuration_source'' then None
          else Some
            (let vs = versions_until history (alternative_actor a) t; listing = last vs; at_listing = Some (observed_at listing) in
             if vs = [] then configuration_open a ''NO_LISTING'' None None
             else if lifecycle listing = DELETED then configuration_open a ''WRITTEN_IN_WINDOW'' None None
             else (case write_record fi (body listing) of
                     None \<Rightarrow> configuration_open a ''NO_WRITE_RECORD'' None at_listing
                   | Some written \<Rightarrow>
                       if written \<ge> coverage_start cov
                       then configuration_open a ''WRITTEN_IN_WINDOW'' (Some written) at_listing
                       else (case continuously_observed cov
                                    (namespace (alternative_actor a), kind (alternative_actor a)) (observed_at listing) t of
                               Some gap \<Rightarrow> configuration_open a gap (Some written) at_listing
                             | None \<Rightarrow>
                                 make_answer a ''DID_THE_CONFIGURATION_CHANGE_INSIDE_THE_WINDOW''
                                   ''ANSWERED_NO_CHANGE_IN_WINDOW'' None [evidence_id listing] (material_for a)
                                   [''CONFIGURATION_MAY_REMAIN_A_CONDITION''] UNCHANGED_CONFIGURATION_RULE
                                   (Some written) at_listing)))
      | _ \<Rightarrow> None)"

definition on_path :: "entity_ref \<Rightarrow> hypothesis \<Rightarrow> bool" where
  "on_path e h \<longleftrightarrow> e \<in> set (concat (map (path_entities \<circ> snd) (symptom_links h)))"

definition dependency_on_claim_path ::
  "structural_alternative \<Rightarrow> hypothesis list \<Rightarrow> frontier_answer option" where
  "dependency_on_claim_path a hs =
     (let claim = map_of (rev (map (\<lambda>h. (hypothesis_id h, h)) hs));
          holding = List.map_filter (\<lambda>i. case claim i of
              None \<Rightarrow> None
            | Some h \<Rightarrow> if on_path (alternative_actor a) h then Some (i, h) else None) (material_for a);
          complete = set (material_for a) \<subseteq> set (map fst holding)
      in if alternative_role a \<noteq> ''dependency'' \<or> holding = [] then None
         else Some (make_answer a ''IS_THE_DEPENDENCY_AN_UNKNOWN_UPSTREAM_ROLE''
                (if complete then ''ANSWERED_ON_CLAIM_PATH'' else ''OPEN'')
                (if complete then None else Some ''NOT_ON_EVERY_CLAIM_PATH'')
                (sorted_set (concat (map (relation_evidence_ids \<circ> snd) holding))) (sort (map fst holding))
                (if complete then [''TRANSFERRED_CLAIM_STILL_REQUIRES_ADJUDICATION''] else [''UPSTREAM_ROLE_PARTIALLY_DETERMINED''])
                DEPENDENCY_ON_CLAIM_PATH_RULE None None))"

text \<open>\<open>TraceRead\<close> (\<open>packages/rca/evidence_coverage.py\<close>): one service's trace read, as the capture recorded it.\<close>

record trace_read =
  read_namespace :: string
  read_service :: string
  read_start :: instant
  read_end :: instant
  read_completeness :: string

definition DEPENDENCY_DECLARED_UNUSED_RULE :: string where
  "DEPENDENCY_DECLARED_UNUSED_RULE = ''m21.frontier.dependency-declared-unused''"

definition unused_callers :: "structural_alternative \<Rightarrow> entity_ref list" where
  "unused_callers a = filter (\<lambda>e. kind e \<in> set WORKLOAD_KINDS) (affected_entities a)"

definition caller_spans :: "trace_span list \<Rightarrow> instant \<Rightarrow> entity_ref \<Rightarrow> trace_span list" where
  "caller_spans spans onset caller = filter (\<lambda>s. span_service s = name caller \<and> span_start s \<le> onset) spans"

definition outbound :: "trace_span list \<Rightarrow> trace_span list" where
  "outbound own = filter (\<lambda>s. span_kind s \<notin> {Some ''SERVER'', Some ''CONSUMER''}) own"

definition unused_blocked ::
  "latest_versions \<Rightarrow> trace_span list \<Rightarrow> trace_read list \<Rightarrow> instant \<Rightarrow> entity_ref \<Rightarrow> entity_ref list \<Rightarrow> string option"
where
  "unused_blocked latest spans reads onset dependency callers =
     (let own = caller_spans spans onset; address = (\<lambda>s. span_attribute s ''server.address'') in
      if list_ex (\<lambda>c. list_ex (\<lambda>s. address s \<in> Some ` set (declared_hosts latest c dependency)) (outbound (own c))) callers
      then Some ''CALLED''
      else if \<not> list_all (\<lambda>c. list_ex (\<lambda>s. span_kind s = Some ''SERVER'') (own c)) callers
      then Some ''CALLER_NOT_TRACED''
      else if \<not> list_all (\<lambda>c. outbound (own c) \<noteq> []
                  \<and> list_all (\<lambda>s. address s \<notin> {None, Some []}) (outbound (own c))) callers
      then Some ''CALLS_NOT_TRACED''
      else if list_ex (\<lambda>r. read_completeness r = ''FAILED''
                  \<and> (read_namespace r, read_service r) \<in> (\<lambda>c. (namespace c, name c)) ` set callers) reads
      then Some ''TRACE_READ_FAILED''
      else None)"

definition dependency_declared_unused ::
  "structural_alternative \<Rightarrow> latest_versions \<Rightarrow> trace_span list \<Rightarrow> trace_read list option \<Rightarrow> instant option
   \<Rightarrow> frontier_answer option" where
  "dependency_declared_unused a latest spans reads onset =
     (let callers = unused_callers a; q = ''IS_THE_DEPENDENCY_AN_UNKNOWN_UPSTREAM_ROLE'';
          dependency = alternative_actor a in
      case (reads, onset) of
        (Some rs, Some t) \<Rightarrow>
          if alternative_role a \<noteq> ''dependency'' \<or> callers = []
             \<or> list_ex (\<lambda>c. declared_hosts latest c dependency = []) callers
          then None
          else Some (case unused_blocked latest spans rs t dependency callers of
              Some reason \<Rightarrow>
                make_answer a q ''OPEN'' (Some reason) [] (material_for a) [''UPSTREAM_ROLE_UNDETERMINED'']
                  DEPENDENCY_DECLARED_UNUSED_RULE None None
            | None \<Rightarrow>
                make_answer a q ''ANSWERED_DECLARED_UNUSED'' None
                  (sorted_set (concat (map (\<lambda>c. map span_evidence (outbound (caller_spans spans t c))) callers)))
                  (material_for a) [''DECLARATION_MAY_BE_USED_OUTSIDE_THE_WINDOW'']
                  DEPENDENCY_DECLARED_UNUSED_RULE None None)
      | _ \<Rightarrow> None)"

end
