(* ===== verification/Verdict.thy ===== *)
theory Verdict
  imports Resolution Causal_Closure Frontier
begin

text \<open>
  The final decision over a set of hypotheses (\<open>resolve_hypotheses\<close> in \<open>packages/rca/resolution.py\<close>): the
  contest of \<open>Resolution\<close> with the eliminations its rule preconditions allow, the claims other claims
  explain, the observed executions, the open questions of the frontier, the coverage of the declared
  symptoms, and the state, status and level that follow. What answers a question by refusals at
  another peer (\<open>packages/rca/refusal_sufficiency.py\<close>) is the argument \<open>met_elsewhere\<close>.
\<close>

section \<open>Inputs\<close>

record verdict_inputs =
  given_grace :: "duration option"
  given_eligibilities :: "root_eligibilities option"
  given_mismatches :: "(string \<times> mechanism_mismatch) list"
  rule_preconditions :: "((string \<times> string) \<times> precondition_result list) list"
  given_reasons :: "((string \<times> string) \<times> audit_reason list) list"
  structural_alternatives :: "structural_alternative list"
  cluster_events :: "cluster_event list"
  propagation_edges :: "edge list option"
  spans_seen :: "trace_span list"
  object_history :: journal
  observation_end :: "instant option"
  statuses_seen :: "pod_status list"
  owned_by :: "(entity_ref \<times> entity_ref) list"
  selected_pods :: "(entity_ref \<times> entity_ref list) list"
  coverage_seen :: "evidence_coverage option"
  assessed_onset :: "instant option"
  latest_objects :: latest_versions
  trace_reads :: "trace_read list option"

section \<open>Rules that may not eliminate\<close>

definition blocked_rules :: "timing_masks \<Rightarrow> verdict_inputs \<Rightarrow> (string \<times> string) list" where
  "blocked_rules masks i =
     map fst (filter (\<lambda>(_, rs). \<not> preconditions_allow_elimination rs) (rule_preconditions i))
     @ map fst (filter (\<lambda>(_, rs). rs \<noteq> []) (given_reasons i))
     @ map (\<lambda>h. (h, fst EPISODE_END_RULE)) (ended_mask masks)"

definition effective_mismatches :: "timing_masks \<Rightarrow> verdict_inputs \<Rightarrow> (string \<times> mechanism_mismatch) list" where
  "effective_mismatches masks i =
     filter (\<lambda>(h, _). (h, fst RESOURCE_PRESSURE_RULE) \<notin> set (blocked_rules masks i)) (given_mismatches i)"

definition effective_eligibilities :: "timing_masks \<Rightarrow> verdict_inputs \<Rightarrow> root_eligibilities option" where
  "effective_eligibilities masks i =
     map_option (\<lambda>el.
         if list_ex (\<lambda>(_, r). r = fst EPISODE_END_RULE) (blocked_rules masks i)
         then el\<lparr>elig_ended := filter (\<lambda>(h, _). (h, fst EPISODE_END_RULE) \<notin> set (blocked_rules masks i)) (elig_ended el)\<rparr>
         else el)
       (given_eligibilities i)"

section \<open>Explained claims and observed executions\<close>

definition claims_explained :: "explanation list \<Rightarrow> (string \<times> explanation) list" where
  "claims_explained rs =
     fold (\<lambda>r d. AList.update (explained_claim r) r d)
       (filter (\<lambda>r. explanation_consequence r = ''EXPLAINS_CLAIM'') rs) []"

definition observation_excluded :: "resolution_trace \<Rightarrow> string list" where
  "observation_excluded tr =
     map eliminated_id (filter (\<lambda>e. elimination_code e \<noteq> EXPLICIT_TEMPORAL_CONTRADICTION) (eliminations tr))"

definition executions ::
  "(string \<Rightarrow> instant option) \<Rightarrow> verdict_inputs \<Rightarrow> hypothesis list \<Rightarrow> hypothesis \<Rightarrow> support_record list result" where
  "executions fi i hs h =
     (let possible = change_onset_path_support h; history = object_history i; spans = spans_seen i in
      if is_chaos_kind (kind (causal_actor h))
      then and_then (fault_execution fi h possible hs (cluster_events i) spans history (statuses_seen i)) (\<lambda>r. Inr [r])
      else if kind (causal_actor h) = ''Deployment''
      then and_then (failed_rollout h possible history (cluster_events i) spans (observation_end i)) (\<lambda>r.
             Inr [rollout_execution h possible history spans (observation_end i), r])
      else Inr [quota_execution h possible (cluster_events i)])"

text \<open>The execution records by claim; the dict keeps the last of two claims that share an identifier.\<close>

type_synonym execution_records = "(string \<times> support_record list) list"

definition all_executions ::
  "(string \<Rightarrow> instant option) \<Rightarrow> verdict_inputs \<Rightarrow> hypothesis list \<Rightarrow> execution_records result" where
  "all_executions fi i hs =
     traverse (\<lambda>h. and_then (executions fi i hs h) (\<lambda>rs. Inr (hypothesis_id h, rs))) hs"

definition execution_of :: "execution_records \<Rightarrow> string \<Rightarrow> support_record list" where
  "execution_of ex i = (case map_of (rev ex) i of None \<Rightarrow> [] | Some rs \<Rightarrow> rs)"

definition merged_record :: "support_record list \<Rightarrow> support_record" where
  "merged_record rs =
     (hd rs)\<lparr>support_status := (if list_ex (\<lambda>r. support_status r = FIRED) rs then FIRED else NOT_FIRED),
             decisive_evidence := sorted_set (concat (map decisive_evidence rs)),
             witnesses := concat (map witnesses rs)\<rparr>"

definition observed_in_records :: "execution_records \<Rightarrow> string \<Rightarrow> support_record" where
  "observed_in_records ex i = merged_record (execution_of ex i)"

definition strong_ids :: "timing_masks \<Rightarrow> execution_records \<Rightarrow> resolution_trace \<Rightarrow> string list" where
  "strong_ids masks ex tr =
     filter (\<lambda>i. support_status (observed_in_records ex i) = FIRED \<and> i \<notin> set (strong_mask masks))
       (plausible_hypotheses tr)"

section \<open>Audits\<close>

definition rows_of :: "string \<Rightarrow> ((string \<times> string) \<times> 'a list) list \<Rightarrow> (string \<times> 'a) list" where
  "rows_of hid table =
     concat (map (\<lambda>((h, rule), xs). if h = hid then map (Pair rule) xs else []) (sort_key fst table))"

definition rule_audits :: "verdict_inputs \<Rightarrow> string \<Rightarrow> rule_audit list result" where
  "rule_audits i hid =
     and_then (traverse (\<lambda>(rule, r). make_rule_audit rule (Some r) None) (rows_of hid (rule_preconditions i))) (\<lambda>a.
     and_then (traverse (\<lambda>(rule, r). make_rule_audit rule None (Some r)) (rows_of hid (given_reasons i))) (\<lambda>b.
       Inr (a @ b)))"

definition final_audit ::
  "timing_masks \<Rightarrow> verdict_inputs \<Rightarrow> execution_records \<Rightarrow> resolution_audit \<Rightarrow> resolution_audit result" where
  "final_audit masks i ex a =
     and_then (rule_audits i (audit_hypothesis a)) (\<lambda>rows.
       let a1 = a\<lparr>root_support := root_support a @ execution_of ex (audit_hypothesis a), precondition_audit := rows\<rparr> in
       Inr (if audit_hypothesis a \<in> fst ` set (effective_mismatches masks i)
            then a1\<lparr>audit_state := CLAIM_CONTRADICTED, audit_plausible := False\<rparr> else a1))"

section \<open>Answers\<close>

definition alternative_named :: "structural_alternative list \<Rightarrow> string \<Rightarrow> structural_alternative option" where
  "alternative_named material = map_of (rev (map (\<lambda>a. (alternative_id a, a)) material))"

text \<open>An open answer is replaced by what the rule finds.\<close>

definition try_rule ::
  "structural_alternative list \<Rightarrow> (structural_alternative \<Rightarrow> frontier_answer option) \<Rightarrow> frontier_answer list
   \<Rightarrow> frontier_answer list" where
  "try_rule material rule as =
     map (\<lambda>a. if answer_state a \<noteq> ''OPEN'' then a
       else (case Option.bind (alternative_named material (answered_alternative a)) rule of
               None \<Rightarrow> a | Some b \<Rightarrow> b)) as"

text \<open>As before, but an open finding leaves a partial answer from the claims' own paths as it was.\<close>

definition try_rule_kept ::
  "structural_alternative list \<Rightarrow> (structural_alternative \<Rightarrow> frontier_answer option) \<Rightarrow> frontier_answer list
   \<Rightarrow> frontier_answer list" where
  "try_rule_kept material rule as =
     (let asked = map answered_alternative (filter (\<lambda>a. answer_state a = ''OPEN'') as) in
      map (\<lambda>a. case (if answered_alternative a \<in> set asked
                     then Option.bind (alternative_named material (answered_alternative a)) rule else None) of
            None \<Rightarrow> a
          | Some b \<Rightarrow> if is_answered b \<or> answer_rule a \<noteq> DEPENDENCY_ON_CLAIM_PATH_RULE then b else a) as)"

definition answer_questions ::
  "(string \<Rightarrow> instant option) \<Rightarrow> (structural_alternative \<Rightarrow> frontier_answer option) \<Rightarrow> verdict_inputs
   \<Rightarrow> hypothesis list \<Rightarrow> structural_alternative list \<Rightarrow> explanation list \<Rightarrow> string list \<Rightarrow> frontier_answer list" where
  "answer_questions fi met_elsewhere i admitted_claims material rels contradicted_ids =
     (let a0 = answer_frontier material rels contradicted_ids;
          a1 = try_rule material
                 (\<lambda>a. unchanged_configuration fi a (object_history i) (coverage_seen i) (assessed_onset i)) a0;
          a2 = try_rule material (\<lambda>a. dependency_on_claim_path a admitted_claims) a1;
          a3 = try_rule_kept material
                 (\<lambda>a. dependency_declared_unused a (latest_objects i) (spans_seen i) (trace_reads i) (assessed_onset i)) a2
      in try_rule_kept material met_elsewhere a3)"

section \<open>Coverage of the declared symptoms\<close>

definition hop_target_of :: "string \<Rightarrow> causal_witness \<Rightarrow> entity_ref option" where
  "hop_target_of r w = map_option hop_target (List.find (\<lambda>hop. relation hop = r) (witness_path w))"

fun target_interval ::
  "(string \<Rightarrow> instant option) \<Rightarrow> entity_ref \<Rightarrow> json list \<Rightarrow> (instant \<times> instant) option result" where
  "target_interval fi t [] = Inr None"
| "target_interval fi t (JDict d # es) =
     (let n = json_text (dict_value d ''target'') in
      if (before_slash n, before_slash (after_slash n)) \<noteq> (namespace t, name t) then target_interval fi t es
      else case (dict_value d ''applied_at'', dict_value d ''recovered_at'') of
        (JStr a, JStr r) \<Rightarrow>
          (case (fi a, fi r) of
             (Some s, Some e) \<Rightarrow> Inr (Some (s, e))
           | _ \<Rightarrow> Inl (ValueError ''Invalid isoformat string''))
      | _ \<Rightarrow> target_interval fi t es)"
| "target_interval fi t (_ # es) = Inl (AttributeError ''get'')"

definition execution_interval ::
  "(string \<Rightarrow> instant option) \<Rightarrow> journal \<Rightarrow> instant option \<Rightarrow> causal_witness \<Rightarrow> (instant \<times> instant) option result" where
  "execution_interval fi history until w =
     (let rolled = (case hop_target_of ''rolls_out'' w of
            None \<Rightarrow> None
          | Some p \<Rightarrow>
              if kind p \<noteq> ''Pod'' then None
              else (case (created_version (versions_of history p), interval_end_of (versions_of history p) until) of
                      (Some v, Some e) \<Rightarrow> Some (observed_at v, e)
                    | _ \<Rightarrow> None))
      in case hop_target_of ''fault_targets'' w of
           Some t \<Rightarrow> if kind t = ''Pod'' then target_interval fi t (target_entries (origin w)) else Inr rolled
         | None \<Rightarrow> Inr rolled)"

definition sole_ready ::
  "entity_ref \<Rightarrow> entity_ref list \<Rightarrow> pod_status list \<Rightarrow> instant \<Rightarrow> instant \<Rightarrow> bool" where
  "sole_ready p others statuses s e \<longleftrightarrow>
     list_ex (\<lambda>o1. pod o1 = p) statuses
     \<and> list_all (\<lambda>q. q = p
         \<or> (let os = filter (\<lambda>o1. pod o1 = q) statuses in
            unready_at s os \<and> \<not> unknown_in s e os \<and> \<not> ready_in s e os \<and> \<not> ready_before s os)) others"

text \<open>A Service and its only ready Pod count as one symptom during the execution.\<close>

definition service_cover :: "pod_status list \<Rightarrow> entity_ref \<Rightarrow> instant \<Rightarrow> instant \<Rightarrow> entity_ref \<times> entity_ref list \<Rightarrow> entity_ref list"
where
  "service_cover statuses symptom s e sel =
     (case sel of (service, pods) \<Rightarrow>
        (case (if symptom \<in> set pods then [symptom]
               else if symptom = service then filter (\<lambda>p. list_ex (\<lambda>o1. pod o1 = p) statuses) pods else []) of
           [p] \<Rightarrow> if sole_ready p pods statuses s e then [service, p] else []
         | _ \<Rightarrow> []))"

definition witness_cover ::
  "(string \<Rightarrow> instant option) \<Rightarrow> verdict_inputs \<Rightarrow> causal_witness \<Rightarrow> entity_ref list result" where
  "witness_cover fi i w =
     and_then (execution_interval fi (object_history i) (observation_end i) w) (\<lambda>iv.
       Inr (case iv of
              None \<Rightarrow> []
            | Some (s, e) \<Rightarrow> concat (map (service_cover (statuses_seen i) (witness_symptom w) s e) (selected_pods i))))"

fun workloads_above :: "nat \<Rightarrow> (entity_ref \<times> entity_ref) list \<Rightarrow> entity_ref \<Rightarrow> entity_ref list" where
  "workloads_above 0 owners p = []"
| "workloads_above (Suc n) owners p =
     (case map_of owners p of
        None \<Rightarrow> []
      | Some ow \<Rightarrow> (if kind ow \<in> set WORKLOAD_KINDS then [ow] else []) @ workloads_above n owners ow)"

definition covered_symptoms ::
  "(string \<Rightarrow> instant option) \<Rightarrow> verdict_inputs \<Rightarrow> causal_witness list \<Rightarrow> entity_ref list result" where
  "covered_symptoms fi i ws =
     and_then (traverse (witness_cover fi i) ws) (\<lambda>cs.
       let base = map witness_symptom ws @ concat cs in
       Inr (base @ concat (map (workloads_above 3 (owned_by i)) (filter (\<lambda>p. kind p = ''Pod'') base))))"

fun all_covered ::
  "(string \<Rightarrow> instant option) \<Rightarrow> verdict_inputs \<Rightarrow> execution_records \<Rightarrow> hypothesis list \<Rightarrow> bool result" where
  "all_covered fi i ex [] = Inr True"
| "all_covered fi i ex (h # hs) =
     and_then (covered_symptoms fi i (witnesses (observed_in_records ex (hypothesis_id h)))) (\<lambda>c.
       if set (symptom_entities h) \<subseteq> set c then all_covered fi i ex hs else Inr False)"

definition strong_complete ::
  "(string \<Rightarrow> instant option) \<Rightarrow> verdict_inputs \<Rightarrow> execution_records \<Rightarrow> hypothesis list \<Rightarrow> string list \<Rightarrow> string list
   \<Rightarrow> bool result" where
  "strong_complete fi i ex hs supported_ids strong =
     (if length (remdups supported_ids) = 1 \<and> set strong = set supported_ids
      then all_covered fi i ex (filter (\<lambda>h. hypothesis_id h \<in> set supported_ids) hs)
      else Inr False)"

section \<open>The verdict\<close>

definition independent_causes ::
  "execution_records \<Rightarrow> hypothesis list \<Rightarrow> explanation list \<Rightarrow> string list \<Rightarrow> bool" where
  "independent_causes ex hs rels strong \<longleftrightarrow>
     length (remdups strong) > 1
     \<and> \<not> list_ex (\<lambda>r. ''EXPLANATION_CYCLE'' \<in> set (remaining_uncertainty r)) rels
     \<and> list_all (\<lambda>a. list_all (\<lambda>b. a = b
          \<or> set (decisive_evidence (observed_in_records ex a)) \<inter> set (decisive_evidence (observed_in_records ex b)) = {}
            \<and> map_option causal_actor (List.find (\<lambda>h. hypothesis_id h = a) hs)
                \<noteq> map_option causal_actor (List.find (\<lambda>h. hypothesis_id h = b) hs)) strong) strong"

definition limiting_questions ::
  "structural_alternative list \<Rightarrow> frontier_answer list \<Rightarrow> string list \<Rightarrow> string list" where
  "limiting_questions material answers supported_ids =
     (let answered = map answered_alternative (filter is_answered answers) in
      sort (map alternative_id (filter (\<lambda>a. alternative_id a \<notin> set answered
        \<and> set supported_ids \<inter> set (material_for a) \<noteq> {}) material)))"

definition contest_status :: "resolution_trace \<Rightarrow> string" where
  "contest_status tr =
     (let families = (\<lambda>s. filter (\<lambda>f. family_state f = s) (causal_families tr)) in
      if length (families FAMILY_SUPPORTED) = 1 \<and> families FAMILY_UNRESOLVED = [] then ''SUPPORTED_CAUSE''
      else if plausible_hypotheses tr \<noteq> [] then ''COMPETING_CAUSES'' else ''INSUFFICIENT_EVIDENCE'')"

text \<open>The trace with everything but its state, basis and open dimensions.\<close>

definition report ::
  "hypothesis list \<Rightarrow> execution_records \<Rightarrow> explanation list \<Rightarrow> (string \<times> explanation) list
   \<Rightarrow> structural_alternative list \<Rightarrow> frontier_answer list \<Rightarrow> string list \<Rightarrow> string list \<Rightarrow> resolution_audit list
   \<Rightarrow> resolution_trace \<Rightarrow> resolution_trace" where
  "report hs ex rels explained material answers strong limiting audits tr =
     (let independent = independent_causes ex hs rels strong; supported_ids = plausible_hypotheses tr in
      tr\<lparr>hypothesis_audits := audits, semantics_version := ''m21.v3'', trace_explanations := rels,
         explained_hypotheses := sort (map fst explained),
         mechanism_verified_hypotheses := sorted_set strong,
         independent_mechanism_causes := (if independent then sorted_set strong else []),
         frontier_answers := answers,
         trace_status := (if independent then ''MULTIPLE_OBSERVED_CAUSES'' else contest_status tr),
         claim_level := (if strong \<noteq> [] \<and> set strong = set supported_ids then ''OBSERVED_MECHANISM_CAUSE''
                         else if supported_ids \<noteq> [] then ''POSSIBLE_INITIATING_CAUSE'' else ''UNESTABLISHED''),
         admitted_hypotheses := sort (map hypothesis_id (filter admitted hs)),
         context_hypotheses := sort (map hypothesis_id (filter (\<lambda>h. \<not> admitted h) hs)),
         considered_hypotheses := sort (map hypothesis_id hs), material_frontier_ids := limiting,
         frontier_bindings := map (\<lambda>a. (alternative_id a, material_for a)) material\<rparr>)"

text \<open>Only an observed execution that accounts for the whole declared scope resolves the incident.\<close>

definition settle ::
  "structural_alternative list \<Rightarrow> bool \<Rightarrow> string list \<Rightarrow> resolution_trace \<Rightarrow> resolution_trace" where
  "settle material complete limiting tr =
     (if complete \<and> unresolved_hypotheses tr = [] \<and> limiting = []
      then tr\<lparr>trace_state := RESOLVED, trace_status := ''MECHANISM_VERIFIED_CAUSE'',
              decision_basis := ''OBSERVED_MECHANISM_DISAMBIGUATED_V1'', unresolved_dimensions := []\<rparr>
      else if trace_state tr \<noteq> RESOLVED then tr
      else if limiting \<noteq> []
      then tr\<lparr>trace_state := AMBIGUOUS, decision_basis := ''MATERIAL_CAUSAL_FRONTIER'',
              unresolved_dimensions :=
                sorted_set (map alternative_role (filter (\<lambda>a. alternative_id a \<in> set limiting) material))
                @ (if complete then [] else [''mechanism_execution''])\<rparr>
      else tr\<lparr>trace_state := AMBIGUOUS, decision_basis := ''SUPPORTED_POSSIBLE_CAUSE'',
              unresolved_dimensions := [''mechanism_execution'']\<rparr>)"

definition conclude ::
  "(string \<Rightarrow> instant option) \<Rightarrow> timing_masks \<Rightarrow> (structural_alternative \<Rightarrow> frontier_answer option) \<Rightarrow> verdict_inputs
   \<Rightarrow> hypothesis list \<Rightarrow> string list \<Rightarrow> execution_records \<Rightarrow> explanation list \<Rightarrow> (string \<times> explanation) list
   \<Rightarrow> resolution_trace \<Rightarrow> resolution_trace result" where
  "conclude fi masks met_elsewhere i hs excluded_ids ex rels explained tr0 =
     (let tr = attach_audits fi masks (given_grace i) hs tr0;
          claims = filter admitted hs;
          material = material_frontier (structural_alternatives i) claims;
          answers = answer_questions fi met_elsewhere i claims material rels
                      (filter (\<lambda>x. x \<notin> fst ` set explained) excluded_ids);
          strong = strong_ids masks ex tr;
          limiting = limiting_questions material answers (plausible_hypotheses tr)
      in and_then (traverse (final_audit masks i ex) (hypothesis_audits tr)) (\<lambda>audits.
         and_then (strong_complete fi i ex hs (plausible_hypotheses tr) strong) (\<lambda>complete.
           Inr (settle material complete limiting
                  (report hs ex rels explained material answers strong limiting audits tr)))))"

definition resolve_hypotheses ::
  "(string \<Rightarrow> instant option) \<Rightarrow> timing_masks \<Rightarrow> (structural_alternative \<Rightarrow> frontier_answer option) \<Rightarrow> verdict_inputs
   \<Rightarrow> hypothesis list \<Rightarrow> resolution_trace result" where
  "resolve_hypotheses fi masks met_elsewhere i hs =
     (let contest = (\<lambda>explained. resolve fi masks (given_grace i) (effective_eligibilities masks i)
                       (effective_mismatches masks i) explained hs);
          relate = (\<lambda>tr excluded_ids strong.
                      explanations hs (plausible_hypotheses tr) (cluster_events i) (propagation_edges i) excluded_ids strong)
      in and_then (contest []) (\<lambda>tr0.
           let excluded_ids = observation_excluded tr0;
               rels0 = relate tr0 excluded_ids []; explained0 = claims_explained rels0
           in and_then (if explained0 \<noteq> [] then contest explained0 else Inr tr0) (\<lambda>tr1.
              and_then (all_executions fi i hs) (\<lambda>ex.
                let strong = strong_ids masks ex tr1;
                    rels1 = relate tr1 excluded_ids strong; explained1 = claims_explained rels1;
                    anew = (strong \<noteq> [] \<and> fst ` set explained1 \<noteq> fst ` set explained0)
                in and_then (if anew then contest explained1 else Inr tr1) (\<lambda>tr2.
                     conclude fi masks met_elsewhere i hs excluded_ids ex
                       (if anew then rels1 else rels0) (if anew then explained1 else explained0) tr2)))))"

end
