(* ===== verification/Executions_Correct.thy ===== *)
theory Executions_Correct
  imports Verdict Resolution_Correct
begin

text \<open>
  What an observed execution shows: every witness of an execution rule stands on the supported change
  of its own claim and shows at a symptom the claim declares, and a slow response counts as an effect
  only when it is typical.
\<close>

section \<open>Witnesses\<close>

text \<open>A witness of a claim's execution: of its actor, at a declared symptom, from a finding of the case.\<close>

definition shows_at_symptom :: "hypothesis list \<Rightarrow> hypothesis \<Rightarrow> causal_witness \<Rightarrow> bool" where
  "shows_at_symptom hs h w \<longleftrightarrow> witness_actor w = causal_actor h \<and> witness_instance w = actor_instance h
     \<and> witness_symptom w \<in> set (symptom_entities h)
     \<and> origin w \<in> set (concat (map actor_findings (h # hs)))
     \<and> witness_claim_level w = ''OBSERVED_MECHANISM_CAUSE''"

lemma execution_witness_simps [simp]:
  "witness_actor (execution_witness h f m at' s p o1 ids rel cov pts rule) = causal_actor h"
  "witness_instance (execution_witness h f m at' s p o1 ids rel cov pts rule) = actor_instance h"
  "witness_symptom (execution_witness h f m at' s p o1 ids rel cov pts rule) = s"
  "origin (execution_witness h f m at' s p o1 ids rel cov pts rule) = f"
  "witness_claim_level (execution_witness h f m at' s p o1 ids rel cov pts rule) = ''OBSERVED_MECHANISM_CAUSE''"
  "witness_onset (execution_witness h f m at' s p o1 ids rel cov pts rule) = o1"
  "witness_evidence (execution_witness h f m at' s p o1 ids rel cov pts rule) = ids"
  "witness_path (execution_witness h f m at' s p o1 ids rel cov pts rule) = p"
  by (simp_all add: execution_witness_def)

lemma with_fault_action_simps [simp]:
  "witness_actor (with_fault_action hist w) = witness_actor w"
  "witness_instance (with_fault_action hist w) = witness_instance w"
  "witness_symptom (with_fault_action hist w) = witness_symptom w"
  "origin (with_fault_action hist w) = origin w"
  "witness_claim_level (with_fault_action hist w) = witness_claim_level w"
  "witness_onset (with_fault_action hist w) = witness_onset w"
  "witness_path (with_fault_action hist w) = witness_path w"
  by (simp_all add: with_fault_action_def split: option.splits)

lemma shows_at_symptom_execution [simp]:
  "shows_at_symptom hs h (execution_witness h f m at' s p o1 ids rel cov pts rule) \<longleftrightarrow>
     s \<in> set (symptom_entities h) \<and> f \<in> set (concat (map actor_findings (h # hs)))"
  by (simp add: shows_at_symptom_def)

lemma shows_at_symptom_action [simp]:
  "shows_at_symptom hs h (with_fault_action hist w) \<longleftrightarrow> shows_at_symptom hs h w"
  by (simp add: shows_at_symptom_def)

lemma execution_record_simps [simp]:
  "witnesses (execution_record rule reason ws) = ws"
  "support_status (execution_record rule reason ws) = FIRED \<longleftrightarrow> ws \<noteq> []"
  "decisive_evidence (execution_record rule reason ws) = sorted_set (concat (map witness_evidence ws))"
  by (simp_all add: execution_record_def)

lemma calling_symptoms_declared: "s \<in> set (calling_symptoms h t) \<Longrightarrow> s \<in> set (symptom_entities h)"
  by (simp add: calling_symptoms_def)

lemma map_filterE:
  assumes "y \<in> set (List.map_filter f xs)"
  obtains x where "x \<in> set xs" "f x = Some y"
  using assms by (force simp: List.map_filter_def)

subsection \<open>Quota rejections\<close>

lemma quota_shows:
  assumes "w \<in> set (witnesses (quota_execution h possible events))"
  shows "shows_at_symptom hs h w \<and> support_status possible = FIRED"
proof -
  from assms obtain f e link where "f \<in> set (actor_findings h)" "link \<in> set (symptom_links h)"
    "w = quota_witness h f e link" "support_status possible = FIRED"
    by (auto simp: quota_execution_def split: if_splits)
  moreover have "fst link \<in> set (symptom_entities h)" if "link \<in> set (symptom_links h)"
    using symptom_links_walk [of "fst link" "snd link" h] that by simp
  ultimately show ?thesis by (auto simp: quota_witness_def)
qed

subsection \<open>Fault experiments\<close>

lemma fault_executions_subset:
  assumes "f \<in> set (fault_executions h hs)"
  shows "f \<in> set (concat (map actor_findings (h # hs)))" "finding_kind f = FAULT_INJECTION"
  using assms by (auto simp: fault_executions_def Let_def spawned_by_def split: if_splits option.splits)

lemma read_targets_origins:
  assumes "read_targets fi fs = Inr ts" "(f, t) \<in> set ts"
  shows "f \<in> set fs \<and> (\<exists>x\<in>set (target_entries f). read_target fi x = Inr t)"
  using assms unfolding read_targets_def by (force dest!: traverse_InrD)

lemma fault_witnesses_cases:
  assumes "w \<in> set (fault_witnesses fi h onset hs events spans hist sts fe (f, t))"
  obtains s e where "applied_at t = Some s" "recovered_at t = Some e" "connects onset s e"
    "(\<exists>tgt. w \<in> set (service_effect_witness fi h onset f tgt s e spans fe sts hist))
     \<or> (\<exists>k p inside. map_of (symptom_pods h hs) k = Some p \<and> w = pod_witness h onset f p inside)"
proof -
  from assms obtain s e where t: "applied_at t = Some s" "recovered_at t = Some e"
    by (cases "applied_at t"; cases "recovered_at t") (simp_all add: fault_witnesses_def)
  with assms have c: "connects onset s e" by (simp add: fault_witnesses_def split: if_splits)
  show thesis
  proof (cases "map_of (symptom_pods h hs) (target_namespace t, target_name t)")
    case None
    with assms t c have "\<exists>tgt. w \<in> set (service_effect_witness fi h onset f tgt s e spans fe sts hist)"
      by (auto simp: fault_witnesses_def split: if_splits)
    with t c that show ?thesis by blast
  next
    case (Some p)
    then have "w = pod_witness h onset f p (pod_effect events p s e)"
      using assms t c by (cases "pod_effect events p s e") (simp_all add: fault_witnesses_def)
    with t c Some that show ?thesis by blast
  qed
qed

lemma service_effect_witness_shows:
  assumes "w \<in> set (service_effect_witness fi h onset f tgt s e spans fe sts hist)"
  shows "witness_symptom w \<in> set (symptom_entities h) \<and> witness_actor w = causal_actor h
    \<and> witness_instance w = actor_instance h \<and> origin w = f \<and> witness_onset w = onset
    \<and> witness_claim_level w = ''OBSERVED_MECHANISM_CAUSE''"
  using assms unfolding service_effect_witness_def
  by (elim map_filterE) (auto split: option.splits dest: calling_symptoms_declared)

lemma symptom_pods_declared:
  "map_of (symptom_pods h hs) k = Some p \<Longrightarrow> causal_actor p \<in> set (symptom_entities h)"
  by (drule map_of_SomeD) (auto simp: symptom_pods_def)

lemma fault_witnesses_show:
  assumes w: "w \<in> set (fault_witnesses fi h onset hs events spans hist sts fe (f, t))"
    and f: "f \<in> set (concat (map actor_findings (h # hs)))"
  shows "shows_at_symptom hs h w \<and> witness_onset w = onset \<and> origin w = f
    \<and> (\<exists>s e. applied_at t = Some s \<and> recovered_at t = Some e \<and> connects onset s e)"
  using w
proof (cases rule: fault_witnesses_cases)
  case (1 s e)
  from 1(4) show ?thesis
  proof (elim disjE exE conjE)
    fix tgt assume "w \<in> set (service_effect_witness fi h onset f tgt s e spans fe sts hist)"
    from service_effect_witness_shows [OF this] f 1(1-3) show ?thesis
      unfolding shows_at_symptom_def by blast
  next
    fix k p inside assume p: "map_of (symptom_pods h hs) k = Some p" "w = pod_witness h onset f p inside"
    with f symptom_pods_declared [OF p(1)] 1(1-3) show ?thesis by (simp add: pod_witness_def)
  qed
qed

lemma fault_shows:
  assumes r: "fault_execution fi h possible hs events spans hist sts = Inr r" and w: "w \<in> set (witnesses r)"
  shows "shows_at_symptom hs h w \<and> support_status possible = FIRED \<and> finding_kind (origin w) = FAULT_INJECTION
    \<and> (\<exists>onset s e t. episode_onset h = Some onset \<and> witness_onset w = onset \<and> connects onset s e
        \<and> t \<in> set (target_entries (origin w))
        \<and> (\<exists>x. read_target fi t = Inr x \<and> applied_at x = Some s \<and> recovered_at x = Some e))"
proof -
  obtain onset where onset: "episode_onset h = Some onset"
    using r w by (cases "episode_onset h") (auto simp: fault_execution_def)
  have fired: "support_status possible = FIRED"
    using r w by (auto simp: fault_execution_def onset split: if_splits)
  from r w obtain ts where ts: "read_targets fi (fault_executions h hs) = Inr ts"
    and w': "w \<in> set (map (with_fault_action hist) (concat (map (fault_witnesses fi h onset hs events spans hist sts
        (py_min (List.map_filter (applied_at \<circ> snd) ts))) ts)))"
    by (cases "support_status possible = FIRED \<and> actor_instance h \<noteq> None \<and> is_chaos_kind (kind (causal_actor h))")
       (auto simp: fault_execution_def onset)
  from w' obtain ft v where v: "ft \<in> set ts" "w = with_fault_action hist v"
    "v \<in> set (fault_witnesses fi h onset hs events spans hist sts (py_min (List.map_filter (applied_at \<circ> snd) ts)) ft)"
    by (simp only: set_map set_concat image_iff Union_iff bex_simps) blast
  obtain f t where ft: "ft = (f, t)" by (cases ft)
  from read_targets_origins [OF ts, of f t] v(1) ft obtain x where f: "f \<in> set (fault_executions h hs)"
    and x: "x \<in> set (target_entries f)" "read_target fi x = Inr t" by blast
  with fault_witnesses_show [OF v(3) [unfolded ft] fault_executions_subset(1) [OF f]] fault_executions_subset(2) [OF f]
    onset fired x v(2) show ?thesis by auto
qed

subsection \<open>Rollouts\<close>

lemma fold_update_snd:
  "snd ` set (fold (\<lambda>w d. AList.update (k w) (g w) d) ws d0) \<subseteq> g ` set ws \<union> snd ` set d0"
proof (induction ws arbitrary: d0)
  case (Cons w ws)
  have "snd ` set (AList.update (k w) (g w) d) \<subseteq> insert (g w) (snd ` set d)" for d
    by (induction d) auto
  from this [of d0] Cons [of "AList.update (k w) (g w) d0"]
  have "snd ` set (fold (\<lambda>w d. AList.update (k w) (g w) d) ws (AList.update (k w) (g w) d0))
      \<subseteq> g ` set ws \<union> insert (g w) (snd ` set d0)" by blast
  then show ?case by simp
qed simp

lemma rollout_origins_iff:
  assumes "(f, t) \<in> set (rollout_origins r)"
  shows "f \<in> origin ` set (witnesses r) \<and> finding_kind f \<in> set ROLLOUT_ORIGIN_KINDS \<and> at f = Some t"
proof -
  from assms have "f \<in> set (support_origins r)" "finding_kind f \<in> set ROLLOUT_ORIGIN_KINDS" "at f = Some t"
    by (auto simp: rollout_origins_def elim!: map_filterE split: if_splits)
  moreover have "set (support_origins r) \<subseteq> origin ` set (witnesses r)"
    using fold_update_snd [of "\<lambda>w. evidence_ids (origin w)" origin "witnesses r" "[]"]
    by (simp add: support_origins_def)
  ultimately show ?thesis by blast
qed

lemma rollout_scopeD:
  "rollout_scope h r spans = Some (u, onset) \<Longrightarrow> support_status r = FIRED \<and> episode_onset h = Some onset
     \<and> kind (causal_actor h) = ''Deployment'' \<and> map_option uid (actor_instance h) = Some u"
  by (auto simp: rollout_scope_def split: option.splits if_splits)

text \<open>The rollout rules as they are used: on the change support of the claim itself.\<close>

lemma change_origins: "w \<in> set (witnesses (change_onset_path_support h)) \<Longrightarrow> origin w \<in> set (actor_findings h)"
  by (auto simp: change_onset_path_support_def Let_def change_witnesses_def change_witness_def initiating_changes_def)

lemma rollout_effect_shows:
  "w \<in> set (rollout_effect_witnesses h onset f c tgt ids s e spans) \<Longrightarrow>
     \<exists>sy ev. sy \<in> set (symptom_entities h) \<and> w = execution_witness h f ''ROLLOUT_EXECUTION_EFFECT_AT_CALLER''
       ''ROLLOUT_OWNERSHIP_BY_UID'' sy (caller_path h ''rolls_out'' tgt sy) onset ev ids
       [''EXACT_CHANGE_INSTANCE'', ''REPLICASET_AND_POD_OWNED_BY_UID'', ''SERVICE_LEVEL_EFFECT_AT_EXACT_POD'',
                 ''BASELINE_BEFORE_CHANGE'']
       [''CHANGED_FIELD_CONSUMPTION_NOT_OBSERVED'', ''INCIDENT_RECOVERY_NOT_ASSESSED''] ROLLOUT_EXECUTION_RULE"
  unfolding rollout_effect_witnesses_def
  by (elim map_filterE) (auto simp: Let_def dest: calling_symptoms_declared split: if_splits)

lemma rollout_shows:
  assumes w: "w \<in> set (witnesses (rollout_execution h (change_onset_path_support h) hist spans until))"
  shows "shows_at_symptom hs h w \<and> support_status (change_onset_path_support h) = FIRED"
proof -
  let ?r = "change_onset_path_support h"
  from w obtain u onset where sc: "rollout_scope h ?r spans = Some (u, onset)"
    by (cases "rollout_scope h ?r spans") (auto simp: rollout_execution_def)
  with w obtain f c rs p where fc: "(f, c) \<in> set (rollout_origins ?r)"
    and p: "w \<in> set (rollout_pod_witnesses h onset f c rs spans until p)"
    by (fastforce simp: rollout_execution_def Let_def split: option.splits)
  from p obtain tgt ids s e where "w \<in> set (rollout_effect_witnesses h onset f c tgt ids s e spans)"
    by (auto simp: rollout_pod_witnesses_def split: prod.splits option.splits if_splits)
  from rollout_effect_shows [OF this] rollout_origins_iff [OF fc] change_origins rollout_scopeD [OF sc]
  show ?thesis by auto
qed

lemma unserved_shows:
  assumes "w \<in> set (unserved_witnesses h onset f c tgt ids s e spans)"
  shows "shows_at_symptom hs h w \<longleftrightarrow> f \<in> set (concat (map actor_findings (h # hs)))"
  using assms unfolding unserved_witnesses_def
  by (elim map_filterE) (auto simp: Let_def dest: calling_symptoms_declared split: if_splits)

lemma failed_shows:
  assumes r: "failed_rollout h (change_onset_path_support h) hist events spans until = Inr r"
    and w: "w \<in> set (witnesses r)"
  shows "shows_at_symptom hs h w \<and> support_status (change_onset_path_support h) = FIRED"
proof -
  let ?r = "change_onset_path_support h"
  from r w obtain u onset where sc: "rollout_scope h ?r spans = Some (u, onset)"
    by (cases "rollout_scope h ?r spans") (auto simp: failed_rollout_def)
  with r w obtain owned f c rs_uid rs where fc: "(f, c) \<in> set (rollout_origins ?r)"
    and "(rs_uid, rs) \<in> set owned"
    and inner: "w \<in> set (if lifecycle rs \<noteq> CREATED \<or> \<not> near_change c (observed_at rs) then []
       else (case max_by (\<lambda>v. - observed_at v) (removed_pods hist (namespace (causal_actor h)) owned rs_uid c) of
               None \<Rightarrow> []
             | Some fr \<Rightarrow> concat (map (failed_pod_witnesses h onset f c rs fr events spans until)
                 (owned_pods hist (namespace (causal_actor h)) rs_uid))))"
    by (fastforce simp: failed_rollout_def Let_def)
  then obtain fr p where p: "w \<in> set (failed_pod_witnesses h onset f c rs fr events spans until p)"
    by (auto split: if_splits option.splits)
  from p obtain tgt ids s e where "w \<in> set (unserved_witnesses h onset f c tgt ids s e spans)"
    by (auto simp: failed_pod_witnesses_def split: prod.splits option.splits if_splits list.splits)
  from unserved_shows [OF this] rollout_origins_iff [OF fc] change_origins rollout_scopeD [OF sc]
  show ?thesis by auto
qed

section \<open>Every execution shows at a declared symptom\<close>

lemma executions_show:
  assumes r: "executions fi i hs h = Inr rs" "r \<in> set rs" and w: "w \<in> set (witnesses r)"
  shows "shows_at_symptom hs h w \<and> support_status (change_onset_path_support h) = FIRED"
proof (cases "is_chaos_kind (kind (causal_actor h))")
  case True
  with r have "fault_execution fi h (change_onset_path_support h) hs (cluster_events i) (spans_seen i)
      (object_history i) (statuses_seen i) = Inr r"
    by (auto simp: executions_def Let_def)
  from fault_shows [OF this w] show ?thesis by blast
next
  case not_chaos: False
  show ?thesis
  proof (cases "kind (causal_actor h) = ''Deployment''")
    case True
    with r not_chaos consider "r = rollout_execution h (change_onset_path_support h) (object_history i) (spans_seen i)
        (observation_end i)"
      | "failed_rollout h (change_onset_path_support h) (object_history i) (cluster_events i) (spans_seen i)
        (observation_end i) = Inr r"
      by (auto simp: executions_def Let_def)
    then show ?thesis
      using w rollout_shows failed_shows by cases blast+
  next
    case False
    with r not_chaos have "r = quota_execution h (change_onset_path_support h) (cluster_events i)"
      by (auto simp: executions_def Let_def)
    with w quota_shows show ?thesis by blast
  qed
qed

lemma executions_records:
  assumes "executions fi i hs h = Inr rs" "r \<in> set rs"
  shows "\<exists>rule reason ws. r = execution_record rule reason ws"
  using assms
  by (fastforce simp: executions_def Let_def fault_execution_def failed_rollout_def rollout_execution_def quota_execution_def
      split: if_splits)

text \<open>
  C6: An execution counts only when it was observed. A record of a claim's execution is fired exactly when it
  has a witness, and its decisive evidence is that of its witnesses. Every witness is of exactly the
  claim's actor and instance, rests on a finding of the case, shows at a symptom the claim declares,
  and is taken only for a claim whose own change already supports it. The witness of a fault
  experiment names an injection with a closed interval that began by the onset of the episode
  (within the second an event's time resolves) and ended no more than five minutes before it.
\<close>

theorem executions_are_observed:
  assumes r: "executions fi i hs h = Inr rs" "r \<in> set rs"
  shows "(support_status r = FIRED \<longleftrightarrow> witnesses r \<noteq> [])
    \<and> set (decisive_evidence r) = (\<Union>w\<in>set (witnesses r). set (witness_evidence w))
    \<and> (\<forall>w\<in>set (witnesses r). shows_at_symptom hs h w \<and> support_status (change_onset_path_support h) = FIRED
        \<and> (is_chaos_kind (kind (causal_actor h)) \<longrightarrow> finding_kind (origin w) = FAULT_INJECTION
            \<and> (\<exists>onset t x s e. episode_onset h = Some onset \<and> t \<in> set (target_entries (origin w))
                \<and> read_target fi t = Inr x \<and> applied_at x = Some s \<and> recovered_at x = Some e
                \<and> s \<le> onset + second \<and> onset - 5 * minute \<le> e)))"
proof -
  obtain rule reason ws where rec: "r = execution_record rule reason ws"
    using executions_records [OF r] by blast
  have fault: "finding_kind (origin w) = FAULT_INJECTION \<and> (\<exists>onset t x s e. episode_onset h = Some onset
      \<and> t \<in> set (target_entries (origin w)) \<and> read_target fi t = Inr x \<and> applied_at x = Some s
      \<and> recovered_at x = Some e \<and> s \<le> onset + second \<and> onset - 5 * minute \<le> e)"
    if "w \<in> set (witnesses r)" "is_chaos_kind (kind (causal_actor h))" for w
  proof -
    have f: "fault_execution fi h (change_onset_path_support h) hs (cluster_events i) (spans_seen i)
        (object_history i) (statuses_seen i) = Inr r"
      using r that(2) by (auto simp: executions_def Let_def)
    from fault_shows [OF f that(1)] show ?thesis
      unfolding connects_def EVENT_RESOLUTION_def EXECUTION_END_GRACE_def by blast
  qed
  with executions_show [OF r] show ?thesis by (auto simp: rec)
qed

section \<open>What counts as slow\<close>

lemma count_above:
  assumes "sorted xs" "k < length xs" "(v::int) < xs ! k"
  shows "length xs - k \<le> length (filter (\<lambda>x. v < x) xs)"
proof -
  have "\<forall>x\<in>set (drop k xs). v < x"
  proof
    fix x assume "x \<in> set (drop k xs)"
    then obtain j where "j < length xs - k" "x = xs ! (k + j)" by (auto simp: in_set_conv_nth)
    with assms sorted_nth_mono [of xs k "k + j"] show "v < x" by fastforce
  qed
  then have "filter (\<lambda>x. v < x) (drop k xs) = drop k xs" by simp
  then have "length (drop k xs) \<le> length (filter (\<lambda>x. v < x) xs)"
    by (metis append_take_drop_id filter_append le_add2 length_append)
  then show ?thesis by simp
qed

lemma count_below:
  assumes "sorted xs" "k < length xs" "xs ! k \<le> (v::int)"
  shows "Suc k \<le> length (filter (\<lambda>x. x \<le> v) xs)"
proof -
  have "\<forall>x\<in>set (take (Suc k) xs). x \<le> v"
  proof
    fix x assume "x \<in> set (take (Suc k) xs)"
    then obtain j where "j \<le> k" "x = xs ! j" by (auto simp: in_set_conv_nth less_Suc_eq_le)
    with assms sorted_nth_mono [of xs j k] show "x \<le> v" by fastforce
  qed
  then have "filter (\<lambda>x. x \<le> v) (take (Suc k) xs) = take (Suc k) xs" by simp
  then have "length (take (Suc k) xs) \<le> length (filter (\<lambda>x. x \<le> v) xs)"
    by (metis append_take_drop_id filter_append le_add1 length_append)
  with assms(2) show ?thesis by simp
qed

text \<open>Half of the values, at least, lie on either side of the median.\<close>

lemma median2_halves:
  assumes "xs \<noteq> []"
  obtains lo hi where "median2 xs = lo + hi" "lo \<le> hi"
    "length xs \<le> 2 * length (filter (\<lambda>x. x \<le> lo) xs)"
    "\<And>v. v < hi \<Longrightarrow> length xs \<le> 2 * length (filter (\<lambda>x. v < x) xs)"
proof
  let ?s = "sort xs" and ?n = "length xs"
  let ?lo = "?s ! ((?n - 1) div 2)" and ?hi = "?s ! (?n div 2)"
  have n: "0 < ?n" using assms by simp
  have flt: "length (filter P (sort xs)) = length (filter P xs)" for P :: "int \<Rightarrow> bool"
    by (simp add: filter_sort)
  have mid: "(?n - 1) div 2 = (if odd ?n then ?n div 2 else ?n div 2 - 1)"
    using n by (auto elim!: evenE oddE)
  then show "median2 xs = ?lo + ?hi" by (auto simp: median2_def Let_def)
  show "?lo \<le> ?hi" using n by (intro sorted_nth_mono) (auto intro: div_le_mono)
  have "(?n - 1) div 2 < ?n" using n by linarith
  then have "Suc ((?n - 1) div 2) \<le> length (filter (\<lambda>x. x \<le> ?lo) xs)"
    using count_below [of ?s "(?n - 1) div 2" ?lo] by (simp add: flt)
  then show "?n \<le> 2 * length (filter (\<lambda>x. x \<le> ?lo) xs)" by linarith
  fix v assume "v < ?hi"
  then have "?n - ?n div 2 \<le> length (filter (\<lambda>x. v < x) xs)"
    using count_above [of ?s "?n div 2" v] n by (simp add: flt)
  then show "?n \<le> 2 * length (filter (\<lambda>x. v < x) xs)" by linarith
qed

text \<open>
  Only typical slowness is an effect. A verdict of an effect on the calls of an execution needs the
  required number of calls in it and in the baseline before it, and either failed calls where the
  baseline has none, or slowness that a minority of calls cannot produce: for some duration no longer
  than the floor, at least half of the baseline calls took no more than it, while at least half of the
  calls in the execution took longer than the floor and longer than the factor times that duration.
\<close>

theorem slow_effect_is_typical:
  assumes "service_effect ps p s e baseline par = Some True" "0 < min_calls par" "0 \<le> effect_factor par"
  defines "slow \<equiv> fault_calls ps p s e" and "calm \<equiv> calm_calls ps baseline"
  shows "min_calls par \<le> length slow \<and> min_calls par \<le> length calm
    \<and> (list_ex non_success slow \<and> \<not> list_ex non_success calm
       \<or> (\<exists>d \<le> effect_floor par. length calm \<le> 2 * length (filter (\<lambda>c. call_duration c \<le> d) calm)
           \<and> length slow \<le> 2 * length (filter (\<lambda>c. effect_floor par < call_duration c
                                               \<and> effect_factor par * d < call_duration c) slow)))"
proof -
  let ?f = "map call_duration slow" and ?b = "map call_duration calm"
  have n: "min_calls par \<le> length slow" "min_calls par \<le> length calm"
    using assms(1) by (auto simp: service_effect_def Let_def slow_def calm_def split: if_splits)
  show ?thesis
  proof (cases "list_ex non_success slow \<and> \<not> list_ex non_success calm")
    case False
    then have m: "median2 ?b \<le> 2 * effect_floor par" "effect_factor par * median2 ?b < median2 ?f"
      "2 * effect_floor par < median2 ?f"
      using assms(1) by (auto simp: service_effect_def Let_def slow_def calm_def split: if_splits)
    from n assms(2) have "?f \<noteq> []" "?b \<noteq> []" by auto
    from this(1) obtain flo fhi where f: "median2 ?f = flo + fhi" "flo \<le> fhi"
      "\<And>v. v < fhi \<Longrightarrow> length ?f \<le> 2 * length (filter (\<lambda>x. v < x) ?f)"
      using median2_halves by metis
    from \<open>?b \<noteq> []\<close> obtain blo bhi where b: "median2 ?b = blo + bhi" "blo \<le> bhi"
      "length ?b \<le> 2 * length (filter (\<lambda>x. x \<le> blo) ?b)"
      using median2_halves by metis
    have "effect_factor par * (2 * blo) \<le> effect_factor par * median2 ?b"
      using b(1,2) assms(3) by (intro mult_left_mono) auto
    with m f(1,2) have "max (effect_floor par) (effect_factor par * blo) < fhi" by auto
    from f(3) [OF this] b m(1) have "blo \<le> effect_floor par"
      "length calm \<le> 2 * length (filter (\<lambda>c. call_duration c \<le> blo) calm)"
      "length slow \<le> 2 * length (filter (\<lambda>c. effect_floor par < call_duration c
          \<and> effect_factor par * blo < call_duration c) slow)"
      by (simp_all add: filter_map o_def)
    with n show ?thesis by blast
  qed (use n in simp)
qed

section \<open>Sample executions\<close>

definition sample_call :: "instant \<Rightarrow> duration \<Rightarrow> call_pair" where
  "sample_call t d = \<lparr>call_started = t, call_duration = d, call_pod = ''cart-1'', non_success = False, call_evidence = []\<rparr>"

definition sample_calls :: "call_pair list" where
  "sample_calls = [sample_call 1 100, sample_call 2 300000, sample_call 3 100,
     sample_call 11 900000, sample_call 12 100, sample_call 13 800000]"

theorem slow_effect_is_typical_witness:
  "service_effect sample_calls ''cart-1'' 10 20 (1, 9) SERVICE_EFFECT = Some True
   \<and> (\<exists>d \<le> 200000. 3 \<le> 2 * length (filter (\<lambda>c. call_duration c \<le> d) (calm_calls sample_calls (1, 9)))
       \<and> 3 \<le> 2 * length (filter (\<lambda>c. 200000 < call_duration c \<and> 3 * d < call_duration c)
                       (fault_calls sample_calls ''cart-1'' 10 20)))"
proof -
  have slow: "fault_calls sample_calls ''cart-1'' 10 20 = [sample_call 11 900000, sample_call 12 100, sample_call 13 800000]"
    and calm: "calm_calls sample_calls (1, 9) = [sample_call 1 100, sample_call 2 300000, sample_call 3 100]"
    by (simp_all add: fault_calls_def calm_calls_def sample_calls_def sample_call_def within_def)
  have eff: "service_effect sample_calls ''cart-1'' 10 20 (1, 9) SERVICE_EFFECT = Some True"
    by (simp add: service_effect_def slow calm median2_def SERVICE_EFFECT_def sample_call_def)
  have par: "min_calls SERVICE_EFFECT = 3" "effect_factor SERVICE_EFFECT = 3" "effect_floor SERVICE_EFFECT = 200000"
    by (simp_all add: SERVICE_EFFECT_def)
  have len: "length (fault_calls sample_calls ''cart-1'' 10 20) = 3" "length (calm_calls sample_calls (1, 9)) = 3"
    "\<not> list_ex non_success (fault_calls sample_calls ''cart-1'' 10 20)"
    by (simp_all add: slow calm sample_call_def)
  from slow_effect_is_typical [OF eff] eff show ?thesis
    by (simp only: par len) auto
qed

definition fault_actor :: entity_ref where
  "fault_actor = \<lparr>kind = ''NetworkChaos'', name = ''delay'', namespace = ''shop''\<rparr>"

definition fault_pod :: entity_ref where
  "fault_pod = \<lparr>kind = ''Pod'', name = ''cart-1'', namespace = ''shop''\<rparr>"

definition injected :: finding where
  "injected = (hd (findings sample_hypothesis))\<lparr>finding_kind := FAULT_INJECTION, entity := fault_actor,
     entity_instance := Some \<lparr>instance_entity = fault_actor, uid = ''u1''\<rparr>,
     details := [(''execution_targets'', JList [JDict [(''target'', JStr ''shop/cart-1''),
       (''applied_at'', JStr ''start''), (''recovered_at'', JStr ''end'')]])]\<rparr>"

definition failed_pod :: finding where
  "failed_pod = (hd (findings sample_hypothesis))\<lparr>finding_kind := FAILURE_EVENT, entity := fault_pod,
     entity_instance := Some \<lparr>instance_entity = fault_pod, uid = ''u2''\<rparr>, at := Some 45, evidence_ids := [''e2'']\<rparr>"

definition fault_claim :: hypothesis where
  "fault_claim = sample_hypothesis\<lparr>causal_actor := fault_actor,
     actor_instance := Some \<lparr>instance_entity = fault_actor, uid = ''u1''\<rparr>, symptom_entities := [fault_pod],
     findings := [injected],
     causal_paths := [[\<lparr>hop_source = fault_actor, relation = ''disrupts'', hop_target = fault_pod\<rparr>]]\<rparr>"

definition pod_claim :: hypothesis where
  "pod_claim = sample_hypothesis\<lparr>hypothesis_id := ''h2'', causal_actor := fault_pod,
     actor_instance := Some \<lparr>instance_entity = fault_pod, uid = ''u2''\<rparr>, symptom_entities := [],
     findings := [failed_pod], causal_paths := []\<rparr>"

definition sample_clock :: "string \<Rightarrow> instant option" where
  "sample_clock s = (if s = ''start'' then Some 40 else if s = ''end'' then Some 60 else None)"

definition no_inputs :: verdict_inputs where
  "no_inputs = \<lparr>given_grace = None, given_eligibilities = None, given_mismatches = [], rule_preconditions = [],
     given_reasons = [], structural_alternatives = [], cluster_events = [], propagation_edges = None,
     spans_seen = [], object_history = [], observation_end = None, statuses_seen = [], owned_by = [],
     selected_pods = [], coverage_seen = None, assessed_onset = Some 50, latest_objects = [], trace_reads = None\<rparr>"

lemmas fault_eval = fault_claim_def pod_claim_def injected_def failed_pod_def fault_actor_def fault_pod_def
  sample_hypothesis_def

lemma fault_claim_simps [simp]:
  "hypothesis_id fault_claim = ''h1''" "causal_actor fault_claim = fault_actor" "episode_onset fault_claim = Some 50"
  "symptom_entities fault_claim = [fault_pod]" "actor_findings fault_claim = [injected]"
  "actor_instance fault_claim = Some \<lparr>instance_entity = fault_actor, uid = ''u1''\<rparr>"
  "hypothesis_id pod_claim = ''h2''" "causal_actor pod_claim = fault_pod" "episode_onset pod_claim = Some 50"
  "actor_findings pod_claim = [failed_pod]" "symptom_links pod_claim = []"
  "actor_instance pod_claim = Some \<lparr>instance_entity = fault_pod, uid = ''u2''\<rparr>"
  by (simp_all add: fault_eval actor_findings_def symptom_links_def Let_def)

lemma fault_findings_simps [simp]:
  "finding_kind injected = FAULT_INJECTION" "finding_kind failed_pod = FAILURE_EVENT"
  "at failed_pod = Some 45" "evidence_ids injected = [''e1'']" "evidence_ids failed_pod = [''e2'']"
  "at injected = Some 40" "incident_onset injected = Some 50" "temporal_role injected = INITIATING"
  by (simp_all add: fault_eval Let_def)

lemma fault_claim_links: "symptom_links fault_claim =
    [(fault_pod, [\<lparr>hop_source = fault_actor, relation = ''disrupts'', hop_target = fault_pod\<rparr>])]"
  by (simp add: symptom_links_def links_path_def fault_eval Let_def RELATIONS_def RELATION_SEMANTICS_def sem_def)

lemma fault_claim_fired: "support_status (change_onset_path_support fault_claim) = FIRED"
  unfolding fired_iff
  by (simp add: admitted_def fault_claim_links initiating_changes_def can_witness_def CHANGE_KINDS_def)

lemma fault_claim_executions:
  "\<exists>w. executions sample_clock no_inputs [fault_claim, pod_claim] fault_claim
       = Inr [execution_record FAULT_EXECUTION_RULE ''NO_EXECUTION_WITH_INCIDENT_EFFECT_WITNESS'' [w]]
     \<and> witness_symptom w = fault_pod \<and> origin w = injected"
proof -
  let ?hs = "[fault_claim, pod_claim]"
  have kinds: "kind fault_actor = ''NetworkChaos''" "kind fault_pod = ''Pod''" "name fault_pod = ''cart-1''"
    "namespace fault_pod = ''shop''"
    by (simp_all add: fault_actor_def fault_pod_def)
  have entries: "target_entries injected = [JDict [(''target'', JStr ''shop/cart-1''),
       (''applied_at'', JStr ''start''), (''recovered_at'', JStr ''end'')]]" (is "_ = [?t]")
    by (simp add: target_entries_def injected_def dict_value_def)
  have target: "read_target sample_clock ?t
      = Inr \<lparr>target_namespace = ''shop'', target_name = ''cart-1'', applied_at = Some 40, recovered_at = Some 60\<rparr>"
    by (simp add: read_target_def target_field_def get_key_def instant_of_def sample_clock_def json_text_def
        before_slash_def after_slash_def)
  have found: "fault_executions fault_claim ?hs = [injected]"
    by (simp add: fault_executions_def kinds List.map_filter_def dict_value_def injected_def)
  have pods: "symptom_pods fault_claim ?hs = [((''shop'', ''cart-1''), pod_claim)]"
    by (simp add: symptom_pods_def kinds same_episode_def)
  have effect: "pod_effect [] pod_claim 40 60 = [failed_pod]"
    by (simp add: pod_effect_def EFFECT_KINDS_def effect_times_def within_def)
  have read: "read_targets sample_clock [injected] = Inr [(injected,
      \<lparr>target_namespace = ''shop'', target_name = ''cart-1'', applied_at = Some 40, recovered_at = Some 60\<rparr>)]"
    by (simp add: read_targets_def entries target)
  have chaos: "is_chaos_kind ''NetworkChaos''" by (simp add: is_chaos_kind_def starts_with_def)
  show ?thesis
    by (simp add: executions_def kinds chaos fault_execution_def fault_claim_fired found read fault_witnesses_def pods
        effect connects_def no_inputs_def EVENT_RESOLUTION_def EXECUTION_END_GRACE_def second_def minute_def
        List.map_filter_def pod_witness_def)
       (intro exI conjI, rule refl, simp_all)
qed

theorem executions_are_observed_witness:
  "\<exists>rs r w t x s e. executions sample_clock no_inputs [fault_claim, pod_claim] fault_claim = Inr rs \<and> r \<in> set rs
     \<and> support_status r = FIRED \<and> w \<in> set (witnesses r)
     \<and> shows_at_symptom [fault_claim, pod_claim] fault_claim w
     \<and> t \<in> set (target_entries (origin w)) \<and> read_target sample_clock t = Inr x \<and> applied_at x = Some s
     \<and> recovered_at x = Some e \<and> s \<le> 50 + second \<and> 50 - 5 * minute \<le> e"
proof -
  from fault_claim_executions obtain r w where
    r: "executions sample_clock no_inputs [fault_claim, pod_claim] fault_claim = Inr [r]" "witnesses r = [w]"
    by (metis execution_record_simps(1))
  have k: "is_chaos_kind (kind (causal_actor fault_claim))"
    by (simp add: fault_actor_def is_chaos_kind_def starts_with_def)
  from executions_are_observed [OF r(1), of r] r(2) k
  have "support_status r = FIRED" "shows_at_symptom [fault_claim, pod_claim] fault_claim w"
    "\<exists>t x s e. t \<in> set (target_entries (origin w)) \<and> read_target sample_clock t = Inr x \<and> applied_at x = Some s
     \<and> recovered_at x = Some e \<and> s \<le> 50 + second \<and> 50 - 5 * minute \<le> e"
    by auto
  with r show ?thesis by auto
qed

end
