(* ===== verification/Verdict_Correct.thy ===== *)
theory Verdict_Correct
  imports Executions_Correct Causal_Closure_Correct
begin

text \<open>
  What a verdict guarantees: an incident is resolved exactly when one claim remains, its mechanism was
  seen executing, that execution accounts for the whole declared scope and no question that could
  change the answer is open; and a verdict is always reached on well-formed evidence.
\<close>

section \<open>The parts of a verdict\<close>

definition contest_with ::
  "(string \<Rightarrow> instant option) \<Rightarrow> timing_masks \<Rightarrow> verdict_inputs \<Rightarrow> (string \<times> explanation) list
   \<Rightarrow> hypothesis list \<Rightarrow> resolution_trace result" where
  "contest_with fi masks i explained hs =
     resolve fi masks (given_grace i) (effective_eligibilities masks i) (effective_mismatches masks i) explained hs"

lemma verdict_parts:
  assumes "resolve_hypotheses fi masks me i hs = Inr tr"
  obtains ex exc rels explained explained0 tr0 where "all_executions fi i hs = Inr ex"
    "contest_with fi masks i explained0 hs = Inr tr0"
    "conclude fi masks me i hs exc ex rels explained tr0 = Inr tr"
proof -
  from assms [unfolded resolve_hypotheses_def Let_def and_then_Inr contest_with_def [symmetric]]
  obtain t0 t1 t2 ex b e0 e1 exc rels explained where
    "contest_with fi masks i [] hs = Inr t0"
    "(if e0 \<noteq> [] then contest_with fi masks i e0 hs else Inr t0) = Inr t1"
    "all_executions fi i hs = Inr ex"
    "(if b then contest_with fi masks i e1 hs else Inr t1) = Inr t2"
    "conclude fi masks me i hs exc ex rels explained t2 = Inr tr"
    by (elim exE conjE) (rule that)
  then show thesis by (cases b; cases "e0 = []") (auto intro: that)
qed

text \<open>A conclusion reads the plausible and unresolved claims of the contest and decides once.\<close>

lemma attach_fields [simp]:
  "plausible_hypotheses (attach_audits fi masks g hs tr) = plausible_hypotheses tr"
  "unresolved_hypotheses (attach_audits fi masks g hs tr) = unresolved_hypotheses tr"
  "causal_families (attach_audits fi masks g hs tr) = causal_families tr"
  "strong_ids masks ex (attach_audits fi masks g hs tr) = strong_ids masks ex tr"
  by (simp_all add: attach_audits_def strong_ids_def)

lemma settle_fields [simp]:
  "plausible_hypotheses (settle material complete limiting tr) = plausible_hypotheses tr"
  "unresolved_hypotheses (settle material complete limiting tr) = unresolved_hypotheses tr"
  "mechanism_verified_hypotheses (settle material complete limiting tr) = mechanism_verified_hypotheses tr"
  "frontier_answers (settle material complete limiting tr) = frontier_answers tr"
  "causal_families (settle material complete limiting tr) = causal_families tr"
  "hypothesis_audits (settle material complete limiting tr) = hypothesis_audits tr"
  "independent_mechanism_causes (settle material complete limiting tr) = independent_mechanism_causes tr"
  "claim_level (settle material complete limiting tr) = claim_level tr"
  by (simp_all add: settle_def)

lemma report_fields [simp]:
  "plausible_hypotheses (report hs ex rels explained material answers strong limiting audits tr) = plausible_hypotheses tr"
  "unresolved_hypotheses (report hs ex rels explained material answers strong limiting audits tr) = unresolved_hypotheses tr"
  "mechanism_verified_hypotheses (report hs ex rels explained material answers strong limiting audits tr) = sorted_set strong"
  "frontier_answers (report hs ex rels explained material answers strong limiting audits tr) = answers"
  "causal_families (report hs ex rels explained material answers strong limiting audits tr) = causal_families tr"
  "hypothesis_audits (report hs ex rels explained material answers strong limiting audits tr) = audits"
  by (simp_all add: report_def Let_def)

lemma settle_resolved [simp]:
  "trace_state (settle material complete limiting tr) = RESOLVED \<longleftrightarrow>
     complete \<and> unresolved_hypotheses tr = [] \<and> limiting = []"
  by (auto simp: settle_def)

lemma conclude_parts:
  assumes "conclude fi masks me i hs exc ex rels explained tr0 = Inr tr"
  obtains answers audits complete limiting where
    "traverse (final_audit masks i ex) (hypothesis_audits (attach_audits fi masks (given_grace i) hs tr0)) = Inr audits"
    "strong_complete fi i ex hs (plausible_hypotheses tr0) (strong_ids masks ex tr0) = Inr complete"
    "limiting = limiting_questions (material_frontier (structural_alternatives i) (filter admitted hs)) answers
       (plausible_hypotheses tr0)"
    "tr = settle (material_frontier (structural_alternatives i) (filter admitted hs)) complete limiting
       (report hs ex rels explained (material_frontier (structural_alternatives i) (filter admitted hs)) answers
         (strong_ids masks ex tr0) limiting audits (attach_audits fi masks (given_grace i) hs tr0))"
  using assms by (auto simp: conclude_def Let_def)

section \<open>Executions by claim\<close>

lemma all_executions_iff:
  "all_executions fi i hs = Inr ex \<longleftrightarrow>
     list_all2 (\<lambda>h p. fst p = hypothesis_id h \<and> executions fi i hs h = Inr (snd p)) hs ex"
  unfolding all_executions_def traverse_Inr_iff
  by (intro arg_cong [where f = "\<lambda>P. list_all2 P hs ex"] ext) (auto simp: prod_eq_iff)

lemma execution_of_claim:
  assumes ids: "distinct (map hypothesis_id hs)" and ex: "all_executions fi i hs = Inr ex" and h: "h \<in> set hs"
  shows "executions fi i hs h = Inr (execution_of ex (hypothesis_id h))"
proof -
  from ex have l2: "list_all2 (\<lambda>h p. fst p = hypothesis_id h \<and> executions fi i hs h = Inr (snd p)) hs ex"
    by (simp add: all_executions_iff)
  then have keys: "map fst ex = map hypothesis_id hs"
    by (intro nth_equalityI) (auto simp: list_all2_conv_all_nth)
  from h obtain n where n: "n < length hs" "h = hs ! n" by (auto simp: in_set_conv_nth)
  with l2 have p: "ex ! n \<in> set ex" "fst (ex ! n) = hypothesis_id h" "executions fi i hs h = Inr (snd (ex ! n))"
    by (auto simp: list_all2_conv_all_nth)
  have "distinct (map fst (rev ex))" using ids keys by (simp flip: rev_map)
  moreover have "(hypothesis_id h, snd (ex ! n)) \<in> set (rev ex)" using p(1,2) by (metis prod.collapse set_rev)
  ultimately have "map_of (rev ex) (hypothesis_id h) = Some (snd (ex ! n))" by (rule map_of_is_SomeI)
  with p(3) show ?thesis by (simp add: execution_of_def)
qed

lemma merged_record_simps [simp]:
  "support_status (merged_record rs) = FIRED \<longleftrightarrow> (\<exists>r\<in>set rs. support_status r = FIRED)"
  "witnesses (merged_record rs) = concat (map witnesses rs)"
  by (auto simp: merged_record_def list_ex_iff)

text \<open>The mechanism of a claim was seen executing, and its authority is not withheld.\<close>

definition verified_claim ::
  "(string \<Rightarrow> instant option) \<Rightarrow> timing_masks \<Rightarrow> verdict_inputs \<Rightarrow> hypothesis list \<Rightarrow> hypothesis \<Rightarrow> bool" where
  "verified_claim fi masks i hs h \<longleftrightarrow> hypothesis_id h \<notin> set (strong_mask masks)
     \<and> (\<exists>rs. executions fi i hs h = Inr rs \<and> (\<exists>r\<in>set rs. support_status r = FIRED))"

text \<open>The symptoms its executions account for are all it declares.\<close>

definition scope_covered ::
  "(string \<Rightarrow> instant option) \<Rightarrow> verdict_inputs \<Rightarrow> hypothesis list \<Rightarrow> hypothesis \<Rightarrow> bool" where
  "scope_covered fi i hs h \<longleftrightarrow>
     (\<exists>rs c. executions fi i hs h = Inr rs \<and> covered_symptoms fi i (concat (map witnesses rs)) = Inr c
        \<and> set (symptom_entities h) \<subseteq> set c)"

lemma verified_iff:
  assumes "distinct (map hypothesis_id hs)" "all_executions fi i hs = Inr ex" "h \<in> set hs"
  shows "support_status (observed_in_records ex (hypothesis_id h)) = FIRED \<and> hypothesis_id h \<notin> set (strong_mask masks)
    \<longleftrightarrow> verified_claim fi masks i hs h"
  using execution_of_claim [OF assms] by (auto simp: verified_claim_def observed_in_records_def)

lemma all_covered_single:
  assumes ids: "distinct (map hypothesis_id hs)" and ex: "all_executions fi i hs = Inr ex" and h: "h \<in> set hs"
  shows "all_covered fi i ex (filter (\<lambda>x. hypothesis_id x = hypothesis_id h) hs) = Inr True \<longleftrightarrow> scope_covered fi i hs h"
proof -
  have "filter (\<lambda>x. hypothesis_id x = hypothesis_id h) hs = [h]"
    using ids h
  proof (induction hs)
    case (Cons x xs)
    show ?case
    proof (cases "x = h")
      case True
      with Cons.prems have "filter (\<lambda>y. hypothesis_id y = hypothesis_id h) xs = []"
        by (auto simp: filter_empty_conv) (metis imageI)
      with True show ?thesis by simp
    next
      case False
      with Cons have "filter (\<lambda>y. hypothesis_id y = hypothesis_id h) xs = [h]" "hypothesis_id x \<noteq> hypothesis_id h"
        by (auto simp: image_iff)
      then show ?thesis by simp
    qed
  qed simp
  then show ?thesis
    using execution_of_claim [OF ids ex h] by (auto simp: scope_covered_def observed_in_records_def)
qed

section \<open>When an incident is resolved\<close>

lemma limiting_none:
  "limiting_questions material answers [p] = [] \<longleftrightarrow>
     (\<forall>a\<in>set material. p \<in> set (material_for a) \<longrightarrow>
        (\<exists>x\<in>set answers. answered_alternative x = alternative_id a \<and> is_answered x))"
proof -
  have nil: "sort xs = [] \<longleftrightarrow> xs = []" for xs :: "string list" by (metis length_0_conv length_sort)
  have ans: "alternative_id a \<notin> set (map answered_alternative (filter is_answered answers)) \<longleftrightarrow>
      \<not> (\<exists>x\<in>set answers. answered_alternative x = alternative_id a \<and> is_answered x)" for a
    by (auto simp: image_iff)
  show ?thesis
    unfolding limiting_questions_def Let_def nil map_is_Nil_conv filter_empty_conv ans
    by (auto simp del: bex_simps ball_simps)
qed

lemma contest_plausible:
  assumes ids: "distinct (map hypothesis_id hs)" and tr: "contest_with fi masks i explained hs = Inr tr"
  shows "distinct (plausible_hypotheses tr)"
    and "\<And>p. p \<in> set (plausible_hypotheses tr) \<Longrightarrow> \<exists>h\<in>set hs. hypothesis_id h = p
      \<and> stands_supported fi masks (given_grace i) (effective_eligibilities masks i) (effective_mismatches masks i) explained h"
proof -
  from resolve_outcome [OF ids, of fi masks "given_grace i" "effective_eligibilities masks i"
      "effective_mismatches masks i" explained] tr
  have p: "plausible_hypotheses tr = map hypothesis_id (supported (contest_of fi masks (given_grace i)
      (effective_eligibilities masks i) (effective_mismatches masks i) explained hs))"
    by (auto simp: contest_with_def)
  then show "distinct (plausible_hypotheses tr)" using contest_distinct_ids(1) [OF ids] by simp
  show "\<exists>h\<in>set hs. hypothesis_id h = q
      \<and> stands_supported fi masks (given_grace i) (effective_eligibilities masks i) (effective_mismatches masks i) explained h"
    if "q \<in> set (plausible_hypotheses tr)" for q
    using that p by (auto simp: contest_sets [OF ids])
qed

lemma complete_iff:
  assumes ids: "distinct (map hypothesis_id hs)" and ex: "all_executions fi i hs = Inr ex"
    and pl: "distinct (plausible_hypotheses tr)" "set (plausible_hypotheses tr) \<subseteq> hypothesis_id ` set hs"
    and c: "strong_complete fi i ex hs (plausible_hypotheses tr) (strong_ids masks ex tr) = Inr complete"
  shows "complete \<longleftrightarrow> (\<exists>h\<in>set hs. plausible_hypotheses tr = [hypothesis_id h]
    \<and> verified_claim fi masks i hs h \<and> scope_covered fi i hs h)"
proof (cases "\<exists>h\<in>set hs. plausible_hypotheses tr = [hypothesis_id h]")
  case True
  then obtain h where h: "h \<in> set hs" "plausible_hypotheses tr = [hypothesis_id h]" by blast
  have uniq: "k = h" if "k \<in> set hs" "hypothesis_id k = hypothesis_id h" for k
    using ids h(1) that by (auto simp: distinct_map inj_on_def)
  have strong: "set (strong_ids masks ex tr) = {hypothesis_id h} \<longleftrightarrow> verified_claim fi masks i hs h"
    using verified_iff [OF ids ex h(1)] by (simp add: strong_ids_def h(2))
  from c have "complete \<longleftrightarrow> verified_claim fi masks i hs h \<and> scope_covered fi i hs h"
    using strong all_covered_single [OF ids ex h(1)]
    by (auto simp: strong_complete_def h(2) split: if_splits)
  moreover have "(\<exists>k\<in>set hs. plausible_hypotheses tr = [hypothesis_id k] \<and> P k) \<longleftrightarrow> P h" for P
    unfolding h(2) using h(1) uniq by (metis list.inject)
  ultimately show ?thesis by simp
next
  case False
  have "length (remdups (plausible_hypotheses tr)) \<noteq> 1"
  proof
    assume "length (remdups (plausible_hypotheses tr)) = 1"
    then obtain p where "plausible_hypotheses tr = [p]"
      using pl(1) by (auto simp: distinct_remdups_id length_Suc_conv)
    with pl(2) False show False by auto
  qed
  with c False show ?thesis by (auto simp: strong_complete_def)
qed

text \<open>
  C4: A cause is confirmed exactly when its mechanism was seen to act. For claims with distinct
  identifiers, a verdict is RESOLVED if and only if one claim alone is plausible and none is
  unresolved, an execution of that claim's own mechanism was observed and its authority is not masked,
  its executions account for every symptom the claim declares, and every open structural question that
  bears on the claim has an answering answer. Such a verdict says that the cause is mechanism-verified
  and names exactly this claim, and in any verdict the claim that is plausible is an admitted
  one without contradiction whose own change supports it.
\<close>

theorem resolved_iff_observed:
  assumes ids: "distinct (map hypothesis_id hs)" and tr: "resolve_hypotheses fi masks met_elsewhere i hs = Inr tr"
  shows "(trace_state tr = RESOLVED \<longleftrightarrow>
      (\<exists>h\<in>set hs. plausible_hypotheses tr = [hypothesis_id h] \<and> unresolved_hypotheses tr = []
        \<and> verified_claim fi masks i hs h \<and> scope_covered fi i hs h
        \<and> (\<forall>a\<in>set (material_frontier (structural_alternatives i) (filter admitted hs)).
             hypothesis_id h \<in> set (material_for a) \<longrightarrow>
             (\<exists>x\<in>set (frontier_answers tr). answered_alternative x = alternative_id a \<and> is_answered x))))
    \<and> (trace_state tr = RESOLVED \<longrightarrow> trace_status tr = ''MECHANISM_VERIFIED_CAUSE''
        \<and> mechanism_verified_hypotheses tr = plausible_hypotheses tr)
    \<and> (\<forall>p\<in>set (plausible_hypotheses tr). \<exists>h\<in>set hs. hypothesis_id h = p \<and> admitted h
        \<and> local_contradictions h = [] \<and> support_status (change_onset_path_support h) = FIRED)"
proof -
  from tr obtain ex exc rels explained explained0 tr0 where ex: "all_executions fi i hs = Inr ex"
    and tr0: "contest_with fi masks i explained0 hs = Inr tr0"
    and con: "conclude fi masks met_elsewhere i hs exc ex rels explained tr0 = Inr tr"
    by (rule verdict_parts)
  let ?m = "material_frontier (structural_alternatives i) (filter admitted hs)"
  from con obtain answers audits complete limiting where
    c: "strong_complete fi i ex hs (plausible_hypotheses tr0) (strong_ids masks ex tr0) = Inr complete"
    and lim: "limiting = limiting_questions ?m answers (plausible_hypotheses tr0)"
    and eq: "tr = settle ?m complete limiting (report hs ex rels explained ?m answers
         (strong_ids masks ex tr0) limiting audits (attach_audits fi masks (given_grace i) hs tr0))"
    by (rule conclude_parts)
  note pl = contest_plausible [OF ids tr0]
  have sub: "set (plausible_hypotheses tr0) \<subseteq> hypothesis_id ` set hs" using pl(2) by blast
  note comp = complete_iff [OF ids ex pl(1) sub c]
  have fields: "plausible_hypotheses tr = plausible_hypotheses tr0" "unresolved_hypotheses tr = unresolved_hypotheses tr0"
    "frontier_answers tr = answers" "mechanism_verified_hypotheses tr = sorted_set (strong_ids masks ex tr0)"
    by (simp_all add: eq)
  have res: "trace_state tr = RESOLVED \<longleftrightarrow> complete \<and> unresolved_hypotheses tr0 = [] \<and> limiting = []"
    by (simp add: eq)
  have "trace_state tr = RESOLVED \<longleftrightarrow>
      (\<exists>h\<in>set hs. plausible_hypotheses tr = [hypothesis_id h] \<and> unresolved_hypotheses tr = []
        \<and> verified_claim fi masks i hs h \<and> scope_covered fi i hs h
        \<and> (\<forall>a\<in>set ?m. hypothesis_id h \<in> set (material_for a) \<longrightarrow>
             (\<exists>x\<in>set (frontier_answers tr). answered_alternative x = alternative_id a \<and> is_answered x)))"
    unfolding res comp fields lim by (auto simp: limiting_none)
  moreover have "trace_status tr = ''MECHANISM_VERIFIED_CAUSE'' \<and> mechanism_verified_hypotheses tr = plausible_hypotheses tr"
    if "trace_state tr = RESOLVED"
  proof
    from that res have "complete" "unresolved_hypotheses tr0 = []" "limiting = []" by auto
    then show "trace_status tr = ''MECHANISM_VERIFIED_CAUSE''" by (simp add: eq settle_def)
    from \<open>complete\<close> c obtain p where "plausible_hypotheses tr0 = [p]" "set (strong_ids masks ex tr0) = {p}"
      using comp by (auto simp: strong_complete_def split: if_splits)
    then show "mechanism_verified_hypotheses tr = plausible_hypotheses tr"
      unfolding fields using sorted_set_cong [of "strong_ids masks ex tr0" "[p]"] by (simp add: sorted_set_def)
  qed
  moreover have "\<forall>p\<in>set (plausible_hypotheses tr). \<exists>h\<in>set hs. hypothesis_id h = p \<and> admitted h
        \<and> local_contradictions h = [] \<and> support_status (change_onset_path_support h) = FIRED"
    using pl(2) unfolding fields by (fastforce simp: stands_supported_def supported_iff fired_iff)
  ultimately show ?thesis by blast
qed

section \<open>A verdict is always reached\<close>

text \<open>
  Execution targets have their three fields and readable times, every object of the history has a version,
  and every rule that reports preconditions has a name.
\<close>

definition targets_readable :: "(string \<Rightarrow> instant option) \<Rightarrow> finding \<Rightarrow> bool" where
  "targets_readable fi f \<longleftrightarrow> (\<forall>t\<in>set (target_entries f). \<exists>x. read_target fi t = Inr x)"

definition well_formed ::
  "(string \<Rightarrow> instant option) \<Rightarrow> verdict_inputs \<Rightarrow> hypothesis list \<Rightarrow> bool" where
  "well_formed fi i hs \<longleftrightarrow> (\<forall>f\<in>set (concat (map actor_findings hs)). targets_readable fi f)
     \<and> (\<forall>o1\<in>set (object_history i). snd o1 \<noteq> [])
     \<and> (\<forall>k\<in>fst ` set (rule_preconditions i) \<union> fst ` set (given_reasons i). snd k \<noteq> [])"

lemma fault_execution_total:
  assumes "well_formed fi i hs" "h \<in> set hs"
  shows "\<exists>r. fault_execution fi h possible hs events spans hist sts = Inr r"
proof -
  have "\<exists>ts. read_targets fi (fault_executions h hs) = Inr ts"
    unfolding read_targets_def
  proof (rule traverse_total)
    fix p assume "p \<in> set (concat (map (\<lambda>f. map (Pair f) (target_entries f)) (fault_executions h hs)))"
    then obtain f t where p: "p = (f, t)" "f \<in> set (fault_executions h hs)" "t \<in> set (target_entries f)" by auto
    with fault_executions_subset(1) [of f h hs] assms(2) have "f \<in> set (concat (map actor_findings hs))" by auto
    with assms(1) p(3) have "\<exists>x. read_target fi t = Inr x"
      unfolding well_formed_def targets_readable_def by blast
    then show "\<exists>y. (case p of (f, t) \<Rightarrow> and_then (read_target fi t) (\<lambda>x. Inr (f, x))) = Inr y" by (auto simp: p(1))
  qed
  then show ?thesis by (auto simp: fault_execution_def Let_def split: option.splits)
qed

lemma failed_rollout_total:
  assumes "\<forall>o1\<in>set hist. snd o1 \<noteq> []"
  shows "\<exists>r. failed_rollout h possible hist events spans until = Inr r"
proof -
  have "\<exists>vs. owned_replicasets hist ns u = Inr vs" for ns u
  proof -
    have "\<exists>firsts. traverse (\<lambda>(_, vs). case created_version vs of Some v \<Rightarrow> Inr v
         | None \<Rightarrow> (case vs of [] \<Rightarrow> Inl (LookupError ''tuple index out of range'') | v # _ \<Rightarrow> Inr v))
         (objects_of ''ReplicaSet'' ns hist) = Inr firsts"
      using assms by (intro traverse_total) (auto simp: objects_of_def split: option.splits list.splits)
    then show ?thesis by (auto simp: owned_replicasets_def)
  qed
  then show ?thesis by (auto simp: failed_rollout_def Let_def split: option.splits prod.splits)
qed

lemma all_executions_total:
  assumes "well_formed fi i hs"
  shows "\<exists>ex. all_executions fi i hs = Inr ex"
  unfolding all_executions_def
proof (rule traverse_total)
  fix h assume h: "h \<in> set hs"
  from assms have "\<forall>o1\<in>set (object_history i). snd o1 \<noteq> []" by (simp add: well_formed_def)
  note totals = fault_execution_total [OF assms h] failed_rollout_total [OF this]
  have "\<exists>rs. executions fi i hs h = Inr rs"
    unfolding executions_def Let_def using totals by (auto simp del: split_paired_Ex)
  then show "\<exists>y. and_then (executions fi i hs h) (\<lambda>rs. Inr (hypothesis_id h, rs)) = Inr y" by auto
qed

lemma rule_audits_total:
  assumes "well_formed fi i hs"
  shows "\<exists>rows. rule_audits i hid = Inr rows"
proof -
  have rows: "fst p \<noteq> []" if "p \<in> set (rows_of hid table)" "\<forall>k\<in>fst ` set table. snd k \<noteq> []"
    for p :: "string \<times> 'a" and table :: "((string \<times> string) \<times> 'a list) list"
    using that by (auto simp: rows_of_def split: if_splits)
  have audit: "\<exists>y. make_rule_audit rule (Some r) None = Inr y" "\<exists>y. make_rule_audit rule None (Some q) = Inr y"
    if "rule \<noteq> []" for rule r q
    using that by (simp_all add: make_rule_audit_def)
  have "\<exists>a. traverse (\<lambda>(rule, r). make_rule_audit rule (Some r) None) (rows_of hid (rule_preconditions i)) = Inr a"
  proof (rule traverse_total)
    fix p assume "p \<in> set (rows_of hid (rule_preconditions i))"
    from rows [OF this] assms have "fst p \<noteq> []" by (simp add: well_formed_def)
    then show "\<exists>y. (case p of (rule, r) \<Rightarrow> make_rule_audit rule (Some r) None) = Inr y"
      by (cases p) (simp add: audit)
  qed
  moreover have "\<exists>b. traverse (\<lambda>(rule, r). make_rule_audit rule None (Some r)) (rows_of hid (given_reasons i)) = Inr b"
  proof (rule traverse_total)
    fix p assume "p \<in> set (rows_of hid (given_reasons i))"
    from rows [OF this] assms have "fst p \<noteq> []" by (simp add: well_formed_def)
    then show "\<exists>y. (case p of (rule, r) \<Rightarrow> make_rule_audit rule None (Some r)) = Inr y"
      by (cases p) (simp add: audit)
  qed
  ultimately show ?thesis by (auto simp: rule_audits_def)
qed

lemma target_interval_total:
  "\<forall>t\<in>set es. \<exists>x. read_target fi t = Inr x \<Longrightarrow> \<exists>v. target_interval fi p es = Inr v"
proof (induction es)
  case (Cons t es)
  then obtain v0 where rest: "target_interval fi p es = Inr v0" by auto
  from Cons.prems obtain d where d: "t = JDict d" by (cases t) (auto simp: read_target_def target_field_def)
  from Cons.prems obtain va vr oa r where v: "get_key ''applied_at'' d = Inr va" "instant_of fi va = Inr oa"
    "get_key ''recovered_at'' d = Inr vr" "instant_of fi vr = Inr r"
    by (auto simp: read_target_def target_field_def d)
  then have "dict_value d ''applied_at'' = va" "dict_value d ''recovered_at'' = vr"
    by (auto simp: get_key_def dict_value_def split: option.splits)
  with v rest show ?case
    by (auto simp: d instant_of_def Let_def split: json.splits option.splits)
qed simp

lemma covered_symptoms_total:
  assumes "\<forall>w\<in>set ws. targets_readable fi (origin w)"
  shows "\<exists>c. covered_symptoms fi i ws = Inr c"
proof -
  have "\<exists>cs. traverse (witness_cover fi i) ws = Inr cs"
  proof (rule traverse_total)
    fix w assume "w \<in> set ws"
    with assms have "\<exists>v. target_interval fi p (target_entries (origin w)) = Inr v" for p
      unfolding targets_readable_def by (intro target_interval_total) blast
    then have "\<exists>v. execution_interval fi (object_history i) (observation_end i) w = Inr v"
      by (auto simp: execution_interval_def Let_def split: option.splits)
    then show "\<exists>y. witness_cover fi i w = Inr y" by (auto simp: witness_cover_def)
  qed
  then show ?thesis by (auto simp: covered_symptoms_def Let_def)
qed

lemma strong_complete_total:
  assumes wf: "well_formed fi i hs" and ex: "all_executions fi i hs = Inr ex"
  shows "\<exists>b. strong_complete fi i ex hs supported_ids strong = Inr b"
proof -
  have readable: "targets_readable fi (origin w)" if "w \<in> set (witnesses (observed_in_records ex x))" for w x
  proof -
    from that obtain rs where m: "map_of (rev ex) x = Some rs" and rs: "w \<in> set (concat (map witnesses rs))"
      by (cases "map_of (rev ex) x") (simp_all add: observed_in_records_def execution_of_def)
    from map_of_SomeD [OF m] have mem: "(x, rs) \<in> set ex" by simp
    then obtain h where h: "h \<in> set hs" "executions fi i hs h = Inr rs"
      using traverse_InrD [OF ex [unfolded all_executions_def] mem] by auto
    with rs obtain r where "r \<in> set rs" "w \<in> set (witnesses r)" by auto
    from executions_show [OF h(2) this] h(1) wf show ?thesis
      by (auto simp: shows_at_symptom_def well_formed_def)
  qed
  have "\<exists>b. all_covered fi i ex ks = Inr b" for ks
  proof (induction ks)
    case (Cons k ks)
    have "\<exists>c. covered_symptoms fi i (witnesses (observed_in_records ex (hypothesis_id k))) = Inr c"
      using readable by (intro covered_symptoms_total) blast
    then obtain c where "covered_symptoms fi i (witnesses (observed_in_records ex (hypothesis_id k))) = Inr c" ..
    with Cons show ?case by (cases "set (symptom_entities k) \<subseteq> set c") (auto intro: exI [of _ False])
  qed auto
  then show ?thesis by (auto simp: strong_complete_def intro: exI [of _ False])
qed

lemma final_audits_total:
  assumes "well_formed fi i hs"
  shows "\<exists>bs. traverse (final_audit masks i ex) as = Inr bs \<and> map audit_hypothesis bs = map audit_hypothesis as"
proof (induction as)
  case (Cons a as)
  from rule_audits_total [OF assms, of "audit_hypothesis a"] obtain rows
    where "rule_audits i (audit_hypothesis a) = Inr rows" by blast
  with Cons show ?case by (auto simp: final_audit_def Let_def)
qed simp

lemma contest_total: "\<exists>tr. contest_with fi masks i explained hs = Inr tr"
proof (cases "hs = []")
  case False
  from resolve_parts [OF False] show ?thesis unfolding contest_with_def by blast
qed (simp add: contest_with_def resolve_def)



section \<open>A verified cause\<close>

abbreviation sample_claims :: "hypothesis list" where
  "sample_claims \<equiv> [fault_claim, pod_claim]"

lemma sample_well_formed: "well_formed sample_clock no_inputs sample_claims"
proof -
  have "target_entries failed_pod = []"
    by (simp add: target_entries_def failed_pod_def sample_hypothesis_def dict_value_def Let_def)
  moreover have "target_entries injected = [JDict [(''target'', JStr ''shop/cart-1''),
       (''applied_at'', JStr ''start''), (''recovered_at'', JStr ''end'')]]"
    by (simp add: target_entries_def injected_def dict_value_def)
  ultimately show ?thesis
    by (simp add: well_formed_def targets_readable_def no_inputs_def read_target_def target_field_def get_key_def
        instant_of_def sample_clock_def)
qed

lemma sample_admitted: "admitted fault_claim" "\<not> admitted pod_claim"
  by (simp_all add: admitted_def fault_claim_links)

text \<open>With a single admitted claim nothing is explained.\<close>

lemma sample_explanations: "explanations sample_claims sids events prop exc strong = []"
proof -
  have "raw_explanations sample_claims sids events prop exc strong = []"
    by (simp add: raw_explanations_def sample_admitted pair_explanations_def spawn_explanations_def
        shared_evidence_explanations_def List.map_filter_def)
  then show ?thesis by (simp add: explanations_def)
qed

lemma sample_contest:
  assumes "contest_with sample_clock no_masks no_inputs [] sample_claims = Inr tr"
  shows "plausible_hypotheses tr = [''h1''] \<and> unresolved_hypotheses tr = []"
proof -
  have elo: "effective_eligibilities no_masks no_inputs = None" "effective_mismatches no_masks no_inputs = []"
    by (simp_all add: effective_eligibilities_def effective_mismatches_def no_inputs_def)
  let ?st = "\<lambda>h. stands_supported sample_clock no_masks None None [] [] h"
  have sup: "?st fault_claim" "\<not> ?st pod_claim" "\<not> stands_unresolved sample_clock no_masks None None [] [] fault_claim"
    "\<not> stands_unresolved sample_clock no_masks None None [] [] pod_claim"
  proof -
    have "local_contradictions fault_claim = []"
      by (simp add: local_contradictions_def fault_claim_def sample_hypothesis_def Let_def)
    then have "assessed_state (assess_hypothesis sample_clock no_masks None fault_claim) = CLAIM_SUPPORTED"
      using fault_claim_fired by (simp add: supported_iff fired_iff)
    then show "?st fault_claim" "\<not> stands_unresolved sample_clock no_masks None None [] [] fault_claim"
      by (simp_all add: stands_supported_def stands_unresolved_def selectable_def is_excluded_def)
    show "\<not> ?st pod_claim" "\<not> stands_unresolved sample_clock no_masks None None [] [] pod_claim"
      by (simp_all add: stands_supported_def supported_iff stands_unresolved_def sample_admitted)
  qed
  have ids: "distinct (map hypothesis_id sample_claims)" by simp
  let ?c = "contest_of sample_clock no_masks None None [] [] sample_claims"
  have sets: "set (supported ?c) = {fault_claim}" "set (unresolved ?c) = {}"
    using contest_sets(1,2) [OF ids, of sample_clock no_masks None None "[]" "[]"] sup by auto
  moreover have "distinct (supported ?c)"
    using contest_distinct_ids(1) [OF ids] by (simp add: distinct_map)
  moreover have "xs = [a]" if "distinct xs" "set xs = {a}" for xs and a :: hypothesis
  proof (cases xs)
    case (Cons x ys)
    with Cons that show ?thesis by (cases ys) auto
  qed (use that in simp)
  ultimately have "supported ?c = [fault_claim]" by blast
  moreover have "given_grace no_inputs = None" by (simp add: no_inputs_def)
  with assms have res: "resolve sample_clock no_masks None None [] [] sample_claims = Inr tr"
    by (simp add: contest_with_def elo)
  moreover obtain tr' where "resolve sample_clock no_masks None None [] [] sample_claims = Inr tr'"
    "plausible_hypotheses tr' = map hypothesis_id (supported ?c)"
    "unresolved_hypotheses tr' = map hypothesis_id (unresolved ?c)"
    using resolve_outcome [OF ids, of sample_clock no_masks None None "[]" "[]"] by blast
  ultimately show ?thesis using sets(2) by simp
qed

lemma sample_verified: "verified_claim sample_clock no_masks no_inputs sample_claims fault_claim"
  using fault_claim_executions by (fastforce simp: verified_claim_def no_masks_def)

lemma sample_covered: "scope_covered sample_clock no_inputs sample_claims fault_claim"
proof -
  from fault_claim_executions obtain w where
    w: "executions sample_clock no_inputs sample_claims fault_claim
       = Inr [execution_record FAULT_EXECUTION_RULE ''NO_EXECUTION_WITH_INCIDENT_EFFECT_WITNESS'' [w]]"
    "witness_symptom w = fault_pod" "origin w = injected" by blast
  have "targets_readable sample_clock injected"
    using sample_well_formed by (simp add: well_formed_def)
  then obtain c where "covered_symptoms sample_clock no_inputs [w] = Inr c"
    using covered_symptoms_total [of "[w]" sample_clock no_inputs] w(3) by auto
  moreover from this w(2) have "fault_pod \<in> set c" by (auto simp: covered_symptoms_def Let_def)
  ultimately show ?thesis using w(1) by (simp add: scope_covered_def)
qed

lemma sample_verdict:
  "\<exists>tr. resolve_hypotheses sample_clock no_masks (\<lambda>_. None) no_inputs sample_claims = Inr tr
     \<and> plausible_hypotheses tr = [''h1''] \<and> unresolved_hypotheses tr = []"
proof -
  have none: "claims_explained [] = []" by (simp add: claims_explained_def)
  obtain tr0 where tr0: "contest_with sample_clock no_masks no_inputs [] sample_claims = Inr tr0"
    using contest_total by blast
  obtain ex where ex: "all_executions sample_clock no_inputs sample_claims = Inr ex"
    using all_executions_total [OF sample_well_formed] by blast
  obtain bs where bs: "traverse (final_audit no_masks no_inputs ex)
      (hypothesis_audits (attach_audits sample_clock no_masks (given_grace no_inputs) sample_claims tr0)) = Inr bs"
    using final_audits_total [OF sample_well_formed] by blast
  obtain b where b: "strong_complete sample_clock no_inputs ex sample_claims (plausible_hypotheses tr0)
      (strong_ids no_masks ex tr0) = Inr b"
    using strong_complete_total [OF sample_well_formed ex] by blast
  have "resolve_hypotheses sample_clock no_masks (\<lambda>_. None) no_inputs sample_claims
      = conclude sample_clock no_masks (\<lambda>_. None) no_inputs sample_claims (observation_excluded tr0) ex [] [] tr0"
    unfolding resolve_hypotheses_def Let_def contest_with_def [symmetric] by (simp add: tr0 ex sample_explanations none)
  then show ?thesis
    using sample_contest [OF tr0] bs b by (simp add: conclude_def Let_def)
qed


theorem resolved_iff_observed_witness:
  "\<exists>tr. resolve_hypotheses sample_clock no_masks (\<lambda>_. None) no_inputs sample_claims = Inr tr
     \<and> trace_state tr = RESOLVED \<and> trace_status tr = ''MECHANISM_VERIFIED_CAUSE''
     \<and> mechanism_verified_hypotheses tr = [''h1'']"
proof -
  from sample_verdict obtain tr where tr: "resolve_hypotheses sample_clock no_masks (\<lambda>_. None) no_inputs sample_claims = Inr tr"
    "plausible_hypotheses tr = [''h1'']" "unresolved_hypotheses tr = []" by blast
  have ids: "distinct (map hypothesis_id sample_claims)" by simp
  have "material_frontier (structural_alternatives no_inputs) (filter admitted sample_claims) = []"
    by (simp add: material_frontier_def no_inputs_def List.map_filter_def)
  with resolved_iff_observed [OF ids tr(1)] tr sample_verified sample_covered show ?thesis
    by simp
qed

end
