(* ===== verification/Resolution_Audit.thy ===== *)
theory Resolution_Audit
  imports Resolution
begin

text \<open>
  Reading a stored diagnosis (\<open>packages/rca/resolution.py\<close>): whether it has a supported cause, and the
  near collisions of its audits, the pairs of claims with one signature that bear on its outcome.
  A diagnosis is its resolution and its trace; what the records carry only for people is left out.
\<close>

record diagnosis =
  diagnosis_resolution :: resolution_state
  diagnosis_trace :: "resolution_trace option"

definition has_supported_cause :: "diagnosis \<Rightarrow> bool" where
  "has_supported_cause d =
     (case diagnosis_trace d of
        Some tr \<Rightarrow>
          if semantics_version tr \<in> {''m21.v2'', ''m21.v3''}
          then trace_status tr \<in> {''SUPPORTED_CAUSE'', ''MECHANISM_VERIFIED_CAUSE''}
          else diagnosis_resolution d = RESOLVED
      | None \<Rightarrow> diagnosis_resolution d = RESOLVED)"

record near_collision =
  collision_selected :: resolution_audit
  collision_alternative :: resolution_audit
  collision_leader :: "resolution_audit option"
  collision_pair :: "resolution_audit \<times> resolution_audit"
  collision_dominance :: "dominance option"
  collision_discriminators :: "discriminator list"
  classification :: string
  collision_resolution :: resolution_state

fun unordered_pairs :: "'a list \<Rightarrow> ('a \<times> 'a) list" where
  "unordered_pairs [] = []"
| "unordered_pairs (x # xs) = map (Pair x) xs @ unordered_pairs xs"

definition shown_audits :: "resolution_trace \<Rightarrow> resolution_audit list" where
  "shown_audits tr = filter (\<lambda>a. audit_admission a \<noteq> ''OBSERVED_CONTEXT'') (hypothesis_audits tr)"

definition final_selected :: "resolution_trace \<Rightarrow> resolution_audit option" where
  "final_selected tr =
     (case leading_hypotheses tr of
        [] \<Rightarrow> None
      | i # _ \<Rightarrow> List.find (\<lambda>a. audit_hypothesis a = i) (shown_audits tr))"

definition has_plausible :: "resolution_audit \<times> resolution_audit \<Rightarrow> resolution_trace \<Rightarrow> bool" where
  "has_plausible p tr \<longleftrightarrow>
     {audit_hypothesis (fst p), audit_hypothesis (snd p)}
       \<inter> audit_hypothesis ` set (filter audit_plausible (shown_audits tr)) \<noteq> {}"

text \<open>The leader was resolved while neither claim of the pair is plausible.\<close>

definition resolved_by_other :: "diagnosis \<Rightarrow> resolution_trace \<Rightarrow> resolution_audit \<times> resolution_audit \<Rightarrow> bool" where
  "resolved_by_other d tr p \<longleftrightarrow>
     diagnosis_resolution d = RESOLVED \<and> final_selected tr \<noteq> None \<and> \<not> has_plausible p tr"

definition leads_pair :: "resolution_trace \<Rightarrow> resolution_audit \<times> resolution_audit \<Rightarrow> bool" where
  "leads_pair tr p \<longleftrightarrow>
     (case final_selected tr of
        None \<Rightarrow> False
      | Some f \<Rightarrow> audit_hypothesis f \<in> {audit_hypothesis (fst p), audit_hypothesis (snd p)})"

definition is_collision :: "diagnosis \<Rightarrow> resolution_trace \<Rightarrow> resolution_audit \<times> resolution_audit \<Rightarrow> bool" where
  "is_collision d tr p \<longleftrightarrow> audit_signature (fst p) = audit_signature (snd p)
     \<and> (has_plausible p tr \<or> leads_pair tr p \<or> resolved_by_other d tr p)"

definition dominance_of :: "resolution_trace \<Rightarrow> resolution_audit \<times> resolution_audit \<Rightarrow> dominance option" where
  "dominance_of tr p =
     List.find (\<lambda>r. {stronger_hypothesis r, weaker_hypothesis r}
       = {audit_hypothesis (fst p), audit_hypothesis (snd p)}) (dominance_relations tr)"

definition classify_collision :: "diagnosis \<Rightarrow> resolution_trace \<Rightarrow> resolution_audit \<times> resolution_audit \<Rightarrow> string" where
  "classify_collision d tr p =
     (let states = {audit_state (fst p), audit_state (snd p)} in
      if dominance_of tr p \<noteq> None then ''VALID_DOMINANCE''
      else if states \<noteq> {CLAIM_SUPPORTED}
      then (if CLAIM_UNRESOLVED \<in> states then ''UNRESOLVED_PEER''
            else if EXPLICIT_TEMPORAL_CONTRADICTION \<in> set (plausibility_reasons (fst p) @ plausibility_reasons (snd p))
            then ''VALID_CONTRADICTION'' else ''ONLY_ONE_PLAUSIBLE'')
      else if diagnosis_resolution d = AMBIGUOUS then ''AMBIGUOUS_PEER''
      else ''SCORE_LEAKAGE'')"

definition collision_roles ::
  "diagnosis \<Rightarrow> resolution_trace \<Rightarrow> resolution_audit \<times> resolution_audit \<Rightarrow> resolution_audit \<times> resolution_audit" where
  "collision_roles d tr p =
     (case final_selected tr of
        None \<Rightarrow> p
      | Some f \<Rightarrow>
          if leads_pair tr p \<or> resolved_by_other d tr p
          then (f, if audit_hypothesis f = audit_hypothesis (fst p) then snd p else fst p) else p)"

definition resolution_audit_records :: "diagnosis \<Rightarrow> near_collision list" where
  "resolution_audit_records d =
     (case diagnosis_trace d of
        None \<Rightarrow> []
      | Some tr \<Rightarrow>
          if length (hypothesis_audits tr) < 2 then []
          else map (\<lambda>p. \<lparr>collision_selected = fst (collision_roles d tr p),
                  collision_alternative = snd (collision_roles d tr p),
                  collision_leader = final_selected tr, collision_pair = p,
                  collision_dominance = dominance_of tr p,
                  collision_discriminators = filter (\<lambda>x. set (discriminator_hypotheses x)
                    \<inter> {audit_hypothesis (fst p), audit_hypothesis (snd p)} \<noteq> {}) (discriminators tr),
                  classification = classify_collision d tr p,
                  collision_resolution = diagnosis_resolution d\<rparr>)
                (filter (is_collision d tr) (unordered_pairs (shown_audits tr))))"

definition classification_counts :: "diagnosis list \<Rightarrow> (string \<times> nat) list" where
  "classification_counts ds =
     fold (\<lambda>r d. AList.update (classification r)
         (Suc (case map_of d (classification r) of None \<Rightarrow> 0 | Some n \<Rightarrow> n)) d)
       (concat (map resolution_audit_records ds)) []"

text \<open>
  The state of an audit is read off the claim's own evidence, so a supported claim that eligibility or an
  explanation took out of the contest is still reported as if the score had decided against it.
\<close>

lemma excluded_peer_is_leakage:
  assumes "diagnosis_resolution d = RESOLVED" "dominance_relations tr = []"
    and "audit_state (fst p) = CLAIM_SUPPORTED" "audit_state (snd p) = CLAIM_SUPPORTED"
  shows "classify_collision d tr p = ''SCORE_LEAKAGE''"
  using assms by (simp add: classify_collision_def dominance_of_def)

end
