(* ===== verification/Ranking.thy ===== *)
theory Ranking
  imports Topology Floats
begin

text \<open>
  Scores, temporal roles and the verification of a candidate (\<open>packages/rca/ranking.py\<close>). Scores are doubles
  (\<open>Floats\<close>); the square root of the event count is the argument \<open>sqrt_of\<close> and the text \<open>repr\<close> gives of a
  finding's details the argument \<open>repr\<close>. Texts shown to people (reasons, details, rationales) are left out, as
  are the fields only they use. Names are ASCII, so \<open>casefold\<close> is \<open>lower\<close>.
\<close>

section \<open>Configuration and context\<close>

definition half :: float64 where
  "half = 2 ^ 1073"

definition KIND_WEIGHT :: "finding_kind \<Rightarrow> float64" where
  "KIND_WEIGHT k =
     (case k of
        CONFIG_CHANGE \<Rightarrow> 10 | FAULT_INJECTION \<Rightarrow> 10 | IMAGE_CHANGE \<Rightarrow> 9 | SPEC_CHANGE \<Rightarrow> 8
      | POLICY_CREATED \<Rightarrow> 8 | FAULT_SCHEDULE \<Rightarrow> 7 | DEPENDENCY_ERRORS \<Rightarrow> 6 | OBJECT_DELETED \<Rightarrow> 9
      | OBJECT_CREATED \<Rightarrow> 6 | QUOTA_EXCEEDED \<Rightarrow> 10 | QUOTA_EXHAUSTED \<Rightarrow> 6 | NETWORK_RESTRICTION \<Rightarrow> 5
      | CONTAINER_FAILURE \<Rightarrow> 6 | RESOURCE_PRESSURE \<Rightarrow> 5 | SCALE_CHANGE \<Rightarrow> 6 | ROLLOUT_RESTART \<Rightarrow> 3
      | FAILURE_EVENT \<Rightarrow> 2 | AUTOSCALING_FAILURE \<Rightarrow> 7 | TRAFFIC_INCREASE \<Rightarrow> 8) * half"

definition STRONG_KINDS :: "finding_kind list" where
  "STRONG_KINDS =
     [CONFIG_CHANGE, FAULT_INJECTION, IMAGE_CHANGE, SPEC_CHANGE, POLICY_CREATED, SCALE_CHANGE, QUOTA_EXCEEDED]"

record ranking_config =
  lookback :: duration
  config_grace :: duration
  distance_bonus :: "float64 list"
  unlinked_penalty :: float64
  namespace_bonus :: float64
  mention_bonus :: float64
  in_window_bonus :: float64
  extra_finding_weight :: float64
  verify_score :: float64
  symptom_event_factor :: float64
  verification_onset_grace :: duration

definition RankingConfig :: ranking_config where
  "RankingConfig =
     \<lparr>lookback = 120 * minute, config_grace = 30 * minute, distance_bonus = [6 * half, 5 * half, 4 * half, 2 * half],
      unlinked_penalty = 4 * half, namespace_bonus = 3 * half, mention_bonus = 4 * half, in_window_bonus = 2 * half,
      extra_finding_weight = 5404319552844595 * 2 ^ 1020, verify_score = 14 * half, symptom_event_factor = half,
      verification_onset_grace = 15 * minute\<rparr>"

record symptoms =
  symptom_onset :: "instant option"
  symptom_last_seen :: "instant option"
  symptom_services :: "string list"
  symptom_namespaces :: "string list"
  reference_time :: "instant option"

record ranking_context =
  context_symptoms :: symptoms
  context_entities :: "entity_ref list"
  context_topology :: topology
  window_end :: "instant option"
  tokens :: "string list"

definition normalize :: "string \<Rightarrow> string" where
  "normalize s = filter host_alnum (map lower_char s)"

definition symptom_tokens :: "symptoms \<Rightarrow> entity_ref list \<Rightarrow> topology \<Rightarrow> string list" where
  "symptom_tokens sy es t =
     filter (\<lambda>x. 3 \<le> length x)
       (dedup (map normalize (symptom_services sy) @ concat (map (map normalize \<circ> service_names t) es)))"

section \<open>Scores\<close>

definition mentioned :: "((string \<times> json) list \<Rightarrow> string) \<Rightarrow> finding \<Rightarrow> string list \<Rightarrow> bool" where
  "mentioned repr f ts \<longleftrightarrow> list_ex (\<lambda>x. substring x (normalize (repr (details f)))) ts"

definition finding_in_window :: "instant option \<Rightarrow> ranking_context \<Rightarrow> ranking_config \<Rightarrow> bool option" where
  "finding_in_window t c cfg =
     (case (t, reference_time (context_symptoms c)) of
        (Some t, Some onset) \<Rightarrow>
          let e = the (or_else (or_else (window_end c) (symptom_last_seen (context_symptoms c))) (Some onset))
          in Some (onset - lookback cfg \<le> t \<and> t \<le> e + config_grace cfg)
      | _ \<Rightarrow> None)"

definition affected_by :: "finding \<Rightarrow> topology \<Rightarrow> entity_ref list" where
  "affected_by f t =
     (let own = entity f # related f in dedup (own @ List.map_filter (workload_of t) own))"

definition best_distance :: "finding \<Rightarrow> ranking_context \<Rightarrow> nat option" where
  "best_distance f c =
     py_min (List.map_filter (\<lambda>e. causal_distance (context_topology c) 4 e (context_entities c))
       (affected_by f (context_topology c)))"

definition link_score ::
  "((string \<times> json) list \<Rightarrow> string) \<Rightarrow> finding \<Rightarrow> ranking_context \<Rightarrow> ranking_config \<Rightarrow> float64" where
  "link_score repr f c cfg =
     (let near = (case best_distance f c of
              Some d \<Rightarrow> if d < length (distance_bonus cfg)
                        then [float_times (if finding_kind f = FAILURE_EVENT then symptom_event_factor cfg else UNIT)
                                (distance_bonus cfg ! d)] else []
            | None \<Rightarrow> []);
          place = (if list_ex (\<lambda>e. namespace e \<in> set (symptom_namespaces (context_symptoms c)))
                        (affected_by f (context_topology c))
                   then [namespace_bonus cfg] else []);
          text = (if mentioned repr f (tokens c) \<and> finding_kind f \<in> set STRONG_KINDS then [mention_bonus cfg] else []);
          parts = near @ place @ text
      in fold (\<lambda>x s. float_add s x) (if parts = [] then [- unlinked_penalty cfg] else parts) 0)"

text \<open>The count of an event is an integer; it is one where it is missing.\<close>

definition event_count :: "finding \<Rightarrow> int" where
  "event_count f = (case map_of (details f) ''count'' of Some (JInt n) \<Rightarrow> n | _ \<Rightarrow> 1)"

record scorer =
  sqrt_of :: "float64 \<Rightarrow> float64"
  repr_of :: "(string \<times> json) list \<Rightarrow> string"

definition score_finding :: "scorer \<Rightarrow> finding \<Rightarrow> ranking_context \<Rightarrow> ranking_config \<Rightarrow> float64" where
  "score_finding sc f c cfg =
     (let base = (if finding_kind f = FAILURE_EVENT
                  then float_add (KIND_WEIGHT FAILURE_EVENT)
                         (min (3 * half) (float_times (2 ^ 1072) (sqrt_of sc (float_of_int (event_count f)))))
                  else KIND_WEIGHT (finding_kind f));
          linked = float_add base (link_score (repr_of sc) f c cfg)
      in case finding_in_window (at f) c cfg of
           Some True \<Rightarrow> float_add linked (in_window_bonus cfg)
         | Some False \<Rightarrow> float_add linked (- in_window_bonus cfg)
         | None \<Rightarrow> linked)"

section \<open>Candidates\<close>

record candidate =
  candidate_entity :: entity_ref
  score :: float64
  candidate_findings :: "finding list"
  linked_symptoms :: "string list"
  causal_path_of :: "causal_hop list"
  candidate_explanation :: string
  structural_basis :: "string list"

text \<open>Per kind other than the top one, the first positive value, at most the top one.\<close>

definition extra_values :: "(float64 \<times> finding) list \<Rightarrow> (finding_kind \<times> float64) list" where
  "extra_values scored =
     fold (\<lambda>(v, f) d.
         if finding_kind f \<noteq> finding_kind (snd (hd scored)) \<and> 0 < v \<and> map_of d (finding_kind f) = None
         then d @ [(finding_kind f, min v (fst (hd scored)))] else d) (tl scored) []"

definition top_two :: "float64 list \<Rightarrow> float64" where
  "top_two xs = fold (\<lambda>x s. float_add s x) (let ys = sort xs in drop (length ys - 2) ys) 0"

definition best_score :: "ranking_config \<Rightarrow> (float64 \<times> finding) list \<Rightarrow> float64" where
  "best_score cfg scored =
     round3 (float_add (fst (hd scored))
       (float_times (extra_finding_weight cfg) (top_two (map snd (extra_values scored)))))"

text \<open>The shortest causal path of what the finding affects, its own entity first, then by name.\<close>

definition shortest_path :: "entity_ref \<Rightarrow> finding \<Rightarrow> ranking_context \<Rightarrow> causal_hop list" where
  "shortest_path own f c =
     (let affected = sort_key (\<lambda>e. (e \<noteq> own, canonical e)) (affected_by f (context_topology c));
          paths = List.map_filter (\<lambda>e. causal_path (context_topology c) 4 e (context_entities c)) affected
      in case paths of
           [] \<Rightarrow> []
         | p # ps \<Rightarrow> fold (\<lambda>q best. if length q < length best then q else best) ps p)"

definition reached_symptoms :: "finding \<Rightarrow> ranking_context \<Rightarrow> string list" where
  "reached_symptoms f c =
     (let reached = concat (map (\<lambda>e. map fst (causal_reachable (context_topology c) 4 e))
            (affected_by f (context_topology c)))
      in take 5 (sort (map canonical (filter (\<lambda>e. e \<in> set reached) (context_entities c)))))"

definition candidate_of ::
  "scorer \<Rightarrow> ranking_context \<Rightarrow> ranking_config \<Rightarrow> entity_ref \<times> finding list \<Rightarrow> candidate" where
  "candidate_of sc c cfg gr =
     (let scored = sort_key (\<lambda>(v, _). - v) (map (\<lambda>f. (score_finding sc f c cfg, f)) (snd gr));
          top = snd (hd scored); path = shortest_path (fst gr) top c; linked = reached_symptoms top c
      in \<lparr>candidate_entity = fst gr, score = best_score cfg scored, candidate_findings = map snd scored,
          linked_symptoms = linked, causal_path_of = path,
          candidate_explanation = (if path \<noteq> [] then ''PATH'' else if linked \<noteq> [] then ''DIRECT'' else ''UNLINKED''),
          structural_basis = []\<rparr>)"

definition score_findings :: "scorer \<Rightarrow> ranking_context \<Rightarrow> ranking_config \<Rightarrow> finding list \<Rightarrow> candidate list" where
  "score_findings sc c cfg fs =
     sort_key (\<lambda>x. (- score x, canonical (candidate_entity x)))
       (map (candidate_of sc c cfg) (group_by entity (\<lambda>f. f) fs []))"

section \<open>One experiment per schedule instance\<close>

type_synonym schedule_instance = "entity_ref \<times> string option"

definition spawn_parents :: "topology \<Rightarrow> (entity_ref \<times> entity_ref) list" where
  "spawn_parents t =
     rev (map (\<lambda>e. (edge_target e, edge_source e)) (filter (\<lambda>e. edge_relation e = ''spawns'') (topo_edges t)))"

definition detail_texts :: "string \<Rightarrow> finding list \<Rightarrow> string list" where
  "detail_texts k fs = dedup (List.map_filter (\<lambda>f. str_of (dict_value (details f) k)) fs)"

definition sole :: "'a list \<Rightarrow> 'a option" where
  "sole xs = (case xs of [x] \<Rightarrow> Some x | _ \<Rightarrow> None)"

definition instance_group :: "topology \<Rightarrow> candidate \<Rightarrow> schedule_instance option" where
  "instance_group t x =
     map_option (\<lambda>p. (p, sole (detail_texts ''schedule_uid'' (candidate_findings x))))
       (map_of (spawn_parents t) (candidate_entity x))"

definition started :: "candidate \<Rightarrow> instant option" where
  "started x = py_min (List.map_filter at (candidate_findings x))"

text \<open>The latest that started by the onset, the better scored of equals; else the earliest; else the first.\<close>

definition kept_instance :: "instant option \<Rightarrow> candidate list \<Rightarrow> candidate" where
  "kept_instance onset ms =
     (let timed = List.map_filter (\<lambda>m. map_option (\<lambda>t. (t, m)) (started m)) ms;
          early = filter (\<lambda>(t, _). case onset of None \<Rightarrow> True | Some o' \<Rightarrow> t \<le> o') timed
      in if early \<noteq> [] then snd (the (max_by (\<lambda>(t, m). (t, score m)) early))
         else if timed \<noteq> [] then snd (the (max_by (\<lambda>(t, m). (- t, score m)) timed))
         else hd ms)"

definition chosen_instance :: "instant option \<Rightarrow> candidate list \<Rightarrow> candidate" where
  "chosen_instance onset ms =
     (kept_instance onset ms)\<lparr>score := the (py_max (map score ms))\<rparr>"

definition instance_members :: "topology \<Rightarrow> candidate list \<Rightarrow> schedule_instance \<Rightarrow> candidate list" where
  "instance_members t cs g = filter (\<lambda>x. instance_group t x = Some g) cs"

fun collapse_rest ::
  "topology \<Rightarrow> instant option \<Rightarrow> candidate list \<Rightarrow> schedule_instance list \<Rightarrow> candidate list \<Rightarrow> candidate list" where
  "collapse_rest t onset cs placed [] = []"
| "collapse_rest t onset cs placed (x # xs) =
     (case instance_group t x of
        None \<Rightarrow> x # collapse_rest t onset cs placed xs
      | Some g \<Rightarrow>
          if g \<in> set placed then collapse_rest t onset cs placed xs
          else chosen_instance onset (instance_members t cs g) # collapse_rest t onset cs (g # placed) xs)"

definition collapse_fault_instances :: "topology \<Rightarrow> instant option \<Rightarrow> candidate list \<Rightarrow> candidate list" where
  "collapse_fault_instances t onset cs = collapse_rest t onset cs [] cs"

section \<open>Temporal roles\<close>

definition RANKING_INITIATING_KINDS :: "finding_kind list" where
  "RANKING_INITIATING_KINDS =
     [CONFIG_CHANGE, OBJECT_CREATED, OBJECT_DELETED, SPEC_CHANGE, IMAGE_CHANGE, SCALE_CHANGE, FAULT_INJECTION,
      FAULT_SCHEDULE, POLICY_CREATED, QUOTA_EXCEEDED, NETWORK_RESTRICTION, AUTOSCALING_FAILURE, TRAFFIC_INCREASE]"

definition RANKING_SUPPORTING_KINDS :: "finding_kind list" where
  "RANKING_SUPPORTING_KINDS = [CONTAINER_FAILURE, RESOURCE_PRESSURE, DEPENDENCY_ERRORS, FAILURE_EVENT]"

definition VERIFIABLE_KINDS :: "finding_kind list" where
  "VERIFIABLE_KINDS =
     [CONFIG_CHANGE, FAULT_INJECTION, FAULT_SCHEDULE, SPEC_CHANGE, IMAGE_CHANGE, SCALE_CHANGE, OBJECT_DELETED,
      POLICY_CREATED, QUOTA_EXCEEDED, AUTOSCALING_FAILURE, TRAFFIC_INCREASE]"

definition EXECUTION_RECORD_KINDS :: "finding_kind list" where
  "EXECUTION_RECORD_KINDS = [FAULT_INJECTION, FAULT_SCHEDULE]"

definition EXECUTION_RECORD_PRECISION :: duration where
  "EXECUTION_RECORD_PRECISION = second"

definition role_at :: "finding_kind \<Rightarrow> duration option \<Rightarrow> duration \<Rightarrow> temporal_role" where
  "role_at k delta grace =
     (case delta of
        None \<Rightarrow> AMBIGUOUS_ROLE
      | Some d \<Rightarrow>
          if k \<in> set EXECUTION_RECORD_KINDS \<and> d > EXECUTION_RECORD_PRECISION then AFTER_ONSET
          else if k \<in> set RANKING_INITIATING_KINDS then (if d \<le> grace then INITIATING else CONSEQUENCE)
          else if k \<in> set RANKING_SUPPORTING_KINDS \<and> d \<ge> 0 then SUPPORTING
          else AMBIGUOUS_ROLE)"

definition annotate_temporal_roles :: "finding list \<Rightarrow> instant option \<Rightarrow> duration \<Rightarrow> finding list" where
  "annotate_temporal_roles fs onset grace =
     map (\<lambda>f. let delta = (case (at f, onset) of (Some t, Some o') \<Rightarrow> Some (t - o') | _ \<Rightarrow> None) in
           f\<lparr>incident_onset := onset, onset_delta := delta,
             temporal_role := role_at (finding_kind f) delta grace\<rparr>) fs"

section \<open>Verification\<close>

datatype confidence = VERIFIED_CANDIDATE | LIKELY | UNVERIFIED

datatype predicate_status = PREDICATE_PASS | PREDICATE_FAIL | PREDICATE_UNKNOWN | PREDICATE_WEAK

record verification_predicate =
  predicate_name :: string
  predicate_status :: predicate_status
  predicate_evidence :: "string list"

record verification_trace =
  trace_candidate :: entity_ref
  trace_decision :: confidence
  trace_predicates :: "verification_predicate list"
  trace_onset_delta :: "duration option"
  supporting_evidence :: "string list"
  contradictory_evidence :: "string list"
  score_margin :: "float64 option"

definition linked_finding :: "finding \<Rightarrow> ranking_context \<Rightarrow> bool" where
  "linked_finding f c \<longleftrightarrow>
     list_ex (\<lambda>e. causal_distance (context_topology c)
         (if finding_kind f \<in> {CONFIG_CHANGE, OBJECT_DELETED} then 3 else 2) e (context_entities c) \<noteq> None)
       (affected_by f (context_topology c))"

definition evidence_of :: "finding list \<Rightarrow> string list" where
  "evidence_of fs = concat (map evidence_ids fs)"

text \<open>Whether a finding's causal time is at most the onset grace after the onset, if both are known.\<close>

definition timely :: "(string \<Rightarrow> instant option) \<Rightarrow> ranking_context \<Rightarrow> ranking_config \<Rightarrow> finding \<Rightarrow> bool option" where
  "timely fi c cfg f =
     (case (causal_time fi f, symptom_onset (context_symptoms c)) of
        (Some t, Some onset) \<Rightarrow> Some (t - onset \<le> verification_onset_grace cfg)
      | _ \<Rightarrow> None)"

definition relevant_findings :: "ranking_context \<Rightarrow> candidate \<Rightarrow> finding list" where
  "relevant_findings c x = filter (\<lambda>f. linked_finding f c) (candidate_findings x)"

definition timed_initiating ::
  "(string \<Rightarrow> instant option) \<Rightarrow> ranking_context \<Rightarrow> ranking_config \<Rightarrow> candidate \<Rightarrow> bool \<Rightarrow> finding list" where
  "timed_initiating fi c cfg x b =
     filter (\<lambda>f. finding_kind f \<in> set RANKING_INITIATING_KINDS \<and> timely fi c cfg f = Some b) (relevant_findings c x)"

definition config_mentions :: "scorer \<Rightarrow> ranking_context \<Rightarrow> candidate \<Rightarrow> finding list" where
  "config_mentions sc c x =
     filter (\<lambda>f. finding_kind f = CONFIG_CHANGE \<and> mentioned (repr_of sc) f (tokens c)) (candidate_findings x)"

definition timely_mentions ::
  "(string \<Rightarrow> instant option) \<Rightarrow> scorer \<Rightarrow> ranking_context \<Rightarrow> ranking_config \<Rightarrow> candidate \<Rightarrow> finding list" where
  "timely_mentions fi sc c cfg x = filter (\<lambda>f. timely fi c cfg f = Some True) (config_mentions sc c x)"

definition has_verified_kind ::
  "(string \<Rightarrow> instant option) \<Rightarrow> scorer \<Rightarrow> ranking_context \<Rightarrow> ranking_config \<Rightarrow> candidate \<Rightarrow> bool" where
  "has_verified_kind fi sc c cfg x \<longleftrightarrow>
     list_ex (\<lambda>f. finding_kind f \<in> set VERIFIABLE_KINDS \<and> linked_finding f c)
       (timed_initiating fi c cfg x True @ timely_mentions fi sc c cfg x)
     \<or> timely_mentions fi sc c cfg x \<noteq> []"

definition downstream_only :: "ranking_context \<Rightarrow> candidate \<Rightarrow> bool" where
  "downstream_only c x \<longleftrightarrow> relevant_findings c x \<noteq> []
     \<and> list_all (\<lambda>f. finding_kind f \<in> {CONTAINER_FAILURE, RESOURCE_PRESSURE, FAILURE_EVENT}) (relevant_findings c x)"

definition margin_over :: "candidate \<Rightarrow> candidate option \<Rightarrow> float64 option" where
  "margin_over x runner_up = map_option (\<lambda>r. float_add (score x) (- score r)) runner_up"

definition weak_margin :: "float64 option \<Rightarrow> bool" where
  "weak_margin m \<longleftrightarrow> (case m of None \<Rightarrow> False | Some d \<Rightarrow> d \<le> UNIT)"

definition mk_predicate :: "string \<Rightarrow> predicate_status \<Rightarrow> string list \<Rightarrow> verification_predicate" where
  "mk_predicate n st es = \<lparr>predicate_name = n, predicate_status = st, predicate_evidence = take 8 es\<rparr>"

definition trace_predicates_of ::
  "(string \<Rightarrow> instant option) \<Rightarrow> ranking_context \<Rightarrow> ranking_config \<Rightarrow> candidate option \<Rightarrow> candidate
   \<Rightarrow> verification_predicate list" where
  "trace_predicates_of fi c cfg runner_up x =
     (let relevant = relevant_findings c x; ids = evidence_of relevant;
          early = timed_initiating fi c cfg x True; late = timed_initiating fi c cfg x False in
      [mk_predicate ''candidate_linked_to_symptom'' (if relevant \<noteq> [] then PREDICATE_PASS else PREDICATE_FAIL) ids,
       mk_predicate ''initiating_evidence_near_onset''
         (if early \<noteq> [] then PREDICATE_PASS
          else if late \<noteq> [] \<or> symptom_onset (context_symptoms c) \<noteq> None then PREDICATE_FAIL else PREDICATE_UNKNOWN)
         (evidence_of early)]
      @ (if late \<noteq> [] then [mk_predicate ''late_change_contradiction'' PREDICATE_FAIL (evidence_of late)] else [])
      @ (if runner_up = None then []
         else [mk_predicate ''candidate_dominance''
                 (if weak_margin (margin_over x runner_up) then PREDICATE_WEAK else PREDICATE_PASS) []])
      @ (if downstream_only c x then [mk_predicate ''initiating_signal_required'' PREDICATE_FAIL ids] else []))"

definition decision_of ::
  "(string \<Rightarrow> instant option) \<Rightarrow> scorer \<Rightarrow> ranking_context \<Rightarrow> ranking_config \<Rightarrow> candidate option \<Rightarrow> candidate
   \<Rightarrow> confidence" where
  "decision_of fi sc c cfg runner_up x =
     (if has_verified_kind fi sc c cfg x \<and> (relevant_findings c x \<noteq> [] \<or> config_mentions sc c x \<noteq> [])
         \<and> timed_initiating fi c cfg x False = [] \<and> \<not> weak_margin (margin_over x runner_up)
      then VERIFIED_CANDIDATE
      else if downstream_only c x then UNVERIFIED
      else if score x \<ge> verify_score cfg \<and> relevant_findings c x \<noteq> [] then LIKELY
      else UNVERIFIED)"

text \<open>\<open>min(timed, key=abs)\<close>\<close>

definition closest_delta :: "finding list \<Rightarrow> duration option" where
  "closest_delta fs = max_by (\<lambda>d. - \<bar>d\<bar>) (List.map_filter onset_delta fs)"

definition verification_trace_of ::
  "(string \<Rightarrow> instant option) \<Rightarrow> scorer \<Rightarrow> ranking_context \<Rightarrow> ranking_config \<Rightarrow> candidate option \<Rightarrow> candidate
   \<Rightarrow> verification_trace" where
  "verification_trace_of fi sc c cfg runner_up x =
     \<lparr>trace_candidate = candidate_entity x, trace_decision = decision_of fi sc c cfg runner_up x,
      trace_predicates = trace_predicates_of fi c cfg runner_up x,
      trace_onset_delta = closest_delta (candidate_findings x),
      supporting_evidence = take 12 (evidence_of (relevant_findings c x)),
      contradictory_evidence = take 12 (evidence_of (timed_initiating fi c cfg x False)),
      score_margin = margin_over x runner_up\<rparr>"

end
