(* ===== verification/Grouping.thy ===== *)
theory Grouping
  imports Prelude
begin

text \<open>
  The disjoint sets by which candidates are grouped (\<open>_DisjointSet\<close> in \<open>packages/rca/hypotheses.py\<close>), with
  path compression, and their correctness: after any unions two elements have one representative exactly when the
  unions connect them. The recursion of \<open>find\<close> is bounded by fuel; every union adds at most one to the depth, so
  the number of unions is enough.
\<close>

section \<open>The structure\<close>

fun find_root :: "nat \<Rightarrow> nat list \<Rightarrow> nat \<Rightarrow> nat \<times> nat list" where
  "find_root 0 ps v = (v, ps)"
| "find_root (Suc k) ps v =
     (if ps ! v = v then (v, ps)
      else case find_root k ps (ps ! v) of (r, qs) \<Rightarrow> (r, qs[v := r]))"

definition union_roots :: "nat \<Rightarrow> nat list \<Rightarrow> nat \<times> nat \<Rightarrow> nat list" where
  "union_roots k ps lr =
     (case find_root k ps (fst lr) of (l, qs) \<Rightarrow>
      case find_root k qs (snd lr) of (r, rs) \<Rightarrow> if l = r then rs else rs[r := l])"

fun unions :: "nat \<Rightarrow> (nat \<times> nat) list \<Rightarrow> nat list \<Rightarrow> nat list" where
  "unions k [] ps = ps"
| "unions k (p # pairs) ps = unions (Suc k) pairs (union_roots k ps p)"

text \<open>The elements by representative, in the order of their first member.\<close>

definition collect_root :: "nat \<Rightarrow> nat \<Rightarrow> nat list \<times> (nat \<times> nat list) list \<Rightarrow> nat list \<times> (nat \<times> nat list) list" where
  "collect_root k v st = (case find_root k (fst st) v of (r, ps) \<Rightarrow> (ps, push r v (snd st)))"

definition components :: "nat \<Rightarrow> (nat \<times> nat) list \<Rightarrow> nat list list" where
  "components n pairs =
     map snd (snd (fold (collect_root (length pairs)) [0..<n] (unions 0 pairs [0..<n], [])))"

section \<open>Representatives\<close>

primrec root_of :: "nat \<Rightarrow> nat list \<Rightarrow> nat \<Rightarrow> nat" where
  "root_of 0 ps v = v"
| "root_of (Suc k) ps v = (if ps ! v = v then v else root_of k ps (ps ! v))"

text \<open>A forest whose depths are at most \<open>k\<close>.\<close>

definition ranked :: "(nat \<Rightarrow> nat) \<Rightarrow> nat \<Rightarrow> nat list \<Rightarrow> bool" where
  "ranked rank k ps \<longleftrightarrow> (\<forall>v<length ps. ps ! v < length ps \<and> rank v \<le> k
     \<and> (if ps ! v = v then rank v = 0 else rank (ps ! v) < rank v))"

lemma ranked_step:
  assumes "ranked rank k ps" "v < length ps"
  shows "ps ! v < length ps \<and> rank v \<le> k \<and> (ps ! v = v \<and> rank v = 0 \<or> ps ! v \<noteq> v \<and> rank (ps ! v) < rank v)"
  using assms unfolding ranked_def by metis

lemma root_of_stable:
  assumes "ranked rank k ps" "v < length ps" "rank v \<le> i" "i \<le> j"
  shows "root_of j ps v = root_of i ps v"
  using assms(2-4)
proof (induction j arbitrary: i v)
  case (Suc j)
  show ?case
  proof (cases "ps ! v = v")
    case True
    then show ?thesis by (cases i) auto
  next
    case False
    with ranked_step [OF assms(1) Suc.prems(1)] have "rank (ps ! v) < rank v" "ps ! v < length ps" by auto
    moreover from this obtain i' where "i = Suc i'" using Suc.prems(2) by (cases i) auto
    ultimately show ?thesis using Suc.IH [of "ps ! v" i'] Suc.prems False by simp
  qed
qed simp

lemma root_of_root:
  assumes "ranked rank k ps" "v < length ps" "rank v \<le> i"
  shows "root_of i ps v < length ps \<and> ps ! (root_of i ps v) = root_of i ps v"
  using assms(2,3)
proof (induction i arbitrary: v)
  case 0
  then have "ps ! v = v" using ranked_step [OF assms(1) 0(1)] by auto
  with 0 show ?case by simp
next
  case (Suc i)
  show ?case
  proof (cases "ps ! v = v")
    case False
    with ranked_step [OF assms(1) Suc.prems(1)] have "ps ! v < length ps" "rank (ps ! v) < rank v" by auto
    with Suc False show ?thesis by simp
  qed (use Suc.prems in simp)
qed

text \<open>A compressed structure has the same representatives.\<close>

definition compressed :: "(nat \<Rightarrow> nat) \<Rightarrow> nat \<Rightarrow> nat list \<Rightarrow> nat list \<Rightarrow> bool" where
  "compressed rank k ps qs \<longleftrightarrow> length qs = length ps \<and> ranked rank k qs
     \<and> (\<forall>v<length ps. root_of k qs v = root_of k ps v)"

lemma shortcut:
  assumes ok: "ranked rank k ps" and v: "v < length ps" "ps ! v \<noteq> v"
  shows "compressed rank k ps (ps[v := root_of k ps v])"
proof -
  let ?r = "root_of k ps v" and ?qs = "ps[v := root_of k ps v]"
  have bound: "\<And>u. u < length ps \<Longrightarrow> rank u \<le> k" using ok by (simp add: ranked_def)
  have r: "?r < length ps" "ps ! ?r = ?r" using root_of_root [OF ok v(1) bound [OF v(1)]] by auto
  then have "?r \<noteq> v" "rank ?r = 0" using v(2) ok by (auto simp: ranked_def)
  moreover have "0 < rank v" using ok v by (auto simp: ranked_def)
  ultimately have ranked: "ranked rank k ?qs"
    using ok r v(1) unfolding ranked_def by (auto simp: nth_list_update)
  have "root_of i ?qs u = root_of i ps u" if "u < length ps" "rank u \<le> i" "i \<le> k" for i u
    using that
  proof (induction i arbitrary: u)
    case (Suc i)
    show ?case
    proof (cases "u = v")
      case True
      have "root_of (Suc i) ps v = ?r"
        using root_of_stable [OF ok v(1) _ Suc.prems(3)] Suc.prems(2) True by simp
      moreover have "root_of (Suc i) ?qs v = ?r"
        using v(1) r \<open>?r \<noteq> v\<close> by (cases i) (auto simp: nth_list_update)
      ultimately show ?thesis using True by simp
    next
      case False
      then show ?thesis
        using Suc ok by (auto simp: nth_list_update ranked_def split: if_splits)
    qed
  qed simp
  with ranked bound show ?thesis by (simp add: compressed_def)
qed

lemma compressed_refl: "ranked rank k ps \<Longrightarrow> compressed rank k ps ps"
  by (simp add: compressed_def)

lemma compressed_trans: "compressed rank k ps qs \<Longrightarrow> compressed rank k qs rs \<Longrightarrow> compressed rank k ps rs"
  by (simp add: compressed_def)

lemma find_root_correct:
  assumes ok: "ranked rank k ps" and v: "v < length ps" "rank v \<le> i" "i \<le> k"
  shows "fst (find_root i ps v) = root_of k ps v \<and> compressed rank k ps (snd (find_root i ps v))"
  using v
proof (induction i arbitrary: v)
  case 0
  then have "root_of k ps v = root_of 0 ps v" using root_of_stable [OF ok 0(1,2)] by simp
  then show ?case using compressed_refl [OF ok] by simp
next
  case (Suc i)
  show ?case
  proof (cases "ps ! v = v")
    case True
    then show ?thesis using compressed_refl [OF ok] by (cases k) auto
  next
    case False
    with ranked_step [OF ok Suc.prems(1)] have p: "ps ! v < length ps" "rank (ps ! v) < rank v" by auto
    obtain r qs where f: "find_root i ps (ps ! v) = (r, qs)" by fastforce
    with Suc.IH [of "ps ! v"] p Suc.prems have r: "r = root_of k ps (ps ! v)" and qs: "compressed rank k ps qs"
      by auto
    have "rank (ps ! v) \<le> k - 1" using p Suc.prems by simp
    then have "root_of k ps v = r"
      using False r root_of_stable [OF ok p(1), of "k - 1" k] Suc.prems by (cases k) auto
    moreover have "compressed rank k qs (qs[v := r])"
    proof (cases "qs ! v = v")
      case True
      then have "root_of k qs v = v" by (cases k) auto
      then have "r = v" using qs Suc.prems(1) \<open>root_of k ps v = r\<close> by (simp add: compressed_def)
      with True qs show ?thesis using compressed_refl [of rank k qs] by (metis compressed_def list_update_id)
    next
      case False
      then show ?thesis
        using shortcut [of rank k qs v] qs Suc.prems(1) \<open>root_of k ps v = r\<close> by (simp add: compressed_def)
    qed
    ultimately show ?thesis
      using f False compressed_trans [OF qs] by simp
  qed
qed

section \<open>Unions\<close>

lemma attach:
  assumes ok: "ranked rank k ps" and l: "l < length ps" "ps ! l = l" and r: "r < length ps" "ps ! r = r" and ne: "l \<noteq> r"
  shows "ranked (\<lambda>u. if root_of k ps u = r then Suc (rank u) else rank u) (Suc k) (ps[r := l])"
    and "u < length ps \<Longrightarrow> root_of (Suc k) (ps[r := l]) u = (if root_of k ps u = r then l else root_of k ps u)"
proof -
  let ?qs = "ps[r := l]"
  have roots: "root_of i ps x = x" if "ps ! x = x" for i x using that by (cases i) auto
  have up: "root_of k ps (ps ! u) = root_of k ps u" if "u < length ps" "ps ! u \<noteq> u" for u
  proof -
    note step = ranked_step [OF ok that(1)]
    then have "rank (ps ! u) \<le> k - 1" "ps ! u < length ps" "0 < k" using that by auto
    then show ?thesis
      using root_of_stable [OF ok, of "ps ! u" "k - 1" k] that by (cases k) auto
  qed
  have zero: "rank l = 0" "rank r = 0"
    using ranked_step [OF ok l(1)] ranked_step [OF ok r(1)] l r by auto
  show "ranked (\<lambda>u. if root_of k ps u = r then Suc (rank u) else rank u) (Suc k) ?qs"
    unfolding ranked_def
  proof (intro allI impI)
    fix v assume "v < length ?qs"
    then have v: "v < length ps" by simp
    note step = ranked_step [OF ok v]
    show "?qs ! v < length ?qs \<and> (if root_of k ps v = r then Suc (rank v) else rank v) \<le> Suc k
        \<and> (if ?qs ! v = v then (if root_of k ps v = r then Suc (rank v) else rank v) = 0
           else (if root_of k ps (?qs ! v) = r then Suc (rank (?qs ! v)) else rank (?qs ! v))
                < (if root_of k ps v = r then Suc (rank v) else rank v))"
    proof (cases "v = r")
      case True
      then show ?thesis using l r ne zero roots by auto
    next
      case False
      then have "?qs ! v = ps ! v" by simp
      then show ?thesis
        using False step up [OF v] roots [of v k] by (cases "ps ! v = v") auto
    qed
  qed
  have "root_of (Suc i) ?qs u = (if root_of i ps u = r then l else root_of i ps u)"
    if "u < length ps" "rank u \<le> i" for i u
    using that
  proof (induction i arbitrary: u)
    case 0
    then have "ps ! u = u" using ranked_step [OF ok 0(1)] by auto
    then show ?case using 0(1) by (auto simp: nth_list_update)
  next
    case (Suc i)
    note step = ranked_step [OF ok Suc.prems(1)]
    show ?case
    proof (cases "u = r")
      case True
      then show ?thesis using roots [OF r(2)] ne l r(1) by (auto simp: nth_list_update)
    next
      case u: False
      show ?thesis
      proof (cases "ps ! u = u")
        case True
        then show ?thesis using u roots by simp
      next
        case False
        then have "ps ! u < length ps" "rank (ps ! u) \<le> i" using step Suc.prems(2) by auto
        from Suc.IH [OF this] show ?thesis using u False by simp
      qed
    qed
  qed
  then show "u < length ps \<Longrightarrow> root_of (Suc k) ?qs u = (if root_of k ps u = r then l else root_of k ps u)"
    using ranked_step [OF ok, of u] by blast
qed

lemma ranked_more: "ranked rank k ps \<Longrightarrow> ranked rank (Suc k) ps"
  unfolding ranked_def by (metis le_Suc_eq)

lemma union_correct:
  assumes ok: "ranked rank k ps" and l: "l < length ps" and r: "r < length ps"
  obtains rank' where "ranked rank' (Suc k) (union_roots k ps (l, r))" "length (union_roots k ps (l, r)) = length ps"
    "\<forall>u<length ps. root_of (Suc k) (union_roots k ps (l, r)) u
       = (if root_of k ps u = root_of k ps r then root_of k ps l else root_of k ps u)"
proof -
  obtain L qs where f1: "find_root k ps l = (L, qs)" by fastforce
  obtain R rs where f2: "find_root k qs r = (R, rs)" by fastforce
  have L: "L = root_of k ps l" and qs: "compressed rank k ps qs"
    using find_root_correct [OF ok l, of k] ranked_step [OF ok l] f1 by simp_all
  then have qok: "ranked rank k qs" "length qs = length ps" by (simp_all add: compressed_def)
  have R: "R = root_of k qs r" and rs: "compressed rank k qs rs"
    using find_root_correct [OF qok(1), of r k] ranked_step [OF qok(1), of r] r qok(2) f2 by simp_all
  have rok: "ranked rank k rs" "length rs = length ps" and same: "\<forall>u<length ps. root_of k rs u = root_of k ps u"
    using compressed_trans [OF qs rs] by (simp_all add: compressed_def)
  have LR: "L = root_of k rs l" "R = root_of k rs r" "R = root_of k ps r"
    using L R same l r qs rs by (auto simp: compressed_def)
  have bound: "rank u \<le> k" if "u < length ps" for u using ranked_step [OF ok that] by simp
  have roots: "L < length rs" "rs ! L = L" "R < length rs" "rs ! R = R"
    using root_of_root [OF rok(1), of l k] root_of_root [OF rok(1), of r k] l r rok(2) bound LR by auto
  have un: "union_roots k ps (l, r) = (if L = R then rs else rs[R := L])"
    by (simp add: union_roots_def f1 f2)
  show thesis
  proof (cases "L = R")
    case True
    have "root_of (Suc k) rs u = root_of k ps u" if "u < length ps" for u
      using root_of_stable [OF rok(1), of u k "Suc k"] that rok(2) bound same by simp
    then show thesis
      using that [of rank] True un ranked_more [OF rok(1)] rok(2) LR L by auto
  next
    case False
    note at = attach [OF rok(1) roots False]
    show thesis
      using that [of "\<lambda>u. if root_of k rs u = R then Suc (rank u) else rank u"] False un at rok(2) same LR(3) L
      by auto
  qed
qed

declare root_of.simps(2) [simp del]

text \<open>Connected by the pairs that were united.\<close>

definition connected :: "(nat \<times> nat) set \<Rightarrow> nat \<Rightarrow> nat \<Rightarrow> bool" where
  "connected E u v \<longleftrightarrow> (u, v) \<in> (E \<union> E\<inverse>)\<^sup>*"

lemma connected_refl: "connected E u u"
  by (simp add: connected_def)

lemma connected_sym: "connected E u v \<Longrightarrow> connected E v u"
  unfolding connected_def by (metis converse_Un converse_converse rtrancl_converseD sup_commute)

lemma connected_trans: "connected E u v \<Longrightarrow> connected E v w \<Longrightarrow> connected E u w"
  unfolding connected_def by (rule rtrancl_trans)

lemma connected_mono: "connected E u v \<Longrightarrow> E \<subseteq> F \<Longrightarrow> connected F u v"
  unfolding connected_def by (metis Un_mono converse_mono rtrancl_mono subsetD)

lemma connected_edge: "(u, v) \<in> E \<Longrightarrow> connected E u v"
  unfolding connected_def by auto

text \<open>Whatever function agrees along every pair agrees along every connection.\<close>

lemma connected_agree:
  assumes "connected E u v" "\<forall>(a, b)\<in>E. f a = f b"
  shows "f u = f v"
  using assms(1) unfolding connected_def
  by (induction rule: rtrancl_induct) (use assms(2) in auto)

definition represents :: "nat \<Rightarrow> (nat \<times> nat) set \<Rightarrow> nat list \<Rightarrow> bool" where
  "represents k E ps \<longleftrightarrow> (\<exists>rank. ranked rank k ps) \<and> E \<subseteq> {..<length ps} \<times> {..<length ps}
     \<and> (\<forall>u<length ps. \<forall>v<length ps. root_of k ps u = root_of k ps v \<longleftrightarrow> connected E u v)"

lemma represents_union:
  assumes ok: "represents k E ps" and lr: "l < length ps" "r < length ps"
  shows "represents (Suc k) (insert (l, r) E) (union_roots k ps (l, r)) \<and> length (union_roots k ps (l, r)) = length ps"
proof -
  let ?qs = "union_roots k ps (l, r)" and ?F = "insert (l, r) E"
  obtain rank where rank: "ranked rank k ps" using ok by (auto simp: represents_def)
  have E: "E \<subseteq> {..<length ps} \<times> {..<length ps}"
    and eq: "\<And>u v. u < length ps \<Longrightarrow> v < length ps \<Longrightarrow> root_of k ps u = root_of k ps v \<longleftrightarrow> connected E u v"
    using ok by (auto simp: represents_def)
  obtain rank' where rank': "ranked rank' (Suc k) ?qs" and len: "length ?qs = length ps"
    and new: "\<forall>u<length ps. root_of (Suc k) ?qs u = (if root_of k ps u = root_of k ps r then root_of k ps l else root_of k ps u)"
    using union_correct [OF rank lr] by blast
  have "root_of (Suc k) ?qs u = root_of (Suc k) ?qs v \<longleftrightarrow> connected ?F u v" if u: "u < length ps" and v: "v < length ps" for u v
  proof
    have old: "connected ?F a b" if "root_of k ps a = root_of k ps b" "a < length ps" "b < length ps" for a b
      using eq [of a b] that connected_mono [of E a b ?F] by auto
    have lr': "connected ?F l r" "connected ?F r l" using connected_edge [of l r ?F] connected_sym by auto
    assume same: "root_of (Suc k) ?qs u = root_of (Suc k) ?qs v"
    have "connected ?F u (if root_of k ps u = root_of k ps r then l else u)"
      if "u < length ps" for u
      using that old [of u r] lr lr' connected_trans [of ?F u r l] connected_refl by auto
    then have cu: "connected ?F u (if root_of k ps u = root_of k ps r then l else u)"
      and cv: "connected ?F v (if root_of k ps v = root_of k ps r then l else v)" using u v by blast+
    have "connected ?F (if root_of k ps u = root_of k ps r then l else u) (if root_of k ps v = root_of k ps r then l else v)"
      using same new u v lr by (intro old) (auto split: if_splits)
    with cu cv show "connected ?F u v" by (meson connected_sym connected_trans)
  next
    assume "connected ?F u v"
    moreover have "\<forall>(a, b)\<in>?F. root_of (Suc k) ?qs a = root_of (Suc k) ?qs b"
    proof -
      have "root_of (Suc k) ?qs l = root_of (Suc k) ?qs r" using new lr by auto
      moreover have "root_of (Suc k) ?qs a = root_of (Suc k) ?qs b" if "(a, b) \<in> E" for a b
        using that E eq [of a b] connected_edge [OF that] new by auto
      ultimately show ?thesis by auto
    qed
    ultimately show "root_of (Suc k) ?qs u = root_of (Suc k) ?qs v" by (rule connected_agree)
  qed
  then show ?thesis
    using rank' len E lr unfolding represents_def by auto
qed

lemma represents_unions:
  assumes "represents k E ps" "set pairs \<subseteq> {..<length ps} \<times> {..<length ps}"
  shows "represents (k + length pairs) (set pairs \<union> E) (unions k pairs ps) \<and> length (unions k pairs ps) = length ps"
  using assms
proof (induction k pairs ps arbitrary: E rule: unions.induct)
  case (2 k p pairs ps)
  obtain l r where p: "p = (l, r)" by fastforce
  with 2(3) have lr: "l < length ps" "r < length ps" by auto
  note step = represents_union [OF 2(2) lr]
  have "represents (Suc k + length pairs) (set pairs \<union> insert (l, r) E) (unions (Suc k) pairs (union_roots k ps (l, r)))
      \<and> length (unions (Suc k) pairs (union_roots k ps (l, r))) = length (union_roots k ps (l, r))"
    using step 2(3) p by (intro 2(1) [unfolded p]) auto
  then show ?case using p step by simp
qed simp

lemma represents_initial: "represents 0 {} [0..<n]"
  unfolding represents_def
proof (intro conjI allI impI)
  show "\<exists>rank. ranked rank 0 [0..<n]" by (intro exI [of _ "\<lambda>_. 0"]) (simp add: ranked_def)
  show "root_of 0 [0..<n] u = root_of 0 [0..<n] v \<longleftrightarrow> connected {} u v" for u v
    by (simp add: connected_def)
qed simp

text \<open>Reading the representatives compresses further, but changes none.\<close>

lemma collect_roots:
  assumes "ranked rank k ps" "set vs \<subseteq> {..<length ps}"
  shows "snd (fold (collect_root k) vs (ps, d)) = group_by (root_of k ps) (\<lambda>v. v) vs d"
  using assms
proof (induction vs arbitrary: ps d)
  case (Cons v vs)
  obtain r qs where f: "find_root k ps v = (r, qs)" by fastforce
  have "r = root_of k ps v" and qs: "compressed rank k ps qs"
    using find_root_correct [OF Cons.prems(1), of v k] ranked_step [OF Cons.prems(1), of v] Cons.prems(2) f by auto
  moreover have "group_by (root_of k qs) (\<lambda>v. v) vs d' = group_by (root_of k ps) (\<lambda>v. v) vs d'" for d'
    using qs Cons.prems(2) by (induction vs arbitrary: d') (auto simp: compressed_def)
  ultimately show ?case
    using Cons.IH [of qs] Cons.prems(2) qs by (simp add: collect_root_def f compressed_def)
qed simp

lemma group_by_member:
  "(r, xs) \<in> set (group_by f (\<lambda>v. v) vs []) \<longleftrightarrow> (\<exists>x\<in>set vs. f x = r) \<and> xs = filter (\<lambda>x. f x = r) vs"
proof -
  have "distinct (map fst (group_by f (\<lambda>v. v) vs []))" by (simp add: distinct_group_by)
  then have "(r, xs) \<in> set (group_by f (\<lambda>v. v) vs []) \<longleftrightarrow> map_of (group_by f (\<lambda>v. v) vs []) r = Some xs"
    by (simp add: map_of_eq_Some_iff)
  then show ?thesis by (auto simp: group_by_empty)
qed

text \<open>The components partition the elements, and two share one exactly when the pairs connect them.\<close>

lemma components_partition:
  assumes "set pairs \<subseteq> {..<n} \<times> {..<n}"
  shows "\<forall>c\<in>set (components n pairs). \<exists>u<n. c = filter (connected (set pairs) u) [0..<n]"
    and "u < n \<Longrightarrow> filter (connected (set pairs) u) [0..<n] \<in> set (components n pairs)"
    and "distinct (components n pairs)"
proof -
  let ?k = "length pairs" and ?ps = "unions 0 pairs [0..<n]"
  have rep: "represents ?k (set pairs) ?ps" and len: "length ?ps = n"
    using represents_unions [OF represents_initial, of pairs n] assms by auto
  then obtain rank where rank: "ranked rank ?k ?ps" by (auto simp: represents_def)
  let ?g = "group_by (root_of ?k ?ps) (\<lambda>v. v) [0..<n] []"
  have c: "components n pairs = map snd ?g"
    using collect_roots [OF rank] len by (simp add: components_def lessThan_atLeast0)
  have eq: "root_of ?k ?ps u = root_of ?k ?ps v \<longleftrightarrow> connected (set pairs) u v" if "u < n" "v < n" for u v
    using rep that len by (simp add: represents_def)
  have fil: "filter (\<lambda>x. root_of ?k ?ps x = root_of ?k ?ps u) [0..<n] = filter (connected (set pairs) u) [0..<n]" if "u < n" for u
    using eq [OF that] by (intro filter_cong refl) (metis atLeastLessThan_iff set_upt)
  have keys: "distinct (map fst ?g)" by (simp add: distinct_group_by)
  have mem: "(r, xs) \<in> set ?g \<longleftrightarrow> (\<exists>u<n. root_of ?k ?ps u = r \<and> xs = filter (connected (set pairs) u) [0..<n])" for r xs
  proof -
    have "(r, xs) \<in> set ?g \<longleftrightarrow> (\<exists>u\<in>set [0..<n]. root_of ?k ?ps u = r) \<and> xs = filter (\<lambda>x. root_of ?k ?ps x = r) [0..<n]"
      by (rule group_by_member)
    also have "\<dots> \<longleftrightarrow> (\<exists>u<n. root_of ?k ?ps u = r \<and> xs = filter (\<lambda>x. root_of ?k ?ps x = root_of ?k ?ps u) [0..<n])"
      by (simp only: set_upt atLeastLessThan_iff Bex_def) blast
    also have "\<dots> \<longleftrightarrow> (\<exists>u<n. root_of ?k ?ps u = r \<and> xs = filter (connected (set pairs) u) [0..<n])"
      using fil by (metis (no_types, lifting))
    finally show ?thesis .
  qed
  show "\<forall>c\<in>set (components n pairs). \<exists>u<n. c = filter (connected (set pairs) u) [0..<n]"
    unfolding c using mem by fastforce
  show "u < n \<Longrightarrow> filter (connected (set pairs) u) [0..<n] \<in> set (components n pairs)"
    unfolding c using mem [of "root_of ?k ?ps u" "filter (connected (set pairs) u) [0..<n]"] by force
  have "inj_on snd (set ?g)"
  proof (rule inj_onI)
    fix x y assume xy: "x \<in> set ?g" "y \<in> set ?g" "snd x = snd y"
    obtain r r' xs where x: "x = (r, xs)" and y: "y = (r', xs)"
      using xy(3) by (cases x, cases y) auto
    from xy(1,2) have "(r, xs) \<in> set ?g" "(r', xs) \<in> set ?g" by (simp_all add: x y)
    then obtain u v where uv: "u < n" "v < n" "r = root_of ?k ?ps u" "r' = root_of ?k ?ps v"
      "filter (connected (set pairs) u) [0..<n] = filter (connected (set pairs) v) [0..<n]"
      unfolding mem by metis
    have "v \<in> set (filter (connected (set pairs) v) [0..<n])"
      using connected_refl uv(2) by simp
    then have "connected (set pairs) u v"
      unfolding uv(5) [symmetric] by simp
    with uv eq show "x = y" by (simp add: x y)
  qed
  then show "distinct (components n pairs)"
    unfolding c using keys by (simp add: distinct_map distinct_map)
qed

end
