(* ===== verification/Hypotheses.thy ===== *)
theory Hypotheses
  imports Ranking Grouping
begin

text \<open>
  Grouping of candidates into hypotheses (\<open>packages/rca/hypotheses.py\<close>): candidates are split by instance and
  episode, pairs joined by a coherent causal path are grouped, and every member of a group becomes the actor of
  one hypothesis. The SHA-256 digest and the rendering of times are arguments; texts shown to people are left
  out.
\<close>

section \<open>Coherent pairs\<close>

definition HYPOTHESIS_MANIFESTATION_KINDS :: "finding_kind list" where
  "HYPOTHESIS_MANIFESTATION_KINDS = [CONTAINER_FAILURE, RESOURCE_PRESSURE, DEPENDENCY_ERRORS, FAILURE_EVENT]"

definition HYPOTHESIS_INITIATING_KINDS :: "finding_kind list" where
  "HYPOTHESIS_INITIATING_KINDS =
     [CONFIG_CHANGE, OBJECT_CREATED, OBJECT_DELETED, SPEC_CHANGE, IMAGE_CHANGE, SCALE_CHANGE, ROLLOUT_RESTART,
      FAULT_INJECTION, FAULT_SCHEDULE, POLICY_CREATED, QUOTA_EXCEEDED, QUOTA_EXHAUSTED, NETWORK_RESTRICTION,
      AUTOSCALING_FAILURE, TRAFFIC_INCREASE]"

definition initiates :: "finding \<Rightarrow> bool" where
  "initiates f \<longleftrightarrow> temporal_role f = INITIATING \<and> finding_kind f \<in> set HYPOTHESIS_INITIATING_KINDS"

definition manifests :: "finding \<Rightarrow> bool" where
  "manifests f \<longleftrightarrow> temporal_role f \<in> {SUPPORTING, CONSEQUENCE} \<or> finding_kind f \<in> set HYPOTHESIS_MANIFESTATION_KINDS"

definition came_late :: "finding \<Rightarrow> bool" where
  "came_late f \<longleftrightarrow> temporal_role f = CONSEQUENCE \<and> finding_kind f \<in> set HYPOTHESIS_INITIATING_KINDS"

definition schedule_spawn :: "candidate \<Rightarrow> candidate \<Rightarrow> causal_hop list \<Rightarrow> bool" where
  "schedule_spawn up down path \<longleftrightarrow> list_ex (\<lambda>h. relation h = ''spawns'') path
     \<and> list_ex (\<lambda>f. finding_kind f = FAULT_SCHEDULE) (candidate_findings up)
     \<and> list_ex (\<lambda>f. finding_kind f = FAULT_INJECTION) (candidate_findings down)"

definition coherent_pair :: "candidate \<Rightarrow> candidate \<Rightarrow> causal_hop list \<Rightarrow> bool" where
  "coherent_pair up down path \<longleftrightarrow>
     path \<noteq> [] \<and> list_ex initiates (candidate_findings up)
     \<and> (schedule_spawn up down path \<or> list_ex manifests (candidate_findings down))
     \<and> (case (py_min (List.map_filter at (filter (\<lambda>f. temporal_role f = INITIATING) (candidate_findings up))),
              py_min (List.map_filter at (filter manifests (candidate_findings down)))) of
          (Some u, Some d) \<Rightarrow> u \<le> d
        | _ \<Rightarrow> True)
     \<and> \<not> list_ex came_late (candidate_findings up)"

definition directed_pair :: "topology \<Rightarrow> candidate \<Rightarrow> candidate \<Rightarrow> bool" where
  "directed_pair t a b \<longleftrightarrow>
     (case causal_path t 6 (candidate_entity a) [candidate_entity b] of
        None \<Rightarrow> False | Some p \<Rightarrow> coherent_pair a b p)"

definition pair_connected :: "topology \<Rightarrow> candidate \<Rightarrow> candidate \<Rightarrow> bool" where
  "pair_connected t a b \<longleftrightarrow> directed_pair t a b \<or> directed_pair t b a"

section \<open>Findings and scores of a group\<close>

record identity_lib =
  sha256_hex :: "string \<Rightarrow> string"
  iso_text :: "instant \<Rightarrow> string"

definition time_text :: "identity_lib \<Rightarrow> finding \<Rightarrow> string" where
  "time_text lib f = (case at f of None \<Rightarrow> [] | Some t \<Rightarrow> iso_text lib t)"

definition effective_findings :: "identity_lib \<Rightarrow> finding list \<Rightarrow> finding list" where
  "effective_findings lib fs =
     sort_key (\<lambda>f. (time_text lib f, canonical (entity f), kind_value (finding_kind f), summary f)) fs"

text \<open>One finding for each evidence: a finding whose evidence was all seen already does not score again.\<close>

fun distinct_scoring ::
  "identity_lib \<Rightarrow> string list \<Rightarrow> (string \<times> string \<times> string \<times> string) list \<Rightarrow> finding list \<Rightarrow> finding list" where
  "distinct_scoring lib ids others [] = []"
| "distinct_scoring lib ids others (f # fs) =
     (if evidence_ids f \<noteq> []
      then if set (evidence_ids f) \<subseteq> set ids then distinct_scoring lib ids others fs
           else f # distinct_scoring lib (evidence_ids f @ ids) others fs
      else let k = (canonical (entity f), kind_value (finding_kind f), time_text lib f, summary f) in
           if k \<in> set others then distinct_scoring lib ids others fs
           else f # distinct_scoring lib ids (k # others) fs)"

definition aggregate_score ::
  "identity_lib \<Rightarrow> scorer \<Rightarrow> ranking_context \<Rightarrow> ranking_config \<Rightarrow> finding list \<Rightarrow> float64" where
  "aggregate_score lib sc c cfg fs =
     (let scored = sort_key (\<lambda>(v, f). (- v, kind_value (finding_kind f), canonical (entity f)))
            (map (\<lambda>f. (score_finding sc f c cfg, f)) (distinct_scoring lib [] [] fs))
      in case scored of
           [] \<Rightarrow> 0
         | (best, f) # rest \<Rightarrow>
             let extras = fold (\<lambda>(v, g) d.
                   if finding_kind g \<noteq> finding_kind f \<and> 0 < v
                   then AList.update (finding_kind g)
                          (max (case map_of d (finding_kind g) of None \<Rightarrow> 0 | Some w \<Rightarrow> w) v) d
                   else d) rest []
             in round3 (float_add best (float_times (extra_finding_weight cfg) (top_two (map snd extras)))))"

section \<open>Identity\<close>

definition short_digest :: "identity_lib \<Rightarrow> string \<Rightarrow> string list \<Rightarrow> string" where
  "short_digest lib pre parts = pre @ take 16 (sha256_hex lib (joined ''|'' parts))"

definition hypothesis_digest :: "identity_lib \<Rightarrow> entity_ref \<Rightarrow> entity_ref list \<Rightarrow> finding list \<Rightarrow> string" where
  "hypothesis_digest lib actor ms fs =
     short_digest lib ''hypothesis:'' (canonical actor # sort (map canonical ms) @ sorted_set (evidence_of fs))"

definition kinds_text :: "finding list \<Rightarrow> string" where
  "kinds_text fs =
     (if fs = [] then ''MANIFESTATION_ONLY''
      else joined '','' (sorted_set (map (\<lambda>f. kind_value (finding_kind f)) fs)))"

definition sole_instance :: "finding list \<Rightarrow> entity_instance option" where
  "sole_instance fs = (case dedup (map entity_instance fs) of [i] \<Rightarrow> i | _ \<Rightarrow> None)"

definition claim_identity ::
  "identity_lib \<Rightarrow> entity_ref \<Rightarrow> entity_instance option \<Rightarrow> string \<Rightarrow> instant option \<Rightarrow> string" where
  "claim_identity lib actor i family foreign =
     short_digest lib ''hkey:''
       ([canonical actor, (case i of None \<Rightarrow> ''unknown'' | Some x \<Rightarrow> uid x), family]
        @ (case foreign of None \<Rightarrow> [] | Some t \<Rightarrow> [''foreign-episode:'' @ iso_text lib t]))"

section \<open>The hypothesis of an actor\<close>

record built_hypothesis = hypothesis +
  presentation_group_id :: string
  member_paths :: "causal_hop list list"
  reported_symptoms :: "string list"
  built_score :: float64
  built_basis :: "string list"

definition findings_of_others :: "candidate list \<Rightarrow> entity_ref \<Rightarrow> finding list" where
  "findings_of_others items actor =
     concat (map candidate_findings (filter (\<lambda>x. candidate_entity x \<noteq> actor) items))"

definition all_findings :: "identity_lib \<Rightarrow> candidate list \<Rightarrow> candidate \<Rightarrow> finding list" where
  "all_findings lib items actor =
     candidate_findings actor
     @ filter (\<lambda>f. f \<notin> set (candidate_findings actor))
         (effective_findings lib (findings_of_others items (candidate_entity actor)))"

definition supports :: "entity_ref \<Rightarrow> finding \<Rightarrow> bool" where
  "supports actor f \<longleftrightarrow> temporal_role f = SUPPORTING
     \<or> entity f \<noteq> actor \<and> finding_kind f \<in> set HYPOTHESIS_MANIFESTATION_KINDS"

definition sorted_symptoms :: "ranking_context \<Rightarrow> entity_ref list" where
  "sorted_symptoms c = sort_key canonical (context_entities c)"

definition direct_paths :: "ranking_context \<Rightarrow> entity_ref \<Rightarrow> causal_hop list list" where
  "direct_paths c actor =
     filter (\<lambda>p. p \<noteq> []) (List.map_filter (\<lambda>s. causal_path (context_topology c) 6 actor [s]) (sorted_symptoms c))"

definition rejects :: "finding \<Rightarrow> bool" where
  "rejects f \<longleftrightarrow> finding_kind f = QUOTA_EXCEEDED \<and> evidence_ids f \<noteq> [] \<and> truthy (dict_value (details f) ''rejected'')"

definition quota_paths :: "ranking_context \<Rightarrow> entity_ref \<Rightarrow> finding list \<Rightarrow> causal_hop list list" where
  "quota_paths c actor fs =
     concat (map (\<lambda>f. concat (map (\<lambda>e.
         List.map_filter (\<lambda>s. map_option (\<lambda>tail. mk_hop actor ''quota_blocks'' e # tail)
             (causal_path (context_topology c) 6 e [s])) (sorted_symptoms c)) (related f)))
       (filter rejects fs))"

definition symptom_paths :: "ranking_context \<Rightarrow> entity_ref \<Rightarrow> finding list \<Rightarrow> causal_hop list list" where
  "symptom_paths c actor fs = direct_paths c actor @ quota_paths c actor fs"

text \<open>Whether the evidence is of another instance than the snapshot's, or of another episode.\<close>

definition foreign_episode :: "ranking_context \<Rightarrow> finding list \<Rightarrow> instant option" where
  "foreign_episode c fs =
     (case fs of
        [] \<Rightarrow> None
      | f # _ \<Rightarrow> if incident_onset f \<noteq> symptom_onset (context_symptoms c) then incident_onset f else None)"

definition other_instance :: "ranking_context \<Rightarrow> entity_ref \<Rightarrow> finding list \<Rightarrow> bool" where
  "other_instance c actor fs \<longleftrightarrow>
     (case (sole_instance fs, Option.bind (map_of (topo_latest (context_topology c)) actor) instance_uid) of
        (Some i, Some u) \<Rightarrow> uid i \<noteq> u
      | _ \<Rightarrow> False)"

definition in_scope :: "ranking_context \<Rightarrow> entity_ref \<Rightarrow> finding list \<Rightarrow> bool" where
  "in_scope c actor fs \<longleftrightarrow> \<not> other_instance c actor fs \<and> foreign_episode c fs = None"

definition hop_evidence :: "topology \<Rightarrow> causal_hop \<Rightarrow> string list" where
  "hop_evidence t h =
     (case map_of (relation_evidence t) (hop_source h, relation h, hop_target h) of None \<Rightarrow> [] | Some es \<Rightarrow> es)
     @ map evidence_id (List.map_filter (map_of (topo_latest t)) [hop_source h, hop_target h])"

definition make_hypothesis ::
  "identity_lib \<Rightarrow> scorer \<Rightarrow> ranking_context \<Rightarrow> ranking_config \<Rightarrow> candidate list \<Rightarrow> candidate \<Rightarrow> built_hypothesis" where
  "make_hypothesis lib sc c cfg items x =
     (let t = context_topology c; actor = candidate_entity x; own = candidate_findings x;
          every = all_findings lib items x; ms = sort_key canonical (map candidate_entity items);
          early = filter initiates own; support = filter (supports actor) every; late = filter came_late own;
          scoped = in_scope c actor own; paths = (if scoped then symptom_paths c actor own else []);
          symptoms = (if scoped then sorted_symptoms c else []);
          family = kinds_text (filter (\<lambda>f. finding_kind f \<in> set HYPOTHESIS_INITIATING_KINDS) own);
          key = claim_identity lib actor (sole_instance own) family (foreign_episode c own)
      in \<lparr>hypothesis_id = hypothesis_digest lib actor [actor] own @ '':'' @ drop 5 key, hypothesis_key = key,
          causal_actor = actor, claim_version = ''m21.v2'', actor_instance = sole_instance own,
          mechanism = kinds_text early, mechanism_family = family,
          causal_family_id = short_digest lib ''cfam:'' [canonical actor, family],
          episode_onset = (case own of [] \<Rightarrow> None | f # _ \<Rightarrow> incident_onset f), symptom_entities = symptoms,
          relation_evidence_ids = sorted_set (concat (map (hop_evidence t) (concat paths))), members = ms,
          manifestations = filter (\<lambda>m. m \<noteq> actor \<and> list_ex (\<lambda>f. entity f = m) (support @ late)) ms,
          findings = every, initiating_findings = early, supporting_findings = support, contradictory_findings = late,
          causal_paths = paths,
          causal_explanation =
            (if \<not> scoped then ''UNLINKED'' else if paths \<noteq> [] then ''PATH''
             else if actor \<in> set (context_entities c) then ''DIRECT'' else ''UNLINKED''),
          presentation_group_id = hypothesis_digest lib (hd ms) ms [],
          member_paths = filter (\<lambda>p. p \<noteq> []) (List.map_filter (\<lambda>y. causal_path t 6 actor [candidate_entity y])
            (filter (\<lambda>y. candidate_entity y \<noteq> actor) items)),
          reported_symptoms =
            (if scoped then sort (map canonical (filter (\<lambda>s. s = actor \<or> list_ex (\<lambda>p. hop_target (last p) = s) paths)
                                  (context_entities c)))
             else []),
          built_score = aggregate_score lib sc c cfg every,
          built_basis = sorted_set (concat (map structural_basis items))\<rparr>)"

section \<open>Schedule incarnations\<close>

definition chaos_schedule :: "topology \<Rightarrow> candidate \<Rightarrow> entity_ref option result" where
  "chaos_schedule t x =
     (case detail_texts ''schedule'' (candidate_findings x) of
        [s] \<Rightarrow> and_then (parse_entity s) (Inr \<circ> Some)
      | _ \<Rightarrow> Inr (map_of (spawn_parents t) (candidate_entity x)))"

definition instance_uids_of :: "entity_ref \<Rightarrow> finding list \<Rightarrow> string list" where
  "instance_uids_of e fs =
     dedup (List.map_filter (\<lambda>f. if entity f = e then map_option uid (entity_instance f) else None) fs)"

text \<open>The schedule incarnation of a chaos object: no schedule, or one whose UID may be unknown.\<close>

definition incarnation_of :: "topology \<Rightarrow> candidate \<Rightarrow> schedule_instance option result" where
  "incarnation_of t x =
     (let e = candidate_entity x in
      if kind e = ''Schedule'' then Inr (Some (e, sole (instance_uids_of e (candidate_findings x))))
      else if ends_with ''Chaos'' (kind e)
      then and_then (chaos_schedule t x) (\<lambda>s.
             Inr (map_option (\<lambda>s. (s, sole (detail_texts ''schedule_uid'' (candidate_findings x)))) s))
      else Inr None)"

type_synonym incarnations = "(candidate \<times> schedule_instance option) list"

definition incarnations_of :: "topology \<Rightarrow> candidate list \<Rightarrow> incarnations result" where
  "incarnations_of t cs = traverse (\<lambda>x. and_then (incarnation_of t x) (\<lambda>i. Inr (x, i))) cs"

definition present_uids :: "incarnations \<Rightarrow> entity_ref \<Rightarrow> string list" where
  "present_uids inc schedule =
     dedup (List.map_filter (\<lambda>(_, i). case i of Some (s, Some u) \<Rightarrow> if s = schedule then Some u else None | _ \<Rightarrow> None) inc)"

definition incarnation_in :: "incarnations \<Rightarrow> candidate \<Rightarrow> schedule_instance option" where
  "incarnation_in inc x = (case map_of inc x of None \<Rightarrow> None | Some i \<Rightarrow> i)"

definition own_incarnation_members :: "incarnations \<Rightarrow> candidate list \<Rightarrow> candidate \<Rightarrow> candidate list" where
  "own_incarnation_members inc items actor =
     (case incarnation_in inc actor of
        Some (schedule, Some u) \<Rightarrow>
          filter (\<lambda>y. y = actor
              \<or> (case incarnation_in inc y of
                   None \<Rightarrow> True
                 | Some (s, i) \<Rightarrow> s \<noteq> schedule \<or> i = Some u \<or> i = None \<and> present_uids inc schedule = [u])) items
      | _ \<Rightarrow> items)"

section \<open>Grouping\<close>

definition episode_buckets :: "candidate \<Rightarrow> finding list list" where
  "episode_buckets x =
     map snd (group_by (\<lambda>f. (entity_instance f, incident_onset f)) (\<lambda>f. f)
       (filter (\<lambda>f. entity f = candidate_entity x) (candidate_findings x)) [])"

definition partitioned :: "identity_lib \<Rightarrow> candidate list \<Rightarrow> candidate list" where
  "partitioned lib cs =
     concat (map (\<lambda>x. map (\<lambda>fs. x\<lparr>candidate_findings := effective_findings lib fs\<rparr>) (episode_buckets x)) cs)"

definition connected_pairs :: "topology \<Rightarrow> candidate list \<Rightarrow> (nat \<times> nat) list" where
  "connected_pairs t cs =
     concat (map (\<lambda>i. map (Pair i) (filter (\<lambda>j. pair_connected t (cs ! i) (cs ! j)) [i + 1..<length cs]))
       [0..<length cs])"

definition group_candidates ::
  "identity_lib \<Rightarrow> scorer \<Rightarrow> ranking_context \<Rightarrow> ranking_config \<Rightarrow> candidate list \<Rightarrow> built_hypothesis list result" where
  "group_candidates lib sc c cfg candidates =
     (let cs = partitioned lib candidates; t = context_topology c;
          groups = map (map (nth cs)) (components (length cs) (connected_pairs t cs))
      in and_then (incarnations_of t cs) (\<lambda>inc.
           Inr (sort_key (\<lambda>h. (- built_score h, canonical (causal_actor h), hypothesis_id h))
             (concat (map (\<lambda>items. map (\<lambda>x. make_hypothesis lib sc c cfg (own_incarnation_members inc items x) x) items)
               groups)))))"

text \<open>The one hypothesis of each key that is not repeated.\<close>

definition matchable_by_key :: "hypothesis list \<Rightarrow> (string \<times> hypothesis) list" where
  "matchable_by_key hs =
     List.map_filter (\<lambda>(k, xs). map_option (Pair k) (sole xs))
       (group_by hypothesis_key (\<lambda>h. h) (filter (\<lambda>h. hypothesis_key h \<noteq> []) hs) [])"

section \<open>Measurements of a grouping\<close>

record hypothesis_diagnostics =
  raw_candidate_count :: nat
  hypothesis_count :: nat
  multi_entity_hypotheses :: nat
  ownership_chains_collapsed :: nat
  duplicate_evidence_ids_removed :: nat
  exact_score_ties :: nat
  structurally_similar_top_hypotheses :: nat

definition duplicate_count :: "identity_lib \<Rightarrow> 'a hypothesis_scheme \<Rightarrow> nat" where
  "duplicate_count lib h = length (findings h) - length (distinct_scoring lib [] [] (findings h))"

definition collapses_ownership :: "'a hypothesis_scheme \<Rightarrow> bool" where
  "collapses_ownership h \<longleftrightarrow> list_ex (list_ex (\<lambda>hop. relation hop \<in> {''owns'', ''managed_by''})) (causal_paths h)"

definition grouping_signature :: "'a hypothesis_scheme \<Rightarrow> string list \<times> string list \<times> string list \<times> string" where
  "grouping_signature h =
     (sorted_set (map (\<lambda>f. kind_value (finding_kind f)) (initiating_findings h)),
      sorted_set (map (\<lambda>f. kind_value (finding_kind f)) (supporting_findings h)),
      sorted_set (map relation (concat (causal_paths h))), causal_explanation h)"

fun count_pairs :: "('a \<Rightarrow> 'a \<Rightarrow> bool) \<Rightarrow> 'a list \<Rightarrow> nat" where
  "count_pairs P [] = 0"
| "count_pairs P (x # xs) = length (filter (P x) xs) + count_pairs P xs"

definition grouping_diagnostics ::
  "identity_lib \<Rightarrow> candidate list \<Rightarrow> built_hypothesis list \<Rightarrow> hypothesis_diagnostics" where
  "grouping_diagnostics lib cs hs =
     (let ids = dedup (map presentation_group_id hs);
          of_group = (\<lambda>i. filter (\<lambda>h. presentation_group_id h = i) hs);
          many = (\<lambda>h. 1 < length (members h))
      in \<lparr>raw_candidate_count = length cs, hypothesis_count = length hs,
          multi_entity_hypotheses = length (filter many hs),
          ownership_chains_collapsed = length (filter (\<lambda>i. list_ex (\<lambda>h. collapses_ownership h \<and> many h) (of_group i)) ids),
          duplicate_evidence_ids_removed = sum_list (map (\<lambda>i. foldr max (map (duplicate_count lib) (of_group i)) 0) ids),
          exact_score_ties = count_pairs (\<lambda>a b. built_score a = built_score b) hs,
          structurally_similar_top_hypotheses =
            count_pairs (\<lambda>a b. grouping_signature a = grouping_signature b) (take 5 hs)\<rparr>)"

text \<open>A hypothesis as a candidate, for verification.\<close>

definition hypothesis_candidate :: "built_hypothesis \<Rightarrow> candidate" where
  "hypothesis_candidate h =
     \<lparr>candidate_entity = causal_actor h, score = built_score h, candidate_findings = findings h,
      linked_symptoms = reported_symptoms h,
      causal_path_of = (if causal_explanation h = ''DIRECT'' then [] else case causal_paths h of [] \<Rightarrow> [] | p # _ \<Rightarrow> p),
      candidate_explanation = causal_explanation h, structural_basis = built_basis h\<rparr>"

end
