(* ===== verification/Ranking_Correct.thy ===== *)
theory Ranking_Correct
  imports Ranking Topology_Correct
begin

text \<open>
  What the labels of \<open>Ranking\<close> promise: a candidate called verified has a timely change that reaches a symptom
  and nothing late against it, and of the experiments of one schedule instance exactly one is kept, the one that
  can have started the incident.
\<close>

section \<open>Verified candidates\<close>

definition reaches_symptom :: "ranking_context \<Rightarrow> finding \<Rightarrow> bool" where
  "reaches_symptom c f \<longleftrightarrow>
     (\<exists>e\<in>set (affected_by f (context_topology c)). \<exists>p. \<exists>x\<in>set (context_entities c).
        walk {h. causal_step (context_topology c) h} e p x \<and> length p \<le> 3)"

lemma linked_reaches: "linked_finding f c \<Longrightarrow> reaches_symptom c f"
proof -
  assume "linked_finding f c"
  let ?m = "if finding_kind f \<in> {CONFIG_CHANGE, OBJECT_DELETED} then 3 else 2 :: nat"
  from \<open>linked_finding f c\<close> obtain e where "e \<in> set (affected_by f (context_topology c))"
    "causal_distance (context_topology c) ?m e (context_entities c) \<noteq> None"
    unfolding linked_finding_def list_ex_iff by blast
  moreover have "?m \<le> 3" by simp
  ultimately show ?thesis
    using causal_distance_walk [of "context_topology c" ?m e "context_entities c"]
    unfolding reaches_symptom_def by (meson order_trans)
qed

lemma timely_iff:
  "timely fi c cfg f = Some b \<longleftrightarrow>
     (\<exists>t onset. causal_time fi f = Some t \<and> symptom_onset (context_symptoms c) = Some onset
        \<and> b = (t \<le> onset + verification_onset_grace cfg))"
  by (auto simp: timely_def split: option.split)

text \<open>
  A candidate is called verified only for a timely change. Then the onset is known, and some change of a
  verifiable kind among its findings, whose causal time is at most the grace after the onset, either reaches an
  alerting entity over at most three causal hops from something it affects, or is a configuration
  change that mentions an alerting service; no finding of a cause-capable kind that reaches an alerting
  entity came later than that; and a runner-up, if there is one, scores more than one point less.
\<close>

theorem verified_is_timely:
  assumes "decision_of fi sc c cfg runner_up x = VERIFIED_CANDIDATE"
  shows "\<exists>onset. symptom_onset (context_symptoms c) = Some onset
    \<and> (\<exists>f\<in>set (candidate_findings x). finding_kind f \<in> set VERIFIABLE_KINDS
         \<and> (\<exists>t. causal_time fi f = Some t \<and> t \<le> onset + verification_onset_grace cfg)
         \<and> (reaches_symptom c f \<or> finding_kind f = CONFIG_CHANGE \<and> mentioned (repr_of sc) f (tokens c)))
    \<and> (\<forall>f\<in>set (candidate_findings x). finding_kind f \<in> set RANKING_INITIATING_KINDS \<longrightarrow> linked_finding f c \<longrightarrow>
         (\<forall>t. causal_time fi f = Some t \<longrightarrow> t \<le> onset + verification_onset_grace cfg))
    \<and> (\<forall>r. runner_up = Some r \<longrightarrow> UNIT < float_add (score x) (- score r))"
proof -
  have k: "has_verified_kind fi sc c cfg x" and late: "timed_initiating fi c cfg x False = []"
    and m: "\<not> weak_margin (margin_over x runner_up)"
    using assms by (auto simp: decision_of_def split: if_splits)
  have mentions: "f \<in> set (candidate_findings x) \<and> timely fi c cfg f = Some True \<and> finding_kind f = CONFIG_CHANGE
      \<and> mentioned (repr_of sc) f (tokens c)" if "f \<in> set (timely_mentions fi sc c cfg x)" for f
    using that by (auto simp: timely_mentions_def config_mentions_def)
  obtain f where f: "f \<in> set (candidate_findings x)" "timely fi c cfg f = Some True"
    "finding_kind f \<in> set VERIFIABLE_KINDS \<and> linked_finding f c
       \<or> finding_kind f = CONFIG_CHANGE \<and> mentioned (repr_of sc) f (tokens c)"
  proof (cases "timely_mentions fi sc c cfg x")
    case Nil
    then show ?thesis
      using k that by (auto simp: has_verified_kind_def list_ex_iff timed_initiating_def relevant_findings_def)
  next
    case (Cons g gs)
    then show ?thesis using mentions [of g] by (intro that [of g]) auto
  qed
  then obtain t onset where t: "causal_time fi f = Some t" "symptom_onset (context_symptoms c) = Some onset"
    "t \<le> onset + verification_onset_grace cfg"
    unfolding timely_iff by auto
  have "CONFIG_CHANGE \<in> set VERIFIABLE_KINDS" by (simp add: VERIFIABLE_KINDS_def)
  then have "finding_kind f \<in> set VERIFIABLE_KINDS"
    and "reaches_symptom c f \<or> finding_kind f = CONFIG_CHANGE \<and> mentioned (repr_of sc) f (tokens c)"
    using f(3) linked_reaches by auto
  moreover have "u \<le> onset + verification_onset_grace cfg"
    if "g \<in> set (candidate_findings x)" "finding_kind g \<in> set RANKING_INITIATING_KINDS" "linked_finding g c"
      "causal_time fi g = Some u" for g u
  proof (rule ccontr)
    assume "\<not> u \<le> onset + verification_onset_grace cfg"
    then have "timely fi c cfg g = Some False" using that(4) t(2) by (simp add: timely_iff)
    with that have "g \<in> set (timed_initiating fi c cfg x False)"
      by (simp add: timed_initiating_def relevant_findings_def)
    with late show False by simp
  qed
  ultimately show ?thesis
    using f(1) t m by (auto simp: weak_margin_def margin_over_def)
qed

text \<open>A test that killed a pod of the alerting service, at the onset.\<close>

definition kill_finding :: finding where
  "kill_finding =
     \<lparr>finding_kind = FAULT_INJECTION, entity = kill_test, entity_instance = None, at = Some 50,
      summary = ''kill'', evidence_ids = [''e1''], related = [killed_pod], details = [],
      temporal_role = INITIATING, incident_onset = Some 50, onset_delta = Some 0\<rparr>"

definition kill_candidate :: candidate where
  "kill_candidate =
     \<lparr>candidate_entity = kill_test, score = 20 * half, candidate_findings = [kill_finding], linked_symptoms = [],
      causal_path_of = [], candidate_explanation = ''PATH'', structural_basis = []\<rparr>"

definition front_context :: ranking_context where
  "front_context =
     \<lparr>context_symptoms = \<lparr>symptom_onset = Some 50, symptom_last_seen = None, symptom_services = [''front''],
        symptom_namespaces = [''shop''], reference_time = Some 50\<rparr>,
      context_entities = [front_service], context_topology = small_topology, window_end = None, tokens = [''front'']\<rparr>"

lemma kill_verified:
  "decision_of (\<lambda>_. None) \<lparr>sqrt_of = id, repr_of = (\<lambda>_. [])\<rparr> front_context RankingConfig None kill_candidate
     = VERIFIED_CANDIDATE"
  by code_simp

theorem verified_is_timely_witness: "reaches_symptom front_context kill_finding"
  using verified_is_timely [OF kill_verified]
  by (simp add: kill_candidate_def kill_finding_def) blast

section \<open>One experiment per schedule instance\<close>

lemma group_score [simp]: "instance_group t (x\<lparr>score := v\<rparr>) = instance_group t x"
  by (simp add: instance_group_def)

lemma py_max_total: "xs \<noteq> [] \<Longrightarrow> \<exists>m. py_max xs = Some m"
  by (cases xs) auto

lemma max_by_total: "xs \<noteq> [] \<Longrightarrow> \<exists>m. max_by f xs = Some m"
  by (cases xs) auto

lemma kept_member: "ms \<noteq> [] \<Longrightarrow> kept_instance onset ms \<in> set ms"
proof -
  assume ne: "ms \<noteq> []"
  let ?timed = "List.map_filter (\<lambda>m. map_option (\<lambda>t. (t, m)) (started m)) ms"
  have timed: "snd z \<in> set ms" if "z \<in> set ?timed" for z
    using that by (auto simp: in_map_filter)
  have pick: "snd (the (max_by f zs)) \<in> set ms" if "zs \<noteq> []" "set zs \<subseteq> set ?timed"
    for f :: "int \<times> candidate \<Rightarrow> int \<times> int" and zs
    using max_by_total [OF that(1), of f] max_by_Some [of f zs] that(2) timed by fastforce
  show ?thesis
    using ne pick by (auto simp: kept_instance_def Let_def)
qed

definition by_onset :: "instant option \<Rightarrow> instant \<Rightarrow> bool" where
  "by_onset onset s \<longleftrightarrow> (case onset of None \<Rightarrow> True | Some o' \<Rightarrow> s \<le> o')"

text \<open>The kept member started last among those that started by the onset, when one did.\<close>

lemma kept_latest:
  assumes "m \<in> set ms" "started m = Some s" "by_onset onset s"
  shows "\<exists>u. started (kept_instance onset ms) = Some u \<and> by_onset onset u \<and> s \<le> u"
proof -
  let ?timed = "List.map_filter (\<lambda>m. map_option (\<lambda>t. (t, m)) (started m)) ms"
  let ?early = "filter (\<lambda>(t, _). by_onset onset t) ?timed"
  have mem: "(s, m) \<in> set ?early" using assms by (force simp: in_map_filter)
  then have "?early \<noteq> []" by (metis empty_iff empty_set)
  then obtain z where z: "max_by (\<lambda>(t, m). (t, score m)) ?early = Some z" using max_by_total by blast
  note best = max_by_Some [OF z]
  then have "fst z = the (started (snd z)) \<and> started (snd z) \<noteq> None \<and> by_onset onset (fst z)"
    by (auto simp: in_map_filter)
  moreover have "(s, score m) \<le> (fst z, score (snd z))"
    using best mem by (fastforce split: prod.splits)
  then have "s \<le> fst z" by (auto simp: less_eq_prod_def)
  moreover have "kept_instance onset ms = snd z"
    using \<open>?early \<noteq> []\<close> z by (simp add: kept_instance_def Let_def by_onset_def)
  ultimately show ?thesis by auto
qed

definition stands_for :: "topology \<Rightarrow> instant option \<Rightarrow> candidate list \<Rightarrow> candidate \<Rightarrow> bool" where
  "stands_for t onset cs x \<longleftrightarrow>
     (\<exists>m\<in>set cs. instance_group t m = instance_group t x
        \<and> x = m\<lparr>score := Max (score ` {y \<in> set cs. instance_group t y = instance_group t x})\<rparr>)
     \<and> (\<forall>m\<in>set cs. \<forall>s. instance_group t m = instance_group t x \<longrightarrow> started m = Some s \<longrightarrow> by_onset onset s \<longrightarrow>
          (\<exists>u. started x = Some u \<and> by_onset onset u \<and> s \<le> u))"

lemma chosen_stands:
  assumes "x \<in> set cs" "instance_group t x = Some g"
  shows "stands_for t onset cs (chosen_instance onset (instance_members t cs g))
    \<and> instance_group t (chosen_instance onset (instance_members t cs g)) = Some g"
proof -
  let ?ms = "instance_members t cs g" and ?c = "chosen_instance onset (instance_members t cs g)"
  have ne: "?ms \<noteq> []" and set_ms: "set ?ms = {y \<in> set cs. instance_group t y = Some g}"
    using assms by (auto simp: instance_members_def filter_empty_conv)
  have k: "kept_instance onset ?ms \<in> set cs" "instance_group t (kept_instance onset ?ms) = Some g"
    using kept_member [OF ne, of onset] unfolding set_ms by auto
  obtain v where v: "py_max (map score ?ms) = Some v" using py_max_total ne by (metis map_is_Nil_conv)
  then have "v = Max (score ` set ?ms)"
    by (auto simp: py_max_Some intro!: Max_eqI [symmetric])
  then have c: "?c = (kept_instance onset ?ms)\<lparr>score := Max (score ` {y \<in> set cs. instance_group t y = Some g})\<rparr>"
    by (simp add: chosen_instance_def v set_ms)
  moreover have "\<exists>u. started ?c = Some u \<and> by_onset onset u \<and> s \<le> u"
    if "m \<in> set cs" "instance_group t m = Some g" "started m = Some s" "by_onset onset s" for m s
    using kept_latest [of m ?ms s onset] that set_ms by (simp add: c started_def)
  ultimately show ?thesis
    using k by (auto simp: stands_for_def)
qed

lemma collapse_rest_props:
  assumes "set xs \<subseteq> set cs"
  shows "filter (\<lambda>x. instance_group t x = None) (collapse_rest t onset cs placed xs)
       = filter (\<lambda>x. instance_group t x = None) xs"
    and "distinct (List.map_filter (instance_group t) (collapse_rest t onset cs placed xs))"
    and "set (List.map_filter (instance_group t) (collapse_rest t onset cs placed xs))
       = set (List.map_filter (instance_group t) xs) - set placed"
    and "\<forall>x\<in>set (collapse_rest t onset cs placed xs). instance_group t x \<noteq> None \<longrightarrow> stands_for t onset cs x"
  using assms
proof (induction t onset cs placed xs rule: collapse_rest.induct)
  case (2 t onset cs placed x xs)
  {
    case 1
    with 2 show ?case
      using chosen_stands [of x cs t _ onset] by (cases "instance_group t x") auto
  next
    case 2
    with "2.IH" show ?case
      using chosen_stands [of x cs t _ onset]
      by (cases "instance_group t x") (auto simp: List.map_filter_simps)
  next
    case 3
    with "2.IH" show ?case
      using chosen_stands [of x cs t _ onset]
      by (cases "instance_group t x") (auto simp: List.map_filter_simps)
  next
    case 4
    with "2.IH" show ?case
      using chosen_stands [of x cs t _ onset] by (cases "instance_group t x") auto
  }
qed (simp_all add: List.map_filter_simps)

text \<open>
  Of the experiments of one schedule instance exactly one is kept, the one that can have started the
  incident. Collapsing leaves every candidate that is no experiment of a schedule as it is and in its order,
  leaves one candidate for each schedule instance that had any, and that one is a member of the instance, with
  the best score of its members; when some member had started by the onset, the kept one had too, and none of
  those started later.
\<close>

theorem one_experiment_per_instance:
  "filter (\<lambda>x. instance_group t x = None) (collapse_fault_instances t onset cs) = filter (\<lambda>x. instance_group t x = None) cs
   \<and> distinct (List.map_filter (instance_group t) (collapse_fault_instances t onset cs))
   \<and> set (List.map_filter (instance_group t) (collapse_fault_instances t onset cs))
       = set (List.map_filter (instance_group t) cs)
   \<and> list_all (\<lambda>x. instance_group t x = None \<or> stands_for t onset cs x) (collapse_fault_instances t onset cs)"
  using collapse_rest_props [of cs cs t onset "[]"]
  by (simp add: collapse_fault_instances_def list_all_iff del: not_None_eq split_paired_Ex) blast

end
