(* ===== verification/Hypotheses_Correct.thy ===== *)
theory Hypotheses_Correct
  imports Hypotheses Ranking_Correct Resolution_Correct
begin

text \<open>
  What grouping promises of the claims it builds: evidence of different instances or episodes of an actor is
  never joined and none is lost, a claim's members are the candidates connected to it by coherent causal
  paths, and its own paths are causal walks to an alerting entity of the incident it is about.
\<close>

section \<open>The claims of a grouping\<close>

definition coherent_edges :: "topology \<Rightarrow> candidate list \<Rightarrow> (nat \<times> nat) set" where
  "coherent_edges t cs = {(i, j). i < j \<and> j < length cs \<and> pair_connected t (cs ! i) (cs ! j)}"

lemma set_connected_pairs: "set (connected_pairs t cs) = coherent_edges t cs"
  by (force simp: connected_pairs_def coherent_edges_def)

definition group_around :: "topology \<Rightarrow> candidate list \<Rightarrow> nat \<Rightarrow> candidate list" where
  "group_around t cs i = map (nth cs) (filter (connected (coherent_edges t cs) i) [0..<length cs])"

definition claim_of ::
  "identity_lib \<Rightarrow> scorer \<Rightarrow> ranking_context \<Rightarrow> ranking_config \<Rightarrow> incarnations \<Rightarrow> candidate list \<Rightarrow> nat
   \<Rightarrow> built_hypothesis" where
  "claim_of lib sc c cfg inc cs i =
     make_hypothesis lib sc c cfg
       (own_incarnation_members inc (group_around (context_topology c) cs i) (cs ! i)) (cs ! i)"

lemma group_same:
  assumes "connected E u v"
  shows "filter (connected E u) xs = filter (connected E v) xs"
  using assms by (intro filter_cong) (auto intro: connected_trans connected_sym)

lemma group_candidates_claims:
  assumes "group_candidates lib sc c cfg candidates = Inr hs"
  obtains inc where "incarnations_of (context_topology c) (partitioned lib candidates) = Inr inc"
    "set hs = claim_of lib sc c cfg inc (partitioned lib candidates) ` {..<length (partitioned lib candidates)}"
proof -
  let ?cs = "partitioned lib candidates" and ?t = "context_topology c"
  let ?E = "coherent_edges ?t ?cs" and ?n = "length (partitioned lib candidates)"
  let ?C = "components ?n (connected_pairs ?t ?cs)"
  have sub: "set (connected_pairs ?t ?cs) \<subseteq> {..<?n} \<times> {..<?n}"
    by (auto simp: set_connected_pairs coherent_edges_def)
  note parts = components_partition [OF sub, unfolded set_connected_pairs]
  from assms obtain inc where inc: "incarnations_of ?t ?cs = Inr inc"
    and hs: "set hs = (\<Union>items\<in>map (nth ?cs) ` set ?C.
        (\<lambda>x. make_hypothesis lib sc c cfg (own_incarnation_members inc items x) x) ` set items)"
    by (auto simp: group_candidates_def Let_def set_map image_image)
  have "set hs = claim_of lib sc c cfg inc ?cs ` {..<?n}"
  proof (intro set_eqI iffI)
    fix h assume "h \<in> set hs"
    then obtain k j where k: "k \<in> set ?C" "j \<in> set k"
      and h: "h = make_hypothesis lib sc c cfg (own_incarnation_members inc (map (nth ?cs) k) (?cs ! j)) (?cs ! j)"
      unfolding hs by auto
    obtain u where u: "k = filter (connected ?E u) [0..<?n]" using parts(1) k(1) by blast
    then have "j < ?n" "connected ?E u j" using k(2) by auto
    then show "h \<in> claim_of lib sc c cfg inc ?cs ` {..<?n}"
      using group_same [of ?E u j "[0..<?n]"] by (auto simp: h u claim_of_def group_around_def)
  next
    fix h assume "h \<in> claim_of lib sc c cfg inc ?cs ` {..<?n}"
    then obtain i where i: "i < ?n" "h = claim_of lib sc c cfg inc ?cs i" by auto
    have "i \<in> set (filter (connected ?E i) [0..<?n])" using i(1) by (simp add: connected_refl)
    then show "h \<in> set hs"
      using parts(2) [OF i(1)] unfolding hs i(2) claim_of_def group_around_def by fastforce
  qed
  with inc that show thesis by blast
qed

section \<open>Instances and episodes\<close>

lemma set_effective_findings [simp]: "set (effective_findings lib fs) = set fs"
  by (simp add: effective_findings_def)

lemma effective_findings_Nil [simp]: "effective_findings lib fs = [] \<longleftrightarrow> fs = []"
  by (metis set_effective_findings set_empty)

lemma bucket_iff:
  "b \<in> set (episode_buckets x) \<longleftrightarrow>
     (\<exists>f\<in>set (candidate_findings x). entity f = candidate_entity x
        \<and> b = filter (\<lambda>g. entity g = candidate_entity x \<and> entity_instance g = entity_instance f
                        \<and> incident_onset g = incident_onset f) (candidate_findings x))"
proof -
  have "b \<in> set (episode_buckets x) \<longleftrightarrow> (\<exists>i o'. ((i, o'), b) \<in> set (group_by (\<lambda>f. (entity_instance f, incident_onset f))
      (\<lambda>f. f) (filter (\<lambda>f. entity f = candidate_entity x) (candidate_findings x)) []))"
    by (force simp: episode_buckets_def)
  then show ?thesis
    by (simp add: group_by_member conj_commute conj_left_commute) blast
qed

text \<open>A partitioned candidate has findings of its own entity only, all of one instance and episode.\<close>

definition one_episode :: "candidate \<Rightarrow> bool" where
  "one_episode x \<longleftrightarrow> candidate_findings x \<noteq> []
     \<and> (\<forall>f\<in>set (candidate_findings x). entity f = candidate_entity x
          \<and> entity_instance f = entity_instance (hd (candidate_findings x))
          \<and> incident_onset f = incident_onset (hd (candidate_findings x)))"

lemma partitioned_one_episode:
  assumes "x \<in> set (partitioned lib candidates)"
  shows "one_episode x"
proof -
  obtain y b where y: "b \<in> set (episode_buckets y)" "x = y\<lparr>candidate_findings := effective_findings lib b\<rparr>"
    using assms by (auto simp: partitioned_def)
  from y(1) obtain f where f: "f \<in> set (candidate_findings y)" "entity f = candidate_entity y"
    "b = filter (\<lambda>g. entity g = candidate_entity y \<and> entity_instance g = entity_instance f
           \<and> incident_onset g = incident_onset f) (candidate_findings y)"
    unfolding bucket_iff by blast
  then have b: "b \<noteq> []" "\<forall>g\<in>set b. entity g = candidate_entity y
      \<and> entity_instance g = entity_instance f \<and> incident_onset g = incident_onset f"
    by (auto simp: filter_empty_conv)
  then have "hd (effective_findings lib b) \<in> set b"
    by (metis effective_findings_Nil list.set_sel(1) set_effective_findings)
  with b show ?thesis by (simp add: one_episode_def y(2))
qed

lemma partitioned_keeps:
  assumes "x \<in> set candidates" "f \<in> set (candidate_findings x)" "entity f = candidate_entity x"
  shows "\<exists>y\<in>set (partitioned lib candidates). candidate_entity y = candidate_entity x \<and> f \<in> set (candidate_findings y)"
proof -
  let ?b = "filter (\<lambda>g. entity g = candidate_entity x \<and> entity_instance g = entity_instance f
                        \<and> incident_onset g = incident_onset f) (candidate_findings x)"
  have "?b \<in> set (episode_buckets x)" using assms bucket_iff by blast
  then have "x\<lparr>candidate_findings := effective_findings lib ?b\<rparr> \<in> set (partitioned lib candidates)"
    using assms(1) by (auto simp: partitioned_def)
  moreover have "f \<in> set ?b" using assms by simp
  ultimately show ?thesis by (intro bexI) auto
qed

lemma partitioned_findings:
  assumes "x \<in> set (partitioned lib candidates)" "f \<in> set (candidate_findings x)"
  shows "\<exists>y\<in>set candidates. f \<in> set (candidate_findings y)"
proof -
  obtain y b where "y \<in> set candidates" "b \<in> set (episode_buckets y)" "f \<in> set b"
    using assms by (auto simp: partitioned_def)
  then show ?thesis by (auto simp: bucket_iff)
qed

lemma dedup_same:
  assumes "set xs = {a}"
  shows "dedup xs = [a]"
proof -
  have "length (dedup xs) = card {a}" using assms by (metis distinct_card distinct_dedup set_dedup)
  then obtain b where "dedup xs = [b]" by (auto simp: length_Suc_conv)
  with assms show ?thesis by (metis list.simps(15) empty_set set_dedup singleton_insert_inj_eq)
qed

lemma one_episode_sole:
  assumes "one_episode x"
  shows "sole_instance (candidate_findings x) = entity_instance (hd (candidate_findings x))"
proof -
  have "hd (candidate_findings x) \<in> set (candidate_findings x)"
    and "entity_instance ` set (candidate_findings x) \<subseteq> {entity_instance (hd (candidate_findings x))}"
    using assms unfolding one_episode_def by (simp, blast)
  then have "set (map entity_instance (candidate_findings x)) = {entity_instance (hd (candidate_findings x))}"
    unfolding set_map by blast
  from dedup_same [OF this] show ?thesis by (simp add: sole_instance_def)
qed

text \<open>Which other members an actor's claim keeps.\<close>

definition same_incarnation :: "incarnations \<Rightarrow> candidate \<Rightarrow> candidate \<Rightarrow> bool" where
  "same_incarnation inc x y \<longleftrightarrow> y = x \<or> incarnation_in inc y = None
     \<or> (\<forall>schedule u. incarnation_in inc x = Some (schedule, Some u) \<longrightarrow>
          fst (the (incarnation_in inc y)) \<noteq> schedule \<or> snd (the (incarnation_in inc y)) = Some u
          \<or> snd (the (incarnation_in inc y)) = None \<and> present_uids inc schedule = [u])"

lemma own_incarnation_filter:
  "own_incarnation_members inc items x = filter (same_incarnation inc x) items"
proof (cases "incarnation_in inc x")
  case None
  then show ?thesis by (simp add: own_incarnation_members_def same_incarnation_def)
next
  case (Some si)
  obtain s i where si: "si = (s, i)" by (cases si)
  show ?thesis
    by (cases i) (auto simp: own_incarnation_members_def same_incarnation_def Some si
        split: option.splits intro!: filter_cong filter_True [symmetric])
qed

section \<open>What a claim holds\<close>

lemma claim_fields:
  fixes lib sc c cfg items x
  defines "h \<equiv> make_hypothesis lib sc c cfg items x"
  shows "causal_actor h = candidate_entity x" "findings h = all_findings lib items x"
    "set (members h) = candidate_entity ` set items" "actor_instance h = sole_instance (candidate_findings x)"
    "episode_onset h = (case candidate_findings x of [] \<Rightarrow> None | f # _ \<Rightarrow> incident_onset f)"
    "causal_paths h = (if in_scope c (candidate_entity x) (candidate_findings x)
       then symptom_paths c (candidate_entity x) (candidate_findings x) else [])"
    "symptom_entities h = (if in_scope c (candidate_entity x) (candidate_findings x) then sorted_symptoms c else [])"
    "claim_version h = ''m21.v2''"
    "causal_explanation h = (if \<not> in_scope c (candidate_entity x) (candidate_findings x) then ''UNLINKED''
       else if symptom_paths c (candidate_entity x) (candidate_findings x) \<noteq> [] then ''PATH''
       else if candidate_entity x \<in> set (context_entities c) then ''DIRECT'' else ''UNLINKED'')"
  unfolding h_def make_hypothesis_def Let_def by (simp_all split: if_splits)

lemma set_all_findings:
  "set (all_findings lib items x) =
     set (candidate_findings x) \<union> \<Union> (set ` candidate_findings ` {y \<in> set items. candidate_entity y \<noteq> candidate_entity x})"
  by (auto simp: all_findings_def findings_of_others_def)

lemma one_episode_onset:
  "one_episode x \<Longrightarrow> f \<in> set (candidate_findings x) \<Longrightarrow>
     incident_onset f = (case candidate_findings x of [] \<Rightarrow> None | g # _ \<Rightarrow> incident_onset g)"
  unfolding one_episode_def by (cases "candidate_findings x") fastforce+

lemma group_member: "i < length cs \<Longrightarrow> cs ! i \<in> set (group_around t cs i)"
  by (simp add: group_around_def connected_refl)

lemma group_sub: "set (group_around t cs i) \<subseteq> set cs"
  by (auto simp: group_around_def)

text \<open>Of the actor's own entity, a claim holds exactly the findings of its candidate.\<close>

lemma claim_own:
  assumes cs: "\<forall>y\<in>set cs. one_episode y" and i: "i < length cs"
  shows "f \<in> set (findings (claim_of lib sc c cfg inc cs i)) \<and> entity f = candidate_entity (cs ! i)
    \<longleftrightarrow> f \<in> set (candidate_findings (cs ! i))"
proof -
  have other: "entity f = candidate_entity y" if "y \<in> set cs" "f \<in> set (candidate_findings y)" for y
    using cs that by (auto simp: one_episode_def)
  have sub: "set (filter (same_incarnation inc (cs ! i)) (group_around (context_topology c) cs i)) \<subseteq> set cs"
    using group_sub by auto
  show ?thesis
    unfolding claim_of_def own_incarnation_filter claim_fields set_all_findings
    using other [OF nth_mem [OF i]] other sub by (auto dest!: subsetD [OF sub])
qed

text \<open>
  C13: Evidence of different instances or episodes is never joined in a claim, and none is lost. Whatever
  candidates are grouped, every finding a claim holds of its own actor is of the claim's instance and of
  its episode, and every finding that a candidate has of its own entity is held by a claim whose actor is
  that entity.
\<close>

theorem claims_keep_evidence_apart:
  assumes hs: "group_candidates lib sc c cfg candidates = Inr hs"
  shows "(\<forall>h\<in>set hs. \<forall>f\<in>set (findings h). entity f = causal_actor h \<longrightarrow>
            entity_instance f = actor_instance h \<and> incident_onset f = episode_onset h)
    \<and> (\<forall>x\<in>set candidates. \<forall>f\<in>set (candidate_findings x). entity f = candidate_entity x \<longrightarrow>
            (\<exists>h\<in>set hs. causal_actor h = candidate_entity x \<and> f \<in> set (findings h)))"
proof -
  let ?cs = "partitioned lib candidates"
  obtain inc where claims: "set hs = claim_of lib sc c cfg inc ?cs ` {..<length ?cs}"
    using group_candidates_claims [OF hs] by blast
  have one: "\<forall>y\<in>set ?cs. one_episode y" using partitioned_one_episode by blast
  have "entity_instance f = actor_instance h \<and> incident_onset f = episode_onset h"
    if h: "h \<in> set hs" and f: "f \<in> set (findings h)" "entity f = causal_actor h" for h f
  proof -
    obtain i where i: "i < length ?cs" "h = claim_of lib sc c cfg inc ?cs i"
      using h unfolding claims by blast
    have e: "one_episode (?cs ! i)" using one i(1) by simp
    have "f \<in> set (candidate_findings (?cs ! i))"
      using f claim_own [OF one i(1), of f lib sc c cfg inc]
      unfolding i(2) claim_of_def claim_fields by blast
    moreover from this e have "entity_instance f = sole_instance (candidate_findings (?cs ! i))"
      unfolding one_episode_sole [OF e] one_episode_def by blast
    ultimately show ?thesis
      using one_episode_onset [OF e] unfolding i(2) claim_of_def claim_fields by blast
  qed
  moreover have "\<exists>h\<in>set hs. causal_actor h = candidate_entity x \<and> f \<in> set (findings h)"
    if xf: "x \<in> set candidates" "f \<in> set (candidate_findings x)" "entity f = candidate_entity x" for x f
  proof -
    obtain y where y: "y \<in> set ?cs" "candidate_entity y = candidate_entity x" "f \<in> set (candidate_findings y)"
      using partitioned_keeps [OF xf] by blast
    then obtain i where i: "i < length ?cs" "y = ?cs ! i" by (metis in_set_conv_nth)
    show ?thesis
      unfolding claims using i y
      by (intro bexI [of _ "claim_of lib sc c cfg inc ?cs i"]) (auto simp: claim_of_def claim_fields set_all_findings)
  qed
  ultimately show ?thesis by blast
qed

section \<open>Members\<close>

text \<open>
  C14: The members of a claim are the candidates that coherent causal paths connect to its actor. For every
  candidate, divided by instance and episode, there is a claim with its entity as the actor, whose
  members are exactly the candidates reachable from it along pairs that a coherent causal path of
  at most six hops joins, in either direction, except experiments of another incarnation of the
  actor's own schedule; and every claim is one of those.
\<close>

theorem members_are_connected:
  assumes "group_candidates lib sc c cfg candidates = Inr hs"
  defines "cs \<equiv> partitioned lib candidates"
  shows "\<exists>inc. incarnations_of (context_topology c) cs = Inr inc
    \<and> (\<forall>i<length cs. \<exists>h\<in>set hs. causal_actor h = candidate_entity (cs ! i)
         \<and> set (members h) = {candidate_entity (cs ! j) | j. j < length cs
              \<and> connected (coherent_edges (context_topology c) cs) i j \<and> same_incarnation inc (cs ! i) (cs ! j)})
    \<and> (\<forall>h\<in>set hs. \<exists>i<length cs. causal_actor h = candidate_entity (cs ! i)
         \<and> set (members h) = {candidate_entity (cs ! j) | j. j < length cs
              \<and> connected (coherent_edges (context_topology c) cs) i j \<and> same_incarnation inc (cs ! i) (cs ! j)})"
proof -
  obtain inc where inc: "incarnations_of (context_topology c) cs = Inr inc"
    and claims: "set hs = claim_of lib sc c cfg inc cs ` {..<length cs}"
    using group_candidates_claims [OF assms(1)] unfolding cs_def by blast
  have "set (members (claim_of lib sc c cfg inc cs i)) = {candidate_entity (cs ! j) | j. j < length cs
              \<and> connected (coherent_edges (context_topology c) cs) i j \<and> same_incarnation inc (cs ! i) (cs ! j)}" for i
    unfolding claim_of_def claim_fields own_incarnation_filter by (auto simp: group_around_def)
  moreover have "causal_actor (claim_of lib sc c cfg inc cs i) = candidate_entity (cs ! i)" for i
    by (simp add: claim_of_def claim_fields)
  ultimately show ?thesis
    using inc unfolding claims by (intro exI [of _ inc]) blast
qed

section \<open>Paths\<close>

text \<open>A chain of causal hops of at most six relations, or a quota refusal first.\<close>

definition causal_chain :: "ranking_context \<Rightarrow> 'a hypothesis_scheme \<Rightarrow> causal_hop list \<Rightarrow> bool" where
  "causal_chain c h p \<longleftrightarrow> (\<exists>x\<in>set (context_entities c).
     p \<noteq> [] \<and> walk {hop. causal_step (context_topology c) hop} (causal_actor h) p x \<and> length p \<le> 6
     \<or> (\<exists>e q. p = mk_hop (causal_actor h) ''quota_blocks'' e # q
          \<and> walk {hop. causal_step (context_topology c) hop} e q x \<and> length q \<le> 6
          \<and> (\<exists>f\<in>set (findings h). entity f = causal_actor h \<and> rejects f \<and> e \<in> set (related f))))"

lemma direct_chain:
  assumes "p \<in> set (direct_paths c (causal_actor h))"
  shows "causal_chain c h p"
proof -
  obtain s where s: "s \<in> set (context_entities c)" "causal_path (context_topology c) 6 (causal_actor h) [s] = Some p" "p \<noteq> []"
    using assms by (auto simp: direct_paths_def in_map_filter sorted_symptoms_def)
  from causal_path_walk [OF s(2)] show ?thesis
    using s(1,3) unfolding causal_chain_def by auto
qed

lemma quota_chain:
  assumes "p \<in> set (quota_paths c (causal_actor h) fs)"
    and "\<forall>f\<in>set fs. f \<in> set (findings h) \<and> entity f = causal_actor h"
  shows "causal_chain c h p"
proof -
  obtain f e s q where f: "f \<in> set fs" "rejects f" "e \<in> set (related f)" and s: "s \<in> set (context_entities c)"
    and q: "causal_path (context_topology c) 6 e [s] = Some q" and p: "p = mk_hop (causal_actor h) ''quota_blocks'' e # q"
    using assms(1) by (auto simp: quota_paths_def in_map_filter sorted_symptoms_def)
  have "walk {hop. causal_step (context_topology c) hop} e q s" "length q \<le> 6" using causal_path_walk [OF q] by auto
  with f s p assms(2) show ?thesis
    unfolding causal_chain_def by blast
qed

lemma claim_paths:
  assumes cs: "\<forall>y\<in>set cs. one_episode y" and i: "i < length cs" and h: "h = claim_of lib sc c cfg inc cs i"
    and p: "p \<in> set (causal_paths h)"
  shows "causal_chain c h p"
proof -
  let ?fs = "candidate_findings (cs ! i)"
  have actor: "causal_actor h = candidate_entity (cs ! i)" by (simp add: h claim_of_def claim_fields)
  have own: "\<forall>f\<in>set ?fs. f \<in> set (findings h) \<and> entity f = causal_actor h"
    unfolding actor using claim_own [OF cs i] h by blast
  have "p \<in> set (symptom_paths c (causal_actor h) ?fs)"
    using p unfolding actor by (simp add: h claim_of_def claim_fields split: if_splits)
  then show ?thesis
    using direct_chain quota_chain [OF _ own] by (auto simp: symptom_paths_def)
qed

text \<open>Whether the snapshot's object of the actor is another instance than the claim's.\<close>

definition replaced_instance :: "ranking_context \<Rightarrow> 'a hypothesis_scheme \<Rightarrow> bool" where
  "replaced_instance c h \<longleftrightarrow> (\<exists>i v u. actor_instance h = Some i
     \<and> map_of (topo_latest (context_topology c)) (causal_actor h) = Some v \<and> instance_uid v = Some u \<and> uid i \<noteq> u)"

text \<open>
  Every path of a claim is a causal chain to an alerting entity, and a claim about another instance or
  incident has none. Each path starts at the actor and follows stored relations in a direction declared
  causal, at most six of them, after a quota refusal with evidence that names its target, if it
  starts with one. A claim whose evidence is stamped with another onset than the incident's, or whose instance
  is not the one in the snapshot, has no path and no symptom and explains nothing; otherwise it says PATH
  exactly when it has a path, and DIRECT only of an alerting actor.
\<close>

theorem claim_paths_are_causal:
  assumes hs: "group_candidates lib sc c cfg candidates = Inr hs" and h: "h \<in> set hs"
  shows "(\<forall>p\<in>set (causal_paths h). causal_chain c h p)
    \<and> (if replaced_instance c h \<or> episode_onset h \<notin> {None, symptom_onset (context_symptoms c)}
       then causal_paths h = [] \<and> symptom_entities h = [] \<and> causal_explanation h = ''UNLINKED''
       else set (symptom_entities h) = set (context_entities c)
         \<and> (causal_explanation h = ''PATH'' \<longleftrightarrow> causal_paths h \<noteq> [])
         \<and> (causal_explanation h = ''DIRECT'' \<longleftrightarrow> causal_paths h = [] \<and> causal_actor h \<in> set (context_entities c)))"
proof -
  let ?cs = "partitioned lib candidates"
  obtain inc i where i: "i < length ?cs" and hi: "h = claim_of lib sc c cfg inc ?cs i"
    using group_candidates_claims [OF hs] h by blast
  have one: "\<forall>y\<in>set ?cs. one_episode y" using partitioned_one_episode by blast
  note f = hi claim_of_def claim_fields
  have scope: "in_scope c (candidate_entity (?cs ! i)) (candidate_findings (?cs ! i))
      \<longleftrightarrow> \<not> replaced_instance c h \<and> episode_onset h \<in> {None, symptom_onset (context_symptoms c)}"
    by (auto simp: f in_scope_def replaced_instance_def other_instance_def foreign_episode_def
        split: option.splits list.splits bind_splits)
  show ?thesis
    using claim_paths [OF one i hi] scope
    by (auto simp: f sorted_symptoms_def split del: if_split split: if_splits)
qed

section \<open>A grouping\<close>

text \<open>The test that killed a pod, and the failure of that pod a little later.\<close>

definition failure_candidate :: candidate where
  "failure_candidate =
     \<lparr>candidate_entity = killed_pod, score = 10 * half,
      candidate_findings =
        [\<lparr>finding_kind = CONTAINER_FAILURE, entity = killed_pod, entity_instance = None, at = Some 60,
          summary = ''killed'', evidence_ids = [''e2''], related = [], details = [],
          temporal_role = SUPPORTING, incident_onset = Some 50, onset_delta = Some 10\<rparr>],
      linked_symptoms = [], causal_path_of = [], candidate_explanation = ''PATH'', structural_basis = []\<rparr>"

definition plain_lib :: identity_lib where
  "plain_lib = \<lparr>sha256_hex = id, iso_text = (\<lambda>_. ''t'')\<rparr>"

definition plain_scorer :: scorer where
  "plain_scorer = \<lparr>sqrt_of = id, repr_of = (\<lambda>_. [])\<rparr>"

definition sample_claim :: built_hypothesis where
  "sample_claim = make_hypothesis plain_lib plain_scorer front_context RankingConfig [kill_candidate, failure_candidate] kill_candidate"

lemma small_partition: "partitioned plain_lib [kill_candidate, failure_candidate] = [kill_candidate, failure_candidate]"
  by code_simp

lemma small_incarnations:
  "incarnations_of small_topology [kill_candidate, failure_candidate]
     = Inr [(kill_candidate, None), (failure_candidate, None)]"
  by code_simp

lemma small_pairs: "connected_pairs small_topology [kill_candidate, failure_candidate] = [(0, 1)]"
  by code_simp

lemma small_context: "context_topology front_context = small_topology"
  by (simp add: front_context_def)

lemma small_edge: "connected (coherent_edges small_topology [kill_candidate, failure_candidate]) 0 (Suc 0)"
  using set_connected_pairs [of small_topology "[kill_candidate, failure_candidate]"]
  by (intro connected_edge) (auto simp: small_pairs simp flip: One_nat_def)

lemma small_grouping:
  obtains hs where "group_candidates plain_lib plain_scorer front_context RankingConfig [kill_candidate, failure_candidate] = Inr hs"
    "sample_claim \<in> set hs"
proof -
  let ?cs = "[kill_candidate, failure_candidate]"
  obtain hs where hs: "group_candidates plain_lib plain_scorer front_context RankingConfig ?cs = Inr hs"
    by (simp add: group_candidates_def Let_def small_partition small_context small_incarnations)
  have "group_around small_topology ?cs 0 = ?cs"
    using small_edge by (simp add: group_around_def upt_rec connected_refl)
  then have "claim_of plain_lib plain_scorer front_context RankingConfig [(kill_candidate, None), (failure_candidate, None)] ?cs 0
      = sample_claim"
    by (simp add: claim_of_def sample_claim_def small_context own_incarnation_filter same_incarnation_def incarnation_in_def
        split: option.split)
  moreover obtain inc where "incarnations_of small_topology ?cs = Inr inc"
    "set hs = claim_of plain_lib plain_scorer front_context RankingConfig inc ?cs ` {..<length ?cs}"
    using group_candidates_claims [OF hs] unfolding small_partition small_context by blast
  ultimately have "sample_claim \<in> set hs"
    by (auto simp: small_incarnations image_iff intro!: bexI [of _ 0])
  with hs that show thesis by blast
qed

lemma sample_paths:
  "in_scope front_context kill_test [kill_finding]"
  "symptom_paths front_context kill_test [kill_finding]
     = [[mk_hop kill_test ''disrupts'' killed_pod, mk_hop killed_pod ''backs'' front_service]]"
  "sorted_symptoms front_context = [front_service]"
  "sole_instance [kill_finding] = None"
  by code_simp+

lemma sample_claim_fields:
  "causal_actor sample_claim = kill_test" "episode_onset sample_claim = Some 50" "actor_instance sample_claim = None"
  "causal_paths sample_claim = [[mk_hop kill_test ''disrupts'' killed_pod, mk_hop killed_pod ''backs'' front_service]]"
  "symptom_entities sample_claim = [front_service]" "claim_version sample_claim = ''m21.v2''"
  "kill_finding \<in> set (findings sample_claim)" "candidate_entity kill_candidate = kill_test"
  using sample_paths
  by (simp_all add: sample_claim_def claim_fields set_all_findings kill_candidate_def)
     (simp_all add: kill_finding_def)

theorem claims_keep_evidence_apart_witness:
  "\<exists>hs. group_candidates plain_lib plain_scorer front_context RankingConfig [kill_candidate, failure_candidate] = Inr hs
     \<and> (\<exists>h\<in>set hs. causal_actor h = kill_test \<and> kill_finding \<in> set (findings h))"
proof -
  obtain hs where hs: "group_candidates plain_lib plain_scorer front_context RankingConfig [kill_candidate, failure_candidate] = Inr hs"
    using small_grouping by blast
  have "\<exists>h\<in>set hs. causal_actor h = candidate_entity kill_candidate \<and> kill_finding \<in> set (findings h)"
    using claims_keep_evidence_apart [OF hs] by (simp add: kill_candidate_def kill_finding_def)
  with hs show ?thesis by (simp add: sample_claim_fields)
qed

theorem members_are_connected_witness:
  "\<exists>hs. group_candidates plain_lib plain_scorer front_context RankingConfig [kill_candidate, failure_candidate] = Inr hs
     \<and> (\<exists>h\<in>set hs. causal_actor h = kill_test \<and> killed_pod \<in> set (members h))"
proof -
  let ?cs = "[kill_candidate, failure_candidate]"
  obtain hs where hs: "group_candidates plain_lib plain_scorer front_context RankingConfig ?cs = Inr hs"
    using small_grouping by blast
  from members_are_connected [OF hs, unfolded small_partition small_context] obtain inc where
    inc: "incarnations_of small_topology ?cs = Inr inc"
    and all: "\<forall>i<length ?cs. \<exists>h\<in>set hs. causal_actor h = candidate_entity (?cs ! i)
       \<and> set (members h) = {candidate_entity (?cs ! j) | j. j < length ?cs
       \<and> connected (coherent_edges small_topology ?cs) i j \<and> same_incarnation inc (?cs ! i) (?cs ! j)}"
    by blast
  have "0 < length ?cs" by simp
  with all obtain h where h: "h \<in> set hs" "causal_actor h = candidate_entity (?cs ! 0)"
    "set (members h) = {candidate_entity (?cs ! j) | j. j < length ?cs
       \<and> connected (coherent_edges small_topology ?cs) 0 j \<and> same_incarnation inc (?cs ! 0) (?cs ! j)}"
    by blast
  have "same_incarnation inc (?cs ! 0) (?cs ! Suc 0)"
    using inc by (auto simp: small_incarnations same_incarnation_def incarnation_in_def)
  then have "candidate_entity (?cs ! Suc 0) \<in> set (members h)"
    unfolding h(3) using small_edge by (intro CollectI exI [of _ "Suc 0"]) simp
  with hs h(1,2) show ?thesis by (auto simp: sample_claim_fields failure_candidate_def)
qed

theorem claim_paths_are_causal_witness:
  "causal_chain front_context sample_claim
     [mk_hop kill_test ''disrupts'' killed_pod, mk_hop killed_pod ''backs'' front_service]"
proof -
  obtain hs where "group_candidates plain_lib plain_scorer front_context RankingConfig [kill_candidate, failure_candidate] = Inr hs"
    "sample_claim \<in> set hs"
    using small_grouping .
  from claim_paths_are_causal [OF this] show ?thesis by (simp add: sample_claim_fields)
qed

section \<open>From the ranking to the resolution\<close>

lemma role_initiating:
  assumes "role_at k delta grace = INITIATING"
  shows "\<exists>d. delta = Some d \<and> d \<le> grace \<and> (k \<in> set EXECUTION_RECORD_KINDS \<longrightarrow> d \<le> EXECUTION_RECORD_PRECISION)"
proof (cases delta)
  case (Some d)
  then show ?thesis using assms by (auto simp: role_at_def simp del: not_less split: if_splits)
qed (use assms in \<open>simp add: role_at_def\<close>)

lemma annotated_initiating:
  assumes "f \<in> set (annotate_temporal_roles raw onset grace)" "temporal_role f = INITIATING" "at f = Some t"
  shows "\<exists>o'. onset = Some o' \<and> t \<le> o' + grace
    \<and> (finding_kind f \<in> set EXECUTION_RECORD_KINDS \<longrightarrow> t \<le> o' + EXECUTION_RECORD_PRECISION)"
proof -
  let ?d = "\<lambda>g. case (at g, onset) of (Some t, Some o') \<Rightarrow> Some (t - o') | _ \<Rightarrow> None"
  obtain g where g: "f = g\<lparr>incident_onset := onset, onset_delta := ?d g, temporal_role := role_at (finding_kind g) (?d g) grace\<rparr>"
    using assms(1) unfolding annotate_temporal_roles_def Let_def set_map by blast
  have f: "at f = at g" "finding_kind f = finding_kind g" "temporal_role f = role_at (finding_kind g) (?d g) grace"
    by (simp_all add: g)
  then obtain o' where "onset = Some o'" using assms(2) by (cases onset; cases "at g") (auto simp: role_at_def)
  with role_initiating [of "finding_kind g" "Some (t - o')" grace] assms(2,3) f show ?thesis by auto
qed

lemma truncate_fields [simp]:
  "findings (hypothesis.truncate h) = findings h" "causal_actor (hypothesis.truncate h) = causal_actor h"
  "actor_instance (hypothesis.truncate h) = actor_instance h" "episode_onset (hypothesis.truncate h) = episode_onset h"
  "causal_paths (hypothesis.truncate h) = causal_paths h" "claim_version (hypothesis.truncate h) = claim_version h"
  "symptom_entities (hypothesis.truncate h) = symptom_entities h"
  by (simp_all add: hypothesis.defs)

text \<open>
  C12: A claim supported by a change has a timely change of its actor that causally reaches the incident. When the
  candidates carry the temporal roles that ranking gives their findings and a claim of the grouping
  is supported, then the onset of the incident is known, the claim holds a change of its actor, with evidence,
  that came at most the grace after the onset, and at most a second after it if it is a record of an
  experiment, and the actor is alerting itself or a path of the claim is a causal chain from it to an
  alerting entity; nor is the actor another instance than the one in the snapshot.
\<close>

theorem supported_change_is_timely:
  assumes hs: "group_candidates lib sc c cfg candidates = Inr hs" and h: "h \<in> set hs"
    and roles: "\<forall>x\<in>set candidates. set (candidate_findings x)
        \<subseteq> set (annotate_temporal_roles raw (symptom_onset (context_symptoms c)) grace)"
    and fired: "support_status (change_onset_path_support (hypothesis.truncate h)) = FIRED"
  shows "\<exists>onset. symptom_onset (context_symptoms c) = Some onset
    \<and> (\<exists>f\<in>set (findings h). \<exists>t. entity f = causal_actor h \<and> finding_kind f \<in> set CHANGE_KINDS \<and> evidence_ids f \<noteq> []
         \<and> at f = Some t \<and> t \<le> onset + grace
         \<and> (finding_kind f \<in> set EXECUTION_RECORD_KINDS \<longrightarrow> t \<le> onset + EXECUTION_RECORD_PRECISION))
    \<and> (causal_actor h \<in> set (context_entities c) \<or> (\<exists>p\<in>set (causal_paths h). causal_chain c h p))
    \<and> \<not> replaced_instance c h"
proof -
  let ?cs = "partitioned lib candidates" and ?h = "hypothesis.truncate h"
  obtain inc i where i: "i < length ?cs" and hi: "h = claim_of lib sc c cfg inc ?cs i"
    using group_candidates_claims [OF hs] h by blast
  have one: "\<forall>y\<in>set ?cs. one_episode y" using partitioned_one_episode by blast
  obtain f where f: "f \<in> set (actor_findings ?h)" "temporal_role f = INITIATING" "finding_kind f \<in> set CHANGE_KINDS"
    "can_witness f" and adm: "admitted ?h"
    using fired by (auto simp: fired_iff initiating_changes_def)
  then obtain t where t: "at f = Some t" "evidence_ids f \<noteq> []" by (auto simp: can_witness_def)
  have own: "f \<in> set (findings h)" "entity f = causal_actor h" using f(1) by (auto simp: actor_findings_def)
  then have "f \<in> set (candidate_findings (?cs ! i))"
    using claim_own [OF one i, of f lib sc c cfg inc] unfolding hi claim_of_def claim_fields by blast
  then have "f \<in> set (annotate_temporal_roles raw (symptom_onset (context_symptoms c)) grace)"
    using partitioned_findings [OF nth_mem [OF i]] roles by blast
  note timed = annotated_initiating [OF this f(2) t(1)]
  obtain s p where "(s, p) \<in> set (symptom_links ?h)"
    using adm unfolding admitted_def by (metis list.set_sel(1) surj_pair)
  from symptom_links_walk [OF this] have link: "s \<in> set (symptom_entities h)" "p = [] \<and> s = causal_actor h \<or> p \<in> set (causal_paths h)"
    by auto
  have "symptom_entities h \<noteq> []" using link(1) by auto
  then have scoped: "in_scope c (candidate_entity (?cs ! i)) (candidate_findings (?cs ! i))"
    by (auto simp: hi claim_of_def claim_fields split: if_splits)
  then have "\<not> replaced_instance c h"
    by (auto simp: replaced_instance_def hi claim_of_def claim_fields in_scope_def other_instance_def)
  moreover have "s \<in> set (context_entities c)"
    using link(1) scoped by (simp add: hi claim_of_def claim_fields sorted_symptoms_def)
  ultimately show ?thesis
    using timed t own f(3) link(2) claim_paths [OF one i hi, of p] by (fastforce split: if_splits)
qed

text \<open>The same test, with the roles and delays that ranking gives.\<close>

lemma sample_roles:
  "set (candidate_findings x) \<subseteq> set (annotate_temporal_roles (kill_finding # candidate_findings failure_candidate) (Some 50) minute)"
  if "x \<in> set [kill_candidate, failure_candidate]"
  using that
  by (auto simp: kill_candidate_def failure_candidate_def annotate_temporal_roles_def Let_def kill_finding_def
      role_at_def EXECUTION_RECORD_KINDS_def EXECUTION_RECORD_PRECISION_def RANKING_INITIATING_KINDS_def
      RANKING_SUPPORTING_KINDS_def minute_def second_def)

lemma sample_fired: "support_status (change_onset_path_support (hypothesis.truncate sample_claim)) = FIRED"
proof -
  let ?h = "hypothesis.truncate sample_claim"
  have own: "kill_finding \<in> set (actor_findings ?h)"
    using sample_claim_fields by (simp add: actor_findings_def) (simp add: kill_finding_def)
  have ch: "kill_finding \<in> set (initiating_changes ?h)"
    using own by (simp add: initiating_changes_def) (simp add: kill_finding_def CHANGE_KINDS_def)
  have "symptom_links ?h \<noteq> []"
    using sample_claim_fields
    by (simp add: symptom_links_def links_path_def mk_hop_def RELATIONS_def RELATION_SEMANTICS_def sem_def)
  with own have "admitted ?h" by (auto simp: admitted_def)
  then show ?thesis
    using ch unfolding fired_iff by (intro conjI bexI [of _ kill_finding]) (simp_all add: can_witness_def kill_finding_def)
qed

theorem supported_change_is_timely_witness:
  "\<not> replaced_instance front_context sample_claim
   \<and> (\<exists>p\<in>set (causal_paths sample_claim). causal_chain front_context sample_claim p)"
proof -
  obtain hs where hs: "group_candidates plain_lib plain_scorer front_context RankingConfig [kill_candidate, failure_candidate] = Inr hs"
    "sample_claim \<in> set hs"
    using small_grouping .
  have "symptom_onset (context_symptoms front_context) = Some 50" by (simp add: front_context_def)
  with sample_roles have "\<forall>x\<in>set [kill_candidate, failure_candidate]. set (candidate_findings x)
      \<subseteq> set (annotate_temporal_roles (kill_finding # candidate_findings failure_candidate)
            (symptom_onset (context_symptoms front_context)) minute)"
    by (metis)
  from supported_change_is_timely [OF hs this sample_fired] show ?thesis
    by (simp add: sample_claim_fields) (simp add: front_context_def front_service_def kill_test_def)
qed

end
