(* ===== verification/Requirements.thy ===== *)
theory Requirements
  imports Incident_Lifecycle Episode_End Resource_Mechanism Resolution
begin

text \<open>
  Evidence requirements and the revisions that settle them: their identity and evaluations
  (\<open>packages/rca/requirements.py\<close>), the diagnosis and the requirement tables
  (\<open>DiagnosisRepository\<close> and \<open>EvidenceRequirementRepository\<close> of \<open>packages/storage/repositories.py\<close>), the revision a run of
  the diagnosis service stores, and the deadline scheduler (\<open>apps/control_plane/scheduler.py\<close>). What other
  sessions commit between the reads of an attempt and its insert is the argument \<open>env\<close>, by the attempts
  that are left; the serialisation of JSON and SHA-256 are one argument, what the engine concludes another.
\<close>

section \<open>Evaluations of a revision\<close>

record inventory_entry =
  entry_hypothesis :: string
  entry_key :: "string option"
  entry_actor :: entity_ref
  entry_mechanism :: "string list"
  entry_uids :: "string list"

definition mechanism_class :: "hypothesis \<Rightarrow> string list" where
  "mechanism_class h =
     (case sorted_set (map (\<lambda>f. kind_value (finding_kind f)) (initiating_findings h)) of
        [] \<Rightarrow> [''MANIFESTATION_ONLY''] | ks \<Rightarrow> ks)"

definition inventory_uids :: "hypothesis \<Rightarrow> string list" where
  "inventory_uids h =
     sorted_set (filter (\<lambda>u. u \<noteq> []) (List.map_filter (\<lambda>f. map_option uid (entity_instance f))
       (if claim_version h = ''m21.v2'' then actor_findings h else findings h)))"

definition nonempty_key :: "hypothesis \<Rightarrow> string option" where
  "nonempty_key h = (if hypothesis_key h = [] then None else Some (hypothesis_key h))"

definition hypothesis_inventory :: "hypothesis list \<Rightarrow> inventory_entry list" where
  "hypothesis_inventory hs =
     map (\<lambda>h. \<lparr>entry_hypothesis = hypothesis_id h, entry_key = nonempty_key h, entry_actor = causal_actor h,
         entry_mechanism = mechanism_class h, entry_uids = inventory_uids h\<rparr>) (sort_key hypothesis_id hs)"

definition continuity_evaluation :: "hypothesis \<Rightarrow> instance_requirement \<Rightarrow> requirement_evaluation result" where
  "continuity_evaluation h i =
     make_evaluation
       \<lparr>eval_hypothesis = hypothesis_id h, eval_key = nonempty_key h, eval_rule = RULE_ID, eval_version = RULE_VERSION,
        eval_kind = STATUS_CONTINUITY,
        eval_targets = [\<lparr>target_entity = canonical (causal_actor h), target_uid = Some (requirement_uid i),
          target_container = None, target_resource = None\<rparr>],
        eval_result = requirement_result i, eval_reason = requirement_reason i\<rparr>"

definition coverage_evaluation :: "hypothesis \<Rightarrow> coverage_requirement \<Rightarrow> requirement_evaluation result" where
  "coverage_evaluation h q =
     make_evaluation
       \<lparr>eval_hypothesis = hypothesis_id h, eval_key = nonempty_key h, eval_rule = fst RESOURCE_PRESSURE_RULE,
        eval_version = snd RESOURCE_PRESSURE_RULE,
        eval_kind = RESOURCE_COVERAGE,
        eval_targets = sort_key target_sort_key (map (\<lambda>(c, r). \<lparr>target_entity = canonical (causal_actor h),
          target_uid = None, target_container = Some c, target_resource = Some r\<rparr>) (requirement_series q)),
        eval_result = coverage_result q, eval_reason = coverage_reason q\<rparr>"

definition evaluations_of ::
  "(string \<times> instance_requirement list) list \<Rightarrow> (string \<times> coverage_requirement) list \<Rightarrow> hypothesis
   \<Rightarrow> requirement_evaluation list result" where
  "evaluations_of ins cov h =
     and_then (traverse (continuity_evaluation h) (sort_key requirement_uid
         (case map_of ins (hypothesis_id h) of None \<Rightarrow> [] | Some is \<Rightarrow> is))) (\<lambda>es.
     case map_of cov (hypothesis_id h) of
       None \<Rightarrow> Inr es
     | Some q \<Rightarrow> and_then (coverage_evaluation h q) (\<lambda>e. Inr (es @ [e])))"

definition build_requirement_evaluations ::
  "hypothesis list \<Rightarrow> (string \<times> instance_requirement list) list \<Rightarrow> (string \<times> coverage_requirement) list
   \<Rightarrow> requirement_evaluation list result" where
  "build_requirement_evaluations hs ins cov =
     and_then (traverse (evaluations_of ins cov) (sort_key hypothesis_id hs)) (Inr \<circ> concat)"

section \<open>Identity\<close>

definition REQUIREMENT_SCHEMA :: string where
  "REQUIREMENT_SCHEMA = ''agentic-sre.evidence-requirement.v1''"

text \<open>The stored form of a target: what is absent is left out.\<close>

definition target_document :: "requirement_target \<Rightarrow> json" where
  "target_document t =
     JDict ((''entity'', JStr (target_entity t)) # List.map_filter (\<lambda>(k, v). map_option (\<lambda>s. (k, JStr s)) v)
       [(''uid'', target_uid t), (''container'', target_container t), (''resource'', target_resource t)])"

fun requirement_kind_value :: "requirement_kind \<Rightarrow> string" where
  "requirement_kind_value STATUS_CONTINUITY = ''STATUS_CONTINUITY''"
| "requirement_kind_value RESOURCE_COVERAGE = ''RESOURCE_COVERAGE''"

definition requirement_key :: "(json \<Rightarrow> string) \<Rightarrow> uuid \<Rightarrow> requirement_evaluation \<Rightarrow> string result" where
  "requirement_key digest i e =
     (case eval_key e of
        Some (c # k) \<Rightarrow>
          Inr (digest (JDict
            [(''schema'', JStr REQUIREMENT_SCHEMA), (''incident_id'', JStr (nat_str i)),
             (''hypothesis_key'', JStr (c # k)), (''rule_id'', JStr (eval_rule e)),
             (''rule_version'', JStr (eval_version e)), (''kind'', JStr (requirement_kind_value (eval_kind e))),
             (''targets'', JList (map target_document (eval_targets e)))]))
      | _ \<Rightarrow> Inl (ValueError ''requirement identity needs a hypothesis_key''))"

section \<open>Tables\<close>

text \<open>
  Of a stored diagnosis: its inventory and evaluations, and its symptoms' onset, \<open>None\<close> when the document
  has no readable symptoms.
\<close>

record diagnosis_document =
  inventory :: "inventory_entry list"
  evaluations :: "requirement_evaluation list"
  document_onset :: "instant option option"

record diagnosis_row =
  dg_id :: nat
  dg_incident :: uuid
  dg_revision :: nat
  dg_previous :: "nat option"
  dg_trigger :: string
  dg_window_end :: "instant option"
  dg_document :: diagnosis_document

datatype requirement_state = REQUIREMENT_OPEN | SATISFIED_BY_REVISION | SUPERSEDED_BY_REVISION | EXPIRED

record requirement_row =
  rq_id :: nat
  rq_key :: string
  rq_incident :: uuid
  rq_diagnosis :: nat
  rq_hypothesis :: string
  rq_rule :: string
  rq_version :: string
  rq_kind :: requirement_kind
  rq_targets :: "json list"
  rq_not_before :: instant
  rq_state :: requirement_state

record diagnosis_store =
  incident_table :: "incident list"
  diagnosis_table :: "diagnosis_row list"
  requirement_table :: "requirement_row list"
  next_diagnosis :: nat
  next_requirement :: nat

definition is_open :: "requirement_row \<Rightarrow> bool" where
  "is_open r \<longleftrightarrow> rq_state r = REQUIREMENT_OPEN"

section \<open>What a revision does to the requirements of its incident\<close>

definition key_count :: "diagnosis_document \<Rightarrow> string \<Rightarrow> nat" where
  "key_count doc k = length (filter (\<lambda>e. entry_key e = Some k) (inventory doc))"

definition unique_key :: "diagnosis_document \<Rightarrow> requirement_evaluation \<Rightarrow> bool" where
  "unique_key doc e \<longleftrightarrow> (case eval_key e of None \<Rightarrow> False | Some k \<Rightarrow> key_count doc k = 1)"

text \<open>The evaluations with a unique hypothesis, by requirement key; two different ones of a key are an error.\<close>

fun current_evaluations ::
  "(json \<Rightarrow> string) \<Rightarrow> uuid \<Rightarrow> requirement_evaluation list \<Rightarrow> (string \<times> requirement_evaluation) list
   \<Rightarrow> (string \<times> requirement_evaluation) list result" where
  "current_evaluations digest i [] d = Inr d"
| "current_evaluations digest i (e # es) d =
     and_then (requirement_key digest i e) (\<lambda>k.
       case map_of d k of
         None \<Rightarrow> current_evaluations digest i es (d @ [(k, e)])
       | Some x \<Rightarrow> if x = e then current_evaluations digest i es d
                  else Inl (ValueError ''conflicting evaluations for requirement''))"

definition pending_result :: "requirement_evaluation \<Rightarrow> instant option" where
  "pending_result e =
     (case eval_result e of
        None \<Rightarrow> None
      | Some r \<Rightarrow> if result_status r = PENDING then Some (the (not_before r)) else None)"

definition settled_state ::
  "diagnosis_document \<Rightarrow> (string \<times> requirement_evaluation) list \<Rightarrow> requirement_row \<Rightarrow> requirement_state" where
  "settled_state doc current r =
     (let count = key_count doc (rq_hypothesis r);
          matched = (if count = 1 then map_of current (rq_key r) else None)
      in if count = 0 \<or> (case matched of None \<Rightarrow> False | Some e \<Rightarrow> eval_reason e = Some SCOPE_EXITED)
         then SUPERSEDED_BY_REVISION
         else case matched of
                None \<Rightarrow> REQUIREMENT_OPEN
              | Some e \<Rightarrow> if eval_result e = None then REQUIREMENT_OPEN
                         else if pending_result e \<noteq> None then SUPERSEDED_BY_REVISION
                         else SATISFIED_BY_REVISION)"

definition settle_row ::
  "uuid \<Rightarrow> diagnosis_document \<Rightarrow> (string \<times> requirement_evaluation) list \<Rightarrow> requirement_row \<Rightarrow> requirement_row" where
  "settle_row i doc current r =
     (if rq_incident r = i \<and> is_open r then r\<lparr>rq_state := settled_state doc current r\<rparr> else r)"

text \<open>The insert of an OPEN row, with its partial unique index and its foreign key.\<close>

definition insert_requirement :: "requirement_row \<Rightarrow> diagnosis_store \<Rightarrow> diagnosis_store result" where
  "insert_requirement r st =
     (if list_ex (\<lambda>q. is_open q \<and> rq_key q = rq_key r) (requirement_table st)
      then Inl (IntegrityError ''uq_evidence_requirements_open_key'')
      else if \<not> list_ex (\<lambda>d. dg_id d = rq_diagnosis r) (diagnosis_table st)
      then Inl (IntegrityError ''fk_evidence_requirements_diagnosis_id'')
      else Inr (st\<lparr>requirement_table := requirement_table st @ [r], next_requirement := next_requirement st + 1\<rparr>))"

definition opened_row :: "uuid \<Rightarrow> nat \<Rightarrow> nat \<Rightarrow> string \<Rightarrow> requirement_evaluation \<Rightarrow> instant \<Rightarrow> requirement_row" where
  "opened_row i d n k e t =
     \<lparr>rq_id = n, rq_key = k, rq_incident = i, rq_diagnosis = d, rq_hypothesis = the (eval_key e), rq_rule = eval_rule e,
      rq_version = eval_version e, rq_kind = eval_kind e, rq_targets = map target_document (eval_targets e),
      rq_not_before = t, rq_state = REQUIREMENT_OPEN\<rparr>"

fun open_rows ::
  "uuid \<Rightarrow> nat \<Rightarrow> string list \<Rightarrow> (string \<times> requirement_evaluation) list \<Rightarrow> diagnosis_store \<Rightarrow> diagnosis_store result"
where
  "open_rows i d still [] st = Inr st"
| "open_rows i d still ((k, e) # es) st =
     (case pending_result e of
        None \<Rightarrow> open_rows i d still es st
      | Some t \<Rightarrow>
          if k \<in> set still then open_rows i d still es st
          else and_then (insert_requirement (opened_row i d (next_requirement st) k e t) st) (open_rows i d still es))"

definition apply_revision ::
  "(json \<Rightarrow> string) \<Rightarrow> uuid \<Rightarrow> nat \<Rightarrow> diagnosis_document \<Rightarrow> diagnosis_store \<Rightarrow> diagnosis_store result" where
  "apply_revision digest i d doc st =
     and_then (current_evaluations digest i (filter (unique_key doc) (evaluations doc)) []) (\<lambda>current.
       let rows = map (settle_row i doc current) (requirement_table st);
           still = map rq_key (filter (\<lambda>r. rq_incident r = i \<and> is_open r) rows)
       in open_rows i d still current (st\<lparr>requirement_table := rows\<rparr>))"

section \<open>Storing a revision\<close>

definition DIAGNOSIS_TRIGGERS :: "string list" where
  "DIAGNOSIS_TRIGGERS = [''INITIAL'', ''MANUAL'', ''EVIDENCE_DEADLINE'', ''LEGACY'', ''ALERT_REFIRED'', ''RESOLVED'']"

definition latest_revision :: "uuid \<Rightarrow> diagnosis_store \<Rightarrow> diagnosis_row option" where
  "latest_revision i st = max_by dg_revision (filter (\<lambda>d. dg_incident d = i) (diagnosis_table st))"

definition revision_row ::
  "uuid \<Rightarrow> string \<Rightarrow> instant \<Rightarrow> diagnosis_document \<Rightarrow> diagnosis_row option \<Rightarrow> nat \<Rightarrow> diagnosis_row" where
  "revision_row i trig w doc previous n =
     \<lparr>dg_id = n, dg_incident = i,
      dg_revision = (case previous of None \<Rightarrow> 1 | Some p \<Rightarrow> dg_revision p + 1),
      dg_previous = map_option dg_id previous, dg_trigger = trig, dg_window_end = Some w, dg_document = doc\<rparr>"

text \<open>The flush of a new revision: its number must be free; the identifiers are the database's.\<close>

definition insert_revision :: "diagnosis_row \<Rightarrow> diagnosis_store \<Rightarrow> diagnosis_store result" where
  "insert_revision r st =
     (if list_ex (\<lambda>d. dg_incident d = dg_incident r \<and> dg_revision d = dg_revision r) (diagnosis_table st)
      then Inl (IntegrityError ''uq_diagnosis_incident_revision'')
      else Inr (st\<lparr>diagnosis_table := diagnosis_table st @ [r], next_diagnosis := next_diagnosis st + 1\<rparr>))"

fun revision_attempts ::
  "(nat \<Rightarrow> diagnosis_store \<Rightarrow> diagnosis_store) \<Rightarrow> (json \<Rightarrow> string) \<Rightarrow> uuid \<Rightarrow> string \<Rightarrow> instant \<Rightarrow> diagnosis_document
   \<Rightarrow> nat \<Rightarrow> diagnosis_store \<Rightarrow> diagnosis_row result \<times> diagnosis_store" where
  "revision_attempts env digest i trig w doc 0 st = (Inl AssertionError, st)"
| "revision_attempts env digest i trig w doc (Suc n) st =
     (if \<not> list_ex (\<lambda>x. incident_id x = i) (incident_table st) then (Inl (LookupError ''incident''), st)
      else let previous = latest_revision i st; st1 = env n st; r = revision_row i trig w doc previous (next_diagnosis st1)
      in case insert_revision r st1 of
           Inl e \<Rightarrow> if n = 0 then (Inl e, st1) else revision_attempts env digest i trig w doc n st1
         | Inr st2 \<Rightarrow>
             (case apply_revision digest i (dg_id r) doc st2 of
                Inl e \<Rightarrow> (Inl e, st1)
              | Inr st3 \<Rightarrow> (Inr r, st3)))"

definition REVISION_ATTEMPTS :: nat where
  "REVISION_ATTEMPTS = 4"

definition save_revision ::
  "(nat \<Rightarrow> diagnosis_store \<Rightarrow> diagnosis_store) \<Rightarrow> (json \<Rightarrow> string) \<Rightarrow> uuid \<Rightarrow> string \<Rightarrow> instant \<Rightarrow> diagnosis_document
   \<Rightarrow> diagnosis_store \<Rightarrow> diagnosis_row result \<times> diagnosis_store" where
  "save_revision env digest i trig w doc st =
     (if trig \<notin> set DIAGNOSIS_TRIGGERS \<or> trig = ''LEGACY'' then (Inl (ValueError ''not a revision trigger''), st)
      else revision_attempts env digest i trig w doc REVISION_ATTEMPTS st)"

definition revision_count :: "uuid \<Rightarrow> diagnosis_store \<Rightarrow> nat" where
  "revision_count i st = length (filter (\<lambda>d. dg_incident d = i) (diagnosis_table st))"

definition EVIDENCE_DEADLINE :: string where
  "EVIDENCE_DEADLINE = ''EVIDENCE_DEADLINE''"

definition deadline_consumed :: "uuid \<Rightarrow> nat \<Rightarrow> instant \<Rightarrow> diagnosis_store \<Rightarrow> bool" where
  "deadline_consumed i after t st \<longleftrightarrow>
     list_ex (\<lambda>d. dg_incident d = i \<and> dg_trigger d = EVIDENCE_DEADLINE \<and> after < dg_id d
        \<and> (case dg_window_end d of None \<Rightarrow> False | Some w \<Rightarrow> t \<le> w)) (diagnosis_table st)"

section \<open>A run of the diagnosis service\<close>

text \<open>
  What a run stores: the window of an incident in a terminal state ends at its last transition, that of
  another one now. What the engine concludes from the evidence of that window is the argument \<open>engine\<close>.
\<close>

definition TERMINAL_STATUSES :: "incident_status list" where
  "TERMINAL_STATUSES = [incident_status.RESOLVED, CLOSED, FAILED]"

definition run_window :: "incident \<Rightarrow> instant \<Rightarrow> instant" where
  "run_window x now = (if status x \<in> set TERMINAL_STATUSES then updated_at x else now)"

definition diagnose ::
  "(json \<Rightarrow> string) \<Rightarrow> (uuid \<Rightarrow> instant \<Rightarrow> diagnosis_document result) \<Rightarrow> instant \<Rightarrow> uuid \<Rightarrow> string \<Rightarrow> diagnosis_store
   \<Rightarrow> diagnosis_row result \<times> diagnosis_store" where
  "diagnose digest engine now i trig st =
     (if trig \<notin> set DIAGNOSIS_TRIGGERS \<or> trig = ''LEGACY'' then (Inl (ValueError ''not a revision trigger''), st)
      else case find (\<lambda>x. incident_id x = i) (incident_table st) of
             None \<Rightarrow> (Inl (LookupError ''incident''), st)
           | Some x \<Rightarrow>
               (case engine i (run_window x now) of
                  Inl e \<Rightarrow> (Inl e, st)
                | Inr doc \<Rightarrow> save_revision (\<lambda>_. id) digest i trig (run_window x now) doc st))"

section \<open>The deadline scheduler\<close>

record reevaluation_config =
  settle_delay :: duration
  max_revisions :: nat
  horizon :: duration

record scheduler_pass =
  expired :: "nat list"
  triggered :: "uuid list"
  at_max_revisions :: "uuid list"
  failed :: "uuid list"

definition open_requirements :: "diagnosis_store \<Rightarrow> requirement_row list" where
  "open_requirements st = sort_key (\<lambda>r. (rq_incident r, rq_id r)) (filter is_open (requirement_table st))"

definition opening_onset :: "diagnosis_store \<Rightarrow> requirement_row \<Rightarrow> instant result" where
  "opening_onset st r =
     (case find (\<lambda>d. dg_id d = rq_diagnosis r) (diagnosis_table st) of
        None \<Rightarrow> Inl (RuntimeError ''opening revision is missing for its incident'')
      | Some d \<Rightarrow>
          if dg_incident d \<noteq> rq_incident r then Inl (RuntimeError ''opening revision is missing for its incident'')
          else (case document_onset (dg_document d) of
                  None \<Rightarrow> Inl (RuntimeError ''opening revision has no readable symptoms'')
                | Some None \<Rightarrow> Inl (RuntimeError ''opening revision has no onset'')
                | Some (Some t) \<Rightarrow> Inr t))"

definition expire :: "nat list \<Rightarrow> diagnosis_store \<Rightarrow> diagnosis_store" where
  "expire ids st =
     st\<lparr>requirement_table :=
       map (\<lambda>r. if rq_id r \<in> set ids \<and> is_open r then r\<lparr>rq_state := EXPIRED\<rparr> else r) (requirement_table st)\<rparr>"

definition due_now :: "reevaluation_config \<Rightarrow> instant \<Rightarrow> diagnosis_store \<Rightarrow> requirement_row \<Rightarrow> bool" where
  "due_now cfg now st r \<longleftrightarrow>
     rq_not_before r + settle_delay cfg \<le> now
     \<and> \<not> deadline_consumed (rq_incident r) (rq_diagnosis r) (rq_not_before r) st"

fun trigger_all ::
  "(uuid \<Rightarrow> string \<Rightarrow> diagnosis_store \<Rightarrow> diagnosis_row result \<times> diagnosis_store) \<Rightarrow> uuid list \<Rightarrow> diagnosis_store
   \<Rightarrow> (uuid list \<times> uuid list) \<times> diagnosis_store" where
  "trigger_all run [] st = (([], []), st)"
| "trigger_all run (i # is) st =
     (case run i EVIDENCE_DEADLINE st of
        (Inl _, st1) \<Rightarrow> (case trigger_all run is st1 of ((ok, no), st2) \<Rightarrow> ((ok, i # no), st2))
      | (Inr _, st1) \<Rightarrow> (case trigger_all run is st1 of ((ok, no), st2) \<Rightarrow> ((i # ok, no), st2)))"

definition run_scheduler_pass ::
  "reevaluation_config \<Rightarrow> instant \<Rightarrow> (uuid \<Rightarrow> string \<Rightarrow> diagnosis_store \<Rightarrow> diagnosis_row result \<times> diagnosis_store)
   \<Rightarrow> diagnosis_store \<Rightarrow> (scheduler_pass \<times> diagnosis_store) result" where
  "run_scheduler_pass cfg now run st =
     (let rows = open_requirements st in
      and_then (traverse (\<lambda>r. and_then (opening_onset st r) (\<lambda>t. Inr (r, t))) rows) (\<lambda>horizons.
        let old = map (rq_id \<circ> fst) (filter (\<lambda>(_, t). t + horizon cfg \<le> now) horizons);
            st1 = expire old st;
            due = dedup (map rq_incident (filter (\<lambda>r. rq_id r \<notin> set old \<and> due_now cfg now st1 r) rows));
            full = (\<lambda>i. max_revisions cfg \<le> revision_count i st1)
        in case trigger_all run (filter (Not \<circ> full) due) st1 of
             ((ok, no), st2) \<Rightarrow>
               Inr (\<lparr>expired = old, triggered = ok, at_max_revisions = filter full due, failed = no\<rparr>, st2)))"

end
