(* ===== verification/Requirements_Correct.thy ===== *)
theory Requirements_Correct
  imports Requirements
begin

text \<open>
  What the requirement tables keep: revisions numbered without a gap and linked to their predecessor, at most one
  open requirement of a key, closed ones never reopened, whatever other sessions commit in between. What a
  revision leaves open, what a pass of the scheduler does, and when repeating it does nothing.
\<close>

section \<open>The tables\<close>

definition revisions_ok :: "diagnosis_row list \<Rightarrow> bool" where
  "revisions_ok ds \<longleftrightarrow> distinct (map dg_id ds)
     \<and> (\<forall>i. map dg_revision (filter (\<lambda>d. dg_incident d = i) ds) = [1..<Suc (length (filter (\<lambda>d. dg_incident d = i) ds))])
     \<and> (\<forall>d\<in>set ds. case dg_previous d of
          None \<Rightarrow> dg_revision d = 1
        | Some p \<Rightarrow> \<exists>q\<in>set ds. dg_id q = p \<and> dg_incident q = dg_incident d \<and> dg_revision d = Suc (dg_revision q))"

definition requirement_rows_ok :: "diagnosis_row list \<Rightarrow> requirement_row list \<Rightarrow> bool" where
  "requirement_rows_ok ds rs \<longleftrightarrow> distinct (map rq_id rs) \<and> distinct (map rq_key (filter is_open rs))
     \<and> (\<forall>r\<in>set rs. \<exists>d\<in>set ds. dg_id d = rq_diagnosis r \<and> dg_incident d = rq_incident r)"

definition tables_ok :: "diagnosis_store \<Rightarrow> bool" where
  "tables_ok st \<longleftrightarrow> revisions_ok (diagnosis_table st) \<and> requirement_rows_ok (diagnosis_table st) (requirement_table st)
     \<and> (\<forall>d\<in>set (diagnosis_table st). dg_id d < next_diagnosis st)
     \<and> (\<forall>r\<in>set (requirement_table st). rq_id r < next_requirement st)"

text \<open>Rows are only added; of a requirement only its state changes, and only while it is open.\<close>

definition store_advances :: "diagnosis_store \<Rightarrow> diagnosis_store \<Rightarrow> bool" where
  "store_advances st st' \<longleftrightarrow>
     (\<exists>ds. diagnosis_table st' = diagnosis_table st @ ds \<and> (\<forall>d\<in>set ds. next_diagnosis st \<le> dg_id d))
     \<and> next_diagnosis st \<le> next_diagnosis st'
     \<and> (\<forall>r\<in>set (requirement_table st). \<exists>s. r\<lparr>rq_state := s\<rparr> \<in> set (requirement_table st') \<and> (is_open r \<or> s = rq_state r))"

lemma store_advances_refl: "store_advances st st"
proof -
  have "\<exists>s. r\<lparr>rq_state := s\<rparr> \<in> set (requirement_table st) \<and> (is_open r \<or> s = rq_state r)"
    if "r \<in> set (requirement_table st)" for r
    using that by (intro exI [of _ "rq_state r"]) simp
  then show ?thesis by (simp add: store_advances_def)
qed

lemma open_update: "is_open (r\<lparr>rq_state := s\<rparr>) \<longleftrightarrow> s = REQUIREMENT_OPEN"
  by (simp add: is_open_def)

lemma store_advances_trans:
  assumes ab: "store_advances a b" and bc: "store_advances b c"
  shows "store_advances a c"
proof -
  have "\<exists>u. r\<lparr>rq_state := u\<rparr> \<in> set (requirement_table c) \<and> (is_open r \<or> u = rq_state r)"
    if r: "r \<in> set (requirement_table a)" for r
  proof -
    obtain s where s: "r\<lparr>rq_state := s\<rparr> \<in> set (requirement_table b)" "is_open r \<or> s = rq_state r"
      using ab r by (auto simp: store_advances_def)
    obtain u where "r\<lparr>rq_state := s\<rparr>\<lparr>rq_state := u\<rparr> \<in> set (requirement_table c)" "is_open (r\<lparr>rq_state := s\<rparr>) \<or> u = s"
      using bc s(1) by (fastforce simp: store_advances_def)
    with s(2) show ?thesis by (auto simp: is_open_def)
  qed
  moreover obtain ds es where "diagnosis_table b = diagnosis_table a @ ds" "\<forall>d\<in>set ds. next_diagnosis a \<le> dg_id d"
    "diagnosis_table c = diagnosis_table b @ es" "\<forall>d\<in>set es. next_diagnosis b \<le> dg_id d"
    using ab bc by (auto simp: store_advances_def)
  ultimately show ?thesis
    using ab bc by (auto simp: store_advances_def)
qed

lemma store_advances_diagnoses: "store_advances a b \<Longrightarrow> set (diagnosis_table a) \<subseteq> set (diagnosis_table b)"
  by (auto simp: store_advances_def)

section \<open>Requirements of a revision\<close>

lemma current_evaluations_Inr:
  assumes "current_evaluations digest i es d = Inr cur" "distinct (map fst d)"
    "\<forall>k e. map_of d k = Some e \<longrightarrow> requirement_key digest i e = Inr k"
  shows "distinct (map fst cur)
    \<and> (\<forall>k e. map_of cur k = Some e \<longleftrightarrow> map_of d k = Some e \<or> e \<in> set es \<and> requirement_key digest i e = Inr k)"
  using assms
proof (induction digest i es d rule: current_evaluations.induct)
  case (1 digest i d)
  then show ?case by simp
next
  case (2 digest i e es d)
  then obtain k where k: "requirement_key digest i e = Inr k" by auto
  show ?case
  proof (cases "map_of d k")
    case None
    have new: "map_of (d @ [(k, e)]) j = (if j = k then Some e else map_of d j)" for j
      using None by (auto simp: map_add_def split: option.split)
    have cur: "current_evaluations digest i es (d @ [(k, e)]) = Inr cur"
      using "2.prems"(1) k None by simp
    have "distinct (map fst (d @ [(k, e)]))"
      using "2.prems"(2) None by (simp add: map_of_eq_None_iff)
    moreover have "\<forall>j x. map_of (d @ [(k, e)]) j = Some x \<longrightarrow> requirement_key digest i x = Inr j"
      unfolding new using "2.prems"(3) k by simp
    ultimately have "distinct (map fst cur) \<and> (\<forall>j x. map_of cur j = Some x \<longleftrightarrow>
        (if j = k then Some e else map_of d j) = Some x \<or> x \<in> set es \<and> requirement_key digest i x = Inr j)"
      using "2.IH"(1) [OF None cur] unfolding new by blast
    then show ?thesis using k None by auto
  next
    case (Some x)
    then have "x = e" "current_evaluations digest i es d = Inr cur" using "2.prems"(1) k by (auto split: if_splits)
    with "2.IH"(2) [OF Some] "2.prems"(2,3) Some k show ?thesis by auto
  qed
qed

lemma current_iff:
  assumes "current_evaluations digest i es [] = Inr cur"
  shows "distinct (map fst cur)" "map_of cur k = Some e \<longleftrightarrow> e \<in> set es \<and> requirement_key digest i e = Inr k"
  using current_evaluations_Inr [OF assms] by auto

lemma insert_requirement_Inr:
  "insert_requirement r st = Inr st' \<longleftrightarrow>
     \<not> (\<exists>q\<in>set (requirement_table st). is_open q \<and> rq_key q = rq_key r)
     \<and> (\<exists>d\<in>set (diagnosis_table st). dg_id d = rq_diagnosis r)
     \<and> st' = st\<lparr>requirement_table := requirement_table st @ [r], next_requirement := next_requirement st + 1\<rparr>"
  by (auto simp: insert_requirement_def list_ex_iff)

lemma opened_row_simps [simp]:
  "rq_id (opened_row i d n k e t) = n" "rq_key (opened_row i d n k e t) = k" "rq_incident (opened_row i d n k e t) = i"
  "rq_diagnosis (opened_row i d n k e t) = d" "is_open (opened_row i d n k e t)"
  "rq_not_before (opened_row i d n k e t) = t"
  by (simp_all add: opened_row_def is_open_def)

text \<open>The rows a revision opens, after those it found.\<close>

definition opens :: "uuid \<Rightarrow> nat \<Rightarrow> string list \<Rightarrow> (string \<times> requirement_evaluation) list \<Rightarrow> requirement_row list \<Rightarrow> bool" where
  "opens i d still es rs \<longleftrightarrow>
     (\<forall>r\<in>set rs. is_open r \<and> rq_incident r = i \<and> rq_diagnosis r = d
        \<and> (\<exists>e. (rq_key r, e) \<in> set es \<and> pending_result e = Some (rq_not_before r)))
     \<and> (\<forall>(k, e)\<in>set es. pending_result e \<noteq> None \<longrightarrow> k \<notin> set still \<longrightarrow> k \<in> rq_key ` set rs)"

lemma open_rows_Inr:
  assumes "open_rows i d still es st = Inr st'" "tables_ok st" "\<exists>x\<in>set (diagnosis_table st). dg_id x = d \<and> dg_incident x = i"
  shows "\<exists>rs. requirement_table st' = requirement_table st @ rs \<and> opens i d still es rs \<and> tables_ok st'
    \<and> diagnosis_table st' = diagnosis_table st \<and> incident_table st' = incident_table st
    \<and> next_diagnosis st' = next_diagnosis st"
  using assms
proof (induction i d still es st arbitrary: st' rule: open_rows.induct)
  case (1 i d still st)
  then show ?case by (simp add: opens_def)
next
  case (2 i d still k e es st)
  show ?case
  proof (cases "pending_result e = None \<or> k \<in> set still")
    case True
    then have "open_rows i d still es st = Inr st'" using "2.prems"(1) by (auto split: option.splits)
    with "2.IH"(1,2) "2.prems"(2,3) True obtain rs where rs: "requirement_table st' = requirement_table st @ rs" "opens i d still es rs"
      "tables_ok st' \<and> diagnosis_table st' = diagnosis_table st \<and> incident_table st' = incident_table st
       \<and> next_diagnosis st' = next_diagnosis st"
      by (cases "pending_result e") auto
    with True show ?thesis by (intro exI [of _ rs]) (auto simp: opens_def)
  next
    case False
    then obtain t where t: "pending_result e = Some t" by auto
    let ?r = "opened_row i d (next_requirement st) k e t"
    obtain st1 where ins: "insert_requirement ?r st = Inr st1" and rest: "open_rows i d still es st1 = Inr st'"
      using "2.prems"(1) False t by auto
    have st1: "st1 = st\<lparr>requirement_table := requirement_table st @ [?r], next_requirement := next_requirement st + 1\<rparr>"
      and free: "\<not> (\<exists>q\<in>set (requirement_table st). is_open q \<and> rq_key q = k)"
      using ins by (auto simp: insert_requirement_Inr)
    have "tables_ok st1"
      using "2.prems"(2,3) free by (auto simp: tables_ok_def requirement_rows_ok_def st1 less_Suc_eq)
    with "2.IH"(3) [OF t _ rest] "2.prems"(3) False obtain rs where rs: "requirement_table st' = requirement_table st1 @ rs"
      "opens i d still es rs" "tables_ok st' \<and> diagnosis_table st' = diagnosis_table st1
       \<and> incident_table st' = incident_table st1 \<and> next_diagnosis st' = next_diagnosis st1"
      by (auto simp: st1)
    with t show ?thesis
      by (intro exI [of _ "?r # rs"]) (auto simp: opens_def st1)
  qed
qed

lemma settle_row_simps [simp]:
  "rq_id (settle_row i doc cur r) = rq_id r" "rq_key (settle_row i doc cur r) = rq_key r"
  "rq_incident (settle_row i doc cur r) = rq_incident r" "rq_diagnosis (settle_row i doc cur r) = rq_diagnosis r"
  "rq_hypothesis (settle_row i doc cur r) = rq_hypothesis r" "rq_not_before (settle_row i doc cur r) = rq_not_before r"
  "is_open (settle_row i doc cur r) \<longleftrightarrow>
     is_open r \<and> (rq_incident r = i \<longrightarrow> settled_state doc cur r = REQUIREMENT_OPEN)"
  by (auto simp: settle_row_def is_open_def)

lemma settle_row_update:
  "settle_row i doc cur r = r\<lparr>rq_state := rq_state (settle_row i doc cur r)\<rparr>"
  "\<not> is_open r \<Longrightarrow> settle_row i doc cur r = r"
  by (simp_all add: settle_row_def)

lemma open_settled: "is_open (settle_row i doc cur r) \<Longrightarrow> settle_row i doc cur r = r"
  by (cases "rq_incident r = i") (auto simp: settle_row_def is_open_def)

lemma distinct_keys_filter:
  assumes "distinct (map f (filter P xs))" "\<And>x. Q x \<Longrightarrow> P x"
  shows "distinct (map f (filter Q xs))"
  using assms by (induction xs) (auto split: if_splits)

text \<open>What a revision writes: the settled rows, and after them the rows it opens.\<close>

lemma apply_revision_Inr:
  assumes run: "apply_revision digest i d doc st = Inr st'" and ok: "tables_ok st"
    and d: "\<exists>x\<in>set (diagnosis_table st). dg_id x = d \<and> dg_incident x = i"
  obtains cur rs where "current_evaluations digest i (filter (unique_key doc) (evaluations doc)) [] = Inr cur"
    "requirement_table st' = map (settle_row i doc cur) (requirement_table st) @ rs"
    "opens i d (map rq_key (filter (\<lambda>r. rq_incident r = i \<and> is_open r) (map (settle_row i doc cur) (requirement_table st)))) cur rs"
    "tables_ok st'" "diagnosis_table st' = diagnosis_table st" "incident_table st' = incident_table st"
    "next_diagnosis st' = next_diagnosis st"
proof -
  obtain cur where cur: "current_evaluations digest i (filter (unique_key doc) (evaluations doc)) [] = Inr cur"
    using run by (auto simp: apply_revision_def)
  let ?rows = "map (settle_row i doc cur) (requirement_table st)"
  let ?still = "map rq_key (filter (\<lambda>r. rq_incident r = i \<and> is_open r) ?rows)"
  have "open_rows i d ?still cur (st\<lparr>requirement_table := ?rows\<rparr>) = Inr st'"
    using run cur by (simp add: apply_revision_def Let_def)
  moreover have "tables_ok (st\<lparr>requirement_table := ?rows\<rparr>)"
  proof -
    have "distinct (map rq_key (filter is_open ?rows))"
    proof -
      have "distinct (map rq_key (filter is_open (requirement_table st)))"
        using ok unfolding tables_ok_def requirement_rows_ok_def by blast
      then have "distinct (map rq_key (filter (\<lambda>r. is_open (settle_row i doc cur r)) (requirement_table st)))"
        by (rule distinct_keys_filter) simp
      then show ?thesis unfolding filter_map map_map comp_def settle_row_simps(2) .
    qed
    moreover have "distinct (map rq_id ?rows)"
      using ok by (simp add: tables_ok_def requirement_rows_ok_def comp_def)
    ultimately show ?thesis using ok by (auto simp: tables_ok_def requirement_rows_ok_def)
  qed
  ultimately show thesis
    using open_rows_Inr [of i d ?still cur "st\<lparr>requirement_table := ?rows\<rparr>" st'] d cur by (auto intro: that)
qed

lemma settled_store_advances:
  assumes "requirement_table st' = map (settle_row i doc cur) (requirement_table st) @ rs"
    "diagnosis_table st' = diagnosis_table st" "incident_table st' = incident_table st" "next_diagnosis st' = next_diagnosis st"
  shows "store_advances st st'"
proof -
  have "\<exists>s. r\<lparr>rq_state := s\<rparr> \<in> set (requirement_table st') \<and> (is_open r \<or> s = rq_state r)"
    if "r \<in> set (requirement_table st)" for r
  proof (intro exI [of _ "rq_state (settle_row i doc cur r)"] conjI)
    show "r\<lparr>rq_state := rq_state (settle_row i doc cur r)\<rparr> \<in> set (requirement_table st')"
      using that settle_row_update(1) [of i doc cur r] assms(1) by (auto simp: image_iff)
    show "is_open r \<or> rq_state (settle_row i doc cur r) = rq_state r" using settle_row_update(2) by metis
  qed
  with assms(2-) show ?thesis by (simp add: store_advances_def)
qed

section \<open>Revisions\<close>

lemma latest_revision_length:
  assumes "revisions_ok (diagnosis_table st)"
  shows "(case latest_revision i st of
      None \<Rightarrow> revision_count i st = 0
    | Some p \<Rightarrow> p \<in> set (diagnosis_table st) \<and> dg_incident p = i \<and> dg_revision p = revision_count i st)"
proof (cases "latest_revision i st")
  case None
  then show ?thesis by (simp add: latest_revision_def max_by_None revision_count_def)
next
  case (Some p)
  let ?own = "filter (\<lambda>d. dg_incident d = i) (diagnosis_table st)"
  have p: "p \<in> set ?own" "\<forall>d\<in>set ?own. dg_revision d \<le> dg_revision p"
    using max_by_Some [OF Some [unfolded latest_revision_def]] by auto
  have nums: "map dg_revision ?own = [1..<Suc (length ?own)]" using assms by (simp add: revisions_ok_def)
  then have "set (map dg_revision ?own) = {1..length ?own}" by (simp only: set_upt atLeastLessThanSuc_atLeastAtMost)
  moreover have "?own \<noteq> []" using p(1) by (metis empty_iff empty_set)
  moreover have "dg_revision p \<in> set (map dg_revision ?own)" using p(1) by auto
  ultimately have "length ?own \<in> set (map dg_revision ?own)" "dg_revision p \<le> length ?own"
    by (simp_all add: Suc_le_eq)
  with p(2) have "dg_revision p = length ?own" by fastforce
  with p(1) Some show ?thesis by (simp add: revision_count_def)
qed

lemma insert_revision_Inr:
  "insert_revision r st = Inr st' \<longleftrightarrow>
     \<not> (\<exists>d\<in>set (diagnosis_table st). dg_incident d = dg_incident r \<and> dg_revision d = dg_revision r)
     \<and> st' = st\<lparr>diagnosis_table := diagnosis_table st @ [r], next_diagnosis := next_diagnosis st + 1\<rparr>"
  by (auto simp: insert_revision_def list_ex_iff)

lemma revision_row_simps [simp]:
  "dg_id (revision_row i trig w doc p n) = n" "dg_incident (revision_row i trig w doc p n) = i"
  "dg_trigger (revision_row i trig w doc p n) = trig" "dg_window_end (revision_row i trig w doc p n) = Some w"
  "dg_document (revision_row i trig w doc p n) = doc"
  by (simp_all add: revision_row_def)

text \<open>A number read before others committed is accepted only when they stored no revision of the incident.\<close>

lemma insert_revision_ok:
  assumes ok: "tables_ok st" and ok1: "tables_ok st1" and adv: "store_advances st st1"
    and ins: "insert_revision (revision_row i trig w doc (latest_revision i st) (next_diagnosis st1)) st1 = Inr st2"
  shows "tables_ok st2 \<and> store_advances st1 st2
    \<and> diagnosis_table st2 = diagnosis_table st1 @ [revision_row i trig w doc (latest_revision i st) (next_diagnosis st1)]
    \<and> dg_revision (revision_row i trig w doc (latest_revision i st) (next_diagnosis st1)) = Suc (revision_count i st1)
    \<and> requirement_table st2 = requirement_table st1"
proof -
  let ?p = "latest_revision i st" and ?n = "next_diagnosis st1"
  let ?r = "revision_row i trig w doc ?p ?n" and ?c = "revision_count i st" and ?c1 = "revision_count i st1"
  have st2: "st2 = st1\<lparr>diagnosis_table := diagnosis_table st1 @ [?r], next_diagnosis := ?n + 1\<rparr>"
    and free: "\<not> (\<exists>d\<in>set (diagnosis_table st1). dg_incident d = i \<and> dg_revision d = dg_revision ?r)"
    using ins by (auto simp: insert_revision_Inr)
  obtain ds where ds: "diagnosis_table st1 = diagnosis_table st @ ds" using adv by (auto simp: store_advances_def)
  have rev: "dg_revision ?r = Suc ?c"
    using latest_revision_length [of st i] ok by (auto simp: revision_row_def tables_ok_def split: option.splits)
  have nums: "map dg_revision (filter (\<lambda>d. dg_incident d = i) (diagnosis_table st1)) = [1..<Suc ?c1]"
    using ok1 by (simp add: tables_ok_def revisions_ok_def revision_count_def)
  have "\<not> Suc ?c \<le> ?c1"
  proof
    assume le: "Suc ?c \<le> ?c1"
    then have "Suc ?c \<in> set (map dg_revision (filter (\<lambda>d. dg_incident d = i) (diagnosis_table st1)))"
      unfolding nums by (simp only: set_upt atLeastLessThan_iff) simp
    with free rev show False by auto
  qed
  moreover have "?c \<le> ?c1" by (simp add: revision_count_def ds)
  ultimately have c: "?c1 = ?c" by simp
  have prev: "(case dg_previous ?r of
        None \<Rightarrow> dg_revision ?r = 1
      | Some p \<Rightarrow> \<exists>q\<in>set (diagnosis_table st1). dg_id q = p \<and> dg_incident q = i \<and> dg_revision ?r = Suc (dg_revision q))"
    using latest_revision_length [of st i] ok ds by (auto simp: revision_row_def tables_ok_def split: option.splits)
  have "revisions_ok (diagnosis_table st1 @ [?r])"
  proof -
    have "map dg_revision (filter (\<lambda>d. dg_incident d = j) (diagnosis_table st1 @ [?r]))
        = [1..<Suc (length (filter (\<lambda>d. dg_incident d = j) (diagnosis_table st1 @ [?r])))]" for j
      using ok1 nums rev c by (auto simp: tables_ok_def revisions_ok_def revision_count_def)
    moreover have "distinct (map dg_id (diagnosis_table st1 @ [?r]))"
      using ok1 by (auto simp: tables_ok_def revisions_ok_def)
    moreover have "case dg_previous x of None \<Rightarrow> dg_revision x = 1
        | Some p \<Rightarrow> \<exists>q\<in>set (diagnosis_table st1 @ [?r]). dg_id q = p \<and> dg_incident q = dg_incident x \<and> dg_revision x = Suc (dg_revision q)"
      if "x \<in> set (diagnosis_table st1)" for x
      using ok1 that by (fastforce simp: tables_ok_def revisions_ok_def split: option.splits)
    ultimately show ?thesis
      using prev by (auto simp: revisions_ok_def split: option.splits)
  qed
  moreover have "requirement_rows_ok (diagnosis_table st1 @ [?r]) (requirement_table st1)"
    using ok1 by (auto simp: tables_ok_def requirement_rows_ok_def)
  ultimately show ?thesis
    using ok1 rev c store_advances_refl [of st1] by (auto simp: tables_ok_def st2 store_advances_def less_Suc_eq)
qed

definition other_sessions :: "(nat \<Rightarrow> diagnosis_store \<Rightarrow> diagnosis_store) \<Rightarrow> bool" where
  "other_sessions env \<longleftrightarrow> (\<forall>n st. tables_ok st \<longrightarrow> tables_ok (env n st) \<and> store_advances st (env n st))"

text \<open>A stored revision, with what it did to the requirements; a failure leaves what the others committed.\<close>

definition stored :: "(json \<Rightarrow> string) \<Rightarrow> uuid \<Rightarrow> string \<Rightarrow> instant \<Rightarrow> diagnosis_document \<Rightarrow> diagnosis_store
    \<Rightarrow> diagnosis_row \<Rightarrow> diagnosis_store \<Rightarrow> bool" where
  "stored digest i trig w doc st1 r st' \<longleftrightarrow>
     dg_id r = next_diagnosis st1 \<and> dg_incident r = i \<and> dg_trigger r = trig \<and> dg_window_end r = Some w
     \<and> dg_document r = doc \<and> dg_revision r = Suc (revision_count i st1)
     \<and> diagnosis_table st' = diagnosis_table st1 @ [r]
     \<and> (\<exists>cur rs. current_evaluations digest i (filter (unique_key doc) (evaluations doc)) [] = Inr cur
          \<and> requirement_table st' = map (settle_row i doc cur) (requirement_table st1) @ rs
          \<and> opens i (dg_id r) (map rq_key (filter (\<lambda>q. rq_incident q = i \<and> is_open q)
              (map (settle_row i doc cur) (requirement_table st1)))) cur rs)"

lemma stored_revision:
  assumes ok: "tables_ok st" and ok1: "tables_ok st1" and adv: "store_advances st st1"
    and ins: "insert_revision (revision_row i trig w doc (latest_revision i st) (next_diagnosis st1)) st1 = Inr st2"
    and ap: "apply_revision digest i (next_diagnosis st1) doc st2 = Inr st3"
  shows "stored digest i trig w doc st1 (revision_row i trig w doc (latest_revision i st) (next_diagnosis st1)) st3
    \<and> tables_ok st3 \<and> store_advances st1 st3 \<and> incident_table st3 = incident_table st1"
proof -
  let ?r = "revision_row i trig w doc (latest_revision i st) (next_diagnosis st1)"
  note new = insert_revision_ok [OF ok ok1 adv ins]
  then have "\<exists>x\<in>set (diagnosis_table st2). dg_id x = next_diagnosis st1 \<and> dg_incident x = i" by simp
  from apply_revision_Inr [OF ap _ this] new obtain cur rs where
    cur: "current_evaluations digest i (filter (unique_key doc) (evaluations doc)) [] = Inr cur"
    and rs: "requirement_table st3 = map (settle_row i doc cur) (requirement_table st2) @ rs"
    "opens i (next_diagnosis st1) (map rq_key (filter (\<lambda>r. rq_incident r = i \<and> is_open r)
       (map (settle_row i doc cur) (requirement_table st2)))) cur rs"
    and st3: "tables_ok st3" "diagnosis_table st3 = diagnosis_table st2" "incident_table st3 = incident_table st2"
    "next_diagnosis st3 = next_diagnosis st2"
    by blast
  have "store_advances st2 st3" using settled_store_advances [OF rs(1) st3(2,3,4)] .
  then have "store_advances st1 st3" using new store_advances_trans by blast
  moreover have "incident_table st2 = incident_table st1" using ins by (auto simp: insert_revision_Inr)
  ultimately show ?thesis
    using new cur rs st3 unfolding stored_def by auto
qed

lemma revision_attempts_ok:
  assumes env: "other_sessions env" and run: "revision_attempts env digest i trig w doc n st = (res, st')"
    and ok: "tables_ok st"
  shows "tables_ok st' \<and> store_advances st st'
    \<and> (\<forall>r. res = Inr r \<longrightarrow> (\<exists>st1. store_advances st st1 \<and> stored digest i trig w doc st1 r st'))"
  using run ok
proof (induction n arbitrary: st)
  case 0
  then show ?case by (auto simp: store_advances_refl)
next
  case (Suc n)
  let ?st1 = "env n st" and ?r = "revision_row i trig w doc (latest_revision i st) (next_diagnosis (env n st))"
  have ok1: "tables_ok ?st1" "store_advances st ?st1" using env Suc.prems(2) by (auto simp: other_sessions_def)
  show ?case
  proof (cases "list_ex (\<lambda>x. incident_id x = i) (incident_table st)")
    case False
    then show ?thesis using Suc.prems by (auto simp: store_advances_refl)
  next
    case known: True
    show ?thesis
    proof (cases "insert_revision ?r ?st1")
      case (Inl e)
      show ?thesis
      proof (cases "n = 0")
        case True
        then show ?thesis using Suc.prems known Inl ok1 by (auto simp: Let_def)
      next
        case False
        then have "revision_attempts env digest i trig w doc n ?st1 = (res, st')"
          using Suc.prems known Inl by (auto simp: Let_def)
        from Suc.IH [OF this ok1(1)] show ?thesis using ok1(2) store_advances_trans by blast
      qed
    next
      case (Inr st2)
      show ?thesis
      proof (cases "apply_revision digest i (next_diagnosis ?st1) doc st2")
        case (Inl e)
        then show ?thesis using Suc.prems known Inr ok1 by (auto simp: Let_def)
      next
        case (Inr st3)
        note saved = stored_revision [OF Suc.prems(2) ok1 \<open>insert_revision ?r ?st1 = Inr st2\<close> Inr]
        have "res = Inr ?r" "st' = st3"
          using Suc.prems(1) known \<open>insert_revision ?r ?st1 = Inr st2\<close> Inr by (auto simp: Let_def)
        then show ?thesis using saved ok1(2) store_advances_trans by blast
      qed
    qed
  qed
qed

lemma save_revision_ok:
  assumes "other_sessions env" "save_revision env digest i trig w doc st = (res, st')" "tables_ok st"
  shows "tables_ok st' \<and> store_advances st st'
    \<and> (\<forall>r. res = Inr r \<longrightarrow> (\<exists>st1. store_advances st st1 \<and> stored digest i trig w doc st1 r st'))"
  using assms revision_attempts_ok [OF assms(1), of digest i trig w doc REVISION_ATTEMPTS st res st']
  by (auto simp: save_revision_def store_advances_refl split: if_splits)

section \<open>The service and its scheduler\<close>

text \<open>What the engine leaves pending becomes decidable only after the window it judged.\<close>

definition engine_waits :: "(uuid \<Rightarrow> instant \<Rightarrow> diagnosis_document result) \<Rightarrow> bool" where
  "engine_waits engine \<longleftrightarrow>
     (\<forall>i w doc e t. engine i w = Inr doc \<longrightarrow> e \<in> set (evaluations doc) \<longrightarrow> pending_result e = Some t \<longrightarrow> w < t)"

text \<open>Every open row was there already, or waits for a later time.\<close>

definition opens_later :: "instant \<Rightarrow> diagnosis_store \<Rightarrow> diagnosis_store \<Rightarrow> bool" where
  "opens_later t st st' \<longleftrightarrow> (\<forall>q\<in>set (requirement_table st'). is_open q \<longrightarrow> q \<in> set (requirement_table st) \<or> t < rq_not_before q)"

lemma opens_later_refl: "opens_later t st st"
  by (simp add: opens_later_def)

lemma opens_later_trans: "opens_later t a b \<Longrightarrow> opens_later t b c \<Longrightarrow> opens_later t a c"
  unfolding opens_later_def by blast

lemma stored_opens_later:
  assumes "stored digest i trig w doc st1 r st'" "\<forall>e\<in>set (evaluations doc). \<forall>t. pending_result e = Some t \<longrightarrow> w < t"
  shows "opens_later w st1 st'"
proof -
  obtain cur rs where cur: "current_evaluations digest i (filter (unique_key doc) (evaluations doc)) [] = Inr cur"
    and rows: "requirement_table st' = map (settle_row i doc cur) (requirement_table st1) @ rs"
    and opened: "\<forall>q\<in>set rs. \<exists>e. (rq_key q, e) \<in> set cur \<and> pending_result e = Some (rq_not_before q)"
    using assms(1) unfolding stored_def opens_def by blast
  have "w < rq_not_before q" if q: "q \<in> set rs" for q
  proof -
    obtain e where e: "(rq_key q, e) \<in> set cur" "pending_result e = Some (rq_not_before q)" using opened q by blast
    then have "map_of cur (rq_key q) = Some e" using current_iff(1) [OF cur] by simp
    then have "e \<in> set (evaluations doc)" using current_iff(2) [OF cur] by auto
    with e(2) assms(2) show ?thesis by blast
  qed
  then show ?thesis
    using open_settled unfolding opens_later_def rows by fastforce
qed

lemma no_others: "other_sessions (\<lambda>_. id)"
  by (simp add: other_sessions_def store_advances_refl)

lemma save_revision_alone:
  assumes run: "save_revision (\<lambda>_. id) digest i trig w doc st = (Inr r, st')" and ok: "tables_ok st"
  shows "stored digest i trig w doc st r st' \<and> incident_table st' = incident_table st"
proof -
  have run': "revision_attempts (\<lambda>_. id) digest i trig w doc (Suc 3) st = (Inr r, st')"
    using run by (simp add: save_revision_def REVISION_ATTEMPTS_def eval_nat_numeral split: if_splits)
  let ?r = "revision_row i trig w doc (latest_revision i st) (next_diagnosis st)"
  have free: "\<exists>st2. insert_revision ?r st = Inr st2"
  proof -
    have nums: "map dg_revision (filter (\<lambda>d. dg_incident d = i) (diagnosis_table st)) = [1..<Suc (revision_count i st)]"
      using ok by (simp add: tables_ok_def revisions_ok_def revision_count_def)
    have "dg_revision d \<le> revision_count i st" if "d \<in> set (diagnosis_table st)" "dg_incident d = i" for d
    proof -
      have "dg_revision d \<in> set (map dg_revision (filter (\<lambda>d. dg_incident d = i) (diagnosis_table st)))" using that by auto
      then show ?thesis unfolding nums by (simp only: set_upt atLeastLessThan_iff) simp
    qed
    moreover have "dg_revision ?r = Suc (revision_count i st)"
      using latest_revision_length [of st i] ok by (auto simp: revision_row_def tables_ok_def split: option.splits)
    ultimately show ?thesis by (fastforce simp: insert_revision_Inr)
  qed
  then obtain st2 where ins: "insert_revision ?r st = Inr st2" by blast
  then obtain st3 where ap: "apply_revision digest i (next_diagnosis st) doc st2 = Inr st3" "r = ?r" "st' = st3"
    using run' unfolding revision_attempts.simps(2) by (auto simp: Let_def split: if_splits sum.splits)
  from stored_revision [OF ok ok store_advances_refl ins ap(1)] show ?thesis by (simp add: ap(2,3))
qed

lemma diagnose_ok:
  assumes run: "diagnose digest engine now i trig st = (res, st')" and ok: "tables_ok st"
  shows "tables_ok st' \<and> store_advances st st'"
  using assms save_revision_ok [OF no_others, of digest i trig _ _ st res st']
  by (auto simp: diagnose_def store_advances_refl split: if_splits option.splits sum.splits)

lemma diagnose_stored:
  assumes run: "diagnose digest engine now i trig st = (Inr r, st')" and ok: "tables_ok st"
  obtains x doc where "x \<in> set (incident_table st)" "incident_id x = i" "engine i (run_window x now) = Inr doc"
    "stored digest i trig (run_window x now) doc st r st'" "incident_table st' = incident_table st"
proof -
  obtain x doc where x: "find (\<lambda>x. incident_id x = i) (incident_table st) = Some x" "engine i (run_window x now) = Inr doc"
    and save: "save_revision (\<lambda>_. id) digest i trig (run_window x now) doc st = (Inr r, st')"
    using run by (auto simp: diagnose_def split: if_splits option.splits sum.splits)
  from find_Some_set [OF x(1)] x(2) save_revision_alone [OF save ok] that show thesis by blast
qed

lemma failed_alone: "revision_attempts (\<lambda>_. id) digest i trig w doc n st = (Inl e, st') \<Longrightarrow> st' = st"
  by (induction n) (auto simp: Let_def split: if_splits sum.splits)

lemma diagnose_failed: "diagnose digest engine now i trig st = (Inl e, st') \<Longrightarrow> st' = st"
  using failed_alone by (auto simp: diagnose_def save_revision_def split: if_splits option.splits sum.splits)

lemma diagnose_later:
  assumes run: "diagnose digest engine now i trig st = (res, st')" and ok: "tables_ok st" and waits: "engine_waits engine"
    and live: "\<forall>x\<in>set (incident_table st). status x \<notin> set TERMINAL_STATUSES"
  shows "opens_later now st st' \<and> incident_table st' = incident_table st
    \<and> (\<forall>r. res = Inr r \<longrightarrow> dg_id r = next_diagnosis st \<and> dg_incident r = i \<and> dg_trigger r = trig
          \<and> dg_window_end r = Some now \<and> r \<in> set (diagnosis_table st'))"
proof (cases res)
  case (Inl e)
  have "st' = st" using run Inl diagnose_failed by blast
  then show ?thesis using Inl by (simp add: opens_later_refl)
next
  case (Inr r)
  then obtain x doc where x: "x \<in> set (incident_table st)" "engine i (run_window x now) = Inr doc"
    and s: "stored digest i trig (run_window x now) doc st r st'" "incident_table st' = incident_table st"
    using diagnose_stored [OF run [unfolded Inr] ok] by blast
  have w: "run_window x now = now" using live x(1) by (simp add: run_window_def)
  have "\<forall>e\<in>set (evaluations doc). \<forall>t. pending_result e = Some t \<longrightarrow> now < t"
    using waits x(2) unfolding engine_waits_def w by blast
  from stored_opens_later [OF s(1) [unfolded w] this] s show ?thesis
    using Inr by (auto simp: stored_def w)
qed

lemma expire_ok:
  assumes "tables_ok st"
  shows "tables_ok (expire ids st) \<and> store_advances st (expire ids st) \<and> opens_later t st (expire ids st)
    \<and> incident_table (expire ids st) = incident_table st \<and> diagnosis_table (expire ids st) = diagnosis_table st
    \<and> next_diagnosis (expire ids st) = next_diagnosis st"
proof -
  define f where "f = (\<lambda>r. if rq_id r \<in> set ids \<and> is_open r then r\<lparr>rq_state := EXPIRED\<rparr> else r)"
  have f: "rq_id (f r) = rq_id r" "rq_key (f r) = rq_key r" "rq_diagnosis (f r) = rq_diagnosis r" "rq_incident (f r) = rq_incident r"
    "is_open (f r) \<longleftrightarrow> is_open r \<and> rq_id r \<notin> set ids" "is_open (f r) \<Longrightarrow> f r = r" for r
    by (auto simp: is_open_def f_def)
  have rows: "requirement_table (expire ids st) = map f (requirement_table st)" by (simp add: expire_def f_def)
  have "distinct (map rq_key (filter is_open (requirement_table st)))"
    using assms by (simp add: tables_ok_def requirement_rows_ok_def)
  then have "distinct (map rq_key (filter (\<lambda>r. is_open (f r)) (requirement_table st)))"
    by (rule distinct_keys_filter) (simp add: f)
  then have "distinct (map rq_key (filter is_open (map f (requirement_table st))))"
    unfolding filter_map map_map comp_def f(2) .
  moreover have "distinct (map rq_id (map f (requirement_table st)))"
    using assms unfolding map_map comp_def f(1) by (simp add: tables_ok_def requirement_rows_ok_def)
  moreover have "store_advances st (expire ids st)"
  proof -
    have "\<exists>s. r\<lparr>rq_state := s\<rparr> \<in> set (requirement_table (expire ids st)) \<and> (is_open r \<or> s = rq_state r)"
      if "r \<in> set (requirement_table st)" for r
    proof (intro exI [of _ "rq_state (f r)"] conjI)
      have "r\<lparr>rq_state := rq_state (f r)\<rparr> = f r" by (simp add: f_def)
      then show "r\<lparr>rq_state := rq_state (f r)\<rparr> \<in> set (requirement_table (expire ids st))"
        unfolding rows using that by auto
    qed (auto simp: f_def)
    then show ?thesis by (simp add: store_advances_def expire_def)
  qed
  moreover have "opens_later t st (expire ids st)"
    unfolding opens_later_def rows using f(6) by (metis imageE set_map)
  ultimately show ?thesis
    using assms f(1,3,4) by (auto simp: tables_ok_def requirement_rows_ok_def rows) (auto simp: expire_def f(1))
qed

lemma count_list_distinct: "distinct xs \<Longrightarrow> count_list xs x = (if x \<in> set xs then 1 else 0)"
  by (induction xs) auto

lemma diagnose_count:
  assumes run: "diagnose digest engine now i trig st = (res, st')" and ok: "tables_ok st"
  shows "revision_count j st' = revision_count j st + (case res of Inl _ \<Rightarrow> 0 | Inr _ \<Rightarrow> if j = i then 1 else 0)"
proof (cases res)
  case (Inr r)
  obtain w doc where "stored digest i trig w doc st r st'" using diagnose_stored [OF run [unfolded Inr] ok] by blast
  then have "diagnosis_table st' = diagnosis_table st @ [r]" "dg_incident r = i" by (simp_all add: stored_def)
  then show ?thesis by (simp add: revision_count_def Inr)
next
  case (Inl e)
  then have "st' = st" using run diagnose_failed by blast
  then show ?thesis using Inl by simp
qed

lemma trigger_all_ok:
  assumes "trigger_all (diagnose digest engine now) is st = ((ok, no), st')" "tables_ok st"
  shows "tables_ok st' \<and> store_advances st st' \<and> set is = set ok \<union> set no
    \<and> revision_count j st' = revision_count j st + count_list ok j \<and> (distinct is \<longrightarrow> distinct ok)"
  using assms
proof (induction "diagnose digest engine now" "is" st arbitrary: ok no st' rule: trigger_all.induct)
  case (1 st)
  then show ?case by (auto simp: store_advances_refl)
next
  case (2 i "is" st)
  obtain res st1 where run: "diagnose digest engine now i EVIDENCE_DEADLINE st = (res, st1)" by fastforce
  note st1 = diagnose_ok [OF run "2.prems"(2)] and count = diagnose_count [OF run "2.prems"(2), of j]
  show ?case
  proof (cases res)
    case (Inl e)
    then obtain no2 where rest: "trigger_all (diagnose digest engine now) is st1 = ((ok, no2), st')" "no = i # no2"
      using "2.prems"(1) run by (auto split: prod.splits)
    from "2.hyps"(1) [OF run [symmetric] Inl rest(1)] st1 count Inl rest(2) show ?thesis
      using store_advances_trans [of st st1 st'] by auto
  next
    case (Inr r)
    then obtain ok2 where rest: "trigger_all (diagnose digest engine now) is st1 = ((ok2, no), st')" "ok = i # ok2"
      using "2.prems"(1) run by (auto split: prod.splits)
    from "2.hyps"(2) [OF run [symmetric] Inr rest(1)] st1 count Inr rest(2) show ?thesis
      using store_advances_trans [of st st1 st'] by auto
  qed
qed

lemma trigger_all_later:
  assumes "trigger_all (diagnose digest engine now) is st = ((ok, no), st')" "tables_ok st" "engine_waits engine"
    "\<forall>x\<in>set (incident_table st). status x \<notin> set TERMINAL_STATUSES"
  shows "opens_later now st st' \<and> (\<forall>i\<in>set ok. \<exists>d\<in>set (diagnosis_table st'). dg_incident d = i
      \<and> dg_trigger d = EVIDENCE_DEADLINE \<and> dg_window_end d = Some now \<and> next_diagnosis st \<le> dg_id d)"
  using assms
proof (induction "diagnose digest engine now" "is" st arbitrary: ok no st' rule: trigger_all.induct)
  case (1 st)
  then show ?case by (auto simp: opens_later_refl)
next
  case (2 i "is" st)
  obtain res st1 where run: "diagnose digest engine now i EVIDENCE_DEADLINE st = (res, st1)" by fastforce
  note st1 = diagnose_ok [OF run "2.prems"(2)]
  note later = diagnose_later [OF run "2.prems"(2,3,4)]
  have live: "\<forall>x\<in>set (incident_table st1). status x \<notin> set TERMINAL_STATUSES" using later "2.prems"(4) by simp
  have next1: "next_diagnosis st \<le> next_diagnosis st1" using st1 by (simp add: store_advances_def)
  show ?case
  proof (cases res)
    case (Inl e)
    then obtain no2 where "trigger_all (diagnose digest engine now) is st1 = ((ok, no2), st')"
      using "2.prems"(1) run by (auto split: prod.splits)
    from "2.hyps"(1) [OF run [symmetric] Inl this] st1 "2.prems"(3) live show ?thesis
      using later next1 opens_later_trans by (meson order_trans)
  next
    case (Inr r)
    then obtain ok2 where rest: "trigger_all (diagnose digest engine now) is st1 = ((ok2, no), st')" "ok = i # ok2"
      using "2.prems"(1) run by (auto split: prod.splits)
    from "2.hyps"(2) [OF run [symmetric] Inr rest(1)] st1 "2.prems"(3) live
    have IH: "opens_later now st1 st' \<and> (\<forall>i\<in>set ok2. \<exists>d\<in>set (diagnosis_table st'). dg_incident d = i
      \<and> dg_trigger d = EVIDENCE_DEADLINE \<and> dg_window_end d = Some now \<and> next_diagnosis st1 \<le> dg_id d)" by blast
    have "r \<in> set (diagnosis_table st')"
      using trigger_all_ok [OF rest(1)] st1 later Inr store_advances_diagnoses by blast
    with IH later Inr next1 rest(2) show ?thesis
      using opens_later_trans by (auto intro: order_trans) (metis order_trans)
  qed
qed

lemma pass_parts:
  assumes "run_scheduler_pass cfg now run st = Inr (p, st2)"
  defines "st1 \<equiv> expire (expired p) st"
    and "due \<equiv> dedup (map rq_incident (filter (\<lambda>r. rq_id r \<notin> set (expired p) \<and> due_now cfg now (expire (expired p) st) r)
           (open_requirements st)))"
  shows "\<forall>r\<in>set (requirement_table st). is_open r \<longrightarrow> (\<exists>t. opening_onset st r = Inr t)"
    and "i \<in> set (expired p) \<longleftrightarrow> (\<exists>r\<in>set (requirement_table st). \<exists>t. is_open r \<and> rq_id r = i
           \<and> opening_onset st r = Inr t \<and> t + horizon cfg \<le> now)"
    and "at_max_revisions p = filter (\<lambda>i. max_revisions cfg \<le> revision_count i st1) due"
    and "trigger_all run (filter (\<lambda>i. \<not> max_revisions cfg \<le> revision_count i st1) due) st1 = ((triggered p, failed p), st2)"
proof -
  obtain hs where hs: "traverse (\<lambda>r. and_then (opening_onset st r) (\<lambda>t. Inr (r, t))) (open_requirements st) = Inr hs"
    using assms(1) by (auto simp: run_scheduler_pass_def Let_def)
  have rows: "set (open_requirements st) = {r \<in> set (requirement_table st). is_open r}"
    by (auto simp: open_requirements_def)
  have all: "list_all2 (\<lambda>r h. fst h = r \<and> opening_onset st r = Inr (snd h)) (open_requirements st) hs"
    using hs unfolding traverse_Inr_iff by (auto elim: list_all2_mono)
  have "\<exists>t. opening_onset st r = Inr t" if "r \<in> set (open_requirements st)" for r
    using all that by (auto simp: list_all2_conv_all_nth in_set_conv_nth)
  then show "\<forall>r\<in>set (requirement_table st). is_open r \<longrightarrow> (\<exists>t. opening_onset st r = Inr t)"
    unfolding rows by blast
  have set_hs: "(r, t) \<in> set hs \<longleftrightarrow> r \<in> set (open_requirements st) \<and> opening_onset st r = Inr t" for r t
  proof
    assume "(r, t) \<in> set hs"
    with all show "r \<in> set (open_requirements st) \<and> opening_onset st r = Inr t"
      unfolding list_all2_conv_all_nth in_set_conv_nth by (metis fst_conv snd_conv)
  next
    assume r: "r \<in> set (open_requirements st) \<and> opening_onset st r = Inr t"
    then obtain k where k: "k < length hs" "fst (hs ! k) = r" "opening_onset st r = Inr (snd (hs ! k))"
      using all by (auto simp: list_all2_conv_all_nth in_set_conv_nth)
    with r have "hs ! k = (r, t)" by (simp add: prod_eq_iff)
    with k(1) show "(r, t) \<in> set hs" by (metis nth_mem)
  qed
  have p: "expired p = map (rq_id \<circ> fst) (filter (\<lambda>(_, t). t + horizon cfg \<le> now) hs)"
    "at_max_revisions p = filter (\<lambda>i. max_revisions cfg \<le> revision_count i st1) due"
    "trigger_all run (filter (\<lambda>i. \<not> max_revisions cfg \<le> revision_count i st1) due) st1 = ((triggered p, failed p), st2)"
    using assms(1) hs unfolding st1_def due_def
    by (auto simp: run_scheduler_pass_def Let_def comp_def split: prod.splits)
  show "i \<in> set (expired p) \<longleftrightarrow> (\<exists>r\<in>set (requirement_table st). \<exists>t. is_open r \<and> rq_id r = i
           \<and> opening_onset st r = Inr t \<and> t + horizon cfg \<le> now)"
    using rows set_hs unfolding p(1) by (force simp: image_iff)
  show "at_max_revisions p = filter (\<lambda>i. max_revisions cfg \<le> revision_count i st1) due"
    and "trigger_all run (filter (\<lambda>i. \<not> max_revisions cfg \<le> revision_count i st1) due) st1 = ((triggered p, failed p), st2)"
    by (rule p)+
qed

text \<open>The incidents a pass finds due.\<close>

definition found_due :: "reevaluation_config \<Rightarrow> instant \<Rightarrow> diagnosis_store \<Rightarrow> uuid \<Rightarrow> bool" where
  "found_due cfg now st i \<longleftrightarrow> (\<exists>r\<in>set (requirement_table st). is_open r \<and> rq_incident r = i \<and> due_now cfg now st r
     \<and> (\<exists>t. opening_onset st r = Inr t \<and> now < t + horizon cfg))"

lemma due_expire [simp]: "due_now cfg now (expire ids st) r = due_now cfg now st r"
  by (simp add: due_now_def deadline_consumed_def expire_def)

lemma count_expire [simp]: "revision_count i (expire ids st) = revision_count i st"
  by (simp add: revision_count_def expire_def)

lemma set_due:
  assumes "run_scheduler_pass cfg now run st = Inr (p, st2)" "tables_ok st"
  shows "i \<in> set (dedup (map rq_incident (filter (\<lambda>r. rq_id r \<notin> set (expired p) \<and> due_now cfg now (expire (expired p) st) r)
           (open_requirements st)))) \<longleftrightarrow> found_due cfg now st i"
proof -
  note parts = pass_parts [OF assms(1)]
  have same: "r = q" if "r \<in> set (requirement_table st)" "q \<in> set (requirement_table st)" "rq_id r = rq_id q" for r q
    using assms(2) that by (auto simp: tables_ok_def requirement_rows_ok_def distinct_map inj_on_def)
  have "rq_id r \<notin> set (expired p) \<longleftrightarrow> (\<exists>t. opening_onset st r = Inr t \<and> now < t + horizon cfg)"
    if "r \<in> set (requirement_table st)" "is_open r" for r
    using parts(1) that same unfolding parts(2) by (metis linorder_not_le sum.inject(2))
  then show ?thesis
    unfolding found_due_def by (auto simp: open_requirements_def image_iff)
qed

lemma scheduler_pass_exact:
  assumes run: "run_scheduler_pass cfg now (diagnose digest engine now) st = Inr (p, st')" and ok: "tables_ok st"
  shows "(\<forall>i. i \<in> set (expired p) \<longleftrightarrow> (\<exists>r\<in>set (requirement_table st). \<exists>t. is_open r \<and> rq_id r = i
            \<and> opening_onset st r = Inr t \<and> t + horizon cfg \<le> now))
    \<and> (\<forall>i. i \<in> set (triggered p) \<union> set (failed p) \<longleftrightarrow> found_due cfg now st i \<and> revision_count i st < max_revisions cfg)
    \<and> (\<forall>i. i \<in> set (at_max_revisions p) \<longleftrightarrow> found_due cfg now st i \<and> max_revisions cfg \<le> revision_count i st)
    \<and> (\<forall>i. revision_count i st' = revision_count i st + (if i \<in> set (triggered p) then 1 else 0)
         \<and> revision_count i st' \<le> max (revision_count i st) (max_revisions cfg))"
proof -
  note parts = pass_parts [OF run]
  have ok1: "tables_ok (expire (expired p) st)" using expire_ok [OF ok] by blast
  note all = trigger_all_ok [OF parts(4) ok1]
  have due: "i \<in> set (triggered p) \<union> set (failed p) \<longleftrightarrow> found_due cfg now st i \<and> revision_count i st < max_revisions cfg" for i
    using all set_due [OF run ok, of i] by (auto simp: not_le)
  moreover have "i \<in> set (at_max_revisions p) \<longleftrightarrow> found_due cfg now st i \<and> max_revisions cfg \<le> revision_count i st" for i
    unfolding parts(3) using set_due [OF run ok, of i] by auto
  moreover have "revision_count i st' = revision_count i st + (if i \<in> set (triggered p) then 1 else 0)" for i
  proof -
    have "distinct (triggered p)" using all by simp
    then have "count_list (triggered p) i = (if i \<in> set (triggered p) then 1 else 0)"
      by (simp add: count_list_distinct)
    with all [of i] show ?thesis by simp
  qed
  moreover have "revision_count i st < max_revisions cfg" if "i \<in> set (triggered p)" for i using due [of i] that by blast
  ultimately show ?thesis
    using parts(2) by (auto simp: max_def Suc_le_eq intro: less_imp_le)
qed


lemma opening_same:
  assumes ok: "tables_ok st" and adv: "store_advances st st'" and ok': "tables_ok st'" and r: "r \<in> set (requirement_table st)"
  shows "opening_onset st' r = opening_onset st r"
proof -
  obtain d where d: "d \<in> set (diagnosis_table st)" "dg_id d = rq_diagnosis r"
    using ok r by (auto simp: tables_ok_def requirement_rows_ok_def)
  then have d': "d \<in> set (diagnosis_table st')" using store_advances_diagnoses [OF adv] by blast
  have "find (\<lambda>d. dg_id d = rq_diagnosis r) (diagnosis_table s) = Some d"
    if "d \<in> set (diagnosis_table s)" "tables_ok s" for s
    using that d(2) find_key [of dg_id "diagnosis_table s" d] by (simp add: tables_ok_def revisions_ok_def)
  then show ?thesis using d d' ok ok' by (simp add: opening_onset_def)
qed

text \<open>
  Passes are idempotent. For incidents that are not in a terminal state, with an engine whose pending results
  wait for a time after the window it judged, a second pass at the same instant asks for no revision
  of an incident that the first pass served: whatever it triggers or fails on, the first one failed on.
\<close>

theorem scheduler_is_idempotent:
  assumes ok: "tables_ok st" and settle: "0 \<le> settle_delay cfg" and waits: "engine_waits engine"
    and live: "\<forall>x\<in>set (incident_table st). status x \<notin> set TERMINAL_STATUSES"
    and first: "run_scheduler_pass cfg now (diagnose digest engine now) st = Inr (p1, st1)"
    and second: "run_scheduler_pass cfg now (diagnose digest engine now) st1 = Inr (p2, st2)"
  shows "set (triggered p2) \<union> set (failed p2) \<subseteq> set (failed p1)"
proof
  fix i assume i: "i \<in> set (triggered p2) \<union> set (failed p2)"
  let ?e = "expire (expired p1) st"
  have e: "tables_ok ?e" "store_advances st ?e" "opens_later now st ?e" "incident_table ?e = incident_table st"
    "next_diagnosis ?e = next_diagnosis st"
    using expire_ok [OF ok] by auto
  note runs = pass_parts(4) [OF first]
  note all = trigger_all_ok [OF runs e(1)]
  have later: "opens_later now ?e st1" and served: "\<forall>i\<in>set (triggered p1). \<exists>d\<in>set (diagnosis_table st1). dg_incident d = i
      \<and> dg_trigger d = EVIDENCE_DEADLINE \<and> dg_window_end d = Some now \<and> next_diagnosis ?e \<le> dg_id d"
    using trigger_all_later [OF runs e(1) waits] live e(4) by auto
  have adv: "store_advances st st1" and ok1: "tables_ok st1" using store_advances_trans e(2) all by blast+
  have exact: "\<And>i. i \<in> set (triggered p1) \<union> set (failed p1) \<longleftrightarrow> found_due cfg now st i \<and> revision_count i st < max_revisions cfg"
    using scheduler_pass_exact [OF first ok] by blast
  have due: "found_due cfg now st1 i" and few: "revision_count i st1 < max_revisions cfg"
    using scheduler_pass_exact [OF second ok1] i by blast+
  then obtain r t where r: "r \<in> set (requirement_table st1)" "is_open r" "rq_incident r = i" "due_now cfg now st1 r"
    and t: "opening_onset st1 r = Inr t" "now < t + horizon cfg"
    by (auto simp: found_due_def)
  have "\<not> now < rq_not_before r" using r(4) settle by (simp add: due_now_def)
  then have old: "r \<in> set (requirement_table st)" using later e(3) r(1,2) unfolding opens_later_def by blast
  then obtain d where d: "d \<in> set (diagnosis_table st)" "dg_id d = rq_diagnosis r" "dg_incident d = i"
    using ok r(3) by (auto simp: tables_ok_def requirement_rows_ok_def)
  have "opening_onset st r = Inr t" using opening_same [OF ok adv ok1 old] t(1) by simp
  moreover have "due_now cfg now st r" using r(4) adv by (auto simp: due_now_def deadline_consumed_def store_advances_def)
  ultimately have "found_due cfg now st i" using old r(2,3) t(2) by (auto simp: found_due_def)
  moreover have "revision_count i st < max_revisions cfg"
    using few adv by (auto simp: revision_count_def store_advances_def)
  ultimately have "i \<in> set (triggered p1) \<union> set (failed p1)" using exact by blast
  moreover have "i \<notin> set (triggered p1)"
  proof
    assume "i \<in> set (triggered p1)"
    then obtain q where q: "q \<in> set (diagnosis_table st1)" "dg_incident q = i" "dg_trigger q = EVIDENCE_DEADLINE"
      "dg_window_end q = Some now" "next_diagnosis st \<le> dg_id q"
      using served e(5) by auto
    have "dg_id d < next_diagnosis st" using ok d(1) by (simp add: tables_ok_def)
    with q d(2) settle r(3,4) show False by (auto simp: due_now_def deadline_consumed_def list_ex_iff)
  qed
  ultimately show "i \<in> set (failed p1)" by blast
qed

section \<open>Every run of the service\<close>

datatype service_command =
    Change_Incidents "incident list"
  | Diagnose instant uuid string
  | Scheduler_Pass reevaluation_config instant

fun serve ::
  "(json \<Rightarrow> string) \<Rightarrow> (uuid \<Rightarrow> instant \<Rightarrow> diagnosis_document result) \<Rightarrow> service_command \<Rightarrow> diagnosis_store
   \<Rightarrow> diagnosis_store" where
  "serve digest engine (Change_Incidents xs) st = st\<lparr>incident_table := xs\<rparr>"
| "serve digest engine (Diagnose now i trig) st = snd (diagnose digest engine now i trig st)"
| "serve digest engine (Scheduler_Pass cfg now) st =
     (case run_scheduler_pass cfg now (diagnose digest engine now) st of Inl _ \<Rightarrow> st | Inr (_, st') \<Rightarrow> st')"

lemma serve_ok:
  assumes "tables_ok st"
  shows "tables_ok (serve digest engine cmd st) \<and> store_advances st (serve digest engine cmd st)"
proof (cases cmd)
  case (Change_Incidents xs)
  then show ?thesis
    using assms store_advances_refl [of st] by (auto simp: tables_ok_def store_advances_def)
next
  case (Diagnose now i trig)
  then show ?thesis
    using assms diagnose_ok [of digest engine now i trig st] by (cases "diagnose digest engine now i trig st") auto
next
  case (Scheduler_Pass cfg now)
  show ?thesis
  proof (cases "run_scheduler_pass cfg now (diagnose digest engine now) st")
    case (Inr ps)
    obtain p st2 where ps: "ps = (p, st2)" by (cases ps)
    note e = expire_ok [OF assms, of "expired p"]
    have "tables_ok st2" "store_advances (expire (expired p) st) st2"
      using trigger_all_ok [OF pass_parts(4) [OF Inr [unfolded ps]]] e by blast+
    moreover from this have "store_advances st st2" using store_advances_trans e by blast
    ultimately show ?thesis using Scheduler_Pass Inr ps by simp
  qed (use assms Scheduler_Pass store_advances_refl in auto)
qed

interpretation service: monotone_machine "serve digest engine" tables_ok store_advances for digest engine
proof unfold_locales
  fix cmd and st t u :: diagnosis_store
  show "tables_ok st \<Longrightarrow> tables_ok (serve digest engine cmd st)" and "tables_ok st \<Longrightarrow> store_advances st (serve digest engine cmd st)"
    using serve_ok by blast+
  show "store_advances st st" by (rule store_advances_refl)
  show "store_advances st t \<Longrightarrow> store_advances t u \<Longrightarrow> store_advances st u" by (rule store_advances_trans)
qed

text \<open>
  C29: The tables of revisions and requirements stay well formed, whatever is run on them and whatever other
  sessions commit between the reads and the insert of a revision. The revisions of an incident are
  numbered one, two, three without a gap and each names its predecessor; no key has two open
  requirements, and every requirement belongs to a revision of its own incident. Revisions are never changed or
  deleted, no requirement is deleted, and a closed one is never opened again.
\<close>

theorem requirement_tables_kept:
  assumes "tables_ok st"
  shows "tables_ok (fold (serve digest engine) cmds st) \<and> store_advances st (fold (serve digest engine) cmds st)
    \<and> (other_sessions env \<longrightarrow> save_revision env digest i trig w doc st = (res, st') \<longrightarrow> tables_ok st' \<and> store_advances st st')"
  using service.run_inv [OF assms] service.run_le [OF assms] save_revision_ok [OF _ _ assms] by blast

section \<open>What a revision leaves open\<close>

definition evaluates ::
  "(json \<Rightarrow> string) \<Rightarrow> uuid \<Rightarrow> diagnosis_document \<Rightarrow> string \<Rightarrow> requirement_evaluation \<Rightarrow> bool" where
  "evaluates digest i doc k e \<longleftrightarrow> e \<in> set (evaluations doc) \<and> unique_key doc e \<and> requirement_key digest i e = Inr k"

definition decides :: "requirement_evaluation \<Rightarrow> bool" where
  "decides e \<longleftrightarrow> eval_result e \<noteq> None \<or> eval_reason e = Some SCOPE_EXITED"

lemma settled_open:
  assumes "\<And>k e. map_of cur k = Some e \<longleftrightarrow> evaluates digest i doc k e"
  shows "settled_state doc cur r = REQUIREMENT_OPEN \<longleftrightarrow> key_count doc (rq_hypothesis r) \<noteq> 0
      \<and> \<not> (key_count doc (rq_hypothesis r) = 1 \<and> (\<exists>e. evaluates digest i doc (rq_key r) e \<and> decides e))"
    and "settled_state doc cur r = SATISFIED_BY_REVISION \<longleftrightarrow> key_count doc (rq_hypothesis r) = 1
      \<and> (\<exists>e. evaluates digest i doc (rq_key r) e \<and> eval_result e \<noteq> None \<and> pending_result e = None \<and> eval_reason e \<noteq> Some SCOPE_EXITED)"
  unfolding assms [symmetric]
  by (cases "map_of cur (rq_key r)"; auto simp: settled_state_def decides_def Let_def)+

text \<open>
  C27: A revision leaves open exactly what it could not decide. After it, the incident has an open requirement of a
  key exactly when an evaluation of that key, of a hypothesis that is unique in the revision, is
  pending, or one was open before whose hypothesis is still there and that no such evaluation decided or found
  out of scope. A requirement counts as satisfied only by an evaluation that passed or was disqualified, and
  requirements of other incidents and closed ones are not touched.
\<close>

theorem revision_settles_requirements:
  assumes ok: "tables_ok st" and run: "apply_revision digest i d doc st = Inr st'"
    and d: "\<exists>x\<in>set (diagnosis_table st). dg_id x = d \<and> dg_incident x = i"
  shows "(\<forall>k. (\<exists>r\<in>set (requirement_table st'). is_open r \<and> rq_incident r = i \<and> rq_key r = k) \<longleftrightarrow>
            (\<exists>e t. evaluates digest i doc k e \<and> pending_result e = Some t)
            \<or> (\<exists>r\<in>set (requirement_table st). is_open r \<and> rq_incident r = i \<and> rq_key r = k
                \<and> key_count doc (rq_hypothesis r) \<noteq> 0
                \<and> \<not> (key_count doc (rq_hypothesis r) = 1 \<and> (\<exists>e. evaluates digest i doc k e \<and> decides e))))
    \<and> (\<forall>r\<in>set (requirement_table st). if rq_incident r = i \<and> is_open r
          then \<exists>s. r\<lparr>rq_state := s\<rparr> \<in> set (requirement_table st') \<and> (s = SATISFIED_BY_REVISION \<longleftrightarrow>
                 key_count doc (rq_hypothesis r) = 1 \<and> (\<exists>e. evaluates digest i doc (rq_key r) e
                   \<and> eval_result e \<noteq> None \<and> pending_result e = None \<and> eval_reason e \<noteq> Some SCOPE_EXITED))
          else r \<in> set (requirement_table st'))"
proof -
  obtain cur rs where cur: "current_evaluations digest i (filter (unique_key doc) (evaluations doc)) [] = Inr cur"
    and rows: "requirement_table st' = map (settle_row i doc cur) (requirement_table st) @ rs"
    and opened: "opens i d (map rq_key (filter (\<lambda>r. rq_incident r = i \<and> is_open r)
        (map (settle_row i doc cur) (requirement_table st)))) cur rs"
    using apply_revision_Inr [OF run ok d] by blast
  have ev: "map_of cur k = Some e \<longleftrightarrow> evaluates digest i doc k e" for k e
    using current_iff(2) [OF cur] by (auto simp: evaluates_def)
  then have mem: "(k, e) \<in> set cur \<longleftrightarrow> evaluates digest i doc k e" for k e
    using current_iff(1) [OF cur] by (metis map_of_eq_Some_iff)
  define kept where "kept k \<longleftrightarrow> (\<exists>r\<in>set (requirement_table st). is_open r \<and> rq_incident r = i \<and> rq_key r = k
      \<and> settled_state doc cur r = REQUIREMENT_OPEN)" for k
  have still: "k \<in> set (map rq_key (filter (\<lambda>r. rq_incident r = i \<and> is_open r) (map (settle_row i doc cur) (requirement_table st))))
      \<longleftrightarrow> kept k" for k
    by (auto simp: kept_def image_iff)
  have new: "k \<in> rq_key ` set rs \<Longrightarrow> \<exists>e t. evaluates digest i doc k e \<and> pending_result e = Some t" for k
    using opened mem unfolding opens_def by blast
  have pend: "evaluates digest i doc k e \<Longrightarrow> pending_result e = Some t \<Longrightarrow> kept k \<or> k \<in> rq_key ` set rs" for k e t
    using opened still [of k] mem [of k e] unfolding opens_def by fastforce
  have A: "(\<exists>r\<in>set (requirement_table st'). is_open r \<and> rq_incident r = i \<and> rq_key r = k) \<longleftrightarrow> kept k \<or> k \<in> rq_key ` set rs" for k
  proof -
    have "(\<exists>r\<in>set rs. is_open r \<and> rq_incident r = i \<and> rq_key r = k) \<longleftrightarrow> k \<in> rq_key ` set rs"
      using opened by (auto simp: opens_def)
    moreover have "(\<exists>r\<in>settle_row i doc cur ` set (requirement_table st). is_open r \<and> rq_incident r = i \<and> rq_key r = k) \<longleftrightarrow> kept k"
      by (auto simp: kept_def)
    ultimately show ?thesis unfolding rows set_append set_map bex_Un by blast
  qed
  have B: "kept k \<longleftrightarrow> (\<exists>r\<in>set (requirement_table st). is_open r \<and> rq_incident r = i \<and> rq_key r = k
      \<and> key_count doc (rq_hypothesis r) \<noteq> 0
      \<and> \<not> (key_count doc (rq_hypothesis r) = 1 \<and> (\<exists>e. evaluates digest i doc k e \<and> decides e)))" for k
    using settled_open(1) [OF ev] by (auto simp: kept_def)
  have C: "if rq_incident r = i \<and> is_open r
          then \<exists>s. r\<lparr>rq_state := s\<rparr> \<in> set (requirement_table st') \<and> (s = SATISFIED_BY_REVISION \<longleftrightarrow>
                 key_count doc (rq_hypothesis r) = 1 \<and> (\<exists>e. evaluates digest i doc (rq_key r) e
                   \<and> eval_result e \<noteq> None \<and> pending_result e = None \<and> eval_reason e \<noteq> Some SCOPE_EXITED))
          else r \<in> set (requirement_table st')" if r: "r \<in> set (requirement_table st)" for r
  proof -
    have "settle_row i doc cur r \<in> set (requirement_table st')" using r rows by simp
    then show ?thesis
    proof (cases "rq_incident r = i \<and> is_open r")
      case True
      then have "settle_row i doc cur r = r\<lparr>rq_state := settled_state doc cur r\<rparr>" by (simp add: settle_row_def)
      with \<open>settle_row i doc cur r \<in> set (requirement_table st')\<close> show ?thesis
        unfolding if_P [OF True] using settled_open(2) [OF ev, of r]
        by (intro exI [of _ "settled_state doc cur r"]) simp
    next
      case False
      then have "settle_row i doc cur r = r" unfolding settle_row_def by (rule if_not_P)
      with \<open>settle_row i doc cur r \<in> set (requirement_table st')\<close> show ?thesis unfolding if_not_P [OF False] by simp
    qed
  qed
  show ?thesis
  proof (intro conjI allI ballI)
    show "(\<exists>r\<in>set (requirement_table st'). is_open r \<and> rq_incident r = i \<and> rq_key r = k) \<longleftrightarrow>
        (\<exists>e t. evaluates digest i doc k e \<and> pending_result e = Some t)
        \<or> (\<exists>r\<in>set (requirement_table st). is_open r \<and> rq_incident r = i \<and> rq_key r = k
            \<and> key_count doc (rq_hypothesis r) \<noteq> 0
            \<and> \<not> (key_count doc (rq_hypothesis r) = 1 \<and> (\<exists>e. evaluates digest i doc k e \<and> decides e)))" for k
      unfolding A B [symmetric] using new [of k] pend [of k] by blast
  qed (rule C)
qed

section \<open>A deadline\<close>

text \<open>An incident with one obligation, pending until the instant 100 and then without data.\<close>

definition wait_evaluation :: "instant \<Rightarrow> requirement_evaluation" where
  "wait_evaluation w =
     \<lparr>eval_hypothesis = ''h1'', eval_key = Some ''k1'', eval_rule = RULE_ID, eval_version = RULE_VERSION,
      eval_kind = STATUS_CONTINUITY,
      eval_targets = [\<lparr>target_entity = ''shop/Pod/front'', target_uid = Some ''u1'', target_container = None, target_resource = None\<rparr>],
      eval_result = (if w < 100 then Some \<lparr>result_status = PENDING, not_before = Some 100, result_reason = None\<rparr> else None),
      eval_reason = (if w < 100 then None else Some NO_DATA_AFTER_DEADLINE)\<rparr>"

definition wait_engine :: "uuid \<Rightarrow> instant \<Rightarrow> diagnosis_document result" where
  "wait_engine i w = Inr
     \<lparr>inventory = [\<lparr>entry_hypothesis = ''h1'', entry_key = Some ''k1'', entry_actor = \<lparr>kind = ''Pod'', name = ''front'', namespace = ''shop''\<rparr>,
        entry_mechanism = [''CONTAINER_FAILURE''], entry_uids = [''u1'']\<rparr>],
      evaluations = [wait_evaluation w], document_onset = Some (Some 50)\<rparr>"

lemma wait_engine_waits: "engine_waits wait_engine"
  by (auto simp: engine_waits_def wait_engine_def wait_evaluation_def pending_result_def split: if_splits)

definition wait_incident :: "incident_status \<Rightarrow> incident" where
  "wait_incident s =
     \<lparr>incident_id = 1, status = s, severity = CRITICAL, source = SrcAlertmanager, title = ''front'', description = None,
      created_at = 50, updated_at = 60, correlation_id = 2\<rparr>"

definition empty_tables :: "incident list \<Rightarrow> diagnosis_store" where
  "empty_tables xs = \<lparr>incident_table = xs, diagnosis_table = [], requirement_table = [], next_diagnosis = 1, next_requirement = 1\<rparr>"

lemma empty_tables_ok: "tables_ok (empty_tables xs)"
  by (simp add: tables_ok_def revisions_ok_def requirement_rows_ok_def empty_tables_def)

definition wait_config :: reevaluation_config where
  "wait_config = \<lparr>settle_delay = 10, max_revisions = 6, horizon = 1000\<rparr>"

text \<open>An initial diagnosis at 60 and a pass at the given instants.\<close>

definition passes_at :: "incident_status \<Rightarrow> instant list \<Rightarrow> diagnosis_store" where
  "passes_at s ts = fold (serve (\<lambda>_. ''d1'') wait_engine) (Diagnose 60 1 ''INITIAL'' # map (Scheduler_Pass wait_config) ts)
     (empty_tables [wait_incident s])"

definition served_at :: "incident_status \<Rightarrow> instant list \<Rightarrow> instant \<Rightarrow> (uuid list \<times> nat) option" where
  "served_at s ts now =
     (case run_scheduler_pass wait_config now (diagnose (\<lambda>_. ''d1'') wait_engine now) (passes_at s ts) of
        Inl _ \<Rightarrow> None | Inr (p, st) \<Rightarrow> Some (triggered p, revision_count 1 st))"

lemma passes_ok: "tables_ok (passes_at s ts)"
  unfolding passes_at_def by (rule service.run_inv [OF empty_tables_ok])

lemma deadline_served: "served_at OPEN [] 105 = Some ([], 1)" "served_at OPEN [] 120 = Some ([1], 2)" "served_at OPEN [120] 120 = Some ([], 2)"
  by code_simp+

text \<open>
  A resolved incident is judged in the window that ended with its resolution. No revision of it reaches the deadline,
  so none consumes it: every pass asks for another identical revision, up to the maximum.
\<close>

lemma frozen_window_repeats:
  "served_at incident_status.RESOLVED [] 120 = Some ([1], 2)"
  "served_at incident_status.RESOLVED [120] 120 = Some ([1], 3)"
  "served_at incident_status.RESOLVED [120, 120, 120, 120] 120 = Some ([1], 6)"
  "served_at incident_status.RESOLVED [120, 120, 120, 120, 120] 120 = Some ([], 6)"
  by code_simp+

theorem requirement_tables_kept_witness:
  "tables_ok (passes_at OPEN [120, 130]) \<and> length (diagnosis_table (passes_at OPEN [120, 130])) = 2
   \<and> store_advances (empty_tables [wait_incident OPEN]) (passes_at OPEN [120, 130])"
proof -
  have "length (diagnosis_table (passes_at OPEN [120, 130])) = 2" by code_simp
  then show ?thesis
    using requirement_tables_kept [OF empty_tables_ok, where engine = wait_engine and digest = "\<lambda>_. ''d1''"]
    unfolding passes_at_def by blast
qed

text \<open>The same incident at the deadline, before any pass.\<close>

lemma first_pass:
  obtains p st where "run_scheduler_pass wait_config 120 (diagnose (\<lambda>_. ''d1'') wait_engine 120) (passes_at OPEN []) = Inr (p, st)"
    "triggered p = [1]"
proof -
  have "\<exists>p st. run_scheduler_pass wait_config 120 (diagnose (\<lambda>_. ''d1'') wait_engine 120) (passes_at OPEN []) = Inr (p, st)
      \<and> triggered p = [1]"
    using deadline_served(2) by (auto simp: served_at_def split: sum.splits)
  with that show thesis by blast
qed


lemma live_passes: "\<forall>x\<in>set (incident_table (passes_at OPEN [])). status x \<notin> set TERMINAL_STATUSES"
  by code_simp

theorem scheduler_is_idempotent_witness:
  "\<exists>p1 st1. run_scheduler_pass wait_config 120 (diagnose (\<lambda>_. ''d1'') wait_engine 120) (passes_at OPEN []) = Inr (p1, st1)
     \<and> triggered p1 = [1]
     \<and> (\<exists>p2 st2. run_scheduler_pass wait_config 120 (diagnose (\<lambda>_. ''d1'') wait_engine 120) st1 = Inr (p2, st2)
          \<and> set (triggered p2) \<union> set (failed p2) \<subseteq> set (failed p1))"
proof -
  obtain p1 st1 where p1: "run_scheduler_pass wait_config 120 (diagnose (\<lambda>_. ''d1'') wait_engine 120) (passes_at OPEN []) = Inr (p1, st1)"
    "triggered p1 = [1]"
    using first_pass .
  have "st1 = passes_at OPEN [120]" using p1(1) by (simp add: passes_at_def)
  moreover have "served_at OPEN [120] 120 \<noteq> None" by (simp add: deadline_served)
  ultimately obtain p2 st2 where p2:
    "run_scheduler_pass wait_config 120 (diagnose (\<lambda>_. ''d1'') wait_engine 120) st1 = Inr (p2, st2)"
    by (auto simp: served_at_def split: sum.splits)
  have "0 \<le> settle_delay wait_config" by (simp add: wait_config_def)
  from scheduler_is_idempotent [OF passes_ok this wait_engine_waits live_passes p1(1) p2] p1 p2 show ?thesis by blast
qed

definition wait_store :: diagnosis_store where
  "wait_store = (empty_tables [wait_incident OPEN])\<lparr>diagnosis_table := [revision_row 1 ''INITIAL'' 60 \<lparr>inventory = [],
     evaluations = [], document_onset = Some (Some 50)\<rparr> None 1], next_diagnosis := 2\<rparr>"

theorem revision_settles_requirements_witness:
  "\<exists>doc st'. wait_engine 1 60 = Inr doc \<and> apply_revision (\<lambda>_. ''d1'') 1 1 doc wait_store = Inr st'
     \<and> (\<exists>r\<in>set (requirement_table st'). is_open r \<and> rq_incident r = 1 \<and> rq_key r = ''d1'')"
proof -
  obtain doc where doc: "wait_engine 1 60 = Inr doc" by (simp add: wait_engine_def)
  have "case wait_engine 1 60 of Inl _ \<Rightarrow> False | Inr doc \<Rightarrow> (case apply_revision (\<lambda>_. ''d1'') 1 1 doc wait_store of Inl _ \<Rightarrow> False | Inr _ \<Rightarrow> True)"
    by code_simp
  then obtain st' where run: "apply_revision (\<lambda>_. ''d1'') 1 1 doc wait_store = Inr st'"
    using doc by (auto split: sum.splits)
  have ok: "tables_ok wait_store"
    by (auto simp: wait_store_def tables_ok_def revisions_ok_def requirement_rows_ok_def empty_tables_def revision_row_def)
  have d: "\<exists>x\<in>set (diagnosis_table wait_store). dg_id x = 1 \<and> dg_incident x = 1" by (simp add: wait_store_def)
  have "evaluates (\<lambda>_. ''d1'') 1 doc ''d1'' (wait_evaluation 60) \<and> pending_result (wait_evaluation 60) = Some 100"
    using doc by (auto simp: evaluates_def wait_engine_def wait_evaluation_def unique_key_def key_count_def requirement_key_def pending_result_def)
  with revision_settles_requirements [OF ok run d] doc run show ?thesis by blast
qed

end
