(* ===== verification/Investigation_Actions.thy ===== *)
theory Investigation_Actions
  imports Frontier
begin

text \<open>
  What a bounded investigation works with and may do: queries, gaps and actions
  (\<open>packages/rca/model.py\<close>), the identity of an action and of the read behind it and the gate every action
  passes (\<open>packages/rca/investigation/actions.py\<close>), the store of acquired raw evidence
  (\<open>packages/rca/investigation/evidence.py\<close>) and the identity of findings
  (\<open>packages/rca/investigation/normalizers.py\<close>). The serialisation of JSON is the argument \<open>dump\<close>.
\<close>

section \<open>Gaps, queries and actions\<close>

record observation_query =
  query_start :: "instant option"
  query_end :: "instant option"
  query_reasons :: "string list"
  query_contains :: "string list"
  query_limit :: int

datatype resolvability = RESOLVABLE | UNRESOLVABLE_WITH_CURRENT_TOOLS | ALREADY_OBSERVED

record open_gap = information_gap +
  gap_id :: string
  missing_fact :: string
  gap_resolvability :: resolvability
  gap_hypotheses :: "string list"
  gap_alternatives :: "string list"

datatype action_kind = INSPECT | STOP

record investigation_action =
  action_kind :: action_kind
  action_gap :: "string option"
  action_capability :: "string option"
  action_target :: "entity_ref option"
  action_query :: "observation_query option"
  rationale :: string

record investigation_config =
  max_turns :: nat
  max_model_calls :: nat
  max_tool_calls :: nat
  max_tool_calls_per_gap :: nat
  max_invalid_actions :: nat
  max_no_progress_rounds :: nat
  max_wall_time :: duration

text \<open>The checks of \<open>InvestigationConfig.__post_init__\<close>; the counts are never negative here.\<close>

definition make_investigation_config :: "investigation_config \<Rightarrow> investigation_config result" where
  "make_investigation_config c =
     (if min (min (max_turns c) (max_model_calls c)) (min (max_tool_calls c) (max_tool_calls_per_gap c)) < 1
      then Inl (ValueError ''investigation budgets must be positive'')
      else if max_wall_time c \<le> 0 then Inl (ValueError ''max_wall_time_seconds must be positive'')
      else Inr c)"

section \<open>Identities\<close>

text \<open>A JSON serialisation, and the text of a time in a document.\<close>

record codec =
  dump :: "json \<Rightarrow> string"
  json_time :: "instant \<Rightarrow> string"

definition bound_document :: "codec \<Rightarrow> instant option \<Rightarrow> json" where
  "bound_document c t = (case t of None \<Rightarrow> JNull | Some x \<Rightarrow> JStr (json_time c x))"

definition bound_value :: "instant option \<Rightarrow> json" where
  "bound_value t = (case t of None \<Rightarrow> JNull | Some x \<Rightarrow> JTime x)"

definition window_document :: "codec \<Rightarrow> observation_query \<Rightarrow> (string \<times> json) list" where
  "window_document c q =
     [(''start'', bound_document c (query_start q)), (''end'', bound_document c (query_end q)),
      (''limit'', JInt (query_limit q))]"

definition query_document :: "codec \<Rightarrow> observation_query \<Rightarrow> (string \<times> json) list" where
  "query_document c q =
     [(''start'', bound_document c (query_start q)), (''end'', bound_document c (query_end q)),
      (''reasons'', JList (map JStr (query_reasons q))), (''contains'', JList (map JStr (query_contains q))),
      (''limit'', JInt (query_limit q))]"

definition or_dash :: "string option \<Rightarrow> string" where
  "or_dash s = (case s of None \<Rightarrow> ''-'' | Some [] \<Rightarrow> ''-'' | Some x \<Rightarrow> x)"

definition action_identity :: "codec \<Rightarrow> investigation_action \<Rightarrow> string" where
  "action_identity c a =
     or_dash (action_gap a) @ ''|'' @ or_dash (action_capability a) @ ''|''
     @ (case action_target a of None \<Rightarrow> ''-'' | Some e \<Rightarrow> canonical e) @ ''|''
     @ (case action_query a of
          None \<Rightarrow> ''-''
        | Some q \<Rightarrow> dump c (JDict (if action_capability a = Some ''runtime_traces'' then window_document c q
                                 else query_document c q)))"

text \<open>The part of a query that the backend read of a capability depends on.\<close>

definition effective_query :: "string \<Rightarrow> observation_query option \<Rightarrow> (string \<times> json) list" where
  "effective_query capability query =
     (case query of
        None \<Rightarrow> []
      | Some q \<Rightarrow>
          if capability \<in> {''describe'', ''neighbors''} then []
          else (''start'', bound_value (query_start q)) # (''end'', bound_value (query_end q))
            # (if capability = ''events'' then [(''reasons'', JList (map JStr (sorted_set (query_reasons q))))] else [])
            @ (if capability \<in> {''events'', ''logs''}
               then [(''contains'', JList (map JStr (sorted_set (query_contains q))))] else [])
            @ [(''limit'', JInt (query_limit q))])"

definition observation_identity :: "codec \<Rightarrow> string \<Rightarrow> entity_ref \<Rightarrow> observation_query option \<Rightarrow> string" where
  "observation_identity c capability target query =
     capability @ ''|'' @ canonical target @ ''|'' @ dump c (JDict (effective_query capability query))"

section \<open>The gate\<close>

datatype action_validation = Allowed | Refused string

definition RUNTIME_CAPABILITIES :: "string list" where
  "RUNTIME_CAPABILITIES = [''resource_pressure'', ''traffic'', ''logs'', ''runtime_traces'']"

definition reversed_window :: "observation_query \<Rightarrow> bool" where
  "reversed_window q \<longleftrightarrow> (case (query_start q, query_end q) of (Some s, Some e) \<Rightarrow> e < s | _ \<Rightarrow> False)"

text \<open>What is refused of a query before any gap is looked at.\<close>

definition query_refusal :: "string \<Rightarrow> observation_query option \<Rightarrow> string option" where
  "query_refusal capability query =
     (case query of
        None \<Rightarrow> None
      | Some q \<Rightarrow>
          if reversed_window q then Some ''query start must not be after query end''
          else if capability \<in> set RUNTIME_CAPABILITIES \<and> query_limit q > 32
          then Some ''runtime evidence limit must be at most 32''
          else if capability = ''runtime_traces'' \<and> (query_reasons q \<noteq> [] \<or> query_contains q \<noteq> [])
          then Some ''runtime_traces does not accept reasons/contains filters''
          else None)"

definition attempts_on :: "string \<Rightarrow> string list \<Rightarrow> nat" where
  "attempts_on g attempted = length (filter (starts_with (g @ ''|'')) attempted)"

definition authorizes :: "('a information_gap_scheme) \<Rightarrow> string \<Rightarrow> entity_ref \<Rightarrow> bool" where
  "authorizes g capability target \<longleftrightarrow>
     list_ex (\<lambda>q. query_capability q = capability \<and> query_target q = target) (authorized_queries g)"

text \<open>The checks against a gap of the frontier and what was attempted before.\<close>

definition inspect_validation ::
  "codec \<Rightarrow> investigation_config \<Rightarrow> open_gap list \<Rightarrow> string list \<Rightarrow> string list \<Rightarrow> string list \<Rightarrow> nat
   \<Rightarrow> investigation_action \<Rightarrow> string \<Rightarrow> string \<Rightarrow> entity_ref \<Rightarrow> action_validation" where
  "inspect_validation c cfg gaps tools attempted observed calls a g capability target =
     (case find (\<lambda>x. gap_id x = g) gaps of
        None \<Rightarrow> Refused ''unknown information gap''
      | Some x \<Rightarrow>
          if gap_resolvability x \<noteq> RESOLVABLE then Refused ''gap is not resolvable''
          else if capability \<notin> set tools then Refused ''unsupported capability''
          else if \<not> authorizes x capability target
          then Refused ''capability/target pair is not authorized for this gap''
          else if action_identity c a \<in> set attempted then Refused ''the same action was already attempted''
          else if observation_identity c capability target (action_query a) \<in> set observed
          then Refused ''the same telemetry observation was already attempted''
          else if calls \<ge> max_tool_calls cfg then Refused ''tool-call budget exhausted''
          else if attempts_on (gap_id x) attempted \<ge> max_tool_calls_per_gap cfg
          then Refused ''per-gap tool-call budget exhausted''
          else Allowed)"

definition validate_action ::
  "codec \<Rightarrow> investigation_config \<Rightarrow> open_gap list \<Rightarrow> string list \<Rightarrow> string list \<Rightarrow> string list \<Rightarrow> nat
   \<Rightarrow> investigation_action \<Rightarrow> action_validation" where
  "validate_action c cfg gaps tools attempted observed calls a =
     (case action_kind a of
        STOP \<Rightarrow>
          if action_gap a \<noteq> None \<or> action_capability a \<noteq> None \<or> action_target a \<noteq> None \<or> action_query a \<noteq> None
          then Refused ''stop actions cannot contain an inspection target'' else Allowed
      | INSPECT \<Rightarrow>
          (case (action_gap a, action_capability a, action_target a) of
             (Some g, Some capability, Some target) \<Rightarrow>
               (case query_refusal capability (action_query a) of
                  Some reason \<Rightarrow> Refused reason
                | None \<Rightarrow> inspect_validation c cfg gaps tools attempted observed calls a g capability target)
           | _ \<Rightarrow> Refused ''inspect requires gap_id, capability, and target''))"

section \<open>Raw evidence\<close>

record evidence_record =
  record_id :: string
  record_type :: string
  record_document :: json

type_synonym evidence_store = "(string \<times> evidence_record) list"

definition canonical_record :: "codec \<Rightarrow> evidence_record \<Rightarrow> string" where
  "canonical_record c r =
     dump c (JDict [(''record_type'', JStr (record_type r)), (''record'', record_document r)])"

definition evidence_collision :: py_error where
  "evidence_collision = ValueError ''evidence ID collision''"

definition put_record :: "codec \<Rightarrow> evidence_record \<Rightarrow> evidence_store \<Rightarrow> evidence_store result" where
  "put_record c r store =
     (case map_of store (record_id r) of
        None \<Rightarrow> Inr (store @ [(record_id r, r)])
      | Some x \<Rightarrow> if canonical_record c x = canonical_record c r then Inr store else Inl evidence_collision)"

definition get_records :: "evidence_store \<Rightarrow> string list \<Rightarrow> evidence_record list result" where
  "get_records store refs = traverse (\<lambda>i. get_key i store) refs"

section \<open>Observations\<close>

datatype gap_outcome = SUPPORTS | CONTRADICTS | NO_DATA | UNKNOWN_OUTCOME

text \<open>Of the runtime context, the pillar that produced the observation.\<close>

record tool_observation =
  observation_id :: string
  observation_gap :: string
  observation_capability :: string
  observation_target :: entity_ref
  observation_outcome :: gap_outcome
  observation_hypotheses :: "string list"
  observation_payload :: "(string \<times> json) list"
  observation_pillar :: "string option"
  observation_refs :: "string list"
  observation_error :: "string option"

definition PAYLOAD_KEYS :: "(string \<times> string \<times> string) list" where
  "PAYLOAD_KEYS =
     [(''history'', ''versions'', ''ObjectVersion''), (''events'', ''events'', ''ClusterEvent''),
      (''incident_events'', ''events'', ''ClusterEvent''), (''incident_changes'', ''versions'', ''ObjectVersion''),
      (''logs'', ''logs'', ''LogRecord''), (''resource_pressure'', ''resource_pressure'', ''ResourcePressure''),
      (''traffic'', ''traffic'', ''TrafficObservation'')]"

text \<open>
  The raw records of a payload. Whether an item is a document of a record type, and its evidence id, is
  the argument \<open>parse\<close>: \<open>None\<close> is the validation error, which is a \<open>ValueError\<close>.
\<close>

definition parsed_items ::
  "(string \<Rightarrow> json \<Rightarrow> evidence_record option) \<Rightarrow> string \<Rightarrow> json \<Rightarrow> evidence_record list result" where
  "parsed_items parse model raw =
     (case raw of
        JList items \<Rightarrow> traverse (\<lambda>x. case parse model x of
            None \<Rightarrow> Inl (ValueError ''validation error'') | Some r \<Rightarrow> Inr r) items
      | _ \<Rightarrow> Inl (ValueError ''payload must be a list''))"

definition payload_sources :: "tool_observation \<Rightarrow> (string \<times> json) list" where
  "payload_sources ob =
     List.map_filter (\<lambda>(capability, key, model).
         if observation_capability ob \<noteq> capability then None
         else map_option (Pair model) (map_of (observation_payload ob) key)) PAYLOAD_KEYS
     @ (case map_of (observation_payload ob) ''traces'' of None \<Rightarrow> [] | Some raw \<Rightarrow> [(''TraceSpanObservation'', raw)])"

definition records_from_observation ::
  "(string \<Rightarrow> json \<Rightarrow> evidence_record option) \<Rightarrow> tool_observation \<Rightarrow> evidence_record list result" where
  "records_from_observation parse ob =
     and_then (traverse (\<lambda>(model, raw). parsed_items parse model raw) (payload_sources ob)) (Inr \<circ> concat)"

section \<open>Findings of an investigation\<close>

definition ACQUISITION_PROVENANCE_DETAIL_KEYS :: "string list" where
  "ACQUISITION_PROVENANCE_DETAIL_KEYS =
     [''observation_id'', ''investigation_gap_id'', ''investigation_capability'', ''runtime_pillar'',
      ''runtime_capability'', ''runtime_target'', ''runtime_requested_start'', ''runtime_requested_end'',
      ''runtime_effective_start'', ''runtime_effective_end'', ''runtime_query_descriptor_id'',
      ''runtime_query_template_id'', ''runtime_source_observation_ids'', ''runtime_observation_state'']"

type_synonym finding_identity = "string \<times> string \<times> instant option \<times> string \<times> string list \<times> string \<times> string list"

definition finding_identity :: "codec \<Rightarrow> finding \<Rightarrow> finding_identity" where
  "finding_identity c f =
     (kind_value (finding_kind f), canonical (entity f), at f, summary f, sort (map canonical (related f)),
      dump c (JDict (filter (\<lambda>(k, v). k \<notin> set ACQUISITION_PROVENANCE_DETAIL_KEYS) (details f))),
      sorted_set (evidence_ids f))"

fun keep_new :: "codec \<Rightarrow> finding_identity set \<Rightarrow> finding list \<Rightarrow> finding list" where
  "keep_new c seen [] = []"
| "keep_new c seen (f # fs) =
     (if finding_identity c f \<in> seen then keep_new c seen fs
      else f # keep_new c (insert (finding_identity c f) seen) fs)"

definition deduplicate_findings :: "codec \<Rightarrow> finding list \<Rightarrow> finding list" where
  "deduplicate_findings c fs = keep_new c {} fs"

definition new_investigation_findings :: "codec \<Rightarrow> finding list \<Rightarrow> finding list \<Rightarrow> finding list" where
  "new_investigation_findings c existing incoming =
     keep_new c (finding_identity c ` set existing) (deduplicate_findings c incoming)"

definition detail_actors :: "finding \<Rightarrow> entity_ref list" where
  "detail_actors f =
     List.map_filter (\<lambda>k. case dict_value (details f) k of
         JStr s \<Rightarrow> (case parse_entity s of Inl _ \<Rightarrow> None | Inr e \<Rightarrow> Some e) | _ \<Rightarrow> None)
       [''caller'', ''callee'', ''service'']"

definition finding_actor_refs :: "finding list \<Rightarrow> entity_ref list" where
  "finding_actor_refs fs = concat (map (\<lambda>f. entity f # related f @ detail_actors f) fs)"

definition hypothesis_ids_for_findings ::
  "hypothesis list \<Rightarrow> finding list \<Rightarrow> entity_ref option \<Rightarrow> string list" where
  "hypothesis_ids_for_findings hs fs legacy_target =
     (let actors = (case legacy_target of None \<Rightarrow> set (finding_actor_refs fs) | Some t \<Rightarrow> {t})
      in sort (map hypothesis_id (filter (\<lambda>h. causal_actor h \<in> actors \<or> set (members h) \<inter> actors \<noteq> {}) hs)))"

end
