(* ===== verification/Investigation.thy ===== *)
theory Investigation
  imports Investigation_Actions
begin

text \<open>
  The bounded investigation loop (\<open>packages/rca/investigation/graph.py\<close>): its state, one function per
  node of the graph and the edges between them, as \<open>build_investigation_graph\<close> wires them. What the
  diagnosis engine makes of the acquired evidence, what a tool returns for a read and what a policy
  or selector chooses are arguments; so is the clock. The playback of a recorded trajectory
  (\<open>ScriptedInvestigationPolicy\<close> of \<open>policy.py\<close>) is one of the runners. The steps written for people, the
  intent history of prompts and the checkpointing of the graph library are left out.
\<close>

section \<open>Data\<close>

text \<open>Of a diagnosis, what the loop reads.\<close>

record investigated_diagnosis =
  diag_resolution :: resolution_state
  diag_status :: investigation_state
  information_gaps :: "open_gap list"
  diag_structural :: "targeted_alternative list"
  diag_hypothesis :: "hypothesis option"
  alternative_hypotheses :: "hypothesis list"
  ambiguous_hypotheses :: "hypothesis list"
  diag_root :: "entity_ref option"
  hypothesis_audits :: "(string \<times> epistemic_state) list"
  trace_answers :: "frontier_answer list"

text \<open>Of a case, what the loop reads; the last field stands for the rest of the world model.\<close>

record rca_case =
  case_findings :: "finding list"
  case_hypotheses :: "hypothesis list"
  case_structural :: "structural_alternative list"
  case_world :: string

record gap_discriminator =
  discriminated_gap :: string
  discriminated_dimension :: gap_dimension
  discriminated_fact :: string
  discrimination :: json

record observation_candidate =
  candidate_id :: string
  candidate_capability :: string
  candidate_target :: entity_ref
  candidate_query :: observation_query
  candidate_gaps :: "string list"
  discriminators :: "gap_discriminator list"

datatype stop_reason =
    Stop_Resolved | No_Resolvable_Gap | No_Progress | Model_Budget | Tool_Budget | Turn_Budget | Wall_Time
  | Policy_Stop | Model_Failure

fun stop_value :: "stop_reason \<Rightarrow> string" where
  "stop_value Stop_Resolved = ''RESOLVED''"
| "stop_value No_Resolvable_Gap = ''NO_RESOLVABLE_GAP''"
| "stop_value No_Progress = ''NO_PROGRESS''"
| "stop_value Model_Budget = ''MODEL_BUDGET_EXHAUSTED''"
| "stop_value Tool_Budget = ''TOOL_BUDGET_EXHAUSTED''"
| "stop_value Turn_Budget = ''TURN_BUDGET_EXHAUSTED''"
| "stop_value Wall_Time = ''WALL_TIME_EXHAUSTED''"
| "stop_value Policy_Stop = ''POLICY_STOP''"
| "stop_value Model_Failure = ''MODEL_FAILURE''"

datatype action_status = VALID_INSPECT | VALID_STOP | INVALID_RETRY | INVALID_EXHAUSTED

datatype policy_kind = ACTION | INTENT_TIEBREAK | OBSERVATION_SELECTOR | INTENT_SELECTOR

definition INTENT_KINDS :: "policy_kind list" where
  "INTENT_KINDS = [INTENT_SELECTOR, INTENT_TIEBREAK]"

text \<open>What a selection records of itself beside the action.\<close>

record choice_labels =
  intent_id :: "string option"
  intent_kind :: "string option"
  selection_candidates :: "json list"
  selection_strategy :: "string option"
  selection_reason :: "string option"
  baseline_candidate :: "string option"
  active_candidate :: "string option"

datatype authorization = AUTHORIZED | REJECTED | POLICY_STOPPED

datatype execution_status = NOT_EXECUTED | EXECUTION_SUCCEEDED | EXECUTION_FAILED

record decision_state =
  causal_decision :: "string option"
  decision_resolution :: resolution_state
  leading_actor :: "entity_ref option"
  hypothesis_states :: "(string \<times> entity_ref \<times> epistemic_state) list"
  gap_states :: "(string \<times> gap_dimension \<times> string \<times> resolvability) list"

record action_audit =
  turn_index :: nat
  audited_action :: investigation_action
  audit_labels :: choice_labels
  audit_dimension :: "gap_dimension option"
  audit_fact :: "string option"
  audit_discriminator :: "gap_discriminator option"
  authorization_result :: authorization
  authorization_reason :: string
  backend_execution :: execution_status
  audit_observation :: "string option"
  audit_outcome :: "gap_outcome option"
  audit_returned :: "string list"
  audit_new :: "string list"
  audit_known :: "string list"
  audit_findings :: "string list"
  audit_hypotheses :: "string list"
  state_before :: decision_state
  state_after :: "decision_state option"
  decision_changed :: "bool option"
  progress_class :: string

record ledger_entry =
  ledger_query_id :: string
  ledger_gap :: string
  ledger_capability :: string
  ledger_target :: entity_ref
  ledger_query :: "observation_query option"
  ledger_returned :: "string list"
  ledger_new :: "string list"
  ledger_known :: "string list"
  ledger_findings :: "string list"
  ledger_hypotheses :: "string list"
  ledger_outcome :: gap_outcome

record trajectory_terminal =
  terminal_stop :: stop_reason
  terminal_turns :: nat
  audited_turns :: nat

type_synonym case_key = "string list \<times> finding list"

record loop_state =
  current :: investigated_diagnosis
  initial_diagnosis :: investigated_diagnosis
  observations :: "tool_observation list"
  ledger :: "ledger_entry list"
  action_audits :: "action_audit list"
  acquired_findings :: "finding list"
  acquired_refs :: "string list"
  attempted_actions :: "string list"
  attempted_observations :: "string list"
  successful_reads :: "string list"
  covered_atoms :: "(string \<times> string) list"
  exploration_progress :: bool
  pending_labels :: choice_labels
  attempted_gaps :: "string list"
  pending_action :: "investigation_action option"
  pending_observation :: "tool_observation option"
  pending_findings :: "finding list"
  pending_returned :: "string list"
  pending_new :: "string list"
  pending_known :: "string list"
  previous_resolution :: resolution_state
  previous_gaps :: "string list list"
  previous_evidence :: "string list"
  previous_hypotheses :: "string list"
  previous_world :: string
  frontier_queried :: "(string \<times> gap_dimension list) list"
  validation_status :: "action_status option"
  turns :: nat
  model_calls :: nat
  tool_calls :: nat
  invalid_actions :: nat
  rejected_actions :: nat
  no_progress_count :: nat
  last_finding_count :: nat
  last_raw_count :: nat
  stop :: "stop_reason option"
  last_rejection :: "(string \<times> string \<times> string) option"
  evidence_table :: evidence_store
  base_case :: rca_case
  cached_case :: "case_key \<times> rca_case"
  played :: nat

section \<open>The world of a run\<close>

datatype tool_answer = Answered tool_observation | Tool_Raised string | Integrity_Lost string

record world =
  codec_of :: codec
  short_hash :: "string \<Rightarrow> string"
  parse_record :: "string \<Rightarrow> json \<Rightarrow> evidence_record option"
  base_visible :: "string list"
  tools :: "string list"
  build_case :: "evidence_record list \<Rightarrow> finding list \<Rightarrow> rca_case"
  world_fingerprint :: "rca_case \<Rightarrow> string"
  diagnose_case :: "rca_case \<Rightarrow> investigated_diagnosis"
  epistemic_digest :: "investigated_diagnosis \<Rightarrow> string"
  candidates_for :: "rca_case \<Rightarrow> investigated_diagnosis \<Rightarrow> observation_candidate list"
  execute_read :: "nat \<Rightarrow> rca_case \<Rightarrow> open_gap \<Rightarrow> string \<Rightarrow> entity_ref \<Rightarrow> observation_query option \<Rightarrow> tool_answer"
  normalize_read :: "tool_observation \<Rightarrow> rca_case \<Rightarrow> open_gap \<Rightarrow> tool_observation \<times> finding list"

text \<open>What a policy or a selector of the graph answers to a turn.\<close>

datatype selection = Chosen "investigation_action option" choice_labels | Nothing_Left | Model_Failed

record runner =
  semantic_kind :: policy_kind
  counts_as_model :: bool
  answer_turn :: "rca_case \<Rightarrow> loop_state \<Rightarrow> selection \<times> nat"
  wall_clock :: "nat \<Rightarrow> bool"
  recorded_terminal :: "trajectory_terminal option"
  playback :: "(action_audit list \<times> trajectory_terminal) option"

section \<open>The case of the acquired evidence\<close>

text \<open>
  \<open>_Runtime.case_for\<close>: the base case when nothing was acquired, the case of the last key while it is
  asked for again, otherwise a new one, which is then the cached one. \<open>store_case\<close> is the assignment to
  a field of the case object the loop holds: the cached object, or the base case, is the one that changes.
\<close>

definition case_for ::
  "world \<Rightarrow> string list \<Rightarrow> finding list \<Rightarrow> loop_state \<Rightarrow> (rca_case \<times> loop_state) result" where
  "case_for w refs fs st =
     (case get_records (evidence_table st) refs of
        Inl _ \<Rightarrow> Inl (ValueError ''missing acquired evidence ref'')
      | Inr records \<Rightarrow>
          if refs = [] \<and> fs = [] then Inr (base_case st, st)
          else if fst (cached_case st) = (refs, fs) then Inr (snd (cached_case st), st)
          else let c = build_case w records fs in Inr (c, st\<lparr>cached_case := ((refs, fs), c)\<rparr>))"

definition current_case :: "world \<Rightarrow> loop_state \<Rightarrow> (rca_case \<times> loop_state) result" where
  "current_case w st = case_for w (acquired_refs st) (acquired_findings st) st"

definition store_case :: "string list \<Rightarrow> finding list \<Rightarrow> rca_case \<Rightarrow> loop_state \<Rightarrow> loop_state" where
  "store_case refs fs c st =
     (if refs = [] \<and> fs = [] then st\<lparr>base_case := c\<rparr> else st\<lparr>cached_case := ((refs, fs), c)\<rparr>)"

section \<open>Fingerprints and snapshots\<close>

definition resolvable_gaps :: "investigated_diagnosis \<Rightarrow> open_gap list" where
  "resolvable_gaps d = filter (\<lambda>g. gap_resolvability g = RESOLVABLE \<and> authorized_queries g \<noteq> []) (information_gaps d)"

fun resolvability_value :: "resolvability \<Rightarrow> string" where
  "resolvability_value RESOLVABLE = ''RESOLVABLE''"
| "resolvability_value UNRESOLVABLE_WITH_CURRENT_TOOLS = ''UNRESOLVABLE_WITH_CURRENT_TOOLS''"
| "resolvability_value ALREADY_OBSERVED = ''ALREADY_OBSERVED''"

definition gap_fingerprint :: "investigated_diagnosis \<Rightarrow> string list list" where
  "gap_fingerprint d =
     sort (map (\<lambda>g. gap_id g # resolvability_value (gap_resolvability g)
         # sort (map (\<lambda>q. query_capability q @ ''|'' @ canonical (query_target q)) (authorized_queries g))
         @ sort (gap_hypotheses g) @ sort (gap_alternatives g)) (resolvable_gaps d))"

definition evidence_fingerprint :: "rca_case \<Rightarrow> string list" where
  "evidence_fingerprint c = sorted_set (concat (map evidence_ids (case_findings c)))"

definition plausible_hypotheses :: "investigated_diagnosis \<Rightarrow> hypothesis list" where
  "plausible_hypotheses d =
     (if ambiguous_hypotheses d \<noteq> [] then ambiguous_hypotheses d else alternative_hypotheses d)
     @ (case diag_hypothesis d of None \<Rightarrow> [] | Some h \<Rightarrow> [h])"

definition hypothesis_fingerprint :: "investigated_diagnosis \<Rightarrow> string list" where
  "hypothesis_fingerprint d = sorted_set (map hypothesis_id (plausible_hypotheses d))"

text \<open>One entry for each hypothesis id, in the order of the ids; the last of several counts.\<close>

definition hypothesis_states_of :: "investigated_diagnosis \<Rightarrow> (string \<times> entity_ref \<times> epistemic_state) list" where
  "hypothesis_states_of d =
     (let hs = (case diag_hypothesis d of None \<Rightarrow> [] | Some h \<Rightarrow> [h])
          @ (if alternative_hypotheses d \<noteq> [] then alternative_hypotheses d else ambiguous_hypotheses d);
          entry = (\<lambda>h. (hypothesis_id h, causal_actor h,
            case map_of (rev (hypothesis_audits d)) (hypothesis_id h) of None \<Rightarrow> CLAIM_UNRESOLVED | Some s \<Rightarrow> s))
      in map (\<lambda>i. entry (the (find (\<lambda>h. hypothesis_id h = i) (rev hs)))) (sorted_set (map hypothesis_id hs)))"

definition gap_states_of :: "investigated_diagnosis \<Rightarrow> (string \<times> gap_dimension \<times> string \<times> resolvability) list" where
  "gap_states_of d = map (\<lambda>g. (gap_id g, gap_dimension_of g, missing_fact g, gap_resolvability g))
     (sort_key gap_id (information_gaps d))"

definition leading_actor_of :: "investigated_diagnosis \<Rightarrow> entity_ref option" where
  "leading_actor_of d =
     (case diag_hypothesis d of
        Some h \<Rightarrow> Some (causal_actor h)
      | None \<Rightarrow>
          (case diag_root d of
             Some e \<Rightarrow> Some e
           | None \<Rightarrow>
               (case alternative_hypotheses d @ ambiguous_hypotheses d of
                  [] \<Rightarrow> None | h # _ \<Rightarrow> Some (causal_actor h))))"

definition snapshot :: "world \<Rightarrow> investigated_diagnosis \<Rightarrow> decision_state" where
  "snapshot w d =
     \<lparr>causal_decision = Some (epistemic_digest w d), decision_resolution = diag_resolution d,
      leading_actor = leading_actor_of d, hypothesis_states = hypothesis_states_of d, gap_states = gap_states_of d\<rparr>"

section \<open>Audits\<close>

definition update_latest :: "(action_audit \<Rightarrow> action_audit) \<Rightarrow> action_audit list \<Rightarrow> action_audit list" where
  "update_latest f audits = (if audits = [] then [] else butlast audits @ [f (last audits)])"

text \<open>\<open>_audit_after_state\<close>\<close>

definition with_after_state :: "world \<Rightarrow> investigated_diagnosis \<Rightarrow> action_audit \<Rightarrow> action_audit" where
  "with_after_state w d a =
     (let after = snapshot w d; before = state_before a
      in a\<lparr>state_after := Some after,
           decision_changed := Some (
             (causal_decision before \<noteq> None \<and> causal_decision before \<noteq> causal_decision after)
             \<or> decision_resolution before \<noteq> decision_resolution after
             \<or> leading_actor before \<noteq> leading_actor after
             \<or> hypothesis_states before \<noteq> hypothesis_states after
             \<or> gap_states before \<noteq> gap_states after)\<rparr>)"

definition progress_of_audit :: "bool \<Rightarrow> action_audit \<Rightarrow> string" where
  "progress_of_audit explored a =
     (if authorization_result a = REJECTED then ''REJECTED''
      else if authorization_result a = POLICY_STOPPED then ''POLICY_STOP''
      else if decision_changed a = Some True then ''DECISION_STATE_CHANGED''
      else if audit_findings a \<noteq> [] then ''NEW_FINDING''
      else if audit_new a \<noteq> [] then ''NOVEL_EVIDENCE_ONLY''
      else if explored then ''FRONTIER_PROGRESS''
      else ''NO_PROGRESS'')"

definition new_audit :: "world \<Rightarrow> loop_state \<Rightarrow> investigation_action \<Rightarrow> action_audit" where
  "new_audit w st a =
     \<lparr>turn_index = turns st, audited_action = a, audit_labels = pending_labels st, audit_dimension = None,
      audit_fact = None, audit_discriminator = None, authorization_result = REJECTED, authorization_reason = '''',
      backend_execution = NOT_EXECUTED, audit_observation = None, audit_outcome = None, audit_returned = [],
      audit_new = [], audit_known = [], audit_findings = [], audit_hypotheses = [],
      state_before = snapshot w (current st), state_after = None, decision_changed = None,
      progress_class = ''PENDING''\<rparr>"

text \<open>Of a turn that executes nothing: the state after it is the state before it, without the digest.\<close>

definition unexecuted_audit ::
  "world \<Rightarrow> loop_state \<Rightarrow> investigation_action \<Rightarrow> authorization \<Rightarrow> string \<Rightarrow> string \<Rightarrow> action_audit" where
  "unexecuted_audit w st a result reason class =
     (new_audit w st a)\<lparr>authorization_result := result, authorization_reason := reason,
        state_after := Some ((snapshot w (current st))\<lparr>causal_decision := None\<rparr>),
        decision_changed := Some False, progress_class := class\<rparr>"

end
