(* ===== verification/Investigation_Loop.thy ===== *)
theory Investigation_Loop
  imports Investigation
begin

text \<open>
  The nodes of the investigation graph and a run of it (\<open>packages/rca/investigation/graph.py\<close>). A node
  returns the state it leaves, or the error that ends the investigation without a result.
\<close>

section \<open>Budgets and the clock\<close>

text \<open>\<open>ScriptedInvestigationPolicy.terminal_due\<close>\<close>

definition terminal_due :: "action_audit list \<times> trajectory_terminal \<Rightarrow> nat \<Rightarrow> stop_reason \<Rightarrow> bool" where
  "terminal_due p n reason \<longleftrightarrow>
     n \<ge> length (fst p) \<and> terminal_stop (snd p) = reason \<and> terminal_turns (snd p) = length (fst p)"

definition wall_time_exhausted :: "runner \<Rightarrow> loop_state \<Rightarrow> bool" where
  "wall_time_exhausted r st \<longleftrightarrow>
     (case playback r of
        Some p \<Rightarrow> terminal_due p (played st) Wall_Time
      | None \<Rightarrow>
          (case recorded_terminal r of
             Some t \<Rightarrow> terminal_stop t = Wall_Time \<and> turns st = terminal_turns t
           | None \<Rightarrow> wall_clock r (turns st)))"

definition model_budget_exhausted :: "investigation_config \<Rightarrow> runner \<Rightarrow> loop_state \<Rightarrow> bool" where
  "model_budget_exhausted cfg r st \<longleftrightarrow>
     (case playback r of
        Some p \<Rightarrow> terminal_due p (played st) Model_Budget
      | None \<Rightarrow> max_model_calls cfg \<le> model_calls st \<and> counts_as_model r)"

definition settled_diagnosis :: "investigated_diagnosis \<Rightarrow> bool" where
  "settled_diagnosis d \<longleftrightarrow> diag_resolution d = RESOLVED \<and> diag_status d \<noteq> INVESTIGATION_OPEN"

section \<open>Assess and select\<close>

definition assess :: "investigation_config \<Rightarrow> runner \<Rightarrow> loop_state \<Rightarrow> loop_state" where
  "assess cfg r st = st\<lparr>stop :=
     (if settled_diagnosis (current st) then Some Stop_Resolved
      else if resolvable_gaps (current st) = [] then Some No_Resolvable_Gap
      else if max_turns cfg \<le> turns st then Some Turn_Budget
      else if wall_time_exhausted r st then Some Wall_Time
      else if model_budget_exhausted cfg r st then Some Model_Budget
      else if max_tool_calls cfg \<le> tool_calls st then Some Tool_Budget
      else None)\<rparr>"

text \<open>\<open>_play_recorded_turn\<close>, with \<open>next_recorded\<close> and \<open>terminal_turn\<close> of the policy.\<close>

definition play_recorded_turn ::
  "action_audit list \<times> trajectory_terminal \<Rightarrow> loop_state \<Rightarrow> loop_state result" where
  "play_recorded_turn p st =
     (if played st < length (fst p)
      then let a = fst p ! played st
           in Inr (st\<lparr>pending_action := Some (audited_action a), pending_labels := audit_labels a, stop := None,
                turns := turns st + 1, played := played st + 1\<rparr>)
      else if terminal_turns (snd p) \<noteq> length (fst p) + 1 then Inl ReplayTrajectoryDivergence
      else Inr (st\<lparr>stop := Some (terminal_stop (snd p)), turns := turns st + 1\<rparr>))"

text \<open>Which of the recorded labels the selection of a policy kind writes.\<close>

fun write_labels :: "policy_kind \<Rightarrow> choice_labels \<Rightarrow> choice_labels \<Rightarrow> choice_labels" where
  "write_labels ACTION new old = old"
| "write_labels INTENT_TIEBREAK new old = old\<lparr>intent_id := intent_id new, intent_kind := intent_kind new\<rparr>"
| "write_labels OBSERVATION_SELECTOR new old = new"
| "write_labels INTENT_SELECTOR new old = new"

definition apply_selection :: "runner \<Rightarrow> selection \<times> nat \<Rightarrow> loop_state \<Rightarrow> loop_state" where
  "apply_selection r answer st =
     (case answer of (chosen, calls) \<Rightarrow>
        let st1 = st\<lparr>turns := turns st + 1, model_calls := model_calls st + calls\<rparr>
        in case chosen of
             Chosen a labels \<Rightarrow>
               st1\<lparr>pending_action := a, pending_labels := write_labels (semantic_kind r) labels (pending_labels st),
                   stop := None\<rparr>
           | Nothing_Left \<Rightarrow> st1\<lparr>stop := Some No_Resolvable_Gap\<rparr>
           | Model_Failed \<Rightarrow> st1\<lparr>stop := Some Model_Failure\<rparr>)"

definition select_action :: "world \<Rightarrow> investigation_config \<Rightarrow> runner \<Rightarrow> loop_state \<Rightarrow> loop_state result" where
  "select_action w cfg r st =
     (if max_turns cfg \<le> turns st then Inr (st\<lparr>stop := Some Turn_Budget\<rparr>)
      else if max_tool_calls cfg \<le> tool_calls st then Inr (st\<lparr>stop := Some Tool_Budget\<rparr>)
      else if model_budget_exhausted cfg r st then Inr (st\<lparr>stop := Some Model_Budget\<rparr>)
      else and_then (current_case w st) (\<lambda>(c, st1).
        case playback r of
          Some p \<Rightarrow> play_recorded_turn p st1
        | None \<Rightarrow> Inr (apply_selection r (answer_turn r c st1) st1)))"

section \<open>Validate\<close>

text \<open>\<open>_discriminator_for_action\<close>: the first candidate with the action's read that discriminates its gap.\<close>

fun first_some :: "('a \<Rightarrow> 'b option) \<Rightarrow> 'a list \<Rightarrow> 'b option" where
  "first_some f [] = None"
| "first_some f (x # xs) = (case f x of None \<Rightarrow> first_some f xs | Some y \<Rightarrow> Some y)"

definition candidate_match ::
  "investigation_action \<Rightarrow> string \<Rightarrow> string \<Rightarrow> entity_ref \<Rightarrow> observation_candidate
   \<Rightarrow> (observation_candidate \<times> gap_discriminator) option" where
  "candidate_match a g capability target c =
     (if candidate_capability c \<noteq> capability \<or> candidate_target c \<noteq> target
        \<or> (case action_query a of None \<Rightarrow> False | Some q \<Rightarrow> candidate_query c \<noteq> q) then None
      else map_option (Pair c) (find (\<lambda>x. discriminated_gap x = g) (discriminators c)))"

definition discriminator_for ::
  "observation_candidate list \<Rightarrow> investigation_action \<Rightarrow> (observation_candidate \<times> gap_discriminator) option" where
  "discriminator_for candidates a =
     (case (action_kind a, action_gap a, action_capability a, action_target a) of
        (INSPECT, Some g, Some capability, Some target) \<Rightarrow> first_some (candidate_match a g capability target) candidates
      | _ \<Rightarrow> None)"

definition gap_named :: "loop_state \<Rightarrow> investigation_action \<Rightarrow> open_gap option" where
  "gap_named st a = find (\<lambda>g. Some (gap_id g) = action_gap a) (information_gaps (current st))"

definition reject :: "world \<Rightarrow> investigation_config \<Rightarrow> investigation_action \<Rightarrow> string \<Rightarrow> loop_state \<Rightarrow> loop_state" where
  "reject w cfg a reason st =
     (let invalid = invalid_actions st + 1;
          exhausted = max_invalid_actions cfg \<le> invalid;
          audit = (unexecuted_audit w st a REJECTED reason ''REJECTED'')
            \<lparr>audit_dimension := map_option gap_dimension_of (gap_named st a),
             audit_fact := map_option missing_fact (gap_named st a)\<rparr>
      in st\<lparr>action_audits := action_audits st @ [audit], invalid_actions := invalid,
            rejected_actions := rejected_actions st + 1,
            stop := (if exhausted then Some Policy_Stop else None),
            validation_status := Some (if exhausted then INVALID_EXHAUSTED else INVALID_RETRY),
            last_rejection := Some (reason, case action_capability a of None \<Rightarrow> '''' | Some c \<Rightarrow> c,
              case action_target a of None \<Rightarrow> '''' | Some e \<Rightarrow> canonical e)\<rparr>)"

definition stop_by_policy :: "world \<Rightarrow> investigation_action \<Rightarrow> loop_state \<Rightarrow> loop_state" where
  "stop_by_policy w a st =
     (let audit = unexecuted_audit w st a POLICY_STOPPED
            ''policy selected stop; no backend action authorized'' ''POLICY_STOP''
      in st\<lparr>action_audits := action_audits st @ [audit\<lparr>audit_labels := (pending_labels st)\<lparr>selection_candidates := []\<rparr>\<rparr>],
            stop := Some Policy_Stop, validation_status := Some VALID_STOP\<rparr>)"

definition authorize ::
  "world \<Rightarrow> investigation_action \<Rightarrow> string \<Rightarrow> entity_ref \<Rightarrow> open_gap \<Rightarrow> gap_discriminator \<Rightarrow> loop_state \<Rightarrow> loop_state" where
  "authorize w a capability target g disc st =
     (let audit = (new_audit w st a)\<lparr>audit_dimension := Some (gap_dimension_of g), audit_fact := Some (missing_fact g),
            audit_discriminator := Some disc, authorization_result := AUTHORIZED,
            authorization_reason :=
              ''capability/target pair is authorized for the selected resolvable gap''\<rparr>
      in st\<lparr>action_audits := action_audits st @ [audit],
            attempted_actions := attempted_actions st @ [action_identity (codec_of w) a],
            attempted_observations := attempted_observations st
              @ [observation_identity (codec_of w) capability target (action_query a)],
            attempted_gaps := dedup (attempted_gaps st @ [gap_id g]),
            stop := None, validation_status := Some VALID_INSPECT, pending_action := Some a, last_rejection := None\<rparr>)"

text \<open>
  The gate of the node: the checks of \<open>validate_action\<close> and then a candidate that discriminates. An action
  without a query takes that of the candidate.
\<close>

definition with_candidate_query ::
  "(observation_candidate \<times> gap_discriminator) option \<Rightarrow> investigation_action \<Rightarrow> investigation_action" where
  "with_candidate_query match a =
     (case match of
        None \<Rightarrow> a
      | Some (c, _) \<Rightarrow> if action_query a = None then a\<lparr>action_query := Some (candidate_query c)\<rparr> else a)"

definition judge ::
  "world \<Rightarrow> investigation_config \<Rightarrow> (observation_candidate \<times> gap_discriminator) option \<Rightarrow> investigation_action
   \<Rightarrow> loop_state \<Rightarrow> loop_state result" where
  "judge w cfg match a st =
     (case validate_action (codec_of w) cfg (resolvable_gaps (current st)) (tools w) (attempted_actions st)
             (attempted_observations st) (tool_calls st) a of
        Refused reason \<Rightarrow> Inr (reject w cfg a reason st)
      | Allowed \<Rightarrow>
          (case (action_kind a, match, action_capability a, action_target a) of
             (STOP, _) \<Rightarrow> Inr (stop_by_policy w a st)
           | (INSPECT, None, _) \<Rightarrow>
               Inr (reject w cfg a
                 ''selected action has no matching deterministic positive discriminator for its exact candidate query'' st)
           | (INSPECT, Some (_, disc), Some capability, Some target) \<Rightarrow>
               (case gap_named st a of
                  None \<Rightarrow> Inl StopIteration
                | Some g \<Rightarrow> Inr (authorize w a capability target g disc st))
           | _ \<Rightarrow> Inl AssertionError))"

definition validate :: "world \<Rightarrow> investigation_config \<Rightarrow> loop_state \<Rightarrow> loop_state result" where
  "validate w cfg st =
     (case pending_action st of
        None \<Rightarrow> Inr (st\<lparr>stop := Some Policy_Stop, validation_status := Some INVALID_EXHAUSTED\<rparr>)
      | Some a \<Rightarrow>
          if action_kind a = STOP then judge w cfg None a st
          else and_then (current_case w st) (\<lambda>(c, st1).
            let match = discriminator_for (candidates_for w c (current st)) a
            in judge w cfg match (with_candidate_query match a) st1))"

section \<open>Execute and acquire\<close>

text \<open>\<open>make_observation\<close> for a tool that raised: nothing but the error.\<close>

definition failed_observation :: "world \<Rightarrow> open_gap \<Rightarrow> string \<Rightarrow> entity_ref \<Rightarrow> string \<Rightarrow> tool_observation" where
  "failed_observation w g capability target err =
     \<lparr>observation_id = ''investigation:'' @ capability @ '':'' @ short_hash w (dump (codec_of w)
         (JDict [(''gap'', JStr (gap_id g)), (''capability'', JStr capability), (''target'', JStr (canonical target)),
                 (''payload'', JDict []), (''evidence'', JList [])])),
      observation_gap = gap_id g, observation_capability = capability, observation_target = target,
      observation_outcome = UNKNOWN_OUTCOME, observation_hypotheses = [], observation_payload = [],
      observation_pillar = None, observation_refs = [], observation_error = Some err\<rparr>"

definition record_execution :: "tool_observation \<Rightarrow> loop_state \<Rightarrow> loop_state" where
  "record_execution ob st =
     st\<lparr>action_audits := update_latest (\<lambda>a. a\<lparr>
          backend_execution := (if observation_error ob \<noteq> None then EXECUTION_FAILED else EXECUTION_SUCCEEDED),
          audit_observation := Some (observation_id ob), audit_outcome := Some (observation_outcome ob)\<rparr>) (action_audits st),
        pending_observation := Some ob, tool_calls := tool_calls st + 1\<rparr>"

definition execute_tool :: "world \<Rightarrow> loop_state \<Rightarrow> loop_state result" where
  "execute_tool w st =
     (case pending_action st of
        None \<Rightarrow> Inl AssertionError
      | Some a \<Rightarrow>
          (case (action_gap a, action_capability a, action_target a) of
             (Some i, Some capability, Some target) \<Rightarrow>
               (case find (\<lambda>g. gap_id g = i) (resolvable_gaps (current st)) of
                  None \<Rightarrow> Inl StopIteration
                | Some g \<Rightarrow>
                    if capability \<notin> set (tools w) then Inl (KeyError capability)
                    else (case current_case w st of
                            Inl _ \<Rightarrow> Inr (record_execution (failed_observation w g capability target ''ValueError'') st)
                          | Inr (c, st1) \<Rightarrow>
                              (case execute_read w (tool_calls st) c g capability target (action_query a) of
                                 Integrity_Lost err \<Rightarrow> Inl (ProviderIntegrityError err)
                               | Tool_Raised err \<Rightarrow>
                                   Inr (record_execution (failed_observation w g capability target err) st1)
                               | Answered ob \<Rightarrow> Inr (record_execution ob st1))))
           | _ \<Rightarrow> Inl AssertionError))"

fun index_records ::
  "codec \<Rightarrow> evidence_record list \<Rightarrow> evidence_store \<Rightarrow> evidence_store result" where
  "index_records c [] d = Inr d"
| "index_records c (r # rs) d =
     (case map_of d (record_id r) of
        None \<Rightarrow> index_records c rs (d @ [(record_id r, r)])
      | Some x \<Rightarrow> if canonical_record c x = canonical_record c r then index_records c rs d else Inl evidence_collision)"

record acquisition =
  got_refs :: "string list"
  got_new :: "string list"
  got_known :: "string list"
  got_table :: evidence_store

text \<open>The references of a read one after the other: a record that is new is stored.\<close>

fun acquire ::
  "world \<Rightarrow> evidence_store \<Rightarrow> string set \<Rightarrow> string list \<Rightarrow> acquisition \<Rightarrow> acquisition result" where
  "acquire w index known [] x = Inr x"
| "acquire w index known (i # is) x =
     (case map_of index i of
        Some r \<Rightarrow>
          if i \<in> set (base_visible w) \<or> i \<in> set (got_refs x)
          then acquire w index known is (x\<lparr>got_known := got_known x @ [i]\<rparr>)
          else and_then (put_record (codec_of w) r (got_table x)) (\<lambda>t.
            acquire w index known is
              (x\<lparr>got_refs := got_refs x @ [i], got_new := got_new x @ [i], got_table := t\<rparr>))
      | None \<Rightarrow>
          if i \<in> known then acquire w index known is (x\<lparr>got_known := got_known x @ [i]\<rparr>)
          else acquire w index known is (x\<lparr>got_new := got_new x @ [i]\<rparr>))"

definition known_refs :: "world \<Rightarrow> rca_case \<Rightarrow> loop_state \<Rightarrow> string set" where
  "known_refs w c st =
     set (base_visible w) \<union> set (acquired_refs st)
     \<union> set (concat (map evidence_ids (case_findings c @ acquired_findings st)))"

definition audit_refs :: "string list \<Rightarrow> string list \<Rightarrow> string list \<Rightarrow> action_audit \<Rightarrow> action_audit" where
  "audit_refs returned new known a = a\<lparr>audit_returned := returned, audit_new := new, audit_known := known\<rparr>"

definition malformed_read :: "world \<Rightarrow> tool_observation \<Rightarrow> string set \<Rightarrow> loop_state \<Rightarrow> loop_state" where
  "malformed_read w ob known st =
     (let returned = dedup (observation_refs ob); old = filter (\<lambda>i. i \<in> known) returned;
          fresh = filter (\<lambda>i. i \<notin> known) returned;
          failed = ob\<lparr>observation_payload := [], observation_error := Some ''ValueError''\<rparr>
      in st\<lparr>action_audits := update_latest (\<lambda>a. (audit_refs returned fresh old a)\<lparr>backend_execution := EXECUTION_FAILED,
              audit_observation := Some (observation_id failed), audit_outcome := Some (observation_outcome failed)\<rparr>)
              (action_audits st),
            pending_observation := Some failed, pending_returned := returned, pending_new := fresh,
            pending_known := old, last_raw_count := length fresh\<rparr>)"

definition check_novelty :: "world \<Rightarrow> loop_state \<Rightarrow> loop_state result" where
  "check_novelty w st =
     (case pending_observation st of
        None \<Rightarrow> Inr (st\<lparr>pending_returned := [], pending_new := [], pending_known := [], last_raw_count := 0\<rparr>)
      | Some ob \<Rightarrow>
          and_then (current_case w st) (\<lambda>(c, st1).
            case records_from_observation (parse_record w) ob of
              Inl _ \<Rightarrow> Inr (malformed_read w ob (known_refs w c st1) st1)
            | Inr records \<Rightarrow>
                and_then (index_records (codec_of w) records []) (\<lambda>index.
                  let returned = dedup (observation_refs ob @ map fst index)
                  in and_then (acquire w index (known_refs w c st1) returned
                       \<lparr>got_refs = acquired_refs st1, got_new = [], got_known = [], got_table = evidence_table st1\<rparr>) (\<lambda>x.
                    Inr (st1\<lparr>action_audits := update_latest (audit_refs returned (got_new x) (got_known x)) (action_audits st1),
                      pending_returned := returned, pending_new := got_new x, pending_known := got_known x,
                      acquired_refs := dedup (got_refs x), evidence_table := got_table x,
                      last_raw_count := length (got_new x)\<rparr>)))))"

end
