(* ===== verification/Investigation_Graph.thy ===== *)
theory Investigation_Graph
  imports Investigation_Loop
begin

text \<open>
  The second half of a turn, the end of an investigation, and the graph: interpretation of what was read,
  the rebuilt diagnosis, the progress check, the result, and the edges (\<open>packages/rca/investigation/graph.py\<close>).
\<close>

section \<open>Normalize\<close>

definition exploration_coverage_atoms :: "observation_candidate \<Rightarrow> investigated_diagnosis \<Rightarrow> (string \<times> string) list" where
  "exploration_coverage_atoms c d =
     (let gaps = filter (\<lambda>g. gap_resolvability g = RESOLVABLE) (information_gaps d)
      in concat (map (\<lambda>i. case find (\<lambda>g. gap_id g = i) (rev gaps) of
             None \<Rightarrow> []
           | Some g \<Rightarrow> map (\<lambda>a. (a, dimension_value (gap_dimension_of g))) (gap_alternatives g)) (candidate_gaps c)))"

definition record_successful_exploration ::
  "string list \<Rightarrow> (string \<times> string) list \<Rightarrow> string \<Rightarrow> bool \<Rightarrow> (string \<times> string) list
   \<Rightarrow> string list \<times> (string \<times> string) list \<times> bool" where
  "record_successful_exploration successful covered identity failed atoms =
     (if failed \<or> identity \<in> set successful then (successful, sorted_set covered, False)
      else (successful @ [identity], sorted_set (covered @ atoms), True))"

text \<open>The read of an intent policy that this turn completed, by its identity.\<close>

definition explored_read :: "world \<Rightarrow> runner \<Rightarrow> tool_observation \<Rightarrow> loop_state \<Rightarrow> string option" where
  "explored_read w r ob st =
     (case pending_action st of
        None \<Rightarrow> None
      | Some a \<Rightarrow>
          (case action_capability a of
             None \<Rightarrow> None
           | Some capability \<Rightarrow>
               if semantic_kind r \<in> set INTENT_KINDS \<and> observation_error ob = None
               then Some (observation_identity (codec_of w) capability (observation_target ob) (action_query a))
               else None))"

definition acquired_before :: "loop_state \<Rightarrow> string list" where
  "acquired_before st = filter (\<lambda>i. i \<notin> set (pending_new st)) (acquired_refs st)"

definition atoms_of_read :: "world \<Rightarrow> string \<Rightarrow> loop_state \<Rightarrow> ((string \<times> string) list \<times> loop_state) result" where
  "atoms_of_read w identity st =
     (if identity \<in> set (successful_reads st) then Inr ([], st)
      else and_then (case_for w (acquired_before st) (acquired_findings st) st) (\<lambda>(c, st1).
        Inr (case find (\<lambda>x. observation_identity (codec_of w) (candidate_capability x) (candidate_target x)
                     (Some (candidate_query x)) = identity) (candidates_for w c (current st)) of
               None \<Rightarrow> []
             | Some x \<Rightarrow> exploration_coverage_atoms x (current st), st1)))"

definition explore :: "world \<Rightarrow> runner \<Rightarrow> tool_observation \<Rightarrow> loop_state \<Rightarrow> loop_state result" where
  "explore w r ob st =
     (case explored_read w r ob st of
        None \<Rightarrow> Inr (st\<lparr>covered_atoms := sorted_set (covered_atoms st), exploration_progress := False\<rparr>)
      | Some identity \<Rightarrow>
          and_then (atoms_of_read w identity st) (\<lambda>(atoms, st1).
            case record_successful_exploration (successful_reads st1) (covered_atoms st1) identity False atoms of
              (reads, covered, moved) \<Rightarrow>
                Inr (st1\<lparr>successful_reads := reads, covered_atoms := covered, exploration_progress := moved\<rparr>)))"

text \<open>Typed findings come from the normalizer unless the read returned raw records, which the engine interprets.\<close>

definition interpreted ::
  "world \<Rightarrow> tool_observation \<Rightarrow> evidence_record list \<Rightarrow> open_gap \<Rightarrow> loop_state
   \<Rightarrow> ((tool_observation \<times> finding list) \<times> loop_state) result" where
  "interpreted w ob records g st =
     (let tempo = observation_pillar ob = Some ''TEMPO'' \<and> observation_capability ob = ''runtime_traces'' in
      if records \<noteq> [] \<and> \<not> tempo
      then if pending_new st \<noteq> [] then Inr ((ob, []), st)
           else and_then (current_case w st) (\<lambda>(c, st1).
             case normalize_read w ob c g of
               (ob1, fs) \<Rightarrow> Inr ((if fs \<noteq> [] \<and> observation_hypotheses ob1 \<noteq> []
                                then ob1\<lparr>observation_outcome := SUPPORTS\<rparr> else ob1, []), st1))
      else and_then (current_case w st) (\<lambda>(c, st1). Inr (normalize_read w ob c g, st1)))"

definition finding_label :: "finding \<Rightarrow> string" where
  "finding_label f =
     kind_value (finding_kind f) @ '':'' @ canonical (entity f) @ '':'' @ joined '','' (evidence_ids f)"

definition merge_dimensions ::
  "(string \<times> gap_dimension list) list \<Rightarrow> (string \<times> gap_dimension list) list \<Rightarrow> (string \<times> gap_dimension list) list" where
  "merge_dimensions queried covered =
     map (\<lambda>k. (k, sorted_dimensions (concat (map snd (filter (\<lambda>e. fst e = k) (queried @ covered))))))
       (sorted_set (map fst (queried @ covered)))"

definition covers_frontier :: "tool_observation \<Rightarrow> loop_state \<Rightarrow> bool" where
  "covers_frontier ob st \<longleftrightarrow>
     observation_error ob = None \<and> observation_capability ob \<noteq> ''runtime_traces'' \<and> pending_new st \<noteq> []"

definition queried_after :: "tool_observation \<Rightarrow> loop_state \<Rightarrow> (string \<times> gap_dimension list) list" where
  "queried_after ob st =
     merge_dimensions (frontier_queried st)
       (if covers_frontier ob st
        then covered_frontier_dimensions (information_gaps (current st)) (observation_capability ob)
               (observation_target ob) True
        else [])"

definition ledger_entry_of :: "tool_observation \<Rightarrow> tool_observation \<Rightarrow> string list \<Rightarrow> loop_state \<Rightarrow> ledger_entry" where
  "ledger_entry_of ob ob1 labels st =
     \<lparr>ledger_query_id = observation_id ob, ledger_gap = observation_gap ob, ledger_capability = observation_capability ob,
      ledger_target = observation_target ob, ledger_query = Option.bind (pending_action st) action_query,
      ledger_returned = pending_returned st, ledger_new = pending_new st,
      ledger_known = filter (\<lambda>i. i \<in> set (pending_known st)) (pending_returned st),
      ledger_findings = labels, ledger_hypotheses = observation_hypotheses ob1, ledger_outcome = observation_outcome ob1\<rparr>"

definition add_observation :: "tool_observation \<Rightarrow> tool_observation \<Rightarrow> tool_observation list \<Rightarrow> tool_observation list" where
  "add_observation ob ob1 obs = (if observation_id ob \<in> observation_id ` set obs then obs else obs @ [ob1])"

definition account_read ::
  "world \<Rightarrow> tool_observation \<Rightarrow> tool_observation \<Rightarrow> finding list \<Rightarrow> rca_case \<Rightarrow> loop_state \<Rightarrow> loop_state" where
  "account_read w ob ob1 fs c st =
     (let fresh = new_investigation_findings (codec_of w) (case_findings c @ acquired_findings st) fs;
          labels = map finding_label fresh; entry = ledger_entry_of ob ob1 labels st
      in st\<lparr>action_audits := update_latest (\<lambda>a.
              (audit_refs (ledger_returned entry) (ledger_new entry) (ledger_known entry) a)
                \<lparr>audit_observation := Some (observation_id ob1), audit_outcome := Some (observation_outcome ob1),
                 audit_findings := labels, audit_hypotheses := observation_hypotheses ob1\<rparr>) (action_audits st),
            observations := add_observation ob ob1 (observations st), ledger := ledger st @ [entry],
            pending_findings := fresh, frontier_queried := queried_after ob st, last_finding_count := length fresh\<rparr>)"

definition account_without_gap :: "tool_observation \<Rightarrow> loop_state \<Rightarrow> loop_state" where
  "account_without_gap ob st =
     st\<lparr>action_audits := update_latest (audit_refs (pending_returned st) (pending_new st) (pending_known st))
          (action_audits st),
        observations := observations st @ [ob], last_finding_count := 0\<rparr>"

definition normalize_node :: "world \<Rightarrow> runner \<Rightarrow> loop_state \<Rightarrow> loop_state result" where
  "normalize_node w r st =
     (case pending_observation st of
        None \<Rightarrow> Inr (st\<lparr>last_finding_count := 0, exploration_progress := False\<rparr>)
      | Some ob \<Rightarrow>
          and_then (explore w r ob st) (\<lambda>st1.
            case find (\<lambda>g. gap_id g = observation_gap ob) (information_gaps (current st1)) of
              None \<Rightarrow> Inr (account_without_gap ob st1)
            | Some g \<Rightarrow>
                and_then (records_from_observation (parse_record w) ob) (\<lambda>records.
                and_then (interpreted w ob records g st1) (\<lambda>((ob1, fs), st2).
                and_then (current_case w st2) (\<lambda>(c, st3). Inr (account_read w ob ob1 fs c st3))))))"

section \<open>Rebuild\<close>

definition native_records :: "world \<Rightarrow> loop_state \<Rightarrow> evidence_record list result" where
  "native_records w st =
     (case pending_observation st of
        None \<Rightarrow> Inr []
      | Some ob \<Rightarrow> if observation_error ob = None then records_from_observation (parse_record w) ob else Inr [])"

definition typed_runtime :: "loop_state \<Rightarrow> bool" where
  "typed_runtime st \<longleftrightarrow> (case pending_observation st of None \<Rightarrow> False | Some ob \<Rightarrow> observation_pillar ob \<noteq> None)"

definition attributed_ids :: "rca_case \<Rightarrow> bool \<Rightarrow> ledger_entry \<Rightarrow> string list" where
  "attributed_ids c typed e =
     hypothesis_ids_for_findings (case_hypotheses c)
       (filter (\<lambda>f. set (ledger_returned e) \<inter> set (evidence_ids f) \<noteq> {}) (case_findings c))
       (if typed then None else Some (ledger_target e))"

text \<open>The last entry of the ledger, once the engine has interpreted what the read acquired.\<close>

definition attribute_entry :: "rca_case \<Rightarrow> string list \<Rightarrow> bool \<Rightarrow> bool \<Rightarrow> ledger_entry \<Rightarrow> ledger_entry" where
  "attribute_entry c derived native typed e =
     (let ids = attributed_ids c typed e;
          seen = list_ex (\<lambda>f. set (ledger_returned e) \<inter> set (evidence_ids f) \<noteq> {}) (case_findings c)
      in e\<lparr>ledger_findings := dedup (ledger_findings e @ derived),
           ledger_hypotheses := (if ids \<noteq> [] then ids else ledger_hypotheses e),
           ledger_outcome := (if native \<and> (derived \<noteq> [] \<or> seen) \<and> ids \<noteq> [] then SUPPORTS else ledger_outcome e)\<rparr>)"

definition attribute_read :: "rca_case \<Rightarrow> string list \<Rightarrow> bool \<Rightarrow> loop_state \<Rightarrow> loop_state" where
  "attribute_read c derived native st =
     (if ledger st = [] \<or> (derived = [] \<and> \<not> native) then st
      else let old = last (ledger st); e = attribute_entry c derived native (typed_runtime st) old;
               ids = attributed_ids c (typed_runtime st) old
           in st\<lparr>ledger := butlast (ledger st) @ [e],
                 observations := (if native
                   then map (\<lambda>ob. if observation_id ob = ledger_query_id old
                       then ob\<lparr>observation_hypotheses := ids, observation_outcome := ledger_outcome e\<rparr> else ob)
                     (observations st)
                   else observations st)\<rparr>)"

definition merge_entry :: "ledger_entry list \<Rightarrow> action_audit \<Rightarrow> action_audit" where
  "merge_entry entries a =
     (if entries = [] then a
      else let e = last entries
           in a\<lparr>audit_findings := dedup (audit_findings a @ ledger_findings e),
                audit_hypotheses := ledger_hypotheses e, audit_outcome := Some (ledger_outcome e)\<rparr>)"

definition rebuild :: "world \<Rightarrow> loop_state \<Rightarrow> loop_state result" where
  "rebuild w st =
     (let combined = deduplicate_findings (codec_of w) (acquired_findings st @ pending_findings st) in
      and_then (case_for w (acquired_before st) (acquired_findings st) st) (\<lambda>(before, st1).
      and_then (case_for w (acquired_refs st1) combined st1) (\<lambda>(c, st2).
        let c1 = c\<lparr>case_structural := apply_frontier_progress (case_structural c) (case_hypotheses c) (frontier_queried st2)\<rparr>;
            d = diagnose_case w c1;
            derived = map finding_label (filter (\<lambda>f. finding_identity (codec_of w) f
              \<notin> finding_identity (codec_of w) ` set (case_findings before)) (case_findings c1))
        in and_then (native_records w st2) (\<lambda>records.
          let st3 = attribute_read c1 derived (records \<noteq> []) (store_case (acquired_refs st2) combined c1 st2)
          in Inr (st3\<lparr>action_audits := update_latest (merge_entry (ledger st3) \<circ> with_after_state w d) (action_audits st3),
               current := d, acquired_findings := combined\<rparr>)))))"

section \<open>Progress\<close>

definition progress_made :: "world \<Rightarrow> rca_case \<Rightarrow> loop_state \<Rightarrow> bool" where
  "progress_made w c st \<longleftrightarrow>
     diag_resolution (current st) \<noteq> previous_resolution st
     \<or> evidence_fingerprint c \<noteq> previous_evidence st
     \<or> hypothesis_fingerprint (current st) \<noteq> previous_hypotheses st
     \<or> world_fingerprint w c \<noteq> previous_world st
     \<or> last_raw_count st \<noteq> 0
     \<or> exploration_progress st
     \<or> gap_fingerprint (current st) \<noteq> previous_gaps st"

definition progress_stop :: "investigation_config \<Rightarrow> runner \<Rightarrow> nat \<Rightarrow> loop_state \<Rightarrow> stop_reason option" where
  "progress_stop cfg r idle st =
     (if settled_diagnosis (current st) then Some Stop_Resolved
      else if resolvable_gaps (current st) = [] then Some No_Resolvable_Gap
      else if max_no_progress_rounds cfg \<le> idle then Some No_Progress
      else if max_turns cfg \<le> turns st then Some Turn_Budget
      else if wall_time_exhausted r st then Some Wall_Time
      else if max_tool_calls cfg \<le> tool_calls st then Some Tool_Budget
      else if model_budget_exhausted cfg r st then Some Model_Budget
      else None)"

definition classify_latest :: "world \<Rightarrow> loop_state \<Rightarrow> action_audit list" where
  "classify_latest w st =
     (if action_audits st \<noteq> [] \<and> authorization_result (last (action_audits st)) = AUTHORIZED
      then update_latest (\<lambda>a. (with_after_state w (current st) a)
             \<lparr>progress_class := progress_of_audit (exploration_progress st) a\<rparr>) (action_audits st)
      else action_audits st)"

definition check_progress :: "world \<Rightarrow> investigation_config \<Rightarrow> runner \<Rightarrow> loop_state \<Rightarrow> loop_state result" where
  "check_progress w cfg r st =
     and_then (current_case w st) (\<lambda>(c, st1).
       let idle = (if progress_made w c st1 then 0 else no_progress_count st1 + 1)
       in Inr (st1\<lparr>action_audits := classify_latest w st1,
            previous_resolution := diag_resolution (current st1),
            previous_gaps := gap_fingerprint (current st1),
            previous_evidence := evidence_fingerprint c,
            previous_hypotheses := hypothesis_fingerprint (current st1),
            previous_world := world_fingerprint w c,
            no_progress_count := idle,
            stop := progress_stop cfg r idle st1\<rparr>))"

section \<open>The result\<close>

record investigated_answer = frontier_answer +
  investigation_phase :: string

record investigation_result =
  final_diagnosis :: investigated_diagnosis
  first_diagnosis :: investigated_diagnosis
  final_answers :: "investigated_answer list"
  result_turns :: nat
  result_model_calls :: nat
  result_tool_calls :: nat
  result_attempted_gaps :: "string list"
  result_rejected :: nat
  result_no_data :: nat
  result_stop :: stop_reason
  result_observations :: "tool_observation list"
  result_ledger :: "ledger_entry list"
  result_audits :: "action_audit list"
  result_new_refs :: "string list"
  resolved_here :: bool

definition EVIDENCE_RULES :: "string list" where
  "EVIDENCE_RULES =
     [UNCHANGED_CONFIGURATION_RULE, DEPENDENCY_ON_CLAIM_PATH_RULE, DEPENDENCY_DECLARED_UNUSED_RULE,
      ''m21.frontier.dependency-refusal-sufficient'']"

text \<open>\<open>_investigated_answers\<close>: how far the investigation got on the question of an answer.\<close>

definition reads_on :: "targeted_alternative list \<Rightarrow> tool_observation list \<Rightarrow> frontier_answer \<Rightarrow> tool_observation list" where
  "reads_on alternatives obs x =
     (case find (\<lambda>a. alternative_id a = answered_alternative x) (rev alternatives) of
        None \<Rightarrow> [] | Some a \<Rightarrow> filter (\<lambda>ob. observation_target ob \<in> set (alternative_targets a)) obs)"

definition phase_of :: "tool_observation list \<Rightarrow> stop_reason \<Rightarrow> frontier_answer \<Rightarrow> string" where
  "phase_of reads reason x =
     (if is_answered x then ''ANSWERED''
      else if list_ex (\<lambda>ob. case observation_error ob of None \<Rightarrow> False | Some e \<Rightarrow> e \<noteq> []) reads then ''BLOCKED_ACCESS''
      else if reason \<in> {Model_Budget, Tool_Budget, Turn_Budget, Wall_Time} then ''BLOCKED_BUDGET''
      else if reads \<noteq> [] then ''INVESTIGATED_INCONCLUSIVE''
      else ''UNEXPLORED'')"

definition investigated_answer_of ::
  "targeted_alternative list \<Rightarrow> tool_observation list \<Rightarrow> stop_reason \<Rightarrow> frontier_answer \<Rightarrow> investigated_answer" where
  "investigated_answer_of alternatives obs reason x =
     (let phase = phase_of (reads_on alternatives obs x) reason x
      in frontier_answer.extend
           (x\<lparr>blocked_reason :=
             (if answer_rule x \<in> set EVIDENCE_RULES then blocked_reason x
              else if starts_with ''BLOCKED'' phase then Some (stop_value reason) else None)\<rparr>)
           \<lparr>investigation_phase = phase\<rparr>)"

definition executed_audits :: "action_audit list \<Rightarrow> nat" where
  "executed_audits audits = length (filter (\<lambda>a. backend_execution a \<noteq> NOT_EXECUTED) audits)"

definition finalize :: "loop_state \<Rightarrow> investigation_result result" where
  "finalize st =
     (let reason = (case stop st of None \<Rightarrow> No_Progress | Some x \<Rightarrow> x) in
      if executed_audits (action_audits st) \<noteq> tool_calls st then Inl AssertionError
      else Inr
        \<lparr>final_diagnosis = current st, first_diagnosis = initial_diagnosis st,
         final_answers = map (investigated_answer_of (diag_structural (current st)) (observations st) reason)
           (trace_answers (current st)),
         result_turns = turns st, result_model_calls = model_calls st, result_tool_calls = tool_calls st,
         result_attempted_gaps = attempted_gaps st, result_rejected = rejected_actions st,
         result_no_data = length (filter (\<lambda>ob. observation_outcome ob = NO_DATA) (observations st)),
         result_stop = reason, result_observations = observations st, result_ledger = ledger st,
         result_audits = action_audits st, result_new_refs = dedup (concat (map ledger_new (ledger st))),
         resolved_here = (diag_resolution (initial_diagnosis st) \<noteq> RESOLVED \<and> diag_resolution (current st) = RESOLVED)\<rparr>)"

section \<open>The graph\<close>

datatype node =
    Assess | Select_Action | Validate_Action | Execute_Tool | Check_Novelty | Normalize_Observation
  | Rebuild_Hypotheses | Check_Progress | Finalize

definition route_unless_stopped :: "node \<Rightarrow> loop_state \<Rightarrow> node" where
  "route_unless_stopped n st = (if stop st \<noteq> None then Finalize else n)"

definition route_after_validate :: "loop_state \<Rightarrow> node" where
  "route_after_validate st =
     (if validation_status st = Some INVALID_RETRY then Select_Action
      else if validation_status st \<in> {Some INVALID_EXHAUSTED, Some VALID_STOP} \<or> stop st \<noteq> None then Finalize
      else if validation_status st = Some VALID_INSPECT then Execute_Tool
      else Finalize)"

text \<open>One node and the edge taken out of it.\<close>

fun graph_step ::
  "world \<Rightarrow> investigation_config \<Rightarrow> runner \<Rightarrow> node \<Rightarrow> loop_state \<Rightarrow> (node \<times> loop_state) result" where
  "graph_step w cfg r Assess st = (let st1 = assess cfg r st in Inr (route_unless_stopped Select_Action st1, st1))"
| "graph_step w cfg r Select_Action st =
     and_then (select_action w cfg r st) (\<lambda>st1. Inr (route_unless_stopped Validate_Action st1, st1))"
| "graph_step w cfg r Validate_Action st =
     and_then (validate w cfg st) (\<lambda>st1. Inr (route_after_validate st1, st1))"
| "graph_step w cfg r Execute_Tool st = and_then (execute_tool w st) (\<lambda>st1. Inr (Check_Novelty, st1))"
| "graph_step w cfg r Check_Novelty st = and_then (check_novelty w st) (\<lambda>st1. Inr (Normalize_Observation, st1))"
| "graph_step w cfg r Normalize_Observation st =
     and_then (normalize_node w r st) (\<lambda>st1. Inr (Rebuild_Hypotheses, st1))"
| "graph_step w cfg r Rebuild_Hypotheses st = and_then (rebuild w st) (\<lambda>st1. Inr (Check_Progress, st1))"
| "graph_step w cfg r Check_Progress st =
     and_then (check_progress w cfg r st) (\<lambda>st1. Inr (route_unless_stopped Select_Action st1, st1))"
| "graph_step w cfg r Finalize st = Inr (Finalize, st)"

text \<open>The graph runs until the final node; \<open>None\<close> is a run that took more than the given number of nodes.\<close>

fun run_graph ::
  "world \<Rightarrow> investigation_config \<Rightarrow> runner \<Rightarrow> nat \<Rightarrow> node \<Rightarrow> loop_state \<Rightarrow> investigation_result result option" where
  "run_graph w cfg r n Finalize st = Some (finalize st)"
| "run_graph w cfg r 0 v st = None"
| "run_graph w cfg r (Suc n) v st =
     (case graph_step w cfg r v st of
        Inl e \<Rightarrow> Some (Inl e)
      | Inr (v1, st1) \<Rightarrow> run_graph w cfg r n v1 st1)"

definition no_labels :: choice_labels where
  "no_labels = \<lparr>intent_id = None, intent_kind = None, selection_candidates = [], selection_strategy = None,
     selection_reason = None, baseline_candidate = None, active_candidate = None\<rparr>"

text \<open>\<open>build_investigation_state\<close>, with the case and the evidence store of the runtime.\<close>

definition initial_state :: "world \<Rightarrow> rca_case \<Rightarrow> evidence_store \<Rightarrow> investigated_diagnosis \<Rightarrow> loop_state" where
  "initial_state w c table d =
     \<lparr>current = d, initial_diagnosis = d, observations = [], ledger = [], action_audits = [], acquired_findings = [],
      acquired_refs = [], attempted_actions = [], attempted_observations = [], successful_reads = [],
      covered_atoms = [], exploration_progress = False, pending_labels = no_labels, attempted_gaps = [],
      pending_action = None, pending_observation = None, pending_findings = [], pending_returned = [],
      pending_new = [], pending_known = [], previous_resolution = diag_resolution d,
      previous_gaps = gap_fingerprint d, previous_evidence = evidence_fingerprint c,
      previous_hypotheses = hypothesis_fingerprint d, previous_world = world_fingerprint w c,
      frontier_queried = [], validation_status = None, turns = 0, model_calls = 0, tool_calls = 0,
      invalid_actions = 0, rejected_actions = 0, no_progress_count = 0, last_finding_count = 0,
      last_raw_count = 0, stop = None, last_rejection = None, evidence_table = table, base_case = c,
      cached_case = (([], []), c), played = 0\<rparr>"

text \<open>Enough nodes for every run: seven for each turn that is allowed, the first, and the last selection.\<close>

definition node_bound :: "investigation_config \<Rightarrow> nat" where
  "node_bound cfg = 7 * max_turns cfg + 2"

definition investigate ::
  "world \<Rightarrow> investigation_config \<Rightarrow> runner \<Rightarrow> rca_case \<Rightarrow> evidence_store \<Rightarrow> investigation_result result option" where
  "investigate w cfg r c table =
     run_graph w cfg r (node_bound cfg) Assess (initial_state w c table (diagnose_case w c))"

end
