(* ===== verification/Investigation_Sample.thy ===== *)
theory Investigation_Sample
  imports Investigation_Graph
begin

text \<open>
  A small investigation that can be evaluated: one open gap about the configuration of a deployment, a
  history tool that returns one version of it, an engine that resolves once that version is acquired, and
  a policy that first names a gap that does not exist.
\<close>

definition sample_codec :: codec where
  "sample_codec = \<lparr>dump = (\<lambda>_. ''{}''), json_time = (\<lambda>_. ''t'')\<rparr>"

definition sample_target :: entity_ref where
  "sample_target = \<lparr>kind = ''Deployment'', name = ''cart'', namespace = ''shop''\<rparr>"

definition sample_query :: observation_query where
  "sample_query = \<lparr>query_start = Some 100, query_end = Some 200, query_reasons = [], query_contains = [], query_limit = 20\<rparr>"

definition sample_gap :: open_gap where
  "sample_gap = \<lparr>gap_dimension_of = CHANGE_TIMING,
     authorized_queries = [\<lparr>query_capability = ''history'', query_target = sample_target, query_alternatives = []\<rparr>],
     gap_id = ''g1'', missing_fact = ''when the deployment changed'', gap_resolvability = RESOLVABLE,
     gap_hypotheses = [''h1''], gap_alternatives = []\<rparr>"

definition sample_diagnosis :: "rca_case \<Rightarrow> investigated_diagnosis" where
  "sample_diagnosis c =
     (let open = (case_world c = ''base'')
      in \<lparr>diag_resolution = (if open then INSUFFICIENT_EVIDENCE else RESOLVED),
          diag_status = (if open then INVESTIGATION_OPEN else INVESTIGATION_NOT_REQUIRED),
          information_gaps = (if open then [sample_gap] else []), diag_structural = [], diag_hypothesis = None,
          alternative_hypotheses = [], ambiguous_hypotheses = [], diag_root = (if open then None else Some sample_target),
          hypothesis_audits = [], trace_answers = []\<rparr>)"

definition sample_case :: rca_case where
  "sample_case = \<lparr>case_findings = [], case_hypotheses = [], case_structural = [], case_world = ''base''\<rparr>"

definition sample_candidate :: observation_candidate where
  "sample_candidate = \<lparr>candidate_id = ''c1'', candidate_capability = ''history'', candidate_target = sample_target,
     candidate_query = sample_query, candidate_gaps = [''g1''],
     discriminators = [\<lparr>discriminated_gap = ''g1'', discriminated_dimension = CHANGE_TIMING,
       discriminated_fact = ''when the deployment changed'', discrimination = JNull\<rparr>]\<rparr>"

definition sample_read :: tool_observation where
  "sample_read = \<lparr>observation_id = ''o1'', observation_gap = ''g1'', observation_capability = ''history'',
     observation_target = sample_target, observation_outcome = UNKNOWN_OUTCOME, observation_hypotheses = [],
     observation_payload = [(''versions'', JList [JStr ''v1''])], observation_pillar = None,
     observation_refs = [''v1''], observation_error = None\<rparr>"

definition sample_record :: "string \<Rightarrow> json \<Rightarrow> evidence_record option" where
  "sample_record model document =
     (case document of JStr i \<Rightarrow> Some \<lparr>record_id = i, record_type = model, record_document = document\<rparr> | _ \<Rightarrow> None)"

definition sample_world :: world where
  "sample_world = \<lparr>codec_of = sample_codec, short_hash = (\<lambda>s. s), parse_record = sample_record, base_visible = [],
     tools = [''history''], build_case = (\<lambda>rs fs. sample_case\<lparr>case_world := ''changed''\<rparr>), world_fingerprint = case_world,
     diagnose_case = sample_diagnosis, epistemic_digest = (\<lambda>d. if diag_resolution d = RESOLVED then ''resolved'' else ''open''),
     candidates_for = (\<lambda>c d. if information_gaps d = [] then [] else [sample_candidate]),
     execute_read = (\<lambda>n c g capability target query. Answered sample_read), normalize_read = (\<lambda>ob c g. (ob, []))\<rparr>"

definition sample_config :: investigation_config where
  "sample_config = \<lparr>max_turns = 4, max_model_calls = 4, max_tool_calls = 2, max_tool_calls_per_gap = 1,
     max_invalid_actions = 2, max_no_progress_rounds = 2, max_wall_time = 60\<rparr>"

definition sample_action :: "string \<Rightarrow> investigation_action" where
  "sample_action g = \<lparr>action_kind = INSPECT, action_gap = Some g, action_capability = Some ''history'',
     action_target = Some sample_target, action_query = None, rationale = ''''\<rparr>"

definition sample_policy :: runner where
  "sample_policy = \<lparr>semantic_kind = ACTION, counts_as_model = True,
     answer_turn = (\<lambda>c st. (Chosen (Some (sample_action (if turns st = 0 then ''g0'' else ''g1''))) no_labels, 1)),
     wall_clock = (\<lambda>_. False), recorded_terminal = None, playback = None\<rparr>"

lemma sample_run:
  "case investigate sample_world sample_config sample_policy sample_case [] of
     Some (Inr x) \<Rightarrow> result_stop x = Stop_Resolved \<and> result_turns x = 2 \<and> result_tool_calls x = 1
       \<and> result_rejected x = 1 \<and> result_model_calls x = 2 \<and> result_new_refs x = [''v1''] \<and> resolved_here x
   | _ \<Rightarrow> False"
  by code_simp

lemma sample_returns:
  obtains x where "investigate sample_world sample_config sample_policy sample_case [] = Some (Inr x)"
    "result_turns x = 2" "result_tool_calls x = 1" "result_rejected x = 1" "result_model_calls x = 2"
  using sample_run by (auto split: option.splits sum.splits)

text \<open>The node a run is at after a number of steps.\<close>

fun after_nodes ::
  "world \<Rightarrow> investigation_config \<Rightarrow> runner \<Rightarrow> nat \<Rightarrow> node \<Rightarrow> loop_state \<Rightarrow> (node \<times> loop_state) result" where
  "after_nodes w cfg r 0 v st = Inr (v, st)"
| "after_nodes w cfg r (Suc n) v st =
     (if v = Finalize then Inr (v, st)
      else and_then (graph_step w cfg r v st) (\<lambda>(v1, st1). after_nodes w cfg r n v1 st1))"

lemma sample_reads:
  "case after_nodes sample_world sample_config sample_policy 5 Assess
       (initial_state sample_world sample_case [] (sample_diagnosis sample_case)) of
     Inr (v, st) \<Rightarrow> v = Execute_Tool \<and> turns st = 2
   | Inl _ \<Rightarrow> False"
  by code_simp

end
