(* ===== verification/Investigation_Correct.thy ===== *)
theory Investigation_Correct
  imports Investigation_Sample
begin

text \<open>
  What every investigation keeps, at every node of its graph: the audits account for each turn, each
  executed read was authorized once, within its budgets, and everything acquired is in the store. From
  it: a run ends after a bounded number of nodes and only provider integrity, colliding evidence or a
  playback that left its recording can end it without a result.
\<close>

section \<open>Accounts\<close>

definition authorized_audits :: "action_audit list \<Rightarrow> action_audit list" where
  "authorized_audits audits = filter (\<lambda>a. authorization_result a = AUTHORIZED) audits"

definition read_identity :: "world \<Rightarrow> action_audit \<Rightarrow> string" where
  "read_identity w a =
     observation_identity (codec_of w) (the (action_capability (audited_action a)))
       (the (action_target (audited_action a))) (action_query (audited_action a))"

definition gap_reads :: "string \<Rightarrow> action_audit list \<Rightarrow> nat" where
  "gap_reads g audits = length (filter (\<lambda>a. action_gap (audited_action a) = Some g) (authorized_audits audits))"

definition same_account :: "(action_audit \<Rightarrow> action_audit) \<Rightarrow> bool" where
  "same_account f \<longleftrightarrow>
     (\<forall>a. authorization_result (f a) = authorization_result a \<and> audited_action (f a) = audited_action a
        \<and> audit_labels (f a) = audit_labels a)"

definition keeps_execution :: "(action_audit \<Rightarrow> action_audit) \<Rightarrow> bool" where
  "keeps_execution f \<longleftrightarrow> (\<forall>a. backend_execution (f a) = backend_execution a)"

lemma update_latest_cases: "update_latest f xs = (case rev xs of [] \<Rightarrow> [] | x # ys \<Rightarrow> rev ys @ [f x])"
proof (cases xs rule: rev_cases)
  case Nil
  then show ?thesis by (simp add: update_latest_def)
next
  case (snoc ys x)
  then show ?thesis by (simp add: update_latest_def)
qed

lemma update_latest_snoc [simp]: "update_latest f (xs @ [x]) = xs @ [f x]" "update_latest f [] = []"
  by (simp_all add: update_latest_def)

lemma update_latest_Nil_iff [simp]: "update_latest f xs = [] \<longleftrightarrow> xs = []"
  by (simp add: update_latest_def)

lemma last_update_latest [simp]: "xs \<noteq> [] \<Longrightarrow> last (update_latest f xs) = f (last xs)"
  by (simp add: update_latest_def)

lemma length_update_latest [simp]: "length (update_latest f xs) = length xs"
  by (cases xs rule: rev_cases) simp_all

lemma authorized_snoc [simp]:
  "authorized_audits [] = []"
  "authorized_audits (xs @ [a]) = authorized_audits xs @ (if authorization_result a = AUTHORIZED then [a] else [])"
  by (simp_all add: authorized_audits_def)

lemma executed_snoc [simp]:
  "executed_audits [] = 0"
  "executed_audits (xs @ [a]) = executed_audits xs + (if backend_execution a = NOT_EXECUTED then 0 else 1)"
  by (simp_all add: executed_audits_def)

lemma map_authorized_update:
  assumes "same_account f" "\<And>a. authorization_result (f a) = authorization_result a \<Longrightarrow> audited_action (f a) = audited_action a \<Longrightarrow> h (f a) = h a"
  shows "map h (authorized_audits (update_latest f xs)) = map h (authorized_audits xs)"
  using assms by (cases xs rule: rev_cases) (auto simp: same_account_def)

lemma length_authorized_update:
  "same_account f \<Longrightarrow> length (authorized_audits (update_latest f xs)) = length (authorized_audits xs)"
  using map_authorized_update [of f "\<lambda>_. ()"] by (metis length_map)

lemma gap_reads_update: "same_account f \<Longrightarrow> gap_reads g (update_latest f xs) = gap_reads g xs"
  by (cases xs rule: rev_cases) (auto simp: same_account_def gap_reads_def)

lemma executed_update:
  "keeps_execution f \<Longrightarrow> executed_audits (update_latest f xs) = executed_audits xs"
  by (cases xs rule: rev_cases) (auto simp: keeps_execution_def)

definition rejected_count :: "action_audit list \<Rightarrow> nat" where
  "rejected_count audits = length (filter (\<lambda>a. authorization_result a = REJECTED) audits)"

lemma rejected_update: "same_account f \<Longrightarrow> rejected_count (update_latest f xs) = rejected_count xs"
  by (cases xs rule: rev_cases) (auto simp: same_account_def rejected_count_def)

section \<open>The invariant\<close>

definition stored_refs :: "loop_state \<Rightarrow> bool" where
  "stored_refs st \<longleftrightarrow> (\<forall>i\<in>set (acquired_refs st). map_of (evidence_table st) i \<noteq> None)"

definition accounted :: "world \<Rightarrow> investigation_config \<Rightarrow> loop_state \<Rightarrow> bool" where
  "accounted w cfg st \<longleftrightarrow>
     attempted_actions st = map (action_identity (codec_of w) \<circ> audited_action) (authorized_audits (action_audits st))
     \<and> attempted_observations st = map (read_identity w) (authorized_audits (action_audits st))
     \<and> distinct (attempted_actions st) \<and> distinct (attempted_observations st)
     \<and> (\<forall>g. g \<noteq> [] \<longrightarrow> gap_reads g (action_audits st) \<le> max_tool_calls_per_gap cfg)
     \<and> invalid_actions st = rejected_count (action_audits st) \<and> rejected_actions st = invalid_actions st
     \<and> turns st \<le> max_turns cfg \<and> tool_calls st \<le> max_tool_calls cfg
     \<and> executed_audits (action_audits st) = tool_calls st"

text \<open>The action about to be executed.\<close>

definition cleared :: "world \<Rightarrow> loop_state \<Rightarrow> investigation_action \<Rightarrow> open_gap \<Rightarrow> string \<Rightarrow> entity_ref \<Rightarrow> bool" where
  "cleared w st a g capability target \<longleftrightarrow>
     pending_action st = Some a \<and> action_kind a = INSPECT
     \<and> action_gap a = Some (gap_id g) \<and> action_capability a = Some capability \<and> action_target a = Some target
     \<and> find (\<lambda>x. gap_id x = gap_id g) (resolvable_gaps (current st)) = Some g
     \<and> capability \<in> set (tools w) \<and> authorizes g capability target
     \<and> query_refusal capability (action_query a) = None
     \<and> action_audits st \<noteq> [] \<and> audited_action (last (action_audits st)) = a
     \<and> authorization_result (last (action_audits st)) = AUTHORIZED
     \<and> backend_execution (last (action_audits st)) = NOT_EXECUTED
     \<and> (\<exists>k st1 c d. current_case w st = Inr (k, st1) \<and> c \<in> set (candidates_for w k (current st))
          \<and> d \<in> set (discriminators c) \<and> discriminated_gap d = gap_id g
          \<and> candidate_capability c = capability \<and> candidate_target c = target
          \<and> action_query a = Some (candidate_query c))"

definition read_parses :: "world \<Rightarrow> loop_state \<Rightarrow> bool" where
  "read_parses w st \<longleftrightarrow>
     (case pending_observation st of
        None \<Rightarrow> True
      | Some ob \<Rightarrow> (\<exists>rs. records_from_observation (parse_record w) ob = Inr rs))"

definition turn_ok :: "investigation_config \<Rightarrow> node \<Rightarrow> loop_state \<Rightarrow> bool" where
  "turn_ok cfg v st \<longleftrightarrow>
     (if v = Validate_Action then length (action_audits st) + 1 = turns st
      else if v = Finalize then length (action_audits st) \<le> turns st else length (action_audits st) = turns st)
     \<and> length (authorized_audits (action_audits st)) = tool_calls st + (if v = Execute_Tool then 1 else 0)
     \<and> invalid_actions st \<le> (if v = Finalize then max 1 (max_invalid_actions cfg) else max_invalid_actions cfg - 1)"

fun node_ok :: "world \<Rightarrow> investigation_config \<Rightarrow> node \<Rightarrow> loop_state \<Rightarrow> bool" where
  "node_ok w cfg Execute_Tool st \<longleftrightarrow>
     (\<exists>a g capability target. cleared w st a g capability target) \<and> tool_calls st < max_tool_calls cfg"
| "node_ok w cfg Check_Novelty st \<longleftrightarrow>
     action_audits st \<noteq> [] \<and> backend_execution (last (action_audits st)) \<noteq> NOT_EXECUTED"
| "node_ok w cfg Normalize_Observation st \<longleftrightarrow> read_parses w st"
| "node_ok w cfg Rebuild_Hypotheses st \<longleftrightarrow> read_parses w st"
| "node_ok w cfg v st \<longleftrightarrow> True"

definition base_ok :: "world \<Rightarrow> investigation_config \<Rightarrow> node \<Rightarrow> loop_state \<Rightarrow> bool" where
  "base_ok w cfg v st \<longleftrightarrow> stored_refs st \<and> accounted w cfg st \<and> turn_ok cfg v st"

definition loop_ok :: "world \<Rightarrow> investigation_config \<Rightarrow> node \<Rightarrow> loop_state \<Rightarrow> bool" where
  "loop_ok w cfg v st \<longleftrightarrow> base_ok w cfg v st \<and> node_ok w cfg v st"

text \<open>The fields the accounts are about; a node that leaves them and the turns alone keeps the accounts.\<close>

definition account :: "loop_state \<Rightarrow> (string list \<times> string list \<times> action_audit list) \<times> (nat \<times> nat \<times> nat) \<times> string list \<times> evidence_store"
  where "account st =
     ((attempted_actions st, attempted_observations st, action_audits st),
      (invalid_actions st, rejected_actions st, tool_calls st), acquired_refs st, evidence_table st)"

lemmas base_defs = base_ok_def stored_refs_def accounted_def turn_ok_def

lemma base_cong: "account st1 = account st \<Longrightarrow> turns st1 = turns st \<Longrightarrow> base_ok w cfg v st1 \<longleftrightarrow> base_ok w cfg v st"
  by (simp add: account_def base_defs)

lemma base_turn:
  assumes "base_ok w cfg Select_Action st" "account st1 = account st" "turns st1 = turns st + 1" "turns st < max_turns cfg"
  shows "base_ok w cfg Validate_Action st1" "base_ok w cfg Finalize st1"
  using assms by (auto simp: account_def base_defs)

lemma base_stop:
  "v \<in> {Assess, Select_Action, Validate_Action, Check_Progress} \<Longrightarrow> base_ok w cfg v st \<Longrightarrow> base_ok w cfg Finalize st"
  "v \<in> {Assess, Check_Progress} \<Longrightarrow> base_ok w cfg v st \<Longrightarrow> base_ok w cfg Select_Action st"
  "v \<in> {Check_Novelty, Normalize_Observation, Rebuild_Hypotheses, Check_Progress} \<Longrightarrow>
   v' \<in> {Check_Novelty, Normalize_Observation, Rebuild_Hypotheses, Check_Progress} \<Longrightarrow> base_ok w cfg v st = base_ok w cfg v' st"
  by (auto simp: base_defs)

section \<open>The case of the acquired evidence\<close>

lemma get_records_stored:
  "\<forall>i\<in>set refs. map_of t i \<noteq> None \<Longrightarrow> \<exists>rs. get_records t refs = Inr rs"
  unfolding get_records_def by (rule traverse_total) (auto simp: get_key_def)

lemma case_for_stored:
  "\<forall>i\<in>set refs. map_of (evidence_table st) i \<noteq> None \<Longrightarrow> \<exists>c st1. case_for w refs fs st = Inr (c, st1)"
  using get_records_stored [of refs "evidence_table st"] by (auto simp: case_for_def Let_def)

lemma case_for_cases:
  assumes "case_for w refs fs st = Inr (c, st1)"
  obtains "st1 = st" "refs = [] \<and> fs = []" "c = base_case st"
    | "st1 = st" "\<not> (refs = [] \<and> fs = [])" "cached_case st = ((refs, fs), c)"
    | rs where "get_records (evidence_table st) refs = Inr rs" "\<not> (refs = [] \<and> fs = [])"
        "c = build_case w rs fs" "st1 = st\<lparr>cached_case := ((refs, fs), c)\<rparr>"
proof (cases "get_records (evidence_table st) refs")
  case (Inr rs)
  show thesis
  proof (cases "refs = [] \<and> fs = []")
    case True
    then have "st1 = st" "c = base_case st" using assms Inr by (auto simp: case_for_def)
    with True show thesis using that(1) by blast
  next
    case False
    then show thesis
    proof (cases "fst (cached_case st) = (refs, fs)")
      case True
      with False assms Inr have "st1 = st" "cached_case st = ((refs, fs), c)" by (auto simp: case_for_def prod_eq_iff)
      with False show thesis using that(2) by blast
    next
      case other: False
      with False assms Inr have "c = build_case w rs fs" "st1 = st\<lparr>cached_case := ((refs, fs), c)\<rparr>"
        by (auto simp: case_for_def Let_def)
      with False Inr show thesis using that(3) by blast
    qed
  qed
qed (use assms in \<open>simp add: case_for_def\<close>)

lemma case_for_state: "case_for w refs fs st = Inr (c, st1) \<Longrightarrow> \<exists>x. st1 = st\<lparr>cached_case := x\<rparr>"
proof (erule case_for_cases)
  assume "st1 = st"
  then show "\<exists>x. st1 = st\<lparr>cached_case := x\<rparr>" by (intro exI [of _ "cached_case st"]) simp
next
  assume "st1 = st"
  then show "\<exists>x. st1 = st\<lparr>cached_case := x\<rparr>" by (intro exI [of _ "cached_case st"]) simp
qed (rule exI)

lemma case_for_again:
  assumes "case_for w refs fs st = Inr (c, st1)"
  shows "case_for w refs fs st1 = Inr (c, st1)"
  using assms
proof (cases rule: case_for_cases)
  case (3 rs)
  then have "\<not> (refs = [] \<and> fs = [])" by simp
  then show ?thesis using 3(1,4) by (auto simp: case_for_def)
qed (use assms in simp_all)

lemma current_case_stored: "stored_refs st \<Longrightarrow> \<exists>c st1. current_case w st = Inr (c, st1)"
  unfolding current_case_def stored_refs_def by (rule case_for_stored)

lemma current_case_state: "current_case w st = Inr (c, st1) \<Longrightarrow> \<exists>x. st1 = st\<lparr>cached_case := x\<rparr>"
  unfolding current_case_def by (rule case_for_state)

lemma current_case_again:
  assumes "current_case w st = Inr (c, st1)"
  shows "current_case w st1 = Inr (c, st1)"
proof -
  obtain x where "st1 = st\<lparr>cached_case := x\<rparr>" using current_case_state [OF assms] by blast
  then have "acquired_refs st1 = acquired_refs st" "acquired_findings st1 = acquired_findings st" by simp_all
  with assms show ?thesis unfolding current_case_def using case_for_again by metis
qed

section \<open>Assess and select\<close>

lemma assess_ok:
  assumes "loop_ok w cfg Assess st"
  shows "loop_ok w cfg (route_unless_stopped Select_Action (assess cfg r st)) (assess cfg r st)"
proof -
  have "base_ok w cfg Assess (assess cfg r st)"
    using assms base_cong [of "assess cfg r st" st] by (simp add: loop_ok_def account_def assess_def)
  then show ?thesis
    using base_stop(1,2) [of Assess w cfg] by (simp add: loop_ok_def route_unless_stopped_def)
qed

lemma play_account:
  "play_recorded_turn p st = Inr st1 \<Longrightarrow> account st1 = account st \<and> turns st1 = turns st + 1"
  by (auto simp: play_recorded_turn_def account_def Let_def split: if_splits)

lemma apply_selection_account:
  "account (apply_selection r x st) = account st \<and> turns (apply_selection r x st) = turns st + 1"
  by (simp add: apply_selection_def account_def Let_def split: prod.split selection.split)

lemma case_account: "current_case w st = Inr (c, st1) \<Longrightarrow> account st1 = account st \<and> turns st1 = turns st"
  by (drule current_case_state) (auto simp: account_def)

lemma select_cases:
  assumes "select_action w cfg r st = Inr st1"
  obtains x where "st1 = st\<lparr>stop := Some x\<rparr>"
      "max_turns cfg \<le> turns st \<and> x = Turn_Budget \<or> max_tool_calls cfg \<le> tool_calls st \<and> x = Tool_Budget
       \<or> model_budget_exhausted cfg r st \<and> x = Model_Budget"
    | "turns st < max_turns cfg" "tool_calls st < max_tool_calls cfg" "account st1 = account st" "turns st1 = turns st + 1"
proof -
  consider (early) "max_turns cfg \<le> turns st \<or> max_tool_calls cfg \<le> tool_calls st \<or> model_budget_exhausted cfg r st"
    | (go) "turns st < max_turns cfg" "tool_calls st < max_tool_calls cfg" "\<not> model_budget_exhausted cfg r st"
    by linarith
  then show thesis
  proof cases
    case early
    then show thesis using assms that(1) by (auto simp: select_action_def split: if_splits)
  next
    case go
    with assms obtain c st0 where c: "current_case w st = Inr (c, st0)"
      and st1: "(case playback r of Some p \<Rightarrow> play_recorded_turn p st0
                | None \<Rightarrow> Inr (apply_selection r (answer_turn r c st0) st0)) = Inr st1"
      by (auto simp: select_action_def)
    have "account st1 = account st0 \<and> turns st1 = turns st0 + 1"
    proof (cases "playback r")
      case None
      then show ?thesis using st1 apply_selection_account [of r "answer_turn r c st0" st0] by auto
    next
      case (Some p)
      then show ?thesis using st1 play_account [of p st0 st1] by simp
    qed
    with case_account [OF c] go show thesis using that(2) by simp
  qed
qed

lemma select_ok:
  assumes run: "select_action w cfg r st = Inr st1" and ok: "loop_ok w cfg Select_Action st"
  shows "loop_ok w cfg (route_unless_stopped Validate_Action st1) st1"
    and "stop st1 = None \<Longrightarrow> turns st1 = turns st + 1 \<and> turns st < max_turns cfg"
proof -
  have base: "base_ok w cfg Select_Action st" using ok by (simp add: loop_ok_def)
  from run have "loop_ok w cfg (route_unless_stopped Validate_Action st1) st1
      \<and> (stop st1 = None \<longrightarrow> turns st1 = turns st + 1 \<and> turns st < max_turns cfg)"
  proof (cases rule: select_cases)
    case (1 x)
    then have "base_ok w cfg Select_Action st1" using base base_cong [of st1 st] by (simp add: account_def)
    then show ?thesis using 1 base_stop(1) [of Select_Action w cfg st1] by (simp add: loop_ok_def route_unless_stopped_def)
  next
    case 2
    then show ?thesis using base_turn [OF base 2(3,4,1)] by (simp add: loop_ok_def route_unless_stopped_def)
  qed
  then show "loop_ok w cfg (route_unless_stopped Validate_Action st1) st1"
    and "stop st1 = None \<Longrightarrow> turns st1 = turns st + 1 \<and> turns st < max_turns cfg" by simp_all
qed

lemma select_error:
  assumes "select_action w cfg r st = Inl e" "loop_ok w cfg Select_Action st"
  shows "e = ReplayTrajectoryDivergence \<and> playback r \<noteq> None"
proof -
  obtain c st0 where "current_case w st = Inr (c, st0)"
    using current_case_stored [of st w] assms(2) by (auto simp: loop_ok_def base_ok_def)
  with assms(1) show ?thesis
    by (auto simp: select_action_def play_recorded_turn_def Let_def split: if_splits option.splits)
qed

section \<open>Validate\<close>

lemma validate_action_Allowed:
  assumes "validate_action c cfg gaps ts attempted observed calls a = Allowed" "action_kind a = INSPECT"
  obtains g capability target where "action_gap a = Some (gap_id g)" "action_capability a = Some capability"
    "action_target a = Some target" "find (\<lambda>x. gap_id x = gap_id g) gaps = Some g" "capability \<in> set ts"
    "query_refusal capability (action_query a) = None" "authorizes g capability target"
    "action_identity c a \<notin> set attempted" "observation_identity c capability target (action_query a) \<notin> set observed"
    "calls < max_tool_calls cfg" "attempts_on (gap_id g) attempted < max_tool_calls_per_gap cfg"
proof -
  obtain i capability target where a: "action_gap a = Some i" "action_capability a = Some capability" "action_target a = Some target"
    using assms by (auto simp: validate_action_def split: option.splits)
  have q: "query_refusal capability (action_query a) = None"
    and v: "inspect_validation c cfg gaps ts attempted observed calls a i capability target = Allowed"
    using assms a by (auto simp: validate_action_def split: option.splits)
  obtain g where g: "find (\<lambda>x. gap_id x = i) gaps = Some g" using v by (auto simp: inspect_validation_def split: option.splits)
  have i: "i = gap_id g" using find_Some_set [OF g] by simp
  show thesis
    by (rule that [OF _ a(2,3) _ _ q, where g = g])
      (use v g a(1) in \<open>auto simp: inspect_validation_def i split: if_splits\<close>)
qed

lemma filter_length_le: "(\<And>x. P x \<Longrightarrow> Q x) \<Longrightarrow> length (filter P xs) \<le> length (filter Q xs)"
  by (induction xs) auto

lemma gap_reads_attempts:
  assumes "g \<noteq> []"
  shows "gap_reads g audits \<le> attempts_on g (map (action_identity c \<circ> audited_action) (authorized_audits audits))"
proof -
  have "starts_with (g @ ''|'') (action_identity c (audited_action a))" if "action_gap (audited_action a) = Some g" for a
    using assms that by (cases g) (auto simp: action_identity_def or_dash_def starts_with_def)
  then show ?thesis
    unfolding gap_reads_def attempts_on_def filter_map length_map comp_def
    by (rule filter_length_le) blast
qed

lemma reject_ok:
  assumes "base_ok w cfg Validate_Action st"
  shows "loop_ok w cfg (route_after_validate (reject w cfg a reason st)) (reject w cfg a reason st)"
    and "route_after_validate (reject w cfg a reason st) \<in> {Select_Action, Finalize}"
    and "turns (reject w cfg a reason st) = turns st"
  using assms
  by (auto simp: loop_ok_def base_defs reject_def Let_def route_after_validate_def unexecuted_audit_def new_audit_def
      rejected_count_def gap_reads_def)

lemma stop_by_policy_ok:
  assumes "base_ok w cfg Validate_Action st"
  shows "loop_ok w cfg (route_after_validate (stop_by_policy w a st)) (stop_by_policy w a st)"
    and "route_after_validate (stop_by_policy w a st) = Finalize" "turns (stop_by_policy w a st) = turns st"
  using assms
  by (auto simp: loop_ok_def base_defs stop_by_policy_def Let_def route_after_validate_def unexecuted_audit_def new_audit_def
      rejected_count_def gap_reads_def)

lemma authorize_base:
  assumes ok: "base_ok w cfg Validate_Action st" and a: "action_capability a = Some capability" "action_target a = Some target"
    and new: "action_identity (codec_of w) a \<notin> set (attempted_actions st)"
      "observation_identity (codec_of w) capability target (action_query a) \<notin> set (attempted_observations st)"
    and room: "\<And>i. action_gap a = Some i \<Longrightarrow> attempts_on i (attempted_actions st) < max_tool_calls_per_gap cfg"
  shows "base_ok w cfg Execute_Tool (authorize w a capability target g disc st)"
proof -
  have acts: "attempted_actions st = map (action_identity (codec_of w) \<circ> audited_action) (authorized_audits (action_audits st))"
    using ok by (simp add: base_defs)
  have gaps: "gap_reads i (action_audits (authorize w a capability target g disc st)) \<le> max_tool_calls_per_gap cfg"
    if "i \<noteq> []" for i
  proof (cases "action_gap a = Some i")
    case True
    have "gap_reads i (action_audits st) \<le> attempts_on i (attempted_actions st)"
      using gap_reads_attempts [OF that] acts by simp
    with room [OF True] True show ?thesis by (simp add: authorize_def Let_def gap_reads_def new_audit_def)
  next
    case False
    then show ?thesis using ok that by (simp add: authorize_def Let_def gap_reads_def new_audit_def base_defs)
  qed
  have read: "read_identity w b = observation_identity (codec_of w) capability target (action_query a)"
    if "audited_action b = a" for b
    using that a by (simp add: read_identity_def)
  let ?st = "authorize w a capability target g disc st"
  have audits: "\<exists>b. action_audits ?st = action_audits st @ [b] \<and> audited_action b = a \<and> authorization_result b = AUTHORIZED
      \<and> backend_execution b = NOT_EXECUTED"
    by (simp add: authorize_def Let_def new_audit_def)
  then obtain b where b: "action_audits ?st = action_audits st @ [b]" "audited_action b = a"
    "authorization_result b = AUTHORIZED" "backend_execution b = NOT_EXECUTED" by blast
  have rest: "attempted_actions ?st = attempted_actions st @ [action_identity (codec_of w) a]"
    "attempted_observations ?st = attempted_observations st @ [observation_identity (codec_of w) capability target (action_query a)]"
    "turns ?st = turns st" "tool_calls ?st = tool_calls st" "invalid_actions ?st = invalid_actions st"
    "rejected_actions ?st = rejected_actions st" "acquired_refs ?st = acquired_refs st" "evidence_table ?st = evidence_table st"
    by (simp_all add: authorize_def Let_def)
  show ?thesis
    using ok gaps new unfolding base_defs rest b(1)
    by (auto simp: b(2-4) read [OF b(2)] rejected_count_def)
qed

lemma case_hit:
  assumes "case_for w refs fs st = Inr (c, st)" "evidence_table st' = evidence_table st" "base_case st' = base_case st"
    "cached_case st' = cached_case st"
  shows "case_for w refs fs st' = Inr (c, st')"
proof -
  obtain rs where rs: "get_records (evidence_table st) refs = Inr rs"
    using assms(1) by (auto simp: case_for_def split: sum.splits)
  from assms(1) show ?thesis
  proof (cases rule: case_for_cases)
    case (3 rs')
    then have "cached_case st = ((refs, fs), c)" by (metis loop_state.select_convs(40) loop_state.surjective loop_state.update_convs(40))
    with 3(2) show ?thesis using rs assms(2-) by (auto simp: case_for_def)
  qed (use rs assms(2-) in \<open>auto simp: case_for_def\<close>)
qed

lemma first_some_Some: "first_some f xs = Some y \<Longrightarrow> \<exists>x\<in>set xs. f x = Some y"
  by (induction xs) (auto split: option.splits)

lemma discriminator_for_Some:
  assumes "discriminator_for candidates a = Some (c, d)" "action_gap a = Some g" "action_capability a = Some capability"
    "action_target a = Some target"
  shows "c \<in> set candidates \<and> d \<in> set (discriminators c) \<and> discriminated_gap d = g
    \<and> candidate_capability c = capability \<and> candidate_target c = target
    \<and> (action_query a = None \<or> action_query a = Some (candidate_query c))"
proof -
  have "action_kind a = INSPECT" using assms(1) by (cases "action_kind a") (auto simp: discriminator_for_def)
  with assms obtain x where x: "x \<in> set candidates" "candidate_match a g capability target x = Some (c, d)"
    by (auto simp: discriminator_for_def dest: first_some_Some)
  from x(2) have "x = c" "find (\<lambda>y. discriminated_gap y = g) (discriminators c) = Some d"
    "candidate_capability c = capability" "candidate_target c = target"
    "action_query a = None \<or> action_query a = Some (candidate_query c)"
    by (auto simp: candidate_match_def split: if_splits option.splits)
  with x(1) find_Some_set [OF this(2)] show ?thesis by simp
qed

lemma with_candidate_query_simps [simp]:
  "action_kind (with_candidate_query m a) = action_kind a" "action_gap (with_candidate_query m a) = action_gap a"
  "action_capability (with_candidate_query m a) = action_capability a" "action_target (with_candidate_query m a) = action_target a"
  by (simp_all add: with_candidate_query_def split: option.split)

lemma candidate_query_filled:
  "action_query a = None \<or> action_query a = Some (candidate_query c)
   \<Longrightarrow> action_query (with_candidate_query (Some (c, d)) a) = Some (candidate_query c)"
  by (auto simp: with_candidate_query_def)

text \<open>The three ways a validated action goes on.\<close>

lemma judge_cases:
  assumes "judge w cfg m a st = Inr st1"
  obtains (rejected) reason where "st1 = reject w cfg a reason st"
    | (stopped) "action_kind a = STOP" "st1 = stop_by_policy w a st"
    | (authorized) c disc g g' capability target where "action_kind a = INSPECT" "m = Some (c, disc)"
        "gap_named st a = Some g'" "st1 = authorize w a capability target g' disc st"
        "action_gap a = Some (gap_id g)" "action_capability a = Some capability"
        "action_target a = Some target" "find (\<lambda>x. gap_id x = gap_id g) (resolvable_gaps (current st)) = Some g"
        "capability \<in> set (tools w)" "query_refusal capability (action_query a) = None" "authorizes g capability target"
        "action_identity (codec_of w) a \<notin> set (attempted_actions st)"
        "observation_identity (codec_of w) capability target (action_query a) \<notin> set (attempted_observations st)"
        "tool_calls st < max_tool_calls cfg"
        "attempts_on (gap_id g) (attempted_actions st) < max_tool_calls_per_gap cfg"
proof (cases "validate_action (codec_of w) cfg (resolvable_gaps (current st)) (tools w) (attempted_actions st)
             (attempted_observations st) (tool_calls st) a")
  case (Refused reason)
  then have "st1 = reject w cfg a reason st" using assms by (simp add: judge_def)
  then show thesis by (rule rejected)
next
  case Allowed
  show thesis
  proof (cases "action_kind a")
    case STOP
    then have "st1 = stop_by_policy w a st" using assms Allowed by (simp add: judge_def)
    with STOP show thesis by (rule stopped)
  next
    case INSPECT
    note v = validate_action_Allowed [OF Allowed INSPECT]
    show thesis
    proof (cases m)
      case None
      then have "\<exists>reason. st1 = reject w cfg a reason st" using assms Allowed INSPECT by (auto simp: judge_def)
      then show thesis using rejected by blast
    next
      case (Some cd)
      obtain c disc where cd: "cd = (c, disc)" by fastforce
      from v obtain g capability target where a: "action_gap a = Some (gap_id g)" "action_capability a = Some capability"
        "action_target a = Some target" "find (\<lambda>x. gap_id x = gap_id g) (resolvable_gaps (current st)) = Some g"
        "capability \<in> set (tools w)" "query_refusal capability (action_query a) = None" "authorizes g capability target"
        "action_identity (codec_of w) a \<notin> set (attempted_actions st)"
        "observation_identity (codec_of w) capability target (action_query a) \<notin> set (attempted_observations st)"
        "tool_calls st < max_tool_calls cfg"
        "attempts_on (gap_id g) (attempted_actions st) < max_tool_calls_per_gap cfg" by blast
      obtain g' where "gap_named st a = Some g'" "st1 = authorize w a capability target g' disc st"
        using assms Allowed INSPECT Some cd a(2,3) by (auto simp: judge_def split: option.splits)
      with a INSPECT Some cd show thesis using authorized by blast
    qed
  qed
qed

lemma gap_named_resolvable:
  "find (\<lambda>x. gap_id x = i) (resolvable_gaps (current st)) = Some g \<Longrightarrow> action_gap a = Some i \<Longrightarrow> gap_named st a \<noteq> None"
  by (auto simp: gap_named_def find_None_iff resolvable_gaps_def dest!: find_Some_set)

lemma judge_error: "judge w cfg m a st \<noteq> Inl e"
proof (cases "validate_action (codec_of w) cfg (resolvable_gaps (current st)) (tools w) (attempted_actions st)
             (attempted_observations st) (tool_calls st) a")
  case Allowed
  show ?thesis
  proof (cases "action_kind a")
    case INSPECT
    from validate_action_Allowed [OF Allowed INSPECT] obtain g capability target where
      "action_gap a = Some (gap_id g)" "action_capability a = Some capability" "action_target a = Some target"
      "find (\<lambda>x. gap_id x = gap_id g) (resolvable_gaps (current st)) = Some g" by blast
    moreover from this have "gap_named st a \<noteq> None" using gap_named_resolvable by blast
    ultimately show ?thesis using Allowed INSPECT by (auto simp: judge_def split: option.split)
  qed (simp add: judge_def Allowed)
qed (simp add: judge_def)

lemma judge_ok:
  assumes run: "judge w cfg m a st = Inr st1" and base: "base_ok w cfg Validate_Action st"
    and m: "m = None \<or> (\<exists>k a0. current_case w st = Inr (k, st) \<and> m = discriminator_for (candidates_for w k (current st)) a0
        \<and> a = with_candidate_query m a0)"
  shows "loop_ok w cfg (route_after_validate st1) st1 \<and> turns st1 = turns st
    \<and> route_after_validate st1 \<in> {Select_Action, Execute_Tool, Finalize}"
  using run
proof (cases rule: judge_cases)
  case (rejected reason)
  then show ?thesis using reject_ok [OF base, of a reason] by auto
next
  case stopped
  then show ?thesis using stop_by_policy_ok [OF base, of a] by auto
next
  case (authorized c disc g g' capability target)
  let ?st = "authorize w a capability target g' disc st"
  have fields: "pending_action ?st = Some a" "current ?st = current st" "validation_status ?st = Some VALID_INSPECT"
    "stop ?st = None" "turns ?st = turns st" "acquired_refs ?st = acquired_refs st"
    "acquired_findings ?st = acquired_findings st" "evidence_table ?st = evidence_table st" "base_case ?st = base_case st"
    "cached_case ?st = cached_case st" "tool_calls ?st = tool_calls st"
    and last: "action_audits ?st \<noteq> []" "audited_action (last (action_audits ?st)) = a"
      "authorization_result (last (action_audits ?st)) = AUTHORIZED"
      "backend_execution (last (action_audits ?st)) = NOT_EXECUTED"
    by (simp_all add: authorize_def Let_def new_audit_def)
  have base1: "base_ok w cfg Execute_Tool ?st"
    by (rule authorize_base [OF base authorized(6,7,12,13)]) (use authorized(5,15) in auto)
  obtain k a0 where k: "current_case w st = Inr (k, st)" "discriminator_for (candidates_for w k (current st)) a0 = Some (c, disc)"
    "a = with_candidate_query (Some (c, disc)) a0"
    using m authorized(2) by auto
  have c: "c \<in> set (candidates_for w k (current st))" "disc \<in> set (discriminators c)" "discriminated_gap disc = gap_id g"
    "candidate_capability c = capability" "candidate_target c = target" "action_query a = Some (candidate_query c)"
    using discriminator_for_Some [OF k(2), of "gap_id g" capability target] candidate_query_filled [of a0 c disc]
      authorized(5-7) k(3) by auto
  have "current_case w ?st = Inr (k, ?st)"
    using k(1) case_hit [of w "acquired_refs st" "acquired_findings st" st k ?st] by (simp add: current_case_def fields)
  then have "cleared w ?st a g capability target"
    unfolding cleared_def fields using authorized(1,5-11) last c by blast
  then show ?thesis
    using base1 authorized(4,14) fields by (auto simp: loop_ok_def route_after_validate_def)
qed

lemma validate_ok:
  assumes run: "validate w cfg st = Inr st1" and ok: "loop_ok w cfg Validate_Action st"
  shows "loop_ok w cfg (route_after_validate st1) st1 \<and> turns st1 = turns st
    \<and> route_after_validate st1 \<in> {Select_Action, Execute_Tool, Finalize}"
proof (cases "pending_action st")
  case None
  then have st1: "st1 = st\<lparr>stop := Some Policy_Stop, validation_status := Some INVALID_EXHAUSTED\<rparr>"
    using run by (simp add: validate_def)
  then have "account st1 = account st" "turns st1 = turns st" "route_after_validate st1 = Finalize"
    by (simp_all add: account_def route_after_validate_def)
  then show ?thesis
    using ok base_cong [of st1 st] base_stop(1) [of Validate_Action w cfg st1] by (simp add: loop_ok_def)
next
  case (Some a)
  have base: "base_ok w cfg Validate_Action st" using ok by (simp add: loop_ok_def)
  show ?thesis
  proof (cases "action_kind a = STOP")
    case True
    then have "judge w cfg None a st = Inr st1" using run Some by (simp add: validate_def)
    from judge_ok [OF this base] show ?thesis by simp
  next
    case False
    with run Some obtain k st0 where k: "current_case w st = Inr (k, st0)"
      "judge w cfg (discriminator_for (candidates_for w k (current st)) a)
         (with_candidate_query (discriminator_for (candidates_for w k (current st)) a) a) st0 = Inr st1"
      by (auto simp: validate_def Let_def)
    have st0: "account st0 = account st" "turns st0 = turns st" "current st0 = current st"
      using case_account [OF k(1)] current_case_state [OF k(1)] by auto
    have "base_ok w cfg Validate_Action st0" using base base_cong [OF st0(1,2)] by simp
    from judge_ok [OF k(2) this] current_case_again [OF k(1)] st0 show ?thesis by (metis (no_types))
  qed
qed

lemma validate_error:
  assumes "loop_ok w cfg Validate_Action st"
  shows "validate w cfg st \<noteq> Inl e"
proof -
  obtain k st0 where k: "current_case w st = Inr (k, st0)"
    using current_case_stored [of st w] assms by (auto simp: loop_ok_def base_ok_def)
  show ?thesis
  proof (cases "pending_action st")
    case (Some a)
    then show ?thesis using k judge_error by (simp add: validate_def Let_def)
  qed (simp add: validate_def)
qed

section \<open>Execute and acquire\<close>

lemma record_execution_ok:
  assumes base: "base_ok w cfg Execute_Tool st" and room: "tool_calls st < max_tool_calls cfg"
    and last: "action_audits st \<noteq> []" "backend_execution (last (action_audits st)) = NOT_EXECUTED"
  shows "loop_ok w cfg Check_Novelty (record_execution ob st)" "turns (record_execution ob st) = turns st"
proof -
  let ?f = "\<lambda>a. a\<lparr>backend_execution := (if observation_error ob \<noteq> None then EXECUTION_FAILED else EXECUTION_SUCCEEDED),
          audit_observation := Some (observation_id ob), audit_outcome := Some (observation_outcome ob)\<rparr>"
  have f: "same_account ?f" by (simp add: same_account_def)
  have executed: "executed_audits (update_latest ?f (action_audits st)) = executed_audits (action_audits st) + 1"
    using last by (cases "action_audits st" rule: rev_cases) auto
  have h: "map (action_identity (codec_of w) \<circ> audited_action) (authorized_audits (update_latest ?f (action_audits st)))
      = map (action_identity (codec_of w) \<circ> audited_action) (authorized_audits (action_audits st))"
    "map (read_identity w) (authorized_audits (update_latest ?f (action_audits st)))
      = map (read_identity w) (authorized_audits (action_audits st))"
    by (rule map_authorized_update [OF f]; simp add: read_identity_def)+
  show "loop_ok w cfg Check_Novelty (record_execution ob st)" "turns (record_execution ob st) = turns st"
    using base room last(1) f executed h
    by (auto simp: loop_ok_def base_defs record_execution_def length_authorized_update gap_reads_update rejected_update)
qed

lemma execute_cases:
  assumes ok: "loop_ok w cfg Execute_Tool st"
  obtains (read) ob st1 where "execute_tool w st = Inr (record_execution ob st1)" "account st1 = account st" "turns st1 = turns st"
    | (lost) err where "execute_tool w st = Inl (ProviderIntegrityError err)"
proof -
  obtain a g capability target where a: "cleared w st a g capability target" using ok by (auto simp: loop_ok_def)
  then obtain k st1 where k: "current_case w st = Inr (k, st1)" by (auto simp: cleared_def)
  have pre: "pending_action st = Some a" "action_gap a = Some (gap_id g)" "action_capability a = Some capability"
    "action_target a = Some target" "find (\<lambda>x. gap_id x = gap_id g) (resolvable_gaps (current st)) = Some g"
    "capability \<in> set (tools w)" using a by (simp_all add: cleared_def)
  show thesis
  proof (cases "execute_read w (tool_calls st) k g capability target (action_query a)")
    case (Answered ob)
    then show thesis using read [of ob st1] pre k case_account [OF k] by (simp add: execute_tool_def)
  next
    case (Tool_Raised err)
    then show thesis
      using read [of "failed_observation w g capability target err" st1] pre k case_account [OF k] by (simp add: execute_tool_def)
  next
    case (Integrity_Lost err)
    then show thesis using lost pre k by (simp add: execute_tool_def)
  qed
qed

lemma execute_ok:
  assumes run: "execute_tool w st = Inr st1" and ok: "loop_ok w cfg Execute_Tool st"
  shows "loop_ok w cfg Check_Novelty st1 \<and> turns st1 = turns st"
  using ok
proof (cases rule: execute_cases)
  case (read ob st0)
  have audits: "action_audits st0 = action_audits st" "tool_calls st0 = tool_calls st"
    using read(2) by (simp_all add: account_def)
  have "base_ok w cfg Execute_Tool st0" using ok base_cong [OF read(2,3)] by (simp add: loop_ok_def)
  moreover have "tool_calls st0 < max_tool_calls cfg" "action_audits st0 \<noteq> []"
    "backend_execution (last (action_audits st0)) = NOT_EXECUTED"
    using ok audits by (auto simp: loop_ok_def cleared_def)
  ultimately show ?thesis using record_execution_ok [of w cfg st0 ob] read run by auto
qed (use run in simp)

lemma execute_error:
  assumes "execute_tool w st = Inl e" "loop_ok w cfg Execute_Tool st"
  shows "\<exists>err. e = ProviderIntegrityError err"
  using assms(2) by (rule execute_cases) (use assms(1) in auto)

text \<open>A node that only completes the latest audit.\<close>

lemma base_audits:
  assumes base: "base_ok w cfg v st" and stored: "stored_refs st1" and turns: "turns st1 = turns st"
    and audits: "action_audits st1 = update_latest f (action_audits st)" "same_account f"
      "executed_audits (update_latest f (action_audits st)) = executed_audits (action_audits st)"
    and rest: "attempted_actions st1 = attempted_actions st" "attempted_observations st1 = attempted_observations st"
      "invalid_actions st1 = invalid_actions st" "rejected_actions st1 = rejected_actions st" "tool_calls st1 = tool_calls st"
  shows "base_ok w cfg v st1"
proof -
  have h: "map (action_identity (codec_of w) \<circ> audited_action) (authorized_audits (update_latest f (action_audits st)))
      = map (action_identity (codec_of w) \<circ> audited_action) (authorized_audits (action_audits st))"
    "map (read_identity w) (authorized_audits (update_latest f (action_audits st)))
      = map (read_identity w) (authorized_audits (action_audits st))"
    by (rule map_authorized_update [OF audits(2)]; simp add: read_identity_def)+
  show ?thesis
    using base stored h
    by (auto simp: base_ok_def accounted_def turn_ok_def audits turns rest length_authorized_update gap_reads_update
        rejected_update)
qed

lemma map_of_snoc:
  "map_of (d @ [(k, v)]) j = (case map_of d j of None \<Rightarrow> if j = k then Some v else None | Some y \<Rightarrow> Some y)"
  by (induction d) auto

lemma index_records_ids:
  assumes "index_records c rs d = Inr ix" "\<And>i r. map_of d i = Some r \<Longrightarrow> record_id r = i" "map_of ix i = Some r"
  shows "record_id r = i"
  using assms
proof (induction rs arbitrary: d)
  case (Cons x rs)
  show ?case
  proof (cases "map_of d (record_id x)")
    case None
    have run: "index_records c rs (d @ [(record_id x, x)]) = Inr ix" using Cons.prems(1) None by simp
    have new: "record_id q = j" if "map_of (d @ [(record_id x, x)]) j = Some q" for j q
    proof (cases "map_of d j")
      case None
      with that show ?thesis unfolding map_of_snoc by (auto split: if_splits)
    next
      case (Some y)
      with that have "map_of d j = Some q" unfolding map_of_snoc by simp
      then show ?thesis by (rule Cons.prems(2))
    qed
    show ?thesis by (rule Cons.IH [OF run new Cons.prems(3)])
  next
    case (Some y)
    then have "index_records c rs d = Inr ix" using Cons.prems(1) by (simp split: if_splits)
    then show ?thesis using Cons.IH [of d] Cons.prems(2,3) by blast
  qed
qed simp

lemma put_record_Inr:
  assumes "put_record c r t = Inr t'"
  shows "map_of t' (record_id r) \<noteq> None \<and> (\<forall>i. map_of t i \<noteq> None \<longrightarrow> map_of t' i \<noteq> None)"
proof (cases "map_of t (record_id r)")
  case None
  then have "t' = t @ [(record_id r, r)]" using assms by (simp add: put_record_def)
  then show ?thesis by (simp add: map_of_snoc split: option.split)
next
  case (Some x)
  then have "t' = t" using assms by (simp add: put_record_def split: if_splits)
  then show ?thesis using Some by simp
qed

lemma acquire_stored:
  assumes "acquire w index known is x = Inr y" "\<And>i r. map_of index i = Some r \<Longrightarrow> record_id r = i"
    "\<forall>i\<in>set (got_refs x). map_of (got_table x) i \<noteq> None"
  shows "\<forall>i\<in>set (got_refs y). map_of (got_table y) i \<noteq> None"
  using assms(1,3)
proof (induction "is" arbitrary: x)
  case (Cons i "is")
  show ?case
  proof (cases "map_of index i")
    case None
    then show ?thesis
      using Cons.prems Cons.IH [of "x\<lparr>got_known := got_known x @ [i]\<rparr>"] Cons.IH [of "x\<lparr>got_new := got_new x @ [i]\<rparr>"]
      by (cases "i \<in> known") simp_all
  next
    case (Some r)
    show ?thesis
    proof (cases "i \<in> set (base_visible w) \<or> i \<in> set (got_refs x)")
      case True
      then show ?thesis using Cons.prems Some Cons.IH [of "x\<lparr>got_known := got_known x @ [i]\<rparr>"] by simp
    next
      case False
      then obtain t where t: "put_record (codec_of w) r (got_table x) = Inr t"
        "acquire w index known is (x\<lparr>got_refs := got_refs x @ [i], got_new := got_new x @ [i], got_table := t\<rparr>) = Inr y"
        using Cons.prems(1) Some by auto
      have "map_of t i \<noteq> None" "\<And>j. map_of (got_table x) j \<noteq> None \<Longrightarrow> map_of t j \<noteq> None"
        using put_record_Inr [OF t(1)] assms(2) [OF Some] by auto
      then have "\<forall>j\<in>set (got_refs x @ [i]). map_of t j \<noteq> None" using Cons.prems(2) by auto
      then show ?thesis using Cons.IH [OF t(2)] by simp
    qed
  qed
qed simp

lemma put_record_error: "put_record c r t = Inl e \<Longrightarrow> e = evidence_collision"
  by (auto simp: put_record_def split: option.splits if_splits)

lemma and_then_Inl: "and_then r f = Inl e \<longleftrightarrow> r = Inl e \<or> (\<exists>x. r = Inr x \<and> f x = Inl e)"
  by (cases r) auto

lemma acquire_error: "acquire w index known is x = Inl e \<Longrightarrow> e = evidence_collision"
proof (induction "is" arbitrary: x)
  case (Cons i "is")
  show ?case
  proof (cases "map_of index i")
    case None
    with Cons.prems show ?thesis by (cases "i \<in> known") (auto dest: Cons.IH)
  next
    case (Some r)
    show ?thesis
    proof (cases "i \<in> set (base_visible w) \<or> i \<in> set (got_refs x)")
      case True
      with Cons.prems Some show ?thesis by (auto dest: Cons.IH)
    next
      case False
      with Cons.prems Some show ?thesis
        using put_record_error [of "codec_of w" r "got_table x" e] Cons.IH
        by (cases "put_record (codec_of w) r (got_table x)") auto
    qed
  qed
qed simp

lemma index_records_error: "index_records c rs d = Inl e \<Longrightarrow> e = evidence_collision"
  by (induction c rs d rule: index_records.induct) (auto split: option.splits if_splits)

lemma empty_payload: "observation_payload ob = [] \<Longrightarrow> records_from_observation parse ob = Inr []"
  by (simp add: records_from_observation_def payload_sources_def PAYLOAD_KEYS_def List.map_filter_def)

lemma executed_again:
  "xs \<noteq> [] \<Longrightarrow> backend_execution (last xs) \<noteq> NOT_EXECUTED \<Longrightarrow> backend_execution (f (last xs)) \<noteq> NOT_EXECUTED
   \<Longrightarrow> executed_audits (update_latest f xs) = executed_audits xs"
  by (cases xs rule: rev_cases) auto

lemma case_stored: "current_case w st = Inr (c, st1) \<Longrightarrow> stored_refs st1 = stored_refs st"
  using case_account [of w st c st1] by (simp add: account_def stored_refs_def)

lemma novelty_ok:
  assumes run: "check_novelty w st = Inr st1" and ok: "loop_ok w cfg Check_Novelty st"
  shows "loop_ok w cfg Normalize_Observation st1 \<and> turns st1 = turns st"
proof (cases "pending_observation st")
  case None
  then have st1: "st1 = st\<lparr>pending_returned := [], pending_new := [], pending_known := [], last_raw_count := 0\<rparr>"
    using run by (simp add: check_novelty_def)
  then have "account st1 = account st" "turns st1 = turns st" "read_parses w st1"
    using None by (simp_all add: account_def read_parses_def)
  then show ?thesis
    using ok base_cong [of st1 st] base_stop(3) [of Check_Novelty Normalize_Observation] by (auto simp: loop_ok_def)
next
  case (Some ob)
  obtain c st0 where c: "current_case w st = Inr (c, st0)"
    using current_case_stored [of st w] ok by (auto simp: loop_ok_def base_ok_def)
  have st0: "account st0 = account st" "turns st0 = turns st" by (use case_account [OF c] in auto)
  then have audits: "action_audits st0 = action_audits st" by (simp add: account_def)
  have base: "base_ok w cfg Check_Novelty st0" using ok base_cong [OF st0] by (simp add: loop_ok_def)
  have last: "action_audits st0 \<noteq> []" "backend_execution (last (action_audits st0)) \<noteq> NOT_EXECUTED"
    using ok audits by (auto simp: loop_ok_def)
  have "base_ok w cfg Check_Novelty st1 \<and> read_parses w st1 \<and> turns st1 = turns st"
  proof (cases "records_from_observation (parse_record w) ob")
    case (Inl e)
    let ?old = "filter (\<lambda>i. i \<in> known_refs w c st0) (dedup (observation_refs ob))"
    let ?fresh = "filter (\<lambda>i. i \<notin> known_refs w c st0) (dedup (observation_refs ob))"
    let ?f = "\<lambda>a. (audit_refs (dedup (observation_refs ob)) ?fresh ?old a)\<lparr>backend_execution := EXECUTION_FAILED,
      audit_observation := Some (observation_id ob), audit_outcome := Some (observation_outcome ob)\<rparr>"
    have st1: "st1 = malformed_read w ob (known_refs w c st0) st0" using run Some c Inl by (simp add: check_novelty_def)
    have f: "same_account ?f" by (simp add: same_account_def audit_refs_def)
    have e: "executed_audits (update_latest ?f (action_audits st0)) = executed_audits (action_audits st0)"
      by (rule executed_again [OF last]) simp
    have "base_ok w cfg Check_Novelty st1"
      by (rule base_audits [OF base _ _ _ f e]) (use base in \<open>simp_all add: st1 malformed_read_def Let_def base_ok_def stored_refs_def\<close>)
    moreover have "read_parses w st1"
      by (simp add: st1 malformed_read_def Let_def read_parses_def empty_payload)
    ultimately show ?thesis using st0(2) by (simp add: st1 malformed_read_def Let_def)
  next
    case (Inr records)
    obtain index where ix: "index_records (codec_of w) records [] = Inr index"
      using run Some c Inr by (auto simp: check_novelty_def)
    let ?returned = "dedup (observation_refs ob @ map fst index)"
    obtain x where x: "acquire w index (known_refs w c st0) ?returned
        \<lparr>got_refs = acquired_refs st0, got_new = [], got_known = [], got_table = evidence_table st0\<rparr> = Inr x"
      using run Some c Inr ix by (auto simp: check_novelty_def Let_def)
    let ?f = "audit_refs ?returned (got_new x) (got_known x)"
    have st1: "st1 = st0\<lparr>action_audits := update_latest ?f (action_audits st0), pending_returned := ?returned,
        pending_new := got_new x, pending_known := got_known x, acquired_refs := dedup (got_refs x),
        evidence_table := got_table x, last_raw_count := length (got_new x)\<rparr>"
      using run Some c Inr ix x by (simp add: check_novelty_def Let_def)
    have "\<forall>i\<in>set (got_refs x). map_of (got_table x) i \<noteq> None"
      by (rule acquire_stored [OF x]) (use base index_records_ids [OF ix] in \<open>auto simp: base_ok_def stored_refs_def\<close>)
    then have stored: "stored_refs st1" by (simp add: st1 stored_refs_def)
    have f: "same_account ?f" by (simp add: same_account_def audit_refs_def)
    have e: "executed_audits (update_latest ?f (action_audits st0)) = executed_audits (action_audits st0)"
      by (rule executed_again [OF last]) (simp add: audit_refs_def last)
    have "base_ok w cfg Check_Novelty st1"
      by (rule base_audits [OF base stored _ _ f e]) (simp_all add: st1)
    moreover have "pending_observation st0 = Some ob" using Some current_case_state [OF c] by auto
    ultimately show ?thesis using st0(2) Inr by (simp add: st1 read_parses_def)
  qed
  then show ?thesis using base_stop(3) [of Check_Novelty Normalize_Observation w cfg st1] by (auto simp: loop_ok_def)
qed

lemma novelty_error:
  assumes run: "check_novelty w st = Inl e" and ok: "loop_ok w cfg Check_Novelty st"
  shows "e = evidence_collision"
proof -
  obtain c st0 where c: "current_case w st = Inr (c, st0)"
    using current_case_stored [of st w] ok by (auto simp: loop_ok_def base_ok_def)
  obtain ob where ob: "pending_observation st = Some ob" using run by (auto simp: check_novelty_def split: option.splits)
  with run c show ?thesis
    by (cases "records_from_observation (parse_record w) ob")
       (auto simp: check_novelty_def Let_def and_then_Inl dest: acquire_error index_records_error)
qed

section \<open>Normalize and rebuild\<close>

lemma explore_Some:
  assumes "explored_read w r ob st = Some i" "atoms_of_read w i st = Inr (atoms, st0)"
  shows "\<exists>reads covered moved. explore w r ob st
    = Inr (st0\<lparr>successful_reads := reads, covered_atoms := covered, exploration_progress := moved\<rparr>)"
proof -
  obtain reads covered moved where
    "record_successful_exploration (successful_reads st0) (covered_atoms st0) i False atoms = (reads, covered, moved)"
    by (metis prod_cases3)
  with assms have "explore w r ob st
      = Inr (st0\<lparr>successful_reads := reads, covered_atoms := covered, exploration_progress := moved\<rparr>)"
    by (simp add: explore_def)
  then show ?thesis by blast
qed

lemma explore_frame:
  assumes "explore w r ob st = Inr st1"
  shows "account st1 = account st \<and> turns st1 = turns st \<and> pending_observation st1 = pending_observation st"
proof (cases "explored_read w r ob st")
  case None
  then have "st1 = st\<lparr>covered_atoms := sorted_set (covered_atoms st), exploration_progress := False\<rparr>"
    using assms by (simp add: explore_def)
  then show ?thesis by (simp add: account_def)
next
  case (Some i)
  obtain atoms st0 where st0: "atoms_of_read w i st = Inr (atoms, st0)"
    and st1: "\<exists>reads covered moved. st1 = st0\<lparr>successful_reads := reads, covered_atoms := covered, exploration_progress := moved\<rparr>"
  proof -
    obtain atoms st0 where "atoms_of_read w i st = Inr (atoms, st0)"
      using assms Some by (cases "atoms_of_read w i st") (auto simp: explore_def)
    with explore_Some [OF Some this] assms show thesis using that by auto
  qed
  have "\<exists>x. st0 = st\<lparr>cached_case := x\<rparr>"
  proof (cases "i \<in> set (successful_reads st)")
    case True
    then have "st0 = st\<lparr>cached_case := cached_case st\<rparr>" using st0 by (simp add: atoms_of_read_def)
    then show ?thesis by blast
  next
    case False
    then obtain c where "case_for w (acquired_before st) (acquired_findings st) st = Inr (c, st0)"
      using st0 by (auto simp: atoms_of_read_def)
    then show ?thesis by (rule case_for_state)
  qed
  with st1 show ?thesis by (auto simp: account_def)
qed

lemma before_stored: "stored_refs st \<Longrightarrow> \<exists>c st1. case_for w (acquired_before st) fs st = Inr (c, st1)"
  by (rule case_for_stored) (auto simp: stored_refs_def acquired_before_def)

lemma explore_total: "stored_refs st \<Longrightarrow> \<exists>st1. explore w r ob st = Inr st1"
proof (cases "explored_read w r ob st")
  case (Some i)
  assume "stored_refs st"
  then obtain c st1 where "case_for w (acquired_before st) (acquired_findings st) st = Inr (c, st1)"
    using before_stored by blast
  then have "\<exists>atoms st0. atoms_of_read w i st = Inr (atoms, st0)"
    by (cases "i \<in> set (successful_reads st)") (simp_all add: atoms_of_read_def)
  then show ?thesis using explore_Some [OF Some] by blast
qed (simp add: explore_def)

lemma interpreted_total:
  assumes "stored_refs st"
  shows "\<exists>ob1 fs x. interpreted w ob records g st = Inr ((ob1, fs), st\<lparr>cached_case := x\<rparr>)"
proof -
  obtain c st1 where c: "current_case w st = Inr (c, st1)" using current_case_stored [OF assms] by blast
  obtain x where x: "st1 = st\<lparr>cached_case := x\<rparr>" using current_case_state [OF c] by blast
  obtain ob1 fs where n: "normalize_read w ob c g = (ob1, fs)" by fastforce
  define raw where "raw \<longleftrightarrow> records \<noteq> [] \<and> \<not> (observation_pillar ob = Some ''TEMPO'' \<and> observation_capability ob = ''runtime_traces'')"
  note unfolded = interpreted_def [of w ob records g st, unfolded Let_def, folded raw_def]
  consider (typed) "\<not> raw" | (fresh) raw "pending_new st \<noteq> []" | (old) raw "pending_new st = []" by blast
  then show ?thesis
  proof cases
    case typed
    then have "interpreted w ob records g st = Inr ((ob1, fs), st\<lparr>cached_case := x\<rparr>)"
      using c n x by (simp add: unfolded)
    then show ?thesis by blast
  next
    case fresh
    then have "interpreted w ob records g st = Inr ((ob, []), st\<lparr>cached_case := cached_case st\<rparr>)"
      by (simp add: unfolded)
    then show ?thesis by blast
  next
    case old
    then have "\<exists>ob2. interpreted w ob records g st = Inr ((ob2, []), st\<lparr>cached_case := x\<rparr>)"
      using c n x by (simp add: unfolded)
    then show ?thesis by blast
  qed
qed

lemma normalize_cases:
  assumes stored: "stored_refs st" and parses: "read_parses w st"
  obtains (idle) "pending_observation st = None"
      "normalize_node w r st = Inr (st\<lparr>last_finding_count := 0, exploration_progress := False\<rparr>)"
    | (foreign) ob st1 where "pending_observation st = Some ob" "explore w r ob st = Inr st1"
        "normalize_node w r st = Inr (account_without_gap ob st1)"
    | (read) ob st1 ob1 fs c x where "pending_observation st = Some ob" "explore w r ob st = Inr st1"
        "normalize_node w r st = Inr (account_read w ob ob1 fs c (st1\<lparr>cached_case := x\<rparr>))"
proof (cases "pending_observation st")
  case None
  then show thesis by (intro idle) (simp_all add: normalize_node_def)
next
  case (Some ob)
  obtain st1 where st1: "explore w r ob st = Inr st1" using explore_total [OF stored] by blast
  note frame = explore_frame [OF st1]
  have stored1: "stored_refs st1" using stored frame by (simp add: account_def stored_refs_def)
  obtain records where records: "records_from_observation (parse_record w) ob = Inr records"
    using parses Some by (auto simp: read_parses_def)
  show thesis
  proof (cases "find (\<lambda>g. gap_id g = observation_gap ob) (information_gaps (current st1))")
    case None
    then show thesis using foreign [OF Some st1] st1 Some by (simp add: normalize_node_def)
  next
    case gap: (Some g)
    obtain ob1 fs x where i: "interpreted w ob records g st1 = Inr ((ob1, fs), st1\<lparr>cached_case := x\<rparr>)"
      using interpreted_total [OF stored1] by blast
    obtain c y where c: "current_case w (st1\<lparr>cached_case := x\<rparr>) = Inr (c, st1\<lparr>cached_case := y\<rparr>)"
    proof -
      have "stored_refs (st1\<lparr>cached_case := x\<rparr>)" using stored1 by (simp add: stored_refs_def)
      then obtain c st2 where c: "current_case w (st1\<lparr>cached_case := x\<rparr>) = Inr (c, st2)" using current_case_stored by blast
      then obtain y where "st2 = st1\<lparr>cached_case := y\<rparr>" using current_case_state [OF c] by auto
      with c that show thesis by blast
    qed
    have "normalize_node w r st = Inr (account_read w ob ob1 fs c (st1\<lparr>cached_case := y\<rparr>))"
      by (simp add: normalize_node_def Some st1 gap records i c)
    with Some st1 show thesis by (rule read)
  qed
qed

lemma same_account_refs: "same_account (audit_refs a b c)" "keeps_execution (audit_refs a b c)"
  by (simp_all add: same_account_def keeps_execution_def audit_refs_def)

lemma normalize_ok:
  assumes ok: "loop_ok w cfg Normalize_Observation st"
  obtains st1 where "normalize_node w r st = Inr st1" "loop_ok w cfg Rebuild_Hypotheses st1" "turns st1 = turns st"
proof -
  have base: "base_ok w cfg Normalize_Observation st" and parses: "read_parses w st" and stored: "stored_refs st"
    using ok by (simp_all add: loop_ok_def base_ok_def)
  have frame: "base_ok w cfg Normalize_Observation st' \<and> stored_refs st' \<and> turns st' = turns st \<and> read_parses w st'"
    if "explore w r ob st = Inr st'" for ob st'
    using explore_frame [OF that] base base_cong [of st' st] parses by (auto simp: read_parses_def base_ok_def)
  note finish = that
  have done': thesis if run: "normalize_node w r st = Inr st1" and "base_ok w cfg Normalize_Observation st1" "turns st1 = turns st"
    "read_parses w st1" for st1
    by (rule finish [OF run]) (use that base_stop(3) [of Normalize_Observation Rebuild_Hypotheses w cfg st1] in \<open>auto simp: loop_ok_def\<close>)
  from stored parses show thesis
  proof (cases rule: normalize_cases [where r = r])
    case idle
    then show thesis
      using done' [OF idle(2)] base base_cong [of "st\<lparr>last_finding_count := 0, exploration_progress := False\<rparr>" st]
      by (simp add: account_def read_parses_def)
  next
    case (foreign ob st1)
    let ?f = "audit_refs (pending_returned st1) (pending_new st1) (pending_known st1)"
    note f = same_account_refs [of "pending_returned st1" "pending_new st1" "pending_known st1"]
    have "base_ok w cfg Normalize_Observation (account_without_gap ob st1)"
      by (rule base_audits [OF _ _ _ _ f(1) executed_update [OF f(2)], of w cfg _ st1])
         (use frame [OF foreign(2)] in \<open>simp_all add: account_without_gap_def stored_refs_def\<close>)
    then show thesis
      by (rule done' [OF foreign(3)]) (use frame [OF foreign(2)] in \<open>simp_all add: account_without_gap_def read_parses_def\<close>)
  next
    case (read ob st1 ob1 fs c x)
    let ?st2 = "st1\<lparr>cached_case := x\<rparr>"
    let ?st3 = "account_read w ob ob1 fs c ?st2"
    have "\<exists>f. action_audits ?st3 = update_latest f (action_audits st1) \<and> same_account f \<and> keeps_execution f"
      by (rule exI [of _ "\<lambda>a. (audit_refs (ledger_returned (last (ledger ?st3))) (ledger_new (last (ledger ?st3)))
              (ledger_known (last (ledger ?st3))) a)
                \<lparr>audit_observation := Some (observation_id ob1), audit_outcome := Some (observation_outcome ob1),
                 audit_findings := ledger_findings (last (ledger ?st3)), audit_hypotheses := observation_hypotheses ob1\<rparr>"])
         (simp add: account_read_def Let_def same_account_def keeps_execution_def audit_refs_def ledger_entry_of_def)
    then obtain f where f: "action_audits ?st3 = update_latest f (action_audits st1)" "same_account f" "keeps_execution f" by blast
    have "base_ok w cfg Normalize_Observation ?st3"
      by (rule base_audits [OF _ _ _ f(1,2) executed_update [OF f(3)]])
         (use frame [OF read(2)] in \<open>simp_all add: account_read_def Let_def stored_refs_def\<close>)
    then show thesis
      by (rule done' [OF read(3)]) (use frame [OF read(2)] in \<open>simp_all add: account_read_def Let_def read_parses_def\<close>)
  qed
qed

lemma native_total: "read_parses w st \<Longrightarrow> \<exists>rs. native_records w st = Inr rs"
  by (auto simp: native_records_def read_parses_def split: option.splits)

lemma same_account_rebuild:
  "same_account (merge_entry entries \<circ> with_after_state w d)" "keeps_execution (merge_entry entries \<circ> with_after_state w d)"
  by (simp_all add: same_account_def keeps_execution_def merge_entry_def with_after_state_def Let_def)

lemma attribute_frame:
  "account (attribute_read c derived native st) = account st" "turns (attribute_read c derived native st) = turns st"
  by (simp_all add: attribute_read_def Let_def account_def)

lemma rebuild_ok:
  assumes ok: "loop_ok w cfg Rebuild_Hypotheses st"
  obtains st1 where "rebuild w st = Inr st1" "loop_ok w cfg Check_Progress st1" "turns st1 = turns st"
proof -
  have base: "base_ok w cfg Rebuild_Hypotheses st" and parses: "read_parses w st" and stored: "stored_refs st"
    using ok by (simp_all add: loop_ok_def base_ok_def)
  let ?fs = "deduplicate_findings (codec_of w) (acquired_findings st @ pending_findings st)"
  obtain before x where before: "case_for w (acquired_before st) (acquired_findings st) st = Inr (before, st\<lparr>cached_case := x\<rparr>)"
    using before_stored [OF stored] case_for_state by metis
  obtain c y where c: "case_for w (acquired_refs st) ?fs (st\<lparr>cached_case := x\<rparr>) = Inr (c, st\<lparr>cached_case := y\<rparr>)"
  proof -
    have "\<forall>i\<in>set (acquired_refs st). map_of (evidence_table (st\<lparr>cached_case := x\<rparr>)) i \<noteq> None"
      using stored by (simp add: stored_refs_def)
    from case_for_stored [OF this] obtain c st2 where
      c: "case_for w (acquired_refs st) ?fs (st\<lparr>cached_case := x\<rparr>) = Inr (c, st2)" by blast
    with case_for_state [OF c] that show thesis by auto
  qed
  obtain rs where rs: "native_records w (st\<lparr>cached_case := y\<rparr>) = Inr rs"
    using native_total [of w "st\<lparr>cached_case := y\<rparr>"] parses by (auto simp: read_parses_def)
  obtain d st3 where run: "rebuild w st = Inr (st3\<lparr>action_audits := update_latest (merge_entry (ledger st3) \<circ> with_after_state w d)
      (action_audits st3), current := d, acquired_findings := ?fs\<rparr>)"
    and st3: "account st3 = account st" "turns st3 = turns st"
  proof -
    let ?c1 = "c\<lparr>case_structural := apply_frontier_progress (case_structural c) (case_hypotheses c) (frontier_queried st)\<rparr>"
    let ?st2 = "store_case (acquired_refs st) ?fs ?c1 (st\<lparr>cached_case := y\<rparr>)"
    let ?derived = "map finding_label (filter (\<lambda>f. finding_identity (codec_of w) f
      \<notin> finding_identity (codec_of w) ` set (case_findings before)) (case_findings ?c1))"
    have "account ?st2 = account st" "turns ?st2 = turns st" by (simp_all add: store_case_def account_def)
    then show thesis
      by (intro that [of "diagnose_case w ?c1" "attribute_read ?c1 ?derived (rs \<noteq> []) ?st2"])
         (use before c rs in \<open>simp_all add: rebuild_def Let_def attribute_frame\<close>)
  qed
  let ?st4 = "st3\<lparr>action_audits := update_latest (merge_entry (ledger st3) \<circ> with_after_state w d) (action_audits st3),
    current := d, acquired_findings := ?fs\<rparr>"
  have base3: "base_ok w cfg Rebuild_Hypotheses st3" using base base_cong [OF st3] by simp
  have "base_ok w cfg Rebuild_Hypotheses ?st4"
    by (rule base_audits [OF base3 _ _ _ same_account_rebuild(1) executed_update [OF same_account_rebuild(2)]])
       (use base3 in \<open>simp_all add: base_ok_def stored_refs_def\<close>)
  then show thesis
    by (intro that [OF run]) (use st3 base_stop(3) [of Rebuild_Hypotheses Check_Progress w cfg ?st4] in \<open>auto simp: loop_ok_def\<close>)
qed

section \<open>Progress and the graph\<close>

lemma check_progress_ok:
  assumes run: "check_progress w cfg r st = Inr st1" and ok: "loop_ok w cfg Check_Progress st"
  shows "loop_ok w cfg (route_unless_stopped Select_Action st1) st1 \<and> turns st1 = turns st"
proof -
  obtain c st0 where c: "current_case w st = Inr (c, st0)"
    using current_case_stored [of st w] ok by (auto simp: loop_ok_def base_ok_def)
  note frame = case_account [OF c]
  have base: "base_ok w cfg Check_Progress st0" using ok frame base_cong [of st0 st] by (simp add: loop_ok_def)
  have st1: "action_audits st1 = classify_latest w st0" "turns st1 = turns st0" "stored_refs st1 = stored_refs st0"
    "attempted_actions st1 = attempted_actions st0" "attempted_observations st1 = attempted_observations st0"
    "invalid_actions st1 = invalid_actions st0" "rejected_actions st1 = rejected_actions st0" "tool_calls st1 = tool_calls st0"
    using run c by (auto simp: check_progress_def Let_def stored_refs_def)
  let ?f = "\<lambda>a. (with_after_state w (current st0) a)\<lparr>progress_class := progress_of_audit (exploration_progress st0) a\<rparr>"
  have f: "same_account ?f" "keeps_execution ?f"
    by (simp_all add: same_account_def keeps_execution_def with_after_state_def Let_def)
  have "same_account (\<lambda>a. a)" "keeps_execution (\<lambda>a. a)" "update_latest (\<lambda>a. a) (action_audits st0) = action_audits st0"
    by (simp_all add: same_account_def keeps_execution_def update_latest_def)
  with f obtain g where g: "classify_latest w st0 = update_latest g (action_audits st0)" "same_account g" "keeps_execution g"
    unfolding classify_latest_def by metis
  have "base_ok w cfg Check_Progress st1"
    by (rule base_audits [OF base _ _ _ g(2) executed_update [OF g(3)]]) (use st1 g(1) base in \<open>simp_all add: base_ok_def\<close>)
  then show ?thesis
    using base_stop(1,2) [of Check_Progress w cfg st1] st1(2) frame by (simp add: loop_ok_def route_unless_stopped_def)
qed

lemma check_progress_error: "loop_ok w cfg Check_Progress st \<Longrightarrow> check_progress w cfg r st \<noteq> Inl e"
  using current_case_stored [of st w] by (fastforce simp: check_progress_def Let_def loop_ok_def base_ok_def)

text \<open>
  A configuration that tolerates no round without progress stops every investigation after its first read, also
  when the read made progress.
\<close>

lemma zero_rounds_stop_progress:
  assumes "check_progress w cfg r st = Inr st1" "max_no_progress_rounds cfg = 0"
    "\<not> settled_diagnosis (current st)" "resolvable_gaps (current st) \<noteq> []"
  shows "stop st1 = Some No_Progress"
proof -
  obtain c st0 where c: "current_case w st = Inr (c, st0)" using assms(1) by (auto simp: check_progress_def)
  then have "current st0 = current st" using current_case_state [OF c] by auto
  then show ?thesis using assms c by (auto simp: check_progress_def progress_stop_def Let_def)
qed

text \<open>A run comes closer to its end with every node.\<close>

fun node_rank :: "node \<Rightarrow> nat" where
  "node_rank Finalize = 0"
| "node_rank Select_Action = 1"
| "node_rank Assess = 2"
| "node_rank Check_Progress = 2"
| "node_rank Rebuild_Hypotheses = 3"
| "node_rank Normalize_Observation = 4"
| "node_rank Check_Novelty = 5"
| "node_rank Execute_Tool = 6"
| "node_rank Validate_Action = 7"

definition nodes_left :: "investigation_config \<Rightarrow> node \<Rightarrow> loop_state \<Rightarrow> nat" where
  "nodes_left cfg v st = (if v = Finalize then 0 else 7 * (max_turns cfg - turns st) + node_rank v)"

lemma graph_step_ok:
  assumes run: "graph_step w cfg r v st = Inr (v1, st1)" and ok: "loop_ok w cfg v st" and v: "v \<noteq> Finalize"
  shows "loop_ok w cfg v1 st1 \<and> nodes_left cfg v1 st1 < nodes_left cfg v st"
proof (cases v)
  case Assess
  have "turns (assess cfg r st) = turns st" by (simp add: assess_def)
  then show ?thesis
    using run ok Assess assess_ok [of w cfg st r] by (auto simp: nodes_left_def route_unless_stopped_def Let_def)
next
  case Select_Action
  then have st1: "select_action w cfg r st = Inr st1" "v1 = route_unless_stopped Validate_Action st1"
    using run by auto
  have ok': "loop_ok w cfg Select_Action st" using ok Select_Action by simp
  show ?thesis
    using select_ok [OF st1(1) ok'] st1(2) Select_Action by (auto simp: nodes_left_def route_unless_stopped_def)
next
  case Validate_Action
  then have st1: "validate w cfg st = Inr st1" "v1 = route_after_validate st1" using run by auto
  show ?thesis
    using validate_ok [OF st1(1)] ok Validate_Action st1(2) by (auto simp: nodes_left_def)
next
  case Execute_Tool
  then have st1: "execute_tool w st = Inr st1" "v1 = Check_Novelty" using run by auto
  show ?thesis using execute_ok [OF st1(1)] ok Execute_Tool st1(2) by (auto simp: nodes_left_def)
next
  case Check_Novelty
  then have st1: "check_novelty w st = Inr st1" "v1 = Normalize_Observation" using run by auto
  show ?thesis using novelty_ok [OF st1(1)] ok Check_Novelty st1(2) by (auto simp: nodes_left_def)
next
  case Normalize_Observation
  then have "loop_ok w cfg Normalize_Observation st" using ok by simp
  then obtain st2 where "normalize_node w r st = Inr st2" "loop_ok w cfg Rebuild_Hypotheses st2" "turns st2 = turns st"
    by (rule normalize_ok)
  then show ?thesis using run Normalize_Observation by (auto simp: nodes_left_def)
next
  case Rebuild_Hypotheses
  then have "loop_ok w cfg Rebuild_Hypotheses st" using ok by simp
  then obtain st2 where "rebuild w st = Inr st2" "loop_ok w cfg Check_Progress st2" "turns st2 = turns st"
    by (rule rebuild_ok)
  then show ?thesis using run Rebuild_Hypotheses by (auto simp: nodes_left_def)
next
  case Check_Progress
  then have st1: "check_progress w cfg r st = Inr st1" "v1 = route_unless_stopped Select_Action st1" using run by auto
  show ?thesis
    using check_progress_ok [OF st1(1)] ok Check_Progress st1(2) by (auto simp: nodes_left_def route_unless_stopped_def)
qed (use v in simp)

definition run_error :: "runner \<Rightarrow> py_error \<Rightarrow> bool" where
  "run_error r e \<longleftrightarrow> (\<exists>err. e = ProviderIntegrityError err) \<or> e = evidence_collision
     \<or> (e = ReplayTrajectoryDivergence \<and> playback r \<noteq> None)"

lemma graph_step_error:
  assumes run: "graph_step w cfg r v st = Inl e" and ok: "loop_ok w cfg v st"
  shows "run_error r e"
proof (cases v)
  case Select_Action
  then show ?thesis using select_error [of w cfg r st e] run ok by (auto simp: run_error_def and_then_Inl)
next
  case Validate_Action
  then show ?thesis using validate_error [of w cfg st e] run ok by (auto simp: and_then_Inl)
next
  case Execute_Tool
  then show ?thesis using execute_error [of w st e cfg] run ok by (auto simp: run_error_def and_then_Inl)
next
  case Check_Novelty
  then show ?thesis using novelty_error [of w st e cfg] run ok by (auto simp: run_error_def and_then_Inl)
next
  case Normalize_Observation
  then have "loop_ok w cfg Normalize_Observation st" using ok by simp
  then obtain st2 where "normalize_node w r st = Inr st2" by (rule normalize_ok)
  then show ?thesis using run Normalize_Observation by simp
next
  case Rebuild_Hypotheses
  then have "loop_ok w cfg Rebuild_Hypotheses st" using ok by simp
  then obtain st2 where "rebuild w st = Inr st2" by (rule rebuild_ok)
  then show ?thesis using run Rebuild_Hypotheses by simp
next
  case Check_Progress
  then show ?thesis using check_progress_error [of w cfg st r e] run ok by (auto simp: and_then_Inl)
qed (use run in \<open>simp_all add: Let_def\<close>)

lemma finalize_ok: "loop_ok w cfg Finalize st \<Longrightarrow> \<exists>x. finalize st = Inr x"
  by (simp add: finalize_def loop_ok_def base_ok_def accounted_def Let_def)

lemma run_graph_returns:
  assumes "loop_ok w cfg v st" "nodes_left cfg v st \<le> n"
  shows "(\<exists>e. run_graph w cfg r n v st = Some (Inl e) \<and> run_error r e)
    \<or> (\<exists>st'. run_graph w cfg r n v st = Some (finalize st') \<and> loop_ok w cfg Finalize st')"
  using assms
proof (induction n arbitrary: v st)
  case 0
  then have "v = Finalize" by (cases v) (auto simp: nodes_left_def)
  then show ?case using "0.prems" by auto
next
  case (Suc n)
  show ?case
  proof (cases "v = Finalize")
    case True
    then show ?thesis using Suc.prems by auto
  next
    case False
    then have step: "run_graph w cfg r (Suc n) v st = (case graph_step w cfg r v st of
        Inl e \<Rightarrow> Some (Inl e) | Inr (v1, st1) \<Rightarrow> run_graph w cfg r n v1 st1)"
      by (cases v) simp_all
    show ?thesis
    proof (cases "graph_step w cfg r v st")
      case (Inl e)
      then show ?thesis using step graph_step_error [OF Inl Suc.prems(1)] by simp
    next
      case (Inr y)
      obtain v1 st1 where y: "y = (v1, st1)" by fastforce
      from graph_step_ok [OF Inr [unfolded y] Suc.prems(1) False] Suc.prems(2)
      have "loop_ok w cfg v1 st1" "nodes_left cfg v1 st1 \<le> n" by simp_all
      from Suc.IH [OF this] show ?thesis using step Inr y by simp
    qed
  qed
qed

lemma initial_ok: "loop_ok w cfg Assess (initial_state w c table d)"
  by (simp add: loop_ok_def base_defs initial_state_def gap_reads_def rejected_count_def)

lemma investigate_cases:
  obtains (failed) e where "investigate w cfg r c table = Some (Inl e)" "run_error r e"
    | (ended) st x where "investigate w cfg r c table = Some (Inr x)" "finalize st = Inr x" "loop_ok w cfg Finalize st"
proof -
  have "nodes_left cfg Assess (initial_state w c table (diagnose_case w c)) \<le> node_bound cfg"
    by (simp add: nodes_left_def node_bound_def initial_state_def)
  from run_graph_returns [OF initial_ok this, of r] show thesis
    using finalize_ok failed ended unfolding investigate_def by metis
qed


text \<open>
  C24: An investigation stays within its budgets. It takes no more turns, and makes no more tool calls than it
  may, at most one call for a turn and for each gap no more than the budget of a gap; it gives up at the
  last invalid action it tolerates. The calls are exactly the audited actions that were authorized, and no
  two of them read the same.
\<close>

theorem investigation_within_budgets:
  assumes "investigate w cfg r c table = Some (Inr x)"
  shows "result_turns x \<le> max_turns cfg \<and> result_tool_calls x \<le> max_tool_calls cfg
    \<and> result_tool_calls x \<le> length (result_audits x) \<and> length (result_audits x) \<le> result_turns x
    \<and> result_rejected x = rejected_count (result_audits x) \<and> result_rejected x \<le> max 1 (max_invalid_actions cfg)
    \<and> (\<forall>g. g \<noteq> [] \<longrightarrow> gap_reads g (result_audits x) \<le> max_tool_calls_per_gap cfg)
    \<and> length (authorized_audits (result_audits x)) = result_tool_calls x
    \<and> distinct (map (read_identity w) (authorized_audits (result_audits x)))"
proof -
  from assms obtain st where st: "finalize st = Inr x" "loop_ok w cfg Finalize st"
    by (cases rule: investigate_cases [of w cfg r c table]) auto
  then have x: "result_turns x = turns st" "result_tool_calls x = tool_calls st" "result_audits x = action_audits st"
    "result_rejected x = rejected_actions st"
    by (auto simp: finalize_def Let_def split: if_splits)
  have "length (authorized_audits (action_audits st)) \<le> length (action_audits st)"
    by (simp add: authorized_audits_def)
  with st(2) show ?thesis unfolding x loop_ok_def base_defs by (auto simp: max_def)
qed

lemma investigation_within_budgets_witness:
  "\<exists>x. investigate sample_world sample_config sample_policy sample_case [] = Some (Inr x)
     \<and> result_turns x = 2 \<and> result_turns x \<le> max_turns sample_config \<and> result_rejected x = 1
     \<and> gap_reads ''g1'' (result_audits x) \<le> 1 \<and> length (authorized_audits (result_audits x)) = 1
     \<and> distinct (map (read_identity sample_world) (authorized_audits (result_audits x)))"
proof -
  obtain x where x: "investigate sample_world sample_config sample_policy sample_case [] = Some (Inr x)"
    "result_turns x = 2" "result_tool_calls x = 1" "result_rejected x = 1" by (rule sample_returns)
  from investigation_within_budgets [OF x(1)] have "gap_reads ''g1'' (result_audits x) \<le> 1"
    by (simp add: sample_config_def)
  with investigation_within_budgets [OF x(1)] x show ?thesis by auto
qed

section \<open>What is read\<close>

inductive visits :: "world \<Rightarrow> investigation_config \<Rightarrow> runner \<Rightarrow> rca_case \<Rightarrow> evidence_store \<Rightarrow> node \<Rightarrow> loop_state \<Rightarrow> bool"
  for w cfg r c table where
  start: "visits w cfg r c table Assess (initial_state w c table (diagnose_case w c))"
| step: "visits w cfg r c table v st \<Longrightarrow> v \<noteq> Finalize \<Longrightarrow> graph_step w cfg r v st = Inr (v1, st1)
    \<Longrightarrow> visits w cfg r c table v1 st1"

lemma visits_ok: "visits w cfg r c table v st \<Longrightarrow> loop_ok w cfg v st"
  by (induction rule: visits.induct) (use initial_ok graph_step_ok in blast)+

lemma visits_after:
  "visits w cfg r c table v st \<Longrightarrow> after_nodes w cfg r n v st = Inr (v1, st1) \<Longrightarrow> visits w cfg r c table v1 st1"
proof (induction n arbitrary: v st)
  case (Suc n)
  then show ?case by (auto split: if_splits dest: visits.step)
qed simp

lemma not_read_before:
  assumes "distinct (map f xs)" "xs \<noteq> []"
  shows "f (last xs) \<notin> set (butlast (map f xs))"
  using assms by (cases xs rule: rev_cases) (auto simp: butlast_append)

lemma last_authorized:
  "xs \<noteq> [] \<Longrightarrow> authorization_result (last xs) = AUTHORIZED
   \<Longrightarrow> authorized_audits xs \<noteq> [] \<and> last (authorized_audits xs) = last xs"
  by (cases xs rule: rev_cases) auto

text \<open>
  C23: Only authorized reads reach a backend. Whenever an investigation is about to execute an action, a gap of
  the current diagnosis that is still resolvable authorizes that very capability and target, a tool for
  it exists, the query is one the gate accepts, the exact read is a candidate that can discriminate the
  gap, it was not attempted before, and a tool call is left.
\<close>

theorem reads_are_authorized:
  assumes "visits w cfg r c table Execute_Tool st"
  shows "\<exists>a g capability target. pending_action st = Some a \<and> action_gap a = Some (gap_id g)
    \<and> action_capability a = Some capability \<and> action_target a = Some target
    \<and> g \<in> set (resolvable_gaps (current st)) \<and> authorizes g capability target \<and> capability \<in> set (tools w)
    \<and> query_refusal capability (action_query a) = None
    \<and> observation_identity (codec_of w) capability target (action_query a) \<notin> set (butlast (attempted_observations st))
    \<and> tool_calls st < max_tool_calls cfg
    \<and> (\<exists>k st1 x d. current_case w st = Inr (k, st1) \<and> x \<in> set (candidates_for w k (current st))
         \<and> candidate_capability x = capability \<and> candidate_target x = target
         \<and> action_query a = Some (candidate_query x) \<and> d \<in> set (discriminators x) \<and> discriminated_gap d = gap_id g)"
proof -
  have ok: "loop_ok w cfg Execute_Tool st" using assms by (rule visits_ok)
  then obtain a g capability target where a: "cleared w st a g capability target" by (auto simp: loop_ok_def)
  then have last: "action_audits st \<noteq> []" "authorization_result (last (action_audits st)) = AUTHORIZED"
    "audited_action (last (action_audits st)) = a" "action_capability a = Some capability" "action_target a = Some target"
    by (simp_all add: cleared_def)
  have "read_identity w (last (action_audits st)) \<notin> set (butlast (attempted_observations st))"
  proof -
    have "attempted_observations st = map (read_identity w) (authorized_audits (action_audits st))"
      "distinct (attempted_observations st)"
      using ok unfolding loop_ok_def base_ok_def accounted_def by blast+
    then show ?thesis
      using last_authorized [OF last(1,2)] not_read_before [of "read_identity w" "authorized_audits (action_audits st)"]
      by simp
  qed
  then have "observation_identity (codec_of w) capability target (action_query a) \<notin> set (butlast (attempted_observations st))"
    using last(3-5) by (simp add: read_identity_def)
  moreover have found: "find (\<lambda>x. gap_id x = gap_id g) (resolvable_gaps (current st)) = Some g"
    using a by (simp add: cleared_def)
  moreover have "g \<in> set (resolvable_gaps (current st))" using find_Some_set [OF found] by simp
  moreover have "tool_calls st < max_tool_calls cfg" using ok by (simp add: loop_ok_def)
  ultimately show ?thesis
    using a unfolding cleared_def by blast
qed

lemma reads_are_authorized_witness:
  "\<exists>st a g. visits sample_world sample_config sample_policy sample_case [] Execute_Tool st
     \<and> turns st = 2 \<and> pending_action st = Some a \<and> action_gap a = Some (gap_id g)
     \<and> g \<in> set (resolvable_gaps (current st)) \<and> tool_calls st < 2"
proof -
  have start: "visits sample_world sample_config sample_policy sample_case [] Assess
      (initial_state sample_world sample_case [] (sample_diagnosis sample_case))"
    using visits.start [of sample_world sample_config sample_policy sample_case "[]"] by (simp add: sample_world_def)
  obtain st where st: "after_nodes sample_world sample_config sample_policy 5 Assess
      (initial_state sample_world sample_case [] (sample_diagnosis sample_case)) = Inr (Execute_Tool, st)" "turns st = 2"
    using sample_reads by (auto split: sum.splits prod.splits)
  note reached = visits_after [OF start st(1)]
  from reads_are_authorized [OF reached] reached st(2) show ?thesis unfolding sample_config_def by auto
qed

end
