(* ===== verification/Investigation_Replay.thy ===== *)
theory Investigation_Replay
  imports Investigation_Correct
begin

text \<open>
  The playback of a recorded trajectory (\<open>ScriptedInvestigationPolicy.from_trajectory\<close> of \<open>policy.py\<close> and
  \<open>trajectory_replay_contract\<close> of \<open>graph.py\<close>): over the same world, the audits of an investigation and
  its terminal reproduce the investigation, whatever policy had been asked.
\<close>

definition from_trajectory :: "policy_kind \<Rightarrow> bool \<Rightarrow> action_audit list \<Rightarrow> trajectory_terminal \<Rightarrow> runner" where
  "from_trajectory pk model audits terminal =
     \<lparr>semantic_kind = pk, counts_as_model = model, answer_turn = (\<lambda>_ _. (Nothing_Left, 0)), wall_clock = (\<lambda>_. False),
      recorded_terminal = None, playback = Some (audits, terminal)\<rparr>"

definition terminal_of :: "investigation_result \<Rightarrow> trajectory_terminal" where
  "terminal_of x =
     \<lparr>terminal_stop = result_stop x, terminal_turns = result_turns x, audited_turns = length (result_audits x)\<rparr>"

section \<open>What a playback does not see\<close>

definition tape :: "nat \<Rightarrow> loop_state \<Rightarrow> loop_state" where
  "tape p st = st\<lparr>model_calls := 0, played := p\<rparr>"

definition taped :: "nat \<Rightarrow> loop_state result \<Rightarrow> loop_state result" where
  "taped p x = and_then x (Inr \<circ> tape p)"

lemma taped_simps [simp]: "taped p (Inl e) = Inl e" "taped p (Inr st) = Inr (tape p st)"
  by (simp_all add: taped_def)

lemma tape_fields [simp]:
  "current (tape p st) = current st" "action_audits (tape p st) = action_audits st"
  "acquired_findings (tape p st) = acquired_findings st" "acquired_refs (tape p st) = acquired_refs st"
  "attempted_actions (tape p st) = attempted_actions st" "attempted_observations (tape p st) = attempted_observations st"
  "pending_action (tape p st) = pending_action st" "pending_observation (tape p st) = pending_observation st"
  "pending_labels (tape p st) = pending_labels st" "tool_calls (tape p st) = tool_calls st" "turns (tape p st) = turns st"
  "evidence_table (tape p st) = evidence_table st" "base_case (tape p st) = base_case st"
  "cached_case (tape p st) = cached_case st" "ledger (tape p st) = ledger st" "observations (tape p st) = observations st"
  "pending_new (tape p st) = pending_new st" "pending_known (tape p st) = pending_known st"
  "pending_returned (tape p st) = pending_returned st" "pending_findings (tape p st) = pending_findings st"
  "successful_reads (tape p st) = successful_reads st" "covered_atoms (tape p st) = covered_atoms st"
  "frontier_queried (tape p st) = frontier_queried st" "exploration_progress (tape p st) = exploration_progress st"
  "stop (tape p st) = stop st" "validation_status (tape p st) = validation_status st"
  "no_progress_count (tape p st) = no_progress_count st" "played (tape p st) = p"
  by (simp_all add: tape_def)

lemma case_for_tape:
  "case_for w refs fs (tape p st) = and_then (case_for w refs fs st) (\<lambda>(c, st1). Inr (c, tape p st1))"
proof (cases "get_records (evidence_table st) refs")
  case (Inr rs)
  consider "refs = [] \<and> fs = []" | "\<not> (refs = [] \<and> fs = [])" "fst (cached_case st) = (refs, fs)"
    | "\<not> (refs = [] \<and> fs = [])" "fst (cached_case st) \<noteq> (refs, fs)" by blast
  then show ?thesis
  proof cases
    case 3
    then show ?thesis using Inr by (auto simp: case_for_def Let_def tape_def)
  qed (use Inr in \<open>auto simp: case_for_def\<close>)
qed (simp add: case_for_def)

lemma current_case_tape:
  "current_case w (tape p st) = and_then (current_case w st) (\<lambda>(c, st1). Inr (c, tape p st1))"
  by (simp add: current_case_def case_for_tape)

lemma record_execution_tape: "record_execution ob (tape p st) = tape p (record_execution ob st)"
  by (simp add: record_execution_def) (simp add: tape_def)

lemma execute_tape: "execute_tool w (tape p st) = taped p (execute_tool w st)"
  by (simp add: execute_tool_def current_case_tape record_execution_tape
      split: option.split sum.split prod.split tool_answer.split)

lemma novelty_tape: "check_novelty w (tape p st) = taped p (check_novelty w st)"
proof (cases "pending_observation st")
  case None
  then show ?thesis by (simp add: check_novelty_def) (simp add: tape_def)
next
  case (Some ob)
  show ?thesis
  proof (cases "current_case w st")
    case (Inr x)
    obtain c st1 where x: "x = (c, st1)" by fastforce
    have known: "known_refs w c (tape p st1) = known_refs w c st1" by (simp add: known_refs_def)
    have bad: "malformed_read w ob k (tape p st1) = tape p (malformed_read w ob k st1)" for k
      by (simp add: malformed_read_def Let_def) (simp add: tape_def)
    note unfolded = check_novelty_def Some Inr x current_case_tape known bad Let_def
    show ?thesis
    proof (cases "records_from_observation (parse_record w) ob")
      case (Inr records)
      show ?thesis
      proof (cases "index_records (codec_of w) records []")
        case (Inr index)
        show ?thesis
          by (cases "acquire w index (known_refs w c st1) (dedup (observation_refs ob @ map fst index))
                \<lparr>got_refs = acquired_refs st1, got_new = [], got_known = [], got_table = evidence_table st1\<rparr>")
             (simp_all add: unfolded \<open>records_from_observation _ _ = Inr records\<close> Inr, simp add: tape_def)
      qed (simp add: unfolded Inr)
    qed (simp add: unfolded)
  qed (simp add: check_novelty_def Some current_case_tape)
qed

text \<open>The two runners differ in nothing that a read is interpreted with.\<close>

lemma explored_read_tape:
  "semantic_kind r' = semantic_kind r \<Longrightarrow> explored_read w r' ob (tape p st) = explored_read w r ob st"
  by (simp add: explored_read_def split: option.split)

lemma before_tape: "acquired_before (tape p st) = acquired_before st"
  by (simp add: acquired_before_def)

lemma explore_tape:
  assumes "semantic_kind r' = semantic_kind r"
  shows "explore w r' ob (tape p st) = taped p (explore w r ob st)"
proof (cases "explored_read w r ob st")
  case None
  then show ?thesis by (simp add: explore_def explored_read_tape [OF assms]) (simp add: tape_def)
next
  case (Some i)
  have "atoms_of_read w i (tape p st) = and_then (atoms_of_read w i st) (\<lambda>(atoms, st1). Inr (atoms, tape p st1))"
  proof (cases "i \<in> set (successful_reads st)")
    case False
    show ?thesis
      by (cases "case_for w (acquired_before st) (acquired_findings st) st")
         (auto simp: atoms_of_read_def False case_for_tape before_tape split: option.split)
  qed (simp add: atoms_of_read_def)
  then show ?thesis
    by (cases "atoms_of_read w i st")
       (auto simp: explore_def Some explored_read_tape [OF assms] split: prod.split, simp add: tape_def)
qed

lemma interpreted_tape:
  "interpreted w ob records g (tape p st) = and_then (interpreted w ob records g st) (\<lambda>(x, st1). Inr (x, tape p st1))"
  by (cases "current_case w st") (auto simp: interpreted_def Let_def current_case_tape split: prod.split)

lemma account_read_tape: "account_read w ob ob1 fs c (tape p st) = tape p (account_read w ob ob1 fs c st)"
proof -
  have "queried_after ob (tape p st) = queried_after ob st" by (simp add: queried_after_def covers_frontier_def)
  moreover have "ledger_entry_of ob ob1 labels (tape p st) = ledger_entry_of ob ob1 labels st" for labels
    by (simp add: ledger_entry_of_def)
  ultimately show ?thesis by (simp add: account_read_def Let_def) (simp add: tape_def)
qed

lemma account_without_gap_tape: "account_without_gap ob (tape p st) = tape p (account_without_gap ob st)"
  by (simp add: account_without_gap_def) (simp add: tape_def)

lemma normalize_tape:
  assumes "semantic_kind r' = semantic_kind r"
  shows "normalize_node w r' (tape p st) = taped p (normalize_node w r st)"
proof (cases "pending_observation st")
  case None
  then show ?thesis by (simp add: normalize_node_def) (simp add: tape_def)
next
  case (Some ob)
  note unfolded = normalize_node_def Some explore_tape [OF assms] account_without_gap_tape interpreted_tape
    current_case_tape account_read_tape
  show ?thesis
  proof (cases "explore w r ob st")
    case (Inr st1)
    note explored = this
    show ?thesis
    proof (cases "find (\<lambda>g. gap_id g = observation_gap ob) (information_gaps (current st1))")
      case gap: (Some g)
      show ?thesis
      proof (cases "records_from_observation (parse_record w) ob")
        case (Inr records)
        note parsed = this
        show ?thesis
        proof (cases "interpreted w ob records g st1")
          case (Inr x)
          obtain ob1 fs st2 where x: "x = ((ob1, fs), st2)" by (metis prod_cases3 prod.exhaust)
          show ?thesis by (cases "current_case w st2") (auto simp: unfolded explored gap parsed Inr x)
        qed (simp add: unfolded explored gap parsed)
      qed (simp add: unfolded explored gap)
    qed (simp add: unfolded explored)
  qed (simp add: unfolded)
qed

lemma store_case_tape: "store_case refs fs c (tape p st) = tape p (store_case refs fs c st)"
  by (simp add: store_case_def tape_def)

lemma attribute_tape: "attribute_read c derived native (tape p st) = tape p (attribute_read c derived native st)"
proof -
  have "typed_runtime (tape p st) = typed_runtime st" by (simp add: typed_runtime_def)
  then show ?thesis by (simp add: attribute_read_def Let_def) (simp add: tape_def)
qed

lemma native_tape: "native_records w (tape p st) = native_records w st"
  by (simp add: native_records_def)

lemma rebuild_tape: "rebuild w (tape p st) = taped p (rebuild w st)"
proof -
  let ?fs = "deduplicate_findings (codec_of w) (acquired_findings st @ pending_findings st)"
  note unfolded = rebuild_def Let_def case_for_tape before_tape native_tape store_case_tape attribute_tape
  show ?thesis
  proof (cases "case_for w (acquired_before st) (acquired_findings st) st")
    case (Inr x)
    obtain before st1 where x: "x = (before, st1)" by fastforce
    note first = Inr [unfolded x]
    show ?thesis
    proof (cases "case_for w (acquired_refs st1) ?fs st1")
      case (Inr y)
      obtain c st2 where y: "y = (c, st2)" by fastforce
      note second = Inr [unfolded y]
      show ?thesis
        by (cases "native_records w st2") (simp_all add: unfolded first second, simp add: tape_def)
    qed (simp add: unfolded first)
  qed (simp add: unfolded)
qed


section \<open>A run only adds to its audits\<close>

definition recorded :: "action_audit \<Rightarrow> investigation_action \<times> choice_labels" where
  "recorded a = (audited_action a, audit_labels a)"

definition grows :: "loop_state \<Rightarrow> loop_state \<Rightarrow> bool" where
  "grows st st1 \<longleftrightarrow>
     (\<exists>ys. map recorded (action_audits st1) = map recorded (action_audits st) @ ys) \<and> turns st \<le> turns st1"

lemma recorded_update: "same_account f \<Longrightarrow> map recorded (update_latest f xs) = map recorded xs"
  by (cases xs rule: rev_cases) (auto simp: same_account_def recorded_def)

lemma grows_same:
  "map recorded (action_audits st1) = map recorded (action_audits st) \<Longrightarrow> turns st1 = turns st \<Longrightarrow> grows st st1"
  by (simp add: grows_def)

lemma grows_account: "account st1 = account st \<Longrightarrow> turns st \<le> turns st1 \<Longrightarrow> grows st st1"
  by (simp add: grows_def account_def)

lemma grows_trans: "grows st st1 \<Longrightarrow> grows st1 st2 \<Longrightarrow> grows st st2"
  by (auto simp: grows_def)

lemma judge_grows: "judge w cfg m a st = Inr st1 \<Longrightarrow> grows st st1"
  by (erule judge_cases) (simp_all add: reject_def stop_by_policy_def authorize_def Let_def grows_def)

lemma validate_grows: "validate w cfg st = Inr st1 \<Longrightarrow> grows st st1"
proof (cases "pending_action st")
  case None
  moreover assume "validate w cfg st = Inr st1"
  ultimately show ?thesis by (auto simp: validate_def grows_def)
next
  case (Some a)
  assume run: "validate w cfg st = Inr st1"
  show ?thesis
  proof (cases "action_kind a = STOP")
    case True
    then show ?thesis using run Some by (auto simp: validate_def intro: judge_grows)
  next
    case False
    with run Some obtain k st0 m a1 where k: "current_case w st = Inr (k, st0)" "judge w cfg m a1 st0 = Inr st1"
      by (auto simp: validate_def Let_def)
    have "grows st st0" using case_account [OF k(1)] by (simp add: grows_account)
    then show ?thesis using judge_grows [OF k(2)] by (rule grows_trans)
  qed
qed

lemma execute_recorded:
  assumes run: "execute_tool w st = Inr st1" and ok: "loop_ok w cfg Execute_Tool st"
  shows "map recorded (action_audits st1) = map recorded (action_audits st)"
  using ok
proof (cases rule: execute_cases)
  case (read ob st0)
  have "map recorded (action_audits (record_execution ob st0)) = map recorded (action_audits st0)"
    by (simp add: record_execution_def recorded_update same_account_def)
  moreover have "st1 = record_execution ob st0" "action_audits st0 = action_audits st" using run read by (simp_all add: account_def)
  ultimately show ?thesis by simp
qed (use run in simp)

lemma novelty_recorded:
  assumes "check_novelty w st = Inr st1"
  shows "map recorded (action_audits st1) = map recorded (action_audits st)"
proof (cases "pending_observation st")
  case (Some ob)
  then obtain c st0 where c: "current_case w st = Inr (c, st0)" using assms by (auto simp: check_novelty_def)
  have same: "action_audits st0 = action_audits st" using case_account [OF c] by (simp add: account_def)
  show ?thesis
  proof (cases "records_from_observation (parse_record w) ob")
    case (Inl e)
    then have "st1 = malformed_read w ob (known_refs w c st0) st0" using assms Some c by (simp add: check_novelty_def)
    then show ?thesis
      by (simp add: malformed_read_def Let_def same recorded_update same_account_def audit_refs_def)
  next
    case (Inr records)
    then obtain f where "action_audits st1 = update_latest f (action_audits st0)" "same_account f"
      using assms Some c same_account_refs(1) by (auto simp: check_novelty_def Let_def)
    then show ?thesis using recorded_update same by metis
  qed
qed (use assms in \<open>auto simp: check_novelty_def\<close>)

lemma normalize_recorded:
  assumes run: "normalize_node w r st = Inr st1" and ok: "loop_ok w cfg Normalize_Observation st"
  shows "map recorded (action_audits st1) = map recorded (action_audits st)"
proof -
  have "stored_refs st" "read_parses w st" using ok by (simp_all add: loop_ok_def base_ok_def)
  then show ?thesis
  proof (cases rule: normalize_cases [where r = r])
    case idle
    then show ?thesis using run by auto
  next
    case (foreign ob st2)
    then have "action_audits st2 = action_audits st" using explore_frame by (auto simp: account_def)
    then show ?thesis
      using run foreign(3) recorded_update [OF same_account_refs(1)] by (auto simp: account_without_gap_def)
  next
    case (read ob st2 ob1 fs c x)
    then have "action_audits st2 = action_audits st" using explore_frame by (auto simp: account_def)
    moreover have "map recorded (action_audits (account_read w ob ob1 fs c st3)) = map recorded (action_audits st3)" for st3
      by (simp add: account_read_def Let_def recorded_update same_account_def audit_refs_def)
    ultimately show ?thesis using run read(3) by auto
  qed
qed

lemma rebuild_recorded:
  assumes "rebuild w st = Inr st1"
  shows "map recorded (action_audits st1) = map recorded (action_audits st)"
proof -
  from assms obtain before st2 where before: "case_for w (acquired_before st) (acquired_findings st) st = Inr (before, st2)"
    by (auto simp: rebuild_def Let_def)
  from assms before obtain c st3 where
    c: "case_for w (acquired_refs st2) (deduplicate_findings (codec_of w) (acquired_findings st @ pending_findings st)) st2 = Inr (c, st3)"
    by (auto simp: rebuild_def Let_def)
  have same: "action_audits st3 = action_audits st" using case_for_state [OF before] case_for_state [OF c] by auto
  have kept: "action_audits (attribute_read k derived native (store_case refs fs k st3)) = action_audits st3" for k derived native refs fs
    by (simp add: attribute_read_def Let_def store_case_def)
  obtain d entries where "action_audits st1 = update_latest (merge_entry entries \<circ> with_after_state w d) (action_audits st3)"
    using assms before c by (auto simp: rebuild_def Let_def kept)
  then show ?thesis using recorded_update [OF same_account_rebuild(1)] same by simp
qed

lemma progress_recorded:
  assumes "check_progress w cfg r st = Inr st1"
  shows "map recorded (action_audits st1) = map recorded (action_audits st)"
proof -
  obtain c st0 where c: "current_case w st = Inr (c, st0)" using assms by (auto simp: check_progress_def)
  then have "action_audits st0 = action_audits st" using case_account [OF c] by (simp add: account_def)
  moreover have "map recorded (classify_latest w st0) = map recorded (action_audits st0)"
    unfolding classify_latest_def
    by (simp add: recorded_update same_account_def with_after_state_def Let_def)
  ultimately show ?thesis using assms c by (auto simp: check_progress_def Let_def)
qed

lemma reading_step:
  assumes run: "graph_step w cfg r v st = Inr (v1, st1)" and ok: "loop_ok w cfg v st"
    and v: "v \<in> {Execute_Tool, Check_Novelty, Normalize_Observation, Rebuild_Hypotheses, Check_Progress}"
  shows "map recorded (action_audits st1) = map recorded (action_audits st) \<and> turns st1 = turns st"
proof -
  consider "v = Execute_Tool" | "v = Check_Novelty" | "v = Normalize_Observation" | "v = Rebuild_Hypotheses" | "v = Check_Progress"
    using v by blast
  then show ?thesis
  proof cases
    case 1
    with run have "execute_tool w st = Inr st1" by auto
    then show ?thesis using execute_recorded execute_ok ok 1 by blast
  next
    case 2
    with run have "check_novelty w st = Inr st1" by auto
    then show ?thesis using novelty_recorded novelty_ok ok 2 by blast
  next
    case 3
    with run have st1: "normalize_node w r st = Inr st1" by auto
    have ok': "loop_ok w cfg Normalize_Observation st" using ok 3 by simp
    from ok' obtain st2 where "normalize_node w r st = Inr st2" "turns st2 = turns st" by (rule normalize_ok)
    then show ?thesis using normalize_recorded [OF st1 ok'] st1 by simp
  next
    case 4
    with run have st1: "rebuild w st = Inr st1" by auto
    have "loop_ok w cfg Rebuild_Hypotheses st" using ok 4 by simp
    then obtain st2 where "rebuild w st = Inr st2" "turns st2 = turns st" by (rule rebuild_ok)
    then show ?thesis using rebuild_recorded [OF st1] st1 by simp
  next
    case 5
    with run have "check_progress w cfg r st = Inr st1" by auto
    then show ?thesis using progress_recorded check_progress_ok ok 5 by blast
  qed
qed

lemma audits_length:
  assumes "graph_step w cfg r v st = Inr (v1, st1)" "loop_ok w cfg v st"
    "v \<in> {Execute_Tool, Check_Novelty, Normalize_Observation, Rebuild_Hypotheses, Check_Progress}"
  shows "length (action_audits st1) = length (action_audits st)"
  using reading_step [OF assms] map_eq_imp_length_eq by blast

lemma graph_step_grows:
  assumes run: "graph_step w cfg r v st = Inr (v1, st1)" and ok: "loop_ok w cfg v st"
  shows "grows st st1"
proof (cases "v \<in> {Execute_Tool, Check_Novelty, Normalize_Observation, Rebuild_Hypotheses, Check_Progress}")
  case True
  then show ?thesis using reading_step [OF run ok] grows_same by blast
next
  case False
  show ?thesis
  proof (cases v)
    case Assess
    then show ?thesis using run by (auto simp: Let_def assess_def grows_def)
  next
    case Select_Action
    with run have "select_action w cfg r st = Inr st1" by auto
    then show ?thesis by (cases rule: select_cases) (auto simp: account_def grows_def)
  next
    case Validate_Action
    with run show ?thesis by (auto intro: validate_grows)
  qed (use run False in \<open>simp_all add: grows_def\<close>)
qed

lemma finalize_result:
  assumes "finalize st = Inr x"
  shows "result_audits x = action_audits st" "result_turns x = turns st"
    "result_stop x = (case stop st of None \<Rightarrow> No_Progress | Some reason \<Rightarrow> reason)"
  using assms by (auto simp: finalize_def Let_def split: if_splits)

lemma run_graph_step:
  "v \<noteq> Finalize \<Longrightarrow> run_graph w cfg r (Suc n) v st = (case graph_step w cfg r v st of
     Inl e \<Rightarrow> Some (Inl e) | Inr (v1, st1) \<Rightarrow> run_graph w cfg r n v1 st1)"
  by (cases v) simp_all

lemma run_graph_Some:
  assumes "run_graph w cfg r n v st = Some (Inr x)" "v \<noteq> Finalize"
  obtains m v1 st1 where "n = Suc m" "graph_step w cfg r v st = Inr (v1, st1)" "run_graph w cfg r m v1 st1 = Some (Inr x)"
proof (cases n)
  case 0
  then show thesis using assms by (cases v) simp_all
next
  case (Suc m)
  then show thesis using assms that by (auto simp: run_graph_step split: sum.splits prod.splits)
qed

lemma run_grows:
  assumes "run_graph w cfg r n v st = Some (Inr x)" "loop_ok w cfg v st"
  shows "(\<exists>ys. map recorded (result_audits x) = map recorded (action_audits st) @ ys) \<and> turns st \<le> result_turns x"
  using assms
proof (induction n arbitrary: v st rule: less_induct)
  case (less n)
  show ?case
  proof (cases "v = Finalize")
    case True
    then have "finalize st = Inr x" using less.prems(1) by (cases n) simp_all
    then show ?thesis by (simp add: finalize_result)
  next
    case False
    with less.prems(1) obtain m v1 st1 where m: "n = Suc m" "graph_step w cfg r v st = Inr (v1, st1)"
      "run_graph w cfg r m v1 st1 = Some (Inr x)" by (rule run_graph_Some)
    have "grows st st1" using m(2) less.prems(2) by (rule graph_step_grows)
    moreover have "loop_ok w cfg v1 st1" using graph_step_ok [OF m(2) less.prems(2) False] by simp
    ultimately show ?thesis using less.IH [OF _ m(3)] m(1) by (fastforce simp: grows_def)
  qed
qed


section \<open>The turns of a playback\<close>

definition over :: "nat \<Rightarrow> investigation_action option \<Rightarrow> loop_state \<Rightarrow> loop_state" where
  "over p q st = (tape p st)\<lparr>pending_action := q\<rparr>"

lemma over_tape: "over p (pending_action st) st = tape p st"
  by (simp add: over_def tape_def)

lemma over_pending: "pending_action st = q \<Longrightarrow> over p q st = tape p st"
  using over_tape by blast

lemma over_fields [simp]:
  "current (over p q st) = current st" "action_audits (over p q st) = action_audits st" "turns (over p q st) = turns st"
  "tool_calls (over p q st) = tool_calls st" "attempted_actions (over p q st) = attempted_actions st"
  "attempted_observations (over p q st) = attempted_observations st" "pending_labels (over p q st) = pending_labels st"
  "pending_action (over p q st) = q" "stop (over p q st) = stop st" "validation_status (over p q st) = validation_status st"
  "played (over p q st) = p" "model_calls (over p q st) = 0"
  by (simp_all add: over_def tape_def)

lemma case_for_pending:
  "case_for w refs fs (st\<lparr>pending_action := q\<rparr>)
   = and_then (case_for w refs fs st) (\<lambda>(c, st1). Inr (c, st1\<lparr>pending_action := q\<rparr>))"
proof (cases "get_records (evidence_table st) refs")
  case (Inr rs)
  consider "refs = [] \<and> fs = []" | "\<not> (refs = [] \<and> fs = [])" "fst (cached_case st) = (refs, fs)"
    | "\<not> (refs = [] \<and> fs = [])" "fst (cached_case st) \<noteq> (refs, fs)" by blast
  then show ?thesis by cases (use Inr in \<open>auto simp: case_for_def Let_def\<close>)
qed (simp add: case_for_def)

lemma current_case_over:
  assumes "current_case w st = Inr (c, st1)"
  shows "current_case w (over p q st) = Inr (c, over p q st1)"
proof -
  have "current_case w (over p q st) = and_then (current_case w (tape p st)) (\<lambda>(c, st1). Inr (c, st1\<lparr>pending_action := q\<rparr>))"
    by (simp add: current_case_def over_def case_for_pending)
  then show ?thesis using assms by (simp add: current_case_tape over_def)
qed

lemma playback_select:
  assumes "turns st < max_turns cfg" "tool_calls st < max_tool_calls cfg" "\<not> terminal_due (audits, terminal) p Model_Budget"
    "current_case w st = Inr (c, st0)"
  shows "select_action w cfg (from_trajectory pk model audits terminal) (over p q st)
    = play_recorded_turn (audits, terminal) (over p q st0)"
  using assms current_case_over [OF assms(4), of p q]
  by (simp add: select_action_def model_budget_exhausted_def from_trajectory_def)

lemma reject_over: "reject w cfg a reason (over p q st) = over p q (reject w cfg a reason st)"
  by (simp add: reject_def unexecuted_audit_def new_audit_def gap_named_def Let_def) (simp add: over_def tape_def)

lemma authorize_over:
  "authorize w a capability target g d (over p (Some a) st) = over p (Some a) (authorize w a capability target g d st)"
  by (simp add: authorize_def new_audit_def Let_def) (simp add: over_def tape_def)

lemma stop_over: "stop_by_policy w a (over p q st) = over p q (stop_by_policy w a st)"
  by (simp add: stop_by_policy_def unexecuted_audit_def new_audit_def Let_def) (simp add: over_def tape_def)

lemma judge_over:
  assumes "judge w cfg m a st = Inr st1"
  shows "judge w cfg m a (over p (Some a) st) = Inr (over p (Some a) st1)"
  using assms
  by (auto simp: judge_def gap_named_def reject_over stop_over authorize_over
      split: action_validation.splits action_kind.splits option.splits)

lemma judge_recorded:
  assumes "judge w cfg m a st = Inr st1"
  obtains au where "action_audits st1 = action_audits st @ [au]" "audited_action au = a" "audit_labels au = pending_labels st"
    | au where "action_audits st1 = action_audits st @ [au]" "audited_action au = a" "action_kind a = STOP"
        "audit_labels au = (pending_labels st)\<lparr>selection_candidates := []\<rparr>" "st1 = stop_by_policy w a st"
  using assms
proof (cases rule: judge_cases)
  case (rejected reason)
  then show thesis using that(1) by (simp add: reject_def unexecuted_audit_def new_audit_def Let_def)
next
  case stopped
  then show thesis using that(2) by (simp add: stop_by_policy_def unexecuted_audit_def new_audit_def Let_def)
next
  case (authorized c disc g g' capability target)
  then show thesis using that(1) by (simp add: authorize_def new_audit_def Let_def)
qed

text \<open>The recorded action carries the query of its candidate and finds the same candidate.\<close>

lemma discriminator_for_filled:
  assumes "m = discriminator_for candidates a"
  shows "discriminator_for candidates (with_candidate_query m a) = m"
proof (cases "action_query a = None \<and> m \<noteq> None")
  case True
  then obtain c d where m: "m = Some (c, d)" by auto
  then obtain g capability target where a: "action_kind a = INSPECT" "action_gap a = Some g" "action_capability a = Some capability"
    "action_target a = Some target" "first_some (candidate_match a g capability target) candidates = Some (c, d)"
    using assms by (auto simp: discriminator_for_def split: action_kind.splits option.splits)
  have "first_some (candidate_match (a\<lparr>action_query := Some (candidate_query c)\<rparr>) g capability target) xs = Some (c, d)"
    if "first_some (candidate_match a g capability target) xs = Some (c, d)" for xs
    using that by (induction xs) (auto simp: candidate_match_def True split: option.splits if_splits)
  then show ?thesis using a m True by (simp add: discriminator_for_def with_candidate_query_def)
next
  case False
  then have "with_candidate_query m a = a" by (auto simp: with_candidate_query_def split: option.split)
  then show ?thesis using assms by simp
qed

lemma filled_again: "with_candidate_query m (with_candidate_query m a) = with_candidate_query m a"
  by (auto simp: with_candidate_query_def split: option.split)


text \<open>What the result shows of a state.\<close>

definition seen :: "loop_state \<Rightarrow> (investigated_diagnosis \<times> investigated_diagnosis \<times> stop_reason option) \<times> (nat \<times> nat \<times> nat)
    \<times> string list \<times> tool_observation list \<times> ledger_entry list \<times> action_audit list" where
  "seen st = ((current st, initial_diagnosis st, stop st), (turns st, tool_calls st, rejected_actions st), attempted_gaps st,
     observations st, ledger st, action_audits st)"

lemma finalize_seen:
  assumes "finalize st = Inr x" "seen t = seen st" "model_calls t = 0"
  shows "finalize t = Inr (x\<lparr>result_model_calls := 0\<rparr>)"
  using assms by (auto simp: finalize_def seen_def Let_def split: if_splits)

lemma over_seen: "seen (over p q st) = seen st"
  by (simp add: seen_def over_def tape_def)

lemma judge_route:
  assumes "judge w cfg m a st = Inr st1" "route_after_validate st1 = Execute_Tool"
  shows "pending_action st1 = Some a"
  using assms by (rule_tac judge_cases [OF assms(1)])
    (auto simp: route_after_validate_def reject_def stop_by_policy_def authorize_def Let_def split: if_splits)

lemma judge_stop_labels:
  assumes "judge w cfg m a st = Inr (stop_by_policy w a st)" "action_kind a = STOP"
  shows "judge w cfg m a (st\<lparr>pending_labels := l\<rparr>) = Inr (stop_by_policy w a (st\<lparr>pending_labels := l\<rparr>))"
proof -
  have "reject w cfg a reason st \<noteq> stop_by_policy w a st" for reason
    by (auto simp: stop_by_policy_def reject_def unexecuted_audit_def new_audit_def Let_def
        dest!: arg_cong [where f = "\<lambda>s. validation_status s"] split: if_splits)
  then show ?thesis using assms by (auto simp: judge_def split: action_validation.splits)
qed

text \<open>The second validation of a turn: the audit it leaves is what the playback has of the turn.\<close>

definition replays :: "world \<Rightarrow> investigation_config \<Rightarrow> loop_state \<Rightarrow> nat \<Rightarrow> loop_state \<Rightarrow> loop_state \<Rightarrow> bool" where
  "replays w cfg t p st st2 \<longleftrightarrow>
     (\<exists>t2. validate w cfg t = Inr t2 \<and> route_after_validate t2 = route_after_validate st2 \<and> model_calls t2 = 0
        \<and> ((\<exists>q. t2 = over p q st2 \<and> (route_after_validate st2 = Execute_Tool \<longrightarrow> q = pending_action st2))
           \<or> route_after_validate st2 = Finalize \<and> seen t2 = seen st2))"

lemma judge_replayed:
  assumes run: "judge w cfg m a st = Inr st2" and "action_audits st2 = action_audits st @ [au]"
    and again: "\<And>l. validate w cfg ((over p (Some a) st)\<lparr>pending_labels := l\<rparr>)
      = judge w cfg m a ((over p (Some a) st)\<lparr>pending_labels := l\<rparr>)"
  shows "audited_action au = a \<and> replays w cfg ((over p (Some a) st)\<lparr>pending_labels := audit_labels au\<rparr>) p st st2"
  using run
proof (cases rule: judge_recorded)
  case (1 au')
  have au: "au' = au" using 1(1) assms(2) by simp
  have "(over p (Some a) st)\<lparr>pending_labels := audit_labels au\<rparr> = over p (Some a) st"
    using 1(3) by (simp add: au over_def tape_def)
  then have "validate w cfg ((over p (Some a) st)\<lparr>pending_labels := audit_labels au\<rparr>) = Inr (over p (Some a) st2)"
    using again [of "audit_labels au"] judge_over [OF run] by simp
  then show ?thesis
    using judge_route [OF run] 1(2) au by (auto simp: replays_def route_after_validate_def)
next
  case (2 au')
  have au: "au' = au" using 2(1) assms(2) by simp
  let ?t = "(over p (Some a) st)\<lparr>pending_labels := audit_labels au\<rparr>"
  have "judge w cfg m a (over p (Some a) st) = Inr (stop_by_policy w a (over p (Some a) st))"
    using judge_over [OF run] 2(5) by (simp add: stop_over)
  from judge_stop_labels [OF this 2(3)] have "validate w cfg ?t = Inr (stop_by_policy w a ?t)" using again by simp
  moreover have "seen (stop_by_policy w a ?t) = seen st2" "model_calls (stop_by_policy w a ?t) = 0"
    using 2(4,5) by (simp_all add: au stop_by_policy_def unexecuted_audit_def new_audit_def Let_def seen_def over_def tape_def)
  moreover have "route_after_validate st2 = Finalize" "route_after_validate (stop_by_policy w a ?t) = Finalize"
    using 2(5) by (simp_all add: stop_by_policy_def Let_def route_after_validate_def)
  ultimately show ?thesis using 2(2) au by (auto simp: replays_def)
qed

lemma current_case_labels:
  "current_case w st = Inr (c, st) \<Longrightarrow> current_case w (st\<lparr>pending_labels := l\<rparr>) = Inr (c, st\<lparr>pending_labels := l\<rparr>)"
  using case_hit [of w "acquired_refs st" "acquired_findings st" st c "st\<lparr>pending_labels := l\<rparr>"]
  by (simp add: current_case_def)

lemma validate_replayed:
  assumes run: "validate w cfg st = Inr st2" and pending: "pending_action st = Some a0" and "current_case w st = Inr (c, st)"
  obtains au where "action_audits st2 = action_audits st @ [au]"
    "replays w cfg ((over p (Some (audited_action au)) st)\<lparr>pending_labels := audit_labels au\<rparr>) p st st2"
proof -
  note finish = that
  have one: thesis if j: "judge w cfg m a st = Inr st2" and v: "\<And>l. validate w cfg ((over p (Some a) st)\<lparr>pending_labels := l\<rparr>)
      = judge w cfg m a ((over p (Some a) st)\<lparr>pending_labels := l\<rparr>)" for m a
  proof -
    obtain au where au: "action_audits st2 = action_audits st @ [au]" using j by (cases rule: judge_recorded) auto
    from judge_replayed [OF j au v] show thesis using finish [OF au] by simp
  qed
  show thesis
  proof (cases "action_kind a0 = STOP")
    case True
    then show thesis using one [of None a0] run pending by (simp add: validate_def)
  next
    case False
    let ?m = "discriminator_for (candidates_for w c (current st)) a0"
    let ?a = "with_candidate_query ?m a0"
    have "judge w cfg ?m ?a st = Inr st2" using False run pending assms(3) by (simp add: validate_def Let_def)
    moreover have "validate w cfg ((over p (Some ?a) st)\<lparr>pending_labels := l\<rparr>)
      = judge w cfg ?m ?a ((over p (Some ?a) st)\<lparr>pending_labels := l\<rparr>)" for l
      using False current_case_labels [OF current_case_over [OF assms(3), of p "Some ?a"], of l]
      by (simp add: validate_def Let_def discriminator_for_filled [OF refl] filled_again)
    ultimately show thesis by (rule one)
  qed
qed


section \<open>The recorded end\<close>

abbreviation replay_of :: "runner \<Rightarrow> investigation_result \<Rightarrow> runner" where
  "replay_of r x \<equiv> from_trajectory (semantic_kind r) (counts_as_model r) (result_audits x) (terminal_of x)"

abbreviation ends_here :: "investigation_result \<Rightarrow> loop_state \<Rightarrow> stop_reason \<Rightarrow> bool" where
  "ends_here x st reason \<equiv> terminal_due (result_audits x, terminal_of x) (length (action_audits st)) reason"

lemma run_length:
  assumes "run_graph w cfg r n v st = Some (Inr x)" "loop_ok w cfg v st"
  shows "length (action_audits st) \<le> length (result_audits x) \<and> turns st \<le> result_turns x"
proof -
  obtain ys where "map recorded (result_audits x) = map recorded (action_audits st) @ ys" "turns st \<le> result_turns x"
    using run_grows [OF assms] by blast
  from arg_cong [OF this(1), of length] this(2) show ?thesis by simp
qed

lemma run_finalize: "run_graph w cfg r n Finalize st = Some (finalize st)"
  by (cases n) simp_all

text \<open>A trajectory whose next step is a turn is not at its end.\<close>

lemma not_due_before_turn:
  assumes run: "run_graph w cfg r n Select_Action st = Some (Inr x)" and ok: "loop_ok w cfg Select_Action st"
    and reason: "reason \<in> {Wall_Time, Model_Budget}"
    and model: "reason = Model_Budget \<Longrightarrow> \<not> model_budget_exhausted cfg r st"
  shows "\<not> ends_here x st reason"
proof
  assume "ends_here x st reason"
  then have due: "length (result_audits x) \<le> length (action_audits st)" "result_stop x = reason"
    "result_turns x = length (result_audits x)"
    by (simp_all add: terminal_due_def terminal_of_def)
  have turns: "turns st = length (action_audits st)" using ok by (simp add: loop_ok_def base_ok_def turn_ok_def)
  from run obtain m v1 st1 where m: "n = Suc m" "graph_step w cfg r Select_Action st = Inr (v1, st1)"
    "run_graph w cfg r m v1 st1 = Some (Inr x)" by (rule run_graph_Some) simp
  then have st1: "select_action w cfg r st = Inr st1" "v1 = route_unless_stopped Validate_Action st1" by auto
  from st1(1) show False
  proof (cases rule: select_cases)
    case (1 y)
    then have "finalize st1 = Inr x" using m(3) st1(2) by (auto simp: route_unless_stopped_def run_finalize)
    from finalize_result [OF this] show False using 1 due(2) reason model by auto
  next
    case 2
    moreover have "turns st1 \<le> result_turns x"
      using run_length [OF m(3)] graph_step_ok [OF m(2) ok] by simp
    ultimately show False using due turns run_length [OF run ok] by simp
  qed
qed

lemma due_at_stop:
  assumes run: "run_graph w cfg r n (route_unless_stopped Select_Action st) st = Some (Inr x)"
    and ok: "loop_ok w cfg (route_unless_stopped Select_Action st) st" and turns: "turns st = length (action_audits st)"
    and reason: "reason \<in> {Wall_Time, Model_Budget}"
    and model: "stop st = None \<Longrightarrow> \<not> model_budget_exhausted cfg r st"
  shows "ends_here x st reason \<longleftrightarrow> stop st = Some reason"
proof (cases "stop st")
  case None
  then show ?thesis
    using not_due_before_turn [OF _ _ reason, of w cfg r n st x] run ok model by (simp add: route_unless_stopped_def)
next
  case (Some y)
  then have "finalize st = Inr x" using run by (simp add: route_unless_stopped_def run_finalize)
  from finalize_result [OF this] show ?thesis
    using Some turns by (auto simp: terminal_due_def terminal_of_def)
qed

lemma assess_replayed:
  assumes live: "playback r = None" and ok: "loop_ok w cfg Assess st"
    and run: "run_graph w cfg r n (route_unless_stopped Select_Action (assess cfg r st)) (assess cfg r st) = Some (Inr x)"
  shows "assess cfg (replay_of r x) (tape (length (action_audits st)) st) = tape (length (action_audits st)) (assess cfg r st)"
proof -
  let ?st = "assess cfg r st"
  have turns: "turns ?st = length (action_audits ?st)"
    using ok by (simp add: assess_def loop_ok_def base_ok_def turn_ok_def)
  have model: "\<not> model_budget_exhausted cfg r ?st" if "stop ?st = None"
    using that live by (auto simp: assess_def model_budget_exhausted_def split: if_splits)
  have due: "ends_here x st y \<longleftrightarrow> stop ?st = Some y" if "y \<in> {Wall_Time, Model_Budget}" for y
    using due_at_stop [OF run assess_ok [OF ok] turns that model] by (simp add: assess_def)
  have wall: "wall_time_exhausted (replay_of r x) (tape (length (action_audits st)) st) \<longleftrightarrow> stop ?st = Some Wall_Time"
    and model: "model_budget_exhausted cfg (replay_of r x) (tape (length (action_audits st)) st) \<longleftrightarrow> stop ?st = Some Model_Budget"
    using due [of Wall_Time] due [of Model_Budget]
    by (simp_all add: wall_time_exhausted_def model_budget_exhausted_def from_trajectory_def)
  have "stop (assess cfg (replay_of r x) (tape (length (action_audits st)) st)) = stop ?st"
    unfolding assess_def loop_state.select_convs loop_state.update_convs
    by (simp add: wall model) (simp add: assess_def)
  then show ?thesis by (simp add: assess_def tape_def)
qed

lemma check_progress_replayed:
  assumes live: "playback r = None" and ok: "loop_ok w cfg Check_Progress st"
    and step: "check_progress w cfg r st = Inr st1"
    and run: "run_graph w cfg r n (route_unless_stopped Select_Action st1) st1 = Some (Inr x)"
  shows "check_progress w cfg (replay_of r x) (tape (length (action_audits st)) st) = Inr (tape (length (action_audits st)) st1)"
proof -
  let ?p = "length (action_audits st)"
  obtain c st0 where c: "current_case w st = Inr (c, st0)" using step by (auto simp: check_progress_def)
  define idle where "idle = (if progress_made w c st0 then 0 else no_progress_count st0 + 1)"
  have st1: "st1 = st0\<lparr>action_audits := classify_latest w st0, previous_resolution := diag_resolution (current st0),
      previous_gaps := gap_fingerprint (current st0), previous_evidence := evidence_fingerprint c,
      previous_hypotheses := hypothesis_fingerprint (current st0), previous_world := world_fingerprint w c,
      no_progress_count := idle, stop := progress_stop cfg r idle st0\<rparr>"
    using step c by (simp add: check_progress_def Let_def idle_def)
  have same: "action_audits st0 = action_audits st" "turns st0 = turns st" using case_account [OF c] by (simp_all add: account_def)
  have length: "length (action_audits st1) = ?p"
    using map_eq_imp_length_eq [OF progress_recorded [OF step]] by simp
  have ok1: "loop_ok w cfg (route_unless_stopped Select_Action st1) st1" "turns st1 = turns st"
    using check_progress_ok [OF step ok] by simp_all
  have turns: "turns st1 = length (action_audits st1)"
    using ok ok1(2) length by (simp add: loop_ok_def base_ok_def turn_ok_def)
  have model: "\<not> model_budget_exhausted cfg r st1" if "stop st1 = None"
    using that live by (auto simp: st1 progress_stop_def model_budget_exhausted_def split: if_splits)
  have due: "ends_here x st1 y \<longleftrightarrow> progress_stop cfg r idle st0 = Some y" if "y \<in> {Wall_Time, Model_Budget}" for y
    using due_at_stop [OF run ok1(1) turns that model] by (simp add: st1)
  have wall: "wall_time_exhausted (replay_of r x) (tape ?p st0) \<longleftrightarrow> progress_stop cfg r idle st0 = Some Wall_Time"
    and model: "model_budget_exhausted cfg (replay_of r x) (tape ?p st0) \<longleftrightarrow> progress_stop cfg r idle st0 = Some Model_Budget"
    using due [of Wall_Time] due [of Model_Budget] length
    by (simp_all add: wall_time_exhausted_def model_budget_exhausted_def from_trajectory_def)
  have stop: "progress_stop cfg (replay_of r x) idle (tape ?p st0) = progress_stop cfg r idle st0"
    unfolding progress_stop_def [of cfg "replay_of r x"] by (simp add: wall model) (simp add: progress_stop_def)
  have made: "progress_made w c (tape ?p st0) \<longleftrightarrow> progress_made w c st0" by (simp add: progress_made_def tape_def)
  have idle: "(if progress_made w c (tape ?p st0) then 0 else no_progress_count (tape ?p st0) + 1) = idle"
    by (simp add: made idle_def)
  have latest: "classify_latest w (tape ?p st0) = classify_latest w st0" by (simp add: classify_latest_def)
  show ?thesis
    unfolding check_progress_def current_case_tape c and_then.simps prod.case Let_def idle stop latest
    by (simp add: st1 tape_def)
qed


section \<open>The whole run\<close>

text \<open>
  The playback at the state of a run: everything but the calls of the model, the position in the recording
  and, where the next node selects or ends, the action that was looked at last.
\<close>

definition in_step :: "node \<Rightarrow> loop_state \<Rightarrow> loop_state \<Rightarrow> bool" where
  "in_step v st t \<longleftrightarrow>
     (\<exists>q. t = over (length (action_audits st)) q st \<and> (v \<notin> {Select_Action, Finalize} \<longrightarrow> q = pending_action st))
     \<or> (v = Finalize \<and> seen t = seen st \<and> model_calls t = 0)"

lemma in_step_tape: "in_step v st (tape (length (action_audits st)) st)"
  unfolding in_step_def using over_tape by metis

lemma in_step_read:
  assumes "in_step v st t" "v \<notin> {Select_Action, Finalize}"
  shows "t = tape (length (action_audits st)) st"
  using assms over_pending by (auto simp: in_step_def)

lemma replays_in_step:
  assumes "replays w cfg t (length (action_audits st2)) st st2"
    "route_after_validate st2 \<in> {Select_Action, Execute_Tool, Finalize}"
  shows "\<exists>t2. validate w cfg t = Inr t2 \<and> route_after_validate t2 = route_after_validate st2
    \<and> in_step (route_after_validate st2) st2 t2"
  using assms by (auto simp: replays_def in_step_def)

text \<open>A turn of the run and the same turn played back.\<close>

lemma turn_replayed:
  assumes live: "playback r = None" and ok: "loop_ok w cfg Select_Action st"
    and select: "select_action w cfg r st = Inr st1" "stop st1 = None"
    and run: "run_graph w cfg r n Validate_Action st1 = Some (Inr x)"
    and t: "in_step Select_Action st t"
  shows "run_graph w cfg (replay_of r x) (Suc n) Select_Action t = Some (Inr (x\<lparr>result_model_calls := 0\<rparr>))
    \<or> (\<exists>m v2 st2 t1 t2. n = Suc m \<and> run_graph w cfg r m v2 st2 = Some (Inr x) \<and> loop_ok w cfg v2 st2
        \<and> select_action w cfg (replay_of r x) t = Inr t1 \<and> stop t1 = None
        \<and> graph_step w cfg (replay_of r x) Validate_Action t1 = Inr (v2, t2) \<and> v2 \<noteq> Validate_Action \<and> in_step v2 st2 t2)"
proof -
  let ?p = "length (action_audits st)"
  obtain q where q: "t = over ?p q st" using t by (auto simp: in_step_def)
  have turns: "turns st = ?p" using ok by (simp add: loop_ok_def base_ok_def turn_ok_def)
  from select have free: "\<not> model_budget_exhausted cfg r st" "turns st < max_turns cfg" "tool_calls st < max_tool_calls cfg"
    by (auto simp: select_action_def not_less split: if_splits)
  then obtain c st0 where c: "current_case w st = Inr (c, st0)" and st1: "st1 = apply_selection r (answer_turn r c st0) st0"
    using select(1) live by (auto simp: select_action_def)
  have st0: "action_audits st0 = action_audits st" "turns st0 = turns st" using case_account [OF c] by (simp_all add: account_def)
  have ok1: "loop_ok w cfg Validate_Action st1" "turns st1 = turns st + 1"
    using select_ok [OF select(1) ok] select(2) by (simp_all add: route_unless_stopped_def)
  have fuel: "run_graph w cfg r (Suc n) Select_Action st = Some (Inr x)"
    using select run by (simp add: run_graph_step route_unless_stopped_def)
  have "\<not> ends_here x st Model_Budget" using not_due_before_turn [OF fuel ok] free by simp
  from playback_select [OF free(2,3) this c]
  have plays: "select_action w cfg (replay_of r x) t = play_recorded_turn (result_audits x, terminal_of x) (over ?p q st0)"
    by (simp add: q)
  obtain a0 labels calls where answer: "answer_turn r c st0 = (Chosen a0 labels, calls)"
    using select(2) st1 by (cases "answer_turn r c st0") (auto simp: apply_selection_def Let_def split: selection.splits)
  define l where "l = write_labels (semantic_kind r) labels (pending_labels st0)"
  have st1': "st1 = st0\<lparr>turns := turns st0 + 1, model_calls := model_calls st0 + calls, pending_action := a0,
      pending_labels := l, stop := None\<rparr>"
    by (simp add: st1 answer apply_selection_def Let_def l_def)
  show ?thesis
  proof (cases a0)
    case None
    obtain m v2 st2 where m: "n = Suc m" "graph_step w cfg r Validate_Action st1 = Inr (v2, st2)"
      "run_graph w cfg r m v2 st2 = Some (Inr x)" using run by (rule run_graph_Some) simp
    then have st2: "st2 = st1\<lparr>stop := Some Policy_Stop, validation_status := Some INVALID_EXHAUSTED\<rparr>" "v2 = Finalize"
      by (auto simp: validate_def st1' None route_after_validate_def)
    then have f: "finalize st2 = Inr x" using m(3) by (simp add: run_finalize)
    have x: "result_audits x = action_audits st" "result_turns x = ?p + 1" "result_stop x = Policy_Stop"
      using finalize_result [OF f] turns by (simp_all add: st2(1) st1' st0)
    let ?t = "(over ?p q st0)\<lparr>stop := Some Policy_Stop, turns := turns st + 1\<rparr>"
    have played: "select_action w cfg (replay_of r x) t = Inr ?t"
      unfolding plays by (simp add: play_recorded_turn_def x terminal_of_def st0)
    have "finalize ?t = Inr (x\<lparr>result_model_calls := 0\<rparr>)"
      by (rule finalize_seen [OF f]) (simp_all add: seen_def st2(1) st1' over_def tape_def st0)
    then show ?thesis using played by (simp add: run_graph_step route_unless_stopped_def run_finalize)
  next
    case (Some a)
    obtain m v2 st2 where m: "n = Suc m" "graph_step w cfg r Validate_Action st1 = Inr (v2, st2)"
      "run_graph w cfg r m v2 st2 = Some (Inr x)" using run by (rule run_graph_Some) simp
    then have st2: "validate w cfg st1 = Inr st2" "v2 = route_after_validate st2" by auto
    have hit: "current_case w st1 = Inr (c, st1)"
      using current_case_again [OF c] case_hit [of w "acquired_refs st0" "acquired_findings st0" st0 c st1]
      by (simp add: current_case_def st1')
    have next': "loop_ok w cfg v2 st2" "v2 \<in> {Select_Action, Execute_Tool, Finalize}"
      using validate_ok [OF st2(1) ok1(1)] st2(2) by simp_all
    obtain au where au: "action_audits st2 = action_audits st1 @ [au]"
      "replays w cfg ((over (?p + 1) (Some (audited_action au)) st1)\<lparr>pending_labels := audit_labels au\<rparr>) (?p + 1) st1 st2"
      using validate_replayed [OF st2(1) _ hit, of a "?p + 1"] Some by (auto simp: st1')
    have audits1: "action_audits st1 = action_audits st" by (simp add: st1' st0)
    obtain ys where ys: "map recorded (result_audits x) = map recorded (action_audits st) @ recorded au # ys"
      using run_grows [OF m(3) next'(1)] by (auto simp: au(1) audits1)
    have more: "?p < length (result_audits x)" using arg_cong [OF ys, of length] by simp
    have "map recorded (result_audits x) ! ?p = recorded au" unfolding ys by (simp add: nth_append)
    then have turn: "audited_action (result_audits x ! ?p) = audited_action au" "audit_labels (result_audits x ! ?p) = audit_labels au"
      using more by (simp_all add: recorded_def)
    let ?t = "(over (?p + 1) (Some (audited_action au)) st1)\<lparr>pending_labels := audit_labels au\<rparr>"
    have played: "select_action w cfg (replay_of r x) t = Inr ?t"
      using more by (simp add: plays play_recorded_turn_def Let_def turn) (simp add: st1' over_def tape_def st0)
    have "?p + 1 = length (action_audits st2)" by (simp add: au(1) audits1)
    then obtain t2 where "validate w cfg ?t = Inr t2" "route_after_validate t2 = v2" "in_step v2 st2 t2"
      using replays_in_step [of w cfg ?t st2 st1] au(2) next'(2) st2(2) by auto
    moreover have "stop ?t = None" by (simp add: st1')
    ultimately show ?thesis using m next' played by (intro disjI2) auto
  qed
qed

text \<open>The selection that ends a run, by a budget or by a turn without an audit.\<close>

lemma stop_replayed:
  assumes live: "playback r = None" and ok: "loop_ok w cfg Select_Action st"
    and select: "select_action w cfg r st = Inr st1" "stop st1 = Some y" and f: "finalize st1 = Inr x"
    and t: "in_step Select_Action st t"
  shows "\<exists>t1. select_action w cfg (replay_of r x) t = Inr t1 \<and> stop t1 \<noteq> None
    \<and> finalize t1 = Inr (x\<lparr>result_model_calls := 0\<rparr>)"
proof -
  let ?p = "length (action_audits st)"
  obtain q where q: "t = over ?p q st" using t by (auto simp: in_step_def)
  have turns: "turns st = ?p" using ok by (simp add: loop_ok_def base_ok_def turn_ok_def)
  note x = finalize_result [OF f]
  show ?thesis
  proof (cases "max_turns cfg \<le> turns st \<or> max_tool_calls cfg \<le> tool_calls st \<or> model_budget_exhausted cfg r st")
    case True
    then have st1: "st1 = st\<lparr>stop := Some y\<rparr>"
      and y: "y = (if max_turns cfg \<le> turns st then Turn_Budget else if max_tool_calls cfg \<le> tool_calls st then Tool_Budget else Model_Budget)"
      using select by (auto simp: select_action_def split: if_splits)
    have due: "model_budget_exhausted cfg (replay_of r x) t \<longleftrightarrow> y = Model_Budget"
      using turns by (simp add: model_budget_exhausted_def from_trajectory_def terminal_due_def terminal_of_def x st1 q)
    have "select_action w cfg (replay_of r x) t = Inr (t\<lparr>stop := Some y\<rparr>)"
      using due y by (simp add: select_action_def q)
    moreover have "finalize (t\<lparr>stop := Some y\<rparr>) = Inr (x\<lparr>result_model_calls := 0\<rparr>)"
      by (rule finalize_seen [OF f]) (simp_all add: seen_def st1 q over_def tape_def)
    ultimately show ?thesis by auto
  next
    case False
    then have free: "turns st < max_turns cfg" "tool_calls st < max_tool_calls cfg" "\<not> model_budget_exhausted cfg r st" by auto
    then obtain c st0 where c: "current_case w st = Inr (c, st0)" and st1: "st1 = apply_selection r (answer_turn r c st0) st0"
      using select(1) live by (auto simp: select_action_def)
    have st0: "action_audits st0 = action_audits st" "turns st0 = turns st" using case_account [OF c] by (simp_all add: account_def)
    obtain chosen calls where answer: "answer_turn r c st0 = (chosen, calls)" by fastforce
    have st1': "st1 = st0\<lparr>turns := turns st0 + 1, model_calls := model_calls st0 + calls, stop := Some y\<rparr>"
      using select(2) by (auto simp: st1 answer apply_selection_def Let_def split: selection.splits)
    have audits: "result_audits x = action_audits st" "result_turns x = ?p + 1" "result_stop x = y"
      using turns by (simp_all add: x st1' st0)
    then have "\<not> ends_here x st Model_Budget" by (simp add: terminal_due_def terminal_of_def)
    from playback_select [OF free(1,2) this c]
    have plays: "select_action w cfg (replay_of r x) t = play_recorded_turn (result_audits x, terminal_of x) (over ?p q st0)"
      by (simp add: q)
    let ?t = "(over ?p q st0)\<lparr>stop := Some y, turns := turns st + 1\<rparr>"
    have "select_action w cfg (replay_of r x) t = Inr ?t"
      unfolding plays by (simp add: play_recorded_turn_def audits terminal_of_def st0)
    moreover have "finalize ?t = Inr (x\<lparr>result_model_calls := 0\<rparr>)"
      by (rule finalize_seen [OF f]) (simp_all add: seen_def st1' over_def tape_def st0)
    ultimately show ?thesis by auto
  qed
qed

lemma run_replayed:
  assumes live: "playback r = None"
  shows "run_graph w cfg r n v st = Some (Inr x) \<Longrightarrow> loop_ok w cfg v st \<Longrightarrow> v \<noteq> Validate_Action \<Longrightarrow> in_step v st t
    \<Longrightarrow> run_graph w cfg (replay_of r x) n v t = Some (Inr (x\<lparr>result_model_calls := 0\<rparr>))"
proof (induction n arbitrary: v st t rule: less_induct)
  case (less n)
  let ?r = "replay_of r x" and ?p = "length (action_audits st)"
  have kind: "semantic_kind ?r = semantic_kind r" by (simp add: from_trajectory_def)
  show ?case
  proof (cases "v = Finalize")
    case True
    then have "finalize st = Inr x" using less.prems(1) by (simp add: run_finalize)
    then show ?thesis
      using finalize_seen [of st x t] less.prems(4) True by (auto simp: run_finalize in_step_def over_seen)
  next
    case False
    with less.prems(1) obtain m v1 st1 where m: "n = Suc m" "graph_step w cfg r v st = Inr (v1, st1)"
      "run_graph w cfg r m v1 st1 = Some (Inr x)" by (rule run_graph_Some)
    have ok1: "loop_ok w cfg v1 st1" using graph_step_ok [OF m(2) less.prems(2) False] by simp
    have go: ?thesis if "graph_step w cfg ?r v t = Inr (v1, t1)" "in_step v1 st1 t1" "v1 \<noteq> Validate_Action" for t1
      using less.IH [OF _ m(3) ok1 that(3,2)] m(1) that(1) False by (simp add: run_graph_step)
    have read: ?thesis
      if v: "v \<in> {Execute_Tool, Check_Novelty, Normalize_Observation, Rebuild_Hypotheses, Check_Progress}"
        and step: "graph_step w cfg ?r v (tape ?p st) = Inr (v1, tape ?p st1)"
    proof (rule go)
      show "graph_step w cfg ?r v t = Inr (v1, tape ?p st1)" using step in_step_read [OF less.prems(4)] v by auto
      show "in_step v1 st1 (tape ?p st1)"
        using in_step_tape [of v1 st1] audits_length [OF m(2) less.prems(2) v] by simp
      show "v1 \<noteq> Validate_Action" using m(2) v by (auto simp: route_unless_stopped_def split: if_splits)
    qed
    show ?thesis
    proof (cases v)
      case Assess
      then have st1: "st1 = assess cfg r st" "v1 = route_unless_stopped Select_Action st1" using m(2) by (auto simp: Let_def)
      have t: "t = tape ?p st" using in_step_read [OF less.prems(4)] Assess by simp
      have "assess cfg ?r t = tape ?p st1"
        using assess_replayed [OF live, of w cfg st m x] less.prems(2) m(3) Assess st1 t by simp
      moreover have "action_audits st1 = action_audits st" by (simp add: st1(1) assess_def)
      ultimately show ?thesis
        using go [of "tape ?p st1"] in_step_tape [of v1 st1] Assess st1(2) by (auto simp: Let_def route_unless_stopped_def)
    next
      case Select_Action
      then have st1: "select_action w cfg r st = Inr st1" "v1 = route_unless_stopped Validate_Action st1" using m(2) by auto
      show ?thesis
      proof (cases "stop st1")
        case None
        then have "run_graph w cfg r m Validate_Action st1 = Some (Inr x)" using m(3) st1(2) by (simp add: route_unless_stopped_def)
        from turn_replayed [OF live _ st1(1) None this, of t] less.prems(2,4) Select_Action
        consider "run_graph w cfg ?r (Suc m) Select_Action t = Some (Inr (x\<lparr>result_model_calls := 0\<rparr>))"
          | k v2 st2 t1 t2 where "m = Suc k" "run_graph w cfg r k v2 st2 = Some (Inr x)" "loop_ok w cfg v2 st2"
            "select_action w cfg ?r t = Inr t1" "stop t1 = None" "graph_step w cfg ?r Validate_Action t1 = Inr (v2, t2)"
            "v2 \<noteq> Validate_Action" "in_step v2 st2 t2"
          by blast
        then show ?thesis
        proof cases
          case 1
          then show ?thesis using m(1) Select_Action by simp
        next
          case (2 k v2 st2 t1 t2)
          have "run_graph w cfg ?r k v2 t2 = Some (Inr (x\<lparr>result_model_calls := 0\<rparr>))"
            by (rule less.IH [OF _ 2(2,3,7,8)]) (use m(1) 2(1) in simp)
          then show ?thesis
            using m(1) 2(1,4-6) Select_Action by (simp add: run_graph_step route_unless_stopped_def)
        qed
      next
        case (Some y)
        then have "finalize st1 = Inr x" using m(3) st1(2) by (simp add: route_unless_stopped_def run_finalize)
        then obtain t1 where "select_action w cfg ?r t = Inr t1" "stop t1 \<noteq> None" "finalize t1 = Inr (x\<lparr>result_model_calls := 0\<rparr>)"
          using stop_replayed [OF live _ st1(1) Some] less.prems(2,4) Select_Action by blast
        then show ?thesis using m(1) Select_Action by (simp add: run_graph_step route_unless_stopped_def run_finalize)
      qed
    next
      case Execute_Tool
      then show ?thesis using read m(2) by (auto simp: execute_tape)
    next
      case Check_Novelty
      then show ?thesis using read m(2) by (auto simp: novelty_tape)
    next
      case Normalize_Observation
      then show ?thesis using read m(2) by (auto simp: normalize_tape [OF kind])
    next
      case Rebuild_Hypotheses
      then show ?thesis using read m(2) by (auto simp: rebuild_tape)
    next
      case Check_Progress
      then have st1: "check_progress w cfg r st = Inr st1" "v1 = route_unless_stopped Select_Action st1" using m(2) by auto
      have "check_progress w cfg ?r (tape ?p st) = Inr (tape ?p st1)"
        using check_progress_replayed [OF live _ st1(1)] less.prems(2) m(3) st1(2) Check_Progress by simp
      then show ?thesis using read Check_Progress st1(2) by (auto simp: route_unless_stopped_def)
    qed (use less.prems(3) False in simp_all)
  qed
qed


text \<open>
  C26: Playing a trajectory back reproduces the investigation. When an investigation with any policy or
  selector returned a result, the playback of its audits and terminal over the same world returns the
  same result: the same diagnosis, answers, observations, ledger, audits, budgets spent and reason to
  stop. Only the calls of the model are gone.
\<close>

theorem playback_reproduces_run:
  assumes "playback r = None" "investigate w cfg r c table = Some (Inr x)"
  shows "investigate w cfg (from_trajectory (semantic_kind r) (counts_as_model r) (result_audits x) (terminal_of x)) c table
    = Some (Inr (x\<lparr>result_model_calls := 0\<rparr>))"
proof -
  let ?st = "initial_state w c table (diagnose_case w c)"
  have "tape (length (action_audits ?st)) ?st = ?st" by (simp add: tape_def initial_state_def)
  then have "in_step Assess ?st ?st" using in_step_tape [of Assess ?st] by simp
  with assms show ?thesis using run_replayed [OF assms(1) _ initial_ok] unfolding investigate_def by blast
qed

lemma playback_reproduces_run_witness:
  "\<exists>x. investigate sample_world sample_config sample_policy sample_case [] = Some (Inr x)
     \<and> result_turns x = 2 \<and> result_model_calls x = 2
     \<and> investigate sample_world sample_config
          (from_trajectory ACTION True (result_audits x) (terminal_of x)) sample_case []
        = Some (Inr (x\<lparr>result_model_calls := 0\<rparr>))"
proof -
  obtain x where x: "investigate sample_world sample_config sample_policy sample_case [] = Some (Inr x)"
    "result_turns x = 2" "result_model_calls x = 2" by (rule sample_returns)
  have "playback sample_policy = None" "semantic_kind sample_policy = ACTION" "counts_as_model sample_policy"
    by (simp_all add: sample_policy_def)
  with playback_reproduces_run [OF this(1) x(1)] x show ?thesis by auto
qed

end
