(* ===== verification/Structural_Frontier.thy ===== *)
theory Structural_Frontier
  imports Topology Frontier
begin

text \<open>
  The structural alternatives of an incident (\<open>derive_structural_frontier\<close> in \<open>packages/rca/frontier.py\<close>): the
  actors that the topology puts in a causal role towards an alerting workload, worth a question before
  anything was observed of them. The digest of an identifier is an argument. The alerting entities are a
  set in the source, a list without repetitions here.
\<close>

record frontier_context =
  frontier_topology :: topology
  frontier_symptoms :: "entity_ref list"

record derived_alternative = targeted_alternative +
  structural_basis :: "string list"
  alternative_path :: "causal_hop list"
  linked_symptoms :: "string list"

section \<open>Roles\<close>

definition ROLE_BY_RELATION :: "(string \<times> string) list" where
  "ROLE_BY_RELATION =
     [(''uses_config'', ''configuration_source''), (''scales'', ''autoscaler''), (''restricts'', ''network_policy''),
      (''disrupts'', ''fault_actor''), (''calls'', ''dependency''), (''owned_by'', ''workload_controller'')]"

definition DIMENSIONS_BY_ROLE :: "(string \<times> gap_dimension list) list" where
  "DIMENSIONS_BY_ROLE =
     [(''configuration_source'', [CONFIG_DIFFERENCE, CHANGE_TIMING]), (''api_access'', [CONFIG_DIFFERENCE, CHANGE_TIMING]),
      (''autoscaler'', [AUTOSCALING_TARGET_STATE, EVENT_SEQUENCE]), (''network_policy'', [CHANGE_TIMING]),
      (''fault_actor'', [EVENT_SEQUENCE, FAILURE_ONSET]), (''dependency'', [DEPENDENCY_HEALTH, LOG_ERROR_PATTERN]),
      (''workload_controller'', [CONFIG_DIFFERENCE, CHANGE_TIMING]), (''quota'', [EVENT_SEQUENCE, ENTITY_STATE])]"

section \<open>Affected workloads\<close>

definition is_workload :: "entity_ref \<Rightarrow> bool" where
  "is_workload e \<longleftrightarrow> kind e \<in> set WORKLOAD_KINDS"

definition symptom_workloads :: "topology \<Rightarrow> entity_ref \<Rightarrow> entity_ref list" where
  "symptom_workloads t e =
     (if is_workload e then [e] else []) @ (case workload_of t e of None \<Rightarrow> [] | Some w \<Rightarrow> [w])
     @ filter is_workload (edges_out t e ''routes_to'')"

definition alerting_workloads :: "frontier_context \<Rightarrow> entity_ref list" where
  "alerting_workloads x = dedup (concat (map (symptom_workloads (frontier_topology x)) (frontier_symptoms x)))"

definition own_workload :: "topology \<Rightarrow> entity_ref \<Rightarrow> entity_ref option" where
  "own_workload t e = or_else (workload_of t e) (if is_workload e then Some e else None)"

definition related_targets :: "topology \<Rightarrow> entity_ref \<Rightarrow> entity_ref \<Rightarrow> entity_ref list" where
  "related_targets t actor affected =
     actor # affected # (case own_workload t affected of
         None \<Rightarrow> []
       | Some w \<Rightarrow> w # filter (\<lambda>e. kind e = ''Pod'' \<and> workload_of t e = Some w) (map fst (topo_latest t)))"

section \<open>Configuration held for API access\<close>

definition latest_spec :: "topology \<Rightarrow> entity_ref \<Rightarrow> (string \<times> json) list option" where
  "latest_spec t e = Option.bind (map_of (topo_latest t) e) (pod_spec \<circ> body)"

text \<open>The nearest of at most three owners with a pod template does not declare the configuration.\<close>

primrec undeclared :: "topology \<Rightarrow> nat \<Rightarrow> config_ref \<Rightarrow> entity_ref \<Rightarrow> bool" where
  "undeclared t 0 config current = False"
| "undeclared t (Suc n) config current =
     (case edges_out t current ''owned_by'' of
        [] \<Rightarrow> False
      | o' # _ \<Rightarrow>
          (case latest_spec t o' of
             Some template \<Rightarrow> config \<notin> set (config_refs template)
           | None \<Rightarrow> undeclared t n config o'))"

definition api_access :: "topology \<Rightarrow> entity_ref \<Rightarrow> entity_ref \<Rightarrow> bool" where
  "api_access t config holder \<longleftrightarrow>
     (case latest_spec t holder of
        None \<Rightarrow> False
      | Some spec \<Rightarrow> kind holder = ''Pod'' \<and> (kind config, name config) \<in> set (api_access_refs spec)
          \<and> undeclared t 3 (kind config, name config) holder)"

text \<open>JSON values are compared as Python compares them, without the order of the keys.\<close>

definition same_content :: "object_version \<Rightarrow> object_version \<Rightarrow> bool" where
  "same_content u v \<longleftrightarrow>
     canon (dict_value (body u) ''data'') = canon (dict_value (body v) ''data'')
     \<and> canon (dict_value (body u) ''binaryData'') = canon (dict_value (body v) ''binaryData'')"

definition content_changed :: "journal \<Rightarrow> instant option \<Rightarrow> entity_ref \<Rightarrow> bool" where
  "content_changed history onset config \<longleftrightarrow>
     (let vs = sort_key observed_at (versions_of history config)
      in list_ex (\<lambda>(u, v). (lifecycle v = DELETED \<or> \<not> same_content v u)
           \<and> (case onset of None \<Rightarrow> True | Some t \<Rightarrow> observed_at v \<le> t)) (zip vs (tl vs)))"

section \<open>Rows\<close>

type_synonym frontier_row = "entity_ref list \<times> string list"
type_synonym frontier_rows = "((entity_ref \<times> string) \<times> frontier_row) list"

definition merge_row :: "entity_ref \<times> string \<Rightarrow> entity_ref \<Rightarrow> string \<Rightarrow> frontier_rows \<Rightarrow> frontier_rows" where
  "merge_row k affected basis rows =
     (let previous = (case map_of rows k of None \<Rightarrow> ([], []) | Some row \<Rightarrow> row)
      in AList.update k (dedup (affected # fst previous), sorted_set (snd previous @ [basis])) rows)"

text \<open>Who acts and who is affected along an edge.\<close>

definition edge_actor :: "relation_edge \<Rightarrow> entity_ref \<times> entity_ref" where
  "edge_actor e =
     (if edge_relation e \<in> {''scales'', ''restricts'', ''disrupts''} then (edge_source e, edge_target e)
      else (edge_target e, edge_source e))"

definition concerns_alert :: "frontier_context \<Rightarrow> entity_ref \<Rightarrow> bool" where
  "concerns_alert x affected \<longleftrightarrow>
     own_workload (frontier_topology x) affected \<in> Some ` set (alerting_workloads x)
     \<or> affected \<in> set (frontier_symptoms x)"

definition edge_role ::
  "frontier_context \<Rightarrow> journal \<Rightarrow> instant option \<Rightarrow> relation_edge \<Rightarrow> string option" where
  "edge_role x history onset e =
     (case (map_of ROLE_BY_RELATION (edge_relation e), edge_actor e) of
        (None, _) \<Rightarrow> None
      | (Some r, actor, affected) \<Rightarrow>
          if r = ''workload_controller'' \<and> \<not> is_workload actor then None
          else if \<not> concerns_alert x affected then None
          else if kind actor \<in> {''Pod'', ''Service''} \<and> r \<noteq> ''dependency'' then None
          else if r = ''configuration_source'' \<and> api_access (frontier_topology x) actor affected
                  \<and> \<not> content_changed history onset actor
          then Some ''api_access'' else Some r)"

definition edge_row ::
  "frontier_context \<Rightarrow> journal \<Rightarrow> instant option \<Rightarrow> relation_edge \<Rightarrow> frontier_rows \<Rightarrow> frontier_rows" where
  "edge_row x history onset e rows =
     (case (edge_role x history onset e, edge_actor e) of
        (None, _) \<Rightarrow> rows
      | (Some r, actor, affected) \<Rightarrow>
          merge_row (actor, r) affected (edge_relation e @ '':'' @ kind actor @ '':'' @ kind affected) rows)"

definition admits_pods :: "object_version \<Rightarrow> bool" where
  "admits_pods v \<longleftrightarrow>
     (case py_or (dict_value (as_dict (dict_value (body v) ''spec'')) ''hard'')
                 (dict_value (as_dict (dict_value (body v) ''status'')) ''hard'') of
        JDict hard \<Rightarrow> list_ex (\<lambda>(k, _). k \<in> {''pods'', ''cpu'', ''memory'', ''ephemeral-storage''}
            \<or> starts_with ''requests.'' k \<or> starts_with ''limits.'' k) hard
      | _ \<Rightarrow> False)"

definition quota_targets :: "frontier_context \<Rightarrow> entity_ref \<Rightarrow> entity_ref list" where
  "quota_targets x actor = filter (\<lambda>w. namespace w = namespace actor) (alerting_workloads x)"

definition quota_row :: "frontier_context \<Rightarrow> entity_ref \<times> object_version \<Rightarrow> frontier_rows \<Rightarrow> frontier_rows" where
  "quota_row x object rows =
     (case object of (actor, v) \<Rightarrow>
        if kind actor = ''ResourceQuota'' \<and> admits_pods v \<and> quota_targets x actor \<noteq> []
        then AList.update (actor, ''quota'') (quota_targets x actor, [''declared:pod-admission-quota'']) rows
        else rows)"

definition alert_row :: "entity_ref \<Rightarrow> frontier_rows \<Rightarrow> frontier_rows" where
  "alert_row w rows =
     (if map_of rows (w, ''workload_controller'') = None
      then rows @ [((w, ''workload_controller''), ([w], [''symptom:workload_controller'']))] else rows)"

definition frontier_rows_of :: "frontier_context \<Rightarrow> journal \<Rightarrow> instant option \<Rightarrow> frontier_rows" where
  "frontier_rows_of x history onset =
     fold alert_row (sort_key canonical (alerting_workloads x))
       (fold (quota_row x) (topo_latest (frontier_topology x))
         (fold (edge_row x history onset) (topo_edges (frontier_topology x)) []))"

section \<open>Alternatives\<close>

definition alternative_id_of :: "(json \<Rightarrow> string) \<Rightarrow> entity_ref \<Rightarrow> string \<Rightarrow> string list \<Rightarrow> string" where
  "alternative_id_of digest actor r basis =
     ''alternative:'' @ take 20 (digest (JDict [(''actor'', JStr (canonical actor)), (''role'', JStr r),
       (''basis'', JList (map JStr (sort basis)))]))"

definition linked_symptoms_of :: "frontier_context \<Rightarrow> entity_ref \<Rightarrow> string list" where
  "linked_symptoms_of x actor =
     take 8 (sort (map canonical (filter (\<lambda>e. e = actor
         \<or> e \<in> fst ` set (causal_reachable (frontier_topology x) 4 actor)) (frontier_symptoms x))))"

definition alternative_of ::
  "(json \<Rightarrow> string) \<Rightarrow> frontier_context \<Rightarrow> (entity_ref \<times> string) \<times> frontier_row \<Rightarrow> derived_alternative" where
  "alternative_of digest x row =
     (case row of ((actor, r), affected, basis) \<Rightarrow>
        \<lparr>alternative_id = alternative_id_of digest actor r basis, affected_entities = sort_key canonical affected,
         material_for = [], missing_decision = '''', alternative_actor = actor, alternative_role = r,
         queryable_dimensions = the (map_of DIMENSIONS_BY_ROLE r), queried_dimensions = [],
         frontier_status = UNEXPLORED, alternative_answer = None,
         alternative_targets = sort_key canonical
           (dedup (concat (map (related_targets (frontier_topology x) actor) affected))),
         structural_basis = basis,
         alternative_path = (case causal_path (frontier_topology x) 4 actor (frontier_symptoms x) of
             None \<Rightarrow> [] | Some p \<Rightarrow> p),
         linked_symptoms = linked_symptoms_of x actor\<rparr>)"

definition derive_structural_frontier ::
  "(json \<Rightarrow> string) \<Rightarrow> frontier_context \<Rightarrow> journal \<Rightarrow> instant option \<Rightarrow> derived_alternative list" where
  "derive_structural_frontier digest x history onset =
     map (alternative_of digest x)
       (sort_key (\<lambda>((actor, r), _). (canonical actor, r)) (frontier_rows_of x history onset))"

end
