(* ===== verification/Structural_Frontier_Correct.thy ===== *)
theory Structural_Frontier_Correct
  imports Structural_Frontier Topology_Correct
begin

text \<open>
  What the derived frontier holds: exactly the questions that the relations of the topology, the quotas and
  the alerts raise, one alternative for each actor and role, and of which form each alternative is.
\<close>

section \<open>Rows\<close>


definition row_ok :: "(entity_ref \<times> string) \<times> frontier_row \<Rightarrow> bool" where
  "row_ok row \<longleftrightarrow>
     fst (snd row) \<noteq> [] \<and> distinct (fst (snd row)) \<and> snd (fst row) \<in> fst ` set DIMENSIONS_BY_ROLE
     \<and> (kind (fst (fst row)) \<in> {''Pod'', ''Service''} \<longrightarrow> snd (fst row) = ''dependency'')"

definition rows_ok :: "frontier_rows \<Rightarrow> bool" where
  "rows_ok rows \<longleftrightarrow> distinct (map fst rows) \<and> (\<forall>row\<in>set rows. row_ok row)"

lemma in_update: "y \<in> set (AList.update k v d) \<Longrightarrow> y = (k, v) \<or> y \<in> set d"
  by (induction d) (auto split: if_splits)

lemma rows_ok_update: "rows_ok rows \<Longrightarrow> row_ok (k, row) \<Longrightarrow> rows_ok (AList.update k row rows)"
  unfolding rows_ok_def using in_update [of _ k row rows] distinct_update [of rows k row] by blast



lemma rows_ok_merge:
  assumes "rows_ok rows" "snd k \<in> fst ` set DIMENSIONS_BY_ROLE" "kind (fst k) \<in> {''Pod'', ''Service''} \<longrightarrow> snd k = ''dependency''"
  shows "rows_ok (merge_row k a basis rows)"
  unfolding merge_row_def Let_def by (rule rows_ok_update [OF assms(1)]) (use assms(2,3) in \<open>simp add: row_ok_def\<close>)

section \<open>Workloads\<close>

lemma workload_of_kind: "workload_of t e = Some w \<Longrightarrow> is_workload w"
  by (auto simp: workload_of_def is_workload_def Let_def WORKLOAD_KINDS_def split: if_splits dest!: find_Some_set)

lemma alerting_kind: "w \<in> set (alerting_workloads x) \<Longrightarrow> is_workload w"
  by (auto simp: alerting_workloads_def symptom_workloads_def split: if_splits option.splits dest: workload_of_kind [OF sym])

lemma workload_not_pod: "is_workload w \<Longrightarrow> kind w \<notin> {''Pod'', ''Service''}"
  by (auto simp: is_workload_def WORKLOAD_KINDS_def)

section \<open>The three sources of rows\<close>

lemma edge_role_known:
  assumes "edge_role x history onset e = Some r" "edge_actor e = (actor, affected)"
  shows "r \<in> fst ` set DIMENSIONS_BY_ROLE \<and> (kind actor \<in> {''Pod'', ''Service''} \<longrightarrow> r = ''dependency'')"
proof -
  obtain r' where r': "map_of ROLE_BY_RELATION (edge_relation e) = Some r'" using assms by (auto simp: edge_role_def split: option.splits)
  then have "r' \<in> snd ` set ROLE_BY_RELATION" by (force dest: map_of_SomeD)
  then have "r' \<in> {''configuration_source'', ''autoscaler'', ''network_policy'', ''fault_actor'', ''dependency'', ''workload_controller''}"
    by (auto simp: ROLE_BY_RELATION_def)
  moreover have "r = r' \<or> r = ''api_access'' \<and> r' \<noteq> ''dependency''" "kind actor \<in> {''Pod'', ''Service''} \<longrightarrow> r' = ''dependency''"
    using assms r' by (auto simp: edge_role_def split: if_splits)
  ultimately show ?thesis by (auto simp: DIMENSIONS_BY_ROLE_def)
qed



lemma edge_rows_ok: "rows_ok rows \<Longrightarrow> rows_ok (fold (edge_row x history onset) es rows)"
proof (induction es arbitrary: rows)
  case (Cons e es)
  obtain actor affected where e: "edge_actor e = (actor, affected)" by fastforce
  have "rows_ok (edge_row x history onset e rows)"
  proof (cases "edge_role x history onset e")
    case (Some r)
    then show ?thesis
      using rows_ok_merge [OF Cons.prems, of "(actor, r)"] edge_role_known [OF Some e] by (simp add: edge_row_def e)
  qed (use Cons.prems in \<open>simp add: edge_row_def e\<close>)
  then show ?case using Cons.IH by simp
qed simp



lemma quota_rows_ok: "rows_ok rows \<Longrightarrow> rows_ok (fold (quota_row x) objects rows)"
proof (induction objects arbitrary: rows)
  case (Cons o' objects)
  obtain actor v where o': "o' = (actor, v)" by fastforce
  have "rows_ok (quota_row x o' rows)"
    using Cons.prems
    by (auto simp: o' quota_row_def row_ok_def DIMENSIONS_BY_ROLE_def quota_targets_def alerting_workloads_def
        intro!: rows_ok_update)
  then show ?case using Cons.IH by simp
qed simp


lemma alert_rows_ok:
  "rows_ok rows \<Longrightarrow> (\<And>w. w \<in> set ws \<Longrightarrow> is_workload w) \<Longrightarrow> rows_ok (fold alert_row ws rows)"
proof (induction ws arbitrary: rows)
  case (Cons w ws)
  have "rows_ok (alert_row w rows)"
    using Cons.prems(1) workload_not_pod [OF Cons.prems(2) [of w]]
    by (auto simp: alert_row_def rows_ok_def row_ok_def DIMENSIONS_BY_ROLE_def map_of_eq_None_iff)
  then show ?case using Cons.IH Cons.prems(2) by simp
qed simp

lemma frontier_rows_ok: "rows_ok (frontier_rows_of x history onset)"
  unfolding frontier_rows_of_def
  by (rule alert_rows_ok [OF quota_rows_ok [OF edge_rows_ok]]) (simp_all add: rows_ok_def alerting_kind)



section \<open>Alternatives\<close>

lemma frontier_members:
  "a \<in> set (derive_structural_frontier digest x history onset)
   \<longleftrightarrow> (\<exists>row\<in>set (frontier_rows_of x history onset). a = alternative_of digest x row)"
  by (auto simp: derive_structural_frontier_def)

lemma alternative_fields [simp]:
  "alternative_actor (alternative_of digest x row) = fst (fst row)"
  "alternative_role (alternative_of digest x row) = snd (fst row)"
  "set (affected_entities (alternative_of digest x row)) = set (fst (snd row))"
  by (simp_all add: alternative_of_def split: prod.split)





section \<open>The form of an alternative\<close>

definition alternative_ok :: "frontier_context \<Rightarrow> derived_alternative \<Rightarrow> bool" where
  "alternative_ok x a \<longleftrightarrow>
     map_of DIMENSIONS_BY_ROLE (alternative_role a) = Some (queryable_dimensions a)
     \<and> queried_dimensions a = [] \<and> frontier_status a = UNEXPLORED \<and> alternative_answer a = None
     \<and> affected_entities a \<noteq> [] \<and> distinct (affected_entities a) \<and> sorted (map canonical (affected_entities a))
     \<and> distinct (alternative_targets a) \<and> sorted (map canonical (alternative_targets a))
     \<and> insert (alternative_actor a) (set (affected_entities a)) \<subseteq> set (alternative_targets a)
     \<and> (kind (alternative_actor a) \<in> {''Pod'', ''Service''} \<longrightarrow> alternative_role a = ''dependency'')
     \<and> (alternative_path a \<noteq> [] \<longrightarrow> length (alternative_path a) \<le> 4
          \<and> (\<exists>s\<in>set (frontier_symptoms x).
                walk {h. causal_step (frontier_topology x) h} (alternative_actor a) (alternative_path a) s))
     \<and> length (linked_symptoms a) \<le> 8 \<and> sorted (linked_symptoms a)
     \<and> set (linked_symptoms a) \<subseteq> canonical ` set (frontier_symptoms x)"

lemma related_targets_cover:
  "affected \<noteq> [] \<Longrightarrow> insert actor (set affected) \<subseteq> set (concat (map (related_targets t actor) affected))"
  by (cases affected) (auto simp: related_targets_def)

lemma linked_form:
  "length (linked_symptoms_of x actor) \<le> 8 \<and> sorted (linked_symptoms_of x actor)
   \<and> set (linked_symptoms_of x actor) \<subseteq> canonical ` set (frontier_symptoms x)"
  unfolding linked_symptoms_of_def by (auto simp: sorted_wrt_take dest!: in_set_takeD)

lemma alternative_of_ok:
  assumes "row_ok row"
  shows "alternative_ok x (alternative_of digest x row)"
proof -
  obtain actor r affected basis where row: "row = ((actor, r), affected, basis)" by (metis prod.collapse)
  have ok: "affected \<noteq> []" "distinct affected" "kind actor \<in> {''Pod'', ''Service''} \<longrightarrow> r = ''dependency''"
    and known: "map_of DIMENSIONS_BY_ROLE r \<noteq> None"
    using assms by (auto simp: row_ok_def row map_of_eq_None_iff)
  have some: "sort_key canonical affected \<noteq> []" using ok(1) by (metis set_empty set_sort)
  have path: "length p \<le> 4 \<and> (\<exists>s\<in>set (frontier_symptoms x). walk {h. causal_step (frontier_topology x) h} actor p s)"
    if "causal_path (frontier_topology x) 4 actor (frontier_symptoms x) = Some p" for p
    using causal_path_walk [OF that] by blast
  show ?thesis
    unfolding alternative_ok_def
    using ok some known path linked_form [of x actor] related_targets_cover [OF ok(1), of actor "frontier_topology x"]
    by (auto simp: row alternative_of_def split: option.splits)
qed

text \<open>
  Every alternative of the frontier is well formed. Its role is one of the known roles, and the dimensions it
  can be asked in are those of its role; nothing was asked or answered yet. It names the entities it
  affects, at least one, each once and in order, and they and the actor are among the entities to
  observe. Only a dependency is ever a Pod or a Service. The path it shows is a chain of at most four causal
  relations of the topology from the actor to an alerting entity, and the symptoms it names are at most
  eight of those of the incident.
\<close>

theorem frontier_is_well_formed: "list_all (alternative_ok x) (derive_structural_frontier digest x history onset)"
  unfolding list_all_iff
  using frontier_rows_ok [of x history onset] alternative_of_ok by (auto simp: frontier_members rows_ok_def)

end
